(* ===== verification/Prelude.thy ===== *)
theory Prelude
  imports Main "HOL-Library.Word" "HOL-Library.Sublist" "HOL-Library.Char_ord"
    "HOL-Library.List_Lexorder"
begin

text \<open>
  What every component of the development shares: the machine integers of the Rust code,
  the operations of \<open>str\<close> the code uses, big-endian byte encodings, and iteration over the
  hash containers of the standard library, whose order is unspecified.

  Conventions. A Rust \<open>str\<close> is a \<^typ>\<open>string\<close>, the list of the bytes of its UTF-8 encoding
  (Isabelle's \<^typ>\<open>char\<close> is a byte), so \<open>len\<close> is \<^const>\<open>length\<close>. Network buffers are lists of
  \<open>u8\<close>. Unsigned counters are naturals with the saturation of the source written out, \<open>i32\<close>
  values are integers with the two's complement wrap-around written out, and identifiers or
  masks that the code shifts and combines bitwise are words.
\<close>

section \<open>Machine integers\<close>

type_synonym u8 = "8 word"
type_synonym u16 = "16 word"
type_synonym u32 = "32 word"
type_synonym u64 = "64 word"
type_synonym u128 = "128 word"

named_theorems num_defs \<open>saturating and wrapping arithmetic, unfolded\<close>
named_theorems str_simps \<open>facts on the string operations\<close>

definition u32_max :: nat where
  "u32_max = 4294967295"

definition u64_max :: nat where
  "u64_max = 18446744073709551615"

definition sat_add32 :: "nat \<Rightarrow> nat \<Rightarrow> nat" where
  "sat_add32 a b = min (a + b) u32_max"

definition sat_add64 :: "nat \<Rightarrow> nat \<Rightarrow> nat" where
  "sat_add64 a b = min (a + b) u64_max"

definition i32_min :: int where
  "i32_min = - 2147483648"

definition i32_max :: int where
  "i32_max = 2147483647"

definition i32_range :: "int \<Rightarrow> bool" where
  "i32_range x \<longleftrightarrow> i32_min \<le> x \<and> x \<le> i32_max"

definition wrap_i32 :: "int \<Rightarrow> int" where
  "wrap_i32 x = (x + 2147483648) mod 4294967296 - 2147483648"

definition sat_add_i32 :: "int \<Rightarrow> int \<Rightarrow> int" where
  "sat_add_i32 a b = max i32_min (min i32_max (a + b))"

declare u32_max_def [num_defs] u64_max_def [num_defs] sat_add32_def [num_defs]
  sat_add64_def [num_defs] i32_min_def [num_defs] i32_max_def [num_defs]
  i32_range_def [num_defs] wrap_i32_def [num_defs] sat_add_i32_def [num_defs]

lemma wrap_i32_id: "i32_range x \<Longrightarrow> wrap_i32 x = x"
  by (simp add: num_defs)

lemma wrap_i32_range [simp, intro]: "i32_range (wrap_i32 x)"
proof -
  have "0 \<le> (x + 2147483648) mod 4294967296" and "(x + 2147483648) mod 4294967296 < 4294967296"
    by simp_all
  then show ?thesis by (simp add: num_defs)
qed

lemma sat_add64_le: "sat_add64 a b \<le> u64_max"
  by (simp add: num_defs)

lemma sat_add64_exact: "a + b \<le> u64_max \<Longrightarrow> sat_add64 a b = a + b"
  by (simp add: num_defs)

lemma sat_add64_ge: "a \<le> u64_max \<Longrightarrow> a \<le> sat_add64 a b"
  by (simp add: num_defs)

lemma sat_add64_Suc: "a < u64_max \<Longrightarrow> sat_add64 a 1 = Suc a"
  by (simp add: num_defs)

lemma sat_add32_exact: "a + b \<le> u32_max \<Longrightarrow> sat_add32 a b = a + b"
  by (simp add: num_defs)

lemma sat_add32_le: "sat_add32 a b \<le> u32_max"
  by (simp add: num_defs)

section \<open>Big-endian encodings\<close>

text \<open>
  \<open>be_bytes n v\<close> is \<open>to_be_bytes\<close> of an \<open>n\<close>-byte unsigned integer, \<open>be_value\<close> is the value
  that \<open>from_be_bytes\<close> reads.
\<close>

fun be_bytes :: "nat \<Rightarrow> nat \<Rightarrow> u8 list" where
  "be_bytes 0 v = []"
| "be_bytes (Suc n) v = be_bytes n (v div 256) @ [word_of_nat (v mod 256)]"

definition be_value :: "u8 list \<Rightarrow> nat" where
  "be_value bs = foldl (\<lambda>a b. a * 256 + unat b) 0 bs"

lemma length_be_bytes [simp]: "length (be_bytes n v) = n"
  by (induction n arbitrary: v) auto

lemma be_bytes_num:
  "be_bytes (numeral k) v = be_bytes (pred_numeral k) (v div 256) @ [word_of_nat (v mod 256)]"
  using be_bytes.simps(2) [of "pred_numeral k" v] by (simp only: numeral_eq_Suc [symmetric])

lemma be_value_Nil [simp]: "be_value [] = 0"
  by (simp add: be_value_def)

lemma be_value_snoc [simp]: "be_value (bs @ [b]) = be_value bs * 256 + unat b"
  by (simp add: be_value_def)

lemma unat_u8_less [simp]: "unat (b :: u8) < 256"
proof -
  have "unat b < 2 ^ LENGTH(8)" by (rule unsigned_less)
  then show ?thesis by simp
qed

lemma unat_of_nat_mod256 [simp]: "unat (word_of_nat (v mod 256) :: u8) = v mod 256"
  by (simp add: unat_of_nat)

lemma be_value_be_bytes: "v < 256 ^ n \<Longrightarrow> be_value (be_bytes n v) = v"
proof (induction n arbitrary: v)
  case 0
  then show ?case by simp
next
  case (Suc n)
  then have "v div 256 < 256 ^ n"
    by (simp add: less_mult_imp_div_less mult.commute)
  with Suc.IH show ?case by simp
qed

lemma be_value_less: "be_value bs < 256 ^ length bs"
proof (induction bs rule: rev_induct)
  case Nil
  then show ?case by simp
next
  case (snoc b bs)
  have "unat b < 256" by simp
  moreover have "be_value bs + 1 \<le> 256 ^ length bs" using snoc by simp
  then have "(be_value bs + 1) * 256 \<le> 256 ^ length bs * 256" by (rule mult_le_mono1)
  ultimately show ?case
    by (simp add: mult.commute) (use \<open>unat b < 256\<close> in linarith)
qed

lemma be_bytes_be_value: "be_bytes (length bs) (be_value bs) = bs"
proof (induction bs rule: rev_induct)
  case Nil
  then show ?case by simp
next
  case (snoc b bs)
  have b: "unat b < 256" by simp
  then have "(be_value bs * 256 + unat b) div 256 = be_value bs"
    and "(be_value bs * 256 + unat b) mod 256 = unat b" by simp_all
  with snoc show ?case by simp
qed

section \<open>Unspecified iteration order\<close>

text \<open>
  \<open>HashMap\<close> and \<open>HashSet\<close> iterate in an order the standard library does not specify. Where
  the code's result can depend on it, the model takes the order as an argument: a function
  that lists the elements of a finite set, given by its membership test, each once. Sorting
  is one such order.
\<close>

definition iter_ok :: "(('a \<Rightarrow> bool) \<Rightarrow> 'a list) \<Rightarrow> bool" where
  "iter_ok iter \<longleftrightarrow> (\<forall>P. finite {x. P x} \<longrightarrow> set (iter P) = {x. P x} \<and> distinct (iter P))"

text \<open>The keys of a hash map and the elements of a hash set, in iteration order.\<close>

definition map_keys :: "(('k \<Rightarrow> bool) \<Rightarrow> 'k list) \<Rightarrow> ('k \<rightharpoonup> 'v) \<Rightarrow> 'k list" where
  "map_keys iter m = iter (\<lambda>k. m k \<noteq> None)"

definition set_elems :: "(('k \<Rightarrow> bool) \<Rightarrow> 'k list) \<Rightarrow> 'k set \<Rightarrow> 'k list" where
  "set_elems iter S = iter (\<lambda>k. k \<in> S)"

lemma set_map_keys: "iter_ok iter \<Longrightarrow> finite (dom m) \<Longrightarrow> set (map_keys iter m) = dom m"
  by (simp add: iter_ok_def map_keys_def dom_def)

lemma distinct_map_keys: "iter_ok iter \<Longrightarrow> finite (dom m) \<Longrightarrow> distinct (map_keys iter m)"
  by (simp add: iter_ok_def map_keys_def dom_def)

lemma set_set_elems: "iter_ok iter \<Longrightarrow> finite S \<Longrightarrow> set (set_elems iter S) = S"
  by (simp add: iter_ok_def set_elems_def)

lemma distinct_set_elems: "iter_ok iter \<Longrightarrow> finite S \<Longrightarrow> distinct (set_elems iter S)"
  by (simp add: iter_ok_def set_elems_def)

lemma iter_ok_sorted: "iter_ok (\<lambda>P. sorted_list_of_set {x :: 'a::linorder. P x})"
  by (simp add: iter_ok_def)

section \<open>Hash maps as lists of values\<close>

text \<open>\<open>values().cloned().collect()\<close> of a hash map, in the order \<open>iter\<close> lists its keys.\<close>

definition map_values :: "(('k \<Rightarrow> bool) \<Rightarrow> 'k list) \<Rightarrow> ('k \<rightharpoonup> 'v) \<Rightarrow> 'v list" where
  "map_values iter m = map (\<lambda>k. the (m k)) (map_keys iter m)"

lemma set_map_values: "iter_ok iter \<Longrightarrow> finite (dom m) \<Longrightarrow> set (map_values iter m) = ran m"
  by (fastforce simp: map_values_def set_map_keys ran_def dom_def image_iff)

text \<open>Building a hash map from a list of values, by a key of each.\<close>

definition map_by_key :: "('v \<Rightarrow> 'k) \<Rightarrow> 'v list \<Rightarrow> 'k \<rightharpoonup> 'v" where
  "map_by_key key vs = foldl (\<lambda>m v. m(key v \<mapsto> v)) Map.empty vs"

lemma map_by_key_snoc [simp]: "map_by_key key (vs @ [v]) = (map_by_key key vs)(key v \<mapsto> v)"
  by (simp add: map_by_key_def)

lemma map_by_key_Nil [simp]: "map_by_key key [] = Map.empty"
  by (simp add: map_by_key_def)

lemma map_by_key_SomeD: "map_by_key key vs k = Some v \<Longrightarrow> v \<in> set vs \<and> key v = k"
  by (induction vs rule: rev_induct) (auto split: if_splits)

lemma map_by_key_complete: "v \<in> set vs \<Longrightarrow> map_by_key key vs (key v) \<noteq> None"
  by (induction vs rule: rev_induct) auto

lemma map_by_key_inj:
  assumes "v \<in> set vs" "\<And>u. u \<in> set vs \<Longrightarrow> key u = key v \<Longrightarrow> u = v"
  shows "map_by_key key vs (key v) = Some v"
proof -
  from map_by_key_complete [OF assms(1)] obtain u where "map_by_key key vs (key v) = Some u" by auto
  with map_by_key_SomeD [OF this] assms(2) show ?thesis by auto
qed

lemma map_by_key_filter_values:
  assumes "iter_ok iter" "finite (dom m)" "\<And>k v. m k = Some v \<Longrightarrow> key v = k"
  shows "map_by_key key (filter P (map_values iter m)) k
    = (case m k of None \<Rightarrow> None | Some v \<Rightarrow> if P v then Some v else None)"
proof -
  have vals: "u \<in> set (map_values iter m) \<longleftrightarrow> (\<exists>j. m j = Some u)" for u
    using assms(1,2) by (auto simp: set_map_values ran_def)
  show ?thesis
  proof (cases "\<exists>v. m k = Some v \<and> P v")
    case True
    then obtain v where v: "m k = Some v" "P v" by blast
    then have "key v = k" using assms(3) by blast
    moreover have "map_by_key key (filter P (map_values iter m)) (key v) = Some v"
      using v assms(3) by (intro map_by_key_inj) (force simp: vals)+
    ultimately show ?thesis using v by simp
  next
    case False
    have "map_by_key key (filter P (map_values iter m)) k = None"
    proof (rule ccontr)
      assume "\<not> ?thesis"
      then obtain v where "map_by_key key (filter P (map_values iter m)) k = Some v" by auto
      from map_by_key_SomeD [OF this] False show False
        using assms(3) by (force simp: vals)
    qed
    then show ?thesis using False by (auto split: option.splits)
  qed
qed

text \<open>The first occurrence of each element, in order: what a \<open>HashSet\<close> of the elements seen keeps.\<close>

definition dedup :: "'a list \<Rightarrow> 'a list" where
  "dedup xs = rev (remdups (rev xs))"

lemma set_dedup [simp]: "set (dedup xs) = set xs"
  by (simp add: dedup_def)

lemma distinct_dedup [simp]: "distinct (dedup xs)"
  by (simp add: dedup_def)

end
