(* ===== verification/RustStr.thy ===== *)
theory RustStr
  imports Prelude
begin

text \<open>
  The operations of Rust's \<open>str\<close> that the code uses, on the bytes of the UTF-8 encoding:
  \<open>trim\<close> and its two halves (with the 25 characters of Unicode's \<open>White_Space\<close>, by their
  encodings), ASCII case folding, prefixes, substring search, splitting, and the integer
  parsers. The lemmas say that trimming and case folding commute and are idempotent, which
  is what makes the trimmed lower-case form a canonical key.
\<close>

section \<open>White space\<close>

definition uni_ws :: "string list" where
  "uni_ws =
     [[CHR 0x09], [CHR 0x0A], [CHR 0x0B], [CHR 0x0C], [CHR 0x0D], [CHR 0x20],
      [CHR 0xC2, CHR 0x85], [CHR 0xC2, CHR 0xA0], [CHR 0xE1, CHR 0x9A, CHR 0x80],
      [CHR 0xE2, CHR 0x80, CHR 0x80], [CHR 0xE2, CHR 0x80, CHR 0x81],
      [CHR 0xE2, CHR 0x80, CHR 0x82], [CHR 0xE2, CHR 0x80, CHR 0x83],
      [CHR 0xE2, CHR 0x80, CHR 0x84], [CHR 0xE2, CHR 0x80, CHR 0x85],
      [CHR 0xE2, CHR 0x80, CHR 0x86], [CHR 0xE2, CHR 0x80, CHR 0x87],
      [CHR 0xE2, CHR 0x80, CHR 0x88], [CHR 0xE2, CHR 0x80, CHR 0x89],
      [CHR 0xE2, CHR 0x80, CHR 0x8A], [CHR 0xE2, CHR 0x80, CHR 0xA8],
      [CHR 0xE2, CHR 0x80, CHR 0xA9], [CHR 0xE2, CHR 0x80, CHR 0xAF],
      [CHR 0xE2, CHR 0x81, CHR 0x9F], [CHR 0xE3, CHR 0x80, CHR 0x80]]"

text \<open>The white-space character a string starts (ends) with, as its bytes.\<close>

definition ws_head :: "string \<Rightarrow> string option" where
  "ws_head s = find (\<lambda>w. prefix w s) uni_ws"

definition ws_tail :: "string \<Rightarrow> string option" where
  "ws_tail s = find (\<lambda>w. suffix w s) uni_ws"

lemma uni_ws_nonempty: "[] \<notin> set uni_ws"
  by (simp add: uni_ws_def)

lemma ws_head_SomeD: "ws_head s = Some w \<Longrightarrow> prefix w s \<and> w \<noteq> []"
  unfolding ws_head_def find_Some_iff using uni_ws_nonempty by (metis nth_mem)

lemma ws_tail_SomeD: "ws_tail s = Some w \<Longrightarrow> suffix w s \<and> w \<noteq> []"
  unfolding ws_tail_def find_Some_iff using uni_ws_nonempty by (metis nth_mem)

lemma ws_head_None_iff: "ws_head s = None \<longleftrightarrow> (\<forall>w \<in> set uni_ws. \<not> prefix w s)"
  by (auto simp: ws_head_def find_None_iff)

lemma ws_tail_None_iff: "ws_tail s = None \<longleftrightarrow> (\<forall>w \<in> set uni_ws. \<not> suffix w s)"
  by (auto simp: ws_tail_def find_None_iff)

function trim_start :: "string \<Rightarrow> string" where
  "trim_start s = (case ws_head s of None \<Rightarrow> s | Some w \<Rightarrow> trim_start (drop (length w) s))"
  by pat_completeness auto
termination
  by (relation "measure length") (auto dest!: ws_head_SomeD simp: prefix_def)

function trim_end :: "string \<Rightarrow> string" where
  "trim_end s =
     (case ws_tail s of None \<Rightarrow> s | Some w \<Rightarrow> trim_end (take (length s - length w) s))"
  by pat_completeness auto
termination
  by (relation "measure length") (auto dest!: ws_tail_SomeD simp: suffix_def)

declare trim_start.simps [simp del] trim_end.simps [simp del]

definition trim :: "string \<Rightarrow> string" where
  "trim s = trim_end (trim_start s)"

lemma ws_head_trim_start [simp]: "ws_head (trim_start s) = None"
  by (induction s rule: trim_start.induct) (subst trim_start.simps, simp split: option.splits)

lemma ws_tail_trim_end [simp]: "ws_tail (trim_end s) = None"
  by (induction s rule: trim_end.induct) (subst trim_end.simps, simp split: option.splits)

lemma trim_start_id: "ws_head s = None \<Longrightarrow> trim_start s = s"
  by (subst trim_start.simps) simp

lemma trim_end_id: "ws_tail s = None \<Longrightarrow> trim_end s = s"
  by (subst trim_end.simps) simp

lemma prefix_trim_end: "prefix (trim_end s) s"
proof (induction s rule: trim_end.induct)
  case (1 s)
  show ?case
  proof (cases "ws_tail s")
    case None
    then show ?thesis by (simp add: trim_end_id)
  next
    case (Some w)
    then have "trim_end s = trim_end (take (length s - length w) s)"
      by (subst trim_end.simps) simp
    with 1 [OF Some] show ?thesis
      using prefix_order.trans take_is_prefix by metis
  qed
qed

lemma ws_head_prefix: "ws_head s = None \<Longrightarrow> prefix t s \<Longrightarrow> ws_head t = None"
  by (auto simp: ws_head_None_iff intro: prefix_order.trans)

lemma ws_head_trim [simp]: "ws_head (trim s) = None"
  unfolding trim_def by (rule ws_head_prefix [OF _ prefix_trim_end]) simp

lemma ws_tail_trim [simp]: "ws_tail (trim s) = None"
  by (simp add: trim_def)

lemma trim_id: "ws_head s = None \<Longrightarrow> ws_tail s = None \<Longrightarrow> trim s = s"
  by (simp add: trim_def trim_start_id trim_end_id)

lemma trim_idem [simp, str_simps]: "trim (trim s) = trim s"
  by (rule trim_id) simp_all

lemma trim_Nil [simp, str_simps]: "trim [] = []"
  by (rule trim_id) (simp_all add: ws_head_def ws_tail_def uni_ws_def)

section \<open>ASCII case\<close>

definition is_ascii_upper :: "char \<Rightarrow> bool" where
  "is_ascii_upper c \<longleftrightarrow> 65 \<le> (of_char c :: nat) \<and> (of_char c :: nat) \<le> 90"

definition is_ascii_lower :: "char \<Rightarrow> bool" where
  "is_ascii_lower c \<longleftrightarrow> 97 \<le> (of_char c :: nat) \<and> (of_char c :: nat) \<le> 122"

definition is_ascii_digit :: "char \<Rightarrow> bool" where
  "is_ascii_digit c \<longleftrightarrow> 48 \<le> (of_char c :: nat) \<and> (of_char c :: nat) \<le> 57"

definition is_ascii_alnum :: "char \<Rightarrow> bool" where
  "is_ascii_alnum c \<longleftrightarrow> is_ascii_upper c \<or> is_ascii_lower c \<or> is_ascii_digit c"

definition ascii_lower :: "char \<Rightarrow> char" where
  "ascii_lower c = (if is_ascii_upper c then char_of ((of_char c :: nat) + 32) else c)"

definition to_ascii_lowercase :: "string \<Rightarrow> string" where
  "to_ascii_lowercase s = map ascii_lower s"

definition eq_ignore_ascii_case :: "string \<Rightarrow> string \<Rightarrow> bool" where
  "eq_ignore_ascii_case a b \<longleftrightarrow> to_ascii_lowercase a = to_ascii_lowercase b"

lemma of_char_ascii_lower:
  "(of_char (ascii_lower c) :: nat) =
     (if is_ascii_upper c then of_char c + 32 else of_char c)"
  by (simp add: ascii_lower_def is_ascii_upper_def of_char_of)

lemma not_upper_ascii_lower [simp]: "\<not> is_ascii_upper (ascii_lower c)"
  by (simp add: is_ascii_upper_def of_char_ascii_lower)

lemma ascii_lower_idem [simp]: "ascii_lower (ascii_lower c) = ascii_lower c"
  using not_upper_ascii_lower [of c] by (simp add: ascii_lower_def)

lemma to_ascii_lowercase_idem [simp, str_simps]:
  "to_ascii_lowercase (to_ascii_lowercase s) = to_ascii_lowercase s"
  by (simp add: to_ascii_lowercase_def)

lemma to_ascii_lowercase_Nil [simp]: "to_ascii_lowercase [] = []"
  by (simp add: to_ascii_lowercase_def)

lemma to_ascii_lowercase_eq_Nil [simp]: "to_ascii_lowercase s = [] \<longleftrightarrow> s = []"
  by (simp add: to_ascii_lowercase_def)

lemma to_ascii_lowercase_append [simp, str_simps]:
  "to_ascii_lowercase (a @ b) = to_ascii_lowercase a @ to_ascii_lowercase b"
  by (simp add: to_ascii_lowercase_def)

lemma length_to_ascii_lowercase [simp]: "length (to_ascii_lowercase s) = length s"
  by (simp add: to_ascii_lowercase_def)

lemma drop_to_ascii_lowercase:
  "drop n (to_ascii_lowercase s) = to_ascii_lowercase (drop n s)"
  by (simp add: to_ascii_lowercase_def drop_map)

lemma take_to_ascii_lowercase:
  "take n (to_ascii_lowercase s) = to_ascii_lowercase (take n s)"
  by (simp add: to_ascii_lowercase_def take_map)

lemma eq_ignore_ascii_case_refl [simp]: "eq_ignore_ascii_case a a"
  by (simp add: eq_ignore_ascii_case_def)

lemma ascii_lower_eq_iff:
  "\<not> is_ascii_upper c \<Longrightarrow> \<not> is_ascii_lower c \<Longrightarrow> ascii_lower x = c \<longleftrightarrow> x = c"
proof -
  assume c: "\<not> is_ascii_upper c" "\<not> is_ascii_lower c"
  have "is_ascii_upper x \<Longrightarrow> is_ascii_lower (ascii_lower x)"
    by (simp add: is_ascii_lower_def of_char_ascii_lower is_ascii_upper_def)
  with c show ?thesis by (auto simp: ascii_lower_def)
qed

lemma prefix_map_iff:
  "(\<And>c x. c \<in> set w \<Longrightarrow> f x = c \<longleftrightarrow> x = c) \<Longrightarrow> prefix w (map f s) \<longleftrightarrow> prefix w s"
proof (induction w arbitrary: s)
  case Nil
  then show ?case by simp
next
  case (Cons c w)
  then show ?case by (cases s) (auto simp: eq_commute [of c])
qed

lemma suffix_map_iff:
  "(\<And>c x. c \<in> set w \<Longrightarrow> f x = c \<longleftrightarrow> x = c) \<Longrightarrow> suffix w (map f s) \<longleftrightarrow> suffix w s"
  using prefix_map_iff [of "rev w" f "rev s"] by (simp add: suffix_to_prefix rev_map)

lemma uni_ws_caseless:
  "w \<in> set uni_ws \<Longrightarrow> c \<in> set w \<Longrightarrow> \<not> is_ascii_upper c \<and> \<not> is_ascii_lower c"
  by (auto simp: uni_ws_def is_ascii_upper_def is_ascii_lower_def)

lemma find_cong_set: "(\<And>x. x \<in> set xs \<Longrightarrow> P x = Q x) \<Longrightarrow> find P xs = find Q xs"
  by (induction xs) auto

lemma ws_head_lower [simp]: "ws_head (to_ascii_lowercase s) = ws_head s"
  unfolding ws_head_def to_ascii_lowercase_def
  by (rule find_cong_set, rule prefix_map_iff) (metis uni_ws_caseless ascii_lower_eq_iff)

lemma ws_tail_lower [simp]: "ws_tail (to_ascii_lowercase s) = ws_tail s"
  unfolding ws_tail_def to_ascii_lowercase_def
  by (rule find_cong_set, rule suffix_map_iff) (metis uni_ws_caseless ascii_lower_eq_iff)

lemma trim_start_lower [str_simps]:
  "trim_start (to_ascii_lowercase s) = to_ascii_lowercase (trim_start s)"
proof (induction s rule: trim_start.induct)
  case (1 s)
  then show ?case
    by (cases "ws_head s")
      (simp_all add: trim_start.simps [of s] trim_start.simps [of "to_ascii_lowercase s"]
        drop_to_ascii_lowercase)
qed

lemma trim_end_lower [str_simps]:
  "trim_end (to_ascii_lowercase s) = to_ascii_lowercase (trim_end s)"
proof (induction s rule: trim_end.induct)
  case (1 s)
  then show ?case
    by (cases "ws_tail s")
      (simp_all add: trim_end.simps [of s] trim_end.simps [of "to_ascii_lowercase s"]
        take_to_ascii_lowercase)
qed

lemma trim_lower [str_simps]: "trim (to_ascii_lowercase s) = to_ascii_lowercase (trim s)"
  by (simp add: trim_def trim_start_lower trim_end_lower)

text \<open>
  The canonical form of a name used as a key: \<open>s.trim().to_ascii_lowercase()\<close>.
\<close>

definition norm_key :: "string \<Rightarrow> string" where
  "norm_key s = to_ascii_lowercase (trim s)"

lemma norm_key_idem [simp, str_simps]: "norm_key (norm_key s) = norm_key s"
  by (simp add: norm_key_def trim_lower)

lemma norm_key_lower [simp, str_simps]: "norm_key (to_ascii_lowercase s) = norm_key s"
  by (simp add: norm_key_def trim_lower)

lemma norm_key_trim [simp, str_simps]: "norm_key (trim s) = norm_key s"
  by (simp add: norm_key_def)

lemma trim_norm_key [simp, str_simps]: "trim (norm_key s) = norm_key s"
  by (simp add: norm_key_def trim_lower)

lemma lower_norm_key [simp, str_simps]: "to_ascii_lowercase (norm_key s) = norm_key s"
  by (simp add: norm_key_def)

lemma norm_key_eq_ignore_case: "eq_ignore_ascii_case a b \<Longrightarrow> norm_key a = norm_key b"
  by (metis eq_ignore_ascii_case_def norm_key_lower)

section \<open>Prefixes, substrings, splitting\<close>

definition strip_prefix :: "string \<Rightarrow> string \<Rightarrow> string option" where
  "strip_prefix p s = (if prefix p s then Some (drop (length p) s) else None)"

fun str_find :: "string \<Rightarrow> string \<Rightarrow> nat option" where
  "str_find t [] = (if t = [] then Some 0 else None)"
| "str_find t (c # s) =
     (if prefix t (c # s) then Some 0 else map_option Suc (str_find t s))"

definition str_contains :: "string \<Rightarrow> string \<Rightarrow> bool" where
  "str_contains s t \<longleftrightarrow> str_find t s \<noteq> None"

lemma str_find_Some_prefix: "str_find t s = Some i \<Longrightarrow> prefix t (drop i s) \<and> i \<le> length s"
  by (induction s arbitrary: i) (auto split: if_splits)

lemma str_contains_iff: "str_contains s t \<longleftrightarrow> sublist t s"
  unfolding str_contains_def
proof (induction s)
  case Nil
  then show ?case by simp
next
  case (Cons c s)
  then show ?case by (auto simp: sublist_Cons_right)
qed

text \<open>\<open>split(c)\<close> on a one-byte separator: always at least one piece.\<close>

fun split_char :: "char \<Rightarrow> string \<Rightarrow> string list" where
  "split_char c [] = [[]]"
| "split_char c (x # s) =
     (if x = c then [] # split_char c s
      else (case split_char c s of [] \<Rightarrow> [[x]] | p # ps \<Rightarrow> (x # p) # ps))"

text \<open>\<open>split_once(c)\<close> on a one-byte separator, and \<open>lines()\<close>: the pieces before each line end,
  without a trailing carriage return; a final line end starts no further line.\<close>

fun split_once :: "char \<Rightarrow> string \<Rightarrow> (string \<times> string) option" where
  "split_once c [] = None"
| "split_once c (x # s) =
     (if x = c then Some ([], s)
      else (case split_once c s of None \<Rightarrow> None | Some (a, b) \<Rightarrow> Some (x # a, b)))"

definition strip_cr :: "string \<Rightarrow> string" where
  "strip_cr s = (if s \<noteq> [] \<and> last s = CHR 0x0D then butlast s else s)"

definition str_lines :: "string \<Rightarrow> string list" where
  "str_lines s =
     (let ps = split_char (CHR 0x0A) s in
      map strip_cr (butlast ps) @ (if last ps = [] then [] else [last ps]))"

lemma split_once_Some: "split_once c s = Some (a, b) \<Longrightarrow> s = a @ c # b \<and> c \<notin> set a"
  by (induction s arbitrary: a b) (auto split: if_splits option.splits)

lemma split_once_append: "c \<notin> set a \<Longrightarrow> split_once c (a @ c # b) = Some (a, b)"
  by (induction a) auto

text \<open>
  \<open>split_whitespace\<close>: the maximal runs without a white-space character. The first argument
  collects the run under way, last byte first.
\<close>

function split_ws_from :: "string \<Rightarrow> string \<Rightarrow> string list" where
  "split_ws_from acc s =
     (case ws_head s of
        Some w \<Rightarrow>
          (if acc = [] then [] else [rev acc]) @ split_ws_from [] (drop (length w) s)
      | None \<Rightarrow>
          (case s of
             [] \<Rightarrow> (if acc = [] then [] else [rev acc])
           | c # s' \<Rightarrow> split_ws_from (c # acc) s'))"
  by pat_completeness auto
termination
  by (relation "measure (\<lambda>(acc, s). length s)") (auto dest!: ws_head_SomeD simp: prefix_def)

declare split_ws_from.simps [simp del]

definition split_whitespace :: "string \<Rightarrow> string list" where
  "split_whitespace s = split_ws_from [] s"

fun join_with :: "string \<Rightarrow> string list \<Rightarrow> string" where
  "join_with sep [] = []"
| "join_with sep [x] = x"
| "join_with sep (x # y # xs) = x @ sep @ join_with sep (y # xs)"

section \<open>Integers as text\<close>

fun parse_digits_from :: "nat \<Rightarrow> string \<Rightarrow> nat option" where
  "parse_digits_from n [] = Some n"
| "parse_digits_from n (c # s) =
     (if is_ascii_digit c then parse_digits_from (n * 10 + (of_char c - 48)) s else None)"

text \<open>\<open>parse::<uN>()\<close>: an optional plus sign, at least one digit, no overflow.\<close>

definition parse_uint :: "nat \<Rightarrow> string \<Rightarrow> nat option" where
  "parse_uint mx s =
     (let ds = (case s of [] \<Rightarrow> [] | c # cs \<Rightarrow> if c = CHR ''+'' then cs else s) in
      if ds = [] then None
      else (case parse_digits_from 0 ds of
              None \<Rightarrow> None
            | Some n \<Rightarrow> if n \<le> mx then Some n else None))"

text \<open>\<open>parse::<i64>()\<close>: an optional sign, at least one digit, no overflow.\<close>

definition parse_i64 :: "string \<Rightarrow> int option" where
  "parse_i64 s =
     (case s of
        [] \<Rightarrow> None
      | c # cs \<Rightarrow>
          (if c = CHR ''-'' then
             (if cs = [] then None
              else (case parse_digits_from 0 cs of
                      None \<Rightarrow> None
                    | Some n \<Rightarrow> if n \<le> 9223372036854775808 then Some (- int n) else None))
           else map_option int (parse_uint 9223372036854775807 s)))"

text \<open>Decimal output (\<open>Display\<close> of an unsigned and a signed integer).\<close>

definition digit_char :: "nat \<Rightarrow> char" where
  "digit_char d = char_of (48 + d)"

fun show_nat :: "nat \<Rightarrow> string" where
  "show_nat n = (if n < 10 then [digit_char n] else show_nat (n div 10) @ [digit_char (n mod 10)])"

declare show_nat.simps [simp del]

definition show_int :: "int \<Rightarrow> string" where
  "show_int i = (if i < 0 then CHR ''-'' # show_nat (nat (- i)) else show_nat (nat i))"

lemma of_char_digit_char: "d < 10 \<Longrightarrow> (of_char (digit_char d) :: nat) = 48 + d"
  by (simp add: digit_char_def of_char_of)

lemma is_ascii_digit_digit_char: "d < 10 \<Longrightarrow> is_ascii_digit (digit_char d)"
  by (simp add: is_ascii_digit_def of_char_digit_char)

lemma parse_digits_from_append:
  "parse_digits_from n (a @ b) =
     (case parse_digits_from n a of None \<Rightarrow> None | Some m \<Rightarrow> parse_digits_from m b)"
  by (induction a arbitrary: n) auto

lemma parse_digits_show_nat: "parse_digits_from 0 (show_nat n) = Some n"
proof (induction n rule: show_nat.induct)
  case (1 n)
  show ?case
  proof (cases "n < 10")
    case True
    then show ?thesis
      by (simp add: show_nat.simps [of n] is_ascii_digit_digit_char of_char_digit_char)
  next
    case False
    with 1 show ?thesis
      by (simp add: show_nat.simps [of n] parse_digits_from_append is_ascii_digit_digit_char
          of_char_digit_char)
  qed
qed

lemma show_nat_nonempty [simp]: "show_nat n \<noteq> []"
  by (subst show_nat.simps) simp

lemma show_nat_digits: "\<forall>c \<in> set (show_nat n). is_ascii_digit c"
proof (induction n rule: show_nat.induct)
  case (1 n)
  then show ?case
    by (cases "n < 10") (auto simp: show_nat.simps [of n] is_ascii_digit_digit_char)
qed

lemma parse_uint_show_nat: "n \<le> mx \<Longrightarrow> parse_uint mx (show_nat n) = Some n"
proof -
  assume n: "n \<le> mx"
  obtain c cs where s: "show_nat n = c # cs" by (cases "show_nat n") auto
  then have "is_ascii_digit c" using show_nat_digits [of n] by simp
  then have "c \<noteq> CHR ''+''" by (auto simp: is_ascii_digit_def)
  with n s parse_digits_show_nat [of n] show ?thesis by (simp add: parse_uint_def)
qed

lemma parse_uint_le: "parse_uint mx s = Some n \<Longrightarrow> n \<le> mx"
  by (auto simp: parse_uint_def Let_def split: list.splits if_splits option.splits)

end
