(* ===== verification/Interfaces.thy ===== *)
theory Interfaces
  imports RustStr "HOL-Library.Multiset"
begin

text \<open>
  The contracts several components share, as locales: a machine whose every step keeps an
  invariant, a reader that cuts items off a buffered stream, an enumeration with a token for
  each value, and a replica that follows a source by its events. Each is interpreted, in the
  theory of the component that provides the operations, on the definitions that model the code.
\<close>

section \<open>A machine with an invariant\<close>

fun steps_ok :: "('s \<Rightarrow> 'e \<Rightarrow> 's) \<Rightarrow> ('s \<Rightarrow> 'e \<Rightarrow> bool) \<Rightarrow> 's \<Rightarrow> 'e list \<Rightarrow> bool" where
  "steps_ok step ok s [] = True"
| "steps_ok step ok s (e # es) = (ok s e \<and> steps_ok step ok (step s e) es)"

locale inv_machine =
  fixes step :: "'s \<Rightarrow> 'e \<Rightarrow> 's"
    and ok :: "'s \<Rightarrow> 'e \<Rightarrow> bool"
    and inv :: "'s \<Rightarrow> bool"
  assumes step_inv: "inv s \<Longrightarrow> ok s e \<Longrightarrow> inv (step s e)"
begin

lemma run_inv: "inv s \<Longrightarrow> steps_ok step ok s es \<Longrightarrow> inv (foldl step s es)"
  by (induction es arbitrary: s) (auto intro: step_inv)

lemma run_inv_always:
  "(\<And>s e. ok s e) \<Longrightarrow> inv s \<Longrightarrow> inv (foldl step s es)"
  by (induction es arbitrary: s) (auto intro: step_inv)

end

section \<open>A reader over a buffered stream\<close>

text \<open>
  \<open>cut\<close> looks at the buffer: it fails, finds a first item and the rest, or asks for more
  bytes. \<open>read\<close> loops over it, appending one chunk of the source at a time; the end of the
  source with an empty buffer is a clean end. \<open>cut_mono\<close> is what makes the result independent
  of how the source is chunked.
\<close>

locale chunk_reader =
  fixes cut :: "'b list \<Rightarrow> 'e + ('i \<times> 'b list) option"
    and eof :: "'e"
    and read :: "'b list \<Rightarrow> ('e + 'b list) list \<Rightarrow> ('e + 'i option) \<times> 'b list \<times> ('e + 'b list) list"
  assumes cut_mono: "cut b = Inr (Some (x, r)) \<Longrightarrow> cut (b @ c) = Inr (Some (x, r @ c))"
    and cut_Nil: "cut [] = Inr None"
    and read_err: "cut b = Inl e \<Longrightarrow> read b src = (Inl e, b, src)"
    and read_item: "cut b = Inr (Some (x, r)) \<Longrightarrow> read b src = (Inr (Some x), r, src)"
    and read_eof: "cut b = Inr None \<Longrightarrow>
      read b [] = ((if b = [] then Inr None else Inl eof), b, [])"
    and read_more: "cut b = Inr None \<Longrightarrow> c \<noteq> [] \<Longrightarrow> read b (Inr c # src) = read (b @ c) src"
begin

text \<open>
  An encoding of an item that \<open>cut\<close> cuts off exactly, and of which no proper prefix makes it
  fail or stop early, is read back from every chunking of the stream.
\<close>

definition framed :: "'b list \<Rightarrow> 'i \<Rightarrow> bool" where
  "framed e x \<longleftrightarrow> cut e = Inr (Some (x, [])) \<and> (\<forall>p. strict_prefix p e \<longrightarrow> cut p = Inr None)"

lemma framed_nonempty: "framed e x \<Longrightarrow> e \<noteq> []"
  by (auto simp: framed_def cut_Nil)

lemma read_framed:
  assumes "framed e x" "b @ concat cs = e @ t" "[] \<notin> set cs"
  shows "\<exists>b' cs'. read b (map Inr cs) = (Inr (Some x), b', map Inr cs') \<and> [] \<notin> set cs'
    \<and> b' @ concat cs' = t"
  using assms
proof (induction cs arbitrary: b)
  case Nil
  then have "cut b = Inr (Some (x, t))"
    using cut_mono [of e x "[]" t] by (simp add: framed_def)
  then show ?case using Nil by (auto simp: read_item)
next
  case (Cons c cs)
  show ?case
  proof (cases "prefix e b")
    case True
    then obtain r where b: "b = e @ r" by (auto simp: prefix_def)
    with Cons.prems have "cut b = Inr (Some (x, r))"
      using cut_mono [of e x "[]" r] by (simp add: framed_def)
    then have "read b (map Inr (c # cs)) = (Inr (Some x), r, map Inr (c # cs))"
      by (rule read_item)
    moreover have "r @ concat (c # cs) = t" using Cons.prems(2) b by simp
    ultimately show ?thesis using Cons.prems(3) by blast
  next
    case False
    have "prefix b (e @ t)" using Cons.prems(2) by (metis prefixI)
    moreover have "prefix e (e @ t)" by simp
    ultimately have "strict_prefix b e"
      using False prefix_same_cases prefix_order.order_iff_strict by blast
    with Cons.prems have more: "cut b = Inr None" by (simp add: framed_def)
    have "\<exists>b' cs'. read (b @ c) (map Inr cs) = (Inr (Some x), b', map Inr cs')
      \<and> [] \<notin> set cs' \<and> b' @ concat cs' = t"
      using Cons by simp
    moreover from more Cons.prems(3)
    have "read b (map Inr (c # cs)) = read (b @ c) (map Inr cs)"
      using read_more [of b c "map Inr cs"] by auto
    ultimately show ?thesis by (simp only:)
  qed
qed

lemma read_end: "b @ concat cs = [] \<Longrightarrow> [] \<notin> set cs \<Longrightarrow> read b (map Inr cs) = (Inr None, [], [])"
  using read_eof [of "[]"] by (cases cs) (auto simp: cut_Nil)

end

section \<open>Enumerations with tokens\<close>

text \<open>
  \<open>as_str\<close> and \<open>parse\<close> of a fieldless enum: the token of a value is in canonical form and is
  parsed back, and parsing sees a token only through its canonical form.
\<close>

locale token_enum =
  fixes vals :: "'a list"
    and as_str :: "'a \<Rightarrow> string"
    and parse :: "string \<Rightarrow> 'a option"
  assumes vals_all: "x \<in> set vals"
    and parse_as_str: "parse (as_str x) = Some x"
    and parse_norm: "parse s = parse (norm_key s)"
begin

lemma as_str_inj: "as_str x = as_str y \<longleftrightarrow> x = y"
  by (metis option.inject parse_as_str)

lemma parse_padded: "norm_key s = norm_key (as_str x) \<Longrightarrow> parse s = Some x"
  by (metis parse_as_str parse_norm)

lemma parse_any_case: "eq_ignore_ascii_case s (as_str x) \<Longrightarrow> parse s = Some x"
  by (intro parse_padded norm_key_eq_ignore_case)

lemma vals_exhaustive: "set vals = UNIV"
  using vals_all by auto

end

section \<open>A replica that follows a source\<close>

text \<open>
  A source moves by operations and emits events; a replica applies them. When each step of
  the source keeps the relation \<open>R\<close> between the two, a replica that has seen every event of a
  run is related to the source at the end of it.
\<close>

fun run_src :: "('s \<Rightarrow> 'o \<Rightarrow> 's \<times> 'e list) \<Rightarrow> 's \<Rightarrow> 'o list \<Rightarrow> 's \<times> 'e list" where
  "run_src step s [] = (s, [])"
| "run_src step s (opn # ops) =
     (let (s', es) = step s opn; (s'', es') = run_src step s' ops in (s'', es @ es'))"

fun run_ok :: "('s \<Rightarrow> 'o \<Rightarrow> 's \<times> 'e list) \<Rightarrow> ('s \<Rightarrow> 'o \<Rightarrow> bool) \<Rightarrow> 's \<Rightarrow> 'o list \<Rightarrow> bool" where
  "run_ok step ok s [] = True"
| "run_ok step ok s (opn # ops) = (ok s opn \<and> run_ok step ok (fst (step s opn)) ops)"

locale event_replica =
  fixes src_step :: "'s \<Rightarrow> 'o \<Rightarrow> 's \<times> 'e list"
    and apply_ev :: "'r \<Rightarrow> 'e \<Rightarrow> 'r"
    and R :: "'s \<Rightarrow> 'r \<Rightarrow> bool"
    and ok :: "'s \<Rightarrow> 'o \<Rightarrow> bool"
  assumes step_sim:
    "R s r \<Longrightarrow> ok s opn \<Longrightarrow> src_step s opn = (s', es) \<Longrightarrow> R s' (foldl apply_ev r es)"
begin

lemma run_sim: "R s r \<Longrightarrow> run_ok src_step ok s ops \<Longrightarrow> run_src src_step s ops = (s', es) \<Longrightarrow> R s' (foldl apply_ev r es)"
proof (induction ops arbitrary: s r s' es)
  case Nil
  then show ?case by simp
next
  case (Cons opn ops)
  obtain s1 es1 where s1: "src_step s opn = (s1, es1)" by (cases "src_step s opn")
  obtain s2 es2 where s2: "run_src src_step s1 ops = (s2, es2)" by (cases "run_src src_step s1 ops")
  from Cons.prems s1 have "R s1 (foldl apply_ev r es1)" by (auto intro: step_sim)
  moreover have "run_ok src_step ok s1 ops" using Cons.prems(2) s1 by simp
  ultimately have "R s2 (foldl apply_ev (foldl apply_ev r es1) es2)"
    using s2 by (rule Cons.IH)
  moreover have "s' = s2" "es = es1 @ es2" using Cons.prems(3) s1 s2 by simp_all
  ultimately show ?case by simp
qed

end

section \<open>A queue of timers\<close>

text \<open>
  Items are put in and the first one that is ready is taken out; \<open>before\<close> is the order in which
  they are to come. Taking until nothing is ready gives out ready items in that order.
\<close>

locale timer_queue =
  fixes put :: "'e \<Rightarrow> 'q \<Rightarrow> 'q"
    and take1 :: "'q \<Rightarrow> ('e \<times> 'q) option"
    and items :: "'q \<Rightarrow> 'e multiset"
    and ok :: "'q \<Rightarrow> bool"
    and before :: "'e \<Rightarrow> 'e \<Rightarrow> bool"
    and ready :: "'e \<Rightarrow> bool"
  assumes put_items: "items (put e q) = add_mset e (items q)"
    and put_ok: "ok q \<Longrightarrow> ok (put e q)"
    and take_ok: "ok q \<Longrightarrow> take1 q = Some (e, q') \<Longrightarrow> ok q'"
    and take_items: "take1 q = Some (e, q') \<Longrightarrow> items q = add_mset e (items q')"
    and take_ready: "ok q \<Longrightarrow> take1 q = Some (e, q') \<Longrightarrow> ready e"
    and take_first: "ok q \<Longrightarrow> take1 q = Some (e, q') \<Longrightarrow> x \<in># items q' \<Longrightarrow> before e x"
    and take_none: "ok q \<Longrightarrow> take1 q = None \<Longrightarrow> x \<in># items q \<Longrightarrow> \<not> ready x"
begin

fun take_all :: "nat \<Rightarrow> 'q \<Rightarrow> 'e list \<times> 'q" where
  "take_all 0 q = ([], q)"
| "take_all (Suc n) q =
     (case take1 q of
        None \<Rightarrow> ([], q)
      | Some (e, q') \<Rightarrow> apfst (Cons e) (take_all n q'))"

lemma take_all_items: "take_all n q = (es, q') \<Longrightarrow> items q = mset es + items q'"
  by (induction n arbitrary: q es) (auto split: option.splits simp: apfst_def map_prod_def
      take_items split: prod.splits)

lemma take_all_ready: "ok q \<Longrightarrow> take_all n q = (es, q') \<Longrightarrow> x \<in> set es \<Longrightarrow> ready x"
proof (induction n arbitrary: q es)
  case 0
  then show ?case by simp
next
  case (Suc n)
  show ?case
  proof (cases "take1 q")
    case None
    with Suc.prems show ?thesis by simp
  next
    case (Some p)
    then obtain e q1 where e: "take1 q = Some (e, q1)" by (cases p) auto
    obtain es1 where es: "take_all n q1 = (es1, q')" "es = e # es1"
      using Suc.prems(2) e by (cases "take_all n q1") auto
    show ?thesis
      using Suc.prems(3) es take_ready [OF Suc.prems(1) e]
        Suc.IH [OF take_ok [OF Suc.prems(1) e] es(1)] by auto
  qed
qed

lemma take_all_ordered: "ok q \<Longrightarrow> take_all n q = (es, q') \<Longrightarrow> sorted_wrt before es"
proof (induction n arbitrary: q es)
  case 0
  then show ?case by simp
next
  case (Suc n)
  show ?case
  proof (cases "take1 q")
    case None
    with Suc.prems show ?thesis by simp
  next
    case (Some p)
    then obtain e q1 where e: "take1 q = Some (e, q1)" by (cases p) auto
    obtain es1 where es: "take_all n q1 = (es1, q')" "es = e # es1"
      using Suc.prems(2) e by (cases "take_all n q1") auto
    have "x \<in># items q1" if "x \<in> set es1" for x
      using take_all_items [OF es(1)] that by simp
    with es Suc.IH [OF take_ok [OF Suc.prems(1) e] es(1)] show ?thesis
      using take_first [OF Suc.prems(1) e] by simp
  qed
qed

lemma take_all_rest:
  "ok q \<Longrightarrow> size (items q) \<le> n \<Longrightarrow> take_all n q = (es, q') \<Longrightarrow> x \<in># items q' \<Longrightarrow> \<not> ready x"
proof (induction n arbitrary: q es)
  case 0
  then show ?case by simp
next
  case (Suc n)
  show ?case
  proof (cases "take1 q")
    case None
    with Suc.prems take_none show ?thesis by simp
  next
    case (Some p)
    then obtain e q1 where e: "take1 q = Some (e, q1)" by (cases p) auto
    obtain es1 where es: "take_all n q1 = (es1, q')" using Suc.prems(3) e by (cases "take_all n q1") auto
    have "size (items q1) \<le> n" using take_items [OF e] Suc.prems(2) by simp
    with Suc.IH [OF take_ok [OF Suc.prems(1) e] _ es] Suc.prems(4) show ?thesis by simp
  qed
qed

end

end
