(* ===== verification/SlopioIO.thy ===== *)
theory SlopioIO
  imports Interfaces
begin

text \<open>
  \<open>crates/slopio/src/frame.rs\<close> and \<open>line.rs\<close>: the length-prefixed frame reader and writer
  and the line reader. The byte source behind a reader is the list of what its successive
  \<open>read_buf\<close> calls deliver: an I/O error or a chunk, where the empty chunk and the end of the
  list are end of file. Errors are values; the writer appends to the bytes already written
  (write errors of the underlying stream are not modelled).
\<close>

datatype io_error =
    InvalidData string
  | UnexpectedEof string
  | Inner string

type_synonym source = "(io_error + u8 list) list"

text \<open>One \<open>read_buf\<close>: the bytes appended (none at end of file) and the rest of the source.\<close>

definition read_buf :: "source \<Rightarrow> (io_error + u8 list) \<times> source" where
  "read_buf src = (case src of [] \<Rightarrow> (Inr [], []) | x # xs \<Rightarrow> (x, xs))"

section \<open>Frames\<close>

record frame_reader =
  fr_inner :: source
  fr_buf :: "u8 list"
  fr_max :: nat

definition frame_reader_new :: "source \<Rightarrow> frame_reader" where
  "frame_reader_new src = \<lparr>fr_inner = src, fr_buf = [], fr_max = 8 * 1024 * 1024\<rparr>"

definition max_frame_len :: "frame_reader \<Rightarrow> nat \<Rightarrow> frame_reader" where
  "max_frame_len fr mx = fr\<lparr>fr_max := max mx 1\<rparr>"

text \<open>The part of the loop of \<open>read_frame\<close> that looks at the buffer only.\<close>

definition cut_frame :: "nat \<Rightarrow> u8 list \<Rightarrow> io_error + (u8 list \<times> u8 list) option" where
  "cut_frame mx b =
     (if 4 \<le> length b then
        (let len = be_value (take 4 b) in
         if mx < len then Inl (InvalidData ''frame too large'')
         else if 4 + len \<le> length b then
           (let b' = drop 4 b in Inr (Some (take len b', drop len b')))
         else Inr None)
      else Inr None)"

fun read_frame_loop ::
  "nat \<Rightarrow> u8 list \<Rightarrow> source \<Rightarrow> (io_error + u8 list option) \<times> u8 list \<times> source" where
  "read_frame_loop mx b src =
     (case cut_frame mx b of
        Inl e \<Rightarrow> (Inl e, b, src)
      | Inr (Some (payload, rest)) \<Rightarrow> (Inr (Some payload), rest, src)
      | Inr None \<Rightarrow>
          (case src of
             [] \<Rightarrow>
               ((if b = [] then Inr None
                 else Inl (UnexpectedEof ''eof while reading frame'')), b, [])
           | Inl e # src' \<Rightarrow> (Inl e, b, src')
           | Inr c # src' \<Rightarrow>
               (if c = [] then
                  ((if b = [] then Inr None
                    else Inl (UnexpectedEof ''eof while reading frame'')), b, src')
                else read_frame_loop mx (b @ c) src')))"

declare read_frame_loop.simps [simp del]

definition read_frame :: "frame_reader \<Rightarrow> (io_error + u8 list option) \<times> frame_reader" where
  "read_frame fr =
     (case read_frame_loop (fr_max fr) (fr_buf fr) (fr_inner fr) of
        (res, b, src) \<Rightarrow> (res, fr\<lparr>fr_buf := b, fr_inner := src\<rparr>))"

text \<open>A client that calls \<open>read_frame\<close> \<open>n\<close> times.\<close>

fun read_frames :: "nat \<Rightarrow> frame_reader \<Rightarrow> (io_error + u8 list option) list" where
  "read_frames 0 fr = []"
| "read_frames (Suc n) fr = (case read_frame fr of (res, fr') \<Rightarrow> res # read_frames n fr')"

definition write_frame_parts :: "u8 list list \<Rightarrow> u8 list \<Rightarrow> (io_error \<times> u8 list) + u8 list" where
  "write_frame_parts parts out =
     (let len = sum_list (map length parts) in
      if u32_max < len then Inl (InvalidData ''frame too big'', out)
      else Inr (foldl (\<lambda>o' p. if p \<noteq> [] then o' @ p else o') (out @ be_bytes 4 len) parts))"

definition write_frame :: "u8 list \<Rightarrow> u8 list \<Rightarrow> (io_error \<times> u8 list) + u8 list" where
  "write_frame payload out = write_frame_parts [payload] out"

lemma foldl_append_parts:
  "foldl (\<lambda>o' p. if p \<noteq> [] then o' @ p else o') out parts = out @ concat parts"
  by (induction parts arbitrary: out) auto

lemma write_frame_parts_eq:
  "write_frame_parts parts out =
     (if u32_max < length (concat parts) then Inl (InvalidData ''frame too big'', out)
      else Inr (out @ be_bytes 4 (length (concat parts)) @ concat parts))"
  by (simp add: write_frame_parts_def Let_def foldl_append_parts length_concat
      del: foldl_append)

lemma write_frame_concat: "write_frame_parts parts out = write_frame (concat parts) out"
  by (simp add: write_frame_def write_frame_parts_eq)

lemma cut_frame_mono:
  "cut_frame mx b = Inr (Some (x, r)) \<Longrightarrow> cut_frame mx (b @ c) = Inr (Some (x, r @ c))"
  by (auto simp: cut_frame_def Let_def split: if_splits)

interpretation frame_rd: chunk_reader "cut_frame mx" "UnexpectedEof ''eof while reading frame''"
    "read_frame_loop mx" for mx
proof unfold_locales
  fix b x r c
  show "cut_frame mx b = Inr (Some (x, r)) \<Longrightarrow> cut_frame mx (b @ c) = Inr (Some (x, r @ c))"
    by (rule cut_frame_mono)
qed (auto simp: cut_frame_def read_frame_loop.simps)

lemma be_bytes4_framed:
  assumes "length p \<le> mx" "length p \<le> u32_max"
  shows "frame_rd.framed mx (be_bytes 4 (length p) @ p) p"
proof -
  have v: "be_value (be_bytes 4 (length p)) = length p"
    using assms(2) by (intro be_value_be_bytes) (simp add: u32_max_def)
  have "cut_frame mx q = Inr None" if "strict_prefix q (be_bytes 4 (length p) @ p)" for q
  proof (cases "4 \<le> length q")
    case False
    then show ?thesis by (simp add: cut_frame_def)
  next
    case True
    have l: "length q < 4 + length p" using prefix_length_less [OF that] by simp
    from that obtain z where z: "be_bytes 4 (length p) @ p = q @ z"
      by (auto simp: strict_prefix_def prefix_def)
    have "take 4 q = take 4 (q @ z)" using True by simp
    then have "take 4 q = be_bytes 4 (length p)" by (simp flip: z)
    with v l True assms(1) show ?thesis by (simp add: cut_frame_def)
  qed
  moreover have "cut_frame mx (be_bytes 4 (length p) @ p) = Inr (Some (p, []))"
    using v assms(1) by (simp add: cut_frame_def)
  ultimately show ?thesis unfolding frame_rd.framed_def by blast
qed

definition frame_enc :: "u8 list \<Rightarrow> u8 list" where
  "frame_enc p = be_bytes 4 (length p) @ p"

definition frame_fits :: "nat \<Rightarrow> u8 list \<Rightarrow> bool" where
  "frame_fits mx p \<longleftrightarrow> length p \<le> mx \<and> length p \<le> u32_max"

lemma write_frame_eq: "length p \<le> u32_max \<Longrightarrow> write_frame p out = Inr (out @ frame_enc p)"
  by (simp add: write_frame_def write_frame_parts_eq frame_enc_def)

lemma read_frames_chunked:
  assumes "list_all (frame_fits mx) ps" "[] \<notin> set cs" "b @ concat cs = concat (map frame_enc ps)"
  shows "read_frames (Suc (length ps)) \<lparr>fr_inner = map Inr cs, fr_buf = b, fr_max = mx\<rparr> =
    map (Inr \<circ> Some) ps @ [Inr None]"
  using assms
proof (induction ps arbitrary: b cs)
  case Nil
  then have "b @ concat cs = []" by simp
  then have "read_frame_loop mx b (map Inr cs) = (Inr None, [], [])"
    using Nil.prems(2) by (rule frame_rd.read_end)
  then show ?case by (simp add: read_frame_def)
next
  case (Cons p ps)
  have "frame_rd.framed mx (frame_enc p) p"
    using Cons.prems(1) by (simp add: frame_enc_def frame_fits_def be_bytes4_framed)
  moreover have "b @ concat cs = frame_enc p @ concat (map frame_enc ps)"
    using Cons.prems(3) by simp
  ultimately obtain b' cs' where
    "read_frame_loop mx b (map Inr cs) = (Inr (Some p), b', map Inr cs')"
    and "[] \<notin> set cs'" "b' @ concat cs' = concat (map frame_enc ps)"
    using frame_rd.read_framed Cons.prems(2) by blast
  with Cons.IH [of cs' b'] Cons.prems(1) show ?case by (simp add: read_frame_def)
qed

section \<open>Lines\<close>

record line_reader =
  lr_inner :: source
  lr_buf :: "u8 list"
  lr_max :: nat

definition line_reader_new :: "source \<Rightarrow> line_reader" where
  "line_reader_new src = \<lparr>lr_inner = src, lr_buf = [], lr_max = 8 * 1024\<rparr>"

definition line_reader_with_capacity :: "source \<Rightarrow> nat \<Rightarrow> line_reader" where
  "line_reader_with_capacity src cap = \<lparr>lr_inner = src, lr_buf = [], lr_max = max cap 1\<rparr>"

definition max_line_len :: "line_reader \<Rightarrow> nat \<Rightarrow> line_reader" where
  "max_line_len lr mx = lr\<lparr>lr_max := max mx 1\<rparr>"

text \<open>\<open>memchr\<close>: the index of the first occurrence.\<close>

fun memchr :: "u8 \<Rightarrow> u8 list \<Rightarrow> nat option" where
  "memchr c [] = None"
| "memchr c (x # xs) = (if x = c then Some 0 else map_option Suc (memchr c xs))"

definition trim_crlf :: "u8 list \<Rightarrow> u8 list" where
  "trim_crlf b =
     (let e1 = (if 0 < length b \<and> b ! (length b - 1) = 10 then length b - 1 else length b);
          e2 = (if 0 < e1 \<and> b ! (e1 - 1) = 13 then e1 - 1 else e1)
      in take e2 b)"

definition cut_line :: "nat \<Rightarrow> u8 list \<Rightarrow> io_error + (u8 list \<times> u8 list) option" where
  "cut_line mx b =
     (case memchr 10 b of
        Some i \<Rightarrow> Inr (Some (trim_crlf (take (i + 1) b), drop (i + 1) b))
      | None \<Rightarrow>
          if mx < length b then Inl (InvalidData ''line too long'') else Inr None)"

fun read_line_loop ::
  "nat \<Rightarrow> u8 list \<Rightarrow> source \<Rightarrow> (io_error + u8 list option) \<times> u8 list \<times> source" where
  "read_line_loop mx b src =
     (case cut_line mx b of
        Inl e \<Rightarrow> (Inl e, b, src)
      | Inr (Some (line, rest)) \<Rightarrow> (Inr (Some line), rest, src)
      | Inr None \<Rightarrow>
          (case src of
             [] \<Rightarrow>
               ((if b = [] then Inr None
                 else Inl (UnexpectedEof ''eof while reading line'')), b, [])
           | Inl e # src' \<Rightarrow> (Inl e, b, src')
           | Inr c # src' \<Rightarrow>
               (if c = [] then
                  ((if b = [] then Inr None
                    else Inl (UnexpectedEof ''eof while reading line'')), b, src')
                else read_line_loop mx (b @ c) src')))"

declare read_line_loop.simps [simp del]

definition read_line :: "line_reader \<Rightarrow> (io_error + u8 list option) \<times> line_reader" where
  "read_line lr =
     (case read_line_loop (lr_max lr) (lr_buf lr) (lr_inner lr) of
        (res, b, src) \<Rightarrow> (res, lr\<lparr>lr_buf := b, lr_inner := src\<rparr>))"

fun read_lines :: "nat \<Rightarrow> line_reader \<Rightarrow> (io_error + u8 list option) list" where
  "read_lines 0 lr = []"
| "read_lines (Suc n) lr = (case read_line lr of (res, lr') \<Rightarrow> res # read_lines n lr')"

lemma memchr_append: "memchr c (a @ b) =
    (case memchr c a of Some i \<Rightarrow> Some i | None \<Rightarrow> map_option (\<lambda>i. length a + i) (memchr c b))"
  by (induction a) (cases "memchr c b"; auto split: option.splits)+

lemma memchr_None_iff: "memchr c s = None \<longleftrightarrow> c \<notin> set s"
  by (induction s) auto

lemma memchr_notin [simp]: "c \<notin> set s \<Longrightarrow> memchr c s = None"
  by (simp add: memchr_None_iff)

lemma memchr_Some_less: "memchr c s = Some i \<Longrightarrow> i < length s"
  by (induction s arbitrary: i) (auto split: if_splits)

lemma cut_line_mono:
  "cut_line mx b = Inr (Some (x, r)) \<Longrightarrow> cut_line mx (b @ c) = Inr (Some (x, r @ c))"
  by (auto simp: cut_line_def memchr_append split: option.splits if_splits
      dest: memchr_Some_less)

interpretation line_rd: chunk_reader "cut_line mx" "UnexpectedEof ''eof while reading line''"
    "read_line_loop mx" for mx
proof unfold_locales
  fix b x r c
  show "cut_line mx b = Inr (Some (x, r)) \<Longrightarrow> cut_line mx (b @ c) = Inr (Some (x, r @ c))"
    by (rule cut_line_mono)
qed (auto simp: cut_line_def read_line_loop.simps)

text \<open>Line ends: \<open>\n\<close> or \<open>\r\n\<close>.\<close>

definition line_enc :: "u8 list \<times> bool \<Rightarrow> u8 list" where
  "line_enc lc = fst lc @ (if snd lc then [13, 10] else [10])"

text \<open>
  A line the reader returns as it is: no line feed inside, within the limit (with its carriage
  return, if it has one), and not ending in a carriage return of its own when it ends in \<open>\n\<close>.
\<close>

definition line_fits :: "nat \<Rightarrow> u8 list \<times> bool \<Rightarrow> bool" where
  "line_fits mx lc \<longleftrightarrow> 10 \<notin> set (fst lc) \<and> length (line_enc lc) \<le> Suc mx
     \<and> (snd lc \<or> fst lc = [] \<or> last (fst lc) \<noteq> 13)"

lemma trim_crlf_snoc: "trim_crlf (a @ [10]) = (if a \<noteq> [] \<and> last a = 13 then butlast a else a)"
  by (auto simp: trim_crlf_def Let_def nth_append last_conv_nth butlast_conv_take)

lemma line_enc_framed: "line_fits mx lc \<Longrightarrow> line_rd.framed mx (line_enc lc) (fst lc)"
proof -
  assume fits: "line_fits mx lc"
  obtain a where a: "line_enc lc = a @ [10]" "10 \<notin> set a" "length a \<le> mx"
      and t: "trim_crlf (a @ [10]) = fst lc"
    using fits by (cases lc; cases "snd lc") (auto simp: line_fits_def line_enc_def trim_crlf_snoc)
  have "cut_line mx q = Inr None" if "strict_prefix q (a @ [10])" for q
  proof -
    from that have "prefix q a" by (simp add: strict_prefix_def) (metis prefix_snoc)
    then have "10 \<notin> set q" "length q \<le> mx" using a
      by (auto dest: set_mono_prefix prefix_length_le)
    then show ?thesis by (simp add: cut_line_def)
  qed
  moreover have "memchr 10 a = None" using a(2) by (simp add: memchr_None_iff)
  then have "cut_line mx (a @ [10]) = Inr (Some (fst lc, []))"
    by (simp add: cut_line_def memchr_append t)
  ultimately show ?thesis by (simp add: line_rd.framed_def a(1))
qed

lemma read_lines_chunked:
  assumes "list_all (line_fits mx) ls" "[] \<notin> set cs" "b @ concat cs = concat (map line_enc ls)"
  shows "read_lines (Suc (length ls)) \<lparr>lr_inner = map Inr cs, lr_buf = b, lr_max = mx\<rparr> =
    map (Inr \<circ> Some \<circ> fst) ls @ [Inr None]"
  using assms
proof (induction ls arbitrary: b cs)
  case Nil
  then have "b @ concat cs = []" by simp
  then have "read_line_loop mx b (map Inr cs) = (Inr None, [], [])"
    using Nil.prems(2) by (rule line_rd.read_end)
  then show ?case by (simp add: read_line_def)
next
  case (Cons l ls)
  have "line_rd.framed mx (line_enc l) (fst l)"
    using Cons.prems(1) by (simp add: line_enc_framed)
  moreover have "b @ concat cs = line_enc l @ concat (map line_enc ls)"
    using Cons.prems(3) by simp
  ultimately obtain b' cs' where
    "read_line_loop mx b (map Inr cs) = (Inr (Some (fst l)), b', map Inr cs')"
    and "[] \<notin> set cs'" "b' @ concat cs' = concat (map line_enc ls)"
    using line_rd.read_framed Cons.prems(2) by blast
  with Cons.IH [of cs' b'] Cons.prems(1) show ?case by (simp add: read_line_def)
qed

section \<open>Properties\<close>

text \<open>A client that writes frames one after another and stops at the first error.\<close>

fun write_frames :: "u8 list list list \<Rightarrow> u8 list \<Rightarrow> (io_error \<times> u8 list) + u8 list" where
  "write_frames [] out = Inr out"
| "write_frames (parts # pss) out =
     (case write_frame_parts parts out of
        Inl e \<Rightarrow> Inl e
      | Inr out' \<Rightarrow> write_frames pss out')"

lemma write_frames_eq:
  "write_frames pss out = Inr out' \<Longrightarrow>
   out' = out @ concat (map (frame_enc \<circ> concat) pss)
     \<and> list_all (\<lambda>ps. length (concat ps) \<le> u32_max) pss"
proof (induction pss arbitrary: out)
  case Nil
  then show ?case by simp
next
  case (Cons ps pss)
  then have "length (concat ps) \<le> u32_max"
    and "write_frames pss (out @ frame_enc (concat ps)) = Inr out'"
    by (auto simp: write_frame_parts_eq frame_enc_def split: if_splits)
  with Cons.IH [of "out @ frame_enc (concat ps)"] show ?case by simp
qed

text \<open>
  C33. Frames survive the wire whatever the transport does to them: what \<open>write_frame_parts\<close>
  writes for a sequence of frames, cut into chunks in any way, is read back by successive
  \<open>read_frame\<close> calls as exactly those payloads, each the concatenation of its parts, followed
  by a clean end of file.
\<close>

theorem frame_roundtrip:
  assumes "write_frames pss [] = Inr out"
    and "list_all (\<lambda>ps. length (concat ps) \<le> mx) pss"
    and "concat cs = out" "[] \<notin> set cs"
  shows "read_frames (Suc (length pss)) (max_frame_len (frame_reader_new (map Inr cs)) mx) =
    map (Inr \<circ> Some \<circ> concat) pss @ [Inr None]"
proof -
  have out: "concat cs = concat (map frame_enc (map concat pss))"
    and "list_all (frame_fits (max mx 1)) (map concat pss)"
    using write_frames_eq [OF assms(1)] assms(2,3)
    by (auto simp: frame_fits_def list_all_iff comp_def)
  then show ?thesis
    using read_frames_chunked [of "max mx 1" "map concat pss" cs "[]"] assms(4)
    by (simp add: max_frame_len_def frame_reader_new_def comp_def)
qed

theorem frame_roundtrip_witness:
  "read_frames (Suc (length [[[1], [2, 3]], []]))
     (max_frame_len (frame_reader_new (map Inr [[0, 0], [0, 3, 1], [2, 3, 0, 0, 0, 0]])) 64)
     = [Inr (Some [1, 2, 3]), Inr (Some []), Inr None]"
proof -
  let ?cs = "[[0, 0], [0, 3, 1], [2, 3, 0, 0, 0, 0]] :: u8 list list"
  have "write_frames [[[1], [2, 3]], []] [] = Inr (concat ?cs)"
    by (simp add: write_frame_parts_eq be_bytes_num num_defs)
  from frame_roundtrip [OF this _ refl, of 64] show ?thesis by simp
qed

lemma read_loop_step:
  "cut_frame mx b = Inr None \<Longrightarrow> c \<noteq> [] \<Longrightarrow>
   read_frame_loop mx b (Inr c # src) = read_frame_loop mx (b @ c) src"
  by (rule frame_rd.read_more)

lemma read_frame_oversized:
  assumes "4 \<le> length (b @ concat cs)" "mx < be_value (take 4 (b @ concat cs))" "[] \<notin> set cs"
  shows "fst (read_frame_loop mx b (map Inr cs)) = Inl (InvalidData ''frame too large'')"
  using assms
proof (induction cs arbitrary: b)
  case Nil
  then show ?case by (simp add: cut_frame_def read_frame_loop.simps)
next
  case (Cons c cs)
  show ?case
  proof (cases "4 \<le> length b")
    case True
    with Cons.prems show ?thesis by (simp add: cut_frame_def read_frame_loop.simps)
  next
    case False
    then have "cut_frame mx b = Inr None" by (simp add: cut_frame_def)
    with Cons.prems have "fst (read_frame_loop mx b (map Inr (c # cs))) =
        fst (read_frame_loop mx (b @ c) (map Inr cs))"
      by (auto simp: read_loop_step)
    then show ?thesis using Cons by simp
  qed
qed

lemma read_frame_truncated:
  assumes "strict_prefix (b @ concat cs) (frame_enc p)" "b @ concat cs \<noteq> []" "frame_fits mx p"
    "[] \<notin> set cs"
  shows "fst (read_frame_loop mx b (map Inr cs)) =
    Inl (UnexpectedEof ''eof while reading frame'')"
  using assms
proof (induction cs arbitrary: b)
  case Nil
  then have "cut_frame mx b = Inr None"
    using be_bytes4_framed [of p mx]
    by (simp add: frame_fits_def frame_enc_def frame_rd.framed_def)
  with Nil show ?case by (simp add: frame_rd.read_eof)
next
  case (Cons c cs)
  have "strict_prefix b (frame_enc p)"
    using Cons.prems(1) by (meson prefixI prefix_order.le_less_trans)
  then have "cut_frame mx b = Inr None"
    using be_bytes4_framed [of p mx] Cons.prems(3)
    by (simp add: frame_fits_def frame_enc_def frame_rd.framed_def)
  with Cons.prems have "fst (read_frame_loop mx b (map Inr (c # cs))) =
      fst (read_frame_loop mx (b @ c) (map Inr cs))"
    by (auto simp: read_loop_step)
  moreover have "(b @ c) @ concat cs \<noteq> []" using Cons.prems(4) by auto
  ultimately show ?case using Cons by simp
qed

text \<open>
  C34. A damaged stream is reported, never delivered: a length prefix above the reader's limit
  makes \<open>read_frame\<close> fail with \<open>InvalidData\<close> however the bytes arrive, and a stream that ends
  inside a frame makes it fail with \<open>UnexpectedEof\<close>, not with a short payload.
\<close>

theorem frame_stream_errors:
  assumes "1 \<le> mx" "[] \<notin> set cs"
  shows "(4 \<le> length (concat cs) \<and> mx < be_value (take 4 (concat cs)) \<longrightarrow>
      fst (read_frame (max_frame_len (frame_reader_new (map Inr cs)) mx)) =
        Inl (InvalidData ''frame too large'')) \<and>
    (strict_prefix (concat cs) (frame_enc p) \<and> concat cs \<noteq> [] \<and> frame_fits mx p \<longrightarrow>
      fst (read_frame (max_frame_len (frame_reader_new (map Inr cs)) mx)) =
        Inl (UnexpectedEof ''eof while reading frame''))"
proof -
  have new: "fst (read_frame (max_frame_len (frame_reader_new (map Inr cs)) mx)) =
      fst (read_frame_loop mx [] (map Inr cs))"
    using assms(1)
    by (simp add: read_frame_def max_frame_len_def frame_reader_new_def max_def
        split: prod.splits)
  show ?thesis
    unfolding new using assms(2)
    by (intro conjI impI) (auto intro!: read_frame_oversized read_frame_truncated
        simp del: concat_eq_Nil_conv)
qed

theorem frame_stream_errors_witness:
  "fst (read_frame (max_frame_len (frame_reader_new (map Inr [[0, 0, 0], [9, 1]])) 8)) =
     Inl (InvalidData ''frame too large'')
   \<and> fst (read_frame (max_frame_len (frame_reader_new (map Inr [[0, 0, 0], [2, 7]])) 8)) =
     Inl (UnexpectedEof ''eof while reading frame'')"
proof -
  have "strict_prefix (concat [[0, 0, 0], [2, 7]]) (frame_enc [7, 5])"
    by (simp add: frame_enc_def be_bytes_num)
  then show ?thesis
    using frame_stream_errors [of 8 "[[0, 0, 0], [2, 7]]" "[7, 5]"]
      frame_stream_errors [of 8 "[[0, 0, 0], [9, 1]]" "[]"]
    by (simp add: be_value_def num_defs frame_fits_def)
qed

text \<open>
  The line reader returns each line without its line end, whether it is \<open>\n\<close> or \<open>\r\n\<close>,
  for every chunking of the input, and then a clean end of file.
\<close>

theorem line_roundtrip:
  assumes "list_all (line_fits mx) ls" "[] \<notin> set cs" "concat cs = concat (map line_enc ls)"
    and "1 \<le> mx"
  shows "read_lines (Suc (length ls)) (max_line_len (line_reader_new (map Inr cs)) mx) =
    map (Inr \<circ> Some \<circ> fst) ls @ [Inr None]"
  using read_lines_chunked [of mx ls cs "[]"] assms
  by (simp add: max_line_len_def line_reader_new_def max_def)

theorem line_roundtrip_witness:
  "read_lines (Suc (length [([104, 105 :: u8], True), ([], False)])) (max_line_len (line_reader_new (map Inr [[104], [105, 13], [10, 10]])) 16)
     = [Inr (Some [104, 105]), Inr (Some []), Inr None]"
proof -
  have "list_all (line_fits 16) [([104, 105], True), ([], False)]"
    by (simp add: line_fits_def line_enc_def)
  from line_roundtrip [OF this, of "[[104], [105, 13], [10, 10]]"] show ?thesis
    by (simp add: line_enc_def del: read_lines.simps)
qed

text \<open>
  The limit on a line is tested only when the buffer holds no line feed, so whether an
  overlong line is refused depends on how its bytes arrive.
\<close>

lemma line_limit_depends_on_chunks:
  "read_lines (Suc 0) (max_line_len (line_reader_new [Inr [97, 97, 97, 97, 97, 10]]) 3) =
     [Inr (Some [97, 97, 97, 97, 97])]"
  "read_lines (Suc 0) (max_line_len (line_reader_new [Inr [97, 97, 97, 97], Inr [97, 10]]) 3) =
     [Inl (InvalidData ''line too long'')]"
  by (simp_all add: read_line_def read_line_loop.simps max_line_len_def line_reader_new_def
      cut_line_def trim_crlf_def Let_def)

end
