(* ===== verification/Telnet.thy ===== *)
theory Telnet
  imports Interfaces
begin

text \<open>
  \<open>crates/slopio/src/telnet.rs\<close>: the parser that strips telnet commands from the byte stream
  and answers negotiations with refusals. \<open>iac_byte\<close> is one turn of the loop of \<open>parse\<close>; the
  grammar of a telnet stream at the end of the theory is the specification the parser is
  shown to implement.
\<close>

datatype iac_state =
    Data
  | Iac
  | Negotiate u8
  | Subneg "u8 option" bool "u8 list"

record iac_parser =
  ip_state :: iac_state
  ip_refuse :: bool

definition iac_new :: iac_parser where
  "iac_new = \<lparr>ip_state = Data, ip_refuse = True\<rparr>"

definition refuse_negotiation :: "iac_parser \<Rightarrow> bool \<Rightarrow> iac_parser" where
  "refuse_negotiation p on = p\<lparr>ip_refuse := on\<rparr>"

abbreviation "IAC \<equiv> (255 :: u8)"
abbreviation "DONT \<equiv> (254 :: u8)"
abbreviation "DO \<equiv> (253 :: u8)"
abbreviation "WONT \<equiv> (252 :: u8)"
abbreviation "WILL \<equiv> (251 :: u8)"
abbreviation "SB \<equiv> (250 :: u8)"
abbreviation "SE \<equiv> (240 :: u8)"

text \<open>One byte: the new state, the data bytes and the reply bytes it yields.\<close>

fun iac_byte :: "bool \<Rightarrow> iac_state \<Rightarrow> u8 \<Rightarrow> iac_state \<times> u8 list \<times> u8 list" where
  "iac_byte refuse Data b = (if b = IAC then (Iac, [], []) else (Data, [b], []))"
| "iac_byte refuse Iac b =
     (if b = IAC then (Data, [IAC], [])
      else if b = DO \<or> b = DONT \<or> b = WILL \<or> b = WONT then (Negotiate b, [], [])
      else if b = SB then (Subneg None False [], [], [])
      else (Data, [], []))"
| "iac_byte refuse (Negotiate cmd) opt =
     (Data, [],
      (if refuse then
         (if cmd = DO then [IAC, WONT, opt]
          else if cmd = WILL then [IAC, DONT, opt]
          else [])
       else []))"
| "iac_byte refuse (Subneg None iac_seen buf) b = (Subneg (Some b) iac_seen buf, [], [])"
| "iac_byte refuse (Subneg (Some opt) True buf) b =
     (if b = SE then (Data, [], [])
      else if b = IAC then (Subneg (Some opt) False (buf @ [IAC]), [], [])
      else (Subneg (Some opt) False buf, [], []))"
| "iac_byte refuse (Subneg (Some opt) False buf) b =
     (if b = IAC then (Subneg (Some opt) True buf, [], [])
      else (Subneg (Some opt) False (buf @ [b]), [], []))"

fun iac_loop :: "bool \<Rightarrow> iac_state \<Rightarrow> u8 list \<Rightarrow> iac_state \<times> u8 list \<times> u8 list" where
  "iac_loop refuse st [] = (st, [], [])"
| "iac_loop refuse st (b # bs) =
     (let (st1, o1, r1) = iac_byte refuse st b;
          (st2, o2, r2) = iac_loop refuse st1 bs
      in (st2, o1 @ o2, r1 @ r2))"

definition iac_parse :: "iac_parser \<Rightarrow> u8 list \<Rightarrow> iac_parser \<times> u8 list \<times> u8 list" where
  "iac_parse p chunk =
     (let (st, out, replies) = iac_loop (ip_refuse p) (ip_state p) chunk
      in (p\<lparr>ip_state := st\<rparr>, out, replies))"

fun iac_parse_all :: "iac_parser \<Rightarrow> u8 list list \<Rightarrow> iac_parser \<times> u8 list \<times> u8 list" where
  "iac_parse_all p [] = (p, [], [])"
| "iac_parse_all p (c # cs) =
     (let (p1, o1, r1) = iac_parse p c; (p2, o2, r2) = iac_parse_all p1 cs
      in (p2, o1 @ o2, r1 @ r2))"

section \<open>The grammar of a telnet stream\<close>

datatype telnet_item =
    TData u8
  | TCommand u8
  | TNegotiate u8 u8
  | TSubneg u8 "u8 list"

definition escape_iac :: "u8 list \<Rightarrow> u8 list" where
  "escape_iac bs = concat (map (\<lambda>b. if b = IAC then [IAC, IAC] else [b]) bs)"

fun item_ok :: "telnet_item \<Rightarrow> bool" where
  "item_ok (TData b) = True"
| "item_ok (TCommand c) = (c \<notin> {IAC, DO, DONT, WILL, WONT, SB})"
| "item_ok (TNegotiate c opt) = (c \<in> {DO, DONT, WILL, WONT})"
| "item_ok (TSubneg opt body) = True"

fun item_bytes :: "telnet_item \<Rightarrow> u8 list" where
  "item_bytes (TData b) = (if b = IAC then [IAC, IAC] else [b])"
| "item_bytes (TCommand c) = [IAC, c]"
| "item_bytes (TNegotiate c opt) = [IAC, c, opt]"
| "item_bytes (TSubneg opt body) = [IAC, SB, opt] @ escape_iac body @ [IAC, SE]"

fun item_data :: "telnet_item \<Rightarrow> u8 list" where
  "item_data (TData b) = [b]"
| "item_data _ = []"

fun item_reply :: "bool \<Rightarrow> telnet_item \<Rightarrow> u8 list" where
  "item_reply refuse (TNegotiate c opt) =
     (if refuse \<and> c = DO then [IAC, WONT, opt]
      else if refuse \<and> c = WILL then [IAC, DONT, opt] else [])"
| "item_reply refuse _ = []"

lemma iac_loop_append:
  "iac_loop refuse st (a @ b) =
     (let (st1, o1, r1) = iac_loop refuse st a; (st2, o2, r2) = iac_loop refuse st1 b
      in (st2, o1 @ o2, r1 @ r2))"
  by (induction a arbitrary: st) (auto simp: Let_def split: prod.splits)

lemma iac_loop_body:
  "\<exists>buf'. iac_loop refuse (Subneg (Some opt) False buf) (escape_iac body) =
     (Subneg (Some opt) False buf', [], [])"
proof (induction body arbitrary: buf)
  case Nil
  then show ?case by (simp add: escape_iac_def)
next
  case (Cons b body)
  then show ?case
    by (auto simp: escape_iac_def Let_def split: prod.splits)
qed

lemma iac_loop_item:
  "item_ok i \<Longrightarrow> iac_loop refuse Data (item_bytes i) = (Data, item_data i, item_reply refuse i)"
proof (cases i)
  case (TSubneg opt body)
  obtain buf' where "iac_loop refuse (Subneg (Some opt) False []) (escape_iac body) =
     (Subneg (Some opt) False buf', [], [])"
    using iac_loop_body by blast
  with TSubneg show ?thesis by (simp add: iac_loop_append Let_def)
qed (auto simp: Let_def)

lemma iac_loop_items:
  "list_all item_ok is \<Longrightarrow> iac_loop refuse Data (concat (map item_bytes is)) =
     (Data, concat (map item_data is), concat (map (item_reply refuse) is))"
  by (induction "is") (simp_all add: iac_loop_append iac_loop_item)

text \<open>The bytes a state still owes: what bounds the output by the input.\<close>

fun iac_pending :: "iac_state \<Rightarrow> nat" where
  "iac_pending Data = 0"
| "iac_pending Iac = 1"
| "iac_pending (Negotiate c) = 2"
| "iac_pending (Subneg opt seen buf) = 2"

lemma iac_byte_bound:
  "iac_byte refuse st b = (st', d, r) \<Longrightarrow>
   length d + length r + iac_pending st' \<le> iac_pending st + 1"
  by (cases "(refuse, st, b)" rule: iac_byte.cases) (auto split: if_splits)

lemma iac_loop_bound:
  "iac_loop refuse st bs = (st', d, r) \<Longrightarrow>
   length d + length r + iac_pending st' \<le> iac_pending st + length bs"
proof (induction bs arbitrary: st st' d r)
  case Nil
  then show ?case by simp
next
  case (Cons b bs)
  obtain st1 o1 r1 where 1: "iac_byte refuse st b = (st1, o1, r1)"
    by (cases "iac_byte refuse st b")
  obtain st2 o2 r2 where 2: "iac_loop refuse st1 bs = (st2, o2, r2)"
    by (cases "iac_loop refuse st1 bs")
  show ?case using Cons.IH [OF 2] iac_byte_bound [OF 1] Cons.prems 1 2 by (auto simp: Let_def)
qed

text \<open>Replies are themselves telnet negotiations, and only refusals.\<close>

definition is_refusal :: "telnet_item \<Rightarrow> bool" where
  "is_refusal i \<longleftrightarrow> (\<exists>opt. i = TNegotiate WONT opt \<or> i = TNegotiate DONT opt)"

lemma iac_byte_refusals:
  "iac_byte refuse st b = (st', d, r) \<Longrightarrow>
   \<exists>is. list_all is_refusal is \<and> r = concat (map item_bytes is)"
proof (cases "(refuse, st, b)" rule: iac_byte.cases)
  case (3 refuse' cmd opt)
  assume "iac_byte refuse st b = (st', d, r)"
  with 3 have "r = [] \<or> r = [IAC, WONT, opt] \<or> r = [IAC, DONT, opt]" by (auto split: if_splits)
  then consider "r = concat (map item_bytes [])"
    | "r = concat (map item_bytes [TNegotiate WONT opt])"
    | "r = concat (map item_bytes [TNegotiate DONT opt])" by auto
  moreover have "list_all is_refusal []" "list_all is_refusal [TNegotiate WONT opt]"
    "list_all is_refusal [TNegotiate DONT opt]" by (simp_all add: is_refusal_def)
  ultimately show ?thesis by cases blast+
qed (auto split: if_splits intro!: exI [of _ "[]"])

lemma iac_loop_refusals:
  "iac_loop refuse st bs = (st', d, r) \<Longrightarrow>
   \<exists>is. list_all is_refusal is \<and> r = concat (map item_bytes is)"
proof (induction bs arbitrary: st st' d r)
  case Nil
  then show ?case by (auto intro!: exI [of _ "[]"])
next
  case (Cons b bs)
  obtain st1 o1 r1 where 1: "iac_byte refuse st b = (st1, o1, r1)"
    by (cases "iac_byte refuse st b")
  obtain st2 o2 r2 where 2: "iac_loop refuse st1 bs = (st2, o2, r2)"
    by (cases "iac_loop refuse st1 bs")
  obtain is1 is2 where "list_all is_refusal is1" "r1 = concat (map item_bytes is1)"
    and "list_all is_refusal is2" "r2 = concat (map item_bytes is2)"
    using iac_byte_refusals [OF 1] Cons.IH [OF 2] by blast
  then have "list_all is_refusal (is1 @ is2)" "r = concat (map item_bytes (is1 @ is2))"
    using Cons.prems 1 2 by (simp_all add: Let_def)
  then show ?case by blast
qed

lemma refusals_silent:
  "list_all is_refusal is \<Longrightarrow>
   list_all item_ok is \<and> concat (map item_data is) = [] \<and> concat (map (item_reply refuse) is) = []"
  by (induction "is") (auto simp: is_refusal_def)

section \<open>Properties\<close>

text \<open>
  C35. The parser implements the telnet grammar over any chunking: a stream of data bytes,
  two-byte commands, negotiations and subnegotiations, cut into chunks anywhere, yields
  exactly the data bytes (with doubled 255 decoded), and one refusal for each \<open>DO\<close> and
  \<open>WILL\<close> when refusing is on, and leaves the parser ready for more.
\<close>

theorem iac_parse_grammar:
  assumes "list_all item_ok is" "ip_state p = Data" "concat cs = concat (map item_bytes is)"
  shows "iac_parse_all p cs =
    (p, concat (map item_data is), concat (map (item_reply (ip_refuse p)) is))"
proof -
  have "iac_parse_all q ds = (let (st, out, rep) = iac_loop (ip_refuse q) (ip_state q) (concat ds)
    in (q\<lparr>ip_state := st\<rparr>, out, rep))" for q ds
    by (induction ds arbitrary: q)
      (auto simp: iac_parse_def iac_loop_append Let_def split: prod.splits)
  from this [of p cs] show ?thesis
    using assms(2) by (simp add: assms(3) iac_loop_items [OF assms(1)])
qed

theorem iac_parse_grammar_witness:
  "iac_parse_all iac_new [[97, 255], [253, 1, 255], [255, 255, 250, 24, 120, 255], [240, 98]]
     = (iac_new, [97, 255, 98], [255, 252, 1])"
  using iac_parse_grammar [of "[TData 97, TNegotiate DO 1, TData 255, TSubneg 24 [120], TData 98]"
      iac_new "[[97, 255], [253, 1, 255], [255, 255, 250, 24, 120, 255], [240, 98]]"]
  by (simp add: iac_new_def escape_iac_def)

text \<open>
  No negotiation loop and no amplification: whatever bytes a peer sends in whatever state,
  the replies are a sequence of refusals that a second parser of this kind consumes without
  answering and without data, and data and replies together are never longer than the input
  plus the two bytes a suspended command may owe.
\<close>

theorem iac_replies_quiet:
  assumes "iac_parse p chunk = (p', out, replies)" "ip_state q = Data"
  shows "iac_parse q replies = (q, [], []) \<and> length out + length replies \<le> length chunk + 2"
proof -
  obtain st where loop: "iac_loop (ip_refuse p) (ip_state p) chunk = (st, out, replies)"
    using assms(1) by (auto simp: iac_parse_def Let_def split: prod.splits)
  obtain "is" where "is": "list_all is_refusal is" "replies = concat (map item_bytes is)"
    using iac_loop_refusals [OF loop] by blast
  have "iac_parse q replies = (q, [], [])"
    using refusals_silent [OF "is"(1), of "ip_refuse q"] iac_loop_items [of "is" "ip_refuse q"] assms(2)
    by (simp add: iac_parse_def "is"(2))
  moreover have "iac_pending (ip_state p) \<le> 2" by (cases "ip_state p") simp_all
  with iac_loop_bound [OF loop] have "length out + length replies \<le> length chunk + 2" by simp
  ultimately show ?thesis ..
qed

theorem iac_replies_quiet_witness:
  "iac_parse iac_new [255, 252, 1, 255, 254, 3] = (iac_new, [], [])"
  using iac_replies_quiet [of iac_new "[255, 253, 1, 255, 251, 3]" iac_new "[]"
      "[255, 252, 1, 255, 254, 3]" iac_new]
  by (simp add: iac_new_def iac_parse_def)

end
