(* ===== verification/MudProto.thy ===== *)
theory MudProto
  imports Interfaces
begin

text \<open>
  The binary protocol between the gateways, the broker and the shard: the decoders of
  \<open>crates/mudproto\<close> and the encoders of their peers. A slice or an index out of range is a
  panic in Rust: the decoders run in a result type whose \<open>None\<close> is the panic, so that the
  absence of panics on arbitrary input is a theorem and not a convention.
\<close>

section \<open>Results that may panic\<close>

datatype proto_error =
    TooShort nat nat
  | UnknownType u8
  | Malformed string

type_synonym 'a pres = "(proto_error + 'a) option"

definition pok :: "'a \<Rightarrow> 'a pres" where
  "pok x = Some (Inr x)"

definition perr :: "proto_error \<Rightarrow> 'a pres" where
  "perr e = Some (Inl e)"

definition pbind :: "'a pres \<Rightarrow> ('a \<Rightarrow> 'b pres) \<Rightarrow> 'b pres" where
  "pbind m f = (case m of None \<Rightarrow> None | Some (Inl e) \<Rightarrow> Some (Inl e) | Some (Inr x) \<Rightarrow> f x)"

text \<open>The length check with its early return, indexing, and slicing.\<close>

definition need :: "u8 list \<Rightarrow> nat \<Rightarrow> unit pres" where
  "need p n = (if length p < n then perr (TooShort n (length p)) else pok ())"

definition byte_at :: "u8 list \<Rightarrow> nat \<Rightarrow> u8 pres" where
  "byte_at p i = (if i < length p then pok (p ! i) else None)"

definition slice_to :: "u8 list \<Rightarrow> nat \<Rightarrow> nat \<Rightarrow> u8 list pres" where
  "slice_to p i j = (if i \<le> j \<and> j \<le> length p then pok (take (j - i) (drop i p)) else None)"

definition slice_from :: "u8 list \<Rightarrow> nat \<Rightarrow> u8 list pres" where
  "slice_from p i = (if i \<le> length p then pok (drop i p) else None)"

named_theorems pres_simps \<open>unfolding of the panic-aware results\<close>

declare pok_def [pres_simps] perr_def [pres_simps] pbind_def [pres_simps] need_def [pres_simps]
  byte_at_def [pres_simps] slice_to_def [pres_simps] slice_from_def [pres_simps]

text \<open>\<open>total_pres m\<close>: the computation does not panic.\<close>

definition total_pres :: "'a pres \<Rightarrow> bool" where
  "total_pres m \<longleftrightarrow> m \<noteq> None"

lemma total_ok [simp]: "total_pres (pok x)" "total_pres (perr e)"
  by (simp_all add: total_pres_def pres_simps)

lemma total_need:
  "(n \<le> length p \<Longrightarrow> total_pres (f ())) \<Longrightarrow> total_pres (pbind (need p n) f)"
  by (auto simp: total_pres_def pres_simps)

lemma total_byte_at:
  "i < length p \<Longrightarrow> (\<And>b. total_pres (f b)) \<Longrightarrow> total_pres (pbind (byte_at p i) f)"
  by (auto simp: total_pres_def pres_simps)

lemma total_slice_to:
  "i \<le> j \<Longrightarrow> j \<le> length p \<Longrightarrow> (\<And>s. total_pres (f s)) \<Longrightarrow> total_pres (pbind (slice_to p i j) f)"
  by (auto simp: total_pres_def pres_simps)

lemma total_slice_from:
  "i \<le> length p \<Longrightarrow> (\<And>s. total_pres (f s)) \<Longrightarrow> total_pres (pbind (slice_from p i) f)"
  by (auto simp: total_pres_def pres_simps)

lemmas total_intros = total_need total_byte_at total_slice_to total_slice_from

section \<open>Session identifiers\<close>

type_synonym session_id = u128

definition session_to_be_bytes :: "session_id \<Rightarrow> u8 list" where
  "session_to_be_bytes s = be_bytes 16 (unat s)"

definition session_from_be_bytes :: "u8 list \<Rightarrow> session_id" where
  "session_from_be_bytes b = word_of_nat (be_value b)"

definition session_short :: "session_id \<Rightarrow> u64" where
  "session_short s = xor (ucast s) (ucast (drop_bit 64 s))"

lemma length_session_bytes [simp]: "length (session_to_be_bytes s) = 16"
  by (simp add: session_to_be_bytes_def)

lemma session_bytes_roundtrip [simp]:
  "session_from_be_bytes (session_to_be_bytes s) = s"
proof -
  have "unat s < 2 ^ LENGTH(128)" by (rule unsigned_less)
  then have "unat s < 256 ^ 16" by simp
  then show ?thesis
    by (simp add: session_to_be_bytes_def session_from_be_bytes_def be_value_be_bytes)
qed

section \<open>Chat messages\<close>

datatype chat_req =
    ChatJoin session_id "u8 list"
  | ChatLeave session_id
  | ChatSay session_id "u8 list"

datatype chat_event =
    ChatLine "u8 list"
  | ChatErr "u8 list"

definition chat_parse_req :: "u8 list \<Rightarrow> chat_req pres" where
  "chat_parse_req p =
     pbind (need p (1 + 16)) (\<lambda>_.
     pbind (byte_at p 0) (\<lambda>t.
     pbind (slice_to p 1 (1 + 16)) (\<lambda>sid.
     let session = session_from_be_bytes sid in
     if t = 1 then pbind (slice_from p (1 + 16)) (\<lambda>name. pok (ChatJoin session name))
     else if t = 2 then
       (if length p \<noteq> 1 + 16 then perr (Malformed ''leave must be exactly 17 bytes'')
        else pok (ChatLeave session))
     else if t = 3 then pbind (slice_from p (1 + 16)) (\<lambda>msg. pok (ChatSay session msg))
     else perr (UnknownType t))))"

definition chat_parse_event :: "u8 list \<Rightarrow> chat_event pres" where
  "chat_parse_event p =
     (if p = [] then perr (TooShort 1 0)
      else
        pbind (byte_at p 0) (\<lambda>t.
        if t = 0x81 then pbind (slice_from p 1) (\<lambda>line. pok (ChatLine line))
        else if t = 0x82 then pbind (slice_from p 1) (\<lambda>msg. pok (ChatErr msg))
        else perr (UnknownType t)))"

section \<open>Shard messages\<close>

datatype shard_req =
    Attach (at_session: session_id) (at_is_bot: bool) (at_auth: "u8 list option")
      (at_race: "u8 list option") (at_class: "u8 list option") (at_sex: "u8 list option")
      (at_pronouns: "u8 list option") (at_name: "u8 list")
  | Detach session_id
  | Input session_id "u8 list"

datatype shard_resp =
    Output session_id "u8 list"
  | RespErr session_id "u8 list"

abbreviation "REQ_ATTACH \<equiv> (1 :: u8)"
abbreviation "REQ_DETACH \<equiv> (2 :: u8)"
abbreviation "REQ_INPUT \<equiv> (3 :: u8)"
abbreviation "RESP_OUTPUT \<equiv> (0x81 :: u8)"
abbreviation "RESP_ERR \<equiv> (0x82 :: u8)"

text \<open>
  The optional authentication blob at offset \<open>i\<close>, and the four build fields: each is a length
  byte and its bytes; the check before a field (\<open>tail = 1\<close>) also demands the length byte of
  the next one.
\<close>

definition parse_auth :: "u8 list \<Rightarrow> bool \<Rightarrow> nat \<Rightarrow> (u8 list option \<times> nat) pres" where
  "parse_auth p has_auth i =
     (if has_auth then
        pbind (need p (i + 2)) (\<lambda>_.
        pbind (byte_at p i) (\<lambda>b0.
        pbind (byte_at p (i + 1)) (\<lambda>b1.
        let len = be_value [b0, b1]; i = i + 2 in
        pbind (need p (i + len)) (\<lambda>_.
        pbind (slice_to p i (i + len)) (\<lambda>a. pok (Some a, i + len))))))
      else pok (None, i))"

definition len_field :: "u8 list \<Rightarrow> nat \<Rightarrow> nat \<Rightarrow> (u8 list \<times> nat) pres" where
  "len_field p i tail =
     pbind (byte_at p i) (\<lambda>l.
     let len = unat l; i = i + 1 in
     pbind (need p (i + len + tail)) (\<lambda>_.
     pbind (slice_to p i (i + len)) (\<lambda>field. pok (field, i + len))))"

definition parse_build ::
  "u8 list \<Rightarrow> bool \<Rightarrow> nat \<Rightarrow>
   (u8 list option \<times> u8 list option \<times> u8 list option \<times> u8 list option \<times> nat) pres" where
  "parse_build p has_build i =
     (if has_build then
        pbind (need p (i + 1)) (\<lambda>_.
        pbind (len_field p i 1) (\<lambda>(race, i).
        pbind (len_field p i 1) (\<lambda>(class, i).
        pbind (len_field p i 1) (\<lambda>(sex, i).
        pbind (len_field p i 0) (\<lambda>(pronouns, i).
        pok (Some race, Some class, Some sex, Some pronouns, i))))))
      else pok (None, None, None, None, i))"

definition parse_attach :: "u8 list \<Rightarrow> session_id \<Rightarrow> shard_req pres" where
  "parse_attach p session =
     pbind (need p (1 + 16 + 1)) (\<lambda>_.
     pbind (byte_at p (1 + 16)) (\<lambda>flags.
     let is_bot = and flags 1 \<noteq> 0;
         has_auth = and flags 2 \<noteq> 0;
         has_build = and flags 4 \<noteq> 0 in
     pbind (parse_auth p has_auth (1 + 16 + 1)) (\<lambda>(auth, i).
     pbind (parse_build p has_build i) (\<lambda>(race, class, sex, pronouns, i).
     pbind (slice_from p i) (\<lambda>name.
     pok (Attach session is_bot auth race class sex pronouns name))))))"

definition parse_req :: "u8 list \<Rightarrow> shard_req pres" where
  "parse_req p =
     pbind (need p (1 + 16)) (\<lambda>_.
     pbind (byte_at p 0) (\<lambda>t.
     pbind (slice_to p 1 (1 + 16)) (\<lambda>sid.
     let session = session_from_be_bytes sid in
     if t = REQ_ATTACH then parse_attach p session
     else if t = REQ_DETACH then
       (if length p \<noteq> 1 + 16 then perr (Malformed ''detach must be exactly 17 bytes'')
        else pok (Detach session))
     else if t = REQ_INPUT then pbind (slice_from p (1 + 16)) (\<lambda>line. pok (Input session line))
     else perr (UnknownType t))))"

definition parse_resp :: "u8 list \<Rightarrow> shard_resp pres" where
  "parse_resp p =
     pbind (need p (1 + 16)) (\<lambda>_.
     pbind (byte_at p 0) (\<lambda>t.
     pbind (slice_to p 1 (1 + 16)) (\<lambda>sid.
     let session = session_from_be_bytes sid in
     if t = RESP_OUTPUT then pbind (slice_from p (1 + 16)) (\<lambda>line. pok (Output session line))
     else if t = RESP_ERR then pbind (slice_from p (1 + 16)) (\<lambda>msg. pok (RespErr session msg))
     else perr (UnknownType t))))"

section \<open>The encoders of the peers\<close>

text \<open>
  \<open>write_req\<close> of the broker and of the gateway and \<open>write_resp_async\<close> of the shard put the
  same header, type byte and session id, before the body; the result is the frame's payload.
\<close>

definition write_req :: "u8 \<Rightarrow> session_id \<Rightarrow> u8 list \<Rightarrow> u8 list" where
  "write_req t session body = (t # session_to_be_bytes session) @ body"

definition write_resp :: "u8 \<Rightarrow> session_id \<Rightarrow> u8 list \<Rightarrow> u8 list" where
  "write_resp t session body = (t # session_to_be_bytes session) @ body"

definition push_min255 :: "u8 list \<Rightarrow> u8 list" where
  "push_min255 r = word_of_nat (min (length r) 255) # take (min (length r) 255) r"

definition attach_body ::
  "bool \<Rightarrow> u8 list option \<Rightarrow> u8 list \<Rightarrow> u8 list \<Rightarrow> u8 list \<Rightarrow> u8 list \<Rightarrow> u8 list \<Rightarrow> u8 list" where
  "attach_body is_bot auth race class sex pronouns name =
     (let flags = 0;
          flags = (if is_bot then or flags 1 else flags);
          flags = (if auth \<noteq> None then or flags 2 else flags);
          flags = or flags 4;
          b = [flags];
          b = (case auth of
                 None \<Rightarrow> b
               | Some a \<Rightarrow>
                   if length a \<le> 65535 then b @ be_bytes 2 (length a) @ a
                   else b[0 := and (b ! 0) (not 2)])
      in b @ push_min255 race @ push_min255 class @ push_min255 sex @ push_min255 pronouns
           @ name)"

text \<open>
  The gateway's \<open>push_field\<close> slices a \<open>str\<close>: \<open>&t[..255]\<close> panics when byte 255 is inside a
  character. Its \<open>str\<close> arguments are strings, written out as bytes.
\<close>

definition str_bytes :: "string \<Rightarrow> u8 list" where
  "str_bytes s = map of_char s"

definition is_char_boundary :: "string \<Rightarrow> nat \<Rightarrow> bool" where
  "is_char_boundary s i \<longleftrightarrow> i = 0 \<or> i = length s \<or>
     (i < length s \<and> \<not> (0x80 \<le> (of_char (s ! i) :: nat) \<and> (of_char (s ! i) :: nat) < 0xC0))"

definition push_field :: "string option \<Rightarrow> u8 list option" where
  "push_field s =
     (let t = trim (case s of None \<Rightarrow> [] | Some x \<Rightarrow> x) in
      if 255 < length t then
        (if is_char_boundary t 255 then Some (word_of_nat 255 # str_bytes (take 255 t)) else None)
      else Some (word_of_nat (length t) # str_bytes t))"

definition gateway_attach_body ::
  "bool \<Rightarrow> string \<Rightarrow> string option \<Rightarrow> string option \<Rightarrow> string option \<Rightarrow> string option \<Rightarrow> u8 list option"
  where
  "gateway_attach_body is_bot name race class sex pronouns =
     (let flags = (if is_bot then or 0 1 else 0);
          has_build = (race \<noteq> None \<or> class \<noteq> None \<or> sex \<noteq> None \<or> pronouns \<noteq> None);
          flags = (if has_build then or flags 4 else flags)
      in if has_build then
           (case (push_field race, push_field class, push_field sex, push_field pronouns) of
              (Some r, Some c, Some s, Some p) \<Rightarrow>
                Some (flags # r @ c @ s @ p @ str_bytes name)
            | _ \<Rightarrow> None)
         else Some (flags # str_bytes name))"

section \<open>The decoders do not panic\<close>

lemma total_parse_auth:
  assumes "i \<le> length p" "\<And>a j. j \<le> length p \<Longrightarrow> total_pres (f (a, j))"
  shows "total_pres (pbind (parse_auth p b i) f)"
  using assms by (auto simp: total_pres_def parse_auth_def pres_simps Let_def)

lemma total_len_field:
  assumes "i < length p" "\<And>a j. j + k \<le> length p \<Longrightarrow> total_pres (f (a, j))"
  shows "total_pres (pbind (len_field p i k) f)"
  using assms by (auto simp: total_pres_def len_field_def pres_simps Let_def)

lemma total_parse_build:
  assumes "i \<le> length p" "\<And>r c s n j. j \<le> length p \<Longrightarrow> total_pres (f (r, c, s, n, j))"
  shows "total_pres (pbind (parse_build p b i) f)"
  using assms by (auto simp: total_pres_def parse_build_def len_field_def pres_simps Let_def)

lemma parse_attach_total: "total_pres (parse_attach p s)"
  unfolding parse_attach_def Let_def
  by (auto intro!: total_intros total_parse_auth total_parse_build)

text \<open>
  No byte string makes a decoder panic: every index and every slice of \<open>parse_req\<close>,
  \<open>parse_resp\<close> and of the two chat decoders is in range, whatever the length bytes of the
  message claim; a bad message is an error value.
\<close>

theorem decoders_never_panic:
  "total_pres (parse_req p) \<and> total_pres (parse_resp p) \<and> total_pres (chat_parse_req p)
     \<and> total_pres (chat_parse_event p)"
  by (auto simp: parse_req_def parse_resp_def chat_parse_req_def chat_parse_event_def Let_def
      Suc_le_eq intro!: total_intros parse_attach_total)

section \<open>Round trips\<close>

lemma pbind_ok [simp]: "pbind (pok x) f = f x"
  by (simp add: pres_simps)

lemma need_ok: "n \<le> length p \<Longrightarrow> need p n = pok ()"
  by (simp add: pres_simps)

lemma byte_at_ok: "p = pre @ x # r \<Longrightarrow> i = length pre \<Longrightarrow> byte_at p i = pok x"
  by (simp add: pres_simps)

lemma slice_to_ok:
  "p = pre @ a @ r \<Longrightarrow> i = length pre \<Longrightarrow> j = length pre + length a \<Longrightarrow> slice_to p i j = pok a"
  by (simp add: pres_simps)

lemma slice_from_ok: "p = pre @ r \<Longrightarrow> i = length pre \<Longrightarrow> slice_from p i = pok r"
  by (simp add: pres_simps)

text \<open>What the encoders put for one build field, and for the whole body.\<close>

definition field_enc :: "u8 list \<Rightarrow> u8 list" where
  "field_enc f = word_of_nat (length f) # f"

lemma unat_of_nat_u8: "n \<le> 255 \<Longrightarrow> unat (word_of_nat n :: u8) = n"
  by (simp add: unat_of_nat)

lemma len_field_enc:
  assumes "p = pre @ field_enc f @ rest" "length f \<le> 255" "k \<le> length rest"
  shows "len_field p (length pre) k = pok (f, length (pre @ field_enc f))"
proof -
  have "byte_at p (length pre) = pok (word_of_nat (length f))"
    using assms(1) by (intro byte_at_ok [of _ pre _ "f @ rest"]) (simp_all add: field_enc_def)
  moreover have "slice_to p (length pre + 1) (length pre + 1 + length f) = pok f"
    using assms(1)
    by (intro slice_to_ok [of _ "pre @ [word_of_nat (length f)]" _ rest]) (simp_all add: field_enc_def)
  moreover have "need p (length pre + 1 + length f + k) = pok ()"
    using assms by (intro need_ok) (simp add: field_enc_def)
  ultimately show ?thesis
    using assms(2) by (simp add: len_field_def unat_of_nat_u8 field_enc_def)
qed

lemma parse_build_enc:
  assumes "p = pre @ field_enc r @ field_enc c @ field_enc s @ field_enc n @ rest"
    and "length r \<le> 255" "length c \<le> 255" "length s \<le> 255" "length n \<le> 255"
  shows "parse_build p True (length pre) = pok (Some r, Some c, Some s, Some n,
    length (pre @ field_enc r @ field_enc c @ field_enc s @ field_enc n))"
proof -
  have "len_field p (length pre) 1 = pok (r, length (pre @ field_enc r))"
    using assms by (intro len_field_enc) (auto simp: field_enc_def)
  moreover have "len_field p (length (pre @ field_enc r)) 1
      = pok (c, length ((pre @ field_enc r) @ field_enc c))"
    using assms by (intro len_field_enc) (auto simp: field_enc_def)
  moreover have "len_field p (length ((pre @ field_enc r) @ field_enc c)) 1
      = pok (s, length (((pre @ field_enc r) @ field_enc c) @ field_enc s))"
    using assms by (intro len_field_enc) (auto simp: field_enc_def)
  moreover have "len_field p (length (((pre @ field_enc r) @ field_enc c) @ field_enc s)) 0
      = pok (n, length ((((pre @ field_enc r) @ field_enc c) @ field_enc s) @ field_enc n))"
    using assms by (intro len_field_enc) (auto simp: field_enc_def)
  moreover have "need p (length pre + 1) = pok ()"
    using assms(1) by (intro need_ok) (simp add: field_enc_def)
  ultimately show ?thesis
    by (simp only: parse_build_def if_True pbind_ok case_prod_conv append_assoc)
qed

lemma be_bytes_2: "be_bytes 2 v = [word_of_nat (v div 256 mod 256), word_of_nat (v mod 256)]"
  by (simp add: be_bytes_num)

lemma parse_auth_enc:
  assumes "p = pre @ be_bytes 2 (length a) @ a @ rest" "length a \<le> 65535"
  shows "parse_auth p True (length pre) = pok (Some a, length (pre @ be_bytes 2 (length a) @ a))"
proof -
  define x y where "x = (word_of_nat (length a div 256 mod 256) :: u8)"
    and "y = (word_of_nat (length a mod 256) :: u8)"
  have xy: "be_bytes 2 (length a) = [x, y]"
    unfolding be_bytes_2 x_def y_def by (rule refl)
  have "length a < 256 ^ 2" using assms(2) by simp
  from be_value_be_bytes [OF this] have v: "be_value [x, y] = length a"
    unfolding xy .
  have "byte_at p (length pre) = pok x"
    using assms(1) xy by (intro byte_at_ok [of _ pre _ "y # a @ rest"]) simp_all
  moreover have "byte_at p (length pre + 1) = pok y"
    using assms(1) xy by (intro byte_at_ok [of _ "pre @ [x]" _ "a @ rest"]) simp_all
  moreover have "slice_to p (length pre + 2) (length pre + 2 + length a) = pok a"
    using assms(1) xy by (intro slice_to_ok [of _ "pre @ [x, y]" _ rest]) simp_all
  moreover have "need p (length pre + 2) = pok ()" "need p (length pre + 2 + length a) = pok ()"
    using assms(1) xy by (simp_all add: need_ok)
  moreover have "length (pre @ be_bytes 2 (length a) @ a) = length pre + 2 + length a"
    using xy by simp
  ultimately show ?thesis
    by (simp only: parse_auth_def if_True pbind_ok Let_def v)
qed

lemma parse_build_none: "parse_build p False i = pok (None, None, None, None, i)"
  by (simp add: parse_build_def)

lemma parse_auth_none: "parse_auth p False i = pok (None, i)"
  by (simp add: parse_auth_def)

lemma parse_req_header:
  assumes "p = write_req t sid body"
  shows "parse_req p =
    (if t = REQ_ATTACH then parse_attach p sid
     else if t = REQ_DETACH then
       (if body \<noteq> [] then perr (Malformed ''detach must be exactly 17 bytes'')
        else pok (Detach sid))
     else if t = REQ_INPUT then pok (Input sid body)
     else perr (UnknownType t))"
proof -
  have "need p (1 + 16) = pok ()" using assms by (simp add: need_ok write_req_def)
  moreover have "byte_at p 0 = pok t"
    using assms by (intro byte_at_ok [of _ "[]"]) (simp_all add: write_req_def)
  moreover have "slice_to p 1 (1 + 16) = pok (session_to_be_bytes sid)"
    using assms by (intro slice_to_ok [of _ "[t]" _ body]) (simp_all add: write_req_def)
  moreover have "slice_from p (1 + 16) = pok body"
    using assms by (intro slice_from_ok [of _ "t # session_to_be_bytes sid"]) (simp_all add: write_req_def)
  moreover have "(length p \<noteq> 1 + 16) = (body \<noteq> [])"
    using assms by (simp add: write_req_def)
  ultimately show ?thesis by (simp only: parse_req_def pbind_ok Let_def session_bytes_roundtrip)
qed

lemma parse_resp_header:
  "parse_resp (write_resp t sid body) =
    (if t = RESP_OUTPUT then pok (Output sid body)
     else if t = RESP_ERR then pok (RespErr sid body) else perr (UnknownType t))"
proof -
  let ?p = "write_resp t sid body"
  have "need ?p (1 + 16) = pok ()" by (simp add: need_ok write_resp_def)
  moreover have "byte_at ?p 0 = pok t"
    by (intro byte_at_ok [of _ "[]"]) (simp_all add: write_resp_def)
  moreover have "slice_to ?p 1 (1 + 16) = pok (session_to_be_bytes sid)"
    by (intro slice_to_ok [of _ "[t]" _ body]) (simp_all add: write_resp_def)
  moreover have "slice_from ?p (1 + 16) = pok body"
    by (intro slice_from_ok [of _ "t # session_to_be_bytes sid"]) (simp_all add: write_resp_def)
  ultimately show ?thesis by (simp only: parse_resp_def pbind_ok Let_def session_bytes_roundtrip)
qed

definition attach_flags :: "bool \<Rightarrow> bool \<Rightarrow> bool \<Rightarrow> u8" where
  "attach_flags isb auth build = (if isb then 1 else 0) + (if auth then 2 else 0) + (if build then 4 else 0)"

definition auth_enc :: "u8 list option \<Rightarrow> u8 list" where
  "auth_enc auth = (case auth of None \<Rightarrow> [] | Some a \<Rightarrow> be_bytes 2 (length a) @ a)"

definition auth_kept :: "u8 list option \<Rightarrow> u8 list option" where
  "auth_kept auth = (case auth of None \<Rightarrow> None | Some a \<Rightarrow> if length a \<le> 65535 then Some a else None)"

lemma push_min255_enc: "push_min255 r = field_enc (take 255 r)"
  by (simp add: push_min255_def field_enc_def min_def)

lemma attach_body_enc:
  "attach_body isb auth r c s n name =
     attach_flags isb (auth_kept auth \<noteq> None) True # auth_enc (auth_kept auth) @
       field_enc (take 255 r) @ field_enc (take 255 c) @ field_enc (take 255 s) @
       field_enc (take 255 n) @ name"
  by (cases auth; cases isb)
    (simp_all add: attach_body_def push_min255_enc attach_flags_def auth_enc_def auth_kept_def)

lemma parse_attach_enc:
  assumes p: "p = write_req REQ_ATTACH sid (attach_flags isb (auth \<noteq> None) True # auth_enc auth @
       field_enc r @ field_enc c @ field_enc s @ field_enc n @ name)"
    and len: "length r \<le> 255" "length c \<le> 255" "length s \<le> 255" "length n \<le> 255"
      "\<And>a. auth = Some a \<Longrightarrow> length a \<le> 65535"
  shows "parse_attach p sid = pok (Attach sid isb auth (Some r) (Some c) (Some s) (Some n) name)"
proof -
  let ?h = "REQ_ATTACH # session_to_be_bytes sid" and ?f = "attach_flags isb (auth \<noteq> None) True"
  let ?b = "field_enc r @ field_enc c @ field_enc s @ field_enc n"
  have flags: "(and ?f 1 \<noteq> 0) = isb" "(and ?f 2 \<noteq> 0) = (auth \<noteq> None)" "(and ?f 4 \<noteq> 0) = True"
    by (simp_all add: attach_flags_def)
  have "need p (1 + 16 + 1) = pok ()" using p by (simp add: need_ok write_req_def)
  moreover have "byte_at p (1 + 16) = pok ?f"
    using p by (intro byte_at_ok [of _ ?h]) (simp_all add: write_req_def)
  moreover have "parse_auth p (auth \<noteq> None) (1 + 16 + 1) = pok (auth, length (?h @ ?f # auth_enc auth))"
  proof (cases auth)
    case None
    then show ?thesis by (simp add: parse_auth_none auth_enc_def)
  next
    case (Some a)
    have "parse_auth p True (length (?h @ [?f]))
        = pok (Some a, length ((?h @ [?f]) @ be_bytes 2 (length a) @ a))"
      using p len(5) Some
      by (intro parse_auth_enc [of _ _ _ "?b @ name"]) (simp_all add: write_req_def auth_enc_def)
    then show ?thesis using Some by (simp add: auth_enc_def)
  qed
  moreover have "parse_build p True (length (?h @ ?f # auth_enc auth))
      = pok (Some r, Some c, Some s, Some n, length ((?h @ ?f # auth_enc auth) @ ?b))"
    using p len(1-4) by (intro parse_build_enc [of _ _ _ _ _ _ name]) (simp_all add: write_req_def)
  moreover have "slice_from p (length ((?h @ ?f # auth_enc auth) @ ?b)) = pok name"
    using p by (intro slice_from_ok [of _ "(?h @ ?f # auth_enc auth) @ ?b"]) (simp_all add: write_req_def)
  ultimately show ?thesis
    by (simp only: parse_attach_def pbind_ok Let_def case_prod_conv flags)
qed

text \<open>
  The shard decodes what its peers encode. An attach of the broker comes back with its
  session, its flag, its name and its build fields cut to 255 bytes, and with its
  authentication blob unless that is longer than a 16-bit length can say, in which case it
  is dropped and the message stays well formed; detach and input messages and both kinds of
  response come back exactly.
\<close>

theorem attach_roundtrip:
  "parse_req (write_req REQ_ATTACH sid (attach_body isb auth race class sex pronouns name)) =
     pok (Attach sid isb
       (case auth of None \<Rightarrow> None | Some a \<Rightarrow> if length a \<le> 65535 then Some a else None)
       (Some (take 255 race)) (Some (take 255 class)) (Some (take 255 sex))
       (Some (take 255 pronouns)) name)
   \<and> parse_req (write_req REQ_DETACH sid []) = pok (Detach sid)
   \<and> parse_req (write_req REQ_INPUT sid line) = pok (Input sid line)
   \<and> parse_resp (write_resp RESP_OUTPUT sid line) = pok (Output sid line)
   \<and> parse_resp (write_resp RESP_ERR sid line) = pok (RespErr sid line)"
proof -
  let ?p = "write_req REQ_ATTACH sid (attach_body isb auth race class sex pronouns name)"
  have "parse_attach ?p sid = pok (Attach sid isb (auth_kept auth) (Some (take 255 race))
      (Some (take 255 class)) (Some (take 255 sex)) (Some (take 255 pronouns)) name)"
    by (rule parse_attach_enc) (auto simp: attach_body_enc auth_kept_def split: option.splits if_splits)
  then show ?thesis by (simp add: parse_req_header [OF refl] parse_resp_header auth_kept_def)
qed

lemma push_field_enc:
  "push_field s = Some e \<Longrightarrow> e = field_enc (take 255 (str_bytes (trim (case s of None \<Rightarrow> [] | Some x \<Rightarrow> x))))"
  by (auto simp: push_field_def field_enc_def str_bytes_def Let_def take_map min_def
      split: if_splits option.splits)

lemma push_field_None:
  "push_field s = None \<longleftrightarrow> (\<exists>x. s = Some x \<and> 255 < length (trim x) \<and> \<not> is_char_boundary (trim x) 255)"
  by (auto simp: push_field_def Let_def split: option.splits)

lemma parse_attach_plain:
  assumes p: "p = write_req REQ_ATTACH sid (attach_flags isb False False # name)"
  shows "parse_attach p sid = pok (Attach sid isb None None None None None name)"
proof -
  let ?h = "REQ_ATTACH # session_to_be_bytes sid" and ?f = "attach_flags isb False False"
  have flags: "(and ?f 1 \<noteq> 0) = isb" "(and ?f 2 \<noteq> 0) = False" "(and ?f 4 \<noteq> 0) = False"
    by (simp_all add: attach_flags_def)
  have "need p (1 + 16 + 1) = pok ()" using p by (simp add: need_ok write_req_def)
  moreover have "byte_at p (1 + 16) = pok ?f"
    using p by (intro byte_at_ok [of _ ?h]) (simp_all add: write_req_def)
  moreover have "slice_from p (1 + 16 + 1) = pok name"
    using p by (intro slice_from_ok [of _ "?h @ [?f]"]) (simp_all add: write_req_def)
  ultimately show ?thesis
    by (simp only: parse_attach_def pbind_ok Let_def case_prod_conv flags parse_auth_none
        parse_build_none)
qed

definition gateway_field :: "bool \<Rightarrow> string option \<Rightarrow> u8 list option" where
  "gateway_field build s =
     (if build then Some (take 255 (str_bytes (trim (case s of None \<Rightarrow> [] | Some x \<Rightarrow> x)))) else None)"

text \<open>
  The shard decodes the attach message of the WebSocket gateway: without any build field
  the message carries none, with at least one it carries all four, trimmed, an absent one as
  the empty token; never an authentication blob. The gateway fails to build the message
  exactly when a field longer than 255 bytes has a character across byte 255, where the
  slice of the code panics.
\<close>

theorem gateway_attach_roundtrip:
  "let build = \<not> (race = None \<and> class = None \<and> sex = None \<and> pronouns = None) in case gateway_attach_body isb name race class sex pronouns of
      Some b \<Rightarrow> parse_req (write_req REQ_ATTACH sid b) =
        pok (Attach sid isb None (gateway_field build race) (gateway_field build class)
          (gateway_field build sex) (gateway_field build pronouns) (str_bytes name))
    | None \<Rightarrow> \<exists>f \<in> {race, class, sex, pronouns}. \<exists>x. f = Some x \<and> 255 < length (trim x)
        \<and> \<not> is_char_boundary (trim x) 255"
proof (cases "gateway_attach_body isb name race class sex pronouns")
  case None
  then have "\<exists>f \<in> {race, class, sex, pronouns}. push_field f = None"
    by (auto simp: gateway_attach_body_def Let_def split: if_splits option.splits)
  then show ?thesis using None by (auto simp: push_field_None Let_def)
next
  case (Some b)
  let ?p = "write_req REQ_ATTACH sid b"
  define build where "build \<longleftrightarrow> race \<noteq> None \<or> class \<noteq> None \<or> sex \<noteq> None \<or> pronouns \<noteq> None"
  have "parse_attach ?p sid = pok (Attach sid isb None (gateway_field build race)
      (gateway_field build class) (gateway_field build sex) (gateway_field build pronouns)
      (str_bytes name))"
  proof (cases build)
    case False
    then have "b = attach_flags isb False False # str_bytes name"
      using Some by (auto simp: gateway_attach_body_def build_def attach_flags_def)
    with False show ?thesis by (simp add: parse_attach_plain gateway_field_def)
  next
    case True
    then obtain r c s n where f: "push_field race = Some r" "push_field class = Some c"
      "push_field sex = Some s" "push_field pronouns = Some n"
      and b: "b = attach_flags isb False True # r @ c @ s @ n @ str_bytes name"
      using Some
      by (auto simp: gateway_attach_body_def build_def attach_flags_def split: option.splits if_splits)
    show ?thesis
      unfolding gateway_field_def if_P [OF True]
      by (rule parse_attach_enc [where auth = None])
        (simp_all add: b f [THEN push_field_enc] auth_enc_def)
  qed
  then show ?thesis using Some by (simp add: parse_req_header [OF refl] build_def)
qed

end
