(* ===== verification/IpPrefix.thy ===== *)
theory IpPrefix
  imports Interfaces
begin

text \<open>
  \<open>crates/sbc_core/src/lib.rs\<close>: IP prefixes and the list of exempt prefixes. Addresses are
  the words that \<open>u32::from\<close> and \<open>u128::from\<close> give. The text form of an address is the
  standard library's \<open>FromStr\<close> and \<open>Display\<close> of \<open>IpAddr\<close>, which the definitions take as the
  arguments \<open>parse_ip\<close> and \<open>show_ip\<close>.
\<close>

datatype ip_addr = V4 u32 | V6 u128

datatype ip_family = FamV4 | FamV6

record ip_prefix =
  ipp_addr :: ip_addr
  ipp_len :: nat

definition ipp_family :: "ip_prefix \<Rightarrow> ip_family" where
  "ipp_family p = (case ipp_addr p of V4 _ \<Rightarrow> FamV4 | V6 _ \<Rightarrow> FamV6)"

text \<open>
  The shift amount \<open>32 - prefix_len\<close> is computed in \<open>u32\<close>, and a shift uses it modulo the
  width: for a length above the width, which \<open>new\<close> never lets in, this is what a release
  build does (a debug build panics).
\<close>

definition v4_mask :: "nat \<Rightarrow> u32" where
  "v4_mask prefix_len =
     (if prefix_len = 0 then 0 else push_bit (nat ((32 - int prefix_len) mod 32)) (- 1))"

definition v6_mask :: "nat \<Rightarrow> u128" where
  "v6_mask prefix_len =
     (if prefix_len = 0 then 0 else push_bit (nat ((128 - int prefix_len) mod 128)) (- 1))"

definition mask_v4 :: "u32 \<Rightarrow> nat \<Rightarrow> u32" where
  "mask_v4 addr prefix_len = and addr (v4_mask prefix_len)"

definition mask_v6 :: "u128 \<Rightarrow> nat \<Rightarrow> u128" where
  "mask_v6 addr prefix_len = and addr (v6_mask prefix_len)"

definition ipp_new :: "ip_addr \<Rightarrow> nat \<Rightarrow> ip_prefix option" where
  "ipp_new addr prefix_len =
     (let max = (case addr of V4 _ \<Rightarrow> 32 | V6 _ \<Rightarrow> 128) in
      if max < prefix_len then None
      else
        let addr = (case addr of
                      V4 a \<Rightarrow> V4 (mask_v4 a prefix_len)
                    | V6 a \<Rightarrow> V6 (mask_v6 a prefix_len))
        in Some \<lparr>ipp_addr = addr, ipp_len = prefix_len\<rparr>)"

definition parse_cidr :: "(string \<Rightarrow> ip_addr option) \<Rightarrow> string \<Rightarrow> ip_prefix option" where
  "parse_cidr parse_ip s =
     (case split_once (CHR ''/'') (trim s) of
        None \<Rightarrow> None
      | Some (ip_s, plen_s) \<Rightarrow>
          (case parse_ip (trim ip_s) of
             None \<Rightarrow> None
           | Some addr \<Rightarrow>
               (case parse_uint 255 (trim plen_s) of
                  None \<Rightarrow> None
                | Some prefix_len \<Rightarrow> ipp_new addr prefix_len)))"

definition to_cidr_string :: "(ip_addr \<Rightarrow> string) \<Rightarrow> ip_prefix \<Rightarrow> string" where
  "to_cidr_string show_ip p = show_ip (ipp_addr p) @ ''/'' @ show_nat (ipp_len p)"

definition ipp_contains_ip :: "ip_prefix \<Rightarrow> ip_addr \<Rightarrow> bool" where
  "ipp_contains_ip p ip =
     (case (ipp_addr p, ip) of
        (V4 a, V4 b) \<Rightarrow> (let mask = v4_mask (ipp_len p) in and a mask = and b mask)
      | (V6 a, V6 b) \<Rightarrow> (let mask = v6_mask (ipp_len p) in and a mask = and b mask)
      | _ \<Rightarrow> False)"

definition ipp_contains_prefix :: "ip_prefix \<Rightarrow> ip_prefix \<Rightarrow> bool" where
  "ipp_contains_prefix p other =
     (if ipp_family p \<noteq> ipp_family other then False
      else if ipp_len other < ipp_len p then False
      else ipp_contains_ip p (ipp_addr other))"

section \<open>Exempt prefixes\<close>

type_synonym exempt_prefixes = "ip_prefix list"

definition exempt_contains_ip :: "exempt_prefixes \<Rightarrow> ip_addr \<Rightarrow> bool" where
  "exempt_contains_ip ex ip \<longleftrightarrow> list_ex (\<lambda>p. ipp_contains_ip p ip) ex"

definition exempt_contains_prefix :: "exempt_prefixes \<Rightarrow> ip_prefix \<Rightarrow> bool" where
  "exempt_contains_prefix ex pfx \<longleftrightarrow> list_ex (\<lambda>p. ipp_contains_prefix p pfx) ex"

text \<open>\<open>load\<close> on the text of the file: the first bad line, by its number, is the error.\<close>

fun exempt_load_lines ::
  "(string \<Rightarrow> ip_addr option) \<Rightarrow> nat \<Rightarrow> string list \<Rightarrow> nat + exempt_prefixes" where
  "exempt_load_lines parse_ip i [] = Inr []"
| "exempt_load_lines parse_ip i (raw # rest) =
     (let line = trim (hd (split_char (CHR ''#'') raw)) in
      if line = [] then exempt_load_lines parse_ip (i + 1) rest
      else (case parse_cidr parse_ip line of
              None \<Rightarrow> Inl (i + 1)
            | Some p \<Rightarrow>
                (case exempt_load_lines parse_ip (i + 1) rest of
                   Inl e \<Rightarrow> Inl e
                 | Inr ps \<Rightarrow> Inr (p # ps))))"

definition exempt_load :: "(string \<Rightarrow> ip_addr option) \<Rightarrow> string \<Rightarrow> nat + exempt_prefixes" where
  "exempt_load parse_ip content = exempt_load_lines parse_ip 0 (str_lines content)"

section \<open>What containment means\<close>

text \<open>The prefixes that \<open>new\<close> makes: a length within the width and no bit set below the mask.\<close>

definition ipp_width :: "ip_addr \<Rightarrow> nat" where
  "ipp_width a = (case a of V4 _ \<Rightarrow> 32 | V6 _ \<Rightarrow> 128)"

definition ipp_wf :: "ip_prefix \<Rightarrow> bool" where
  "ipp_wf p \<longleftrightarrow> ipp_len p \<le> ipp_width (ipp_addr p) \<and>
     (case ipp_addr p of V4 a \<Rightarrow> mask_v4 a (ipp_len p) = a | V6 a \<Rightarrow> mask_v6 a (ipp_len p) = a)"

lemma ipp_new_wf: "ipp_new addr n = Some p \<Longrightarrow> ipp_wf p"
  by (auto simp: ipp_new_def ipp_wf_def ipp_width_def mask_v4_def mask_v6_def and.assoc
      split: if_splits ip_addr.splits)

lemma parse_cidr_wf: "parse_cidr parse_ip s = Some p \<Longrightarrow> ipp_wf p"
  by (auto simp: parse_cidr_def split: option.splits intro: ipp_new_wf)

lemma bit_high_mask:
  "bit (push_bit k (- 1) :: 'a::len word) i \<longleftrightarrow> k \<le> i \<and> i < LENGTH('a)"
  by (auto simp: bit_simps)

lemma v4_mask_bit: "n \<le> 32 \<Longrightarrow> bit (v4_mask n) i \<longleftrightarrow> 32 - n \<le> i \<and> i < 32"
proof (cases "n = 0")
  case False
  moreover assume "n \<le> 32"
  ultimately have "(32 - int n) mod 32 = 32 - int n" by (intro mod_pos_pos_trivial) auto
  then have "nat ((32 - int n) mod 32) = 32 - n" by (simp only: nat_minus_as_int)
  with False show ?thesis
    by (simp add: v4_mask_def bit_high_mask del: push_bit_minus_one_eq_not_mask)
qed (simp add: v4_mask_def)

lemma v6_mask_bit: "n \<le> 128 \<Longrightarrow> bit (v6_mask n) i \<longleftrightarrow> 128 - n \<le> i \<and> i < 128"
proof (cases "n = 0")
  case False
  moreover assume "n \<le> 128"
  ultimately have "(128 - int n) mod 128 = 128 - int n" by (intro mod_pos_pos_trivial) auto
  then have "nat ((128 - int n) mod 128) = 128 - n" by (simp only: nat_minus_as_int)
  with False show ?thesis
    by (simp add: v6_mask_def bit_high_mask del: push_bit_minus_one_eq_not_mask)
qed (simp add: v6_mask_def)

text \<open>\<open>same_above k a b\<close>: the words agree from bit \<open>k\<close> on.\<close>

definition same_above :: "nat \<Rightarrow> 'a::len word \<Rightarrow> 'a word \<Rightarrow> bool" where
  "same_above k a b \<longleftrightarrow> (\<forall>i. k \<le> i \<and> i < LENGTH('a) \<longrightarrow> bit a i = bit b i)"

lemma and_mask_eq_iff:
  assumes "\<And>i. bit (m :: 'a::len word) i \<longleftrightarrow> k \<le> i \<and> i < LENGTH('a)"
  shows "and a m = and b m \<longleftrightarrow> same_above k a b"
proof -
  have "and a m = and b m \<longleftrightarrow> (\<forall>i. bit (and a m) i = bit (and b m) i)"
    by (auto intro: bit_eqI)
  then show ?thesis by (auto simp: bit_and_iff assms same_above_def)
qed

lemma ipp_contains_ip_V4:
  "ipp_addr p = V4 a \<Longrightarrow> ipp_len p \<le> 32 \<Longrightarrow>
     ipp_contains_ip p ip \<longleftrightarrow> (\<exists>b. ip = V4 b \<and> same_above (32 - ipp_len p) a b)"
  by (cases ip) (simp_all add: ipp_contains_ip_def and_mask_eq_iff v4_mask_bit)

lemma ipp_contains_ip_V6:
  "ipp_addr p = V6 a \<Longrightarrow> ipp_len p \<le> 128 \<Longrightarrow>
     ipp_contains_ip p ip \<longleftrightarrow> (\<exists>b. ip = V6 b \<and> same_above (128 - ipp_len p) a b)"
  by (cases ip) (simp_all add: ipp_contains_ip_def and_mask_eq_iff v6_mask_bit)

lemma same_above_refl [simp]: "same_above k a a"
  by (simp add: same_above_def)

lemma same_above_subset_iff:
  fixes a b :: "'a::len word"
  assumes "k \<le> LENGTH('a)" "l \<le> LENGTH('a)"
  shows "(\<forall>x. same_above l b x \<longrightarrow> same_above k a x) \<longleftrightarrow> l \<le> k \<and> same_above k a b"
    (is "?sub \<longleftrightarrow> _")
proof (intro iffI conjI)
  assume sub: ?sub
  then show ab: "same_above k a b" by simp
  show "l \<le> k"
  proof (rule ccontr)
    assume "\<not> l \<le> k"
    then have lk: "k < l" by simp
    have "same_above l b (flip_bit k b)"
      using lk by (auto simp: same_above_def bit_flip_bit_iff)
    with sub have "same_above k a (flip_bit k b)" by blast
    with ab lk assms(2) have "bit b k = bit (flip_bit k b) k" by (auto simp: same_above_def)
    then show False using lk assms(2) by (auto simp: bit_flip_bit_iff)
  qed
next
  assume "l \<le> k \<and> same_above k a b"
  then show ?sub by (auto simp: same_above_def)
qed

lemma ipp_contains_prefix_subset:
  assumes "ipp_wf p" "ipp_wf q"
  shows "ipp_contains_prefix p q \<longleftrightarrow> (\<forall>ip. ipp_contains_ip q ip \<longrightarrow> ipp_contains_ip p ip)"
proof (cases "ipp_addr p"; cases "ipp_addr q")
  fix a b assume ad: "ipp_addr p = V4 a" "ipp_addr q = V4 b"
  then have "ipp_len p \<le> 32" "ipp_len q \<le> 32" using assms by (auto simp: ipp_wf_def ipp_width_def)
  then show ?thesis
    using ad same_above_subset_iff [of "32 - ipp_len p" "32 - ipp_len q" b a]
    by (auto simp: ipp_contains_prefix_def ipp_family_def ipp_contains_ip_V4)
next
  fix a b assume ad: "ipp_addr p = V6 a" "ipp_addr q = V6 b"
  then have "ipp_len p \<le> 128" "ipp_len q \<le> 128" using assms by (auto simp: ipp_wf_def ipp_width_def)
  then show ?thesis
    using ad same_above_subset_iff [of "128 - ipp_len p" "128 - ipp_len q" b a]
    by (auto simp: ipp_contains_prefix_def ipp_family_def ipp_contains_ip_V6)
next
  fix a b assume ad: "ipp_addr p = V4 a" "ipp_addr q = V6 b"
  then have "\<not> ipp_contains_ip p (V6 b)" "ipp_contains_ip q (V6 b)"
    by (simp_all add: ipp_contains_ip_def)
  then show ?thesis using ad by (auto simp: ipp_contains_prefix_def ipp_family_def)
next
  fix a b assume ad: "ipp_addr p = V6 a" "ipp_addr q = V4 b"
  then have "\<not> ipp_contains_ip p (V4 b)" "ipp_contains_ip q (V4 b)"
    by (simp_all add: ipp_contains_ip_def)
  then show ?thesis using ad by (auto simp: ipp_contains_prefix_def ipp_family_def)
qed

text \<open>
  \<open>contains_prefix\<close> decides inclusion of the address sets: for prefixes made by \<open>new\<close>, of
  either family and of any length, \<open>p\<close> contains \<open>q\<close> exactly when every address that \<open>q\<close>
  matches is matched by \<open>p\<close>; and a prefix matches the address it was made from.
\<close>

theorem contains_prefix_is_inclusion:
  assumes "ipp_new a n = Some p" "ipp_new b m = Some q"
  shows "(ipp_contains_prefix p q \<longleftrightarrow> (\<forall>ip. ipp_contains_ip q ip \<longrightarrow> ipp_contains_ip p ip))
    \<and> ipp_contains_ip p a"
proof
  show "ipp_contains_prefix p q \<longleftrightarrow> (\<forall>ip. ipp_contains_ip q ip \<longrightarrow> ipp_contains_ip p ip)"
    using assms by (intro ipp_contains_prefix_subset ipp_new_wf)
  show "ipp_contains_ip p a"
    using assms(1)
    by (auto simp: ipp_new_def ipp_contains_ip_def mask_v4_def mask_v6_def and.assoc
        split: ip_addr.splits if_splits)
qed

theorem contains_prefix_is_inclusion_witness:
  "\<exists>p q. ipp_new (V4 0x0A000000) 8 = Some p \<and> ipp_new (V4 0x0A010203) 24 = Some q
     \<and> ipp_contains_prefix p q \<and> \<not> ipp_contains_prefix q p
     \<and> (\<forall>ip. ipp_contains_ip q ip \<longrightarrow> ipp_contains_ip p ip)"
proof -
  obtain p where p: "ipp_new (V4 0x0A000000) 8 = Some p" by (simp add: ipp_new_def)
  obtain q where q: "ipp_new (V4 0x0A010203) 24 = Some q" by (simp add: ipp_new_def)
  have "ipp_contains_prefix p q" "\<not> ipp_contains_prefix q p"
    using p q by (auto simp: ipp_new_def ipp_contains_prefix_def ipp_family_def
        ipp_contains_ip_def mask_v4_def v4_mask_def mask_eq_exp_minus_1 Let_def)
  with p q contains_prefix_is_inclusion [OF p q] show ?thesis by blast
qed

end
