(* ===== verification/SbcProto.thy ===== *)
theory SbcProto
  imports IpPrefix
begin

text \<open>
  The messages of the ban and legal-hold service (\<open>crates/sbc_core/src/lib.rs\<close>): what the
  consensus daemon stores, what its administrators ask, and the events its followers read.
  Their JSON text is serde's and is not modelled.
\<close>

record ban_entry =
  be_ban_id :: string
  be_key :: ip_prefix
  be_created_at_unix :: nat
  be_created_by :: string
  be_reason :: string
  be_expires_at_unix :: nat

record legal_hold_entry =
  lh_name_lc :: string
  lh_created_at_unix :: nat
  lh_created_by :: string
  lh_reason :: string

record enforcement_status =
  es_node_id :: string
  es_dns_name :: string
  es_dns_enabled :: bool
  es_dns_last_error :: "string option"
  es_backend :: string
  es_backend_attached :: bool
  es_enforcement_mode :: string
  es_reported_at_unix :: nat

record ban_apply_result =
  ba_node_id :: string
  ba_ban_id :: string
  ba_op :: string
  ba_result :: string
  ba_error :: "string option"
  ba_reported_at_unix :: nat

datatype subscribe_mode = SubTail | SubSnapshot

datatype admin_req =
    UpsertBan string nat string string
  | DeleteBan string
  | UpsertLegalHold string string string
  | DeleteLegalHold string
  | ReportEnforcementStatus enforcement_status
  | ReportBanApplyResult ban_apply_result
  | GetState

datatype admin_resp =
    RespOk nat
  | RespOkBan nat ban_entry
  | RespOkLegalHold nat legal_hold_entry
  | RespOkState nat "ban_entry list" "legal_hold_entry list"
  | RespError string

datatype sbc_event =
    EvSnapshot "ban_entry list" "legal_hold_entry list"
  | EvBanUpserted ban_entry
  | EvBanDeleted string
  | EvLegalHoldUpserted legal_hold_entry
  | EvLegalHoldDeleted string
  | EvEnforcementStatus enforcement_status
  | EvBanApplyResult ban_apply_result

record event_envelope =
  ev_index :: nat
  ev_event :: sbc_event

text \<open>The test that the reaper and the enforcer apply to a ban: zero means that it never expires.\<close>

definition ban_expired :: "nat \<Rightarrow> ban_entry \<Rightarrow> bool" where
  "ban_expired now b \<longleftrightarrow> be_expires_at_unix b \<noteq> 0 \<and> be_expires_at_unix b \<le> now"

end
