(* ===== verification/Raftd.thy ===== *)
theory Raftd
  imports SbcProto
begin

text \<open>
  \<open>apps/sbc_raftd/src/main.rs\<close>: the state of the daemon, the administrative requests, the
  reaper of expired bans, and the event stream a subscriber gets. The clock and the random
  bytes are arguments. A request is parsed from JSON by the argument \<open>parse_json\<close>, whose
  left values are serde's error texts.
\<close>

record raft_state =
  rs_next_index :: nat
  rs_bans :: "string \<rightharpoonup> ban_entry"
  rs_ban_by_key :: "string \<rightharpoonup> string"
  rs_holds :: "string \<rightharpoonup> legal_hold_entry"
  rs_last_status_by_node :: "string \<rightharpoonup> enforcement_status"
  rs_last_apply_by_node_ban :: "string \<rightharpoonup> ban_apply_result"

definition raft_empty :: raft_state where
  "raft_empty =
     \<lparr>rs_next_index = 1, rs_bans = Map.empty, rs_ban_by_key = Map.empty, rs_holds = Map.empty,
      rs_last_status_by_node = Map.empty, rs_last_apply_by_node_ban = Map.empty\<rparr>"

definition rand_hex_16 :: "u8 list \<Rightarrow> string" where
  "rand_hex_16 b =
     concat (map (\<lambda>x. [''0123456789abcdef'' ! unat (drop_bit 4 x),
                       ''0123456789abcdef'' ! unat (and x 0x0F)]) b)"

definition bump_index :: "raft_state \<Rightarrow> raft_state" where
  "bump_index s = s\<lparr>rs_next_index := sat_add64 (rs_next_index s) 1\<rparr>"

section \<open>Administrative requests\<close>

text \<open>
  One arm of the handler each. The outer option is the \<open>?\<close> on a bad CIDR, which drops the
  connection before anything has changed.
\<close>

definition upsert_ban ::
  "(ip_addr \<Rightarrow> string) \<Rightarrow> (string \<Rightarrow> ip_addr option) \<Rightarrow> nat \<Rightarrow> u8 list \<Rightarrow>
   string \<Rightarrow> nat \<Rightarrow> string \<Rightarrow> string \<Rightarrow> raft_state \<Rightarrow>
   (raft_state \<times> admin_resp \<times> event_envelope option) option" where
  "upsert_ban show_ip parse_ip now rnd key ttl_s created_by reason s =
     (case parse_cidr parse_ip key of
        None \<Rightarrow> None
      | Some key_pfx \<Rightarrow>
          (let key_cidr = to_cidr_string show_ip key_pfx;
               expires = (if ttl_s = 0 then 0 else sat_add64 now ttl_s);
               (ban_id, s) =
                 (case rs_ban_by_key s key_cidr of
                    Some existing \<Rightarrow> (existing, s)
                  | None \<Rightarrow>
                      (let i = rand_hex_16 rnd in
                       (i, s\<lparr>rs_ban_by_key := (rs_ban_by_key s)(key_cidr \<mapsto> i)\<rparr>)));
               entry = \<lparr>be_ban_id = ban_id, be_key = key_pfx, be_created_at_unix = now,
                        be_created_by = created_by, be_reason = reason,
                        be_expires_at_unix = expires\<rparr>;
               s = s\<lparr>rs_bans := (rs_bans s)(ban_id \<mapsto> entry)\<rparr>;
               idx = rs_next_index s;
               s = bump_index s
           in Some (s, RespOkBan idx entry,
                Some \<lparr>ev_index = idx, ev_event = EvBanUpserted entry\<rparr>)))"

text \<open>\<open>remove_ban\<close> is the body shared by the delete request and the reaper.\<close>

definition remove_ban ::
  "(ip_addr \<Rightarrow> string) \<Rightarrow> string \<Rightarrow> raft_state \<Rightarrow> raft_state \<times> event_envelope" where
  "remove_ban show_ip ban_id s =
     (let s = (case rs_bans s ban_id of
                 None \<Rightarrow> s
               | Some entry \<Rightarrow>
                   s\<lparr>rs_bans := (rs_bans s)(ban_id := None),
                     rs_ban_by_key :=
                       (rs_ban_by_key s)(to_cidr_string show_ip (be_key entry) := None)\<rparr>);
          idx = rs_next_index s;
          s = bump_index s
      in (s, \<lparr>ev_index = idx, ev_event = EvBanDeleted ban_id\<rparr>))"

definition delete_ban ::
  "(ip_addr \<Rightarrow> string) \<Rightarrow> string \<Rightarrow> raft_state \<Rightarrow>
   raft_state \<times> admin_resp \<times> event_envelope option" where
  "delete_ban show_ip ban_id s =
     (let (s, ev) = remove_ban show_ip ban_id s in (s, RespOk (ev_index ev), Some ev))"

definition upsert_legal_hold ::
  "nat \<Rightarrow> string \<Rightarrow> string \<Rightarrow> string \<Rightarrow> raft_state \<Rightarrow>
   raft_state \<times> admin_resp \<times> event_envelope option" where
  "upsert_legal_hold now name created_by reason s =
     (let name_lc = norm_key name in
      if name_lc = [] then (s, RespError ''missing name'', None)
      else
        let entry = \<lparr>lh_name_lc = name_lc, lh_created_at_unix = now, lh_created_by = created_by,
                     lh_reason = reason\<rparr>;
            s = s\<lparr>rs_holds := (rs_holds s)(name_lc \<mapsto> entry)\<rparr>;
            idx = rs_next_index s;
            s = bump_index s
        in (s, RespOkLegalHold idx entry,
            Some \<lparr>ev_index = idx, ev_event = EvLegalHoldUpserted entry\<rparr>))"

definition delete_legal_hold ::
  "string \<Rightarrow> raft_state \<Rightarrow> raft_state \<times> admin_resp \<times> event_envelope option" where
  "delete_legal_hold name s =
     (let name_lc = norm_key name in
      if name_lc = [] then (s, RespError ''missing name'', None)
      else
        let s = s\<lparr>rs_holds := (rs_holds s)(name_lc := None)\<rparr>;
            idx = rs_next_index s;
            s = bump_index s
        in (s, RespOk idx, Some \<lparr>ev_index = idx, ev_event = EvLegalHoldDeleted name_lc\<rparr>))"

definition report_enforcement_status ::
  "enforcement_status \<Rightarrow> raft_state \<Rightarrow> raft_state \<times> admin_resp \<times> event_envelope option" where
  "report_enforcement_status status s =
     (let s = s\<lparr>rs_last_status_by_node :=
                  (rs_last_status_by_node s)(es_node_id status \<mapsto> status)\<rparr>;
          idx = rs_next_index s;
          s = bump_index s
      in (s, RespOk idx, Some \<lparr>ev_index = idx, ev_event = EvEnforcementStatus status\<rparr>))"

definition report_ban_apply_result ::
  "ban_apply_result \<Rightarrow> raft_state \<Rightarrow> raft_state \<times> admin_resp \<times> event_envelope option" where
  "report_ban_apply_result report s =
     (let k = ba_node_id report @ '':'' @ ba_ban_id report @ '':'' @ ba_op report;
          s = s\<lparr>rs_last_apply_by_node_ban := (rs_last_apply_by_node_ban s)(k \<mapsto> report)\<rparr>;
          idx = rs_next_index s;
          s = bump_index s
      in (s, RespOk idx, Some \<lparr>ev_index = idx, ev_event = EvBanApplyResult report\<rparr>))"

definition get_state ::
  "((string \<Rightarrow> bool) \<Rightarrow> string list) \<Rightarrow> raft_state \<Rightarrow> raft_state \<times> admin_resp \<times> event_envelope option"
  where
  "get_state iter s =
     (s, RespOkState (rs_next_index s - 1) (map_values iter (rs_bans s)) (map_values iter (rs_holds s)),
      None)"

definition admin_step ::
  "(ip_addr \<Rightarrow> string) \<Rightarrow> (string \<Rightarrow> ip_addr option) \<Rightarrow> ((string \<Rightarrow> bool) \<Rightarrow> string list) \<Rightarrow> nat \<Rightarrow> u8 list \<Rightarrow>
   raft_state \<Rightarrow> admin_req \<Rightarrow> (raft_state \<times> admin_resp \<times> event_envelope option) option" where
  "admin_step show_ip parse_ip iter now rnd s req =
     (case req of
        UpsertBan key ttl_s created_by reason \<Rightarrow>
          upsert_ban show_ip parse_ip now rnd key ttl_s created_by reason s
      | DeleteBan ban_id \<Rightarrow> Some (delete_ban show_ip ban_id s)
      | UpsertLegalHold name created_by reason \<Rightarrow>
          Some (upsert_legal_hold now name created_by reason s)
      | DeleteLegalHold name \<Rightarrow> Some (delete_legal_hold name s)
      | ReportEnforcementStatus status \<Rightarrow> Some (report_enforcement_status status s)
      | ReportBanApplyResult report \<Rightarrow> Some (report_ban_apply_result report s)
      | GetState \<Rightarrow> Some (get_state iter s))"

text \<open>A whole connection: at most one response is written and at most one event is sent.\<close>

definition handle_admin_conn ::
  "(ip_addr \<Rightarrow> string) \<Rightarrow> (string \<Rightarrow> ip_addr option) \<Rightarrow> (string \<Rightarrow> string + admin_req) \<Rightarrow>
   ((string \<Rightarrow> bool) \<Rightarrow> string list) \<Rightarrow> nat \<Rightarrow> u8 list \<Rightarrow> raft_state \<Rightarrow> string \<Rightarrow>
   raft_state \<times> admin_resp option \<times> event_envelope list" where
  "handle_admin_conn show_ip parse_ip parse_json iter now rnd s line =
     (let line = trim line in
      if line = [] then (s, None, [])
      else
        (case parse_json line of
           Inl e \<Rightarrow> (s, Some (RespError (''bad json: '' @ e)), [])
         | Inr req \<Rightarrow>
             (case admin_step show_ip parse_ip iter now rnd s req of
                None \<Rightarrow> (s, None, [])
              | Some (s', resp, ev) \<Rightarrow>
                  (s', Some resp, (case ev of None \<Rightarrow> [] | Some e \<Rightarrow> [e])))))"

section \<open>The reaper\<close>

fun reap_ids ::
  "(ip_addr \<Rightarrow> string) \<Rightarrow> string list \<Rightarrow> raft_state \<Rightarrow> raft_state \<times> event_envelope list" where
  "reap_ids show_ip [] s = (s, [])"
| "reap_ids show_ip (ban_id # ids) s =
     (let (s1, ev) = remove_ban show_ip ban_id s; (s2, evs) = reap_ids show_ip ids s1
      in (s2, ev # evs))"

definition expired_ids :: "((string \<Rightarrow> bool) \<Rightarrow> string list) \<Rightarrow> nat \<Rightarrow> raft_state \<Rightarrow> string list" where
  "expired_ids iter now s =
     filter (\<lambda>ban_id. ban_expired now (the (rs_bans s ban_id))) (map_keys iter (rs_bans s))"

definition reap ::
  "(ip_addr \<Rightarrow> string) \<Rightarrow> ((string \<Rightarrow> bool) \<Rightarrow> string list) \<Rightarrow> nat \<Rightarrow> raft_state \<Rightarrow>
   raft_state \<times> event_envelope list" where
  "reap show_ip iter now s = reap_ids show_ip (expired_ids iter now s) s"

section \<open>The daemon as a source of events\<close>

datatype raft_op =
    RaftAdmin nat "u8 list" admin_req
  | RaftReap nat

definition raft_step ::
  "(ip_addr \<Rightarrow> string) \<Rightarrow> (string \<Rightarrow> ip_addr option) \<Rightarrow> ((string \<Rightarrow> bool) \<Rightarrow> string list) \<Rightarrow>
   raft_state \<Rightarrow> raft_op \<Rightarrow> raft_state \<times> event_envelope list" where
  "raft_step show_ip parse_ip iter s opn =
     (case opn of
        RaftAdmin now rnd req \<Rightarrow>
          (case admin_step show_ip parse_ip iter now rnd s req of
             None \<Rightarrow> (s, [])
           | Some (s', _, ev) \<Rightarrow> (s', (case ev of None \<Rightarrow> [] | Some e \<Rightarrow> [e])))
      | RaftReap now \<Rightarrow> reap show_ip iter now s)"

definition raft_snapshot :: "((string \<Rightarrow> bool) \<Rightarrow> string list) \<Rightarrow> raft_state \<Rightarrow> event_envelope" where
  "raft_snapshot iter s =
     \<lparr>ev_index = rs_next_index s - 1,
      ev_event = EvSnapshot (map_values iter (rs_bans s)) (map_values iter (rs_holds s))\<rparr>"

text \<open>
  What one subscriber is sent: in snapshot mode the snapshot of the state when its request is
  handled, and then, in both modes, the events sent after its \<open>subscribe\<close> call. The operations
  \<open>gap\<close> are those that run between the two.
\<close>

definition subscriber_stream ::
  "(ip_addr \<Rightarrow> string) \<Rightarrow> (string \<Rightarrow> ip_addr option) \<Rightarrow> ((string \<Rightarrow> bool) \<Rightarrow> string list) \<Rightarrow>
   subscribe_mode \<Rightarrow> raft_state \<Rightarrow> raft_op list \<Rightarrow> raft_op list \<Rightarrow> event_envelope list" where
  "subscriber_stream show_ip parse_ip iter mode s gap ops =
     (let step = raft_step show_ip parse_ip iter;
          (s', _) = run_src step s gap;
          (_, evs) = run_src step s' ops
      in (case mode of SubSnapshot \<Rightarrow> raft_snapshot iter s # evs | SubTail \<Rightarrow> evs))"

section \<open>The invariant of the daemon\<close>

text \<open>
  The two ban maps are inverse to each other through the text of the prefix, every hold is
  stored under its canonical name, and the maps are finite.
\<close>

definition ban_maps_ok ::
  "(ip_addr \<Rightarrow> string) \<Rightarrow> (string \<rightharpoonup> ban_entry) \<Rightarrow> (string \<rightharpoonup> string) \<Rightarrow> bool" where
  "ban_maps_ok show_ip m bk \<longleftrightarrow>
     (\<forall>i e. m i = Some e \<longrightarrow>
        be_ban_id e = i \<and> bk (to_cidr_string show_ip (be_key e)) = Some i \<and> ipp_wf (be_key e)) \<and>
     (\<forall>k i. bk k = Some i \<longrightarrow> (\<exists>e. m i = Some e \<and> to_cidr_string show_ip (be_key e) = k)) \<and>
     finite (dom m)"

definition bans_ok :: "(ip_addr \<Rightarrow> string) \<Rightarrow> raft_state \<Rightarrow> bool" where
  "bans_ok show_ip s = ban_maps_ok show_ip (rs_bans s) (rs_ban_by_key s)"

lemma ban_mapsD:
  assumes "ban_maps_ok show_ip m bk"
  shows "m i = Some e \<Longrightarrow> be_ban_id e = i"
    and "m i = Some e \<Longrightarrow> bk (to_cidr_string show_ip (be_key e)) = Some i"
    and "m i = Some e \<Longrightarrow> ipp_wf (be_key e)"
    and "bk k = Some i \<Longrightarrow> \<exists>e. m i = Some e \<and> to_cidr_string show_ip (be_key e) = k"
    and "finite (dom m)"
  using assms by (auto simp: ban_maps_ok_def)

lemma ban_maps_okI:
  assumes "\<And>i e. m i = Some e \<Longrightarrow>
      be_ban_id e = i \<and> bk (to_cidr_string show_ip (be_key e)) = Some i \<and> ipp_wf (be_key e)"
    and "\<And>k i. bk k = Some i \<Longrightarrow> \<exists>e. m i = Some e \<and> to_cidr_string show_ip (be_key e) = k"
    and "finite (dom m)"
  shows "ban_maps_ok show_ip m bk"
  using assms by (auto simp: ban_maps_ok_def)

lemma ban_maps_insert:
  assumes ok: "ban_maps_ok show_ip m bk"
    and k: "bk k = None" and i: "m i = None"
    and e: "be_ban_id e = i" "to_cidr_string show_ip (be_key e) = k" "ipp_wf (be_key e)"
  shows "ban_maps_ok show_ip (m(i \<mapsto> e)) (bk(k \<mapsto> i))"
proof (rule ban_maps_okI)
  fix j f assume "(m(i \<mapsto> e)) j = Some f"
  then have "j = i \<and> f = e \<or> j \<noteq> i \<and> m j = Some f" by (auto split: if_splits)
  then show "be_ban_id f = j \<and> (bk(k \<mapsto> i)) (to_cidr_string show_ip (be_key f)) = Some j
      \<and> ipp_wf (be_key f)"
  proof
    assume "j \<noteq> i \<and> m j = Some f"
    then have "m j = Some f" by simp
    from ban_mapsD(1-3) [OF ok this] k show ?thesis by auto
  qed (simp add: e)
next
  fix l j assume "(bk(k \<mapsto> i)) l = Some j"
  then have "l = k \<and> j = i \<or> l \<noteq> k \<and> bk l = Some j" by (auto split: if_splits)
  then show "\<exists>f. (m(i \<mapsto> e)) j = Some f \<and> to_cidr_string show_ip (be_key f) = l"
  proof
    assume "l \<noteq> k \<and> bk l = Some j"
    then have "bk l = Some j" by simp
    from ban_mapsD(4) [OF ok this] i show ?thesis by auto
  qed (simp add: e)
next
  show "finite (dom (m(i \<mapsto> e)))" using ban_mapsD(5) [OF ok] by simp
qed

lemma ban_maps_replace:
  assumes ok: "ban_maps_ok show_ip m bk"
    and k: "bk k = Some i"
    and e: "be_ban_id e = i" "to_cidr_string show_ip (be_key e) = k" "ipp_wf (be_key e)"
  shows "ban_maps_ok show_ip (m(i \<mapsto> e)) bk"
proof (rule ban_maps_okI)
  fix j f assume "(m(i \<mapsto> e)) j = Some f"
  then have "j = i \<and> f = e \<or> j \<noteq> i \<and> m j = Some f" by (auto split: if_splits)
  then show "be_ban_id f = j \<and> bk (to_cidr_string show_ip (be_key f)) = Some j
      \<and> ipp_wf (be_key f)"
  proof
    assume "j \<noteq> i \<and> m j = Some f"
    then have "m j = Some f" by simp
    from ban_mapsD(1-3) [OF ok this] show ?thesis by blast
  qed (simp add: e k)
next
  fix l j assume l: "bk l = Some j"
  obtain f where "m j = Some f" "to_cidr_string show_ip (be_key f) = l"
    using ban_mapsD(4) [OF ok l] by blast
  moreover obtain g where "m i = Some g" "to_cidr_string show_ip (be_key g) = k"
    using ban_mapsD(4) [OF ok k] by blast
  ultimately show "\<exists>f. (m(i \<mapsto> e)) j = Some f \<and> to_cidr_string show_ip (be_key f) = l"
    using e(2) by (cases "j = i") auto
next
  show "finite (dom (m(i \<mapsto> e)))" using ban_mapsD(5) [OF ok] by simp
qed

lemma ban_maps_remove:
  assumes ok: "ban_maps_ok show_ip m bk" and e: "m i = Some e"
  shows "ban_maps_ok show_ip (m(i := None)) (bk(to_cidr_string show_ip (be_key e) := None))"
proof (rule ban_maps_okI)
  fix j f assume "(m(i := None)) j = Some f"
  then have j: "j \<noteq> i" "m j = Some f" by (auto split: if_splits)
  from ban_mapsD(1-3) [OF ok j(2)] ban_mapsD(2) [OF ok e] j(1)
  show "be_ban_id f = j \<and> (bk(to_cidr_string show_ip (be_key e) := None))
      (to_cidr_string show_ip (be_key f)) = Some j \<and> ipp_wf (be_key f)"
    by auto
next
  fix l j assume "(bk(to_cidr_string show_ip (be_key e) := None)) l = Some j"
  then have l: "l \<noteq> to_cidr_string show_ip (be_key e)" "bk l = Some j" by (auto split: if_splits)
  from ban_mapsD(4) [OF ok l(2)] l(1) e
  show "\<exists>f. (m(i := None)) j = Some f \<and> to_cidr_string show_ip (be_key f) = l"
    by auto
next
  show "finite (dom (m(i := None)))" using ban_mapsD(5) [OF ok] by simp
qed

definition hold_map_ok :: "(string \<rightharpoonup> legal_hold_entry) \<Rightarrow> bool" where
  "hold_map_ok m \<longleftrightarrow>
     (\<forall>k e. m k = Some e \<longrightarrow> lh_name_lc e = k \<and> k \<noteq> [] \<and> norm_key k = k) \<and> finite (dom m)"

definition holds_ok :: "raft_state \<Rightarrow> bool" where
  "holds_ok s = hold_map_ok (rs_holds s)"

lemma hold_map_insert:
  "hold_map_ok m \<Longrightarrow> lh_name_lc e = k \<Longrightarrow> k \<noteq> [] \<Longrightarrow> norm_key k = k \<Longrightarrow> hold_map_ok (m(k \<mapsto> e))"
  by (auto simp: hold_map_ok_def)

lemma hold_map_remove: "hold_map_ok m \<Longrightarrow> hold_map_ok (m(k := None))"
  by (auto simp: hold_map_ok_def)

definition raft_inv :: "(ip_addr \<Rightarrow> string) \<Rightarrow> raft_state \<Rightarrow> bool" where
  "raft_inv show_ip s \<longleftrightarrow>
     bans_ok show_ip s \<and> holds_ok s \<and> 1 \<le> rs_next_index s \<and> rs_next_index s \<le> u64_max"

text \<open>The random identifier of a new ban is not one in use.\<close>

definition raft_op_ok :: "raft_state \<Rightarrow> raft_op \<Rightarrow> bool" where
  "raft_op_ok s opn =
     (case opn of
        RaftAdmin now rnd (UpsertBan key ttl_s created_by reason) \<Rightarrow> rs_bans s (rand_hex_16 rnd) = None
      | _ \<Rightarrow> True)"

lemma bump_index_simps [simp]:
  "rs_bans (bump_index s) = rs_bans s" "rs_ban_by_key (bump_index s) = rs_ban_by_key s"
  "rs_holds (bump_index s) = rs_holds s"
  "rs_next_index (bump_index s) = sat_add64 (rs_next_index s) 1"
  by (simp_all add: bump_index_def)

lemma bump_index_ok [simp]:
  "bans_ok show_ip (bump_index s) = bans_ok show_ip s" "holds_ok (bump_index s) = holds_ok s"
  by (simp_all add: bans_ok_def holds_ok_def)

lemma index_step: "Suc 0 \<le> sat_add64 n (Suc 0) \<and> sat_add64 n (Suc 0) \<le> u64_max"
  by (simp add: num_defs)

lemma upsert_ban_inv:
  assumes "raft_inv show_ip s" "rs_bans s (rand_hex_16 rnd) = None"
    and "upsert_ban show_ip parse_ip now rnd key ttl creator reason s = Some (s', r)"
  shows "raft_inv show_ip s'"
proof -
  obtain p where p: "parse_cidr parse_ip key = Some p"
    using assms(3) by (auto simp: upsert_ban_def split: option.splits)
  let ?k = "to_cidr_string show_ip p"
  define e where "e i = \<lparr>be_ban_id = i, be_key = p, be_created_at_unix = now, be_created_by = creator,
    be_reason = reason, be_expires_at_unix = (if ttl = 0 then 0 else sat_add64 now ttl)\<rparr>" for i
  from parse_cidr_wf [OF p] have wf: "ipp_wf p" .
  from assms(1) have b: "bans_ok show_ip s" "holds_ok s"
    and n: "1 \<le> rs_next_index s" "rs_next_index s \<le> u64_max" by (auto simp: raft_inv_def)
  show ?thesis
  proof (cases "rs_ban_by_key s ?k")
    case None
    let ?i = "rand_hex_16 rnd"
    have s': "s' = bump_index (s\<lparr>rs_ban_by_key := (rs_ban_by_key s)(?k \<mapsto> ?i),
        rs_bans := (rs_bans s)(?i \<mapsto> e ?i)\<rparr>)"
      using assms(3) p None by (simp add: upsert_ban_def Let_def e_def)
    have "bans_ok show_ip s'"
      using b(1) None wf assms(2) unfolding s' by (simp add: bans_ok_def e_def ban_maps_insert)
    moreover have "holds_ok s'" using b(2) unfolding s' by (simp add: holds_ok_def)
    ultimately show ?thesis using n unfolding s' by (auto simp: raft_inv_def num_defs)
  next
    case (Some i)
    have s': "s' = bump_index (s\<lparr>rs_bans := (rs_bans s)(i \<mapsto> e i)\<rparr>)"
      using assms(3) p Some by (simp add: upsert_ban_def Let_def e_def)
    have "bans_ok show_ip s'"
      using b(1) Some wf unfolding s' by (simp add: bans_ok_def e_def ban_maps_replace)
    moreover have "holds_ok s'" using b(2) unfolding s' by (simp add: holds_ok_def)
    ultimately show ?thesis using n unfolding s' by (auto simp: raft_inv_def num_defs)
  qed
qed

lemma remove_ban_bans [simp]: "rs_bans (fst (remove_ban show_ip i s)) = (rs_bans s)(i := None)"
  by (auto simp: remove_ban_def split: option.splits)

lemma remove_ban_holds [simp]: "rs_holds (fst (remove_ban show_ip i s)) = rs_holds s"
  by (auto simp: remove_ban_def split: option.splits)

lemma remove_ban_ev:
  "snd (remove_ban show_ip i s) = \<lparr>ev_index = rs_next_index s, ev_event = EvBanDeleted i\<rparr>"
  by (auto simp: remove_ban_def split: option.splits)

lemma remove_ban_next [simp]:
  "rs_next_index (fst (remove_ban show_ip i s)) = sat_add64 (rs_next_index s) 1"
  by (auto simp: remove_ban_def split: option.splits)

lemma remove_ban_inv: "raft_inv show_ip s \<Longrightarrow> raft_inv show_ip (fst (remove_ban show_ip i s))"
proof -
  assume inv: "raft_inv show_ip s"
  then have b: "bans_ok show_ip s" by (simp add: raft_inv_def)
  have "bans_ok show_ip (fst (remove_ban show_ip i s))"
  proof (cases "rs_bans s i")
    case None
    then have "(rs_bans s)(i := None) = rs_bans s" by auto
    with None b show ?thesis by (simp add: remove_ban_def bans_ok_def)
  next
    case (Some e)
    with b show ?thesis by (simp add: remove_ban_def bans_ok_def ban_maps_remove)
  qed
  then show ?thesis using inv by (auto simp: raft_inv_def holds_ok_def num_defs)
qed

lemma reap_ids_inv: "raft_inv show_ip s \<Longrightarrow> raft_inv show_ip (fst (reap_ids show_ip ids s))"
proof (induction ids arbitrary: s)
  case (Cons i ids)
  then show ?case
    using Cons.IH [OF remove_ban_inv [OF Cons.prems]]
    by (auto simp: case_prod_beta Let_def)
qed simp

lemma admin_step_inv:
  assumes "raft_inv show_ip s" "raft_op_ok s (RaftAdmin now rnd req)"
    and "admin_step show_ip parse_ip iter now rnd s req = Some (s', r)"
  shows "raft_inv show_ip s'"
proof (cases req)
  case (UpsertBan key ttl creator reason)
  with assms show ?thesis
    by (auto simp: admin_step_def raft_op_ok_def intro: upsert_ban_inv)
next
  case (DeleteBan i)
  with assms show ?thesis
    using remove_ban_inv [OF assms(1), of i]
    by (auto simp: admin_step_def delete_ban_def case_prod_beta Let_def)
qed (use assms in \<open>auto simp: admin_step_def upsert_legal_hold_def delete_legal_hold_def
  report_enforcement_status_def report_ban_apply_result_def get_state_def Let_def raft_inv_def
  bans_ok_def holds_ok_def index_step hold_map_insert hold_map_remove split: if_splits\<close>)

lemma raft_step_inv:
  "raft_inv show_ip s \<Longrightarrow> raft_op_ok s opn \<Longrightarrow>
     raft_inv show_ip (fst (raft_step show_ip parse_ip iter s opn))"
  by (cases opn)
    (auto simp: raft_step_def reap_def intro: reap_ids_inv admin_step_inv split: option.splits)

interpretation raftd: inv_machine "\<lambda>s opn. fst (raft_step show_ip parse_ip iter s opn)"
  raft_op_ok "raft_inv show_ip" for show_ip parse_ip iter
  by unfold_locales (rule raft_step_inv)

lemma raft_empty_inv [simp]: "raft_inv show_ip raft_empty"
  by (simp add: raft_inv_def bans_ok_def ban_maps_ok_def holds_ok_def hold_map_ok_def raft_empty_def num_defs)

section \<open>One ban per prefix, and the reaper\<close>

text \<open>
  C28. Along every run of the daemon from its empty state, administrators' requests and
  reaper turns in any order, the two ban maps stay inverse to each other: each ban is stored
  under its own identifier and is the one its prefix leads to, so that no prefix has two
  bans, and no entry of the prefix map outlives its ban. Every hold is stored under its
  trimmed lower-case name. The only assumption is that a fresh random identifier is not one
  already in use.
\<close>

theorem raft_one_ban_per_prefix:
  assumes "steps_ok (\<lambda>s opn. fst (raft_step show_ip parse_ip iter s opn)) raft_op_ok raft_empty ops"
    and "s = foldl (\<lambda>s opn. fst (raft_step show_ip parse_ip iter s opn)) raft_empty ops"
  shows "(\<forall>k i. rs_ban_by_key s k = Some i \<longleftrightarrow>
            (\<exists>e. rs_bans s i = Some e \<and> to_cidr_string show_ip (be_key e) = k))
    \<and> (\<forall>i e. rs_bans s i = Some e \<longrightarrow> be_ban_id e = i \<and> ipp_wf (be_key e))
    \<and> (\<forall>k e. rs_holds s k = Some e \<longrightarrow> lh_name_lc e = k \<and> k \<noteq> [] \<and> norm_key k = k)"
proof -
  have inv: "raft_inv show_ip s"
    unfolding assms(2) by (rule raftd.run_inv [OF raft_empty_inv assms(1)])
  then have b: "ban_maps_ok show_ip (rs_bans s) (rs_ban_by_key s)"
    by (simp add: raft_inv_def bans_ok_def)
  have "rs_ban_by_key s k = Some i \<longleftrightarrow>
      (\<exists>e. rs_bans s i = Some e \<and> to_cidr_string show_ip (be_key e) = k)" for k i
    using ban_mapsD(2,4) [OF b] by metis
  moreover have "\<forall>i e. rs_bans s i = Some e \<longrightarrow> be_ban_id e = i \<and> ipp_wf (be_key e)"
    using ban_mapsD(1,3) [OF b] by blast
  moreover have "\<forall>k e. rs_holds s k = Some e \<longrightarrow> lh_name_lc e = k \<and> k \<noteq> [] \<and> norm_key k = k"
    using inv by (simp add: raft_inv_def holds_ok_def hold_map_ok_def)
  ultimately show ?thesis by blast
qed

definition demo_ops :: "raft_op list" where
  "demo_ops =
     [RaftAdmin 10 [1] (UpsertBan ''10.0.0.0/8'' 60 ''a'' ''r''),
      RaftAdmin 20 [2] (UpsertBan ''10.0.0.0/16'' 0 ''a'' ''r''),
      RaftAdmin 30 [3] (UpsertBan ''10.0.0.0/8'' 90 ''a'' ''r''),
      RaftAdmin 50 [] (DeleteBan ''01'')]"

definition demo_show_ip :: "ip_addr \<Rightarrow> string" where
  "demo_show_ip a = (case a of V4 w \<Rightarrow> if w = 0x0A000000 then ''10.0.0.0'' else ''0.0.0.0'' | V6 w \<Rightarrow> ''::'')"

definition demo_parse_ip :: "string \<Rightarrow> ip_addr option" where
  "demo_parse_ip s = (if s = ''10.0.0.0'' then Some (V4 0x0A000000) else None)"

lemma demo_parse:
  "parse_cidr demo_parse_ip ''10.0.0.0/8'' = Some \<lparr>ipp_addr = V4 0x0A000000, ipp_len = 8\<rparr>"
  "parse_cidr demo_parse_ip ''10.0.0.0/16'' = Some \<lparr>ipp_addr = V4 0x0A000000, ipp_len = 16\<rparr>"
  "rand_hex_16 [1] = ''01''" "rand_hex_16 [2] = ''02''" "rand_hex_16 [3] = ''03''"
  "to_cidr_string demo_show_ip \<lparr>ipp_addr = V4 0x0A000000, ipp_len = 8\<rparr> = ''10.0.0.0/8''"
  "to_cidr_string demo_show_ip \<lparr>ipp_addr = V4 0x0A000000, ipp_len = 16\<rparr> = ''10.0.0.0/16''"
  by code_simp+

theorem raft_one_ban_per_prefix_witness:
  "let s = foldl (\<lambda>s opn. fst (raft_step demo_show_ip demo_parse_ip (\<lambda>_. []) s opn)) raft_empty demo_ops
   in rs_bans s ''02'' \<noteq> None \<and> rs_bans s ''01'' = None
      \<and> (\<forall>k i. rs_ban_by_key s k = Some i \<longleftrightarrow>
          (\<exists>e. rs_bans s i = Some e \<and> to_cidr_string demo_show_ip (be_key e) = k))"
proof -
  let ?step = "\<lambda>s opn. fst (raft_step demo_show_ip demo_parse_ip (\<lambda>_. []) s opn)"
  have "steps_ok ?step raft_op_ok raft_empty demo_ops"
    by (simp add: demo_ops_def raft_op_ok_def raft_step_def admin_step_def upsert_ban_def
        demo_parse raft_empty_def bump_index_def delete_ban_def remove_ban_def Let_def)
  moreover have "rs_bans (foldl ?step raft_empty demo_ops) ''02'' \<noteq> None
      \<and> rs_bans (foldl ?step raft_empty demo_ops) ''01'' = None"
    by (simp add: demo_ops_def raft_op_ok_def raft_step_def admin_step_def upsert_ban_def
        demo_parse raft_empty_def bump_index_def delete_ban_def remove_ban_def Let_def)
  ultimately show ?thesis
    using raft_one_ban_per_prefix [OF _ refl, of demo_show_ip demo_parse_ip "\<lambda>_. []" demo_ops]
    by (simp only: Let_def) blast
qed

lemma reap_ids_bans: "rs_bans (fst (reap_ids show_ip ids s)) = rs_bans s |` (- set ids)"
proof (induction ids arbitrary: s)
  case (Cons i ids)
  have "rs_bans (fst (reap_ids show_ip (i # ids) s))
      = rs_bans (fst (reap_ids show_ip ids (fst (remove_ban show_ip i s))))"
    by (simp add: case_prod_beta Let_def)
  then show ?case by (auto simp: Cons.IH restrict_map_def fun_eq_iff)
qed (simp add: restrict_map_def)

lemma reap_ids_holds: "rs_holds (fst (reap_ids show_ip ids s)) = rs_holds s"
  by (induction ids arbitrary: s) (simp_all add: case_prod_beta Let_def)

lemma reap_ids_events: "map ev_event (snd (reap_ids show_ip ids s)) = map EvBanDeleted ids"
  by (induction ids arbitrary: s) (simp_all add: case_prod_beta Let_def remove_ban_ev)

lemma set_expired_ids:
  assumes "iter_ok iter" "finite (dom (rs_bans s))"
  shows "set (expired_ids iter now s) = {i. \<exists>e. rs_bans s i = Some e \<and> ban_expired now e}"
  using assms by (auto simp: expired_ids_def set_map_keys)

text \<open>
  C30. One turn of the reaper removes exactly the bans whose time has come, permanent ones
  never, whatever the order in which the hash map is walked: the bans that are left are the
  unexpired ones unchanged, the prefixes of the removed ones are free for a new ban, and
  each removed ban is announced by one deletion event.
\<close>

theorem reap_removes_exactly_expired:
  assumes inv: "raft_inv show_ip s" and iter: "iter_ok iter"
    and reap: "reap show_ip iter now s = (s', evs)"
  shows "(\<forall>i. rs_bans s' i = (case rs_bans s i of
            None \<Rightarrow> None | Some e \<Rightarrow> if ban_expired now e then None else Some e))
    \<and> (\<forall>k i. rs_ban_by_key s' k = Some i \<longleftrightarrow>
          (rs_ban_by_key s k = Some i \<and> \<not> ban_expired now (the (rs_bans s i))))
    \<and> distinct (map ev_event evs)
    \<and> set (map ev_event evs) =
        EvBanDeleted ` {i. \<exists>e. rs_bans s i = Some e \<and> ban_expired now e}
    \<and> rs_holds s' = rs_holds s"
proof -
  let ?ids = "expired_ids iter now s"
  have s': "s' = fst (reap_ids show_ip ?ids s)" and evs: "evs = snd (reap_ids show_ip ?ids s)"
    using reap by (simp_all add: reap_def)
  from inv have b: "ban_maps_ok show_ip (rs_bans s) (rs_ban_by_key s)"
    by (simp add: raft_inv_def bans_ok_def)
  note ids = set_expired_ids [OF iter ban_mapsD(5) [OF b], of now]
  have "raft_inv show_ip s'" unfolding s' by (rule reap_ids_inv [OF inv])
  then have b': "ban_maps_ok show_ip (rs_bans s') (rs_ban_by_key s')"
    by (simp add: raft_inv_def bans_ok_def)
  have bans: "rs_bans s' i = (case rs_bans s i of
      None \<Rightarrow> None | Some e \<Rightarrow> if ban_expired now e then None else Some e)" for i
    unfolding s' reap_ids_bans restrict_map_def ids by (auto split: option.splits)
  have keys: "rs_ban_by_key s' k = Some i \<longleftrightarrow>
      (\<exists>e. rs_bans s i = Some e \<and> \<not> ban_expired now e \<and> to_cidr_string show_ip (be_key e) = k)" for k i
  proof -
    have "rs_ban_by_key s' k = Some i \<longleftrightarrow>
        (\<exists>e. rs_bans s' i = Some e \<and> to_cidr_string show_ip (be_key e) = k)"
      using ban_mapsD(2,4) [OF b'] by metis
    then show ?thesis by (auto simp: bans split: option.splits if_splits)
  qed
  have keys0: "rs_ban_by_key s k = Some i \<longleftrightarrow>
      (\<exists>e. rs_bans s i = Some e \<and> to_cidr_string show_ip (be_key e) = k)" for k i
    using ban_mapsD(2,4) [OF b] by metis
  have "distinct ?ids"
    using iter ban_mapsD(5) [OF b] by (simp add: expired_ids_def distinct_map_keys)
  then have "distinct (map EvBanDeleted ?ids)" by (simp add: distinct_map inj_on_def)
  moreover have "map ev_event evs = map EvBanDeleted ?ids"
    unfolding evs by (rule reap_ids_events)
  ultimately show ?thesis
    using bans keys keys0 ids by (auto simp: s' reap_ids_holds)
qed

definition demo_ban :: "string \<Rightarrow> nat \<Rightarrow> nat \<Rightarrow> ban_entry" where
  "demo_ban i len expires =
     \<lparr>be_ban_id = i, be_key = \<lparr>ipp_addr = V4 0, ipp_len = len\<rparr>, be_created_at_unix = 0,
      be_created_by = ''a'', be_reason = ''r'', be_expires_at_unix = expires\<rparr>"

definition demo_state :: raft_state where
  "demo_state = raft_empty\<lparr>rs_bans := [''x'' \<mapsto> demo_ban ''x'' 8 50, ''y'' \<mapsto> demo_ban ''y'' 9 0],
     rs_ban_by_key := [to_cidr_string demo_show_ip (be_key (demo_ban ''x'' 8 50)) \<mapsto> ''x'',
       to_cidr_string demo_show_ip (be_key (demo_ban ''y'' 9 0)) \<mapsto> ''y'']\<rparr>"

lemma demo_state_inv: "raft_inv demo_show_ip demo_state"
proof -
  let ?x = "demo_ban ''x'' 8 50" and ?y = "demo_ban ''y'' 9 0"
  have wf: "ipp_wf (be_key ?x)" "ipp_wf (be_key ?y)"
    by (simp_all add: demo_ban_def ipp_wf_def ipp_width_def mask_v4_def)
  have ne: "to_cidr_string demo_show_ip (be_key ?x) \<noteq> to_cidr_string demo_show_ip (be_key ?y)"
    by code_simp
  have ids: "be_ban_id ?x = ''x''" "be_ban_id ?y = ''y''" by (simp_all add: demo_ban_def)
  have "ban_maps_ok demo_show_ip Map.empty Map.empty" by (simp add: ban_maps_ok_def)
  from ban_maps_insert [OF this _ _ ids(1) refl wf(1)]
  have "ban_maps_ok demo_show_ip [''x'' \<mapsto> ?x] [to_cidr_string demo_show_ip (be_key ?x) \<mapsto> ''x'']"
    by simp
  from ban_maps_insert [OF this _ _ ids(2) refl wf(2)] ne
  show ?thesis
    by (simp add: raft_inv_def bans_ok_def holds_ok_def hold_map_ok_def demo_state_def raft_empty_def num_defs)
qed

theorem reap_removes_exactly_expired_witness:
  "let (s', evs) = reap demo_show_ip (\<lambda>P. sorted_list_of_set {x. P x}) 60 demo_state
   in rs_bans s' ''x'' = None \<and> rs_bans s' ''y'' = Some (demo_ban ''y'' 9 0)"
proof -
  obtain s' evs where r: "reap demo_show_ip (\<lambda>P. sorted_list_of_set {x. P x}) 60 demo_state = (s', evs)"
    by (cases "reap demo_show_ip (\<lambda>P. sorted_list_of_set {x. P x}) 60 demo_state")
  show ?thesis
    using reap_removes_exactly_expired [OF demo_state_inv iter_ok_sorted r] r
    by (simp add: demo_state_def demo_ban_def ban_expired_def)
qed

end
