(* ===== verification/HoldCache.thy ===== *)
theory HoldCache
  imports Raftd
begin

text \<open>
  The broker's copy of the legal holds: \<open>crates/slopmud/src/hold.rs\<close> and the event loop
  \<open>sbc_holds_events_task\<close> of \<open>crates/slopmud/src/main.rs\<close>, which keeps the copy and the held
  mark of every session in step with the daemon's events. Of a session only the name and the
  mark matter here.
\<close>

record hold_cache =
  hc_holds :: "string \<rightharpoonup> legal_hold_entry"
  hc_last_index :: nat

definition hold_cache_new :: hold_cache where
  "hold_cache_new = \<lparr>hc_holds = Map.empty, hc_last_index = 0\<rparr>"

definition hold_snapshot :: "((string \<Rightarrow> bool) \<Rightarrow> string list) \<Rightarrow> hold_cache \<Rightarrow> legal_hold_entry list" where
  "hold_snapshot iter c = sort_key lh_name_lc (map_values iter (hc_holds c))"

definition is_held :: "hold_cache \<Rightarrow> string \<Rightarrow> legal_hold_entry option" where
  "is_held c name = (let k = norm_key name in if k = [] then None else hc_holds c k)"

definition hold_apply_snapshot :: "nat \<Rightarrow> legal_hold_entry list \<Rightarrow> hold_cache \<Rightarrow> hold_cache" where
  "hold_apply_snapshot index hs c =
     \<lparr>hc_holds = map_by_key (\<lambda>h. norm_key (lh_name_lc h))
        (filter (\<lambda>h. norm_key (lh_name_lc h) \<noteq> []) hs),
      hc_last_index = max (hc_last_index c) index\<rparr>"

definition hold_apply_upsert :: "nat \<Rightarrow> legal_hold_entry \<Rightarrow> hold_cache \<Rightarrow> hold_cache" where
  "hold_apply_upsert index entry c =
     (let k = norm_key (lh_name_lc entry) in
      if k = [] then c
      else \<lparr>hc_holds = (hc_holds c)(k \<mapsto> entry), hc_last_index = max (hc_last_index c) index\<rparr>)"

definition hold_apply_delete :: "nat \<Rightarrow> string \<Rightarrow> hold_cache \<Rightarrow> hold_cache" where
  "hold_apply_delete index name_lc c =
     (let k = norm_key name_lc in
      if k = [] then c
      else \<lparr>hc_holds = (hc_holds c)(k := None), hc_last_index = max (hc_last_index c) index\<rparr>)"

record held_session =
  si_name :: string
  si_held :: bool

type_synonym sid = nat

record hold_follower =
  hf_cache :: hold_cache
  hf_sessions :: "sid \<rightharpoonup> held_session"

definition mark_held :: "(held_session \<Rightarrow> bool option) \<Rightarrow> (sid \<rightharpoonup> held_session) \<Rightarrow> (sid \<rightharpoonup> held_session)" where
  "mark_held f m = (\<lambda>s. case m s of
     None \<Rightarrow> None
   | Some si \<Rightarrow> Some (case f si of None \<Rightarrow> si | Some b \<Rightarrow> si\<lparr>si_held := b\<rparr>))"

text \<open>One event, and the entry of a session, which asks the cache for its mark.\<close>

definition holds_on_event :: "hold_follower \<Rightarrow> event_envelope \<Rightarrow> hold_follower" where
  "holds_on_event r env =
     (case ev_event env of
        EvSnapshot _ h \<Rightarrow>
          (let held_names = set (filter (\<lambda>k. k \<noteq> []) (map (\<lambda>e. norm_key (lh_name_lc e)) h)) in
           r\<lparr>hf_cache := hold_apply_snapshot (ev_index env) h (hf_cache r),
             hf_sessions := mark_held (\<lambda>si. Some (norm_key (si_name si) \<in> held_names))
               (hf_sessions r)\<rparr>)
      | EvLegalHoldUpserted entry \<Rightarrow>
          (let name_lc = norm_key (lh_name_lc entry);
               r = r\<lparr>hf_cache := hold_apply_upsert (ev_index env) entry (hf_cache r)\<rparr> in
           if name_lc = [] then r
           else r\<lparr>hf_sessions := mark_held
                    (\<lambda>si. if norm_key (si_name si) = name_lc then Some True else None)
                    (hf_sessions r)\<rparr>)
      | EvLegalHoldDeleted name \<Rightarrow>
          (let name_lc = norm_key name;
               r = r\<lparr>hf_cache := hold_apply_delete (ev_index env) name_lc (hf_cache r)\<rparr> in
           if name_lc = [] then r
           else r\<lparr>hf_sessions := mark_held
                    (\<lambda>si. if norm_key (si_name si) = name_lc then Some False else None)
                    (hf_sessions r)\<rparr>)
      | _ \<Rightarrow> r)"

definition holds_session_enter :: "sid \<Rightarrow> string \<Rightarrow> hold_follower \<Rightarrow> hold_follower" where
  "holds_session_enter s name r =
     r\<lparr>hf_sessions := (hf_sessions r)(s \<mapsto>
         \<lparr>si_name = name, si_held = (is_held (hf_cache r) name \<noteq> None)\<rparr>)\<rparr>"

section \<open>The copy follows the daemon\<close>

text \<open>The copy holds what the daemon holds, and every session is marked as its name says.\<close>

definition marks_ok :: "hold_follower \<Rightarrow> bool" where
  "marks_ok r \<longleftrightarrow> (\<forall>s si. hf_sessions r s = Some si \<longrightarrow>
     si_held si = (is_held (hf_cache r) (si_name si) \<noteq> None))"

definition hold_rel :: "raft_state \<Rightarrow> hold_follower \<Rightarrow> bool" where
  "hold_rel s r \<longleftrightarrow> hc_holds (hf_cache r) = rs_holds s \<and> holds_ok s \<and> marks_ok r"

lemma hold_map_norm: "hold_map_ok m \<Longrightarrow> m k = Some e \<Longrightarrow> norm_key (lh_name_lc e) = k \<and> k \<noteq> []"
  by (auto simp: hold_map_ok_def)

lemma snapshot_holds:
  assumes "iter_ok iter" "hold_map_ok m"
  shows "hc_holds (hold_apply_snapshot i (map_values iter m) c) = m"
proof
  fix k
  have "hc_holds (hold_apply_snapshot i (map_values iter m) c) k
      = (case m k of None \<Rightarrow> None | Some v \<Rightarrow> if norm_key (lh_name_lc v) \<noteq> [] then Some v else None)"
    unfolding hold_apply_snapshot_def hold_cache.simps
    using assms by (intro map_by_key_filter_values) (auto simp: hold_map_ok_def)
  then show "hc_holds (hold_apply_snapshot i (map_values iter m) c) k = m k"
    using assms(2) by (auto dest: hold_map_norm split: option.splits)
qed

lemma snapshot_establishes:
  assumes "iter_ok iter" "holds_ok s"
  shows "hold_rel s (holds_on_event r (raft_snapshot iter s))"
proof -
  let ?h = "map_values iter (rs_holds s)"
  let ?names = "set (filter (\<lambda>k. k \<noteq> []) (map (\<lambda>e. norm_key (lh_name_lc e)) ?h))"
  have m: "hold_map_ok (rs_holds s)" using assms(2) by (simp add: holds_ok_def)
  then have "set ?h = ran (rs_holds s)"
    using assms(1) by (simp add: set_map_values hold_map_ok_def)
  then have names: "k \<in> ?names \<longleftrightarrow> k \<noteq> [] \<and> rs_holds s k \<noteq> None" for k
    using hold_map_norm [OF m] by (force simp: ran_def)
  have c: "hc_holds (hf_cache (holds_on_event r (raft_snapshot iter s))) = rs_holds s"
    using snapshot_holds [OF assms(1) m] by (simp add: holds_on_event_def raft_snapshot_def Let_def)
  have "marks_ok (holds_on_event r (raft_snapshot iter s))"
    unfolding marks_ok_def is_held_def c
    by (auto simp: holds_on_event_def raft_snapshot_def mark_held_def names Let_def
        simp del: set_filter set_map split: option.splits)
  with c assms(2) show ?thesis by (simp add: hold_rel_def)
qed

lemma upsert_event_rel:
  assumes "hold_rel s r" "k \<noteq> []" "norm_key k = k" "lh_name_lc e = k"
    and "rs_holds s' = (rs_holds s)(k \<mapsto> e)"
  shows "hold_rel s' (holds_on_event r \<lparr>ev_index = i, ev_event = EvLegalHoldUpserted e\<rparr>)"
  using assms
  by (auto simp: hold_rel_def holds_ok_def hold_map_insert marks_ok_def is_held_def
      holds_on_event_def hold_apply_upsert_def mark_held_def Let_def split: option.splits if_splits)

lemma delete_event_rel:
  assumes "hold_rel s r" "k \<noteq> []" "norm_key k = k"
    and "rs_holds s' = (rs_holds s)(k := None)"
  shows "hold_rel s' (holds_on_event r \<lparr>ev_index = i, ev_event = EvLegalHoldDeleted k\<rparr>)"
  using assms
  by (auto simp: hold_rel_def holds_ok_def hold_map_remove marks_ok_def is_held_def
      holds_on_event_def hold_apply_delete_def mark_held_def Let_def split: option.splits if_splits)

lemma other_event: 
  "\<forall>b h. ev_event ev \<noteq> EvSnapshot b h \<Longrightarrow> \<forall>e. ev_event ev \<noteq> EvLegalHoldUpserted e \<Longrightarrow>
     \<forall>n. ev_event ev \<noteq> EvLegalHoldDeleted n \<Longrightarrow> holds_on_event r ev = r"
  by (cases "ev_event ev") (simp_all add: holds_on_event_def)

lemma other_events_rel:
  assumes "hold_rel s r" "rs_holds s' = rs_holds s"
    and "\<And>ev r. ev \<in> set evs \<Longrightarrow> holds_on_event r ev = r"
  shows "hold_rel s' (foldl holds_on_event r evs)"
proof -
  have "foldl holds_on_event r evs = r" using assms(3) by (induction evs) simp_all
  with assms(1,2) show ?thesis by (simp add: hold_rel_def holds_ok_def)
qed

lemma hold_step_sim:
  assumes "hold_rel s r" "raft_step show_ip parse_ip iter s opn = (s', evs)"
  shows "hold_rel s' (foldl holds_on_event r evs)"
proof (cases opn)
  case (RaftReap now)
  then have s': "s' = fst (reap_ids show_ip (expired_ids iter now s) s)"
    and evs: "evs = snd (reap_ids show_ip (expired_ids iter now s) s)"
    using assms(2) by (simp_all add: raft_step_def reap_def)
  have "ev_event ev \<in> range EvBanDeleted" if "ev \<in> set evs" for ev
  proof -
    from that have "ev_event ev \<in> set (map ev_event evs)" by simp
    then show ?thesis unfolding evs reap_ids_events by auto
  qed
  then show ?thesis
    using assms(1) by (intro other_events_rel [of s]) (fastforce simp: s' reap_ids_holds intro: other_event)+
next
  case (RaftAdmin now rnd req)
  show ?thesis
  proof (cases req)
    case (UpsertBan key ttl creator reason)
    with RaftAdmin assms show ?thesis
      by (intro other_events_rel [OF assms(1)])
        (auto simp: raft_step_def admin_step_def upsert_ban_def Let_def case_prod_beta
          split: option.splits intro!: other_event)
  next
    case (DeleteBan i)
    with RaftAdmin assms show ?thesis
      by (intro other_events_rel [OF assms(1)])
        (auto simp: raft_step_def admin_step_def delete_ban_def case_prod_beta remove_ban_ev Let_def
          intro!: other_event)
  next
    case (UpsertLegalHold name creator reason)
    with RaftAdmin assms show ?thesis
      by (auto simp: raft_step_def admin_step_def upsert_legal_hold_def Let_def
          intro!: upsert_event_rel split: if_splits)
  next
    case (DeleteLegalHold name)
    with RaftAdmin assms show ?thesis
      by (auto simp: raft_step_def admin_step_def delete_legal_hold_def Let_def
          intro!: delete_event_rel split: if_splits)
  next
    case (ReportEnforcementStatus st)
    with RaftAdmin assms show ?thesis
      by (intro other_events_rel [OF assms(1)])
        (auto simp: raft_step_def admin_step_def report_enforcement_status_def Let_def
          intro!: other_event)
  next
    case (ReportBanApplyResult rep)
    with RaftAdmin assms show ?thesis
      by (intro other_events_rel [OF assms(1)])
        (auto simp: raft_step_def admin_step_def report_ban_apply_result_def Let_def
          intro!: other_event)
  next
    case GetState
    with RaftAdmin assms show ?thesis
      by (auto simp: raft_step_def admin_step_def get_state_def)
  qed
qed

interpretation holds_replica: event_replica "raft_step show_ip parse_ip iter" holds_on_event
  hold_rel "\<lambda>_ _. True" for show_ip parse_ip iter
  by unfold_locales (rule hold_step_sim)

lemma run_ok_True [simp]: "run_ok step (\<lambda>_ _. True) s ops"
  by (induction ops arbitrary: s) auto

text \<open>
  C31. The broker's copy of the legal holds follows the daemon: when no operation runs between
  the snapshot and the subscription, then after the snapshot and the events of any further
  run of the daemon, whatever the copy held before, \<open>is_held\<close> answers for every name what
  the daemon stores under its canonical form, and every session of the broker is marked held
  exactly when its name is.
\<close>

theorem hold_copy_follows:
  assumes "raft_inv show_ip s" "iter_ok iter"
    and "run_src (raft_step show_ip parse_ip iter) s ops = (s', evs)"
    and "r' = foldl holds_on_event r (subscriber_stream show_ip parse_ip iter SubSnapshot s [] ops)"
  shows "(\<forall>name. is_held (hf_cache r') name = rs_holds s' (norm_key name))
    \<and> (\<forall>k si. hf_sessions r' k = Some si \<longrightarrow>
          si_held si = (rs_holds s' (norm_key (si_name si)) \<noteq> None))"
proof -
  let ?r1 = "holds_on_event r (raft_snapshot iter s)"
  have "hold_rel s ?r1"
    using assms(1,2) by (intro snapshot_establishes) (simp_all add: raft_inv_def)
  from holds_replica.run_sim [OF this _ assms(3)]
  have "hold_rel s' (foldl holds_on_event ?r1 evs)" by simp
  moreover have "r' = foldl holds_on_event ?r1 evs"
    using assms(3,4) by (simp add: subscriber_stream_def Let_def)
  ultimately have rel: "hold_rel s' r'" by simp
  then have "rs_holds s' [] = None"
    by (cases "rs_holds s' []") (auto simp: hold_rel_def holds_ok_def hold_map_ok_def)
  with rel have h: "is_held (hf_cache r') name = rs_holds s' (norm_key name)" for name
    by (auto simp: hold_rel_def is_held_def Let_def)
  with rel show ?thesis by (simp add: hold_rel_def marks_ok_def)
qed

theorem hold_copy_follows_witness:
  "\<exists>(s' :: raft_state) (r' :: hold_follower). rs_holds s' (norm_key ''Bob'') \<noteq> None
     \<and> is_held (hf_cache r') ''Bob'' = rs_holds s' (norm_key ''Bob'')
     \<and> (\<forall>k si. hf_sessions r' k = Some si \<longrightarrow>
          si_held si = (rs_holds s' (norm_key (si_name si)) \<noteq> None))"
proof -
  let ?iter = "\<lambda>P. sorted_list_of_set {x :: string. P x}"
  let ?step = "raft_step demo_show_ip demo_parse_ip ?iter"
  let ?ops = "[RaftAdmin 7 [] (UpsertLegalHold ''Bob'' ''a'' ''r'')]"
  let ?r = "\<lparr>hf_cache = hold_cache_new, hf_sessions = [0 \<mapsto> \<lparr>si_name = ''bob'', si_held = False\<rparr>]\<rparr>"
  obtain s' evs where run: "run_src ?step demo_state ?ops = (s', evs)"
    by (cases "run_src ?step demo_state ?ops")
  have "norm_key ''Bob'' \<noteq> []" by code_simp
  then have held: "rs_holds s' (norm_key ''Bob'') \<noteq> None"
    using run by (auto simp: raft_step_def admin_step_def upsert_legal_hold_def Let_def)
  define r' where "r' = foldl holds_on_event ?r
    (subscriber_stream demo_show_ip demo_parse_ip ?iter SubSnapshot demo_state [] ?ops)"
  note res = hold_copy_follows [OF demo_state_inv iter_ok_sorted run r'_def]
  show ?thesis
    by (rule exI [of _ s'], rule exI [of _ r'], intro conjI, rule held)
      (rule res [THEN conjunct1, rule_format], rule res [THEN conjunct2])
qed

text \<open>
  The snapshot is taken before the subscription is made, and what happens between the two
  is lost to the subscriber for good: a hold placed in that gap is stored by the daemon, yet
  the copy of a broker that subscribed from the snapshot answers that the name is not held.
\<close>

theorem hold_copy_misses_gap:
  assumes "raft_inv show_ip s" "iter_ok iter" "norm_key name \<noteq> []" "rs_holds s (norm_key name) = None"
    and "gap = [RaftAdmin now rnd (UpsertLegalHold name creator reason)]"
    and "run_src (raft_step show_ip parse_ip iter) s gap = (s', evs)"
    and "r' = foldl holds_on_event r (subscriber_stream show_ip parse_ip iter SubSnapshot s gap [])"
  shows "rs_holds s' (norm_key name) \<noteq> None \<and> is_held (hf_cache r') name = None"
proof
  show "rs_holds s' (norm_key name) \<noteq> None"
    using assms(3,5,6) by (auto simp: raft_step_def admin_step_def upsert_legal_hold_def Let_def)
  have "hold_rel s (holds_on_event r (raft_snapshot iter s))"
    using assms(1,2) by (intro snapshot_establishes) (simp_all add: raft_inv_def)
  moreover have "r' = holds_on_event r (raft_snapshot iter s)"
    using assms(7) by (simp add: subscriber_stream_def case_prod_beta Let_def)
  ultimately have "hc_holds (hf_cache r') = rs_holds s" by (simp add: hold_rel_def)
  with assms(3,4) show "is_held (hf_cache r') name = None" by (simp add: is_held_def)
qed

theorem hold_copy_misses_gap_witness:
  "\<exists>(s' :: raft_state) (r' :: hold_follower). rs_holds s' (norm_key ''Bob'') \<noteq> None \<and> is_held (hf_cache r') ''Bob'' = None"
proof -
  let ?iter = "\<lambda>P. sorted_list_of_set {x :: string. P x}"
  let ?gap = "[RaftAdmin 7 [] (UpsertLegalHold ''Bob'' ''a'' ''r'')]"
  obtain s' evs where run: "run_src (raft_step demo_show_ip demo_parse_ip ?iter) demo_state ?gap = (s', evs)"
    by (cases "run_src (raft_step demo_show_ip demo_parse_ip ?iter) demo_state ?gap")
  have n: "norm_key ''Bob'' \<noteq> []" by code_simp
  have "rs_holds demo_state (norm_key ''Bob'') = None" by (simp add: demo_state_def raft_empty_def)
  from hold_copy_misses_gap [OF demo_state_inv iter_ok_sorted n this refl run refl,
      of "\<lparr>hf_cache = hold_cache_new, hf_sessions = Map.empty\<rparr>"]
  show ?thesis by blast
qed

end
