(* ===== verification/Enforcerd.thy ===== *)
theory Enforcerd
  imports Raftd
begin

text \<open>
  \<open>apps/sbc_enforcerd/src/main.rs\<close>: the state of an enforcement node and the turns of its
  tasks: the DNS poller that switches enforcement on and off, the consumer of the daemon's
  events, and the reporter of the node's status. The resolver's answer, the clock and the
  text form of addresses are arguments.
\<close>

record enf_config =
  ec_node_id :: string
  ec_enable_dns_name :: string
  ec_enable_dns_ip :: "ip_addr option"
  ec_apply_snapshot :: bool

record enf_state =
  en_node_id :: string
  en_dns_name :: string
  en_dns_expect_ip :: "string option"
  en_apply_snapshot :: bool
  en_dns_enabled :: bool
  en_dns_last_checked_unix :: nat
  en_dns_last_error :: "string option"
  en_dns_last_ips :: "string list"
  en_enforcement_mode :: string
  en_enforcement_reason :: string
  en_backend :: string
  en_backend_attached :: bool
  en_events_connected :: bool
  en_events_last_index :: nat
  en_events_last_error :: "string option"
  en_desired_bans :: "string \<rightharpoonup> ban_entry"
  en_applied_bans :: "string \<rightharpoonup> ban_entry"
  en_exempt :: exempt_prefixes
  en_exempt_loaded :: bool
  en_exempt_path :: "string option"
  en_exempt_last_error :: "string option"

text \<open>The state \<open>main\<close> starts with; the exemption file, when there is one, is its path and text.\<close>

definition enf_init ::
  "(ip_addr \<Rightarrow> string) \<Rightarrow> (string \<Rightarrow> ip_addr option) \<Rightarrow> (nat \<Rightarrow> string) \<Rightarrow> enf_config \<Rightarrow>
   (string \<times> string) option \<Rightarrow> enf_state" where
  "enf_init show_ip parse_ip load_error cfg exempt_file =
     (let (ex, loaded, path, err) =
            (case exempt_file of
               None \<Rightarrow> ([], False, None, None)
             | Some (p, content) \<Rightarrow>
                 (case exempt_load parse_ip content of
                    Inr v \<Rightarrow> (v, True, Some p, None)
                  | Inl line \<Rightarrow> ([], False, Some p, Some (load_error line))))
      in \<lparr>en_node_id = ec_node_id cfg, en_dns_name = ec_enable_dns_name cfg,
          en_dns_expect_ip = map_option show_ip (ec_enable_dns_ip cfg),
          en_apply_snapshot = ec_apply_snapshot cfg, en_dns_enabled = False,
          en_dns_last_checked_unix = 0, en_dns_last_error = None, en_dns_last_ips = [],
          en_enforcement_mode = ''fail_open'', en_enforcement_reason = ''startup'',
          en_backend = ''noop'', en_backend_attached = False, en_events_connected = False,
          en_events_last_index = 0, en_events_last_error = None,
          en_desired_bans = Map.empty, en_applied_bans = Map.empty,
          en_exempt = ex, en_exempt_loaded = loaded, en_exempt_path = path,
          en_exempt_last_error = err\<rparr>)"

section \<open>The DNS poller\<close>

definition dns_check_value ::
  "string \<Rightarrow> ip_addr option \<Rightarrow> string + ip_addr list \<Rightarrow> bool \<times> string option \<times> ip_addr list" where
  "dns_check_value name expect lookup =
     (if trim name = [] then (False, Some ''SBC_ENABLE_DNS_NAME not set'', [])
      else
        (case lookup of
           Inr ips \<Rightarrow>
             (if ips = [] then (False, Some ''dns resolved to empty result'', ips)
              else
                (case expect of
                   Some e \<Rightarrow>
                     (if list_ex (\<lambda>ip. ip = e) ips then (True, None, ips) else (False, None, ips))
                 | None \<Rightarrow> (True, None, ips)))
         | Inl e \<Rightarrow> (False, Some e, [])))"

definition sync_report :: "string \<Rightarrow> nat \<Rightarrow> string \<Rightarrow> string \<Rightarrow> string option \<Rightarrow> string \<Rightarrow> ban_apply_result"
  where
  "sync_report node now opn result err ban_id =
     \<lparr>ba_node_id = node, ba_ban_id = ban_id, ba_op = opn, ba_result = result, ba_error = err,
      ba_reported_at_unix = now\<rparr>"

text \<open>Attaching: the loop over the desired bans.\<close>

fun sync_bans ::
  "string \<Rightarrow> exempt_prefixes \<Rightarrow> nat \<Rightarrow> ban_entry list \<Rightarrow> (string \<rightharpoonup> ban_entry) \<Rightarrow> ban_apply_result list \<Rightarrow>
   (string \<rightharpoonup> ban_entry) \<times> ban_apply_result list" where
  "sync_bans node ex now [] applied reports = (applied, reports)"
| "sync_bans node ex now (b # bs) applied reports =
     (if ban_expired now b then sync_bans node ex now bs applied reports
      else if exempt_contains_prefix ex (be_key b) then
        sync_bans node ex now bs applied
          (reports @ [sync_report node now ''sync'' ''skipped'' (Some ''exempt_prefix'') (be_ban_id b)])
      else
        sync_bans node ex now bs (applied(be_ban_id b \<mapsto> b))
          (reports @ [sync_report node now ''sync'' ''ok'' None (be_ban_id b)]))"

text \<open>
  One poll. The code assigns a field under a test that it differs, and then sets \<open>changed\<close>:
  the assignment is the same without the test.
\<close>

definition dns_update ::
  "(ip_addr \<Rightarrow> string) \<Rightarrow> nat \<Rightarrow> bool \<times> string option \<times> ip_addr list \<Rightarrow> enf_state \<Rightarrow> enf_state" where
  "dns_update show_ip now checked s =
     (let (enabled, err, ips) = checked in
      s\<lparr>en_dns_last_checked_unix := now, en_dns_enabled := enabled, en_dns_last_error := err,
        en_dns_last_ips := map show_ip ips,
        en_enforcement_mode := (if enabled then ''enforcing'' else ''fail_open''),
        en_enforcement_reason :=
          (if enabled then ''dns_enabled'' else if err \<noteq> None then ''dns_error'' else ''dns_disabled'')\<rparr>)"

definition dns_turn ::
  "(ip_addr \<Rightarrow> string) \<Rightarrow> ((string \<Rightarrow> bool) \<Rightarrow> string list) \<Rightarrow> enf_config \<Rightarrow> nat \<Rightarrow>
   string + ip_addr list \<Rightarrow> enf_state \<Rightarrow> enf_state \<times> bool \<times> ban_apply_result list" where
  "dns_turn show_ip iter cfg now lookup s0 =
     (let s = dns_update show_ip now
                (dns_check_value (ec_enable_dns_name cfg) (ec_enable_dns_ip cfg) lookup) s0;
          changed = (en_dns_enabled s \<noteq> en_dns_enabled s0
            \<or> en_dns_last_error s \<noteq> en_dns_last_error s0
            \<or> en_enforcement_mode s \<noteq> en_enforcement_mode s0
            \<or> en_enforcement_reason s \<noteq> en_enforcement_reason s0);
          want_attached = (en_enforcement_mode s = ''enforcing'')
      in if en_backend_attached s \<noteq> want_attached then
           (let s = s\<lparr>en_backend_attached := want_attached\<rparr> in
            if \<not> want_attached then (s\<lparr>en_applied_bans := Map.empty\<rparr>, True, [])
            else
              (let (applied, reports) =
                     sync_bans (ec_node_id cfg) (en_exempt s) now
                       (map_values iter (en_desired_bans s)) Map.empty []
               in (s\<lparr>en_applied_bans := applied\<rparr>, True, reports)))
         else (s, changed, []))"

section \<open>The event consumer\<close>

definition enf_event ::
  "((string \<Rightarrow> bool) \<Rightarrow> string list) \<Rightarrow> enf_config \<Rightarrow> nat \<Rightarrow> enf_state \<Rightarrow> event_envelope \<Rightarrow>
   enf_state \<times> ban_apply_result option" where
  "enf_event iter cfg now s env =
     (let s = s\<lparr>en_events_last_index := max (en_events_last_index s) (ev_index env)\<rparr>;
          enforcing = (en_enforcement_mode s = ''enforcing'');
          rep = sync_report (ec_node_id cfg) now
      in case ev_event env of
           EvSnapshot bans _ \<Rightarrow>
             (let desired = map_by_key be_ban_id (filter (\<lambda>b. \<not> ban_expired now b) bans);
                  s = s\<lparr>en_desired_bans := desired\<rparr>
              in (if enforcing then
                    s\<lparr>en_applied_bans :=
                       map_by_key be_ban_id
                         (filter (\<lambda>b. \<not> exempt_contains_prefix (en_exempt s) (be_key b))
                           (map_values iter desired))\<rparr>
                  else s, None))
         | EvBanUpserted entry \<Rightarrow>
             (let s = s\<lparr>en_desired_bans := (en_desired_bans s)(be_ban_id entry \<mapsto> entry)\<rparr> in
              if enforcing then
                (if exempt_contains_prefix (en_exempt s) (be_key entry) then
                   (s, Some (rep ''upsert'' ''skipped'' (Some ''exempt_prefix'') (be_ban_id entry)))
                 else
                   (s\<lparr>en_applied_bans := (en_applied_bans s)(be_ban_id entry \<mapsto> entry)\<rparr>,
                    Some (rep ''upsert'' ''ok'' None (be_ban_id entry))))
              else (s, Some (rep ''upsert'' ''skipped'' (Some ''enforcement_disabled'') (be_ban_id entry))))
         | EvBanDeleted ban_id \<Rightarrow>
             (let s = s\<lparr>en_desired_bans := (en_desired_bans s)(ban_id := None)\<rparr> in
              if enforcing then
                (s\<lparr>en_applied_bans := (en_applied_bans s)(ban_id := None)\<rparr>,
                 Some (rep ''delete'' ''ok'' None ban_id))
              else (s, Some (rep ''delete'' ''skipped'' (Some ''enforcement_disabled'') ban_id)))
         | _ \<Rightarrow> (s, None))"

text \<open>The connection's life: a new round, a failure to connect, a connection, its end.\<close>

datatype conn_event = ConnRound | ConnFailed string | ConnUp | ConnEof | ConnReadError string

definition enf_conn :: "enf_state \<Rightarrow> conn_event \<Rightarrow> enf_state" where
  "enf_conn s c =
     (case c of
        ConnRound \<Rightarrow> s\<lparr>en_events_connected := False, en_events_last_error := None\<rparr>
      | ConnFailed e \<Rightarrow> s\<lparr>en_events_last_error := Some e\<rparr>
      | ConnUp \<Rightarrow> s\<lparr>en_events_connected := True\<rparr>
      | ConnEof \<Rightarrow> s\<lparr>en_events_connected := False, en_events_last_error := Some ''eof''\<rparr>
      | ConnReadError e \<Rightarrow> s\<lparr>en_events_connected := False, en_events_last_error := Some e\<rparr>)"

section \<open>The status reporter\<close>

type_synonym status_key = "bool \<times> string option \<times> bool \<times> string \<times> string \<times> string"

definition status_key_of :: "enf_state \<Rightarrow> status_key" where
  "status_key_of s = (en_dns_enabled s, en_dns_last_error s, en_backend_attached s,
     en_enforcement_mode s, en_dns_name s, en_backend s)"

text \<open>
  One wake-up of the reporter: it sends a status unless the last one sent was the same, and
  remembers it only when the daemon has answered (\<open>sent_ok\<close>).
\<close>

definition report_status_turn ::
  "enf_config \<Rightarrow> nat \<Rightarrow> bool \<Rightarrow> enf_state \<Rightarrow> status_key option \<Rightarrow>
   status_key option \<times> enforcement_status option" where
  "report_status_turn cfg now sent_ok s last_sent =
     (let snapshot = status_key_of s in
      if last_sent = Some snapshot then (last_sent, None)
      else
        let status = \<lparr>es_node_id = ec_node_id cfg, es_dns_name = en_dns_name s,
                      es_dns_enabled = en_dns_enabled s, es_dns_last_error = en_dns_last_error s,
                      es_backend = en_backend s, es_backend_attached = en_backend_attached s,
                      es_enforcement_mode = en_enforcement_mode s, es_reported_at_unix = now\<rparr>
        in (if sent_ok then Some snapshot else last_sent, Some status))"

section \<open>The node as a machine\<close>

datatype enf_input =
    EnfDns nat "string + ip_addr list"
  | EnfEvent nat event_envelope
  | EnfConn conn_event

definition enf_step ::
  "(ip_addr \<Rightarrow> string) \<Rightarrow> ((string \<Rightarrow> bool) \<Rightarrow> string list) \<Rightarrow> enf_config \<Rightarrow> enf_state \<Rightarrow> enf_input \<Rightarrow>
   enf_state" where
  "enf_step show_ip iter cfg s i =
     (case i of
        EnfDns now lookup \<Rightarrow> fst (dns_turn show_ip iter cfg now lookup s)
      | EnfEvent now env \<Rightarrow> fst (enf_event iter cfg now s env)
      | EnfConn c \<Rightarrow> enf_conn s c)"

text \<open>
  What holds at all times. \<open>applied_from\<close> ties each applied ban to the desired one of the same
  identifier; the two can only differ when the newer entry is exempt.
\<close>

definition applied_ok :: "exempt_prefixes \<Rightarrow> (string \<rightharpoonup> ban_entry) \<Rightarrow> (string \<rightharpoonup> ban_entry) \<Rightarrow> bool" where
  "applied_ok ex desired applied \<longleftrightarrow> (\<forall>i e. applied i = Some e \<longrightarrow>
     be_ban_id e = i \<and> \<not> exempt_contains_prefix ex (be_key e)
     \<and> (\<exists>d. desired i = Some d \<and> (d = e \<or> exempt_contains_prefix ex (be_key d))))"

definition ids_ok :: "(string \<rightharpoonup> ban_entry) \<Rightarrow> bool" where
  "ids_ok m \<longleftrightarrow> finite (dom m) \<and> (\<forall>i e. m i = Some e \<longrightarrow> be_ban_id e = i)"

definition enf_inv :: "enf_state \<Rightarrow> bool" where
  "enf_inv s \<longleftrightarrow>
     (en_enforcement_mode s = ''enforcing'' \<longleftrightarrow> en_dns_enabled s) \<and>
     (en_backend_attached s \<longleftrightarrow> en_dns_enabled s) \<and>
     (\<not> en_dns_enabled s \<longrightarrow> en_applied_bans s = Map.empty) \<and>
     ids_ok (en_desired_bans s) \<and>
     applied_ok (en_exempt s) (en_desired_bans s) (en_applied_bans s)"

lemma ids_ok_map_by_key: "ids_ok (map_by_key be_ban_id bs)"
proof -
  have "finite (dom (map_by_key be_ban_id bs))"
    by (induction bs rule: rev_induct) (simp_all del: fun_upd_apply)
  then show ?thesis by (auto simp: ids_ok_def dest: map_by_key_SomeD)
qed

lemma ids_ok_values:
  assumes "iter_ok iter" "ids_ok m"
  shows "map_by_key be_ban_id (filter P (map_values iter m)) i
    = (case m i of None \<Rightarrow> None | Some b \<Rightarrow> if P b then Some b else None)"
  using assms by (intro map_by_key_filter_values) (auto simp: ids_ok_def)

lemma sync_bans_applied:
  "fst (sync_bans node ex now bs applied reports)
     = foldl (\<lambda>m b. m(be_ban_id b \<mapsto> b)) applied
         (filter (\<lambda>b. \<not> ban_expired now b \<and> \<not> exempt_contains_prefix ex (be_key b)) bs)"
  by (induction bs arbitrary: applied reports) simp_all

lemma sync_bans_from_empty:
  assumes "iter_ok iter" "ids_ok m"
  shows "fst (sync_bans node ex now (map_values iter m) Map.empty []) i
    = (case m i of None \<Rightarrow> None
       | Some b \<Rightarrow> if \<not> ban_expired now b \<and> \<not> exempt_contains_prefix ex (be_key b) then Some b else None)"
  using ids_ok_values [OF assms] by (simp add: sync_bans_applied map_by_key_def)

lemma dns_turn_state:
  assumes "dns_check_value (ec_enable_dns_name cfg) (ec_enable_dns_ip cfg) lookup = (enabled, err, ips)"
    and "s' = fst (dns_turn show_ip iter cfg now lookup s)"
  shows "en_dns_enabled s' = enabled"
    and "en_enforcement_mode s' = (if enabled then ''enforcing'' else ''fail_open'')"
    and "en_backend_attached s' = enabled"
    and "en_desired_bans s' = en_desired_bans s" and "en_exempt s' = en_exempt s"
    and "en_applied_bans s' =
      (if en_backend_attached s = enabled then en_applied_bans s
       else if enabled then fst (sync_bans (ec_node_id cfg) (en_exempt s) now
         (map_values iter (en_desired_bans s)) Map.empty [])
       else Map.empty)"
  unfolding assms(2) dns_turn_def assms(1) dns_update_def by (simp_all add: Let_def case_prod_beta)

lemma dns_turn_inv:
  assumes "iter_ok iter" "enf_inv s"
  shows "enf_inv (fst (dns_turn show_ip iter cfg now lookup s))"
proof -
  obtain enabled err ips where
    c: "dns_check_value (ec_enable_dns_name cfg) (ec_enable_dns_ip cfg) lookup = (enabled, err, ips)"
    by (cases "dns_check_value (ec_enable_dns_name cfg) (ec_enable_dns_ip cfg) lookup")
  have ids: "ids_ok (en_desired_bans s)" using assms(2) by (simp add: enf_inv_def)
  have sync: "applied_ok (en_exempt s) (en_desired_bans s)
      (fst (sync_bans (ec_node_id cfg) (en_exempt s) now
         (map_values iter (en_desired_bans s)) Map.empty []))"
    using ids by (auto simp: applied_ok_def sync_bans_from_empty [OF assms(1) ids] ids_ok_def
        split: option.splits if_splits)
  have "applied_ok (en_exempt s) (en_desired_bans s) Map.empty" by (simp add: applied_ok_def)
  with sync assms(2) show ?thesis
    unfolding enf_inv_def dns_turn_state [OF c refl] by (cases enabled) auto
qed

lemma enf_event_inv:
  assumes "iter_ok iter" "enf_inv s"
  shows "enf_inv (fst (enf_event iter cfg now s env))"
proof (cases "ev_event env")
  case (EvSnapshot bans hs)
  define d where "d = map_by_key be_ban_id (filter (\<lambda>b. \<not> ban_expired now b) bans)"
  have ids: "ids_ok d" unfolding d_def by (rule ids_ok_map_by_key)
  have "applied_ok (en_exempt s) d (map_by_key be_ban_id
      (filter (\<lambda>b. \<not> exempt_contains_prefix (en_exempt s) (be_key b)) (map_values iter d)))"
    using ids by (auto simp: applied_ok_def ids_ok_values [OF assms(1) ids] ids_ok_def
        split: option.splits if_splits)
  moreover have "applied_ok (en_exempt s) d Map.empty" by (simp add: applied_ok_def)
  ultimately show ?thesis
    using EvSnapshot assms(2) ids by (auto simp: enf_event_def enf_inv_def d_def Let_def)
next
  case (EvBanUpserted e)
  with assms(2) show ?thesis
    by (auto simp: enf_event_def enf_inv_def Let_def ids_ok_def applied_ok_def)
next
  case (EvBanDeleted i)
  with assms(2) show ?thesis
    by (auto simp: enf_event_def enf_inv_def Let_def ids_ok_def applied_ok_def)
qed (use assms(2) in \<open>auto simp: enf_event_def enf_inv_def Let_def\<close>)

lemma enf_conn_inv: "enf_inv s \<Longrightarrow> enf_inv (enf_conn s c)"
  by (cases c) (simp_all add: enf_conn_def enf_inv_def)

lemma enf_step_inv: "iter_ok iter \<Longrightarrow> enf_inv s \<Longrightarrow> enf_inv (enf_step show_ip iter cfg s i)"
  by (cases i) (simp_all add: enf_step_def dns_turn_inv enf_event_inv enf_conn_inv)

interpretation enforcer: inv_machine "enf_step show_ip iter cfg" "\<lambda>_ _. iter_ok iter" enf_inv
  for show_ip iter cfg
  by unfold_locales (rule enf_step_inv)

lemma enf_init_inv: "enf_inv (enf_init show_ip parse_ip load_error cfg ex)"
  by (auto simp: enf_init_def enf_inv_def ids_ok_def applied_ok_def Let_def case_prod_beta)

lemma enf_step_exempt: "en_exempt (enf_step show_ip iter cfg s i) = en_exempt s"
proof (cases i)
  case (EnfDns now lookup)
  obtain en err ips where
    "dns_check_value (ec_enable_dns_name cfg) (ec_enable_dns_ip cfg) lookup = (en, err, ips)"
    by (cases "dns_check_value (ec_enable_dns_name cfg) (ec_enable_dns_ip cfg) lookup")
  from dns_turn_state(5) [OF this refl] EnfDns show ?thesis by (simp add: enf_step_def)
next
  case (EnfEvent now env)
  then show ?thesis
    by (auto simp: enf_step_def enf_event_def Let_def split: sbc_event.splits)
next
  case (EnfConn c)
  then show ?thesis by (cases c) (simp_all add: enf_step_def enf_conn_def)
qed

lemma steps_ok_const: "P \<Longrightarrow> steps_ok step (\<lambda>_ _. P) s es"
  by (induction es arbitrary: s) auto

lemma enf_run_exempt: "en_exempt (foldl (enf_step show_ip iter cfg) s is) = en_exempt s"
  by (induction "is" arbitrary: s) (simp_all add: enf_step_exempt)

text \<open>
  The node fails open and never touches an exempt network: from its start, through any
  sequence of DNS answers, daemon events (well-formed or not) and connection failures, a ban
  is applied only while the latest DNS check says enforcement is on, an applied ban is one
  the daemon asked for, and no applied ban lies inside an exempt prefix.
\<close>

theorem enforcer_fails_open:
  assumes "iter_ok iter"
    and "s = foldl (enf_step show_ip iter cfg) (enf_init show_ip parse_ip load_error cfg ex) inputs"
  shows "(en_applied_bans s \<noteq> Map.empty \<longrightarrow> en_dns_enabled s)
    \<and> en_backend_attached s = en_dns_enabled s
    \<and> (en_enforcement_mode s = ''enforcing'') = en_dns_enabled s
    \<and> dom (en_applied_bans s) \<subseteq> dom (en_desired_bans s)
    \<and> (\<forall>i b. en_applied_bans s i = Some b \<longrightarrow> be_ban_id b = i
        \<and> \<not> exempt_contains_prefix (en_exempt s) (be_key b))"
proof -
  have "enf_inv s"
    unfolding assms(2) by (rule enforcer.run_inv [OF enf_init_inv]) (simp add: assms(1) steps_ok_const)
  then show ?thesis by (auto simp: enf_inv_def applied_ok_def)
qed

definition demo_cfg :: enf_config where
  "demo_cfg = \<lparr>ec_node_id = ''n1'', ec_enable_dns_name = ''sbc.example'', ec_enable_dns_ip = None,
     ec_apply_snapshot = False\<rparr>"

theorem enforcer_fails_open_witness:
  "let iter = (\<lambda>P. sorted_list_of_set {x :: string. P x});
       s = foldl (enf_step demo_show_ip iter demo_cfg)
             (enf_init demo_show_ip demo_parse_ip show_nat demo_cfg None)
             [EnfDns 5 (Inr [V4 1]),
              EnfEvent 6 \<lparr>ev_index = 1, ev_event = EvBanUpserted (demo_ban ''x'' 8 0)\<rparr>]
   in en_applied_bans s \<noteq> Map.empty \<and> en_dns_enabled s"
proof -
  let ?iter = "\<lambda>P. sorted_list_of_set {x :: string. P x}"
  define s where "s = foldl (enf_step demo_show_ip ?iter demo_cfg)
             (enf_init demo_show_ip demo_parse_ip show_nat demo_cfg None)
             [EnfDns 5 (Inr [V4 1]),
              EnfEvent 6 \<lparr>ev_index = 1, ev_event = EvBanUpserted (demo_ban ''x'' 8 0)\<rparr>]"
  have trim: "trim ''sbc.example'' = ''sbc.example''" by code_simp
  have "en_applied_bans s ''x'' = Some (demo_ban ''x'' 8 0)"
    by (simp add: s_def enf_step_def dns_turn_def dns_update_def case_prod_beta dns_check_value_def demo_cfg_def trim enf_init_def
        enf_event_def demo_ban_def exempt_contains_prefix_def map_values_def map_keys_def Let_def)
  then have "en_applied_bans s \<noteq> Map.empty" by auto
  with enforcer_fails_open [OF iter_ok_sorted s_def] show ?thesis
    unfolding s_def [symmetric] Let_def by blast
qed

section \<open>The node follows the daemon\<close>

text \<open>
  The text form of addresses is the standard library's: distinct addresses are written
  differently, and none is written with a slash.
\<close>

definition show_ip_ok :: "(ip_addr \<Rightarrow> string) \<Rightarrow> bool" where
  "show_ip_ok show_ip \<longleftrightarrow> inj show_ip \<and> (\<forall>a. CHR ''/'' \<notin> set (show_ip a))"

lemma show_nat_inj: "show_nat n = show_nat m \<Longrightarrow> n = m"
  by (metis option.inject parse_digits_show_nat)

lemma to_cidr_inj:
  assumes "show_ip_ok show_ip" "to_cidr_string show_ip p = to_cidr_string show_ip q"
  shows "p = q"
proof -
  have split: "split_once (CHR ''/'') (to_cidr_string show_ip r)
      = Some (show_ip (ipp_addr r), show_nat (ipp_len r))" for r
    using assms(1) split_once_append [of "CHR ''/''" "show_ip (ipp_addr r)"]
    by (simp add: to_cidr_string_def show_ip_ok_def)
  from assms(2) split [of p] split [of q]
  have "show_ip (ipp_addr p) = show_ip (ipp_addr q)" "show_nat (ipp_len p) = show_nat (ipp_len q)"
    by simp_all
  with assms(1) show ?thesis
    by (intro ip_prefix.equality) (auto simp: show_ip_ok_def inj_eq dest: show_nat_inj)
qed

text \<open>The requests after a moment: a ban they set has not expired then.\<close>

definition later_op :: "nat \<Rightarrow> raft_state \<Rightarrow> raft_op \<Rightarrow> bool" where
  "later_op t0 s opn \<longleftrightarrow> raft_op_ok s opn \<and>
     (case opn of RaftAdmin now rnd req \<Rightarrow> t0 \<le> now | RaftReap now \<Rightarrow> True)"

text \<open>
  While the node enforces: what it desires is what the daemon stores, less bans that had
  expired when the snapshot was read at \<open>t0\<close>, and it applies all of that but the exempt.
\<close>

definition unexempt :: "exempt_prefixes \<Rightarrow> (string \<rightharpoonup> ban_entry) \<Rightarrow> (string \<rightharpoonup> ban_entry)" where
  "unexempt ex m = (\<lambda>i. case m i of
     None \<Rightarrow> None | Some e \<Rightarrow> if exempt_contains_prefix ex (be_key e) then None else Some e)"

lemma unexempt_upd [simp]:
  "unexempt ex (m(i \<mapsto> e)) =
     (unexempt ex m)(i := if exempt_contains_prefix ex (be_key e) then None else Some e)"
  "unexempt ex (m(i := None)) = (unexempt ex m)(i := None)"
  by (auto simp: unexempt_def)

definition unexpired :: "nat \<Rightarrow> (string \<rightharpoonup> ban_entry) \<Rightarrow> (string \<rightharpoonup> ban_entry)" where
  "unexpired t0 m = (\<lambda>i. case m i of
     None \<Rightarrow> None | Some e \<Rightarrow> if ban_expired t0 e then None else Some e)"

lemma unexpired_upd [simp]:
  "unexpired t0 (m(i \<mapsto> e)) = (unexpired t0 m)(i := if ban_expired t0 e then None else Some e)"
  "unexpired t0 (m(i := None)) = (unexpired t0 m)(i := None)"
  by (auto simp: unexpired_def)

definition enforcing_rel ::
  "(ip_addr \<Rightarrow> string) \<Rightarrow> nat \<Rightarrow> raft_state \<Rightarrow> enf_state \<Rightarrow> bool" where
  "enforcing_rel show_ip t0 s n \<longleftrightarrow>
     raft_inv show_ip s \<and> en_enforcement_mode n = ''enforcing'' \<and>
     en_desired_bans n = unexpired t0 (rs_bans s) \<and>
     en_applied_bans n = unexempt (en_exempt n) (en_desired_bans n)"

lemma enforcing_relD:
  assumes "enforcing_rel show_ip t0 s n"
  shows "raft_inv show_ip s" "en_enforcement_mode n = ''enforcing''"
    and "en_desired_bans n = unexpired t0 (rs_bans s)"
    and "en_applied_bans n = unexempt (en_exempt n) (en_desired_bans n)"
  using assms by (auto simp: enforcing_rel_def)

lemma upsert_event_enf:
  assumes rel: "enforcing_rel show_ip t0 s n"
    and s': "raft_inv show_ip s'" "rs_bans s' = (rs_bans s)(be_ban_id e \<mapsto> e)"
    and key: "\<And>f. rs_bans s (be_ban_id e) = Some f \<Longrightarrow> be_key f = be_key e"
    and live: "\<not> ban_expired t0 e"
  shows "enforcing_rel show_ip t0 s'
    (fst (enf_event iter cfg now n \<lparr>ev_index = x, ev_event = EvBanUpserted e\<rparr>))"
proof -
  have "unexempt (en_exempt n) (en_desired_bans n) (be_ban_id e) = None"
    if "exempt_contains_prefix (en_exempt n) (be_key e)"
    using enforcing_relD(3) [OF rel] key that
    by (auto simp: unexempt_def unexpired_def split: option.splits)
  then show ?thesis
    using rel s' live by (auto simp: enforcing_rel_def enf_event_def Let_def fun_upd_idem)
qed

lemma delete_event_enf:
  assumes "enforcing_rel show_ip t0 s n"
    and "raft_inv show_ip s'" "rs_bans s' = (rs_bans s)(i := None)"
  shows "enforcing_rel show_ip t0 s'
    (fst (enf_event iter cfg now n \<lparr>ev_index = x, ev_event = EvBanDeleted i\<rparr>))"
  using assms by (auto simp: enforcing_rel_def enf_event_def Let_def)

lemma other_event_enf:
  assumes "enforcing_rel show_ip t0 s n" "raft_inv show_ip s'" "rs_bans s' = rs_bans s"
    and "case ev of EvSnapshot _ _ \<Rightarrow> False | EvBanUpserted _ \<Rightarrow> False | EvBanDeleted _ \<Rightarrow> False | _ \<Rightarrow> True"
  shows "enforcing_rel show_ip t0 s' (fst (enf_event iter cfg now n \<lparr>ev_index = x, ev_event = ev\<rparr>))"
  using assms by (cases ev) (auto simp: enforcing_rel_def enf_event_def Let_def)

lemma reap_ids_enf:
  assumes "enforcing_rel show_ip t0 s n"
  shows "enforcing_rel show_ip t0 (fst (reap_ids show_ip ids s))
    (foldl (\<lambda>n ev. fst (enf_event iter cfg now n ev)) n (snd (reap_ids show_ip ids s)))"
  using assms
proof (induction ids arbitrary: s n)
  case (Cons i ids)
  have "enforcing_rel show_ip t0 (fst (remove_ban show_ip i s))
      (fst (enf_event iter cfg now n (snd (remove_ban show_ip i s))))"
    unfolding remove_ban_ev
    using Cons.prems by (intro delete_event_enf [of _ _ s])
      (auto simp: enforcing_relD(1) remove_ban_inv)
  from Cons.IH [OF this] show ?case by (simp add: case_prod_beta Let_def)
qed simp

lemma upsert_ban_event:
  assumes ok: "show_ip_ok show_ip" "raft_inv show_ip s" "rs_bans s (rand_hex_16 rnd) = None"
    and up: "upsert_ban show_ip parse_ip now rnd key ttl creator reason s = Some (s', resp, ev)"
  obtains e where "ev = Some \<lparr>ev_index = rs_next_index s, ev_event = EvBanUpserted e\<rparr>"
    and "rs_bans s' = (rs_bans s)(be_ban_id e \<mapsto> e)"
    and "\<And>f. rs_bans s (be_ban_id e) = Some f \<Longrightarrow> be_key f = be_key e"
    and "be_expires_at_unix e = (if ttl = 0 then 0 else sat_add64 now ttl)"
proof -
  from up obtain p where p: "parse_cidr parse_ip key = Some p"
    by (auto simp: upsert_ban_def split: option.splits)
  from ok(2) have b: "ban_maps_ok show_ip (rs_bans s) (rs_ban_by_key s)"
    by (simp add: raft_inv_def bans_ok_def)
  show thesis
  proof (cases "rs_ban_by_key s (to_cidr_string show_ip p)")
    case None
    with up p ok(3) show thesis
      by (intro that) (auto simp: upsert_ban_def Let_def)
  next
    case (Some i)
    then have "be_key f = p" if "rs_bans s i = Some f" for f
      using ban_mapsD(4) [OF b Some] that to_cidr_inj [OF ok(1)] by auto
    with up p Some show thesis
      by (intro that) (auto simp: upsert_ban_def Let_def)
  qed
qed

lemma enf_step_sim:
  assumes show_ip: "show_ip_ok show_ip"
    and rel: "enforcing_rel show_ip t0 s n" and later: "later_op t0 s opn" and t0: "t0 < u64_max"
    and step: "raft_step show_ip parse_ip iter s opn = (s', evs)"
  shows "enforcing_rel show_ip t0 s' (foldl (\<lambda>n ev. fst (enf_event iter' cfg now n ev)) n evs)"
proof -
  note inv = enforcing_relD(1) [OF rel]
  have ok: "raft_op_ok s opn" using later by (simp add: later_op_def)
  have inv': "raft_inv show_ip s'"
    using raft_step_inv [OF inv ok, of parse_ip iter] step by simp
  show ?thesis
  proof (cases opn)
    case (RaftReap t)
    with step reap_ids_enf [OF rel] show ?thesis
      by (metis fst_conv raft_op.simps(6) raft_step_def reap_def snd_conv)
  next
    case (RaftAdmin t rnd req)
    show ?thesis
    proof (cases "admin_step show_ip parse_ip iter t rnd s req")
      case None
      with RaftAdmin step rel show ?thesis by (simp add: raft_step_def)
    next
      case (Some r)
      then obtain resp ev where a: "admin_step show_ip parse_ip iter t rnd s req = Some (s', resp, ev)"
        and evs: "evs = (case ev of None \<Rightarrow> [] | Some e \<Rightarrow> [e])"
        using RaftAdmin step by (cases r) (auto simp: raft_step_def)
      show ?thesis
      proof (cases req)
        case (UpsertBan key ttl creator reason)
        have fresh: "rs_bans s (rand_hex_16 rnd) = None"
          using ok RaftAdmin UpsertBan by (simp add: raft_op_ok_def)
        have "upsert_ban show_ip parse_ip t rnd key ttl creator reason s = Some (s', resp, ev)"
          using a UpsertBan by (simp add: admin_step_def)
        from upsert_ban_event [OF show_ip inv fresh this] obtain e where
          "ev = Some \<lparr>ev_index = rs_next_index s, ev_event = EvBanUpserted e\<rparr>"
          "rs_bans s' = (rs_bans s)(be_ban_id e \<mapsto> e)"
          "\<And>f. rs_bans s (be_ban_id e) = Some f \<Longrightarrow> be_key f = be_key e"
          and ex: "be_expires_at_unix e = (if ttl = 0 then 0 else sat_add64 t ttl)" by blast
        moreover have "\<not> ban_expired t0 e"
          using later t0 RaftAdmin by (auto simp: ban_expired_def ex later_op_def sat_add64_def)
        ultimately show ?thesis using upsert_event_enf [OF rel inv'] by (simp add: evs)
      next
        case (DeleteBan i)
        then have "s' = fst (remove_ban show_ip i s)" "ev = Some (snd (remove_ban show_ip i s))"
          using a by (auto simp: admin_step_def delete_ban_def case_prod_beta Let_def)
        then show ?thesis
          using delete_event_enf [OF rel inv'] by (simp add: evs remove_ban_ev)
      qed (use a evs rel inv' in \<open>auto simp: admin_step_def upsert_legal_hold_def delete_legal_hold_def
        report_enforcement_status_def report_ban_apply_result_def get_state_def Let_def
        intro!: other_event_enf [of _ _ s] split: if_splits\<close>)
    qed
  qed
qed

interpretation enf_replica: event_replica "raft_step show_ip parse_ip iter"
  "\<lambda>n ev. fst (enf_event iter cfg now n ev)"
  "\<lambda>s n. (show_ip_ok show_ip \<and> t0 < u64_max) \<and> enforcing_rel show_ip t0 s n" "later_op t0"
  for show_ip parse_ip iter cfg now t0
  by unfold_locales (blast intro: enf_step_sim)

lemma snapshot_enf:
  assumes "iter_ok iter" "raft_inv show_ip s" "en_enforcement_mode n = ''enforcing''"
  shows "enforcing_rel show_ip t0 s (fst (enf_event iter cfg t0 n (raft_snapshot iter s)))"
proof -
  define d where "d = map_by_key be_ban_id
    (filter (\<lambda>b. \<not> ban_expired t0 b) (map_values iter (rs_bans s)))"
  from assms(2) have b: "ban_maps_ok show_ip (rs_bans s) (rs_ban_by_key s)"
    by (simp add: raft_inv_def bans_ok_def)
  have ids: "ids_ok (rs_bans s)"
    using ban_mapsD(1,5) [OF b] by (auto simp: ids_ok_def)
  have d: "d i = (case rs_bans s i of None \<Rightarrow> None
      | Some e \<Rightarrow> if \<not> ban_expired t0 e then Some e else None)" for i
    unfolding d_def by (rule ids_ok_values [OF assms(1) ids])
  have "ids_ok d" unfolding d_def by (rule ids_ok_map_by_key)
  then have "map_by_key be_ban_id (filter (\<lambda>b. \<not> exempt_contains_prefix (en_exempt n) (be_key b))
      (map_values iter d)) i = unexempt (en_exempt n) d i" for i
    by (simp add: ids_ok_values [OF assms(1)] unexempt_def split: option.splits)
  then have a: "map_by_key be_ban_id (filter (\<lambda>b. \<not> exempt_contains_prefix (en_exempt n) (be_key b))
      (map_values iter d)) = unexempt (en_exempt n) d"
    by (rule ext)
  have "d = unexpired t0 (rs_bans s)" by (auto simp: d unexpired_def fun_eq_iff split: option.split)
  with assms(2,3) a show ?thesis
    by (simp add: enforcing_rel_def enf_event_def raft_snapshot_def Let_def d_def [symmetric])
qed

text \<open>
  C32. While it enforces, the node applies exactly the daemon's bans: after the snapshot, read at
  \<open>t0\<close>, and all events of any further run of the daemon at that time or later, the bans applied are
  those the daemon stores, as it stores them, less those that had expired at \<open>t0\<close> and those inside an
  exempt prefix. A ban that expires later stays until the daemon's reaper deletes it.
\<close>

theorem enforcer_applies_stored_bans:
  assumes "show_ip_ok show_ip" "iter_ok iter" "raft_inv show_ip s" "t0 < u64_max"
    and "run_ok (raft_step show_ip parse_ip iter) (later_op t0) s ops"
    and "run_src (raft_step show_ip parse_ip iter) s ops = (s', evs)"
    and "en_enforcement_mode n = ''enforcing''"
    and "n' = foldl (\<lambda>n ev. fst (enf_event iter cfg t0 n ev)) n
      (subscriber_stream show_ip parse_ip iter SubSnapshot s [] ops)"
  shows "en_applied_bans n' = unexempt (en_exempt n') (unexpired t0 (rs_bans s'))"
proof -
  let ?n1 = "fst (enf_event iter cfg t0 n (raft_snapshot iter s))"
  have "enforcing_rel show_ip t0 s ?n1" by (rule snapshot_enf [OF assms(2,3,7)])
  with assms(1,4) have "(show_ip_ok show_ip \<and> t0 < u64_max) \<and> enforcing_rel show_ip t0 s ?n1" by simp
  from enf_replica.run_sim [OF this assms(5,6)]
  have "enforcing_rel show_ip t0 s' (foldl (\<lambda>n ev. fst (enf_event iter cfg t0 n ev)) ?n1 evs)" by blast
  moreover have "n' = foldl (\<lambda>n ev. fst (enf_event iter cfg t0 n ev)) ?n1 evs"
    using assms(6,8) by (simp add: subscriber_stream_def Let_def)
  ultimately have rel: "enforcing_rel show_ip t0 s' n'" by simp
  show ?thesis unfolding enforcing_relD(4) [OF rel] enforcing_relD(3) [OF rel] ..
qed

definition strict_show_ip :: "ip_addr \<Rightarrow> string" where
  "strict_show_ip a = (case a of V4 w \<Rightarrow> CHR ''4'' # show_nat (unat w) | V6 w \<Rightarrow> CHR ''6'' # show_nat (unat w))"

lemma enf_event_exempt [simp]: "en_exempt (fst (enf_event iter cfg now n ev)) = en_exempt n"
  using enf_step_exempt [of undefined iter cfg n "EnfEvent now ev"] by (simp add: enf_step_def)

lemma enf_events_exempt:
  "en_exempt (foldl (\<lambda>n ev. fst (enf_event iter cfg now n ev)) n evs) = en_exempt n"
  by (induction evs arbitrary: n) simp_all

lemma strict_show_ip_ok: "show_ip_ok strict_show_ip"
proof -
  have "inj strict_show_ip"
  proof (rule injI)
    fix x y assume "strict_show_ip x = strict_show_ip y"
    then show "x = y"
      by (cases x; cases y)
        (auto simp: strict_show_ip_def intro: unsigned_word_eqI dest!: show_nat_inj)
  qed
  moreover have no: "CHR ''/'' \<notin> set (show_nat n)" for n
    using show_nat_digits [of n] by (auto simp: is_ascii_digit_def)
  have "CHR ''/'' \<notin> set (strict_show_ip a)" for a
    by (cases a) (simp_all add: strict_show_ip_def no)
  ultimately show ?thesis by (simp add: show_ip_ok_def)
qed

text \<open>
  For the example: a ban that has expired when the snapshot is read at 5, and two that are set at 10,
  one of them inside the exempt prefix.
\<close>

definition enf_demo_before :: "raft_op list" where
  "enf_demo_before = [RaftAdmin 1 [1] (UpsertBan ''10.0.0.0/8'' 2 ''a'' ''r'')]"

definition enf_demo_after :: "raft_op list" where
  "enf_demo_after =
     [RaftAdmin 10 [2] (UpsertBan ''10.0.0.0/16'' 60 ''a'' ''r''),
      RaftAdmin 10 [3] (UpsertBan ''10.0.0.0/24'' 0 ''a'' ''r'')]"

definition enf_demo_net :: "nat \<Rightarrow> ip_prefix" where
  "enf_demo_net len = \<lparr>ipp_addr = V4 0x0A000000, ipp_len = len\<rparr>"

lemma enf_demo_parse:
  "parse_cidr demo_parse_ip ''10.0.0.0/8'' = Some (enf_demo_net 8)"
  "parse_cidr demo_parse_ip ''10.0.0.0/16'' = Some (enf_demo_net 16)"
  "parse_cidr demo_parse_ip ''10.0.0.0/24'' = Some (enf_demo_net 24)"
  by code_simp+

lemma enf_demo_cidr:
  "to_cidr_string strict_show_ip (enf_demo_net a) = to_cidr_string strict_show_ip (enf_demo_net b) \<longleftrightarrow> a = b"
  using to_cidr_inj [OF strict_show_ip_ok, of "enf_demo_net a" "enf_demo_net b"] by (auto simp: enf_demo_net_def)

lemma enf_demo_exempt:
  "exempt_contains_prefix [enf_demo_net 24] (enf_demo_net 24)"
  "\<not> exempt_contains_prefix [enf_demo_net 24] (enf_demo_net 16)"
  by (simp_all add: exempt_contains_prefix_def ipp_contains_prefix_def ipp_contains_ip_def enf_demo_net_def)

theorem enforcer_applies_stored_bans_witness:
  "\<exists>(s' :: raft_state) (n' :: enf_state). rs_bans s' ''01'' \<noteq> None \<and> rs_bans s' ''03'' \<noteq> None
     \<and> dom (en_applied_bans n') = {''02''} \<and> en_applied_bans n' ''02'' = rs_bans s' ''02''"
proof -
  let ?iter = "\<lambda>P. sorted_list_of_set {x :: string. P x}"
  let ?step = "raft_step strict_show_ip demo_parse_ip ?iter"
  let ?n = "enf_init strict_show_ip demo_parse_ip show_nat demo_cfg None
    \<lparr>en_enforcement_mode := ''enforcing'', en_exempt := [enf_demo_net 24]\<rparr>"
  define s where "s = foldl (\<lambda>s opn. fst (?step s opn)) raft_empty enf_demo_before"
  obtain s' evs where run: "run_src ?step s enf_demo_after = (s', evs)"
    by (cases "run_src ?step s enf_demo_after")
  define n' where "n' = foldl (\<lambda>n ev. fst (enf_event ?iter demo_cfg 5 n ev)) ?n
      (subscriber_stream strict_show_ip demo_parse_ip ?iter SubSnapshot s [] enf_demo_after)"
  note ev = raft_step_def admin_step_def upsert_ban_def enf_demo_parse enf_demo_cidr demo_parse(3-5)
    raft_empty_def bump_index_def Let_def
  have s: "rs_bans s = [''01'' \<mapsto> \<lparr>be_ban_id = ''01'', be_key = enf_demo_net 8, be_created_at_unix = 1,
      be_created_by = ''a'', be_reason = ''r'', be_expires_at_unix = sat_add64 1 2\<rparr>]"
      "rs_ban_by_key s = [to_cidr_string strict_show_ip (enf_demo_net 8) \<mapsto> ''01'']"
    by (simp_all add: s_def enf_demo_before_def ev)
  have inv: "raft_inv strict_show_ip s"
    unfolding s_def enf_demo_before_def
    using raft_step_inv [OF raft_empty_inv] by (simp add: raft_op_ok_def raft_empty_def)
  have ok: "run_ok ?step (later_op 5) s enf_demo_after"
    by (simp add: enf_demo_after_def later_op_def raft_op_ok_def s ev)
  have mode: "en_enforcement_mode ?n = ''enforcing''" "(5 :: nat) < u64_max" by (simp_all add: u64_max_def)
  note res = enforcer_applies_stored_bans
    [OF strict_show_ip_ok iter_ok_sorted inv mode(2) ok run mode(1) n'_def]
  have s': "rs_bans s' = (rs_bans s)(''02'' \<mapsto> \<lparr>be_ban_id = ''02'', be_key = enf_demo_net 16,
        be_created_at_unix = 10, be_created_by = ''a'', be_reason = ''r'', be_expires_at_unix = sat_add64 10 60\<rparr>,
      ''03'' \<mapsto> \<lparr>be_ban_id = ''03'', be_key = enf_demo_net 24,
        be_created_at_unix = 10, be_created_by = ''a'', be_reason = ''r'', be_expires_at_unix = 0\<rparr>)"
    using run by (auto simp: enf_demo_after_def ev s)
  have "en_exempt n' = [enf_demo_net 24]" by (simp add: n'_def enf_events_exempt)
  moreover have "unexpired 5 Map.empty = Map.empty" "unexempt ex Map.empty = Map.empty" for ex
    by (simp_all add: unexpired_def unexempt_def)
  moreover have "sat_add64 1 2 = 3" "sat_add64 10 60 = 70" by (simp_all add: sat_add64_def u64_max_def)
  ultimately have "en_applied_bans n' =
      (Map.empty(''01'' := None, ''02'' := rs_bans s' ''02'', ''03'' := None) :: string \<rightharpoonup> ban_entry)"
    unfolding res s' s
    by (simp add: enf_demo_exempt ban_expired_def del: fun_upd_apply) simp?
  moreover obtain b where b: "rs_bans s' ''02'' = Some b" by (simp add: s')
  ultimately have a: "en_applied_bans n' = Map.empty(''01'' := None, ''02'' \<mapsto> b, ''03'' := None)" by simp
  have "dom (en_applied_bans n') = {''02''}" by (simp add: a dom_fun_upd del: fun_upd_apply)
  moreover have "en_applied_bans n' ''02'' = rs_bans s' ''02''" by (simp add: a b)
  moreover have "rs_bans s' ''01'' \<noteq> None \<and> rs_bans s' ''03'' \<noteq> None" by (simp add: s' s)
  ultimately show ?thesis by blast
qed

end
