(* ===== verification/Items.thy ===== *)
theory Items
  imports Interfaces
begin

text \<open>
  \<open>apps/shard_01/src/items.rs\<close>: sizes, equipment slots, armour classes and the table of the
  items the game defines, with the lookups by name and by token.
\<close>

datatype item_size = Small | Medium | Large

fun size_as_str :: "item_size \<Rightarrow> string" where
  "size_as_str Small = ''small''"
| "size_as_str Medium = ''medium''"
| "size_as_str Large = ''large''"

datatype equip_slot =
    SlotWield | SlotShield | SlotHead | SlotBody | SlotLegs | SlotFeet | SlotHands | SlotArms

definition equip_slot_all :: "equip_slot list" where
  "equip_slot_all =
     [SlotWield, SlotShield, SlotHead, SlotBody, SlotArms, SlotHands, SlotLegs, SlotFeet]"

fun equip_slot_as_str :: "equip_slot \<Rightarrow> string" where
  "equip_slot_as_str SlotWield = ''wield''"
| "equip_slot_as_str SlotShield = ''shield''"
| "equip_slot_as_str SlotHead = ''head''"
| "equip_slot_as_str SlotBody = ''body''"
| "equip_slot_as_str SlotLegs = ''legs''"
| "equip_slot_as_str SlotFeet = ''feet''"
| "equip_slot_as_str SlotHands = ''hands''"
| "equip_slot_as_str SlotArms = ''arms''"

definition equip_slot_parse :: "string \<Rightarrow> equip_slot option" where
  "equip_slot_parse token = map_of
     [(''wield'', SlotWield), (''weapon'', SlotWield), (''mainhand'', SlotWield),
      (''main-hand'', SlotWield), (''shield'', SlotShield), (''offhand'', SlotShield),
      (''off-hand'', SlotShield), (''head'', SlotHead), (''helm'', SlotHead),
      (''helmet'', SlotHead), (''body'', SlotBody), (''torso'', SlotBody), (''chest'', SlotBody),
      (''armor'', SlotBody), (''armour'', SlotBody), (''legs'', SlotLegs), (''pants'', SlotLegs),
      (''trousers'', SlotLegs), (''feet'', SlotFeet), (''boots'', SlotFeet), (''shoes'', SlotFeet),
      (''hands'', SlotHands), (''hand'', SlotHands), (''gloves'', SlotHands),
      (''gauntlets'', SlotHands), (''arms'', SlotArms), (''sleeves'', SlotArms)]
     (norm_key token)"

datatype armor_class = ArmorCloth | ArmorLeather | ArmorMail | ArmorPlate | ArmorShield

fun armor_class_as_str :: "armor_class \<Rightarrow> string" where
  "armor_class_as_str ArmorCloth = ''cloth''"
| "armor_class_as_str ArmorLeather = ''leather''"
| "armor_class_as_str ArmorMail = ''mail''"
| "armor_class_as_str ArmorPlate = ''plate''"
| "armor_class_as_str ArmorShield = ''shield''"

text \<open>A weapon's damage range, an armour's slot, value and class, a consumable's healing.\<close>

datatype item_kind =
    Weapon int int
  | Armor equip_slot int armor_class
  | Consumable int
  | Misc

record item_def =
  it_name :: string
  it_aliases :: "string list"
  it_size :: "item_size option"
  it_kind :: item_kind
  it_description :: string

definition matches_token :: "item_def \<Rightarrow> string \<Rightarrow> bool" where
  "matches_token d token =
     (let t = norm_key token in
      if t = [] then False
      else
        let name_lc = to_ascii_lowercase (it_name d) in
        if name_lc = t \<or> prefix t name_lc then True
        else list_ex (\<lambda>a. eq_ignore_ascii_case a t) (it_aliases d))"

definition item_equip_slot :: "item_def \<Rightarrow> equip_slot option" where
  "item_equip_slot d =
     (case it_kind d of
        Weapon _ _ \<Rightarrow> Some SlotWield
      | Armor slot _ _ \<Rightarrow> Some slot
      | Consumable _ \<Rightarrow> None
      | Misc \<Rightarrow> None)"

definition items_table :: "item_def list" where
  "items_table =
    [\<lparr>it_name = ''stenchpouch'', it_aliases = [''stench'', ''pouch'', ''stench pouch''],
      it_size = None, it_kind = Misc,
      it_description = (''a waxed pouch of compressed stench.'' @ [CHR 0x0A] @ [CHR 0x0A] @ ''it is unpleasantly warm.'' @ [CHR 0x0A])\<rparr>,
     \<lparr>it_name = ''field bandage'', it_aliases = [''bandage'', ''bandages'', ''field'', ''heal'', ''healing''],
      it_size = None, it_kind = Consumable 6,
      it_description = (''a disposable field bandage.'' @ [CHR 0x0A] @ [CHR 0x0A] @ ''you can `use` it.'' @ [CHR 0x0A])\<rparr>,
     \<lparr>it_name = ''practice sword (small)'', it_aliases = [''sword'', ''practice sword'', ''blade''],
      it_size = Some Small, it_kind = Weapon 2 5,
      it_description = (''a training sword with a dull edge.'' @ [CHR 0x0A])\<rparr>,
     \<lparr>it_name = ''practice sword (medium)'', it_aliases = [''sword'', ''practice sword'', ''blade''],
      it_size = Some Medium, it_kind = Weapon 2 5,
      it_description = (''a training sword with a dull edge.'' @ [CHR 0x0A])\<rparr>,
     \<lparr>it_name = ''wooden buckler (small)'', it_aliases = [''buckler'', ''shield''],
      it_size = Some Small, it_kind = Armor SlotShield 1 ArmorShield,
      it_description = (''a light wooden buckler.'' @ [CHR 0x0A])\<rparr>,
     \<lparr>it_name = ''wooden buckler (medium)'', it_aliases = [''buckler'', ''shield''],
      it_size = Some Medium, it_kind = Armor SlotShield 1 ArmorShield,
      it_description = (''a light wooden buckler.'' @ [CHR 0x0A])\<rparr>,
     \<lparr>it_name = ''training tunic (small)'', it_aliases = [''tunic'', ''shirt'', ''armor'', ''armour'', ''training tunic''],
      it_size = Some Small, it_kind = Armor SlotBody 2 ArmorCloth,
      it_description = (''a padded training tunic.'' @ [CHR 0x0A])\<rparr>,
     \<lparr>it_name = ''training tunic (medium)'', it_aliases = [''tunic'', ''shirt'', ''armor'', ''armour'', ''training tunic''],
      it_size = Some Medium, it_kind = Armor SlotBody 2 ArmorCloth,
      it_description = (''a padded training tunic.'' @ [CHR 0x0A])\<rparr>,
     \<lparr>it_name = ''training boots (small)'', it_aliases = [''boots'', ''shoes'', ''training boots''],
      it_size = Some Small, it_kind = Armor SlotFeet 1 ArmorLeather,
      it_description = (''scuffed training boots.'' @ [CHR 0x0A])\<rparr>,
     \<lparr>it_name = ''training boots (medium)'', it_aliases = [''boots'', ''shoes'', ''training boots''],
      it_size = Some Medium, it_kind = Armor SlotFeet 1 ArmorLeather,
      it_description = (''scuffed training boots.'' @ [CHR 0x0A])\<rparr>,
     \<lparr>it_name = ''training gloves'', it_aliases = [''gloves'', ''gauntlets'', ''hands''],
      it_size = None, it_kind = Armor SlotHands 1 ArmorLeather,
      it_description = (''thin gloves meant to keep you from leaving blood on the rack.'' @ [CHR 0x0A])\<rparr>]"

definition find_item_def :: "string \<Rightarrow> item_def option" where
  "find_item_def name =
     (let t = trim name in
      if t = [] then None
      else find (\<lambda>d. eq_ignore_ascii_case (it_name d) t) items_table)"

section \<open>Tokens and the table\<close>

lemma equip_slot_tokens:
  "list_all (\<lambda>s. equip_slot_parse (equip_slot_as_str s) = Some s) equip_slot_all"
  by code_simp

lemma equip_slot_all_set: "s \<in> set equip_slot_all"
  by (cases s) (simp_all add: equip_slot_all_def)

interpretation slots: token_enum equip_slot_all equip_slot_as_str equip_slot_parse
proof
  show "equip_slot_parse (equip_slot_as_str s) = Some s" for s
    using equip_slot_tokens equip_slot_all_set [of s] by (auto simp: list_all_iff)
qed (simp_all add: equip_slot_all_set equip_slot_parse_def)

lemma items_names_distinct: "distinct (map (\<lambda>d. to_ascii_lowercase (it_name d)) items_table)"
  by code_simp

lemma items_trimmed: "list_all (\<lambda>d. trim (it_name d) = it_name d \<and> it_name d \<noteq> []) items_table"
  by code_simp

text \<open>Looking an item up by its own name, in any case and padding, finds that item.\<close>

lemma find_distinct_key:
  "distinct (map f xs) \<Longrightarrow> x \<in> set xs \<Longrightarrow> find (\<lambda>y. f y = f x) xs = Some x"
  by (induction xs) auto

lemma find_item_def_name:
  assumes "d \<in> set items_table" "norm_key s = to_ascii_lowercase (it_name d)"
  shows "find_item_def s = Some d"
proof -
  have "it_name d \<noteq> []" using assms(1) items_trimmed by (simp add: list_all_iff)
  then have "norm_key s \<noteq> []" using assms(2) by simp
  then have "trim s \<noteq> []" by (auto simp: norm_key_def trim_lower)
  moreover have "eq_ignore_ascii_case (it_name x) (trim s) \<longleftrightarrow>
      to_ascii_lowercase (it_name x) = to_ascii_lowercase (it_name d)" for x :: item_def
    using assms(2) by (simp add: eq_ignore_ascii_case_def norm_key_def trim_lower)
  ultimately show ?thesis
    using find_distinct_key [OF items_names_distinct assms(1)] by (simp add: find_item_def_def)
qed

lemma find_item_def_SomeD: "find_item_def s = Some d \<Longrightarrow> d \<in> set items_table"
  by (auto simp: find_item_def_def Let_def find_Some_iff split: if_splits)

end
