(* ===== verification/CharData.thy ===== *)
theory CharData
  imports Items "HOL-Library.Multiset"
begin

text \<open>
  The rules of characters in \<open>apps/shard_01/src/main.rs\<close>: races, sexes, pronouns and classes
  with their tokens, ability scores, the table of skills, the derived numbers (hit points,
  mana, stamina, skill amounts, experience), and the pseudo-random generator.
\<close>

section \<open>Races, sexes, pronouns, classes\<close>

datatype race =
    Dragonborn | Dwarf | Elf | Gnome | Goliath | Halfling | Human | Orc | Tiefling

definition race_all :: "race list" where
  "race_all = [Dragonborn, Dwarf, Elf, Gnome, Goliath, Halfling, Human, Orc, Tiefling]"

fun race_as_str :: "race \<Rightarrow> string" where
  "race_as_str Dragonborn = ''dragonborn''"
| "race_as_str Dwarf = ''dwarf''"
| "race_as_str Elf = ''elf''"
| "race_as_str Gnome = ''gnome''"
| "race_as_str Goliath = ''goliath''"
| "race_as_str Halfling = ''halfling''"
| "race_as_str Human = ''human''"
| "race_as_str Orc = ''orc''"
| "race_as_str Tiefling = ''tiefling''"

definition race_parse :: "string \<Rightarrow> race option" where
  "race_parse s = map_of
     [(''dragonborn'', Dragonborn), (''dwarf'', Dwarf), (''elf'', Elf), (''gnome'', Gnome),
      (''goliath'', Goliath), (''halfling'', Halfling), (''human'', Human), (''orc'', Orc),
      (''tiefling'', Tiefling)] (norm_key s)"

definition race_size :: "race \<Rightarrow> item_size" where
  "race_size r = (if r = Gnome \<or> r = Halfling then Small else Medium)"

datatype sex = SexMale | SexFemale | SexNone | SexOther

definition sex_parse :: "string \<Rightarrow> sex option" where
  "sex_parse s = map_of
     [(''male'', SexMale), (''female'', SexFemale), (''none'', SexNone), (''other'', SexOther)]
     (norm_key s)"

fun sex_as_str :: "sex \<Rightarrow> string" where
  "sex_as_str SexMale = ''male''"
| "sex_as_str SexFemale = ''female''"
| "sex_as_str SexNone = ''none''"
| "sex_as_str SexOther = ''other''"

datatype pronoun_key = PronHe | PronShe | PronThey

definition pronoun_parse :: "string \<Rightarrow> pronoun_key option" where
  "pronoun_parse s = map_of
     [(''he'', PronHe), (''him'', PronHe), (''she'', PronShe), (''her'', PronShe),
      (''they'', PronThey), (''them'', PronThey)] (norm_key s)"

fun default_for_sex :: "sex \<Rightarrow> pronoun_key" where
  "default_for_sex SexMale = PronHe"
| "default_for_sex SexFemale = PronShe"
| "default_for_sex SexNone = PronThey"
| "default_for_sex SexOther = PronThey"

fun pronoun_as_str :: "pronoun_key \<Rightarrow> string" where
  "pronoun_as_str PronHe = ''he''"
| "pronoun_as_str PronShe = ''she''"
| "pronoun_as_str PronThey = ''they''"

datatype char_class =
    Barbarian | Bard | Cleric | Druid | Fighter | Monk | Paladin | Ranger | Rogue | Sorcerer
  | Warlock | Wizard

definition class_all :: "char_class list" where
  "class_all = [Barbarian, Bard, Cleric, Druid, Fighter, Monk, Paladin, Ranger, Rogue, Sorcerer,
     Warlock, Wizard]"

fun class_as_str :: "char_class \<Rightarrow> string" where
  "class_as_str Barbarian = ''barbarian''"
| "class_as_str Bard = ''bard''"
| "class_as_str Cleric = ''cleric''"
| "class_as_str Druid = ''druid''"
| "class_as_str Fighter = ''fighter''"
| "class_as_str Monk = ''monk''"
| "class_as_str Paladin = ''paladin''"
| "class_as_str Ranger = ''ranger''"
| "class_as_str Rogue = ''rogue''"
| "class_as_str Sorcerer = ''sorcerer''"
| "class_as_str Warlock = ''warlock''"
| "class_as_str Wizard = ''wizard''"

definition class_parse :: "string \<Rightarrow> char_class option" where
  "class_parse s = map_of
     [(''barbarian'', Barbarian), (''bard'', Bard), (''cleric'', Cleric), (''druid'', Druid),
      (''fighter'', Fighter), (''monk'', Monk), (''paladin'', Paladin), (''ranger'', Ranger),
      (''rogue'', Rogue), (''sorcerer'', Sorcerer), (''warlock'', Warlock), (''wizard'', Wizard)]
     (norm_key s)"

fun hit_die :: "char_class \<Rightarrow> int" where
  "hit_die Barbarian = 12"
| "hit_die Fighter = 10"
| "hit_die Paladin = 10"
| "hit_die Ranger = 10"
| "hit_die Sorcerer = 6"
| "hit_die Wizard = 6"
| "hit_die _ = 8"

datatype ability = AStr | ADex | ACon | AInt | AWis | ACha

definition attack_ability :: "char_class \<Rightarrow> ability" where
  "attack_ability c = (if c = Monk \<or> c = Rogue \<or> c = Ranger then ADex else AStr)"

definition weapon_die :: "char_class \<Rightarrow> int" where
  "weapon_die c =
     (if c = Barbarian \<or> c = Fighter \<or> c = Paladin \<or> c = Ranger then 10
      else if c = Monk \<or> c = Rogue then 8
      else 6)"

section \<open>Ability scores\<close>

record ability_scores =
  ab_str :: int
  ab_dex :: int
  ab_con :: int
  ab_int :: int
  ab_wis :: int
  ab_cha :: int

definition baseline_scores :: ability_scores where
  "baseline_scores =
     \<lparr>ab_str = 10, ab_dex = 10, ab_con = 10, ab_int = 10, ab_wis = 10, ab_cha = 10\<rparr>"

fun score_get :: "ability_scores \<Rightarrow> ability \<Rightarrow> int" where
  "score_get s AStr = ab_str s"
| "score_get s ADex = ab_dex s"
| "score_get s ACon = ab_con s"
| "score_get s AInt = ab_int s"
| "score_get s AWis = ab_wis s"
| "score_get s ACha = ab_cha s"

fun score_set :: "ability_scores \<Rightarrow> ability \<Rightarrow> int \<Rightarrow> ability_scores" where
  "score_set s AStr v = s\<lparr>ab_str := v\<rparr>"
| "score_set s ADex v = s\<lparr>ab_dex := v\<rparr>"
| "score_set s ACon v = s\<lparr>ab_con := v\<rparr>"
| "score_set s AInt v = s\<lparr>ab_int := v\<rparr>"
| "score_set s AWis v = s\<lparr>ab_wis := v\<rparr>"
| "score_set s ACha v = s\<lparr>ab_cha := v\<rparr>"

definition mod_for :: "ability_scores \<Rightarrow> ability \<Rightarrow> int" where
  "mod_for s a = wrap_i32 (score_get s a - 10) div 2"

fun class_priority :: "char_class \<Rightarrow> ability list" where
  "class_priority Barbarian = [AStr, ACon, ADex, AWis, ACha, AInt]"
| "class_priority Bard = [ACha, ADex, ACon, AInt, AWis, AStr]"
| "class_priority Cleric = [AWis, ACon, AStr, ACha, ADex, AInt]"
| "class_priority Druid = [AWis, ACon, ADex, AInt, ACha, AStr]"
| "class_priority Fighter = [AStr, ACon, ADex, AWis, ACha, AInt]"
| "class_priority Monk = [ADex, AWis, ACon, AStr, AInt, ACha]"
| "class_priority Paladin = [AStr, ACha, ACon, AWis, ADex, AInt]"
| "class_priority Ranger = [ADex, AWis, ACon, AStr, AInt, ACha]"
| "class_priority Rogue = [ADex, AInt, ACon, AWis, ACha, AStr]"
| "class_priority Sorcerer = [ACha, ACon, ADex, AWis, AInt, AStr]"
| "class_priority Warlock = [ACha, ACon, ADex, AWis, AInt, AStr]"
| "class_priority Wizard = [AInt, ACon, ADex, AWis, ACha, AStr]"

text \<open>The standard array is dealt out in the order of the class's priorities.\<close>

definition assign_core_stats_for_class :: "char_class \<Rightarrow> ability_scores" where
  "assign_core_stats_for_class c =
     fst (foldl (\<lambda>(scores, arr) a. (score_set scores a (hd arr), tl arr))
       (baseline_scores, [15, 14, 13, 12, 10, 8]) (class_priority c))"

definition compute_max_hp :: "char_class \<Rightarrow> ability_scores \<Rightarrow> int" where
  "compute_max_hp c scores = max (wrap_i32 (hit_die c + mod_for scores ACon)) 1"

text \<open>\<open>level.max(1) as i32\<close>, and the arithmetic of \<open>i32\<close> on it.\<close>

definition as_i32 :: "nat \<Rightarrow> int" where
  "as_i32 n = wrap_i32 (int n)"

definition compute_max_mana :: "char_class \<Rightarrow> ability_scores \<Rightarrow> nat \<Rightarrow> int" where
  "compute_max_mana c scores level =
     (let lvl = as_i32 (max level 1) in
      if c = Wizard then max (wrap_i32 (6 + 3 * lvl + 2 * mod_for scores AInt)) 0
      else if c = Sorcerer \<or> c = Warlock \<or> c = Bard then
        max (wrap_i32 (6 + 3 * lvl + 2 * mod_for scores ACha)) 0
      else if c = Cleric \<or> c = Druid then
        max (wrap_i32 (6 + 3 * lvl + 2 * mod_for scores AWis)) 0
      else if c = Paladin \<or> c = Ranger then
        max (wrap_i32 (2 + 2 * lvl + mod_for scores AWis)) 0
      else 0)"

definition compute_max_stamina :: "char_class \<Rightarrow> ability_scores \<Rightarrow> nat \<Rightarrow> int" where
  "compute_max_stamina c scores level =
     (let lvl = as_i32 (max level 1); con = mod_for scores ACon in
      if c = Fighter \<or> c = Barbarian \<or> c = Monk \<or> c = Rogue then
        max (wrap_i32 (8 + 2 * lvl + con)) 0
      else if c = Paladin \<or> c = Ranger then max (wrap_i32 (6 + 2 * lvl + con)) 0
      else max (wrap_i32 (3 + lvl + con)) 0)"

definition xp_needed_for_next :: "nat \<Rightarrow> nat" where
  "xp_needed_for_next level = (10 * max level 1) mod 2 ^ 32"

section \<open>Skills\<close>

datatype skill_target = CombatTarget | SelfOnly

text \<open>Base amount, amount per rank, and the ability whose modifier is added.\<close>

datatype skill_effect =
    EffectDamage int int ability
  | EffectHeal int int ability

record skill_def =
  sk_id :: string
  sk_display :: string
  sk_aliases :: "string list"
  sk_classes :: "char_class list"
  sk_cooldown_ms :: nat
  sk_cost_mana :: int
  sk_cost_stamina :: int
  sk_target :: skill_target
  sk_effect :: skill_effect
  sk_tags :: "string list"
  sk_description :: string
  sk_flavor :: string

definition skills_fighter :: "skill_def list" where
  "skills_fighter =
    [\<lparr>sk_id = ''power_strike'', sk_display = ''Power Strike'',
      sk_aliases = [''power'', ''strike'', ''powerstrike''],
      sk_classes = [Fighter], sk_cooldown_ms = 3000,
      sk_cost_mana = 0, sk_cost_stamina = 2, sk_target = CombatTarget,
      sk_effect = EffectDamage 5 1 AStr,
      sk_tags = [''martial'', ''weapon''],
      sk_description = ''A heavy weapon blow that rewards committing to the fight.'',
      sk_flavor = ''You put your whole weight behind the swing.''\<rparr>,
     \<lparr>sk_id = ''shield_bash'', sk_display = ''Shield Bash'',
      sk_aliases = [''bash'', ''shield''],
      sk_classes = [Fighter], sk_cooldown_ms = 4500,
      sk_cost_mana = 0, sk_cost_stamina = 3, sk_target = CombatTarget,
      sk_effect = EffectDamage 4 1 AStr,
      sk_tags = [''martial'', ''control''],
      sk_description = ''A blunt slam meant to rattle your target.'',
      sk_flavor = ''You drive your shield forward like a battering ram.''\<rparr>]"

definition skills_wizard :: "skill_def list" where
  "skills_wizard =
    [\<lparr>sk_id = ''magic_missile'', sk_display = ''Magic Missile'',
      sk_aliases = [''missile'', ''mm'', ''magic''],
      sk_classes = [Wizard], sk_cooldown_ms = 2500,
      sk_cost_mana = 3, sk_cost_stamina = 0, sk_target = CombatTarget,
      sk_effect = EffectDamage 4 1 AInt,
      sk_tags = [''arcane'', ''bolt''],
      sk_description = ''A reliable arcane dart.'',
      sk_flavor = ''A bright dart snaps from your fingertips.''\<rparr>,
     \<lparr>sk_id = ''frost_bolt'', sk_display = ''Frost Bolt'',
      sk_aliases = [''frost'', ''ice'', ''bolt''],
      sk_classes = [Wizard], sk_cooldown_ms = 3200,
      sk_cost_mana = 4, sk_cost_stamina = 0, sk_target = CombatTarget,
      sk_effect = EffectDamage 5 1 AInt,
      sk_tags = [''arcane'', ''cold''],
      sk_description = ''A shard of cold that bites into muscle and breath.'',
      sk_flavor = ''Cold gathers, then lashes out in a tight line.''\<rparr>]"

definition skills_rogue :: "skill_def list" where
  "skills_rogue =
    [\<lparr>sk_id = ''backstab'', sk_display = ''Backstab'',
      sk_aliases = [''stab'', ''back''],
      sk_classes = [Rogue], sk_cooldown_ms = 4000,
      sk_cost_mana = 0, sk_cost_stamina = 3, sk_target = CombatTarget,
      sk_effect = EffectDamage 6 1 ADex,
      sk_tags = [''martial'', ''precision''],
      sk_description = ''A precise strike aimed at something vital.'',
      sk_flavor = ''You slide in low and strike where it hurts.''\<rparr>,
     \<lparr>sk_id = ''dirty_trick'', sk_display = ''Dirty Trick'',
      sk_aliases = [''dirt'', ''trick'', ''pocket''],
      sk_classes = [Rogue], sk_cooldown_ms = 3500,
      sk_cost_mana = 0, sk_cost_stamina = 2, sk_target = CombatTarget,
      sk_effect = EffectDamage 4 1 ADex,
      sk_tags = [''martial'', ''control''],
      sk_description = ''Pocket sand, elbows, and opportunism.'',
      sk_flavor = ''You fight like nobody is watching.''\<rparr>]"

definition skills_healing :: "skill_def list" where
  "skills_healing =
    [\<lparr>sk_id = ''heal'', sk_display = ''Heal'',
      sk_aliases = [''healing'', ''mend'', ''restore''],
      sk_classes = [Cleric, Druid, Paladin], sk_cooldown_ms = 5000,
      sk_cost_mana = 5, sk_cost_stamina = 0, sk_target = SelfOnly,
      sk_effect = EffectHeal 5 2 AWis,
      sk_tags = [''holy'', ''nature''],
      sk_description = ''A simple restoration for keeping yourself standing.'',
      sk_flavor = ''Warmth settles into your bones.''\<rparr>]"

definition skills_cleric :: "skill_def list" where
  "skills_cleric =
    [\<lparr>sk_id = ''smite'', sk_display = ''Smite'',
      sk_aliases = [''smite'', ''holy''],
      sk_classes = [Cleric], sk_cooldown_ms = 3500,
      sk_cost_mana = 3, sk_cost_stamina = 0, sk_target = CombatTarget,
      sk_effect = EffectDamage 5 1 AWis,
      sk_tags = [''holy'', ''radiant''],
      sk_description = ''A burst of sanctified force.'',
      sk_flavor = ''A harsh light flares and judges your enemy.''\<rparr>,
     \<lparr>sk_id = ''holy_bolt'', sk_display = ''Holy Bolt'',
      sk_aliases = [''bolt'', ''holybolt''],
      sk_classes = [Cleric], sk_cooldown_ms = 2800,
      sk_cost_mana = 2, sk_cost_stamina = 0, sk_target = CombatTarget,
      sk_effect = EffectDamage 4 1 AWis,
      sk_tags = [''holy'', ''bolt''],
      sk_description = ''A quick prayer that hits like a thrown stone.'',
      sk_flavor = ''Your words harden into a brief, bright impact.''\<rparr>]"

definition skills_ranger :: "skill_def list" where
  "skills_ranger =
    [\<lparr>sk_id = ''aimed_shot'', sk_display = ''Aimed Shot'',
      sk_aliases = [''aim'', ''shot''],
      sk_classes = [Ranger], sk_cooldown_ms = 3200,
      sk_cost_mana = 0, sk_cost_stamina = 2, sk_target = CombatTarget,
      sk_effect = EffectDamage 5 1 ADex,
      sk_tags = [''martial'', ''precision''],
      sk_description = ''Take a breath. Pick a spot. Release.'',
      sk_flavor = ''You line up a clean hit.''\<rparr>,
     \<lparr>sk_id = ''thorn_whip'', sk_display = ''Thorn Whip'',
      sk_aliases = [''thorn'', ''whip''],
      sk_classes = [Ranger], sk_cooldown_ms = 4200,
      sk_cost_mana = 2, sk_cost_stamina = 0, sk_target = CombatTarget,
      sk_effect = EffectDamage 4 1 AWis,
      sk_tags = [''nature''],
      sk_description = ''A lash of living vine and spite.'',
      sk_flavor = ''A thorny line snaps out and bites.''\<rparr>]"

definition skills_paladin :: "skill_def list" where
  "skills_paladin =
    [\<lparr>sk_id = ''divine_smite'', sk_display = ''Divine Smite'',
      sk_aliases = [''dsmite'', ''divine'', ''smite''],
      sk_classes = [Paladin], sk_cooldown_ms = 4500,
      sk_cost_mana = 2, sk_cost_stamina = 2, sk_target = CombatTarget,
      sk_effect = EffectDamage 6 1 AStr,
      sk_tags = [''holy'', ''weapon''],
      sk_description = ''Spend faith and force together, all at once.'',
      sk_flavor = ''Your strike lands with a clean, ringing certainty.''\<rparr>]"

definition skills_barbarian :: "skill_def list" where
  "skills_barbarian =
    [\<lparr>sk_id = ''rage_strike'', sk_display = ''Rage Strike'',
      sk_aliases = [''rage'', ''rstrike''],
      sk_classes = [Barbarian], sk_cooldown_ms = 2800,
      sk_cost_mana = 0, sk_cost_stamina = 3, sk_target = CombatTarget,
      sk_effect = EffectDamage 6 1 AStr,
      sk_tags = [''martial''],
      sk_description = ''A brutal hit powered by pure refusal.'',
      sk_flavor = ''You snarl and swing through the pain.''\<rparr>]"

definition skills_bard :: "skill_def list" where
  "skills_bard =
    [\<lparr>sk_id = ''cutting_words'', sk_display = ''Cutting Words'',
      sk_aliases = [''cut'', ''words'', ''cw''],
      sk_classes = [Bard], sk_cooldown_ms = 3000,
      sk_cost_mana = 3, sk_cost_stamina = 0, sk_target = CombatTarget,
      sk_effect = EffectDamage 4 1 ACha,
      sk_tags = [''arcane'', ''psychic''],
      sk_description = ''A line so sharp it draws blood anyway.'',
      sk_flavor = ''Your voice finds the crack in them.''\<rparr>]"

definition skills_druid :: "skill_def list" where
  "skills_druid =
    [\<lparr>sk_id = ''sun_spark'', sk_display = ''Sun Spark'',
      sk_aliases = [''sun'', ''spark''],
      sk_classes = [Druid], sk_cooldown_ms = 3000,
      sk_cost_mana = 3, sk_cost_stamina = 0, sk_target = CombatTarget,
      sk_effect = EffectDamage 5 1 AWis,
      sk_tags = [''nature'', ''radiant''],
      sk_description = ''A brief flash of daylight that doesn't ask permission.'',
      sk_flavor = ''Light answers you, sharp and hot.''\<rparr>]"

definition skills_warlock :: "skill_def list" where
  "skills_warlock =
    [\<lparr>sk_id = ''eldritch_blast'', sk_display = ''Eldritch Blast'',
      sk_aliases = [''blast'', ''eb'', ''eldritch''],
      sk_classes = [Warlock], sk_cooldown_ms = 2600,
      sk_cost_mana = 3, sk_cost_stamina = 0, sk_target = CombatTarget,
      sk_effect = EffectDamage 5 1 ACha,
      sk_tags = [''occult'', ''force''],
      sk_description = ''The patron's answer to your anger.'',
      sk_flavor = ''Something old speaks through your hand.''\<rparr>]"

definition skills_sorcerer :: "skill_def list" where
  "skills_sorcerer =
    [\<lparr>sk_id = ''fire_bolt'', sk_display = ''Fire Bolt'',
      sk_aliases = [''fire'', ''bolt'', ''fb''],
      sk_classes = [Sorcerer], sk_cooldown_ms = 2800,
      sk_cost_mana = 3, sk_cost_stamina = 0, sk_target = CombatTarget,
      sk_effect = EffectDamage 5 1 ACha,
      sk_tags = [''arcane'', ''fire''],
      sk_description = ''A small piece of the sun, held badly.'',
      sk_flavor = ''Heat gathers and snaps forward.''\<rparr>]"

definition skills_monk :: "skill_def list" where
  "skills_monk =
    [\<lparr>sk_id = ''flurry'', sk_display = ''Flurry'',
      sk_aliases = [''flurry'', ''combo''],
      sk_classes = [Monk], sk_cooldown_ms = 3200,
      sk_cost_mana = 0, sk_cost_stamina = 3, sk_target = CombatTarget,
      sk_effect = EffectDamage 5 1 ADex,
      sk_tags = [''martial''],
      sk_description = ''A quick sequence of strikes before they can breathe.'',
      sk_flavor = ''Your hands move before your thoughts finish forming.''\<rparr>]"

definition skills_extra :: "skill_def list" where
  "skills_extra =
    [\<lparr>sk_id = ''second_wind'', sk_display = ''Second Wind'',
      sk_aliases = [''wind'', ''second''],
      sk_classes = [Fighter], sk_cooldown_ms = 8000,
      sk_cost_mana = 0, sk_cost_stamina = 0, sk_target = SelfOnly,
      sk_effect = EffectHeal 4 2 ACon,
      sk_tags = [''martial'', ''heal''],
      sk_description = ''A practiced breath that buys you another moment.'',
      sk_flavor = ''You steady yourself and push on.''\<rparr>,
     \<lparr>sk_id = ''shadow_step'', sk_display = ''Shadow Step'',
      sk_aliases = [''shadow'', ''step''],
      sk_classes = [Rogue], sk_cooldown_ms = 9000,
      sk_cost_mana = 0, sk_cost_stamina = 2, sk_target = CombatTarget,
      sk_effect = EffectDamage 5 1 ADex,
      sk_tags = [''martial'', ''mobility''],
      sk_description = ''You move like the room blinked.'',
      sk_flavor = ''You appear where they weren't watching.''\<rparr>,
     \<lparr>sk_id = ''arcane_pulse'', sk_display = ''Arcane Pulse'',
      sk_aliases = [''pulse'', ''ap''],
      sk_classes = [Wizard], sk_cooldown_ms = 7000,
      sk_cost_mana = 6, sk_cost_stamina = 0, sk_target = CombatTarget,
      sk_effect = EffectDamage 7 1 AInt,
      sk_tags = [''arcane''],
      sk_description = ''A thick wave of pressure that shoves the world back.'',
      sk_flavor = ''The air snaps like a sheet.''\<rparr>,
     \<lparr>sk_id = ''prayer_of_steel'', sk_display = ''Prayer of Steel'',
      sk_aliases = [''steel'', ''prayer''],
      sk_classes = [Paladin], sk_cooldown_ms = 7000,
      sk_cost_mana = 4, sk_cost_stamina = 0, sk_target = SelfOnly,
      sk_effect = EffectHeal 4 2 AWis,
      sk_tags = [''holy'', ''heal''],
      sk_description = ''A short vow that closes wounds by sheer insistence.'',
      sk_flavor = ''You speak a vow and feel it bind.''\<rparr>,
     \<lparr>sk_id = ''nature_touch'', sk_display = ''Nature's Touch'',
      sk_aliases = [''touch'', ''nature''],
      sk_classes = [Druid], sk_cooldown_ms = 6500,
      sk_cost_mana = 5, sk_cost_stamina = 0, sk_target = SelfOnly,
      sk_effect = EffectHeal 5 2 AWis,
      sk_tags = [''nature'', ''heal''],
      sk_description = ''A green breath that pulls you back from the edge.'',
      sk_flavor = ''You smell rain and leaf-mold. You live.''\<rparr>,
     \<lparr>sk_id = ''hex'', sk_display = ''Hex'',
      sk_aliases = [''hex'', ''curse''],
      sk_classes = [Warlock], sk_cooldown_ms = 6000,
      sk_cost_mana = 4, sk_cost_stamina = 0, sk_target = CombatTarget,
      sk_effect = EffectDamage 6 1 ACha,
      sk_tags = [''occult''],
      sk_description = ''A small curse with a long memory.'',
      sk_flavor = ''You whisper something the world shouldn't hear.''\<rparr>]"

definition all_skills :: "skill_def list" where
  "all_skills =
     skills_fighter @ skills_wizard @ skills_rogue @ skills_healing @ skills_cleric @
     skills_ranger @ skills_paladin @ skills_barbarian @ skills_bard @ skills_druid @
     skills_warlock @ skills_sorcerer @ skills_monk @ skills_extra"

definition skill_has_class :: "skill_def \<Rightarrow> char_class \<Rightarrow> bool" where
  "skill_has_class d c \<longleftrightarrow> list_ex (\<lambda>k. k = c) (sk_classes d)"

definition skill_named :: "string \<Rightarrow> skill_def \<Rightarrow> bool" where
  "skill_named t s \<longleftrightarrow> eq_ignore_ascii_case (sk_id s) t \<or> eq_ignore_ascii_case (sk_display s) t
     \<or> list_ex (\<lambda>a. eq_ignore_ascii_case a t) (sk_aliases s)"

definition find_skill_any :: "string \<Rightarrow> skill_def option" where
  "find_skill_any token =
     (let t = norm_key token in if t = [] then None else find (skill_named t) all_skills)"

definition find_skill_for_class :: "char_class \<Rightarrow> string \<Rightarrow> skill_def option" where
  "find_skill_for_class c token =
     (let t = norm_key token in
      if t = [] then None
      else find (\<lambda>s. if \<not> skill_has_class s c then False else skill_named t s) all_skills)"

definition skills_for_class :: "char_class \<Rightarrow> skill_def list" where
  "skills_for_class c = sort_key sk_id (filter (\<lambda>s. skill_has_class s c) all_skills)"

definition skill_stun_ms :: "skill_def \<Rightarrow> nat" where
  "skill_stun_ms d =
     (if sk_id d = ''shield_bash'' then 1500
      else if sk_id d = ''dirty_trick'' then 1200
      else 0)"

definition compute_skill_amount :: "skill_def \<Rightarrow> nat \<Rightarrow> ability_scores \<Rightarrow> int" where
  "compute_skill_amount d rank stats =
     (let r = as_i32 (max rank 1) in
      case sk_effect d of
        EffectDamage base per_rank a \<Rightarrow>
          wrap_i32 (base + per_rank * (r - 1) + max (mod_for stats a) 0)
      | EffectHeal base per_rank a \<Rightarrow>
          wrap_i32 (base + per_rank * (r - 1) + max (mod_for stats a) 0))"

section \<open>The generator\<close>

definition rng_from_seed :: "u64 \<Rightarrow> u64" where
  "rng_from_seed seed = (if seed = 0 then 0x9e3779b97f4a7c15 else seed)"

text \<open>One turn of xorshift64*: the value and the new state.\<close>

definition rng_next :: "u64 \<Rightarrow> u64 \<times> u64" where
  "rng_next state =
     (let x = state;
          x = xor x (drop_bit 12 x);
          x = xor x (push_bit 25 x);
          x = xor x (drop_bit 27 x)
      in (x * 0x2545F4914F6CDD1D, x))"

definition roll_range :: "int \<Rightarrow> int \<Rightarrow> u64 \<Rightarrow> int \<times> u64" where
  "roll_range lo hi state =
     (let span = (word_of_int (wrap_i32 (hi - lo + 1)) :: u64);
          (v, state') = rng_next state
      in (wrap_i32 (lo + wrap_i32 (uint (v mod span))), state'))"

section \<open>Tokens\<close>

lemma race_tokens: "list_all (\<lambda>r. race_parse (race_as_str r) = Some r) race_all"
  by code_simp

lemma race_all_set: "r \<in> set race_all"
  by (cases r) (simp_all add: race_all_def)

interpretation races: token_enum race_all race_as_str race_parse
proof
  show "race_parse (race_as_str r) = Some r" for r
    using race_tokens race_all_set [of r] by (auto simp: list_all_iff)
qed (simp_all add: race_all_set race_parse_def)

lemma class_tokens: "list_all (\<lambda>c. class_parse (class_as_str c) = Some c) class_all"
  by code_simp

lemma class_all_set: "c \<in> set class_all"
  by (cases c) (simp_all add: class_all_def)

interpretation classes: token_enum class_all class_as_str class_parse
proof
  show "class_parse (class_as_str c) = Some c" for c
    using class_tokens class_all_set [of c] by (auto simp: list_all_iff)
qed (simp_all add: class_all_set class_parse_def)

lemma sex_tokens:
  "list_all (\<lambda>x. sex_parse (sex_as_str x) = Some x) [SexMale, SexFemale, SexNone, SexOther]"
  by code_simp

interpretation sexes: token_enum "[SexMale, SexFemale, SexNone, SexOther]" sex_as_str sex_parse
proof
  show *: "x \<in> set [SexMale, SexFemale, SexNone, SexOther]" for x by (cases x) simp_all
  show "sex_parse (sex_as_str x) = Some x" for x
    using sex_tokens * [of x] unfolding list_all_iff by blast
qed (simp add: sex_parse_def)

lemma pronoun_tokens:
  "list_all (\<lambda>x. pronoun_parse (pronoun_as_str x) = Some x) [PronHe, PronShe, PronThey]"
  by code_simp

interpretation pronouns: token_enum "[PronHe, PronShe, PronThey]" pronoun_as_str pronoun_parse
proof
  show *: "x \<in> set [PronHe, PronShe, PronThey]" for x by (cases x) simp_all
  show "pronoun_parse (pronoun_as_str x) = Some x" for x
    using pronoun_tokens * [of x] unfolding list_all_iff by blast
qed (simp add: pronoun_parse_def)

section \<open>Skill names\<close>

definition skill_names :: "skill_def \<Rightarrow> string list" where
  "skill_names d = map to_ascii_lowercase (sk_id d # sk_display d # sk_aliases d)"

lemma skill_named_iff:
  "to_ascii_lowercase t = t \<Longrightarrow> skill_named t d \<longleftrightarrow> t \<in> set (skill_names d)"
  by (auto simp: skill_named_def skill_names_def eq_ignore_ascii_case_def list_ex_iff)

text \<open>The names of each skill in lower case, with its classes.\<close>

definition skill_name_table :: "(string list \<times> char_class list) list" where
  "skill_name_table =
    [([''power_strike'', ''power strike'', ''power'', ''strike'', ''powerstrike''], [Fighter]),
     ([''shield_bash'', ''shield bash'', ''bash'', ''shield''], [Fighter]),
     ([''magic_missile'', ''magic missile'', ''missile'', ''mm'', ''magic''], [Wizard]),
     ([''frost_bolt'', ''frost bolt'', ''frost'', ''ice'', ''bolt''], [Wizard]),
     ([''backstab'', ''backstab'', ''stab'', ''back''], [Rogue]),
     ([''dirty_trick'', ''dirty trick'', ''dirt'', ''trick'', ''pocket''], [Rogue]),
     ([''heal'', ''heal'', ''healing'', ''mend'', ''restore''], [Cleric, Druid, Paladin]),
     ([''smite'', ''smite'', ''smite'', ''holy''], [Cleric]),
     ([''holy_bolt'', ''holy bolt'', ''bolt'', ''holybolt''], [Cleric]),
     ([''aimed_shot'', ''aimed shot'', ''aim'', ''shot''], [Ranger]),
     ([''thorn_whip'', ''thorn whip'', ''thorn'', ''whip''], [Ranger]),
     ([''divine_smite'', ''divine smite'', ''dsmite'', ''divine'', ''smite''], [Paladin]),
     ([''rage_strike'', ''rage strike'', ''rage'', ''rstrike''], [Barbarian]),
     ([''cutting_words'', ''cutting words'', ''cut'', ''words'', ''cw''], [Bard]),
     ([''sun_spark'', ''sun spark'', ''sun'', ''spark''], [Druid]),
     ([''eldritch_blast'', ''eldritch blast'', ''blast'', ''eb'', ''eldritch''], [Warlock]),
     ([''fire_bolt'', ''fire bolt'', ''fire'', ''bolt'', ''fb''], [Sorcerer]),
     ([''flurry'', ''flurry'', ''flurry'', ''combo''], [Monk]),
     ([''second_wind'', ''second wind'', ''wind'', ''second''], [Fighter]),
     ([''shadow_step'', ''shadow step'', ''shadow'', ''step''], [Rogue]),
     ([''arcane_pulse'', ''arcane pulse'', ''pulse'', ''ap''], [Wizard]),
     ([''prayer_of_steel'', ''prayer of steel'', ''steel'', ''prayer''], [Paladin]),
     ([''nature_touch'', ''nature's touch'', ''touch'', ''nature''], [Druid]),
     ([''hex'', ''hex'', ''hex'', ''curse''], [Warlock])]"

lemma skill_name_table: "map (\<lambda>d. (skill_names d, sk_classes d)) all_skills = skill_name_table"
  unfolding all_skills_def skills_fighter_def skills_wizard_def skills_rogue_def skills_healing_def skills_cleric_def skills_ranger_def skills_paladin_def skills_barbarian_def skills_bard_def skills_druid_def skills_warlock_def skills_sorcerer_def skills_monk_def skills_extra_def skill_names_def skill_name_table_def
  by (simp add: to_ascii_lowercase_def ascii_lower_def is_ascii_upper_def, code_simp)

fun names_apart :: "string list list \<Rightarrow> bool" where
  "names_apart [] = True"
| "names_apart (n # ns) = (list_all (\<lambda>m. set n \<inter> set m = {}) ns \<and> names_apart ns)"

lemma class_names_apart:
  "names_apart (map fst (filter (\<lambda>(n, cs). c \<in> set cs) skill_name_table))"
  unfolding skill_name_table_def by (cases c) simp_all

lemma find_names_apart:
  assumes "names_apart (map nm (filter P xs))" "d \<in> set xs" "P d" "t \<in> set (nm d)"
  shows "find (\<lambda>s. P s \<and> t \<in> set (nm s)) xs = Some d"
  using assms
proof (induction xs)
  case (Cons x xs)
  show ?case
  proof (cases "x = d")
    case False
    with Cons.prems have d: "d \<in> set xs" by simp
    with Cons.prems have "P x \<Longrightarrow> t \<notin> set (nm x)" by (auto simp: list_all_iff)
    moreover have "names_apart (map nm (filter P xs))"
      using Cons.prems(1) by (auto split: if_splits)
    ultimately show ?thesis using Cons.IH d Cons.prems(3,4) by auto
  qed (use Cons.prems in simp)
qed simp

lemma all_skill_names_apart:
  "names_apart (map skill_names (filter (\<lambda>d. skill_has_class d c) all_skills))"
proof -
  have "map skill_names (filter (\<lambda>d. skill_has_class d c) all_skills)
      = map fst (filter (\<lambda>(n, cs). c \<in> set cs) (map (\<lambda>d. (skill_names d, sk_classes d)) all_skills))"
    by (simp add: filter_map comp_def skill_has_class_def list_ex_iff)
  then show ?thesis by (simp add: skill_name_table class_names_apart)
qed

lemma skill_names_nonempty: "d \<in> set all_skills \<Longrightarrow> [] \<notin> set (skill_names d)"
proof -
  assume "d \<in> set all_skills"
  then have "(skill_names d, sk_classes d) \<in> set skill_name_table"
    by (simp flip: skill_name_table)
  moreover have "list_all (\<lambda>(n, _). [] \<notin> set n) skill_name_table"
    by (simp add: skill_name_table_def)
  ultimately show ?thesis by (auto simp: list_all_iff)
qed

text \<open>
  Tokens are faithful. A race, sex or class is parsed from a string exactly when the string
  is its token up to case and surrounding white space; every capability, role, equipment slot
  and pronoun is parsed back from its own token in any case, so no two share a token.
\<close>

theorem tokens_faithful:
  "((race_parse s = Some r) = (norm_key s = race_as_str r))
   \<and> ((class_parse s = Some c) = (norm_key s = class_as_str c))
   \<and> ((sex_parse s = Some x) = (norm_key s = sex_as_str x))
   \<and> pronoun_parse (pronoun_as_str p) = Some p
   \<and> equip_slot_parse (equip_slot_as_str e) = Some e
   \<and> inj race_as_str \<and> inj class_as_str \<and> inj sex_as_str \<and> inj pronoun_as_str
   \<and> inj equip_slot_as_str"
proof -
  have "race_parse s = Some r \<Longrightarrow> norm_key s = race_as_str r"
    by (auto simp: race_parse_def split: if_splits)
  moreover have "norm_key s = race_as_str r \<Longrightarrow> race_parse s = Some r"
    by (metis races.parse_as_str races.parse_norm)
  moreover have "class_parse s = Some c \<Longrightarrow> norm_key s = class_as_str c"
    by (auto simp: class_parse_def split: if_splits)
  moreover have "norm_key s = class_as_str c \<Longrightarrow> class_parse s = Some c"
    by (metis classes.parse_as_str classes.parse_norm)
  moreover have "sex_parse s = Some x \<Longrightarrow> norm_key s = sex_as_str x"
    by (auto simp: sex_parse_def split: if_splits)
  moreover have "norm_key s = sex_as_str x \<Longrightarrow> sex_parse s = Some x"
    by (metis sexes.parse_as_str sexes.parse_norm)
  moreover have "inj race_as_str" "inj class_as_str" "inj sex_as_str" "inj pronoun_as_str"
    "inj equip_slot_as_str"
    by (simp_all add: inj_def races.as_str_inj classes.as_str_inj sexes.as_str_inj
        pronouns.as_str_inj slots.as_str_inj)
  ultimately show ?thesis
    using pronouns.parse_as_str slots.parse_as_str by blast
qed

text \<open>
  Within a class, skill names are unambiguous: for every class and every input,
  \<open>find_skill_for_class\<close> yields a skill exactly when it is a skill of that class and the
  trimmed lower-case input is its identifier, its display name or one of its aliases. (Across
  classes some aliases are shared; there the order of the table decides.)
\<close>

theorem skill_lookup_exact:
  "(find_skill_for_class c s = Some d)
     = (d \<in> set all_skills \<and> skill_has_class d c \<and> norm_key s \<in> set (skill_names d))"
proof -
  have lookup: "find_skill_for_class c s = (if norm_key s = [] then None
      else find (\<lambda>d. skill_has_class d c \<and> norm_key s \<in> set (skill_names d)) all_skills)"
    by (simp add: find_skill_for_class_def Let_def skill_named_iff cong: conj_cong)
  show ?thesis
  proof
    assume "find_skill_for_class c s = Some d"
    then show "d \<in> set all_skills \<and> skill_has_class d c \<and> norm_key s \<in> set (skill_names d)"
      unfolding lookup by (auto simp: find_Some_iff split: if_splits)
  next
    assume "d \<in> set all_skills \<and> skill_has_class d c \<and> norm_key s \<in> set (skill_names d)"
    then show "find_skill_for_class c s = Some d"
      unfolding lookup
      using find_names_apart [OF all_skill_names_apart, of d c "norm_key s"] skill_names_nonempty
      by auto
  qed
qed

section \<open>Derived numbers\<close>

text \<open>
  Every class's starting scores are the standard array dealt to the six abilities, so that
  every modifier lies between -1 and 2, the class's first priority gets 15, and the derived
  maxima are in range and positive where play needs them: hit points and stamina for every
  class, mana for every caster, at every level up to ten thousand.
\<close>

theorem class_stats_standard_array:
  "mset (map (score_get (assign_core_stats_for_class c)) [AStr, ADex, ACon, AInt, AWis, ACha])
      = {#15, 14, 13, 12, 10, 8#}
   \<and> score_get (assign_core_stats_for_class c) (hd (class_priority c)) = 15
   \<and> (let s = assign_core_stats_for_class c; l = min level 10000 in
        mod_for s a \<in> {-1..2}
        \<and> 1 \<le> compute_max_hp c s \<and> compute_max_hp c s \<le> 14
        \<and> 1 \<le> compute_max_stamina c s l \<and> compute_max_stamina c s l \<le> 20010
        \<and> (0 < compute_max_mana c s l) = (c \<notin> {Barbarian, Fighter, Monk, Rogue}))"
proof -
  define s where "s = assign_core_stats_for_class c"
  define l where "l = min level 10000"
  have "mset (map (score_get s) [AStr, ADex, ACon, AInt, AWis, ACha]) = {#15, 14, 13, 12, 10, 8#}
      \<and> score_get s (hd (class_priority c)) = 15"
    by (cases c) (simp_all add: s_def assign_core_stats_for_class_def baseline_scores_def add_mset_commute)
  moreover have m: "mod_for s a \<in> {-1..2}" for a
    by (cases c; cases a)
      (simp_all add: s_def assign_core_stats_for_class_def baseline_scores_def mod_for_def num_defs)
  have lvl: "1 \<le> as_i32 (max l 1) \<and> as_i32 (max l 1) \<le> 10000"
  proof -
    have "int (max l 1) \<le> 10000" "1 \<le> int (max l 1)" by (simp_all add: l_def)
    then show ?thesis unfolding as_i32_def by (subst wrap_i32_id) (simp_all add: num_defs)
  qed
  have id: "- 100000 \<le> x \<Longrightarrow> x \<le> 100000 \<Longrightarrow> wrap_i32 x = x" for x
    by (rule wrap_i32_id) (simp add: num_defs)
  have "1 \<le> compute_max_hp c s \<and> compute_max_hp c s \<le> 14"
    using m [of ACon] by (cases c) (simp_all add: compute_max_hp_def id)
  moreover have "1 \<le> compute_max_stamina c s l \<and> compute_max_stamina c s l \<le> 20010"
    using m [of ACon] lvl by (simp add: compute_max_stamina_def Let_def id)
  moreover have "(0 < compute_max_mana c s l) = (c \<notin> {Barbarian, Fighter, Monk, Rogue})"
    using m [of AInt] m [of AWis] m [of ACha] lvl
    by (cases c) (simp_all add: compute_max_mana_def Let_def id)
  ultimately show ?thesis using m [of a] by (simp add: s_def l_def Let_def del: atLeastAtMost_iff)
qed

section \<open>The generator never sticks, and rolls in range\<close>

lemma bit_xor_shift_right_inj:
  fixes x :: "'a::len word"
  assumes "xor x (drop_bit n x) = 0" "0 < n"
  shows "x = 0"
proof (rule bit_word_eqI)
  have eq: "bit x i = bit x (i + n)" for i
  proof -
    have "\<not> bit (xor x (drop_bit n x)) i" by (simp add: assms(1))
    then show ?thesis by (auto simp: bit_simps add.commute)
  qed
  have *: "\<not> bit x (LENGTH('a) - k + j)" if "k \<le> LENGTH('a)" for k j
    using that
  proof (induction k arbitrary: j rule: less_induct)
    case (less k)
    show ?case
    proof (cases "k = 0")
      case False
      then have "\<not> bit x (LENGTH('a) - (k - 1) + (j + n - 1))"
        using less assms(2) by (intro less.IH) auto
      moreover have "LENGTH('a) - (k - 1) + (j + n - 1) = LENGTH('a) - k + j + n"
        using False less.prems assms(2) by simp
      ultimately show ?thesis using eq [of "LENGTH('a) - k + j"] by simp
    qed (simp add: bit_word_def not_le [symmetric] impossible_bit)
  qed
  have "\<not> bit x i" for i
    using * [of "LENGTH('a)" i] by simp
  then show "bit x i = bit 0 i" if "i < LENGTH('a)" for i by simp
qed

lemma bit_xor_shift_left_inj:
  fixes x :: "'a::len word"
  assumes "xor x (push_bit n x) = 0" "0 < n"
  shows "x = 0"
proof (rule bit_word_eqI)
  have "\<not> bit x i" for i
  proof (induction i rule: less_induct)
    case (less i)
    have "\<not> bit (xor x (push_bit n x)) i" by (simp add: assms(1))
    then have "bit x i \<Longrightarrow> n \<le> i \<and> bit x (i - n)"
      by (auto simp: bit_simps dest: bit_imp_le_length)
    with less [of "i - n"] assms(2) show ?case by force
  qed
  then show "bit x i = bit 0 i" if "i < LENGTH('a)" for i by simp
qed

text \<open>
  The generator cannot get stuck: from a seed it starts at a non-zero state and every turn
  keeps it non-zero. A roll between two bounds is always within them, both included possible
  ends, without overflow.
\<close>

theorem rng_alive_and_in_range:
  assumes "state \<noteq> 0" "lo \<le> hi" "i32_range lo" "i32_range hi" "hi - lo < i32_max"
  shows "rng_from_seed seed \<noteq> 0 \<and> snd (rng_next state) \<noteq> 0
    \<and> (let (v, state') = roll_range lo hi state in lo \<le> v \<and> v \<le> hi \<and> state' \<noteq> 0)"
proof -
  have alive: "snd (rng_next state) \<noteq> 0"
  proof
    assume "snd (rng_next state) = 0"
    then have "xor (xor (xor state (drop_bit 12 state)) (push_bit 25 (xor state (drop_bit 12 state))))
        (drop_bit 27 (xor (xor state (drop_bit 12 state)) (push_bit 25 (xor state (drop_bit 12 state))))) = 0"
      by (simp add: rng_next_def Let_def)
    from bit_xor_shift_right_inj [OF this]
    have "xor (xor state (drop_bit 12 state)) (push_bit 25 (xor state (drop_bit 12 state))) = 0" by simp
    from bit_xor_shift_left_inj [OF this] have "xor state (drop_bit 12 state) = 0" by simp
    from bit_xor_shift_right_inj [OF this] assms(1) show False by simp
  qed
  have span: "wrap_i32 (hi - lo + 1) = hi - lo + 1"
    using assms by (intro wrap_i32_id) (simp add: num_defs)
  define w where "w = (word_of_int (hi - lo + 1) :: u64)"
  have u: "uint w = hi - lo + 1"
    using assms unfolding w_def by (subst uint_word_of_int) (simp add: num_defs)
  define r where "r = uint (fst (rng_next state) mod w)"
  have "r = uint (fst (rng_next state)) mod (hi - lo + 1)"
    by (simp add: r_def uint_mod u)
  moreover have "uint (fst (rng_next state)) mod (hi - lo + 1) < hi - lo + 1"
    using assms(2) by (intro pos_mod_bound) simp
  ultimately have r: "0 \<le> r" "r \<le> hi - lo" using assms(2) by simp_all
  have "wrap_i32 r = r" "wrap_i32 (lo + r) = lo + r"
    using r assms by (auto intro!: wrap_i32_id simp: num_defs)
  then have "roll_range lo hi state = (lo + r, snd (rng_next state))"
    unfolding roll_range_def span w_def [symmetric] Let_def case_prod_beta r_def [symmetric] by simp
  with r alive show ?thesis by (simp add: rng_from_seed_def)
qed

theorem rng_alive_and_in_range_witness:
  "let (v, state') = roll_range 1 20 7 in 1 \<le> v \<and> v \<le> 20 \<and> state' \<noteq> 0"
  using rng_alive_and_in_range [of 7 1 20 0] by (simp add: num_defs)

end
