(* ===== verification/GroupStore.thy ===== *)
theory GroupStore
  imports Interfaces
begin

text \<open>
  \<open>apps/shard_01/src/groups.rs\<close>: capabilities, roles and groups, the log entries that change
  them, and the queries that decide what a principal may do. Group numbers are naturals.
\<close>

datatype capability =
    AdminAll | RaftTail | RaftWatch | WorldWarp | WorldProtoLoad | GroupCreateCap
  | GroupMemberAdd | GroupMemberRemove | GroupRoleSet | GroupPolicySetCap | GroupRoleCapsSetCap

definition capability_all :: "capability list" where
  "capability_all =
     [AdminAll, RaftTail, RaftWatch, WorldWarp, WorldProtoLoad, GroupCreateCap, GroupMemberAdd,
      GroupMemberRemove, GroupRoleSet, GroupPolicySetCap, GroupRoleCapsSetCap]"

fun capability_as_str :: "capability \<Rightarrow> string" where
  "capability_as_str AdminAll = ''admin.all''"
| "capability_as_str RaftTail = ''raft.tail''"
| "capability_as_str RaftWatch = ''raft.watch''"
| "capability_as_str WorldWarp = ''world.warp''"
| "capability_as_str WorldProtoLoad = ''world.proto.load''"
| "capability_as_str GroupCreateCap = ''group.create''"
| "capability_as_str GroupMemberAdd = ''group.member.add''"
| "capability_as_str GroupMemberRemove = ''group.member.remove''"
| "capability_as_str GroupRoleSet = ''group.role.set''"
| "capability_as_str GroupPolicySetCap = ''group.policy.set''"
| "capability_as_str GroupRoleCapsSetCap = ''group.rolecaps.set''"

text \<open>A \<open>match\<close> on the trimmed lower-case form of a string, by its arms.\<close>

definition capability_arms :: "(string \<times> capability) list" where
  "capability_arms =
     [(''admin'', AdminAll), (''admin.all'', AdminAll), (''raft.tail'', RaftTail),
      (''raft.watch'', RaftWatch), (''world.warp'', WorldWarp),
      (''world.proto.load'', WorldProtoLoad), (''world.proto'', WorldProtoLoad),
      (''proto.load'', WorldProtoLoad), (''group.create'', GroupCreateCap),
      (''group.member.add'', GroupMemberAdd), (''group.add'', GroupMemberAdd),
      (''group.member.remove'', GroupMemberRemove), (''group.remove'', GroupMemberRemove),
      (''group.role.set'', GroupRoleSet), (''group.role'', GroupRoleSet),
      (''group.policy.set'', GroupPolicySetCap), (''group.policy'', GroupPolicySetCap),
      (''group.rolecaps.set'', GroupRoleCapsSetCap), (''group.rolecaps'', GroupRoleCapsSetCap)]"

definition capability_parse :: "string \<Rightarrow> capability option" where
  "capability_parse s = map_of capability_arms (norm_key s)"

datatype group_role = Owner | Officer | Member | Guest

definition group_role_all :: "group_role list" where
  "group_role_all = [Owner, Officer, Member, Guest]"

fun group_role_as_str :: "group_role \<Rightarrow> string" where
  "group_role_as_str Owner = ''owner''"
| "group_role_as_str Officer = ''officer''"
| "group_role_as_str Member = ''member''"
| "group_role_as_str Guest = ''guest''"

definition group_role_parse :: "string \<Rightarrow> group_role option" where
  "group_role_parse s = map_of
     [(''owner'', Owner), (''leader'', Owner), (''officer'', Officer), (''mod'', Officer),
      (''member'', Member), (''guest'', Guest)] (norm_key s)"

datatype group_kind = KindAdmin | KindGuild | KindClass string | KindCustom

definition group_kind_as_str :: "group_kind \<Rightarrow> string" where
  "group_kind_as_str k =
     (case k of
        KindAdmin \<Rightarrow> ''admin''
      | KindGuild \<Rightarrow> ''guild''
      | KindCustom \<Rightarrow> ''custom''
      | KindClass cls \<Rightarrow> ''class:'' @ cls)"

definition group_kind_parse :: "string \<Rightarrow> group_kind option" where
  "group_kind_parse s =
     (let t = norm_key s in
      if t = ''admin'' then Some KindAdmin
      else if t = ''guild'' then Some KindGuild
      else if t = ''custom'' then Some KindCustom
      else
        (case strip_prefix ''class:'' t of
           Some rest \<Rightarrow>
             (let cls = trim rest in if cls = [] then None else Some (KindClass cls))
         | None \<Rightarrow> None))"

section \<open>Groups\<close>

record group =
  g_id :: nat
  g_kind :: group_kind
  g_name :: string
  g_members :: "string \<rightharpoonup> group_role"
  g_policies :: "string \<rightharpoonup> string"
  g_role_caps :: "group_role \<rightharpoonup> capability set"

definition or_default :: "('k \<rightharpoonup> 'a set) \<Rightarrow> 'k \<Rightarrow> ('k \<rightharpoonup> 'a set)" where
  "or_default m k = m(k \<mapsto> (case m k of None \<Rightarrow> {} | Some s \<Rightarrow> s))"

definition apply_default_role_caps :: "group \<Rightarrow> group" where
  "apply_default_role_caps g =
     (let rc = foldl or_default (g_role_caps g) group_role_all in
      case g_kind g of
        KindAdmin \<Rightarrow>
          (let caps = {AdminAll, RaftTail, RaftWatch, WorldWarp, WorldProtoLoad, GroupCreateCap,
                       GroupMemberAdd, GroupMemberRemove, GroupRoleSet, GroupPolicySetCap,
                       GroupRoleCapsSetCap}
           in g\<lparr>g_role_caps := rc(Owner \<mapsto> caps, Officer \<mapsto> caps, Member \<mapsto> caps)\<rparr>)
      | _ \<Rightarrow>
          g\<lparr>g_role_caps := foldl
             (\<lambda>m r. (or_default m r)(r \<mapsto> the (or_default m r r) \<union>
                {GroupMemberAdd, GroupMemberRemove, GroupRoleSet, GroupPolicySetCap,
                 GroupRoleCapsSetCap}))
             rc [Owner, Officer]\<rparr>)"

definition group_new :: "nat \<Rightarrow> group_kind \<Rightarrow> string \<Rightarrow> group" where
  "group_new i kind name =
     apply_default_role_caps
       \<lparr>g_id = i, g_kind = kind, g_name = name, g_members = Map.empty, g_policies = Map.empty,
        g_role_caps = Map.empty\<rparr>"

definition caps_for_role :: "group \<Rightarrow> group_role \<Rightarrow> capability set" where
  "caps_for_role g role = (case g_role_caps g role of None \<Rightarrow> {} | Some s \<Rightarrow> s)"

definition implied_role_for_class :: "group \<Rightarrow> string \<Rightarrow> group_role option" where
  "implied_role_for_class g cls =
     (case g_kind g of
        KindClass want \<Rightarrow> if eq_ignore_ascii_case want cls then Some Member else None
      | _ \<Rightarrow> None)"

section \<open>The store and its log\<close>

datatype group_log_entry =
    GroupCreate nat group_kind string
  | GroupMemberSet nat string "group_role option"
  | GroupPolicySet nat string "string option"
  | GroupRoleCapsSet nat group_role "capability list"

record group_store =
  gs_groups :: "nat \<rightharpoonup> group"
  gs_group_ids_by_name :: "string \<rightharpoonup> nat"

definition group_store_empty :: group_store where
  "group_store_empty = \<lparr>gs_groups = Map.empty, gs_group_ids_by_name = Map.empty\<rparr>"

definition group_apply :: "group_store \<Rightarrow> group_log_entry \<Rightarrow> group_store" where
  "group_apply st e =
     (case e of
        GroupCreate gid kind name \<Rightarrow>
          (let g = group_new gid kind name in
           st\<lparr>gs_group_ids_by_name := (gs_group_ids_by_name st)(to_ascii_lowercase name \<mapsto> gid),
              gs_groups := (gs_groups st)(gid \<mapsto> g)\<rparr>)
      | GroupMemberSet gid member role \<Rightarrow>
          (case gs_groups st gid of
             None \<Rightarrow> st
           | Some g \<Rightarrow>
               (let key = norm_key member in
                if key = [] then st
                else
                  st\<lparr>gs_groups := (gs_groups st)(gid \<mapsto>
                       g\<lparr>g_members := (g_members g)(key := role)\<rparr>)\<rparr>))
      | GroupPolicySet gid key value \<Rightarrow>
          (case gs_groups st gid of
             None \<Rightarrow> st
           | Some g \<Rightarrow>
               (let k = norm_key key in
                if k = [] then st
                else
                  st\<lparr>gs_groups := (gs_groups st)(gid \<mapsto>
                       g\<lparr>g_policies := (g_policies g)(k := value)\<rparr>)\<rparr>))
      | GroupRoleCapsSet gid role caps \<Rightarrow>
          (case gs_groups st gid of
             None \<Rightarrow> st
           | Some g \<Rightarrow>
               st\<lparr>gs_groups := (gs_groups st)(gid \<mapsto>
                    g\<lparr>g_role_caps := (g_role_caps g)(role \<mapsto> set caps)\<rparr>)\<rparr>))"

definition group_by_name :: "group_store \<Rightarrow> string \<Rightarrow> group option" where
  "group_by_name st name =
     (case gs_group_ids_by_name st (norm_key name) of
        None \<Rightarrow> None
      | Some i \<Rightarrow> gs_groups st i)"

definition role_in_group :: "group \<Rightarrow> string \<Rightarrow> string \<Rightarrow> group_role option" where
  "role_in_group g key cls =
     (case g_members g key of Some r \<Rightarrow> Some r | None \<Rightarrow> implied_role_for_class g cls)"

definition effective_caps_for_principal ::
  "((nat \<Rightarrow> bool) \<Rightarrow> nat list) \<Rightarrow> group_store \<Rightarrow> string \<Rightarrow> string \<Rightarrow> capability set" where
  "effective_caps_for_principal iter st prin cls =
     foldl (\<lambda>out i.
         case gs_groups st i of
           None \<Rightarrow> out
         | Some g \<Rightarrow>
             (case role_in_group g (norm_key prin) cls of
                None \<Rightarrow> out
              | Some role \<Rightarrow> out \<union> caps_for_role g role))
       {} (map_keys iter (gs_groups st))"

definition role_for_principal_in_group ::
  "group_store \<Rightarrow> nat \<Rightarrow> string \<Rightarrow> string \<Rightarrow> group_role option" where
  "role_for_principal_in_group st gid prin cls =
     (case gs_groups st gid of
        None \<Rightarrow> None
      | Some g \<Rightarrow> role_in_group g (norm_key prin) cls)"

definition caps_for_principal_in_group ::
  "group_store \<Rightarrow> nat \<Rightarrow> string \<Rightarrow> string \<Rightarrow> capability set" where
  "caps_for_principal_in_group st gid prin cls =
     (case role_for_principal_in_group st gid prin cls of
        None \<Rightarrow> {}
      | Some role \<Rightarrow>
          (case gs_groups st gid of None \<Rightarrow> {} | Some g \<Rightarrow> caps_for_role g role))"

section \<open>Tokens\<close>

lemma capability_tokens: "list_all (\<lambda>c. capability_parse (capability_as_str c) = Some c) capability_all"
  by code_simp

lemma capability_all_set: "c \<in> set capability_all"
  by (cases c) (simp_all add: capability_all_def)

interpretation caps: token_enum capability_all capability_as_str capability_parse
proof
  show "capability_parse (capability_as_str c) = Some c" for c
    using capability_tokens capability_all_set [of c] by (auto simp: list_all_iff)
qed (simp_all add: capability_all_set capability_parse_def)

lemma group_role_tokens: "list_all (\<lambda>r. group_role_parse (group_role_as_str r) = Some r) group_role_all"
  by code_simp

lemma group_role_all_set: "r \<in> set group_role_all"
  by (cases r) (simp_all add: group_role_all_def)

interpretation roles: token_enum group_role_all group_role_as_str group_role_parse
proof
  show "group_role_parse (group_role_as_str r) = Some r" for r
    using group_role_tokens group_role_all_set [of r] by (auto simp: list_all_iff)
qed (simp_all add: group_role_all_set group_role_parse_def)

section \<open>Who may do what\<close>

lemma foldl_union_cases:
  "c \<in> foldl (\<lambda>out i. case f i of None \<Rightarrow> out | Some s \<Rightarrow> out \<union> s) A is
     \<longleftrightarrow> c \<in> A \<or> (\<exists>i \<in> set is. \<exists>s. f i = Some s \<and> c \<in> s)"
  by (induction "is" arbitrary: A) (auto split: option.splits)

lemma effective_caps_iff:
  assumes "iter_ok iter" "finite (dom (gs_groups st))"
  shows "c \<in> effective_caps_for_principal iter st prin cls \<longleftrightarrow>
    (\<exists>i g r. gs_groups st i = Some g \<and> role_in_group g (norm_key prin) cls = Some r
      \<and> c \<in> caps_for_role g r)"
proof -
  define f where "f i = (case gs_groups st i of None \<Rightarrow> None
    | Some g \<Rightarrow> map_option (caps_for_role g) (role_in_group g (norm_key prin) cls))" for i
  have "effective_caps_for_principal iter st prin cls
      = foldl (\<lambda>out i. case f i of None \<Rightarrow> out | Some s \<Rightarrow> out \<union> s) {} (map_keys iter (gs_groups st))"
    unfolding effective_caps_for_principal_def f_def
    by (intro arg_cong [where f = "\<lambda>h. foldl h {} (map_keys iter (gs_groups st))"] ext)
      (auto split: option.splits)
  then have "c \<in> effective_caps_for_principal iter st prin cls \<longleftrightarrow>
      (\<exists>i \<in> dom (gs_groups st). \<exists>s. f i = Some s \<and> c \<in> s)"
    by (simp add: foldl_union_cases set_map_keys [OF assms])
  then show ?thesis by (fastforce simp: f_def dom_def split: option.splits)
qed

lemma caps_in_group_effective:
  assumes "iter_ok iter" "finite (dom (gs_groups st))"
  shows "effective_caps_for_principal iter st prin cls =
    (\<Union>i \<in> dom (gs_groups st). caps_for_principal_in_group st i prin cls)"
  using effective_caps_iff [OF assms, of _ prin cls]
  by (fastforce simp: caps_for_principal_in_group_def role_for_principal_in_group_def
      split: option.splits)

lemma group_new_caps:
  "caps_for_role (group_new i k nm) r =
     (if k = KindAdmin then (if r = Guest then {} else set capability_all)
      else if r = Owner \<or> r = Officer then
        {GroupMemberAdd, GroupMemberRemove, GroupRoleSet, GroupPolicySetCap, GroupRoleCapsSetCap}
      else {})"
  by (cases k; cases r)
    (simp_all add: group_new_def apply_default_role_caps_def caps_for_role_def or_default_def
      group_role_all_def capability_all_def insert_commute Let_def)

lemma group_new_fields [simp]:
  "g_kind (group_new i k nm) = k" "g_members (group_new i k nm) = Map.empty"
  "g_id (group_new i k nm) = i" "g_name (group_new i k nm) = nm"
  "g_policies (group_new i k nm) = Map.empty"
  by (cases k; simp add: group_new_def apply_default_role_caps_def Let_def)+

lemma group_apply_finite [simp]:
  "finite (dom (gs_groups (group_apply st e))) = finite (dom (gs_groups st))"
  by (cases e) (auto simp: group_apply_def Let_def split: option.splits)

lemma group_apply_all_finite: "finite (dom (gs_groups (foldl group_apply group_store_empty es)))"
  by (induction es rule: rev_induct) (simp_all add: group_store_empty_def)

text \<open>
  Where a store's capability \<open>c\<close> comes from: a group that gives it to one of its roles was
  made an administrators' group, or the log set the capabilities of that role.
\<close>

definition grants :: "capability \<Rightarrow> group_log_entry list \<Rightarrow> nat \<Rightarrow> group_role \<Rightarrow> bool" where
  "grants c es gid r \<longleftrightarrow> (\<exists>cs. GroupRoleCapsSet gid r cs \<in> set es \<and> c \<in> set cs)"

definition admin_group :: "group_log_entry list \<Rightarrow> nat \<Rightarrow> bool" where
  "admin_group es gid \<longleftrightarrow> (\<exists>nm. GroupCreate gid KindAdmin nm \<in> set es)"

definition enrolled :: "group_log_entry list \<Rightarrow> nat \<Rightarrow> string \<Rightarrow> group_role \<Rightarrow> bool" where
  "enrolled es gid key r \<longleftrightarrow> (\<exists>m. GroupMemberSet gid m (Some r) \<in> set es \<and> norm_key m = key)"

definition group_from_log :: "group_log_entry list \<Rightarrow> nat \<Rightarrow> group \<Rightarrow> bool" where
  "group_from_log es gid g \<longleftrightarrow>
     (\<exists>nm. GroupCreate gid (g_kind g) nm \<in> set es) \<and>
     (\<forall>k r. g_members g k = Some r \<longrightarrow> k \<noteq> [] \<and> enrolled es gid k r) \<and>
     (\<forall>c r. c \<in> caps_for_role g r \<longrightarrow>
        grants c es gid r \<or> c \<in> caps_for_role (group_new gid (g_kind g) []) r)"

definition store_from_log :: "group_log_entry list \<Rightarrow> group_store \<Rightarrow> bool" where
  "store_from_log es st \<longleftrightarrow> (\<forall>gid g. gs_groups st gid = Some g \<longrightarrow> group_from_log es gid g)"

lemma group_from_log_mono: "group_from_log es gid g \<Longrightarrow> group_from_log (es @ [e]) gid g"
  unfolding group_from_log_def enrolled_def grants_def by (simp, blast)

lemma group_from_log_new: "group_from_log (es @ [GroupCreate gid k nm]) gid (group_new gid k nm)"
  by (auto simp: group_from_log_def group_new_caps split: if_splits)

lemma group_from_log_member:
  assumes "group_from_log es gid g" "norm_key m \<noteq> []"
  shows "group_from_log (es @ [GroupMemberSet gid m role]) gid
    (g\<lparr>g_members := (g_members g)(norm_key m := role)\<rparr>)"
proof -
  have g: "group_from_log (es @ [GroupMemberSet gid m role]) gid g"
    by (rule group_from_log_mono [OF assms(1)])
  have "enrolled (es @ [GroupMemberSet gid m (Some r)]) gid (norm_key m) r" for r
    by (auto simp: enrolled_def)
  with g assms(2) show ?thesis
    by (simp add: group_from_log_def caps_for_role_def)
qed

lemma group_from_log_policy:
  "group_from_log es gid g \<Longrightarrow> group_from_log es gid (g\<lparr>g_policies := p\<rparr>)"
  by (simp add: group_from_log_def caps_for_role_def)

lemma group_from_log_role_caps:
  assumes "group_from_log es gid g"
  shows "group_from_log (es @ [GroupRoleCapsSet gid role cs]) gid
    (g\<lparr>g_role_caps := (g_role_caps g)(role \<mapsto> set cs)\<rparr>)"
proof -
  let ?es = "es @ [GroupRoleCapsSet gid role cs]"
  have g: "group_from_log ?es gid g" by (rule group_from_log_mono [OF assms])
  have "grants c ?es gid role" if "c \<in> set cs" for c
    using that by (auto simp: grants_def)
  with g show ?thesis by (simp add: group_from_log_def caps_for_role_def)
qed

lemma store_from_log_mono: "store_from_log es st \<Longrightarrow> store_from_log (es @ [e]) st"
  by (simp add: store_from_log_def group_from_log_mono)

lemma store_from_log_upd:
  "store_from_log es st \<Longrightarrow> group_from_log es gid h \<Longrightarrow>
     store_from_log es (st\<lparr>gs_groups := (gs_groups st)(gid \<mapsto> h)\<rparr>)"
  by (simp add: store_from_log_def)

lemma group_apply_from_log:
  assumes "store_from_log es st"
  shows "store_from_log (es @ [e]) (group_apply st e)"
proof -
  note st = store_from_log_mono [OF assms]
  have g: "group_from_log es gid g" if "gs_groups st gid = Some g" for gid g
    using assms that by (simp add: store_from_log_def)
  show ?thesis
  proof (cases e)
    case (GroupCreate gid kind nm)
    then show ?thesis
      using st [of e] by (simp add: group_apply_def Let_def store_from_log_def group_from_log_new)
  next
    case (GroupMemberSet gid m role)
    then show ?thesis
      using st [of e] g
      by (auto simp: group_apply_def Let_def split: option.splits
          intro!: store_from_log_upd group_from_log_member)
  next
    case (GroupPolicySet gid k v)
    then show ?thesis
      using st [of e] g
      by (auto simp: group_apply_def Let_def split: option.splits
          intro!: store_from_log_upd group_from_log_policy group_from_log_mono)
  next
    case (GroupRoleCapsSet gid role cs)
    then show ?thesis
      using st [of e] g
      by (auto simp: group_apply_def split: option.splits
          intro!: store_from_log_upd group_from_log_role_caps)
  qed
qed

lemma group_replay_from_log: "store_from_log es (foldl group_apply group_store_empty es)"
proof (induction es rule: rev_induct)
  case Nil
  show ?case by (simp add: store_from_log_def group_store_empty_def)
next
  case (snoc e es)
  then show ?case by (simp add: group_apply_from_log)
qed

text \<open>
  C10. Nobody becomes an administrator by accident: if the store built from a log, by any
  entries in any order, gives a principal a capability outside the five for managing a
  group, then that principal (or, through a class group, its class) has a role in some group
  of the log, and either the log granted the capability to that role by name, or the group
  was created as an administrators' group and the role is one the log itself enrolled the
  principal's name with, not the guest's.
\<close>

theorem capabilities_come_from_the_log:
  assumes "iter_ok iter"
    and "c \<in> effective_caps_for_principal iter (foldl group_apply group_store_empty es) prin cls"
    and "c \<notin> {GroupMemberAdd, GroupMemberRemove, GroupRoleSet, GroupPolicySetCap,
      GroupRoleCapsSetCap}"
  shows "\<exists>gid r. role_for_principal_in_group (foldl group_apply group_store_empty es) gid prin cls = Some r
    \<and> (grants c es gid r \<or> (admin_group es gid \<and> enrolled es gid (norm_key prin) r \<and> r \<noteq> Guest))"
proof -
  let ?st = "foldl group_apply group_store_empty es"
  obtain gid g r where g: "gs_groups ?st gid = Some g"
    and r: "role_in_group g (norm_key prin) cls = Some r" and c: "c \<in> caps_for_role g r"
    using assms(2) effective_caps_iff [OF assms(1) group_apply_all_finite] by blast
  have log: "group_from_log es gid g"
    using group_replay_from_log [of es] g by (simp add: store_from_log_def)
  have role: "role_for_principal_in_group ?st gid prin cls = Some r"
    using g r by (simp add: role_for_principal_in_group_def)
  show ?thesis
  proof (cases "grants c es gid r")
    case False
    with log c have d: "c \<in> caps_for_role (group_new gid (g_kind g) []) r"
      unfolding group_from_log_def by blast
    with assms(3) have k: "g_kind g = KindAdmin" "r \<noteq> Guest"
      by (auto simp: group_new_caps split: if_splits)
    with r have "g_members g (norm_key prin) = Some r"
      by (simp add: role_in_group_def implied_role_for_class_def split: option.splits)
    with log k have "admin_group es gid" "enrolled es gid (norm_key prin) r"
      by (auto simp: group_from_log_def admin_group_def)
    with role k show ?thesis by blast
  next
    case True
    with role show ?thesis by blast
  qed
qed

definition demo_group_log :: "group_log_entry list" where
  "demo_group_log = [GroupCreate 1 KindAdmin ''admins'', GroupMemberSet 1 ''Ann'' (Some Member)]"

theorem capabilities_come_from_the_log_witness:
  "AdminAll \<in> effective_caps_for_principal (\<lambda>P. sorted_list_of_set {x. P x})
     (foldl group_apply group_store_empty demo_group_log) '' ann'' ''wizard''
   \<and> (\<exists>gid r. admin_group demo_group_log gid \<and> enrolled demo_group_log gid (norm_key '' ann'') r)"
proof -
  let ?g = "(group_new 1 KindAdmin ''admins'')\<lparr>g_members := [''ann'' \<mapsto> Member]\<rparr>"
  have k: "norm_key ''Ann'' = ''ann''" "norm_key '' ann'' = ''ann''" by code_simp+
  have "gs_groups (foldl group_apply group_store_empty demo_group_log) 1 = Some ?g"
    by (simp add: demo_group_log_def group_apply_def k Let_def)
  moreover have "AdminAll \<in> caps_for_role ?g Member"
    using group_new_caps [of 1 KindAdmin "''admins''" Member]
    by (simp add: caps_for_role_def capability_all_def)
  moreover have "role_in_group ?g (norm_key '' ann'') ''wizard'' = Some Member"
    by (simp add: role_in_group_def k)
  ultimately have a: "AdminAll \<in> effective_caps_for_principal (\<lambda>P. sorted_list_of_set {x. P x})
      (foldl group_apply group_store_empty demo_group_log) '' ann'' ''wizard''"
    using effective_caps_iff [OF iter_ok_sorted group_apply_all_finite] by blast
  have "\<not> grants AdminAll demo_group_log gid r" for gid r
    by (simp add: grants_def demo_group_log_def)
  with capabilities_come_from_the_log [OF iter_ok_sorted a] a show ?thesis by blast
qed

end
