(* ===== verification/Rooms.thy ===== *)
theory Rooms
  imports Interfaces
begin

text \<open>
  The map of the world (\<open>apps/shard_01/src/rooms.rs\<close>): rooms with named exits, the static
  rooms and the dynamic ones of the adventure instances that hide them, how an exit is found
  from what a player types, and how the world is put together at start from the compiled-in
  areas and the overlay files.

  The FlatBuffers reader and the YAML parser are not under \<open>src/\<close> as code of this program:
  \<open>load_rooms\<close> starts from what they return.
\<close>

section \<open>Text\<close>

definition crlf :: string where
  "crlf = [CHR 0x0D, CHR 0x0A]"

definition literal_crlf :: string where
  "literal_crlf = [CHR 0x5C, CHR ''r'', CHR 0x5C, CHR ''n'']"

section \<open>Rooms and exits\<close>

record exit_def =
  ex_dir :: string
  ex_to :: string
  ex_sealed :: bool
  ex_gate :: "string option"

record room_def =
  rd_name :: string
  rd_description :: string
  rd_area_name :: string
  rd_exits :: "exit_def list"

record area_summary =
  as_zone_id :: string
  as_zone_name :: string
  as_start_room :: "string option"
  as_room_count :: nat

record rooms =
  rm_rooms :: "string \<rightharpoonup> room_def"
  rm_dyn_rooms :: "string \<rightharpoonup> room_def"
  rm_start_room :: string
  rm_areas :: "area_summary list"

section \<open>Loading\<close>

text \<open>What the FlatBuffers tables give: every field may be absent.\<close>

record fb_exit =
  fe_dir :: "string option"
  fe_to :: "string option"

record fb_room =
  fr_id :: "string option"
  fr_name :: "string option"
  fr_description :: "string option"
  fr_exits :: "fb_exit list option"

record fb_area =
  fa_id :: "string option"
  fa_name :: "string option"
  fa_rooms :: "fb_room list option"

text \<open>What the YAML of an area gives.\<close>

record area_exit =
  ae_dir :: string
  ae_to :: string
  ae_state :: "string option"
  ae_gate :: "string option"

record area_room =
  ar_id :: string
  ar_name :: string
  ar_desc :: "string option"
  ar_exits :: "area_exit list option"

record area_file =
  af_zone_id :: string
  af_zone_name :: "string option"
  af_start_room :: "string option"
  af_rooms :: "area_room list"

definition opt_or :: "'a \<Rightarrow> 'a option \<Rightarrow> 'a" where
  "opt_or d x = (case x of None \<Rightarrow> d | Some y \<Rightarrow> y)"

definition load_fb_exit :: "fb_exit \<Rightarrow> exit_def option" where
  "load_fb_exit e =
     (let dir = opt_or [] (fe_dir e); to = opt_or [] (fe_to e) in
      if dir \<noteq> [] \<and> to \<noteq> [] then
        Some \<lparr>ex_dir = dir, ex_to = to, ex_sealed = False, ex_gate = None\<rparr>
      else None)"

definition load_fb_room ::
  "string \<Rightarrow> (string \<rightharpoonup> room_def) \<times> string option \<Rightarrow> fb_room \<Rightarrow>
   (string \<rightharpoonup> room_def) \<times> string option" where
  "load_fb_room area_name acc r =
     (let (rs, start) = acc;
          i = opt_or ''unknown'' (fr_id r);
          exits = (case fr_exits r of None \<Rightarrow> [] | Some es \<Rightarrow> List.map_filter load_fb_exit es)
      in (rs(i \<mapsto> \<lparr>rd_name = opt_or i (fr_name r), rd_description = opt_or [] (fr_description r),
                  rd_area_name = area_name, rd_exits = exits\<rparr>),
          (case start of None \<Rightarrow> Some i | Some s \<Rightarrow> Some s)))"

definition load_fb_area ::
  "(string \<rightharpoonup> room_def) \<times> string option \<Rightarrow> fb_area \<Rightarrow> (string \<rightharpoonup> room_def) \<times> string option" where
  "load_fb_area acc a =
     (let area_id = opt_or ''unknown'' (fa_id a); area_name = opt_or area_id (fa_name a) in
      case fa_rooms a of
        None \<Rightarrow> acc
      | Some rs \<Rightarrow> foldl (load_fb_room area_name) acc rs)"

definition load_area_exit :: "area_exit \<Rightarrow> exit_def option" where
  "load_area_exit e =
     (let dir = trim (ae_dir e); to = trim (ae_to e) in
      if dir \<noteq> [] \<and> to \<noteq> [] then
        Some \<lparr>ex_dir = dir, ex_to = to, ex_sealed = (ae_state e = Some ''sealed''),
              ex_gate = (case ae_gate e of
                           None \<Rightarrow> None
                         | Some g \<Rightarrow> if trim g = [] then None else Some (trim g))\<rparr>
      else None)"

definition load_area_room :: "string \<Rightarrow> (string \<rightharpoonup> room_def) \<Rightarrow> area_room \<Rightarrow> (string \<rightharpoonup> room_def)" where
  "load_area_room area_name rs r =
     rs(ar_id r \<mapsto>
       \<lparr>rd_name = ar_name r, rd_description = trim (opt_or [] (ar_desc r)),
        rd_area_name = area_name,
        rd_exits = (case ar_exits r of None \<Rightarrow> [] | Some es \<Rightarrow> List.map_filter load_area_exit es)\<rparr>)"

definition load_area ::
  "(string \<rightharpoonup> room_def) \<times> string option \<times> area_summary list \<Rightarrow> area_file \<Rightarrow>
   (string \<rightharpoonup> room_def) \<times> string option \<times> area_summary list" where
  "load_area acc a =
     (let (rs, preferred, areas) = acc;
          area_name = opt_or (af_zone_id a) (af_zone_name a)
      in (foldl (load_area_room area_name) rs (af_rooms a),
          (if preferred = None \<and> af_zone_id a = ''newbie_school'' then af_start_room a
           else preferred),
          areas @ [\<lparr>as_zone_id = af_zone_id a, as_zone_name = area_name,
                    as_start_room = af_start_room a, as_room_count = length (af_rooms a)\<rparr>]))"

text \<open>\<open>None\<close> is the error "no rooms loaded".\<close>

definition load_rooms :: "fb_area list \<Rightarrow> area_file list \<Rightarrow> rooms option" where
  "load_rooms fb_areas files =
     (case foldl load_fb_area (Map.empty, None) fb_areas of
        (_, None) \<Rightarrow> None
      | (rs0, Some start0) \<Rightarrow>
          (let (rs, preferred, areas) = foldl load_area (rs0, None, []) files;
               start =
                 (case preferred of
                    Some sr \<Rightarrow> if rs sr \<noteq> None then sr else start0
                  | None \<Rightarrow> if rs ''newbie_school.orientation'' \<noteq> None
                            then ''newbie_school.orientation'' else start0)
           in Some \<lparr>rm_rooms = rs, rm_dyn_rooms = Map.empty, rm_start_room = start,
                    rm_areas = sort_key as_zone_id areas\<rparr>))"

section \<open>Operations\<close>

definition get_room :: "rooms \<Rightarrow> string \<Rightarrow> room_def option" where
  "get_room rs i = (case rm_dyn_rooms rs i of Some r \<Rightarrow> Some r | None \<Rightarrow> rm_rooms rs i)"

definition has_room :: "rooms \<Rightarrow> string \<Rightarrow> bool" where
  "has_room rs i \<longleftrightarrow> rm_dyn_rooms rs i \<noteq> None \<or> rm_rooms rs i \<noteq> None"

definition clear_dyn_rooms_with_prefix :: "rooms \<Rightarrow> string \<Rightarrow> rooms" where
  "clear_dyn_rooms_with_prefix rs pre =
     (let p = (if suffix ''.'' pre then pre else pre @ ''.'') in
      rs\<lparr>rm_dyn_rooms := (\<lambda>k. if prefix p k then None else rm_dyn_rooms rs k)\<rparr>)"

definition insert_room :: "rooms \<Rightarrow> string \<Rightarrow> room_def \<Rightarrow> rooms" where
  "insert_room rs i d = rs\<lparr>rm_dyn_rooms := (rm_dyn_rooms rs)(i \<mapsto> d)\<rparr>"

definition normalize_dir_token :: "string \<Rightarrow> string option" where
  "normalize_dir_token t = map_of
     [(''north'', ''north''), (''n'', ''north''), (''south'', ''south''), (''s'', ''south''),
      (''east'', ''east''), (''e'', ''east''), (''west'', ''west''), (''w'', ''west''),
      (''up'', ''up''), (''u'', ''up''), (''down'', ''down''), (''d'', ''down'')]
     (to_ascii_lowercase t)"

text \<open>The only exit whose name starts with a letter, if there is exactly one.\<close>

definition unique_exit :: "string \<Rightarrow> exit_def list \<Rightarrow> exit_def option" where
  "unique_exit t es =
     (case filter (\<lambda>e. prefix t (to_ascii_lowercase (ex_dir e))) es of
        [e] \<Rightarrow> Some e
      | _ \<Rightarrow> None)"

definition find_exit :: "rooms \<Rightarrow> string \<Rightarrow> string \<Rightarrow> exit_def option" where
  "find_exit rs room_id token =
     (case get_room rs room_id of
        None \<Rightarrow> None
      | Some room \<Rightarrow>
          (let t = trim token in
           if t = [] then None
           else
             (case find (\<lambda>e. eq_ignore_ascii_case (ex_dir e) t) (rd_exits room) of
                Some e \<Rightarrow> Some e
              | None \<Rightarrow>
                  (case normalize_dir_token t of
                     None \<Rightarrow>
                       (let t_lc = to_ascii_lowercase t in
                        if length t_lc = 1 then unique_exit t_lc (rd_exits room) else None)
                   | Some canon \<Rightarrow>
                       find (\<lambda>e. eq_ignore_ascii_case (ex_dir e) canon) (rd_exits room)))))"

definition format_exit_label :: "string \<Rightarrow> string" where
  "format_exit_label dir =
     (case map_of
        [(''north'', ''north (n)''), (''south'', ''south (s)''), (''east'', ''east (e)''),
         (''west'', ''west (w)''), (''up'', ''up (u)''), (''down'', ''down (d)''),
         (''back'', ''back (b)'')] (to_ascii_lowercase dir) of
        Some l \<Rightarrow> l
      | None \<Rightarrow> dir)"

definition render_exits :: "rooms \<Rightarrow> string \<Rightarrow> string" where
  "render_exits rs room_id =
     (case get_room rs room_id of
        None \<Rightarrow> ''exits: (room not found)'' @ crlf
      | Some room \<Rightarrow>
          (if rd_exits room = [] then ''exits: none'' @ crlf
           else ''exits: '' @
             join_with '', '' (sort (map (\<lambda>e. format_exit_label (ex_dir e)) (rd_exits room))) @
             crlf))"

definition render_room :: "rooms \<Rightarrow> string \<Rightarrow> string" where
  "render_room rs room_id =
     (case get_room rs room_id of
        None \<Rightarrow> ''room not found'' @ crlf
      | Some room \<Rightarrow>
          ''== '' @ rd_name room @ '' ('' @ rd_area_name room @ '') ['' @ room_id @ ''] =='' @ crlf @
          (if rd_description room = [] then [] else rd_description room @ crlf) @
          render_exits rs room_id)"

definition exits_raw :: "rooms \<Rightarrow> string \<Rightarrow> exit_def list" where
  "exits_raw rs room_id =
     (case get_room rs room_id of None \<Rightarrow> [] | Some room \<Rightarrow> rd_exits room)"

text \<open>The escaped line ends are the source's: it prints a backslash and a letter.\<close>

definition render_areas :: "((string \<Rightarrow> bool) \<Rightarrow> string list) \<Rightarrow> rooms \<Rightarrow> string" where
  "render_areas iter rs =
     (if rm_areas rs = [] then
        (let xs = remdups_adj (sort (map (\<lambda>k. rd_area_name (the (rm_rooms rs k)))
                    (map_keys iter (rm_rooms rs))))
         in ''areas: '' @ show_nat (length xs) @ literal_crlf @
            concat (map (\<lambda>n. '' - '' @ n @ literal_crlf) xs))
      else
        ''areas: '' @ show_nat (length (rm_areas rs)) @ literal_crlf @
        concat (map (\<lambda>a. '' - '' @ as_zone_id a @ '' ('' @ as_zone_name a @ '')'' @
            '' rooms='' @ show_nat (as_room_count a) @ '' start='' @
            opt_or ''-'' (as_start_room a) @ literal_crlf) (rm_areas rs)))"

section \<open>Lemmas\<close>

lemma has_room_iff: "has_room rs i \<longleftrightarrow> get_room rs i \<noteq> None"
  by (auto simp: has_room_def get_room_def split: option.splits)

lemma get_insert_room [simp]:
  "get_room (insert_room rs i d) j = (if j = i then Some d else get_room rs j)"
  by (simp add: get_room_def insert_room_def split: option.splits)

lemma has_insert_room [simp]: "has_room (insert_room rs i d) j \<longleftrightarrow> j = i \<or> has_room rs j"
  by (simp add: has_room_iff)

lemma start_insert_room [simp]: "rm_start_room (insert_room rs i d) = rm_start_room rs"
  by (simp add: insert_room_def)

lemma start_clear_dyn [simp]: "rm_start_room (clear_dyn_rooms_with_prefix rs p) = rm_start_room rs"
  by (simp add: clear_dyn_rooms_with_prefix_def Let_def)

lemma static_rooms_kept [simp]:
  "rm_rooms (insert_room rs i d) = rm_rooms rs"
  "rm_rooms (clear_dyn_rooms_with_prefix rs p) = rm_rooms rs"
  by (simp_all add: insert_room_def clear_dyn_rooms_with_prefix_def Let_def)

lemma find_exit_in_room:
  "find_exit rs room_id token = Some e \<Longrightarrow>
     \<exists>r. get_room rs room_id = Some r \<and> e \<in> set (rd_exits r)"
proof -
  assume *: "find_exit rs room_id token = Some e"
  then obtain r where r: "get_room rs room_id = Some r"
    by (auto simp: find_exit_def split: option.splits)
  have f: "find P xs = Some e \<Longrightarrow> e \<in> set xs" for P xs
    unfolding find_Some_iff by auto
  have u: "e \<in> set xs" if "unique_exit t xs = Some e" for t xs
  proof -
    from that have "filter (\<lambda>e. prefix t (to_ascii_lowercase (ex_dir e))) xs = [e]"
      by (auto simp: unique_exit_def split: list.splits)
    then have "e \<in> set (filter (\<lambda>e. prefix t (to_ascii_lowercase (ex_dir e))) xs)" by simp
    then show ?thesis by simp
  qed
  from * r show ?thesis
    by (auto simp: find_exit_def Let_def split: option.splits if_splits dest: f u)
qed

text \<open>Loading keeps what it has loaded: a room once there stays, and the first one is there.\<close>

definition start_ok :: "(string \<rightharpoonup> room_def) \<times> string option \<Rightarrow> bool" where
  "start_ok acc \<longleftrightarrow> (case snd acc of None \<Rightarrow> True | Some s \<Rightarrow> fst acc s \<noteq> None)"

lemma load_fb_room_start: "start_ok acc \<Longrightarrow> start_ok (load_fb_room n acc r)"
  by (auto simp: start_ok_def load_fb_room_def Let_def split: prod.splits option.splits)

lemma foldl_inv: "(\<And>a x. P a \<Longrightarrow> P (f a x)) \<Longrightarrow> P a \<Longrightarrow> P (foldl f a xs)"
  by (induction xs arbitrary: a) auto

lemma load_fb_area_start: "start_ok acc \<Longrightarrow> start_ok (load_fb_area acc a)"
  by (auto simp: load_fb_area_def Let_def split: option.splits
      intro!: foldl_inv [of start_ok] load_fb_room_start)

lemma load_area_room_keeps: "rs i \<noteq> None \<Longrightarrow> load_area_room n rs r i \<noteq> None"
  by (simp add: load_area_room_def)

lemma foldl_load_area_room_keeps: "rs i \<noteq> None \<Longrightarrow> foldl (load_area_room n) rs xs i \<noteq> None"
  by (rule foldl_inv [of "\<lambda>rs. rs i \<noteq> None"]) (rule load_area_room_keeps)

lemma load_area_keeps: "fst acc i \<noteq> None \<Longrightarrow> fst (load_area acc a) i \<noteq> None"
  using foldl_load_area_room_keeps by (cases acc) (simp add: load_area_def Let_def)

lemma foldl_load_area_keeps: "fst acc i \<noteq> None \<Longrightarrow> fst (foldl load_area acc fs) i \<noteq> None"
  by (rule foldl_inv [of "\<lambda>acc. fst acc i \<noteq> None"]) (rule load_area_keeps)

lemma load_rooms_start:
  assumes "load_rooms fbs fs = Some rs"
  shows "has_room rs (rm_start_room rs)"
proof -
  obtain rs0 s0 where b: "foldl load_fb_area (Map.empty, None) fbs = (rs0, Some s0)"
    using assms by (auto simp: load_rooms_def split: prod.splits option.splits)
  have "start_ok (foldl load_fb_area (Map.empty, None) fbs)"
    by (rule foldl_inv [of start_ok], erule load_fb_area_start) (simp add: start_ok_def)
  then have s0: "rs0 s0 \<noteq> None" by (simp add: b start_ok_def)
  obtain rs1 pr ar where f: "foldl load_area (rs0, None, []) fs = (rs1, pr, ar)"
    by (cases "foldl load_area (rs0, None, []) fs")
  have "rs1 s0 \<noteq> None"
    using foldl_load_area_keeps [of "(rs0, None, [])" s0 fs] s0 by (simp add: f)
  with assms show ?thesis
    by (auto simp: load_rooms_def b f Let_def has_room_def split: option.splits if_splits)
qed

lemma find_exit_get_room: "find_exit rs room_id token = Some e \<Longrightarrow> get_room rs room_id \<noteq> None"
  using find_exit_in_room by fastforce

end
