(* ===== verification/Charstate.thy ===== *)
theory Charstate
  imports CharData GroupStore Rooms
begin

text \<open>
  The characters of the shard (\<open>apps/shard_01/src/main.rs\<close>): the record \<open>Character\<close> with its
  combat state and equipment, the lookups in an inventory and in the equipment, the derived
  defence numbers, what the inventory and equipment commands print, and the snapshot in which a
  player is stored and from which it is restored.

  Identifiers of characters and sessions are naturals. \<open>HashMap\<close> fields are maps, \<open>HashSet\<close>
  fields are sets; where the code iterates over one, the order is an argument.
\<close>

section \<open>Characters\<close>

record combat_state =
  cs_autoattack :: bool
  cs_target :: "nat option"
  cs_next_ready_ms :: nat
  cs_seq :: nat

definition combat_state_new :: "nat \<Rightarrow> combat_state" where
  "combat_state_new now =
     \<lparr>cs_autoattack = False, cs_target = None, cs_next_ready_ms = now, cs_seq = 0\<rparr>"

type_synonym equipment = "equip_slot \<rightharpoonup> string"

definition equipment_set :: "equipment \<Rightarrow> equip_slot \<Rightarrow> string \<Rightarrow> equipment" where
  "equipment_set eq slot item = eq(slot \<mapsto> item)"

definition equipment_clear :: "equipment \<Rightarrow> equip_slot \<Rightarrow> string option \<times> equipment" where
  "equipment_clear eq slot = (eq slot, eq(slot := None))"

record character =
  c_id :: nat
  c_controller :: "nat option"
  c_created_by :: "nat option"
  c_name :: string
  c_principal :: string
  c_auth_caps :: "capability set"
  c_is_bot :: bool
  c_bot_ever :: bool
  c_bot_ever_since_ms :: "nat option"
  c_bot_mode_changed_ms :: nat
  c_friends :: "string set"
  c_room_id :: string
  c_autoassist :: bool
  c_follow_leader :: bool
  c_drink_level :: nat
  c_gold :: nat
  c_inv :: "string \<rightharpoonup> nat"
  c_quest :: "string \<rightharpoonup> string"
  c_class :: "char_class option"
  c_level :: nat
  c_xp :: nat
  c_skill_points :: nat
  c_skills :: "string \<rightharpoonup> nat"
  c_skill_cd_ms :: "string \<rightharpoonup> nat"
  c_race :: "race option"
  c_sex :: sex
  c_pronouns :: pronoun_key
  c_stats :: ability_scores
  c_hp :: int
  c_max_hp :: int
  c_mana :: int
  c_max_mana :: int
  c_stamina :: int
  c_max_stamina :: int
  c_last_mana_regen_ms :: nat
  c_last_stamina_regen_ms :: nat
  c_pvp_enabled :: bool
  c_stunned_until_ms :: nat
  c_combat :: combat_state
  c_equip :: equipment

definition is_built :: "character \<Rightarrow> bool" where
  "is_built p \<longleftrightarrow> c_race p \<noteq> None \<and> c_class p \<noteq> None"

definition is_player :: "character \<Rightarrow> bool" where
  "is_player c \<longleftrightarrow> c_controller c \<noteq> None"

fun starter_kit_for_size :: "item_size \<Rightarrow> (string \<times> nat) list" where
  "starter_kit_for_size Small =
     [(''practice sword (small)'', 1), (''wooden buckler (small)'', 1),
      (''training tunic (small)'', 1), (''training boots (small)'', 1), (''field bandage'', 3)]"
| "starter_kit_for_size Medium =
     [(''practice sword (medium)'', 1), (''wooden buckler (medium)'', 1),
      (''training tunic (medium)'', 1), (''training boots (medium)'', 1), (''field bandage'', 3)]"
| "starter_kit_for_size Large =
     [(''practice sword (medium)'', 1), (''wooden buckler (medium)'', 1),
      (''training tunic (medium)'', 1), (''training boots (medium)'', 1), (''field bandage'', 3)]"

section \<open>Inventory and equipment\<close>

definition item_name_matches_token :: "string \<Rightarrow> string \<Rightarrow> bool" where
  "item_name_matches_token item_name token =
     (case find_item_def item_name of
        Some d \<Rightarrow> matches_token d token
      | None \<Rightarrow>
          (let t = norm_key token in
           if t = [] then False
           else (let name_lc = norm_key item_name in name_lc = t \<or> prefix t name_lc)))"

datatype item_key_match = KeyNone | KeyOne string | KeyAmbiguous "string list"

definition find_item_key_in_inventory ::
  "((string \<Rightarrow> bool) \<Rightarrow> string list) \<Rightarrow> (string \<rightharpoonup> nat) \<Rightarrow> string \<Rightarrow> item_key_match" where
  "find_item_key_in_inventory iter bag token =
     (let t = trim token in
      if t = [] then KeyNone
      else
        let matches = filter (\<lambda>k. the (bag k) > 0 \<and> item_name_matches_token k t) (map_keys iter bag)
        in case matches of
             [] \<Rightarrow> KeyNone
           | [k] \<Rightarrow> KeyOne k
           | _ \<Rightarrow>
               (case filter (\<lambda>k. eq_ignore_ascii_case k t) matches of
                  [k] \<Rightarrow> KeyOne k
                | _ \<Rightarrow> KeyAmbiguous (remdups_adj (sort matches))))"

datatype slot_match = SlotNone | SlotOne equip_slot | SlotAmbiguous "equip_slot list"

definition find_equipped_slot_by_token :: "equipment \<Rightarrow> string \<Rightarrow> slot_match" where
  "find_equipped_slot_by_token eq token =
     (let t = trim token in
      if t = [] then SlotNone
      else
        (case filter (\<lambda>slot. case eq slot of None \<Rightarrow> False | Some nm \<Rightarrow> item_name_matches_token nm t)
           equip_slot_all of
           [] \<Rightarrow> SlotNone
         | [slot] \<Rightarrow> SlotOne slot
         | slots \<Rightarrow> SlotAmbiguous slots))"

definition equipped_armor_value :: "character \<Rightarrow> int" where
  "equipped_armor_value c =
     foldl (\<lambda>av slot.
         case c_equip c slot of
           None \<Rightarrow> av
         | Some nm \<Rightarrow>
             (case find_item_def nm of
                None \<Rightarrow> av
              | Some d \<Rightarrow>
                  (case it_kind d of Armor _ v _ \<Rightarrow> sat_add_i32 av v | _ \<Rightarrow> av)))
       0 equip_slot_all"

definition equipped_weapon_damage_range :: "character \<Rightarrow> (int \<times> int) option" where
  "equipped_weapon_damage_range c =
     (case c_equip c SlotWield of
        None \<Rightarrow> None
      | Some nm \<Rightarrow>
          (case find_item_def nm of
             None \<Rightarrow> None
           | Some d \<Rightarrow> (case it_kind d of Weapon a b \<Rightarrow> Some (a, b) | _ \<Rightarrow> None)))"

definition compute_ac :: "character \<Rightarrow> int" where
  "compute_ac c = wrap_i32 (10 + mod_for (c_stats c) ADex + equipped_armor_value c)"

definition render_inventory :: "((string \<Rightarrow> bool) \<Rightarrow> string list) \<Rightarrow> character \<Rightarrow> string" where
  "render_inventory iter c =
     ''inventory:'' @ crlf @ '' - gold: '' @ show_nat (c_gold c) @ ''g'' @ crlf @
     (let items = sort (filter (\<lambda>k. the (c_inv c k) > 0) (map_keys iter (c_inv c))) in
      if items = [] then '' - (empty)'' @ crlf
      else concat (map (\<lambda>k. '' - '' @ k @ '' x'' @ show_nat (the (c_inv c k)) @ crlf) items))"

definition render_slot :: "equip_slot \<Rightarrow> string option \<Rightarrow> string" where
  "render_slot slot nm =
     '' - '' @ equip_slot_as_str slot @ '': '' @
     (case nm of
        None \<Rightarrow> ''(empty)''
      | Some nm \<Rightarrow>
          (case find_item_def nm of
             None \<Rightarrow> nm
           | Some d \<Rightarrow>
               (let size = (case it_size d of None \<Rightarrow> ''-'' | Some z \<Rightarrow> size_as_str z) in
                case it_kind d of
                  Weapon a b \<Rightarrow>
                    it_name d @ '' [weapon dmg='' @ show_int a @ ''..'' @ show_int b @
                    '' size='' @ size @ '']''
                | Armor _ v cls \<Rightarrow>
                    it_name d @ '' [armor class='' @ armor_class_as_str cls @ '' av='' @
                    show_int v @ '' size='' @ size @ '']''
                | _ \<Rightarrow> it_name d))) @ crlf"

definition render_equipment :: "character \<Rightarrow> string" where
  "render_equipment c =
     ''equipment:'' @ crlf @ concat (map (\<lambda>slot. render_slot slot (c_equip c slot)) equip_slot_all) @
     ''totals:'' @ crlf @ '' - armor value: '' @ show_int (equipped_armor_value c) @ crlf @
     '' - ac: '' @ show_int (compute_ac c) @ crlf"

section \<open>Snapshots\<close>

record player_snapshot =
  sn_name :: string
  sn_principal :: string
  sn_is_bot :: bool
  sn_bot_ever :: bool
  sn_bot_ever_since_ms :: "nat option"
  sn_bot_mode_changed_ms :: nat
  sn_friends :: "string list"
  sn_room_id :: string
  sn_autoassist :: bool
  sn_follow_leader :: bool
  sn_drink_level :: nat
  sn_gold :: nat
  sn_inv :: "string \<rightharpoonup> nat"
  sn_quest :: "string \<rightharpoonup> string"
  sn_class :: string
  sn_level :: nat
  sn_xp :: nat
  sn_skill_points :: nat
  sn_skills :: "string \<rightharpoonup> nat"
  sn_race :: string
  sn_sex :: string
  sn_pronouns :: string
  sn_stats :: ability_scores
  sn_hp :: int
  sn_max_hp :: int
  sn_mana :: int
  sn_max_mana :: int
  sn_stamina :: int
  sn_max_stamina :: int
  sn_pvp_enabled :: bool
  sn_equip :: "string \<rightharpoonup> string"

definition snapshot_equip :: "equipment \<Rightarrow> (string \<rightharpoonup> string)" where
  "snapshot_equip eq =
     foldl (\<lambda>m slot. case eq slot of None \<Rightarrow> m | Some item \<Rightarrow> m(equip_slot_as_str slot \<mapsto> item))
       Map.empty equip_slot_all"

definition from_character ::
  "((string \<Rightarrow> bool) \<Rightarrow> string list) \<Rightarrow> character \<Rightarrow> player_snapshot option" where
  "from_character iter c =
     (case c_race c of
        None \<Rightarrow> None
      | Some r \<Rightarrow>
          (case c_class c of
             None \<Rightarrow> None
           | Some cls \<Rightarrow> Some
               \<lparr>sn_name = c_name c, sn_principal = c_principal c, sn_is_bot = c_is_bot c,
                sn_bot_ever = c_bot_ever c, sn_bot_ever_since_ms = c_bot_ever_since_ms c,
                sn_bot_mode_changed_ms = c_bot_mode_changed_ms c,
                sn_friends = sort (set_elems iter (c_friends c)), sn_room_id = c_room_id c,
                sn_autoassist = c_autoassist c, sn_follow_leader = c_follow_leader c,
                sn_drink_level = c_drink_level c, sn_gold = c_gold c, sn_inv = c_inv c,
                sn_quest = c_quest c, sn_class = class_as_str cls, sn_level = c_level c,
                sn_xp = c_xp c, sn_skill_points = c_skill_points c, sn_skills = c_skills c,
                sn_race = race_as_str r, sn_sex = sex_as_str (c_sex c),
                sn_pronouns = pronoun_as_str (c_pronouns c), sn_stats = c_stats c,
                sn_hp = c_hp c, sn_max_hp = c_max_hp c, sn_mana = c_mana c,
                sn_max_mana = c_max_mana c, sn_stamina = c_stamina c,
                sn_max_stamina = c_max_stamina c, sn_pvp_enabled = c_pvp_enabled c,
                sn_equip = snapshot_equip (c_equip c)\<rparr>))"

text \<open>The equipment from the stored map: entries whose token is no slot are dropped.\<close>

definition restore_equip :: "((string \<Rightarrow> bool) \<Rightarrow> string list) \<Rightarrow> (string \<rightharpoonup> string) \<Rightarrow> equipment" where
  "restore_equip iter m =
     foldl (\<lambda>eq k. case equip_slot_parse k of
                     None \<Rightarrow> eq
                   | Some slot \<Rightarrow> equipment_set eq slot (the (m k)))
       Map.empty (map_keys iter m)"

text \<open>The character \<open>restore_character\<close> builds: identifier, session, time and room given.\<close>

definition restored ::
  "((string \<Rightarrow> bool) \<Rightarrow> string list) \<Rightarrow> nat \<Rightarrow> nat \<Rightarrow> nat \<Rightarrow> string \<Rightarrow> player_snapshot \<Rightarrow> string \<Rightarrow>
   capability set \<Rightarrow> character" where
  "restored iter cid session now room_id sn prin caps =
     (let sx = (case sex_parse (sn_sex sn) of None \<Rightarrow> SexNone | Some x \<Rightarrow> x) in
      \<lparr>c_id = cid, c_controller = Some session, c_created_by = Some session, c_name = sn_name sn,
       c_principal = prin, c_auth_caps = caps, c_is_bot = sn_is_bot sn,
       c_bot_ever = sn_bot_ever sn, c_bot_ever_since_ms = sn_bot_ever_since_ms sn,
       c_bot_mode_changed_ms = sn_bot_mode_changed_ms sn, c_friends = set (sn_friends sn),
       c_room_id = room_id, c_autoassist = sn_autoassist sn,
       c_follow_leader = sn_follow_leader sn, c_drink_level = sn_drink_level sn,
       c_gold = sn_gold sn, c_inv = sn_inv sn, c_quest = sn_quest sn,
       c_class = Some (case class_parse (sn_class sn) of None \<Rightarrow> Fighter | Some x \<Rightarrow> x),
       c_level = max (sn_level sn) 1, c_xp = sn_xp sn, c_skill_points = sn_skill_points sn,
       c_skills = sn_skills sn, c_skill_cd_ms = Map.empty,
       c_race = Some (case race_parse (sn_race sn) of None \<Rightarrow> Human | Some x \<Rightarrow> x),
       c_sex = sx,
       c_pronouns = (case pronoun_parse (sn_pronouns sn) of
                       None \<Rightarrow> default_for_sex sx | Some x \<Rightarrow> x),
       c_stats = sn_stats sn,
       c_hp = min (max (sn_hp sn) 1) (max (sn_max_hp sn) 1), c_max_hp = max (sn_max_hp sn) 1,
       c_mana = min (max (sn_mana sn) 0) (max (sn_max_mana sn) 0),
       c_max_mana = max (sn_max_mana sn) 0,
       c_stamina = min (max (sn_stamina sn) 0) (max (sn_max_stamina sn) 0),
       c_max_stamina = max (sn_max_stamina sn) 0, c_last_mana_regen_ms = now,
       c_last_stamina_regen_ms = now, c_pvp_enabled = sn_pvp_enabled sn,
       c_stunned_until_ms = 0, c_combat = combat_state_new now,
       c_equip = restore_equip iter (sn_equip sn)\<rparr>)"

text \<open>
  The file of players, as its text: one that is absent, cannot be read or cannot be parsed has no
  players.
\<close>

definition load_player_snapshots ::
  "(string \<Rightarrow> player_snapshot list option) \<Rightarrow> string option \<Rightarrow> (string \<rightharpoonup> player_snapshot)" where
  "load_player_snapshots from_json fl =
     (case fl of
        None \<Rightarrow> Map.empty
      | Some s \<Rightarrow>
          (case from_json s of
             None \<Rightarrow> Map.empty
           | Some v \<Rightarrow>
               foldl (\<lambda>m sn. if trim (sn_principal sn) = [] then m else m(sn_principal sn \<mapsto> sn))
                 Map.empty v))"

section \<open>Looking an item up does not depend on the order of the map\<close>

lemma case_one_mset:
  "mset xs = mset ys \<Longrightarrow>
     (case xs of [] \<Rightarrow> a | [k] \<Rightarrow> f k | _ \<Rightarrow> b) = (case ys of [] \<Rightarrow> a | [k] \<Rightarrow> f k | _ \<Rightarrow> b)"
proof -
  assume m: "mset xs = mset ys"
  then have "length xs = length ys" by (rule mset_eq_length)
  then show ?thesis
    using m by (cases xs; cases ys; cases "tl xs"; cases "tl ys") auto
qed

lemma map_keys_mset:
  assumes "iter_ok iter" "iter_ok iter'" "finite (dom m)"
  shows "mset (map_keys iter m) = mset (map_keys iter' m)"
  using assms by (intro set_eq_iff_mset_eq_distinct [THEN iffD1])
    (simp_all add: distinct_map_keys set_map_keys)

definition key_match_of :: "string list \<Rightarrow> string list \<Rightarrow> item_key_match" where
  "key_match_of matches exact =
     (case matches of
        [] \<Rightarrow> KeyNone
      | [k] \<Rightarrow> KeyOne k
      | _ \<Rightarrow> (case exact of
                [] \<Rightarrow> KeyAmbiguous (remdups_adj (sort matches))
              | [k] \<Rightarrow> KeyOne k
              | _ \<Rightarrow> KeyAmbiguous (remdups_adj (sort matches))))"

lemma key_match_of_mset:
  assumes "mset xs = mset ys" "mset es = mset fs"
  shows "key_match_of xs es = key_match_of ys fs"
proof -
  have "sort xs = sort ys" by (rule properties_for_sort) (simp_all add: assms(1))
  have es: "(case es of [] \<Rightarrow> KeyAmbiguous (remdups_adj (sort ys)) | [k] \<Rightarrow> KeyOne k
        | _ \<Rightarrow> KeyAmbiguous (remdups_adj (sort ys))) =
      (case fs of [] \<Rightarrow> KeyAmbiguous (remdups_adj (sort ys)) | [k] \<Rightarrow> KeyOne k
        | _ \<Rightarrow> KeyAmbiguous (remdups_adj (sort ys)))"
    by (rule case_one_mset [OF assms(2)])
  show ?thesis
    unfolding key_match_of_def \<open>sort xs = sort ys\<close> es by (rule case_one_mset [OF assms(1)])
qed

definition item_matches ::
  "((string \<Rightarrow> bool) \<Rightarrow> string list) \<Rightarrow> (string \<rightharpoonup> nat) \<Rightarrow> string \<Rightarrow> string list" where
  "item_matches iter bag t =
     filter (\<lambda>k. the (bag k) > 0 \<and> item_name_matches_token k t) (map_keys iter bag)"

lemma find_item_key_eq:
  "find_item_key_in_inventory iter bag token =
     (let t = trim token in
      if t = [] then KeyNone
      else key_match_of (item_matches iter bag t)
        (filter (\<lambda>k. eq_ignore_ascii_case k t) (item_matches iter bag t)))"
  unfolding find_item_key_in_inventory_def item_matches_def key_match_of_def Let_def
  by (auto split: list.splits)

lemma item_matches_mset:
  assumes "iter_ok iter" "iter_ok iter'" "finite (dom bag)"
  shows "mset (item_matches iter bag t) = mset (item_matches iter' bag t)"
  using map_keys_mset [OF assms] by (simp add: item_matches_def mset_filter)

lemma key_match_of_One:
  "key_match_of xs es = KeyOne k \<Longrightarrow> set es \<subseteq> set xs \<Longrightarrow> k \<in> set xs"
  by (auto simp: key_match_of_def split: list.splits)

text \<open>
  Which item a player means does not depend on the hash order of the inventory: any two
  iteration orders give the same answer, and a single answer is an item the inventory holds at
  least once and whose name, alias or prefix the typed token is.
\<close>

theorem item_lookup_order_free:
  assumes "iter_ok iter" "iter_ok iter'" "finite (dom bag)"
  shows "find_item_key_in_inventory iter bag token = find_item_key_in_inventory iter' bag token
    \<and> (case find_item_key_in_inventory iter bag token of
         KeyOne k \<Rightarrow> (case bag k of Some n \<Rightarrow> n > 0 | None \<Rightarrow> False)
                     \<and> item_name_matches_token k (trim token)
       | _ \<Rightarrow> True)"
proof
  let ?m = "item_matches iter bag (trim token)" and ?m' = "item_matches iter' bag (trim token)"
  have "mset ?m = mset ?m'" by (rule item_matches_mset [OF assms])
  then show "find_item_key_in_inventory iter bag token = find_item_key_in_inventory iter' bag token"
    by (simp add: find_item_key_eq Let_def key_match_of_mset mset_filter)
  have "k \<in> set ?m" if "find_item_key_in_inventory iter bag token = KeyOne k" for k
    using that by (auto simp: find_item_key_eq Let_def split: if_splits intro: key_match_of_One)
  then show "case find_item_key_in_inventory iter bag token of
         KeyOne k \<Rightarrow> (case bag k of Some n \<Rightarrow> n > 0 | None \<Rightarrow> False)
                     \<and> item_name_matches_token k (trim token)
       | _ \<Rightarrow> True"
    using set_map_keys [OF assms(1,3)]
    by (fastforce simp: item_matches_def split: item_key_match.split option.split)
qed

lemma iter_ok_rev_sorted: "iter_ok (\<lambda>P. rev (sorted_list_of_set {x :: 'a::linorder. P x}))"
  by (simp add: iter_ok_def)

theorem item_lookup_order_free_witness:
  "find_item_key_in_inventory (\<lambda>P. sorted_list_of_set {x. P x})
     [''field bandage'' \<mapsto> 2, ''stenchpouch'' \<mapsto> 1] ''bandage''
   = find_item_key_in_inventory (\<lambda>P. rev (sorted_list_of_set {x. P x}))
     [''field bandage'' \<mapsto> 2, ''stenchpouch'' \<mapsto> 1] ''bandage''"
  using item_lookup_order_free [OF iter_ok_sorted iter_ok_rev_sorted,
      of "[''field bandage'' \<mapsto> 2, ''stenchpouch'' \<mapsto> 1]" "''bandage''"]
  by simp

section \<open>Snapshots and restored characters\<close>

lemma snapshot_equip_fold:
  "foldl (\<lambda>m slot. case eq slot of None \<Rightarrow> m | Some item \<Rightarrow> m(equip_slot_as_str slot \<mapsto> item))
     m0 xs (equip_slot_as_str slot) =
   (if slot \<in> set xs \<and> eq slot \<noteq> None then eq slot else m0 (equip_slot_as_str slot))"
  by (induction xs arbitrary: m0) (auto simp: slots.as_str_inj split: option.splits)

lemma snapshot_equip_dom:
  "dom (foldl (\<lambda>m slot. case eq slot of None \<Rightarrow> m | Some item \<Rightarrow> m(equip_slot_as_str slot \<mapsto> item))
     m0 xs) \<subseteq> dom m0 \<union> range equip_slot_as_str"
proof (induction xs arbitrary: m0)
  case Nil
  then show ?case by auto
next
  case (Cons x xs)
  have "dom (case eq x of None \<Rightarrow> m0 | Some item \<Rightarrow> m0(equip_slot_as_str x \<mapsto> item))
      \<subseteq> dom m0 \<union> range equip_slot_as_str"
    by (auto split: option.splits)
  with Cons.IH [of "case eq x of None \<Rightarrow> m0 | Some item \<Rightarrow> m0(equip_slot_as_str x \<mapsto> item)"]
  show ?case by auto
qed

lemma snapshot_equip_slot: "snapshot_equip eq (equip_slot_as_str slot) = eq slot"
  by (simp add: snapshot_equip_def snapshot_equip_fold equip_slot_all_set)

lemma snapshot_equip_keys: "dom (snapshot_equip eq) \<subseteq> range equip_slot_as_str"
  using snapshot_equip_dom [of eq Map.empty equip_slot_all] by (simp add: snapshot_equip_def)

lemma finite_slot_tokens: "finite (range equip_slot_as_str)"
  by (rule finite_imageI) (metis List.finite_set slots.vals_exhaustive)

lemma restore_equip_fold:
  "set ks \<subseteq> range equip_slot_as_str \<Longrightarrow>
     foldl (\<lambda>eq k. case equip_slot_parse k of None \<Rightarrow> eq
                   | Some slot \<Rightarrow> equipment_set eq slot (the (m k))) eq0 ks slot =
     (if equip_slot_as_str slot \<in> set ks then Some (the (m (equip_slot_as_str slot))) else eq0 slot)"
  by (induction ks arbitrary: eq0)
    (auto simp: equipment_set_def slots.parse_as_str slots.as_str_inj)

lemma restore_snapshot_equip:
  assumes "iter_ok iter"
  shows "restore_equip iter (snapshot_equip eq) = eq"
proof (rule ext)
  fix slot
  have f: "finite (dom (snapshot_equip eq))"
    using snapshot_equip_keys finite_slot_tokens by (rule finite_subset)
  have "set (map_keys iter (snapshot_equip eq)) \<subseteq> range equip_slot_as_str"
    by (simp add: set_map_keys [OF assms f] snapshot_equip_keys)
  then have "restore_equip iter (snapshot_equip eq) slot =
      (if equip_slot_as_str slot \<in> dom (snapshot_equip eq) then Some (the (eq slot)) else None)"
    by (simp add: restore_equip_def restore_equip_fold snapshot_equip_slot set_map_keys [OF assms f])
  then show "restore_equip iter (snapshot_equip eq) slot = eq slot"
    by (auto simp: snapshot_equip_slot dom_def)
qed

definition vitals_ok :: "character \<Rightarrow> bool" where
  "vitals_ok c \<longleftrightarrow> 1 \<le> c_level c \<and> 1 \<le> c_hp c \<and> c_hp c \<le> c_max_hp c
     \<and> 0 \<le> c_mana c \<and> c_mana c \<le> c_max_mana c
     \<and> 0 \<le> c_stamina c \<and> c_stamina c \<le> c_max_stamina c"

text \<open>
  C11. A stored player comes back as it was: restoring the snapshot of a living, finished
  character gives that character again, all its progress, goods, quest state and equipment
  included; only what belongs to the new session is new (identifier, session, principal,
  asserted capabilities, room, cooldowns, regeneration clocks, stun and combat).
\<close>

theorem snapshot_roundtrip:
  assumes "iter_ok iter" "is_built c" "vitals_ok c" "finite (c_friends c)"
  shows "map_option (\<lambda>sn. restored iter cid session now room_id sn prin caps) (from_character iter c) =
    Some (c\<lparr>c_id := cid, c_controller := Some session, c_created_by := Some session,
            c_principal := prin, c_auth_caps := caps, c_room_id := room_id,
            c_skill_cd_ms := Map.empty, c_last_mana_regen_ms := now,
            c_last_stamina_regen_ms := now, c_stunned_until_ms := 0,
            c_combat := combat_state_new now\<rparr>)"
proof -
  obtain r cls where b: "c_race c = Some r" "c_class c = Some cls"
    using assms(2) by (auto simp: is_built_def)
  have "set (sort (set_elems iter (c_friends c))) = c_friends c"
    by (simp add: set_set_elems assms)
  moreover have "max (c_level c) 1 = c_level c" "min (max (c_hp c) 1) (max (c_max_hp c) 1) = c_hp c"
    "max (c_max_hp c) 1 = c_max_hp c" "min (max (c_mana c) 0) (max (c_max_mana c) 0) = c_mana c"
    "max (c_max_mana c) 0 = c_max_mana c"
    "min (max (c_stamina c) 0) (max (c_max_stamina c) 0) = c_stamina c"
    "max (c_max_stamina c) 0 = c_max_stamina c"
    using assms(3) by (auto simp: vitals_ok_def)
  ultimately show ?thesis
    using b
    by (cases c) (simp add: from_character_def restored_def races.parse_as_str
        classes.parse_as_str sexes.parse_as_str pronouns.parse_as_str
        restore_snapshot_equip [OF assms(1)] Let_def)
qed

definition demo_character :: character where
  "demo_character =
     \<lparr>c_id = 1, c_controller = Some 7, c_created_by = Some 7, c_name = ''Ann'',
      c_principal = ''acct:ann'', c_auth_caps = {}, c_is_bot = False, c_bot_ever = False,
      c_bot_ever_since_ms = None, c_bot_mode_changed_ms = 0, c_friends = {''Bo''},
      c_room_id = ''arena.1'', c_autoassist = True, c_follow_leader = False, c_drink_level = 2,
      c_gold = 5, c_inv = [''field bandage'' \<mapsto> 3], c_quest = Map.empty, c_class = Some Wizard,
      c_level = 3, c_xp = 4, c_skill_points = 1, c_skills = Map.empty,
      c_skill_cd_ms = Map.empty, c_race = Some Elf, c_sex = SexFemale, c_pronouns = PronShe,
      c_stats = baseline_scores, c_hp = 7, c_max_hp = 9, c_mana = 3, c_max_mana = 12,
      c_stamina = 4, c_max_stamina = 4, c_last_mana_regen_ms = 0, c_last_stamina_regen_ms = 0,
      c_pvp_enabled = True, c_stunned_until_ms = 0, c_combat = combat_state_new 0,
      c_equip = [SlotBody \<mapsto> ''training tunic (medium)'']\<rparr>"

theorem snapshot_roundtrip_witness:
  "map_option (\<lambda>sn. c_equip (restored (\<lambda>P. sorted_list_of_set {x. P x}) 2 8 100 ''r'' sn ''acct:ann'' {}))
     (from_character (\<lambda>P. sorted_list_of_set {x. P x}) demo_character)
   = Some [SlotBody \<mapsto> ''training tunic (medium)'']"
proof -
  have h: "is_built demo_character" "vitals_ok demo_character" "finite (c_friends demo_character)"
    by (simp_all add: is_built_def vitals_ok_def demo_character_def)
  have "map_option c_equip (map_option
      (\<lambda>sn. restored (\<lambda>P. sorted_list_of_set {x. P x}) 2 8 100 ''r'' sn ''acct:ann'' {})
      (from_character (\<lambda>P. sorted_list_of_set {x. P x}) demo_character))
    = Some (c_equip demo_character)"
    unfolding snapshot_roundtrip [OF iter_ok_sorted h] by simp
  then show ?thesis by (simp add: option.map_comp comp_def demo_character_def)
qed

end
