(* ===== verification/Quest.thy ===== *)
theory Quest
  imports Charstate
begin

text \<open>
  Quest state and what reads it (\<open>apps/shard_01/src/main.rs\<close>): the gate expressions on exits,
  the starter contracts a character completes by walking into rooms, the job board, the tavern's
  menu, and the small parsers of command arguments.
\<close>

section \<open>Gate expressions\<close>

datatype gate_op = GateEq | GateNe | GateGe | GateLe | GateGt | GateLt

definition gate_ops :: "(string \<times> gate_op) list" where
  "gate_ops =
     [(''>='', GateGe), (''<='', GateLe), (''!='', GateNe), (''=='', GateEq), (''>'', GateGt),
      (''<'', GateLt), (''='', GateEq)]"

definition gate_truthy :: "string option \<Rightarrow> bool" where
  "gate_truthy v =
     (case v of
        None \<Rightarrow> False
      | Some v \<Rightarrow>
          (let v = trim v in
           if v = [] then False
           else (case parse_i64 v of
                   Some n \<Rightarrow> n \<noteq> 0
                 | None \<Rightarrow> to_ascii_lowercase v \<in> {''true'', ''yes'', ''on''})))"

definition gate_compare :: "gate_op \<Rightarrow> string \<Rightarrow> string \<Rightarrow> bool" where
  "gate_compare opn lhs_raw rhs =
     (let l = parse_i64 lhs_raw; r = parse_i64 rhs;
          num = (\<lambda>f. case (l, r) of (Some a, Some b) \<Rightarrow> f a b | _ \<Rightarrow> False)
      in case opn of
           GateEq \<Rightarrow> (case (l, r) of (Some a, Some b) \<Rightarrow> a = b | _ \<Rightarrow> lhs_raw = rhs)
         | GateNe \<Rightarrow> (case (l, r) of (Some a, Some b) \<Rightarrow> a \<noteq> b | _ \<Rightarrow> lhs_raw \<noteq> rhs)
         | GateGe \<Rightarrow> num (\<lambda>a b. a \<ge> b)
         | GateLe \<Rightarrow> num (\<lambda>a b. a \<le> b)
         | GateGt \<Rightarrow> num (\<lambda>a b. a > b)
         | GateLt \<Rightarrow> num (\<lambda>a b. a < b))"

definition eval_gate_expr :: "(string \<rightharpoonup> string) \<Rightarrow> string \<Rightarrow> bool" where
  "eval_gate_expr quest expr =
     (let expr = trim expr in
      if expr = [] then True
      else
        (case find (\<lambda>(tok, opn). str_contains expr tok) gate_ops of
           None \<Rightarrow> gate_truthy (quest expr)
         | Some (tok, opn) \<Rightarrow>
             (let i = the (str_find tok expr);
                  key = trim (take i expr);
                  rhs = trim (drop (i + length tok) expr)
              in if key = [] \<or> rhs = [] then False
                 else gate_compare opn (trim (opt_or ''0'' (quest key))) rhs)))"

section \<open>Contracts\<close>

definition key_done :: string where "key_done = ''q.q2_job_board.contracts_done''"
definition key_state :: string where "key_state = ''q.q2_job_board.state''"
definition key_a :: string where "key_a = ''q.q2_job_board.contract_a''"
definition key_b :: string where "key_b = ''q.q2_job_board.contract_b''"
definition key_c :: string where "key_c = ''q.q2_job_board.contract_c''"
definition key_clinic :: string where "key_clinic = ''q.q2_job_board.contract_c_clinic''"
definition key_repeat :: string where "key_repeat = ''q.q2_job_board.repeatables_unlocked''"

definition room_meadow :: string where "room_meadow = ''R_MEADOW_PEST_02''"
definition room_orchard :: string where "room_orchard = ''R_ORCHARD_NEST_01''"
definition room_clinic :: string where "room_clinic = ''R_TOWN_CLINIC_01''"
definition room_edge :: string where "room_edge = ''R_TOWN_EDGE_01''"

definition clamp :: "int \<Rightarrow> int \<Rightarrow> int \<Rightarrow> int" where
  "clamp lo hi v = (if v < lo then lo else if v > hi then hi else v)"

definition parsed_count :: "string option \<Rightarrow> int" where
  "parsed_count v =
     clamp 0 3 (case v of None \<Rightarrow> 0 | Some s \<Rightarrow> (case parse_i64 (trim s) of None \<Rightarrow> 0 | Some n \<Rightarrow> n))"

definition contracts_done :: "(string \<rightharpoonup> string) \<Rightarrow> int" where
  "contracts_done q = parsed_count (q key_done)"

definition set_contracts_done :: "(string \<rightharpoonup> string) \<Rightarrow> int \<Rightarrow> (string \<rightharpoonup> string)" where
  "set_contracts_done q v = q(key_done \<mapsto> show_int (clamp 0 3 v))"

definition set_state_for_done :: "(string \<rightharpoonup> string) \<Rightarrow> int \<Rightarrow> (string \<rightharpoonup> string)" where
  "set_state_for_done q done =
     (let cur = (case q key_state of None \<Rightarrow> [] | Some v \<Rightarrow> trim v) in
      if cur \<noteq> [] \<and> \<not> prefix ''contract'' cur \<and> cur \<noteq> ''unstarted'' then q
      else
        (let d = clamp 0 3 done;
             st = (if d = 0 then ''unstarted'' else if d = 1 then ''contract_1''
                   else if d = 2 then ''contract_2'' else ''contract_3'')
         in q(key_state \<mapsto> st)))"

definition complete_contract ::
  "(string \<rightharpoonup> string) \<Rightarrow> string \<Rightarrow> (string \<rightharpoonup> string) \<times> int option" where
  "complete_contract q key =
     (if eval_gate_expr q key then (q, None)
      else
        (let q = q(key \<mapsto> ''1'');
             done = clamp 0 3 (contracts_done q + 1);
             q = set_contracts_done q done;
             q = set_state_for_done q done
         in (q, Some done)))"

text \<open>What a room that completes a contract does; the name is the contract's letter.\<close>

definition contract_room ::
  "(string \<rightharpoonup> string) \<Rightarrow> string \<Rightarrow> string \<Rightarrow> (string \<rightharpoonup> string) \<times> string option" where
  "contract_room q key nm =
     (case complete_contract q key of
        (q, None) \<Rightarrow> (q, None)
      | (q, Some done) \<Rightarrow>
          (q, Some (''contract '' @ nm @ '' complete. (contracts done: '' @ show_int done @ ''/3)'' @ crlf @
                (if done \<ge> 3 \<and> \<not> eval_gate_expr q key_repeat
                 then ''return to the job board. (try: look board)'' @ crlf else []))))"

definition q2_room_enter :: "(string \<rightharpoonup> string) \<Rightarrow> string \<Rightarrow> (string \<rightharpoonup> string) \<times> string option" where
  "q2_room_enter q room_id =
     (if room_id = room_meadow then contract_room q key_a ''A''
      else if room_id = room_orchard then contract_room q key_b ''B''
      else if room_id = room_clinic then
        (if eval_gate_expr q key_clinic then (q, None)
         else (q(key_clinic \<mapsto> ''1''),
               Some (''clinic: a medic stamps a slip with brisk disinterest.'' @ crlf)))
      else if room_id = room_edge then
        (if \<not> eval_gate_expr q key_clinic then (q, None) else contract_room q key_c ''C'')
      else (q, None))"

definition board_faction :: "(string \<rightharpoonup> string) \<Rightarrow> string" where
  "board_faction q =
     (case q ''q.q2_job_board.faction'' of
        None \<Rightarrow> ''unset''
      | Some v \<Rightarrow> if trim v = [] then ''unset'' else trim v)"

definition done_label :: "bool \<Rightarrow> string" where
  "done_label d = (if d then ''DONE'' else ''PENDING'')"

definition render_job_board_for :: "(string \<rightharpoonup> string) \<Rightarrow> string" where
  "render_job_board_for q =
     (let n = contracts_done q; faction = board_faction q in
      ''job board:'' @ crlf @ crlf @
      ''contracts done: '' @ show_int n @ ''/3'' @ crlf @ crlf @
      ''contracts (starter set):'' @ crlf @
      ''  A) pest sweep (meadowline) ['' @ done_label (eval_gate_expr q key_a) @ '']'' @ crlf @
      ''     route: go north (edge gates), then east (meadowline gate)'' @ crlf @
      ''  B) drone tag (scrap orchard) ['' @ done_label (eval_gate_expr q key_b) @ '']'' @ crlf @
      ''     route: go north (edge gates), then north (scrap orchard gate)'' @ crlf @
      ''  C) clinic + gate check (town) ['' @ done_label (eval_gate_expr q key_c) @ '']'' @ crlf @
      ''     route: go south (quiet lane)'' @ crlf @ crlf @
      (if n \<ge> 3 \<and> faction = ''unset'' then
         ''choose a contact (unlocks access):'' @ crlf @ ''  faction civic'' @ crlf @
         ''  faction industrial'' @ crlf @ ''  faction green'' @ crlf @ crlf
       else if faction \<noteq> ''unset'' then ''contact: '' @ faction @ crlf @ crlf
       else []) @
      ''notes:'' @ crlf @
      ''  - sewers access: '' @ (if eval_gate_expr q ''gate.sewers.entry'' then ''open'' else ''sealed'') @ crlf @
      ''  - if you get lost, go back to the edge gates.'' @ crlf)"

section \<open>Drinks\<close>

record drink_item =
  dr_num :: nat
  dr_name :: string
  dr_aliases :: "string list"
  dr_min_level :: nat
  dr_cost_gold :: nat

definition drink_menu :: "drink_item list" where
  "drink_menu =
    [\<lparr>dr_num = 1, dr_name = ''fruity drink'', dr_aliases = [''fruity'', ''fruit'', ''juice'', ''1''],
      dr_min_level = 0, dr_cost_gold = 1\<rparr>,
     \<lparr>dr_num = 2, dr_name = ''butter beer'', dr_aliases = [''butter'', ''beer'', ''butterbeer'', ''2''],
      dr_min_level = 1, dr_cost_gold = 2\<rparr>,
     \<lparr>dr_num = 3, dr_name = ''whiskey'', dr_aliases = [''whiskey'', ''whisky'', ''3''],
      dr_min_level = 2, dr_cost_gold = 3\<rparr>,
     \<lparr>dr_num = 4, dr_name = ''absinthe'', dr_aliases = [''absinthe'', ''4''],
      dr_min_level = 3, dr_cost_gold = 4\<rparr>,
     \<lparr>dr_num = 5, dr_name = ''dragonfire rum'', dr_aliases = [''dragonfire'', ''rum'', ''5''],
      dr_min_level = 4, dr_cost_gold = 6\<rparr>,
     \<lparr>dr_num = 6, dr_name = ''void martini'', dr_aliases = [''void'', ''martini'', ''6''],
      dr_min_level = 5, dr_cost_gold = 9\<rparr>,
     \<lparr>dr_num = 7, dr_name = ''reality tonic'', dr_aliases = [''reality'', ''tonic'', ''7''],
      dr_min_level = 6, dr_cost_gold = 12\<rparr>]"

definition find_drink :: "string \<Rightarrow> drink_item option" where
  "find_drink token =
     (let t = norm_key token in
      if t = [] then None
      else find (\<lambda>d. eq_ignore_ascii_case (dr_name d) t
                   \<or> list_ex (\<lambda>a. eq_ignore_ascii_case a t) (dr_aliases d)) drink_menu)"

section \<open>Arguments\<close>

definition parse_qty_and_item :: "string \<Rightarrow> (nat \<times> string) option" where
  "parse_qty_and_item s =
     (let parts = split_whitespace s in
      case parts of
        [] \<Rightarrow> None
      | [p] \<Rightarrow> Some (1, p)
      | p # ps \<Rightarrow>
          (case parse_uint u32_max p of
             Some q \<Rightarrow> Some (max q 1, join_with '' '' ps)
           | None \<Rightarrow>
               (case parse_uint u32_max (last parts) of
                  Some q \<Rightarrow> Some (max q 1, join_with '' '' (butlast parts))
                | None \<Rightarrow>
                    (case Option.bind (strip_prefix ''x'' (last parts)) (parse_uint u32_max) of
                       Some q \<Rightarrow> Some (max q 1, join_with '' '' (butlast parts))
                     | None \<Rightarrow> Some (1, join_with '' '' parts)))))"

definition command_arg :: "string \<Rightarrow> string \<Rightarrow> string option" where
  "command_arg line command =
     (case strip_prefix command line of
        None \<Rightarrow> None
      | Some rest \<Rightarrow>
          if \<not> prefix '' '' rest then None
          else (let arg = trim rest in if arg = [] then None else Some arg))"

text \<open>\<open>splitn(2, char::is_whitespace)\<close>: before and after the first white-space character.\<close>

fun split_first_ws :: "string \<Rightarrow> string \<times> string option" where
  "split_first_ws [] = ([], None)"
| "split_first_ws (c # s) =
     (case ws_head (c # s) of
        Some w \<Rightarrow> ([], Some (drop (length w) (c # s)))
      | None \<Rightarrow> (let (a, b) = split_first_ws s in (c # a, b)))"

definition parse_tell_args :: "string \<Rightarrow> string \<Rightarrow> (string \<times> string) option" where
  "parse_tell_args line command =
     (case command_arg line command of
        None \<Rightarrow> None
      | Some rest \<Rightarrow>
          (let (a, b) = split_first_ws rest; who = trim a; msg = trim (opt_or [] b) in
           if who = [] \<or> msg = [] then None else Some (who, msg)))"

definition is_tavern_sellable :: "string \<Rightarrow> bool" where
  "is_tavern_sellable token \<longleftrightarrow> norm_key token \<in> {''stenchpouch'', ''stench pouch'', ''pouch''}"

section \<open>The contracts\<close>

lemma quest_keys_distinct:
  "distinct [key_done, key_state, key_a, key_b, key_c, key_clinic, key_repeat]"
  by code_simp

lemma quest_keys_neq [simp]:
  "key_a \<noteq> key_done" "key_a \<noteq> key_state" "key_a \<noteq> key_b" "key_a \<noteq> key_c" "key_a \<noteq> key_clinic"
  "key_b \<noteq> key_done" "key_b \<noteq> key_state" "key_b \<noteq> key_a" "key_b \<noteq> key_c" "key_b \<noteq> key_clinic"
  "key_c \<noteq> key_done" "key_c \<noteq> key_state" "key_c \<noteq> key_a" "key_c \<noteq> key_b" "key_c \<noteq> key_clinic"
  "key_clinic \<noteq> key_done" "key_clinic \<noteq> key_state" "key_clinic \<noteq> key_a" "key_clinic \<noteq> key_b"
  "key_clinic \<noteq> key_c" "key_done \<noteq> key_state" "key_done \<noteq> key_a" "key_done \<noteq> key_b"
  "key_done \<noteq> key_c" "key_done \<noteq> key_clinic" "key_state \<noteq> key_done" "key_state \<noteq> key_a"
  "key_state \<noteq> key_b" "key_state \<noteq> key_c" "key_state \<noteq> key_clinic"
  using quest_keys_distinct by auto

lemma room_names_distinct: "distinct [room_meadow, room_orchard, room_clinic, room_edge]"
  by code_simp

lemma room_names_neq [simp]:
  "room_meadow \<noteq> room_orchard" "room_meadow \<noteq> room_clinic" "room_meadow \<noteq> room_edge"
  "room_orchard \<noteq> room_meadow" "room_orchard \<noteq> room_clinic" "room_orchard \<noteq> room_edge"
  "room_clinic \<noteq> room_meadow" "room_clinic \<noteq> room_orchard" "room_clinic \<noteq> room_edge"
  "room_edge \<noteq> room_meadow" "room_edge \<noteq> room_orchard" "room_edge \<noteq> room_clinic"
  using room_names_distinct by auto

definition plain_key :: "string \<Rightarrow> bool" where
  "plain_key k \<longleftrightarrow> trim k = k \<and> k \<noteq> [] \<and> list_all (\<lambda>(tok, opn). \<not> str_contains k tok) gate_ops"

lemma eval_plain_key:
  assumes "plain_key k"
  shows "eval_gate_expr q k = gate_truthy (q k)"
proof -
  have "find (\<lambda>(tok, opn). str_contains k tok) gate_ops = None"
    using assms by (auto simp: plain_key_def find_None_iff list_all_iff)
  with assms show ?thesis by (simp add: eval_gate_expr_def plain_key_def)
qed

lemma quest_plain_keys:
  "list_all plain_key [key_a, key_b, key_c, key_clinic, key_repeat]"
  by code_simp

lemma eval_quest_keys [simp]:
  "eval_gate_expr q key_a = gate_truthy (q key_a)" "eval_gate_expr q key_b = gate_truthy (q key_b)"
  "eval_gate_expr q key_c = gate_truthy (q key_c)"
  "eval_gate_expr q key_clinic = gate_truthy (q key_clinic)"
  using quest_plain_keys by (simp_all add: eval_plain_key)

lemma trim_digits: "trim ''1'' = ''1''" "trim ''2'' = ''2''" "trim ''3'' = ''3''"
  by code_simp+

lemma parse_digits: "parse_i64 ''1'' = Some 1" "parse_i64 ''2'' = Some 2" "parse_i64 ''3'' = Some 3"
  by (simp_all add: parse_i64_def parse_uint_def is_ascii_digit_def)

lemma show_digits: "show_int 1 = ''1''" "show_int 2 = ''2''" "show_int 3 = ''3''"
  by (simp_all add: show_int_def show_nat.simps digit_char_def) code_simp+

lemma gate_truthy_one [simp]: "gate_truthy (Some ''1'')" "\<not> gate_truthy None"
  by (simp_all add: gate_truthy_def trim_digits parse_digits)

definition count_text :: "int \<Rightarrow> string option" where
  "count_text n = (if n = 0 then None else Some (show_int n))"

definition state_text :: "int \<Rightarrow> string option" where
  "state_text n = (if n = 0 then None else if n = 1 then Some ''contract_1''
     else if n = 2 then Some ''contract_2'' else Some ''contract_3'')"

lemma upto3: "0 \<le> n \<Longrightarrow> n \<le> 3 \<Longrightarrow> n = 0 \<or> n = 1 \<or> n = 2 \<or> n = (3 :: int)"
  by auto

lemma parsed_count_text: "0 \<le> n \<Longrightarrow> n \<le> 3 \<Longrightarrow> parsed_count (count_text n) = n"
  using upto3 [of n]
  by (auto simp: parsed_count_def count_text_def show_digits trim_digits parse_digits clamp_def)

lemma contract_state_tokens:
  "list_all (\<lambda>s. prefix ''contract'' (trim s)) [''contract_1'', ''contract_2'', ''contract_3'']"
  by code_simp

lemma set_state_for_done_text:
  assumes "q key_state = state_text n" "0 < d" "d \<le> 3"
  shows "set_state_for_done q d = q(key_state := state_text d)"
proof -
  have "(case q key_state of None \<Rightarrow> [] | Some v \<Rightarrow> trim v) = []
      \<or> prefix ''contract'' (case q key_state of None \<Rightarrow> [] | Some v \<Rightarrow> trim v)"
    using contract_state_tokens by (simp add: assms(1) state_text_def)
  moreover have "d = 1 \<or> d = 2 \<or> d = 3" using assms by auto
  ultimately show ?thesis
    by (auto simp: set_state_for_done_def Let_def clamp_def state_text_def)
qed

lemma complete_contract_new:
  assumes "plain_key k" "\<not> gate_truthy (q k)" "k \<noteq> key_done" "k \<noteq> key_state"
    and "q key_done = count_text n" "q key_state = state_text n" "0 \<le> n" "n < 3"
  shows "complete_contract q k =
    (q(k \<mapsto> ''1'', key_done := count_text (n + 1), key_state := state_text (n + 1)), Some (n + 1))"
proof -
  have d: "contracts_done (q(k \<mapsto> ''1'')) = n"
    using assms parsed_count_text [of n] by (simp add: contracts_done_def)
  have c: "clamp 0 3 (n + 1) = n + 1" using assms by (simp add: clamp_def)
  have t: "count_text (n + 1) = Some (show_int (n + 1))" using assms by (simp add: count_text_def)
  have "set_state_for_done (q(k \<mapsto> ''1'', key_done \<mapsto> show_int (n + 1))) (n + 1)
      = (q(k \<mapsto> ''1'', key_done \<mapsto> show_int (n + 1)))(key_state := state_text (n + 1))"
    using assms by (intro set_state_for_done_text [of _ n]) auto
  then show ?thesis
    using assms by (simp add: complete_contract_def eval_plain_key d c t set_contracts_done_def Let_def)
qed

lemma complete_contract_again:
  "plain_key k \<Longrightarrow> gate_truthy (q k) \<Longrightarrow> complete_contract q k = (q, None)"
  by (simp add: complete_contract_def eval_plain_key)

lemma contract_room_fst: "fst (contract_room q k nm) = fst (complete_contract q k)"
  by (simp add: contract_room_def split: prod.split option.split)

text \<open>\<open>y\<close> is visited at some time after \<open>x\<close>.\<close>

definition visited_after :: "'a \<Rightarrow> 'a \<Rightarrow> 'a list \<Rightarrow> bool" where
  "visited_after x y rs \<longleftrightarrow> (\<exists>us vs. rs = us @ vs \<and> x \<in> set us \<and> y \<in> set vs)"

lemma visited_after_Nil [simp]: "\<not> visited_after x y []"
  by (simp add: visited_after_def)

lemma visited_after_snoc [simp]:
  "visited_after x y (rs @ [r]) \<longleftrightarrow> visited_after x y rs \<or> (r = y \<and> x \<in> set rs)"
proof
  assume "visited_after x y (rs @ [r])"
  then obtain us vs where s: "rs @ [r] = us @ vs" "x \<in> set us" "y \<in> set vs"
    by (auto simp: visited_after_def)
  then obtain vs' v where vs: "vs = vs' @ [v]" by (cases vs rule: rev_cases) auto
  with s have "rs = us @ vs'" "v = r" by simp_all
  with s vs show "visited_after x y rs \<or> (r = y \<and> x \<in> set rs)"
    unfolding visited_after_def by auto
next
  assume "visited_after x y rs \<or> (r = y \<and> x \<in> set rs)"
  then show "visited_after x y (rs @ [r])"
  proof
    assume "visited_after x y rs"
    then obtain us vs where "rs = us @ vs" "x \<in> set us" "y \<in> set vs"
      by (auto simp: visited_after_def)
    then have "rs @ [r] = us @ (vs @ [r])" "x \<in> set us" "y \<in> set (vs @ [r])" by auto
    then show ?thesis unfolding visited_after_def by blast
  next
    assume "r = y \<and> x \<in> set rs"
    then have "x \<in> set rs" "y \<in> set [r]" by auto
    then show ?thesis unfolding visited_after_def by blast
  qed
qed

definition contracts_met :: "string list \<Rightarrow> int" where
  "contracts_met rs =
     of_bool (room_meadow \<in> set rs) + of_bool (room_orchard \<in> set rs)
     + of_bool (visited_after room_clinic room_edge rs)"

definition walk_quest :: "string list \<Rightarrow> (string \<rightharpoonup> string)" where
  "walk_quest rs = foldl (\<lambda>q r. fst (q2_room_enter q r)) Map.empty rs"

definition one_if :: "bool \<Rightarrow> string option" where
  "one_if b = (if b then Some ''1'' else None)"

definition walk_inv :: "string list \<Rightarrow> (string \<rightharpoonup> string) \<Rightarrow> bool" where
  "walk_inv rs q \<longleftrightarrow>
     q key_a = one_if (room_meadow \<in> set rs) \<and>
     q key_b = one_if (room_orchard \<in> set rs) \<and>
     q key_clinic = one_if (room_clinic \<in> set rs) \<and>
     q key_c = one_if (visited_after room_clinic room_edge rs) \<and>
     q key_done = count_text (contracts_met rs) \<and> q key_state = state_text (contracts_met rs)"

lemma contracts_met_range: "0 \<le> contracts_met rs" "contracts_met rs \<le> 3"
  by (simp_all add: contracts_met_def)

lemma gate_truthy_one_if [simp]: "gate_truthy (one_if b) = b"
  by (simp add: one_if_def)

lemma quest_plain [simp]:
  "plain_key key_a" "plain_key key_b" "plain_key key_c" "plain_key key_clinic"
  using quest_plain_keys by simp_all

lemma walk_inv_step: "walk_inv rs q \<Longrightarrow> walk_inv (rs @ [r]) (fst (q2_room_enter q r))"
proof -
  assume w: "walk_inv rs q"
  note n = contracts_met_range [of rs]
  consider (a) "r = room_meadow" | (b) "r = room_orchard"
    | (cl) "r = room_clinic" | (c) "r = room_edge"
    | (other) "r \<notin> {room_meadow, room_orchard, room_clinic, room_edge}"
    by blast
  then show ?thesis
  proof cases
    case a
    show ?thesis
    proof (cases "r \<in> set rs")
      case True
      with a w show ?thesis
        by (simp add: walk_inv_def q2_room_enter_def contract_room_fst complete_contract_again
            contracts_met_def)
    next
      case False
      with a have m: "contracts_met (rs @ [r]) = contracts_met rs + 1" "contracts_met rs < 3"
        by (simp_all add: contracts_met_def)
      have "complete_contract q key_a = (q(key_a \<mapsto> ''1'', key_done := count_text (contracts_met rs + 1),
          key_state := state_text (contracts_met rs + 1)), Some (contracts_met rs + 1))"
        using w m n False a by (intro complete_contract_new) (simp_all add: walk_inv_def)
      with a w m show ?thesis
        by (simp add: walk_inv_def q2_room_enter_def contract_room_fst one_if_def)
    qed
  next
    case b
    show ?thesis
    proof (cases "r \<in> set rs")
      case True
      with b w show ?thesis
        by (simp add: walk_inv_def q2_room_enter_def contract_room_fst complete_contract_again
            contracts_met_def)
    next
      case False
      with b have m: "contracts_met (rs @ [r]) = contracts_met rs + 1" "contracts_met rs < 3"
        by (simp_all add: contracts_met_def)
      have "complete_contract q key_b = (q(key_b \<mapsto> ''1'', key_done := count_text (contracts_met rs + 1),
          key_state := state_text (contracts_met rs + 1)), Some (contracts_met rs + 1))"
        using w m n False b by (intro complete_contract_new) (simp_all add: walk_inv_def)
      with b w m show ?thesis
        by (simp add: walk_inv_def q2_room_enter_def contract_room_fst one_if_def)
    qed
  next
    case cl
    with w show ?thesis
      by (auto simp: walk_inv_def q2_room_enter_def contracts_met_def one_if_def)
  next
    case c
    show ?thesis
    proof (cases "room_clinic \<in> set rs \<and> \<not> visited_after room_clinic r rs")
      case True
      with c have m: "contracts_met (rs @ [r]) = contracts_met rs + 1" "contracts_met rs < 3"
        by (simp_all add: contracts_met_def)
      have "complete_contract q key_c = (q(key_c \<mapsto> ''1'', key_done := count_text (contracts_met rs + 1),
          key_state := state_text (contracts_met rs + 1)), Some (contracts_met rs + 1))"
        using w m n True c by (intro complete_contract_new) (simp_all add: walk_inv_def)
      with c w m True show ?thesis
        by (simp add: walk_inv_def q2_room_enter_def contract_room_fst one_if_def)
    next
      case False
      with c have m: "contracts_met (rs @ [r]) = contracts_met rs"
        by (auto simp: contracts_met_def)
      from c w False have "fst (q2_room_enter q r) = q"
        by (auto simp: walk_inv_def q2_room_enter_def contract_room_fst complete_contract_again)
      moreover have "visited_after room_clinic room_edge (rs @ [r])
          = visited_after room_clinic room_edge rs"
        using False c by auto
      ultimately show ?thesis
        using w c unfolding walk_inv_def m by simp
    qed
  next
    case other
    then have "fst (q2_room_enter q r) = q" by (simp add: q2_room_enter_def)
    with other w show ?thesis by (auto simp: walk_inv_def contracts_met_def)
  qed
qed

lemma walk_quest_inv: "walk_inv rs (walk_quest rs)"
proof (induction rs rule: rev_induct)
  case Nil
  show ?case
    by (simp add: walk_inv_def walk_quest_def one_if_def contracts_met_def count_text_def state_text_def)
next
  case (snoc r rs)
  then show ?case using walk_inv_step [of rs "walk_quest rs" r] by (simp add: walk_quest_def)
qed

text \<open>
  The starter contracts are counted exactly. After any walk through the world, from a
  character with no quest state: contract A is done iff the meadow was visited, B iff the
  orchard was, C iff the town's edge was visited some time after the clinic; the counter on the
  job board is the number of contracts done, each counted once however often its room is
  entered; and the counter and the state agree with it.
\<close>

theorem contracts_counted_once:
  "contracts_done (walk_quest rs) = contracts_met rs
   \<and> eval_gate_expr (walk_quest rs) key_a = (room_meadow \<in> set rs)
   \<and> eval_gate_expr (walk_quest rs) key_b = (room_orchard \<in> set rs)
   \<and> eval_gate_expr (walk_quest rs) key_c =
       visited_after room_clinic room_edge rs
   \<and> walk_quest rs key_state = state_text (contracts_met rs)"
proof -
  have w: "walk_inv rs (walk_quest rs)" by (rule walk_quest_inv)
  then have "contracts_done (walk_quest rs) = contracts_met rs"
    by (simp add: contracts_done_def walk_inv_def parsed_count_text contracts_met_range)
  with w show ?thesis by (simp add: walk_inv_def)
qed

end
