(* ===== verification/RaftLog.thy ===== *)
theory RaftLog
  imports GroupStore
begin

text \<open>
  \<open>apps/shard_01/src/raftlog.rs\<close>: the append-only log with its in-memory tail. The file is
  its text, or absent. The JSON text of an envelope is serde's: \<open>to_json\<close> and \<open>from_json\<close> are
  arguments, and \<open>json_ok\<close> is what the log relies on.
\<close>

record 'e raft_envelope =
  re_index :: nat
  re_ms :: nat
  re_entry :: 'e

record raft_log =
  rl_next_index :: nat
  rl_recent :: "string list"
  rl_recent_cap :: nat

definition raft_log_start :: raft_log where
  "raft_log_start = \<lparr>rl_next_index = 1, rl_recent = [], rl_recent_cap = 200\<rparr>"

text \<open>The loop pops from the front until there is room, then the line is pushed.\<close>

definition push_recent :: "string \<Rightarrow> raft_log \<Rightarrow> raft_log" where
  "push_recent line rl =
     rl\<lparr>rl_recent := drop (Suc (length (rl_recent rl)) - rl_recent_cap rl) (rl_recent rl) @ [line]\<rparr>"

definition recent_lines :: "nat \<Rightarrow> raft_log \<Rightarrow> string list" where
  "recent_lines n rl =
     (let n = min (max n 1) (length (rl_recent rl)) in rev (take n (rev (rl_recent rl))))"

text \<open>
  What the file system does with an append: all of it succeeds; the directory cannot be made or the
  file not be opened; or one of the writes or the flush fails, when so many of the bytes are in the
  file, which \<open>open\<close> has created if it was absent.
\<close>

datatype raft_io = WriteOk | OpenFails | WriteFails nat

definition file_text :: "string option \<Rightarrow> string" where
  "file_text fl = (case fl of None \<Rightarrow> [] | Some f \<Rightarrow> f)"

text \<open>\<open>append\<close>: the index is used up first, also by an append that fails.\<close>

definition raft_append ::
  "('e raft_envelope \<Rightarrow> string) \<Rightarrow> raft_io \<Rightarrow> nat \<Rightarrow> 'e \<Rightarrow> raft_log \<Rightarrow> string option \<Rightarrow>
   'e raft_envelope option \<times> raft_log \<times> string option" where
  "raft_append to_json io ms entry rl fl =
     (let env = \<lparr>re_index = rl_next_index rl, re_ms = ms, re_entry = entry\<rparr>;
          rl = rl\<lparr>rl_next_index := sat_add64 (rl_next_index rl) 1\<rparr>;
          line = to_json env
      in case io of
           OpenFails \<Rightarrow> (None, rl, fl)
         | WriteFails n \<Rightarrow> (None, rl, Some (file_text fl @ take n (line @ [CHR 0x0A])))
         | WriteOk \<Rightarrow> (Some env, push_recent line rl, Some (file_text fl @ line @ [CHR 0x0A])))"

text \<open>The loop over the lines: the tail, the largest index and the envelopes; or the bad line's number.\<close>

fun replay_lines ::
  "(string \<Rightarrow> string + 'e raft_envelope) \<Rightarrow> nat \<Rightarrow> string list \<Rightarrow> raft_log \<Rightarrow> nat \<Rightarrow>
   'e raft_envelope list \<Rightarrow> (nat \<times> string) + (raft_log \<times> nat \<times> 'e raft_envelope list)" where
  "replay_lines from_json lineno [] rl max_index out = Inr (rl, max_index, out)"
| "replay_lines from_json lineno (line # ls) rl max_index out =
     (let raw = trim line in
      if raw = [] then replay_lines from_json (lineno + 1) ls rl max_index out
      else
        (case from_json raw of
           Inl e \<Rightarrow> Inl (lineno + 1, e)
         | Inr env \<Rightarrow>
             replay_lines from_json (lineno + 1) ls (push_recent raw rl)
               (max max_index (re_index env)) (out @ [env])))"

definition load_replay ::
  "(string \<Rightarrow> string + 'e raft_envelope) \<Rightarrow> string option \<Rightarrow> raft_log \<Rightarrow>
   (nat \<times> string) + (raft_log \<times> 'e raft_envelope list)" where
  "load_replay from_json fl rl =
     (case fl of
        None \<Rightarrow> Inr (rl, [])
      | Some content \<Rightarrow>
          (case replay_lines from_json 0 (str_lines content) rl 0 [] of
             Inl e \<Rightarrow> Inl e
           | Inr (rl, max_index, out) \<Rightarrow>
               Inr (rl\<lparr>rl_next_index := max (sat_add64 max_index 1) 1\<rparr>, out)))"

definition raft_open ::
  "(string \<Rightarrow> string + 'e raft_envelope) \<Rightarrow> string option \<Rightarrow>
   (nat \<times> string) + (raft_log \<times> 'e raft_envelope list)" where
  "raft_open from_json fl = load_replay from_json fl raft_log_start"

section \<open>What the log promises\<close>

text \<open>
  serde's compact JSON of an envelope: it parses back, starts and ends with a brace, and has
  no line feed (they are escaped); an object that is cut off is an error, and so is one that ends
  inside a character, where the reader of the lines itself fails.
\<close>

definition json_ok ::
  "('e raft_envelope \<Rightarrow> string) \<Rightarrow> (string \<Rightarrow> string + 'e raft_envelope) \<Rightarrow> bool" where
  "json_ok to_json from_json \<longleftrightarrow>
     (\<forall>e. from_json (to_json e) = Inr e \<and> to_json e \<noteq> [] \<and> trim (to_json e) = to_json e
        \<and> CHR 0x0A \<notin> set (to_json e)
        \<and> (\<forall>n. 0 < n \<and> n < length (to_json e) \<longrightarrow>
             trim (take n (to_json e)) \<noteq> [] \<and> isl (from_json (trim (take n (to_json e))))))"

lemma split_char_append: "c \<notin> set a \<Longrightarrow> split_char c (a @ c # b) = a # split_char c b"
  by (induction a) auto

lemma split_char_nonempty [simp]: "split_char c s \<noteq> []"
  by (induction s) (auto split: list.splits)

lemma strip_cr_trimmed: "trim s = s \<Longrightarrow> strip_cr s = s"
proof -
  assume "trim s = s"
  then have "ws_tail s = None" using ws_tail_trim [of s] by simp
  then have "\<not> suffix [CHR 0x0D] s" by (simp add: ws_tail_None_iff uni_ws_def)
  then have "s = [] \<or> last s \<noteq> CHR 0x0D"
    by (metis append_butlast_last_id suffixI)
  then show ?thesis by (auto simp: strip_cr_def)
qed

definition log_text :: "('e raft_envelope \<Rightarrow> string) \<Rightarrow> 'e raft_envelope list \<Rightarrow> string" where
  "log_text to_json es = concat (map (\<lambda>e. to_json e @ [CHR 0x0A]) es)"

lemma split_log_text:
  assumes "json_ok to_json from_json"
  shows "split_char (CHR 0x0A) (log_text to_json es) = map to_json es @ [[]]"
  using assms by (induction es) (simp_all add: log_text_def json_ok_def split_char_append)

lemma str_lines_log_text:
  assumes "json_ok to_json from_json"
  shows "str_lines (log_text to_json es) = map to_json es"
  using assms unfolding str_lines_def split_log_text [OF assms] Let_def
  by (simp add: json_ok_def strip_cr_trimmed)

definition tail200 :: "'a list \<Rightarrow> 'a list" where
  "tail200 xs = drop (length xs - 200) xs"

lemma tail200_snoc: "tail200 (xs @ [x]) = drop (Suc (length (tail200 xs)) - 200) (tail200 xs) @ [x]"
proof (cases "length xs < 200")
  case False
  then have "length xs - 199 = Suc (length xs - 200)" by simp
  then show ?thesis by (simp add: tail200_def)
qed (simp add: tail200_def)

lemma replay_lines_ok:
  assumes "json_ok to_json from_json" "rl_recent_cap rl = 200"
    and "rl_recent rl = tail200 (map to_json out)"
  shows "replay_lines from_json n (map to_json es @ ls) rl m out
    = replay_lines from_json (n + length es) ls (rl\<lparr>rl_recent := tail200 (map to_json (out @ es))\<rparr>)
        (foldl max m (map re_index es)) (out @ es)"
  using assms(2,3)
proof (induction es arbitrary: n rl m out)
  case Nil
  then have "rl\<lparr>rl_recent := tail200 (map to_json out)\<rparr> = rl" by simp
  then show ?case by simp
next
  case (Cons e es)
  have j: "trim (to_json e) = to_json e" "to_json e \<noteq> []" "from_json (to_json e) = Inr e"
    using assms(1) by (auto simp: json_ok_def)
  have "rl_recent (push_recent (to_json e) rl) = tail200 (map to_json (out @ [e]))"
    using Cons.prems by (simp add: push_recent_def tail200_snoc)
  with Cons.IH [of "push_recent (to_json e) rl" "out @ [e]"] Cons.prems(1) j
  show ?case by (simp add: push_recent_def Let_def)
qed

lemma raft_open_lines:
  assumes "json_ok to_json from_json" "str_lines f = map to_json es"
  shows "raft_open from_json (Some f)
    = Inr (raft_log_start\<lparr>rl_recent := tail200 (map to_json es),
        rl_next_index := max (sat_add64 (foldl max 0 (map re_index es)) 1) 1\<rparr>, es)"
  using replay_lines_ok [OF assms(1), of raft_log_start "[]" 0 es "[]" 0]
  by (simp add: raft_open_def load_replay_def assms(2) raft_log_start_def tail200_def)

lemma raft_open_text:
  assumes "json_ok to_json from_json"
  shows "raft_open from_json (Some (log_text to_json es))
    = Inr (raft_log_start\<lparr>rl_recent := tail200 (map to_json es),
        rl_next_index := max (sat_add64 (foldl max 0 (map re_index es)) 1) 1\<rparr>, es)"
  by (rule raft_open_lines [OF assms str_lines_log_text [OF assms]])

text \<open>A file whose last line has no line feed, and one whose last line is cut off.\<close>

lemma str_lines_part:
  assumes "json_ok to_json from_json" "CHR 0x0A \<notin> set part" "part \<noteq> []"
  shows "str_lines (log_text to_json es @ part) = map to_json es @ [part]"
proof -
  have "split_char (CHR 0x0A) part = [part]" using assms(2) by (induction part) auto
  then have "split_char (CHR 0x0A) (log_text to_json es @ part) = map to_json es @ [part]"
    using assms(1) by (induction es) (simp_all add: log_text_def json_ok_def split_char_append)
  moreover have "map strip_cr (map to_json es) = map to_json es"
    using assms(1) by (simp add: json_ok_def strip_cr_trimmed)
  ultimately show ?thesis using assms(3) by (simp add: str_lines_def Let_def del: map_map)
qed

lemma raft_open_torn:
  assumes "json_ok to_json from_json" "0 < n" "n < length (to_json e)"
  shows "isl (raft_open from_json (Some (log_text to_json es @ take n (to_json e))))"
proof -
  let ?part = "take n (to_json e)"
  have j: "CHR 0x0A \<notin> set ?part" "?part \<noteq> []" "trim ?part \<noteq> []" "isl (from_json (trim ?part))"
    using assms by (auto simp: json_ok_def dest: in_set_takeD)
  then obtain x where "from_json (trim ?part) = Inl x" by (auto simp: isl_def)
  with j replay_lines_ok [OF assms(1), of raft_log_start "[]" 0 es "[?part]" 0] show ?thesis
    by (simp add: raft_open_def load_replay_def str_lines_part [OF assms(1) j(1,2)] raft_log_start_def
        tail200_def Let_def)
qed

text \<open>What the file of the log holds between two runs: entries in the order of their indices.\<close>

definition log_file :: "('e raft_envelope \<Rightarrow> string) \<Rightarrow> string option \<Rightarrow> bool" where
  "log_file to_json fl \<longleftrightarrow>
     (\<exists>es. file_text fl = log_text to_json es \<and>
        sorted_wrt (<) (map re_index es) \<and> (\<forall>e \<in> set es. re_index e < u64_max))"

definition log_rel ::
  "('e raft_envelope \<Rightarrow> string) \<Rightarrow> 'e raft_envelope list \<Rightarrow> raft_log \<Rightarrow> string option \<Rightarrow> bool" where
  "log_rel to_json es rl fl \<longleftrightarrow>
     file_text fl = log_text to_json es \<and>
     sorted_wrt (<) (map re_index es) \<and> (\<forall>e \<in> set es. re_index e < rl_next_index rl) \<and>
     rl_recent rl = tail200 (map to_json es) \<and> rl_recent_cap rl = 200 \<and> 1 \<le> rl_next_index rl"

lemma foldl_max_ge: "(m :: nat) \<le> foldl max m xs \<and> (\<forall>x \<in> set xs. x \<le> foldl max m xs)"
  by (induction xs arbitrary: m) (auto intro: le_trans [OF max.cobounded1] le_trans [OF max.cobounded2])

lemma foldl_max_less: "(m :: nat) < k \<Longrightarrow> \<forall>x \<in> set xs. x < k \<Longrightarrow> foldl max m xs < k"
  by (induction xs arbitrary: m) auto

lemma log_text_Nil_iff:
  assumes "json_ok to_json from_json"
  shows "log_text to_json es = [] \<longleftrightarrow> es = []"
  using assms by (cases es) (simp_all add: log_text_def)

lemma open_text_of:
  assumes "json_ok to_json from_json" "file_text fl = log_text to_json es" "es = [] \<or> fl \<noteq> None"
  shows "raft_open from_json fl = Inr (raft_log_start\<lparr>rl_recent := tail200 (map to_json es),
      rl_next_index := max (sat_add64 (foldl max 0 (map re_index es)) 1) 1\<rparr>, es)"
proof (cases fl)
  case None
  with assms(3) show ?thesis
    by (simp add: raft_open_def load_replay_def raft_log_start_def tail200_def sat_add64_def u64_max_def)
next
  case (Some f)
  then show ?thesis using raft_open_text [OF assms(1)] assms(2) by (simp add: file_text_def)
qed

lemma open_rel:
  assumes "json_ok to_json from_json" "file_text fl = log_text to_json es" "sorted_wrt (<) (map re_index es)"
    "\<forall>e \<in> set es. re_index e < u64_max"
  obtains rl where "raft_open from_json fl = Inr (rl, es)" "log_rel to_json es rl fl"
    "rl_next_index rl = Suc (foldl max 0 (map re_index es))"
proof -
  let ?m = "foldl max 0 (map re_index es)"
  let ?rl = "raft_log_start\<lparr>rl_recent := tail200 (map to_json es), rl_next_index := max (sat_add64 ?m 1) 1\<rparr>"
  have e: "es = [] \<or> fl \<noteq> None"
    using assms(2) log_text_Nil_iff [OF assms(1), of es] by (cases fl) (auto simp: file_text_def)
  have m: "?m < u64_max" using assms(4) by (intro foldl_max_less) (auto simp: u64_max_def)
  then have s: "sat_add64 ?m 1 = Suc ?m" by (rule sat_add64_Suc)
  have "re_index e \<le> ?m" if "e \<in> set es" for e
    using that foldl_max_ge [of 0 "map re_index es"] by auto
  then have "log_rel to_json es ?rl fl"
    using assms(2,3) by (auto simp: log_rel_def raft_log_start_def s [unfolded One_nat_def] less_Suc_eq_le)
  with that [OF open_text_of [OF assms(1,2) e]] show ?thesis by (simp add: s [unfolded One_nat_def])
qed

lemma open_log_file:
  assumes "json_ok to_json from_json" "log_file to_json fl"
  obtains es rl where "raft_open from_json fl = Inr (rl, es)" "log_rel to_json es rl fl"
proof -
  from assms(2) obtain es where es: "file_text fl = log_text to_json es" "sorted_wrt (<) (map re_index es)"
    "\<forall>e \<in> set es. re_index e < u64_max" by (auto simp: log_file_def)
  show ?thesis using open_rel [OF assms(1) es] that by blast
qed

lemma log_rel_file:
  assumes "log_rel to_json es rl fl" "rl_next_index rl \<le> u64_max"
  shows "log_file to_json fl"
  using assms by (fastforce simp: log_rel_def log_file_def)

section \<open>Appends\<close>

text \<open>The envelope an append is about, whether it succeeds or not.\<close>

definition next_envelope :: "nat \<Rightarrow> 'e \<Rightarrow> raft_log \<Rightarrow> 'e raft_envelope" where
  "next_envelope ms entry rl = \<lparr>re_index = rl_next_index rl, re_ms = ms, re_entry = entry\<rparr>"

lemma raft_append_ok:
  "raft_append to_json WriteOk ms e rl fl =
     (Some (next_envelope ms e rl),
      push_recent (to_json (next_envelope ms e rl)) (rl\<lparr>rl_next_index := sat_add64 (rl_next_index rl) 1\<rparr>),
      Some (file_text fl @ to_json (next_envelope ms e rl) @ [CHR 0x0A]))"
  by (simp add: raft_append_def next_envelope_def Let_def)

lemma raft_append_None: "fst (raft_append to_json io ms e rl fl) = None \<longleftrightarrow> io \<noteq> WriteOk"
  by (simp add: raft_append_def Let_def split: raft_io.split)

lemma raft_append_index:
  "rl_next_index (fst (snd (raft_append to_json io ms e rl fl))) = sat_add64 (rl_next_index rl) 1"
  by (simp add: raft_append_def Let_def push_recent_def split: raft_io.split)

lemma log_text_snoc: "log_text to_json (es @ [e]) = log_text to_json es @ to_json e @ [CHR 0x0A]"
  by (simp add: log_text_def)

lemma raft_append_rel:
  assumes "log_rel to_json es rl fl" "rl_next_index rl < u64_max"
    and "raft_append to_json WriteOk ms e rl fl = (r, rl', fl')"
  shows "log_rel to_json (es @ [next_envelope ms e rl]) rl' fl'
    \<and> r = Some (next_envelope ms e rl) \<and> rl_next_index rl' = Suc (rl_next_index rl)"
proof -
  have n: "sat_add64 (rl_next_index rl) 1 = Suc (rl_next_index rl)"
    using assms(2) by (rule sat_add64_Suc)
  have i: "re_index (next_envelope ms e rl) = rl_next_index rl" by (simp add: next_envelope_def)
  from assms show ?thesis
    by (auto simp: raft_append_ok n [unfolded One_nat_def] i log_rel_def push_recent_def tail200_snoc
        log_text_snoc sorted_wrt_append less_Suc_eq file_text_def)
qed

text \<open>
  A failed append: nothing of the line is in the file, or a part of it, or the whole of it, with or
  without its line feed. Opening the file is an error in the second case, and finds the entry in the
  third.
\<close>

definition reached :: "('e raft_envelope \<Rightarrow> string) \<Rightarrow> raft_io \<Rightarrow> 'e raft_envelope \<Rightarrow> 'e raft_envelope list" where
  "reached to_json io e =
     (case io of WriteFails n \<Rightarrow> if length (to_json e) \<le> n then [e] else [] | _ \<Rightarrow> [])"

definition torn :: "('e raft_envelope \<Rightarrow> string) \<Rightarrow> raft_io \<Rightarrow> 'e raft_envelope \<Rightarrow> bool" where
  "torn to_json io e = (case io of WriteFails n \<Rightarrow> 0 < n \<and> n < length (to_json e) | _ \<Rightarrow> False)"

lemma raft_append_fails:
  assumes "json_ok to_json from_json" "log_rel to_json es rl fl" "rl_next_index rl < u64_max"
    and "raft_append to_json io ms e rl fl = (None, rl', fl')"
  shows "if torn to_json io (next_envelope ms e rl) then isl (raft_open from_json fl')
    else \<exists>rl''. raft_open from_json fl' = Inr (rl'', es @ reached to_json io (next_envelope ms e rl))
      \<and> rl_recent rl'' = tail200 (map to_json (es @ reached to_json io (next_envelope ms e rl)))
      \<and> rl_next_index rl'' \<le> Suc (rl_next_index rl)
      \<and> (\<forall>x \<in> set (es @ reached to_json io (next_envelope ms e rl)). re_index x < rl_next_index rl'')
      \<and> sorted_wrt (<) (map re_index (es @ reached to_json io (next_envelope ms e rl)))"
proof -
  let ?e = "next_envelope ms e rl"
  have j: "to_json ?e \<noteq> []" "CHR 0x0A \<notin> set (to_json ?e)" using assms(1) by (auto simp: json_ok_def)
  have i: "re_index ?e = rl_next_index rl" by (simp add: next_envelope_def)
  have r: "file_text fl = log_text to_json es" "sorted_wrt (<) (map re_index es)"
      "\<forall>x \<in> set es. re_index x < rl_next_index rl"
    using assms(2) by (simp_all add: log_rel_def)
  have top: "foldl max 0 (map re_index xs) < Suc (rl_next_index rl)" if "\<forall>x \<in> set xs. re_index x \<le> rl_next_index rl" for xs
    using that by (intro foldl_max_less) (auto simp: less_Suc_eq_le)
  have opened: "\<exists>rl''. raft_open from_json f = Inr (rl'', xs) \<and> rl_recent rl'' = tail200 (map to_json xs)
      \<and> rl_next_index rl'' \<le> Suc (rl_next_index rl) \<and> (\<forall>x \<in> set xs. re_index x < rl_next_index rl'')
      \<and> sorted_wrt (<) (map re_index xs)"
    if xs: "sorted_wrt (<) (map re_index xs)" "\<forall>x \<in> set xs. re_index x \<le> rl_next_index rl"
      and f: "raft_open from_json f = Inr (raft_log_start\<lparr>rl_recent := tail200 (map to_json xs),
        rl_next_index := max (sat_add64 (foldl max 0 (map re_index xs)) 1) 1\<rparr>, xs)" for f xs
  proof -
    let ?m = "foldl max 0 (map re_index xs)"
    have m: "?m < Suc (rl_next_index rl)" by (rule top [OF xs(2)])
    have "sat_add64 ?m 1 = Suc ?m" by (rule sat_add64_Suc) (use m assms(3) in simp)
    moreover have "re_index x \<le> ?m" if "x \<in> set xs" for x
      using that foldl_max_ge [of 0 "map re_index xs"] by auto
    ultimately show ?thesis using f m xs(1) by (auto simp: less_Suc_eq_le)
  qed
  have "\<forall>x \<in> set es. re_index x \<le> rl_next_index rl" using r(3) by (auto intro: less_imp_le)
  note olds = opened [OF r(2) this]
  have keep: "\<exists>rl''. raft_open from_json f = Inr (rl'', es) \<and> rl_recent rl'' = tail200 (map to_json es)
      \<and> rl_next_index rl'' \<le> Suc (rl_next_index rl) \<and> (\<forall>x \<in> set es. re_index x < rl_next_index rl'')
      \<and> sorted_wrt (<) (map re_index es)" if "file_text f = log_text to_json es" for f
  proof (rule olds, rule open_text_of [OF assms(1) that])
    show "es = [] \<or> f \<noteq> None"
      using that log_text_Nil_iff [OF assms(1), of es] by (cases f) (auto simp: file_text_def)
  qed
  show ?thesis
  proof (cases io)
    case WriteOk
    then show ?thesis using assms(4) by (simp add: raft_append_ok)
  next
    case OpenFails
    then have "fl' = fl" using assms(4) by (simp add: raft_append_def Let_def)
    with keep [OF r(1)] OpenFails show ?thesis by (simp add: torn_def reached_def)
  next
    case (WriteFails n)
    then have fl': "fl' = Some (log_text to_json es @ take n (to_json ?e @ [CHR 0x0A]))"
      using assms(4) r(1) by (auto simp: raft_append_def next_envelope_def Let_def)
    consider "n = 0" | "0 < n" "n < length (to_json ?e)" | "length (to_json ?e) \<le> n" by linarith
    then show ?thesis
    proof cases
      case 1
      then show ?thesis
        using keep [of fl'] fl' WriteFails j(1) by (simp add: torn_def reached_def file_text_def)
    next
      case 2
      with raft_open_torn [OF assms(1) 2] WriteFails fl' show ?thesis by (simp add: torn_def)
    next
      case 3
      have "str_lines (log_text to_json es @ take n (to_json ?e @ [CHR 0x0A])) = map to_json (es @ [?e])"
      proof (cases "n = length (to_json ?e)")
        case True
        then show ?thesis using str_lines_part [OF assms(1) j(2,1)] by simp
      next
        case False
        with 3 have "take n (to_json ?e @ [CHR 0x0A]) = to_json ?e @ [CHR 0x0A]" by simp
        then show ?thesis using str_lines_log_text [OF assms(1), of "es @ [?e]"] by (simp add: log_text_snoc)
      qed
      note op = raft_open_lines [OF assms(1) this]
      have "sorted_wrt (<) (map re_index (es @ [?e]))" "\<forall>x \<in> set (es @ [?e]). re_index x \<le> rl_next_index rl"
        using r(2,3) i by (auto simp: sorted_wrt_append intro: less_imp_le)
      from opened [OF this, of fl'] op fl' 3 WriteFails show ?thesis by (simp add: torn_def reached_def)
    qed
  qed
qed

text \<open>
  A run of appends. Every caller leaves by \<open>?\<close> at the first one that fails; the result has the
  envelopes written and the failed one.
\<close>

fun raft_appends ::
  "('e raft_envelope \<Rightarrow> string) \<Rightarrow> (raft_io \<times> nat \<times> 'e) list \<Rightarrow> raft_log \<Rightarrow> string option \<Rightarrow>
   'e raft_envelope list \<times> (raft_io \<times> 'e raft_envelope) option \<times> raft_log \<times> string option" where
  "raft_appends to_json [] rl fl = ([], None, rl, fl)"
| "raft_appends to_json ((io, ms, e) # aps) rl fl =
     (case raft_append to_json io ms e rl fl of
        (None, rl', fl) \<Rightarrow> ([], Some (io, next_envelope ms e rl), rl', fl)
      | (Some env, rl, fl) \<Rightarrow>
          (let (envs, failed, rl, fl) = raft_appends to_json aps rl fl in (env # envs, failed, rl, fl)))"

lemma raft_appends_rel:
  assumes "json_ok to_json from_json" "log_rel to_json es rl fl" "rl_next_index rl + length aps \<le> u64_max"
    and "raft_appends to_json aps rl fl = (envs, failed, rl', fl')"
  shows "case failed of
      None \<Rightarrow> log_rel to_json (es @ envs) rl' fl' \<and> rl_next_index rl' \<le> rl_next_index rl + length aps
    | Some (io, e) \<Rightarrow> \<exists>ms entry rl1 fl1. e = next_envelope ms entry rl1 \<and> log_rel to_json (es @ envs) rl1 fl1
        \<and> rl_next_index rl1 < u64_max \<and> raft_append to_json io ms entry rl1 fl1 = (None, rl', fl')"
  using assms(2-)
proof (induction aps arbitrary: es rl fl envs)
  case (Cons a aps)
  obtain io ms e where a: "a = (io, ms, e)" by (cases a)
  show ?case
  proof (cases "io = WriteOk")
    case False
    then obtain rl1 fl1 where st: "raft_append to_json io ms e rl fl = (None, rl1, fl1)"
      using raft_append_None by (metis prod.collapse)
    with Cons.prems(3) have "envs = []" "failed = Some (io, next_envelope ms e rl)" "rl' = rl1" "fl' = fl1"
      by (simp_all add: a)
    moreover have "rl_next_index rl < u64_max" using Cons.prems(2) by simp
    ultimately show ?thesis using st Cons.prems(1) by fastforce
  next
    case True
    obtain r rl1 fl1 where st: "raft_append to_json WriteOk ms e rl fl = (r, rl1, fl1)"
      by (cases "raft_append to_json WriteOk ms e rl fl")
    from raft_append_rel [OF Cons.prems(1) _ st] Cons.prems(2)
    have s: "log_rel to_json (es @ [next_envelope ms e rl]) rl1 fl1" "r = Some (next_envelope ms e rl)"
      "rl_next_index rl1 = Suc (rl_next_index rl)" by auto
    with Cons.prems(3) st True obtain envs1 where
      rest: "raft_appends to_json aps rl1 fl1 = (envs1, failed, rl', fl')" "envs = next_envelope ms e rl # envs1"
      by (auto simp: a split: prod.splits)
    have "rl_next_index rl1 + length aps \<le> u64_max" using s(3) Cons.prems(2) by simp
    from Cons.IH [OF s(1) this rest(1)] show ?thesis using s(3) rest(2) by (auto split: option.splits)
  qed
qed simp


section \<open>A concrete text\<close>

text \<open>Texts in braces without braces, white space or line feeds inside are as the log asks for.\<close>

lemma trim_no_ws: "\<forall>w \<in> set uni_ws. \<exists>c \<in> set w. c \<notin> set s \<Longrightarrow> trim s = s"
  by (intro trim_id) (auto simp: ws_head_None_iff ws_tail_None_iff dest: set_mono_prefix set_mono_suffix)

lemma json_ok_braces:
  assumes "\<And>e. to_json e = ''{'' @ body e @ ''}''" "\<And>e. set (body e) \<subseteq> insert (CHR '','') {c. is_ascii_digit c}"
    and "\<And>e. from_json (to_json e) = Inr e" "\<And>s. \<not> suffix ''}'' s \<Longrightarrow> isl (from_json s)"
  shows "json_ok to_json from_json"
proof -
  have sets: "set (to_json e) \<subseteq> {CHR ''{'', CHR ''}'', CHR '',''} \<union> {c. is_ascii_digit c}" for e
    using assms(2) [of e] by (auto simp: assms(1))
  have t: "trim s = s" if "set s \<subseteq> {CHR ''{'', CHR ''}'', CHR '',''} \<union> {c. is_ascii_digit c}" for s
  proof (rule trim_no_ws)
    show "\<forall>w \<in> set uni_ws. \<exists>c \<in> set w. c \<notin> set s"
      using that by (simp add: uni_ws_def) (auto simp: is_ascii_digit_def)
  qed
  have cut: "trim (take n (to_json e)) = take n (to_json e)" for n e
    by (rule t) (use sets [of e] set_take_subset [of n "to_json e"] in blast)
  have "\<not> suffix ''}'' (take n (to_json e))" if "n < length (to_json e)" for n e
  proof -
    have "take n (to_json e) = take n (''{'' @ body e)" using that by (simp add: assms(1) take_Cons')
    moreover have "CHR ''}'' \<notin> set (take n (''{'' @ body e))"
      using assms(2) [of e] by (auto dest!: in_set_takeD simp: is_ascii_digit_def)
    ultimately show ?thesis by (metis list.set_intros(1) set_mono_suffix subsetD)
  qed
  moreover have "CHR 0x0A \<notin> set (to_json e)" for e using sets [of e] by (auto simp: is_ascii_digit_def)
  moreover have "to_json e \<noteq> []" for e by (simp add: assms(1))
  ultimately show ?thesis using assms(3,4) t [OF sets] by (auto simp: json_ok_def cut)
qed

definition demo_to_json :: "unit raft_envelope \<Rightarrow> string" where
  "demo_to_json e = ''{'' @ (show_nat (re_index e) @ '','' @ show_nat (re_ms e)) @ ''}''"

definition demo_from_json :: "string \<Rightarrow> string + unit raft_envelope" where
  "demo_from_json s =
     (if \<not> suffix ''}'' s then Inl ''EOF while parsing an object''
      else
        (case split_once (CHR '','') (drop 1 (butlast s)) of
           None \<Rightarrow> Inl ''no comma''
         | Some (a, b) \<Rightarrow>
             (case (parse_digits_from 0 a, parse_digits_from 0 b) of
                (Some i, Some m) \<Rightarrow> Inr \<lparr>re_index = i, re_ms = m, re_entry = ()\<rparr>
              | _ \<Rightarrow> Inl ''no number'')))"

lemma show_nat_no_sep: "c \<in> {CHR '','', CHR 0x0A} \<Longrightarrow> c \<notin> set (show_nat n)"
  using show_nat_digits [of n] by (auto simp: is_ascii_digit_def)

lemma show_nat_set: "set (show_nat n) \<subseteq> {c. is_ascii_digit c}"
  using show_nat_digits [of n] by auto

lemma demo_json_ok: "json_ok demo_to_json demo_from_json"
proof (rule json_ok_braces)
  show "demo_to_json e = ''{'' @ (show_nat (re_index e) @ '','' @ show_nat (re_ms e)) @ ''}''" for e
    by (simp add: demo_to_json_def)
  show "set (show_nat (re_index e) @ '','' @ show_nat (re_ms e)) \<subseteq> insert (CHR '','') {c. is_ascii_digit c}" for e
    using show_nat_set by auto
  show "demo_from_json (demo_to_json e) = Inr e" for e
    by (simp add: demo_from_json_def demo_to_json_def butlast_append split_once_append
        show_nat_no_sep parse_digits_show_nat suffix_def)
  show "\<not> suffix ''}'' s \<Longrightarrow> isl (demo_from_json s)" for s by (simp add: demo_from_json_def)
qed

lemma raft_log_start_opens: "raft_open from_json None = Inr (raft_log_start, [])" "log_file to_json None"
  by (simp_all add: raft_open_def load_replay_def log_file_def file_text_def log_text_def)


text \<open>
  A failed append whose line is whole but has no line feed: the log opens, and what is appended then is
  put behind the line, so that the log does not open any more.
\<close>

lemma line_without_end_breaks_log:
  "let (envs, failed, rl, fl) = raft_appends demo_to_json [(WriteFails 5, 7, ())] raft_log_start None in
   (case raft_open demo_from_json fl of
      Inl _ \<Rightarrow> False
    | Inr (rl, replay) \<Rightarrow>
        (let (envs, failed, rl, fl) = raft_appends demo_to_json [(WriteOk, 8, ())] rl fl in
         failed = None \<and> isl (raft_open demo_from_json fl)))"
proof -
  have t: "demo_to_json \<lparr>re_index = 1, re_ms = 7, re_entry = ()\<rparr> = ''{1,7}''"
    "demo_to_json \<lparr>re_index = 2, re_ms = 8, re_entry = ()\<rparr> = ''{2,8}''" by code_simp+
  have f: "demo_from_json ''{1,7}'' = Inr \<lparr>re_index = 1, re_ms = 7, re_entry = ()\<rparr>"
    "isl (demo_from_json ''{1,7}{2,8}'')" "trim ''{1,7}'' = ''{1,7}''" "trim ''{1,7}{2,8}'' = ''{1,7}{2,8}''"
    by code_simp+
  then obtain x where x: "demo_from_json ''{1,7}{2,8}'' = Inl x" by (auto simp: isl_def)
  show ?thesis
    by (simp add: raft_append_def raft_open_def load_replay_def raft_log_start_def file_text_def
        push_recent_def str_lines_def strip_cr_def t [unfolded One_nat_def numeral_2_eq_2] f x Let_def sat_add64_def u64_max_def
        numeral_2_eq_2)
qed

end
