(* ===== verification/Protoadv.thy ===== *)
theory Protoadv
  imports Rooms
begin

text \<open>
  Adventures written as Markdown (\<open>apps/shard_01/src/protoadventure.rs\<close>): the parser of the
  house style and the instantiation of a parsed plan as rooms with prefixed identifiers. The
  theorem says that an instance is a closed, connected-by-name piece of the map: no exit leads
  out of it or to a room it does not have.
\<close>

section \<open>Parsing\<close>

record room_plan =
  rp_id :: string
  rp_name :: string
  rp_description :: string
  rp_exits :: "exit_def list"

record build_plan =
  bp_adventure_id :: string
  bp_rooms :: "room_plan list"
  bp_start_room :: string

definition is_id_byte :: "char \<Rightarrow> bool" where
  "is_id_byte c \<longleftrightarrow> is_ascii_alnum c \<or> c = CHR ''_''"

fun extract_room_id :: "string \<Rightarrow> string option" where
  "extract_room_id [] = None"
| "extract_room_id (c # s) =
     (if prefix ''R_'' (c # s) \<and> takeWhile is_id_byte (drop 2 (c # s)) \<noteq> [] then
        Some (''R_'' @ takeWhile is_id_byte (drop 2 (c # s)))
      else extract_room_id s)"

definition heading_label :: "string \<Rightarrow> string option" where
  "heading_label h =
     (case str_find ''('' h of
        None \<Rightarrow> None
      | Some i \<Rightarrow>
          (case str_find '')'' (drop (i + 1) h) of
             None \<Rightarrow> None
           | Some j \<Rightarrow>
               (let inside = trim (take j (drop (i + 1) h)) in
                if inside \<noteq> [] \<and> \<not> str_contains inside ''CL_'' \<and> \<not> str_contains inside ''HUB_'' \<and>
                   \<not> str_contains inside ''setpiece.'' \<and> length inside \<le> 48
                then Some inside else None)))"

definition parse_room_heading :: "string \<Rightarrow> (string \<times> string option) option" where
  "parse_room_heading h =
     (case extract_room_id h of None \<Rightarrow> None | Some i \<Rightarrow> Some (i, heading_label h))"

definition push_desc_line :: "string \<Rightarrow> string \<Rightarrow> string \<Rightarrow> string" where
  "push_desc_line dst k v =
     (let v = trim v in
      if v = [] then dst
      else (if dst = [] then [] else dst @ [CHR 0x0A]) @ k @ '': '' @ v)"

text \<open>The target of an exit: what is between backquotes if there are two, then the first word.\<close>

definition exit_target :: "string \<Rightarrow> string" where
  "exit_target rhs =
     (let to = trim rhs;
          to = (case str_find ''`'' to of
                  None \<Rightarrow> to
                | Some i \<Rightarrow>
                    (case str_find ''`'' (drop (i + 1) to) of
                       None \<Rightarrow> to
                     | Some j \<Rightarrow> take j (drop (i + 1) to)))
      in (case split_whitespace to of [] \<Rightarrow> to | sp # _ \<Rightarrow> trim sp))"

definition parse_exit :: "string \<Rightarrow> exit_def option" where
  "parse_exit part =
     (let p = trim part in
      case str_find ''->'' p of
        None \<Rightarrow> None
      | Some i \<Rightarrow>
          (let dir = trim (take i p); to = exit_target (drop (i + 2) p) in
           if dir \<noteq> [] \<and> to \<noteq> [] then
             Some \<lparr>ex_dir = dir, ex_to = to, ex_sealed = False, ex_gate = None\<rparr>
           else None))"

definition parse_exits :: "string \<Rightarrow> exit_def list" where
  "parse_exits rest = List.map_filter parse_exit (split_char CHR '','' rest)"

text \<open>The bullets that go into the description, tried in this order.\<close>

definition desc_keys :: "string list" where
  "desc_keys = [''beat'', ''teach'', ''note'', ''quest'', ''feedback'', ''telegraph'', ''failure'']"

definition desc_bullet :: "string \<Rightarrow> (string \<times> string) option" where
  "desc_bullet t =
     (case List.map_filter
        (\<lambda>k. map_option (\<lambda>v. (k, v)) (strip_prefix (''- '' @ k @ '':'') t)) desc_keys of
        [] \<Rightarrow> None
      | kv # _ \<Rightarrow> Some kv)"

record parse_state =
  ps_in_exits :: bool
  ps_cur :: "room_plan option"
  ps_out :: "room_plan list"

definition flush_room :: "parse_state \<Rightarrow> room_plan list" where
  "flush_room s = ps_out s @ (case ps_cur s of None \<Rightarrow> [] | Some r \<Rightarrow> [r])"

text \<open>A line below a heading: an exits bullet, an exit inside the exits block, or a description.\<close>

definition body_line :: "bool \<Rightarrow> room_plan \<Rightarrow> string \<Rightarrow> bool \<times> room_plan" where
  "body_line in_exits r t =
     (case strip_prefix ''- exits:'' t of
        Some rest \<Rightarrow> (True, r\<lparr>rp_exits := rp_exits r @ parse_exits rest\<rparr>)
      | None \<Rightarrow>
          (let nested = (if in_exits then strip_prefix ''- '' t else None) in
           if nested \<noteq> None \<and> str_contains (the nested) ''->'' then
             (in_exits, r\<lparr>rp_exits := rp_exits r @ parse_exits (the nested)\<rparr>)
           else
             (let in_exits = (if in_exits \<and> prefix ''-'' t then False else in_exits) in
              case desc_bullet t of
                Some (k, v) \<Rightarrow>
                  (in_exits, r\<lparr>rp_description := push_desc_line (rp_description r) k v\<rparr>)
              | None \<Rightarrow> (in_exits, r))))"

definition parse_line :: "parse_state \<Rightarrow> string \<Rightarrow> parse_state" where
  "parse_line s raw =
     (let line = trim_end raw in
      case strip_prefix ''### '' line of
        Some h \<Rightarrow>
          (case parse_room_heading h of
             None \<Rightarrow> s
           | Some (i, label) \<Rightarrow>
               \<lparr>ps_in_exits = False,
                ps_cur = Some \<lparr>rp_id = i, rp_name = opt_or i label, rp_description = [],
                               rp_exits = []\<rparr>,
                ps_out = flush_room s\<rparr>)
      | None \<Rightarrow>
          (case ps_cur s of
             None \<Rightarrow> s
           | Some r \<Rightarrow>
               (let (e, r) = body_line (ps_in_exits s) r (trim line) in
                s\<lparr>ps_in_exits := e, ps_cur := Some r\<rparr>)))"

definition keep_known :: "string set \<Rightarrow> room_plan \<Rightarrow> room_plan" where
  "keep_known known r = r\<lparr>rp_exits := filter (\<lambda>e. ex_to e \<in> known) (rp_exits r)\<rparr>"

text \<open>The first room of each identifier, in order.\<close>

fun dedup_rooms :: "string set \<Rightarrow> room_plan list \<Rightarrow> room_plan list" where
  "dedup_rooms seen [] = []"
| "dedup_rooms seen (r # rs) =
     (if rp_id r \<in> seen then dedup_rooms seen rs
      else r # dedup_rooms (insert (rp_id r) seen) rs)"

definition parse_protoadventure_markdown :: "string \<Rightarrow> string \<Rightarrow> build_plan" where
  "parse_protoadventure_markdown adventure_id md =
     (let out = flush_room (foldl parse_line
                  \<lparr>ps_in_exits = False, ps_cur = None, ps_out = []\<rparr> (str_lines md));
          known = set (map rp_id out);
          rooms = dedup_rooms {} (map (keep_known known) out)
      in \<lparr>bp_adventure_id = adventure_id, bp_rooms = rooms,
          bp_start_room = (case rooms of [] \<Rightarrow> ''R_START'' | r # _ \<Rightarrow> rp_id r)\<rparr>)"

section \<open>Instances\<close>

definition instance_id :: "string \<Rightarrow> string \<Rightarrow> string" where
  "instance_id pre i = pre @ ''.'' @ i"

definition instantiate_exit ::
  "string \<Rightarrow> (string \<rightharpoonup> string) \<Rightarrow> exit_def \<Rightarrow> exit_def option" where
  "instantiate_exit pre m e =
     (case m (ex_to e) of
        None \<Rightarrow> None
      | Some to \<Rightarrow> Some \<lparr>ex_dir = ex_dir e, ex_to = to, ex_sealed = False, ex_gate = None\<rparr>)"

definition instantiate_rooms :: "string \<Rightarrow> build_plan \<Rightarrow> (string \<times> room_def) list" where
  "instantiate_rooms pre plan =
     (let m = foldl (\<lambda>m r. m(rp_id r \<mapsto> instance_id pre (rp_id r))) Map.empty (bp_rooms plan) in
      map (\<lambda>r. (the (m (rp_id r)),
                \<lparr>rd_name = rp_name r, rd_description = trim (rp_description r),
                 rd_area_name = bp_adventure_id plan,
                 rd_exits = List.map_filter (instantiate_exit pre m) (rp_exits r)\<rparr>))
        (bp_rooms plan))"

section \<open>Lemmas\<close>

lemma dedup_rooms_ids: "rp_id ` set (dedup_rooms seen rs) = rp_id ` set rs - seen"
  by (induction rs arbitrary: seen) auto

lemma dedup_rooms_distinct: "distinct (map rp_id (dedup_rooms seen rs))"
  by (induction rs arbitrary: seen) (simp_all add: dedup_rooms_ids)

lemma dedup_rooms_subset: "set (dedup_rooms seen rs) \<subseteq> set rs"
  by (induction rs arbitrary: seen) auto

lemma keep_known_id [simp]: "rp_id (keep_known K r) = rp_id r"
  by (simp add: keep_known_def)

lemma instance_map:
  "foldl (\<lambda>m r. m(rp_id r \<mapsto> instance_id pre (rp_id r))) m0 rs i =
     (if i \<in> rp_id ` set rs then Some (instance_id pre i) else m0 i)"
  by (induction rs arbitrary: m0) auto

lemma instance_id_inj [simp]: "instance_id pre i = instance_id pre j \<longleftrightarrow> i = j"
  by (simp add: instance_id_def)

lemma set_map_filter: "y \<in> set (List.map_filter f xs) \<longleftrightarrow> (\<exists>x \<in> set xs. f x = Some y)"
  by (induction xs) (auto simp: List.map_filter_simps split: option.splits)

lemma instantiate_ids:
  "map fst (instantiate_rooms pre plan) = map (\<lambda>r. instance_id pre (rp_id r)) (bp_rooms plan)"
  by (simp add: instantiate_rooms_def instance_map)

lemma instantiate_exits:
  assumes "(i, d) \<in> set (instantiate_rooms pre plan)" "e \<in> set (rd_exits d)"
  shows "ex_to e \<in> fst ` set (instantiate_rooms pre plan) \<and> \<not> ex_sealed e \<and> ex_gate e = None"
proof -
  let ?m = "\<lambda>i. if i \<in> rp_id ` set (bp_rooms plan) then Some (instance_id pre i) else None"
  have m: "foldl (\<lambda>m r. m(rp_id r \<mapsto> instance_id pre (rp_id r))) Map.empty (bp_rooms plan) = ?m"
    by (rule ext) (simp add: instance_map)
  have "\<exists>r :: room_plan. rd_exits d = List.map_filter (instantiate_exit pre ?m) (rp_exits r)"
    using assms(1) unfolding instantiate_rooms_def Let_def m
    by auto
  then obtain r :: room_plan where "rd_exits d = List.map_filter (instantiate_exit pre ?m) (rp_exits r)" ..
  with assms(2) obtain x where "instantiate_exit pre ?m x = Some e"
    by (auto simp: set_map_filter)
  then have e: "ex_to x \<in> rp_id ` set (bp_rooms plan)" "ex_to e = instance_id pre (ex_to x)"
    "\<not> ex_sealed e" "ex_gate e = None"
    by (auto simp: instantiate_exit_def split: if_splits)
  have "fst ` set (instantiate_rooms pre plan) = instance_id pre ` rp_id ` set (bp_rooms plan)"
    using instantiate_ids [of pre plan, THEN arg_cong, of set] by (simp add: image_image)
  with e show ?thesis by simp
qed

lemma instantiate_distinct:
  "distinct (map rp_id (bp_rooms plan)) \<Longrightarrow> distinct (map fst (instantiate_rooms pre plan))"
  by (simp add: instantiate_ids distinct_map inj_on_def)

lemma parsed_distinct: "distinct (map rp_id (bp_rooms (parse_protoadventure_markdown a md)))"
  by (simp add: parse_protoadventure_markdown_def Let_def dedup_rooms_distinct)

text \<open>Parsing alone already drops the exits that lead nowhere.\<close>

lemma parsed_exits:
  assumes "r \<in> set (bp_rooms (parse_protoadventure_markdown a md))" "e \<in> set (rp_exits r)"
  shows "ex_to e \<in> rp_id ` set (bp_rooms (parse_protoadventure_markdown a md))"
  using assms dedup_rooms_subset
  by (fastforce simp: parse_protoadventure_markdown_def Let_def dedup_rooms_ids keep_known_def
      image_image)

section \<open>An instance in the map\<close>

definition insert_rooms :: "rooms \<Rightarrow> (string \<times> room_def) list \<Rightarrow> rooms" where
  "insert_rooms rs l = foldl (\<lambda>rs (i, d). insert_room rs i d) rs l"

lemma get_insert_rooms:
  "distinct (map fst l) \<Longrightarrow>
     get_room (insert_rooms rs l) i = (case map_of l i of Some d \<Rightarrow> Some d | None \<Rightarrow> get_room rs i)"
proof (induction l arbitrary: rs)
  case Nil
  then show ?case by (simp add: insert_rooms_def)
next
  case (Cons x l)
  obtain j d where x: "x = (j, d)" by (cases x)
  have "insert_rooms rs (x # l) = insert_rooms (insert_room rs j d) l"
    by (simp add: insert_rooms_def x)
  with Cons x show ?case
    by (auto split: option.splits dest: map_of_SomeD simp: rev_image_eqI)
qed

lemma instance_closed:
  assumes "distinct (map rp_id (bp_rooms plan))"
    and "i \<in> fst ` set (instantiate_rooms pre plan)"
    and "find_exit (insert_rooms rs (instantiate_rooms pre plan)) i token = Some e"
  shows "ex_to e \<in> fst ` set (instantiate_rooms pre plan)
    \<and> has_room (insert_rooms rs (instantiate_rooms pre plan)) (ex_to e)
    \<and> \<not> ex_sealed e \<and> ex_gate e = None"
proof -
  define l where "l = instantiate_rooms pre plan"
  have d: "distinct (map fst l)" using assms(1) by (simp add: l_def instantiate_distinct)
  obtain r where r: "get_room (insert_rooms rs l) i = Some r" "e \<in> set (rd_exits r)"
    using find_exit_in_room [OF assms(3)] unfolding l_def by blast
  have "map_of l i \<noteq> None" using assms(2) unfolding l_def map_of_eq_None_iff by blast
  with r(1) have "map_of l i = Some r" unfolding get_insert_rooms [OF d] by auto
  then have "(i, r) \<in> set l" by (rule map_of_SomeD)
  then have e: "ex_to e \<in> fst ` set l \<and> \<not> ex_sealed e \<and> ex_gate e = None"
    using instantiate_exits [of i r pre plan e] r(2) by (simp add: l_def)
  then have "map_of l (ex_to e) \<noteq> None" unfolding map_of_eq_None_iff by blast
  then have "has_room (insert_rooms rs l) (ex_to e)"
    unfolding has_room_iff get_insert_rooms [OF d] by auto
  with e show ?thesis unfolding l_def by blast
qed

lemma parsed_start:
  "bp_rooms (parse_protoadventure_markdown a md) \<noteq> [] \<Longrightarrow>
     bp_start_room (parse_protoadventure_markdown a md)
       \<in> rp_id ` set (bp_rooms (parse_protoadventure_markdown a md))"
  by (auto simp: parse_protoadventure_markdown_def Let_def split: list.splits)

lemma instantiate_nonempty: "i \<in> fst ` set (instantiate_rooms pre plan) \<Longrightarrow> bp_rooms plan \<noteq> []"
  by (auto simp: instantiate_rooms_def)

lemma instantiate_start:
  "instance_id pre i \<in> fst ` set (instantiate_rooms pre plan) \<longleftrightarrow> i \<in> rp_id ` set (bp_rooms plan)"
  using instantiate_ids [of pre plan, THEN arg_cong, of set] by (auto simp: image_iff)

text \<open>
  C36. An adventure is a closed piece of the map. Whatever the Markdown, once its rooms are
  inserted under an instance prefix, the plan's start room is there if the plan has any room,
  and an exit that a player finds in a room of the instance is open and leads to a room of the
  same instance, which exists.
\<close>

theorem adventure_instance_closed:
  assumes "i \<in> fst ` set (instantiate_rooms pre (parse_protoadventure_markdown a md))"
    and "find_exit (insert_rooms rs (instantiate_rooms pre (parse_protoadventure_markdown a md)))
      i token = Some e"
  shows "ex_to e \<in> fst ` set (instantiate_rooms pre (parse_protoadventure_markdown a md))
    \<and> has_room (insert_rooms rs (instantiate_rooms pre (parse_protoadventure_markdown a md))) (ex_to e)
    \<and> \<not> ex_sealed e \<and> ex_gate e = None
    \<and> instance_id pre (bp_start_room (parse_protoadventure_markdown a md))
        \<in> fst ` set (instantiate_rooms pre (parse_protoadventure_markdown a md))"
  using instance_closed [OF parsed_distinct assms] parsed_start [of a md]
    instantiate_nonempty [OF assms(1)]
  unfolding instantiate_start by blast

definition demo_adventure :: string where
  "demo_adventure = ''### R_A (hall)'' @ [CHR 0x0A] @ ''- exits: east -> R_B, up -> R_X'' @ [CHR 0x0A]
     @ ''### R_B'' @ [CHR 0x0A] @ ''- note: end''"

lemma demo_rooms:
  "instantiate_rooms ''p'' (parse_protoadventure_markdown ''a'' demo_adventure) =
     [(''p.R_A'', \<lparr>rd_name = ''hall'', rd_description = [], rd_area_name = ''a'',
        rd_exits = [\<lparr>ex_dir = ''east'', ex_to = ''p.R_B'', ex_sealed = False, ex_gate = None\<rparr>]\<rparr>),
      (''p.R_B'', \<lparr>rd_name = ''R_B'', rd_description = ''note: end'', rd_area_name = ''a'',
        rd_exits = []\<rparr>)]"
  by code_simp

theorem adventure_instance_closed_witness:
  "has_room (insert_rooms \<lparr>rm_rooms = Map.empty, rm_dyn_rooms = Map.empty, rm_start_room = [],
       rm_areas = []\<rparr>
     (instantiate_rooms ''p'' (parse_protoadventure_markdown ''a'' demo_adventure))) ''p.R_B''"
proof -
  let ?rs = "\<lparr>rm_rooms = Map.empty, rm_dyn_rooms = Map.empty, rm_start_room = [], rm_areas = []\<rparr>"
  let ?e = "\<lparr>ex_dir = ''east'', ex_to = ''p.R_B'', ex_sealed = False, ex_gate = None\<rparr>"
  have t: "trim ''EAST'' = ''EAST''" "eq_ignore_ascii_case ''east'' ''EAST''" by code_simp+
  have "find_exit (insert_rooms ?rs
      (instantiate_rooms ''p'' (parse_protoadventure_markdown ''a'' demo_adventure)))
      ''p.R_A'' ''EAST'' = Some ?e"
    by (simp add: demo_rooms find_exit_def insert_rooms_def t)
  moreover have "''p.R_A'' \<in> fst ` set
      (instantiate_rooms ''p'' (parse_protoadventure_markdown ''a'' demo_adventure))"
    by (simp add: demo_rooms)
  ultimately show ?thesis
    using adventure_instance_closed [of "''p.R_A''" "''p''" "''a''" demo_adventure ?rs "''EAST''" ?e]
    by simp
qed

end
