(* ===== verification/World.thy ===== *)
theory World
  imports Quest RaftLog Protoadv
begin

text \<open>
  The state of a shard and the operations that keep it (\<open>World\<close> in
  \<open>apps/shard_01/src/main.rs\<close>): sessions and the characters they control, who is in which
  room, parties, inventories, the timer queue, groups and the shard's log, stored players.

  What the shard writes to the broker is the list \<open>w_out\<close>, a message per entry with the
  session it is for; writing to it succeeds. \<open>w_raft_file\<close> and \<open>w_players_file\<close> are the texts of the
  two files, \<open>None\<close> one that is absent; \<open>w_failed\<close> says that an error has left the handler of the
  connection by \<open>?\<close>.
\<close>

section \<open>The state\<close>

text \<open>
  What a turn takes from outside: the orders in which hash containers of numbers and of strings are
  iterated, what becomes of the write to the log with each index, serde's text of the players, and
  whether their file can be written.
\<close>

record hash_orders =
  ho_nat :: "(nat \<Rightarrow> bool) \<Rightarrow> nat list"
  ho_str :: "(string \<Rightarrow> bool) \<Rightarrow> string list"
  ho_raft_io :: "nat \<Rightarrow> raft_io"
  ho_players_text :: "player_snapshot list \<Rightarrow> string"
  ho_save_ok :: bool

definition orders_ok :: "hash_orders \<Rightarrow> bool" where
  "orders_ok ho \<longleftrightarrow> iter_ok (ho_nat ho) \<and> iter_ok (ho_str ho)"

record party =
  pt_id :: nat
  pt_leader :: nat
  pt_members :: "nat set"

record party_invite =
  pi_party_id :: nat
  pi_inviter :: nat
  pi_expires_ms :: nat

datatype pending_confirm = BotOn nat

record session_state =
  ss_controlled :: "nat list"
  ss_active :: nat
  ss_pending_confirm :: "pending_confirm option"

record party_build_plan =
  pb_instance_prefix :: string
  pb_rooms :: "(string \<times> room_def) list"
  pb_start_room :: string

datatype event_kind =
    EvRoomMsg string string
  | EvEnsureTavernMob
  | EvBartenderEmote
  | EvEnsureFirstFightWorm
  | EvEnsureClassHallMobs
  | EvCombatAct nat
  | EvBossTelegraph nat
  | EvBossResolve nat nat
  | EvMobWander nat
  | EvPartyBuildNext nat
  | EvTick

record scheduled_event =
  se_due_ms :: nat
  se_seq :: nat
  se_kind :: event_kind

record boss_state =
  bo_casting_until_ms :: nat
  bo_seq :: nat

text \<open>What a broker is told: output of a session (\<open>RESP_OUTPUT\<close>) or an error (\<open>RESP_ERR\<close>).\<close>

datatype response = OutputTo nat string | ErrorTo nat string

record world =
  w_rooms :: rooms
  w_sessions :: "nat \<rightharpoonup> session_state"
  w_chars :: "nat \<rightharpoonup> character"
  w_occupants :: "string \<rightharpoonup> nat set"
  w_parties :: "nat \<rightharpoonup> party"
  w_party_invites :: "nat \<rightharpoonup> party_invite"
  w_next_party_id :: nat
  w_party_of :: "nat \<rightharpoonup> nat"
  w_party_builds :: "nat \<rightharpoonup> party_build_plan"
  w_rng :: u64
  w_next_char_id :: nat
  w_now_ms :: nat
  w_event_seq :: nat
  w_events :: "scheduled_event list"
  w_bartender_id :: "nat option"
  w_bartender_emote_idx :: nat
  w_bartender_emote_ms :: nat
  w_mob_wander_ms :: nat
  w_bosses :: "nat \<rightharpoonup> boss_state"
  w_raft :: raft_log
  w_raft_file :: "string option"
  w_raft_watch :: "nat set"
  w_groups :: group_store
  w_players :: "string \<rightharpoonup> player_snapshot"
  w_players_file :: "string option"
  w_failed :: bool
  w_out :: "response list"

text \<open>
  The world of a new connection, before the genesis groups: \<open>groups\<close> is the replay of the log,
  \<open>players\<close> what \<open>load_player_snapshots\<close> read in \<open>players_file\<close>.
\<close>

definition world_start ::
  "rooms \<Rightarrow> u64 \<Rightarrow> nat \<Rightarrow> nat \<Rightarrow> raft_log \<Rightarrow> string option \<Rightarrow> group_store \<Rightarrow>
   (string \<rightharpoonup> player_snapshot) \<Rightarrow> string option \<Rightarrow> world" where
  "world_start rooms seed emote_ms wander_ms raft raft_file groups players players_file =
     \<lparr>w_rooms = rooms, w_sessions = Map.empty, w_chars = Map.empty, w_occupants = Map.empty,
      w_parties = Map.empty, w_party_invites = Map.empty, w_next_party_id = 1,
      w_party_of = Map.empty, w_party_builds = Map.empty, w_rng = rng_from_seed seed,
      w_next_char_id = 1, w_now_ms = 0, w_event_seq = 1, w_events = [], w_bartender_id = None,
      w_bartender_emote_idx = 0, w_bartender_emote_ms = emote_ms, w_mob_wander_ms = wander_ms,
      w_bosses = Map.empty, w_raft = raft, w_raft_file = raft_file, w_raft_watch = {},
      w_groups = groups, w_players = players, w_players_file = players_file, w_failed = False,
      w_out = []\<rparr>"

section \<open>Output\<close>

definition say :: "nat \<Rightarrow> string \<Rightarrow> world \<Rightarrow> world" where
  "say sid msg w = w\<lparr>w_out := w_out w @ [OutputTo sid msg]\<rparr>"

definition say_error :: "nat \<Rightarrow> string \<Rightarrow> world \<Rightarrow> world" where
  "say_error sid msg w = w\<lparr>w_out := w_out w @ [ErrorTo sid msg]\<rparr>"

definition in_room :: "world \<Rightarrow> string \<Rightarrow> nat set" where
  "in_room w room_id = opt_or {} (w_occupants w room_id)"

definition occupants_of :: "hash_orders \<Rightarrow> world \<Rightarrow> string \<Rightarrow> nat list" where
  "occupants_of ho w room_id =
     (case w_occupants w room_id of None \<Rightarrow> [] | Some s \<Rightarrow> set_elems (ho_nat ho) s)"

text \<open>The sessions of the characters listed, each once, in order.\<close>

definition controller_of :: "world \<Rightarrow> nat \<Rightarrow> nat option" where
  "controller_of w cid = Option.bind (w_chars w cid) c_controller"

definition sessions_of :: "world \<Rightarrow> nat list \<Rightarrow> nat list" where
  "sessions_of w cids = dedup (List.map_filter (controller_of w) cids)"

definition broadcast :: "nat list \<Rightarrow> string \<Rightarrow> world \<Rightarrow> world" where
  "broadcast sids msg w = w\<lparr>w_out := w_out w @ map (\<lambda>sid. OutputTo sid (msg @ crlf)) sids\<rparr>"

definition broadcast_room :: "hash_orders \<Rightarrow> string \<Rightarrow> string \<Rightarrow> world \<Rightarrow> world" where
  "broadcast_room ho room_id msg w = broadcast (sessions_of w (occupants_of ho w room_id)) msg w"

definition broadcast_all_sessions :: "hash_orders \<Rightarrow> string \<Rightarrow> world \<Rightarrow> world" where
  "broadcast_all_sessions ho msg w = broadcast (map_keys (ho_nat ho) (w_sessions w)) msg w"

definition party_send :: "hash_orders \<Rightarrow> nat \<Rightarrow> string \<Rightarrow> world \<Rightarrow> world" where
  "party_send ho pid msg w =
     (case w_parties w pid of
        None \<Rightarrow> w
      | Some p \<Rightarrow> broadcast (sessions_of w (set_elems (ho_nat ho) (pt_members p))) msg w)"

definition render_room_for :: "hash_orders \<Rightarrow> world \<Rightarrow> string \<Rightarrow> nat \<Rightarrow> string" where
  "render_room_for ho w room_id viewer =
     render_room (w_rooms w) room_id @
     (let others = List.map_filter
            (\<lambda>cid. case w_chars w cid of
                None \<Rightarrow> None
              | Some c \<Rightarrow>
                  if c_controller c = Some viewer then None
                  else Some (c_name c @ (if c_controller c = None then '' (mob)'' else [])))
            (occupants_of ho w room_id)
      in if others = [] then ''here: nobody'' @ crlf
         else ''here: '' @ join_with '', '' (sort others) @ crlf)"

definition online_names :: "hash_orders \<Rightarrow> (character \<Rightarrow> bool) \<Rightarrow> world \<Rightarrow> string list" where
  "online_names ho P w =
     sort (map c_name (filter (\<lambda>c. c_controller c \<noteq> None \<and> P c)
       (map_values (ho_nat ho) (w_chars w))))"

section \<open>Characters in rooms\<close>

definition upd_char :: "nat \<Rightarrow> (character \<Rightarrow> character) \<Rightarrow> world \<Rightarrow> world" where
  "upd_char cid f w =
     (case w_chars w cid of None \<Rightarrow> w | Some c \<Rightarrow> w\<lparr>w_chars := (w_chars w)(cid \<mapsto> f c)\<rparr>)"

definition enter_room :: "nat \<Rightarrow> string \<Rightarrow> world \<Rightarrow> world" where
  "enter_room cid room_id w =
     w\<lparr>w_occupants := (w_occupants w)(room_id \<mapsto> insert cid (in_room w room_id))\<rparr>"

definition leave_room :: "nat \<Rightarrow> string \<Rightarrow> world \<Rightarrow> world" where
  "leave_room cid room_id w =
     (case w_occupants w room_id of
        None \<Rightarrow> w
      | Some s \<Rightarrow>
          (if s - {cid} = {} then w\<lparr>w_occupants := (w_occupants w)(room_id := None)\<rparr>
           else w\<lparr>w_occupants := (w_occupants w)(room_id \<mapsto> s - {cid})\<rparr>))"

text \<open>The three updates with which every handler moves a character.\<close>

definition move_char :: "nat \<Rightarrow> string \<Rightarrow> string \<Rightarrow> world \<Rightarrow> world" where
  "move_char cid from to w =
     upd_char cid (\<lambda>c. c\<lparr>c_room_id := to\<rparr>) (enter_room cid to (leave_room cid from w))"

definition active_char_id :: "world \<Rightarrow> nat \<Rightarrow> nat option" where
  "active_char_id w session = map_option ss_active (w_sessions w session)"

definition active_char :: "world \<Rightarrow> nat \<Rightarrow> character option" where
  "active_char w session = Option.bind (active_char_id w session) (w_chars w)"

definition sessions_attached_to_character :: "hash_orders \<Rightarrow> world \<Rightarrow> nat \<Rightarrow> nat list" where
  "sessions_attached_to_character ho w cid =
     sort (filter (\<lambda>sid. cid \<in> set (ss_controlled (the (w_sessions w sid))))
       (map_keys (ho_nat ho) (w_sessions w)))"

definition broadcast_raft :: "hash_orders \<Rightarrow> string \<Rightarrow> world \<Rightarrow> world" where
  "broadcast_raft ho line w =
     (let sids = dedup (concat (map (sessions_attached_to_character ho w)
                   (set_elems (ho_nat ho) (w_raft_watch w))))
      in w\<lparr>w_out := w_out w @
           map (\<lambda>sid. OutputTo sid (if suffix crlf line then line else line @ crlf)) sids\<rparr>)"

section \<open>Time and the timer queue\<close>

text \<open>
  \<open>BinaryHeap<Reverse<ScheduledEvent>>\<close>: the queue gives events out by due time, then by
  sequence number. It is kept as the list in that order.
\<close>

definition before_ev :: "scheduled_event \<Rightarrow> scheduled_event \<Rightarrow> bool" where
  "before_ev a b \<longleftrightarrow> se_due_ms a < se_due_ms b \<or> (se_due_ms a = se_due_ms b \<and> se_seq a \<le> se_seq b)"

fun push_event :: "scheduled_event \<Rightarrow> scheduled_event list \<Rightarrow> scheduled_event list" where
  "push_event e [] = [e]"
| "push_event e (x # xs) = (if before_ev x e then x # push_event e xs else e # x # xs)"

definition apply_tick :: "nat \<Rightarrow> world \<Rightarrow> world" where
  "apply_tick dt w = w\<lparr>w_now_ms := sat_add64 (w_now_ms w) dt\<rparr>"

definition schedule_at_ms :: "nat \<Rightarrow> event_kind \<Rightarrow> world \<Rightarrow> world" where
  "schedule_at_ms due kind w =
     w\<lparr>w_event_seq := sat_add64 (w_event_seq w) 1,
       w_events := push_event \<lparr>se_due_ms = due, se_seq = w_event_seq w, se_kind = kind\<rparr> (w_events w)\<rparr>"

definition schedule_in_ms :: "nat \<Rightarrow> event_kind \<Rightarrow> world \<Rightarrow> world" where
  "schedule_in_ms delay kind w = schedule_at_ms (sat_add64 (w_now_ms w) delay) kind w"

definition pop_due_event :: "world \<Rightarrow> (scheduled_event \<times> world) option" where
  "pop_due_event w =
     (case w_events w of
        [] \<Rightarrow> None
      | e # es \<Rightarrow> if w_now_ms w < se_due_ms e then None else Some (e, w\<lparr>w_events := es\<rparr>))"

definition regen_char :: "nat \<Rightarrow> character \<Rightarrow> character" where
  "regen_char now c =
     (if c_controller c = None then c
      else
        (let c =
           (if c_max_mana c > 0 \<and> c_mana c < c_max_mana c then
              (let n = (now - c_last_mana_regen_ms c) div 1500 in
               if n > 0 then
                 c\<lparr>c_mana := min (wrap_i32 (c_mana c + as_i32 n)) (c_max_mana c),
                   c_last_mana_regen_ms := now\<rparr>
               else c)
            else c\<lparr>c_last_mana_regen_ms := now\<rparr>)
         in if c_max_stamina c > 0 \<and> c_stamina c < c_max_stamina c then
              (let n = (now - c_last_stamina_regen_ms c) div 1000 in
               if n > 0 then
                 c\<lparr>c_stamina := min (wrap_i32 (c_stamina c + as_i32 n)) (c_max_stamina c),
                   c_last_stamina_regen_ms := now\<rparr>
               else c)
            else c\<lparr>c_last_stamina_regen_ms := now\<rparr>))"

definition regen_resources :: "world \<Rightarrow> world" where
  "regen_resources w = w\<lparr>w_chars := map_option (regen_char (w_now_ms w)) \<circ> w_chars w\<rparr>"

section \<open>Inventories\<close>

definition bag_add :: "string \<Rightarrow> nat \<Rightarrow> (string \<rightharpoonup> nat) \<Rightarrow> (string \<rightharpoonup> nat)" where
  "bag_add item n bag = bag(item \<mapsto> sat_add32 (opt_or 0 (bag item)) n)"

definition inv_add :: "nat \<Rightarrow> string \<Rightarrow> nat \<Rightarrow> world \<Rightarrow> world" where
  "inv_add cid item n w = upd_char cid (\<lambda>c. c\<lparr>c_inv := bag_add item n (c_inv c)\<rparr>) w"

definition bag_take_one :: "string \<Rightarrow> (string \<rightharpoonup> nat) \<Rightarrow> bool \<times> (string \<rightharpoonup> nat)" where
  "bag_take_one item bag =
     (case bag item of
        None \<Rightarrow> (False, bag)
      | Some v \<Rightarrow>
          (if v = 0 then (False, bag(item := None))
           else if v - 1 = 0 then (True, bag(item := None))
           else (True, bag(item \<mapsto> v - 1))))"

definition inv_take_one :: "nat \<Rightarrow> string \<Rightarrow> world \<Rightarrow> bool \<times> world" where
  "inv_take_one cid item w =
     (case w_chars w cid of
        None \<Rightarrow> (False, w)
      | Some c \<Rightarrow>
          (let (ok, bag) = bag_take_one item (c_inv c) in
           (ok, upd_char cid (\<lambda>c. c\<lparr>c_inv := bag\<rparr>) w)))"

definition bag_take_n :: "string \<Rightarrow> nat \<Rightarrow> (string \<rightharpoonup> nat) \<Rightarrow> nat \<times> (string \<rightharpoonup> nat)" where
  "bag_take_n item n bag =
     (case bag item of
        None \<Rightarrow> (0, bag)
      | Some v \<Rightarrow>
          (let t = min v n in
           if v - t = 0 then (t, bag(item := None)) else (t, bag(item \<mapsto> v - t))))"

definition inv_take_n :: "nat \<Rightarrow> string \<Rightarrow> nat \<Rightarrow> world \<Rightarrow> nat \<times> world" where
  "inv_take_n cid item n w =
     (case w_chars w cid of
        None \<Rightarrow> (0, w)
      | Some c \<Rightarrow>
          (let (t, bag) = bag_take_n item n (c_inv c) in
           (t, upd_char cid (\<lambda>c. c\<lparr>c_inv := bag\<rparr>) w)))"

section \<open>Parties\<close>

definition party_members_vec :: "hash_orders \<Rightarrow> world \<Rightarrow> nat \<Rightarrow> nat list" where
  "party_members_vec ho w pid =
     (case w_parties w pid of None \<Rightarrow> [] | Some p \<Rightarrow> set_elems (ho_nat ho) (pt_members p))"

definition party_create :: "nat \<Rightarrow> world \<Rightarrow> nat \<times> world" where
  "party_create leader w =
     (let pid = w_next_party_id w in
      (pid, w\<lparr>w_next_party_id := sat_add64 (w_next_party_id w) 1,
              w_parties := (w_parties w)(pid \<mapsto>
                \<lparr>pt_id = pid, pt_leader = leader, pt_members = {leader}\<rparr>),
              w_party_of := (w_party_of w)(leader \<mapsto> pid)\<rparr>))"

definition party_leave :: "hash_orders \<Rightarrow> nat \<Rightarrow> world \<Rightarrow> world" where
  "party_leave ho cid w =
     (case w_party_of w cid of
        None \<Rightarrow> w
      | Some pid \<Rightarrow>
          (let w = w\<lparr>w_party_of := (w_party_of w)(cid := None)\<rparr> in
           case w_parties w pid of
             None \<Rightarrow> w
           | Some p \<Rightarrow>
               (let ms = pt_members p - {cid} in
                if ms = {} then w\<lparr>w_parties := (w_parties w)(pid := None)\<rparr>
                else
                  (let leader = (if pt_leader p = cid then hd (set_elems (ho_nat ho) ms)
                                 else pt_leader p)
                   in w\<lparr>w_parties := (w_parties w)(pid \<mapsto>
                          p\<lparr>pt_members := ms, pt_leader := leader\<rparr>)\<rparr>))))"

definition party_disband :: "nat \<Rightarrow> world \<Rightarrow> world" where
  "party_disband pid w =
     (case w_parties w pid of
        None \<Rightarrow> w
      | Some p \<Rightarrow>
          w\<lparr>w_parties := (w_parties w)(pid := None),
            w_party_of := (\<lambda>c. if c \<in> pt_members p then None else w_party_of w c),
            w_party_invites := (\<lambda>c. case w_party_invites w c of
                None \<Rightarrow> None
              | Some i \<Rightarrow> if pi_party_id i = pid then None else Some i)\<rparr>)"

section \<open>Finding characters by name\<close>

definition find_in_room :: "hash_orders \<Rightarrow> (character \<Rightarrow> bool) \<Rightarrow> world \<Rightarrow> string \<Rightarrow> string \<Rightarrow> nat option"
  where
  "find_in_room ho P w room_id token =
     (let t = norm_key token in
      if t = [] then None
      else find (\<lambda>cid. case w_chars w cid of
                   None \<Rightarrow> False
                 | Some c \<Rightarrow>
                     P c \<and> (let n = to_ascii_lowercase (c_name c) in n = t \<or> prefix t n))
             (occupants_of ho w room_id))"

definition find_mob_in_room :: "hash_orders \<Rightarrow> world \<Rightarrow> string \<Rightarrow> string \<Rightarrow> nat option" where
  "find_mob_in_room ho = find_in_room ho (\<lambda>c. c_controller c = None)"

definition find_player_in_room :: "hash_orders \<Rightarrow> world \<Rightarrow> string \<Rightarrow> string \<Rightarrow> nat option" where
  "find_player_in_room ho = find_in_room ho (\<lambda>c. c_controller c \<noteq> None)"

text \<open>
  A scan that keeps the one identifier found: \<open>None\<close> when a second, different one turns up
  (the early return), \<open>Some None\<close> when there is none.
\<close>

fun scan_unique :: "(character \<Rightarrow> bool) \<Rightarrow> character list \<Rightarrow> nat option \<Rightarrow> nat option option" where
  "scan_unique P [] found = Some found"
| "scan_unique P (c # cs) found =
     (if c_controller c = None \<or> \<not> P c then scan_unique P cs found
      else if found \<noteq> None \<and> found \<noteq> Some (c_id c) then None
      else scan_unique P cs (Some (c_id c)))"

definition find_player_by_prefix :: "hash_orders \<Rightarrow> world \<Rightarrow> string \<Rightarrow> nat option" where
  "find_player_by_prefix ho w token =
     (let t = norm_key token; cs = map_values (ho_nat ho) (w_chars w) in
      if t = [] then None
      else
        (case scan_unique (\<lambda>c. to_ascii_lowercase (c_name c) = t) cs None of
           None \<Rightarrow> None
         | Some (Some cid) \<Rightarrow> Some cid
         | Some None \<Rightarrow>
             (case scan_unique (\<lambda>c. prefix t (to_ascii_lowercase (c_name c))) cs None of
                None \<Rightarrow> None
              | Some found \<Rightarrow> found)))"

section \<open>Stored players\<close>

text \<open>\<open>sort_by\<close> principal, then name: strings compare by their bytes.\<close>

definition player_list :: "hash_orders \<Rightarrow> world \<Rightarrow> player_snapshot list" where
  "player_list ho w = sort_key sn_principal (sort_key sn_name (map_values (ho_str ho) (w_players w)))"

text \<open>
  The text is written to a file of its own, which then takes the place of the old one; when anything
  of this fails the callers only warn, and the old file stays.
\<close>

definition persist_player_snapshots :: "hash_orders \<Rightarrow> world \<Rightarrow> world" where
  "persist_player_snapshots ho w =
     (if ho_save_ok ho then w\<lparr>w_players_file := Some (ho_players_text ho (player_list ho w))\<rparr> else w)"

definition remember_player :: "hash_orders \<Rightarrow> character \<Rightarrow> world \<Rightarrow> world" where
  "remember_player ho c w =
     (case from_character (ho_str ho) c of
        None \<Rightarrow> w
      | Some sn \<Rightarrow>
          persist_player_snapshots ho (w\<lparr>w_players := (w_players w)(sn_principal sn \<mapsto> sn)\<rparr>))"

definition remember_player_by_id :: "hash_orders \<Rightarrow> nat \<Rightarrow> world \<Rightarrow> world" where
  "remember_player_by_id ho cid w =
     (case w_chars w cid of None \<Rightarrow> w | Some c \<Rightarrow> remember_player ho c w)"

definition persist_live_players :: "hash_orders \<Rightarrow> world \<Rightarrow> world" where
  "persist_live_players ho w =
     persist_player_snapshots ho
       (w\<lparr>w_players := foldl (\<lambda>m sn. m(sn_principal sn \<mapsto> sn)) (w_players w)
            (List.map_filter (from_character (ho_str ho)) (map_values (ho_nat ho) (w_chars w)))\<rparr>)"

section \<open>Coming and going\<close>

definition new_session_char :: "nat \<Rightarrow> nat \<Rightarrow> world \<Rightarrow> world" where
  "new_session_char session cid w =
     (let ss = (case w_sessions w session of
                  None \<Rightarrow> \<lparr>ss_controlled = [], ss_active = cid, ss_pending_confirm = None\<rparr>
                | Some ss \<Rightarrow> ss)
      in w\<lparr>w_sessions := (w_sessions w)(session \<mapsto>
             ss\<lparr>ss_controlled := ss_controlled ss @ [cid], ss_active := cid\<rparr>)\<rparr>)"

text \<open>Taking the next identifier and putting a character with it into its room.\<close>

definition insert_char :: "(nat \<Rightarrow> character) \<Rightarrow> world \<Rightarrow> nat \<times> world" where
  "insert_char mk w =
     (let cid = w_next_char_id w; c = mk cid;
          w = w\<lparr>w_next_char_id := sat_add64 (w_next_char_id w) 1,
                w_chars := (w_chars w)(cid \<mapsto> c)\<rparr>
      in (cid, enter_room cid (c_room_id c) w))"

definition restore_character ::
  "hash_orders \<Rightarrow> nat \<Rightarrow> player_snapshot \<Rightarrow> string \<Rightarrow> capability set \<Rightarrow> world \<Rightarrow> nat \<times> world" where
  "restore_character ho session sn prin caps w =
     (let room_id = (if has_room (w_rooms w) (sn_room_id sn) then sn_room_id sn
                     else rm_start_room (w_rooms w));
          (cid, w) = insert_char
            (\<lambda>cid. restored (ho_str ho) cid session (w_now_ms w) room_id sn prin caps) w
      in (cid, new_session_char session cid w))"

definition new_character ::
  "nat \<Rightarrow> nat \<Rightarrow> nat \<Rightarrow> string \<Rightarrow> string \<Rightarrow> string \<Rightarrow> capability set \<Rightarrow> bool \<Rightarrow> race \<Rightarrow> char_class \<Rightarrow>
   sex \<Rightarrow> pronoun_key \<Rightarrow> character" where
  "new_character cid session now room_id nm prin caps is_bot rc cls sx pron =
     (let stats = assign_core_stats_for_class cls;
          max_hp = max (compute_max_hp cls stats) 1;
          max_mana = max (compute_max_mana cls stats 1) 0;
          max_stamina = max (compute_max_stamina cls stats 1) 0
      in \<lparr>c_id = cid, c_controller = Some session, c_created_by = Some session, c_name = nm,
          c_principal = prin, c_auth_caps = caps, c_is_bot = is_bot, c_bot_ever = is_bot,
          c_bot_ever_since_ms = (if is_bot then Some now else None),
          c_bot_mode_changed_ms = now, c_friends = {}, c_room_id = room_id,
          c_autoassist = True, c_follow_leader = False, c_drink_level = 0, c_gold = 0,
          c_inv = Map.empty, c_quest = Map.empty, c_class = Some cls, c_level = 1, c_xp = 0,
          c_skill_points = 0, c_skills = Map.empty, c_skill_cd_ms = Map.empty,
          c_race = Some rc, c_sex = sx, c_pronouns = pron, c_stats = stats, c_hp = max_hp,
          c_max_hp = max_hp, c_mana = max_mana, c_max_mana = max_mana,
          c_stamina = max_stamina, c_max_stamina = max_stamina, c_last_mana_regen_ms = now,
          c_last_stamina_regen_ms = now, c_pvp_enabled = False, c_stunned_until_ms = 0,
          c_combat = combat_state_new now, c_equip = Map.empty\<rparr>)"

definition spawn_character ::
  "nat \<Rightarrow> string \<Rightarrow> string \<Rightarrow> capability set \<Rightarrow> bool \<Rightarrow> race \<Rightarrow> char_class \<Rightarrow> sex \<Rightarrow> pronoun_key \<Rightarrow>
   world \<Rightarrow> nat \<times> world" where
  "spawn_character session nm prin caps is_bot rc cls sx pron w =
     (let (cid, w) = insert_char
            (\<lambda>cid. new_character cid session (w_now_ms w) (rm_start_room (w_rooms w)) nm prin caps
                     is_bot rc cls sx pron) w;
          w = new_session_char session cid w
      in (cid, foldl (\<lambda>w (item, n). inv_add cid item n w) w (starter_kit_for_size (race_size rc))))"

definition spawn_or_restore_character ::
  "hash_orders \<Rightarrow> nat \<Rightarrow> string \<Rightarrow> string \<Rightarrow> capability set \<Rightarrow> bool \<Rightarrow> race \<Rightarrow> char_class \<Rightarrow> sex \<Rightarrow>
   pronoun_key \<Rightarrow> world \<Rightarrow> nat \<times> world" where
  "spawn_or_restore_character ho session nm prin caps is_bot rc cls sx pron w =
     (case w_players w prin of
        Some sn \<Rightarrow> restore_character ho session sn prin caps w
      | None \<Rightarrow> spawn_character session nm prin caps is_bot rc cls sx pron w)"

definition mob_character :: "nat \<Rightarrow> nat \<Rightarrow> string \<Rightarrow> string \<Rightarrow> character" where
  "mob_character cid now room_id nm =
     \<lparr>c_id = cid, c_controller = None, c_created_by = None, c_name = nm, c_principal = ''mob:'',
      c_auth_caps = {}, c_is_bot = False, c_bot_ever = False, c_bot_ever_since_ms = None,
      c_bot_mode_changed_ms = now, c_friends = {}, c_room_id = room_id, c_autoassist = False,
      c_follow_leader = False, c_drink_level = 0, c_gold = 0, c_inv = Map.empty,
      c_quest = Map.empty, c_class = None, c_level = 1, c_xp = 0, c_skill_points = 0,
      c_skills = Map.empty, c_skill_cd_ms = Map.empty, c_race = None, c_sex = SexNone,
      c_pronouns = PronThey, c_stats = baseline_scores, c_hp = 1, c_max_hp = 1, c_mana = 0,
      c_max_mana = 0, c_stamina = 0, c_max_stamina = 0, c_last_mana_regen_ms = now,
      c_last_stamina_regen_ms = now, c_pvp_enabled = False, c_stunned_until_ms = 0,
      c_combat = combat_state_new now, c_equip = Map.empty\<rparr>"

definition spawn_mob :: "string \<Rightarrow> string \<Rightarrow> world \<Rightarrow> nat \<times> world" where
  "spawn_mob room_id nm w = insert_char (\<lambda>cid. mob_character cid (w_now_ms w) room_id nm) w"

definition spawn_mob_hp :: "string \<Rightarrow> string \<Rightarrow> int \<Rightarrow> world \<Rightarrow> nat \<times> world" where
  "spawn_mob_hp room_id nm hp w =
     (let (cid, w) = spawn_mob room_id nm w in
      (cid, upd_char cid (\<lambda>m. m\<lparr>c_hp := hp, c_max_hp := hp\<rparr>) w))"

definition spawn_stenchworm :: "string \<Rightarrow> world \<Rightarrow> nat \<times> world" where
  "spawn_stenchworm room_id w = spawn_mob_hp room_id ''stenchworm'' 9 w"

definition spawn_named_mob :: "string \<Rightarrow> string \<Rightarrow> world \<Rightarrow> nat option \<times> world" where
  "spawn_named_mob room_id token w =
     (let t = norm_key token in
      if t = [] then (None, w)
      else if t = ''stenchworm'' then apfst Some (spawn_stenchworm room_id w)
      else if t = ''dummy'' \<or> t = ''training_dummy'' then apfst Some (spawn_mob_hp room_id ''dummy'' 120 w)
      else if t = ''rat'' then apfst Some (spawn_mob_hp room_id ''rat'' 5 w)
      else if t = ''spitter'' then apfst Some (spawn_mob_hp room_id ''spitter'' 7 w)
      else if t = ''grease_king'' then
        (let (cid, w) = spawn_mob_hp room_id ''grease_king'' 60 w;
             w = w\<lparr>w_bosses := (w_bosses w)(cid \<mapsto> \<lparr>bo_casting_until_ms = 0, bo_seq = 1\<rparr>)\<rparr>
         in (Some cid, schedule_in_ms 800 (EvBossTelegraph cid) w))
      else apfst Some (spawn_mob_hp room_id t 10 w))"

definition remove_char :: "hash_orders \<Rightarrow> nat \<Rightarrow> world \<Rightarrow> character option \<times> world" where
  "remove_char ho cid w =
     (let w = party_leave ho cid (w\<lparr>w_party_invites := (w_party_invites w)(cid := None)\<rparr>) in
      case w_chars w cid of
        None \<Rightarrow> (None, w)
      | Some c \<Rightarrow>
          (Some c, leave_room cid (c_room_id c) (w\<lparr>w_chars := (w_chars w)(cid := None)\<rparr>)))"

text \<open>One of the session's characters goes: the player is stored before it leaves its room.\<close>

definition detach_char :: "hash_orders \<Rightarrow> nat \<Rightarrow> world \<Rightarrow> world" where
  "detach_char ho cid w =
     (let w = w\<lparr>w_raft_watch := w_raft_watch w - {cid},
                w_party_invites := (w_party_invites w)(cid := None)\<rparr>;
          w = party_leave ho cid w
      in case w_chars w cid of
           None \<Rightarrow> w
         | Some c \<Rightarrow>
             leave_room cid (c_room_id c)
               (remember_player ho c (w\<lparr>w_chars := (w_chars w)(cid := None)\<rparr>)))"

definition detach_session :: "hash_orders \<Rightarrow> nat \<Rightarrow> world \<Rightarrow> world" where
  "detach_session ho session w =
     (case w_sessions w session of
        None \<Rightarrow> w
      | Some ss \<Rightarrow>
          foldl (\<lambda>w cid. detach_char ho cid w)
            (w\<lparr>w_sessions := (w_sessions w)(session := None)\<rparr>) (ss_controlled ss))"

section \<open>Clearing an instance\<close>

definition evacuate_one :: "string \<Rightarrow> world \<Rightarrow> nat \<Rightarrow> world" where
  "evacuate_one to_room w cid =
     (case w_chars w cid of
        None \<Rightarrow> w
      | Some c \<Rightarrow>
          enter_room cid to_room
            (w\<lparr>w_chars := (w_chars w)(cid \<mapsto> c\<lparr>c_room_id := to_room\<rparr>)\<rparr>))"

definition evacuate_room :: "hash_orders \<Rightarrow> string \<Rightarrow> world \<Rightarrow> string \<Rightarrow> world" where
  "evacuate_room ho to_room w rid =
     (case w_occupants w rid of
        None \<Rightarrow> w
      | Some cids \<Rightarrow>
          foldl (evacuate_one to_room) (w\<lparr>w_occupants := (w_occupants w)(rid := None)\<rparr>)
            (set_elems (ho_nat ho) cids))"

definition evacuate_rooms_with_prefix :: "hash_orders \<Rightarrow> string \<Rightarrow> string \<Rightarrow> world \<Rightarrow> world" where
  "evacuate_rooms_with_prefix ho pre to_room w =
     foldl (evacuate_room ho to_room) w
       (filter (prefix (pre @ ''.'')) (map_keys (ho_str ho) (w_occupants w)))"

text \<open>
  \<open>load_protoadventure\<close>: \<open>read_file\<close> is the Markdown file of that name, if it can be read;
  \<open>None\<close> in the result is the error.
\<close>

definition adventure_id_ok :: "string \<Rightarrow> bool" where
  "adventure_id_ok a \<longleftrightarrow>
     list_all (\<lambda>c. is_ascii_lower c \<or> is_ascii_digit c \<or> c = CHR ''-'' \<or> c = CHR ''_'') a"

definition load_protoadventure ::
  "hash_orders \<Rightarrow> (string \<Rightarrow> string option) \<Rightarrow> string \<Rightarrow> world \<Rightarrow> string option \<times> world" where
  "load_protoadventure ho read_file adventure_id w =
     (let a = trim adventure_id in
      if a = [] \<or> \<not> adventure_id_ok a then (None, w)
      else
        (case read_file (''protoadventures/'' @ a @ ''.md'') of
           None \<Rightarrow> (None, w)
         | Some md \<Rightarrow>
             (let plan = parse_protoadventure_markdown a md;
                  pre = ''proto.'' @ a;
                  rs = instantiate_rooms pre plan
              in if rs = [] then (None, w)
                 else
                   (let evac_to = (if has_room (w_rooms w) ''R_TOWN_GATE_01'' then ''R_TOWN_GATE_01''
                                   else rm_start_room (w_rooms w));
                        w = evacuate_rooms_with_prefix ho pre evac_to w;
                        rooms = insert_rooms (clear_dyn_rooms_with_prefix (w_rooms w) pre) rs
                    in (Some (instance_id pre (bp_start_room plan)), w\<lparr>w_rooms := rooms\<rparr>)))))"

end
