(* ===== verification/WorldInv.thy ===== *)
theory WorldInv
  imports World
begin

text \<open>
  The consistency of a shard's world: characters are filed under their own identifier, which
  has been given out; a room's occupants are exactly the characters that are in it, and empty
  rooms are not kept; party membership, leaders and the members' back references agree; each
  session controls the characters that name it as their controller; the timer queue is in
  order. Each operation of \<open>World\<close> keeps it.
\<close>

section \<open>The invariant\<close>

definition chars_ok :: "(nat \<rightharpoonup> character) \<Rightarrow> nat \<Rightarrow> bool" where
  "chars_ok chars next_id \<longleftrightarrow>
     finite (dom chars) \<and> (\<forall>cid c. chars cid = Some c \<longrightarrow> c_id c = cid \<and> cid < next_id)"

definition occ_ok :: "(string \<rightharpoonup> nat set) \<Rightarrow> (nat \<rightharpoonup> character) \<Rightarrow> bool" where
  "occ_ok occ chars \<longleftrightarrow>
     (\<forall>room_id. occ room_id \<noteq> Some {}) \<and>
     (\<forall>cid room_id. cid \<in> opt_or {} (occ room_id)
        \<longleftrightarrow> (\<exists>c. chars cid = Some c \<and> c_room_id c = room_id))"

definition party_ok :: "(nat \<rightharpoonup> party) \<Rightarrow> (nat \<rightharpoonup> nat) \<Rightarrow> nat \<Rightarrow> nat set \<Rightarrow> bool" where
  "party_ok parties party_of next_pid cids \<longleftrightarrow>
     (\<forall>pid p. parties pid = Some p \<longrightarrow>
        pt_id p = pid \<and> pid < next_pid \<and> pt_leader p \<in> pt_members p) \<and>
     (\<forall>cid pid. party_of cid = Some pid
        \<longleftrightarrow> (\<exists>p. parties pid = Some p \<and> cid \<in> pt_members p)) \<and>
     dom party_of \<subseteq> cids"

definition sess_ok :: "(nat \<rightharpoonup> session_state) \<Rightarrow> (nat \<rightharpoonup> character) \<Rightarrow> nat \<Rightarrow> bool" where
  "sess_ok sessions chars next_id \<longleftrightarrow>
     (\<forall>cid c sid. chars cid = Some c \<and> c_controller c = Some sid \<longrightarrow>
        (\<exists>ss. sessions sid = Some ss \<and> cid \<in> set (ss_controlled ss))) \<and>
     (\<forall>sid ss cid. sessions sid = Some ss \<and> cid \<in> set (ss_controlled ss) \<longrightarrow>
        cid < next_id \<and> (\<forall>c. chars cid = Some c \<longrightarrow> c_controller c = Some sid))"

definition queue_ok :: "scheduled_event list \<Rightarrow> nat \<Rightarrow> bool" where
  "queue_ok evs n \<longleftrightarrow> n \<le> u64_max \<and> sorted_wrt before_ev evs \<and> (\<forall>e \<in> set evs. se_seq e \<le> n)"

definition world_ok :: "world \<Rightarrow> bool" where
  "world_ok w \<longleftrightarrow>
     chars_ok (w_chars w) (w_next_char_id w) \<and> occ_ok (w_occupants w) (w_chars w) \<and>
     party_ok (w_parties w) (w_party_of w) (w_next_party_id w) (dom (w_chars w)) \<and>
     sess_ok (w_sessions w) (w_chars w) (w_next_char_id w) \<and> queue_ok (w_events w) (w_event_seq w)"

named_theorems world_intro \<open>operations that keep the invariant\<close>
named_theorems frame_defs \<open>operations that leave the consistent part of the state alone\<close>

lemma world_okD:
  assumes "world_ok w"
  shows "chars_ok (w_chars w) (w_next_char_id w)" "occ_ok (w_occupants w) (w_chars w)"
    "party_ok (w_parties w) (w_party_of w) (w_next_party_id w) (dom (w_chars w))"
    "sess_ok (w_sessions w) (w_chars w) (w_next_char_id w)" "queue_ok (w_events w) (w_event_seq w)"
  using assms by (simp_all add: world_ok_def)

lemma char_idD: "world_ok w \<Longrightarrow> w_chars w cid = Some c \<Longrightarrow> c_id c = cid \<and> cid < w_next_char_id w"
  using world_okD(1) chars_ok_def by blast

lemma finite_chars: "world_ok w \<Longrightarrow> finite (dom (w_chars w))"
  using world_okD(1) chars_ok_def by blast

lemma in_room_iff:
  "world_ok w \<Longrightarrow> cid \<in> in_room w room_id \<longleftrightarrow> (\<exists>c. w_chars w cid = Some c \<and> c_room_id c = room_id)"
  using world_okD(2) by (simp add: occ_ok_def in_room_def)

lemma finite_in_room: "world_ok w \<Longrightarrow> finite (in_room w room_id)"
  by (rule finite_subset [OF _ finite_chars [of w]]) (auto simp: in_room_iff)

lemma set_occupants_of:
  assumes "world_ok w" "orders_ok ho"
  shows "set (occupants_of ho w room_id) = in_room w room_id"
  using assms finite_in_room [of w room_id]
  by (auto simp: occupants_of_def in_room_def opt_or_def orders_ok_def set_set_elems
      split: option.splits)

section \<open>Output and other fields\<close>

declare say_def [frame_defs] say_error_def [frame_defs] broadcast_def [frame_defs] broadcast_room_def [frame_defs]
  broadcast_all_sessions_def [frame_defs] broadcast_raft_def [frame_defs]
  persist_player_snapshots_def [frame_defs] apply_tick_def [frame_defs] Let_def [frame_defs]

lemma out_ok [simp]:
  "world_ok (say sid msg w) = world_ok w" "world_ok (say_error sid msg w) = world_ok w"
  "world_ok (broadcast sids msg w) = world_ok w"
  "world_ok (broadcast_room ho room_id msg w) = world_ok w"
  "world_ok (broadcast_all_sessions ho msg w) = world_ok w"
  "world_ok (broadcast_raft ho msg w) = world_ok w"
  "world_ok (party_send ho pid msg w) = world_ok w"
  by (simp_all add: world_ok_def frame_defs party_send_def split: option.split)

lemma out_chars [simp]:
  "w_chars (say sid msg w) = w_chars w" "w_chars (say_error sid msg w) = w_chars w"
  "w_chars (broadcast sids msg w) = w_chars w"
  "w_chars (broadcast_room ho room_id msg w) = w_chars w"
  "w_chars (broadcast_all_sessions ho msg w) = w_chars w"
  "w_chars (broadcast_raft ho msg w) = w_chars w"
  "w_chars (party_send ho pid msg w) = w_chars w"
  by (simp_all add: frame_defs party_send_def split: option.split)

lemma out_ids [simp]:
  "w_next_char_id (say sid msg w) = w_next_char_id w"
  "w_next_char_id (say_error sid msg w) = w_next_char_id w"
  "w_next_char_id (broadcast sids msg w) = w_next_char_id w"
  "w_next_char_id (broadcast_room ho room_id msg w) = w_next_char_id w"
  "w_next_char_id (broadcast_all_sessions ho msg w) = w_next_char_id w"
  "w_next_char_id (broadcast_raft ho msg w) = w_next_char_id w"
  "w_next_char_id (party_send ho pid msg w) = w_next_char_id w"
  by (simp_all add: frame_defs party_send_def split: option.split)

lemma field_ok [simp]:
  "world_ok (w\<lparr>w_bosses := b\<rparr>) = world_ok w" "world_ok (w\<lparr>w_rng := r\<rparr>) = world_ok w"
  "world_ok (w\<lparr>w_bartender_id := i\<rparr>) = world_ok w"
  "world_ok (w\<lparr>w_bartender_emote_idx := n\<rparr>) = world_ok w"
  "world_ok (w\<lparr>w_party_builds := pb\<rparr>) = world_ok w" "world_ok (w\<lparr>w_rooms := rs\<rparr>) = world_ok w"
  "world_ok (w\<lparr>w_party_invites := pin\<rparr>) = world_ok w"
  "world_ok (w\<lparr>w_raft_watch := rw\<rparr>) = world_ok w" "world_ok (w\<lparr>w_players := pl\<rparr>) = world_ok w"
  "world_ok (w\<lparr>w_players_file := sv\<rparr>) = world_ok w" "world_ok (w\<lparr>w_failed := fl\<rparr>) = world_ok w" "world_ok (w\<lparr>w_out := ot\<rparr>) = world_ok w"
  "world_ok (w\<lparr>w_now_ms := t\<rparr>) = world_ok w"
  "world_ok (w\<lparr>w_raft := rf\<rparr>) = world_ok w" "world_ok (w\<lparr>w_raft_file := rff\<rparr>) = world_ok w"
  "world_ok (w\<lparr>w_groups := g\<rparr>) = world_ok w"
  by (simp_all add: world_ok_def)

lemma persist_ok [simp]: "world_ok (persist_player_snapshots ho w) = world_ok w"
  by (simp add: persist_player_snapshots_def)

lemma remember_ok [simp]:
  "world_ok (remember_player ho c w) = world_ok w"
  "world_ok (remember_player_by_id ho cid w) = world_ok w"
  "world_ok (persist_live_players ho w) = world_ok w"
  by (simp_all add: remember_player_def remember_player_by_id_def persist_live_players_def
      split: option.split)

lemma apply_tick_ok [simp]: "world_ok (apply_tick dt w) = world_ok w"
  by (simp add: apply_tick_def)

section \<open>The timer queue\<close>

lemma before_ev_trans: "before_ev a b \<Longrightarrow> before_ev b c \<Longrightarrow> before_ev a c"
  by (auto simp: before_ev_def)

lemma before_ev_total: "before_ev a b \<or> before_ev b a"
  by (auto simp: before_ev_def)

lemma set_push_event [simp]: "set (push_event e es) = insert e (set es)"
  by (induction es) auto

lemma mset_push_event: "mset (push_event e es) = add_mset e (mset es)"
  by (induction es) auto

lemma sorted_push_event: "sorted_wrt before_ev es \<Longrightarrow> sorted_wrt before_ev (push_event e es)"
proof (induction es)
  case Nil
  then show ?case by simp
next
  case (Cons x es)
  then show ?case
    using before_ev_total [of x e] by (auto intro: before_ev_trans)
qed

lemma queue_push:
  "queue_ok es n \<Longrightarrow> se_seq e = n \<Longrightarrow> queue_ok (push_event e es) (sat_add64 n 1)"
  using sat_add64_ge [of n 1] sat_add64_le [of n 1]
  by (auto simp: queue_ok_def sorted_push_event intro: order_trans)

lemma schedule_ok [simp, intro]: "world_ok w \<Longrightarrow> world_ok (schedule_at_ms due k w)"
  by (simp add: world_ok_def schedule_at_ms_def queue_push [simplified])

lemma schedule_in_ok [simp, intro]: "world_ok w \<Longrightarrow> world_ok (schedule_in_ms d k w)"
  by (simp add: schedule_in_ms_def)

lemma pop_due_ok: "world_ok w \<Longrightarrow> pop_due_event w = Some (e, w') \<Longrightarrow> world_ok w'"
  by (auto simp: pop_due_event_def world_ok_def queue_ok_def split: list.splits if_splits)

section \<open>Characters\<close>

text \<open>An update of a character that the consistency of the world does not see.\<close>

definition tame :: "(character \<Rightarrow> character) \<Rightarrow> bool" where
  "tame f \<longleftrightarrow> (\<forall>c. c_id (f c) = c_id c \<and> c_controller (f c) = c_controller c
     \<and> c_room_id (f c) = c_room_id c)"

lemma chars_ok_upd: "chars_ok chars n \<Longrightarrow> c_id c = cid \<Longrightarrow> cid < n \<Longrightarrow> chars_ok (chars(cid \<mapsto> c)) n"
  by (auto simp: chars_ok_def)

lemma occ_ok_upd:
  "occ_ok occ chars \<Longrightarrow> chars cid = Some c \<Longrightarrow> c_room_id c' = c_room_id c \<Longrightarrow>
     occ_ok occ (chars(cid \<mapsto> c'))"
  by (simp add: occ_ok_def)

lemma sess_ok_upd:
  "sess_ok ss chars n \<Longrightarrow> chars cid = Some c \<Longrightarrow> c_controller c' = c_controller c \<Longrightarrow>
     sess_ok ss (chars(cid \<mapsto> c')) n"
  by (simp add: sess_ok_def) metis

lemma upd_char_ok:
  assumes "world_ok w" "\<And>c. w_chars w cid = Some c \<Longrightarrow>
    c_id (f c) = c_id c \<and> c_controller (f c) = c_controller c \<and> c_room_id (f c) = c_room_id c"
  shows "world_ok (upd_char cid f w)"
proof (cases "w_chars w cid")
  case None
  then show ?thesis using assms by (simp add: upd_char_def)
next
  case (Some c)
  note f = assms(2) [OF Some] and ok = world_okD [OF assms(1)]
  have "chars_ok ((w_chars w)(cid \<mapsto> f c)) (w_next_char_id w)"
    using ok(1) char_idD [OF assms(1) Some] f by (simp add: chars_ok_upd)
  moreover have "dom ((w_chars w)(cid \<mapsto> f c)) = dom (w_chars w)" using Some by auto
  ultimately show ?thesis
    using Some ok f occ_ok_upd [OF ok(2) Some] sess_ok_upd [OF ok(4) Some]
    by (simp add: upd_char_def world_ok_def)
qed

lemma upd_tame_ok [intro]: "world_ok w \<Longrightarrow> tame f \<Longrightarrow> world_ok (upd_char cid f w)"
  by (rule upd_char_ok) (simp_all add: tame_def)

lemma tame_simps [simp]:
  "tame (\<lambda>c. c\<lparr>c_inv := g c\<rparr>)" "tame (\<lambda>c. c\<lparr>c_hp := h c\<rparr>)"
  "tame (\<lambda>c. c\<lparr>c_hp := h c, c_max_hp := h2 c\<rparr>)"
  "tame (\<lambda>c. c\<lparr>c_combat := cb c\<rparr>)" "tame (\<lambda>c. c\<lparr>c_stunned_until_ms := st c\<rparr>)"
  "tame (\<lambda>c. c\<lparr>c_quest := q c\<rparr>)" "tame (\<lambda>c. c\<lparr>c_skill_cd_ms := cd c\<rparr>)"
  "tame (\<lambda>c. c\<lparr>c_mana := m c, c_stamina := sm c\<rparr>)"
  by (simp_all add: tame_def)

lemma inv_ops_ok [intro]:
  "world_ok w \<Longrightarrow> world_ok (inv_add cid item n w)"
  "world_ok w \<Longrightarrow> world_ok (snd (inv_take_one cid item w))"
  "world_ok w \<Longrightarrow> world_ok (snd (inv_take_n cid item n w))"
  by (auto simp: inv_add_def inv_take_one_def inv_take_n_def split: option.split prod.split)

lemma regen_char_tame:
  "c_id (regen_char now c) = c_id c" "c_controller (regen_char now c) = c_controller c"
  "c_room_id (regen_char now c) = c_room_id c"
  by (simp_all add: regen_char_def Let_def)

lemma map_chars_ok:
  assumes "world_ok w" "\<And>c. c_id (f c) = c_id c \<and> c_controller (f c) = c_controller c \<and> c_room_id (f c) = c_room_id c"
  shows "world_ok (w\<lparr>w_chars := map_option f \<circ> w_chars w\<rparr>)"
proof -
  have d: "dom (map_option f \<circ> w_chars w) = dom (w_chars w)" by (auto simp: dom_def)
  show ?thesis
    using assms world_okD [OF assms(1)] unfolding world_ok_def
    by (simp add: d) (fastforce simp: chars_ok_def occ_ok_def sess_ok_def d map_option_case split: option.splits)
qed

lemma regen_ok [intro]: "world_ok w \<Longrightarrow> world_ok (regen_resources w)"
  unfolding regen_resources_def by (rule map_chars_ok) (simp_all add: regen_char_tame)

section \<open>Moving\<close>

lemma in_room_enter:
  "in_room (enter_room cid room_id w) r = (if r = room_id then insert cid (in_room w r) else in_room w r)"
  by (simp add: enter_room_def in_room_def opt_or_def)

lemma in_room_leave:
  "in_room (leave_room cid room_id w) r = (if r = room_id then in_room w r - {cid} else in_room w r)"
  by (auto simp: leave_room_def in_room_def opt_or_def split: option.splits)

lemma occ_ok_iff:
  "occ_ok (w_occupants w) chars \<longleftrightarrow>
     (\<forall>r. w_occupants w r \<noteq> Some {}) \<and>
     (\<forall>cid r. cid \<in> in_room w r \<longleftrightarrow> (\<exists>c. chars cid = Some c \<and> c_room_id c = r))"
  by (simp add: occ_ok_def in_room_def)

lemma enter_no_empty: "\<forall>r. w_occupants w r \<noteq> Some {} \<Longrightarrow> \<forall>r. w_occupants (enter_room cid room_id w) r \<noteq> Some {}"
  by (simp add: enter_room_def)

lemma leave_no_empty: "\<forall>r. w_occupants w r \<noteq> Some {} \<Longrightarrow> \<forall>r. w_occupants (leave_room cid room_id w) r \<noteq> Some {}"
  by (auto simp: leave_room_def split: option.splits)

lemma room_frames [simp]:
  "w_chars (enter_room cid r w) = w_chars w" "w_chars (leave_room cid r w) = w_chars w"
  "w_next_char_id (enter_room cid r w) = w_next_char_id w"
  "w_next_char_id (leave_room cid r w) = w_next_char_id w"
  "w_parties (enter_room cid r w) = w_parties w" "w_parties (leave_room cid r w) = w_parties w"
  "w_party_of (enter_room cid r w) = w_party_of w" "w_party_of (leave_room cid r w) = w_party_of w"
  "w_next_party_id (enter_room cid r w) = w_next_party_id w"
  "w_next_party_id (leave_room cid r w) = w_next_party_id w"
  "w_sessions (enter_room cid r w) = w_sessions w" "w_sessions (leave_room cid r w) = w_sessions w"
  "w_events (enter_room cid r w) = w_events w" "w_events (leave_room cid r w) = w_events w"
  "w_event_seq (enter_room cid r w) = w_event_seq w" "w_event_seq (leave_room cid r w) = w_event_seq w"
  "w_now_ms (enter_room cid r w) = w_now_ms w" "w_now_ms (leave_room cid r w) = w_now_ms w"
  "w_rooms (enter_room cid r w) = w_rooms w" "w_rooms (leave_room cid r w) = w_rooms w"
  by (simp_all add: enter_room_def leave_room_def split: option.split)

lemma world_ok_rooms:
  assumes "world_ok w" "w_chars w cid = Some c" "\<And>r. w_occupants w' r \<noteq> Some {}"
    "\<And>x r. x \<in> in_room w' r \<longleftrightarrow> (\<exists>c'. ((w_chars w)(cid \<mapsto> c\<lparr>c_room_id := to\<rparr>)) x = Some c' \<and> c_room_id c' = r)"
    "w_chars w' = (w_chars w)(cid \<mapsto> c\<lparr>c_room_id := to\<rparr>)"
    "w_next_char_id w' = w_next_char_id w" "w_parties w' = w_parties w" "w_party_of w' = w_party_of w"
    "w_next_party_id w' = w_next_party_id w" "w_sessions w' = w_sessions w"
    "w_events w' = w_events w" "w_event_seq w' = w_event_seq w"
  shows "world_ok w'"
proof -
  note ok = world_okD [OF assms(1)]
  have "chars_ok (w_chars w') (w_next_char_id w')"
    using ok(1) char_idD [OF assms(1,2)] by (simp add: assms chars_ok_upd)
  moreover have "occ_ok (w_occupants w') (w_chars w')"
    unfolding occ_ok_iff using assms(3,4,5) by simp
  moreover have "dom (w_chars w') = dom (w_chars w)" using assms(2,5) by auto
  moreover have "sess_ok (w_sessions w) (w_chars w') (w_next_char_id w)"
    unfolding assms(5) by (rule sess_ok_upd [OF ok(4) assms(2)]) simp
  ultimately show ?thesis using ok by (simp add: world_ok_def assms)
qed

lemma upd_char_Some: "w_chars w cid = Some c \<Longrightarrow> upd_char cid f w = w\<lparr>w_chars := (w_chars w)(cid \<mapsto> f c)\<rparr>"
  by (simp add: upd_char_def)

lemma in_room_frames [simp]:
  "in_room (w\<lparr>w_chars := ch\<rparr>) r = in_room w r" "in_room (w\<lparr>w_next_char_id := n\<rparr>) r = in_room w r"
  by (simp_all add: in_room_def)

lemma move_ok:
  assumes "world_ok w" "w_chars w cid = Some c" "c_room_id c = from"
  shows "world_ok (move_char cid from to w)"
proof -
  let ?w = "enter_room cid to (leave_room cid from w)"
  have m: "move_char cid from to w = ?w\<lparr>w_chars := (w_chars w)(cid \<mapsto> c\<lparr>c_room_id := to\<rparr>)\<rparr>"
    using assms(2) by (simp add: move_char_def upd_char_Some)
  have e: "\<forall>r. w_occupants w r \<noteq> Some {}" using assms(1) by (simp add: world_ok_def occ_ok_def)
  show ?thesis
    unfolding m
  proof (rule world_ok_rooms [OF assms(1,2)])
    show "w_occupants (?w\<lparr>w_chars := (w_chars w)(cid \<mapsto> c\<lparr>c_room_id := to\<rparr>)\<rparr>) r \<noteq> Some {}" for r
      using enter_no_empty [OF leave_no_empty [OF e]] by simp
  next
    fix x r
    show "x \<in> in_room (?w\<lparr>w_chars := (w_chars w)(cid \<mapsto> c\<lparr>c_room_id := to\<rparr>)\<rparr>) r \<longleftrightarrow>
      (\<exists>c'. ((w_chars w)(cid \<mapsto> c\<lparr>c_room_id := to\<rparr>)) x = Some c' \<and> c_room_id c' = r)"
      using assms by (auto simp: in_room_enter in_room_leave in_room_iff)
  qed simp_all
qed

section \<open>Parties\<close>

lemma party_okD:
  assumes "party_ok parties party_of n cids"
  shows "parties pid = Some p \<Longrightarrow> pt_id p = pid \<and> pid < n \<and> pt_leader p \<in> pt_members p"
    "party_of cid = Some pid \<longleftrightarrow> (\<exists>p. parties pid = Some p \<and> cid \<in> pt_members p)"
    "dom party_of \<subseteq> cids"
  using assms unfolding party_ok_def by blast+

lemma party_okI:
  assumes "\<And>pid p. parties pid = Some p \<Longrightarrow> pt_id p = pid \<and> pid < n \<and> pt_leader p \<in> pt_members p"
    and "\<And>cid pid p. parties pid = Some p \<Longrightarrow> cid \<in> pt_members p \<Longrightarrow> party_of cid = Some pid \<and> cid \<in> cids"
    and "\<And>cid pid. party_of cid = Some pid \<Longrightarrow> \<exists>p. parties pid = Some p \<and> cid \<in> pt_members p"
  shows "party_ok parties party_of n cids"
  using assms unfolding party_ok_def dom_def by blast

text \<open>The invariant as rules: what a member and what a back reference give.\<close>

lemma party_memberD:
  assumes "party_ok parties party_of n cids" "parties pid = Some p" "cid \<in> pt_members p"
  shows "party_of cid = Some pid \<and> cid \<in> cids"
  using party_okD [OF assms(1)] assms(2,3) by blast

lemma party_ofD:
  assumes "party_ok parties party_of n cids" "party_of cid = Some pid"
  shows "\<exists>p. parties pid = Some p \<and> cid \<in> pt_members p"
  using party_okD [OF assms(1)] assms(2) by blast

lemma party_members_subset:
  "party_ok parties party_of n cids \<Longrightarrow> parties pid = Some p \<Longrightarrow> pt_members p \<subseteq> cids"
  using party_memberD by blast

lemma party_leave_frame [simp]:
  "w_chars (party_leave ho cid w) = w_chars w" "w_occupants (party_leave ho cid w) = w_occupants w"
  "w_next_char_id (party_leave ho cid w) = w_next_char_id w"
  "w_next_party_id (party_leave ho cid w) = w_next_party_id w"
  "w_sessions (party_leave ho cid w) = w_sessions w" "w_events (party_leave ho cid w) = w_events w"
  "w_event_seq (party_leave ho cid w) = w_event_seq w" "w_now_ms (party_leave ho cid w) = w_now_ms w"
  "w_rooms (party_leave ho cid w) = w_rooms w" "w_bosses (party_leave ho cid w) = w_bosses w"
  by (simp_all add: party_leave_def Let_def split: option.split)

lemma party_leave_party_ok:
  assumes "party_ok (w_parties w) (w_party_of w) (w_next_party_id w) cids" "finite cids" "orders_ok ho"
  shows "party_ok (w_parties (party_leave ho cid w)) (w_party_of (party_leave ho cid w))
    (w_next_party_id w) (cids - {cid})"
proof (cases "w_party_of w cid")
  case None
  then have "pt_members p \<subseteq> cids - {cid}" if "w_parties w pid = Some p" for pid p
    using party_memberD [OF assms(1) that] by fastforce
  then show ?thesis
    using None party_okD(1) [OF assms(1)] party_memberD [OF assms(1)] party_ofD [OF assms(1)]
    by (intro party_okI) (auto simp: party_leave_def)
next
  case (Some pid)
  then obtain p where p: "w_parties w pid = Some p" "cid \<in> pt_members p"
    using party_ofD [OF assms(1)] by blast
  let ?ms = "pt_members p - {cid}"
  note wf = party_okD(1) [OF assms(1)] and mem = party_memberD [OF assms(1)]
    and refs = party_ofD [OF assms(1)]
  have other: "cid \<notin> pt_members p'" if "w_parties w q = Some p'" "q \<noteq> pid" for q p'
    using mem [OF that(1)] Some that(2) by fastforce
  have refs': "q = pid \<Longrightarrow> x \<in> pt_members p" if "w_party_of w x = Some q" for x q
    using refs [OF that] p by auto
  show ?thesis
  proof (cases "?ms = {}")
    case True
    have "party_leave ho cid w = w\<lparr>w_party_of := (w_party_of w)(cid := None),
        w_parties := (w_parties w)(pid := None)\<rparr>"
      using True Some p by (simp add: party_leave_def Let_def)
    then show ?thesis
      using wf mem refs refs' other True
      by (intro party_okI) (auto split: if_splits, blast+)
  next
    case False
    have "finite ?ms" using party_members_subset [OF assms(1) p(1)] assms(2) finite_subset by blast
    then have "set (set_elems (ho_nat ho) ?ms) = ?ms"
      using assms(3) by (simp add: orders_ok_def set_set_elems)
    then have hd: "hd (set_elems (ho_nat ho) ?ms) \<in> ?ms"
      using False by (metis list.set_sel(1) set_empty)
    define l where "l = (if pt_leader p = cid then hd (set_elems (ho_nat ho) ?ms) else pt_leader p)"
    have l: "l \<in> ?ms" using hd wf [OF p(1)] by (auto simp: l_def)
    have pl: "party_leave ho cid w = w\<lparr>w_party_of := (w_party_of w)(cid := None),
        w_parties := (w_parties w)(pid \<mapsto> p\<lparr>pt_members := ?ms, pt_leader := l\<rparr>)\<rparr>"
      using False Some p by (simp add: party_leave_def Let_def l_def)
    show ?thesis
    proof (rule party_okI)
      show "pt_id q = i \<and> i < w_next_party_id w \<and> pt_leader q \<in> pt_members q"
        if "w_parties (party_leave ho cid w) i = Some q" for i q
        using that wf wf [OF p(1)] l by (auto simp: pl split: if_splits)
      show "w_party_of (party_leave ho cid w) x = Some i \<and> x \<in> cids - {cid}"
        if "w_parties (party_leave ho cid w) i = Some q" "x \<in> pt_members q" for x i q
        using that mem mem [OF p(1)] other by (auto simp: pl split: if_splits)
      show "\<exists>q. w_parties (party_leave ho cid w) i = Some q \<and> x \<in> pt_members q"
        if "w_party_of (party_leave ho cid w) x = Some i" for x i
        using that refs refs' by (auto simp: pl split: if_splits)
    qed
  qed
qed

lemma party_leave_ok [intro]:
  assumes "world_ok w" "orders_ok ho"
  shows "world_ok (party_leave ho cid w)"
proof -
  have "party_ok (w_parties (party_leave ho cid w)) (w_party_of (party_leave ho cid w))
      (w_next_party_id w) (dom (w_chars w) - {cid})"
    by (rule party_leave_party_ok) (use assms world_okD finite_chars in auto)
  then have "party_ok (w_parties (party_leave ho cid w)) (w_party_of (party_leave ho cid w))
      (w_next_party_id w) (dom (w_chars w))"
    by (auto simp: party_ok_def)
  then show ?thesis using world_okD [OF assms(1)] by (simp add: world_ok_def)
qed

lemma party_leave_gone:
  assumes "world_ok w" "orders_ok ho"
  shows "w_party_of (party_leave ho cid w) cid = None"
proof -
  have "party_ok (w_parties (party_leave ho cid w)) (w_party_of (party_leave ho cid w))
      (w_next_party_id w) (dom (w_chars w) - {cid})"
    by (rule party_leave_party_ok) (use assms world_okD finite_chars in auto)
  from party_okD(3) [OF this] show ?thesis by (auto simp: dom_def)
qed

lemma party_create_ok:
  assumes "world_ok w" "w_party_of w leader = None" "leader \<in> dom (w_chars w)" "w_next_party_id w < u64_max"
  shows "world_ok (snd (party_create leader w))"
proof -
  let ?w = "snd (party_create leader w)"
  note pok = world_okD(3) [OF assms(1)]
  note wf = party_okD(1) [OF pok] and mem = party_memberD [OF pok] and refs = party_ofD [OF pok]
  have "sat_add64 (w_next_party_id w) 1 = Suc (w_next_party_id w)"
    by (rule sat_add64_Suc) (rule assms(4))
  then have n: "w_next_party_id ?w = Suc (w_next_party_id w)" by (simp add: party_create_def Let_def)
  have ps: "w_parties ?w = (w_parties w)(w_next_party_id w \<mapsto>
      \<lparr>pt_id = w_next_party_id w, pt_leader = leader, pt_members = {leader}\<rparr>)"
    and po: "w_party_of ?w = (w_party_of w)(leader \<mapsto> w_next_party_id w)"
    by (simp_all add: party_create_def Let_def)
  have "party_ok (w_parties ?w) (w_party_of ?w) (w_next_party_id ?w) (dom (w_chars w))"
  proof (rule party_okI)
    show "pt_id q = i \<and> i < w_next_party_id ?w \<and> pt_leader q \<in> pt_members q"
      if "w_parties ?w i = Some q" for i q
      using that wf [of i q] by (auto simp: ps n split: if_splits)
    show "w_party_of ?w x = Some i \<and> x \<in> dom (w_chars w)"
      if "w_parties ?w i = Some q" "x \<in> pt_members q" for x i q
      using that mem [of i q x] assms(2,3) by (auto simp: ps po split: if_splits)
    show "\<exists>q. w_parties ?w i = Some q \<and> x \<in> pt_members q" if "w_party_of ?w x = Some i" for x i
      using that refs [of x i] wf [of i] by (auto simp: ps po split: if_splits)
  qed
  then show ?thesis
    using world_okD [OF assms(1)] by (simp add: party_create_def world_ok_def Let_def)
qed

lemma party_disband_ok [intro]:
  assumes "world_ok w"
  shows "world_ok (party_disband pid w)"
proof (cases "w_parties w pid")
  case None
  then show ?thesis using assms by (simp add: party_disband_def)
next
  case (Some p)
  let ?w = "party_disband pid w"
  note pok = world_okD(3) [OF assms]
  note wf = party_okD(1) [OF pok] and mem = party_memberD [OF pok] and refs = party_ofD [OF pok]
  have ps: "w_parties ?w = (w_parties w)(pid := None)"
    and po: "w_party_of ?w = (\<lambda>c. if c \<in> pt_members p then None else w_party_of w c)"
    by (simp_all add: party_disband_def Some)
  have "party_ok (w_parties ?w) (w_party_of ?w) (w_next_party_id w) (dom (w_chars w))"
  proof (rule party_okI)
    show "pt_id q = i \<and> i < w_next_party_id w \<and> pt_leader q \<in> pt_members q"
      if "w_parties ?w i = Some q" for i q
      using that wf [of i q] by (auto simp: ps split: if_splits)
    show "w_party_of ?w x = Some i \<and> x \<in> dom (w_chars w)"
      if "w_parties ?w i = Some q" "x \<in> pt_members q" for x i q
      using that mem [of i q x] mem [OF Some, of x] by (auto simp: ps po split: if_splits)
    show "\<exists>q. w_parties ?w i = Some q \<and> x \<in> pt_members q" if "w_party_of ?w x = Some i" for x i
      using that refs [of x i] Some by (auto simp: ps po split: if_splits)
  qed
  then show ?thesis
    using world_okD [OF assms] Some by (simp add: party_disband_def world_ok_def)
qed

section \<open>Coming\<close>

lemma insert_char_eq:
  "insert_char mk w = (w_next_char_id w,
     enter_room (w_next_char_id w) (c_room_id (mk (w_next_char_id w)))
       (w\<lparr>w_next_char_id := sat_add64 (w_next_char_id w) 1,
          w_chars := (w_chars w)(w_next_char_id w \<mapsto> mk (w_next_char_id w))\<rparr>))"
  by (simp add: insert_char_def Let_def)

lemma fresh_char: "world_ok w \<Longrightarrow> w_chars w (w_next_char_id w) = None"
  using char_idD [of w "w_next_char_id w"] by (cases "w_chars w (w_next_char_id w)") auto

lemma insert_char_parts:
  assumes "world_ok w" "w_next_char_id w < u64_max" "insert_char mk w = (cid, w')"
    "c_id (mk (w_next_char_id w)) = w_next_char_id w"
  shows "cid = w_next_char_id w" "w_next_char_id w' = Suc cid"
    "w_chars w' = (w_chars w)(cid \<mapsto> mk cid)" "w_sessions w' = w_sessions w"
    "chars_ok (w_chars w') (w_next_char_id w')" "occ_ok (w_occupants w') (w_chars w')"
    "party_ok (w_parties w') (w_party_of w') (w_next_party_id w') (dom (w_chars w'))"
    "queue_ok (w_events w') (w_event_seq w')" "w_now_ms w' = w_now_ms w" "w_rooms w' = w_rooms w"
proof -
  have i: "cid = w_next_char_id w"
    "w' = enter_room cid (c_room_id (mk cid))
       (w\<lparr>w_next_char_id := Suc cid, w_chars := (w_chars w)(cid \<mapsto> mk cid)\<rparr>)"
    using assms(3) sat_add64_Suc [OF assms(2)] unfolding insert_char_eq by auto
  then show "cid = w_next_char_id w" "w_next_char_id w' = Suc cid"
    "w_chars w' = (w_chars w)(cid \<mapsto> mk cid)" "w_sessions w' = w_sessions w"
    "w_now_ms w' = w_now_ms w" "w_rooms w' = w_rooms w" by simp_all
  note new = fresh_char [OF assms(1)]
  show "chars_ok (w_chars w') (w_next_char_id w')"
    using world_okD(1) [OF assms(1)] assms(4) i by (auto simp: chars_ok_def less_Suc_eq)
  show "occ_ok (w_occupants w') (w_chars w')"
    unfolding occ_ok_iff
  proof (intro conjI allI)
    have "\<forall>r. w_occupants w r \<noteq> Some {}" using world_okD(2) [OF assms(1)] by (simp add: occ_ok_def)
    then show "w_occupants w' r \<noteq> Some {}" for r by (simp add: i(2) enter_room_def)
    show "x \<in> in_room w' r \<longleftrightarrow> (\<exists>c. w_chars w' x = Some c \<and> c_room_id c = r)" for x r
      using new in_room_iff [OF assms(1)] i
      by (auto simp: in_room_enter split: if_splits)
  qed
  have "dom (w_chars w') = insert cid (dom (w_chars w))" using i by simp
  then show "party_ok (w_parties w') (w_party_of w') (w_next_party_id w') (dom (w_chars w'))"
    using world_okD(3) [OF assms(1)] i by (auto simp: party_ok_def)
  show "queue_ok (w_events w') (w_event_seq w')"
    using world_okD(5) [OF assms(1)] i by simp
qed

lemma insert_mob_ok:
  assumes "world_ok w" "w_next_char_id w < u64_max" "insert_char mk w = (cid, w')"
    "c_id (mk (w_next_char_id w)) = w_next_char_id w" "c_controller (mk (w_next_char_id w)) = None"
  shows "world_ok w'"
proof -
  note p = insert_char_parts [OF assms(1-4)]
  have "sess_ok (w_sessions w') (w_chars w') (w_next_char_id w')"
    using world_okD(4) [OF assms(1)] assms(5) p(1-4)
    by (fastforce simp: sess_ok_def less_Suc_eq)
  with p show ?thesis by (simp add: world_ok_def)
qed

lemma insert_player_ok:
  assumes "world_ok w" "w_next_char_id w < u64_max" "insert_char mk w = (cid, w')"
    "c_id (mk (w_next_char_id w)) = w_next_char_id w"
    "c_controller (mk (w_next_char_id w)) = Some session"
  shows "world_ok (new_session_char session cid w')"
proof -
  note p = insert_char_parts [OF assms(1-4)]
  have old: "cid \<notin> set (ss_controlled ss)" if "w_sessions w sid = Some ss" for sid ss
    using world_okD(4) [OF assms(1)] that unfolding p(1) sess_ok_def by (meson less_irrefl)
  let ?w = "new_session_char session cid w'"
  obtain ss where ss: "w_sessions ?w = (w_sessions w)(session \<mapsto> ss)"
    "set (ss_controlled ss) = insert cid (case w_sessions w session of None \<Rightarrow> {} | Some s \<Rightarrow> set (ss_controlled s))"
    using p(4) by (auto simp: new_session_char_def Let_def split: option.splits)
  have "sess_ok (w_sessions ?w) (w_chars w') (w_next_char_id w')"
    using world_okD(4) [OF assms(1)] assms(5) p(1,2,3) ss old
    by (fastforce simp: sess_ok_def less_Suc_eq split: option.splits)
  with p show ?thesis by (simp add: world_ok_def new_session_char_def Let_def)
qed

lemma spawn_mob_ok:
  assumes "world_ok w" "w_next_char_id w < u64_max"
  shows "world_ok (snd (spawn_mob room_id nm w))"
  unfolding spawn_mob_def
  by (rule insert_mob_ok [OF assms prod.collapse [symmetric]]) (simp_all add: mob_character_def)

lemma spawn_mob_hp_ok:
  "world_ok w \<Longrightarrow> w_next_char_id w < u64_max \<Longrightarrow> world_ok (snd (spawn_mob_hp room_id nm hp w))"
  using spawn_mob_ok [of w room_id nm] by (auto simp: spawn_mob_hp_def split: prod.split)

lemma spawn_stenchworm_ok:
  "world_ok w \<Longrightarrow> w_next_char_id w < u64_max \<Longrightarrow> world_ok (snd (spawn_stenchworm room_id w))"
  unfolding spawn_stenchworm_def by (rule spawn_mob_hp_ok)

lemma spawn_named_mob_ok:
  assumes "world_ok w" "w_next_char_id w < u64_max"
  shows "world_ok (snd (spawn_named_mob room_id token w))"
  using assms
  by (simp add: spawn_named_mob_def Let_def case_prod_beta spawn_mob_hp_ok spawn_stenchworm_ok
      schedule_in_ok)

lemma foldl_kit_ok: "world_ok w \<Longrightarrow> world_ok (foldl (\<lambda>w (item, n). inv_add cid item n w) w kit)"
  by (induction kit arbitrary: w) auto

lemma spawn_character_ok:
  assumes "world_ok w" "w_next_char_id w < u64_max"
  shows "world_ok (snd (spawn_character session nm prin caps is_bot rc cls sx pron w))"
proof -
  let ?mk = "\<lambda>cid. new_character cid session (w_now_ms w) (rm_start_room (w_rooms w)) nm prin caps
    is_bot rc cls sx pron"
  obtain cid w' where i: "insert_char ?mk w = (cid, w')" by (cases "insert_char ?mk w")
  have "world_ok (new_session_char session cid w')"
    by (rule insert_player_ok [OF assms i]) (simp_all add: new_character_def Let_def)
  then show ?thesis by (simp add: spawn_character_def i foldl_kit_ok Let_def)
qed

lemma restore_character_ok:
  assumes "world_ok w" "w_next_char_id w < u64_max"
  shows "world_ok (snd (restore_character ho session sn prin caps w))"
proof -
  define room_id where "room_id = (if has_room (w_rooms w) (sn_room_id sn) then sn_room_id sn
    else rm_start_room (w_rooms w))"
  let ?mk = "\<lambda>cid. restored (ho_str ho) cid session (w_now_ms w) room_id sn prin caps"
  obtain cid w' where i: "insert_char ?mk w = (cid, w')" by (cases "insert_char ?mk w")
  have "world_ok (new_session_char session cid w')"
    by (rule insert_player_ok [OF assms i]) (simp_all add: restored_def Let_def)
  then show ?thesis
    using i by (simp add: restore_character_def Let_def room_id_def [symmetric])
qed

lemma spawn_or_restore_ok:
  "world_ok w \<Longrightarrow> w_next_char_id w < u64_max \<Longrightarrow>
     world_ok (snd (spawn_or_restore_character ho session nm prin caps is_bot rc cls sx pron w))"
  by (simp add: spawn_or_restore_character_def spawn_character_ok restore_character_ok
      split: option.split)

section \<open>Going\<close>

text \<open>
  While a session is taken apart its characters still name it: \<open>pend\<close> lists those.
\<close>

definition sess_pend ::
  "nat set \<Rightarrow> (nat \<rightharpoonup> session_state) \<Rightarrow> (nat \<rightharpoonup> character) \<Rightarrow> nat \<Rightarrow> bool" where
  "sess_pend pend sessions chars next_id \<longleftrightarrow>
     (\<forall>cid c sid. chars cid = Some c \<and> c_controller c = Some sid \<and> cid \<notin> pend \<longrightarrow>
        (\<exists>ss. sessions sid = Some ss \<and> cid \<in> set (ss_controlled ss))) \<and>
     (\<forall>sid ss cid. sessions sid = Some ss \<and> cid \<in> set (ss_controlled ss) \<longrightarrow>
        cid < next_id \<and> (\<forall>c. chars cid = Some c \<longrightarrow> c_controller c = Some sid))"

definition world_pend :: "nat set \<Rightarrow> world \<Rightarrow> bool" where
  "world_pend pend w \<longleftrightarrow>
     chars_ok (w_chars w) (w_next_char_id w) \<and> occ_ok (w_occupants w) (w_chars w) \<and>
     party_ok (w_parties w) (w_party_of w) (w_next_party_id w) (dom (w_chars w)) \<and>
     sess_pend pend (w_sessions w) (w_chars w) (w_next_char_id w) \<and>
     queue_ok (w_events w) (w_event_seq w)"

lemma world_pend_empty: "world_pend {} w \<longleftrightarrow> world_ok w"
  by (simp add: world_pend_def world_ok_def sess_pend_def sess_ok_def)

lemma world_pend_frame [simp]:
  "world_pend pend (w\<lparr>w_raft_watch := rw\<rparr>) = world_pend pend w"
  "world_pend pend (w\<lparr>w_party_invites := pin\<rparr>) = world_pend pend w"
  "world_pend pend (remember_player ho c w) = world_pend pend w"
  by (simp_all add: world_pend_def remember_player_def persist_player_snapshots_def split: option.split)

lemma occ_ok_remove:
  assumes "occ_ok (w_occupants w) (w_chars w)" "w_chars w cid = Some c"
  shows "occ_ok (w_occupants (leave_room cid (c_room_id c) w)) ((w_chars w)(cid := None))"
proof -
  have o: "\<forall>r. w_occupants w r \<noteq> Some {}"
    "\<And>x r. x \<in> in_room w r \<longleftrightarrow> (\<exists>c. w_chars w x = Some c \<and> c_room_id c = r)"
    using assms(1) unfolding occ_ok_iff by blast+
  show ?thesis
    unfolding occ_ok_iff using leave_no_empty [OF o(1)] o(2) assms(2)
    by (auto simp: in_room_leave)
qed

lemma leave_room_chars: "leave_room cid r (w\<lparr>w_chars := ch\<rparr>) = (leave_room cid r w)\<lparr>w_chars := ch\<rparr>"
  by (simp add: leave_room_def split: option.split)

lemma sess_pend_remove:
  "sess_pend pend ss chars n \<Longrightarrow> sess_pend (pend - {cid}) ss (chars(cid := None)) n"
  by (simp add: sess_pend_def) blast

lemma remove_parts:
  assumes "world_pend pend w" "orders_ok ho" "w_chars w cid = Some c"
  shows "world_pend (pend - {cid})
    (leave_room cid (c_room_id c) ((party_leave ho cid w)\<lparr>w_chars := (w_chars w)(cid := None)\<rparr>))"
proof -
  have w: "chars_ok (w_chars w) (w_next_char_id w)" "occ_ok (w_occupants w) (w_chars w)"
    "party_ok (w_parties w) (w_party_of w) (w_next_party_id w) (dom (w_chars w))"
    "sess_pend pend (w_sessions w) (w_chars w) (w_next_char_id w)"
    "queue_ok (w_events w) (w_event_seq w)"
    using assms(1) by (simp_all add: world_pend_def)
  have f: "finite (dom (w_chars w))" using w(1) by (simp add: chars_ok_def)
  have "party_ok (w_parties (party_leave ho cid w)) (w_party_of (party_leave ho cid w))
      (w_next_party_id w) (dom (w_chars w) - {cid})"
    by (rule party_leave_party_ok [OF w(3) f assms(2)])
  moreover have "chars_ok ((w_chars w)(cid := None)) (w_next_char_id w)"
    using w(1) by (auto simp: chars_ok_def)
  moreover have "occ_ok (w_occupants (leave_room cid (c_room_id c) (party_leave ho cid w))) ((w_chars w)(cid := None))"
    using occ_ok_remove [of "party_leave ho cid w" cid c] w(2) assms(3) by simp
  ultimately show ?thesis
    using w sess_pend_remove [OF w(4)] unfolding leave_room_chars world_pend_def by simp
qed

lemma leave_remember:
  "leave_room cid r (remember_player ho c w) = remember_player ho c (leave_room cid r w)"
  by (simp add: remember_player_def persist_player_snapshots_def leave_room_def player_list_def
      split: option.split)

lemma party_leave_frame_upd [simp]:
  "party_leave ho cid (w\<lparr>w_raft_watch := rw\<rparr>) = (party_leave ho cid w)\<lparr>w_raft_watch := rw\<rparr>"
  "party_leave ho cid (w\<lparr>w_party_invites := pin\<rparr>) = (party_leave ho cid w)\<lparr>w_party_invites := pin\<rparr>"
  by (simp_all add: party_leave_def Let_def split: option.split)

lemma detach_char_pend:
  assumes "world_pend pend w" "orders_ok ho"
  shows "world_pend (pend - {cid}) (detach_char ho cid w)"
proof (cases "w_chars w cid")
  case None
  let ?w = "w\<lparr>w_raft_watch := w_raft_watch w - {cid}, w_party_invites := (w_party_invites w)(cid := None)\<rparr>"
  have w: "chars_ok (w_chars w) (w_next_char_id w)"
    "party_ok (w_parties w) (w_party_of w) (w_next_party_id w) (dom (w_chars w))"
    using assms(1) by (simp_all add: world_pend_def)
  have "party_ok (w_parties (party_leave ho cid w)) (w_party_of (party_leave ho cid w))
      (w_next_party_id w) (dom (w_chars w) - {cid})"
    by (rule party_leave_party_ok [OF w(2) _ assms(2)]) (use w(1) in \<open>simp add: chars_ok_def\<close>)
  moreover have "dom (w_chars w) - {cid} = dom (w_chars w)" using None by auto
  moreover have "sess_pend (pend - {cid}) (w_sessions w) (w_chars w) (w_next_char_id w)"
    using sess_pend_remove [of pend "w_sessions w" "w_chars w" "w_next_char_id w" cid] None assms(1)
    by (simp add: world_pend_def fun_upd_idem)
  ultimately show ?thesis
    using assms(1) None by (simp add: detach_char_def Let_def world_pend_def)
next
  case (Some c)
  let ?w = "w\<lparr>w_raft_watch := w_raft_watch w - {cid}, w_party_invites := (w_party_invites w)(cid := None)\<rparr>"
  have "world_pend (pend - {cid}) (leave_room cid (c_room_id c)
      ((party_leave ho cid ?w)\<lparr>w_chars := (w_chars ?w)(cid := None)\<rparr>))"
    by (rule remove_parts) (use assms Some in simp_all)
  moreover have "detach_char ho cid w = remember_player ho c (leave_room cid (c_room_id c)
      ((party_leave ho cid ?w)\<lparr>w_chars := (w_chars ?w)(cid := None)\<rparr>))"
    using Some unfolding detach_char_def Let_def leave_remember by simp
  ultimately show ?thesis by simp
qed

lemma detach_chars_pend:
  "world_pend pend w \<Longrightarrow> orders_ok ho \<Longrightarrow>
     world_pend (pend - set cids) (foldl (\<lambda>w cid. detach_char ho cid w) w cids)"
proof (induction cids arbitrary: pend w)
  case Nil
  then show ?case by simp
next
  case (Cons cid cids)
  have "world_pend (pend - {cid} - set cids) (foldl (\<lambda>w cid. detach_char ho cid w) (detach_char ho cid w) cids)"
    by (rule Cons.IH) (use Cons.prems detach_char_pend in auto)
  moreover have "pend - {cid} - set cids = pend - set (cid # cids)" by auto
  ultimately show ?case by simp
qed

lemma detach_session_ok:
  assumes "world_ok w" "orders_ok ho"
  shows "world_ok (detach_session ho session w)"
proof (cases "w_sessions w session")
  case None
  then show ?thesis using assms(1) by (simp add: detach_session_def)
next
  case (Some ss)
  let ?w = "w\<lparr>w_sessions := (w_sessions w)(session := None)\<rparr>"
  have "sess_pend (set (ss_controlled ss)) ((w_sessions w)(session := None)) (w_chars w) (w_next_char_id w)"
    using world_okD(4) [OF assms(1)] Some unfolding sess_ok_def sess_pend_def by (auto, fastforce)
  then have "world_pend (set (ss_controlled ss)) ?w"
    using world_okD [OF assms(1)] by (simp add: world_pend_def)
  from detach_chars_pend [OF this assms(2), of "ss_controlled ss"] Some show ?thesis
    by (simp add: detach_session_def world_pend_empty)
qed

lemma remove_char_ok:
  assumes "world_ok w" "orders_ok ho"
  shows "world_ok (snd (remove_char ho cid w))"
proof (cases "w_chars w cid")
  case None
  then show ?thesis using assms party_leave_ok by (simp add: remove_char_def Let_def)
next
  case (Some c)
  have "world_pend ({} - {cid}) (leave_room cid (c_room_id c)
      ((party_leave ho cid w)\<lparr>w_chars := (w_chars w)(cid := None)\<rparr>))"
    by (rule remove_parts) (use assms Some in \<open>simp_all add: world_pend_empty\<close>)
  moreover have "snd (remove_char ho cid w) = (leave_room cid (c_room_id c)
      ((party_leave ho cid w)\<lparr>w_chars := (w_chars w)(cid := None)\<rparr>))
      \<lparr>w_party_invites := (w_party_invites w)(cid := None)\<rparr>"
    using Some by (simp add: remove_char_def Let_def leave_room_def split: option.split)
  ultimately show ?thesis by (simp add: world_pend_empty)
qed

section \<open>Clearing an instance\<close>

text \<open>While a room is cleared, those in \<open>pend\<close> are in no room.\<close>

definition occ_pend :: "nat set \<Rightarrow> (string \<rightharpoonup> nat set) \<Rightarrow> (nat \<rightharpoonup> character) \<Rightarrow> bool" where
  "occ_pend pend occ chars \<longleftrightarrow>
     (\<forall>room_id. occ room_id \<noteq> Some {}) \<and>
     (\<forall>cid room_id. cid \<in> opt_or {} (occ room_id)
        \<longleftrightarrow> (\<exists>c. chars cid = Some c \<and> c_room_id c = room_id \<and> cid \<notin> pend))"

definition world_evac :: "nat set \<Rightarrow> world \<Rightarrow> bool" where
  "world_evac pend w \<longleftrightarrow>
     chars_ok (w_chars w) (w_next_char_id w) \<and> occ_pend pend (w_occupants w) (w_chars w) \<and>
     party_ok (w_parties w) (w_party_of w) (w_next_party_id w) (dom (w_chars w)) \<and>
     sess_ok (w_sessions w) (w_chars w) (w_next_char_id w) \<and> queue_ok (w_events w) (w_event_seq w)"

lemma world_evac_empty: "world_evac {} w \<longleftrightarrow> world_ok w"
  by (simp add: world_evac_def world_ok_def occ_pend_def occ_ok_def)

lemma evacuate_one_pend:
  assumes "world_evac pend w" "cid \<in> pend" "pend \<subseteq> dom (w_chars w)"
  shows "world_evac (pend - {cid}) (evacuate_one to_room w cid)
    \<and> dom (w_chars (evacuate_one to_room w cid)) = dom (w_chars w)"
proof -
  obtain c where c: "w_chars w cid = Some c" using assms(2,3) by blast
  have w: "chars_ok (w_chars w) (w_next_char_id w)" "occ_pend pend (w_occupants w) (w_chars w)"
    "party_ok (w_parties w) (w_party_of w) (w_next_party_id w) (dom (w_chars w))"
    "sess_ok (w_sessions w) (w_chars w) (w_next_char_id w)" "queue_ok (w_events w) (w_event_seq w)"
    using assms(1) by (simp_all add: world_evac_def)
  let ?chars = "(w_chars w)(cid \<mapsto> c\<lparr>c_room_id := to_room\<rparr>)"
  let ?w = "enter_room cid to_room (w\<lparr>w_chars := ?chars\<rparr>)"
  have e: "evacuate_one to_room w cid = ?w" by (simp add: evacuate_one_def c)
  have ids: "c_id c = cid" "cid < w_next_char_id w" using w(1) c by (auto simp: chars_ok_def)
  have "dom ?chars = dom (w_chars w)" using c by auto
  moreover have "chars_ok ?chars (w_next_char_id w)" using w(1) ids by (simp add: chars_ok_upd)
  moreover have "occ_pend (pend - {cid}) (w_occupants ?w) ?chars"
    using w(2) assms(2) c unfolding occ_pend_def in_room_def [symmetric]
    by (auto simp: enter_room_def in_room_def opt_or_def split: if_splits)
  moreover have "sess_ok (w_sessions w) ?chars (w_next_char_id w)"
    by (rule sess_ok_upd [OF w(4) c]) simp
  ultimately show ?thesis using w by (simp add: e world_evac_def)
qed

lemma evacuate_all_pend:
  "world_evac (set cids) w \<Longrightarrow> distinct cids \<Longrightarrow> set cids \<subseteq> dom (w_chars w) \<Longrightarrow>
     world_ok (foldl (evacuate_one to_room) w cids)"
proof (induction cids arbitrary: w)
  case Nil
  then show ?case by (simp add: world_evac_empty)
next
  case (Cons cid cids)
  have "world_evac (set (cid # cids) - {cid}) (evacuate_one to_room w cid)
    \<and> dom (w_chars (evacuate_one to_room w cid)) = dom (w_chars w)"
    by (rule evacuate_one_pend) (use Cons.prems in auto)
  moreover have "set (cid # cids) - {cid} = set cids" using Cons.prems(2) by auto
  ultimately show ?case using Cons by auto
qed

lemma evacuate_room_ok:
  assumes "world_ok w" "orders_ok ho"
  shows "world_ok (evacuate_room ho to_room w rid)"
proof (cases "w_occupants w rid")
  case None
  then show ?thesis using assms(1) by (simp add: evacuate_room_def)
next
  case (Some S)
  then have S: "S = in_room w rid" by (simp add: in_room_def opt_or_def)
  have f: "finite S" unfolding S by (rule finite_in_room [OF assms(1)])
  let ?w = "w\<lparr>w_occupants := (w_occupants w)(rid := None)\<rparr>" and ?l = "set_elems (ho_nat ho) S"
  have l: "set ?l = S" "distinct ?l"
    using assms(2) f by (simp_all add: orders_ok_def set_set_elems distinct_set_elems)
  have dom: "S \<subseteq> dom (w_chars w)" using in_room_iff [OF assms(1)] S by auto
  have "occ_pend S (w_occupants ?w) (w_chars w)"
    using world_okD(2) [OF assms(1)] in_room_iff [OF assms(1)]
    unfolding occ_ok_iff occ_pend_def S by (auto simp: opt_or_def in_room_def split: if_splits)
  then have "world_evac (set ?l) ?w"
    using world_okD [OF assms(1)] l by (simp add: world_evac_def)
  then have "world_ok (foldl (evacuate_one to_room) ?w ?l)"
    by (rule evacuate_all_pend) (use l dom in simp_all)
  then show ?thesis by (simp add: evacuate_room_def Some)
qed

lemma evacuate_rooms_ok:
  assumes "world_ok w" "orders_ok ho"
  shows "world_ok (evacuate_rooms_with_prefix ho pre to_room w)"
  unfolding evacuate_rooms_with_prefix_def
  by (rule foldl_inv [of world_ok]) (use assms evacuate_room_ok in auto)

lemma load_protoadventure_ok:
  assumes "world_ok w" "orders_ok ho"
  shows "world_ok (snd (load_protoadventure ho read_file a w))"
  using assms by (simp add: load_protoadventure_def Let_def evacuate_rooms_ok split: option.split)

section \<open>The start\<close>

lemma world_start_ok: "world_ok (world_start rooms seed ems wms rl rf gs ps pf)"
  by (simp add: world_ok_def world_start_def chars_ok_def occ_ok_def party_ok_def sess_ok_def
      queue_ok_def opt_or_def u64_max_def)

text \<open>
  A small world: one room and its population, the mobs of the names given; and sorted iteration
  over what is hashed, with files that can be written.
\<close>

definition pit_rooms :: rooms where
  "pit_rooms = \<lparr>rm_rooms = Map.empty, rm_dyn_rooms = Map.empty, rm_start_room = ''arena.pit'',
     rm_areas = []\<rparr>"

definition demo_ho :: hash_orders where
  "demo_ho = \<lparr>ho_nat = (\<lambda>P. sorted_list_of_set {x. P x}), ho_str = (\<lambda>P. sorted_list_of_set {x. P x}),
     ho_raft_io = (\<lambda>_. WriteOk), ho_players_text = (\<lambda>_. []), ho_save_ok = True\<rparr>"

lemma demo_ho_ok: "orders_ok demo_ho"
  by (simp add: demo_ho_def orders_ok_def iter_ok_sorted)

definition pit_start :: world where
  "pit_start = world_start pit_rooms 7 60000 15000 raft_log_start None group_store_empty Map.empty None"

definition pit_world :: "string list \<Rightarrow> world" where
  "pit_world names = foldl (\<lambda>w nm. snd (spawn_mob_hp ''arena.pit'' nm 9 w)) pit_start names"

lemma pit_world_next_id: "length names < u64_max \<Longrightarrow> w_next_char_id (pit_world names) = Suc (length names)"
  by (induction names rule: rev_induct)
    (simp_all add: pit_world_def pit_start_def world_start_def spawn_mob_hp_def spawn_mob_def
      insert_char_def upd_char_def Let_def case_prod_beta enter_room_def sat_add64_Suc [simplified] split: option.split)

lemma pit_world_ok: "length names < u64_max \<Longrightarrow> world_ok (pit_world names)"
proof (induction names rule: rev_induct)
  case Nil
  then show ?case by (simp add: pit_world_def pit_start_def world_start_ok)
next
  case (snoc nm names)
  then show ?case
    using pit_world_next_id [of names] by (simp add: pit_world_def spawn_mob_hp_ok)
qed

end
