(* ===== verification/Combat.thy ===== *)
theory Combat
  imports WorldInv
begin

text \<open>
  Fighting (\<open>apps/shard_01/src/main.rs\<close>): who may fight whom, how a fight starts and draws the
  party in, damage and death, stuns and interrupted casts, experience and levels.

  \<open>start_combat\<close> and \<open>party_assist_attackers\<close> call each other: the model recurses on fuel, and
  \<open>start_combat_fuel\<close> shows that a depth of one more than the idle characters, the attacker aside, is enough.
\<close>

section \<open>Player against player\<close>

definition is_pvp_room :: "string \<Rightarrow> bool" where
  "is_pvp_room room_id \<longleftrightarrow> prefix ''arena.'' room_id"

definition can_pvp_ids :: "world \<Rightarrow> nat \<Rightarrow> nat \<Rightarrow> bool" where
  "can_pvp_ids w attacker_id target_id =
     (if attacker_id = target_id then False
      else case (w_chars w attacker_id, w_chars w target_id) of
        (Some att, Some tgt) \<Rightarrow>
          (if c_controller att = None \<or> c_controller tgt = None then False
           else if c_room_id att \<noteq> c_room_id tgt then False
           else if \<not> is_pvp_room (c_room_id att) then False
           else if \<not> c_pvp_enabled att \<or> \<not> c_pvp_enabled tgt then False
           else is_built att \<and> is_built tgt \<and> c_hp att > 0 \<and> c_hp tgt > 0)
      | _ \<Rightarrow> False)"

section \<open>Starting a fight\<close>

definition engage :: "nat \<Rightarrow> nat \<Rightarrow> world \<Rightarrow> world" where
  "engage cid target w =
     schedule_at_ms (w_now_ms w) (EvCombatAct cid)
       (upd_char cid (\<lambda>c. c\<lparr>c_combat := (c_combat c)\<lparr>cs_autoattack := True,
          cs_target := Some target, cs_next_ready_ms := w_now_ms w\<rparr>\<rparr>) w)"

definition stop_fighting :: "nat \<Rightarrow> world \<Rightarrow> world" where
  "stop_fighting cid w =
     upd_char cid (\<lambda>c. c\<lparr>c_combat := (c_combat c)\<lparr>cs_target := None, cs_autoattack := False\<rparr>\<rparr>) w"

definition assists :: "world \<Rightarrow> nat \<Rightarrow> character \<Rightarrow> nat \<Rightarrow> bool" where
  "assists w attacker_id att mid =
     (if mid = attacker_id then False
      else case w_chars w mid of
        None \<Rightarrow> False
      | Some m \<Rightarrow>
          c_controller m \<noteq> None \<and> c_autoassist m \<and> c_room_id m = c_room_id att
          \<and> \<not> cs_autoattack (c_combat m))"

text \<open>Whom the party assists: the members, when the attacker is in a party.\<close>

definition assist_members :: "hash_orders \<Rightarrow> world \<Rightarrow> nat \<Rightarrow> nat list" where
  "assist_members ho w attacker_id =
     (case w_party_of w attacker_id of
        None \<Rightarrow> []
      | Some pid \<Rightarrow> party_members_vec ho w pid)"

definition first_blows :: "nat \<Rightarrow> nat \<Rightarrow> world \<Rightarrow> world" where
  "first_blows attacker_id target_id w =
     (let w = engage attacker_id target_id w;
          target_is_mob = (case w_chars w target_id of None \<Rightarrow> False | Some t \<Rightarrow> c_controller t = None);
          target_is_player = (case w_chars w target_id of None \<Rightarrow> False | Some t \<Rightarrow> c_controller t \<noteq> None);
          allow_player_retaliate = (target_is_player \<and> can_pvp_ids w attacker_id target_id)
      in if target_is_mob \<or> allow_player_retaliate then engage target_id attacker_id w else w)"

fun start_combat_n :: "nat \<Rightarrow> hash_orders \<Rightarrow> nat \<Rightarrow> nat \<Rightarrow> world \<Rightarrow> world" where
  "start_combat_n 0 ho attacker_id target_id w = w"
| "start_combat_n (Suc n) ho attacker_id target_id w =
     (case w_chars w attacker_id of
        None \<Rightarrow> w
      | Some _ \<Rightarrow>
          (let w = first_blows attacker_id target_id w in
           case w_chars w attacker_id of
             None \<Rightarrow> w
           | Some att \<Rightarrow>
               foldl (\<lambda>w mid. if assists w attacker_id att mid
                              then start_combat_n n ho mid target_id w else w)
                 w (assist_members ho w attacker_id)))"

definition start_combat :: "hash_orders \<Rightarrow> nat \<Rightarrow> nat \<Rightarrow> world \<Rightarrow> world" where
  "start_combat ho attacker_id target_id w =
     start_combat_n (Suc (card (dom (w_chars w)))) ho attacker_id target_id w"

section \<open>Stuns\<close>

definition apply_stun :: "hash_orders \<Rightarrow> nat \<Rightarrow> nat \<Rightarrow> nat \<Rightarrow> world \<Rightarrow> world" where
  "apply_stun ho attacker_id target_id stun_ms w =
     (if stun_ms = 0 then w
      else case (w_chars w attacker_id, w_chars w target_id) of
        (Some att, Some tgt) \<Rightarrow>
          (if c_room_id att \<noteq> c_room_id tgt then w
           else
             (let now = w_now_ms w;
                  until = sat_add64 now stun_ms;
                  w = upd_char target_id (\<lambda>t. t\<lparr>c_stunned_until_ms := max (c_stunned_until_ms t) until\<rparr>) w;
                  w = broadcast_room ho (c_room_id att) (''* '' @ c_name att @ '' stuns '' @ c_name tgt @ ''.'') w
              in case w_bosses w target_id of
                   None \<Rightarrow> w
                 | Some bs \<Rightarrow>
                     (if bo_casting_until_ms bs > now then
                        broadcast_room ho (c_room_id att) (''* '' @ c_name tgt @ '' is interrupted!'')
                          (w\<lparr>w_bosses := (w_bosses w)(target_id \<mapsto>
                               \<lparr>bo_casting_until_ms = 0, bo_seq = sat_add64 (bo_seq bs) 1\<rparr>)\<rparr>)
                      else w)))
      | _ \<Rightarrow> w)"

section \<open>Experience\<close>

definition level_step :: "character \<Rightarrow> character" where
  "level_step c =
     (let c = c\<lparr>c_xp := c_xp c - xp_needed_for_next (c_level c),
                c_level := sat_add32 (c_level c) 1,
                c_skill_points := sat_add32 (c_skill_points c) 1,
                c_max_hp := max (wrap_i32 (c_max_hp c + 2)) 1\<rparr>;
          c = c\<lparr>c_hp := c_max_hp c\<rparr>
      in case c_class c of
           None \<Rightarrow> c
         | Some cls \<Rightarrow>
             (let mm = max (compute_max_mana cls (c_stats c) (c_level c)) 0;
                  ms = max (compute_max_stamina cls (c_stats c) (c_level c)) 0
              in c\<lparr>c_max_mana := mm, c_mana := max (min (c_mana c) mm) 0,
                   c_max_stamina := ms, c_stamina := max (min (c_stamina c) ms) 0\<rparr>))"

definition level_msg :: "character \<Rightarrow> string" where
  "level_msg c = ''level up! you are now level '' @ show_nat (c_level c) @ ''. (+1 skill point)'' @ crlf"

lemma level_step_fields [simp]:
  "c_xp (level_step c) = c_xp c - xp_needed_for_next (c_level c)"
  "c_level (level_step c) = sat_add32 (c_level c) 1"
  "c_skill_points (level_step c) = sat_add32 (c_skill_points c) 1"
  "c_id (level_step c) = c_id c" "c_controller (level_step c) = c_controller c"
  "c_room_id (level_step c) = c_room_id c" "c_class (level_step c) = c_class c"
  by (simp_all add: level_step_def Let_def split: option.split)

text \<open>The loop: the character at the end and the messages on the way.\<close>

function level_up :: "character \<Rightarrow> character \<times> string list" where
  "level_up c =
     (if c_xp c < xp_needed_for_next (c_level c) then (c, [])
      else (let c' = level_step c; (c'', ms) = level_up c' in (c'', level_msg c' # ms)))"
  by pat_completeness auto
termination
proof (relation "measure (\<lambda>c. c_xp c + (u32_max - c_level c) + (if c_level c > u32_max then 1 else 0))")
  fix c :: character and c'
  assume enough: "\<not> c_xp c < xp_needed_for_next (c_level c)" and c': "c' = level_step c"
  show "(c', c) \<in> measure (\<lambda>c. c_xp c + (u32_max - c_level c) + (if c_level c > u32_max then 1 else 0))"
  proof (cases "c_level c = u32_max")
    case True
    then have "xp_needed_for_next (c_level c) = 4294967286"
      by (simp add: xp_needed_for_next_def u32_max_def)
    with True enough c' show ?thesis by (simp add: sat_add32_def)
  next
    case False
    with enough c' show ?thesis by (auto simp: sat_add32_def min_def)
  qed
qed simp

declare level_up.simps [simp del]

definition award_xp_one :: "nat \<Rightarrow> nat \<Rightarrow> bool \<Rightarrow> world \<Rightarrow> world" where
  "award_xp_one cid xp party w =
     (case w_chars w cid of
        None \<Rightarrow> w
      | Some c \<Rightarrow>
          (let msg = (if party then ''party xp: +'' @ show_nat xp @ ''.'' @ crlf
                      else ''you gain '' @ show_nat xp @ '' xp.'' @ crlf);
               (c', ms) = level_up (c\<lparr>c_xp := sat_add32 (c_xp c) xp\<rparr>);
               w = w\<lparr>w_chars := (w_chars w)(cid \<mapsto> c')\<rparr>
           in case c_controller c of
                None \<Rightarrow> w
              | Some sid \<Rightarrow> foldl (\<lambda>w m. say sid m w) w (msg # ms)))"

text \<open>Each eligible member's share: the remainder goes to the first.\<close>

definition xp_shares :: "nat \<Rightarrow> nat list \<Rightarrow> (nat \<times> nat) list" where
  "xp_shares xp elig =
     (let n = length elig; base = xp div n; rem = xp mod n in
      map (\<lambda>(i, mid). (mid, base + (if i = 0 then rem else 0))) (zip [0..<n] elig))"

definition xp_eligible :: "hash_orders \<Rightarrow> world \<Rightarrow> nat \<Rightarrow> string \<Rightarrow> nat list" where
  "xp_eligible ho w pid room_id =
     filter (\<lambda>mid. case w_chars w mid of
                None \<Rightarrow> False
              | Some m \<Rightarrow> c_controller m \<noteq> None \<and> c_room_id m = room_id \<and> c_hp m > 0)
       (party_members_vec ho w pid)"

definition award_xp :: "hash_orders \<Rightarrow> nat \<Rightarrow> nat \<Rightarrow> world \<Rightarrow> world" where
  "award_xp ho cid xp w =
     (case w_party_of w cid of
        None \<Rightarrow> award_xp_one cid xp False w
      | Some pid \<Rightarrow>
          (case w_chars w cid of
             None \<Rightarrow> w
           | Some att \<Rightarrow>
               (let elig = xp_eligible ho w pid (c_room_id att) in
                if length elig \<le> 1 then award_xp_one cid xp False w
                else foldl (\<lambda>w (mid, add). award_xp_one mid add True w) w (xp_shares xp elig))))"

section \<open>Damage and death\<close>

definition compute_autoattack_damage :: "nat \<Rightarrow> world \<Rightarrow> int \<times> world" where
  "compute_autoattack_damage attacker_id w =
     (case w_chars w attacker_id of
        None \<Rightarrow> (2, w)
      | Some att \<Rightarrow>
          (let (dmg, w) =
             (case equipped_weapon_damage_range att of
                None \<Rightarrow> (2, w)
              | Some (lo, hi) \<Rightarrow>
                  (let (d, r) = roll_range lo hi (w_rng w) in (d, w\<lparr>w_rng := r\<rparr>)));
               dmg = (case c_class att of
                        None \<Rightarrow> dmg
                      | Some cls \<Rightarrow> sat_add_i32 dmg (mod_for (c_stats att) (attack_ability cls)))
           in (max dmg 1, w)))"

definition compute_mob_autoattack_damage :: "character \<Rightarrow> world \<Rightarrow> int \<times> world" where
  "compute_mob_autoattack_damage att w =
     (let roll = (\<lambda>lo hi. let (d, r) = roll_range lo hi (w_rng w) in (d, w\<lparr>w_rng := r\<rparr>)) in
      if c_name att = ''dummy'' then (0, w)
      else if c_name att = ''spitter'' then roll 4 6
      else if c_name att = ''grease_king'' then roll 2 5
      else roll 1 3)"

definition graveyard_room :: "world \<Rightarrow> string" where
  "graveyard_room w =
     (if has_room (w_rooms w) ''R_TOWN_GRAVEYARD_01'' then ''R_TOWN_GRAVEYARD_01''
      else rm_start_room (w_rooms w))"

definition revive :: "character \<Rightarrow> character" where
  "revive c = c\<lparr>c_hp := max (c_max_hp c) 1,
                 c_combat := (c_combat c)\<lparr>cs_autoattack := False, cs_target := None\<rparr>\<rparr>"

text \<open>The message of a death ends in the source's escaped line end.\<close>

definition send_to_graveyard :: "hash_orders \<Rightarrow> nat \<Rightarrow> world \<Rightarrow> world" where
  "send_to_graveyard ho cid w =
     (case w_chars w cid of
        None \<Rightarrow> w
      | Some c \<Rightarrow>
          (let to = graveyard_room w;
               w = upd_char cid revive (move_char cid (c_room_id c) to w);
               w = broadcast_room ho to (''* '' @ c_name c @ '' arrives, shivering.'') w
           in case c_controller c of
                None \<Rightarrow> w
              | Some sid \<Rightarrow>
                  (let w = say sid (''you died.'' @ literal_crlf) w in
                   say sid (render_room_for ho w to sid) w)))"

definition hurt :: "int \<Rightarrow> character \<Rightarrow> character" where
  "hurt dmg c = c\<lparr>c_hp := wrap_i32 (c_hp c - dmg)\<rparr>"

definition apply_damage_to_player ::
  "hash_orders \<Rightarrow> nat \<Rightarrow> nat \<Rightarrow> int \<Rightarrow> string \<Rightarrow> world \<Rightarrow> bool \<times> world" where
  "apply_damage_to_player ho attacker_id target_id dmg msg w =
     (case (w_chars w attacker_id, w_chars w target_id) of
        (Some att, Some tgt) \<Rightarrow>
          (if c_controller tgt = None \<or> c_room_id att \<noteq> c_room_id tgt then (False, w)
           else
             (let w = upd_char target_id (hurt dmg) (broadcast_room ho (c_room_id att) msg w) in
              if c_hp (hurt dmg tgt) > 0 then (False, w)
              else (True, send_to_graveyard ho target_id
                     (broadcast_room ho (c_room_id att) (''* '' @ c_name tgt @ '' dies.'') w))))
      | _ \<Rightarrow> (False, w))"

definition worm_loot :: "hash_orders \<Rightarrow> nat \<Rightarrow> character \<Rightarrow> world \<Rightarrow> world" where
  "worm_loot ho attacker_id att w =
     (let w = inv_add attacker_id ''stenchpouch'' 1 w;
          w = (case c_controller att of
                 None \<Rightarrow> w | Some sid \<Rightarrow> say sid (''you loot a stenchpouch.'' @ crlf) w);
          w = award_xp ho attacker_id 10 w
      in schedule_at_ms (w_now_ms w) EvEnsureFirstFightWorm w)"

definition apply_damage_to_mob ::
  "hash_orders \<Rightarrow> nat \<Rightarrow> nat \<Rightarrow> int \<Rightarrow> string \<Rightarrow> world \<Rightarrow> bool \<times> world" where
  "apply_damage_to_mob ho attacker_id target_id dmg msg w =
     (case (w_chars w attacker_id, w_chars w target_id) of
        (Some att, Some tgt) \<Rightarrow>
          (if c_controller tgt \<noteq> None \<or> c_room_id att \<noteq> c_room_id tgt then (False, w)
           else
             (let w = upd_char target_id (hurt dmg) (broadcast_room ho (c_room_id att) msg w) in
              if c_hp (hurt dmg tgt) > 0 then (False, w)
              else
                (case remove_char ho target_id w of
                   (None, w) \<Rightarrow> (True, w)
                 | (Some deadc, w) \<Rightarrow>
                     (let w = w\<lparr>w_bosses := (w_bosses w)(target_id := None)\<rparr>;
                          w = broadcast_room ho (c_room_id att) (''* '' @ c_name deadc @ '' dies.'') w
                      in (True, if c_name deadc = ''stenchworm'' then worm_loot ho attacker_id att w
                                else w)))))
      | _ \<Rightarrow> (False, w))"

section \<open>Fighting keeps the world consistent\<close>

lemma tame_combat [simp]:
  "tame (\<lambda>c. c\<lparr>c_combat := cb c\<rparr>)" "tame (hurt dmg)" "tame revive"
  by (simp_all add: tame_def hurt_def revive_def)

lemma engage_ok [intro]: "world_ok w \<Longrightarrow> world_ok (engage cid target w)"
  unfolding engage_def by (intro schedule_ok upd_tame_ok) simp_all

lemma stop_fighting_ok [intro]: "world_ok w \<Longrightarrow> world_ok (stop_fighting cid w)"
  by (auto simp: stop_fighting_def)

lemma first_blows_ok [intro]: "world_ok w \<Longrightarrow> world_ok (first_blows a t w)"
  by (simp add: first_blows_def Let_def engage_ok)

lemma start_combat_n_ok: "world_ok w \<Longrightarrow> world_ok (start_combat_n n ho a t w)"
proof (induction n arbitrary: a w)
  case 0
  then show ?case by simp
next
  case (Suc n)
  show ?case
    using Suc.prems
    by (auto simp: Let_def split: option.split intro!: foldl_inv [of world_ok] Suc.IH)
qed

lemma start_combat_ok [intro]: "world_ok w \<Longrightarrow> world_ok (start_combat ho a t w)"
  unfolding start_combat_def by (rule start_combat_n_ok)

lemma apply_stun_ok [intro]: "world_ok w \<Longrightarrow> world_ok (apply_stun ho a t ms w)"
  by (auto simp: apply_stun_def Let_def split: option.split)

lemma level_up_tame:
  "c_id (fst (level_up c)) = c_id c \<and> c_controller (fst (level_up c)) = c_controller c
   \<and> c_room_id (fst (level_up c)) = c_room_id c"
proof (induction c rule: level_up.induct)
  case (1 c)
  then show ?case
    by (cases "c_xp c < xp_needed_for_next (c_level c)")
      (simp_all add: level_up.simps [of c] Let_def case_prod_beta)
qed

lemma foldl_say: "world_ok w \<Longrightarrow> world_ok (foldl (\<lambda>w m. say sid m w) w ms)"
  by (induction ms arbitrary: w) auto

lemma award_xp_one_ok [intro]:
  assumes "world_ok w"
  shows "world_ok (award_xp_one cid xp party w)"
proof (cases "w_chars w cid")
  case None
  then show ?thesis using assms by (simp add: award_xp_one_def)
next
  case (Some c)
  let ?f = "\<lambda>c. fst (level_up (c\<lparr>c_xp := sat_add32 (c_xp c) xp\<rparr>))"
  have "world_ok (upd_char cid ?f w)"
    using assms by (rule upd_char_ok) (simp add: level_up_tame)
  then show ?thesis
    by (auto simp: award_xp_one_def Some Let_def upd_char_def case_prod_beta foldl_say
        split: option.split)
qed

lemma award_xp_ok [intro]: "world_ok w \<Longrightarrow> world_ok (award_xp ho cid xp w)"
  by (auto simp: award_xp_def Let_def split: option.split intro!: foldl_inv [of world_ok])

lemma damage_rolls_ok [simp]:
  "world_ok (snd (compute_autoattack_damage a w)) = world_ok w"
  "world_ok (snd (compute_mob_autoattack_damage c w)) = world_ok w"
  by (simp_all add: compute_autoattack_damage_def compute_mob_autoattack_damage_def Let_def
      case_prod_beta split: option.split)

lemma send_to_graveyard_ok [intro]:
  assumes "world_ok w"
  shows "world_ok (send_to_graveyard ho cid w)"
proof (cases "w_chars w cid")
  case None
  then show ?thesis using assms by (simp add: send_to_graveyard_def)
next
  case (Some c)
  have "world_ok (upd_char cid revive (move_char cid (c_room_id c) (graveyard_room w) w))"
    using move_ok [OF assms Some refl] by (rule upd_tame_ok) simp
  then show ?thesis by (simp add: send_to_graveyard_def Some Let_def split: option.split)
qed

lemma hurt_ok [intro]: "world_ok w \<Longrightarrow> world_ok (upd_char t (hurt dmg) w)"
  by (rule upd_tame_ok) simp_all

lemma apply_damage_to_player_ok:
  "world_ok w \<Longrightarrow> world_ok (snd (apply_damage_to_player ho a t dmg msg w))"
  by (auto simp: apply_damage_to_player_def Let_def hurt_ok split: option.split
      intro!: send_to_graveyard_ok)

lemma worm_loot_ok [intro]: "world_ok w \<Longrightarrow> world_ok (worm_loot ho a att w)"
  unfolding worm_loot_def Let_def
  by (intro schedule_ok award_xp_ok) (auto split: option.split)

lemma apply_damage_to_mob_ok:
  assumes "world_ok w" "orders_ok ho"
  shows "world_ok (snd (apply_damage_to_mob ho a t dmg msg w))"
proof -
  let ?w = "\<lambda>att. upd_char t (hurt dmg) (broadcast_room ho (c_room_id att) msg w)"
  have "world_ok (snd (remove_char ho t (?w att)))" for att
    using assms by (intro remove_char_ok) auto
  then have r: "world_ok w'" if "remove_char ho t (?w att) = (x, w')" for att x w'
    using that by (metis snd_conv)
  have "world_ok (?w att)" for att using assms(1) by auto
  then show ?thesis
    using assms(1)
    by (auto simp: apply_damage_to_mob_def Let_def split: option.split prod.split dest!: r)
qed

section \<open>Enough fuel\<close>

definition idle :: "world \<Rightarrow> nat set" where
  "idle w = {cid. \<exists>c. w_chars w cid = Some c \<and> \<not> cs_autoattack (c_combat c)}"

lemma idle_schedule [simp]: "idle (schedule_at_ms due k w) = idle w"
  by (simp add: idle_def schedule_at_ms_def)

lemma idle_engage: "idle (engage cid target w) = idle w - {cid}"
  by (auto simp: engage_def idle_def upd_char_def schedule_at_ms_def split: option.splits if_splits)

lemma idle_first_blows: "idle (first_blows a t w) \<subseteq> idle w - {a}"
  by (auto simp: first_blows_def Let_def idle_engage)

lemma idle_start_combat_n: "idle (start_combat_n n ho a t w) \<subseteq> idle w"
proof (induction n arbitrary: a w)
  case 0
  then show ?case by simp
next
  case (Suc n)
  have "idle (foldl (\<lambda>w mid. if assists w a att mid then start_combat_n n ho mid t w else w) v ms) \<subseteq> idle v"
    for att ms v
    by (rule foldl_inv [of "\<lambda>u. idle u \<subseteq> idle v"]) (use Suc.IH in \<open>fastforce split: if_splits\<close>)+
  from this [of _ "first_blows a t w"] have
    "idle (foldl (\<lambda>w mid. if assists w a att mid then start_combat_n n ho mid t w else w)
       (first_blows a t w) ms) \<subseteq> idle w" for att ms
    using idle_first_blows [of a t w] by blast
  moreover have "idle (first_blows a t w) \<subseteq> idle w" using idle_first_blows [of a t w] by blast
  ultimately show ?case by (simp add: Let_def split: option.split)
qed

lemma assists_idle: "assists w a att mid \<Longrightarrow> mid \<in> idle w"
  by (auto simp: assists_def idle_def split: if_splits option.splits)

lemma foldl_cong_inv:
  assumes "P a" "\<And>a x. P a \<Longrightarrow> f a x = g a x" "\<And>a x. P a \<Longrightarrow> P (f a x)"
  shows "foldl f a xs = foldl g a xs"
  using assms(1)
proof (induction xs arbitrary: a)
  case Nil
  then show ?case by simp
next
  case (Cons x xs)
  have "foldl f (f a x) xs = foldl g (f a x) xs"
    using Cons.prems assms(3) by (intro Cons.IH)
  then show ?case using assms(2) [OF Cons.prems] by simp
qed

lemma start_combat_n_more:
  "finite (idle w) \<Longrightarrow> card (idle w - {a}) < n \<Longrightarrow>
     start_combat_n n ho a t w = start_combat_n (Suc n) ho a t w"
proof (induction n arbitrary: a w)
  case 0
  then show ?case by simp
next
  case (Suc n)
  let ?w = "first_blows a t w"
  let ?f = "\<lambda>k att w mid. if assists w a att mid then start_combat_n k ho mid t w else w"
  have sub: "idle ?w \<subseteq> idle w - {a}" by (rule idle_first_blows)
  have fin: "finite (idle ?w)" using sub Suc.prems(1) finite_subset by blast
  have card: "card (idle ?w) \<le> n"
    using card_mono [OF _ sub] Suc.prems by simp
  have fold: "foldl (?f n att) ?w ms = foldl (?f (Suc n) att) ?w ms" for att ms
  proof (rule foldl_cong_inv [of "\<lambda>u. idle u \<subseteq> idle ?w"])
    show "idle ?w \<subseteq> idle ?w" ..
    fix u mid
    assume u: "idle u \<subseteq> idle ?w"
    show "?f n att u mid = ?f (Suc n) att u mid"
    proof (cases "assists u a att mid")
      case True
      have "finite (idle u)" using u fin finite_subset by blast
      moreover have "card (idle u - {mid}) < n"
      proof -
        have "card (idle u - {mid}) < card (idle u)"
          using assists_idle [OF True] calculation by (intro card_Diff1_less)
        also have "\<dots> \<le> n" using card_mono [OF fin u] card by simp
        finally show ?thesis .
      qed
      ultimately have "start_combat_n n ho mid t u = start_combat_n (Suc n) ho mid t u" by (rule Suc.IH)
      with True show ?thesis by (simp only: if_True)
    next
      case False
      then show ?thesis by (simp only: if_False)
    qed
    show "idle (?f n att u mid) \<subseteq> idle ?w"
      by (cases "assists u a att mid") (use u idle_start_combat_n [of n ho mid t u] in simp_all)
  qed
  show ?case
    unfolding start_combat_n.simps(2) [of "Suc n" ho a t w] start_combat_n.simps(2) [of n ho a t w] Let_def
    by (intro option.case_cong refl fold)
qed

lemma start_combat_n_enough:
  assumes "finite (idle w)" "card (idle w - {a}) < n"
  shows "start_combat_n (n + k) ho a t w = start_combat_n n ho a t w"
proof (induction k)
  case 0
  then show ?case by simp
next
  case (Suc k)
  have "start_combat_n (n + k) ho a t w = start_combat_n (Suc (n + k)) ho a t w"
    using assms by (intro start_combat_n_more) auto
  with Suc show ?case by simp
qed

lemma idle_start_combat: "idle (start_combat_n (Suc n) ho a t w) \<subseteq> idle w - {a}"
proof (cases "w_chars w a")
  case None
  then show ?thesis by (auto simp: idle_def)
next
  case (Some c)
  have "idle (foldl (\<lambda>w mid. if assists w a att mid then start_combat_n n ho mid t w else w)
      (first_blows a t w) ms) \<subseteq> idle (first_blows a t w)" for att ms
    by (rule foldl_inv [of "\<lambda>u. idle u \<subseteq> idle (first_blows a t w)"])
      (use idle_start_combat_n in \<open>fastforce split: if_splits\<close>)+
  then have "idle (foldl (\<lambda>w mid. if assists w a att mid then start_combat_n n ho mid t w else w)
      (first_blows a t w) ms) \<subseteq> idle w - {a}" for att ms
    using idle_first_blows [of a t w] by blast
  then show ?thesis
    using Some idle_first_blows [of a t w] by (simp add: Let_def split: option.split)
qed


definition pack_world :: world where
  "pack_world =
     (let ann = demo_character\<lparr>c_id := 1, c_controller := Some 7, c_room_id := ''arena.pit''\<rparr>;
          bob = demo_character\<lparr>c_id := 2, c_controller := Some 8, c_room_id := ''arena.pit'',
            c_autoassist := True\<rparr>;
          rat = demo_character\<lparr>c_id := 3, c_controller := None, c_room_id := ''arena.pit''\<rparr>
      in pit_start\<lparr>w_chars := [1 \<mapsto> ann, 2 \<mapsto> bob, 3 \<mapsto> rat], w_next_char_id := 4,
           w_occupants := [''arena.pit'' \<mapsto> {1, 2, 3}],
           w_sessions := [7 \<mapsto> \<lparr>ss_controlled = [1], ss_active = 1, ss_pending_confirm = None\<rparr>,
                          8 \<mapsto> \<lparr>ss_controlled = [2], ss_active = 2, ss_pending_confirm = None\<rparr>],
           w_parties := [1 \<mapsto> \<lparr>pt_id = 1, pt_leader = 1, pt_members = {1, 2}\<rparr>],
           w_party_of := [1 \<mapsto> 1, 2 \<mapsto> 1], w_next_party_id := 2\<rparr>)"

lemma pack_world_ok: "world_ok pack_world"
  unfolding world_ok_def
proof (intro conjI)
  show "occ_ok (w_occupants pack_world) (w_chars pack_world)"
    by (auto simp: pack_world_def occ_ok_def opt_or_def)
qed (auto simp: pack_world_def pit_start_def world_start_def chars_ok_def party_ok_def sess_ok_def
      queue_ok_def u64_max_def demo_character_def split: if_splits)


section \<open>Experience is conserved\<close>

lemma sum_shares_aux:
  "sum_list (map snd (map (\<lambda>(i, mid). (mid, b + (if i = 0 then r else 0))) (zip [Suc k..<Suc k + length xs] xs)))
     = length xs * b"
proof (induction xs arbitrary: k)
  case Nil
  then show ?case by simp
next
  case (Cons x xs)
  have "[Suc k..<Suc k + length (x # xs)] = Suc k # [Suc (Suc k)..<Suc (Suc k) + length xs]"
    by (simp add: upt_rec)
  then show ?case using Cons [of "Suc k"] by simp
qed

lemma xp_shares_sum:
  assumes "elig \<noteq> []"
  shows "sum_list (map snd (xp_shares xp elig)) = xp"
proof -
  obtain x xs where e: "elig = x # xs" using assms by (cases elig) auto
  let ?b = "xp div Suc (length xs)" and ?r = "xp mod Suc (length xs)"
  have "[0..<length (x # xs)] = 0 # [Suc 0..<Suc 0 + length xs]" by (simp add: upt_rec)
  then have "sum_list (map snd (xp_shares xp elig)) = ?b + ?r + length xs * ?b"
    using sum_shares_aux [of ?b ?r 0 xs] by (simp add: xp_shares_def e Let_def)
  also have "\<dots> = Suc (length xs) * ?b + ?r" by simp
  also have "\<dots> = xp" by (rule mult_div_mod_eq)
  finally show ?thesis .
qed

lemma xp_shares_members: "map fst (xp_shares xp elig) = elig"
proof -
  have "map fst (xp_shares xp elig) = map snd (zip [0..<length elig] elig)"
    by (simp add: xp_shares_def Let_def comp_def case_prod_beta)
  then show ?thesis by simp
qed

text \<open>The experience behind a level: what it took to get there from another.\<close>

definition xp_between :: "nat \<Rightarrow> nat \<Rightarrow> nat" where
  "xp_between l m = sum_list (map xp_needed_for_next [l..<m])"

lemma xp_between_step: "l < m \<Longrightarrow> xp_between l m = xp_needed_for_next l + xp_between (Suc l) m"
  by (simp add: xp_between_def upt_conv_Cons)

text \<open>
  The threshold \<open>10 * level\<close> wraps in 32 bits; the hypothesis keeps the levels that can still be
  reached below that.
\<close>

lemma need_pos: "0 < l \<Longrightarrow> 10 * l \<le> u32_max \<Longrightarrow> xp_needed_for_next l = 10 * l"
  by (simp add: xp_needed_for_next_def u32_max_def)

lemma level_up_account:
  "0 < c_level c \<Longrightarrow> 10 * (c_level c + c_xp c) \<le> u32_max \<Longrightarrow>
     c_skill_points c + c_xp c \<le> u32_max \<Longrightarrow> fst (level_up c) = c' \<Longrightarrow>
     c_level c \<le> c_level c' \<and> c_xp c = c_xp c' + xp_between (c_level c) (c_level c')
     \<and> c_xp c' < xp_needed_for_next (c_level c')
     \<and> c_skill_points c' + c_level c = c_skill_points c + c_level c'
     \<and> length (snd (level_up c)) + c_level c = c_level c'"
proof (induction c arbitrary: c' rule: level_up.induct)
  case (1 c)
  show ?case
  proof (cases "c_xp c < xp_needed_for_next (c_level c)")
    case True
    then have "level_up c = (c, [])" by (simp add: level_up.simps [of c])
    moreover from this have "c' = c" using "1.prems"(4) by simp
    ultimately show ?thesis using True by (simp add: xp_between_def)
  next
    case False
    let ?d = "level_step c"
    have need: "xp_needed_for_next (c_level c) = 10 * c_level c"
      using "1.prems"(1,2) by (intro need_pos) simp_all
    have d: "c_level ?d = Suc (c_level c)" "c_skill_points ?d = Suc (c_skill_points c)"
      "c_xp c = c_xp ?d + 10 * c_level c"
      using "1.prems"(1-3) False need by (simp_all add: sat_add32_def u32_max_def)
    have up: "level_up c = (fst (level_up ?d), level_msg ?d # snd (level_up ?d))"
      using False by (simp add: level_up.simps [of c] Let_def case_prod_beta)
    have IH: "c_level ?d \<le> c_level c' \<and> c_xp ?d = c_xp c' + xp_between (c_level ?d) (c_level c')
      \<and> c_xp c' < xp_needed_for_next (c_level c')
      \<and> c_skill_points c' + c_level ?d = c_skill_points ?d + c_level c'
      \<and> length (snd (level_up ?d)) + c_level ?d = c_level c'"
    proof (rule "1.IH" [OF False refl])
      show "0 < c_level ?d" by (simp only: d(1))
      show "10 * (c_level ?d + c_xp ?d) \<le> u32_max"
        using "1.prems"(1,2) unfolding d(1) d(3) by simp
      show "c_skill_points ?d + c_xp ?d \<le> u32_max"
        using "1.prems"(1,3) unfolding d(2) d(3) by simp
      show "fst (level_up ?d) = c'" using "1.prems"(4) up by (simp only: fst_conv)
    qed
    then have "xp_between (c_level c) (c_level c') = 10 * c_level c + xp_between (c_level ?d) (c_level c')"
      using d(1) need by (simp add: xp_between_step)
    with IH d up show ?thesis by (simp only: fst_conv snd_conv list.size) (elim conjE, intro conjI, simp_all)
  qed
qed

text \<open>
  C19. Experience is conserved. A kill's experience shared in a party adds up to what the mob
  gave and goes to exactly the eligible members, in their order; and a character that gains
  experience keeps all of it: what it holds after the level loop plus what the levels passed
  cost is what it had, the loop stops only below the next threshold, and every level gives one
  skill point and one message.
\<close>

theorem experience_conserved:
  assumes "elig \<noteq> []" "0 < c_level c" "10 * (c_level c + c_xp c) \<le> u32_max"
    "c_skill_points c + c_xp c \<le> u32_max"
  shows "sum_list (map snd (xp_shares xp elig)) = xp \<and> map fst (xp_shares xp elig) = elig
    \<and> (let (c', ms) = level_up c in
        c_xp c = c_xp c' + xp_between (c_level c) (c_level c')
        \<and> c_xp c' < xp_needed_for_next (c_level c')
        \<and> c_level c' = c_level c + length ms
        \<and> c_skill_points c' = c_skill_points c + length ms)"
proof -
  have "c_level c' = c_level c + length ms \<and> c_xp c = c_xp c' + xp_between (c_level c) (c_level c')
      \<and> c_xp c' < xp_needed_for_next (c_level c') \<and> c_skill_points c' = c_skill_points c + length ms"
    if "level_up c = (c', ms)" for c' ms
    using level_up_account [OF assms(2-4), OF refl] that by auto
  then show ?thesis
    using xp_shares_sum [OF assms(1)] xp_shares_members by (auto split: prod.split)
qed

theorem experience_conserved_witness:
  "let (c', ms) = level_up (demo_character\<lparr>c_xp := 31\<rparr>) in
     c_xp c' < xp_needed_for_next (c_level c') \<and> c_level c' = c_level demo_character + length ms"
  using experience_conserved [of "[1, 2]" "demo_character\<lparr>c_xp := 31\<rparr>" 10]
  by (auto simp: demo_character_def u32_max_def split: prod.splits)

end
