(* ===== verification/Events.thy ===== *)
theory Events
  imports Combat
begin

text \<open>
  The events of a shard's timer queue (\<open>handle_event\<close> and \<open>process_due_events\<close> in
  \<open>apps/shard_01/src/main.rs\<close>): the tavern and its bartender, the first fight's worm, the class
  halls' people, rounds of fighting, the boss's casts, instances built room by room, wandering.

  The drain loop handles the events that are due until none is, and a handled event can put new
  ones at the same time: \<open>process_due_events\<close> recurses on fuel, and the amount of work the due
  events can still cause, \<open>due_work\<close>, is shown to be enough of it.
\<close>

section \<open>Places and people\<close>

definition room_tavern :: string where "room_tavern = ''R_TOWN_TAVERN_01''"
definition room_first_fight :: string where "room_first_fight = ''R_NS_LABS_03''"

definition class_hall_npcs :: "(string \<times> string) list" where
  "class_hall_npcs =
    [(''class_halls.barbarian'', ''Krag Stonefury''),
     (''class_halls.barbarian'', ''Warchief Una''),
     (''class_halls.barbarian'', ''Rok Loud''),
     (''class_halls.barbarian'', ''Mira Flint''),
     (''class_halls.bard'', ''Caro Strings''),
     (''class_halls.bard'', ''Maestra Jun''),
     (''class_halls.bard'', ''Piper Vale''),
     (''class_halls.bard'', ''Tess Chronicler''),
     (''class_halls.cleric'', ''Sister Vell''),
     (''class_halls.cleric'', ''Canon Hara''),
     (''class_halls.cleric'', ''Brother Piers''),
     (''class_halls.druid'', ''Iri Moss''),
     (''class_halls.druid'', ''Grovecaller Olan''),
     (''class_halls.druid'', ''Bracken''),
     (''class_halls.druid'', ''Fern Watcher''),
     (''class_halls.fighter'', ''Kera Forgefront''),
     (''class_halls.fighter'', ''Captain Rhune''),
     (''class_halls.fighter'', ''Sable Recruiter''),
     (''class_halls.fighter'', ''Holt Veteran''),
     (''class_halls.monk'', ''Toma Quiethands''),
     (''class_halls.monk'', ''Master Sen''),
     (''class_halls.monk'', ''Ili Swift''),
     (''class_halls.monk'', ''Pema Still''),
     (''class_halls.paladin'', ''Rhea Sunsteel''),
     (''class_halls.paladin'', ''Justicar Hal''),
     (''class_halls.paladin'', ''Lumen Vowkeeper''),
     (''class_halls.paladin'', ''Alden Oathbound''),
     (''class_halls.ranger'', ''Pine Flint''),
     (''class_halls.ranger'', ''Tracker Mae''),
     (''class_halls.ranger'', ''Jory Scout''),
     (''class_halls.ranger'', ''Kestrel Pathfinder''),
     (''class_halls.rogue'', ''Lilt Fence''),
     (''class_halls.rogue'', ''Mistcut''),
     (''class_halls.rogue'', ''Nix''),
     (''class_halls.rogue'', ''Echo Glass''),
     (''class_halls.sorcerer'', ''Nira Sparkglass''),
     (''class_halls.sorcerer'', ''Wildcaster Joss''),
     (''class_halls.sorcerer'', ''Fenn Unstable''),
     (''class_halls.sorcerer'', ''Risa Flux''),
     (''class_halls.warlock'', ''Vesh Cinder''),
     (''class_halls.warlock'', ''Pactmaster Lira''),
     (''class_halls.warlock'', ''Hask Bound''),
     (''class_halls.warlock'', ''Nyla Whisper''),
     (''class_halls.wizard'', ''Mira Quill''),
     (''class_halls.wizard'', ''Archmage Sel''),
     (''class_halls.wizard'', ''Sela Archivist''),
     (''class_halls.wizard'', ''Orin Scribe'')]"

definition is_class_hall_room :: "string \<Rightarrow> bool" where
  "is_class_hall_room room_id \<longleftrightarrow> prefix ''class_halls.'' room_id"

definition bartender_emotes :: "string list" where
  "bartender_emotes =
    [''* the bartender washes a stack of mugs.'',
     ''* the bartender feeds the perpetual stew. it bubbles politely.'',
     ''* the bartender scrubs a plate like it insulted their family.'',
     ''* the bartender stirs the stew and nods to nobody in particular.'',
     ''* the bartender wipes the bar until it shines.'',
     ''* the bartender hums a tune you almost remember.'']"

section \<open>The handlers\<close>

definition on_tick :: "world \<Rightarrow> world" where
  "on_tick w =
     (let w = (if w_bartender_id w = None then schedule_at_ms (w_now_ms w) EvEnsureTavernMob w else w)
      in schedule_at_ms (w_now_ms w) EvEnsureFirstFightWorm w)"

definition bartender_in_place :: "world \<Rightarrow> bool" where
  "bartender_in_place w \<longleftrightarrow>
     (case Option.bind (w_bartender_id w) (w_chars w) of
        None \<Rightarrow> False
      | Some c \<Rightarrow> c_controller c = None \<and> c_room_id c = room_tavern)"

definition on_ensure_tavern_mob :: "hash_orders \<Rightarrow> world \<Rightarrow> world" where
  "on_ensure_tavern_mob ho w =
     (let w = schedule_in_ms 60000 EvEnsureTavernMob w in
      if bartender_in_place w then w
      else
        (let (mob_id, w) = spawn_mob room_tavern ''bartender'' w;
             w = w\<lparr>w_bartender_id := Some mob_id, w_bartender_emote_idx := 0\<rparr>;
             w = broadcast_room ho room_tavern
                   ''* the bartender appears behind the bar, polishing a glass.'' w
         in schedule_in_ms (w_bartender_emote_ms w) EvBartenderEmote w))"

definition on_bartender_emote :: "hash_orders \<Rightarrow> world \<Rightarrow> world" where
  "on_bartender_emote ho w =
     (case w_bartender_id w of
        None \<Rightarrow> schedule_at_ms (w_now_ms w) EvEnsureTavernMob w
      | Some i \<Rightarrow>
          (case w_chars w i of
             None \<Rightarrow> schedule_at_ms (w_now_ms w) EvEnsureTavernMob (w\<lparr>w_bartender_id := None\<rparr>)
           | Some c \<Rightarrow>
               (if c_room_id c \<noteq> room_tavern then
                  schedule_at_ms (w_now_ms w) EvEnsureTavernMob (w\<lparr>w_bartender_id := None\<rparr>)
                else
                  (let k = w_bartender_emote_idx w mod length bartender_emotes;
                       w = w\<lparr>w_bartender_emote_idx := sat_add64 (w_bartender_emote_idx w) 1\<rparr>;
                       w = broadcast_room ho room_tavern (bartender_emotes ! k) w
                   in schedule_in_ms (w_bartender_emote_ms w) EvBartenderEmote w))))"

definition anyone_in :: "hash_orders \<Rightarrow> world \<Rightarrow> string \<Rightarrow> (character \<Rightarrow> bool) \<Rightarrow> bool" where
  "anyone_in ho w room_id P \<longleftrightarrow>
     list_ex (\<lambda>cid. case w_chars w cid of None \<Rightarrow> False | Some c \<Rightarrow> P c) (occupants_of ho w room_id)"

definition on_ensure_first_fight_worm :: "hash_orders \<Rightarrow> world \<Rightarrow> world" where
  "on_ensure_first_fight_worm ho w =
     (let w = schedule_in_ms 5000 EvEnsureFirstFightWorm w in
      if \<not> anyone_in ho w room_first_fight (\<lambda>c. c_controller c \<noteq> None) then w
      else if anyone_in ho w room_first_fight (\<lambda>c. c_controller c = None \<and> c_name c = ''stenchworm'')
      then w
      else broadcast_room ho room_first_fight
             ''* something wet wriggles in the drain. a stenchworm emerges.''
             (snd (spawn_stenchworm room_first_fight w)))"

definition ensure_npc :: "hash_orders \<Rightarrow> world \<Rightarrow> string \<times> string \<Rightarrow> world" where
  "ensure_npc ho w rn =
     (if \<not> has_room (w_rooms w) (fst rn) then w
      else if find_mob_in_room ho w (fst rn) (snd rn) \<noteq> None then w
      else snd (spawn_mob (fst rn) (snd rn) w))"

definition on_ensure_class_hall_mobs :: "hash_orders \<Rightarrow> world \<Rightarrow> world" where
  "on_ensure_class_hall_mobs ho w =
     foldl (ensure_npc ho) (schedule_in_ms 60000 EvEnsureClassHallMobs w) class_hall_npcs"

text \<open>A round of fighting. The blow itself, and whether the attacker may strike at all.\<close>

definition may_strike :: "world \<Rightarrow> nat \<Rightarrow> character \<Rightarrow> nat \<Rightarrow> character \<Rightarrow> bool" where
  "may_strike w attacker_id att target_id tgt \<longleftrightarrow>
     c_room_id tgt = c_room_id att
     \<and> \<not> (c_controller att = None \<and> c_controller tgt = None)
     \<and> \<not> (c_controller att \<noteq> None \<and> c_controller tgt \<noteq> None \<and> \<not> can_pvp_ids w attacker_id target_id)"

definition strike :: "hash_orders \<Rightarrow> nat \<Rightarrow> character \<Rightarrow> nat \<Rightarrow> character \<Rightarrow> world \<Rightarrow> bool \<times> world" where
  "strike ho attacker_id att target_id tgt w =
     (let (dmg, w) = (if c_controller att \<noteq> None then compute_autoattack_damage attacker_id w
                      else compute_mob_autoattack_damage att w);
          msg = ''* '' @ c_name att @ '' hits '' @ c_name tgt @ '' for '' @ show_int dmg @ ''.''
      in if c_controller tgt \<noteq> None then apply_damage_to_player ho attacker_id target_id dmg msg w
         else apply_damage_to_mob ho attacker_id target_id dmg msg w)"

definition on_combat_act :: "hash_orders \<Rightarrow> nat \<Rightarrow> world \<Rightarrow> world" where
  "on_combat_act ho attacker_id w =
     (case w_chars w attacker_id of
        None \<Rightarrow> w
      | Some att \<Rightarrow>
          (if \<not> cs_autoattack (c_combat att) then w
           else
             (case cs_target (c_combat att) of
                None \<Rightarrow> w
              | Some target_id \<Rightarrow>
                  (if w_now_ms w < c_stunned_until_ms att then
                     schedule_at_ms (c_stunned_until_ms att) (EvCombatAct attacker_id) w
                   else if w_now_ms w < cs_next_ready_ms (c_combat att) then
                     schedule_at_ms (cs_next_ready_ms (c_combat att)) (EvCombatAct attacker_id) w
                   else
                     (case w_chars w target_id of
                        None \<Rightarrow> stop_fighting attacker_id w
                      | Some tgt \<Rightarrow>
                          (if \<not> may_strike w attacker_id att target_id tgt then
                             stop_fighting attacker_id w
                           else
                             (let (killed, w) = strike ho attacker_id att target_id tgt w in
                              if killed then stop_fighting attacker_id w
                              else
                                (let nxt = sat_add64 (w_now_ms w) 1000 in
                                 schedule_at_ms nxt (EvCombatAct attacker_id)
                                   (upd_char attacker_id (\<lambda>a. a\<lparr>c_combat :=
                                      (c_combat a)\<lparr>cs_next_ready_ms := nxt\<rparr>\<rparr>) w)))))))))"

text \<open>The boss: both events first see that it is still there.\<close>

definition boss_alive :: "world \<Rightarrow> nat \<Rightarrow> character option" where
  "boss_alive w boss_id =
     (case w_chars w boss_id of
        None \<Rightarrow> None
      | Some b \<Rightarrow> if c_controller b \<noteq> None \<or> c_hp b \<le> 0 then None else Some b)"

definition drop_boss :: "nat \<Rightarrow> world \<Rightarrow> world" where
  "drop_boss boss_id w = w\<lparr>w_bosses := (w_bosses w)(boss_id := None)\<rparr>"

definition on_boss_telegraph :: "hash_orders \<Rightarrow> nat \<Rightarrow> world \<Rightarrow> world" where
  "on_boss_telegraph ho boss_id w =
     (case boss_alive w boss_id of
        None \<Rightarrow> drop_boss boss_id w
      | Some b \<Rightarrow>
          (case w_bosses w boss_id of
             None \<Rightarrow> w
           | Some bs \<Rightarrow>
               (if bo_casting_until_ms bs > w_now_ms w then
                  schedule_at_ms (bo_casting_until_ms bs) (EvBossTelegraph boss_id) w
                else if c_name b \<noteq> ''grease_king'' then w
                else
                  (let due = sat_add64 (w_now_ms w) 2500; sq = sat_add64 (bo_seq bs) 1;
                       w = w\<lparr>w_bosses := (w_bosses w)(boss_id \<mapsto>
                             \<lparr>bo_casting_until_ms = due, bo_seq = sq\<rparr>)\<rparr>;
                       w = broadcast_room ho (c_room_id b)
                             ''* grease_king begins casting grease_crush. interrupt it!'' w;
                       w = schedule_at_ms due (EvBossResolve boss_id sq) w
                   in schedule_in_ms 6500 (EvBossTelegraph boss_id) w))))"

definition crush_victims :: "hash_orders \<Rightarrow> world \<Rightarrow> string \<Rightarrow> nat list" where
  "crush_victims ho w room_id =
     map c_id (filter (\<lambda>c. c_controller c \<noteq> None \<and> c_hp c > 0)
       (List.map_filter (w_chars w) (occupants_of ho w room_id)))"

definition crush :: "hash_orders \<Rightarrow> nat \<Rightarrow> world \<Rightarrow> nat \<Rightarrow> world" where
  "crush ho boss_id w vid =
     (let vname = (case w_chars w vid of None \<Rightarrow> ''someone'' | Some c \<Rightarrow> c_name c) in
      snd (apply_damage_to_player ho boss_id vid 8
             (''* grease_king crushes '' @ vname @ '' for '' @ show_int 8 @ ''.'') w))"

definition on_boss_resolve :: "hash_orders \<Rightarrow> nat \<Rightarrow> nat \<Rightarrow> world \<Rightarrow> world" where
  "on_boss_resolve ho boss_id sq w =
     (case boss_alive w boss_id of
        None \<Rightarrow> drop_boss boss_id w
      | Some b \<Rightarrow>
          (case w_bosses w boss_id of
             None \<Rightarrow> w
           | Some bs \<Rightarrow>
               (if bo_seq bs \<noteq> sq \<or> bo_casting_until_ms bs = 0 \<or> w_now_ms w < bo_casting_until_ms bs
                then w
                else
                  (let w = w\<lparr>w_bosses := (w_bosses w)(boss_id \<mapsto> bs\<lparr>bo_casting_until_ms := 0\<rparr>)\<rparr>;
                       w = broadcast_room ho (c_room_id b) ''* grease_king unleashes grease_crush!'' w
                   in foldl (crush ho boss_id) w (crush_victims ho w (c_room_id b))))))"

text \<open>
  An instance is built one room per event, from the end of the plan; then the party enters it.
\<close>

definition enter_run :: "string \<Rightarrow> world \<Rightarrow> nat \<Rightarrow> world" where
  "enter_run start_room w mid =
     (case w_chars w mid of None \<Rightarrow> w | Some c \<Rightarrow> move_char mid (c_room_id c) start_room w)"

definition show_run :: "hash_orders \<Rightarrow> string \<Rightarrow> world \<Rightarrow> nat \<Rightarrow> world" where
  "show_run ho start_room w mid =
     (case controller_of w mid of
        None \<Rightarrow> w
      | Some sid \<Rightarrow> say sid (render_room_for ho w start_room sid) w)"

definition on_party_build_next :: "hash_orders \<Rightarrow> nat \<Rightarrow> world \<Rightarrow> world" where
  "on_party_build_next ho party_id w =
     (case w_party_builds w party_id of
        None \<Rightarrow> w
      | Some plan \<Rightarrow>
          (if pb_rooms plan \<noteq> [] then
             (let (rid, rd) = last (pb_rooms plan);
                  w = w\<lparr>w_party_builds := (w_party_builds w)(party_id \<mapsto>
                          plan\<lparr>pb_rooms := butlast (pb_rooms plan)\<rparr>),
                        w_rooms := insert_room (w_rooms w) rid rd\<rparr>
              in schedule_at_ms (w_now_ms w) (EvPartyBuildNext party_id) w)
           else
             (let members = party_members_vec ho w party_id;
                  start_room = pb_start_room plan;
                  w = w\<lparr>w_party_builds := (w_party_builds w)(party_id := None)\<rparr>;
                  w = foldl (enter_run start_room) w members;
                  w = party_send ho party_id ''* your party enters a new run.'' w
              in foldl (show_run ho start_room) w members)))"

definition on_mob_wander :: "hash_orders \<Rightarrow> nat \<Rightarrow> world \<Rightarrow> world" where
  "on_mob_wander ho mob_id w =
     (case w_chars w mob_id of
        None \<Rightarrow> w
      | Some m \<Rightarrow>
          (if c_controller m \<noteq> None then w
           else
             (let exits = filter (\<lambda>e. has_room (w_rooms w) (ex_to e)) (exits_raw (w_rooms w) (c_room_id m)) in
              if exits = [] then schedule_in_ms (w_mob_wander_ms w) (EvMobWander mob_id) w
              else
                (let (r, rng) = rng_next (w_rng w);
                     ex = exits ! (unat r mod length exits);
                     from = c_room_id m; to = ex_to ex;
                     w = move_char mob_id from to (w\<lparr>w_rng := rng\<rparr>);
                     w = broadcast_room ho from (''* '' @ c_name m @ '' wanders '' @ ex_dir ex @ ''.'') w;
                     w = broadcast_room ho to (''* '' @ c_name m @ '' wanders in.'') w
                 in schedule_in_ms (w_mob_wander_ms w) (EvMobWander mob_id) w))))"

fun handle_event :: "hash_orders \<Rightarrow> event_kind \<Rightarrow> world \<Rightarrow> world" where
  "handle_event ho EvTick w = on_tick w"
| "handle_event ho (EvRoomMsg room_id msg) w = broadcast_room ho room_id msg w"
| "handle_event ho EvEnsureTavernMob w = on_ensure_tavern_mob ho w"
| "handle_event ho EvBartenderEmote w = on_bartender_emote ho w"
| "handle_event ho EvEnsureFirstFightWorm w = on_ensure_first_fight_worm ho w"
| "handle_event ho EvEnsureClassHallMobs w = on_ensure_class_hall_mobs ho w"
| "handle_event ho (EvCombatAct attacker_id) w = on_combat_act ho attacker_id w"
| "handle_event ho (EvBossTelegraph boss_id) w = on_boss_telegraph ho boss_id w"
| "handle_event ho (EvBossResolve boss_id sq) w = on_boss_resolve ho boss_id sq w"
| "handle_event ho (EvPartyBuildNext party_id) w = on_party_build_next ho party_id w"
| "handle_event ho (EvMobWander mob_id) w = on_mob_wander ho mob_id w"

text \<open>The loop: \<open>None\<close> when the fuel runs out.\<close>

fun process_due_events :: "nat \<Rightarrow> hash_orders \<Rightarrow> world \<Rightarrow> world option" where
  "process_due_events n ho w =
     (case pop_due_event w of
        None \<Rightarrow> Some w
      | Some (ev, w) \<Rightarrow>
          (case n of
             0 \<Rightarrow> None
           | Suc m \<Rightarrow> process_due_events m ho (handle_event ho (se_kind ev) w)))"

declare process_due_events.simps [simp del]

section \<open>Identifiers an event takes\<close>

lemma id_frames [simp]:
  "w_next_char_id (schedule_at_ms due k w) = w_next_char_id w"
  "w_next_char_id (schedule_in_ms d k w) = w_next_char_id w"
  "w_next_char_id (upd_char cid f w) = w_next_char_id w"
  "w_next_char_id (move_char cid from to w) = w_next_char_id w"
  by (simp_all add: schedule_in_ms_def schedule_at_ms_def upd_char_def move_char_def split: option.split)

lemma spawn_ids [simp]:
  "w_next_char_id (snd (spawn_mob r nm w)) = sat_add64 (w_next_char_id w) 1"
  "w_next_char_id (snd (spawn_stenchworm r w)) = sat_add64 (w_next_char_id w) 1"
  by (simp_all add: spawn_stenchworm_def spawn_mob_hp_def spawn_mob_def insert_char_def Let_def
      case_prod_beta)

lemma id_foldl:
  "(\<And>w x. w_next_char_id (f w x) = w_next_char_id w) \<Longrightarrow> w_next_char_id (foldl f w xs) = w_next_char_id w"
  by (induction xs arbitrary: w) simp_all

lemma award_ids [simp]: "w_next_char_id (award_xp ho cid xp w) = w_next_char_id w"
proof -
  have one: "w_next_char_id (award_xp_one cid xp p w) = w_next_char_id w" for cid xp p w
    by (simp add: award_xp_one_def Let_def case_prod_beta id_foldl split: option.split)
  show ?thesis
    by (simp add: award_xp_def Let_def one id_foldl case_prod_beta split: option.split)
qed

lemma party_leave_ids [simp]: "w_next_char_id (party_leave ho cid w) = w_next_char_id w"
  by (simp add: party_leave_def Let_def split: option.split)

lemma damage_ids [simp]:
  "w_next_char_id (snd (apply_damage_to_player ho a t dmg msg w)) = w_next_char_id w"
  "w_next_char_id (snd (apply_damage_to_mob ho a t dmg msg w)) = w_next_char_id w"
  by (simp_all add: apply_damage_to_player_def apply_damage_to_mob_def send_to_graveyard_def
      remove_char_def worm_loot_def inv_add_def Let_def split: option.split prod.split)

section \<open>Every event keeps the world consistent\<close>

lemma on_tick_ok [intro]: "world_ok w \<Longrightarrow> world_ok (on_tick w)"
  by (simp add: on_tick_def Let_def)

lemma on_ensure_tavern_mob_ok:
  "world_ok w \<Longrightarrow> w_next_char_id w < u64_max \<Longrightarrow> world_ok (on_ensure_tavern_mob ho w)"
  using spawn_mob_ok [of "schedule_in_ms 60000 EvEnsureTavernMob w" room_tavern "''bartender''"]
  by (auto simp: on_ensure_tavern_mob_def Let_def split: prod.split)

lemma on_bartender_emote_ok: "world_ok w \<Longrightarrow> world_ok (on_bartender_emote ho w)"
  by (simp add: on_bartender_emote_def Let_def split: option.split)

lemma on_ensure_first_fight_worm_ok:
  "world_ok w \<Longrightarrow> w_next_char_id w < u64_max \<Longrightarrow> world_ok (on_ensure_first_fight_worm ho w)"
  by (simp add: on_ensure_first_fight_worm_def Let_def spawn_stenchworm_ok)

lemma ensure_npc_step:
  assumes "world_ok w" "w_next_char_id w < u64_max"
  shows "world_ok (ensure_npc ho w rn) \<and> w_next_char_id (ensure_npc ho w rn) \<le> Suc (w_next_char_id w)"
  using assms spawn_mob_ok [OF assms] by (simp add: ensure_npc_def sat_add64_Suc [simplified])

lemma ensure_npcs:
  "world_ok w \<Longrightarrow> w_next_char_id w + length xs \<le> u64_max \<Longrightarrow>
     world_ok (foldl (ensure_npc ho) w xs)
     \<and> w_next_char_id (foldl (ensure_npc ho) w xs) \<le> w_next_char_id w + length xs"
proof (induction xs arbitrary: w)
  case Nil
  then show ?case by simp
next
  case (Cons x xs)
  then have s: "world_ok (ensure_npc ho w x) \<and> w_next_char_id (ensure_npc ho w x) \<le> Suc (w_next_char_id w)"
    by (intro ensure_npc_step) simp_all
  then have "w_next_char_id (ensure_npc ho w x) + length xs \<le> u64_max" using Cons.prems(2) by simp
  with s Cons.IH [of "ensure_npc ho w x"] show ?case by force
qed

lemma length_npcs: "length class_hall_npcs = 47"
  by (simp add: class_hall_npcs_def)

lemma strike_ok:
  assumes "world_ok w" "orders_ok ho"
  shows "world_ok (snd (strike ho a att t tgt w))"
proof -
  obtain dmg v where v: "(if c_controller att \<noteq> None then compute_autoattack_damage a w
      else compute_mob_autoattack_damage att w) = (dmg, v)"
    by fastforce
  then have "world_ok v"
    using damage_rolls_ok assms(1) by (metis snd_conv)
  with v assms(2) show ?thesis
    unfolding strike_def v Let_def
    by (simp add: apply_damage_to_player_ok apply_damage_to_mob_ok)
qed

lemma strike_ids [simp]: "w_next_char_id (snd (strike ho a att t tgt w)) = w_next_char_id w"
  by (simp add: strike_def Let_def case_prod_beta compute_autoattack_damage_def
      compute_mob_autoattack_damage_def split: option.split)

lemma set_ready_ok [intro]:
  "world_ok w \<Longrightarrow> world_ok (upd_char cid (\<lambda>a. a\<lparr>c_combat := (c_combat a)\<lparr>cs_next_ready_ms := t\<rparr>\<rparr>) w)"
  by (rule upd_tame_ok) simp_all

lemma on_combat_act_ok:
  assumes "world_ok w" "orders_ok ho"
  shows "world_ok (on_combat_act ho a w)"
proof -
  have s: "world_ok v" if "strike ho a att t tgt w = (k, v)" for att t tgt k v
    using strike_ok [OF assms, of a att t tgt] that by simp
  show ?thesis
    unfolding on_combat_act_def Let_def
    by (auto split: option.split prod.split intro!: schedule_ok set_ready_ok stop_fighting_ok assms(1)
        dest: s)
qed

lemma on_boss_telegraph_ok: "world_ok w \<Longrightarrow> world_ok (on_boss_telegraph ho b w)"
  by (simp add: on_boss_telegraph_def drop_boss_def Let_def split: option.split)

lemma crush_ok [intro]: "world_ok w \<Longrightarrow> world_ok (crush ho b w v)"
  by (simp add: crush_def Let_def apply_damage_to_player_ok)

lemma on_boss_resolve_ok: "world_ok w \<Longrightarrow> world_ok (on_boss_resolve ho b sq w)"
  by (auto simp: on_boss_resolve_def drop_boss_def Let_def split: option.split
      intro!: foldl_inv [of world_ok])

lemma enter_run_ok [intro]: "world_ok w \<Longrightarrow> world_ok (enter_run r w mid)"
  by (auto simp: enter_run_def split: option.split intro: move_ok)

lemma show_run_ok [simp]: "world_ok (show_run ho r w mid) = world_ok w"
  by (simp add: show_run_def split: option.split)

lemma on_party_build_next_ok: "world_ok w \<Longrightarrow> world_ok (on_party_build_next ho pid w)"
  by (auto simp: on_party_build_next_def Let_def split: option.split prod.split
      intro!: foldl_inv [of world_ok])

lemma on_mob_wander_ok: "world_ok w \<Longrightarrow> world_ok (on_mob_wander ho mid w)"
  by (auto simp: on_mob_wander_def Let_def split: option.split prod.split intro!: schedule_in_ok move_ok)

lemma handle_event_ok:
  assumes "world_ok w" "orders_ok ho" "w_next_char_id w + 47 \<le> u64_max"
  shows "world_ok (handle_event ho k w)"
proof (cases k)
  case EvEnsureClassHallMobs
  have "world_ok (foldl (ensure_npc ho) (schedule_in_ms 60000 EvEnsureClassHallMobs w) class_hall_npcs)"
    using ensure_npcs [of "schedule_in_ms 60000 EvEnsureClassHallMobs w" class_hall_npcs ho] assms
    by (simp add: length_npcs)
  then show ?thesis by (simp add: EvEnsureClassHallMobs on_ensure_class_hall_mobs_def)
qed (use assms in \<open>simp_all add: on_tick_ok on_ensure_tavern_mob_ok on_bartender_emote_ok
  on_ensure_first_fight_worm_ok on_combat_act_ok on_boss_telegraph_ok on_boss_resolve_ok
  on_party_build_next_ok on_mob_wander_ok\<close>)

lemma handle_event_ids:
  assumes "world_ok w" "w_next_char_id w + 47 \<le> u64_max"
  shows "w_next_char_id (handle_event ho k w) \<le> w_next_char_id w + 47"
proof (cases k)
  case EvEnsureClassHallMobs
  then show ?thesis
    using ensure_npcs [of "schedule_in_ms 60000 EvEnsureClassHallMobs w" class_hall_npcs ho] assms
    by (simp add: length_npcs on_ensure_class_hall_mobs_def)
next
  case (EvCombatAct a)
  have s: "w_next_char_id v = w_next_char_id w" if "strike ho a att t tgt w = (k, v)" for att t tgt k v
    using strike_ids [of ho a att t tgt w] that by simp
  show ?thesis
    by (auto simp: EvCombatAct on_combat_act_def stop_fighting_def Let_def s
        split: option.split prod.split)
next
  case (EvBossResolve b sq)
  have "w_next_char_id (crush ho b w v) = w_next_char_id w" for w v
    by (simp add: crush_def Let_def)
  then show ?thesis
    by (simp add: EvBossResolve on_boss_resolve_def drop_boss_def Let_def id_foldl split: option.split)
next
  case (EvPartyBuildNext pid)
  have "w_next_char_id (enter_run r w m) = w_next_char_id w"
    "w_next_char_id (show_run ho r w m) = w_next_char_id w" for r w m
    by (simp_all add: enter_run_def show_run_def split: option.split)
  then show ?thesis
    by (simp add: EvPartyBuildNext on_party_build_next_def Let_def id_foldl split: option.split prod.split)
qed (use sat_add64_Suc [simplified, of "w_next_char_id w"] assms(2) in \<open>simp_all add: on_tick_def on_ensure_tavern_mob_def on_bartender_emote_def on_ensure_first_fight_worm_def
  on_boss_telegraph_def drop_boss_def on_mob_wander_def Let_def case_prod_beta
  split: option.split\<close>)

section \<open>The work the due events can cause\<close>

text \<open>What the timers depend on; every operation other than scheduling leaves it alone.\<close>

definition timers ::
  "world \<Rightarrow> nat \<times> scheduled_event list \<times> (nat \<rightharpoonup> party_build_plan) \<times> nat \<times> nat" where
  "timers w = (w_now_ms w, w_events w, w_party_builds w, w_bartender_emote_ms w, w_mob_wander_ms w)"

lemma timers_frames [simp]:
  "timers (say sid msg w) = timers w" "timers (broadcast sids msg w) = timers w"
  "timers (broadcast_room ho room_id msg w) = timers w" "timers (party_send ho pid msg w) = timers w"
  "timers (upd_char cid f w) = timers w" "timers (enter_room cid r w) = timers w"
  "timers (leave_room cid r w) = timers w" "timers (move_char cid from to w) = timers w"
  "timers (party_leave ho cid w) = timers w" "timers (inv_add cid item n w) = timers w"
  "timers (w\<lparr>w_bosses := bs\<rparr>) = timers w" "timers (w\<lparr>w_rng := rg\<rparr>) = timers w"
  "timers (w\<lparr>w_bartender_id := bi\<rparr>) = timers w" "timers (w\<lparr>w_bartender_emote_idx := bx\<rparr>) = timers w"
  "timers (w\<lparr>w_rooms := rs\<rparr>) = timers w" "timers (w\<lparr>w_chars := cs\<rparr>) = timers w"
  "timers (w\<lparr>w_party_invites := pin\<rparr>) = timers w"
  by (simp_all add: timers_def frame_defs party_send_def upd_char_def enter_room_def leave_room_def
      move_char_def party_leave_def inv_add_def split: option.split)

lemma timers_foldl: "(\<And>w x. timers (f w x) = timers w) \<Longrightarrow> timers (foldl f w xs) = timers w"
  by (induction xs arbitrary: w) simp_all

lemma timers_spawn [simp]:
  "timers (snd (spawn_mob r nm w)) = timers w" "timers (snd (spawn_stenchworm r w)) = timers w"
  by (simp_all add: spawn_stenchworm_def spawn_mob_hp_def spawn_mob_def insert_char_def Let_def
      case_prod_beta) (simp_all add: timers_def)

lemma timers_award [simp]: "timers (award_xp ho cid xp w) = timers w"
proof -
  have one: "timers (award_xp_one cid xp p w) = timers w" for cid xp p w
    by (simp add: award_xp_one_def Let_def case_prod_beta timers_foldl split: option.split)
  show ?thesis
    by (simp add: award_xp_def Let_def one timers_foldl case_prod_beta split: option.split)
qed

lemma timers_player [simp]: "timers (snd (apply_damage_to_player ho a t dmg msg w)) = timers w"
  by (simp add: apply_damage_to_player_def send_to_graveyard_def Let_def split: option.split)

definition work :: "(nat \<rightharpoonup> party_build_plan) \<Rightarrow> event_kind \<Rightarrow> nat" where
  "work pb k =
     (case k of
        EvTick \<Rightarrow> 3
      | EvBartenderEmote \<Rightarrow> 2
      | EvCombatAct _ \<Rightarrow> 2
      | EvPartyBuildNext pid \<Rightarrow> Suc (case pb pid of None \<Rightarrow> 0 | Some p \<Rightarrow> length (pb_rooms p))
      | _ \<Rightarrow> 1)"

definition queue_work :: "nat \<Rightarrow> (nat \<rightharpoonup> party_build_plan) \<Rightarrow> scheduled_event list \<Rightarrow> nat" where
  "queue_work now pb es = sum_list (map (\<lambda>e. work pb (se_kind e)) (filter (\<lambda>e. se_due_ms e \<le> now) es))"

definition due_work :: "world \<Rightarrow> nat" where
  "due_work w = queue_work (w_now_ms w) (w_party_builds w) (w_events w)"

lemma due_work_timers: "timers v = timers w \<Longrightarrow> due_work v = due_work w"
  by (simp add: timers_def due_work_def)

lemma queue_work_push:
  "queue_work now pb (push_event e es)
     = (if se_due_ms e \<le> now then work pb (se_kind e) else 0) + queue_work now pb es"
  by (induction es) (simp_all add: queue_work_def)

lemma due_work_schedule [simp]:
  "due_work (schedule_at_ms due k w)
     = due_work w + (if due \<le> w_now_ms w then work (w_party_builds w) k else 0)"
  by (simp add: due_work_def schedule_at_ms_def queue_work_push)

lemma schedule_fields [simp]:
  "w_now_ms (schedule_at_ms due k w) = w_now_ms w"
  "w_party_builds (schedule_at_ms due k w) = w_party_builds w"
  "w_bartender_emote_ms (schedule_at_ms due k w) = w_bartender_emote_ms w"
  "w_mob_wander_ms (schedule_at_ms due k w) = w_mob_wander_ms w"
  by (simp_all add: schedule_at_ms_def)

text \<open>Time goes on: no timer is set to the present.\<close>

definition clock_ok :: "world \<Rightarrow> bool" where
  "clock_ok w \<longleftrightarrow> w_now_ms w < u64_max \<and> 0 < w_bartender_emote_ms w \<and> 0 < w_mob_wander_ms w"

lemma clock_timers: "timers v = timers w \<Longrightarrow> clock_ok v = clock_ok w"
  by (simp add: timers_def clock_ok_def)

lemma later: "now < u64_max \<Longrightarrow> 0 < d \<Longrightarrow> \<not> sat_add64 now d \<le> now"
  by (simp add: sat_add64_def)

text \<open>The same read off \<open>timers\<close>, so that the frame lemmas above carry the proofs.\<close>

definition timers_work :: "nat \<times> scheduled_event list \<times> (nat \<rightharpoonup> party_build_plan) \<times> nat \<times> nat \<Rightarrow> nat" where
  "timers_work t = queue_work (fst t) (fst (snd (snd t))) (fst (snd t))"

lemma timer_reads:
  "w_now_ms w = fst (timers w)" "w_party_builds w = fst (snd (snd (timers w)))"
  "w_bartender_emote_ms w = fst (snd (snd (snd (timers w))))"
  "w_mob_wander_ms w = snd (snd (snd (snd (timers w))))"
  "due_work w = timers_work (timers w)"
  by (simp_all add: timers_def due_work_def timers_work_def)

lemma timers_schedule [simp]:
  "fst (timers (schedule_at_ms due k w)) = fst (timers w)"
  "fst (snd (snd (timers (schedule_at_ms due k w)))) = fst (snd (snd (timers w)))"
  "snd (snd (snd (timers (schedule_at_ms due k w)))) = snd (snd (snd (timers w)))"
  "timers_work (timers (schedule_at_ms due k w))
     = timers_work (timers w)
       + (if due \<le> fst (timers w) then work (fst (snd (snd (timers w)))) k else 0)"
  using due_work_schedule [of due k w] unfolding timer_reads (5)
  by (simp_all add: timers_def schedule_at_ms_def)

text \<open>An event that is handled leaves less work than it was counted for.\<close>

definition lighter :: "world \<Rightarrow> event_kind \<Rightarrow> world \<Rightarrow> bool" where
  "lighter w k v \<longleftrightarrow>
     w_now_ms v = w_now_ms w \<and> w_bartender_emote_ms v = w_bartender_emote_ms w
     \<and> w_mob_wander_ms v = w_mob_wander_ms w
     \<and> due_work v < due_work w + work (w_party_builds w) k"

lemmas lighter_defs = lighter_def timer_reads schedule_in_ms_def later work_def Let_def

lemma clock_timer:
  "clock_ok w \<longleftrightarrow> fst (timers w) < u64_max \<and> 0 < fst (snd (snd (snd (timers w))))
     \<and> 0 < snd (snd (snd (snd (timers w))))"
  by (simp add: clock_ok_def timer_reads)

lemma lighter_tick: "lighter w EvTick (on_tick w)"
  by (simp add: on_tick_def lighter_defs)

lemma lighter_tavern: "clock_ok w \<Longrightarrow> lighter w EvEnsureTavernMob (on_ensure_tavern_mob ho w)"
  by (simp add: on_ensure_tavern_mob_def lighter_defs clock_timer case_prod_beta)

lemma lighter_emote: "clock_ok w \<Longrightarrow> lighter w EvBartenderEmote (on_bartender_emote ho w)"
  by (simp add: on_bartender_emote_def lighter_defs clock_timer split: option.split)

lemma lighter_worm: "clock_ok w \<Longrightarrow> lighter w EvEnsureFirstFightWorm (on_ensure_first_fight_worm ho w)"
  by (simp add: on_ensure_first_fight_worm_def lighter_defs clock_timer)

lemma lighter_halls: "clock_ok w \<Longrightarrow> lighter w EvEnsureClassHallMobs (on_ensure_class_hall_mobs ho w)"
proof -
  assume c: "clock_ok w"
  have "timers (ensure_npc ho w x) = timers w" for w x by (simp add: ensure_npc_def)
  with c show ?thesis
    by (simp add: on_ensure_class_hall_mobs_def lighter_defs clock_timer timers_foldl)
qed

lemma lighter_telegraph: "clock_ok w \<Longrightarrow> lighter w (EvBossTelegraph b) (on_boss_telegraph ho b w)"
  by (simp add: on_boss_telegraph_def drop_boss_def lighter_defs clock_timer split: option.split)

lemma lighter_resolve: "lighter w (EvBossResolve b sq) (on_boss_resolve ho b sq w)"
proof -
  have "timers (crush ho b w x) = timers w" for w x by (simp add: crush_def Let_def)
  then show ?thesis
    by (simp add: on_boss_resolve_def drop_boss_def lighter_defs timers_foldl split: option.split)
qed

lemma lighter_wander: "clock_ok w \<Longrightarrow> lighter w (EvMobWander m) (on_mob_wander ho m w)"
  by (simp add: on_mob_wander_def lighter_defs clock_timer case_prod_beta split: option.split)

lemma mob_damage_timers:
  assumes "apply_damage_to_mob ho a t dmg msg w = (killed, v)"
  shows "fst (timers v) = fst (timers w) \<and> snd (snd (timers v)) = snd (snd (timers w))
    \<and> timers_work (timers v) \<le> timers_work (timers w) + (if killed then 1 else 0)"
  using assms
  by (auto simp: apply_damage_to_mob_def remove_char_def worm_loot_def Let_def timer_reads(1) prod_eq_iff work_def
      split: option.splits prod.splits if_splits)

lemma strike_timers:
  assumes "strike ho a att t tgt w = (killed, v)"
  shows "fst (timers v) = fst (timers w) \<and> snd (snd (timers v)) = snd (snd (timers w))
    \<and> timers_work (timers v) \<le> timers_work (timers w) + (if killed then 1 else 0)"
proof -
  obtain dmg u where u: "(if c_controller att \<noteq> None then compute_autoattack_damage a w
      else compute_mob_autoattack_damage att w) = (dmg, u)"
    by fastforce
  have "timers (snd (compute_autoattack_damage a w)) = timers w"
    "timers (snd (compute_mob_autoattack_damage att w)) = timers w"
    by (simp_all add: compute_autoattack_damage_def compute_mob_autoattack_damage_def Let_def
        case_prod_beta split: option.split)
  with u have tu: "timers u = timers w" by (metis snd_conv)
  let ?msg = "''* '' @ c_name att @ '' hits '' @ c_name tgt @ '' for '' @ show_int dmg @ ''.''"
  show ?thesis
  proof (cases "c_controller tgt")
    case None
    then have "apply_damage_to_mob ho a t dmg ?msg u = (killed, v)"
      using assms unfolding strike_def u by (simp add: Let_def)
    from mob_damage_timers [OF this] tu show ?thesis by simp
  next
    case (Some sid)
    then have "snd (apply_damage_to_player ho a t dmg ?msg u) = v"
      using assms unfolding strike_def u by (simp add: Let_def)
    then have "timers v = timers w" using timers_player [of ho a t dmg ?msg u] tu by (simp only:)
    then show ?thesis by simp
  qed
qed

lemma lighter_combat:
  assumes "clock_ok w"
  shows "lighter w (EvCombatAct a) (on_combat_act ho a w)"
proof -
  have stop: "timers (stop_fighting a v) = timers v" for v by (simp add: stop_fighting_def)
  show ?thesis
    using assms
    by (auto simp: on_combat_act_def lighter_defs clock_timer stop
        split: option.split prod.split dest!: strike_timers)
qed

lemma queue_work_mono: "(\<And>k. work pb' k \<le> work pb k) \<Longrightarrow> queue_work now pb' es \<le> queue_work now pb es"
  unfolding queue_work_def by (induction es) (auto intro: add_mono)

lemma lighter_build: "lighter w (EvPartyBuildNext pid) (on_party_build_next ho pid w)"
proof (cases "w_party_builds w pid")
  case None
  then show ?thesis by (simp add: on_party_build_next_def lighter_def work_def)
next
  case (Some plan)
  show ?thesis
  proof (cases "pb_rooms plan = []")
    case True
    have "timers (enter_run r w m) = timers w" "timers (show_run ho r w m) = timers w" for r w m
      by (simp_all add: enter_run_def show_run_def split: option.split)
    note t = timers_foldl [OF this(1)] timers_foldl [OF this(2)]
    let ?v = "on_party_build_next ho pid w" and ?pb = "(w_party_builds w)(pid := None)"
    have "timers ?v = timers (w\<lparr>w_party_builds := ?pb\<rparr>)"
      by (simp add: on_party_build_next_def Some True Let_def t)
    then have v: "w_now_ms ?v = w_now_ms w" "w_bartender_emote_ms ?v = w_bartender_emote_ms w"
      "w_mob_wander_ms ?v = w_mob_wander_ms w"
      "due_work ?v = queue_work (w_now_ms w) ?pb (w_events w)"
      by (simp_all add: timers_def due_work_def)
    have "queue_work (w_now_ms w) ?pb (w_events w) \<le> due_work w"
      unfolding due_work_def by (rule queue_work_mono) (auto simp: work_def split: event_kind.split)
    with v show ?thesis by (simp add: lighter_def work_def)
  next
    case False
    let ?pb = "(w_party_builds w)(pid \<mapsto> plan\<lparr>pb_rooms := butlast (pb_rooms plan)\<rparr>)"
    have mono: "work ?pb k \<le> work (w_party_builds w) k" for k
      using Some by (auto simp: work_def split: event_kind.split)
    obtain rid rd where l: "last (pb_rooms plan) = (rid, rd)" by fastforce
    let ?u = "w\<lparr>w_party_builds := ?pb, w_rooms := insert_room (w_rooms w) rid rd\<rparr>"
    have v: "on_party_build_next ho pid w = schedule_at_ms (w_now_ms w) (EvPartyBuildNext pid) ?u"
      using False by (simp add: on_party_build_next_def Some l Let_def)
    have "due_work ?u \<le> due_work w"
      unfolding due_work_def using queue_work_mono [OF mono] by simp
    moreover have "work ?pb (EvPartyBuildNext pid) < work (w_party_builds w) (EvPartyBuildNext pid)"
      using Some False by (simp add: work_def)
    ultimately show ?thesis unfolding v lighter_def by simp
  qed
qed

lemma handle_event_lighter: "clock_ok w \<Longrightarrow> lighter w k (handle_event ho k w)"
  by (cases k) (simp_all add: lighter_tick lighter_tavern lighter_emote lighter_worm lighter_halls
      lighter_combat lighter_telegraph lighter_resolve lighter_build lighter_wander,
      simp add: lighter_defs)

section \<open>The drain loop ends\<close>

lemma work_pos: "0 < work pb k"
  by (cases k) (simp_all add: work_def)

lemma pop_due_work:
  "pop_due_event w = Some (e, w') \<Longrightarrow>
     due_work w = work (w_party_builds w') (se_kind e) + due_work w' \<and> w_now_ms w' = w_now_ms w
     \<and> clock_ok w' = clock_ok w \<and> w_next_char_id w' = w_next_char_id w"
  by (auto simp: pop_due_event_def due_work_def queue_work_def clock_ok_def split: list.splits if_splits)

lemma handled_work:
  assumes "pop_due_event w = Some (e, w')" "clock_ok w"
  shows "due_work (handle_event ho (se_kind e) w') < due_work w
    \<and> clock_ok (handle_event ho (se_kind e) w')
    \<and> w_now_ms (handle_event ho (se_kind e) w') = w_now_ms w"
  using pop_due_work [OF assms(1)] handle_event_lighter [of w' "se_kind e" ho] assms(2)
  by (simp add: lighter_def clock_ok_def)

lemma drain_ends:
  "clock_ok w \<Longrightarrow> due_work w \<le> n \<Longrightarrow> world_ok w \<Longrightarrow> orders_ok ho \<Longrightarrow>
     w_next_char_id w + 47 * due_work w \<le> u64_max \<Longrightarrow>
     \<exists>v. process_due_events n ho w = Some v \<and> world_ok v \<and> pop_due_event v = None
       \<and> w_now_ms v = w_now_ms w \<and> clock_ok v
       \<and> w_next_char_id v \<le> w_next_char_id w + 47 * due_work w"
proof (induction n arbitrary: w)
  case 0
  have "pop_due_event w = None"
  proof (cases "pop_due_event w")
    case (Some p)
    then have "0 < due_work w" using pop_due_work [of w "fst p" "snd p"] work_pos by simp
    with "0.prems"(2) show ?thesis by simp
  qed
  with "0.prems"(1,3) show ?case by (simp add: process_due_events.simps)
next
  case (Suc n)
  show ?case
  proof (cases "pop_due_event w")
    case None
    with Suc.prems(1,3) show ?thesis by (simp add: process_due_events.simps)
  next
    case (Some p)
    then obtain e w' where e: "pop_due_event w = Some (e, w')" by (cases p) auto
    let ?v = "handle_event ho (se_kind e) w'"
    note h = handled_work [OF e Suc.prems(1), where ho = ho] and p = pop_due_work [OF e]
    have w': "world_ok w'" using pop_due_ok [OF Suc.prems(3) e] .
    have "47 + 47 * due_work ?v \<le> 47 * due_work w" using h by simp
    then have ids: "w_next_char_id w' + 47 + 47 * due_work ?v \<le> u64_max"
      using p Suc.prems(5) by linarith
    then have "w_next_char_id w' + 47 \<le> u64_max" by simp
    with w' Suc.prems(4) have v: "world_ok ?v" "w_next_char_id ?v \<le> w_next_char_id w' + 47"
      by (auto intro: handle_event_ok handle_event_ids)
    have "w_next_char_id ?v + 47 * due_work ?v \<le> u64_max" using v(2) ids by linarith
    moreover have "due_work ?v \<le> n" using h Suc.prems(2) by linarith
    ultimately have "\<exists>u. process_due_events n ho ?v = Some u \<and> world_ok u \<and> pop_due_event u = None
        \<and> w_now_ms u = w_now_ms ?v \<and> clock_ok u
        \<and> w_next_char_id u \<le> w_next_char_id ?v + 47 * due_work ?v"
      using h v(1) Suc.prems(4) by (intro Suc.IH) auto
    moreover have "w_next_char_id ?v + 47 * due_work ?v \<le> w_next_char_id w + 47 * due_work w"
      using v(2) h p by simp
    ultimately show ?thesis using h by (subst process_due_events.simps) (auto simp: e)
  qed
qed

text \<open>
  C15. The drain loop ends. Handling a due event can put others at the very same time (a tick
  asks for the tavern and the worm, a kill for a new worm, an instance for its next room), but
  as long as the clock has not saturated and the two configured intervals are positive, the work
  that is due strictly decreases: \<open>due_work\<close> turns of the loop are enough, the world is
  consistent after it, no event is left that is due, and the time is the same.
\<close>

theorem process_due_events_ends:
  assumes "world_ok w" "orders_ok ho" "clock_ok w" "due_work w \<le> n"
    "w_next_char_id w + 47 * due_work w \<le> u64_max"
  shows "case process_due_events n ho w of
      None \<Rightarrow> False
    | Some v \<Rightarrow> world_ok v \<and> pop_due_event v = None \<and> w_now_ms v = w_now_ms w"
  using drain_ends [OF assms(3,4,1,2,5)] by auto

theorem process_due_events_ends_witness:
  "case process_due_events 5 demo_ho (schedule_in_ms 0 EvTick (pit_world [])) of
     None \<Rightarrow> False
   | Some v \<Rightarrow> world_ok v \<and> pop_due_event v = None \<and> w_now_ms v = w_now_ms (schedule_in_ms 0 EvTick (pit_world []))"
proof (rule process_due_events_ends)
  let ?w = "schedule_in_ms 0 EvTick (pit_world [])"
  have n: "w_now_ms (pit_world []) = 0" "w_next_char_id (pit_world []) = 1" "w_events (pit_world []) = []"
    "w_bartender_emote_ms (pit_world []) = 60000" "w_mob_wander_ms (pit_world []) = 15000"
    by (simp_all add: pit_world_def pit_start_def world_start_def)
  have d: "due_work ?w = 3"
    using n by (simp add: schedule_in_ms_def sat_add64_def due_work_def queue_work_def
        schedule_at_ms_def work_def)
  show "world_ok ?w" by (simp add: pit_world_ok u64_max_def)
  show "orders_ok demo_ho" by (rule demo_ho_ok)
  show "clock_ok ?w" using n by (simp add: clock_ok_def schedule_in_ms_def schedule_at_ms_def u64_max_def)
  show "due_work ?w \<le> 5" using d by simp
  show "w_next_char_id ?w + 47 * due_work ?w \<le> u64_max" using n d by (simp add: u64_max_def)
qed

section \<open>Order\<close>

interpretation tq: timer_queue "\<lambda>e w. w\<lparr>w_events := push_event e (w_events w)\<rparr>" pop_due_event
  "\<lambda>w. mset (w_events w)" "\<lambda>w. sorted_wrt before_ev (w_events w) \<and> w_now_ms w = now" before_ev
  "\<lambda>e. se_due_ms e \<le> now" for now
  by unfold_locales
    (auto simp: pop_due_event_def mset_push_event sorted_push_event before_ev_def
      split: list.splits if_splits)

definition due_events :: "world \<Rightarrow> scheduled_event list \<times> world" where
  "due_events w = tq.take_all (length (w_events w)) w"

text \<open>
  Timers fire in order. Taking events until none is due gives each due event exactly once
  and only due ones, by due time and, at one time, in the order in which they were scheduled;
  the others stay queued.
\<close>

theorem timers_in_order:
  assumes "world_ok w"
  shows "let (es, w') = due_events w in
     sorted_wrt before_ev es
     \<and> mset es = {#e \<in># mset (w_events w). se_due_ms e \<le> w_now_ms w#}
     \<and> mset (w_events w') = {#e \<in># mset (w_events w). \<not> se_due_ms e \<le> w_now_ms w#}"
proof -
  obtain es w' where t: "tq.take_all (length (w_events w)) w = (es, w')" by fastforce
  have ok: "sorted_wrt before_ev (w_events w) \<and> w_now_ms w = w_now_ms w"
    using world_okD(5) [OF assms] by (simp add: queue_ok_def)
  note all = tq.take_all_items [OF t]
  have "\<And>e. e \<in> set es \<Longrightarrow> se_due_ms e \<le> w_now_ms w"
    by (rule tq.take_all_ready [OF ok t])
  moreover have "\<And>e. e \<in># mset (w_events w') \<Longrightarrow> \<not> se_due_ms e \<le> w_now_ms w"
    by (rule tq.take_all_rest [OF ok _ t]) simp_all
  ultimately have "filter_mset (\<lambda>e. se_due_ms e \<le> w_now_ms w) (mset es) = mset es"
    "filter_mset (\<lambda>e. se_due_ms e \<le> w_now_ms w) (mset (w_events w')) = {#}"
    "filter_mset (\<lambda>e. \<not> se_due_ms e \<le> w_now_ms w) (mset es) = {#}"
    "filter_mset (\<lambda>e. \<not> se_due_ms e \<le> w_now_ms w) (mset (w_events w')) = mset (w_events w')"
    by (auto simp: filter_mset_eq_conv)
  then show ?thesis
    using tq.take_all_ordered [OF ok t] by (simp add: due_events_def t all)
qed

theorem timers_in_order_witness:
  "let w = schedule_in_ms 0 EvTick (schedule_in_ms 9 EvTick (schedule_in_ms 0 EvEnsureTavernMob (pit_world [])));
       (es, w') = due_events w in
   sorted_wrt before_ev es \<and> map se_kind (w_events w') = [EvTick]"
proof -
  let ?w = "schedule_in_ms 0 EvTick (schedule_in_ms 9 EvTick (schedule_in_ms 0 EvEnsureTavernMob (pit_world [])))"
  obtain es w' where e: "due_events ?w = (es, w')" by fastforce
  have ok: "world_ok ?w" by (simp add: pit_world_ok u64_max_def)
  have "mset (w_events w') = {#\<lparr>se_due_ms = 9, se_seq = 2, se_kind = EvTick\<rparr>#}"
    using timers_in_order [OF ok] unfolding e
    by (simp add: schedule_in_ms_def schedule_at_ms_def sat_add64_def u64_max_def pit_world_def
        pit_start_def world_start_def before_ev_def)
  then have "w_events w' = [\<lparr>se_due_ms = 9, se_seq = 2, se_kind = EvTick\<rparr>]" by simp
  with timers_in_order [OF ok] show ?thesis unfolding e by (simp add: Let_def e)
qed

section \<open>Consent and interruption\<close>

text \<open>
  C9. Players fight players only when both agree. Whatever a round of fighting does, a player
  whom another player has for a target keeps its hit points unless both have opted in and they
  are in an arena.
\<close>

theorem pvp_needs_consent:
  assumes "w_chars w a = Some att" "w_chars w t = Some tgt"
    "c_controller att = Some s1" "c_controller tgt = Some s2" "cs_target (c_combat att) = Some t"
    "\<not> (c_pvp_enabled att \<and> c_pvp_enabled tgt \<and> is_pvp_room (c_room_id att))"
  shows "map_option c_hp (w_chars (handle_event ho (EvCombatAct a) w) t) = Some (c_hp tgt)"
proof -
  have "\<not> can_pvp_ids w a t" using assms by (auto simp: can_pvp_ids_def split: if_splits)
  then have no: "\<not> may_strike w a att t tgt" using assms(3,4) by (simp add: may_strike_def)
  have stop: "map_option c_hp (w_chars (stop_fighting a w) t) = Some (c_hp tgt)"
    using assms(1,2) by (cases "t = a") (simp_all add: stop_fighting_def upd_char_def)
  have sched: "w_chars (schedule_at_ms due k w) = w_chars w" for due k by (simp add: schedule_at_ms_def)
  show ?thesis
    using assms no stop by (simp add: on_combat_act_def sched)
qed

text \<open>
  An interrupt works. When a casting boss is stunned, the resolution of that cast does
  nothing, at whatever later time it comes up, and the boss is not casting any more.
\<close>

theorem interrupted_cast_is_void:
  assumes "w_chars w a = Some att" "w_chars w b = Some boss" "a \<noteq> b" "c_room_id att = c_room_id boss"
    "c_controller boss = None" "0 < c_hp boss" "0 < stun_ms"
    "w_bosses w b = Some bs" "w_now_ms w < bo_casting_until_ms bs"
  shows "let w' = apply_stun ho a b stun_ms w in
     map_option bo_casting_until_ms (w_bosses w' b) = Some 0
     \<and> handle_event ho (EvBossResolve b (bo_seq bs)) (w'\<lparr>w_now_ms := later\<rparr>) = w'\<lparr>w_now_ms := later\<rparr>"
proof -
  let ?w = "apply_stun ho a b stun_ms w"
  have bosses [simp]: "w_bosses (upd_char c f v) = w_bosses v" "w_bosses (broadcast_room ho r m v) = w_bosses v"
    for c f v r m by (simp_all add: upd_char_def frame_defs split: option.split)
  have chars: "w_chars ?w = (w_chars w)(b \<mapsto> boss\<lparr>c_stunned_until_ms :=
      max (c_stunned_until_ms boss) (sat_add64 (w_now_ms w) stun_ms)\<rparr>)"
    using assms by (simp add: apply_stun_def Let_def upd_char_def)
  have b: "w_bosses ?w b = Some \<lparr>bo_casting_until_ms = 0, bo_seq = sat_add64 (bo_seq bs) 1\<rparr>"
    using assms by (simp add: apply_stun_def Let_def)
  show ?thesis
    using assms(5,6) chars b
    by (simp add: Let_def on_boss_resolve_def boss_alive_def)
qed

definition duel_world :: world where
  "duel_world = pit_start\<lparr>w_chars :=
     [1 \<mapsto> demo_character\<lparr>c_controller := Some 7, c_pvp_enabled := True,
        c_combat := \<lparr>cs_autoattack = True, cs_target = Some 2, cs_next_ready_ms = 0, cs_seq = 0\<rparr>\<rparr>,
      2 \<mapsto> demo_character\<lparr>c_controller := Some 8, c_pvp_enabled := False, c_hp := 5\<rparr>]\<rparr>"

theorem pvp_needs_consent_witness:
  "map_option c_hp (w_chars (handle_event demo_ho (EvCombatAct 1) duel_world) 2) = Some 5"
  using pvp_needs_consent [of duel_world 1
      "demo_character\<lparr>c_controller := Some 7, c_pvp_enabled := True,
        c_combat := \<lparr>cs_autoattack = True, cs_target = Some 2, cs_next_ready_ms = 0, cs_seq = 0\<rparr>\<rparr>"
      2 "demo_character\<lparr>c_controller := Some 8, c_pvp_enabled := False, c_hp := 5\<rparr>" 7 8 demo_ho]
  by (simp add: duel_world_def)

definition boss_world :: world where
  "boss_world = pit_start\<lparr>w_chars :=
     [1 \<mapsto> demo_character\<lparr>c_room_id := ''r''\<rparr>,
      2 \<mapsto> (mob_character 2 0 ''r'' ''grease_king'')\<lparr>c_hp := 60\<rparr>],
     w_bosses := [2 \<mapsto> \<lparr>bo_casting_until_ms = 2500, bo_seq = 2\<rparr>]\<rparr>"

theorem interrupted_cast_is_void_witness:
  "map_option bo_casting_until_ms (w_bosses (apply_stun demo_ho 1 2 1500 boss_world) 2) = Some 0"
  using interrupted_cast_is_void [of boss_world 1 "demo_character\<lparr>c_room_id := ''r''\<rparr>" 2
      "(mob_character 2 0 ''r'' ''grease_king'')\<lparr>c_hp := 60\<rparr>" 1500
      "\<lparr>bo_casting_until_ms = 2500, bo_seq = 2\<rparr>" demo_ho 0]
  by (simp add: boss_world_def mob_character_def pit_start_def world_start_def Let_def)

section \<open>Any sequence of events\<close>

interpretation em: inv_machine "\<lambda>w k. handle_event ho k w"
  "\<lambda>w k. orders_ok ho \<and> w_next_char_id w + 47 \<le> u64_max" world_ok for ho
  by unfold_locales (auto intro: handle_event_ok)

lemma events_ids_ok:
  "world_ok w \<Longrightarrow> orders_ok ho \<Longrightarrow> w_next_char_id w + 47 * length ks \<le> u64_max \<Longrightarrow>
     steps_ok (\<lambda>w k. handle_event ho k w) (\<lambda>w k. orders_ok ho \<and> w_next_char_id w + 47 \<le> u64_max) w ks"
proof (induction ks arbitrary: w)
  case Nil
  then show ?case by simp
next
  case (Cons k ks)
  have l: "w_next_char_id w + 47 \<le> u64_max" using Cons.prems(3) by simp
  have "w_next_char_id (handle_event ho k w) + 47 * length ks \<le> u64_max"
    using handle_event_ids [OF Cons.prems(1) l, of ho k] Cons.prems(3) by simp
  with Cons l show ?case by (simp add: handle_event_ok)
qed

text \<open>
  C14. Whatever events are handled, in whatever order, the world stays consistent: occupants and
  characters, sessions and controllers, parties and their members, and the queue agree.
\<close>

theorem events_keep_world:
  assumes "world_ok w" "orders_ok ho" "w_next_char_id w + 47 * length ks \<le> u64_max"
  shows "world_ok (foldl (\<lambda>w k. handle_event ho k w) w ks)"
  by (rule em.run_inv [OF assms(1) events_ids_ok [OF assms]])

theorem events_keep_world_witness:
  "world_ok (foldl (\<lambda>w k. handle_event demo_ho k w) (pit_world [''rat''])
     [EvEnsureClassHallMobs, EvTick, EvCombatAct 1, EvMobWander 1])"
  by (rule events_keep_world)
    (simp_all add: pit_world_ok demo_ho_ok pit_world_next_id u64_max_def)

end
