(* ===== verification/Moves.thy ===== *)
theory Moves
  imports Events
begin

text \<open>
  Walking and being moved (\<open>try_move\<close>, \<open>teleport_to\<close> in \<open>apps/shard_01/src/main.rs\<close>): exits,
  gates, sealed ways, a leader's followers, what a contract's room does to who enters it.
\<close>

section \<open>The moves\<close>

definition room_orientation :: string where "room_orientation = ''R_NS_ORIENT_01''"

definition sealed_exit_msg :: string where
  "sealed_exit_msg =
     ''the way is sealed. you can feel the world beyond, but gaia is not ready yet.'' @ crlf"

text \<open>Why the exit cannot be taken, if it cannot: what the session is told.\<close>

definition move_refusal :: "world \<Rightarrow> character \<Rightarrow> exit_def \<Rightarrow> string option" where
  "move_refusal w p ex =
     (if \<not> is_built p \<and> c_room_id p = room_orientation then
        Some (''trainer: finish setup first (race/class)'' @ crlf)
      else if \<not> is_built p \<and> ex_to ex \<noteq> room_orientation then
        Some (''finish setup first: return to orientation (race/class)'' @ crlf)
      else
        (case ex_gate ex of
           Some g \<Rightarrow>
             (if \<not> eval_gate_expr (c_quest p) g then
                Some (''the way is sealed. (gate: '' @ g @ '')'' @ crlf)
              else if \<not> has_room (w_rooms w) (ex_to ex) then Some sealed_exit_msg else None)
         | None \<Rightarrow>
             (if ex_sealed ex then Some sealed_exit_msg
              else if \<not> has_room (w_rooms w) (ex_to ex) then Some sealed_exit_msg else None)))"

text \<open>Who follows: the leader's party members in the room left who have it on.\<close>

definition follows :: "world \<Rightarrow> nat \<Rightarrow> string \<Rightarrow> nat \<Rightarrow> bool" where
  "follows w cid from mid =
     (if mid = cid then False
      else case w_chars w mid of
        None \<Rightarrow> False
      | Some m \<Rightarrow> c_controller m \<noteq> None \<and> c_room_id m = from \<and> c_follow_leader m)"

definition followers :: "hash_orders \<Rightarrow> world \<Rightarrow> nat \<Rightarrow> string \<Rightarrow> (nat \<times> nat option) list" where
  "followers ho w cid from =
     (case w_party_of w cid of
        None \<Rightarrow> []
      | Some pid \<Rightarrow>
          (case w_parties w pid of
             None \<Rightarrow> []
           | Some party \<Rightarrow>
               (if pt_leader party \<noteq> cid then []
                else map (\<lambda>mid. (mid, controller_of w mid))
                       (filter (follows w cid from) (set_elems (ho_nat ho) (pt_members party))))))"

definition follow_one ::
  "hash_orders \<Rightarrow> string \<Rightarrow> string \<Rightarrow> string \<Rightarrow> world \<Rightarrow> nat \<times> nat option \<Rightarrow> world" where
  "follow_one ho from to leader_name w m =
     (let (mid, msid) = m; w = move_char mid from to w in
      case msid of
        None \<Rightarrow> w
      | Some msid \<Rightarrow>
          (let nm = (case w_chars w mid of None \<Rightarrow> ''someone'' | Some c \<Rightarrow> c_name c);
               w = broadcast_room ho from (''* '' @ nm @ '' follows '' @ leader_name @ ''.'') w;
               w = broadcast_room ho to (''* '' @ nm @ '' arrives, following '' @ leader_name @ ''.'') w
           in say msid (render_room_for ho w to msid) w))"

definition enter_contract_room :: "nat \<Rightarrow> string \<Rightarrow> world \<Rightarrow> string option \<times> world" where
  "enter_contract_room cid to w =
     (case w_chars w cid of
        None \<Rightarrow> (None, w)
      | Some c \<Rightarrow>
          (let (q, msg) = q2_room_enter (c_quest c) to in
           (msg, upd_char cid (\<lambda>c. c\<lparr>c_quest := q\<rparr>) w)))"

definition walk ::
  "hash_orders \<Rightarrow> nat \<Rightarrow> nat \<Rightarrow> character \<Rightarrow> exit_def \<Rightarrow> world \<Rightarrow> world" where
  "walk ho session cid p ex w =
     (let from = c_room_id p; to = ex_to ex;
          w = broadcast_room ho from (''* '' @ c_name p @ '' goes '' @ ex_dir ex) w;
          w = move_char cid from to w;
          w = broadcast_room ho to (''* '' @ c_name p @ '' arrives'') w;
          (q2_msg, w) = enter_contract_room cid to w;
          w = say session (render_room_for ho w to session) w;
          w = (case q2_msg of None \<Rightarrow> w | Some msg \<Rightarrow> say session msg w)
      in foldl (follow_one ho from to (c_name p)) w (followers ho w cid from))"

text \<open>False when the token is no exit: the line is not a move.\<close>

definition try_move :: "hash_orders \<Rightarrow> nat \<Rightarrow> string \<Rightarrow> world \<Rightarrow> bool \<times> world" where
  "try_move ho session token w =
     (case active_char_id w session of
        None \<Rightarrow> (False, w)
      | Some cid \<Rightarrow>
          (case w_chars w cid of
             None \<Rightarrow> (False, w)
           | Some p \<Rightarrow>
               (case find_exit (w_rooms w) (c_room_id p) token of
                  None \<Rightarrow> (False, w)
                | Some ex \<Rightarrow>
                    (case move_refusal w p ex of
                       Some msg \<Rightarrow> (True, say session msg w)
                     | None \<Rightarrow> (True, walk ho session cid p ex w)))))"

definition teleport_to :: "hash_orders \<Rightarrow> nat \<Rightarrow> string \<Rightarrow> string \<Rightarrow> world \<Rightarrow> world" where
  "teleport_to ho session to verb w =
     (case active_char_id w session of
        None \<Rightarrow> w
      | Some cid \<Rightarrow>
          (case w_chars w cid of
             None \<Rightarrow> w
           | Some p \<Rightarrow>
               (if \<not> has_room (w_rooms w) to then
                  say session (''huh? (destination room not found)'' @ crlf) w
                else
                  (let w = broadcast_room ho (c_room_id p) (''* '' @ c_name p @ '' '' @ verb) w;
                       w = move_char cid (c_room_id p) to w
                   in say session (render_room_for ho w to session) w))))"

definition normalize_dir :: "string \<Rightarrow> string option" where
  "normalize_dir line =
     map_of [(''north'', ''north''), (''n'', ''north''), (''south'', ''south''), (''s'', ''south''),
             (''east'', ''east''), (''e'', ''east''), (''west'', ''west''), (''w'', ''west''),
             (''up'', ''up''), (''u'', ''up''), (''down'', ''down''), (''d'', ''down'')]
       (to_ascii_lowercase (trim line))"

section \<open>Texts\<close>

definition help_lines :: "string list" where
  "help_lines =
    [''help'',
     ''report'',
     ''report last [n]'',
     ''report search <text>'',
     ''report submit <line_id> <reason> [note...]'',
     ''report locate <line_id>'',
     ''report reasons'',
     ''rules'',
     ''buildinfo'',
     ''aiping'',
     ''uptime'',
     ''stats'',
     ''look'',
     ''look <thing>'',
     ''look board'',
     ''look chalk'',
     ''faction'',
     ''faction <civic|industrial|green>'',
     ''turn valve'',
     ''pull lever'',
     ''light pylon'',
     ''areas'',
     ''proto list'',
     ''proto <adventure_id>'',
     ''proto exit'',
     ''quest list'',
     ''quest get <key>'',
     ''quest set <key> <value>'',
     ''quest del <key>'',
     ''where (room)'',
     ''warp <room_id>'',
     ''party'',
     ''party create'',
     ''party disband'',
     ''party invite <player>'',
     ''party kick <player>'',
     ''party accept'',
     ''party leave'',
     ''party lead <player>'',
     ''party say <msg>'',
     ''party run <adventure_id>'',
     ''assist on|off'',
     ''follow on|off'',
     ''bot'',
     ''bot on|off'',
     ''botsense'',
     ''race list'',
     ''race <name>'',
     ''sessions'',
     ''sessions drop <character_id>'',
     ''class list'',
     ''class <name>'',
     ''train list'',
     ''train <skill>'',
     ''skills'',
     ''skills compendium'',
     ''skills <skill>'',
     ''equip'',
     ''equip <item>'',
     ''equipment (eq)'',
     ''remove <slot|item>'',
     ''wear <item>'',
     ''wield <item>'',
     ''quaff <item>'',
     ''use <skill|item>'',
     ''cast <skill>'',
     ''menu'',
     ''order <num|name>'',
     ''order <qty> <name>'',
     ''sell <item> <qty>'',
     ''i'',
     ''kill <mob|player>'',
     ''pvp on|off'',
     ''spawn <mob> [n]'',
     ''tell <player> <msg>'',
     ''friends'',
     ''friends add <player>'',
     ''friends del <player>'',
     ''who'',
     ''humans'',
     ''whomans'',
     ''go <exit>'',
     ''(or just type an exit name / alias)'',
     ''say <msg>'',
     ''emote <action>'',
     ''me <action>'',
     ''em <action>'',
     ''pose <action>'',
     ''yell <msg>'',
     ''whisper <player> <msg>'',
     ''dance'',
     ''smile'',
     ''nod'',
     ''bow'',
     ''laugh'',
     ''wink'',
     ''salute'',
     ''shout <msg>'',
     ''exit'']"

definition help_text :: string where
  "help_text = concat (map (\<lambda>l. l @ crlf) help_lines)"

definition coc_line_items :: "string list" where
  "coc_line_items =
    [''1. nothing illegal'',
     ''2. hard R for violence, hard PG for sex/nudity'',
     ''3. no soliciting'',
     ''4. anything you submit - consider it publicly licensed and publicly published'',
     ''5. don'' @ [CHR 0x27] @ ''t spam'',
     ''6. prioritize great experiences for humans'',
     ''7. don'' @ [CHR 0x27] @ ''t lie about being a bot'',
     ''8. zero privacy: we will share logs with various folks and train our models on them'']"

definition rules_text :: string where
  "rules_text = ''code of conduct:'' @ crlf @ concat (map (\<lambda>l. l @ crlf) coc_line_items)"

section \<open>Where everybody is\<close>

definition room_of :: "world \<Rightarrow> nat \<Rightarrow> string option" where
  "room_of w cid = map_option c_room_id (w_chars w cid)"

lemma room_of_out [simp]:
  "room_of (say sid msg w) x = room_of w x" "room_of (broadcast_room ho r msg w) x = room_of w x"
  by (simp_all add: room_of_def)

lemma room_moves_frame [simp]:
  "w_party_of (broadcast_room ho r msg w) = w_party_of w" "w_parties (broadcast_room ho r msg w) = w_parties w"
  "w_rooms (broadcast_room ho r msg w) = w_rooms w" "w_party_of (move_char cid from to w) = w_party_of w"
  "w_parties (move_char cid from to w) = w_parties w" "w_rooms (move_char cid from to w) = w_rooms w"
  by (simp_all add: frame_defs move_char_def upd_char_def split: option.split)

lemma chars_move: "w_chars (move_char cid from to w) x
    = (if x = cid then map_option (\<lambda>c. c\<lparr>c_room_id := to\<rparr>) (w_chars w x) else w_chars w x)"
  by (simp add: move_char_def upd_char_def split: option.split)

lemma room_of_move [simp]:
  "room_of (move_char cid from to w) x = (if x = cid then map_option (\<lambda>_. to) (room_of w x) else room_of w x)"
  by (simp add: room_of_def chars_move option.map_comp comp_def)

lemma enter_contract_chars:
  assumes "enter_contract_room cid to w = (msg, w')"
  shows "room_of w' x = room_of w x" "x \<noteq> cid \<Longrightarrow> w_chars w' x = w_chars w x"
    "w_party_of w' = w_party_of w" "w_parties w' = w_parties w" "w_rooms w' = w_rooms w"
  using assms by (auto simp: enter_contract_room_def upd_char_def room_of_def
      split: option.splits prod.splits)

lemma enter_contract_ok:
  assumes "world_ok w"
  shows "world_ok (snd (enter_contract_room cid to w))"
proof (cases "w_chars w cid")
  case None
  then show ?thesis using assms by (simp add: enter_contract_room_def)
next
  case (Some c)
  have "world_ok (upd_char cid (\<lambda>c. c\<lparr>c_quest := q\<rparr>) w)" for q
    using assms by (rule upd_tame_ok) simp
  then show ?thesis by (simp add: enter_contract_room_def Some split: prod.split)
qed

lemma follow_one_room: "room_of (follow_one ho from to nm w m) x
    = (if x = fst m then map_option (\<lambda>_. to) (room_of w x) else room_of w x)"
  by (cases m) (simp add: follow_one_def Let_def split: option.split)

lemma follow_all_room: "room_of (foldl (follow_one ho from to nm) w ms) x
    = (if x \<in> fst ` set ms then map_option (\<lambda>_. to) (room_of w x) else room_of w x)"
  by (induction ms arbitrary: w) (auto simp: follow_one_room option.map_comp comp_def)

lemma follow_one_frame [simp]: "w_rooms (follow_one ho from to nm w m) = w_rooms w"
  by (cases m) (simp add: follow_one_def Let_def move_char_def upd_char_def frame_defs split: option.split)

lemma foldl_follow_frame [simp]: "w_rooms (foldl (follow_one ho from to nm) w ms) = w_rooms w"
  by (induction ms arbitrary: w) simp_all

lemma follow_one_ok:
  assumes "world_ok w" "room_of w (fst m) = Some from"
  shows "world_ok (follow_one ho from to nm w m)"
proof -
  obtain c where "w_chars w (fst m) = Some c" "c_room_id c = from"
    using assms(2) by (auto simp: room_of_def)
  from move_ok [OF assms(1) this] show ?thesis
    by (cases m) (simp add: follow_one_def Let_def split: option.split)
qed

lemma follow_all_ok:
  "world_ok w \<Longrightarrow> distinct (map fst ms) \<Longrightarrow> \<forall>m \<in> set ms. room_of w (fst m) = Some from \<Longrightarrow>
     world_ok (foldl (follow_one ho from to nm) w ms)"
proof (induction ms arbitrary: w)
  case Nil
  then show ?case by simp
next
  case (Cons m ms)
  have "room_of (follow_one ho from to nm w m) (fst k) = Some from" if "k \<in> set ms" for k
  proof -
    have "fst k \<in> fst ` set ms" using that by (rule imageI)
    moreover have "fst m \<notin> fst ` set ms" using Cons.prems(2) by simp
    ultimately have "fst k \<noteq> fst m" by metis
    with Cons.prems(3) that show ?thesis by (simp add: follow_one_room)
  qed
  then show ?case using Cons follow_one_ok [OF Cons.prems(1), of m] by simp
qed

text \<open>The mover's part of a walk, before the followers.\<close>

definition walk_alone :: "hash_orders \<Rightarrow> nat \<Rightarrow> nat \<Rightarrow> character \<Rightarrow> exit_def \<Rightarrow> world \<Rightarrow> world" where
  "walk_alone ho session cid p ex w =
     (let w = broadcast_room ho (c_room_id p) (''* '' @ c_name p @ '' goes '' @ ex_dir ex) w;
          w = move_char cid (c_room_id p) (ex_to ex) w;
          w = broadcast_room ho (ex_to ex) (''* '' @ c_name p @ '' arrives'') w;
          (q2_msg, w) = enter_contract_room cid (ex_to ex) w;
          w = say session (render_room_for ho w (ex_to ex) session) w
      in case q2_msg of None \<Rightarrow> w | Some msg \<Rightarrow> say session msg w)"

lemma walk_split:
  "walk ho session cid p ex w =
     (let v = walk_alone ho session cid p ex w in
      foldl (follow_one ho (c_room_id p) (ex_to ex) (c_name p)) v (followers ho v cid (c_room_id p)))"
  by (simp add: walk_def walk_alone_def Let_def case_prod_beta)

lemma walk_alone_facts:
  assumes "w_chars w cid = Some p"
  shows "room_of (walk_alone ho session cid p ex w) x = (if x = cid then Some (ex_to ex) else room_of w x)"
    "x \<noteq> cid \<Longrightarrow> w_chars (walk_alone ho session cid p ex w) x = w_chars w x"
    "w_party_of (walk_alone ho session cid p ex w) = w_party_of w"
    "w_parties (walk_alone ho session cid p ex w) = w_parties w"
    "w_rooms (walk_alone ho session cid p ex w) = w_rooms w"
proof -
  let ?u = "broadcast_room ho (ex_to ex) (''* '' @ c_name p @ '' arrives'')
    (move_char cid (c_room_id p) (ex_to ex)
      (broadcast_room ho (c_room_id p) (''* '' @ c_name p @ '' goes '' @ ex_dir ex) w))"
  obtain msg v where v: "enter_contract_room cid (ex_to ex) ?u = (msg, v)" by fastforce
  note c = enter_contract_chars [OF v]
  have s: "room_of (say sid m v) x = room_of v x" "w_chars (say sid m v) = w_chars v"
    "w_party_of (say sid m v) = w_party_of v" "w_parties (say sid m v) = w_parties v"
    "w_rooms (say sid m v) = w_rooms v" for sid m v
    by (simp_all add: say_def room_of_def)
  have "room_of w cid \<noteq> None" using assms by (simp add: room_of_def)
  then show "room_of (walk_alone ho session cid p ex w) x = (if x = cid then Some (ex_to ex) else room_of w x)"
    unfolding walk_alone_def Let_def v by (auto simp: s c split: option.split)
  show "x \<noteq> cid \<Longrightarrow> w_chars (walk_alone ho session cid p ex w) x = w_chars w x"
    unfolding walk_alone_def Let_def v by (simp add: s c chars_move split: option.split)
  show "w_party_of (walk_alone ho session cid p ex w) = w_party_of w"
    "w_parties (walk_alone ho session cid p ex w) = w_parties w"
    "w_rooms (walk_alone ho session cid p ex w) = w_rooms w"
    unfolding walk_alone_def Let_def v by (simp_all add: s c split: option.split)
qed

lemma walk_alone_ok:
  assumes "world_ok w" "w_chars w cid = Some p"
  shows "world_ok (walk_alone ho session cid p ex w)"
proof -
  let ?b = "broadcast_room ho (c_room_id p) (''* '' @ c_name p @ '' goes '' @ ex_dir ex) w"
  have "world_ok (move_char cid (c_room_id p) (ex_to ex) ?b)"
    by (rule move_ok [where c = p]) (use assms in simp_all)
  then have "world_ok (snd (enter_contract_room cid (ex_to ex)
      (broadcast_room ho (ex_to ex) (''* '' @ c_name p @ '' arrives'') (move_char cid (c_room_id p) (ex_to ex) ?b))))"
    by (intro enter_contract_ok) simp
  then show ?thesis by (simp add: walk_alone_def Let_def case_prod_beta split: option.split)
qed

lemma followers_in_room:
  "m \<in> set (followers ho w cid from) \<Longrightarrow> fst m \<noteq> cid \<and> room_of w (fst m) = Some from"
  by (auto simp: followers_def follows_def room_of_def split: option.splits if_splits)

lemma members_elems:
  assumes "world_ok w" "orders_ok ho" "w_parties w pid = Some party"
  shows "set (set_elems (ho_nat ho) (pt_members party)) = pt_members party"
    "distinct (set_elems (ho_nat ho) (pt_members party))"
proof -
  have "finite (pt_members party)"
    using party_members_subset [OF world_okD(3) [OF assms(1)] assms(3)] finite_chars [OF assms(1)]
      finite_subset by blast
  then show "set (set_elems (ho_nat ho) (pt_members party)) = pt_members party"
    "distinct (set_elems (ho_nat ho) (pt_members party))"
    using assms(2) by (simp_all add: orders_ok_def set_set_elems distinct_set_elems)
qed

lemma followers_distinct: "world_ok w \<Longrightarrow> orders_ok ho \<Longrightarrow> distinct (map fst (followers ho w cid from))"
  by (auto simp: followers_def comp_def members_elems split: option.split)

lemma walk_ok:
  assumes "world_ok w" "orders_ok ho" "w_chars w cid = Some p"
  shows "world_ok (walk ho session cid p ex w)"
  unfolding walk_split Let_def
  by (rule follow_all_ok)
    (use walk_alone_ok [OF assms(1,3)] followers_distinct [OF _ assms(2)] followers_in_room in auto)

lemma try_move_ok [intro]:
  assumes "world_ok w" "orders_ok ho"
  shows "world_ok (snd (try_move ho session token w))"
  using assms walk_ok by (simp add: try_move_def split: option.split)

lemma teleport_ok [intro]:
  assumes "world_ok w"
  shows "world_ok (teleport_to ho session to verb w)"
proof -
  have "world_ok (move_char cid (c_room_id p) to (broadcast_room ho r m w))"
    if "w_chars w cid = Some p" for cid p r m
    by (rule move_ok [where c = p]) (use assms that in simp_all)
  with assms show ?thesis by (simp add: teleport_to_def Let_def split: option.split)
qed

section \<open>The rules of the way\<close>

definition way_open :: "world \<Rightarrow> character \<Rightarrow> exit_def \<Rightarrow> bool" where
  "way_open w p ex \<longleftrightarrow>
     has_room (w_rooms w) (ex_to ex)
     \<and> (case ex_gate ex of None \<Rightarrow> \<not> ex_sealed ex | Some g \<Rightarrow> eval_gate_expr (c_quest p) g)
     \<and> (is_built p \<or> (ex_to ex = room_orientation \<and> c_room_id p \<noteq> room_orientation))"

lemma move_refusal_None: "move_refusal w p ex = None \<longleftrightarrow> way_open w p ex"
  by (auto simp: move_refusal_def way_open_def split: option.splits if_splits)

definition in_tow :: "world \<Rightarrow> nat \<Rightarrow> nat \<Rightarrow> bool" where
  "in_tow w cid x \<longleftrightarrow>
     (case (w_chars w x, w_chars w cid, w_party_of w cid) of
        (Some m, Some p, Some pid) \<Rightarrow>
          c_follow_leader m \<and> c_controller m \<noteq> None \<and> c_room_id m = c_room_id p
          \<and> w_party_of w x = Some pid \<and> map_option pt_leader (w_parties w pid) = Some cid
      | _ \<Rightarrow> False)"

lemma followersD:
  assumes "m \<in> set (followers ho w cid from)"
  shows "\<exists>pid party. w_party_of w cid = Some pid \<and> w_parties w pid = Some party \<and> pt_leader party = cid
    \<and> fst m \<in> set (set_elems (ho_nat ho) (pt_members party)) \<and> follows w cid from (fst m)"
proof (cases "w_party_of w cid")
  case None
  then show ?thesis using assms by (simp add: followers_def)
next
  case (Some pid)
  then show ?thesis
    using assms by (cases "w_parties w pid") (auto simp: followers_def split: if_splits)
qed

lemma followers_in_tow:
  assumes "world_ok w" "orders_ok ho" "w_chars w cid = Some p"
    "m \<in> set (followers ho (walk_alone ho session cid p ex w) cid (c_room_id p))"
  shows "fst m \<noteq> cid \<and> in_tow w cid (fst m)"
proof -
  let ?v = "walk_alone ho session cid p ex w"
  note facts = walk_alone_facts [OF assms(3), where ho = ho and session = session and ex = ex]
  obtain pid party where pid: "w_party_of w cid = Some pid" "w_parties w pid = Some party"
    "pt_leader party = cid" "fst m \<in> set (set_elems (ho_nat ho) (pt_members party))"
    "follows ?v cid (c_room_id p) (fst m)"
    using followersD [OF assms(4)] facts(3,4) by auto
  have "fst m \<in> pt_members party" using members_elems [OF assms(1,2) pid(2)] pid(4) by simp
  then have "w_party_of w (fst m) = Some pid"
    using party_memberD [OF world_okD(3) [OF assms(1)] pid(2)] by blast
  with pid facts(2) [of "fst m"] assms(3) show ?thesis
    by (auto simp: follows_def in_tow_def split: if_splits option.splits)
qed

text \<open>
  C13. Nobody moves but by the rules. If a line that is taken for a move changes where a
  character is, then the session's active character found an exit by that line and the
  character is now where it leads, a room that exists; a gate on the exit let the active
  character's quest state through, or there is none and the exit is not sealed; an unfinished
  character only goes back to the orientation room; and the character that moved is the active
  one, or a player of the party it leads, in the same room, who has following on.
\<close>

theorem moves_follow_the_rules:
  assumes "world_ok w" "orders_ok ho" "room_of (snd (try_move ho session token w)) x \<noteq> room_of w x"
  shows "case active_char_id w session of
      None \<Rightarrow> False
    | Some cid \<Rightarrow>
        (case w_chars w cid of
           None \<Rightarrow> False
         | Some p \<Rightarrow>
             (case find_exit (w_rooms w) (c_room_id p) token of
                None \<Rightarrow> False
              | Some ex \<Rightarrow>
                  room_of (snd (try_move ho session token w)) x = Some (ex_to ex)
                  \<and> way_open w p ex \<and> (x = cid \<or> in_tow w cid x)))"
proof -
  obtain cid p ex where m: "active_char_id w session = Some cid" "w_chars w cid = Some p"
    "find_exit (w_rooms w) (c_room_id p) token = Some ex" "move_refusal w p ex = None"
    "snd (try_move ho session token w) = walk ho session cid p ex w"
    using assms(3) by (auto simp: try_move_def room_of_def split: option.splits)
  let ?v = "walk_alone ho session cid p ex w"
  let ?F = "fst ` set (followers ho ?v cid (c_room_id p))"
  have after: "room_of (walk ho session cid p ex w) x
      = (if x \<in> ?F then map_option (\<lambda>_. ex_to ex) (room_of ?v x) else room_of ?v x)"
    unfolding walk_split Let_def by (rule follow_all_room)
  have tow: "x \<noteq> cid \<and> in_tow w cid x" if "x \<in> ?F"
    using that followers_in_tow [OF assms(1,2) m(2)] by auto
  have "x = cid \<or> in_tow w cid x"
  proof (cases "x \<in> ?F")
    case False
    then show ?thesis using assms(3) after walk_alone_facts(1) [OF m(2)] m(5) by (auto split: if_splits)
  qed (use tow in simp)
  moreover have "room_of (walk ho session cid p ex w) x = Some (ex_to ex)"
  proof (cases "x \<in> ?F")
    case True
    with tow have "room_of w x \<noteq> None" by (auto simp: in_tow_def room_of_def split: option.splits)
    with True tow after walk_alone_facts(1) [OF m(2)] show ?thesis by auto
  next
    case False
    then show ?thesis using assms(3) after walk_alone_facts(1) [OF m(2)] m(5) by (auto split: if_splits)
  qed
  ultimately show ?thesis using m(4) by (simp add: m(1-3,5) move_refusal_None)
qed

section \<open>Everybody is somewhere\<close>

text \<open>
  The rooms of the characters exist; so does the start room, which is in a loaded area and not
  in an instance of an adventure.
\<close>

definition homed :: "world \<Rightarrow> bool" where
  "homed w \<longleftrightarrow> rm_rooms (w_rooms w) (rm_start_room (w_rooms w)) \<noteq> None
     \<and> \<not> prefix ''proto.'' (rm_start_room (w_rooms w))
     \<and> (\<forall>cid r. room_of w cid = Some r \<longrightarrow> has_room (w_rooms w) r)"

lemma in_room_room_of: "world_ok w \<Longrightarrow> cid \<in> in_room w r \<longleftrightarrow> room_of w cid = Some r"
  by (auto simp: in_room_iff room_of_def)

lemma room_of_evacuate_one:
  "room_of (evacuate_one to w cid) x = (if x = cid then map_option (\<lambda>_. to) (room_of w x) else room_of w x)"
  by (simp add: evacuate_one_def room_of_def split: option.split)

lemma room_of_evacuate_all:
  "room_of (foldl (evacuate_one to) w cids) x
     = (if x \<in> set cids then map_option (\<lambda>_. to) (room_of w x) else room_of w x)"
  by (induction cids arbitrary: w) (auto simp: room_of_evacuate_one option.map_comp comp_def)

lemma room_of_evacuate_room:
  assumes "world_ok w" "orders_ok ho"
  shows "room_of (evacuate_room ho to w rid) x = (if room_of w x = Some rid then Some to else room_of w x)"
proof (cases "w_occupants w rid")
  case None
  then have "x \<notin> in_room w rid" by (simp add: in_room_def opt_or_def)
  with None show ?thesis using in_room_room_of [OF assms(1)] by (simp add: evacuate_room_def)
next
  case (Some S)
  then have S: "S = in_room w rid" by (simp add: in_room_def opt_or_def)
  have "set (set_elems (ho_nat ho) S) = S"
    using assms(2) finite_in_room [OF assms(1)] by (simp add: S orders_ok_def set_set_elems)
  moreover have "room_of (w\<lparr>w_occupants := oc\<rparr>) x = room_of w x" for oc by (simp add: room_of_def)
  ultimately show ?thesis
    using in_room_room_of [OF assms(1), of x rid]
    by (auto simp: evacuate_room_def Some room_of_evacuate_all S)
qed

lemma evacuate_one_frame [simp]: "w_rooms (evacuate_one to w cid) = w_rooms w"
  by (simp add: evacuate_one_def split: option.split)

lemma evacuate_room_frame [simp]: "w_rooms (evacuate_room ho to w rid) = w_rooms w"
proof -
  have "w_rooms (foldl (evacuate_one to) w cids) = w_rooms w" for w cids
    by (induction cids arbitrary: w) simp_all
  then show ?thesis by (simp add: evacuate_room_def split: option.split)
qed

lemma evacuate_fold:
  assumes "orders_ok ho" "to \<notin> set rids"
  shows "world_ok w \<Longrightarrow> room_of (foldl (evacuate_room ho to) w rids) x
     = (if room_of w x \<in> Some ` set rids then Some to else room_of w x)
    \<and> w_rooms (foldl (evacuate_room ho to) w rids) = w_rooms w"
  using assms(2)
proof (induction rids arbitrary: w)
  case Nil
  then show ?case by auto
next
  case (Cons r rids)
  have "world_ok (evacuate_room ho to w r)" using evacuate_room_ok Cons.prems(1) assms(1) by blast
  from Cons.IH [OF this] Cons.prems(2) room_of_evacuate_room [OF Cons.prems(1) assms(1), of to r x]
  show ?case by (auto simp: image_iff)
qed

lemma finite_occupied: "world_ok w \<Longrightarrow> finite (dom (w_occupants w))"
proof -
  assume ok: "world_ok w"
  have "dom (w_occupants w) \<subseteq> (\<lambda>c. c_room_id (the (w_chars w c))) ` dom (w_chars w)"
  proof
    fix r
    assume "r \<in> dom (w_occupants w)"
    then obtain S where S: "w_occupants w r = Some S" by blast
    then have "S \<noteq> {}" using world_okD(2) [OF ok] by (auto simp: occ_ok_def)
    then obtain c where "c \<in> in_room w r" using S by (auto simp: in_room_def opt_or_def)
    then show "r \<in> (\<lambda>c. c_room_id (the (w_chars w c))) ` dom (w_chars w)"
      using in_room_iff [OF ok] by force
  qed
  then show ?thesis using finite_chars [OF ok] finite_surj by blast
qed

lemma evacuated:
  assumes "world_ok w" "orders_ok ho" "\<not> prefix (pre @ ''.'') to"
  shows "room_of (evacuate_rooms_with_prefix ho pre to w) x
    = (case room_of w x of None \<Rightarrow> None | Some r \<Rightarrow> Some (if prefix (pre @ ''.'') r then to else r))
    \<and> w_rooms (evacuate_rooms_with_prefix ho pre to w) = w_rooms w"
proof -
  let ?rids = "filter (prefix (pre @ ''.'')) (map_keys (ho_str ho) (w_occupants w))"
  have rids: "set ?rids = {r \<in> dom (w_occupants w). prefix (pre @ ''.'') r}"
    using set_map_keys [of "ho_str ho" "w_occupants w"] finite_occupied [OF assms(1)] assms(2)
    by (auto simp: orders_ok_def)
  have occ: "r \<in> dom (w_occupants w)" if "room_of w x = Some r" for r
    using that in_room_room_of [OF assms(1), of x r] by (auto simp: in_room_def opt_or_def split: option.splits)
  have "to \<notin> set ?rids" using assms(3) by simp
  from evacuate_fold [OF assms(2) this assms(1), of x] show ?thesis
    unfolding evacuate_rooms_with_prefix_def rids using occ by (auto split: option.split)
qed

lemma has_insert_rooms: "has_room rs i \<Longrightarrow> has_room (insert_rooms rs l) i"
proof (induction l arbitrary: rs)
  case Nil
  then show ?case by (simp add: insert_rooms_def)
next
  case (Cons x l)
  from Cons.IH [of "insert_room rs (fst x) (snd x)"] Cons.prems show ?case
    by (cases x) (simp add: insert_rooms_def)
qed

lemma static_insert_rooms [simp]:
  "rm_rooms (insert_rooms rs l) = rm_rooms rs" "rm_start_room (insert_rooms rs l) = rm_start_room rs"
proof -
  have "rm_rooms (insert_rooms rs l) = rm_rooms rs \<and> rm_start_room (insert_rooms rs l) = rm_start_room rs"
    unfolding insert_rooms_def by (induction l arbitrary: rs) (simp_all add: case_prod_beta)
  then show "rm_rooms (insert_rooms rs l) = rm_rooms rs"
    "rm_start_room (insert_rooms rs l) = rm_start_room rs" by simp_all
qed

lemma has_room_clear:
  "has_room rs i \<Longrightarrow> \<not> suffix ''.'' pre \<Longrightarrow> \<not> prefix (pre @ ''.'') i \<Longrightarrow>
     has_room (clear_dyn_rooms_with_prefix rs pre) i"
  by (simp add: has_room_def clear_dyn_rooms_with_prefix_def Let_def)

lemma adventure_no_dot: "a \<noteq> [] \<Longrightarrow> adventure_id_ok a \<Longrightarrow> \<not> suffix ''.'' (''proto.'' @ a)"
  by (cases a rule: rev_cases)
    (auto simp: suffix_def adventure_id_ok_def is_ascii_lower_def is_ascii_digit_def)

lemma load_homed:
  assumes "world_ok w" "orders_ok ho" "homed w"
  shows "homed (snd (load_protoadventure ho read_file adventure_id w))"
proof -
  let ?a = "trim adventure_id"
  define pre where "pre = ''proto.'' @ ?a"
  define evac where "evac = (if has_room (w_rooms w) ''R_TOWN_GATE_01'' then ''R_TOWN_GATE_01''
    else rm_start_room (w_rooms w))"
  have evac_ok: "has_room (w_rooms w) evac" "\<not> prefix (pre @ ''.'') evac"
    using assms(3) by (auto simp: evac_def pre_def homed_def has_room_def prefix_def)
  have one: "homed (v\<lparr>w_rooms := insert_rooms (clear_dyn_rooms_with_prefix (w_rooms v) pre) l\<rparr>)"
    if ne: "?a \<noteq> []" "adventure_id_ok ?a" and v: "v = evacuate_rooms_with_prefix ho pre evac w" for v l
  proof -
    have ev: "room_of v x = (case room_of w x of None \<Rightarrow> None
          | Some r \<Rightarrow> Some (if prefix (pre @ ''.'') r then evac else r))" "w_rooms v = w_rooms w" for x
      using evacuated [OF assms(1,2) evac_ok(2), of x] unfolding v by blast+
    have "has_room (insert_rooms (clear_dyn_rooms_with_prefix (w_rooms w) pre) l) r"
      if "room_of v x = Some r" for x r
    proof (rule has_insert_rooms, rule has_room_clear)
      show "\<not> suffix ''.'' pre" unfolding pre_def using adventure_no_dot [OF ne] .
      show "has_room (w_rooms w) r" "\<not> prefix (pre @ ''.'') r"
        using that ev(1) [of x] assms(3) evac_ok
        by (auto simp: homed_def split: option.splits if_splits)
    qed
    with assms(3) ev(2) show ?thesis by (simp add: homed_def room_of_def)
  qed
  show ?thesis
    unfolding load_protoadventure_def Let_def evac_def [symmetric] pre_def [symmetric]
    using assms(3) one [OF _ _ refl] by (simp split: option.split)
qed

lemma homed_cong: "homed w \<Longrightarrow> w_rooms v = w_rooms w \<Longrightarrow>
    (\<And>x r. room_of v x = Some r \<Longrightarrow> has_room (w_rooms w) r) \<Longrightarrow> homed v"
  by (simp add: homed_def)

lemma try_move_homed:
  assumes "world_ok w" "orders_ok ho" "homed w"
  shows "homed (snd (try_move ho session token w))"
proof (rule homed_cong [OF assms(3)])
  show rooms: "w_rooms (snd (try_move ho session token w)) = w_rooms w"
    by (simp add: try_move_def walk_split Let_def walk_alone_facts say_def split: option.split)
  fix x r
  assume r: "room_of (snd (try_move ho session token w)) x = Some r"
  show "has_room (w_rooms w) r"
  proof (cases "room_of (snd (try_move ho session token w)) x = room_of w x")
    case True
    then show ?thesis using r assms(3) by (simp add: homed_def)
  next
    case False
    then obtain cid p ex where m: "active_char_id w session = Some cid" "w_chars w cid = Some p"
      "find_exit (w_rooms w) (c_room_id p) token = Some ex" "way_open w p ex"
      "snd (try_move ho session token w) = walk ho session cid p ex w"
      by (auto simp: try_move_def room_of_def move_refusal_None [symmetric] split: option.splits)
    have "room_of (walk ho session cid p ex w) x \<in> {room_of w x, Some (ex_to ex)}"
      using walk_alone_facts(1) [OF m(2)] unfolding walk_split Let_def follow_all_room
      by (auto simp: option.map_comp comp_def split: if_splits)
    with r False m(5) have "r = ex_to ex" by auto
    with m(4) show ?thesis by (simp add: way_open_def)
  qed
qed

lemma teleport_homed:
  assumes "homed w"
  shows "homed (teleport_to ho session to verb w)"
  using assms by (auto simp: teleport_to_def Let_def homed_def say_def room_of_def chars_move
      split: option.splits if_splits)

text \<open>
  C18. Nobody is stranded. Where every character's room exists, it still does after any move or
  teleport, and after an adventure is loaded over an instance of it that players are in: the
  rooms of the old instance go, and whoever was in one is at the town gate, or at the start.
\<close>

theorem nobody_stranded:
  assumes "world_ok w" "orders_ok ho" "homed w"
  shows "homed (snd (try_move ho session token w))
    \<and> homed (teleport_to ho session to verb w)
    \<and> homed (snd (load_protoadventure ho read_file adventure_id w))"
  by (intro conjI try_move_homed teleport_homed load_homed assms)

section \<open>A walk\<close>

definition two_rooms :: rooms where
  "two_rooms =
     \<lparr>rm_rooms = [''a'' \<mapsto> \<lparr>rd_name = ''A'', rd_description = [], rd_area_name = ''z'',
        rd_exits = [\<lparr>ex_dir = ''north'', ex_to = ''b'', ex_sealed = True, ex_gate = Some ''open''\<rparr>]\<rparr>,
      ''b'' \<mapsto> \<lparr>rd_name = ''B'', rd_description = [], rd_area_name = ''z'', rd_exits = []\<rparr>],
      rm_dyn_rooms = Map.empty, rm_start_room = ''a'', rm_areas = []\<rparr>"

definition walker :: "nat \<Rightarrow> character" where
  "walker cid = (new_character cid 7 0 ''a'' ''Al'' ''acct:al'' {} False Human Fighter SexNone PronThey)
     \<lparr>c_quest := [''open'' \<mapsto> ''1'']\<rparr>"

definition walk_start :: world where
  "walk_start = world_start two_rooms 7 60000 15000 raft_log_start None group_store_empty Map.empty None"

definition walk_world :: world where
  "walk_world = new_session_char 7 1 (snd (insert_char walker walk_start))"

lemma walker_facts [simp]:
  "c_id (walker cid) = cid" "c_controller (walker cid) = Some 7" "c_room_id (walker cid) = ''a''"
  "is_built (walker cid)" "c_quest (walker cid) = [''open'' \<mapsto> ''1'']"
  by (simp_all add: walker_def new_character_def Let_def is_built_def)

lemma walk_start_facts [simp]:
  "w_next_char_id walk_start = 1" "w_sessions walk_start = Map.empty" "w_chars walk_start = Map.empty"
  "w_rooms walk_start = two_rooms" "world_ok walk_start"
  by (simp_all add: walk_start_def world_start_ok) (simp_all add: world_start_def)

lemma walk_world_ok: "world_ok walk_world"
  unfolding walk_world_def
proof (rule insert_player_ok)
  show "insert_char walker walk_start = (1, snd (insert_char walker walk_start))"
    by (simp add: insert_char_def Let_def)
qed (simp_all add: u64_max_def)

lemma walk_world_facts:
  "w_chars walk_world 1 = Some (walker 1)" "active_char_id walk_world 7 = Some 1"
  "w_rooms walk_world = two_rooms" "x \<noteq> 1 \<Longrightarrow> w_chars walk_world x = None"
  by (simp_all add: walk_world_def new_session_char_def insert_char_def
      enter_room_def Let_def active_char_id_def)

theorem moves_follow_the_rules_witness:
  "let w = walk_world in
   case active_char_id w 7 of
      None \<Rightarrow> False
    | Some cid \<Rightarrow>
        (case w_chars w cid of
           None \<Rightarrow> False
         | Some p \<Rightarrow>
             (case find_exit (w_rooms w) (c_room_id p) ''n'' of
                None \<Rightarrow> False
              | Some ex \<Rightarrow>
                  room_of (snd (try_move demo_ho 7 ''n'' w)) 1 = Some (ex_to ex)
                  \<and> way_open w p ex \<and> (1 = cid \<or> in_tow w cid 1)))"
proof -
  note p = walk_world_facts
  let ?ex = "\<lparr>ex_dir = ''north'', ex_to = ''b'', ex_sealed = True, ex_gate = Some ''open''\<rparr>"
  have e: "find_exit two_rooms ''a'' ''n'' = Some ?ex" by code_simp
  have g: "eval_gate_expr [''open'' \<mapsto> ''1''] ''open''"
  proof -
    have "plain_key ''open''" by code_simp
    then show ?thesis by (simp add: eval_plain_key)
  qed
  have "move_refusal walk_world (walker 1) ?ex = None"
    using p g by (simp add: move_refusal_None way_open_def two_rooms_def has_room_def)
  then have "snd (try_move demo_ho 7 ''n'' walk_world) = walk demo_ho 7 1 (walker 1) ?ex walk_world"
    using p e by (simp add: try_move_def)
  moreover have "room_of (walk demo_ho 7 1 (walker 1) ?ex walk_world) 1 = Some ''b''"
    unfolding walk_split Let_def follow_all_room using walk_alone_facts(1) [OF p(1)] by simp
  ultimately have "room_of (snd (try_move demo_ho 7 ''n'' walk_world)) 1 \<noteq> room_of walk_world 1"
    using p(1) by (auto simp: room_of_def)
  from moves_follow_the_rules [OF walk_world_ok demo_ho_ok this] show ?thesis unfolding Let_def .
qed

theorem nobody_stranded_witness: "homed (teleport_to demo_ho 7 ''b'' ''vanishes'' walk_world)"
proof -
  have "room_of walk_world x = Some r \<Longrightarrow> r = ''a''" for x r
    using walk_world_facts(1,4) by (cases "x = 1") (simp_all add: room_of_def)
  then have "homed walk_world"
    by (auto simp: walk_world_facts(3) homed_def two_rooms_def has_room_def)
  from nobody_stranded [OF walk_world_ok demo_ho_ok this] show ?thesis by blast
qed

end
