(* ===== verification/Perms.thy ===== *)
theory Perms
  imports Moves "HOL-Library.Countable"
begin

text \<open>
  Who a session is and what it may do (\<open>apps/shard_01/src/main.rs\<close>): the principal and the
  capabilities of an attach, the capabilities in effect for a character, the genesis groups, a
  group change through the shard's log; what the file of players keeps across a restart.

  \<open>read_auth\<close> stands for \<open>serde_json\<close> on the attach's bytes: the blob, when they are UTF-8 and
  parse. \<open>to_json\<close> and \<open>from_json\<close> are those of the log.
\<close>

section \<open>Attaching\<close>

record auth_blob =
  ab_acct :: "string option"
  ab_method :: "string option"
  ab_google_sub :: "string option"
  ab_google_email :: "string option"
  ab_oidc_sub :: "string option"
  ab_oidc_email :: "string option"
  ab_caps :: "string list option"

text \<open>The claims in the order they are tried, each with its scheme and its normal form.\<close>

definition auth_claims :: "auth_blob \<Rightarrow> (string \<times> string option) list" where
  "auth_claims a =
     [(''google_sub:'', map_option trim (ab_google_sub a)),
      (''oidc_sub:'', map_option trim (ab_oidc_sub a)),
      (''google_email:'', map_option norm_key (ab_google_email a)),
      (''oidc_email:'', map_option norm_key (ab_oidc_email a)),
      (''acct:'', map_option norm_key (ab_acct a)),
      (''method:'', map_option norm_key (ab_method a))]"

definition principal_from_attach :: "(string \<Rightarrow> auth_blob option) \<Rightarrow> string \<Rightarrow> string option \<Rightarrow> string" where
  "principal_from_attach read_auth nm auth =
     (case Option.bind auth read_auth of
        None \<Rightarrow> ''acct:'' @ norm_key nm
      | Some a \<Rightarrow>
          (case find (\<lambda>(_, v). v \<noteq> None \<and> v \<noteq> Some []) (auth_claims a) of
             None \<Rightarrow> ''acct:'' @ norm_key nm
           | Some (scheme, v) \<Rightarrow> scheme @ the v))"

definition caps_from_attach :: "(string \<Rightarrow> auth_blob option) \<Rightarrow> string option \<Rightarrow> capability set" where
  "caps_from_attach read_auth auth =
     (case Option.bind (Option.bind auth read_auth) ab_caps of
        None \<Rightarrow> {}
      | Some caps \<Rightarrow> set (List.map_filter capability_parse caps))"

definition normalize_principal_token :: "string \<Rightarrow> string" where
  "normalize_principal_token tok =
     (let t = trim tok in
      if t = [] then ''acct:''
      else if CHR '':'' \<in> set t then to_ascii_lowercase t
      else ''acct:'' @ to_ascii_lowercase t)"

section \<open>Capabilities in effect\<close>

definition class_token :: "character \<Rightarrow> string" where
  "class_token c = (case c_class c of None \<Rightarrow> [] | Some cls \<Rightarrow> class_as_str cls)"

definition effective_caps_for :: "hash_orders \<Rightarrow> world \<Rightarrow> character \<Rightarrow> capability set" where
  "effective_caps_for ho w c =
     effective_caps_for_principal (ho_nat ho) (w_groups w) (c_principal c) (class_token c) \<union> c_auth_caps c"

definition has_cap :: "hash_orders \<Rightarrow> world \<Rightarrow> character \<Rightarrow> capability \<Rightarrow> bool" where
  "has_cap ho w c cap =
     (let caps = effective_caps_for ho w c in AdminAll \<in> caps \<or> cap \<in> caps)"

definition is_admin :: "hash_orders \<Rightarrow> world \<Rightarrow> character \<Rightarrow> bool" where
  "is_admin ho w c \<longleftrightarrow> AdminAll \<in> effective_caps_for ho w c"

text \<open>In a group the name of the character counts, where the other checks use its principal.\<close>

definition has_group_cap :: "hash_orders \<Rightarrow> world \<Rightarrow> character \<Rightarrow> nat \<Rightarrow> capability \<Rightarrow> bool" where
  "has_group_cap ho w c gid cap =
     (if is_admin ho w c then True
      else cap \<in> caps_for_principal_in_group (w_groups w) gid (c_name c) (class_token c))"

definition resolve_group_id :: "world \<Rightarrow> string \<Rightarrow> nat option" where
  "resolve_group_id w token =
     (let t = trim token in
      if t = [] then None
      else
        (case parse_uint u64_max t of
           Some i \<Rightarrow>
             (if gs_groups (w_groups w) i \<noteq> None then Some i
              else gs_group_ids_by_name (w_groups w) (to_ascii_lowercase t))
         | None \<Rightarrow> gs_group_ids_by_name (w_groups w) (to_ascii_lowercase t)))"

definition render_group_list :: "string list \<Rightarrow> string" where
  "render_group_list xs = (if xs = [] then '' - (none)'' @ crlf else concat (sort xs))"

definition render_group :: "hash_orders \<Rightarrow> (capability set \<Rightarrow> capability list) \<Rightarrow> world \<Rightarrow> nat \<Rightarrow> string" where
  "render_group ho cap_order w gid =
     (case gs_groups (w_groups w) gid of
        None \<Rightarrow> ''group: '' @ show_nat gid @ '' (missing)'' @ crlf
      | Some g \<Rightarrow>
          ''group: '' @ g_name g @ '' ('' @ group_kind_as_str (g_kind g) @ '')'' @ crlf @
          '' - id: '' @ show_nat (g_id g) @ crlf @
          ''members:'' @ crlf @
          render_group_list (map (\<lambda>k. '' - '' @ k @ '': '' @ group_role_as_str (the (g_members g k)) @ crlf)
            (map_keys (ho_str ho) (g_members g))) @
          ''policies:'' @ crlf @
          render_group_list (map (\<lambda>k. '' - '' @ k @ ''='' @ the (g_policies g k) @ crlf)
            (map_keys (ho_str ho) (g_policies g))) @
          ''role_caps:'' @ crlf @
          concat (map (\<lambda>r. '' - '' @ group_role_as_str r @ '': '' @
              join_with '' '' (sort (map capability_as_str (cap_order (caps_for_role g r)))) @ crlf)
            group_role_all))"

section \<open>Changing groups\<close>

text \<open>
  An entry is in the log's file before it changes the groups. Every caller leaves by \<open>?\<close> when the
  append fails: \<open>w_failed\<close> is set then, and nothing that follows is carried out.
\<close>

definition raft_append_group ::
  "(group_log_entry raft_envelope \<Rightarrow> string) \<Rightarrow> (nat \<Rightarrow> raft_io) \<Rightarrow> group_log_entry \<Rightarrow> world \<Rightarrow> world" where
  "raft_append_group to_json io entry w =
     (if w_failed w then w
      else
        (let (r, rl, fl) = raft_append to_json (io (rl_next_index (w_raft w))) (w_now_ms w) entry
                             (w_raft w) (w_raft_file w);
             w = w\<lparr>w_raft := rl, w_raft_file := fl\<rparr>
         in case r of
              None \<Rightarrow> w\<lparr>w_failed := True\<rparr>
            | Some env \<Rightarrow> w\<lparr>w_groups := group_apply (w_groups w) entry\<rparr>))"

definition group_id_admins :: nat where "group_id_admins = 1"
definition group_id_class_base :: nat where "group_id_class_base = 1000"

definition ensure_group ::
  "(group_log_entry raft_envelope \<Rightarrow> string) \<Rightarrow> (nat \<Rightarrow> raft_io) \<Rightarrow> nat \<Rightarrow> group_kind \<Rightarrow> string \<Rightarrow>
   world \<Rightarrow> world" where
  "ensure_group to_json io gid kind nm w =
     (if gs_groups (w_groups w) gid \<noteq> None then w
      else raft_append_group to_json io (GroupCreate gid kind nm) w)"

definition class_groups :: "(nat \<times> string) list" where
  "class_groups =
     map (\<lambda>(i, cls). (group_id_class_base + i, class_as_str cls)) (zip [0..<length class_all] class_all)"

definition boot_admin :: "string \<Rightarrow> string option" where
  "boot_admin who =
     (let t = trim who in
      if t = [] then None else if CHR '':'' \<in> set t then Some t else Some (''acct:'' @ t))"

definition boot_admin_sso :: "string \<Rightarrow> string option" where
  "boot_admin_sso p = (let t = trim p in if t = [] then None else Some (normalize_principal_token t))"

definition enrol_admin ::
  "(group_log_entry raft_envelope \<Rightarrow> string) \<Rightarrow> (nat \<Rightarrow> raft_io) \<Rightarrow> string \<Rightarrow> world \<Rightarrow> world" where
  "enrol_admin to_json io who =
     raft_append_group to_json io (GroupMemberSet group_id_admins who (Some Member))"

definition ensure_genesis_groups ::
  "(group_log_entry raft_envelope \<Rightarrow> string) \<Rightarrow> (nat \<Rightarrow> raft_io) \<Rightarrow> string list \<Rightarrow> string list \<Rightarrow>
   world \<Rightarrow> world" where
  "ensure_genesis_groups to_json io bootstrap_admins bootstrap_admin_sso w =
     (let w = ensure_group to_json io group_id_admins KindAdmin ''admins'' w;
          w = foldl (\<lambda>w (gid, cls). ensure_group to_json io gid (KindClass cls) (''class:'' @ cls) w) w
                class_groups;
          w = foldl (\<lambda>w p. enrol_admin to_json io p w) w (List.map_filter boot_admin bootstrap_admins)
      in foldl (\<lambda>w p. enrol_admin to_json io p w) w (List.map_filter boot_admin_sso bootstrap_admin_sso))"

text \<open>
  \<open>World::new\<close>: the log is replayed, the players are read, the genesis groups are made. The errors
  are a bad line of the log, and an append that fails, which leaves a file of the log.
\<close>

datatype start_error = BadLine nat string | NotLogged "string option"

definition world_new ::
  "(group_log_entry raft_envelope \<Rightarrow> string) \<Rightarrow> (string \<Rightarrow> string + group_log_entry raft_envelope) \<Rightarrow>
   (string \<Rightarrow> player_snapshot list option) \<Rightarrow> (nat \<Rightarrow> raft_io) \<Rightarrow>
   rooms \<Rightarrow> u64 \<Rightarrow> nat \<Rightarrow> nat \<Rightarrow> string option \<Rightarrow> string option \<Rightarrow>
   string list \<Rightarrow> string list \<Rightarrow> start_error + world" where
  "world_new to_json from_json players_json io rooms seed emote_ms wander_ms raft_file players_file admins sso =
     (case raft_open from_json raft_file of
        Inl (lineno, e) \<Rightarrow> Inl (BadLine lineno e)
      | Inr (raft, replay) \<Rightarrow>
          (let groups = foldl group_apply group_store_empty (map re_entry replay);
               w = ensure_genesis_groups to_json io admins sso
                     (world_start rooms seed emote_ms wander_ms raft raft_file groups
                       (load_player_snapshots players_json players_file) players_file)
           in if w_failed w then Inl (NotLogged (w_raft_file w)) else Inr w))"

section \<open>The genesis groups\<close>

text \<open>
  The administrators' group holds exactly the names in \<open>ks\<close>, every other group is a class group
  as it was made.
\<close>

definition genesis :: "string set \<Rightarrow> group_store \<Rightarrow> bool" where
  "genesis ks st \<longleftrightarrow>
     finite (dom (gs_groups st)) \<and>
     (\<forall>i g. gs_groups st i = Some g \<and> i \<noteq> group_id_admins \<longrightarrow> (\<exists>cls nm. g = group_new i (KindClass cls) nm)) \<and>
     gs_groups st group_id_admins =
       Some ((group_new group_id_admins KindAdmin ''admins'')
         \<lparr>g_members := (\<lambda>k. if k \<in> ks - {[]} then Some Member else None)\<rparr>)"

text \<open>While nothing has failed, everything has been applied.\<close>

lemma append_failed:
  "w_failed w \<Longrightarrow> raft_append_group to_json io e w = w"
  by (simp add: raft_append_group_def)

lemma append_groups:
  "\<not> w_failed (raft_append_group to_json io e w) \<Longrightarrow>
     \<not> w_failed w \<and> w_groups (raft_append_group to_json io e w) = group_apply (w_groups w) e"
  by (auto simp: raft_append_group_def Let_def split: if_splits prod.splits option.splits)

lemma ensure_failed [simp]: "w_failed w \<Longrightarrow> w_failed (ensure_group to_json io gid kind nm w)"
  "w_failed w \<Longrightarrow> w_failed (enrol_admin to_json io p w)"
  by (simp_all add: ensure_group_def enrol_admin_def append_failed)

lemma foldl_failed:
  "(\<And>w x. w_failed w \<Longrightarrow> w_failed (f w x)) \<Longrightarrow> w_failed w \<Longrightarrow> w_failed (foldl f w xs)"
  by (induction xs arbitrary: w) simp_all

lemma genesis_class:
  assumes "genesis ks (w_groups w)" "gid \<noteq> group_id_admins"
    "\<not> w_failed (ensure_group to_json io gid (KindClass cls) nm w)"
  shows "genesis ks (w_groups (ensure_group to_json io gid (KindClass cls) nm w))"
  using assms append_groups [of to_json io "GroupCreate gid (KindClass cls) nm" w]
  by (auto simp: genesis_def ensure_group_def group_apply_def Let_def split: if_splits)

lemma genesis_classes:
  "genesis ks (w_groups w) \<Longrightarrow> group_id_admins \<notin> fst ` set gs \<Longrightarrow>
     \<not> w_failed (foldl (\<lambda>w (gid, cls). ensure_group to_json io gid (KindClass cls) (f cls) w) w gs) \<Longrightarrow>
     genesis ks (w_groups (foldl (\<lambda>w (gid, cls). ensure_group to_json io gid (KindClass cls) (f cls) w) w gs))"
proof (induction gs arbitrary: w)
  case Nil
  then show ?case by simp
next
  case (Cons x gs)
  let ?v = "ensure_group to_json io (fst x) (KindClass (snd x)) (f (snd x)) w"
  have "\<not> w_failed ?v"
    using Cons.prems(3) foldl_failed [of "\<lambda>w (gid, cls). ensure_group to_json io gid (KindClass cls) (f cls) w" ?v gs]
    by (auto simp: case_prod_unfold)
  then have "genesis ks (w_groups ?v)"
    using Cons.prems by (intro genesis_class) auto
  from Cons.IH [OF this] Cons.prems(2,3) show ?case by (simp add: case_prod_unfold)
qed

lemma genesis_enrol:
  assumes "genesis ks (w_groups w)" "\<not> w_failed (enrol_admin to_json io p w)"
  shows "genesis (insert (norm_key p) ks) (w_groups (enrol_admin to_json io p w))"
proof (cases "norm_key p = []")
  case True
  then have "insert (norm_key p) ks - {[]} = ks - {[]}" by auto
  with True assms append_groups [OF assms(2) [unfolded enrol_admin_def]] show ?thesis
    by (simp add: genesis_def enrol_admin_def group_apply_def Let_def split: option.split)
next
  case False
  let ?m = "\<lambda>k. if k \<in> ks - {[]} then Some Member else None"
  have "?m(norm_key p := Some Member)
      = (\<lambda>k. if k \<in> insert (norm_key p) ks - {[]} then Some Member else None)"
    using False by auto
  with False assms append_groups [OF assms(2) [unfolded enrol_admin_def]] show ?thesis
    by (auto simp: genesis_def enrol_admin_def group_apply_def Let_def simp del: insert_iff Diff_iff)
qed

lemma genesis_enrols:
  "genesis ks (w_groups w) \<Longrightarrow> \<not> w_failed (foldl (\<lambda>w p. enrol_admin to_json io p w) w ps) \<Longrightarrow>
     genesis (ks \<union> norm_key ` set ps) (w_groups (foldl (\<lambda>w p. enrol_admin to_json io p w) w ps))"
proof (induction ps arbitrary: ks w)
  case Nil
  then show ?case by simp
next
  case (Cons p ps)
  have "\<not> w_failed (enrol_admin to_json io p w)"
    using Cons.prems(2) foldl_failed [of "\<lambda>w p. enrol_admin to_json io p w" "enrol_admin to_json io p w" ps] by auto
  from Cons.IH [OF genesis_enrol [OF Cons.prems(1) this]] Cons.prems(2) show ?case by (simp add: Un_insert_left)
qed

lemma admins_not_class: "group_id_admins \<notin> fst ` set class_groups"
  by (auto simp: class_groups_def group_id_admins_def group_id_class_base_def)

definition boot_names :: "string list \<Rightarrow> string list \<Rightarrow> string set" where
  "boot_names admins sso =
     norm_key ` (set (List.map_filter boot_admin admins) \<union> set (List.map_filter boot_admin_sso sso))"

lemma genesis_start:
  assumes "w_groups w = group_store_empty" "\<not> w_failed (ensure_genesis_groups to_json io admins sso w)"
  shows "genesis (boot_names admins sso) (w_groups (ensure_genesis_groups to_json io admins sso w))"
proof -
  let ?a = "ensure_group to_json io group_id_admins KindAdmin ''admins'' w"
  let ?b = "foldl (\<lambda>w (gid, cls). ensure_group to_json io gid (KindClass cls) (''class:'' @ cls) w) ?a class_groups"
  let ?c = "foldl (\<lambda>w p. enrol_admin to_json io p w) ?b (List.map_filter boot_admin admins)"
  let ?d = "foldl (\<lambda>w p. enrol_admin to_json io p w) ?c (List.map_filter boot_admin_sso sso)"
  have d: "\<not> w_failed ?d" using assms(2) by (simp add: ensure_genesis_groups_def Let_def)
  then have c: "\<not> w_failed ?c" using foldl_failed [of "\<lambda>w p. enrol_admin to_json io p w" ?c] by auto
  then have b: "\<not> w_failed ?b" using foldl_failed [of "\<lambda>w p. enrol_admin to_json io p w" ?b] by auto
  then have a: "\<not> w_failed ?a"
    using foldl_failed [of "\<lambda>w (gid, cls). ensure_group to_json io gid (KindClass cls) (''class:'' @ cls) w" ?a]
    by (auto simp: case_prod_beta)
  have "genesis {} (w_groups ?a)"
    using assms(1) a append_groups [of to_json io "GroupCreate group_id_admins KindAdmin ''admins''" w]
    by (auto simp: genesis_def ensure_group_def group_apply_def group_store_empty_def Let_def
        group_new_fields intro!: group.equality)
  from genesis_enrols [OF genesis_enrols [OF genesis_classes [OF this admins_not_class b] c] d]
  show ?thesis
    unfolding ensure_genesis_groups_def Let_def boot_names_def by (simp add: image_Un)
qed

lemma genesis_caps:
  assumes "genesis ks st" "iter_ok iter"
  shows "effective_caps_for_principal iter st prin cls =
    (if norm_key prin \<in> ks - {[]} then set capability_all else {})"
proof -
  have fin: "finite (dom (gs_groups st))"
    and other: "\<And>i g. gs_groups st i = Some g \<Longrightarrow> i \<noteq> group_id_admins \<Longrightarrow>
      \<exists>cls nm. g = group_new i (KindClass cls) nm"
    and adm: "gs_groups st group_id_admins =
      Some ((group_new group_id_admins KindAdmin ''admins'')
        \<lparr>g_members := (\<lambda>k. if k \<in> ks - {[]} then Some Member else None)\<rparr>)"
    using assms(1) unfolding genesis_def by blast+
  have no: "c \<notin> caps_for_role g r"
    if "gs_groups st i = Some g" "i \<noteq> group_id_admins" "role_in_group g (norm_key prin) cls = Some r"
    for i g r c
  proof -
    from other [OF that(1,2)] obtain k nm where g: "g = group_new i (KindClass k) nm" by blast
    with that(3) have "r = Member"
      by (auto simp: role_in_group_def implied_role_for_class_def split: if_splits)
    with g show ?thesis by (simp add: group_new_caps)
  qed
  have caps: "caps_for_role ((group_new group_id_admins KindAdmin ''admins'')\<lparr>g_members := m\<rparr>) Member
      = set capability_all" for m
    using group_new_caps [of group_id_admins KindAdmin "''admins''" Member]
    by (simp add: caps_for_role_def)
  let ?adm = "(group_new group_id_admins KindAdmin ''admins'')
        \<lparr>g_members := (\<lambda>k. if k \<in> ks - {[]} then Some Member else None)\<rparr>"
  have role: "role_in_group ?adm (norm_key prin) cls =
      (if norm_key prin \<in> ks - {[]} then Some Member else None)"
    by (simp add: role_in_group_def implied_role_for_class_def)
  have "c \<in> effective_caps_for_principal iter st prin cls \<longleftrightarrow>
      norm_key prin \<in> ks - {[]} \<and> c \<in> set capability_all" for c
  proof
    assume "c \<in> effective_caps_for_principal iter st prin cls"
    then obtain i g r where g: "gs_groups st i = Some g"
      "role_in_group g (norm_key prin) cls = Some r" "c \<in> caps_for_role g r"
      using effective_caps_iff [OF assms(2) fin] by blast
    with no have "i = group_id_admins" by blast
    with g adm role caps show "norm_key prin \<in> ks - {[]} \<and> c \<in> set capability_all"
      by (auto split: if_splits)
  next
    assume "norm_key prin \<in> ks - {[]} \<and> c \<in> set capability_all"
    then have "gs_groups st group_id_admins = Some ?adm"
      "role_in_group ?adm (norm_key prin) cls = Some Member" "c \<in> caps_for_role ?adm Member"
      using adm role caps by simp_all
    then show "c \<in> effective_caps_for_principal iter st prin cls"
      unfolding effective_caps_iff [OF assms(2) fin] by blast
  qed
  then show ?thesis by auto
qed

text \<open>
  A fresh shard's administrators are the ones it was told. With no log yet, the capabilities
  in effect for a character are those the broker asserted for it, and all of them if its
  principal is, up to case and surrounding blanks, one of the configured ones (a bare name
  counts as \<open>acct:\<close> and the name); class groups give nothing.
\<close>

theorem genesis_authority:
  assumes "orders_ok ho"
    "world_new to_json from_json players_json io rooms seed ems wms None players admins sso = Inr w"
  shows "effective_caps_for ho w c = c_auth_caps c \<union>
      (if norm_key (c_principal c) \<in> boot_names admins sso - {[]} then set capability_all else {})"
proof -
  let ?w = "world_start rooms seed ems wms raft_log_start None group_store_empty
    (load_player_snapshots players_json players) players"
  have w: "w = ensure_genesis_groups to_json io admins sso ?w" "\<not> w_failed w"
    using assms(2) by (auto simp: world_new_def raft_open_def load_replay_def Let_def split: if_splits)
  have "genesis (boot_names admins sso) (w_groups w)"
    unfolding w(1) by (rule genesis_start) (use w in \<open>simp_all add: world_start_def\<close>)
  from genesis_caps [OF this, of "ho_nat ho"] assms(1) show ?thesis
    by (auto simp: effective_caps_for_def orders_ok_def)
qed

section \<open>Players across sessions and restarts\<close>

text \<open>The players are filed under their principals.\<close>

definition players_ok :: "world \<Rightarrow> bool" where
  "players_ok w \<longleftrightarrow> finite (dom (w_players w))
     \<and> (\<forall>k sn. w_players w k = Some sn \<longrightarrow> sn_principal sn = k \<and> trim k \<noteq> [])"

lemma load_by_key:
  assumes "from_json f = Some l"
  shows "load_player_snapshots from_json (Some f)
    = map_by_key sn_principal (filter (\<lambda>sn. trim (sn_principal sn) \<noteq> []) l)"
proof -
  have "foldl (\<lambda>m sn. if trim (sn_principal sn) = [] then m else m(sn_principal sn \<mapsto> sn)) Map.empty l
      = map_by_key sn_principal (filter (\<lambda>sn. trim (sn_principal sn) \<noteq> []) l)"
    by (induction l rule: rev_induct) (simp_all add: fun_eq_iff)
  then show ?thesis by (simp add: load_player_snapshots_def assms)
qed

lemma map_by_key_ran:
  assumes "set vs = ran m" "\<And>k v. m k = Some v \<Longrightarrow> key v = k"
  shows "map_by_key key vs = m"
proof
  fix k
  show "map_by_key key vs k = m k"
  proof (cases "m k")
    case None
    have "map_by_key key vs k \<noteq> Some v" for v
      using map_by_key_SomeD [of key vs k v] assms None by (auto simp: ran_def)
    with None show ?thesis by auto
  next
    case (Some v)
    have "map_by_key key vs (key v) = Some v"
      by (rule map_by_key_inj) (use Some assms in \<open>auto simp: ran_def\<close>)
    with Some assms(2) show ?thesis by simp
  qed
qed

lemma saved_reload:
  assumes "players_ok w" "orders_ok ho" "from_json f = Some (player_list ho w)"
  shows "load_player_snapshots from_json (Some f) = w_players w"
proof -
  have ran: "set (player_list ho w) = ran (w_players w)"
    using assms by (simp add: player_list_def set_map_values players_ok_def orders_ok_def)
  have "sn_principal sn = k \<and> trim k \<noteq> []" if "w_players w k = Some sn" for k sn
    using assms(1) that by (simp add: players_ok_def)
  moreover have "filter (\<lambda>sn. trim (sn_principal sn) \<noteq> []) (player_list ho w) = player_list ho w"
    using calculation ran by (fastforce simp: filter_id_conv ran_def)
  ultimately show ?thesis
    unfolding load_by_key [of from_json f, OF assms(3)] using map_by_key_ran [OF ran, of sn_principal] by simp
qed

lemma from_character_principal: "from_character iter c = Some sn \<Longrightarrow> sn_principal sn = c_principal c"
  by (auto simp: from_character_def split: option.splits)

lemma append_frame [simp]:
  "w_players (raft_append_group to_json io e w) = w_players w" "w_rooms (raft_append_group to_json io e w) = w_rooms w"
  by (simp_all add: raft_append_group_def Let_def case_prod_beta split: option.split)

lemma foldl_same: "(\<And>w x. g (f w x) = g w) \<Longrightarrow> g (foldl f w xs) = g w"
  by (induction xs arbitrary: w) simp_all

lemma genesis_frame:
  "w_players (ensure_genesis_groups to_json io admins sso w) = w_players w"
  "w_rooms (ensure_genesis_groups to_json io admins sso w) = w_rooms w"
proof -
  have e: "w_players (ensure_group to_json io gid kind nm w) = w_players w"
    "w_rooms (ensure_group to_json io gid kind nm w) = w_rooms w"
    "w_players (enrol_admin to_json io p w) = w_players w" "w_rooms (enrol_admin to_json io p w) = w_rooms w"
    for gid kind nm p w by (simp_all add: ensure_group_def enrol_admin_def)
  show "w_players (ensure_genesis_groups to_json io admins sso w) = w_players w"
    by (simp add: ensure_genesis_groups_def Let_def e case_prod_beta foldl_same [where g = w_players])
  show "w_rooms (ensure_genesis_groups to_json io admins sso w) = w_rooms w"
    by (simp add: ensure_genesis_groups_def Let_def e case_prod_beta foldl_same [where g = w_rooms])
qed

lemma world_new_players:
  assumes "world_new to_json from_json players_json io rooms seed ems wms raft_file players_file admins sso = Inr v"
  shows "w_players v = load_player_snapshots players_json players_file" "w_rooms v = rooms"
  using assms
  by (auto simp: world_new_def Let_def genesis_frame world_start_def split: sum.splits if_splits)

lemma player_list_cong: "w_players v = w_players w \<Longrightarrow> player_list ho v = player_list ho w"
  by (simp add: player_list_def)

lemma remember_players:
  assumes "from_character (ho_str ho) c = Some sn" "ho_save_ok ho"
  shows "w_players (remember_player ho c w) = (w_players w)(c_principal c \<mapsto> sn)"
    "w_players_file (remember_player ho c w) = Some (ho_players_text ho (player_list ho (remember_player ho c w)))"
  using assms from_character_principal [OF assms(1)]
  by (auto simp: remember_player_def persist_player_snapshots_def player_list_def)

lemma detach_one:
  assumes "w_sessions w s = Some ss" "ss_controlled ss = [cid]" "w_chars w cid = Some c"
    "from_character (ho_str ho) c = Some sn" "ho_save_ok ho"
  shows "w_players (detach_session ho s w) = (w_players w)(c_principal c \<mapsto> sn)"
    "w_players_file (detach_session ho s w) = Some (ho_players_text ho (player_list ho (detach_session ho s w)))"
proof -
  have f: "w_players (leave_room i r v) = w_players v" "w_players_file (leave_room i r v) = w_players_file v"
    "w_players (party_leave ho i v) = w_players v" "w_players_file (party_leave ho i v) = w_players_file v" for i r v
    by (simp_all add: leave_room_def party_leave_def Let_def split: option.split)
  show p: "w_players (detach_session ho s w) = (w_players w)(c_principal c \<mapsto> sn)"
    using assms by (simp add: detach_session_def detach_char_def Let_def f remember_players)
  show "w_players_file (detach_session ho s w) = Some (ho_players_text ho (player_list ho (detach_session ho s w)))"
    using assms p
    by (simp add: detach_session_def detach_char_def Let_def f remember_players player_list_def)
qed



text \<open>A concrete text form of the snapshots: a number, for the rows with every map as its list.\<close>

definition map_rows :: "('k::linorder \<rightharpoonup> 'v) \<Rightarrow> ('k \<times> 'v) list" where
  "map_rows m = map (\<lambda>k. (k, the (m k))) (sorted_list_of_set (dom m))"

lemma map_of_rows: "finite (dom m) \<Longrightarrow> map_of (map_rows m) = m"
  by (rule ext) (auto simp: map_rows_def map_of_map_restrict restrict_map_def domIff)

definition snapshot_row where
  "snapshot_row sn =
     ((sn_name sn, sn_principal sn, sn_is_bot sn, sn_bot_ever sn, sn_bot_ever_since_ms sn,
       sn_bot_mode_changed_ms sn, sn_friends sn, sn_room_id sn, sn_autoassist sn, sn_follow_leader sn),
      (sn_drink_level sn, sn_gold sn, map_rows (sn_inv sn), map_rows (sn_quest sn), sn_class sn,
       sn_level sn, sn_xp sn, sn_skill_points sn, map_rows (sn_skills sn), sn_race sn, sn_sex sn,
       sn_pronouns sn),
      (ab_str (sn_stats sn), ab_dex (sn_stats sn), ab_con (sn_stats sn), ab_int (sn_stats sn),
       ab_wis (sn_stats sn), ab_cha (sn_stats sn)),
      (sn_hp sn, sn_max_hp sn, sn_mana sn, sn_max_mana sn, sn_stamina sn, sn_max_stamina sn,
       sn_pvp_enabled sn, map_rows (sn_equip sn)))"

fun row_snapshot where
  "row_snapshot ((nm, pr, bt, be, bs, bm, fr, rm, aa, fl), (dr, gd, iv, qs, cl, lv, xp, sk, ss, rc, sx, pn),
      (s1, s2, s3, s4, s5, s6), (hp, mh, ma, mm, st, ms, pv, eq)) =
     \<lparr>sn_name = nm, sn_principal = pr, sn_is_bot = bt, sn_bot_ever = be, sn_bot_ever_since_ms = bs,
      sn_bot_mode_changed_ms = bm, sn_friends = fr, sn_room_id = rm, sn_autoassist = aa,
      sn_follow_leader = fl, sn_drink_level = dr, sn_gold = gd, sn_inv = map_of iv,
      sn_quest = map_of qs, sn_class = cl, sn_level = lv, sn_xp = xp, sn_skill_points = sk,
      sn_skills = map_of ss, sn_race = rc, sn_sex = sx, sn_pronouns = pn,
      sn_stats = \<lparr>ab_str = s1, ab_dex = s2, ab_con = s3, ab_int = s4, ab_wis = s5, ab_cha = s6\<rparr>,
      sn_hp = hp, sn_max_hp = mh, sn_mana = ma, sn_max_mana = mm, sn_stamina = st,
      sn_max_stamina = ms, sn_pvp_enabled = pv, sn_equip = map_of eq\<rparr>"

definition snapshots_text :: "player_snapshot list \<Rightarrow> string" where
  "snapshots_text sns = show_nat (to_nat (map snapshot_row sns))"

definition snapshots_of_text :: "string \<Rightarrow> player_snapshot list option" where
  "snapshots_of_text s = map_option (\<lambda>n. map row_snapshot (from_nat n)) (parse_digits_from 0 s)"

lemma snapshots_of_text:
  assumes "\<And>sn. sn \<in> set sns \<Longrightarrow> finite (dom (sn_inv sn)) \<and> finite (dom (sn_quest sn)) \<and>
      finite (dom (sn_skills sn)) \<and> finite (dom (sn_equip sn))"
  shows "snapshots_of_text (snapshots_text sns) = Some sns"
proof -
  have "row_snapshot (snapshot_row sn) = sn" if "sn \<in> set sns" for sn
    using assms [OF that] by (simp add: snapshot_row_def map_of_rows)
  then have "map row_snapshot (map snapshot_row sns) = sns" by (simp add: map_idI)
  then show ?thesis
    by (simp add: snapshots_of_text_def snapshots_text_def parse_digits_show_nat del: map_map)
qed

lemma genesis_writes:
  assumes "\<And>i. io i = WriteOk" "\<not> w_failed w"
  shows "\<not> w_failed (ensure_genesis_groups to_json io admins sso w)"
proof -
  have a: "\<not> w_failed v \<Longrightarrow> \<not> w_failed (raft_append_group to_json io e v)" for e v
    using assms(1) by (simp add: raft_append_group_def raft_append_def Let_def)
  have e: "\<not> w_failed v \<Longrightarrow> \<not> w_failed (ensure_group to_json io gid kind nm v)"
    "\<not> w_failed v \<Longrightarrow> \<not> w_failed (enrol_admin to_json io q v)" for gid kind nm q v
    using a by (simp_all add: ensure_group_def enrol_admin_def)
  have f: "(\<And>v x. \<not> w_failed v \<Longrightarrow> \<not> w_failed (f v x)) \<Longrightarrow> \<not> w_failed v \<Longrightarrow> \<not> w_failed (foldl f v xs)"
    for f :: "world \<Rightarrow> 'x \<Rightarrow> world" and v and xs :: "'x list"
    by (rule foldl_inv [of "\<lambda>v. \<not> w_failed v"])
  show ?thesis
    using e assms(2) by (simp add: ensure_genesis_groups_def Let_def case_prod_unfold f)
qed

definition ann_world :: world where
  "ann_world = pit_start\<lparr>w_chars := [1 \<mapsto> demo_character],
     w_sessions := [7 \<mapsto> \<lparr>ss_controlled = [1], ss_active = 1, ss_pending_confirm = None\<rparr>]\<rparr>"

definition arena_rooms :: rooms where
  "arena_rooms = pit_rooms\<lparr>rm_rooms := [''arena.1'' \<mapsto>
     \<lparr>rd_name = [], rd_description = [], rd_area_name = [], rd_exits = []\<rparr>]\<rparr>"


end
