(* ===== verification/Looks.thy ===== *)
theory Looks
  imports Perms
begin

text \<open>
  The texts the shard shows of its state (\<open>apps/shard_01/src/main.rs\<close>): an item, a character's
  statistics, a party, a session and its characters, the things to look at in particular rooms,
  skills, the build prompt and the uptime. Each line ends in carriage return and line feed.
\<close>

definition crlf_lines :: "string list \<Rightarrow> string" where
  "crlf_lines ls = concat (map (\<lambda>l. l @ crlf) ls)"

definition size_label :: "item_size option \<Rightarrow> string" where
  "size_label z = (case z of None \<Rightarrow> ''-'' | Some z \<Rightarrow> size_as_str z)"

definition on_off :: "bool \<Rightarrow> string" where
  "on_off b = (if b then ''on'' else ''off'')"

text \<open>\<open>{:+}\<close>\<close>

definition show_signed :: "int \<Rightarrow> string" where
  "show_signed i = (if i < 0 then show_int i else CHR ''+'' # show_int i)"

section \<open>Items\<close>

text \<open>\<open>replace('\n', "\r\n")\<close>\<close>

definition lf_to_crlf :: "string \<Rightarrow> string" where
  "lf_to_crlf s = concat (map (\<lambda>c. if c = CHR 0x0A then crlf else [c]) s)"

definition item_facts :: "item_kind \<Rightarrow> string list" where
  "item_facts k =
     (case k of
        Weapon lo hi \<Rightarrow> [''type: weapon'', ''dmg: '' @ show_int lo @ ''..'' @ show_int hi]
      | Armor slot v cls \<Rightarrow>
          [''type: armor'', ''slot: '' @ equip_slot_as_str slot,
           ''armor class: '' @ armor_class_as_str cls, ''armor value: '' @ show_int v]
      | Consumable h \<Rightarrow> [''type: consumable'', ''heal: '' @ show_int (max h 0)]
      | Misc \<Rightarrow> [''type: misc''])"

definition render_item_details :: "item_def \<Rightarrow> string" where
  "render_item_details d =
     crlf_lines ([it_name d, ''size: '' @ size_label (it_size d)] @ item_facts (it_kind d)) @
     (if trim (it_description d) = [] then []
      else
        (let s = crlf @ lf_to_crlf (it_description d) in if suffix crlf s then s else s @ crlf))"

section \<open>Statistics\<close>

definition stat_line :: "character \<Rightarrow> string \<times> ability \<Rightarrow> string" where
  "stat_line p x =
     (let (label, a) = x in
      '' - '' @ label @ '' '' @ show_int (score_get (c_stats p) a) @ '' ('' @
      show_signed (mod_for (c_stats p) a) @ '')'')"

definition render_stats :: "character \<Rightarrow> string" where
  "render_stats p =
     crlf_lines
       ([''stats:'',
         '' - level: '' @ show_nat (c_level p),
         '' - xp: '' @ show_nat (c_xp p) @ ''/'' @ show_nat (xp_needed_for_next (c_level p)) @ '' (to next)'',
         '' - skill points: '' @ show_nat (c_skill_points p),
         '' - gold: '' @ show_nat (c_gold p) @ ''g'',
         '' - race: '' @ (case c_race p of None \<Rightarrow> ''-'' | Some r \<Rightarrow> race_as_str r),
         '' - size: '' @ size_label (map_option race_size (c_race p)),
         '' - class: '' @ (case c_class p of None \<Rightarrow> ''-'' | Some k \<Rightarrow> class_as_str k),
         '' - sex: '' @ sex_as_str (c_sex p),
         '' - pronouns: '' @ pronoun_as_str (c_pronouns p),
         '' - hp: '' @ show_int (c_hp p) @ ''/'' @ show_int (c_max_hp p),
         '' - mana: '' @ show_int (c_mana p) @ ''/'' @ show_int (c_max_mana p),
         '' - stamina: '' @ show_int (c_stamina p) @ ''/'' @ show_int (c_max_stamina p),
         '' - pvp: '' @ on_off (c_pvp_enabled p)] @
        (if c_stunned_until_ms p > 0 then ['' - stunned_until_ms: '' @ show_nat (c_stunned_until_ms p)]
         else []) @
        ['' - armor value: '' @ show_int (equipped_armor_value p),
         '' - ac: '' @ show_int (compute_ac p),
         (case equipped_weapon_damage_range p of
            Some (a, b) \<Rightarrow> '' - weapon dmg: '' @ show_int a @ ''..'' @ show_int b
          | None \<Rightarrow> '' - weapon dmg: (unarmed)'')] @
        map (stat_line p)
          [(''STR'', AStr), (''DEX'', ADex), (''CON'', ACon), (''INT'', AInt), (''WIS'', AWis),
           (''CHA'', ACha)])"

definition render_build_prompt :: "character \<Rightarrow> string" where
  "render_build_prompt p =
     (if is_built p then []
      else crlf_lines
        ([''character setup:''] @
         (if c_race p = None then ['' - choose race: `race <name>` (try: `race list`)''] else []) @
         (if c_class p = None then ['' - choose class: `class <name>` (try: `class list`)''] else []) @
         ['' - see stats: `stats`'']))"

section \<open>Parties and sessions\<close>

definition party_member_line :: "party \<Rightarrow> character \<Rightarrow> nat \<Rightarrow> character \<Rightarrow> string" where
  "party_member_line p c mid m =
     '' - '' @ c_name m @ (if pt_leader p = mid then '' (leader)'' else []) @
     (if c_room_id m = c_room_id c then [] else '' (away)'') @
     (if c_autoassist m then [] else '' (noassist)'') @
     (if c_follow_leader m then '' (follow)'' else [])"

definition render_party_status :: "hash_orders \<Rightarrow> world \<Rightarrow> nat \<Rightarrow> string" where
  "render_party_status ho w cid =
     crlf_lines
       (case w_chars w cid of
          None \<Rightarrow> [''party: (missing character)'']
        | Some c \<Rightarrow>
            (case w_party_of w cid of
               None \<Rightarrow> [''party: none'', ''try: party create'']
             | Some pid \<Rightarrow>
                 (case w_parties w pid of
                    None \<Rightarrow> [''party: (stale)'']
                  | Some p \<Rightarrow>
                      (''party '' @ show_nat (pt_id p) @ '':'') #
                      List.map_filter (\<lambda>mid. map_option (party_member_line p c mid) (w_chars w mid))
                        (set_elems (ho_nat ho) (pt_members p)))))"

text \<open>\<open>{:032x}\<close> of the 128-bit session, and the exclusive or of its halves.\<close>

definition hex_char :: "nat \<Rightarrow> char" where
  "hex_char d = (if d < 10 then char_of (48 + d) else char_of (87 + d))"

fun hex_digits :: "nat \<Rightarrow> nat \<Rightarrow> string" where
  "hex_digits 0 v = []"
| "hex_digits (Suc n) v = hex_digits n (v div 16) @ [hex_char (v mod 16)]"

definition fmt_session_id :: "nat \<Rightarrow> string" where
  "fmt_session_id sid = hex_digits 32 sid"

definition session_tag :: "nat \<Rightarrow> nat" where
  "session_tag sid = (let v = (of_nat sid :: u128) in unat (xor (ucast v) (ucast (drop_bit 64 v)) :: u64))"

definition attached_line :: "nat \<Rightarrow> character \<Rightarrow> nat \<Rightarrow> string" where
  "attached_line session active sid =
     ''   - '' @ fmt_session_id sid @ '' (short='' @ show_nat (session_tag sid) @
     (if sid = session then '' you'' else []) @
     (if c_created_by active = Some sid then '' creator'' else []) @ '')''"

definition controlled_line :: "world \<Rightarrow> session_state \<Rightarrow> nat \<Rightarrow> string" where
  "controlled_line w ss cid =
     (let (nm, room) = (case w_chars w cid of
                          Some c \<Rightarrow> (c_name c, c_room_id c)
                        | None \<Rightarrow> (''(missing)'', ''-''))
      in ''   - '' @ show_nat cid @ '' '' @ nm @ '' ['' @ room @ '']'' @
         (if cid = ss_active ss then '' active'' else []))"

definition render_sessions_cmd :: "hash_orders \<Rightarrow> world \<Rightarrow> nat \<Rightarrow> string" where
  "render_sessions_cmd ho w session =
     crlf_lines
       (case active_char_id w session of
          None \<Rightarrow> [''sessions: not attached'']
        | Some active_cid \<Rightarrow>
            (case w_chars w active_cid of
               None \<Rightarrow> [''sessions: (missing active character)'']
             | Some active \<Rightarrow>
                 [''sessions:'',
                  '' - your session: '' @ fmt_session_id session @ '' (short='' @
                    show_nat (session_tag session) @ '')'',
                  '' - active character: '' @ c_name active @ '' ('' @ show_nat (c_id active) @ '')'',
                  '' - sessions attached to this character:''] @
                 map (attached_line session active) (sessions_attached_to_character ho w (c_id active)) @
                 ['' - characters controlled by your session:''] @
                 (case w_sessions w session of
                    None \<Rightarrow> [''   - (none)'']
                  | Some ss \<Rightarrow>
                      map (controlled_line w ss) (ss_controlled ss) @
                      [''usage:'', '' - sessions'', '' - sessions drop <character_id>''])))"

section \<open>Things to look at\<close>

definition room_job_board :: string where "room_job_board = ''R_TOWN_JOB_01''"
definition room_sewers_junction :: string where "room_sewers_junction = ''R_SEW_JUNC_01''"
definition room_heroes :: string where "room_heroes = ''R_NS_ORIENT_05''"

definition is_trainer_room :: "string \<Rightarrow> bool" where
  "is_trainer_room room_id \<longleftrightarrow> room_id = room_orientation \<or> is_class_hall_room room_id"

definition render_tavern_sign :: string where
  "render_tavern_sign =
     crlf_lines
       ([''a chalkboard sign reads:'', ''  order <num> | order <name>'',
         ''  (some drinks are too stiff until your drinking level is higher)'', []] @
        map (\<lambda>d. ''  '' @ show_nat (dr_num d) @ ''. '' @ dr_name d @ '' ('' @ show_nat (dr_cost_gold d) @ ''g)'')
          drink_menu)"

definition tavern_object :: "string \<Rightarrow> string \<Rightarrow> string option" where
  "tavern_object room_id target =
     (let t = norm_key target in
      if room_id \<noteq> room_tavern then None
      else if t \<in> {''sign'', ''menu'', ''chalkboard'', ''board''} then Some render_tavern_sign
      else if t \<in> {''stew'', ''pot'', ''perpetual stew''} then
        Some (crlf_lines [''a big pot of perpetual stew.'', ''it smells like yesterday and tomorrow.''])
      else if t \<in> {''bar'', ''counter''} then
        Some (crlf_lines [''the bar is scarred wood polished smooth.'', ''it has seen spills it will never forgive.''])
      else None)"

definition job_board_object :: "character \<Rightarrow> string \<Rightarrow> string option" where
  "job_board_object p target =
     (if c_room_id p \<noteq> room_job_board then None
      else if norm_key target \<in> {''board'', ''job'', ''jobs'', ''contract'', ''contracts'', ''paper'',
             ''papers'', ''notices''}
        then Some (render_job_board_for (c_quest p))
      else None)"

definition render_sewers_junction_chalk :: "(string \<rightharpoonup> string) \<Rightarrow> string" where
  "render_sewers_junction_chalk q =
     (let valves = parsed_count (q ''q.q3_sewer_valves.valves_opened'') in
      crlf_lines
        [''chalk marks on the wall:'', [],
         ''  valves opened: '' @ show_int valves @ ''/3'',
         ''  boss slope: '' @ (if valves \<ge> 3 then ''unsealed'' else ''sealed''),
         ''  quarry bypass: '' @
           (if eval_gate_expr q ''gate.sewers.shortcut_to_quarry'' then ''unsealed'' else ''sealed''),
         [], ''routes:'', ''  go valves | go wing | go entry''])"

definition sewers_object :: "character \<Rightarrow> string \<Rightarrow> string option" where
  "sewers_object p target =
     (if c_room_id p \<noteq> room_sewers_junction then None
      else if norm_key target \<in> {''chalk'', ''marks'', ''board'', ''sign'', ''signs''}
        then Some (render_sewers_junction_chalk (c_quest p))
      else None)"

definition render_hall_of_heroes :: string where
  "render_hall_of_heroes =
     crlf_lines
       [''hall of heroes:'', [], ''two statues watch the door:'',
        ''  hatchet: a chipped hatchet. takes your bugs personally.'',
        ''  javelin: a javelin pointed outward. welcomes you anyway.'', [],
        ''names etched in the stone:'',
        ''  mud1: roy trubshaw, richard bartle'',
        ''  dikumud: katja nyboe, tom madsen, michael seifert, hans henrik staerfeldt'',
        ''  lpmud: lars pensjo'', ''  tiny: jim aspnes'', ''  circle: jeremy elson'',
        ''  everquest: Aradune'']"

definition heroes_object :: "string \<Rightarrow> string \<Rightarrow> string option" where
  "heroes_object room_id target =
     (if room_id \<noteq> room_heroes then None
      else if norm_key target \<in> {''hall'', ''heroes'', ''hero'', ''statue'', ''statues'', ''sentinel'',
             ''sentinels'', ''hatchet'', ''javelin'', ''aradune''}
        then Some render_hall_of_heroes
      else None)"

definition academy_object :: "string \<Rightarrow> string \<Rightarrow> string option" where
  "academy_object room_id target =
     (let t = norm_key target in
      if room_id \<noteq> room_orientation then None
      else if t \<in> {''trainer'', ''instructor'', ''coach''} then
        Some (crlf_lines [''a tired instructor with kind eyes.'', ''try: class <name>, train <skill>, help''])
      else if t \<in> {''placard'', ''sign'', ''board''} then
        Some (crlf_lines
          [''a training placard reads:'', '' - go east to start orientation (badge + drills)'',
           '' - follow the drills to dorms and the combat labs'',
           '' - after the sim yard, head north toward the town gate''])
      else None)"

section \<open>Skills\<close>

definition skill_cost :: "skill_def \<Rightarrow> string" where
  "skill_cost d =
     (if sk_cost_mana d = 0 \<and> sk_cost_stamina d = 0 then ''-''
      else if sk_cost_stamina d = 0 then show_int (sk_cost_mana d) @ '' mana''
      else if sk_cost_mana d = 0 then show_int (sk_cost_stamina d) @ '' stamina''
      else show_int (sk_cost_mana d) @ '' mana, '' @ show_int (sk_cost_stamina d) @ '' stamina'')"

definition compendium_entry :: "skill_def \<Rightarrow> string list" where
  "compendium_entry d =
     ['' - '' @ sk_id d @ '' ('' @ sk_display d @ '') ['' @
        join_with '', '' (sort (map class_as_str (sk_classes d))) @ ''] cd='' @
        show_nat (sk_cooldown_ms d) @ ''ms cost='' @ skill_cost d] @
     (if trim (sk_description d) = [] then [] else [''   '' @ sk_description d]) @
     (if sk_aliases d = [] then [] else [''   aliases: '' @ join_with '', '' (sk_aliases d)])"

definition render_skill_compendium :: string where
  "render_skill_compendium =
     crlf_lines (''skills compendium:'' # concat (map compendium_entry (sort_key sk_id all_skills)))"

definition render_skill_detail :: "skill_def \<Rightarrow> nat \<Rightarrow> string" where
  "render_skill_detail d rank =
     crlf_lines
       ([''skill:'', '' - id: '' @ sk_id d, '' - name: '' @ sk_display d,
         '' - classes: '' @ join_with '', '' (map class_as_str (sk_classes d))] @
        (if sk_aliases d = [] then [] else ['' - aliases: '' @ join_with '', '' (sk_aliases d)]) @
        ['' - cooldown_ms: '' @ show_nat (sk_cooldown_ms d)] @
        (if sk_cost_mana d > 0 then ['' - cost_mana: '' @ show_int (sk_cost_mana d)] else []) @
        (if sk_cost_stamina d > 0 then ['' - cost_stamina: '' @ show_int (sk_cost_stamina d)] else []) @
        (if skill_stun_ms d > 0 then ['' - stun_ms: '' @ show_nat (skill_stun_ms d)] else []) @
        ['' - target: '' @
           (case sk_target d of CombatTarget \<Rightarrow> ''combat_target'' | SelfOnly \<Rightarrow> ''self''),
         '' - trained_rank: '' @ (if rank = 0 then ''(untrained)'' else show_nat rank)] @
        (if sk_tags d = [] then [] else ['' - tags: '' @ join_with '', '' (sk_tags d)]) @
        (if trim (sk_description d) = [] then [] else ['' - description: '' @ sk_description d]) @
        (if trim (sk_flavor d) = [] then [] else ['' - flavor: '' @ sk_flavor d]))"

section \<open>The shard itself\<close>

definition fmt_uptime :: "nat \<Rightarrow> string" where
  "fmt_uptime secs =
     show_nat (secs div 86400) @ ''d '' @ show_nat (secs mod 86400 div 3600) @ ''h '' @
     show_nat (secs mod 3600 div 60) @ ''m '' @ show_nat (secs mod 60) @ ''s''"

definition render_uptime :: "nat \<Rightarrow> nat \<Rightarrow> nat \<Rightarrow> world \<Rightarrow> string" where
  "render_uptime now_unix started_unix up w =
     crlf_lines
       [''uptime:'', '' - shard_wall_unix: '' @ show_nat now_unix,
        '' - shard_started_unix: '' @ show_nat started_unix,
        '' - shard_uptime: '' @ fmt_uptime up,
        '' - world_time_ms: '' @ show_nat (w_now_ms w)]"

text \<open>\<open>opt\<close> is what the build recorded under a name (\<open>option_env!\<close>).\<close>

definition render_buildinfo :: "string \<Rightarrow> (string \<Rightarrow> string option) \<Rightarrow> string" where
  "render_buildinfo version opt =
     (let known = (\<lambda>k. opt_or ''unknown'' (opt k)) in
      crlf_lines
        [''buildinfo:'', '' - version: '' @ version,
         '' - git: '' @ known ''SLOPMUD_GIT_SHA'' @
           (if opt_or ''0'' (opt ''SLOPMUD_GIT_DIRTY'') = ''1'' then '' (dirty)'' else []),
         '' - built_at_utc: '' @ known ''SLOPMUD_BUILD_UTC'',
         '' - built_at_unix: '' @ known ''SLOPMUD_BUILD_UNIX'',
         '' - profile: '' @ known ''SLOPMUD_PROFILE''])"

end
