(* ===== verification/Utf8.thy ===== *)
theory Utf8
  imports RustStr
begin

text \<open>
  \<open>String::from_utf8_lossy\<close>: the well-formed UTF-8 sequences of a byte string are kept, and
  every maximal piece that starts like one but breaks off, or cannot start one, becomes the
  replacement character. The shard reads names and command lines this way.
\<close>

text \<open>The ranges of the bytes after a first byte, by the table of well-formed sequences.\<close>

definition utf8_tails :: "nat \<Rightarrow> (nat \<times> nat) list option" where
  "utf8_tails b =
     (let cont = (0x80, 0xBF) in
      if b < 0x80 then Some []
      else if 0xC2 \<le> b \<and> b \<le> 0xDF then Some [cont]
      else if b = 0xE0 then Some [(0xA0, 0xBF), cont]
      else if b = 0xED then Some [(0x80, 0x9F), cont]
      else if 0xE1 \<le> b \<and> b \<le> 0xEF then Some [cont, cont]
      else if b = 0xF0 then Some [(0x90, 0xBF), cont, cont]
      else if 0xF1 \<le> b \<and> b \<le> 0xF3 then Some [cont, cont, cont]
      else if b = 0xF4 then Some [(0x80, 0x8F), cont, cont]
      else None)"

text \<open>How many bytes match the ranges, one after another.\<close>

fun match_tails :: "(nat \<times> nat) list \<Rightarrow> string \<Rightarrow> nat" where
  "match_tails ((lo, hi) # rs) (c # s) =
     (if lo \<le> of_char c \<and> of_char c \<le> hi then Suc (match_tails rs s) else 0)"
| "match_tails _ _ = 0"

text \<open>The first piece of a non-empty string: its length, and whether it is well formed.\<close>

definition utf8_piece :: "char \<Rightarrow> string \<Rightarrow> nat \<times> bool" where
  "utf8_piece c s =
     (case utf8_tails (of_char c) of
        None \<Rightarrow> (1, False)
      | Some rs \<Rightarrow> (let n = match_tails rs s in (Suc n, n = length rs)))"

definition replacement_char :: string where
  "replacement_char = [CHR 0xEF, CHR 0xBF, CHR 0xBD]"

lemma utf8_piece_pos: "0 < fst (utf8_piece c s)"
  by (auto simp: utf8_piece_def Let_def split: option.split)

function utf8_lossy :: "string \<Rightarrow> string" where
  "utf8_lossy [] = []"
| "utf8_lossy (c # s) =
     (let (n, ok) = utf8_piece c s in
      (if ok then take n (c # s) else replacement_char) @ utf8_lossy (drop n (c # s)))"
  by pat_completeness auto

termination
proof (relation "measure length")
  show "(drop n (c # s), c # s) \<in> measure length" if "x = utf8_piece c s" "(n, ok) = x" for c s x n ok
  proof -
    from that have "0 < n" using utf8_piece_pos [of c s] by (metis fst_conv)
    then show ?thesis by (cases n) (auto simp: less_Suc_eq_le)
  qed
qed simp

declare utf8_lossy.simps(2) [simp del]

text \<open>\<open>chars().count()\<close> of well-formed text: the bytes that start a character.\<close>

definition is_cont :: "char \<Rightarrow> bool" where
  "is_cont c \<longleftrightarrow> 0x80 \<le> (of_char c :: nat) \<and> (of_char c :: nat) < 0xC0"

definition char_count :: "string \<Rightarrow> nat" where
  "char_count s = length (filter (\<lambda>c. \<not> is_cont c) s)"

text \<open>\<open>chars().take(n)\<close>, collected.\<close>

fun take_chars :: "nat \<Rightarrow> string \<Rightarrow> string" where
  "take_chars n [] = []"
| "take_chars n (c # s) =
     (if is_cont c then c # take_chars n s
      else case n of 0 \<Rightarrow> [] | Suc m \<Rightarrow> c # take_chars m s)"

text \<open>Well-formed text.\<close>

function utf8_valid :: "string \<Rightarrow> bool" where
  "utf8_valid [] = True"
| "utf8_valid (c # s) =
     (let (n, ok) = utf8_piece c s in ok \<and> utf8_valid (drop n (c # s)))"
  by pat_completeness auto

termination
proof (relation "measure length")
  show "(drop n (c # s), c # s) \<in> measure length" if "x = utf8_piece c s" "(n, ok) = x" for c s x n ok
  proof -
    from that have "0 < n" using utf8_piece_pos [of c s] by (metis fst_conv)
    then show ?thesis by (cases n) (auto simp: less_Suc_eq_le)
  qed
qed simp

declare utf8_valid.simps(2) [simp del]

lemma match_tails_le: "match_tails rs s \<le> length rs"
  by (induction rs s rule: match_tails.induct) auto

lemma match_tails_take: "match_tails rs s = length rs \<Longrightarrow> match_tails rs (take (length rs) s @ t) = length rs"
  by (induction rs s rule: match_tails.induct) (auto split: if_splits)

lemma match_tails_append: "match_tails rs s = length rs \<Longrightarrow> match_tails rs (s @ t) = length rs"
  by (induction rs s rule: match_tails.induct) (auto split: if_splits)

lemma match_tails_len: "match_tails rs s \<le> length s"
  by (induction rs s rule: match_tails.induct) auto

lemma utf8_lossy_id: "utf8_valid s \<Longrightarrow> utf8_lossy s = s"
proof (induction s rule: utf8_valid.induct)
  case (2 c s)
  obtain n ok where p: "utf8_piece c s = (n, ok)" by force
  with "2.prems" have ok: "ok" "utf8_valid (drop n (c # s))" by (simp_all add: utf8_valid.simps)
  have "utf8_lossy (drop n (c # s)) = drop n (c # s)"
    by (rule "2.IH" [OF refl p [symmetric] ok(2)])
  with p ok(1) have "utf8_lossy (c # s) = take n (c # s) @ drop n (c # s)" by (simp add: utf8_lossy.simps)
  then show ?case by (simp only: append_take_drop_id)
qed simp

text \<open>A well-formed piece stays one, whatever comes after it.\<close>

lemma utf8_valid_piece:
  assumes "utf8_piece c s = (n, True)" "utf8_valid t"
  shows "utf8_valid (take n (c # s) @ t)"
proof -
  obtain rs where rs: "utf8_tails (of_char c) = Some rs" "n = Suc (length rs)" "match_tails rs s = length rs"
    using assms(1) by (auto simp: utf8_piece_def Let_def split: option.splits)
  have len: "length (take (length rs) s) = length rs" using match_tails_len [of rs s] rs by simp
  have "utf8_piece c (take (length rs) s @ t) = (n, True)"
    using rs match_tails_take [OF rs(3), of t] by (simp add: utf8_piece_def)
  moreover have "drop n (c # take (length rs) s @ t) = t" using rs len by simp
  ultimately show ?thesis using assms(2) rs by (simp add: utf8_valid.simps)
qed

lemma utf8_lossy_valid: "utf8_valid (utf8_lossy s)"
proof (induction s rule: utf8_lossy.induct)
  case (2 c s)
  obtain n ok where p: "utf8_piece c s = (n, ok)" by force
  have IH: "utf8_valid (utf8_lossy (drop n (c # s)))"
    by (rule "2.IH" [OF refl p [symmetric]])
  show ?case
  proof (cases ok)
    case True
    with p utf8_valid_piece [OF _ IH, of c s n] show ?thesis by (simp add: utf8_lossy.simps)
  next
    case False
    have r: "utf8_piece (CHR 0xEF) [CHR 0xBF, CHR 0xBD] = (3, True)" by code_simp
    have "utf8_valid (take 3 [CHR 0xEF, CHR 0xBF, CHR 0xBD] @ utf8_lossy (drop n (c # s)))"
      by (rule utf8_valid_piece [OF r IH])
    with p False show ?thesis by (simp add: utf8_lossy.simps replacement_char_def)
  qed
qed simp

end
