(* ===== verification/Commands.thy ===== *)
theory Commands
  imports Looks Utf8
begin

text \<open>
  The frame of \<open>handle_broker\<close> (\<open>apps/shard_01/src/main.rs\<close>): attaching and detaching a
  session, the confirmation a session may owe, and the first commands, up to the list of
  groups.

  The handler of an input line is a long sequence of tests, each ending in \<open>continue\<close>. A command
  is one of these tests with its body: \<open>None\<close> when the line is not for it, otherwise the world
  after it. It is given the session, the character that was active when the line arrived and
  the trimmed line. \<open>shard_env\<close> is what is not the shard's own: the build, the clock outside
  the world's, environment variables, the files of adventures, \<open>serde_json\<close>, the OpenAI
  service.
\<close>

section \<open>What a command is\<close>

record shard_env =
  en_to_json :: "group_log_entry raft_envelope \<Rightarrow> string"
  en_read_auth :: "string \<Rightarrow> auth_blob option"
  en_read_file :: "string \<Rightarrow> string option"
  en_list_files :: "string list option"
  en_var :: "string \<Rightarrow> string option"
  en_version :: string
  en_build :: "string \<Rightarrow> string option"
  en_unix :: nat
  en_started_unix :: nat
  en_up_secs :: nat
  en_raft_path :: string
  en_ai_models :: "string \<Rightarrow> string \<Rightarrow> string + nat"
  en_ai_chat :: "string \<Rightarrow> string \<Rightarrow> string \<Rightarrow> string \<Rightarrow> string + string"
  en_ai_ms :: nat

type_synonym command = "hash_orders \<Rightarrow> nat \<Rightarrow> character \<Rightarrow> string \<Rightarrow> world \<Rightarrow> world option"

text \<open>The sequence of tests: the first command that takes the line.\<close>

fun first_of :: "command list \<Rightarrow> command" where
  "first_of [] ho session p line w = None"
| "first_of (c # cs) ho session p line w =
     (case c ho session p line w of Some w' \<Rightarrow> Some w' | None \<Rightarrow> first_of cs ho session p line w)"

definition reply :: "nat \<Rightarrow> string \<Rightarrow> world \<Rightarrow> world" where
  "reply session msg w = say session (msg @ crlf) w"

definition not_attached :: "nat \<Rightarrow> world \<Rightarrow> world" where
  "not_attached session w = say_error session (''not attached'' @ crlf) w"

text \<open>
  \<open>process_due_events\<close> run to its end. By \<open>process_due_events_ends\<close> the number of steps
  \<open>due_work\<close> is enough as long as the clock is below the largest \<open>u64\<close> and the two intervals of
  the configuration are positive (\<open>parse_args\<close> makes them at least ten milliseconds); otherwise the
  loop of the code need not end, and the value here has no meaning.
\<close>

definition drain :: "hash_orders \<Rightarrow> world \<Rightarrow> world" where
  "drain ho w = (case process_due_events (due_work w) ho w of None \<Rightarrow> w | Some v \<Rightarrow> v)"

text \<open>\<open>+\<close> on \<open>u64\<close> and \<open>u32\<close> in a release build.\<close>

definition wrap_add64 :: "nat \<Rightarrow> nat \<Rightarrow> nat" where
  "wrap_add64 a b = (a + b) mod 18446744073709551616"

section \<open>Attaching and detaching\<close>

definition removed_by_detach :: "hash_orders \<Rightarrow> nat \<Rightarrow> world \<Rightarrow> character list" where
  "removed_by_detach ho session w =
     (case w_sessions w session of
        None \<Rightarrow> []
      | Some ss \<Rightarrow>
          fst (foldl (\<lambda>(out, w) cid.
                 (out @ (case w_chars w cid of None \<Rightarrow> [] | Some c \<Rightarrow> [c]), detach_char ho cid w))
               ([], w\<lparr>w_sessions := (w_sessions w)(session := None)\<rparr>) (ss_controlled ss)))"

definition on_detach :: "hash_orders \<Rightarrow> nat \<Rightarrow> world \<Rightarrow> world" where
  "on_detach ho session w =
     foldl (\<lambda>w c. broadcast_room ho (c_room_id c) (''* '' @ c_name c @ '' left'') w)
       (detach_session ho session w) (removed_by_detach ho session w)"

text \<open>A build field of the attach: the value it names, if it names one.\<close>

definition build_field :: "(string \<Rightarrow> 'a option) \<Rightarrow> 'a \<Rightarrow> string option \<Rightarrow> 'a" where
  "build_field parse d v =
     opt_or d (Option.bind v (\<lambda>b. parse (to_ascii_lowercase (trim (utf8_lossy b)))))"

record attach_req =
  ar_session :: nat
  ar_is_bot :: bool
  ar_auth :: "string option"
  ar_race :: "string option"
  ar_class :: "string option"
  ar_sex :: "string option"
  ar_pronouns :: "string option"
  ar_name :: string

definition attach_greeting ::
  "string \<Rightarrow> race \<Rightarrow> char_class \<Rightarrow> sex \<Rightarrow> pronoun_key \<Rightarrow> string" where
  "attach_greeting nm rc cls sx pron =
     crlf_lines
       [''hi '' @ nm, ''(type: help, rules, look, stats, kill <mob>, go <exit>, exit)'',
        ''race: '' @ race_as_str rc @ '' | class: '' @ class_as_str cls @ '' | sex: '' @ sex_as_str sx @
        '' | pronouns: '' @ pronoun_as_str pron]"

definition on_attach :: "shard_env \<Rightarrow> hash_orders \<Rightarrow> attach_req \<Rightarrow> world \<Rightarrow> world" where
  "on_attach en ho r w =
     (let nm = trim (utf8_lossy (ar_name r)); session = ar_session r in
      if nm = [] then say_error session (''bad name'' @ crlf) w
      else
        (let prin = principal_from_attach (en_read_auth en) nm (ar_auth r);
             caps = caps_from_attach (en_read_auth en) (ar_auth r);
             w = on_detach ho session w;
             rc = build_field race_parse Human (ar_race r);
             cls = build_field class_parse Fighter (ar_class r);
             sx = build_field sex_parse SexNone (ar_sex r);
             pron = build_field pronoun_parse (default_for_sex sx) (ar_pronouns r);
             (cid, w) = spawn_or_restore_character ho session nm prin caps (ar_is_bot r) rc cls sx pron w
         in case w_chars w cid of
              None \<Rightarrow> w
            | Some c \<Rightarrow>
                (let room_id = c_room_id c;
                     w = broadcast_room ho room_id (''* '' @ nm @ '' joined'') w;
                     w = remember_player_by_id ho cid w
                 in say session
                      (attach_greeting nm rc cls sx pron @ render_room_for ho w room_id session @
                       render_build_prompt c) w)))"

section \<open>A pending confirmation\<close>

definition bot_on :: "nat \<Rightarrow> character \<Rightarrow> character" where
  "bot_on now c =
     (let c = (if c_is_bot c then c else c\<lparr>c_is_bot := True, c_bot_mode_changed_ms := now\<rparr>)
      in if c_bot_ever c then c else c\<lparr>c_bot_ever := True, c_bot_ever_since_ms := Some now\<rparr>)"

definition clear_pending :: "nat \<Rightarrow> world \<Rightarrow> world" where
  "clear_pending session w =
     w\<lparr>w_sessions := (w_sessions w)(session :=
        map_option (\<lambda>ss. ss\<lparr>ss_pending_confirm := None\<rparr>) (w_sessions w session))\<rparr>"

definition cmd_confirm :: command where
  "cmd_confirm ho session p line w =
     (case Option.bind (w_sessions w session) ss_pending_confirm of
        None \<Rightarrow> None
      | Some (BotOn cid) \<Rightarrow>
          (let lc = to_ascii_lowercase line; cleared = clear_pending session w in
           if lc \<in> {''yes'', ''y''} then
             (case w_chars w cid of
                Some c \<Rightarrow>
                  (if c_controller c = Some session
                   then Some (reply session ''bot: on'' (upd_char cid (bot_on (w_now_ms w)) cleared))
                   else Some (reply session ''bot: request expired'' cleared))
              | None \<Rightarrow> Some (reply session ''bot: request expired'' cleared))
           else if lc \<in> {''no'', ''n'', ''cancel''} then Some (reply session ''bot: cancelled'' cleared)
           else Some (reply session ''bot: type: yes | no'' w)))"

section \<open>Information\<close>

definition cmd_info :: "shard_env \<Rightarrow> command" where
  "cmd_info en ho session p line w =
     (let lc = to_ascii_lowercase line in
      if lc = ''help'' then Some (say session help_text w)
      else if lc = ''areas'' then Some (say session (render_areas (ho_str ho) (w_rooms w)) w)
      else if lc \<in> {''rules'', ''coc'', ''code_of_conduct''} then Some (say session rules_text w)
      else if lc = ''buildinfo'' then Some (say session (render_buildinfo (en_version en) (en_build en)) w)
      else None)"

definition env_or :: "shard_env \<Rightarrow> string \<Rightarrow> string \<Rightarrow> string" where
  "env_or en k d = (case en_var en k of None \<Rightarrow> d | Some v \<Rightarrow> if trim v = [] then d else v)"

definition ai_report ::
  "string \<Rightarrow> string \<Rightarrow> string + nat \<Rightarrow> string + string \<Rightarrow> nat \<Rightarrow> string" where
  "ai_report base model models chat ms =
     crlf_lines
       [''aiping:'',
        '' - base: '' @ rev (dropWhile (\<lambda>c. c = CHR ''/'') (rev base)),
        '' - model: '' @ model,
        (case models of
           Inr n \<Rightarrow> '' - models: ok ('' @ show_nat n @ '')''
         | Inl e \<Rightarrow> '' - models: err ('' @ e @ '')''),
        (case chat of
           Inr txt \<Rightarrow>
             (let one = concat (map (\<lambda>c. if c = CHR 0x0A then [CHR 0x5C, CHR ''n''] else [c])
                          (filter (\<lambda>c. c \<noteq> CHR 0x0D) txt));
                  out = (if char_count one > 200 then take_chars 200 one @ '' [truncated]'' else one)
              in '' - chat: ok ('' @ out @ '')'')
         | Inl e \<Rightarrow> '' - chat: err ('' @ e @ '')''),
        '' - ms: '' @ show_nat ms]"

definition cmd_aiping :: "shard_env \<Rightarrow> command" where
  "cmd_aiping en ho session p line w =
     (let lc = to_ascii_lowercase line in
      if lc = ''aiping'' \<or> prefix ''aiping '' lc \<or> lc = ''ai ping'' \<or> prefix ''ai ping '' lc then
        (if \<not> is_admin ho w p then Some (reply session ''nope: admin.all'' w)
         else
           (let sfx = (if prefix ''aiping'' lc then drop 6 line else drop 7 line);
                prompt = (if trim sfx = [] then ''hey are you there? reply with exactly: pong''
                          else trim sfx);
                base = env_or en ''OPENAI_API_BASE'' ''https://api.openai.com/v1'';
                model = env_or en ''OPENAI_PING_MODEL'' ''gpt-4o-mini''
            in case en_var en ''OPENAI_API_KEY'' of
                 None \<Rightarrow> Some (reply session ''aiping: missing OPENAI_API_KEY'' w)
               | Some key \<Rightarrow>
                   (if trim key = [] then Some (reply session ''aiping: missing OPENAI_API_KEY'' w)
                    else Some (say session
                      (ai_report base model (en_ai_models en base key)
                         (en_ai_chat en base key model prompt) (en_ai_ms en)) w))))
      else None)"

definition cmd_uptime :: "shard_env \<Rightarrow> command" where
  "cmd_uptime en ho session p line w =
     (if to_ascii_lowercase line = ''uptime'' then
        Some (say session (render_uptime (en_unix en) (en_started_unix en) (en_up_secs en) w) w)
      else None)"

section \<open>One's own capabilities and groups\<close>

definition dash_rows :: "string list \<Rightarrow> string list" where
  "dash_rows rows = (if rows = [] then ['' - (none)''] else map (\<lambda>r. '' - '' @ r) rows)"

definition cmd_caps :: command where
  "cmd_caps ho session p line w =
     (let lc = to_ascii_lowercase line in
      if lc \<in> {''caps'', ''capabilities'', ''caps me''} then
        (let caps = effective_caps_for ho w p in
         Some (say session (crlf_lines ([''caps:''] @
           dash_rows (sort (map capability_as_str (filter (\<lambda>c. c \<in> caps) capability_all))) @
           [''try: caps list''])) w))
      else if lc = ''caps list'' then
        Some (say session (crlf_lines (''capabilities:'' #
          map (\<lambda>c. '' - '' @ capability_as_str c) capability_all)) w)
      else None)"

definition my_group_row :: "character \<Rightarrow> group \<Rightarrow> string option" where
  "my_group_row p g =
     (case role_in_group g (to_ascii_lowercase (c_principal p)) (class_token p) of
        None \<Rightarrow> None
      | Some r \<Rightarrow> Some ('' - '' @ show_nat (g_id g) @ '': '' @ g_name g @ '' ('' @ group_role_as_str r @ '')'' @ crlf))"

definition cmd_groups :: command where
  "cmd_groups ho session p line w =
     (if to_ascii_lowercase line = ''groups'' then
        (let rows = List.map_filter (my_group_row p) (map_values (ho_nat ho) (gs_groups (w_groups w))) in
         Some (say session (''groups:'' @ crlf @
           (if rows = [] then '' - (none)'' @ crlf else concat (sort rows)) @
           ''try: group list'' @ crlf) w))
      else None)"

section \<open>The contract of a command\<close>

text \<open>
  Two conditions on a request: party identifiers are left, and a character accepts an
  invitation only while it is in no party (the code does not check this, and a character that
  accepts a second one stays a member of its first party).
\<close>

definition well_asked :: "nat \<Rightarrow> string \<Rightarrow> world \<Rightarrow> bool" where
  "well_asked session line w \<longleftrightarrow>
     w_next_party_id w < u64_max \<and>
     (to_ascii_lowercase line = ''party accept'' \<longrightarrow>
        (\<forall>cid. active_char_id w session = Some cid \<longrightarrow> w_party_of w cid = None))"

text \<open>
  An operation grows the character identifiers and keeps the world consistent, unless they run
  out. Since they never shrink, it is enough to ask that they have not run out at the end.
\<close>

definition grows :: "world \<Rightarrow> world \<Rightarrow> bool" where
  "grows w w' \<longleftrightarrow>
     (w_next_char_id w' < u64_max \<longrightarrow>
        w_next_char_id w \<le> w_next_char_id w' \<and> (world_ok w \<longrightarrow> world_ok w'))"

locale world_command =
  fixes cmd :: command
  assumes keeps: "orders_ok ho \<Longrightarrow> active_char w session = Some p \<Longrightarrow> well_asked session line w \<Longrightarrow>
    cmd ho session p line w = Some w' \<Longrightarrow> grows w w'"

lemma growsI: "w_next_char_id w' = w_next_char_id w \<Longrightarrow> (world_ok w \<Longrightarrow> world_ok w') \<Longrightarrow> grows w w'"
  by (simp add: grows_def)

lemma grows_refl [simp]: "grows w w"
  by (simp add: grows_def)

lemma grows_trans: "grows w v \<Longrightarrow> grows v u \<Longrightarrow> grows w u"
  unfolding grows_def by (meson le_less_trans le_trans)

lemma grows_foldl: "(\<And>w x. grows w (f w x)) \<Longrightarrow> grows w (foldl f w xs)"
  by (induction xs arbitrary: w) (auto intro: grows_trans)

lemma reply_frame [simp]:
  "world_ok (reply session msg w) = world_ok w" "w_chars (reply session msg w) = w_chars w"
  "w_next_char_id (reply session msg w) = w_next_char_id w"
  by (simp_all add: reply_def)

lemma not_attached_frame [simp]:
  "world_ok (not_attached session w) = world_ok w"
  "w_next_char_id (not_attached session w) = w_next_char_id w"
  by (simp_all add: not_attached_def)

lemma grows_out [simp]:
  "grows w (say sid msg v) = grows w v" "grows w (say_error sid msg v) = grows w v"
  "grows w (broadcast sids msg v) = grows w v" "grows w (broadcast_room ho r msg v) = grows w v"
  "grows w (broadcast_all_sessions ho msg v) = grows w v" "grows w (broadcast_raft ho msg v) = grows w v"
  "grows w (party_send ho pid msg v) = grows w v" "grows w (reply sid msg v) = grows w v"
  "grows w (not_attached sid v) = grows w v"
  by (simp_all add: grows_def)

lemma first_of_keeps: "list_all world_command cs \<Longrightarrow> world_command (first_of cs)"
proof (induction cs)
  case Nil
  show ?case by unfold_locales simp
next
  case (Cons c cs)
  then have c: "world_command c" "world_command (first_of cs)" by simp_all
  show ?case
  proof
    fix ho w session p line w'
    assume a: "orders_ok ho" "active_char w session = Some p" "well_asked session line w"
      "first_of (c # cs) ho session p line w = Some w'"
    show "grows w w'"
    proof (cases "c ho session p line w")
      case None
      with a show ?thesis using world_command.keeps [OF c(2) a(1-3)] by simp
    next
      case (Some v)
      with a show ?thesis using world_command.keeps [OF c(1) a(1-3)] by simp
    qed
  qed
qed

section \<open>Draining the timer queue\<close>

lemma sat_Suc_less: "sat_add64 n 1 < u64_max \<Longrightarrow> n < u64_max \<and> sat_add64 n 1 = Suc n"
  by (simp add: num_defs split: if_splits)

text \<open>An operation that takes one identifier.\<close>

lemma grows_one:
  assumes "w_next_char_id v = sat_add64 (w_next_char_id w) 1"
    "world_ok w \<Longrightarrow> w_next_char_id w < u64_max \<Longrightarrow> world_ok v"
  shows "grows w v"
  unfolding grows_def
proof (intro impI conjI)
  assume "w_next_char_id v < u64_max"
  with assms(1) sat_Suc_less [of "w_next_char_id w"]
  have *: "w_next_char_id w < u64_max" "w_next_char_id v = Suc (w_next_char_id w)" by simp_all
  then show "w_next_char_id w \<le> w_next_char_id v" by simp
  show "world_ok v" if "world_ok w" using assms(2) that * by blast
qed

lemma grows_spawn:
  "grows w (snd (spawn_mob r nm w))" "grows w (snd (spawn_stenchworm r w))"
  by (rule grows_one; simp add: spawn_mob_ok spawn_stenchworm_ok)+

lemma grows_schedule: "grows w (schedule_in_ms d k w)"
  by (rule growsI) auto

lemma handle_event_grows:
  assumes "orders_ok ho"
  shows "grows w (handle_event ho k w)"
proof (cases k)
  case EvEnsureTavernMob
  let ?w = "schedule_in_ms 60000 EvEnsureTavernMob w"
  have "grows w (snd (spawn_mob room_tavern ''bartender'' ?w))"
    by (rule grows_trans [OF grows_schedule grows_spawn(1)])
  then have "grows w (on_ensure_tavern_mob ho w)"
    using grows_schedule [of w]
    by (auto simp: on_ensure_tavern_mob_def Let_def case_prod_beta grows_def)
  then show ?thesis by (simp add: EvEnsureTavernMob)
next
  case EvEnsureFirstFightWorm
  let ?w = "schedule_in_ms 5000 EvEnsureFirstFightWorm w"
  have "grows w (snd (spawn_stenchworm room_first_fight ?w))"
    by (rule grows_trans [OF grows_schedule grows_spawn(2)])
  then have "grows w (on_ensure_first_fight_worm ho w)"
    using grows_schedule [of w]
    by (auto simp: on_ensure_first_fight_worm_def Let_def grows_def)
  then show ?thesis by (simp add: EvEnsureFirstFightWorm)
next
  case EvEnsureClassHallMobs
  have "grows v (ensure_npc ho v rn)" for v rn
    by (simp add: ensure_npc_def grows_spawn)
  then show ?thesis
    unfolding EvEnsureClassHallMobs handle_event.simps on_ensure_class_hall_mobs_def
    by (intro grows_trans [OF grows_schedule grows_foldl])
next
  case (EvCombatAct a)
  have s: "w_next_char_id v = w_next_char_id w" if "strike ho a att t tgt w = (k, v)" for att t tgt k v
    using strike_ids [of ho a att t tgt w] that by simp
  have "w_next_char_id (on_combat_act ho a w) = w_next_char_id w"
    by (auto simp: on_combat_act_def stop_fighting_def Let_def s split: option.split prod.split)
  with assms show ?thesis by (auto simp: EvCombatAct intro: growsI on_combat_act_ok)
next
  case (EvBossResolve b sq)
  have "w_next_char_id (crush ho b w v) = w_next_char_id w" for w v
    by (simp add: crush_def Let_def)
  then have "w_next_char_id (on_boss_resolve ho b sq w) = w_next_char_id w"
    by (simp add: on_boss_resolve_def drop_boss_def Let_def id_foldl split: option.split)
  then show ?thesis by (auto simp: EvBossResolve intro: growsI on_boss_resolve_ok)
next
  case (EvPartyBuildNext pid)
  have "w_next_char_id (enter_run r w m) = w_next_char_id w"
    "w_next_char_id (show_run ho r w m) = w_next_char_id w" for r w m
    by (simp_all add: enter_run_def show_run_def split: option.split)
  then have "w_next_char_id (on_party_build_next ho pid w) = w_next_char_id w"
    by (simp add: on_party_build_next_def Let_def id_foldl split: option.split prod.split)
  then show ?thesis by (auto simp: EvPartyBuildNext intro: growsI on_party_build_next_ok)
next
  case (EvMobWander m)
  have "w_next_char_id (on_mob_wander ho m w) = w_next_char_id w"
    by (simp add: on_mob_wander_def Let_def case_prod_beta split: option.split)
  then show ?thesis by (auto simp: EvMobWander intro: growsI on_mob_wander_ok)
next
  case (EvBossTelegraph b)
  have "w_next_char_id (on_boss_telegraph ho b w) = w_next_char_id w"
    by (simp add: on_boss_telegraph_def drop_boss_def Let_def split: option.split)
  then show ?thesis by (auto simp: EvBossTelegraph intro: growsI on_boss_telegraph_ok)
next
  case EvBartenderEmote
  have "w_next_char_id (on_bartender_emote ho w) = w_next_char_id w"
    by (simp add: on_bartender_emote_def Let_def case_prod_beta split: option.split)
  then show ?thesis by (auto simp: EvBartenderEmote intro: growsI on_bartender_emote_ok)
next
  case EvTick
  have "w_next_char_id (on_tick w) = w_next_char_id w" by (simp add: on_tick_def Let_def)
  then show ?thesis by (auto simp: EvTick intro: growsI)
qed (auto intro: growsI)

lemma pop_due_grows: "pop_due_event w = Some (e, v) \<Longrightarrow> grows w v"
  by (rule growsI) (auto simp: pop_due_event_def intro: pop_due_ok split: list.splits if_splits)

lemma process_due_grows:
  "orders_ok ho \<Longrightarrow> process_due_events n ho w = Some v \<Longrightarrow> grows w v"
proof (induction n arbitrary: w)
  case 0
  then show ?case by (auto simp: process_due_events.simps [of 0] split: option.splits)
next
  case (Suc n)
  show ?case
  proof (cases "pop_due_event w")
    case None
    with Suc.prems show ?thesis by (simp add: process_due_events.simps [of "Suc n"])
  next
    case (Some ev)
    then obtain e u where ev: "pop_due_event w = Some (e, u)" by (cases ev) simp
    with Suc.prems have "grows (handle_event ho (se_kind e) u) v"
      by (intro Suc.IH) (simp_all add: process_due_events.simps [of "Suc n"])
    with pop_due_grows [OF ev] handle_event_grows [OF Suc.prems(1)] show ?thesis
      by (blast intro: grows_trans)
  qed
qed

lemma drain_grows: "orders_ok ho \<Longrightarrow> grows w (drain ho w)"
  by (auto simp: drain_def split: option.split intro: process_due_grows)

section \<open>The commands above\<close>

definition controls :: "(nat \<rightharpoonup> session_state) \<Rightarrow> nat \<Rightarrow> nat \<Rightarrow> bool" where
  "controls ss sid cid \<longleftrightarrow> (\<exists>s. ss sid = Some s \<and> cid \<in> set (ss_controlled s))"

lemma sess_ok_controls:
  "sess_ok ss chars n \<longleftrightarrow>
     (\<forall>cid c sid. chars cid = Some c \<and> c_controller c = Some sid \<longrightarrow> controls ss sid cid) \<and>
     (\<forall>sid cid. controls ss sid cid \<longrightarrow>
        cid < n \<and> (\<forall>c. chars cid = Some c \<longrightarrow> c_controller c = Some sid))"
  unfolding sess_ok_def controls_def by blast

lemma sess_ok_cong:
  assumes "\<And>sid. map_option ss_controlled (ss' sid) = map_option ss_controlled (ss sid)"
  shows "sess_ok ss' chars n = sess_ok ss chars n"
proof -
  have "controls ss' sid cid = controls ss sid cid" for sid cid
    using assms [of sid] by (cases "ss sid"; cases "ss' sid") (auto simp: controls_def)
  then show ?thesis unfolding sess_ok_controls by simp
qed

lemma sessions_upd_ok:
  assumes "world_ok w" "\<And>sid. map_option ss_controlled (ss' sid) = map_option ss_controlled (w_sessions w sid)"
  shows "world_ok (w\<lparr>w_sessions := ss'\<rparr>)"
  using assms by (simp add: world_ok_def sess_ok_cong [OF assms(2)])

lemma clear_pending_ok [intro]: "world_ok w \<Longrightarrow> world_ok (clear_pending session w)"
  unfolding clear_pending_def by (rule sessions_upd_ok) (auto simp: option.map_comp comp_def)

lemma clear_pending_frame [simp]:
  "w_chars (clear_pending session w) = w_chars w"
  "w_next_char_id (clear_pending session w) = w_next_char_id w"
  by (simp_all add: clear_pending_def)

lemma bot_on_tame [simp]: "tame (bot_on now)"
  by (simp add: tame_def bot_on_def Let_def)

lemma cmd_confirm_keeps: "world_command cmd_confirm"
  by unfold_locales
    (auto intro!: growsI upd_tame_ok simp: cmd_confirm_def Let_def
      split: option.splits pending_confirm.splits if_splits)

lemma cmd_info_keeps: "world_command (cmd_info en)"
  by unfold_locales (auto intro!: growsI simp: cmd_info_def Let_def split: if_splits)

lemma cmd_aiping_keeps: "world_command (cmd_aiping en)"
  by unfold_locales
    (auto intro!: growsI simp: cmd_aiping_def Let_def split: if_splits option.splits)

lemma cmd_uptime_keeps: "world_command (cmd_uptime en)"
  by unfold_locales (auto intro!: growsI simp: cmd_uptime_def split: if_splits)

lemma cmd_caps_keeps: "world_command cmd_caps"
  by unfold_locales (auto intro!: growsI simp: cmd_caps_def Let_def split: if_splits)

lemma cmd_groups_keeps: "world_command cmd_groups"
  by unfold_locales (auto intro!: growsI simp: cmd_groups_def Let_def split: if_splits)

end
