(* ===== verification/GroupCmds.thy ===== *)
theory GroupCmds
  imports Commands
begin

text \<open>
  The commands that show and change groups, and those that show the shard's log
  (\<open>handle_broker\<close> in \<open>apps/shard_01/src/main.rs\<close>). A change is an entry of the log first; the
  watchers of the log see it. When the entry cannot be logged the handler returns the error: nothing
  is applied, shown or answered (\<open>w_failed\<close>).
\<close>

section \<open>Looking at groups\<close>

definition group_usage :: string where
  "group_usage =
     ''huh? (try: group list | group show <id|name> | group create <kind> <name> | group add <group> <player> [role] | group remove <group> <player> | group role <group> <player> <role> | group policy set <group> <key> <value> | group policy del <group> <key> | group rolecaps set <group> <role> <cap...>)''"

definition cmd_group_list :: command where
  "cmd_group_list ho session p line w =
     (let lc = to_ascii_lowercase line in
      if lc = ''group'' then Some (reply session group_usage w)
      else if lc = ''group list'' then
        (let rows = map (\<lambda>g. '' - '' @ show_nat (g_id g) @ '': '' @ g_name g @ '' ('' @
                        group_kind_as_str (g_kind g) @ '')'' @ crlf)
                      (map_values (ho_nat ho) (gs_groups (w_groups w)))
         in Some (say session (''groups:'' @ crlf @ concat (sort rows)) w))
      else None)"

definition cmd_group_show :: command where
  "cmd_group_show ho session p line w =
     (case strip_prefix ''group show '' (to_ascii_lowercase line) of
        None \<Rightarrow> None
      | Some rest \<Rightarrow>
          (case resolve_group_id w (trim rest) of
             None \<Rightarrow> Some (reply session ''huh? (try: group show <id|name>)'' w)
           | Some gid \<Rightarrow>
               Some (say session (render_group ho (\<lambda>s. filter (\<lambda>c. c \<in> s) capability_all) w gid) w)))"

section \<open>Changing groups\<close>

definition log_group_change :: "shard_env \<Rightarrow> hash_orders \<Rightarrow> group_log_entry \<Rightarrow> world \<Rightarrow> world" where
  "log_group_change en ho entry w =
     (let env = \<lparr>re_index = rl_next_index (w_raft w), re_ms = w_now_ms w, re_entry = entry\<rparr>;
          w = raft_append_group (en_to_json en) (ho_raft_io ho) entry w
      in if w_failed w then w
         else broadcast_raft ho (''raft['' @ show_nat (re_index env) @ ''] '' @ en_to_json en env) w)"

text \<open>What is answered once the change is logged.\<close>

definition logged_reply :: "nat \<Rightarrow> string \<Rightarrow> world \<Rightarrow> world" where
  "logged_reply session msg w = (if w_failed w then w else reply session msg w)"

definition fresh_group_id :: "hash_orders \<Rightarrow> group_store \<Rightarrow> nat" where
  "fresh_group_id ho st =
     (let max_id = (case map_keys (ho_nat ho) (gs_groups st) of [] \<Rightarrow> 1999 | k # ks \<Rightarrow> foldl max k ks)
      in max (wrap_add64 max_id 1) 2000)"

definition cmd_group_create :: "shard_env \<Rightarrow> command" where
  "cmd_group_create en ho session p line w =
     (case strip_prefix ''group create '' line of
        None \<Rightarrow> None
      | Some rest \<Rightarrow>
          (if \<not> has_cap ho w p GroupCreateCap then Some (reply session ''nope: group.create'' w)
           else
             (case split_whitespace (trim rest) of
                kind_tok # name_tok # _ \<Rightarrow>
                  (case group_kind_parse kind_tok of
                     None \<Rightarrow> Some (reply session ''huh? (kind: admin | guild | custom | class:<class>)'' w)
                   | Some kind \<Rightarrow>
                       (let nm = trim name_tok in
                        if nm = [] then Some (reply session ''huh? (bad name)'' w)
                        else if gs_group_ids_by_name (w_groups w) (to_ascii_lowercase nm) \<noteq> None then
                          Some (reply session ''group: name already exists'' w)
                        else
                          (let gid = fresh_group_id ho (w_groups w);
                               w = log_group_change en ho (GroupCreate gid kind nm) w;
                               w = (case kind of
                                      KindClass _ \<Rightarrow> w
                                    | _ \<Rightarrow> log_group_change en ho (GroupMemberSet gid (c_name p) (Some Owner)) w)
                           in Some (logged_reply session (''group: created '' @ show_nat gid @ '' ('' @ nm @ '')'') w))))
              | _ \<Rightarrow> Some (reply session ''huh? (try: group create <kind> <name>)'' w))))"

text \<open>What \<open>group add\<close>, \<open>remove\<close> and \<open>role\<close> share: a group, a capability in it, an entry.\<close>

definition in_group ::
  "hash_orders \<Rightarrow> nat \<Rightarrow> character \<Rightarrow> string \<Rightarrow> capability \<Rightarrow> (nat \<Rightarrow> world) \<Rightarrow> world \<Rightarrow> world" where
  "in_group ho session p group_tok cap body w =
     (case resolve_group_id w group_tok of
        None \<Rightarrow> reply session ''huh? (bad group)'' w
      | Some gid \<Rightarrow>
          (if \<not> has_group_cap ho w p gid cap then reply session (''nope: '' @ capability_as_str cap) w
           else body gid))"

definition cmd_group_add :: "shard_env \<Rightarrow> command" where
  "cmd_group_add en ho session p line w =
     (case strip_prefix ''group add '' line of
        None \<Rightarrow> None
      | Some rest \<Rightarrow>
          Some (case split_whitespace (trim rest) of
             group_tok # member_tok # extra \<Rightarrow>
               in_group ho session p group_tok GroupMemberAdd
                 (\<lambda>gid.
                   let role = (case extra of [] \<Rightarrow> Member | t # _ \<Rightarrow> opt_or Member (group_role_parse t));
                       member = normalize_principal_token member_tok;
                       w = log_group_change en ho (GroupMemberSet gid member (Some role)) w
                   in logged_reply session (''group: '' @ show_nat gid @ '' add '' @ member_tok @ '' ('' @
                        group_role_as_str role @ '')'') w) w
           | _ \<Rightarrow> reply session ''huh? (try: group add <group> <player> [role])'' w))"

definition cmd_group_remove :: "shard_env \<Rightarrow> command" where
  "cmd_group_remove en ho session p line w =
     (case strip_prefix ''group remove '' line of
        None \<Rightarrow> None
      | Some rest \<Rightarrow>
          Some (case split_whitespace (trim rest) of
             group_tok # member_tok # _ \<Rightarrow>
               in_group ho session p group_tok GroupMemberRemove
                 (\<lambda>gid.
                   let member = normalize_principal_token member_tok;
                       w = log_group_change en ho (GroupMemberSet gid member None) w
                   in logged_reply session (''group: '' @ show_nat gid @ '' remove '' @ member_tok) w) w
           | _ \<Rightarrow> reply session ''huh? (try: group remove <group> <player>)'' w))"

definition bad_role :: "nat \<Rightarrow> world \<Rightarrow> world" where
  "bad_role session w = reply session ''huh? (role: owner | officer | member | guest)'' w"

definition cmd_group_role :: "shard_env \<Rightarrow> command" where
  "cmd_group_role en ho session p line w =
     (case strip_prefix ''group role '' line of
        None \<Rightarrow> None
      | Some rest \<Rightarrow>
          Some (case split_whitespace (trim rest) of
             group_tok # member_tok # role_tok # _ \<Rightarrow>
               in_group ho session p group_tok GroupRoleSet
                 (\<lambda>gid.
                   case group_role_parse role_tok of
                     None \<Rightarrow> bad_role session w
                   | Some role \<Rightarrow>
                       (let member = normalize_principal_token member_tok;
                            w = log_group_change en ho (GroupMemberSet gid member (Some role)) w
                        in logged_reply session (''group: '' @ show_nat gid @ '' role '' @ member_tok @ '' '' @
                             group_role_as_str role) w)) w
           | _ \<Rightarrow> reply session ''huh? (try: group role <group> <player> <role>)'' w))"

definition cmd_group_policy :: "shard_env \<Rightarrow> command" where
  "cmd_group_policy en ho session p line w =
     (case strip_prefix ''group policy set '' line of
        Some rest \<Rightarrow>
          Some (case split_whitespace (trim rest) of
             group_tok # key_tok # value_tok # _ \<Rightarrow>
               in_group ho session p group_tok GroupPolicySetCap
                 (\<lambda>gid.
                   let w = log_group_change en ho (GroupPolicySet gid key_tok (Some value_tok)) w
                   in logged_reply session (''group: '' @ show_nat gid @ '' policy set '' @ key_tok @ ''='' @
                        value_tok) w) w
           | _ \<Rightarrow> reply session ''huh? (try: group policy set <group> <key> <value>)'' w)
      | None \<Rightarrow>
          (case strip_prefix ''group policy del '' line of
             None \<Rightarrow> None
           | Some rest \<Rightarrow>
               Some (case split_whitespace (trim rest) of
                  group_tok # key_tok # _ \<Rightarrow>
                    in_group ho session p group_tok GroupPolicySetCap
                      (\<lambda>gid.
                        let w = log_group_change en ho (GroupPolicySet gid key_tok None) w
                        in logged_reply session (''group: '' @ show_nat gid @ '' policy del '' @ key_tok) w) w
                | _ \<Rightarrow> reply session ''huh? (try: group policy del <group> <key>)'' w)))"

text \<open>The first token that is no capability, or the capabilities.\<close>

fun parse_caps :: "string list \<Rightarrow> string + capability list" where
  "parse_caps [] = Inr []"
| "parse_caps (t # ts) =
     (case capability_parse t of
        None \<Rightarrow> Inl t
      | Some c \<Rightarrow> (case parse_caps ts of Inl b \<Rightarrow> Inl b | Inr cs \<Rightarrow> Inr (c # cs)))"

definition cmd_group_rolecaps :: "shard_env \<Rightarrow> command" where
  "cmd_group_rolecaps en ho session p line w =
     (case strip_prefix ''group rolecaps set '' line of
        None \<Rightarrow> None
      | Some rest \<Rightarrow>
          Some (case split_whitespace (trim rest) of
             group_tok # role_tok # toks \<Rightarrow>
               in_group ho session p group_tok GroupRoleCapsSetCap
                 (\<lambda>gid.
                   case group_role_parse role_tok of
                     None \<Rightarrow> bad_role session w
                   | Some role \<Rightarrow>
                       (case parse_caps toks of
                          Inl tok \<Rightarrow>
                            reply session ''huh? (try: caps list)''
                              (reply session (''huh? (bad capability: '' @ tok @ '')'') w)
                        | Inr [] \<Rightarrow> reply session ''huh? (try: caps list)'' w
                        | Inr caps \<Rightarrow>
                            (let w = log_group_change en ho (GroupRoleCapsSet gid role caps) w in
                             logged_reply session (''group: '' @ show_nat gid @ '' rolecaps set '' @
                               group_role_as_str role @ '' '' @
                               join_with '' '' (map capability_as_str caps)) w))) w
           | _ \<Rightarrow> reply session ''huh? (try: group rolecaps set <group> <role> <cap...>)'' w))"

section \<open>The log\<close>

definition cmd_raft :: "shard_env \<Rightarrow> command" where
  "cmd_raft en ho session p line w =
     (let lc = to_ascii_lowercase line in
      if lc = ''raft'' then Some (reply session ''huh? (try: raft tail [n] | raft watch on|off)'' w)
      else
        (case strip_prefix ''raft tail'' lc of
           Some rest \<Rightarrow>
             (if \<not> has_cap ho w p RaftTail then Some (reply session ''nope: raft.tail'' w)
              else
                (let n = max 1 (min 200 (opt_or 20 (parse_uint u64_max (trim rest)))) in
                 Some (say session
                   (crlf_lines ([''raft:'', '' - path: '' @ en_raft_path en,
                      '' - next_index: '' @ show_nat (rl_next_index (w_raft w))] @
                     recent_lines n (w_raft w))) w)))
         | None \<Rightarrow>
             (case strip_prefix ''raft watch '' lc of
                None \<Rightarrow> None
              | Some rest \<Rightarrow>
                  (let r = trim rest in
                   if \<not> has_cap ho w p RaftWatch then Some (reply session ''nope: raft.watch'' w)
                   else if r = ''on'' then
                     Some (reply session ''raft: watch on''
                       (w\<lparr>w_raft_watch := insert (c_id p) (w_raft_watch w)\<rparr>))
                   else if r = ''off'' then
                     Some (reply session ''raft: watch off''
                       (w\<lparr>w_raft_watch := w_raft_watch w - {c_id p}\<rparr>))
                   else Some (reply session ''huh? (try: raft watch on|off)'' w)))))"

section \<open>The contract\<close>

lemma append_group_frame [simp]:
  "world_ok (raft_append_group to_json io e w) = world_ok w"
  "w_next_char_id (raft_append_group to_json io e w) = w_next_char_id w"
  by (simp_all add: raft_append_group_def case_prod_beta Let_def split: option.split)

lemma log_change_frame [simp]:
  "world_ok (log_group_change en ho e w) = world_ok w"
  "w_next_char_id (log_group_change en ho e w) = w_next_char_id w"
  by (simp_all add: log_group_change_def Let_def)

lemma logged_reply_frame [simp]:
  "world_ok (logged_reply session msg w) = world_ok w"
  "w_next_char_id (logged_reply session msg w) = w_next_char_id w"
  by (simp_all add: logged_reply_def)

lemma in_group_frame:
  "(\<And>gid. world_ok (body gid)) \<Longrightarrow> world_ok w \<Longrightarrow> world_ok (in_group ho session p tok cap body w)"
  "(\<And>gid. w_next_char_id (body gid) = w_next_char_id w) \<Longrightarrow>
     w_next_char_id (in_group ho session p tok cap body w) = w_next_char_id w"
  by (simp_all add: in_group_def split: option.split)

lemma cmd_group_list_keeps: "world_command cmd_group_list"
  by unfold_locales (auto intro!: growsI simp: cmd_group_list_def Let_def split: if_splits)

lemma cmd_group_show_keeps: "world_command cmd_group_show"
  by unfold_locales (auto intro!: growsI simp: cmd_group_show_def split: option.splits)

lemma cmd_group_create_keeps: "world_command (cmd_group_create en)"
  by unfold_locales
    (auto intro!: growsI simp: cmd_group_create_def Let_def
      split: option.splits if_splits list.splits group_kind.splits)

lemma cmd_group_add_keeps: "world_command (cmd_group_add en)"
  by unfold_locales
    (auto intro!: growsI in_group_frame simp: cmd_group_add_def Let_def split: option.splits list.splits)

lemma cmd_group_remove_keeps: "world_command (cmd_group_remove en)"
  by unfold_locales
    (auto intro!: growsI in_group_frame simp: cmd_group_remove_def Let_def split: option.splits list.splits)

lemma bad_role_frame [simp]:
  "world_ok (bad_role session w) = world_ok w" "w_next_char_id (bad_role session w) = w_next_char_id w"
  by (simp_all add: bad_role_def)

lemma cmd_group_role_keeps: "world_command (cmd_group_role en)"
  by unfold_locales
    (auto intro!: growsI in_group_frame simp: cmd_group_role_def Let_def split: option.splits list.splits)

lemma cmd_group_policy_keeps: "world_command (cmd_group_policy en)"
  by unfold_locales
    (auto intro!: growsI in_group_frame simp: cmd_group_policy_def Let_def split: option.splits list.splits)

lemma cmd_group_rolecaps_keeps: "world_command (cmd_group_rolecaps en)"
  by unfold_locales
    (auto intro!: growsI in_group_frame simp: cmd_group_rolecaps_def Let_def
      split: option.splits list.splits sum.splits)

lemma cmd_raft_keeps: "world_command (cmd_raft en)"
  by unfold_locales
    (auto intro!: growsI simp: cmd_raft_def Let_def split: option.splits if_splits)

end
