(* ===== verification/WorldCmds.thy ===== *)
theory WorldCmds
  imports GroupCmds
begin

text \<open>
  Commands on the world and on what a character is (\<open>handle_broker\<close> in
  \<open>apps/shard_01/src/main.rs\<close>): where one is, warping and spawning, statistics, looking, the
  job board's faction, race and class.
\<close>

section \<open>Where, warp, spawn\<close>

definition cmd_where :: command where
  "cmd_where ho session p line w =
     (if to_ascii_lowercase line \<in> {''where'', ''room''} then
        Some (reply session (''room: '' @ c_room_id p) w)
      else None)"

definition cmd_warp :: command where
  "cmd_warp ho session p line w =
     (let lc = to_ascii_lowercase line; usage = ''huh? (try: warp <room_id>)'' in
      if lc = ''warp'' then
        (if \<not> has_cap ho w p WorldWarp then Some (reply session ''nope: world.warp'' w)
         else Some (reply session usage w))
      else if prefix ''warp '' lc then
        (if \<not> has_cap ho w p WorldWarp then Some (reply session ''nope: world.warp'' w)
         else
           (let to = trim (drop 5 line) in
            if to = [] then Some (reply session usage w)
            else Some (teleport_to ho session to ''warps'' w)))
      else None)"

definition spawn_one :: "string \<Rightarrow> string \<Rightarrow> nat \<times> world \<Rightarrow> nat \<times> world" where
  "spawn_one room_id kind nw =
     (case spawn_named_mob room_id kind (snd nw) of
        (Some _, w) \<Rightarrow> (fst nw + 1, w)
      | (None, w) \<Rightarrow> (fst nw, w))"

definition cmd_spawn :: command where
  "cmd_spawn ho session p line w =
     (let lc = to_ascii_lowercase line; usage = ''huh? (try: spawn rat 3 | spawn grease_king 1)'' in
      if lc = ''spawn'' then
        (if \<not> has_cap ho w p WorldWarp then Some (reply session ''nope: world.spawn'' w)
         else Some (reply session usage w))
      else
        (case strip_prefix ''spawn '' lc of
           None \<Rightarrow> None
         | Some rest \<Rightarrow>
             (if \<not> has_cap ho w p WorldWarp then Some (reply session ''nope: world.spawn'' w)
              else
                (case split_whitespace rest of
                   [] \<Rightarrow> Some (reply session usage w)
                 | kind # args \<Rightarrow>
                     (let n = max 1 (min 20
                            (case args of [] \<Rightarrow> 1 | a # _ \<Rightarrow> opt_or 1 (parse_uint u32_max a)));
                          (spawned, w) = (spawn_one (c_room_id p) kind ^^ n) (0, w)
                      in Some (drain ho
                           (reply session (''spawned: '' @ show_nat spawned @ '' x '' @ kind) w)))))))"

section \<open>Looking\<close>

definition cmd_stats :: command where
  "cmd_stats ho session p line w =
     (if to_ascii_lowercase line \<in> {''stats'', ''score''} then
        Some (say session
          (case w_chars w (c_id p) of None \<Rightarrow> ''huh?'' @ crlf | Some c \<Rightarrow> render_stats c) w)
      else None)"

definition room_object :: "character \<Rightarrow> string \<Rightarrow> string option" where
  "room_object p target =
     (case tavern_object (c_room_id p) target of
        Some d \<Rightarrow> Some d
      | None \<Rightarrow>
          (case job_board_object p target of
             Some d \<Rightarrow> Some d
           | None \<Rightarrow>
               (case sewers_object p target of
                  Some d \<Rightarrow> Some d
                | None \<Rightarrow>
                    (case heroes_object (c_room_id p) target of
                       Some d \<Rightarrow> Some d
                     | None \<Rightarrow> academy_object (c_room_id p) target))))"

definition worn_details :: "string \<Rightarrow> string" where
  "worn_details nm = (case find_item_def nm of Some d \<Rightarrow> render_item_details d | None \<Rightarrow> nm @ crlf)"

definition carried_details :: "string \<Rightarrow> string" where
  "carried_details k =
     (case find_item_def k of
        Some d \<Rightarrow> render_item_details d
      | None \<Rightarrow>
          (case find_drink k of
             Some drink \<Rightarrow>
               crlf_lines [dr_name drink, ''type: drink'', ''quaff: increases drinking level by 1'']
           | None \<Rightarrow> k @ crlf))"

text \<open>What one carries, then what one wears, by slot and by name.\<close>

definition own_object :: "hash_orders \<Rightarrow> character \<Rightarrow> string \<Rightarrow> string option" where
  "own_object ho pc target =
     (case find_item_key_in_inventory (ho_str ho) (c_inv pc) target of
        KeyOne k \<Rightarrow> Some (carried_details k)
      | KeyAmbiguous xs \<Rightarrow> Some (''huh? (ambiguous; try one of: '' @ join_with '', '' xs @ '')'' @ crlf)
      | KeyNone \<Rightarrow>
          (case Option.bind (equip_slot_parse target) (c_equip pc) of
             Some nm \<Rightarrow> Some (worn_details nm)
           | None \<Rightarrow>
               (case find_equipped_slot_by_token (c_equip pc) target of
                  SlotOne slot \<Rightarrow> map_option worn_details (c_equip pc slot)
                | SlotAmbiguous _ \<Rightarrow> Some (''huh? (ambiguous; try looking by slot: look body)'' @ crlf)
                | SlotNone \<Rightarrow> None)))"

definition cmd_look :: command where
  "cmd_look ho session p line w =
     (let lc = to_ascii_lowercase line in
      if lc \<in> {''look'', ''l''} then Some (say session (render_room_for ho w (c_room_id p) session) w)
      else if prefix ''look '' lc then
        (let target = trim (drop 5 line) in
         Some (say session
           (case room_object p target of
              Some d \<Rightarrow> d
            | None \<Rightarrow>
                (case Option.bind (active_char w session) (\<lambda>pc. own_object ho pc target) of
                   Some msg \<Rightarrow> msg
                 | None \<Rightarrow> ''huh? (nothing like that to look at here)'' @ crlf)) w))
      else None)"

section \<open>The faction\<close>

definition upd_active :: "nat \<Rightarrow> (character \<Rightarrow> character) \<Rightarrow> world \<Rightarrow> world" where
  "upd_active session f w =
     (case active_char_id w session of None \<Rightarrow> w | Some cid \<Rightarrow> upd_char cid f w)"

definition choose_faction :: "string \<Rightarrow> (string \<rightharpoonup> string) \<Rightarrow> (string \<rightharpoonup> string)" where
  "choose_faction faction q =
     (let q = q(''q.q2_job_board.faction'' \<mapsto> faction,
                ''q.q2_job_board.repeatables_unlocked'' \<mapsto> ''1'',
                ''gate.job_board.repeatables'' \<mapsto> ''1'');
          q = (if faction \<in> {''civic'', ''industrial''} then q(''gate.sewers.entry'' \<mapsto> ''1'') else q);
          q = (if faction \<in> {''industrial'', ''green''} then q(''gate.quarry.entry'' \<mapsto> ''1'') else q)
      in q(''q.q2_job_board.state'' \<mapsto> ''repeatables''))"

definition cmd_faction :: command where
  "cmd_faction ho session p line w =
     (let lc = to_ascii_lowercase line; usage = ''huh? (try: faction civic|industrial|green)'' in
      if lc = ''faction'' then
        Some (say session (crlf_lines [''faction: '' @ board_faction (c_quest p),
          ''try: faction civic|industrial|green (at the job board)'']) w)
      else
        (case strip_prefix ''faction '' lc of
           None \<Rightarrow> None
         | Some rest \<Rightarrow>
             (let token = trim rest in
              if c_room_id p \<noteq> room_job_board then
                Some (reply session ''huh? (try this at the job board; go to the square and: look board)'' w)
              else if token = [] then Some (reply session usage w)
              else if contracts_done (c_quest p) < 3 then
                Some (say session (crlf_lines [''board clerk: finish the 3 starter contracts first.'',
                  ''(try: look board)'']) w)
              else if board_faction (c_quest p) \<noteq> ''unset'' then
                Some (reply session ''board clerk: contact already chosen.'' w)
              else if token \<notin> {''civic'', ''industrial'', ''green''} then Some (reply session usage w)
              else
                (let w = upd_active session (\<lambda>c. c\<lparr>c_quest := choose_faction token (c_quest c)\<rparr>) w;
                     w = say session (crlf_lines
                       [''board clerk: stamped. contact set to '' @ token @ ''.'',
                        ''(sewers access may now be unsealed.)'']) w
                 in Some (broadcast_room ho (c_room_id p)
                      (''* '' @ c_name p @ '' signs the job board ledger.'') w)))))"

section \<open>Race and class\<close>

definition cmd_race :: command where
  "cmd_race ho session p line w =
     (let lc = to_ascii_lowercase line in
      if lc = ''race'' then
        Some (say session (crlf_lines
          [''race: '' @ (case Option.bind (active_char w session) c_race of
                           None \<Rightarrow> ''(none)'' | Some r \<Rightarrow> race_as_str r),
           ''try: race list | race human'']) w)
      else if lc = ''race list'' then
        Some (say session (crlf_lines ([''races:''] @ map (\<lambda>r. '' - '' @ race_as_str r) race_all @
          [''choose with: race <name>''])) w)
      else
        (case strip_prefix ''race '' lc of
           None \<Rightarrow> None
         | Some rest \<Rightarrow>
             (if c_room_id p \<noteq> room_orientation then
                Some (reply session ''huh? (find a trainer; try this in the academy)'' w)
              else
                (case race_parse (trim rest) of
                   None \<Rightarrow> Some (reply session ''huh? (try: race list)'' w)
                 | Some rc \<Rightarrow>
                     (case active_char_id w session of
                        None \<Rightarrow> Some (not_attached session w)
                      | Some cid \<Rightarrow>
                          (if Option.bind (w_chars w cid) c_race \<noteq> None then
                             Some (reply session ''huh? (race already chosen)'' w)
                           else
                             (let w = upd_char cid (\<lambda>c. c\<lparr>c_race := Some rc\<rparr>) w;
                                  w = foldl (\<lambda>w (item, n). inv_add cid item n w) w
                                        (starter_kit_for_size (race_size rc))
                              in Some (say session (crlf_lines
                                   [''trainer: '' @ race_as_str rc @ '' it is. starter kit issued.'',
                                    ''(try: i, equip, wear tunic, wield sword)'']) w))))))))"

definition with_class :: "nat \<Rightarrow> char_class \<Rightarrow> character \<Rightarrow> character" where
  "with_class now cls c =
     (let stats = assign_core_stats_for_class cls;
          mhp = max (compute_max_hp cls stats) 1;
          mm = max (compute_max_mana cls stats (c_level c)) 0;
          ms = max (compute_max_stamina cls stats (c_level c)) 0
      in c\<lparr>c_class := Some cls, c_stats := stats, c_max_hp := mhp, c_hp := mhp, c_max_mana := mm,
           c_mana := mm, c_max_stamina := ms, c_stamina := ms, c_last_mana_regen_ms := now,
           c_last_stamina_regen_ms := now\<rparr>)"

definition find_trainer :: string where
  "find_trainer = ''huh? (find a trainer; try this in the academy or a class hall)''"

definition cmd_class :: command where
  "cmd_class ho session p line w =
     (let lc = to_ascii_lowercase line in
      if lc = ''class'' then
        Some (say session (crlf_lines
          [''class: '' @ (case Option.bind (active_char w session) c_class of
                            None \<Rightarrow> ''(none)'' | Some k \<Rightarrow> class_as_str k),
           ''try: class list | class fighter'']) w)
      else if lc = ''class list'' then
        Some (say session (crlf_lines ([''classes:''] @ map (\<lambda>c. '' - '' @ class_as_str c) class_all @
          [''choose with: class <name>''])) w)
      else
        (case strip_prefix ''class '' lc of
           None \<Rightarrow> None
         | Some rest \<Rightarrow>
             (if \<not> is_trainer_room (c_room_id p) then Some (reply session find_trainer w)
              else
                (case class_parse (trim rest) of
                   None \<Rightarrow> Some (reply session ''huh? (try: class list)'' w)
                 | Some cls \<Rightarrow>
                     (case active_char_id w session of
                        None \<Rightarrow> Some (not_attached session w)
                      | Some cid \<Rightarrow>
                          (if Option.bind (w_chars w cid) c_class \<noteq> None then
                             Some (reply session ''huh? (class already chosen)'' w)
                           else
                             Some (reply session (''trainer: welcome, '' @ class_as_str cls @ ''.'')
                               (upd_char cid (with_class (w_now_ms w) cls) w))))))))"

section \<open>The contract\<close>

lemma teleport_grows: "grows w (teleport_to ho session to verb w)"
proof (rule growsI)
  show "w_next_char_id (teleport_to ho session to verb w) = w_next_char_id w"
    by (simp add: teleport_to_def Let_def split: option.split)
qed auto

lemma grows_upd: "tame f \<Longrightarrow> grows w (upd_char cid f w)"
  by (rule growsI) auto

lemma spawn_hp_grows: "grows w (snd (spawn_mob_hp r nm hp w))"
  by (rule grows_one; simp add: spawn_mob_hp_ok)
    (simp add: spawn_mob_hp_def case_prod_beta)

lemma spawn_named_grows: "grows w (snd (spawn_named_mob r tok w))"
proof -
  have worm: "grows w (snd (spawn_stenchworm r w))" by (rule grows_spawn)
  have king: "grows w (schedule_in_ms 800 k ((snd (spawn_mob_hp r nm hp w))\<lparr>w_bosses := b\<rparr>))" for k nm hp b
    by (rule grows_trans [OF _ grows_schedule])
      (use spawn_hp_grows [of w r nm hp] in \<open>simp add: grows_def\<close>)
  show ?thesis
    by (simp add: spawn_named_mob_def Let_def case_prod_beta worm spawn_hp_grows king apfst_def)
qed

lemma spawn_one_grows: "grows (snd nw) (snd (spawn_one r kind nw))"
  using spawn_named_grows [of "snd nw" r kind]
  by (auto simp: spawn_one_def split: prod.split option.split)

lemma spawn_many_grows: "grows (snd nw) (snd ((spawn_one r kind ^^ n) nw))"
  by (induction n) (auto intro: grows_trans spawn_one_grows)

lemma cmd_where_keeps: "world_command cmd_where"
  by unfold_locales (auto intro!: growsI simp: cmd_where_def split: if_splits)

lemma cmd_warp_keeps: "world_command cmd_warp"
  by unfold_locales (auto simp: cmd_warp_def Let_def teleport_grows split: if_splits)

lemma cmd_spawn_keeps: "world_command cmd_spawn"
proof
  fix ho w session p line w'
  assume ho: "orders_ok ho" and run: "cmd_spawn ho session p line w = Some w'"
  have many: "grows w (drain ho (reply session msg (snd ((spawn_one r kind ^^ n) (0, w)))))" for msg r kind n
    by (rule grows_trans [OF _ drain_grows [OF ho]])
      (use spawn_many_grows [of "(0, w)" n r kind] in simp)
  from run show "grows w w'"
    by (auto simp: cmd_spawn_def Let_def case_prod_beta many many [where n = 1, simplified]
        split: if_splits option.splits list.splits)
qed

lemma cmd_stats_keeps: "world_command cmd_stats"
  by unfold_locales (auto intro!: growsI simp: cmd_stats_def split: if_splits)

lemma cmd_look_keeps: "world_command cmd_look"
  by unfold_locales (auto intro!: growsI simp: cmd_look_def Let_def split: if_splits)

lemma upd_active_grows: "tame f \<Longrightarrow> grows w (upd_active session f w)"
  by (simp add: upd_active_def grows_upd split: option.split)

lemma cmd_faction_keeps: "world_command cmd_faction"
  by unfold_locales
    (auto simp: cmd_faction_def Let_def upd_active_grows split: if_splits option.splits)

lemma kit_grows: "grows w (foldl (\<lambda>w (item, n). inv_add cid item n w) w kit)"
  by (rule grows_foldl) (auto simp: inv_add_def grows_upd split: prod.split)

lemma tame_build [simp]: "tame (\<lambda>c. c\<lparr>c_race := rc\<rparr>)" "tame (with_class now cls)"
  by (simp_all add: tame_def with_class_def Let_def)

lemma cmd_race_keeps: "world_command cmd_race"
  by unfold_locales
    (auto simp: cmd_race_def Let_def intro: grows_trans [OF grows_upd [OF tame_build(1)] kit_grows]
      split: if_splits option.splits)

lemma cmd_class_keeps: "world_command cmd_class"
  by unfold_locales
    (auto simp: cmd_class_def Let_def grows_upd split: if_splits option.splits)

end
