(* ===== verification/SkillCmds.thy ===== *)
theory SkillCmds
  imports WorldCmds
begin

text \<open>
  Training and using skills, and using items (\<open>handle_broker\<close> in \<open>apps/shard_01/src/main.rs\<close>).
\<close>

section \<open>Training\<close>

definition skill_rank :: "character \<Rightarrow> skill_def \<Rightarrow> nat" where
  "skill_rank c d = opt_or 0 (c_skills c (sk_id d))"

definition pick_class_first :: string where
  "pick_class_first = ''trainer: pick a class first. try: class fighter''"

definition train_list :: "character \<Rightarrow> char_class \<Rightarrow> string" where
  "train_list pc cls =
     crlf_lines
       ((''trainer: skills for '' @ class_as_str cls @ '' (skill points: '' @ show_nat (c_skill_points pc) @ '')'') #
        (case skills_for_class cls of
           [] \<Rightarrow> ['' - (none yet)'']
         | defs \<Rightarrow>
             map (\<lambda>d. '' - '' @ sk_id d @ '' ('' @ sk_display d @ '') (rank '' @ show_nat (skill_rank pc d) @ '')'') defs @
             [''train with: train <skill>'']))"

definition trained :: "skill_def \<Rightarrow> nat \<Rightarrow> character \<Rightarrow> character" where
  "trained d rank c =
     c\<lparr>c_skill_points := c_skill_points c - 1,
       c_skills := (c_skills c)(sk_id d \<mapsto> max (sat_add32 rank 1) 1)\<rparr>"

definition train_skill :: "nat \<Rightarrow> string \<Rightarrow> nat \<Rightarrow> world \<Rightarrow> world" where
  "train_skill session token cid w =
     (case Option.bind (w_chars w cid) c_class of
        None \<Rightarrow> reply session pick_class_first w
      | Some cls \<Rightarrow>
          (case find_skill_for_class cls token of
             None \<Rightarrow> reply session ''trainer: i can't teach that. try: train list'' w
           | Some d \<Rightarrow>
               (let (sp, rank) = (case w_chars w cid of
                                    Some pc \<Rightarrow> (c_skill_points pc, skill_rank pc d) | None \<Rightarrow> (0, 0))
                in if rank \<ge> 5 then reply session ''trainer: you've mastered that already.'' w
                   else if sp = 0 then reply session ''trainer: you need a skill point. go fight.'' w
                   else reply session (''trainer: trained '' @ sk_id d @ '' (rank '' @
                          show_nat (max (sat_add32 rank 1) 1) @ '').'')
                        (upd_char cid (trained d rank) w))))"

definition cmd_train :: command where
  "cmd_train ho session p line w =
     (let lc = to_ascii_lowercase line in
      if lc \<in> {''train'', ''train list''} then
        (if \<not> is_trainer_room (c_room_id p) then Some (reply session find_trainer w)
         else
           (case active_char w session of
              None \<Rightarrow> Some (not_attached session w)
            | Some pc \<Rightarrow>
                (case c_class pc of
                   None \<Rightarrow> Some (reply session pick_class_first w)
                 | Some cls \<Rightarrow> Some (say session (train_list pc cls) w))))
      else
        (case strip_prefix ''train '' lc of
           None \<Rightarrow> None
         | Some rest \<Rightarrow>
             (let token = trim rest in
              if \<not> is_trainer_room (c_room_id p) then Some (reply session find_trainer w)
              else if token = [] then Some (reply session ''huh? (try: train list)'' w)
              else
                (case active_char_id w session of
                   None \<Rightarrow> Some (not_attached session w)
                 | Some cid \<Rightarrow> Some (train_skill session token cid w)))))"

section \<open>Listing skills\<close>

definition skill_row :: "world \<Rightarrow> character \<Rightarrow> string \<Rightarrow> string" where
  "skill_row w pc k =
     '' - '' @ k @ '' ('' @ (case find_skill_any k of None \<Rightarrow> ''-'' | Some d \<Rightarrow> sk_display d) @
     '') (rank '' @ show_nat (the (c_skills pc k)) @ '') ['' @
     (if opt_or 0 (c_skill_cd_ms pc k) \<le> w_now_ms w then ''ready'' else ''cooldown'') @ '']''"

definition skills_text :: "hash_orders \<Rightarrow> world \<Rightarrow> character \<Rightarrow> string" where
  "skills_text ho w pc =
     crlf_lines
       ([''skills (points: '' @ show_nat (c_skill_points pc) @ '' | mana: '' @ show_int (c_mana pc) @ ''/'' @
         show_int (c_max_mana pc) @ '' | stamina: '' @ show_int (c_stamina pc) @ ''/'' @
         show_int (c_max_stamina pc) @ ''):''] @
        (case sort (map_keys (ho_str ho) (c_skills pc)) of
           [] \<Rightarrow> ['' - (none)'', ''try: train list'']
         | ks \<Rightarrow> map (skill_row w pc) ks @ [''details: skills <skill>'']) @
        [''compendium: skills compendium''])"

definition cmd_skills :: command where
  "cmd_skills ho session p line w =
     (let lc = to_ascii_lowercase line in
      if lc \<in> {''skills'', ''skills list''} then
        (case active_char w session of
           None \<Rightarrow> Some (not_attached session w)
         | Some pc \<Rightarrow> Some (say session (skills_text ho w pc) w))
      else if lc = ''skills compendium'' then Some (say session render_skill_compendium w)
      else
        (case strip_prefix ''skills '' lc of
           None \<Rightarrow> None
         | Some rest \<Rightarrow>
             (let token = trim rest in
              if token = [] then
                Some (reply session ''huh? (try: skills compendium | skills power_strike)'' w)
              else
                (case find_skill_any token of
                   None \<Rightarrow> Some (reply session ''huh? (no such skill in the compendium)'' w)
                 | Some d \<Rightarrow>
                     Some (say session (render_skill_detail d
                       (case active_char w session of None \<Rightarrow> 0 | Some c \<Rightarrow> skill_rank c d)) w)))))"

section \<open>Using a skill\<close>

text \<open>The checks before anything is spent.\<close>

definition skill_refusal :: "nat \<Rightarrow> skill_def \<Rightarrow> character \<Rightarrow> string option" where
  "skill_refusal now d pc =
     (if skill_rank pc d = 0 then Some ''huh? (you haven't trained that. try: train list)''
      else if now < opt_or 0 (c_skill_cd_ms pc (sk_id d)) then Some ''huh? (skill on cooldown)''
      else if sk_cost_mana d > 0 \<and> c_mana pc < sk_cost_mana d then Some ''huh? (not enough mana)''
      else if sk_cost_stamina d > 0 \<and> c_stamina pc < sk_cost_stamina d then
        Some ''huh? (not enough stamina)''
      else None)"

definition spend_skill :: "nat \<Rightarrow> skill_def \<Rightarrow> character \<Rightarrow> character" where
  "spend_skill now d pc =
     pc\<lparr>c_skill_cd_ms := (c_skill_cd_ms pc)(sk_id d \<mapsto> wrap_add64 now (sk_cooldown_ms d)),
        c_mana := max (wrap_i32 (c_mana pc - sk_cost_mana d)) 0,
        c_stamina := max (wrap_i32 (c_stamina pc - sk_cost_stamina d)) 0\<rparr>"

definition is_player_id :: "world \<Rightarrow> nat \<Rightarrow> bool" where
  "is_player_id w cid \<longleftrightarrow> (case w_chars w cid of None \<Rightarrow> False | Some c \<Rightarrow> c_controller c \<noteq> None)"

definition use_on_target ::
  "hash_orders \<Rightarrow> nat \<Rightarrow> character \<Rightarrow> skill_def \<Rightarrow> int \<Rightarrow> nat \<Rightarrow> nat \<Rightarrow> world \<Rightarrow> world" where
  "use_on_target ho session p d amount attacker_id target_id w =
     (if is_player_id w target_id \<and> \<not> can_pvp_ids w attacker_id target_id then
        reply session ''huh? (pvp not allowed)'' w
      else
        (let tname = (case w_chars w target_id of None \<Rightarrow> ''something'' | Some c \<Rightarrow> c_name c);
             msg = ''* '' @ c_name p @ '' uses '' @ sk_id d @ '' on '' @ tname @ '' for '' @ show_int amount @ ''.'';
             (killed, w) = (if is_player_id w target_id
                            then apply_damage_to_player ho attacker_id target_id amount msg w
                            else apply_damage_to_mob ho attacker_id target_id amount msg w)
         in drain ho (if killed then stop_fighting attacker_id w
                      else if skill_stun_ms d > 0 then apply_stun ho attacker_id target_id (skill_stun_ms d) w
                      else w)))"

definition heal_char :: "int \<Rightarrow> character \<Rightarrow> character" where
  "heal_char amount c = c\<lparr>c_hp := min (wrap_i32 (c_hp c + amount)) (c_max_hp c)\<rparr>"

definition healed_by :: "int \<Rightarrow> character option \<Rightarrow> int" where
  "healed_by amount pc =
     (case pc of None \<Rightarrow> 0 | Some c \<Rightarrow> wrap_i32 (c_hp (heal_char amount c) - c_hp c))"

definition use_on_self ::
  "hash_orders \<Rightarrow> nat \<Rightarrow> character \<Rightarrow> skill_def \<Rightarrow> int \<Rightarrow> nat \<Rightarrow> world \<Rightarrow> world" where
  "use_on_self ho session p d amount attacker_id w =
     (let healed = healed_by amount (w_chars w attacker_id);
          w = upd_char attacker_id (heal_char amount) w;
          w = reply session (''you use '' @ sk_id d @ ''. (+'' @ show_int healed @ '' hp)'') w;
          w = broadcast_room ho (c_room_id p) (''* '' @ c_name p @ '' uses '' @ sk_id d @ ''.'') w
      in drain ho w)"

text \<open>Cooldown, mana and stamina are spent before the target is looked at.\<close>

definition use_skill ::
  "hash_orders \<Rightarrow> nat \<Rightarrow> character \<Rightarrow> skill_def \<Rightarrow> nat \<Rightarrow> character \<Rightarrow> world \<Rightarrow> world" where
  "use_skill ho session p d attacker_id pc w =
     (case skill_refusal (w_now_ms w) d pc of
        Some msg \<Rightarrow> reply session msg w
      | None \<Rightarrow>
          (let amount = max (compute_skill_amount d (skill_rank pc d) (c_stats pc)) 0;
               w = upd_char attacker_id (spend_skill (w_now_ms w) d) w
           in case sk_target d of
                CombatTarget \<Rightarrow>
                  (case cs_target (c_combat pc) of
                     None \<Rightarrow> reply session ''huh? (no target; try: kill stenchworm)'' w
                   | Some target_id \<Rightarrow> use_on_target ho session p d amount attacker_id target_id w)
              | SelfOnly \<Rightarrow> use_on_self ho session p d amount attacker_id w))"

section \<open>Using an item\<close>

definition drink_up :: "character \<Rightarrow> character" where
  "drink_up c = c\<lparr>c_drink_level := sat_add32 (c_drink_level c) 1\<rparr>"

definition quaff :: "hash_orders \<Rightarrow> nat \<Rightarrow> character \<Rightarrow> drink_item \<Rightarrow> nat \<Rightarrow> world \<Rightarrow> world" where
  "quaff ho session p drink cid w =
     (case inv_take_one cid (dr_name drink) w of
        (False, w) \<Rightarrow> reply session ''huh? (you don't have that)'' w
      | (True, w) \<Rightarrow>
          (let w = upd_char cid drink_up w;
               w = reply session (''you quaff a '' @ dr_name drink @ ''.'') w
           in broadcast_room ho (c_room_id p)
                (''* '' @ c_name p @ '' quaffs a '' @ dr_name drink @ ''.'') w))"

definition use_consumable ::
  "hash_orders \<Rightarrow> nat \<Rightarrow> character \<Rightarrow> item_def \<Rightarrow> string \<Rightarrow> int \<Rightarrow> nat \<Rightarrow> character \<Rightarrow> world \<Rightarrow> world" where
  "use_consumable ho session p d item_key h cid pc w =
     (let heal = max h 0 in
      if heal = 0 then reply session ''huh? (that does nothing)'' w
      else if c_hp pc \<ge> c_max_hp pc then reply session ''you're already at full hp.'' w
      else
        (case inv_take_one cid item_key w of
           (False, w) \<Rightarrow> reply session ''huh? (you don't have that)'' w
         | (True, w) \<Rightarrow>
             (let healed = healed_by heal (w_chars w cid);
                  w = upd_char cid (heal_char heal) w;
                  w = reply session (''you use '' @ it_name d @ ''. (+'' @ show_int healed @ '' hp)'') w
              in broadcast_room ho (c_room_id p) (''* '' @ c_name p @ '' uses '' @ it_name d @ ''.'') w)))"

definition ambiguous_items :: "string list \<Rightarrow> string" where
  "ambiguous_items xs = ''huh? (ambiguous; try one of: '' @ join_with '', '' xs @ '')''"

definition use_item ::
  "hash_orders \<Rightarrow> nat \<Rightarrow> character \<Rightarrow> bool \<Rightarrow> string \<Rightarrow> nat \<Rightarrow> character \<Rightarrow> world \<Rightarrow> world" where
  "use_item ho session p is_use token cid pc w =
     (case find_item_key_in_inventory (ho_str ho) (c_inv pc) token of
        KeyAmbiguous xs \<Rightarrow> reply session (ambiguous_items xs) w
      | KeyNone \<Rightarrow>
          (if is_use \<and> c_class pc = None
           then reply session ''huh? (unknown; pick a class: class list)'' w
           else reply session ''huh? (unknown skill/item)'' w)
      | KeyOne k \<Rightarrow>
          (case find_item_def k of
             None \<Rightarrow> reply session ''huh? (you can't use that)'' w
           | Some d \<Rightarrow>
               (case it_kind d of
                  Consumable h \<Rightarrow> use_consumable ho session p d k h cid pc w
                | Weapon _ _ \<Rightarrow> reply session ''huh? (try: equip <item> | wear <item> | wield <item>)'' w
                | Armor _ _ _ \<Rightarrow> reply session ''huh? (try: equip <item> | wear <item> | wield <item>)'' w
                | Misc \<Rightarrow> reply session ''huh? (you can't use that)'' w)))"

text \<open>The verb of the line: whether it uses, and what is left of the line.\<close>

definition use_verb :: "string \<Rightarrow> (bool \<times> string) option" where
  "use_verb lc =
     (case strip_prefix ''use '' lc of
        Some r \<Rightarrow> Some (True, r)
      | None \<Rightarrow>
          (case strip_prefix ''cast '' lc of
             Some r \<Rightarrow> Some (True, r)
           | None \<Rightarrow>
               (case strip_prefix ''invoke '' lc of
                  Some r \<Rightarrow> Some (True, r)
                | None \<Rightarrow>
                    (case strip_prefix ''quaff '' lc of
                       Some r \<Rightarrow> Some (False, r)
                     | None \<Rightarrow> map_option (Pair False) (strip_prefix ''drink '' lc)))))"

definition use_usage :: string where
  "use_usage = ''huh? (try: use power_strike | use bandage | quaff fruity)''"

text \<open>
  The active character and its identifier. A line is only handled while the session's active
  character exists, so the second case does not occur.
\<close>

definition with_active :: "nat \<Rightarrow> world \<Rightarrow> (nat \<Rightarrow> character \<Rightarrow> world) \<Rightarrow> world" where
  "with_active session w body =
     (case active_char_id w session of
        None \<Rightarrow> not_attached session w
      | Some cid \<Rightarrow> (case w_chars w cid of None \<Rightarrow> w | Some pc \<Rightarrow> body cid pc))"

definition cmd_use :: command where
  "cmd_use ho session p line w =
     (let lc = to_ascii_lowercase line in
      if lc = ''use'' then Some (reply session use_usage w)
      else if lc = ''cast'' then Some (reply session ''huh? (try: cast magic_missile | cast heal)'' w)
      else if lc \<in> {''quaff'', ''drink''} then Some (reply session ''huh? (try: quaff fruity)'' w)
      else
        (case use_verb lc of
           None \<Rightarrow> None
         | Some (is_use, rest) \<Rightarrow>
             (let token = trim rest in
              if token = [] then Some (reply session use_usage w)
              else Some (with_active session w (\<lambda>cid pc.
                if w_now_ms w < c_stunned_until_ms pc then reply session ''huh? (you are stunned)'' w
                else
                  (case (if is_use then Option.bind (c_class pc) (\<lambda>cls. find_skill_for_class cls token)
                         else None) of
                     Some d \<Rightarrow> use_skill ho session p d cid pc w
                   | None \<Rightarrow>
                       (case find_drink token of
                          Some drink \<Rightarrow> quaff ho session p drink cid w
                        | None \<Rightarrow> use_item ho session p is_use token cid pc w)))))))"

section \<open>The contract\<close>

lemma with_active_grows: "(\<And>cid pc. grows w (body cid pc)) \<Longrightarrow> grows w (with_active session w body)"
  by (simp add: with_active_def split: option.split)

lemma tame_skill [simp]:
  "tame (trained d rank)" "tame (spend_skill now d)" "tame (heal_char amount)" "tame drink_up"
  by (simp_all add: tame_def trained_def spend_skill_def heal_char_def drink_up_def)

lemma train_grows: "grows w (train_skill session token cid w)"
  by (simp add: train_skill_def Let_def case_prod_beta grows_upd split: option.split)

lemma cmd_train_keeps: "world_command cmd_train"
  by unfold_locales
    (auto simp: cmd_train_def Let_def train_grows split: if_splits option.splits)

lemma cmd_skills_keeps: "world_command cmd_skills"
  by unfold_locales (auto simp: cmd_skills_def Let_def split: if_splits option.splits)

lemma damage_grows:
  assumes "orders_ok ho"
  shows "grows w (snd (apply_damage_to_player ho a t dmg msg w))"
    "grows w (snd (apply_damage_to_mob ho a t dmg msg w))"
  using assms by (auto intro!: growsI simp: apply_damage_to_player_ok apply_damage_to_mob_ok)

lemma stop_fighting_grows: "grows w (stop_fighting cid w)"
  by (rule growsI) (auto simp: stop_fighting_def)

lemma apply_stun_ids [simp]: "w_next_char_id (apply_stun ho a t ms w) = w_next_char_id w"
  by (simp add: apply_stun_def Let_def split: option.split)

lemma stun_grows: "grows w (apply_stun ho a t ms w)"
  by (rule growsI) auto

lemma use_on_target_grows:
  assumes "orders_ok ho"
  shows "grows w (use_on_target ho session p d amount a t w)"
proof -
  have dr: "grows w (drain ho v)" if "grows w v" for v
    by (rule grows_trans [OF that drain_grows [OF assms]])
  note dg = damage_grows [OF assms]
  show ?thesis
    unfolding use_on_target_def Let_def case_prod_beta
    by (simp add: dr dg grows_trans [OF dg(1) stop_fighting_grows] grows_trans [OF dg(2) stop_fighting_grows]
        grows_trans [OF dg(1) stun_grows] grows_trans [OF dg(2) stun_grows])
qed

lemma use_on_self_grows:
  assumes "orders_ok ho"
  shows "grows w (use_on_self ho session p d amount a w)"
  unfolding use_on_self_def Let_def
  by (rule grows_trans [OF _ drain_grows [OF assms]]) (simp add: grows_upd)

lemma use_skill_grows:
  assumes "orders_ok ho"
  shows "grows w (use_skill ho session p d a pc w)"
proof -
  have s: "grows w (upd_char a (spend_skill now d) w)" for now by (simp add: grows_upd)
  show ?thesis
    by (auto simp: use_skill_def Let_def s split: option.split skill_target.split
        intro: grows_trans [OF s use_on_target_grows [OF assms]]
          grows_trans [OF s use_on_self_grows [OF assms]])
qed

lemma take_one_grows: "inv_take_one cid item w = (ok, v) \<Longrightarrow> grows w v"
  by (auto simp: inv_take_one_def Let_def grows_upd case_prod_beta split: option.splits)

lemma quaff_grows: "grows w (quaff ho session p drink cid w)"
  by (auto simp: quaff_def Let_def split: prod.split bool.split
      intro: take_one_grows grows_trans [OF take_one_grows grows_upd])

lemma use_item_grows: "grows w (use_item ho session p is_use token cid pc w)"
  by (auto simp: use_item_def use_consumable_def Let_def
      split: prod.split bool.split option.split item_kind.split item_key_match.split
      intro: take_one_grows grows_trans [OF take_one_grows grows_upd])

lemma cmd_use_keeps: "world_command cmd_use"
  by unfold_locales
    (auto simp: cmd_use_def Let_def split: if_splits option.splits
      intro!: with_active_grows use_skill_grows quaff_grows use_item_grows split: option.split)

end
