(* ===== verification/ItemCmds.thy ===== *)
theory ItemCmds
  imports SkillCmds
begin

text \<open>
  Inventory, equipment, the tavern's trade, and picking a fight (\<open>handle_broker\<close> in
  \<open>apps/shard_01/src/main.rs\<close>).
\<close>

section \<open>Showing what one has\<close>

definition cmd_menu :: command where
  "cmd_menu ho session p line w =
     (if to_ascii_lowercase line = ''menu'' then
        Some (if c_room_id p = room_tavern then say session render_tavern_sign w
              else reply session ''huh? (no menu here)'' w)
      else None)"

definition cmd_inventory :: command where
  "cmd_inventory ho session p line w =
     (let lc = to_ascii_lowercase line in
      if lc \<in> {''i'', ''inv'', ''inventory''} then Some (say session (render_inventory (ho_str ho) p) w)
      else if lc \<in> {''eq'', ''equip'', ''equipment''} then
        Some (say session
          (case w_chars w (c_id p) of None \<Rightarrow> ''huh?'' @ crlf | Some c \<Rightarrow> render_equipment c) w)
      else None)"

section \<open>Putting on\<close>

definition equip_verb :: "string \<Rightarrow> (string \<times> string) option" where
  "equip_verb lc =
     (case strip_prefix ''equip '' lc of
        Some r \<Rightarrow> Some (''equip'', r)
      | None \<Rightarrow>
          (case strip_prefix ''wear '' lc of
             Some r \<Rightarrow> Some (''wear'', r)
           | None \<Rightarrow> map_option (Pair ''wield'') (strip_prefix ''wield '' lc)))"

text \<open>Why an item of this kind does not go on by this verb.\<close>

definition verb_refusal :: "string \<Rightarrow> item_kind \<Rightarrow> string option" where
  "verb_refusal verb k =
     (if verb = ''wear'' then
        (case k of Armor _ _ _ \<Rightarrow> None | _ \<Rightarrow> Some ''huh? (you can't wear that)'')
      else if verb = ''wield'' then
        (case k of Weapon _ _ \<Rightarrow> None | _ \<Rightarrow> Some ''huh? (you can't wield that)'')
      else None)"

definition size_refusal :: "item_def \<Rightarrow> character \<Rightarrow> string option" where
  "size_refusal d pc =
     (case it_size d of
        None \<Rightarrow> None
      | Some z \<Rightarrow>
          (case c_race pc of
             None \<Rightarrow> Some ''huh? (pick a race first: race list)''
           | Some rc \<Rightarrow> if z \<noteq> race_size rc then Some ''huh? (that doesn't fit you)'' else None))"

definition slot_refusal :: "equip_slot \<Rightarrow> character \<Rightarrow> string option" where
  "slot_refusal slot pc =
     map_option (\<lambda>cur. ''huh? (you're already wearing something there: '' @ cur @ '')'') (c_equip pc slot)"

text \<open>The slot an item may go to, or the reply.\<close>

definition equip_check :: "string \<Rightarrow> item_def \<Rightarrow> character \<Rightarrow> string + equip_slot" where
  "equip_check verb d pc =
     (case verb_refusal verb (it_kind d) of
        Some msg \<Rightarrow> Inl msg
      | None \<Rightarrow>
          (case item_equip_slot d of
             None \<Rightarrow> Inl ''huh? (you can't equip that)''
           | Some slot \<Rightarrow>
               (case size_refusal d pc of
                  Some msg \<Rightarrow> Inl msg
                | None \<Rightarrow>
                    (case slot_refusal slot pc of Some msg \<Rightarrow> Inl msg | None \<Rightarrow> Inr slot))))"

definition put_on :: "equip_slot \<Rightarrow> string \<Rightarrow> character \<Rightarrow> character" where
  "put_on slot item c = c\<lparr>c_equip := equipment_set (c_equip c) slot item\<rparr>"

definition equip_item ::
  "hash_orders \<Rightarrow> nat \<Rightarrow> character \<Rightarrow> string \<Rightarrow> string \<Rightarrow> nat \<Rightarrow> character \<Rightarrow> world \<Rightarrow> world" where
  "equip_item ho session p verb token cid pc w =
     (case find_item_key_in_inventory (ho_str ho) (c_inv pc) token of
        KeyAmbiguous xs \<Rightarrow> reply session (ambiguous_items xs) w
      | KeyNone \<Rightarrow> reply session ''huh? (you don't have that)'' w
      | KeyOne k \<Rightarrow>
          (case find_item_def k of
             None \<Rightarrow> reply session ''huh? (you can't equip that)'' w
           | Some d \<Rightarrow>
               (case equip_check verb d pc of
                  Inl msg \<Rightarrow> reply session msg w
                | Inr slot \<Rightarrow>
                    (case inv_take_one cid k w of
                       (False, w) \<Rightarrow> reply session ''huh? (you don't have that)'' w
                     | (True, w) \<Rightarrow>
                         (let w = upd_char cid (put_on slot k) w;
                              w = reply session (''you equip '' @ k @ ''.'') w
                          in broadcast_room ho (c_room_id p) (''* '' @ c_name p @ '' equips '' @ k @ ''.'') w)))))"

definition cmd_equip :: command where
  "cmd_equip ho session p line w =
     (let lc = to_ascii_lowercase line in
      if lc = ''wear'' then Some (reply session ''huh? (try: wear tunic)'' w)
      else if lc = ''wield'' then Some (reply session ''huh? (try: wield sword)'' w)
      else if lc = ''equip'' then Some w
      else
        (case equip_verb lc of
           None \<Rightarrow> None
         | Some (verb, rest) \<Rightarrow>
             (let token = trim rest in
              if token = [] then Some (reply session ''huh? (try: equip sword)'' w)
              else Some (with_active session w (\<lambda>cid pc. equip_item ho session p verb token cid pc w)))))"

section \<open>Taking off\<close>

definition remove_verb :: "string \<Rightarrow> string option" where
  "remove_verb lc =
     (case strip_prefix ''remove '' lc of
        Some r \<Rightarrow> Some r
      | None \<Rightarrow>
          (case strip_prefix ''unequip '' lc of
             Some r \<Rightarrow> Some r
           | None \<Rightarrow>
               (case strip_prefix ''unwear '' lc of
                  Some r \<Rightarrow> Some r
                | None \<Rightarrow> strip_prefix ''unwield '' lc)))"

definition take_off :: "equip_slot \<Rightarrow> character \<Rightarrow> character" where
  "take_off slot c = c\<lparr>c_equip := snd (equipment_clear (c_equip c) slot)\<rparr>"

definition worn_items :: "character \<Rightarrow> string list" where
  "worn_items c = List.map_filter (c_equip c) equip_slot_all"

definition take_off_all :: "character \<Rightarrow> character" where
  "take_off_all c = foldl (\<lambda>c slot. take_off slot c) c equip_slot_all"

definition remove_everything :: "hash_orders \<Rightarrow> nat \<Rightarrow> character \<Rightarrow> nat \<Rightarrow> character \<Rightarrow> world \<Rightarrow> world" where
  "remove_everything ho session p cid pc w =
     (if worn_items pc = [] then reply session ''you aren't wearing anything.'' w
      else
        (let w = upd_char cid take_off_all w;
             w = foldl (\<lambda>w item. inv_add cid item 1 w) w (worn_items pc);
             w = reply session ''you remove everything.'' w
         in broadcast_room ho (c_room_id p) (''* '' @ c_name p @ '' removes some gear.'') w))"

definition remove_slot ::
  "hash_orders \<Rightarrow> nat \<Rightarrow> character \<Rightarrow> equip_slot \<Rightarrow> nat \<Rightarrow> character \<Rightarrow> world \<Rightarrow> world" where
  "remove_slot ho session p slot cid pc w =
     (case fst (equipment_clear (c_equip pc) slot) of
        None \<Rightarrow> reply session ''huh? (nothing there)'' w
      | Some item \<Rightarrow>
          (let w = inv_add cid item 1 (upd_char cid (take_off slot) w);
               w = reply session (''you remove '' @ item @ ''.'') w
           in broadcast_room ho (c_room_id p) (''* '' @ c_name p @ '' removes '' @ item @ ''.'') w))"

definition remove_item :: "hash_orders \<Rightarrow> nat \<Rightarrow> character \<Rightarrow> string \<Rightarrow> nat \<Rightarrow> character \<Rightarrow> world \<Rightarrow> world" where
  "remove_item ho session p token cid pc w =
     (if eq_ignore_ascii_case token ''all'' then remove_everything ho session p cid pc w
      else
        (case equip_slot_parse token of
           Some slot \<Rightarrow> remove_slot ho session p slot cid pc w
         | None \<Rightarrow>
             (case find_equipped_slot_by_token (c_equip pc) token of
                SlotOne slot \<Rightarrow> remove_slot ho session p slot cid pc w
              | SlotAmbiguous _ \<Rightarrow>
                  reply session ''huh? (ambiguous; try removing by slot: remove body)'' w
              | SlotNone \<Rightarrow> reply session ''huh? (you're not wearing that)'' w)))"

definition cmd_remove :: command where
  "cmd_remove ho session p line w =
     (let lc = to_ascii_lowercase line; usage = ''huh? (try: remove body)'' in
      if lc \<in> {''remove'', ''unequip''} then Some (reply session usage w)
      else
        (case remove_verb lc of
           None \<Rightarrow> None
         | Some rest \<Rightarrow>
             (let token = trim rest in
              if token = [] then Some (reply session usage w)
              else Some (with_active session w (\<lambda>cid pc. remove_item ho session p token cid pc w)))))"

section \<open>Picking a fight\<close>

text \<open>Why one player may not attack another.\<close>

definition pvp_refusal :: "world \<Rightarrow> character \<Rightarrow> nat \<Rightarrow> nat \<Rightarrow> string option" where
  "pvp_refusal w p attacker_id target_id =
     (let wants = (\<lambda>cid. case w_chars w cid of None \<Rightarrow> False | Some c \<Rightarrow> c_pvp_enabled c) in
      if attacker_id = target_id then Some ''huh? (can't target yourself)''
      else if \<not> is_pvp_room (c_room_id p) then Some ''huh? (not a pvp room)''
      else if \<not> wants attacker_id then Some ''huh? (pvp is off; try: pvp on)''
      else if \<not> wants target_id then Some ''huh? (target has pvp off)''
      else if \<not> can_pvp_ids w attacker_id target_id then Some ''huh? (pvp not allowed)''
      else None)"

definition attack ::
  "hash_orders \<Rightarrow> nat \<Rightarrow> character \<Rightarrow> nat \<Rightarrow> character \<Rightarrow> nat \<Rightarrow> world \<Rightarrow> world" where
  "attack ho session p attacker_id att target_id w =
     (case (if is_player_id w target_id then pvp_refusal w p attacker_id target_id else None) of
        Some msg \<Rightarrow> reply session msg w
      | None \<Rightarrow>
          (if cs_autoattack (c_combat att) \<and> cs_target (c_combat att) = Some target_id then
             drain ho (reply session ''autoattack off'' (stop_fighting attacker_id w))
           else drain ho (start_combat ho attacker_id target_id (reply session ''you attack.'' w))))"

definition kill_target ::
  "hash_orders \<Rightarrow> nat \<Rightarrow> character \<Rightarrow> string \<Rightarrow> nat \<Rightarrow> character \<Rightarrow> world \<Rightarrow> world" where
  "kill_target ho session p target cid att w =
     (if w_now_ms w < c_stunned_until_ms att then reply session ''huh? (you are stunned)'' w
      else if target = [] then reply session ''huh? (try: kill stenchworm)'' w
      else
        (case (case find_mob_in_room ho w (c_room_id p) target of
                 Some i \<Rightarrow> Some i | None \<Rightarrow> find_player_in_room ho w (c_room_id p) target) of
           None \<Rightarrow> reply session ''huh? (no such thing to kill here)'' w
         | Some target_id \<Rightarrow>
             (if \<not> is_built p then reply session ''finish setup first (race/class)'' w
              else attack ho session p cid att target_id w)))"

definition cmd_kill :: command where
  "cmd_kill ho session p line w =
     (let lc = to_ascii_lowercase line in
      if lc = ''kill'' then
        (case w_chars w (c_id p) of
           Some c \<Rightarrow>
             (if cs_autoattack (c_combat c) then
                Some (reply session ''autoattack off'' (stop_fighting (c_id p) w))
              else Some (reply session ''huh? (try: kill stenchworm)'' w))
         | None \<Rightarrow> Some (reply session ''huh? (try: kill stenchworm)'' w))
      else
        (case strip_prefix ''kill '' lc of
           None \<Rightarrow> None
         | Some rest \<Rightarrow>
             Some (with_active session w (\<lambda>cid att. kill_target ho session p (trim rest) cid att w))))"

section \<open>The tavern\<close>

definition add_gold :: "nat \<Rightarrow> character \<Rightarrow> character" where
  "add_gold n c = c\<lparr>c_gold := sat_add32 (c_gold c) n\<rparr>"

definition sell_request :: "string \<Rightarrow> nat \<times> string" where
  "sell_request rest =
     (if prefix ''all '' rest then (u32_max, trim (drop 4 rest))
      else opt_or (1, rest) (parse_qty_and_item rest))"

definition sell_pouches :: "nat \<Rightarrow> nat \<Rightarrow> nat \<Rightarrow> world \<Rightarrow> world" where
  "sell_pouches session qty cid w =
     (let (taken, w) = inv_take_n cid ''stenchpouch'' qty w in
      if taken = 0 then reply session ''bartender: you don't have any stenchpouches.'' w
      else reply session (''bartender: fine. '' @ show_nat taken @ ''g.'') (upd_char cid (add_gold taken) w))"

definition cmd_sell :: command where
  "cmd_sell ho session p line w =
     (let lc = to_ascii_lowercase line; usage = ''huh? (try: sell stenchpouch 2)'' in
      if lc = ''sell'' then Some (reply session usage w)
      else
        (case strip_prefix ''sell '' lc of
           None \<Rightarrow> None
         | Some rest \<Rightarrow>
             (if c_room_id p \<noteq> room_tavern then Some (reply session ''huh? (no buyer here)'' w)
              else if w_bartender_id w = None then
                Some (reply session ''bartender isn't here (yet)''
                  (schedule_at_ms (w_now_ms w) EvEnsureTavernMob w))
              else
                (let rest = trim rest; (qty, item) = sell_request rest in
                 if rest = [] then Some (reply session usage w)
                 else if \<not> is_tavern_sellable item then
                   Some (reply session ''bartender: i don't want that.'' w)
                 else Some (with_active session w (\<lambda>cid pc. sell_pouches session qty cid w))))))"

definition deny_lines :: "string list" where
  "deny_lines =
     [''that's a little stiff for you.'', ''woah. not yet. you'll fold like paper.'',
      ''nope. you want to *taste* your drink, right?'', ''you'll come back to that one. trust me.'',
      ''that one bites. pick something softer.'']"

definition pay_drink :: "drink_item \<Rightarrow> character \<Rightarrow> character" where
  "pay_drink d c = c\<lparr>c_gold := c_gold c - dr_cost_gold d, c_inv := bag_add (dr_name d) 1 (c_inv c)\<rparr>"

text \<open>The serving loop: what has been served, and the world.\<close>

fun serve :: "nat \<Rightarrow> nat \<Rightarrow> drink_item \<Rightarrow> nat \<Rightarrow> nat \<Rightarrow> world \<Rightarrow> nat \<times> world" where
  "serve 0 session d cid served w = (served, w)"
| "serve (Suc n) session d cid served w =
     (case w_chars w cid of
        None \<Rightarrow> (served, w)
      | Some pc \<Rightarrow>
          (if c_drink_level pc < dr_min_level d then
             (let i = (c_drink_level pc + dr_num d) mod 4294967296 mod length deny_lines in
              (served, reply session (''bartender: '' @ deny_lines ! i @ '' try a '' @
                 dr_name (drink_menu ! 0) @ ''.'') w))
           else if c_gold pc < dr_cost_gold d then
             (served, reply session (''bartender: that'll be '' @ show_nat (dr_cost_gold d) @ ''g.'') w)
           else serve n session d cid (served + 1) (upd_char cid (pay_drink d) w)))"

definition order_drinks ::
  "hash_orders \<Rightarrow> nat \<Rightarrow> character \<Rightarrow> nat \<Rightarrow> drink_item \<Rightarrow> nat \<Rightarrow> world \<Rightarrow> world" where
  "order_drinks ho session p qty d cid w =
     (let (served, w) = serve qty session d cid 0 w in
      if served = 0 then w
      else broadcast_room ho (c_room_id p)
        (''* bartender slides '' @ c_name p @ '' '' @
         (if served = 1 then ''a '' else show_nat served @ '' '') @ dr_name d @ ''.'') w)"

definition cmd_order :: command where
  "cmd_order ho session p line w =
     (let lc = to_ascii_lowercase line; usage = ''huh? (try: order 1)'' in
      if lc = ''order'' then Some (reply session usage w)
      else
        (case strip_prefix ''order '' lc of
           None \<Rightarrow> None
         | Some rest \<Rightarrow>
             (let rest = trim rest in
              if c_room_id p \<noteq> room_tavern then Some (reply session ''huh? (no bartender here)'' w)
              else if rest = [] then Some (reply session usage w)
              else
                (case parse_qty_and_item rest of
                   None \<Rightarrow> Some (reply session ''huh? (try: order 2 fruity)'' w)
                 | Some (qty, item) \<Rightarrow>
                     (case find_drink item of
                        None \<Rightarrow> Some (reply session ''huh? (try: look sign)'' w)
                      | Some d \<Rightarrow>
                          (if w_bartender_id w = None then
                             Some (reply session ''bartender isn't here (yet)''
                               (schedule_at_ms (w_now_ms w) EvEnsureTavernMob w))
                           else Some (with_active session w (\<lambda>cid pc.
                                  order_drinks ho session p qty d cid w))))))))"

section \<open>The contract\<close>

lemma tame_items [simp]:
  "tame (put_on slot k)" "tame (take_off slot)" "tame take_off_all" "tame (add_gold n)" "tame (pay_drink d)"
proof -
  have all: "c_id (foldl (\<lambda>c slot. take_off slot c) c ss) = c_id c
      \<and> c_controller (foldl (\<lambda>c slot. take_off slot c) c ss) = c_controller c
      \<and> c_room_id (foldl (\<lambda>c slot. take_off slot c) c ss) = c_room_id c" for c ss
    by (induction ss arbitrary: c) (simp_all add: take_off_def)
  then show "tame take_off_all" by (simp add: tame_def take_off_all_def)
qed (simp_all add: tame_def put_on_def take_off_def add_gold_def pay_drink_def)

lemma cmd_menu_keeps: "world_command cmd_menu"
  by unfold_locales (auto simp: cmd_menu_def split: if_splits)

lemma cmd_inventory_keeps: "world_command cmd_inventory"
  by unfold_locales (auto simp: cmd_inventory_def Let_def split: if_splits)

lemma equip_grows: "grows w (equip_item ho session p verb token cid pc w)"
  by (auto simp: equip_item_def Let_def
      split: prod.split bool.split option.split item_key_match.split sum.split
      intro: take_one_grows grows_trans [OF take_one_grows grows_upd])

lemma cmd_equip_keeps: "world_command cmd_equip"
  by unfold_locales
    (auto simp: cmd_equip_def Let_def split: if_splits option.splits intro!: with_active_grows equip_grows)

lemma inv_add_grows: "grows w (inv_add cid item n w)"
  by (simp add: inv_add_def grows_upd)

lemma remove_grows: "grows w (remove_item ho session p token cid pc w)"
proof -
  have "grows w (foldl (\<lambda>w item. inv_add cid item 1 w) (upd_char cid take_off_all w) its)" for its
    by (rule grows_trans [OF grows_upd grows_foldl]) (simp_all add: inv_add_grows)
  moreover have "grows w (inv_add cid item 1 (upd_char cid (take_off slot) w))" for item slot
    by (rule grows_trans [OF grows_upd inv_add_grows]) simp
  ultimately show ?thesis
    by (auto simp: remove_item_def remove_everything_def remove_slot_def Let_def
        split: option.split slot_match.split)
qed

lemma cmd_remove_keeps: "world_command cmd_remove"
  by unfold_locales
    (auto simp: cmd_remove_def Let_def split: if_splits option.splits intro!: with_active_grows remove_grows)

lemma start_combat_ids [simp]: "w_next_char_id (start_combat ho a t w) = w_next_char_id w"
proof -
  have e: "w_next_char_id (engage a t w) = w_next_char_id w" for a t w by (simp add: engage_def)
  have f: "w_next_char_id (first_blows a t w) = w_next_char_id w" for a t w
    by (simp add: first_blows_def Let_def e)
  have n: "w_next_char_id (start_combat_n n ho a t w) = w_next_char_id w" for n
  proof (induction n arbitrary: a w)
    case (Suc n)
    then show ?case by (simp add: Let_def f id_foldl split: option.split)
  qed simp
  show ?thesis unfolding start_combat_def by (rule n)
qed

lemma attack_grows:
  assumes "orders_ok ho"
  shows "grows w (attack ho session p a att t w)"
proof -
  have "grows w (start_combat ho a t (reply session msg w))" for msg
    by (rule growsI) auto
  then show ?thesis
    by (auto simp: attack_def Let_def split: option.split
        intro!: grows_trans [OF _ drain_grows [OF assms]] stop_fighting_grows)
qed

lemma kill_grows: "orders_ok ho \<Longrightarrow> grows w (kill_target ho session p target cid att w)"
  by (simp add: kill_target_def attack_grows split: option.split)

lemma cmd_kill_keeps: "world_command cmd_kill"
  by unfold_locales
    (auto simp: cmd_kill_def Let_def split: if_splits option.splits
      intro!: with_active_grows kill_grows stop_fighting_grows)

lemma schedule_grows: "grows w (schedule_at_ms due k w)"
  by (rule growsI) auto

lemma sell_grows: "grows w (sell_pouches session qty cid w)"
proof -
  have t: "grows w (snd (inv_take_n cid item n w))" for item n
    by (rule growsI) (auto simp: inv_take_n_def Let_def case_prod_beta split: option.split)
  show ?thesis
    by (simp add: sell_pouches_def Let_def case_prod_beta t grows_trans [OF t grows_upd])
qed

lemma cmd_sell_keeps: "world_command cmd_sell"
  by unfold_locales
    (auto simp: cmd_sell_def Let_def case_prod_beta split: if_splits option.splits
      intro!: with_active_grows sell_grows schedule_grows)

lemma serve_grows: "grows w (snd (serve n session d cid served w))"
proof (induction n arbitrary: served w)
  case (Suc n)
  have "grows w (snd (serve n session d cid (Suc served) (upd_char cid (pay_drink d) w)))"
    by (rule grows_trans [OF grows_upd Suc]) simp
  then show ?case by (simp add: Let_def split: option.split)
qed simp

lemma order_grows: "grows w (order_drinks ho session p qty d cid w)"
  using serve_grows [of w qty session d cid 0]
  by (simp add: order_drinks_def Let_def case_prod_beta)

lemma cmd_order_keeps: "world_command cmd_order"
  by unfold_locales
    (auto simp: cmd_order_def Let_def split: if_splits option.splits prod.splits
      intro!: with_active_grows order_grows schedule_grows)

end
