(* ===== verification/SocialCmds.thy ===== *)
theory SocialCmds
  imports ItemCmds
begin

text \<open>
  Speaking, gesturing, whispering, friends, and the switches a character has: bot, assist,
  follow, fighting other players (\<open>handle_broker\<close> in \<open>apps/shard_01/src/main.rs\<close>).
\<close>

section \<open>Speaking in the open\<close>

definition cmd_say :: command where
  "cmd_say ho session p line w =
     (case strip_prefix ''say '' line of
        None \<Rightarrow> None
      | Some msg \<Rightarrow>
          Some (if trim msg = [] then w
                else broadcast_room ho (c_room_id p) (c_name p @ '': '' @ trim msg) w))"

definition cmd_shout :: command where
  "cmd_shout ho session p line w =
     (let lc = to_ascii_lowercase line in
      if lc = ''shout'' then Some (reply session ''huh? (try: shout <msg>)'' w)
      else if lc = ''yell'' then Some (reply session ''huh? (try: yell <msg>)'' w)
      else
        (case (case command_arg line ''shout'' of Some m \<Rightarrow> Some m | None \<Rightarrow> command_arg line ''yell'') of
           None \<Rightarrow> None
         | Some msg \<Rightarrow> Some (broadcast_all_sessions ho (c_name p @ '' shouts: '' @ msg) w)))"

text \<open>The emote commands, each with what it suggests when it has no action.\<close>

definition emote_cmds :: "(string \<times> string) list" where
  "emote_cmds = [(''emote'', ''emote''), (''em'', ''emote''), (''me'', ''me''), (''pose'', ''pose'')]"

definition emote_cmd :: "string \<times> string \<Rightarrow> command" where
  "emote_cmd x ho session p line w =
     (let (cmd, hint) = x in
      if to_ascii_lowercase line = cmd then
        Some (reply session (''huh? (try: '' @ hint @ '' <action>)'') w)
      else
        (case command_arg line cmd of
           None \<Rightarrow> None
         | Some msg \<Rightarrow> Some (broadcast_room ho (c_room_id p) (''* '' @ c_name p @ '' '' @ msg) w)))"

definition gestures :: "(string \<times> string) list" where
  "gestures =
     [(''dance'', ''dances''), (''smile'', ''smiles''), (''nod'', ''nods''), (''bow'', ''bows''),
      (''laugh'', ''laughs''), (''wink'', ''winks''), (''salute'', ''salutes'')]"

definition cmd_gesture :: command where
  "cmd_gesture ho session p line w =
     map_option (\<lambda>verb. broadcast_room ho (c_room_id p) (''* '' @ c_name p @ '' '' @ verb) w)
       (map_of gestures (to_ascii_lowercase line))"

definition cmd_emote :: command where
  "cmd_emote = first_of (map emote_cmd emote_cmds @ [cmd_gesture])"

section \<open>Speaking to one\<close>

definition tell_player :: "hash_orders \<Rightarrow> nat \<Rightarrow> character \<Rightarrow> bool \<Rightarrow> string \<Rightarrow> string \<Rightarrow> world \<Rightarrow> world" where
  "tell_player ho session p whisper who msg w =
     (case find_player_by_prefix ho w who of
        None \<Rightarrow> reply session ''tell: no such player (or ambiguous)'' w
      | Some tgt_id \<Rightarrow>
          (if tgt_id = c_id p then reply session ''tell: (to yourself)'' w
           else
             (case controller_of w tgt_id of
                None \<Rightarrow> reply session ''tell: player is not online'' w
              | Some tgt_sid \<Rightarrow>
                  (let tgt_name = (case w_chars w tgt_id of None \<Rightarrow> who | Some c \<Rightarrow> c_name c);
                       w = reply tgt_sid
                             (c_name p @ (if whisper then '' whispers: '' else '' tells you: '') @ msg) w
                   in reply session
                        ((if whisper then ''you whisper '' else ''you tell '') @ tgt_name @ '': '' @ msg) w))))"

definition cmd_tell :: command where
  "cmd_tell ho session p line w =
     (let lc = to_ascii_lowercase line in
      if lc = ''tell'' then Some (reply session ''huh? (try: tell <player> <msg>)'' w)
      else
        (case parse_tell_args line ''tell'' of
           Some (who, msg) \<Rightarrow> Some (tell_player ho session p False who msg w)
         | None \<Rightarrow>
             (if lc = ''whisper'' then Some (reply session ''huh? (try: whisper <player> <msg>)'' w)
              else map_option (\<lambda>(who, msg). tell_player ho session p True who msg w)
                     (parse_tell_args line ''whisper''))))"

section \<open>Friends\<close>

text \<open>Names in the order without case, then by their bytes.\<close>

definition sort_names :: "string list \<Rightarrow> string list" where
  "sort_names ns = sort_key to_ascii_lowercase (sort ns)"

definition add_friend :: "string \<Rightarrow> character \<Rightarrow> character" where
  "add_friend f c = c\<lparr>c_friends := insert f (c_friends c)\<rparr>"

definition drop_friend :: "string \<Rightarrow> character \<Rightarrow> character" where
  "drop_friend f c = c\<lparr>c_friends := {g \<in> c_friends c. \<not> eq_ignore_ascii_case g f}\<rparr>"

definition my_friends :: "hash_orders \<Rightarrow> world \<Rightarrow> nat \<Rightarrow> string list" where
  "my_friends ho w cid =
     (case w_chars w cid of None \<Rightarrow> [] | Some c \<Rightarrow> set_elems (ho_str ho) (c_friends c))"

definition friends_add :: "hash_orders \<Rightarrow> nat \<Rightarrow> character \<Rightarrow> string \<Rightarrow> world \<Rightarrow> world" where
  "friends_add ho session p rest w =
     (if rest = [] then reply session ''usage: friends add <player>'' w
      else
        (case find_player_by_prefix ho w rest of
           None \<Rightarrow> reply session ''friends: no such player (or ambiguous)'' w
         | Some tgt_id \<Rightarrow>
             (let tgt_name = (case w_chars w tgt_id of None \<Rightarrow> rest | Some c \<Rightarrow> c_name c) in
              if tgt_id = c_id p then reply session ''friends: can't add yourself'' w
              else if list_ex (\<lambda>f. eq_ignore_ascii_case f tgt_name) (my_friends ho w (c_id p)) then
                reply session ''friends: already added'' w
              else reply session (''friends: added '' @ tgt_name)
                (upd_char (c_id p) (add_friend tgt_name) w))))"

definition friend_matches :: "string list \<Rightarrow> string \<Rightarrow> string list" where
  "friend_matches fs rest =
     (case filter (\<lambda>f. eq_ignore_ascii_case f rest) fs of
        [] \<Rightarrow> filter (\<lambda>f. prefix (norm_key rest) (to_ascii_lowercase f)) fs
      | ms \<Rightarrow> ms)"

definition friends_del :: "hash_orders \<Rightarrow> nat \<Rightarrow> character \<Rightarrow> string \<Rightarrow> world \<Rightarrow> world" where
  "friends_del ho session p rest w =
     (if rest = [] then reply session ''usage: friends del <player>'' w
      else if w_chars w (c_id p) = None then reply session ''huh?'' w
      else
        (case friend_matches (my_friends ho w (c_id p)) rest of
           [] \<Rightarrow> reply session ''friends: not found'' w
         | [target] \<Rightarrow>
             reply session (''friends: removed '' @ target) (upd_char (c_id p) (drop_friend target) w)
         | ms \<Rightarrow>
             reply session (''friends: ambiguous; try one of: '' @ join_with '', '' (sort_names ms)) w))"

text \<open>The rest of the line after the first of the prefixes that fits, in lower case, trimmed.\<close>

fun after_prefix :: "string list \<Rightarrow> string \<Rightarrow> string option" where
  "after_prefix [] line = None"
| "after_prefix (q # qs) line =
     (if prefix q (to_ascii_lowercase line) then Some (trim (drop (length q) line))
      else after_prefix qs line)"

definition cmd_friends :: command where
  "cmd_friends ho session p line w =
     (let lc = to_ascii_lowercase line in
      if lc \<in> {''friends'', ''friend'', ''friends list'', ''friend list''} then
        (let names = sort_names (my_friends ho w (c_id p)) in
         Some (say session (crlf_lines ([''friends:''] @
           (if names = [] then ['' - nobody''] else map (\<lambda>n. '' - '' @ n) names) @
           [''usage: friends add <player> | friends del <player>''])) w))
      else if lc \<in> {''friends add'', ''friend add''} then
        Some (reply session ''usage: friends add <player>'' w)
      else
        (case after_prefix [''friends add '', ''friend add ''] line of
           Some rest \<Rightarrow> Some (friends_add ho session p rest w)
         | None \<Rightarrow>
             (if lc \<in> {''friends del'', ''friends remove'', ''friends rm'', ''friend del'',
                  ''friend remove'', ''friend rm''} then
                Some (reply session ''usage: friends del <player>'' w)
              else
                map_option (\<lambda>rest. friends_del ho session p rest w)
                  (after_prefix [''friends del '', ''friends rm '', ''friends remove '', ''friend del '',
                     ''friend rm '', ''friend remove ''] line))))"

section \<open>Switches\<close>

definition set_bot :: "bool \<Rightarrow> nat \<Rightarrow> character \<Rightarrow> character" where
  "set_bot b now c = c\<lparr>c_is_bot := b, c_bot_mode_changed_ms := now\<rparr>"

definition ask_bot_on :: "nat \<Rightarrow> nat \<Rightarrow> world \<Rightarrow> world" where
  "ask_bot_on session cid w =
     w\<lparr>w_sessions := (w_sessions w)(session :=
        map_option (\<lambda>ss. ss\<lparr>ss_pending_confirm := Some (BotOn cid)\<rparr>) (w_sessions w session))\<rparr>"

definition bot_switch_on :: "nat \<Rightarrow> nat \<Rightarrow> world \<Rightarrow> world" where
  "bot_switch_on session cid w =
     (case w_chars w cid of
        None \<Rightarrow> reply session ''huh?'' w
      | Some c \<Rightarrow>
          (if c_is_bot c then reply session ''bot: already on'' w
           else if \<not> c_bot_ever c then
             say session (crlf_lines [''bot: are you sure?'', ''type: yes | no'']) (ask_bot_on session cid w)
           else reply session ''bot: on'' (upd_char cid (set_bot True (w_now_ms w)) w)))"

definition cmd_bot :: command where
  "cmd_bot ho session p line w =
     (let lc = to_ascii_lowercase line; cid = c_id p;
          on = (case w_chars w cid of None \<Rightarrow> False | Some c \<Rightarrow> c_is_bot c)
      in if lc = ''bot'' then
           Some (say session (crlf_lines [''bot: '' @ on_off on, ''usage: bot on|off'']) w)
         else if lc = ''bot off'' then
           Some (if w_chars w cid = None then w
                 else if on then reply session ''bot: off'' (upd_char cid (set_bot False (w_now_ms w)) w)
                 else reply session ''bot: already off'' w)
         else if lc = ''bot on'' then Some (bot_switch_on session cid w)
         else None)"

definition parse_on_off :: "string \<Rightarrow> bool option" where
  "parse_on_off v = (if v = ''on'' then Some True else if v = ''off'' then Some False else None)"

definition set_assist :: "bool \<Rightarrow> character \<Rightarrow> character" where
  "set_assist b c = c\<lparr>c_autoassist := b\<rparr>"

definition set_follow :: "bool \<Rightarrow> character \<Rightarrow> character" where
  "set_follow b c = c\<lparr>c_follow_leader := b\<rparr>"

definition set_pvp :: "bool \<Rightarrow> character \<Rightarrow> character" where
  "set_pvp b c = c\<lparr>c_pvp_enabled := b\<rparr>"

definition cmd_assist :: command where
  "cmd_assist ho session p line w =
     (let lc = to_ascii_lowercase line; usage = ''huh? (try: assist on|off)'' in
      if lc = ''assist'' then Some (reply session usage w)
      else
        map_option (\<lambda>rest.
            case parse_on_off (trim rest) of
              None \<Rightarrow> reply session usage w
            | Some on \<Rightarrow> reply session (''assist: '' @ on_off on) (upd_active session (set_assist on) w))
          (strip_prefix ''assist '' lc))"

definition cmd_follow :: command where
  "cmd_follow ho session p line w =
     (let lc = to_ascii_lowercase line; usage = ''huh? (try: follow on|off)'' in
      if lc = ''follow'' then Some (reply session usage w)
      else
        map_option (\<lambda>rest.
            case parse_on_off (trim rest) of
              None \<Rightarrow> reply session usage w
            | Some on \<Rightarrow>
                (if Option.bind (active_char_id w session) (w_party_of w) = None then
                   reply session ''huh? (you are not in a party)'' w
                 else reply session (''follow: '' @ on_off on) (upd_active session (set_follow on) w)))
          (strip_prefix ''follow '' lc))"

definition cmd_pvp :: command where
  "cmd_pvp ho session p line w =
     (let lc = to_ascii_lowercase line in
      if lc = ''pvp'' then
        (let on = (case w_chars w (c_id p) of None \<Rightarrow> False | Some c \<Rightarrow> c_pvp_enabled c) in
         Some (reply session (if on then ''pvp: on (arena rooms only)'' else ''pvp: off'') w))
      else
        map_option (\<lambda>rest.
            case parse_on_off (trim rest) of
              None \<Rightarrow> reply session ''huh? (try: pvp on|off)'' w
            | Some on \<Rightarrow> reply session (''pvp: '' @ on_off on) (upd_active session (set_pvp on) w))
          (strip_prefix ''pvp '' lc))"

section \<open>The contract\<close>

lemma tame_switches [simp]:
  "tame (add_friend f)" "tame (drop_friend f)" "tame (set_bot b now)" "tame (set_assist b)"
  "tame (set_follow b)" "tame (set_pvp b)"
  by (simp_all add: tame_def add_friend_def drop_friend_def set_bot_def set_assist_def set_follow_def
      set_pvp_def)

lemma cmd_say_keeps: "world_command cmd_say"
  by unfold_locales (auto simp: cmd_say_def split: option.splits)

lemma cmd_shout_keeps: "world_command cmd_shout"
  by unfold_locales (auto simp: cmd_shout_def Let_def split: if_splits option.splits)

lemma cmd_emote_keeps: "world_command cmd_emote"
proof -
  have "world_command (emote_cmd x)" for x
    by unfold_locales (auto simp: emote_cmd_def Let_def case_prod_beta split: if_splits option.splits)
  moreover have "world_command cmd_gesture"
    by unfold_locales (auto simp: cmd_gesture_def)
  ultimately show ?thesis
    unfolding cmd_emote_def by (intro first_of_keeps) (simp add: list_all_iff)
qed

lemma tell_grows: "grows w (tell_player ho session p whisper who msg w)"
  by (simp add: tell_player_def Let_def split: option.split)

lemma cmd_tell_keeps: "world_command cmd_tell"
  by unfold_locales (auto simp: cmd_tell_def Let_def tell_grows split: if_splits option.splits)

lemma cmd_friends_keeps: "world_command cmd_friends"
proof -
  have "grows w (friends_add ho session p rest w)" for w ho session p rest
    by (simp add: friends_add_def Let_def grows_upd split: option.split)
  moreover have "grows w (friends_del ho session p rest w)" for w ho session p rest
    by (simp add: friends_del_def grows_upd split: list.split)
  ultimately show ?thesis
    by unfold_locales (auto simp: cmd_friends_def Let_def split: if_splits option.splits)
qed

lemma ask_bot_grows: "grows w (ask_bot_on session cid w)"
  unfolding ask_bot_on_def
  by (rule growsI) (auto intro!: sessions_upd_ok simp: option.map_comp comp_def)

lemma cmd_bot_keeps: "world_command cmd_bot"
proof -
  have "grows w (bot_switch_on session cid w)" for session cid w
    by (simp add: bot_switch_on_def grows_upd ask_bot_grows split: option.split)
  then show ?thesis
    by unfold_locales (auto simp: cmd_bot_def Let_def grows_upd split: if_splits)
qed

lemma cmd_assist_keeps: "world_command cmd_assist"
  by unfold_locales
    (auto simp: cmd_assist_def Let_def upd_active_grows split: if_splits option.split)

lemma cmd_follow_keeps: "world_command cmd_follow"
  by unfold_locales
    (auto simp: cmd_follow_def Let_def upd_active_grows split: if_splits option.split)

lemma cmd_pvp_keeps: "world_command cmd_pvp"
  by unfold_locales
    (auto simp: cmd_pvp_def Let_def upd_active_grows split: if_splits option.split)

end
