(* ===== verification/PartyCmds.thy ===== *)
theory PartyCmds
  imports SocialCmds
begin

text \<open>
  Parties, their runs through adventures, who is online, and the characters of a session
  (\<open>handle_broker\<close> in \<open>apps/shard_01/src/main.rs\<close>).
\<close>

section \<open>Making and ending a party\<close>

definition member_sessions :: "hash_orders \<Rightarrow> world \<Rightarrow> party \<Rightarrow> nat list" where
  "member_sessions ho w party = List.map_filter (controller_of w) (set_elems (ho_nat ho) (pt_members party))"

definition name_or :: "string \<Rightarrow> world \<Rightarrow> nat \<Rightarrow> string" where
  "name_or d w cid = (case w_chars w cid of None \<Rightarrow> d | Some c \<Rightarrow> c_name c)"

definition cmd_party :: command where
  "cmd_party ho session p line w =
     (let lc = to_ascii_lowercase line in
      if lc = ''party'' then Some (say session (render_party_status ho w (c_id p)) w)
      else if lc \<in> {''party create'', ''party new''} then
        Some (if w_party_of w (c_id p) \<noteq> None then reply session ''party: you are already in a party'' w
              else
                (let (pid, w) = party_create (c_id p) w in
                 reply session (''party: created (id='' @ show_nat pid @ '')'') w))
      else None)"

text \<open>The party a character leads: an error text, or its identifier and the party.\<close>

definition led_party :: "world \<Rightarrow> nat \<Rightarrow> string \<Rightarrow> string + nat \<times> party" where
  "led_party w cid only_leader =
     (case w_party_of w cid of
        None \<Rightarrow> Inl ''party: you are not in a party''
      | Some pid \<Rightarrow>
          (case w_parties w pid of
             None \<Rightarrow> Inl ''party: internal error''
           | Some party \<Rightarrow>
               (if pt_leader party \<noteq> cid then Inl (''party: only the leader can '' @ only_leader)
                else Inr (pid, party))))"

definition say_disbanded :: "nat \<Rightarrow> string \<Rightarrow> world \<Rightarrow> nat \<Rightarrow> world" where
  "say_disbanded session leader_name w sid =
     reply sid (if sid = session then ''party: disbanded'' else ''party: disbanded by '' @ leader_name) w"

definition cmd_party_disband :: command where
  "cmd_party_disband ho session p line w =
     (if to_ascii_lowercase line \<noteq> ''party disband'' then None
      else
        Some (case led_party w (c_id p) ''disband'' of
           Inl msg \<Rightarrow> reply session msg w
         | Inr (pid, party) \<Rightarrow>
             foldl (say_disbanded session (name_or (c_name p) w (c_id p))) (party_disband pid w)
               (member_sessions ho w party)))"

definition party_kick :: "hash_orders \<Rightarrow> nat \<Rightarrow> character \<Rightarrow> string \<Rightarrow> world \<Rightarrow> world" where
  "party_kick ho session p target w =
     (if target = [] then reply session ''huh? (try: party kick <player>)'' w
      else
        (case led_party w (c_id p) ''kick'' of
           Inl msg \<Rightarrow> reply session msg w
         | Inr (pid, party) \<Rightarrow>
             (case find_player_by_prefix ho w target of
                None \<Rightarrow> reply session ''party: player not found (or ambiguous)'' w
              | Some target_id \<Rightarrow>
                  (if target_id = c_id p then reply session ''party: ok'' w
                   else if w_party_of w target_id \<noteq> Some pid then
                     reply session ''party: that player is not in your party'' w
                   else
                     (let target_sid = controller_of w target_id;
                          w = reply session ''party: kicked'' (party_leave ho target_id w)
                      in case target_sid of
                           None \<Rightarrow> w
                         | Some ts \<Rightarrow> reply ts (''party: you were kicked by '' @ c_name p) w)))))"

text \<open>The one member whose name the token begins; two of them are none.\<close>

fun unique_member :: "(nat \<Rightarrow> bool) \<Rightarrow> nat list \<Rightarrow> nat option \<Rightarrow> nat option" where
  "unique_member P [] found = found"
| "unique_member P (mid # ms) found =
     (if \<not> P mid then unique_member P ms found
      else if found \<noteq> None \<and> found \<noteq> Some mid then None
      else unique_member P ms (Some mid))"

definition member_named :: "world \<Rightarrow> string \<Rightarrow> nat \<Rightarrow> bool" where
  "member_named w t mid =
     (case w_chars w mid of
        None \<Rightarrow> False
      | Some c \<Rightarrow> c_controller c \<noteq> None \<and> prefix t (to_ascii_lowercase (c_name c)))"

definition party_lead :: "hash_orders \<Rightarrow> nat \<Rightarrow> character \<Rightarrow> string \<Rightarrow> world \<Rightarrow> world" where
  "party_lead ho session p target w =
     (if target = [] then reply session ''huh? (try: party lead <player>)'' w
      else
        (case led_party w (c_id p) ''transfer lead'' of
           Inl msg \<Rightarrow> reply session msg w
         | Inr (pid, party) \<Rightarrow>
             (case unique_member (member_named w (to_ascii_lowercase target))
                     (set_elems (ho_nat ho) (pt_members party)) None of
                None \<Rightarrow> reply session ''party: player not found (or ambiguous)'' w
              | Some new_leader \<Rightarrow>
                  (if new_leader = c_id p then reply session ''party: ok'' w
                   else
                     broadcast (member_sessions ho w party)
                       (''party: leader is now '' @ name_or ''someone'' w new_leader)
                       (w\<lparr>w_parties := (w_parties w)(pid \<mapsto> party\<lparr>pt_leader := new_leader\<rparr>)\<rparr>)))))"

section \<open>Invitations\<close>

text \<open>The invitation, once there is a party.\<close>

definition invite_to :: "hash_orders \<Rightarrow> nat \<Rightarrow> character \<Rightarrow> string \<Rightarrow> nat \<Rightarrow> world \<Rightarrow> world" where
  "invite_to ho session p target pid w =
     (case w_parties w pid of
        None \<Rightarrow> reply session ''party: internal error'' w
      | Some party \<Rightarrow>
          (if pt_leader party \<noteq> c_id p then reply session ''party: only the leader can invite'' w
           else
             (case find_player_by_prefix ho w target of
                None \<Rightarrow> reply session ''party: player not found (or ambiguous)'' w
              | Some invitee \<Rightarrow>
                  (if invitee = c_id p then reply session ''party: ok'' w
                   else if w_party_of w invitee \<noteq> None then
                     reply session ''party: that player is already in a party'' w
                   else
                     (let w = w\<lparr>w_party_invites := (w_party_invites w)(invitee \<mapsto>
                                \<lparr>pi_party_id = pid, pi_inviter = c_id p,
                                 pi_expires_ms = sat_add64 (w_now_ms w) 60000\<rparr>)\<rparr>;
                          w = reply session (''party: invited '' @ name_or ''?'' w invitee) w
                      in case controller_of w invitee of
                           None \<Rightarrow> w
                         | Some sid2 \<Rightarrow>
                             reply sid2 (''party invite from '' @ name_or ''someone'' w (c_id p) @
                               ''. type: party accept'') w)))))"

text \<open>An inviter without a party makes one first, whatever becomes of the invitation.\<close>

definition party_invite_cmd :: "hash_orders \<Rightarrow> nat \<Rightarrow> character \<Rightarrow> string \<Rightarrow> world \<Rightarrow> world" where
  "party_invite_cmd ho session p target w =
     (if target = [] then reply session ''huh? (try: party invite <player>)'' w
      else
        (let (pid, w) = (case w_party_of w (c_id p) of
                           Some pid \<Rightarrow> (pid, w) | None \<Rightarrow> party_create (c_id p) w)
         in invite_to ho session p target pid w))"

text \<open>Accepting does not look whether the invitee has joined a party since.\<close>

definition party_accept :: "hash_orders \<Rightarrow> nat \<Rightarrow> nat \<Rightarrow> world \<Rightarrow> world" where
  "party_accept ho session cid w =
     (case w_party_invites w cid of
        None \<Rightarrow> reply session ''party: no pending invites'' w
      | Some i \<Rightarrow>
          (let w = w\<lparr>w_party_invites := (w_party_invites w)(cid := None)\<rparr> in
           if pi_expires_ms i < w_now_ms w then reply session ''party: invite expired'' w
           else
             (case w_parties w (pi_party_id i) of
                None \<Rightarrow> reply session ''party: invite stale'' w
              | Some party \<Rightarrow>
                  (let party = party\<lparr>pt_members := insert cid (pt_members party)\<rparr>;
                       w = w\<lparr>w_parties := (w_parties w)(pi_party_id i \<mapsto> party),
                             w_party_of := (w_party_of w)(cid \<mapsto> pi_party_id i)\<rparr>;
                       w = reply session (''party: joined (id='' @ show_nat (pi_party_id i) @ '')'') w
                   in broadcast (member_sessions ho w party)
                        (''party: '' @ name_or ''someone'' w cid @ '' joined'') w))))"

definition cmd_party_members :: command where
  "cmd_party_members ho session p line w =
     (let lc = to_ascii_lowercase line in
      case strip_prefix ''party kick '' lc of
        Some rest \<Rightarrow> Some (party_kick ho session p (trim rest) w)
      | None \<Rightarrow>
          (case strip_prefix ''party lead '' lc of
             Some rest \<Rightarrow> Some (party_lead ho session p (trim rest) w)
           | None \<Rightarrow>
               (case strip_prefix ''party invite '' lc of
                  Some rest \<Rightarrow> Some (party_invite_cmd ho session p (trim rest) w)
                | None \<Rightarrow>
                    (if lc = ''party accept'' then Some (party_accept ho session (c_id p) w)
                     else if lc = ''party leave'' then
                       Some (if w_party_of w (c_id p) = None
                             then reply session ''party: you are not in a party'' w
                             else reply session ''party: left'' (party_leave ho (c_id p) w))
                     else None))))"

definition cmd_party_say :: command where
  "cmd_party_say ho session p line w =
     map_option (\<lambda>rest.
         let msg = trim rest in
         if msg = [] then reply session ''huh? (try: party say <msg>)'' w
         else
           (case w_party_of w (c_id p) of
              None \<Rightarrow> reply session ''huh? (you are not in a party)'' w
            | Some pid \<Rightarrow>
                party_send ho pid (''[party '' @ show_nat pid @ ''] '' @ c_name p @ '': '' @ msg) w))
       (strip_prefix ''party say '' line)"

section \<open>A run\<close>

definition strip_md :: "string \<Rightarrow> string" where
  "strip_md a = (if suffix ''.md'' a then take (length a - 3) a else a)"

definition run_plan :: "string \<Rightarrow> string \<Rightarrow> string \<Rightarrow> party_build_plan" where
  "run_plan pre aid md =
     (let plan = parse_protoadventure_markdown aid md in
      \<lparr>pb_instance_prefix = pre, pb_rooms = rev (instantiate_rooms pre plan),
       pb_start_room = pre @ ''.'' @ bp_start_room plan\<rparr>)"

definition clear_instance :: "hash_orders \<Rightarrow> string \<Rightarrow> world \<Rightarrow> world" where
  "clear_instance ho pre w =
     (let evac_to = (if has_room (w_rooms w) ''R_TOWN_GATE_01'' then ''R_TOWN_GATE_01''
                     else rm_start_room (w_rooms w));
          w = evacuate_rooms_with_prefix ho pre evac_to w
      in w\<lparr>w_rooms := clear_dyn_rooms_with_prefix (w_rooms w) pre\<rparr>)"

definition start_run :: "hash_orders \<Rightarrow> nat \<Rightarrow> string \<Rightarrow> string \<Rightarrow> world \<Rightarrow> world" where
  "start_run ho pid aid md w =
     (let pre = ''inst.p'' @ show_nat pid;
          w = clear_instance ho pre w;
          w = w\<lparr>w_party_builds := (w_party_builds w)(pid \<mapsto> run_plan pre aid md)\<rparr>;
          w = schedule_at_ms (w_now_ms w) (EvPartyBuildNext pid) w;
          w = party_send ho pid (''party: constructing '' @ aid @ ''...'') w
      in drain ho w)"

definition party_run :: "shard_env \<Rightarrow> hash_orders \<Rightarrow> nat \<Rightarrow> character \<Rightarrow> string \<Rightarrow> world \<Rightarrow> world" where
  "party_run en ho session p adventure w =
     (if adventure = [] then reply session ''huh? (try: party run q1-first-day-on-gaia)'' w
      else
        (case w_party_of w (c_id p) of
           None \<Rightarrow> reply session ''huh? (you are not in a party)'' w
         | Some pid \<Rightarrow>
             (case w_parties w pid of
                None \<Rightarrow> reply session ''party: stale'' w
              | Some party \<Rightarrow>
                  (let aid = strip_md adventure in
                   if pt_leader party \<noteq> c_id p then
                     reply session ''party: only the leader can start a run'' w
                   else if w_party_builds w pid \<noteq> None then
                     reply session ''party: already constructing a run'' w
                   else if CHR ''/'' \<in> set aid \<or> str_contains aid ''..'' \<or> trim aid = [] then
                     reply session ''huh?'' w
                   else
                     (case en_read_file en (''protoadventures/'' @ aid @ ''.md'') of
                        None \<Rightarrow> reply session ''party: adventure not found'' w
                      | Some md \<Rightarrow> start_run ho pid aid md w)))))"

definition cmd_party_run :: "shard_env \<Rightarrow> command" where
  "cmd_party_run en ho session p line w =
     map_option (\<lambda>rest. party_run en ho session p (trim rest) w)
       (strip_prefix ''party run '' (to_ascii_lowercase line))"

section \<open>Who is there\<close>

definition cmd_who :: command where
  "cmd_who ho session p line w =
     (let lc = to_ascii_lowercase line; rows = map (\<lambda>n. '' - '' @ n) in
      if lc = ''who'' then
        Some (say session (crlf_lines (''online (players):'' # rows (online_names ho (\<lambda>_. True) w))) w)
      else if lc = ''botsense'' then
        (let bots = online_names ho c_is_bot w in
         Some (if bots = [] then reply session ''botsense: all clear'' w
               else say session (crlf_lines (''botsense (bot-mode players):'' # rows bots)) w))
      else if lc \<in> {''humans'', ''whomans''} then
        Some (say session
          (crlf_lines (''online (humans):'' # rows (online_names ho (\<lambda>c. \<not> c_is_bot c) w))) w)
      else None)"

section \<open>The characters of a session\<close>

definition forget_controlled :: "nat \<Rightarrow> nat \<Rightarrow> world \<Rightarrow> world" where
  "forget_controlled session cid w =
     w\<lparr>w_sessions := (w_sessions w)(session := map_option (\<lambda>ss.
         let left = filter (\<lambda>x. x \<noteq> cid) (ss_controlled ss) in
         ss\<lparr>ss_controlled := left,
            ss_active := (if ss_active ss = cid \<and> left \<noteq> [] then hd left else ss_active ss)\<rparr>)
       (w_sessions w session))\<rparr>"

definition sessions_drop :: "hash_orders \<Rightarrow> nat \<Rightarrow> string \<Rightarrow> world \<Rightarrow> world" where
  "sessions_drop ho session token w =
     (if token = [] then reply session ''usage: sessions drop <character_id>'' w
      else
        (case w_sessions w session of
           None \<Rightarrow> reply session ''not attached'' w
         | Some ss \<Rightarrow>
             (case parse_uint u64_max token of
                None \<Rightarrow> reply session ''huh? (character_id must be a number)'' w
              | Some cid \<Rightarrow>
                  (if cid \<notin> set (ss_controlled ss) then
                     reply session ''huh? (you don't control that character)'' w
                   else if length (ss_controlled ss) = 1 then
                     reply session ''huh? (can't drop your last character)'' w
                   else
                     (case w_chars w cid of
                        None \<Rightarrow> reply session ''huh? (missing character)'' w
                      | Some c \<Rightarrow>
                          (if c_created_by c \<noteq> Some session then
                             reply session ''huh? (you can only drop characters this session started)'' w
                           else
                             (let w = broadcast_room ho (c_room_id c) (''* '' @ c_name c @ '' disconnects.'') w;
                                  w = forget_controlled session cid (snd (remove_char ho cid w))
                              in reply session (''sessions: dropped '' @ c_name c @ '' ('' @
                                   show_nat (c_id c) @ '')'') w)))))))"

definition cmd_sessions :: command where
  "cmd_sessions ho session p line w =
     (let lc = to_ascii_lowercase line in
      if lc = ''sessions'' then Some (say session (render_sessions_cmd ho w session) w)
      else map_option (\<lambda>rest. sessions_drop ho session (trim rest) w) (strip_prefix ''sessions drop '' lc))"

section \<open>The contract\<close>

lemma active_known:
  assumes "active_char w session = Some p" "world_ok w"
  shows "active_char_id w session = Some (c_id p)" "w_chars w (c_id p) = Some p"
  using assms char_idD [OF assms(2)] by (auto simp: active_char_def split: bind_splits)

lemma create_grows:
  assumes "active_char w session = Some p" "w_party_of w (c_id p) = None" "w_next_party_id w < u64_max"
  shows "grows w (snd (party_create (c_id p) w))"
proof (rule growsI)
  show "world_ok (snd (party_create (c_id p) w))" if "world_ok w"
    using active_known [OF assms(1) that] assms(2,3) that by (intro party_create_ok) auto
qed (simp add: party_create_def Let_def)

lemma cmd_party_keeps: "world_command cmd_party"
  by unfold_locales
    (use create_grows in \<open>auto simp: cmd_party_def Let_def well_asked_def case_prod_beta split: if_splits\<close>)

lemma disband_grows: "grows w (party_disband pid w)"
proof (rule growsI)
  show "w_next_char_id (party_disband pid w) = w_next_char_id w"
    by (simp add: party_disband_def split: option.split)
qed auto

lemma cmd_party_disband_keeps: "world_command cmd_party_disband"
proof -
  have "grows w (foldl (say_disbanded session nm) (party_disband pid w) sids)" for w session nm pid sids
    by (rule grows_trans [OF disband_grows grows_foldl]) (simp add: say_disbanded_def)
  then show ?thesis
    by unfold_locales (auto simp: cmd_party_disband_def split: if_splits sum.split)
qed

lemma leave_grows: "orders_ok ho \<Longrightarrow> grows w (party_leave ho cid w)"
  by (rule growsI) auto

lemma kick_grows: "orders_ok ho \<Longrightarrow> grows w (party_kick ho session p target w)"
  by (auto simp: party_kick_def Let_def leave_grows split: sum.split option.split)

lemma unique_member_in: "unique_member P ms found = Some x \<Longrightarrow> x \<in> set ms \<or> found = Some x"
  by (induction P ms found rule: unique_member.induct) (auto split: if_splits)

lemma new_leader_ok:
  assumes "world_ok w" "w_parties w pid = Some party" "x \<in> pt_members party"
  shows "world_ok (w\<lparr>w_parties := (w_parties w)(pid \<mapsto> party\<lparr>pt_leader := x\<rparr>)\<rparr>)"
proof -
  note wd = world_okD [OF assms(1)]
  have "party_ok ((w_parties w)(pid \<mapsto> party\<lparr>pt_leader := x\<rparr>)) (w_party_of w) (w_next_party_id w)
      (dom (w_chars w))"
    using wd(3) assms(2,3) by (auto simp: party_ok_def)
  with wd show ?thesis by (simp add: world_ok_def)
qed

lemma lead_grows:
  assumes "orders_ok ho"
  shows "grows w (party_lead ho session p target w)"
proof (rule growsI)
  show "w_next_char_id (party_lead ho session p target w) = w_next_char_id w"
    by (simp add: party_lead_def split: sum.split option.split)
  assume ok: "world_ok w"
  have "world_ok (w\<lparr>w_parties := (w_parties w)(pid \<mapsto> party\<lparr>pt_leader := x\<rparr>)\<rparr>)"
    if "led_party w (c_id p) msg = Inr (pid, party)"
      "unique_member P (set_elems (ho_nat ho) (pt_members party)) None = Some x" for msg pid party P x
  proof -
    from that(1) have "w_parties w pid = Some party"
      by (auto simp: led_party_def split: option.splits if_splits)
    with unique_member_in [OF that(2)] members_elems [OF ok assms] show ?thesis
      by (intro new_leader_ok [OF ok]) auto
  qed
  then show "world_ok (party_lead ho session p target w)"
    using ok by (auto simp: party_lead_def split: sum.split option.split)
qed

lemma invite_to_grows: "grows w (invite_to ho session p target pid w)"
  by (rule growsI) (auto simp: invite_to_def Let_def split: option.split)

lemma invite_grows:
  assumes "active_char w session = Some p" "w_next_party_id w < u64_max"
  shows "grows w (party_invite_cmd ho session p target w)"
proof (cases "w_party_of w (c_id p)")
  case None
  from grows_trans [OF create_grows [OF assms(1) None assms(2)] invite_to_grows] show ?thesis
    by (simp add: party_invite_cmd_def None case_prod_beta)
next
  case (Some pid)
  then show ?thesis by (simp add: party_invite_cmd_def invite_to_grows)
qed

lemma join_ok:
  assumes "world_ok w" "w_party_of w cid = None" "cid \<in> dom (w_chars w)" "w_parties w pid = Some party"
  shows "world_ok (w\<lparr>w_parties := (w_parties w)(pid \<mapsto> party\<lparr>pt_members := insert cid (pt_members party)\<rparr>),
      w_party_of := (w_party_of w)(cid \<mapsto> pid)\<rparr>)"
proof -
  note wd = world_okD [OF assms(1)]
  let ?party = "party\<lparr>pt_members := insert cid (pt_members party)\<rparr>"
  have "party_ok ((w_parties w)(pid \<mapsto> ?party)) ((w_party_of w)(cid \<mapsto> pid)) (w_next_party_id w) (dom (w_chars w))"
  proof (rule party_okI)
    fix i q
    assume "((w_parties w)(pid \<mapsto> ?party)) i = Some q"
    then show "pt_id q = i \<and> i < w_next_party_id w \<and> pt_leader q \<in> pt_members q"
      using party_okD(1) [OF wd(3)] assms(4) by (auto split: if_splits)
  next
    fix x i q
    assume q: "((w_parties w)(pid \<mapsto> ?party)) i = Some q" "x \<in> pt_members q"
    show "((w_party_of w)(cid \<mapsto> pid)) x = Some i \<and> x \<in> dom (w_chars w)"
    proof (cases "x = cid \<and> i = pid")
      case True
      with assms(3) show ?thesis by simp
    next
      case False
      with q assms(4) obtain q0 where "w_parties w i = Some q0" "x \<in> pt_members q0"
        by (auto split: if_splits)
      from party_memberD [OF wd(3) this] assms(2) show ?thesis by auto
    qed
  next
    fix x i
    assume "((w_party_of w)(cid \<mapsto> pid)) x = Some i"
    then show "\<exists>q. ((w_parties w)(pid \<mapsto> ?party)) i = Some q \<and> x \<in> pt_members q"
      using party_ofD [OF wd(3), of x i] assms(4) by (auto split: if_splits)
  qed
  with wd show ?thesis by (simp add: world_ok_def)
qed

lemma accept_grows:
  assumes "active_char w session = Some p" "w_party_of w (c_id p) = None"
  shows "grows w (party_accept ho session (c_id p) w)"
proof (rule growsI)
  show "w_next_char_id (party_accept ho session (c_id p) w) = w_next_char_id w"
    by (simp add: party_accept_def Let_def split: option.split)
  assume ok: "world_ok w"
  note a = active_known [OF assms(1) ok]
  let ?w = "w\<lparr>w_party_invites := (w_party_invites w)(c_id p := None)\<rparr>"
  have "world_ok (?w\<lparr>w_parties := (w_parties ?w)(pid \<mapsto> party\<lparr>pt_members := insert (c_id p) (pt_members party)\<rparr>),
      w_party_of := (w_party_of ?w)(c_id p \<mapsto> pid)\<rparr>)" if "w_parties ?w pid = Some party" for pid party
    by (rule join_ok) (use ok a assms(2) that in auto)
  then show "world_ok (party_accept ho session (c_id p) w)"
    using ok by (auto simp: party_accept_def Let_def split: option.split)
qed

lemma cmd_party_members_keeps: "world_command cmd_party_members"
proof
  fix ho w session p line w'
  assume ho: "orders_ok ho" and act: "active_char w session = Some p" and ask: "well_asked session line w"
    and run: "cmd_party_members ho session p line w = Some w'"
  show "grows w w'"
  proof (cases "world_ok w")
    case True
    with ask active_known [OF act] have
      "to_ascii_lowercase line = ''party accept'' \<Longrightarrow> w_party_of w (c_id p) = None"
      by (simp add: well_asked_def)
    with run ho act ask show ?thesis
      by (auto simp: cmd_party_members_def Let_def well_asked_def
          intro: kick_grows lead_grows invite_grows leave_grows accept_grows
          split: option.splits if_splits)
  next
    case False
    have "w_next_char_id (party_accept ho session cid w) = w_next_char_id w" for cid
      by (simp add: party_accept_def Let_def split: option.split)
    with False run ho act ask show ?thesis
      by (auto simp: cmd_party_members_def Let_def well_asked_def
          intro: kick_grows lead_grows invite_grows leave_grows growsI
          split: option.splits if_splits)
  qed
qed

lemma cmd_party_say_keeps: "world_command cmd_party_say"
  by unfold_locales (auto simp: cmd_party_say_def Let_def split: option.split)

lemma evacuate_ids [simp]: "w_next_char_id (evacuate_rooms_with_prefix ho pre to_room w) = w_next_char_id w"
proof -
  have one: "w_next_char_id (evacuate_one t w c) = w_next_char_id w" for t w c
    by (simp add: evacuate_one_def enter_room_def split: option.split)
  have "w_next_char_id (evacuate_room ho t w r) = w_next_char_id w" for t w r
    by (simp add: evacuate_room_def one id_foldl split: option.split)
  then show ?thesis by (simp add: evacuate_rooms_with_prefix_def id_foldl)
qed

lemma clear_instance_grows: "orders_ok ho \<Longrightarrow> grows w (clear_instance ho pre w)"
  by (rule growsI) (auto simp: clear_instance_def Let_def evacuate_rooms_ok)

lemma start_run_grows:
  assumes "orders_ok ho"
  shows "grows w (start_run ho pid aid md w)"
proof -
  have b: "grows v (v\<lparr>w_party_builds := pb\<rparr>)" for v pb by (simp add: grows_def)
  show ?thesis
    unfolding start_run_def Let_def
    by (rule grows_trans [OF _ drain_grows [OF assms]])
      (auto intro: grows_trans [OF grows_trans [OF clear_instance_grows [OF assms] b] schedule_grows])
qed

lemma cmd_party_run_keeps: "world_command (cmd_party_run en)"
  by unfold_locales
    (auto simp: cmd_party_run_def party_run_def Let_def start_run_grows split: option.split)

lemma cmd_who_keeps: "world_command cmd_who"
  by unfold_locales (auto simp: cmd_who_def Let_def split: if_splits)

lemma forget_controls:
  "controls (w_sessions (forget_controlled session cid w)) sid x
     \<longleftrightarrow> controls (w_sessions w) sid x \<and> \<not> (sid = session \<and> x = cid)"
  by (cases "w_sessions w session") (auto simp: controls_def forget_controlled_def Let_def)

lemma forget_ok:
  assumes "world_ok w" "w_chars w cid = None"
  shows "world_ok (forget_controlled session cid w)"
proof -
  have kept: "controls (w_sessions w) sid x"
    if "w_chars w x = Some c" "c_controller c = Some sid" for x c sid
    using world_okD(4) [OF assms(1)] that unfolding sess_ok_controls by blast
  have held: "x < w_next_char_id w \<and> (\<forall>c. w_chars w x = Some c \<longrightarrow> c_controller c = Some sid)"
    if "controls (w_sessions w) sid x" for x sid
    using world_okD(4) [OF assms(1)] that unfolding sess_ok_controls by blast
  have "sess_ok (w_sessions (forget_controlled session cid w)) (w_chars w) (w_next_char_id w)"
    unfolding sess_ok_controls forget_controls using assms(2) by (auto intro: kept dest!: held)
  then show ?thesis
    using world_okD [OF assms(1)] by (simp add: world_ok_def forget_controlled_def)
qed

lemma remove_ids [simp]: "w_next_char_id (snd (remove_char ho cid w)) = w_next_char_id w"
  by (simp add: remove_char_def Let_def split: option.split)

lemma remove_gone: "w_chars (snd (remove_char ho cid w)) cid = None"
  by (simp add: remove_char_def Let_def split: option.split)

lemma drop_grows:
  assumes "orders_ok ho"
  shows "grows w (forget_controlled session cid (snd (remove_char ho cid (broadcast_room ho r msg w))))"
proof (rule growsI)
  show "w_next_char_id (forget_controlled session cid (snd (remove_char ho cid (broadcast_room ho r msg w))))
      = w_next_char_id w"
    by (simp add: forget_controlled_def)
  show "world_ok (forget_controlled session cid (snd (remove_char ho cid (broadcast_room ho r msg w))))"
    if "world_ok w"
    using that by (intro forget_ok remove_char_ok remove_gone assms) simp
qed

lemma cmd_sessions_keeps: "world_command cmd_sessions"
proof -
  have "grows w (sessions_drop ho session token w)" if "orders_ok ho" for ho w session token
    by (simp add: sessions_drop_def Let_def drop_grows [OF that] split: option.split)
  then show ?thesis
    by unfold_locales (auto simp: cmd_sessions_def Let_def split: if_splits)
qed

end
