(* ===== verification/QuestCmds.thy ===== *)
theory QuestCmds
  imports PartyCmds
begin

text \<open>
  Adventures loaded by hand, the quest keys of a character, the valves, pylons and levers of the
  quests, and walking (\<open>handle_broker\<close> in \<open>apps/shard_01/src/main.rs\<close>).
\<close>

section \<open>Adventures\<close>

text \<open>\<open>list_protoadventures\<close>: \<open>names\<close> are the files of the directory, if it can be read.\<close>

definition list_protoadventures :: "string list option \<Rightarrow> string list" where
  "list_protoadventures names =
     (case names of
        None \<Rightarrow> []
      | Some ns \<Rightarrow>
          sort (map strip_md (filter (\<lambda>n. \<not> eq_ignore_ascii_case n ''README.md''
             \<and> \<not> eq_ignore_ascii_case n ''_TEMPLATE.md'' \<and> \<not> prefix ''_'' n \<and> suffix ''.md'' n) ns)))"

text \<open>The text of the error of \<open>load_protoadventure\<close>.\<close>

definition load_error :: "(string \<Rightarrow> string option) \<Rightarrow> string \<Rightarrow> string" where
  "load_error read_file adventure_id =
     (let a = trim adventure_id; path = ''protoadventures/'' @ a @ ''.md'' in
      if a = [] then ''empty adventure_id''
      else if \<not> adventure_id_ok a then ''invalid adventure_id (allowed: a-z0-9-_)''
      else if read_file path = None then ''read '' @ path
      else ''no rooms parsed (missing or malformed '' @ [CHR 0x27] @ ''## Room Flow'' @ [CHR 0x27] @ '')'')"

definition proto_load :: "shard_env \<Rightarrow> hash_orders \<Rightarrow> nat \<Rightarrow> string \<Rightarrow> world \<Rightarrow> world" where
  "proto_load en ho session rest w =
     (let a0 = to_ascii_lowercase (trim rest); a = strip_md a0 in
      if a0 = [] then reply session ''huh? (try: proto list | proto <adventure_id>)'' w
      else if \<not> adventure_id_ok a then reply session ''huh? (invalid adventure_id)'' w
      else
        (case load_protoadventure ho (en_read_file en) a w of
           (None, w) \<Rightarrow>
             reply session (''proto: failed to load '' @ a @ '': '' @ load_error (en_read_file en) a) w
         | (Some start, w) \<Rightarrow> teleport_to ho session start ''enters'' w))"

definition proto_exit :: "hash_orders \<Rightarrow> nat \<Rightarrow> world \<Rightarrow> world" where
  "proto_exit ho session w =
     (if has_room (w_rooms w) ''R_TOWN_GATE_01'' then teleport_to ho session ''R_TOWN_GATE_01'' ''returns'' w
      else reply session ''huh? (town gate not found)'' w)"

definition cmd_proto :: "shard_env \<Rightarrow> command" where
  "cmd_proto en ho session p line w =
     (let lc = to_ascii_lowercase line;
          guarded = (\<lambda>v. Some (if has_cap ho w p WorldProtoLoad then v
                               else reply session ''nope: world.proto.load'' w))
      in if lc = ''proto'' then
           guarded (reply session ''huh? (try: proto list | proto <adventure_id> | proto exit)'' w)
         else if lc = ''proto list'' then
           guarded (say session (crlf_lines ([''protoadventures:''] @
             map (\<lambda>a. '' - '' @ a) (list_protoadventures (en_list_files en)) @
             [''load with: proto <adventure_id>''])) w)
         else if lc = ''proto exit'' then guarded (proto_exit ho session w)
         else
           (case strip_prefix ''proto '' line of
              None \<Rightarrow> None
            | Some rest \<Rightarrow> guarded (proto_load en ho session rest w)))"

section \<open>Quest keys\<close>

definition set_quest :: "string \<Rightarrow> string \<Rightarrow> character \<Rightarrow> character" where
  "set_quest k v c = c\<lparr>c_quest := (c_quest c)(k \<mapsto> v)\<rparr>"

definition del_quest :: "string \<Rightarrow> character \<Rightarrow> character" where
  "del_quest k c = c\<lparr>c_quest := (c_quest c)(k := None)\<rparr>"

definition quest_list :: "hash_orders \<Rightarrow> (string \<rightharpoonup> string) \<Rightarrow> string" where
  "quest_list ho q =
     (case map_keys (ho_str ho) q of
        [] \<Rightarrow> ''quest: (none)'' @ crlf
      | ks \<Rightarrow> ''quest:'' @ crlf @
          concat (sort (map (\<lambda>k. '' - '' @ k @ ''='' @ the (q k) @ crlf) ks)))"

definition quest_get :: "nat \<Rightarrow> character \<Rightarrow> string \<Rightarrow> world \<Rightarrow> world" where
  "quest_get session p key w =
     (if key = [] then reply session ''huh? (try: quest get <key>)'' w
      else reply session (''quest: '' @ key @ ''='' @ opt_or ''(unset)'' (c_quest p key)) w)"

definition quest_set :: "nat \<Rightarrow> string list \<Rightarrow> world \<Rightarrow> world" where
  "quest_set session toks w =
     (case toks of
        key # val # _ \<Rightarrow>
          reply session (''quest: set '' @ key @ ''='' @ val) (upd_active session (set_quest key val) w)
      | _ \<Rightarrow> reply session ''huh? (try: quest set <key> <value>)'' w)"

definition quest_del :: "nat \<Rightarrow> string \<Rightarrow> world \<Rightarrow> world" where
  "quest_del session key w =
     (if key = [] then reply session ''huh? (try: quest del <key>)'' w
      else
        (let was = Option.bind (active_char w session) (\<lambda>c. c_quest c key) in
         reply session (''quest: del '' @ key @ (if was = None then '' (missing)'' else []))
           (upd_active session (del_quest key) w)))"

definition cmd_quest :: command where
  "cmd_quest ho session p line w =
     (let lc = to_ascii_lowercase line in
      if lc = ''quest'' then
        Some (reply session
          ''huh? (try: quest list | quest get <key> | quest set <key> <value> | quest del <key>)'' w)
      else if lc = ''quest list'' then Some (say session (quest_list ho (c_quest p)) w)
      else
        (case strip_prefix ''quest get '' line of
           Some rest \<Rightarrow> Some (quest_get session p (trim rest) w)
         | None \<Rightarrow>
             (case strip_prefix ''quest set '' line of
                Some rest \<Rightarrow> Some (quest_set session (split_whitespace (trim rest)) w)
              | None \<Rightarrow>
                  map_option (\<lambda>rest. quest_del session (trim rest) w) (strip_prefix ''quest del '' line))))"

section \<open>Valves and pylons\<close>

text \<open>
  Valves and pylons work alike: each has a key of its own, and a counter of how many are done,
  up to three.
\<close>

definition key_done_already :: "(string \<rightharpoonup> string) \<Rightarrow> string \<Rightarrow> bool" where
  "key_done_already q key =
     (case q key of None \<Rightarrow> False | Some v \<Rightarrow> trim v \<noteq> [] \<and> trim v \<noteq> ''0'' \<and> trim v \<noteq> ''false'')"

definition count_one :: "string \<Rightarrow> string \<Rightarrow> (string \<rightharpoonup> string) \<Rightarrow> (string \<rightharpoonup> string) \<times> int \<times> bool" where
  "count_one key counter q =
     (if key_done_already q key then (q, parsed_count (q counter), True)
      else
        (let q = q(key \<mapsto> ''1''); n = clamp 0 3 (parsed_count (q counter) + 1)
         in (q(counter \<mapsto> show_int n), n, False)))"

definition put_quest :: "(string \<rightharpoonup> string) \<Rightarrow> character \<Rightarrow> character" where
  "put_quest q c = c\<lparr>c_quest := q\<rparr>"

definition valve_rooms :: "(string \<times> string) list" where
  "valve_rooms =
     [(''R_SEW_VALVE1_02'', ''1''), (''R_SEW_VALVE2_02'', ''2''), (''R_SEW_VALVE3_02'', ''3'')]"

definition pylon_rooms :: "(string \<times> string) list" where
  "pylon_rooms =
     [(''R_HILL_PYLON_01'', ''1''), (''R_HILL_PYLON_02'', ''2''), (''R_HILL_PYLON_03'', ''3'')]"

definition turn_valve :: "hash_orders \<Rightarrow> nat \<Rightarrow> character \<Rightarrow> string \<Rightarrow> nat \<Rightarrow> character \<Rightarrow> world \<Rightarrow> world" where
  "turn_valve ho session p ix cid c w =
     (let (q, opened, already) = count_one (''q.q3_sewer_valves.valve_'' @ ix)
            ''q.q3_sewer_valves.valves_opened'' (c_quest c);
          w = upd_char cid (put_quest q) w;
          count = '' (valves opened: '' @ show_int opened @ ''/3)''
      in if already then reply session (''the valve is already open.'' @ count) w
         else broadcast_room ho (c_room_id p) (''* '' @ c_name p @ '' turns the valve wheel.'')
                (reply session (''you turn the valve wheel.'' @ count) w))"

definition cmd_turn :: command where
  "cmd_turn ho session p line w =
     (let lc = to_ascii_lowercase line; usage = ''huh? (try: turn valve)'' in
      if lc = ''turn'' then Some (reply session usage w)
      else
        map_option (\<lambda>rest.
            let target = trim rest in
            if target = [] then reply session usage w
            else
              (case map_of valve_rooms (c_room_id p) of
                 None \<Rightarrow> reply session ''huh? (nothing to turn here)'' w
               | Some ix \<Rightarrow>
                   (if target \<notin> {''valve'', ''wheel'', ''valve wheel''} then reply session usage w
                    else with_active session w (\<lambda>cid c. turn_valve ho session p ix cid c w))))
          (strip_prefix ''turn '' lc))"

definition light_pylon :: "hash_orders \<Rightarrow> nat \<Rightarrow> character \<Rightarrow> string \<Rightarrow> nat \<Rightarrow> character \<Rightarrow> world \<Rightarrow> world" where
  "light_pylon ho session p ix cid c w =
     (let (q, lit, already) = count_one (''q.q6_hillfort_signal.pylon_'' @ ix)
            ''q.q6_hillfort_signal.pylons_lit'' (c_quest c);
          w = upd_char cid (put_quest q) w;
          count = '' (pylons lit: '' @ show_int lit @ ''/3)''
      in if already then reply session (''the pylon is already lit.'' @ count) w
         else broadcast_room ho (c_room_id p) (''* '' @ c_name p @ '' relights the ward pylon.'')
                (say session (crlf_lines ((''you relight the ward pylon.'' @ count) #
                   (if lit \<ge> 3 then [''somewhere deeper in the fort, a gate finally agrees.''] else []))) w))"

definition cmd_light :: command where
  "cmd_light ho session p line w =
     (let lc = to_ascii_lowercase line; usage = ''huh? (try: light pylon)'' in
      if lc = ''light'' then Some (reply session usage w)
      else
        map_option (\<lambda>rest.
            let target = trim rest in
            if target = [] then reply session usage w
            else
              (case map_of pylon_rooms (c_room_id p) of
                 None \<Rightarrow> reply session ''huh? (nothing to light here)'' w
               | Some ix \<Rightarrow>
                   (if target \<notin> {''pylon'', ''ward'', ''tower'', ''beacon''} then reply session usage w
                    else with_active session w (\<lambda>cid c. light_pylon ho session p ix cid c w))))
          (strip_prefix ''light '' lc))"

section \<open>Levers\<close>

definition key_bypass :: string where "key_bypass = ''gate.sewers.shortcut_to_quarry''"

definition pull_bypass :: "hash_orders \<Rightarrow> nat \<Rightarrow> character \<Rightarrow> nat \<Rightarrow> character \<Rightarrow> world \<Rightarrow> world" where
  "pull_bypass ho session p cid c w =
     (let valves = parsed_count (c_quest c ''q.q3_sewer_valves.valves_opened'');
          already = eval_gate_expr (c_quest c) key_bypass;
          w = (if \<not> already \<and> valves \<ge> 3 then upd_char cid (set_quest key_bypass ''1'') w else w)
      in if valves < 3 then
           reply session ''the lever doesn't budge. something upstream still has pressure.'' w
         else if already then
           reply session ''the lever is already down. the quarry bypass is unsealed.'' w
         else
           broadcast_room ho (c_room_id p)
             (''* '' @ c_name p @ '' pulls the bypass lever. something heavy shifts.'')
             (reply session
               ''you pull the bypass lever. somewhere deep in the tunnels, metal shifts.'' w))"

definition throw_switch ::
  "string \<Rightarrow> string \<Rightarrow> (string \<rightharpoonup> string) \<Rightarrow> (string \<rightharpoonup> string) \<times> int \<times> bool \<times> bool" where
  "throw_switch key label q =
     (let already = eval_gate_expr q key;
          q = (if already then q else q(key \<mapsto> ''1''));
          l1 = (if eval_gate_expr q ''e.e17.lever_1'' then 1 else 0);
          l2 = (if eval_gate_expr q ''e.e17.lever_2'' then 1 else 0);
          pulled = clamp 0 2 (l1 + l2);
          has_pass = eval_gate_expr q ''gate.rail_spur.pass'';
          unlocked = (\<not> has_pass \<and> pulled \<ge> 2);
          q = (if unlocked then q(''gate.rail_spur.pass'' \<mapsto> ''1'') else q)
      in (q(''e.e17.last_lever'' \<mapsto> label), pulled, already, unlocked))"

definition pull_switch ::
  "hash_orders \<Rightarrow> nat \<Rightarrow> character \<Rightarrow> string \<Rightarrow> string \<Rightarrow> nat \<Rightarrow> character \<Rightarrow> world \<Rightarrow> world" where
  "pull_switch ho session p key label cid c w =
     (let (q, pulled, already, unlocked) = throw_switch key label (c_quest c);
          w = upd_char cid (put_quest q) w;
          count = '' (rail levers: '' @ show_int pulled @ ''/2)''
      in if already then reply session (''the switch is already thrown.'' @ count) w
         else broadcast_room ho (c_room_id p) (''* '' @ c_name p @ '' throws the switch lever.'')
                (say session (crlf_lines ((''you throw the switch lever.'' @ count) #
                   (if unlocked then [''somewhere in the terminal, a lock tag snaps loose.''] else []))) w))"

definition pull_lever :: "hash_orders \<Rightarrow> nat \<Rightarrow> character \<Rightarrow> nat \<Rightarrow> character \<Rightarrow> world \<Rightarrow> world" where
  "pull_lever ho session p cid c w =
     (if c_room_id p = ''R_SEW_REWARD_01'' then pull_bypass ho session p cid c w
      else if c_room_id p = ''R_RAIL_YARD_04'' then pull_switch ho session p ''e.e17.lever_1'' ''1'' cid c w
      else pull_switch ho session p ''e.e17.lever_2'' ''2'' cid c w)"

definition cmd_pull :: command where
  "cmd_pull ho session p line w =
     (let lc = to_ascii_lowercase line; usage = ''huh? (try: pull lever)'' in
      if lc = ''pull'' then Some (reply session usage w)
      else
        map_option (\<lambda>rest.
            let target = trim rest in
            if target = [] \<or> target \<notin> {''lever'', ''bypass'', ''switch'', ''quarry''} then reply session usage w
            else if c_room_id p \<notin> {''R_SEW_REWARD_01'', ''R_RAIL_YARD_04'', ''R_RAIL_YARD_08''} then
              reply session ''huh? (nothing to pull here)'' w
            else with_active session w (\<lambda>cid c. pull_lever ho session p cid c w))
          (strip_prefix ''pull '' lc))"

section \<open>Walking\<close>

text \<open>
  The end of the sequence: whether the line moved the character or was answered, and the world.
  A move that finds no exit says so and shows the exits, but still counts as not handled.
\<close>

definition move_by :: "hash_orders \<Rightarrow> nat \<Rightarrow> character \<Rightarrow> string \<Rightarrow> world \<Rightarrow> bool \<times> world" where
  "move_by ho session p token w =
     (case try_move ho session token w of
        (True, w) \<Rightarrow> (True, w)
      | (False, w) \<Rightarrow>
          (False, say session (render_exits (w_rooms w) (c_room_id p))
             (reply session ''huh? (no such exit)'' w)))"

definition go_line :: "hash_orders \<Rightarrow> nat \<Rightarrow> character \<Rightarrow> string \<Rightarrow> world \<Rightarrow> bool \<times> world" where
  "go_line ho session p line w =
     (let usage = (True, reply session ''huh? (try: go <exit>)'' w) in
      if to_ascii_lowercase line = ''go'' then usage
      else
        (case strip_prefix ''go '' line of
           Some rest \<Rightarrow>
             (let token = trim rest in
              if token = [] then usage else move_by ho session p token w)
         | None \<Rightarrow>
             (if find_exit (w_rooms w) (c_room_id p) line \<noteq> None \<or> normalize_dir line \<noteq> None then
                move_by ho session p line w
              else (False, w))))"

section \<open>The contract\<close>

lemma load_ids [simp]: "w_next_char_id (snd (load_protoadventure ho rf a w)) = w_next_char_id w"
  by (simp add: load_protoadventure_def Let_def split: option.split)

lemma load_grows: "orders_ok ho \<Longrightarrow> grows w (snd (load_protoadventure ho rf a w))"
  by (rule growsI) (auto intro: load_protoadventure_ok)

lemma proto_load_grows:
  assumes "orders_ok ho"
  shows "grows w (proto_load en ho session rest w)"
proof -
  have l: "grows w v" if "load_protoadventure ho (en_read_file en) a w = (r, v)" for a r v
    using load_grows [OF assms, of w "en_read_file en" a] that by simp
  show ?thesis
    by (auto simp: proto_load_def Let_def split: prod.split option.split
        intro: l grows_trans [OF l teleport_grows])
qed

lemma cmd_proto_keeps: "world_command (cmd_proto en)"
  by unfold_locales
    (auto simp: cmd_proto_def proto_exit_def Let_def proto_load_grows teleport_grows
      split: if_splits option.splits)

lemma tame_quest [simp]: "tame (set_quest k v)" "tame (del_quest k)" "tame (put_quest q)"
  by (simp_all add: tame_def set_quest_def del_quest_def put_quest_def)

lemma cmd_quest_keeps: "world_command cmd_quest"
  by unfold_locales
    (auto simp: cmd_quest_def quest_get_def quest_set_def quest_del_def Let_def upd_active_grows
      split: if_splits option.splits list.split)

lemma cmd_turn_keeps: "world_command cmd_turn"
  by unfold_locales
    (auto simp: cmd_turn_def turn_valve_def Let_def case_prod_beta grows_upd
      split: if_splits option.split intro!: with_active_grows)

lemma cmd_light_keeps: "world_command cmd_light"
  by unfold_locales
    (auto simp: cmd_light_def light_pylon_def Let_def case_prod_beta grows_upd
      split: if_splits option.split intro!: with_active_grows)

lemma lever_grows: "grows w (pull_lever ho session p cid c w)"
  by (simp add: pull_lever_def pull_bypass_def pull_switch_def Let_def case_prod_beta grows_upd)

lemma cmd_pull_keeps: "world_command cmd_pull"
  by unfold_locales
    (auto simp: cmd_pull_def Let_def lever_grows split: if_splits option.split intro!: with_active_grows)

lemma follow_ids: "w_next_char_id (follow_one ho from to nm w m) = w_next_char_id w"
  by (simp add: follow_one_def Let_def case_prod_beta split: option.split)

lemma try_move_ids [simp]: "w_next_char_id (snd (try_move ho session token w)) = w_next_char_id w"
proof -
  have e: "w_next_char_id (snd (enter_contract_room cid to w)) = w_next_char_id w" for cid to w
    by (simp add: enter_contract_room_def case_prod_beta split: option.split)
  have "w_next_char_id (walk ho session cid p ex w) = w_next_char_id w" for cid p ex
    by (simp add: walk_def Let_def case_prod_beta e follow_ids id_foldl split: option.split)
  then show ?thesis by (simp add: try_move_def split: option.split)
qed

lemma go_grows:
  assumes "orders_ok ho"
  shows "grows w (snd (go_line ho session p line w))"
proof -
  have "grows w (snd (try_move ho session token w))" for token
    using assms by (intro growsI) auto
  then have "grows w (snd (move_by ho session p token w))" for token
    by (simp add: move_by_def case_prod_beta split: prod.split bool.split)
  then show ?thesis
    by (simp add: go_line_def Let_def split: option.split)
qed

end
