(* ===== verification/Ledger.thy ===== *)
theory Ledger
  imports QuestCmds
begin

text \<open>
  What every operation of the world but the group commands leaves alone: the log of group changes in
  memory and on disk, the groups built from it, the clock and the two intervals of the configuration.
  The lemmas go through the operations in the order of the theories that define them; the commands
  of the broker loop then satisfy the contract \<open>quiet_command\<close>.
\<close>

section \<open>The kept part of the state\<close>

definition kept :: "world \<Rightarrow> raft_log \<times> string option \<times> group_store \<times> bool \<times> nat \<times> nat \<times> nat" where
  "kept w = (w_raft w, w_raft_file w, w_groups w, w_failed w, w_now_ms w, w_bartender_emote_ms w,
     w_mob_wander_ms w)"

lemma kept_fields [simp]:
  "kept (w\<lparr>w_rooms := x0\<rparr>) = kept w"
  "kept (w\<lparr>w_sessions := x1\<rparr>) = kept w"
  "kept (w\<lparr>w_chars := x2\<rparr>) = kept w"
  "kept (w\<lparr>w_occupants := x3\<rparr>) = kept w"
  "kept (w\<lparr>w_parties := x4\<rparr>) = kept w"
  "kept (w\<lparr>w_party_invites := x5\<rparr>) = kept w"
  "kept (w\<lparr>w_next_party_id := x6\<rparr>) = kept w"
  "kept (w\<lparr>w_party_of := x7\<rparr>) = kept w"
  "kept (w\<lparr>w_party_builds := x8\<rparr>) = kept w"
  "kept (w\<lparr>w_rng := x9\<rparr>) = kept w"
  "kept (w\<lparr>w_next_char_id := x10\<rparr>) = kept w"
  "kept (w\<lparr>w_event_seq := x11\<rparr>) = kept w"
  "kept (w\<lparr>w_events := x12\<rparr>) = kept w"
  "kept (w\<lparr>w_bartender_id := x13\<rparr>) = kept w"
  "kept (w\<lparr>w_bartender_emote_idx := x14\<rparr>) = kept w"
  "kept (w\<lparr>w_bosses := x15\<rparr>) = kept w"
  "kept (w\<lparr>w_raft_watch := x16\<rparr>) = kept w"
  "kept (w\<lparr>w_players := x17\<rparr>) = kept w"
  "kept (w\<lparr>w_players_file := x18\<rparr>) = kept w"
  "kept (w\<lparr>w_out := x19\<rparr>) = kept w"
  by (simp_all add: kept_def)

lemma kept_if [simp]: "kept (if b then v else u) = (if b then kept v else kept u)"
  by simp

lemma kept_foldl [simp]: "(\<And>w x. kept (f w x) = kept w) \<Longrightarrow> kept (foldl f w xs) = kept w"
  by (induction xs arbitrary: w) simp_all

lemma kept_blows [simp]: "kept (engage i j w) = kept w" "kept (first_blows i j w) = kept w"
  by (simp_all add: engage_def first_blows_def case_prod_beta upd_char_def schedule_in_ms_def
      schedule_at_ms_def Let_def split: option.split)

lemma kept_start_n [simp]: "kept (start_combat_n n ho a b w) = kept w"
  by (induction n arbitrary: a b w) (simp_all add: Let_def split: option.split)

lemma kept_with_active [simp]: "(\<And>cid c. kept (b cid c) = kept w) \<Longrightarrow> kept (with_active s w b) = kept w"
  by (simp add: with_active_def reply_def not_attached_def say_def say_error_def split: option.split)

section \<open>Operations of the world\<close>

lemma kept_world1 [simp]:
  "kept (say i s w) = kept w" "kept (say_error i s w) = kept w"
  "kept (broadcast is s w) = kept w" "kept (upd_char i f w) = kept w"
  "kept (enter_room i s w) = kept w" "kept (leave_room i s w) = kept w"
  "kept (broadcast_raft ho s w) = kept w" "kept (schedule_at_ms i ek w) = kept w"
  "kept (regen_resources w) = kept w" "kept (snd (party_create i w)) = kept w"
  "kept (party_leave ho i w) = kept w" "kept (party_disband i w) = kept w"
  "kept (persist_player_snapshots ho w) = kept w" "kept (new_session_char i j w) = kept w"
  by (simp_all add: say_def say_error_def broadcast_def upd_char_def enter_room_def leave_room_def
      broadcast_raft_def schedule_at_ms_def regen_resources_def party_create_def party_leave_def
      party_disband_def persist_player_snapshots_def new_session_char_def Let_def case_prod_beta
      split: option.split list.split bool.split sum.split skill_target.split
      item_key_match.split slot_match.split item_kind.split)

lemma kept_world2 [simp]:
  "kept (broadcast_room ho s t w) = kept w" "kept (broadcast_all_sessions ho s w) = kept w"
  "kept (party_send ho i s w) = kept w" "kept (move_char i s t w) = kept w"
  "kept (schedule_in_ms i ek w) = kept w" "kept (inv_add i s j w) = kept w"
  "kept (snd (inv_take_one i s w)) = kept w" "kept (snd (inv_take_n i s j w)) = kept w"
  "kept (remember_player ho p w) = kept w" "kept (persist_live_players ho w) = kept w"
  "kept (snd (insert_char v24a w)) = kept w" "kept (snd (remove_char ho i w)) = kept w"
  "kept (evacuate_one s w i) = kept w"
  by (simp_all add: broadcast_room_def broadcast_all_sessions_def party_send_def move_char_def
      schedule_in_ms_def inv_add_def inv_take_one_def inv_take_n_def remember_player_def
      persist_live_players_def insert_char_def remove_char_def evacuate_one_def
      Let_def case_prod_beta
      split: option.split list.split bool.split sum.split skill_target.split
      item_key_match.split slot_match.split item_kind.split)

lemma kept_world3 [simp]:
  "kept (remember_player_by_id ho i w) = kept w"
  "kept (snd (restore_character ho i sn s cs w)) = kept w"
  "kept (snd (spawn_character i s t cs b rc cl sx pn w)) = kept w"
  "kept (snd (spawn_mob s t w)) = kept w" "kept (detach_char ho i w) = kept w"
  "kept (evacuate_room ho s w t) = kept w"
  by (simp_all add: remember_player_by_id_def restore_character_def spawn_character_def spawn_mob_def
      detach_char_def evacuate_room_def Let_def case_prod_beta
      split: option.split list.split bool.split sum.split skill_target.split
      item_key_match.split slot_match.split item_kind.split)

lemma kept_world4 [simp]:
  "kept (snd (spawn_or_restore_character ho i s t cs b rc cl sx pn w)) = kept w"
  "kept (snd (spawn_mob_hp s t n w)) = kept w" "kept (detach_session ho i w) = kept w"
  "kept (evacuate_rooms_with_prefix ho s t w) = kept w"
  by (simp_all add: spawn_or_restore_character_def spawn_mob_hp_def detach_session_def
      evacuate_rooms_with_prefix_def Let_def case_prod_beta
      split: option.split list.split bool.split sum.split skill_target.split
      item_key_match.split slot_match.split item_kind.split)

lemma kept_world5 [simp]:
  "kept (snd (spawn_stenchworm s w)) = kept w"
  "kept (snd (load_protoadventure ho v25a s w)) = kept w"
  by (simp_all add: spawn_stenchworm_def load_protoadventure_def Let_def case_prod_beta
      split: option.split list.split bool.split sum.split skill_target.split
      item_key_match.split slot_match.split item_kind.split)

lemma kept_world6 [simp]:
  "kept (snd (spawn_named_mob s t w)) = kept w"
  by (simp_all add: spawn_named_mob_def Let_def case_prod_beta
      split: option.split list.split bool.split sum.split skill_target.split
      item_key_match.split slot_match.split item_kind.split)

section \<open>Operations of fighting\<close>

lemma kept_combat1 [simp]:
  "kept (stop_fighting i w) = kept w" "kept (start_combat ho i j w) = kept w"
  "kept (apply_stun ho i j k w) = kept w" "kept (award_xp_one i j b w) = kept w"
  "kept (snd (compute_autoattack_damage i w)) = kept w"
  "kept (snd (compute_mob_autoattack_damage p w)) = kept w"
  "kept (send_to_graveyard ho i w) = kept w"
  by (simp_all add: stop_fighting_def start_combat_def apply_stun_def award_xp_one_def
      compute_autoattack_damage_def compute_mob_autoattack_damage_def send_to_graveyard_def
      Let_def case_prod_beta
      split: option.split list.split bool.split sum.split skill_target.split
      item_key_match.split slot_match.split item_kind.split)

lemma kept_combat2 [simp]:
  "kept (award_xp ho i j w) = kept w" "kept (snd (apply_damage_to_player ho i j n s w)) = kept w"
  by (simp_all add: award_xp_def apply_damage_to_player_def Let_def case_prod_beta
      split: option.split list.split bool.split sum.split skill_target.split
      item_key_match.split slot_match.split item_kind.split)

lemma kept_combat3 [simp]:
  "kept (worm_loot ho i p w) = kept w"
  by (simp_all add: worm_loot_def Let_def case_prod_beta
      split: option.split list.split bool.split sum.split skill_target.split
      item_key_match.split slot_match.split item_kind.split)

lemma kept_combat4 [simp]:
  "kept (snd (apply_damage_to_mob ho i j n s w)) = kept w"
  by (simp_all add: apply_damage_to_mob_def Let_def case_prod_beta
      split: option.split list.split bool.split sum.split skill_target.split
      item_key_match.split slot_match.split item_kind.split)

section \<open>Operations of the timer events\<close>

lemma kept_events1 [simp]:
  "kept (on_tick w) = kept w" "kept (on_ensure_tavern_mob ho w) = kept w"
  "kept (on_bartender_emote ho w) = kept w" "kept (on_ensure_first_fight_worm ho w) = kept w"
  "kept (ensure_npc ho w st) = kept w" "kept (snd (strike ho i p j c w)) = kept w"
  "kept (drop_boss i w) = kept w" "kept (crush ho i w j) = kept w"
  "kept (enter_run s w i) = kept w" "kept (show_run ho s w i) = kept w"
  "kept (on_mob_wander ho i w) = kept w"
  by (simp_all add: on_tick_def on_ensure_tavern_mob_def on_bartender_emote_def on_ensure_first_fight_worm_def
      ensure_npc_def strike_def drop_boss_def crush_def enter_run_def show_run_def
      on_mob_wander_def Let_def case_prod_beta
      split: option.split list.split bool.split sum.split skill_target.split
      item_key_match.split slot_match.split item_kind.split)

lemma kept_events2 [simp]:
  "kept (on_ensure_class_hall_mobs ho w) = kept w" "kept (on_combat_act ho i w) = kept w"
  "kept (on_boss_telegraph ho i w) = kept w" "kept (on_boss_resolve ho i j w) = kept w"
  "kept (on_party_build_next ho i w) = kept w"
  by (simp_all add: on_ensure_class_hall_mobs_def on_combat_act_def on_boss_telegraph_def on_boss_resolve_def
      on_party_build_next_def Let_def case_prod_beta
      split: option.split list.split bool.split sum.split skill_target.split
      item_key_match.split slot_match.split item_kind.split)

section \<open>Operations of walking\<close>

lemma kept_moves1 [simp]:
  "kept (follow_one ho s t u w v26a) = kept w" "kept (snd (enter_contract_room i s w)) = kept w"
  "kept (teleport_to ho i s t w) = kept w"
  by (simp_all add: follow_one_def enter_contract_room_def teleport_to_def Let_def case_prod_beta
      split: option.split list.split bool.split sum.split skill_target.split
      item_key_match.split slot_match.split item_kind.split)

lemma kept_moves2 [simp]:
  "kept (walk ho i j p ex w) = kept w"
  by (simp_all add: walk_def Let_def case_prod_beta
      split: option.split list.split bool.split sum.split skill_target.split
      item_key_match.split slot_match.split item_kind.split)

lemma kept_moves3 [simp]:
  "kept (snd (try_move ho i s w)) = kept w"
  by (simp_all add: try_move_def Let_def case_prod_beta
      split: option.split list.split bool.split sum.split skill_target.split
      item_key_match.split slot_match.split item_kind.split)

lemma kept_handle_event [simp]: "kept (handle_event ho k w) = kept w"
  by (cases k) simp_all

lemma kept_pop_due: "pop_due_event w = Some (e, v) \<Longrightarrow> kept v = kept w"
  by (auto simp: pop_due_event_def split: list.splits if_splits)

lemma kept_process_due: "process_due_events n ho w = Some v \<Longrightarrow> kept v = kept w"
proof (induction n ho w arbitrary: v rule: process_due_events.induct)
  case (1 n ho w)
  then show ?case
    by (subst (asm) process_due_events.simps) (auto simp: kept_pop_due split: option.splits nat.splits)
qed

lemma kept_drain [simp]: "kept (drain ho w) = kept w"
  by (auto simp: drain_def kept_process_due split: option.split)

section \<open>Operations of replies\<close>

lemma kept_commands1 [simp]:
  "kept (reply i s w) = kept w" "kept (not_attached i w) = kept w"
  "kept (clear_pending i w) = kept w"
  by (simp_all add: reply_def not_attached_def clear_pending_def Let_def case_prod_beta
      split: option.split list.split bool.split sum.split skill_target.split
      item_key_match.split slot_match.split item_kind.split)

section \<open>Operations of groups\<close>

lemma kept_groupcmds1 [simp]:
  "kept (bad_role i w) = kept w"
  by (simp_all add: bad_role_def Let_def case_prod_beta
      split: option.split list.split bool.split sum.split skill_target.split
      item_key_match.split slot_match.split item_kind.split)

section \<open>Operations of the world commands\<close>

lemma kept_worldcmds1 [simp]:
  "kept (upd_active i f w) = kept w"
  by (simp_all add: upd_active_def Let_def case_prod_beta
      split: option.split list.split bool.split sum.split skill_target.split
      item_key_match.split slot_match.split item_kind.split)

lemma kept_spawn_one [simp]: "kept (snd (spawn_one r k nw)) = kept (snd nw)"
  by (cases "spawn_named_mob r k (snd nw)")
    (use kept_world6 [of r k "snd nw"] in \<open>auto simp: spawn_one_def split: option.split\<close>)

lemma kept_spawn_many [simp]: "kept (snd ((spawn_one r k ^^ n) nw)) = kept (snd nw)"
  by (induction n) simp_all

section \<open>Operations of skills\<close>

lemma kept_skillcmds1 [simp]:
  "kept (train_skill i s j w) = kept w" "kept (use_on_target ho i p sk n j k w) = kept w"
  "kept (use_on_self ho i p sk n j w) = kept w" "kept (quaff ho i p dr j w) = kept w"
  "kept (use_consumable ho i p it s n j c w) = kept w"
  by (simp_all add: train_skill_def use_on_target_def use_on_self_def quaff_def use_consumable_def
      Let_def case_prod_beta
      split: option.split list.split bool.split sum.split skill_target.split
      item_key_match.split slot_match.split item_kind.split)

lemma kept_skillcmds2 [simp]:
  "kept (use_skill ho i p sk j c w) = kept w" "kept (use_item ho i p b s j c w) = kept w"
  by (simp_all add: use_skill_def use_item_def Let_def case_prod_beta
      split: option.split list.split bool.split sum.split skill_target.split
      item_key_match.split slot_match.split item_kind.split)

section \<open>Operations of items\<close>

lemma kept_serve [simp]: "kept (snd (serve a b c d e w)) = kept w"
  by (induction a arbitrary: e w) (simp_all add: Let_def split: option.split)

lemma kept_itemcmds1 [simp]:
  "kept (equip_item ho i p s t j c w) = kept w" "kept (remove_everything ho i p j c w) = kept w"
  "kept (remove_slot ho i p sl j c w) = kept w" "kept (attack ho i p j c k w) = kept w"
  "kept (sell_pouches i j k w) = kept w" "kept (order_drinks ho i p j dr k w) = kept w"
  by (simp_all add: equip_item_def remove_everything_def remove_slot_def attack_def sell_pouches_def
      order_drinks_def Let_def case_prod_beta
      split: option.split list.split bool.split sum.split skill_target.split
      item_key_match.split slot_match.split item_kind.split)

lemma kept_itemcmds2 [simp]:
  "kept (remove_item ho i p s j c w) = kept w" "kept (kill_target ho i p s j c w) = kept w"
  by (simp_all add: remove_item_def kill_target_def Let_def case_prod_beta
      split: option.split list.split bool.split sum.split skill_target.split
      item_key_match.split slot_match.split item_kind.split)

section \<open>Operations of talk\<close>

lemma kept_socialcmds1 [simp]:
  "kept (tell_player ho i p b s t w) = kept w" "kept (friends_add ho i p s w) = kept w"
  "kept (friends_del ho i p s w) = kept w" "kept (ask_bot_on i j w) = kept w"
  by (simp_all add: tell_player_def friends_add_def friends_del_def ask_bot_on_def Let_def case_prod_beta
      split: option.split list.split bool.split sum.split skill_target.split
      item_key_match.split slot_match.split item_kind.split)

lemma kept_socialcmds2 [simp]:
  "kept (bot_switch_on i j w) = kept w"
  by (simp_all add: bot_switch_on_def Let_def case_prod_beta
      split: option.split list.split bool.split sum.split skill_target.split
      item_key_match.split slot_match.split item_kind.split)

section \<open>Operations of parties\<close>

lemma kept_partycmds1 [simp]:
  "kept (say_disbanded i s w j) = kept w" "kept (party_kick ho i p s w) = kept w"
  "kept (party_lead ho i p s w) = kept w" "kept (invite_to ho i p s j w) = kept w"
  "kept (party_accept ho i j w) = kept w" "kept (clear_instance ho s w) = kept w"
  "kept (forget_controlled i j w) = kept w"
  by (simp_all add: say_disbanded_def party_kick_def party_lead_def invite_to_def party_accept_def
      clear_instance_def forget_controlled_def Let_def case_prod_beta
      split: option.split list.split bool.split sum.split skill_target.split
      item_key_match.split slot_match.split item_kind.split)

lemma kept_partycmds2 [simp]:
  "kept (party_invite_cmd ho i p s w) = kept w" "kept (start_run ho i s t w) = kept w"
  "kept (sessions_drop ho i s w) = kept w"
  by (simp_all add: party_invite_cmd_def start_run_def sessions_drop_def Let_def case_prod_beta
      split: option.split list.split bool.split sum.split skill_target.split
      item_key_match.split slot_match.split item_kind.split)

lemma kept_partycmds3 [simp]:
  "kept (party_run en ho i p s w) = kept w"
  by (simp_all add: party_run_def Let_def case_prod_beta
      split: option.split list.split bool.split sum.split skill_target.split
      item_key_match.split slot_match.split item_kind.split)

section \<open>Operations of quests\<close>

lemma kept_questcmds1 [simp]:
  "kept (proto_load en ho i s w) = kept w" "kept (proto_exit ho i w) = kept w"
  "kept (quest_get i p s w) = kept w" "kept (quest_set i v27a w) = kept w"
  "kept (quest_del i s w) = kept w" "kept (turn_valve ho i p s j c w) = kept w"
  "kept (light_pylon ho i p s j c w) = kept w" "kept (pull_bypass ho i p j c w) = kept w"
  "kept (pull_switch ho i p s t j c w) = kept w" "kept (snd (move_by ho i p s w)) = kept w"
  by (simp_all add: proto_load_def proto_exit_def quest_get_def quest_set_def quest_del_def turn_valve_def
      light_pylon_def pull_bypass_def pull_switch_def move_by_def Let_def case_prod_beta
      split: option.split list.split bool.split sum.split skill_target.split
      item_key_match.split slot_match.split item_kind.split)

lemma kept_questcmds2 [simp]:
  "kept (pull_lever ho i p j c w) = kept w" "kept (snd (go_line ho i p s w)) = kept w"
  by (simp_all add: pull_lever_def go_line_def Let_def case_prod_beta
      split: option.split list.split bool.split sum.split skill_target.split
      item_key_match.split slot_match.split item_kind.split)

section \<open>Quiet commands\<close>

locale quiet_command =
  fixes cmd :: command
  assumes quiet: "cmd ho session p line w = Some w' \<Longrightarrow> kept w' = kept w"

lemma first_of_quiet: "list_all quiet_command cs \<Longrightarrow> quiet_command (first_of cs)"
proof -
  have "first_of cs ho session p line w = Some w' \<Longrightarrow> kept w' = kept w" if "list_all quiet_command cs"
    for ho session p line w w'
    using that by (induction cs) (auto simp: quiet_command_def split: option.splits)
  then show "list_all quiet_command cs \<Longrightarrow> quiet_command (first_of cs)" by unfold_locales
qed

lemma commands_quiet:
  "quiet_command cmd_confirm" "quiet_command (cmd_info en)" "quiet_command (cmd_aiping en)"
  "quiet_command (cmd_uptime en)" "quiet_command cmd_caps" "quiet_command cmd_groups"
  by (auto simp: quiet_command_def cmd_confirm_def cmd_info_def cmd_aiping_def cmd_uptime_def cmd_caps_def
      cmd_groups_def Let_def case_prod_beta
      split: if_splits option.splits list.splits bool.splits sum.splits pending_confirm.splits)

lemma groupcmds_quiet:
  "quiet_command cmd_group_list" "quiet_command cmd_group_show" "quiet_command (cmd_raft en)"
  by (auto simp: quiet_command_def cmd_group_list_def cmd_group_show_def cmd_raft_def Let_def case_prod_beta
      split: if_splits option.splits list.splits bool.splits sum.splits pending_confirm.splits)

lemma worldcmds_quiet:
  "quiet_command cmd_where" "quiet_command cmd_warp" "quiet_command cmd_spawn"
  "quiet_command cmd_stats" "quiet_command cmd_look" "quiet_command cmd_faction"
  "quiet_command cmd_race" "quiet_command cmd_class"
  by (auto simp: quiet_command_def cmd_where_def cmd_warp_def cmd_spawn_def cmd_stats_def cmd_look_def
      cmd_faction_def cmd_race_def cmd_class_def Let_def case_prod_beta
      split: if_splits option.splits list.splits bool.splits sum.splits pending_confirm.splits)

lemma skillcmds_quiet:
  "quiet_command cmd_train" "quiet_command cmd_skills" "quiet_command cmd_use"
  by (auto simp: quiet_command_def cmd_train_def cmd_skills_def cmd_use_def Let_def case_prod_beta
      split: if_splits option.splits list.splits bool.splits sum.splits pending_confirm.splits)

lemma itemcmds_quiet:
  "quiet_command cmd_menu" "quiet_command cmd_inventory" "quiet_command cmd_equip"
  "quiet_command cmd_remove" "quiet_command cmd_kill" "quiet_command cmd_sell"
  "quiet_command cmd_order"
  by (auto simp: quiet_command_def cmd_menu_def cmd_inventory_def cmd_equip_def cmd_remove_def cmd_kill_def
      cmd_sell_def cmd_order_def Let_def case_prod_beta
      split: if_splits option.splits list.splits bool.splits sum.splits pending_confirm.splits)

lemma socialcmds_quiet:
  "quiet_command cmd_say" "quiet_command cmd_shout" "quiet_command (emote_cmd st)"
  "quiet_command cmd_gesture" "quiet_command cmd_tell" "quiet_command cmd_friends"
  "quiet_command cmd_bot" "quiet_command cmd_assist" "quiet_command cmd_follow"
  "quiet_command cmd_pvp"
  by (auto simp: quiet_command_def cmd_say_def cmd_shout_def emote_cmd_def cmd_gesture_def cmd_tell_def
      cmd_friends_def cmd_bot_def cmd_assist_def cmd_follow_def cmd_pvp_def
      Let_def case_prod_beta
      split: if_splits option.splits list.splits bool.splits sum.splits pending_confirm.splits)

lemma partycmds_quiet:
  "quiet_command cmd_party" "quiet_command cmd_party_disband" "quiet_command cmd_party_members"
  "quiet_command cmd_party_say" "quiet_command (cmd_party_run en)" "quiet_command cmd_who"
  "quiet_command cmd_sessions"
  by (auto simp: quiet_command_def cmd_party_def cmd_party_disband_def cmd_party_members_def
      cmd_party_say_def cmd_party_run_def cmd_who_def cmd_sessions_def Let_def case_prod_beta
      split: if_splits option.splits list.splits bool.splits sum.splits pending_confirm.splits)

lemma questcmds_quiet:
  "quiet_command (cmd_proto en)" "quiet_command cmd_quest" "quiet_command cmd_turn"
  "quiet_command cmd_light" "quiet_command cmd_pull"
  by (auto simp: quiet_command_def cmd_proto_def cmd_quest_def cmd_turn_def cmd_light_def cmd_pull_def
      Let_def case_prod_beta
      split: if_splits option.splits list.splits bool.splits sum.splits pending_confirm.splits)

lemma cmd_emote_quiet: "quiet_command cmd_emote"
  unfolding cmd_emote_def by (rule first_of_quiet) (simp add: emote_cmds_def socialcmds_quiet)

end
