(* ===== verification/Broker.thy ===== *)
theory Broker
  imports Ledger MudProto
begin

text \<open>
  One connection of the broker to the shard: the decoded request is carried out on the world, a
  typed line by the first command that recognises it, and around every request the loop of
  \<open>handle_broker\<close> sets the clock, regenerates and drains the timer queue
  (\<open>apps/shard_01/src/main.rs\<close>).
\<close>

section \<open>A line\<close>

text \<open>The commands in the order in which the handler tries them.\<close>

definition commands :: "shard_env \<Rightarrow> command list" where
  "commands en =
     [cmd_confirm, cmd_info en, cmd_aiping en, cmd_uptime en, cmd_caps, cmd_groups, cmd_group_list,
      cmd_group_show, cmd_group_create en, cmd_group_add en, cmd_group_remove en, cmd_group_role en,
      cmd_group_policy en, cmd_group_rolecaps en, cmd_raft en, cmd_where, cmd_warp, cmd_spawn,
      cmd_stats, cmd_look, cmd_faction, cmd_race, cmd_class, cmd_train, cmd_skills, cmd_use,
      cmd_menu, cmd_inventory, cmd_equip, cmd_remove, cmd_kill, cmd_sell, cmd_order, cmd_say,
      cmd_shout, cmd_emote, cmd_tell, cmd_friends, cmd_bot, cmd_assist, cmd_follow, cmd_pvp,
      cmd_party, cmd_party_disband, cmd_party_members, cmd_party_say, cmd_party_run en, cmd_who,
      cmd_sessions, cmd_proto en, cmd_quest, cmd_turn, cmd_light, cmd_pull]"

text \<open>
  The flag of the result says that the handler leaves the turn by \<open>continue\<close>, so that the queue is
  not drained a second time.
\<close>

definition handle_line ::
  "shard_env \<Rightarrow> hash_orders \<Rightarrow> nat \<Rightarrow> character \<Rightarrow> string \<Rightarrow> world \<Rightarrow> bool \<times> world" where
  "handle_line en ho session p line w =
     (case first_of (commands en) ho session p line w of
        Some w \<Rightarrow> (True, w)
      | None \<Rightarrow>
          (case go_line ho session p line w of
             (True, w) \<Rightarrow> (True, w)
           | (False, w) \<Rightarrow> (False, reply session ''huh? (try: help)'' w)))"

definition on_input :: "shard_env \<Rightarrow> hash_orders \<Rightarrow> nat \<Rightarrow> string \<Rightarrow> world \<Rightarrow> bool \<times> world" where
  "on_input en ho session raw w =
     (let line = trim (utf8_lossy raw) in
      if line = [] then (True, w)
      else
        (case active_char w session of
           None \<Rightarrow> (True, not_attached session w)
         | Some p \<Rightarrow> handle_line en ho session p line w))"

section \<open>A request\<close>

definition text_of :: "u8 list \<Rightarrow> string" where
  "text_of bs = map (\<lambda>b. char_of (unat b)) bs"

definition attach_of :: "shard_req \<Rightarrow> attach_req" where
  "attach_of r =
     \<lparr>ar_session = unat (at_session r), ar_is_bot = at_is_bot r,
      ar_auth = map_option text_of (at_auth r), ar_race = map_option text_of (at_race r),
      ar_class = map_option text_of (at_class r), ar_sex = map_option text_of (at_sex r),
      ar_pronouns = map_option text_of (at_pronouns r), ar_name = text_of (at_name r)\<rparr>"

definition on_request :: "shard_env \<Rightarrow> hash_orders \<Rightarrow> shard_req \<Rightarrow> world \<Rightarrow> bool \<times> world" where
  "on_request en ho r w =
     (case r of
        Attach sid is_bot auth rc cls sx pron nm \<Rightarrow>
          (trim (utf8_lossy (text_of nm)) = [], on_attach en ho (attach_of r) w)
      | Detach sid \<Rightarrow> (False, on_detach ho (unat sid) w)
      | Input sid line \<Rightarrow> on_input en ho (unat sid) (text_of line) w)"

section \<open>The loop\<close>

text \<open>
  A turn: the answers of the world outside and the hash orders during it, the clock when it starts,
  what wakes the loop up (the timer, a frame, the end of the stream, a read error), and the clock
  after the request. A connection is being served, or has ended, orderly or by the \<open>?\<close> of an error
  (the log of groups that cannot be written is one, \<open>w_failed\<close>) or by a panic.
\<close>

datatype wake = TimerUp | Frame "u8 list" | Closed | ReadError

record turn =
  tn_env :: shard_env
  tn_ho :: hash_orders
  tn_now :: nat
  tn_wake :: wake
  tn_later :: nat

datatype conn = Serving (conn_world: world) | Ended (conn_world: world) | Broken (conn_world: world)

definition turn_start :: "turn \<Rightarrow> world \<Rightarrow> world" where
  "turn_start t w = drain (tn_ho t) (regen_resources (w\<lparr>w_now_ms := tn_now t\<rparr>))"

definition turn_end :: "turn \<Rightarrow> bool \<times> world \<Rightarrow> conn" where
  "turn_end t r =
     (case r of
        (True, w) \<Rightarrow> Serving w
      | (False, w) \<Rightarrow> Serving (drain (tn_ho t) (w\<lparr>w_now_ms := tn_later t\<rparr>)))"

definition serve_turn :: "turn \<Rightarrow> world \<Rightarrow> conn" where
  "serve_turn t w =
     (let w = turn_start t w in
      case tn_wake t of
        TimerUp \<Rightarrow> Serving w
      | Closed \<Rightarrow> Ended (persist_live_players (tn_ho t) w)
      | ReadError \<Rightarrow> Broken w
      | Frame bs \<Rightarrow>
          (case parse_req bs of
             Some (Inr r) \<Rightarrow>
               (let (left, w) = on_request (tn_env t) (tn_ho t) r w in
                if w_failed w then Broken w else turn_end t (left, w))
           | _ \<Rightarrow> Broken w))"

definition broker_turn :: "conn \<Rightarrow> turn \<Rightarrow> conn" where
  "broker_turn c t = (case c of Serving w \<Rightarrow> serve_turn t w | Ended w \<Rightarrow> c | Broken w \<Rightarrow> c)"

definition broker_start :: "hash_orders \<Rightarrow> world \<Rightarrow> world" where
  "broker_start ho w =
     drain ho (schedule_at_ms 0 EvEnsureClassHallMobs
       (schedule_at_ms 0 EvEnsureFirstFightWorm (schedule_at_ms 0 EvEnsureTavernMob w)))"

definition handle_broker :: "hash_orders \<Rightarrow> world \<Rightarrow> turn list \<Rightarrow> conn" where
  "handle_broker ho w ts = foldl broker_turn (Serving (broker_start ho w)) ts"

section \<open>The invariant\<close>

lemma commands_keep: "list_all world_command (commands en)"
  by (simp add: commands_def cmd_confirm_keeps cmd_info_keeps cmd_aiping_keeps cmd_uptime_keeps
      cmd_caps_keeps cmd_groups_keeps cmd_group_list_keeps cmd_group_show_keeps
      cmd_group_create_keeps cmd_group_add_keeps cmd_group_remove_keeps cmd_group_role_keeps
      cmd_group_policy_keeps cmd_group_rolecaps_keeps cmd_raft_keeps cmd_where_keeps
      cmd_warp_keeps cmd_spawn_keeps cmd_stats_keeps cmd_look_keeps cmd_faction_keeps
      cmd_race_keeps cmd_class_keeps cmd_train_keeps cmd_skills_keeps cmd_use_keeps
      cmd_menu_keeps cmd_inventory_keeps cmd_equip_keeps cmd_remove_keeps cmd_kill_keeps
      cmd_sell_keeps cmd_order_keeps cmd_say_keeps cmd_shout_keeps cmd_emote_keeps
      cmd_tell_keeps cmd_friends_keeps cmd_bot_keeps cmd_assist_keeps cmd_follow_keeps
      cmd_pvp_keeps cmd_party_keeps cmd_party_disband_keeps cmd_party_members_keeps
      cmd_party_say_keeps cmd_party_run_keeps cmd_who_keeps cmd_sessions_keeps cmd_proto_keeps
      cmd_quest_keeps cmd_turn_keeps cmd_light_keeps cmd_pull_keeps)

interpretation line: world_command "first_of (commands en)" for en
  by (rule first_of_keeps [OF commands_keep])

lemma handle_line_grows:
  assumes "orders_ok ho" "active_char w session = Some p" "well_asked session line w"
  shows "grows w (snd (handle_line en ho session p line w))"
proof (cases "first_of (commands en) ho session p line w")
  case None
  have "grows w (snd (go_line ho session p line w))" by (rule go_grows [OF assms(1)])
  with None show ?thesis
    by (cases "go_line ho session p line w") (simp add: handle_line_def split: bool.split)
next
  case (Some v)
  with line.keeps [OF assms] show ?thesis by (simp add: handle_line_def)
qed

text \<open>The line a request carries is well asked of the world that receives it.\<close>

definition req_ok :: "world \<Rightarrow> shard_req \<Rightarrow> bool" where
  "req_ok w r =
     (case r of
        Input sid line \<Rightarrow> well_asked (unat sid) (trim (utf8_lossy (text_of line))) w
      | _ \<Rightarrow> True)"

lemma on_input_grows:
  "orders_ok ho \<Longrightarrow> well_asked session (trim (utf8_lossy raw)) w \<Longrightarrow>
     grows w (snd (on_input en ho session raw w))"
  by (simp add: on_input_def Let_def handle_line_grows split: option.split)

lemma remember_ids [simp]:
  "w_next_char_id (remember_player ho c w) = w_next_char_id w"
  "w_next_char_id (remember_player_by_id ho cid w) = w_next_char_id w"
  by (simp_all add: remember_player_by_id_def remember_player_def persist_player_snapshots_def
      split: option.split)

lemma detach_session_ids: "w_next_char_id (detach_session ho session w) = w_next_char_id w"
  by (simp add: detach_session_def detach_char_def Let_def id_foldl split: option.split)

lemma on_detach_grows: "orders_ok ho \<Longrightarrow> grows w (on_detach ho session w)"
  unfolding on_detach_def
  by (rule grows_trans [OF growsI grows_foldl])
    (simp_all add: detach_session_ids detach_session_ok)

lemma kit_ids: "w_next_char_id (foldl (\<lambda>w (i, q). inv_add cid i q w) w kit) = w_next_char_id w"
  by (rule id_foldl) (simp add: case_prod_beta inv_add_def)

lemma attach_ids:
  "w_next_char_id (snd (spawn_or_restore_character ho session nm prin caps is_bot rc cls sx pron w))
     = sat_add64 (w_next_char_id w) 1"
  by (simp add: spawn_or_restore_character_def restore_character_def spawn_character_def
      new_session_char_def insert_char_eq kit_ids Let_def case_prod_beta split: option.split)

lemma on_attach_grows:
  assumes "orders_ok ho"
  shows "grows w (on_attach en ho r w)"
proof -
  have s: "grows v (snd (spawn_or_restore_character ho session nm prin caps is_bot rc cls sx pron v))"
    for session nm prin caps is_bot rc cls sx pron v
    by (rule grows_one) (simp_all add: attach_ids spawn_or_restore_ok)
  have r: "grows u v \<Longrightarrow> grows u (remember_player_by_id ho cid v)" for cid u v
    by (rule grows_trans [OF _ growsI]) simp_all
  show ?thesis
    using grows_trans [OF on_detach_grows [OF assms] s]
    by (auto simp: on_attach_def Let_def case_prod_beta r split: option.split)
qed

lemma on_request_grows:
  "orders_ok ho \<Longrightarrow> req_ok w r \<Longrightarrow> grows w (snd (on_request en ho r w))"
  by (auto simp: on_request_def req_ok_def on_attach_grows on_detach_grows on_input_grows
      split: shard_req.split)

lemma clock_grows [simp]: "grows w (v\<lparr>w_now_ms := now\<rparr>) = grows w v"
  by (simp add: grows_def)

lemma turn_start_grows: "orders_ok (tn_ho t) \<Longrightarrow> grows w (turn_start t w)"
proof -
  assume "orders_ok (tn_ho t)"
  moreover have "grows w (regen_resources (w\<lparr>w_now_ms := tn_now t\<rparr>))"
  proof (rule growsI)
    show "w_next_char_id (regen_resources (w\<lparr>w_now_ms := tn_now t\<rparr>)) = w_next_char_id w"
      by (simp add: regen_resources_def)
  qed (simp add: regen_ok)
  ultimately show ?thesis
    unfolding turn_start_def by (blast intro: grows_trans drain_grows)
qed

lemma turn_end_grows: "orders_ok (tn_ho t) \<Longrightarrow> grows w (snd r) \<Longrightarrow> grows w (conn_world (turn_end t r))"
  by (cases r) (auto simp: turn_end_def intro!: grows_trans [OF _ drain_grows] split: bool.split)

text \<open>
  What a turn is asked to respect: every hash order lists its set, a line is well asked of the world
  that receives it, and the turn does not use up the last character identifier.
\<close>

definition turn_ok :: "conn \<Rightarrow> turn \<Rightarrow> bool" where
  "turn_ok c t \<longleftrightarrow> orders_ok (tn_ho t) \<and> w_next_char_id (conn_world (broker_turn c t)) < u64_max \<and>
     (case (c, tn_wake t) of
        (Serving w, Frame bs) \<Rightarrow>
          (case parse_req bs of Some (Inr r) \<Rightarrow> req_ok (turn_start t w) r | _ \<Rightarrow> True)
      | _ \<Rightarrow> True)"

lemma serve_turn_grows:
  assumes "turn_ok (Serving w) t"
  shows "grows w (conn_world (serve_turn t w))"
proof -
  have o: "orders_ok (tn_ho t)" using assms by (simp add: turn_ok_def)
  note s = turn_start_grows [OF o, of w]
  have p: "grows w (persist_live_players (tn_ho t) (turn_start t w))"
    by (rule grows_trans [OF s growsI])
      (simp_all add: persist_live_players_def persist_player_snapshots_def)
  show ?thesis
  proof (cases "tn_wake t")
    case (Frame bs)
    have "grows w (snd (on_request (tn_env t) (tn_ho t) r (turn_start t w)))"
      if "parse_req bs = Some (Inr r)" for r
      using grows_trans [OF s on_request_grows [OF o]] assms that Frame by (simp add: turn_ok_def)
    with s Frame show ?thesis
      by (auto simp: serve_turn_def Let_def case_prod_beta turn_end_grows [OF o]
          split: option.split sum.split)
  qed (use s p in \<open>simp_all add: serve_turn_def Let_def\<close>)
qed

interpretation bk: inv_machine broker_turn turn_ok "\<lambda>c. world_ok (conn_world c)"
proof
  fix c t
  assume w: "world_ok (conn_world c)" and t: "turn_ok c t"
  show "world_ok (conn_world (broker_turn c t))"
  proof (cases c)
    case (Serving v)
    with t serve_turn_grows [of v t] w show ?thesis by (simp add: broker_turn_def turn_ok_def grows_def)
  qed (use w in \<open>simp_all add: broker_turn_def\<close>)
qed

lemma broker_start_grows: "orders_ok ho \<Longrightarrow> grows w (broker_start ho w)"
  unfolding broker_start_def
  by (rule grows_trans [OF _ drain_grows]) (auto intro!: growsI)

section \<open>A connection that is started and closed\<close>

lemma drain_idle: "pop_due_event w = None \<Longrightarrow> drain ho w = w"
  by (simp add: drain_def process_due_events.simps)

lemma due_schedule:
  "due_work (schedule_at_ms due k w)
     = (if due \<le> w_now_ms w then work (w_party_builds w) k else 0) + due_work w"
  using queue_work_push [of "w_now_ms w" "w_party_builds w"]
  by (simp add: due_work_def schedule_at_ms_def del: push_event.simps)

lemma turn_ids [simp]:
  "w_next_char_id (regen_resources w) = w_next_char_id w"
  "w_next_char_id (persist_live_players ho w) = w_next_char_id w"
  by (simp_all add: regen_resources_def persist_live_players_def persist_player_snapshots_def)

lemma schedule_clock [simp]:
  "w_now_ms (schedule_at_ms due k w) = w_now_ms w"
  "w_party_builds (schedule_at_ms due k w) = w_party_builds w"
  "clock_ok (schedule_at_ms due k w) = clock_ok w"
  by (simp_all add: schedule_at_ms_def clock_ok_def)

lemma pop_regen [simp]:
  "pop_due_event w = None \<Longrightarrow> pop_due_event (regen_resources w) = None"
  by (auto simp: pop_due_event_def regen_resources_def split: list.splits if_splits)

definition quiet_turn :: "wake \<Rightarrow> turn" where
  "quiet_turn k = \<lparr>tn_env = \<lparr>en_to_json = (\<lambda>_. []), en_read_auth = Map.empty, en_read_file = Map.empty,
     en_list_files = None, en_var = Map.empty, en_version = [], en_build = Map.empty, en_unix = 0,
     en_started_unix = 0, en_up_secs = 0, en_raft_path = [], en_ai_models = (\<lambda>_ _. Inr 0),
     en_ai_chat = (\<lambda>_ _ _ _. Inl []), en_ai_ms = 0\<rparr>,
     tn_ho = demo_ho, tn_now = 0, tn_wake = k, tn_later = 0\<rparr>"

section \<open>A connection that attaches and detaches\<close>

lemma events_foldl: "(\<And>w x. w_events (f w x) = w_events w) \<Longrightarrow> w_events (foldl f w xs) = w_events w"
  by (induction xs arbitrary: w) simp_all

lemma sessions_foldl: "(\<And>w x. w_sessions (f w x) = w_sessions w) \<Longrightarrow> w_sessions (foldl f w xs) = w_sessions w"
  by (induction xs arbitrary: w) simp_all

lemma out_frame [simp]:
  "w_events (broadcast_room ho r m w) = w_events w" "w_sessions (broadcast_room ho r m w) = w_sessions w"
  "w_chars (broadcast_room ho r m w) = w_chars w" "w_next_char_id (broadcast_room ho r m w) = w_next_char_id w"
  "w_events (say s m w) = w_events w" "w_sessions (say s m w) = w_sessions w" "w_chars (say s m w) = w_chars w"
  "w_events (remember_player_by_id ho i w) = w_events w"
  "w_sessions (remember_player_by_id ho i w) = w_sessions w"
  "w_chars (remember_player_by_id ho i w) = w_chars w"
  by (simp_all add: frame_defs remember_player_by_id_def remember_player_def persist_player_snapshots_def
      split: option.split)

lemma detach_char_frame [simp]:
  "w_events (detach_char ho i w) = w_events w" "w_sessions (detach_char ho i w) = w_sessions w"
  by (simp_all add: detach_char_def party_leave_def leave_room_def remember_player_def
      persist_player_snapshots_def Let_def split: option.split)

lemma on_detach_timers: "w_events (on_detach ho s w) = w_events w"
  by (simp add: on_detach_def detach_session_def events_foldl split: option.split)

lemma on_detach_gone: "w_sessions (on_detach ho s w) s = None"
  by (simp add: on_detach_def detach_session_def sessions_foldl split: option.split)

lemma on_detach_ids: "w_next_char_id (on_detach ho s w) = w_next_char_id w"
  by (simp add: on_detach_def detach_session_ids id_foldl)

lemma inv_add_frame [simp]:
  "w_events (inv_add cid i n w) = w_events w" "w_sessions (inv_add cid i n w) = w_sessions w"
  by (simp_all add: inv_add_def upd_char_def split: option.split)

lemma kit_char:
  "map_option c_auth_caps (w_chars (foldl (\<lambda>w (i, q). inv_add cid i q w) w kit) x)
     = map_option c_auth_caps (w_chars w x)"
  by (induction kit arbitrary: w) (simp_all add: case_prod_beta inv_add_def upd_char_def split: option.split)

lemma kit_some:
  "(\<exists>z. w_chars (foldl (\<lambda>w (i, q). inv_add cid i q w) w kit) x = Some z \<and> c_auth_caps z = caps)
     \<longleftrightarrow> (\<exists>z. w_chars w x = Some z \<and> c_auth_caps z = caps)"
proof -
  have e: "(\<exists>z. m = Some z \<and> c_auth_caps z = caps) \<longleftrightarrow> map_option c_auth_caps m = Some caps" for m by auto
  show ?thesis unfolding e kit_char ..
qed

lemma entered:
  "snd (spawn_or_restore_character ho session nm prin caps is_bot rc cls sx pron w) = v \<Longrightarrow>
   w_sessions w session = None \<Longrightarrow>
     fst (spawn_or_restore_character ho session nm prin caps is_bot rc cls sx pron w) = w_next_char_id w
     \<and> w_events v = w_events w
     \<and> w_sessions v session = Some \<lparr>ss_controlled = [w_next_char_id w], ss_active = w_next_char_id w, ss_pending_confirm = None\<rparr>
     \<and> map_option c_auth_caps (w_chars v (w_next_char_id w)) = Some caps"
  by (auto simp: spawn_or_restore_character_def restore_character_def spawn_character_def insert_char_def
      new_session_char_def enter_room_def restored_def new_character_def Let_def case_prod_beta
      events_foldl sessions_foldl kit_some split: option.split)

lemma on_attach_joins:
  assumes "trim (utf8_lossy (ar_name r)) \<noteq> []" "ar_session r = s"
  shows "w_events (on_attach en ho r w) = w_events w
    \<and> w_next_char_id (on_attach en ho r w) = sat_add64 (w_next_char_id w) 1
    \<and> (\<exists>c. active_char (on_attach en ho r w) s = Some c
         \<and> c_auth_caps c = caps_from_attach (en_read_auth en) (ar_auth r))
    \<and> map_option ss_pending_confirm (w_sessions (on_attach en ho r w) s) = Some None"
proof -
  let ?d = "on_detach ho s w"
  let ?sp = "spawn_or_restore_character ho s (trim (utf8_lossy (ar_name r)))
    (principal_from_attach (en_read_auth en) (trim (utf8_lossy (ar_name r))) (ar_auth r))
    (caps_from_attach (en_read_auth en) (ar_auth r)) (ar_is_bot r) (build_field race_parse Human (ar_race r))
    (build_field class_parse Fighter (ar_class r)) (build_field sex_parse SexNone (ar_sex r))
    (build_field pronoun_parse (default_for_sex (build_field sex_parse SexNone (ar_sex r))) (ar_pronouns r)) ?d"
  obtain cid v where sp: "?sp = (cid, v)" by (cases ?sp)
  note e = entered [of ho s _ _ _ _ _ _ _ _ ?d, OF refl on_detach_gone]
  from e have v: "cid = w_next_char_id ?d" "w_events v = w_events w"
    "w_sessions v s = Some \<lparr>ss_controlled = [cid], ss_active = cid, ss_pending_confirm = None\<rparr>"
    "map_option c_auth_caps (w_chars v cid) = Some (caps_from_attach (en_read_auth en) (ar_auth r))"
    using sp by (metis fst_conv snd_conv on_detach_timers)+
  have n: "w_next_char_id v = sat_add64 (w_next_char_id w) 1"
    using attach_ids [of ho s _ _ _ _ _ _ _ _ ?d] sp by (metis snd_conv on_detach_ids)
  obtain c where c: "w_chars v cid = Some c" "c_auth_caps c = caps_from_attach (en_read_auth en) (ar_auth r)"
    using v(4) by auto
  show ?thesis
    using assms sp v(2,3) n c
    by (simp add: on_attach_def Let_def active_char_def active_char_id_def)
qed

lemma kept_detach_attach [simp]:
  "kept (on_detach ho session w) = kept w" "kept (on_attach en ho r w) = kept w"
  by (simp_all add: on_attach_def on_detach_def Let_def case_prod_beta split: option.split)

lemma pop_same: "w_events v = w_events w \<Longrightarrow> w_now_ms v = w_now_ms w \<Longrightarrow> pop_due_event w = None \<Longrightarrow>
    pop_due_event v = None"
  by (auto simp: pop_due_event_def split: list.splits if_splits)

text \<open>A world at rest, and what a turn at the same time does to it when it attaches or detaches.\<close>

definition at_rest :: "world \<Rightarrow> bool" where
  "at_rest w \<longleftrightarrow> w_now_ms w = 0 \<and> pop_due_event w = None \<and> \<not> w_failed w"

lemma rest_regen: "at_rest w \<Longrightarrow> at_rest (regen_resources w)"
  by (simp add: at_rest_def) (simp add: regen_resources_def)

lemma rest_start:
  assumes "at_rest w" "tn_now t = 0"
  shows "turn_start t w = regen_resources w"
proof -
  have e: "w\<lparr>w_now_ms := 0\<rparr> = w" using assms(1) by (simp add: at_rest_def)
  have "pop_due_event (regen_resources w) = None"
    using rest_regen [OF assms(1)] unfolding at_rest_def by blast
  then show ?thesis unfolding turn_start_def assms(2) e by (rule drain_idle)
qed

lemma rest_end:
  assumes "at_rest w" "tn_later t = 0"
  shows "turn_end t (b, w) = Serving w"
proof -
  have e: "w\<lparr>w_now_ms := 0\<rparr> = w" using assms(1) by (simp add: at_rest_def)
  have "pop_due_event w = None" using assms(1) unfolding at_rest_def by blast
  then have "drain (tn_ho t) w = w" by (rule drain_idle)
  then show ?thesis by (cases b) (simp_all add: turn_end_def assms(2) e)
qed

lemma rest_kept: "kept v = kept w \<Longrightarrow> w_events v = w_events w \<Longrightarrow> at_rest w \<Longrightarrow> at_rest v"
  by (auto simp: at_rest_def kept_def intro: pop_same)

lemma rest_turn:
  assumes "at_rest w" "tn_now t = 0" "tn_later t = 0" "tn_wake t = Frame bs" "parse_req bs = Some (Inr r)"
    "on_request (tn_env t) (tn_ho t) r (regen_resources w) = (b, v)" "at_rest v"
  shows "broker_turn (Serving w) t = Serving v"
  using assms rest_start [OF assms(1,2)] rest_end [OF assms(7,3)]
  by (simp add: broker_turn_def serve_turn_def Let_def at_rest_def)

lemma regen_frame [simp]:
  "w_sessions (regen_resources w) = w_sessions w" "w_events (regen_resources w) = w_events w"
  by (simp_all add: regen_resources_def)

lemma attach_turn:
  assumes "at_rest w" "tn_now t = 0" "tn_later t = 0" "tn_wake t = Frame bs"
    "parse_req bs = Some (Inr (Attach sid b auth rc cls sx pron nm))" "trim (utf8_lossy (text_of nm)) \<noteq> []"
  obtains v c where "broker_turn (Serving w) t = Serving v" "at_rest v" "kept v = kept w"
    "w_next_char_id v = sat_add64 (w_next_char_id w) 1" "active_char v (unat sid) = Some c"
    "c_auth_caps c = caps_from_attach (en_read_auth (tn_env t)) (map_option text_of auth)"
    "map_option ss_pending_confirm (w_sessions v (unat sid)) = Some None"
proof -
  let ?r = "Attach sid b auth rc cls sx pron nm"
  let ?v = "on_attach (tn_env t) (tn_ho t) (attach_of ?r) (regen_resources w)"
  have a: "ar_name (attach_of ?r) = text_of nm" "ar_session (attach_of ?r) = unat sid"
    "ar_auth (attach_of ?r) = map_option text_of auth" by (simp_all add: attach_of_def)
  note j = on_attach_joins [of "attach_of ?r" "unat sid" "tn_env t" "tn_ho t" "regen_resources w",
      unfolded a, OF assms(6) refl]
  have k: "kept ?v = kept w" "at_rest ?v" using rest_kept [OF _ _ assms(1), of ?v] j by simp_all
  have "broker_turn (Serving w) t = Serving ?v"
    by (rule rest_turn [OF assms(1-5) _ k(2), where b = False]) (use assms(6) in \<open>simp add: on_request_def\<close>)
  with k j that show ?thesis by auto
qed

lemma detach_turn:
  assumes "at_rest w" "tn_now t = 0" "tn_later t = 0" "tn_wake t = Frame bs" "parse_req bs = Some (Inr (Detach sid))"
  obtains v where "broker_turn (Serving w) t = Serving v" "at_rest v" "kept v = kept w"
    "w_next_char_id v = w_next_char_id w" "w_sessions v (unat sid) = None"
proof -
  let ?v = "on_detach (tn_ho t) (unat sid) (regen_resources w)"
  have k: "kept ?v = kept w" "at_rest ?v" using rest_kept [OF _ _ assms(1), of ?v] by (simp_all add: on_detach_timers)
  have "broker_turn (Serving w) t = Serving ?v"
    by (rule rest_turn [OF assms(1-5) _ k(2), where b = False]) (simp add: on_request_def)
  with k that show ?thesis by (simp add: on_detach_ids on_detach_gone)
qed

lemma started_rests:
  assumes "world_ok w" "w_now_ms w = 0" "w_events w = []" "w_next_char_id w = 1"
    "0 < w_bartender_emote_ms w" "0 < w_mob_wander_ms w" "\<not> w_failed w"
  shows "at_rest (broker_start demo_ho w) \<and> w_next_char_id (broker_start demo_ho w) \<le> 142"
proof -
  define u where "u = schedule_at_ms 0 EvEnsureClassHallMobs (schedule_at_ms 0 EvEnsureFirstFightWorm
    (schedule_at_ms 0 EvEnsureTavernMob w))"
  have d: "due_work u = 3"
    using assms(2,3) by (simp add: u_def due_schedule work_def) (simp add: due_work_def queue_work_def)
  have u: "world_ok u" "clock_ok u" "w_now_ms u = 0" "w_next_char_id u = 1"
    using assms by (simp_all add: u_def u64_max_def) (simp add: clock_ok_def u64_max_def)
  then have "\<exists>v. process_due_events (due_work u) demo_ho u = Some v \<and> world_ok v \<and> pop_due_event v = None
       \<and> w_now_ms v = w_now_ms u \<and> clock_ok v \<and> w_next_char_id v \<le> w_next_char_id u + 47 * due_work u"
    by (intro drain_ends) (simp_all add: d demo_ho_ok u64_max_def)
  moreover have b: "broker_start demo_ho w = drain demo_ho u"
    by (simp add: broker_start_def u_def)
  moreover have "kept (drain demo_ho u) = kept w" by (simp add: u_def)
  then have "w_failed (drain demo_ho u) = w_failed w" by (simp add: kept_def)
  ultimately show ?thesis using u d assms(7) by (auto simp: drain_def at_rest_def)
qed

lemma active_regen:
  "active_char (regen_resources w) s = map_option (regen_char (w_now_ms w)) (active_char w s)"
  by (simp add: active_char_def active_char_id_def regen_resources_def Option.map_conv_bind_option split: option.split Option.bind_split)

lemma caps_regen [simp]: "c_auth_caps (regen_char now c) = c_auth_caps c"
  by (simp add: regen_char_def Let_def)

lemma pit_started:
  "at_rest (broker_start demo_ho (pit_world [])) \<and> w_next_char_id (broker_start demo_ho (pit_world [])) \<le> 142"
  by (rule started_rests)
    (simp_all add: pit_world_ok u64_max_def, simp_all add: pit_world_def pit_start_def world_start_def)

definition hello_ann :: "u8 list" where "hello_ann = write_req 1 7 [0, 65, 110, 110]"
definition bye_ann :: "u8 list" where "bye_ann = write_req 2 7 []"

lemma parse_ann:
  "parse_req hello_ann = Some (Inr (Attach 7 False None None None None None [65, 110, 110]))"
  "parse_req bye_ann = Some (Inr (Detach 7))"
  by code_simp+

section \<open>Every connection\<close>



end
