(* ===== verification/GroupLog.thy ===== *)
theory GroupLog
  imports Broker
begin

text \<open>
  Group changes made from the keyboard. Every command leaves the groups alone or appends entries to
  the log, each of which the character was entitled to; the groups in memory are therefore always
  the replay of the log, so they survive the end of the connection and a restart of the shard, and
  they change only by authority (\<open>handle_broker\<close> and \<open>World::raft_append_group\<close> in
  \<open>apps/shard_01/src/main.rs\<close>).
\<close>

section \<open>Entries and who may make them\<close>

text \<open>The group capability that each kind of entry asks for, and the group it is about.\<close>

fun entry_gid :: "group_log_entry \<Rightarrow> nat" where
  "entry_gid (GroupCreate gid _ _) = gid"
| "entry_gid (GroupMemberSet gid _ _) = gid"
| "entry_gid (GroupPolicySet gid _ _) = gid"
| "entry_gid (GroupRoleCapsSet gid _ _) = gid"

fun entry_caps :: "group_log_entry \<Rightarrow> capability set" where
  "entry_caps (GroupCreate _ _ _) = {}"
| "entry_caps (GroupMemberSet _ _ None) = {GroupMemberRemove}"
| "entry_caps (GroupMemberSet _ _ (Some _)) = {GroupMemberAdd, GroupRoleSet}"
| "entry_caps (GroupPolicySet _ _ _) = {GroupPolicySetCap}"
| "entry_caps (GroupRoleCapsSet _ _ _) = {GroupRoleCapsSetCap}"

definition authorised :: "hash_orders \<Rightarrow> world \<Rightarrow> character \<Rightarrow> group_log_entry \<Rightarrow> bool" where
  "authorised ho w p e \<longleftrightarrow>
     (\<exists>cap \<in> entry_caps e. has_group_cap ho w p (entry_gid e) cap) \<or>
     (has_cap ho w p GroupCreateCap \<and> entry_gid e = fresh_group_id ho (w_groups w))"

definition appends ::
  "(group_log_entry raft_envelope \<Rightarrow> string) \<Rightarrow> (nat \<Rightarrow> raft_io) \<Rightarrow> group_log_entry list \<Rightarrow> world \<Rightarrow>
   world" where
  "appends to_json io es w = foldl (\<lambda>w e. raft_append_group to_json io e w) w es"

definition logs ::
  "(group_log_entry raft_envelope \<Rightarrow> string) \<Rightarrow> (nat \<Rightarrow> raft_io) \<Rightarrow> (group_log_entry \<Rightarrow> bool) \<Rightarrow>
   world \<Rightarrow> world \<Rightarrow> bool" where
  "logs to_json io P w w' \<longleftrightarrow> (\<exists>es. list_all P es \<and> kept w' = kept (appends to_json io es w))"

lemma appends_Nil [simp]: "appends to_json io [] w = w"
  by (simp add: appends_def)

lemma appends_snoc [simp]:
  "appends to_json io (es @ [e]) w = raft_append_group to_json io e (appends to_json io es w)"
  by (simp add: appends_def)

lemma kept_log_change:
  "kept (log_group_change en ho e w) = kept (raft_append_group (en_to_json en) (ho_raft_io ho) e w)"
  by (simp add: log_group_change_def Let_def)

lemma kept_logged_reply [simp]: "kept (logged_reply session msg w) = kept w"
  by (simp add: logged_reply_def)

lemma append_kept:
  assumes "kept v = kept w"
  shows "kept (raft_append_group to_json io e v) = kept (raft_append_group to_json io e w)"
  using assms by (simp add: raft_append_group_def kept_def case_prod_beta Let_def split: option.split)

lemma logs_kept: "kept w' = kept w \<Longrightarrow> logs to_json io P w w'"
  by (auto simp: logs_def intro!: exI [where x = "[]"])

lemma logs_cong: "kept v = kept w' \<Longrightarrow> logs to_json io P w v = logs to_json io P w w'"
  by (simp add: logs_def)

lemma logs_one:
  assumes "P e" "kept w' = kept (log_group_change en ho e w)"
  shows "logs (en_to_json en) (ho_raft_io ho) P w w'"
  using assms by (auto simp: logs_def appends_def kept_log_change intro!: exI [where x = "[e]"])

lemma logs_snoc:
  assumes "logs (en_to_json en) (ho_raft_io ho) P w v" "P e" "kept w' = kept (log_group_change en ho e v)"
  shows "logs (en_to_json en) (ho_raft_io ho) P w w'"
proof -
  from assms(1) obtain es where "list_all P es" "kept v = kept (appends (en_to_json en) (ho_raft_io ho) es w)"
    by (auto simp: logs_def)
  then have "list_all P (es @ [e]) \<and> kept w' = kept (appends (en_to_json en) (ho_raft_io ho) (es @ [e]) w)"
    using assms(2,3) append_kept [of v "appends (en_to_json en) (ho_raft_io ho) es w"] by (simp add: kept_log_change)
  then show ?thesis unfolding logs_def by blast
qed

section \<open>The contract of the commands\<close>

locale logged_command =
  fixes en :: shard_env and cmd :: command
  assumes logs: "cmd ho session p line w = Some w' \<Longrightarrow> logs (en_to_json en) (ho_raft_io ho) (authorised ho w p) w w'"

lemma quiet_logged: "quiet_command cmd \<Longrightarrow> logged_command en cmd"
  by (simp add: quiet_command_def logged_command_def logs_kept)

lemma first_of_logged: "list_all (logged_command en) cs \<Longrightarrow> logged_command en (first_of cs)"
proof -
  have "first_of cs ho session p line w = Some w' \<Longrightarrow> logs (en_to_json en) (ho_raft_io ho) (authorised ho w p) w w'"
    if "list_all (logged_command en) cs" for ho session p line w w'
    using that by (induction cs) (auto simp: logged_command_def split: option.splits)
  then show "list_all (logged_command en) cs \<Longrightarrow> logged_command en (first_of cs)" by unfold_locales
qed

lemma logs_in_group:
  assumes "\<And>gid. has_group_cap ho w p gid cap \<Longrightarrow> logs to_json io P w (body gid)"
  shows "logs to_json io P w (in_group ho session p tok cap body w)"
  using assms by (simp add: in_group_def logs_kept split: option.split)

lemma logs_reply [simp]:
  "logs to_json io P w w" "logs to_json io P w (reply session msg v) = logs to_json io P w v"
  "logs to_json io P w (logged_reply session msg v) = logs to_json io P w v"
  "logs to_json io P w (bad_role session v) = logs to_json io P w v"
  by (simp_all add: logs_kept) (simp_all add: logs_def)

lemma logs_entry:
  assumes "has_group_cap ho w p gid cap" "entry_gid e = gid" "cap \<in> entry_caps e"
  shows "logs (en_to_json en) (ho_raft_io ho) (authorised ho w p) w (log_group_change en ho e w)"
  by (rule logs_one [where e = e]) (use assms in \<open>auto simp: authorised_def\<close>)

lemma group_edits_log:
  "logged_command en (cmd_group_add en)" "logged_command en (cmd_group_remove en)"
  "logged_command en (cmd_group_role en)" "logged_command en (cmd_group_policy en)"
  "logged_command en (cmd_group_rolecaps en)"
  unfolding logged_command_def
  by (auto simp: cmd_group_add_def cmd_group_remove_def cmd_group_role_def cmd_group_policy_def
      cmd_group_rolecaps_def Let_def
      split: option.splits list.splits sum.splits intro!: logs_in_group elim!: logs_entry)

lemma group_create_log: "logged_command en (cmd_group_create en)"
proof
  fix ho session p line w w'
  assume c: "cmd_group_create en ho session p line w = Some w'"
  let ?gid = "fresh_group_id ho (w_groups w)"
  let ?P = "authorised ho w p"
  have create: "logs (en_to_json en) (ho_raft_io ho) ?P w (log_group_change en ho (GroupCreate ?gid kind nm) w)"
    if "has_cap ho w p GroupCreateCap" for kind nm
    by (rule logs_one [where e = "GroupCreate ?gid kind nm"]) (use that in \<open>simp_all add: authorised_def\<close>)
  have enrol: "logs (en_to_json en) (ho_raft_io ho) ?P w (logged_reply session msg
      (log_group_change en ho (GroupMemberSet ?gid m r) (log_group_change en ho (GroupCreate ?gid kind nm) w)))"
    if "has_cap ho w p GroupCreateCap" for kind nm m r msg
    by (rule logs_snoc [OF create [OF that], where e = "GroupMemberSet ?gid m r"])
      (use that in \<open>simp_all add: authorised_def\<close>)
  show "logs (en_to_json en) (ho_raft_io ho) ?P w w'"
    using c create enrol
    by (auto simp: cmd_group_create_def Let_def logs_kept
        split: option.splits if_splits list.splits group_kind.splits)
qed

lemma commands_logged: "list_all (logged_command en) (commands en)"
  by (simp add: commands_def group_edits_log group_create_log quiet_logged commands_quiet
      groupcmds_quiet worldcmds_quiet skillcmds_quiet itemcmds_quiet socialcmds_quiet
      cmd_emote_quiet partycmds_quiet questcmds_quiet)

interpretation lines: logged_command en "first_of (commands en)" for en
  by (rule first_of_logged [OF commands_logged])

lemma handle_line_logs:
  "logs (en_to_json en) (ho_raft_io ho) (authorised ho w p) w (snd (handle_line en ho session p line w))"
proof (cases "first_of (commands en) ho session p line w")
  case None
  have "kept (snd (go_line ho session p line w)) = kept w" by simp
  with None show ?thesis
    by (cases "go_line ho session p line w")
      (auto simp: handle_line_def intro!: logs_kept split: bool.split)
next
  case (Some v)
  with lines.logs [OF Some] show ?thesis by (simp add: handle_line_def)
qed

section \<open>The groups are the replay of the log\<close>

definition books :: "world \<Rightarrow> raft_log \<times> string option \<times> group_store \<times> bool" where
  "books w = (w_raft w, w_raft_file w, w_groups w, w_failed w)"

lemma kept_books: "kept v = kept w \<Longrightarrow> books v = books w"
  by (simp add: kept_def books_def)

lemma books_clock [simp]: "books (w\<lparr>w_now_ms := t\<rparr>) = books w"
  by (simp add: books_def)

text \<open>
  The groups in memory are the replay of a list of entries, which is also what the file of the log
  holds and what the log in memory continues; or the file is what a failed append has left of that.
\<close>

definition log_state ::
  "(group_log_entry raft_envelope \<Rightarrow> string) \<Rightarrow> group_log_entry raft_envelope list \<Rightarrow> raft_log \<Rightarrow>
   string option \<Rightarrow> bool \<Rightarrow> bool" where
  "log_state to_json es rl fl failed \<longleftrightarrow>
     (if failed
      then \<exists>io ms e rl0 fl0. log_rel to_json es rl0 fl0 \<and> rl_next_index rl0 < u64_max
             \<and> raft_append to_json io ms e rl0 fl0 = (None, rl, fl)
      else log_rel to_json es rl fl)"

definition replays ::
  "(group_log_entry raft_envelope \<Rightarrow> string) \<Rightarrow> raft_log \<times> string option \<times> group_store \<times> bool \<Rightarrow> bool" where
  "replays to_json b \<longleftrightarrow>
     (case b of (rl, fl, gs, failed) \<Rightarrow>
        \<exists>es. log_state to_json es rl fl failed \<and> gs = foldl group_apply group_store_empty (map re_entry es))"

definition next_index :: "world \<Rightarrow> nat" where
  "next_index w = rl_next_index (w_raft w)"

text \<open>As long as the index has not reached the end of \<open>u64\<close>, a change of the books keeps the log.\<close>

definition book_keeps ::
  "(group_log_entry raft_envelope \<Rightarrow> string) \<Rightarrow> world \<Rightarrow> world \<Rightarrow> bool" where
  "book_keeps to_json w w' \<longleftrightarrow>
     (next_index w' < u64_max \<longrightarrow>
        next_index w \<le> next_index w' \<and> (replays to_json (books w) \<longrightarrow> replays to_json (books w')))"

lemma book_keeps_same: "books w' = books w \<Longrightarrow> book_keeps to_json w w'"
  by (simp add: book_keeps_def next_index_def books_def)

lemma book_keeps_trans: "book_keeps to_json w v \<Longrightarrow> book_keeps to_json v u \<Longrightarrow> book_keeps to_json w u"
  by (auto simp: book_keeps_def)

lemma append_group_index:
  "next_index (raft_append_group to_json io e w)
     = (if w_failed w then next_index w else sat_add64 (next_index w) 1)"
  using raft_append_index [of to_json "io (rl_next_index (w_raft w))" "w_now_ms w" e "w_raft w" "w_raft_file w"]
  by (simp add: raft_append_group_def next_index_def Let_def case_prod_beta split: option.split)

lemma append_group_replays:
  assumes "replays to_json (books w)" "next_index w < u64_max"
  shows "replays to_json (books (raft_append_group to_json io e w))"
proof (cases "w_failed w")
  case True
  then show ?thesis using assms(1) by (simp add: append_failed)
next
  case False
  let ?io = "io (rl_next_index (w_raft w))"
  obtain r rl fl where a: "raft_append to_json ?io (w_now_ms w) e (w_raft w) (w_raft_file w) = (r, rl, fl)"
    by (cases "raft_append to_json ?io (w_now_ms w) e (w_raft w) (w_raft_file w)")
  from assms(1) False obtain es where es: "log_rel to_json es (w_raft w) (w_raft_file w)"
      "w_groups w = foldl group_apply group_store_empty (map re_entry es)"
    by (auto simp: replays_def books_def log_state_def)
  show ?thesis
  proof (cases r)
    case None
    then have "books (raft_append_group to_json io e w) = (rl, fl, w_groups w, True)"
      using False a by (simp add: raft_append_group_def books_def)
    then show ?thesis
      using es a assms(2) None by (fastforce simp: replays_def log_state_def next_index_def)
  next
    case (Some env)
    then have io: "?io = WriteOk"
      using a raft_append_None [of to_json ?io "w_now_ms w" e "w_raft w" "w_raft_file w"] by auto
    from raft_append_rel [OF es(1) _ a [unfolded io]] assms(2)
    have "log_rel to_json (es @ [next_envelope (w_now_ms w) e (w_raft w)]) rl fl"
      by (simp add: next_index_def)
    moreover have "books (raft_append_group to_json io e w) = (rl, fl, group_apply (w_groups w) e, False)"
      using False a Some by (simp add: raft_append_group_def books_def)
    moreover have "group_apply (w_groups w) e = foldl group_apply group_store_empty
        (map re_entry (es @ [next_envelope (w_now_ms w) e (w_raft w)]))"
      by (simp add: es(2) next_envelope_def)
    ultimately show ?thesis unfolding replays_def log_state_def by auto
  qed
qed

lemma book_keeps_append: "book_keeps to_json w (raft_append_group to_json io e w)"
proof -
  have "next_index w < u64_max \<and> next_index w \<le> next_index (raft_append_group to_json io e w)"
    if "next_index (raft_append_group to_json io e w) < u64_max"
    using that sat_Suc_less [of "next_index w"] by (auto simp: append_group_index split: if_splits)
  then show ?thesis using append_group_replays by (simp add: book_keeps_def)
qed

lemma book_keeps_appends: "book_keeps to_json w (appends to_json io es w)"
proof (induction es rule: rev_induct)
  case (snoc e es)
  then show ?case using book_keeps_trans [OF _ book_keeps_append] by simp
qed (simp add: book_keeps_same)

lemma book_keeps_logs: "logs to_json io P w w' \<Longrightarrow> book_keeps to_json w w'"
  using book_keeps_trans [OF book_keeps_appends book_keeps_same [OF kept_books]] by (auto simp: logs_def)

lemma request_books:
  "book_keeps (en_to_json en) w (snd (on_request en ho r w))"
  by (auto simp: on_request_def on_input_def Let_def split: shard_req.split option.split
      intro!: book_keeps_same kept_books book_keeps_logs [OF handle_line_logs])

lemma books_turn [simp]:
  "books (turn_start t w) = books w" "books (persist_live_players ho w) = books w"
  "books (conn_world (turn_end t r)) = books (snd r)"
proof -
  show "books (persist_live_players ho w) = books w" for w by (rule kept_books) simp
  have d: "books (drain ho w) = books w" "books (regen_resources w) = books w" for ho w
    by (rule kept_books, simp)+
  then show "books (turn_start t w) = books w" by (simp add: turn_start_def)
  show "books (conn_world (turn_end t r)) = books (snd r)"
    by (cases r) (simp add: turn_end_def d split: bool.split)
qed

lemma turn_books:
  "book_keeps (en_to_json (tn_env t)) (conn_world c) (conn_world (broker_turn c t))"
proof (cases c)
  case (Serving w)
  have r: "book_keeps (en_to_json (tn_env t)) w (snd (on_request (tn_env t) (tn_ho t) r (turn_start t w)))" for r
    by (rule book_keeps_trans [OF book_keeps_same request_books]) simp
  moreover have "book_keeps (en_to_json (tn_env t)) w
      (conn_world (turn_end t (on_request (tn_env t) (tn_ho t) r (turn_start t w))))" for r
    by (rule book_keeps_trans [OF r book_keeps_same]) simp
  ultimately show ?thesis
    using Serving by (simp add: broker_turn_def serve_turn_def Let_def case_prod_beta book_keeps_same
        split: wake.split option.split sum.split)
qed (simp_all add: broker_turn_def book_keeps_same)

section \<open>A restart\<close>

lemma book_keeps_foldl:
  "(\<And>w x. book_keeps to_json w (f w x)) \<Longrightarrow> book_keeps to_json w (foldl f w xs)"
  by (induction xs arbitrary: w) (auto intro: book_keeps_same book_keeps_trans)

lemma book_keeps_genesis: "book_keeps to_json w (ensure_genesis_groups to_json io admins sso w)"
proof -
  have e: "book_keeps to_json w (ensure_group to_json io gid kind nm w)" for gid kind nm w
    by (simp add: ensure_group_def book_keeps_append book_keeps_same)
  have a: "book_keeps to_json w (foldl (\<lambda>w p. enrol_admin to_json io p w) w ps)" for w ps
    by (rule book_keeps_foldl) (simp add: enrol_admin_def book_keeps_append)
  have c: "book_keeps to_json w (foldl (\<lambda>w (gid, cls). ensure_group to_json io gid (KindClass cls) (''class:'' @ cls) w) w gs)"
    for w gs by (rule book_keeps_foldl) (simp add: case_prod_beta e)
  show ?thesis
    unfolding ensure_genesis_groups_def Let_def
    by (rule book_keeps_trans [OF book_keeps_trans [OF book_keeps_trans [OF e c] a] a])
qed

lemma world_new_books:
  assumes "json_ok to_json from_json" "log_file to_json fl"
    "world_new to_json from_json players_json io rooms seed ems wms fl players admins sso = Inr w"
    "next_index w < u64_max"
  shows "replays to_json (books w)"
proof -
  obtain es rl where o: "raft_open from_json fl = Inr (rl, es)" "log_rel to_json es rl fl"
    by (rule open_log_file [OF assms(1,2)])
  define w0 where "w0 = world_start rooms seed ems wms rl fl
    (foldl group_apply group_store_empty (map re_entry es)) (load_player_snapshots players_json players) players"
  have "w = ensure_genesis_groups to_json io admins sso w0"
    using assms(3) o(1) by (simp add: world_new_def w0_def Let_def split: if_splits)
  moreover have "replays to_json (books w0)"
    using o(2) by (auto simp: w0_def world_start_def books_def replays_def log_state_def)
  ultimately show ?thesis
    using book_keeps_genesis [of to_json w0 io admins sso] assms(4) by (simp add: book_keeps_def)
qed

lemma run_books:
  assumes "list_all (\<lambda>t. en_to_json (tn_env t) = to_json) ts"
  shows "book_keeps to_json (conn_world c) (conn_world (foldl broker_turn c ts))"
  using assms
proof (induction ts arbitrary: c)
  case (Cons t ts)
  then show ?case using book_keeps_trans [OF turn_books [of t c]] by auto
qed (simp add: book_keeps_same)

lemma start_books: "books (broker_start ho w) = books w"
  by (rule kept_books) (simp add: broker_start_def)


instance capability :: countable by countable_datatype
instance group_role :: countable by countable_datatype
instance group_kind :: countable by countable_datatype
instance group_log_entry :: countable by countable_datatype

text \<open>A concrete text form of the entries, one number per line.\<close>

definition entry_text :: "group_log_entry raft_envelope \<Rightarrow> string" where
  "entry_text e = ''{'' @ show_nat (to_nat (re_index e, re_ms e, re_entry e)) @ ''}''"

definition entry_of_text :: "string \<Rightarrow> string + group_log_entry raft_envelope" where
  "entry_of_text s =
     (if \<not> suffix ''}'' s then Inl ''EOF while parsing an object''
      else
        (case parse_digits_from 0 (drop 1 (butlast s)) of
           None \<Rightarrow> Inl ''no number''
         | Some n \<Rightarrow> (case from_nat n of (i, m, e) \<Rightarrow> Inr \<lparr>re_index = i, re_ms = m, re_entry = e\<rparr>)))"

lemma entry_json_ok: "json_ok entry_text entry_of_text"
proof (rule json_ok_braces)
  show "entry_text e = ''{'' @ show_nat (to_nat (re_index e, re_ms e, re_entry e)) @ ''}''" for e
    by (simp add: entry_text_def)
  show "set (show_nat (to_nat (re_index e, re_ms e, re_entry e))) \<subseteq> insert (CHR '','') {c. is_ascii_digit c}"
    for e :: "group_log_entry raft_envelope" using show_nat_set by blast
  show "entry_of_text (entry_text e) = Inr e" for e
    by (simp add: entry_of_text_def entry_text_def butlast_append parse_digits_show_nat)
      (simp add: suffix_def)
  show "\<not> suffix ''}'' s \<Longrightarrow> isl (entry_of_text s)" for s by (simp add: entry_of_text_def)
qed

definition indices_le :: "nat \<Rightarrow> world \<Rightarrow> world \<Rightarrow> bool" where
  "indices_le n w w' \<longleftrightarrow> next_index w' \<le> next_index w + n"

lemma index_append: "indices_le 1 w (raft_append_group to_json io e w)"
  by (simp add: indices_le_def append_group_index sat_add64_def)

lemma indices_foldl: "(\<And>w x. indices_le 1 w (f w x)) \<Longrightarrow> indices_le (length xs) w (foldl f w xs)"
proof (induction xs arbitrary: w)
  case (Cons x xs)
  then have "indices_le 1 w (f w x)" "indices_le (length xs) (f w x) (foldl f (f w x) xs)" by auto
  then show ?case by (simp add: indices_le_def)
qed (simp add: indices_le_def)

lemma index_genesis: "indices_le 13 w (ensure_genesis_groups to_json io [] [] w)"
proof -
  have e: "indices_le 1 w (ensure_group to_json io gid kind nm w)" for gid kind nm w
    using index_append [of w to_json] by (simp add: ensure_group_def) (simp add: indices_le_def)
  let ?w = "ensure_group to_json io group_id_admins KindAdmin ''admins'' w"
  have "indices_le (length class_groups) ?w
      (foldl (\<lambda>w (gid, cls). ensure_group to_json io gid (KindClass cls) (''class:'' @ cls) w) ?w class_groups)"
    by (rule indices_foldl) (auto simp: case_prod_beta intro: e [simplified])
  moreover have "length class_groups = 12" by (simp add: class_groups_def class_all_def)
  moreover have "List.map_filter boot_admin [] = []" "List.map_filter boot_admin_sso [] = []"
    by (simp_all add: List.map_filter_def)
  ultimately show ?thesis
    using e [of w group_id_admins KindAdmin "''admins''"]
    by (simp add: ensure_genesis_groups_def Let_def indices_le_def)
qed

lemma genesis_same:
  assumes "\<And>e v. g (raft_append_group to_json io e v) = g v"
  shows "g (ensure_genesis_groups to_json io admins sso w) = g w"
  using assms by (simp add: ensure_genesis_groups_def ensure_group_def enrol_admin_def Let_def case_prod_unfold foldl_same [where g = g])

lemma append_same [simp]:
  "w_now_ms (raft_append_group to_json io e w) = w_now_ms w"
  "w_events (raft_append_group to_json io e w) = w_events w"
  "w_bartender_emote_ms (raft_append_group to_json io e w) = w_bartender_emote_ms w"
  "w_mob_wander_ms (raft_append_group to_json io e w) = w_mob_wander_ms w"
  by (simp_all add: raft_append_group_def Let_def case_prod_beta split: option.split)

text \<open>An administrator attaches and sets a policy of the administrators' group.\<close>

definition motd_line :: string where "motd_line = ''group policy set 1 motd hi''"

definition admin_turn :: "wake \<Rightarrow> turn" where
  "admin_turn k = (quiet_turn k)\<lparr>tn_env := (tn_env (quiet_turn k))\<lparr>en_to_json := entry_text,
     en_read_auth := (\<lambda>b. Some \<lparr>ab_acct = Some ''ann'', ab_method = None, ab_google_sub = None,
       ab_google_email = None, ab_oidc_sub = None, ab_oidc_email = None, ab_caps = Some [''admin.all'']\<rparr>)\<rparr>\<rparr>"

definition hello_admin :: "u8 list" where "hello_admin = write_req 1 7 [2, 0, 2, 123, 125, 65, 110, 110]"

definition motd_bytes :: "u8 list" where
  "motd_bytes = [103, 114, 111, 117, 112, 32, 112, 111, 108, 105, 99, 121, 32, 115, 101, 116, 32, 49, 32,
     109, 111, 116, 100, 32, 104, 105]"

definition set_motd :: "u8 list" where "set_motd = write_req 3 7 motd_bytes"

lemma parse_admin:
  "parse_req hello_admin = Some (Inr (Attach 7 False (Some [123, 125]) None None None None [65, 110, 110]))"
  by code_simp

lemma parse_motd: "parse_req set_motd = Some (Inr (Input 7 motd_bytes))"
  using parse_req_header [OF set_motd_def] by (simp add: pres_simps)

lemma motd_parts:
  "text_of motd_bytes = motd_line" "utf8_lossy motd_line = motd_line" "trim motd_line = motd_line"
  "to_ascii_lowercase motd_line = motd_line" "motd_line \<noteq> []"
  "strip_prefix ''group policy set '' motd_line = Some ''1 motd hi''"
  "split_whitespace (trim ''1 motd hi'') = [''1'', ''motd'', ''hi'']"
  "trim ''1'' = ''1''"
  by code_simp+

lemma motd_others:
  "motd_line \<notin> {''help'', ''areas'', ''rules'', ''coc'', ''code_of_conduct'', ''buildinfo'', ''uptime'', ''caps'',
     ''capabilities'', ''caps me'', ''caps list'', ''groups'', ''aiping'', ''ai ping'', ''group'', ''group list''}"
  "\<not> prefix ''aiping '' motd_line" "\<not> prefix ''ai ping '' motd_line"
  "strip_prefix ''group show '' motd_line = None" "strip_prefix ''group create '' motd_line = None"
  "strip_prefix ''group add '' motd_line = None" "strip_prefix ''group remove '' motd_line = None"
  "strip_prefix ''group role '' motd_line = None"
  by code_simp+

lemma motd_line_set:
  assumes "map_option ss_pending_confirm (w_sessions w s) = Some None" "AdminAll \<in> c_auth_caps p"
    "gs_groups (w_groups w) 1 \<noteq> None"
  shows "handle_line en ho s p motd_line w = (True,
    logged_reply s ''group: 1 policy set motd=hi'' (log_group_change en ho (GroupPolicySet 1 ''motd'' (Some ''hi'')) w))"
proof -
  have ad: "has_group_cap ho w p 1 GroupPolicySetCap"
    using assms(2) by (simp add: has_group_cap_def is_admin_def effective_caps_for_def)
  have n: "show_nat 1 = ''1''" by code_simp
  then have u: "parse_uint u64_max ''1'' = Some 1"
    using parse_uint_show_nat [of 1 u64_max] by (simp add: u64_max_def)
  have r: "resolve_group_id w ''1'' = Some 1"
    using assms(3) u by (simp add: resolve_group_id_def motd_parts(8))
  obtain ss where ss: "w_sessions w s = Some ss" "ss_pending_confirm ss = None" using assms(1) by auto
  have "first_of (commands en) ho s p motd_line w = Some
    (logged_reply s ''group: 1 policy set motd=hi'' (log_group_change en ho (GroupPolicySet 1 ''motd'' (Some ''hi'')) w))"
    using motd_others
    by (simp add: commands_def cmd_confirm_def ss cmd_info_def cmd_aiping_def cmd_uptime_def cmd_caps_def
        cmd_groups_def cmd_group_list_def cmd_group_show_def cmd_group_create_def cmd_group_add_def
        cmd_group_remove_def cmd_group_role_def cmd_group_policy_def motd_parts Let_def in_group_def r ad n
        del: One_nat_def)
  then show ?thesis by (simp add: handle_line_def)
qed

lemma motd_turn:
  assumes "at_rest w" "active_char w 7 = Some c" "AdminAll \<in> c_auth_caps c"
    "map_option ss_pending_confirm (w_sessions w 7) = Some None" "gs_groups (w_groups w) 1 = Some g"
  obtains v where "broker_turn (Serving w) (admin_turn (Frame set_motd)) = Serving v" "at_rest v"
    "next_index v = sat_add64 (next_index w) 1"
    "w_groups v = group_apply (w_groups w) (GroupPolicySet 1 ''motd'' (Some ''hi''))"
proof -
  let ?t = "admin_turn (Frame set_motd)"
  let ?w = "regen_resources w"
  let ?u = "raft_append_group entry_text (\<lambda>_. WriteOk) (GroupPolicySet 1 ''motd'' (Some ''hi'')) ?w"
  let ?v = "logged_reply 7 ''group: 1 policy set motd=hi''
    (log_group_change (tn_env ?t) demo_ho (GroupPolicySet 1 ''motd'' (Some ''hi'')) ?w)"
  have q: "tn_now ?t = 0" "tn_later ?t = 0" "tn_wake ?t = Frame set_motd" "tn_ho ?t = demo_ho"
    "en_to_json (tn_env ?t) = entry_text" "ho_raft_io demo_ho = (\<lambda>_. WriteOk)"
    by (simp_all add: admin_turn_def quiet_turn_def demo_ho_def)
  have k0: "kept ?w = kept w" "\<not> w_failed ?w"
    using rest_regen [OF assms(1)] by (simp_all add: at_rest_def)
  have u: "\<not> w_failed ?u" "w_groups ?u = group_apply (w_groups ?w) (GroupPolicySet 1 ''motd'' (Some ''hi''))"
    using k0(2) by (simp_all add: raft_append_group_def raft_append_def Let_def)
  have v: "w_groups ?v = w_groups ?u" "next_index ?v = next_index ?u" "w_failed ?v = w_failed ?u"
      "w_events ?v = w_events w" "w_now_ms ?v = w_now_ms w"
    using u(1) by (simp_all add: log_group_change_def Let_def q logged_reply_def reply_def next_index_def
        broadcast_raft_def say_def) (simp add: regen_resources_def)
  have r: "at_rest ?v"
    using assms(1) u(1) v pop_same [of ?v w] by (simp add: at_rest_def)
  have h: "on_request (tn_env ?t) (tn_ho ?t) (Input 7 motd_bytes) ?w = (True, ?v)"
    using assms(2-5) k0(1)
    by (simp add: on_request_def on_input_def Let_def motd_parts(1-3,5) active_regen q
        motd_line_set [where p = "regen_char (w_now_ms w) c"] kept_def)
  have "broker_turn (Serving w) ?t = Serving ?v"
    by (rule rest_turn [OF assms(1) q(1,2,3) parse_motd h r])
  moreover have "w_groups ?w = w_groups w" "next_index ?w = next_index w"
    using k0(1) by (simp_all add: kept_def next_index_def)
  ultimately show ?thesis using that r u k0(2) v by (simp add: append_group_index)
qed


section \<open>Authority\<close>

text \<open>The groups after some entries: a group that no entry is about is as before.\<close>

lemma group_apply_other: "gid \<noteq> entry_gid e \<Longrightarrow> gs_groups (group_apply st e) gid = gs_groups st gid"
  by (cases e) (auto simp: group_apply_def Let_def split: option.split)

lemma append_group_groups:
  "w_groups (raft_append_group to_json io e w) \<in> {w_groups w, group_apply (w_groups w) e}"
  by (simp add: raft_append_group_def Let_def case_prod_beta split: option.split)

lemma groups_after:
  "gid \<notin> entry_gid ` set es \<Longrightarrow> gs_groups (w_groups (appends to_json io es w)) gid = gs_groups (w_groups w) gid"
proof (induction es rule: rev_induct)
  case (snoc e es)
  then show ?case
    using append_group_groups [of to_json io e "appends to_json io es w"] by (auto simp: group_apply_other)
qed simp

lemma fresh_unused:
  assumes "iter_ok (ho_nat ho)" "finite (dom (gs_groups st))" "\<forall>gid \<in> dom (gs_groups st). gid < u64_max"
  shows "gs_groups st (fresh_group_id ho st) = None"
proof -
  have s: "set (map_keys (ho_nat ho) (gs_groups st)) = dom (gs_groups st)"
    using assms(1,2) by (simp add: set_map_keys)
  show ?thesis
  proof (cases "map_keys (ho_nat ho) (gs_groups st)")
    case Nil
    with s show ?thesis by auto
  next
    case (Cons k ks)
    let ?m = "foldl max k ks"
    have le: "x \<le> ?m" if "x \<in> dom (gs_groups st)" for x
      using that s Cons foldl_max_ge [of k ks] by auto
    have "?m < u64_max"
      by (rule foldl_max_less) (use s Cons assms(3) in auto)
    then have "?m < fresh_group_id ho st"
      by (simp add: fresh_group_id_def Cons Let_def wrap_add64_def u64_max_def)
    with le show ?thesis by (meson domIff leD)
  qed
qed

text \<open>
  C3. Groups change only by authority. Whatever line a character types, a group that existed is
  changed only if the character holds, in that very group, one of the capabilities for managing it,
  and a group comes into being only if the character may create groups.
\<close>

theorem groups_change_needs_authority:
  assumes "orders_ok ho" "finite (dom (gs_groups (w_groups w)))"
    "\<forall>gid \<in> dom (gs_groups (w_groups w)). gid < u64_max"
  shows "gs_groups (w_groups (snd (handle_line en ho session p line w))) gid = gs_groups (w_groups w) gid \<or>
    (\<exists>cap \<in> {GroupMemberAdd, GroupMemberRemove, GroupRoleSet, GroupPolicySetCap, GroupRoleCapsSetCap}.
       has_group_cap ho w p gid cap) \<or>
    (gs_groups (w_groups w) gid = None \<and> has_cap ho w p GroupCreateCap)"
proof -
  obtain es where es: "list_all (authorised ho w p) es"
    "kept (snd (handle_line en ho session p line w)) = kept (appends (en_to_json en) (ho_raft_io ho) es w)"
    using handle_line_logs [of en ho w p session line] by (auto simp: logs_def)
  show ?thesis
  proof (cases "gid \<in> entry_gid ` set es")
    case False
    with es(2) groups_after [OF False, of "en_to_json en" "ho_raft_io ho" w] show ?thesis by (simp add: kept_def)
  next
    case True
    then obtain e where e: "e \<in> set es" "gid = entry_gid e" by auto
    with es(1) have "authorised ho w p e" by (simp add: list_all_iff)
    moreover have "entry_caps e \<subseteq> {GroupMemberAdd, GroupMemberRemove, GroupRoleSet, GroupPolicySetCap, GroupRoleCapsSetCap}"
      by (cases e rule: entry_caps.cases) auto
    moreover have "gs_groups (w_groups w) (fresh_group_id ho (w_groups w)) = None"
      using assms by (intro fresh_unused) (auto simp: orders_ok_def)
    ultimately show ?thesis using e(2) by (auto simp: authorised_def)
  qed
qed

theorem groups_change_needs_authority_witness:
  "gs_groups (w_groups (snd (handle_line (tn_env (quiet_turn Closed)) demo_ho 7 demo_character
     ''group create guild Rats'' pit_start))) 2000 = None"
proof -
  have g: "w_groups pit_start = group_store_empty"
    by (simp add: pit_start_def world_start_def)
  have "effective_caps_for demo_ho pit_start demo_character = {}"
    by (simp add: effective_caps_for_def g effective_caps_for_principal_def group_store_empty_def
        map_keys_def demo_ho_def demo_character_def)
  then have "\<not> has_cap demo_ho pit_start demo_character GroupCreateCap"
    "\<not> has_group_cap demo_ho pit_start demo_character 2000 cap" for cap
    by (simp_all add: has_cap_def has_group_cap_def is_admin_def Let_def g group_store_empty_def
        caps_for_principal_in_group_def role_for_principal_in_group_def)
  with groups_change_needs_authority [OF demo_ho_ok, of pit_start "tn_env (quiet_turn Closed)" 7
      demo_character "''group create guild Rats''" 2000]
  show ?thesis by (auto simp: g group_store_empty_def)
qed

end
