(* ===== verification/Serving.thy ===== *)
theory Serving
  imports GroupLog
begin

text \<open>
  The order of timers and requests on a connection of the broker: the loop of \<open>handle_broker\<close>
  (\<open>apps/shard_01/src/main.rs\<close>) drains the timer queue before it reads a request.
\<close>

section \<open>Timers come first\<close>

text \<open>
  The events of a list, each the next that is due when the ones before it have been handled, taken
  from the queue and handled.
\<close>

fun carries_out :: "hash_orders \<Rightarrow> world \<Rightarrow> scheduled_event list \<Rightarrow> world \<Rightarrow> bool" where
  "carries_out ho w [] v \<longleftrightarrow> v = w"
| "carries_out ho w (e # es) v \<longleftrightarrow>
     (case pop_due_event w of
        None \<Rightarrow> False
      | Some (e', u) \<Rightarrow> e' = e \<and> carries_out ho (handle_event ho (se_kind e) u) es v)"

lemma process_due_carries:
  "process_due_events n ho w = Some v \<Longrightarrow> \<exists>es. carries_out ho w es v \<and> length es \<le> n"
proof (induction n ho w arbitrary: v rule: process_due_events.induct)
  case (1 n ho w)
  show ?case
  proof (cases "pop_due_event w")
    case None
    with 1(2) show ?thesis by (intro exI [where x = "[]"]) (simp add: process_due_events.simps)
  next
    case (Some p)
    obtain e u where p: "p = (e, u)" by (cases p)
    with Some 1(2) obtain m where m: "n = Suc m" "process_due_events m ho (handle_event ho (se_kind e) u) = Some v"
      by (cases n) (simp_all add: process_due_events.simps [of _ ho w])
    from 1(1) [OF Some p [symmetric] m] obtain es where
      "carries_out ho (handle_event ho (se_kind e) u) es v" "length es \<le> m" by blast
    then have "carries_out ho w (e # es) v \<and> length (e # es) \<le> n" using Some p m(1) by simp
    then show ?thesis by blast
  qed
qed

lemma carries_kept: "carries_out ho w es v \<Longrightarrow> kept v = kept w"
  by (induction es arbitrary: w) (auto dest: kept_pop_due split: option.splits)

text \<open>
  C16. No request overtakes a timer. In a consistent world, a turn of a connection first takes the events
  that are due at its time from the queue, one by one in the order of the queue, and handles each of
  them, those that handled events have scheduled included; this ends with no event due, after at most
  \<open>due_work\<close> events, and the request of the turn is carried out in the world that results. The two
  intervals of the configuration are asked to be positive, as \<open>parse_args\<close> makes them, the clock and
  the character identifiers not to reach the end of \<open>u64\<close>.
\<close>

theorem requests_wait_for_timers:
  assumes "world_ok v" "orders_ok (tn_ho t)" "0 < w_bartender_emote_ms v" "0 < w_mob_wander_ms v"
    "tn_now t < u64_max" "w_next_char_id v + 47 * due_work (v\<lparr>w_now_ms := tn_now t\<rparr>) \<le> u64_max"
  shows "\<exists>es w. carries_out (tn_ho t) (regen_resources (v\<lparr>w_now_ms := tn_now t\<rparr>)) es w
    \<and> length es \<le> due_work (v\<lparr>w_now_ms := tn_now t\<rparr>)
    \<and> pop_due_event w = None \<and> w_now_ms w = tn_now t
    \<and> serve_turn t v =
        (case tn_wake t of
           TimerUp \<Rightarrow> Serving w
         | Closed \<Rightarrow> Ended (persist_live_players (tn_ho t) w)
         | ReadError \<Rightarrow> Broken w
         | Frame bs \<Rightarrow>
             (case parse_req bs of
                Some (Inr r) \<Rightarrow>
                  (let (left, u) = on_request (tn_env t) (tn_ho t) r w
                   in if w_failed u then Broken u else turn_end t (left, u))
              | _ \<Rightarrow> Broken w))"
proof -
  let ?v = "v\<lparr>w_now_ms := tn_now t\<rparr>"
  have r: "due_work (regen_resources ?v) = due_work ?v" "w_now_ms (regen_resources ?v) = tn_now t"
    "w_next_char_id (regen_resources ?v) = w_next_char_id v" "clock_ok (regen_resources ?v)"
    using assms(3-5) by (simp_all add: regen_resources_def due_work_def clock_ok_def)
  have "world_ok (regen_resources ?v)" using assms(1) by (intro regen_ok) simp
  with drain_ends [of "regen_resources ?v" "due_work ?v" "tn_ho t"] r assms(2,6) obtain w where
    w: "process_due_events (due_work ?v) (tn_ho t) (regen_resources ?v) = Some w" "pop_due_event w = None"
      "w_now_ms w = tn_now t" by auto
  then have "turn_start t v = w" using r(1) by (simp add: turn_start_def drain_def)
  with w process_due_carries [OF w(1)] show ?thesis by (auto simp: serve_turn_def Let_def)
qed

theorem requests_wait_for_timers_witness:
  "let v = schedule_at_ms 0 EvTick (pit_world []); t = quiet_turn (Frame hello_ann) in
   \<exists>es w. carries_out demo_ho (regen_resources v) es w \<and> es \<noteq> []
     \<and> pop_due_event w = None \<and> serve_turn t v = turn_end t (False, on_attach (tn_env t) demo_ho
         (attach_of (Attach 7 False None None None None None [65, 110, 110])) w)"
proof -
  let ?v = "schedule_at_ms 0 EvTick (pit_world [])" and ?t = "quiet_turn (Frame hello_ann)"
  have n: "w_now_ms (pit_world []) = 0" "w_next_char_id (pit_world []) = 1" "w_events (pit_world []) = []"
    "w_bartender_emote_ms (pit_world []) = 60000" "w_mob_wander_ms (pit_world []) = 15000" "\<not> w_failed ?v"
    by (simp_all add: pit_world_def pit_start_def world_start_def schedule_at_ms_def)
  have e: "?v\<lparr>w_now_ms := 0\<rparr> = ?v" using n(1) by (simp add: schedule_at_ms_def)
  have d: "due_work ?v = 3"
    using n(1,3) by (simp add: due_schedule work_def) (simp add: due_work_def queue_work_def)
  have q: "tn_now ?t = 0" "tn_wake ?t = Frame hello_ann" "tn_ho ?t = demo_ho"
    by (simp_all add: quiet_turn_def)
  have nm: "trim (utf8_lossy (text_of [65, 110, 110])) \<noteq> []" by code_simp
  from requests_wait_for_timers [of ?v ?t, unfolded q e d] obtain es w where
    es: "carries_out demo_ho (regen_resources ?v) es w" "pop_due_event w = None"
      "serve_turn ?t ?v = (let (left, u) = on_request (tn_env ?t) demo_ho
         (Attach 7 False None None None None None [65, 110, 110]) w
         in if w_failed u then Broken u else turn_end ?t (left, u))"
    by (auto simp: n demo_ho_ok pit_world_ok u64_max_def parse_ann)
  have "es \<noteq> []"
  proof
    assume "es = []"
    with es(1) have "w = regen_resources ?v" by simp
    with es(2) n(1,3) show False
      by (simp add: pop_due_event_def regen_resources_def schedule_at_ms_def)
  qed
  moreover have "kept w = kept ?v" using carries_kept [OF es(1)] by simp
  then have "\<not> w_failed (on_attach (tn_env ?t) demo_ho r w)" for r
    using n(6) kept_detach_attach(2) [of "tn_env ?t" demo_ho r w] by (simp add: kept_def)
  ultimately show ?thesis
    unfolding Let_def using es nm by (auto simp: on_request_def)
qed

end
