(* ===== verification/Throttle.thy ===== *)
theory Throttle
  imports RustStr "HOL-Library.AList"
begin

text \<open>
  The delays after failed logins (\<open>crates/slopmud/src/main.rs\<close>: \<open>backoff_delay\<close>, \<open>wait_seconds\<close>,
  \<open>LoginThrottle\<close>). Durations and instants are nanoseconds; the two hash maps, by address and by
  name, are association lists, one shape for both.
\<close>

definition login_backoff_base :: nat where "login_backoff_base = 1000000000"
definition login_backoff_max :: nat where "login_backoff_max = 30000000000"
definition login_backoff_reset_after :: nat where "login_backoff_reset_after = 600000000000"
definition login_throttle_max_ips :: nat where "login_throttle_max_ips = 2048"
definition login_throttle_max_names :: nat where "login_throttle_max_names = 2048"

definition backoff_delay :: "nat \<Rightarrow> nat" where
  "backoff_delay failures = min (login_backoff_base * 2 ^ min (failures - 1) 16) login_backoff_max"

definition wait_seconds :: "nat \<Rightarrow> nat" where
  "wait_seconds d =
     (let ms = d div 1000000 in if ms = 0 then 0 else min ((ms + 999) div 1000) u64_max)"

record throttle_entry =
  te_failures :: nat
  te_last_failure :: nat
  te_next_allowed :: nat

record 'ip throttle =
  th_by_ip :: "('ip \<times> throttle_entry) list"
  th_by_name :: "(string \<times> throttle_entry) list"

definition throttle_new :: "'ip throttle" where
  "throttle_new = \<lparr>th_by_ip = [], th_by_name = []\<rparr>"

definition retain_recent :: "nat \<Rightarrow> ('k \<times> throttle_entry) list \<Rightarrow> ('k \<times> throttle_entry) list" where
  "retain_recent now al =
     filter (\<lambda>(_, e). now - te_last_failure e \<le> login_backoff_reset_after) al"

definition throttle_prune :: "nat \<Rightarrow> 'ip throttle \<Rightarrow> 'ip throttle" where
  "throttle_prune now t =
     (let ips = retain_recent now (th_by_ip t);
          names = retain_recent now (th_by_name t)
      in \<lparr>th_by_ip = (if login_throttle_max_ips < length ips then [] else ips),
          th_by_name = (if login_throttle_max_names < length names then [] else names)\<rparr>)"

definition entry_wait :: "nat \<Rightarrow> throttle_entry option \<Rightarrow> nat \<Rightarrow> nat" where
  "entry_wait now e w =
     (case e of
        Some e \<Rightarrow> if now < te_next_allowed e then max w (te_next_allowed e - now) else w
      | None \<Rightarrow> w)"

definition throttle_wait :: "'ip \<Rightarrow> string \<Rightarrow> nat \<Rightarrow> 'ip throttle \<Rightarrow> nat \<times> 'ip throttle" where
  "throttle_wait ip name now t =
     (let t = throttle_prune now t;
          w = entry_wait now (map_of (th_by_ip t) ip) 0
      in (if name = [] then w else entry_wait now (map_of (th_by_name t) name) w, t))"

definition failed_entry :: "nat \<Rightarrow> throttle_entry option \<Rightarrow> throttle_entry" where
  "failed_entry now e =
     (let n = sat_add32 (case e of Some e \<Rightarrow> te_failures e | None \<Rightarrow> 0) 1
      in \<lparr>te_failures = n, te_last_failure = now, te_next_allowed = now + backoff_delay n\<rparr>)"

definition note_failure :: "'ip \<Rightarrow> string \<Rightarrow> nat \<Rightarrow> 'ip throttle \<Rightarrow> nat \<times> 'ip throttle" where
  "note_failure ip name now t =
     (let t = throttle_prune now t;
          e = failed_entry now (map_of (th_by_ip t) ip);
          t = t\<lparr>th_by_ip := AList.update ip e (th_by_ip t)\<rparr>;
          ip_delay = backoff_delay (te_failures e)
      in if name = [] then (max ip_delay 0, t)
         else
           (let f = failed_entry now (map_of (th_by_name t) name)
            in (max ip_delay (backoff_delay (te_failures f)),
                t\<lparr>th_by_name := AList.update name f (th_by_name t)\<rparr>)))"

definition note_success :: "'ip \<Rightarrow> string \<Rightarrow> 'ip throttle \<Rightarrow> 'ip throttle" where
  "note_success ip name t =
     (let t = t\<lparr>th_by_ip := AList.delete ip (th_by_ip t)\<rparr>
      in if name = [] then t else t\<lparr>th_by_name := AList.delete name (th_by_name t)\<rparr>)"

text \<open>What the login code asks of the throttle, in the order in which it holds the lock.\<close>

datatype 'ip throttle_op =
    ThWait 'ip string nat
  | ThFailure 'ip string nat
  | ThSuccess 'ip string

fun throttle_step :: "'ip throttle \<Rightarrow> 'ip throttle_op \<Rightarrow> 'ip throttle" where
  "throttle_step t (ThWait ip name now) = snd (throttle_wait ip name now t)"
| "throttle_step t (ThFailure ip name now) = snd (note_failure ip name now t)"
| "throttle_step t (ThSuccess ip name) = note_success ip name t"

fun op_time :: "'ip throttle_op \<Rightarrow> nat option" where
  "op_time (ThWait ip name now) = Some now"
| "op_time (ThFailure ip name now) = Some now"
| "op_time (ThSuccess ip name) = None"

fun clears :: "'ip \<Rightarrow> string \<Rightarrow> 'ip throttle_op \<Rightarrow> bool" where
  "clears ip name (ThSuccess ip' name') \<longleftrightarrow> ip' = ip \<or> name' = name"
| "clears ip name _ \<longleftrightarrow> False"

lemma backoff_delay_bounds:
  "login_backoff_base \<le> backoff_delay n" "backoff_delay n \<le> login_backoff_max"
  by (simp_all add: backoff_delay_def login_backoff_base_def login_backoff_max_def)

lemma backoff_delay_mono: "m \<le> n \<Longrightarrow> backoff_delay m \<le> backoff_delay n"
  unfolding backoff_delay_def by (intro min.mono mult_le_mono2 power_increasing) auto

lemma length_retain: "length (retain_recent now al) \<le> length al"
  by (simp add: retain_recent_def)

lemma length_alist_update: "length (AList.update k v al) \<le> Suc (length al)"
  by (induction al) auto

lemma map_of_retain:
  "map_of al k = Some e \<Longrightarrow> now - te_last_failure e \<le> login_backoff_reset_after \<Longrightarrow>
   map_of (retain_recent now al) k = Some e"
  by (induction al) (auto simp: retain_recent_def)

text \<open>An entry that bars its key until an instant, in a table too small to be cleared.\<close>

definition barred :: "nat \<Rightarrow> nat \<Rightarrow> nat \<Rightarrow> 'k \<Rightarrow> ('k \<times> throttle_entry) list \<Rightarrow> bool" where
  "barred since until room k al \<longleftrightarrow>
     (\<exists>e. map_of al k = Some e \<and> since \<le> te_last_failure e \<and> until \<le> te_next_allowed e
        \<and> until - since \<le> backoff_delay (te_failures e))
     \<and> length al + room \<le> 2048"

lemma barred_retain:
  assumes "barred since until room k al" "now - since \<le> login_backoff_reset_after"
  shows "barred since until room k (retain_recent now al)" "length (retain_recent now al) \<le> 2048"
  using assms length_retain [of now al] by (auto simp: barred_def intro!: map_of_retain)

lemma barred_fail:
  assumes "barred since until (Suc room) k al" "since \<le> now"
  shows "barred since until room k (AList.update j (failed_entry now (map_of al j)) al)"
proof -
  let ?f = "failed_entry now (map_of al j)"
  obtain e where e: "map_of al k = Some e" "since \<le> te_last_failure e" "until \<le> te_next_allowed e"
    "until - since \<le> backoff_delay (te_failures e)" using assms by (auto simp: barred_def)
  have "length (AList.update j ?f al) + room \<le> 2048"
    using assms(1) length_alist_update [of j ?f al] by (simp add: barred_def)
  moreover have "backoff_delay (te_failures e) \<le> backoff_delay (te_failures ?f)" if "j = k"
  proof (cases "te_failures e < u32_max")
    case True
    then show ?thesis
      by (intro backoff_delay_mono) (simp add: failed_entry_def e(1) that sat_add32_def Let_def)
  next
    case False
    then show ?thesis
      by (simp add: failed_entry_def e(1) that sat_add32_def Let_def backoff_delay_def u32_max_def)
  qed
  ultimately show ?thesis
    using e assms(2) by (auto simp: barred_def AList.update_conv' failed_entry_def Let_def)
qed

lemma barred_delete:
  "barred since until (Suc room) k al \<Longrightarrow> j \<noteq> k \<Longrightarrow> barred since until room k (AList.delete j al)"
  using AList.length_delete_le [of j al] by (auto simp: barred_def)

lemma barred_room: "barred since until (Suc room) k al \<Longrightarrow> barred since until room k al"
  by (auto simp: barred_def)

lemma barred_fresh:
  assumes "length al + Suc room \<le> 2048"
  shows "barred now (now + backoff_delay (te_failures (failed_entry now (map_of al k)))) room k
      (AList.update k (failed_entry now (map_of al k)) al)"
  using assms length_alist_update [of k "failed_entry now (map_of al k)" al]
  by (simp add: barred_def AList.update_conv' failed_entry_def Let_def)

text \<open>Both tables go through the same three changes, so one lemma serves address and name.\<close>

definition both_barred ::
  "nat \<Rightarrow> nat \<Rightarrow> nat \<Rightarrow> nat \<Rightarrow> 'ip \<Rightarrow> string \<Rightarrow> 'ip throttle \<Rightarrow> bool" where
  "both_barred since u1 u2 room ip name t \<longleftrightarrow>
     barred since u1 room ip (th_by_ip t)
     \<and> (if name = [] then length (th_by_name t) + room \<le> 2048
        else barred since u2 room name (th_by_name t))"

lemma both_barred_prune:
  assumes "both_barred since u1 u2 room ip name t" "now - since \<le> login_backoff_reset_after"
  shows "both_barred since u1 u2 room ip name (throttle_prune now t)"
  using assms barred_retain [OF _ assms(2), of u1 room ip "th_by_ip t"]
    barred_retain [OF _ assms(2), of u2 room name "th_by_name t"]
    length_retain [of now "th_by_name t"]
  by (auto simp: both_barred_def throttle_prune_def Let_def login_throttle_max_ips_def
      login_throttle_max_names_def)

lemma both_barred_step:
  assumes b: "both_barred since u1 u2 (Suc room) ip name t"
    and times: "\<And>now. op_time opn = Some now \<Longrightarrow> since \<le> now \<and> now - since \<le> login_backoff_reset_after"
    and "\<not> clears ip name opn"
  shows "both_barred since u1 u2 room ip name (throttle_step t opn)"
proof (cases opn)
  case (ThWait ip' name' now)
  then have "both_barred since u1 u2 (Suc room) ip name (throttle_prune now t)"
    using assms by (intro both_barred_prune) auto
  then show ?thesis by (auto simp: ThWait throttle_wait_def Let_def both_barred_def intro: barred_room)
next
  case (ThFailure ip' name' now)
  let ?t = "throttle_prune now t"
  have now: "since \<le> now" using times ThFailure by simp
  have p: "both_barred since u1 u2 (Suc room) ip name ?t"
    using assms ThFailure by (intro both_barred_prune) auto
  then show ?thesis
    using barred_fail [OF _ now, of u1 room ip "th_by_ip ?t" ip']
      barred_fail [OF _ now, of u2 room name "th_by_name ?t" name']
      length_alist_update [of name' "failed_entry now (map_of (th_by_name ?t) name')" "th_by_name ?t"]
    by (auto simp: ThFailure note_failure_def Let_def both_barred_def intro: barred_room)
next
  case (ThSuccess ip' name')
  with b assms(3) AList.length_delete_le [of name' "th_by_name t"] show ?thesis
    by (auto simp: note_success_def Let_def both_barred_def intro: barred_delete barred_room)
qed

lemma both_barred_run:
  assumes "both_barred since u1 u2 (length ops + room) ip name t"
    and "\<And>opn now. opn \<in> set ops \<Longrightarrow> op_time opn = Some now \<Longrightarrow>
      since \<le> now \<and> now - since \<le> login_backoff_reset_after"
    and "\<And>opn. opn \<in> set ops \<Longrightarrow> \<not> clears ip name opn"
  shows "both_barred since u1 u2 room ip name (foldl throttle_step t ops)"
  using assms
proof (induction ops arbitrary: t)
  case (Cons opn ops)
  have "both_barred since u1 u2 (length ops + room) ip name (throttle_step t opn)"
    using Cons.prems by (intro both_barred_step) auto
  then have "both_barred since u1 u2 room ip name (foldl throttle_step (throttle_step t opn) ops)"
    using Cons.prems(2,3) by (intro Cons.IH) auto
  then show ?case by simp
qed simp

definition op_between :: "nat \<Rightarrow> nat \<Rightarrow> 'ip throttle_op \<Rightarrow> bool" where
  "op_between a b opn \<longleftrightarrow> (case op_time opn of None \<Rightarrow> True | Some now \<Rightarrow> a \<le> now \<and> now \<le> b)"

text \<open>
  A failed login holds: whatever happens at other addresses and under other names, in any
  order, the wait of the same address and name is still all that remains of the delay it was
  given, as long as neither logs in and the tables have room, so that they are not cleared.
\<close>
theorem failed_login_holds:
  assumes "note_failure ip name now t = (delay, t')"
    and "length (th_by_ip t) + length ops < 2048" "length (th_by_name t) + length ops < 2048"
    and "list_all (\<lambda>opn. op_between now later opn \<and> \<not> clears ip name opn) ops"
    and "now \<le> later" "later < now + delay"
  shows "now + delay - later \<le> fst (throttle_wait ip name later (foldl throttle_step t' ops))"
proof -
  let ?p = "throttle_prune now t"
  let ?e = "failed_entry now (map_of (th_by_ip ?p) ip)"
  let ?f = "failed_entry now (map_of (th_by_name ?p) name)"
  let ?u1 = "now + backoff_delay (te_failures ?e)" and ?u2 = "now + backoff_delay (te_failures ?f)"
  have len: "length (th_by_ip ?p) \<le> length (th_by_ip t)" "length (th_by_name ?p) \<le> length (th_by_name t)"
    using length_retain [of now "th_by_ip t"] length_retain [of now "th_by_name t"]
    by (simp_all add: throttle_prune_def Let_def)
  have d: "now + delay = (if name = [] then ?u1 else max ?u1 ?u2)"
    using assms(1) by (auto simp: note_failure_def Let_def split: if_splits)
  have delay: "delay \<le> login_backoff_max"
    using d backoff_delay_bounds(2) by (auto split: if_splits simp: max_def)
  have t': "both_barred now ?u1 ?u2 (length ops + 0) ip name t'"
    using assms(1-3) len barred_fresh [of "th_by_ip ?p" "length ops" now ip]
      barred_fresh [of "th_by_name ?p" "length ops" now name]
    by (auto simp: note_failure_def Let_def both_barred_def split: if_splits)
  let ?t = "foldl throttle_step t' ops"
  have soon: "later - now \<le> login_backoff_reset_after"
    using assms(6) delay by (simp add: login_backoff_max_def login_backoff_reset_after_def)
  have "both_barred now ?u1 ?u2 0 ip name ?t"
  proof (rule both_barred_run [OF t'])
    fix opn x assume "opn \<in> set ops" "op_time opn = Some x"
    then have "now \<le> x" "x \<le> later" using assms(4) by (auto simp: list_all_iff op_between_def)
    with soon show "now \<le> x \<and> x - now \<le> login_backoff_reset_after" by simp
  qed (use assms(4) in \<open>auto simp: list_all_iff\<close>)
  from both_barred_prune [OF this soon]
  show ?thesis
    using assms(5,6) unfolding d
    by (auto simp: both_barred_def barred_def throttle_wait_def entry_wait_def Let_def max_def
        split: if_splits)
qed

definition one_failure :: "nat throttle" where
  "one_failure = snd (note_failure 7 ''eve'' 1000 throttle_new)"

lemma one_failure: "note_failure 7 ''eve'' 1000 throttle_new = (1000000000, one_failure)"
proof -
  have "fst (note_failure (7 :: nat) ''eve'' 1000 throttle_new) = 1000000000"
    by (simp add: note_failure_def throttle_new_def throttle_prune_def retain_recent_def Let_def
        failed_entry_def sat_add32_def u32_max_def backoff_delay_def login_backoff_base_def
        login_backoff_max_def)
  then show ?thesis by (simp add: one_failure_def prod_eq_iff)
qed

theorem failed_login_holds_witness:
  "999999000 \<le> fst (throttle_wait 7 ''eve'' 2000
     (foldl throttle_step one_failure [ThFailure 8 ''bob'' 1500, ThSuccess 9 ''ann'']))"
  using failed_login_holds [OF one_failure, of "[ThFailure 8 ''bob'' 1500, ThSuccess 9 ''ann'']" 2000]
  by (simp add: op_between_def throttle_new_def del: throttle_step.simps)

text \<open>The cap lifts every delay at once: with enough addresses the table is emptied.\<close>

lemma flooded_throttle_forgets:
  assumes "login_throttle_max_ips < length (retain_recent now (th_by_ip t))"
  shows "fst (throttle_wait ip [] now t) = 0"
  using assms by (simp add: throttle_wait_def throttle_prune_def entry_wait_def Let_def)

end
