(* ===== verification/LineId.thy ===== *)
theory LineId
  imports Utf8
begin

text \<open>
  Identifiers of output lines and the scrollback that keeps them
  (\<open>crates/slopmud/src/main.rs\<close>: \<open>LineId\<close>, \<open>LineIdGen\<close>, \<open>Scrollback\<close>). An identifier is a
  64-bit word, 42 bits of milliseconds since 2024, 10 bits of the node and 12 bits of a sequence
  number, written in 13 digits of base 32. The facts on words come first, then the text of an
  identifier, the generator, and the queue of the newest lines.
\<close>

section \<open>The text of an identifier\<close>

datatype line_id = LineId (line_id_word: u64)

definition line_id_epoch :: u64 where
  "line_id_epoch = 1704067200000"

definition line_id_alphabet :: string where
  "line_id_alphabet = ''0123456789abcdefghjkmnpqrstvwxyz''"

fun encode_digits :: "nat \<Rightarrow> u64 \<Rightarrow> string" where
  "encode_digits 0 v = []"
| "encode_digits (Suc n) v =
     encode_digits n (drop_bit 5 v) @ [line_id_alphabet ! unat (and v 31)]"

definition line_id_encode :: "line_id \<Rightarrow> string" where
  "line_id_encode i = encode_digits 13 (line_id_word i)"

definition line_digit :: "char \<Rightarrow> nat option" where
  "line_digit c =
     (if is_ascii_digit c then Some (of_char c - 48)
      else map_of (zip ''abcdefgh'' [10..<18] @ zip ''jk'' [18, 19] @ zip ''mn'' [20, 21]
        @ zip ''pqrst'' [22..<27] @ zip ''vwxyz'' [27..<32]
        @ [(CHR ''o'', 0), (CHR ''i'', 1), (CHR ''l'', 1)]) c)"

fun decode_digits :: "nat \<Rightarrow> string \<Rightarrow> nat option" where
  "decode_digits v [] = Some v"
| "decode_digits v (c # s) =
     (case line_digit (ascii_lower c) of
        None \<Rightarrow> None
      | Some d \<Rightarrow>
          if u64_max < v * 32 then None
          else if u64_max < v * 32 + d then None
          else decode_digits (v * 32 + d) s)"

definition line_id_decode :: "string \<Rightarrow> line_id option" where
  "line_id_decode s =
     (let s = dropWhile ((=) CHR ''@'') (trim s) in
      if s = [] then None
      else if list_all is_ascii_digit s then
        map_option (\<lambda>n. LineId (word_of_nat n)) (parse_uint u64_max s)
      else map_option (\<lambda>n. LineId (word_of_nat n)) (decode_digits 0 s))"

definition timestamp_unix_ms :: "line_id \<Rightarrow> nat option" where
  "timestamp_unix_ms i = Some (sat_add64 (unat line_id_epoch) (unat (drop_bit 22 (line_id_word i))))"

text \<open>The digits of a number, least significant last, and their two readings.\<close>

fun base32 :: "nat \<Rightarrow> nat \<Rightarrow> nat list" where
  "base32 0 v = []"
| "base32 (Suc n) v = base32 n (v div 32) @ [v mod 32]"

lemma length_base32 [simp]: "length (base32 n v) = n"
  by (induction n arbitrary: v) simp_all

lemma base32_less: "d \<in> set (base32 n v) \<Longrightarrow> d < 32"
  by (induction n arbitrary: v) auto

lemma and_31: "unat (and v 31 :: u64) = unat v mod 32"
proof -
  have "and (unat v) 31 = take_bit 5 (unat v)"
    by (simp add: take_bit_eq_mask mask_eq_exp_minus_1)
  then show ?thesis by (simp add: unsigned_and_eq take_bit_eq_mod)
qed

lemma unat_drop_5: "unat (drop_bit 5 v :: u64) = unat v div 32"
  using drop_bit_eq_div [of 5 "unat v"] by (simp add: unat_drop_bit_eq)

lemma encode_digits_base32:
  "encode_digits n v = map ((!) line_id_alphabet) (base32 n (unat v))"
  by (induction n arbitrary: v) (simp_all add: and_31 unat_drop_5)

lemma alphabet_table:
  "list_all (\<lambda>d. let c = line_id_alphabet ! d in line_digit (ascii_lower c) = Some d \<and>
      (is_ascii_digit c \<longleftrightarrow> d < 10) \<and> (is_ascii_digit c \<longrightarrow> (of_char c :: nat) - 48 = d) \<and>
      c \<noteq> CHR ''@'' \<and> c \<noteq> CHR ''+'') [0..<32]"
  by (simp add: upt_rec_numeral upt_conv_Cons line_id_alphabet_def line_digit_def is_ascii_digit_def ascii_lower_def
      is_ascii_upper_def)

lemma alphabet_digit:
  assumes "d < 32"
  shows "line_digit (ascii_lower (line_id_alphabet ! d)) = Some d"
    "is_ascii_digit (line_id_alphabet ! d) \<longleftrightarrow> d < 10"
    "is_ascii_digit (line_id_alphabet ! d) \<Longrightarrow> (of_char (line_id_alphabet ! d) :: nat) - 48 = d"
    "line_id_alphabet ! d \<noteq> CHR ''@''" "line_id_alphabet ! d \<noteq> CHR ''+''"
  using alphabet_table assms by (simp_all add: list_all_iff Let_def)

definition radix :: "nat \<Rightarrow> nat list \<Rightarrow> nat" where
  "radix b ds = foldl (\<lambda>a d. a * b + d) 0 ds"

lemma foldl_radix: "foldl (\<lambda>a d. a * b + d) v ds = v * b ^ length ds + radix b ds"
proof (induction ds arbitrary: v)
  case Nil
  then show ?case by (simp add: radix_def)
next
  case (Cons d ds)
  have "radix b (d # ds) = d * b ^ length ds + radix b ds"
    using Cons.IH [of d] by (simp add: radix_def)
  with Cons.IH [of "v * b + d"] show ?case by (simp add: algebra_simps)
qed

lemma radix_Nil [simp]: "radix b [] = 0"
  by (simp add: radix_def)

lemma radix_Cons: "radix b (d # ds) = d * b ^ length ds + radix b ds"
  using foldl_radix [of b d ds] by (simp add: radix_def)

lemma radix_base32: "v < 32 ^ n \<Longrightarrow> radix 32 (base32 n v) = v"
proof (induction n arbitrary: v)
  case (Suc n)
  have "v div 32 < 32 ^ n" using Suc.prems by (simp add: less_mult_imp_div_less mult.commute)
  from Suc.IH [OF this] show ?case by (simp add: radix_def)
qed simp

lemma radix_less: "(\<And>d. d \<in> set ds \<Longrightarrow> d < b) \<Longrightarrow> radix b ds < b ^ length ds"
proof (induction ds)
  case (Cons d ds)
  then have "d < b" "radix b ds < b ^ length ds" by auto
  then have "d + 1 \<le> b" by simp
  note \<open>radix b ds < b ^ length ds\<close>
  then have "d * b ^ length ds + radix b ds < (d + 1) * b ^ length ds" by simp
  also have "\<dots> \<le> b * b ^ length ds" using \<open>d + 1 \<le> b\<close> by (rule mult_right_mono) simp
  finally show ?case by (simp add: radix_Cons)
qed simp

lemma decode_digits_ok:
  assumes "\<And>d. d \<in> set ds \<Longrightarrow> d < 32" "v * 32 ^ length ds + radix 32 ds \<le> u64_max"
  shows "decode_digits v (map ((!) line_id_alphabet) ds) = Some (v * 32 ^ length ds + radix 32 ds)"
  using assms
proof (induction ds arbitrary: v)
  case (Cons d ds)
  have le: "(v * 32 + d) * 32 ^ length ds + radix 32 ds \<le> u64_max"
    using Cons.prems(2) by (simp add: radix_Cons algebra_simps)
  have "(v * 32 + d) * 1 \<le> (v * 32 + d) * 32 ^ length ds + radix 32 ds"
    by (rule trans_le_add1, rule mult_le_mono2) simp
  from this le have "(v * 32 + d) * 1 \<le> u64_max" by (rule order_trans)
  then have "v * 32 + d \<le> u64_max" by simp
  then show ?case
    using Cons.IH [OF _ le] Cons.prems(1) by (simp add: alphabet_digit radix_Cons algebra_simps)
qed simp

lemma parse_digits_ok:
  assumes "\<And>d. d \<in> set ds \<Longrightarrow> d < 10"
  shows "parse_digits_from v (map ((!) line_id_alphabet) ds) = Some (v * 10 ^ length ds + radix 10 ds)"
  using assms
proof (induction ds arbitrary: v)
  case (Cons d ds)
  then have "d < 10" by simp
  then have "is_ascii_digit (line_id_alphabet ! d)"
    "(of_char (line_id_alphabet ! d) :: nat) - 48 = d"
    using alphabet_digit(2,3) [of d] by simp_all
  with Cons.IH [of "v * 10 + d"] Cons.prems show ?case by (simp add: radix_Cons algebra_simps)
qed simp

lemma radix_10_le_32: "radix 10 ds \<le> radix 32 ds"
proof (induction ds)
  case (Cons d ds)
  have "(10 :: nat) ^ length ds \<le> 32 ^ length ds" by (rule power_mono) simp_all
  with Cons show ?case by (simp add: radix_Cons add_mono)
qed simp

lemma radix_10_eq_32_iff:
  "radix 10 (ds @ [d]) = radix 32 (ds @ [d]) \<longleftrightarrow> radix 32 ds = 0"
proof -
  have 10: "radix 10 (ds @ [d]) = radix 10 ds * 10 + d"
    and 32: "radix 32 (ds @ [d]) = radix 32 ds * 32 + d" by (simp_all add: radix_def)
  show ?thesis unfolding 10 32 using radix_10_le_32 [of ds] by auto
qed

lemma alphabet_bounds:
  "list_all (\<lambda>c. 48 \<le> (of_char c :: nat) \<and> (of_char c :: nat) < 0x80) line_id_alphabet"
  by (simp add: line_id_alphabet_def)

lemma no_ws_head: "48 \<le> (of_char c :: nat) \<Longrightarrow> (of_char c :: nat) < 0x80 \<Longrightarrow> ws_head (c # s) = None"
  by (auto simp: ws_head_None_iff uni_ws_def)

lemma no_ws_tail: "48 \<le> (of_char c :: nat) \<Longrightarrow> (of_char c :: nat) < 0x80 \<Longrightarrow> ws_tail (s @ [c]) = None"
  by (auto simp: ws_tail_None_iff uni_ws_def suffix_def append_eq_append_conv2 append_eq_Cons_conv Cons_eq_append_conv)

lemma length_alphabet: "length line_id_alphabet = 32"
  by (simp add: line_id_alphabet_def)

lemma encode_bytes:
  assumes "c \<in> set (line_id_encode i)"
  shows "48 \<le> (of_char c :: nat) \<and> (of_char c :: nat) < 0x80"
proof -
  obtain d where "d \<in> set (base32 13 (unat (line_id_word i)))" "c = line_id_alphabet ! d"
    using assms by (auto simp: line_id_encode_def encode_digits_base32 simp del: base32.simps)
  moreover from this have "d < length line_id_alphabet"
    using base32_less by (simp add: length_alphabet)
  ultimately show ?thesis using alphabet_bounds by (simp add: list_all_length)
qed

lemma length_encode [simp]: "length (line_id_encode i) = 13"
  by (simp add: line_id_encode_def encode_digits_base32)

lemma trim_marked_encode [simp]:
  "trim (replicate k CHR ''@'' @ line_id_encode i) = replicate k CHR ''@'' @ line_id_encode i"
    (is "trim ?s = _")
proof (rule trim_id)
  have ok: "48 \<le> (of_char c :: nat) \<and> (of_char c :: nat) < 0x80" if "c \<in> set ?s" for c
    using that encode_bytes [of c i] by (auto split: if_splits)
  have ne: "?s \<noteq> []" using length_encode [of i] by (metis append_is_Nil_conv list.size(3) zero_neq_numeral)
  obtain c t where t: "?s = c # t" using ne by (cases ?s) auto
  with ok [of c] show "ws_head ?s = None" by (simp add: no_ws_head)
  obtain u d where u: "?s = u @ [d]" using ne by (cases ?s rule: rev_cases) auto
  with ok [of d] show "ws_tail ?s = None" by (simp add: no_ws_tail)
qed

lemma hd_encode: "hd (line_id_encode i) \<noteq> CHR ''@''"
  using base32_less [of _ 13] alphabet_digit(4)
  by (metis (no_types, lifting) encode_digits_base32 length_0_conv length_base32 line_id_encode_def
      list.map_sel(1) list.set_sel(1) zero_neq_numeral)

lemma strip_marks [simp]:
  "dropWhile ((=) CHR ''@'') (replicate k CHR ''@'' @ line_id_encode i) = line_id_encode i"
proof -
  obtain c t where "line_id_encode i = c # t" using length_encode [of i] by (cases "line_id_encode i") auto
  then show ?thesis using hd_encode [of i] by (induction k) auto
qed

text \<open>An identifier is read back unless its text is a decimal number of its own.\<close>

lemma decode_encode:
  "line_id_decode (replicate k CHR ''@'' @ line_id_encode i) =
     Some (if list_all is_ascii_digit (line_id_encode i)
           then LineId (word_of_nat (radix 10 (base32 13 (unat (line_id_word i))))) else i)"
proof -
  let ?v = "unat (line_id_word i)" and ?ds = "base32 13 (unat (line_id_word i))"
  have v: "?v < 2 ^ 64" using unsigned_less [of "line_id_word i", where 'a = nat] by simp
  have enc: "line_id_encode i = map ((!) line_id_alphabet) ?ds"
    by (simp add: line_id_encode_def encode_digits_base32)
  have r32: "radix 32 ?ds = ?v" using v by (intro radix_base32) simp
  have ne: "line_id_encode i \<noteq> []" using length_encode [of i] by (metis list.size(3) zero_neq_numeral)
  show ?thesis
  proof (cases "list_all is_ascii_digit (line_id_encode i)")
    case True
    then have d10: "d < 10" if "d \<in> set ?ds" for d
      using that alphabet_digit(2) [OF base32_less [OF that]] by (auto simp: enc list_all_iff)
    obtain c t where ct: "line_id_encode i = c # t" using ne by (cases "line_id_encode i") auto
    have "is_ascii_digit c" using True ct by simp
    then have "c \<noteq> CHR ''+''" by (auto simp: is_ascii_digit_def)
    moreover have "parse_digits_from 0 (line_id_encode i) = Some (radix 10 ?ds)"
      using parse_digits_ok [of ?ds 0] d10 by (simp add: enc)
    moreover have "radix 10 ?ds \<le> u64_max"
      using radix_10_le_32 [of ?ds] r32 v by (simp add: u64_max_def)
    ultimately have "parse_uint u64_max (line_id_encode i) = Some (radix 10 ?ds)"
      by (simp add: parse_uint_def ct)
    with True ne show ?thesis by (simp add: line_id_decode_def)
  next
    case False
    have "decode_digits 0 (line_id_encode i) = Some ?v"
      using decode_digits_ok [of ?ds 0] base32_less v r32 by (simp add: enc u64_max_def)
    with False ne show ?thesis by (simp add: line_id_decode_def)
  qed
qed

text \<open>
  The text of a line identifier, with any number of at-signs before it, is read back as the
  same identifier, except when all its digits are decimal and it is not below ten: then it is
  read as a number in base ten, which is another identifier.
\<close>
theorem line_id_text_ambiguous:
  "line_id_decode (replicate k CHR ''@'' @ line_id_encode i) = Some i \<longleftrightarrow>
     \<not> (list_all is_ascii_digit (line_id_encode i) \<and> 10 \<le> line_id_word i)"
proof (cases "list_all is_ascii_digit (line_id_encode i)")
  case True
  let ?v = "unat (line_id_word i)"
  let ?ds = "base32 12 (?v div 32)" and ?d = "?v mod 32"
  have v: "?v < 2 ^ 64" using unsigned_less [of "line_id_word i", where 'a = nat] by simp
  have split: "base32 13 ?v = ?ds @ [?d]"
    using base32.simps(2) [of 12 ?v] by (simp del: base32.simps)
  have r: "radix 32 (?ds @ [?d]) = ?v" using radix_base32 [of ?v 13] v by (simp add: split)
  have r0: "radix 32 ?ds = ?v div 32" using v by (intro radix_base32) simp
  have d: "?d < 10"
    using True alphabet_digit(2) [of ?d] by (simp add: line_id_encode_def encode_digits_base32 split)
  let ?x = "radix 10 (?ds @ [?d])"
  have x: "?x < 2 ^ 64" using radix_10_le_32 [of "?ds @ [?d]"] r v by simp
  have "LineId (word_of_nat ?x) = i \<longleftrightarrow> ?x = ?v"
    using x by (cases i) (simp add: word_unat_eq_iff unsigned_of_nat take_bit_nat_eq_self)
  also have "\<dots> \<longleftrightarrow> ?v div 32 = 0" using radix_10_eq_32_iff [of ?ds ?d] r r0 by simp
  also have "\<dots> \<longleftrightarrow> ?v < 10" using d by (auto simp: div_eq_0_iff)
  also have "\<dots> \<longleftrightarrow> \<not> 10 \<le> line_id_word i" by (simp add: word_le_nat_alt not_le)
  finally show ?thesis using True by (simp add: decode_encode split)
qed (simp add: decode_encode)

section \<open>The generator\<close>

record line_id_gen =
  lg_node_bits :: u16
  lg_last_ts_ms :: u64
  lg_seq :: u16

text \<open>The random source and the hash of a node's name belong to the standard library.\<close>

definition node_id_bits :: "u16 \<Rightarrow> (string \<Rightarrow> u64) \<Rightarrow> string option \<Rightarrow> u16" where
  "node_id_bits random hash node_id =
     (case map_option trim node_id of
        None \<Rightarrow> and random 0x03ff
      | Some s \<Rightarrow>
          if s = [] then and random 0x03ff
          else (case parse_uint 65535 s of
                  Some v \<Rightarrow> and (word_of_nat v) 0x03ff
                | None \<Rightarrow> and (ucast (hash s)) 0x03ff))"

definition line_id_gen_new :: "u16 \<Rightarrow> (string \<Rightarrow> u64) \<Rightarrow> string option \<Rightarrow> line_id_gen" where
  "line_id_gen_new random hash node_id =
     \<lparr>lg_node_bits = node_id_bits random hash node_id, lg_last_ts_ms = 0, lg_seq = 0\<rparr>"

definition sat_sub_word :: "u64 \<Rightarrow> u64 \<Rightarrow> u64" where
  "sat_sub_word a b = (if b \<le> a then a - b else 0)"

definition next_id :: "u64 \<Rightarrow> line_id_gen \<Rightarrow> line_id \<times> line_id_gen" where
  "next_id now g =
     (let ts = max now (lg_last_ts_ms g);
          seq = (if ts = lg_last_ts_ms g then and (lg_seq g + 1) 0x0fff else 0);
          ts' = (if ts = lg_last_ts_ms g \<and> seq = 0
                 then (if ts = - 1 then ts else ts + 1) else ts);
          delta = sat_sub_word ts' line_id_epoch
      in (LineId (or (or (push_bit 22 delta)
                         (push_bit 12 (and (ucast (lg_node_bits g)) 0x03ff)))
                     (and (ucast seq) 0x0fff)),
          g\<lparr>lg_last_ts_ms := ts', lg_seq := seq\<rparr>))"

fun next_ids :: "u64 list \<Rightarrow> line_id_gen \<Rightarrow> line_id list \<times> line_id_gen" where
  "next_ids [] g = ([], g)"
| "next_ids (now # nows) g =
     (let (i, g) = next_id now g; (is, g) = next_ids nows g in (i # is, g))"

text \<open>The three fields of an identifier do not overlap: it is their sum.\<close>

lemma or_disjoint: "c < 2 ^ n \<Longrightarrow> or (a * 2 ^ n) c = a * 2 ^ n + (c :: nat)"
proof -
  assume "c < 2 ^ n"
  then have c: "take_bit n c = c" by (simp add: take_bit_nat_eq_self)
  have "and (push_bit n a) (take_bit n c) = 0" by (rule bit_eqI) (auto simp: bit_simps)
  from disjunctive_add_eq_or [OF this] c show ?thesis by (simp add: push_bit_eq_mult)
qed

lemma and_mask_nat: "and (x :: nat) 0x3ff = x mod 1024" "and (x :: nat) 0xfff = x mod 4096"
proof -
  have "and x (mask 10) = x mod 2 ^ 10" "and x (mask 12) = x mod 2 ^ 12"
    by (simp_all only: take_bit_eq_mask [symmetric] take_bit_eq_mod [symmetric])
  then show "and x 0x3ff = x mod 1024" "and x 0xfff = x mod 4096" by (simp_all add: mask_eq_exp_minus_1)
qed

definition line_id_fields :: "nat \<Rightarrow> nat \<Rightarrow> nat \<Rightarrow> nat" where
  "line_id_fields delta node seq = delta * 4194304 + node mod 1024 * 4096 + seq mod 4096"

lemma unat_fields:
  fixes delta :: u64 and node seq :: u16
  assumes "unat delta < 2 ^ 42"
  shows "unat (or (or (push_bit 22 delta) (push_bit 12 (and (ucast node) 0x03ff)))
      (and (ucast seq) 0x0fff)) = line_id_fields (unat delta) (unat node) (unat seq)"
proof -
  let ?d = "unat delta" and ?n = "unat node mod 1024" and ?s = "unat seq mod 4096"
  have u: "unat (ucast (w :: u16) :: u64) = unat w" for w
    by (simp add: unsigned_ucast_eq take_bit_nat_eq_self unsigned_less order_less_trans [OF unsigned_less])
  have p: "unat (push_bit k w) = unat w * 2 ^ k" if "unat w * 2 ^ k < 2 ^ 64" for k and w :: u64
    by (subst unsigned_push_bit_eq) (use that in \<open>simp add: push_bit_eq_mult take_bit_nat_eq_self\<close>)
  have d: "unat (push_bit 22 delta) = ?d * 2 ^ 22" using assms by (intro p) simp
  have m: "unat (and (ucast node) 0x03ff :: u64) = ?n" by (simp add: unsigned_and_eq u and_mask_nat)
  have "?n < 2 ^ 10" by simp
  then have n: "unat (push_bit 12 (and (ucast node) 0x03ff :: u64)) = ?n * 2 ^ 12"
    using p [of "and (ucast node) 0x03ff" 12] by (simp only: m) simp
  have s: "unat (and (ucast seq) 0x0fff :: u64) = ?s"
    by (simp add: unsigned_and_eq u and_mask_nat)
  have "unat (or (or (push_bit 22 delta) (push_bit 12 (and (ucast node) 0x03ff)))
      (and (ucast seq) 0x0fff)) = or (or (?d * 2 ^ 22) (?n * 2 ^ 12)) ?s"
    by (simp only: unsigned_or_eq d n s)
  also have "or (?d * 2 ^ 22) (?n * 2 ^ 12) = (?d * 2 ^ 10 + ?n) * 2 ^ 12"
    by (subst or_disjoint) simp_all
  also have "or ((?d * 2 ^ 10 + ?n) * 2 ^ 12) ?s = (?d * 2 ^ 10 + ?n) * 2 ^ 12 + ?s"
    by (rule or_disjoint) simp
  finally show ?thesis by (simp add: line_id_fields_def algebra_simps)
qed

definition gen_clock :: "line_id_gen \<Rightarrow> nat" where
  "gen_clock g = unat (lg_last_ts_ms g) * 4096 + unat (lg_seq g)"

definition clock_id :: "nat \<Rightarrow> nat \<Rightarrow> nat" where
  "clock_id node t = line_id_fields (t div 4096 - unat line_id_epoch) node t"

lemma clock_id_mono:
  assumes "unat line_id_epoch * 4096 \<le> t" "t < u"
  shows "clock_id node t < clock_id node u"
proof -
  have e: "unat line_id_epoch \<le> t div 4096" using assms(1) by (simp add: less_eq_div_iff_mult_less_eq)
  have "t div 4096 \<le> u div 4096" using assms(2) by (intro div_le_mono) simp
  then consider "t div 4096 < u div 4096" | "t div 4096 = u div 4096" "t mod 4096 < u mod 4096"
    using assms(2) by (metis div_mult_mod_eq le_neq_implies_less nat_add_left_cancel_less)
  then show ?thesis
  proof cases
    case 1
    then have "t div 4096 - unat line_id_epoch + 1 \<le> u div 4096 - unat line_id_epoch" using e by simp
    then have "(t div 4096 - unat line_id_epoch + 1) * 4194304
        \<le> (u div 4096 - unat line_id_epoch) * 4194304" by (rule mult_right_mono) simp
    moreover have "node mod 1024 * 4096 + t mod 4096 < 4194304"
      using mod_less_divisor [of 1024 node] mod_less_divisor [of 4096 t] by linarith
    ultimately show ?thesis by (simp add: clock_id_def line_id_fields_def)
  qed (simp add: clock_id_def line_id_fields_def)
qed

lemma next_id_spec:
  assumes ok: "unat (lg_seq g) < 4096" "lg_last_ts_ms g = 0 \<or> line_id_epoch \<le> lg_last_ts_ms g"
    and now: "line_id_epoch \<le> now"
    and room: "max (unat now) (unat (lg_last_ts_ms g)) + 1 < unat line_id_epoch + 2 ^ 42"
    and n: "next_id now g = (i, g')"
  shows "unat (line_id_word i) = clock_id (unat (lg_node_bits g)) (gen_clock g')"
    "lg_node_bits g' = lg_node_bits g" "unat (lg_seq g') < 4096"
    "line_id_epoch \<le> lg_last_ts_ms g'" "gen_clock g < gen_clock g'"
    "unat (lg_last_ts_ms g') \<le> max (unat now) (unat (lg_last_ts_ms g)) + 1"
proof -
  let ?last = "lg_last_ts_ms g"
  define ts where "ts = max now ?last"
  define seq where "seq = (if ts = ?last then and (lg_seq g + 1) 0x0fff else 0)"
  define ts' where "ts' = (if ts = ?last \<and> seq = 0 then (if ts = - 1 then ts else ts + 1) else ts)"
  have ts: "unat ts = max (unat now) (unat ?last)" by (simp add: ts_def word_le_nat_alt max_def)
  have ep: "unat line_id_epoch = 1704067200000" by (simp add: line_id_epoch_def)
  have small: "unat ts + 1 < 2 ^ 64" using room ts ep by simp
  then have "ts \<noteq> - 1" by (auto simp: unsigned_minus_1_eq_mask mask_eq_exp_minus_1)
  have suc: "unat (ts + 1) = unat ts + 1"
    using small by (simp add: unat_word_ariths)
  have seq1: "unat (and (lg_seq g + 1) 0x0fff) = (unat (lg_seq g) + 1) mod 4096"
    using ok(1) by (simp add: unsigned_and_eq and_mask_nat unat_word_ariths)
  have g': "g' = g\<lparr>lg_last_ts_ms := ts', lg_seq := seq\<rparr>"
    and i: "i = LineId (or (or (push_bit 22 (sat_sub_word ts' line_id_epoch))
          (push_bit 12 (and (ucast (lg_node_bits g)) 0x03ff))) (and (ucast seq) 0x0fff))"
    using n by (simp_all add: next_id_def Let_def ts_def [symmetric] seq_def [symmetric] ts'_def [symmetric])
  have e: "line_id_epoch \<le> ts" using now by (auto simp: ts_def max_def intro: order_trans)
  have "ts' = ts \<or> ts' = ts + 1" by (simp add: ts'_def)
  then have le: "unat ts \<le> unat ts'" "unat ts' \<le> unat ts + 1" using suc by auto
  show "lg_node_bits g' = lg_node_bits g" by (simp add: g')
  show s: "unat (lg_seq g') < 4096" by (simp add: g' seq_def seq1)
  show e': "line_id_epoch \<le> lg_last_ts_ms g'" using e le by (simp add: g' word_le_nat_alt)
  show "unat (lg_last_ts_ms g') \<le> max (unat now) (unat ?last) + 1" using le ts by (simp add: g')
  have d: "unat (sat_sub_word ts' line_id_epoch) = unat ts' - unat line_id_epoch"
    using e' by (simp add: g' sat_sub_word_def unat_sub)
  moreover have "unat ts' - unat line_id_epoch < 2 ^ 42" using le room by (simp add: ts ep max_def split: if_splits)
  ultimately have "unat (line_id_word i) =
      line_id_fields (unat ts' - unat line_id_epoch) (unat (lg_node_bits g)) (unat seq)"
    by (simp only: i line_id.sel unat_fields)
  then show "unat (line_id_word i) = clock_id (unat (lg_node_bits g)) (gen_clock g')"
    using s by (simp add: g' clock_id_def gen_clock_def line_id_fields_def)
  show "gen_clock g < gen_clock g'"
  proof (cases "ts = ?last")
    case True
    show ?thesis
    proof (cases "seq = 0")
      case True
      then have "unat ts' = unat ts + 1" using \<open>ts = ?last\<close> \<open>ts \<noteq> - 1\<close> suc by (simp add: ts'_def)
      with \<open>ts = ?last\<close> ok(1) show ?thesis by (simp add: g' gen_clock_def)
    next
      case False
      then have "unat seq \<noteq> 0" by (simp add: unat_eq_0)
      then have "unat seq = unat (lg_seq g) + 1"
        using \<open>ts = ?last\<close> seq1 ok(1) by (auto simp: seq_def mod_Suc split: if_splits)
      with \<open>ts = ?last\<close> False show ?thesis by (simp add: g' gen_clock_def ts'_def)
    qed
  next
    case False
    then have "unat ?last < unat ts" using ts by (metis max.cobounded2 le_neq_implies_less word_unat_eq_iff)
    with ok(1) False show ?thesis by (simp add: g' gen_clock_def ts'_def seq_def)
  qed
qed

lemma next_ids_ordered:
  assumes "unat (lg_seq g) < 4096" "lg_last_ts_ms g = 0 \<or> line_id_epoch \<le> lg_last_ts_ms g"
    and "\<And>now. now \<in> set nows \<Longrightarrow> line_id_epoch \<le> now \<and> unat now \<le> m"
    and "unat (lg_last_ts_ms g) \<le> m" "m + length nows < unat line_id_epoch + 2 ^ 42"
    and "next_ids nows g = (is, g')"
  shows "\<exists>ts. map (unat \<circ> line_id_word) is = map (clock_id (unat (lg_node_bits g))) ts
    \<and> sorted_wrt (<) (gen_clock g # ts) \<and> (\<forall>t \<in> set ts. unat line_id_epoch * 4096 \<le> t)"
  using assms
proof (induction nows arbitrary: g "is" m)
  case (Cons now nows)
  obtain i g1 js where step: "next_id now g = (i, g1)" "next_ids nows g1 = (js, g')" "is = i # js"
    using Cons.prems(6) by (auto split: prod.splits)
  have now: "line_id_epoch \<le> now" "unat now \<le> m" using Cons.prems(3) by simp_all
  have room: "max (unat now) (unat (lg_last_ts_ms g)) + 1 < unat line_id_epoch + 2 ^ 42"
    using now(2) Cons.prems(4,5) by simp
  note s = next_id_spec [OF Cons.prems(1,2) now(1) room step(1)]
  have "\<exists>ts. map (unat \<circ> line_id_word) js = map (clock_id (unat (lg_node_bits g1))) ts
      \<and> sorted_wrt (<) (gen_clock g1 # ts) \<and> (\<forall>t \<in> set ts. unat line_id_epoch * 4096 \<le> t)"
  proof (rule Cons.IH [OF s(3) _ _ _ _ step(2), of "m + 1"])
    show "unat (lg_last_ts_ms g1) \<le> m + 1" using s(6) now(2) Cons.prems(4) by simp
  qed (use s(4) Cons.prems(3,5) in \<open>auto intro: le_SucI\<close>)
  then obtain ts where ts: "map (unat \<circ> line_id_word) js = map (clock_id (unat (lg_node_bits g1))) ts"
    "sorted_wrt (<) (gen_clock g1 # ts)" "\<forall>t \<in> set ts. unat line_id_epoch * 4096 \<le> t" by auto
  have "unat line_id_epoch * 4096 \<le> gen_clock g1"
    using s(4) by (simp add: gen_clock_def word_le_nat_alt trans_le_add1)
  with ts s(1,2,5) step(3) show ?case
    by (intro exI [of _ "gen_clock g1 # ts"]) (auto simp: comp_def intro: order_less_trans)
qed auto

lemma sorted_wrt_map_on:
  "sorted_wrt P xs \<Longrightarrow> (\<And>x y. x \<in> set xs \<Longrightarrow> y \<in> set xs \<Longrightarrow> P x y \<Longrightarrow> Q (f x) (f y)) \<Longrightarrow>
   sorted_wrt Q (map f xs)"
  by (induction xs) auto

lemma clock_id_node: "clock_id node t div 4096 mod 1024 = node mod 1024"
proof -
  let ?b = "(t div 4096 - unat line_id_epoch) * 1024 + node mod 1024"
  have "(b * 4096 + t mod 4096) div 4096 = b" for b by simp
  moreover have "clock_id node t = ?b * 4096 + t mod 4096"
    by (simp add: clock_id_def line_id_fields_def algebra_simps)
  ultimately have "clock_id node t div 4096 = ?b" by metis
  then show ?thesis by simp
qed

text \<open>
  C38. As long as the clock reads a time of the 42-bit range, a node's identifiers increase
  strictly, even when the clock stands still or runs backwards, and each holds the node's bits:
  no two identifiers of one node are equal, nor two of nodes whose bits differ.
\<close>
theorem line_ids_increase:
  assumes "next_ids nows (line_id_gen_new random hash node_id) = (is, g)"
    and "list_all (\<lambda>now. line_id_epoch \<le> now \<and>
           unat now + length nows < unat line_id_epoch + 2 ^ 42) nows"
  shows "sorted_wrt (<) (map line_id_word is) \<and>
    list_all (\<lambda>i. unat (line_id_word i) div 4096 mod 1024
      = unat (node_id_bits random hash node_id) mod 1024) is"
proof (cases "nows = []")
  case False
  let ?g = "line_id_gen_new random hash node_id" and ?m = "Max (set (map unat nows))"
  have "?m \<in> set (map unat nows)" using False by (intro Max_in) simp_all
  then have m: "?m + length nows < unat line_id_epoch + 2 ^ 42" using assms(2) by (auto simp: list_all_iff)
  obtain ts where ts: "map (unat \<circ> line_id_word) is = map (clock_id (unat (lg_node_bits ?g))) ts"
    "sorted_wrt (<) ts" "\<forall>t \<in> set ts. unat line_id_epoch * 4096 \<le> t"
    using next_ids_ordered [of ?g nows ?m "is" g] m assms
    by (auto simp: line_id_gen_new_def list_all_iff)
  have "sorted_wrt (<) (map (unat \<circ> line_id_word) is)"
    unfolding ts(1) using ts(2) by (rule sorted_wrt_map_on) (use ts(3) clock_id_mono in auto)
  then have "sorted_wrt (<) (map line_id_word is)"
    by (simp add: sorted_wrt_map word_less_nat_alt)
  moreover have "unat (line_id_word i) div 4096 mod 1024
      = unat (node_id_bits random hash node_id) mod 1024" if "i \<in> set is" for i
  proof -
    have "unat (line_id_word i) \<in> set (map (unat \<circ> line_id_word) is)" using that by auto
    then obtain t where "unat (line_id_word i) = clock_id (unat (lg_node_bits ?g)) t"
      unfolding ts(1) by auto
    then show ?thesis by (simp add: clock_id_node line_id_gen_new_def)
  qed
  ultimately show ?thesis by (simp add: list_all_iff)
qed (use assms(1) in auto)

theorem line_ids_increase_witness:
  "let (is, g) = next_ids [1704067200005, 1704067200005, 1704067200004]
        (line_id_gen_new 7 (\<lambda>s. of_nat (length s)) (Some ''broker''))
   in sorted_wrt (<) (map line_id_word is)"
  using line_ids_increase [of "[1704067200005, 1704067200005, 1704067200004]" 7
      "\<lambda>s. of_nat (length s)" "Some ''broker''"]
  by (cases "next_ids [1704067200005, 1704067200005, 1704067200004]
        (line_id_gen_new 7 (\<lambda>s. of_nat (length s)) (Some ''broker''))")
    (simp add: line_id_epoch_def)

section \<open>The scrollback of a session\<close>

record scroll_line =
  sl_id :: line_id
  sl_ts_unix_ms :: nat
  sl_text :: string

record scrollback =
  sb_cap :: nat
  sb_lines :: "scroll_line list"

definition scrollback_new :: "nat \<Rightarrow> scrollback" where
  "scrollback_new cap = \<lparr>sb_cap = max cap 1, sb_lines = []\<rparr>"

fun pop_front_to :: "nat \<Rightarrow> 'a list \<Rightarrow> 'a list" where
  "pop_front_to cap [] = []"
| "pop_front_to cap (x # xs) = (if cap < length (x # xs) then pop_front_to cap xs else x # xs)"

definition push_line :: "line_id \<Rightarrow> nat \<Rightarrow> string \<Rightarrow> scrollback \<Rightarrow> scrollback" where
  "push_line i ts t sb =
     sb\<lparr>sb_lines := pop_front_to (sb_cap sb)
         (sb_lines sb @ [\<lparr>sl_id = i, sl_ts_unix_ms = ts, sl_text = t\<rparr>])\<rparr>"

definition sb_last_n :: "nat \<Rightarrow> scrollback \<Rightarrow> scroll_line list" where
  "sb_last_n n sb = rev (take (min n (length (sb_lines sb))) (rev (sb_lines sb)))"

text \<open>Collecting what matches until the limit is reached, as the loops over lines do.\<close>

fun collect_upto :: "nat \<Rightarrow> ('a \<Rightarrow> bool) \<Rightarrow> 'a list \<Rightarrow> 'a list \<Rightarrow> 'a list" where
  "collect_upto limit P out [] = out"
| "collect_upto limit P out (x # xs) =
     (if P x then
        (if limit \<le> length (out @ [x]) then out @ [x] else collect_upto limit P (out @ [x]) xs)
      else collect_upto limit P out xs)"

definition sb_search :: "string \<Rightarrow> nat \<Rightarrow> scrollback \<Rightarrow> scroll_line list" where
  "sb_search q limit sb =
     (let q = trim q in
      if q = [] then []
      else collect_upto (max limit 1)
        (\<lambda>l. str_contains (to_ascii_lowercase (sl_text l)) (to_ascii_lowercase q))
        [] (rev (sb_lines sb)))"

fun index_of :: "('a \<Rightarrow> bool) \<Rightarrow> 'a list \<Rightarrow> nat option" where
  "index_of P [] = None"
| "index_of P (x # xs) = (if P x then Some 0 else map_option Suc (index_of P xs))"

definition sb_find_with_context ::
  "line_id \<Rightarrow> nat \<Rightarrow> scrollback \<Rightarrow> (scroll_line \<times> scroll_line list) option" where
  "sb_find_with_context i ctx sb =
     (case index_of (\<lambda>l. sl_id l = i) (sb_lines sb) of
        None \<Rightarrow> None
      | Some idx \<Rightarrow>
          (let start = idx - ctx;
               last = min (idx + ctx) (length (sb_lines sb) - 1);
               context = map ((!) (sb_lines sb)) (filter (\<lambda>k. start \<le> k \<and> k \<le> last) [0..<length (sb_lines sb)])
           in (case find (\<lambda>l. sl_id l = i) context of
                 Some target \<Rightarrow> Some (target, context)
               | None \<Rightarrow>
                   (if idx < length (sb_lines sb) then Some (sb_lines sb ! idx, context) else None))))"

lemma pop_front_to: "pop_front_to cap xs = drop (length xs - cap) xs"
  by (induction xs) (auto simp: Suc_diff_le)

lemma collect_upto:
  "length out < limit \<Longrightarrow> collect_upto limit P out xs = out @ take (limit - length out) (filter P xs)"
proof (induction xs arbitrary: out)
  case (Cons x xs)
  then show ?case
    by (cases "limit = Suc (length out)") (auto simp: take_Cons' Suc_diff_Suc simp flip: Suc_diff_Suc)
qed simp

definition newest :: "nat \<Rightarrow> 'a list \<Rightarrow> 'a list" where
  "newest n xs = drop (length xs - n) xs"

lemma newest_alt: "newest n xs = rev (take n (rev xs))"
  by (simp add: newest_def take_rev)

lemma newest_snoc: "0 < n \<Longrightarrow> newest n (newest n xs @ [x]) = newest n (xs @ [x])"
  by (auto simp: newest_alt take_Cons' min_def)

lemma index_of_Some:
  "index_of P xs = Some k \<longleftrightarrow> k < length xs \<and> P (xs ! k) \<and> (\<forall>j < k. \<not> P (xs ! j))"
proof (induction xs arbitrary: k)
  case (Cons x xs)
  then show ?case by (cases k) (auto simp: All_less_Suc2)
qed simp

lemma index_of_None: "index_of P xs = None \<longleftrightarrow> (\<forall>x \<in> set xs. \<not> P x)"
  by (induction xs) auto

lemma pop_front_newest:
  "0 < n \<Longrightarrow> pop_front_to n (newest n xs @ [x]) = newest n (xs @ [x])"
  using newest_snoc [of n xs x] unfolding newest_def [of n "newest n xs @ [x]"] pop_front_to by simp

lemma newest_newest: "newest n (newest m xs) = newest (min n m) xs"
  by (simp add: newest_alt)

lemma map_nth_slice: "b \<le> length xs \<Longrightarrow> map ((!) xs) [a..<b] = take (b - a) (drop a xs)"
  by (intro nth_equalityI) auto

lemma find_append_None: "find P xs = None \<Longrightarrow> find P (xs @ ys) = find P ys"
  by (induction xs) (auto split: if_splits)

lemma context_window:
  assumes "k < length xs"
  shows "map ((!) xs) (filter (\<lambda>j. k - c \<le> j \<and> j \<le> min (k + c) (length xs - 1)) [0..<length xs])
    = newest c (take k xs) @ xs ! k # take c (drop (Suc k) xs)"
proof -
  let ?l = "length xs" and ?e = "min (Suc (k + c)) (length xs)"
  have "[0..<?l] = [0..<k - c] @ [k - c..<?e] @ [?e..<?l]"
    using assms by (metis (no_types, lifting) diff_le_self le_add_diff_inverse less_imp_le_nat min.cobounded2
        min_le_iff_disj order_trans upt_add_eq_append zero_le le_SucI le_add1 min.boundedI)
  moreover have "filter (\<lambda>j. k - c \<le> j \<and> j \<le> min (k + c) (?l - 1)) [0..<k - c] = []"
    "filter (\<lambda>j. k - c \<le> j \<and> j \<le> min (k + c) (?l - 1)) [k - c..<?e] = [k - c..<?e]"
    "filter (\<lambda>j. k - c \<le> j \<and> j \<le> min (k + c) (?l - 1)) [?e..<?l] = []"
    using assms by (auto simp: filter_empty_conv filter_id_conv)
  ultimately have "map ((!) xs) (filter (\<lambda>j. k - c \<le> j \<and> j \<le> min (k + c) (?l - 1)) [0..<?l])
      = map ((!) xs) [k - c..<?e]" by simp
  also have "\<dots> = take (?e - (k - c)) (drop (k - c) xs)"
    by (intro map_nth_slice) simp
  also have "\<dots> = newest c (take k xs) @ xs ! k # take c (drop (Suc k) xs)"
  proof -
    have "drop (k - c) xs = newest c (take k xs) @ xs ! k # drop (Suc k) xs"
      using assms by (subst (1) id_take_nth_drop [OF assms]) (simp add: newest_def min_absorb2)
    moreover have "?e - (k - c) - length (newest c (take k xs)) = Suc (min c (length xs - Suc k))"
      "length (newest c (take k xs)) \<le> ?e - (k - c)"
      using assms by (auto simp: newest_def min_def)
    ultimately show ?thesis by (simp add: take_all_iff min_def)
  qed
  finally show ?thesis .
qed

lemma newest_Nil [simp]: "newest n [] = []"
  by (simp add: newest_def)

lemma not_image_iff: "i \<notin> f ` S \<longleftrightarrow> (\<forall>x \<in> S. f x \<noteq> i)"
  by auto

text \<open>The first position of a match cuts a list in three.\<close>

lemma index_of_split:
  "(\<exists>k. index_of P xs = Some k \<and> Q (take k xs) (xs ! k) (drop (Suc k) xs)) \<longleftrightarrow>
   (\<exists>b t a. xs = b @ t # a \<and> P t \<and> (\<forall>x \<in> set b. \<not> P x) \<and> Q b t a)" (is "?l \<longleftrightarrow> ?r")
proof
  assume ?l
  then obtain k where k: "k < length xs" "P (xs ! k)" "\<And>j. j < k \<Longrightarrow> \<not> P (xs ! j)"
    and q: "Q (take k xs) (xs ! k) (drop (Suc k) xs)" by (auto simp: index_of_Some)
  have "\<forall>x \<in> set (take k xs). \<not> P x" using k(3) by (auto simp: in_set_conv_nth)
  with k(2) q id_take_nth_drop [OF k(1)] show ?r by blast
next
  assume ?r
  then obtain b t a where *: "xs = b @ t # a" "P t" "\<forall>x \<in> set b. \<not> P x" "Q b t a" by blast
  then have "index_of P xs = Some (length b)" by (auto simp: index_of_Some nth_append)
  with * show ?l by auto
qed

definition scroll_lines :: "(line_id \<times> nat \<times> string) list \<Rightarrow> scroll_line list" where
  "scroll_lines ls = map (\<lambda>(i, ts, t). \<lparr>sl_id = i, sl_ts_unix_ms = ts, sl_text = t\<rparr>) ls"

definition push_lines :: "(line_id \<times> nat \<times> string) list \<Rightarrow> scrollback \<Rightarrow> scrollback" where
  "push_lines ls sb = foldl (\<lambda>sb (i, ts, t). push_line i ts t sb) sb ls"

lemma push_lines:
  "push_lines ls (scrollback_new cap) =
     \<lparr>sb_cap = max cap 1, sb_lines = newest (max cap 1) (scroll_lines ls)\<rparr>"
proof (induction ls rule: rev_induct)
  case Nil
  then show ?case by (simp add: push_lines_def scrollback_new_def scroll_lines_def newest_def)
next
  case (snoc l ls)
  obtain i ts t where l: "l = (i, ts, t)" by (cases l)
  have "push_lines (ls @ [l]) (scrollback_new cap) = push_line i ts t (push_lines ls (scrollback_new cap))"
    by (simp add: push_lines_def l)
  then show ?case
    by (simp add: snoc push_line_def pop_front_newest scroll_lines_def l del: One_nat_def)
qed

text \<open>
  A session's scrollback is the window of its newest lines, one at least, and its two lists
  are those of that window: the last lines in the order they came, and the matches of a search,
  newest first.
\<close>
theorem scrollback_is_window:
  "let sb = push_lines ls (scrollback_new cap); lines = newest (max cap 1) (scroll_lines ls)
   in sb_lines sb = lines \<and> sb_last_n n sb = newest n lines
    \<and> sb_search q limit sb = (if trim q = [] then []
        else take (max limit 1) (filter (\<lambda>l. str_contains (to_ascii_lowercase (sl_text l))
          (to_ascii_lowercase (trim q))) (rev lines)))"
  by (auto simp: push_lines sb_last_n_def sb_search_def collect_upto newest_alt Let_def
      min_def)

text \<open>
  A line is found with its context exactly when the scrollback holds its identifier: the
  context is the line with at most so many lines before and after it, in order.
\<close>
theorem scrollback_context:
  "sb_find_with_context i ctx sb = Some (t, c) \<longleftrightarrow>
     (\<exists>before after. sb_lines sb = before @ t # after \<and> sl_id t = i \<and> i \<notin> sl_id ` set before
        \<and> c = newest ctx before @ t # take ctx after)"
proof -
  let ?xs = "sb_lines sb"
  have at: "sb_find_with_context i ctx sb = Some (?xs ! k, newest ctx (take k ?xs) @ ?xs ! k # take ctx (drop (Suc k) ?xs))"
    if k: "index_of (\<lambda>l. sl_id l = i) ?xs = Some k" for k
  proof -
    let ?c = "newest ctx (take k ?xs) @ ?xs ! k # take ctx (drop (Suc k) ?xs)"
    have kl: "k < length ?xs" "sl_id (?xs ! k) = i" "\<And>j. j < k \<Longrightarrow> sl_id (?xs ! j) \<noteq> i"
      using k by (simp_all add: index_of_Some)
    have "sl_id l \<noteq> i" if "l \<in> set (newest ctx (take k ?xs))" for l
    proof -
      have "l \<in> set (take k ?xs)" using that by (auto simp: newest_def dest: in_set_dropD)
      then show ?thesis using kl by (auto simp: in_set_conv_nth)
    qed
    then have "find (\<lambda>l. sl_id l = i) ?c = Some (?xs ! k)"
      using kl(2) by (subst find_append_None) (auto simp: find_None_iff)
    then show ?thesis
      using k context_window [OF kl(1), of ctx] by (simp add: sb_find_with_context_def Let_def)
  qed
  have "sb_find_with_context i ctx sb = Some (t, c) \<longleftrightarrow>
      (\<exists>k. index_of (\<lambda>l. sl_id l = i) ?xs = Some k \<and> t = ?xs ! k
        \<and> c = newest ctx (take k ?xs) @ t # take ctx (drop (Suc k) ?xs))"
    using at by (cases "index_of (\<lambda>l. sl_id l = i) ?xs") (auto simp: sb_find_with_context_def)
  also have "\<dots> \<longleftrightarrow> (\<exists>before u after. ?xs = before @ u # after \<and> sl_id u = i
      \<and> (\<forall>l \<in> set before. sl_id l \<noteq> i) \<and> t = u \<and> c = newest ctx before @ t # take ctx after)"
    by (rule index_of_split)
  finally show ?thesis by (simp add: not_image_iff)
qed

end
