(* ===== verification/Cleaning.thy ===== *)
theory Cleaning
  imports LineId IpPrefix RaftLog
begin

text \<open>
  What the broker does to text it receives or writes (\<open>crates/slopmud/src/main.rs\<close>): character
  names and email addresses are normalised, addresses and telephone numbers struck out, log values
  quoted, lines cut off the input of a telnet connection and the PROXY line parsed. Strings are
  their UTF-8 bytes; where the code looks only for ASCII characters, bytes say the same.
\<close>

section \<open>Names, pronouns and capabilities\<close>

definition name_char :: "char \<Rightarrow> bool" where
  "name_char c \<longleftrightarrow> is_ascii_alnum c \<or> c = CHR ''_'' \<or> c = CHR ''-''"

fun sanitize_from :: "string \<Rightarrow> string \<Rightarrow> string" where
  "sanitize_from out [] = out"
| "sanitize_from out (c # s) =
     (if 20 \<le> length out then out
      else sanitize_from (if name_char c then out @ [c] else out) s)"

definition sanitize_name :: "string \<Rightarrow> string" where
  "sanitize_name s = sanitize_from [] (trim s)"

lemma sanitize_from_take:
  "length out \<le> 20 \<Longrightarrow> sanitize_from out s = take 20 (out @ filter name_char s)"
proof (induction s arbitrary: out)
  case (Cons c s)
  then show ?case by (cases "length out = 20") (auto simp: take_Cons')
qed simp

lemma sanitize_name_take: "sanitize_name s = take 20 (filter name_char (trim s))"
  by (simp add: sanitize_name_def sanitize_from_take)

lemma name_char_byte: "name_char c \<Longrightarrow> 45 \<le> (of_char c :: nat) \<and> (of_char c :: nat) < 0x80"
  by (auto simp: name_char_def is_ascii_alnum_def is_ascii_upper_def is_ascii_lower_def is_ascii_digit_def)

lemma no_ws_head_byte: "33 \<le> (of_char c :: nat) \<Longrightarrow> (of_char c :: nat) < 0x80 \<Longrightarrow> ws_head (c # s) = None"
  by (auto simp: ws_head_None_iff uni_ws_def)

lemma no_ws_tail_byte: "33 \<le> (of_char c :: nat) \<Longrightarrow> (of_char c :: nat) < 0x80 \<Longrightarrow> ws_tail (s @ [c]) = None"
  by (auto simp: ws_tail_None_iff uni_ws_def suffix_def append_eq_append_conv2 append_eq_Cons_conv Cons_eq_append_conv)

lemma trim_visible:
  assumes "\<And>c. c \<in> set s \<Longrightarrow> 33 \<le> (of_char c :: nat) \<and> (of_char c :: nat) < 0x80"
  shows "trim s = s"
proof (cases "s = []")
  case False
  obtain c t where t: "s = c # t" using False by (cases s) auto
  obtain u d where u: "s = u @ [d]" using False by (cases s rule: rev_cases) auto
  have "ws_head s = None" using assms [of c] by (simp add: t no_ws_head_byte)
  moreover have "ws_tail s = None" using assms [of d] by (simp add: u no_ws_tail_byte)
  ultimately show ?thesis by (rule trim_id)
qed simp

text \<open>
  A sanitised name has at most 20 characters, letters, digits, underscores and hyphens only,
  and sanitising it again changes nothing: every name a character enters with is of that form.
\<close>
theorem sanitized_names:
  "length (sanitize_name s) \<le> 20 \<and> list_all name_char (sanitize_name s)
   \<and> sanitize_name (sanitize_name s) = sanitize_name s"
proof -
  have ok: "name_char c" if "c \<in> set (sanitize_name s)" for c
    using set_take_subset [of 20 "filter name_char (trim s)"] that by (auto simp: sanitize_name_take)
  have "trim (sanitize_name s) = sanitize_name s"
    by (rule trim_visible) (use ok name_char_byte in force)
  moreover have "filter name_char (sanitize_name s) = sanitize_name s" using ok by (simp add: filter_id_conv)
  moreover have "length (sanitize_name s) \<le> 20" by (simp add: sanitize_name_take)
  ultimately show ?thesis
    using ok by (simp add: sanitize_name_take [of "sanitize_name s"] list_all_iff)
qed

definition caps_char :: "char \<Rightarrow> bool" where
  "caps_char c \<longleftrightarrow> is_ascii_lower c \<or> is_ascii_digit c \<or> c \<in> {CHR ''.'', CHR ''_'', CHR ''-''}"

definition is_ascii_control :: "char \<Rightarrow> bool" where
  "is_ascii_control c \<longleftrightarrow> (of_char c :: nat) < 32 \<or> (of_char c :: nat) = 127"

definition is_ascii_whitespace :: "char \<Rightarrow> bool" where
  "is_ascii_whitespace c \<longleftrightarrow> c \<in> {CHR 0x20, CHR 0x09, CHR 0x0A, CHR 0x0C, CHR 0x0D}"

definition is_ascii :: "char \<Rightarrow> bool" where
  "is_ascii c \<longleftrightarrow> (of_char c :: nat) < 128"

fun caps_from :: "string list \<Rightarrow> string list \<Rightarrow> string list" where
  "caps_from out [] = out"
| "caps_from out (raw # caps) =
     (if 32 \<le> length out then out
      else
        (let t = to_ascii_lowercase (trim raw) in
         if t = [] \<or> 64 < length t then caps_from out caps
         else if \<not> list_all is_ascii t \<or> list_ex (\<lambda>c. is_ascii_control c \<or> is_ascii_whitespace c) t
           then caps_from out caps
         else if \<not> list_all caps_char t then caps_from out caps
         else if t \<in> set out then caps_from out caps
         else caps_from (out @ [t]) caps))"

definition normalize_caps_list :: "string list \<Rightarrow> string list" where
  "normalize_caps_list caps = sort (caps_from [] caps)"

definition cap_ok :: "string \<Rightarrow> bool" where
  "cap_ok t \<longleftrightarrow> t \<noteq> [] \<and> length t \<le> 64 \<and> list_all caps_char t"

lemma caps_from_inv:
  "length out \<le> 32 \<Longrightarrow> distinct out \<Longrightarrow> list_all cap_ok out \<Longrightarrow>
   length (caps_from out caps) \<le> 32 \<and> distinct (caps_from out caps) \<and> list_all cap_ok (caps_from out caps)"
  by (induction out caps rule: caps_from.induct) (auto simp: Let_def cap_ok_def)

lemma caps_char_fixed:
  assumes "cap_ok t"
  shows "to_ascii_lowercase (trim t) = t" "list_all is_ascii t"
    "\<not> list_ex (\<lambda>c. is_ascii_control c \<or> is_ascii_whitespace c) t"
proof -
  have c: "45 \<le> (of_char c :: nat) \<and> (of_char c :: nat) < 0x7F \<and> \<not> is_ascii_upper c" if "c \<in> set t" for c
    using assms that
    by (auto simp: cap_ok_def caps_char_def list_all_iff is_ascii_lower_def is_ascii_digit_def is_ascii_upper_def)
  have "trim t = t" by (rule trim_visible) (use c in force)
  then show "to_ascii_lowercase (trim t) = t"
    using c by (simp add: to_ascii_lowercase_def ascii_lower_def map_idI)
  show "list_all is_ascii t" unfolding list_all_iff is_ascii_def using c by force
  show "\<not> list_ex (\<lambda>c. is_ascii_control c \<or> is_ascii_whitespace c) t"
    unfolding list_ex_iff
  proof
    assume "\<exists>x \<in> set t. is_ascii_control x \<or> is_ascii_whitespace x"
    then obtain x where "x \<in> set t" "is_ascii_control x \<or> is_ascii_whitespace x" by blast
    with c [of x] show False by (auto simp: is_ascii_control_def is_ascii_whitespace_def)
  qed
qed

lemma caps_from_fixed:
  "list_all cap_ok caps \<Longrightarrow> distinct (out @ caps) \<Longrightarrow> length (out @ caps) \<le> 32 \<Longrightarrow>
   caps_from out caps = out @ caps"
proof (induction caps arbitrary: out)
  case (Cons t caps)
  then have t: "cap_ok t" "\<not> 32 \<le> length out" "t \<notin> set out" by simp_all
  have "caps_from out (t # caps) = caps_from (out @ [t]) caps"
    using t caps_char_fixed [OF t(1)] by (simp add: Let_def cap_ok_def)
  with Cons.IH [of "out @ [t]"] Cons.prems show ?case by simp
qed simp

text \<open>
  A list of capabilities is normalised to at most 32 different ones in order, each of the
  restricted alphabet, and a normalised list stays as it is.
\<close>
theorem normalized_caps:
  "let cs = normalize_caps_list caps in
   length cs \<le> 32 \<and> distinct cs \<and> sorted cs \<and> list_all cap_ok cs \<and> normalize_caps_list cs = cs"
proof -
  let ?cs = "normalize_caps_list caps"
  have *: "length ?cs \<le> 32" "distinct ?cs" "list_all cap_ok ?cs" "sorted ?cs"
    using caps_from_inv [of "[]" caps] by (auto simp: normalize_caps_list_def list_all_iff)
  then have "normalize_caps_list ?cs = ?cs"
    by (subst normalize_caps_list_def) (simp add: caps_from_fixed sort_key_id_if_sorted sorted_sort_id)
  with * show ?thesis by (simp add: Let_def)
qed

section \<open>Email addresses\<close>

definition local_extra :: string where
  "local_extra = ''.!#$%&'' @ [CHR 0x27] @ ''*+/=?^_`{|}~-''"

definition dotted_badly :: "string \<Rightarrow> bool" where
  "dotted_badly s \<longleftrightarrow> prefix ''.'' s \<or> suffix ''.'' s \<or> str_contains s ''..''"

definition label_ok :: "string \<Rightarrow> bool" where
  "label_ok l \<longleftrightarrow> \<not> (l = [] \<or> 63 < length l) \<and> \<not> (prefix ''-'' l \<or> suffix ''-'' l)
     \<and> list_all (\<lambda>c. is_ascii_alnum c \<or> c = CHR ''-'') l"

definition email_parts_ok :: "string \<Rightarrow> string \<Rightarrow> bool" where
  "email_parts_ok user domain \<longleftrightarrow>
     \<not> (user = [] \<or> domain = []) \<and> \<not> 64 < length user \<and> \<not> dotted_badly user
     \<and> list_all (\<lambda>c. is_ascii_alnum c \<or> c \<in> set local_extra) user
     \<and> \<not> (253 < length domain \<or> \<not> str_contains domain ''.'') \<and> \<not> dotted_badly domain
     \<and> list_all label_ok (split_char (CHR ''.'') domain)"

definition normalize_email :: "string \<Rightarrow> string option" where
  "normalize_email s =
     (let s = trim s in
      if s = [] \<or> 254 < length s then None
      else if \<not> list_all is_ascii s then None
      else if list_ex (\<lambda>c. is_ascii_control c \<or> is_ascii_whitespace c) s then None
      else (case split_char (CHR ''@'') s of
              [user, domain] \<Rightarrow>
                if email_parts_ok user domain
                then Some (to_ascii_lowercase (user @ CHR ''@'' # domain)) else None
            | _ \<Rightarrow> None))"

text \<open>The checks do not look at the case of letters.\<close>

lemma ascii_lower_code: "(of_char (ascii_lower c) :: nat) =
    (if is_ascii_upper c then of_char c + 32 else of_char c)"
  by (rule of_char_ascii_lower)

lemma ascii_lower_classes [simp]:
  "is_ascii_alnum (ascii_lower c) = is_ascii_alnum c" "is_ascii (ascii_lower c) = is_ascii c"
  "is_ascii_control (ascii_lower c) = is_ascii_control c"
  by (auto simp: ascii_lower_code is_ascii_alnum_def is_ascii_upper_def is_ascii_lower_def
      is_ascii_digit_def is_ascii_def is_ascii_control_def)

lemma ascii_lower_fixed:
  "\<not> is_ascii_alnum c \<Longrightarrow> ascii_lower x = c \<longleftrightarrow> x = c"
  by (rule ascii_lower_eq_iff) (auto simp: is_ascii_alnum_def)

lemma lower_whitespace [simp]: "is_ascii_whitespace (ascii_lower c) = is_ascii_whitespace c"
  by (simp add: is_ascii_whitespace_def ascii_lower_fixed is_ascii_alnum_def is_ascii_upper_def
      is_ascii_lower_def is_ascii_digit_def)

lemma split_char_lower:
  "\<not> is_ascii_alnum c \<Longrightarrow>
   split_char c (to_ascii_lowercase s) = map to_ascii_lowercase (split_char c s)"
  by (induction s) (auto simp: to_ascii_lowercase_def ascii_lower_fixed split: list.splits)

lemma prefix_lower:
  "list_all (\<lambda>c. \<not> is_ascii_alnum c) w \<Longrightarrow> prefix w (to_ascii_lowercase s) = prefix w s"
  unfolding to_ascii_lowercase_def
  by (rule prefix_map_iff) (auto simp: list_all_iff ascii_lower_fixed)

lemma suffix_lower:
  "list_all (\<lambda>c. \<not> is_ascii_alnum c) w \<Longrightarrow> suffix w (to_ascii_lowercase s) = suffix w s"
  unfolding to_ascii_lowercase_def
  by (rule suffix_map_iff) (auto simp: list_all_iff ascii_lower_fixed)

lemma lower_Cons: "to_ascii_lowercase (c # s) = ascii_lower c # to_ascii_lowercase s"
  by (simp add: to_ascii_lowercase_def)

lemma contains_lower:
  assumes "list_all (\<lambda>c. \<not> is_ascii_alnum c) w"
  shows "str_contains (to_ascii_lowercase s) w = str_contains s w"
proof -
  have "str_find w (to_ascii_lowercase s) = str_find w s" for s
  proof (induction s)
    case (Cons c s)
    have "prefix w (ascii_lower c # to_ascii_lowercase s) = prefix w (c # s)"
      using prefix_lower [OF assms, of "c # s"] by (simp only: lower_Cons)
    with Cons show ?case by (simp add: lower_Cons)
  qed simp
  then show ?thesis by (simp add: str_contains_def)
qed

lemma punctuation [simp]:
  "\<not> is_ascii_alnum (CHR ''.'')" "\<not> is_ascii_alnum (CHR ''-'')" "\<not> is_ascii_alnum (CHR ''@'')"
  by (simp_all add: is_ascii_alnum_def is_ascii_upper_def is_ascii_lower_def is_ascii_digit_def)

lemma local_extra_punctuation: "c \<in> set local_extra \<Longrightarrow> \<not> is_ascii_alnum c"
  by (auto simp: local_extra_def is_ascii_alnum_def is_ascii_upper_def is_ascii_lower_def is_ascii_digit_def)

lemma local_char_lower:
  "is_ascii_alnum c \<or> ascii_lower c \<in> set local_extra \<longleftrightarrow> is_ascii_alnum c \<or> c \<in> set local_extra"
  using ascii_lower_fixed [of c c] by (cases "is_ascii_alnum c") simp_all

lemma label_ok_lower [simp]: "label_ok (to_ascii_lowercase l) = label_ok l"
  by (simp add: label_ok_def prefix_lower suffix_lower)
    (simp add: to_ascii_lowercase_def list_all_iff ascii_lower_fixed)

lemma email_parts_ok_lower:
  "email_parts_ok (to_ascii_lowercase u) (to_ascii_lowercase d) = email_parts_ok u d"
  by (simp add: email_parts_ok_def dotted_badly_def prefix_lower suffix_lower contains_lower split_char_lower
      list.pred_map comp_def)
    (simp add: to_ascii_lowercase_def list_all_iff local_char_lower)

lemma normalize_email_lower: "normalize_email (to_ascii_lowercase s) = normalize_email s"
proof -
  let ?t = "trim s"
  have "list_all is_ascii (to_ascii_lowercase ?t) = list_all is_ascii ?t"
    "list_ex (\<lambda>c. is_ascii_control c \<or> is_ascii_whitespace c) (to_ascii_lowercase ?t)
      = list_ex (\<lambda>c. is_ascii_control c \<or> is_ascii_whitespace c) ?t"
    by (simp_all add: to_ascii_lowercase_def list_all_iff list_ex_iff)
  then show ?thesis
    by (auto simp: normalize_email_def trim_lower split_char_lower email_parts_ok_lower Let_def
        lower_Cons split: list.splits)
qed

lemma join_split_char: "join_with [c] (split_char c s) = s"
proof (induction s)
  case (Cons x s)
  obtain p ps where "split_char c s = p # ps" using split_char_nonempty by (cases "split_char c s") auto
  with Cons show ?case by (cases ps) auto
qed simp

text \<open>
  Normalising an address does not depend on the case of its letters, and a normalised address
  stays as it is: two spellings are the same account exactly when they normalise alike.
\<close>
theorem normalized_email:
  "normalize_email (to_ascii_lowercase s) = normalize_email s \<and>
   (case normalize_email s of None \<Rightarrow> True | Some e \<Rightarrow> normalize_email e = Some e)"
proof (cases "normalize_email s")
  case (Some e)
  let ?t = "trim s"
  obtain u d where ud: "split_char (CHR ''@'') ?t = [u, d]" "e = to_ascii_lowercase (u @ CHR ''@'' # d)"
    using Some by (auto simp: normalize_email_def Let_def split: if_splits list.splits)
  have "u @ CHR ''@'' # d = ?t" using join_split_char [of "CHR ''@''" ?t] by (simp add: ud(1))
  then have e: "e = to_ascii_lowercase ?t" by (simp add: ud(2))
  have "normalize_email ?t = normalize_email s" by (simp add: normalize_email_def)
  then have "normalize_email e = Some e" using Some by (simp add: e normalize_email_lower)
  with Some show ?thesis by (simp add: normalize_email_lower)
qed (simp add: normalize_email_lower)

section \<open>Striking out addresses and telephone numbers\<close>

definition email_user_char :: "char \<Rightarrow> bool" where
  "email_user_char c \<longleftrightarrow> is_ascii_alnum c \<or> c \<in> {CHR ''.'', CHR ''_'', CHR ''%'', CHR ''+'', CHR ''-''}"

definition email_domain_char :: "char \<Rightarrow> bool" where
  "email_domain_char c \<longleftrightarrow> is_ascii_alnum c \<or> c \<in> {CHR ''.'', CHR ''-''}"

fun scan_left :: "string \<Rightarrow> nat \<Rightarrow> nat" where
  "scan_left b 0 = 0"
| "scan_left b (Suc l) = (if email_user_char (b ! l) then scan_left b l else Suc l)"

fun scan_right :: "string \<Rightarrow> nat \<Rightarrow> nat" where
  "scan_right [] r = r"
| "scan_right (c # s) r = (if email_domain_char c then scan_right s (r + 1) else r)"

definition redact_user_ok :: "string \<Rightarrow> bool" where
  "redact_user_ok u \<longleftrightarrow> u \<noteq> [] \<and> \<not> dotted_badly u"

definition redact_domain_ok :: "string \<Rightarrow> bool" where
  "redact_domain_ok d \<longleftrightarrow> d \<noteq> []
     \<and> \<not> (\<not> str_contains d ''.'' \<or> prefix ''.'' d \<or> suffix ''.'' d)
     \<and> \<not> str_contains d ''..''
     \<and> list_all (\<lambda>l. \<not> (l = [] \<or> prefix ''-'' l \<or> suffix ''-'' l)) (split_char (CHR ''.'') d)
     \<and> \<not> length (last (split_char (CHR ''.'') d)) < 2"

text \<open>The text between two offsets; slicing backwards panics, which is \<open>None\<close>.\<close>

definition slice :: "string \<Rightarrow> nat \<Rightarrow> nat \<Rightarrow> string option" where
  "slice s a b = (if a \<le> b \<and> b \<le> length s then Some (take (b - a) (drop a s)) else None)"

lemma scan_right_ge: "r \<le> scan_right s r"
  by (induction s arbitrary: r) (auto intro: Suc_leD)

function redact_emails_from :: "string \<Rightarrow> nat \<Rightarrow> nat \<Rightarrow> string \<Rightarrow> (nat \<times> string) option" where
  "redact_emails_from b i lst out =
     (if length b \<le> i then Some (lst, out)
      else if b ! i \<noteq> CHR ''@'' then redact_emails_from b (i + 1) lst out
      else
        (let l = scan_left b i; r = scan_right (drop (i + 1) b) (i + 1) in
         if redact_user_ok (take (i - l) (drop l b))
            \<and> redact_domain_ok (take (r - (i + 1)) (drop (i + 1) b))
         then (case slice b lst l of
                 None \<Rightarrow> None
               | Some t \<Rightarrow> redact_emails_from b r r (out @ t @ ''[email]''))
         else redact_emails_from b (i + 1) lst out))"
  by pat_completeness auto
termination
  by (relation "measure (\<lambda>(b, i, lst, out). length b - i)")
    (auto simp: not_le intro: diff_less_mono2 less_le_trans [OF lessI scan_right_ge])

declare redact_emails_from.simps [simp del]

definition redact_emails :: "string \<Rightarrow> string option" where
  "redact_emails s =
     (case redact_emails_from s 0 0 [] of
        None \<Rightarrow> None
      | Some (lst, out) \<Rightarrow>
          if lst = 0 then Some s else map_option ((@) out) (slice s lst (length s)))"

definition phone_sep :: "char \<Rightarrow> bool" where
  "phone_sep c \<longleftrightarrow> c \<in> {CHR '' '', CHR ''-'', CHR ''.'', CHR ''('', CHR '')''}"

function phone_scan :: "string \<Rightarrow> nat \<Rightarrow> nat \<Rightarrow> nat \<Rightarrow> nat \<Rightarrow> nat \<times> nat \<times> nat" where
  "phone_scan b start j digits lde =
     (if length b \<le> j then (j, digits, lde)
      else if is_ascii_digit (b ! j) then phone_scan b start (j + 1) (digits + 1) (j + 1)
      else if phone_sep (b ! j) then phone_scan b start (j + 1) digits lde
      else if b ! j = CHR ''+'' \<and> j = start then phone_scan b start (j + 1) digits lde
      else (j, digits, lde))"
  by pat_completeness auto
termination by (relation "measure (\<lambda>(b, start, j, digits, lde). length b - j)") auto

declare phone_scan.simps [simp del]

lemma phone_scan_ge:
  "phone_scan b start j digits lde = (j', digits', lde') \<Longrightarrow>
   j \<le> j' \<and> digits \<le> digits' \<and> (digits < digits' \<longrightarrow> j < lde' \<and> lde' \<le> length b \<and> lde' \<le> j')
   \<and> (digits' = digits \<longrightarrow> lde' = lde)"
proof (induction b start j digits lde rule: phone_scan.induct)
  case (1 b start j digits lde)
  consider "length b \<le> j" | "\<not> length b \<le> j" "is_ascii_digit (b ! j)"
    | "\<not> length b \<le> j" "\<not> is_ascii_digit (b ! j)" "phone_sep (b ! j)"
    | "\<not> length b \<le> j" "\<not> is_ascii_digit (b ! j)" "\<not> phone_sep (b ! j)"
        "b ! j = CHR ''+'' \<and> j = start"
    | "\<not> length b \<le> j" "\<not> is_ascii_digit (b ! j)" "\<not> phone_sep (b ! j)"
        "\<not> (b ! j = CHR ''+'' \<and> j = start)" by blast
  then show ?case
  proof cases
    case 2
    then have "phone_scan b start (j + 1) (digits + 1) (j + 1) = (j', digits', lde')"
      using "1.prems" by (subst (asm) phone_scan.simps) simp
    from "1.IH"(1) [OF 2 this] 2(1) show ?thesis by (cases "digits' = digits + 1") auto
  next
    case 3
    then have "phone_scan b start (j + 1) digits lde = (j', digits', lde')"
      using "1.prems" by (subst (asm) phone_scan.simps) simp
    from "1.IH"(2) [OF 3 this] show ?thesis by auto
  next
    case 4
    then have plus: "b ! j = CHR ''+''" "j = start" by auto
    have "phone_scan b start j digits lde = phone_scan b start (j + 1) digits lde"
      using plus 4(1-3) by (subst phone_scan.simps) auto
    from trans [OF this [symmetric] "1.prems"]
    have "phone_scan b start (j + 1) digits lde = (j', digits', lde')" .
    from "1.IH"(3) [OF 4 this] show ?thesis by auto
  next
    case 1
    then have "phone_scan b start j digits lde = (j, digits, lde)" by (subst phone_scan.simps) simp
    with "1.prems" show ?thesis by simp
  next
    case 5
    then have "phone_scan b start j digits lde = (j, digits, lde)" by (subst phone_scan.simps) auto
    with "1.prems" show ?thesis by simp
  qed
qed

function redact_phones_from :: "string \<Rightarrow> nat \<Rightarrow> nat \<Rightarrow> string \<Rightarrow> (nat \<times> string) option" where
  "redact_phones_from b i lst out =
     (if length b \<le> i then Some (lst, out)
      else if \<not> is_ascii_digit (b ! i) \<and> b ! i \<noteq> CHR ''+'' then redact_phones_from b (i + 1) lst out
      else
        (let (j, digits, en) = phone_scan b i i 0 i in
         if 10 \<le> digits then
           (case slice b lst i of
              None \<Rightarrow> None
            | Some t \<Rightarrow> redact_phones_from b en en (out @ t @ ''[phone]''))
         else redact_phones_from b (max j (i + 1)) lst out))"
  by pat_completeness auto
termination
proof (relation "measure (\<lambda>(b, i, lst, out). length b - i)")
  fix b i j digits en t and x :: "nat \<times> nat \<times> nat" and y :: "nat \<times> nat" and lst out
  assume "\<not> length b \<le> i" "x = phone_scan b i i 0 i" "(j, y) = x" "(digits, en) = y" "10 \<le> (digits :: nat)"
  then show "((b, en, en, out @ t @ ''[phone]''), b, i, lst, out)
      \<in> measure (\<lambda>(b, i, lst, out). length b - i)"
    using phone_scan_ge [of b i i 0 i j digits en] by auto
qed auto

declare redact_phones_from.simps [simp del]

definition redact_phones :: "string \<Rightarrow> string option" where
  "redact_phones s =
     (case redact_phones_from s 0 0 [] of
        None \<Rightarrow> None
      | Some (lst, out) \<Rightarrow>
          if lst = 0 then Some s else map_option ((@) out) (slice s lst (length s)))"

definition redact_pii :: "string \<Rightarrow> string option" where
  "redact_pii s = (case redact_emails s of None \<Rightarrow> None | Some s \<Rightarrow> redact_phones s)"

text \<open>The same on the rest of the text: a run of digits and separators, one plus sign before it.\<close>

definition phone_run :: "char \<Rightarrow> string \<Rightarrow> string" where
  "phone_run c s = c # takeWhile (\<lambda>x. is_ascii_digit x \<or> phone_sep x) s"

definition digit_count :: "string \<Rightarrow> nat" where
  "digit_count s = length (filter is_ascii_digit s)"

definition to_last_digit :: "string \<Rightarrow> nat" where
  "to_last_digit s = length (dropWhile (\<lambda>c. \<not> is_ascii_digit c) (rev s))"

function phones_struck :: "string \<Rightarrow> string" where
  "phones_struck [] = []"
| "phones_struck (c # s) =
     (if \<not> is_ascii_digit c \<and> c \<noteq> CHR ''+'' then c # phones_struck s
      else if 10 \<le> digit_count (phone_run c s) then
        ''[phone]'' @ phones_struck (drop (max 1 (to_last_digit (phone_run c s))) (c # s))
      else phone_run c s @ phones_struck (drop (length (phone_run c s)) (c # s)))"
  by pat_completeness auto
termination by (relation "measure length") (auto simp: phone_run_def)

declare phones_struck.simps(2) [simp del]

lemma digit_count_simps [simp]:
  "digit_count [] = 0" "digit_count (c # s) = (if is_ascii_digit c then 1 else 0) + digit_count s"
  by (simp_all add: digit_count_def)

lemma to_last_digit_Cons:
  "to_last_digit (c # s) = (if digit_count s = 0 then (if is_ascii_digit c then 1 else 0) else Suc (to_last_digit s))"
proof -
  have "digit_count s = 0 \<longleftrightarrow> (\<forall>x \<in> set s. \<not> is_ascii_digit x)"
    by (auto simp: digit_count_def filter_empty_conv)
  then show ?thesis by (auto simp: to_last_digit_def dropWhile_append)
qed

lemma to_last_digit_bounds: "to_last_digit s \<le> length s" "0 < digit_count s \<Longrightarrow> 0 < to_last_digit s"
proof -
  show "to_last_digit s \<le> length s"
    using length_dropWhile_le [of "\<lambda>c. \<not> is_ascii_digit c" "rev s"] by (simp add: to_last_digit_def)
  show "0 < digit_count s \<Longrightarrow> 0 < to_last_digit s"
    by (cases s) (auto simp: to_last_digit_Cons split: if_splits)
qed

lemma phone_scan_run:
  "start < j \<Longrightarrow> phone_scan b start j digits lde =
     (let p = takeWhile (\<lambda>x. is_ascii_digit x \<or> phone_sep x) (drop j b)
      in (j + length p, digits + digit_count p, if digit_count p = 0 then lde else j + to_last_digit p))"
proof (induction "length b - j" arbitrary: j digits lde)
  case 0
  then show ?case by (subst phone_scan.simps) simp
next
  case (Suc n)
  then have j: "j < length b" and n: "n = length b - Suc j" by simp_all
  have d: "drop j b = b ! j # drop (Suc j) b" using Cons_nth_drop_Suc [OF j] by simp
  note IH = Suc.hyps(1) [OF n]
  show ?case
    using j Suc.prems
    by (subst phone_scan.simps) (simp add: d IH to_last_digit_Cons Let_def)
qed

lemma phone_scan_start:
  assumes "i < length b" "is_ascii_digit (b ! i) \<or> b ! i = CHR ''+''"
  shows "phone_scan b i i 0 i =
    (let p = phone_run (b ! i) (drop (i + 1) b)
     in (i + length p, digit_count p, if digit_count p = 0 then i else i + to_last_digit p))"
proof -
  have "\<not> is_ascii_digit (CHR ''+'')" "\<not> phone_sep (CHR ''+'')"
    by (simp_all add: is_ascii_digit_def phone_sep_def)
  with assms show ?thesis
    by (subst phone_scan.simps)
      (auto simp: phone_scan_run phone_run_def to_last_digit_Cons Let_def)
qed

lemma phones_struck_run:
  assumes "i < length b" "is_ascii_digit (b ! i) \<or> b ! i = CHR ''+''"
    and p: "p = phone_run (b ! i) (drop (i + 1) b)"
  shows "phones_struck (drop i b) =
      (if 10 \<le> digit_count p then ''[phone]'' @ phones_struck (drop (i + to_last_digit p) b)
       else p @ phones_struck (drop (i + length p) b))"
    "take (length p) (drop i b) = p" "0 < length p" "i + length p \<le> length b"
proof -
  have d: "drop i b = b ! i # drop (i + 1) b" using Cons_nth_drop_Suc [OF assms(1)] by simp
  have "prefix p (drop i b)"
    unfolding d p phone_run_def by (simp add: takeWhile_is_prefix)
  then obtain q where q: "drop i b = p @ q" by (auto simp: prefix_def)
  from arg_cong [OF q, of length] assms(1) show "i + length p \<le> length b" by simp
  show "take (length p) (drop i b) = p" by (simp add: q)
  show "0 < length p" by (simp add: p phone_run_def)
  have "0 < to_last_digit p" if "10 \<le> digit_count p" using to_last_digit_bounds(2) [of p] that by simp
  then have m: "max 1 (to_last_digit p) = to_last_digit p" if "10 \<le> digit_count p"
    using that by (simp add: max_def Suc_le_eq)
  have "phones_struck (drop i b) = (if 10 \<le> digit_count p
       then ''[phone]'' @ phones_struck (drop (max 1 (to_last_digit p)) (drop i b))
       else p @ phones_struck (drop (length p) (drop i b)))"
    unfolding d p using assms(2) by (subst phones_struck.simps) auto
  then show "phones_struck (drop i b) =
      (if 10 \<le> digit_count p then ''[phone]'' @ phones_struck (drop (i + to_last_digit p) b)
       else p @ phones_struck (drop (i + length p) b))"
    using m by (simp add: add.commute)
qed

text \<open>What a loop over offsets leaves: the text before its last cut is \<open>out\<close>, the rest is due.\<close>

definition strikes :: "(nat \<times> string) option \<Rightarrow> string \<Rightarrow> nat \<Rightarrow> string \<Rightarrow> string \<Rightarrow> bool" where
  "strikes res b lst out t \<longleftrightarrow>
     (case res of None \<Rightarrow> False
      | Some (lst', out') \<Rightarrow> lst \<le> lst' \<and> lst' \<le> length b \<and> out' @ drop lst' b = out @ t
          \<and> (lst' = lst \<longrightarrow> out' = out))"

lemma take_between:
  "lst \<le> i \<Longrightarrow> i \<le> k \<Longrightarrow>
   take (k - lst) (drop lst b) = take (i - lst) (drop lst b) @ take (k - i) (drop i b)"
proof -
  assume *: "lst \<le> i" "i \<le> k"
  then have "k - lst = (i - lst) + (k - i)" by simp
  with * show ?thesis by (simp only: take_add drop_drop le_add_diff_inverse2)
qed

lemma redact_phones_from_struck:
  assumes "lst \<le> i" "i \<le> length b"
  shows "strikes (redact_phones_from b i lst out) b lst out
    (take (i - lst) (drop lst b) @ phones_struck (drop i b))"
  using assms
proof (induction b i lst out rule: redact_phones_from.induct)
  case (1 b i lst out)
  note le = "1.prems"
  consider "length b \<le> i" | "i < length b" "\<not> is_ascii_digit (b ! i) \<and> b ! i \<noteq> CHR ''+''"
    | "i < length b" "is_ascii_digit (b ! i) \<or> b ! i = CHR ''+''" by force
  then show ?case
  proof cases
    case 1
    with le show ?thesis by (subst redact_phones_from.simps) (simp add: strikes_def)
  next
    case 2
    have d: "drop i b = b ! i # drop (i + 1) b" using Cons_nth_drop_Suc [OF 2(1)] by simp
    have "take (i + 1 - lst) (drop lst b) @ phones_struck (drop (i + 1) b)
        = take (i - lst) (drop lst b) @ phones_struck (drop i b)"
      using take_between [OF le(1), of "i + 1" b] 2(2) by (simp add: d phones_struck.simps)
    moreover have "strikes (redact_phones_from b (i + 1) lst out) b lst out
        (take (i + 1 - lst) (drop lst b) @ phones_struck (drop (i + 1) b))"
      using "1.IH"(1) 2 le by simp
    ultimately show ?thesis using 2 by (subst redact_phones_from.simps) simp
  next
    case 3
    define p where "p = phone_run (b ! i) (drop (i + 1) b)"
    note run = phones_struck_run [OF 3 p_def]
    have scan: "phone_scan b i i 0 i =
        (i + length p, digit_count p, if digit_count p = 0 then i else i + to_last_digit p)"
      using phone_scan_start [OF 3] by (simp add: p_def Let_def)
    have nb: "\<not> length b \<le> i" "\<not> (\<not> is_ascii_digit (b ! i) \<and> b ! i \<noteq> CHR ''+'')" using 3 by auto
    show ?thesis
    proof (cases "10 \<le> digit_count p")
      case True
      let ?e = "i + to_last_digit p" and ?o = "out @ take (i - lst) (drop lst b) @ ''[phone]''"
      have pos: "0 < to_last_digit p" using to_last_digit_bounds(2) [of p] True by simp
      have e: "?e \<le> length b" using to_last_digit_bounds(1) [of p] run(4) by simp
      have sl: "slice b lst i = Some (take (i - lst) (drop lst b))" using le by (simp add: slice_def)
      have sc: "phone_scan b i i 0 i = (i + length p, digit_count p, ?e)" using scan True by simp
      have "strikes (redact_phones_from b ?e ?e ?o) b ?e ?o
          (take (?e - ?e) (drop ?e b) @ phones_struck (drop ?e b))"
        by (rule "1.IH"(2) [OF nb sc [symmetric] refl refl True sl order_refl e])
      moreover have "redact_phones_from b i lst out = redact_phones_from b ?e ?e ?o"
        using nb True by (subst redact_phones_from.simps) (auto simp: sc sl)
      ultimately show ?thesis using le pos True by (auto simp: strikes_def run(1) split: option.splits)
    next
      case False
      have mx: "max (i + length p) (i + 1) = i + length p" using run(3) by (intro max_absorb1) linarith
      have "take (i + length p - lst) (drop lst b) @ phones_struck (drop (i + length p) b)
          = take (i - lst) (drop lst b) @ phones_struck (drop i b)"
        using take_between [OF le(1), of "i + length p" b] False by (simp add: run(1,2))
      moreover have "strikes (redact_phones_from b (max (i + length p) (i + 1)) lst out) b lst out
          (take (max (i + length p) (i + 1) - lst) (drop lst b) @ phones_struck (drop (max (i + length p) (i + 1)) b))"
        by (rule "1.IH"(3) [OF nb scan [symmetric] refl refl False]) (use le run(4) mx in simp_all)
      moreover have "redact_phones_from b i lst out = redact_phones_from b (max (i + length p) (i + 1)) lst out"
        using nb False by (subst redact_phones_from.simps) (auto simp: scan)
      ultimately show ?thesis by (simp only: mx)
    qed
  qed
qed

lemma redact_phones_struck: "redact_phones s = Some (phones_struck s)"
  using redact_phones_from_struck [of 0 0 s "[]"]
  by (auto simp: redact_phones_def strikes_def slice_def split: option.splits)

definition ten_digits :: "string \<Rightarrow> bool" where
  "ten_digits s \<longleftrightarrow> (\<exists>ds. length ds = 10 \<and> list_all is_ascii_digit ds \<and> sublist ds s)"

lemma ten_digits_append:
  assumes "\<not> ten_digits p" "\<not> ten_digits t"
    and "(p \<noteq> [] \<and> \<not> is_ascii_digit (last p)) \<or> t = [] \<or> \<not> is_ascii_digit (hd t)"
  shows "\<not> ten_digits (p @ t)"
proof
  assume "ten_digits (p @ t)"
  then obtain ds where ds: "length ds = 10" "list_all is_ascii_digit ds" "sublist ds (p @ t)"
    by (auto simp: ten_digits_def)
  have "\<not> sublist ds p" "\<not> sublist ds t" using assms(1,2) ds by (auto simp: ten_digits_def)
  then obtain d1 d2 where d: "ds = d1 @ d2" "suffix d1 p" "prefix d2 t"
    using ds(3) by (auto simp: sublist_append)
  have "d1 \<noteq> []" "d2 \<noteq> []"
    using d \<open>\<not> sublist ds p\<close> \<open>\<not> sublist ds t\<close>
    by (auto dest: suffix_imp_sublist prefix_imp_sublist)
  then have "is_ascii_digit (last p)" "p \<noteq> []" "is_ascii_digit (hd t)" "t \<noteq> []"
    using d ds(2) by (auto simp: suffix_def prefix_def list_all_iff)
  with assms(3) show False by blast
qed

lemma ten_digits_count: "digit_count p < 10 \<Longrightarrow> \<not> ten_digits p"
proof
  assume p: "digit_count p < 10" and "ten_digits p"
  then obtain a ds b where "p = a @ ds @ b" "length ds = 10" "list_all is_ascii_digit ds"
    by (auto simp: ten_digits_def sublist_def)
  then have "10 \<le> digit_count p" by (simp add: digit_count_def list_all_iff filter_True)
  with p show False by simp
qed

lemma phones_struck_head:
  assumes "s = [] \<or> \<not> is_ascii_digit (hd s)"
  shows "phones_struck s = [] \<or> \<not> is_ascii_digit (hd (phones_struck s))"
proof (cases s)
  case (Cons c t)
  have "\<not> is_ascii_digit (CHR ''['')" "\<not> is_ascii_digit (CHR ''+'')" by (simp_all add: is_ascii_digit_def)
  with assms show ?thesis by (simp add: Cons phones_struck.simps phone_run_def)
qed simp

lemma after_phone_run:
  "drop (length (phone_run c s)) (c # s) = [] \<or> \<not> is_ascii_digit (hd (drop (length (phone_run c s)) (c # s)))"
proof -
  let ?P = "\<lambda>x. is_ascii_digit x \<or> phone_sep x"
  have "drop (length (takeWhile ?P s)) s = dropWhile ?P s" by (simp add: dropWhile_eq_drop)
  then show ?thesis
    using hd_dropWhile [of ?P s] by (auto simp: phone_run_def)
qed

text \<open>
  Striking out telephone numbers always returns, and gives what replacing, in each run of
  digits and separators with ten digits at least, everything to the last digit gives: no ten
  digits in a row are left.
\<close>
theorem phones_are_struck:
  "redact_phones s = Some (phones_struck s) \<and> \<not> ten_digits (phones_struck s)"
proof -
  have "\<not> ten_digits (phones_struck s)"
  proof (induction s rule: phones_struck.induct)
    case 1
    then show ?case by (simp add: ten_digits_def)
  next
    case (2 c s)
    let ?p = "phone_run c s"
    have sq: "\<not> is_ascii_digit (CHR '']'')" "\<not> ten_digits ''[phone]''"
      by (simp add: is_ascii_digit_def, rule ten_digits_count, simp add: is_ascii_digit_def)
    consider "\<not> is_ascii_digit c \<and> c \<noteq> CHR ''+''"
      | "\<not> (\<not> is_ascii_digit c \<and> c \<noteq> CHR ''+'')" "10 \<le> digit_count ?p"
      | "\<not> (\<not> is_ascii_digit c \<and> c \<noteq> CHR ''+'')" "\<not> 10 \<le> digit_count ?p" by blast
    then show ?case
    proof cases
      case 1
      then have "\<not> ten_digits ([c] @ phones_struck s)"
        by (intro ten_digits_append "2.IH"(1) ten_digits_count) simp_all
      with 1 show ?thesis by (simp add: phones_struck.simps)
    next
      case 2
      then have "\<not> ten_digits (''[phone]'' @ phones_struck (drop (max 1 (to_last_digit ?p)) (c # s)))"
        using sq by (intro ten_digits_append "2.IH"(2)) simp_all
      with 2 show ?thesis by (subst phones_struck.simps) auto
    next
      case 3
      then have "\<not> ten_digits (?p @ phones_struck (drop (length ?p) (c # s)))"
        using phones_struck_head [OF after_phone_run [of c s]]
        by (intro ten_digits_append "2.IH"(3) ten_digits_count) auto
      with 3 show ?thesis by (subst phones_struck.simps) auto
    qed
  qed
  then show ?thesis by (simp add: redact_phones_struck)
qed

text \<open>Addresses: what the loop does between two at-signs, and what it finds at one.\<close>

lemma redact_emails_skip:
  "(\<And>j. i \<le> j \<Longrightarrow> j < k \<Longrightarrow> b ! j \<noteq> CHR ''@'') \<Longrightarrow> i \<le> k \<Longrightarrow> k \<le> length b \<Longrightarrow>
   redact_emails_from b i lst out = redact_emails_from b k lst out"
proof (induction "k - i" arbitrary: i)
  case (Suc n)
  then have "\<not> length b \<le> i" "b ! i \<noteq> CHR ''@''" by auto
  then have "redact_emails_from b i lst out = redact_emails_from b (Suc i) lst out"
    by (subst redact_emails_from.simps) simp
  also have "\<dots> = redact_emails_from b k lst out" using Suc by (intro Suc.hyps(1)) auto
  finally show ?case .
qed simp

lemma scan_left_le: "scan_left b i \<le> i"
  by (induction i) (auto intro: le_SucI)

lemma scan_left_user:
  "(\<And>j. k \<le> j \<Longrightarrow> j < k + n \<Longrightarrow> email_user_char (b ! j)) \<Longrightarrow> scan_left b (k + n) = scan_left b k"
  by (induction n) auto

lemma scan_right_domain:
  "list_all email_domain_char d \<Longrightarrow> scan_right (d @ t) r = scan_right t (r + length d)"
  by (induction d arbitrary: r) auto

lemma scan_right_le: "scan_right s r \<le> r + length s"
proof (induction s arbitrary: r)
  case (Cons c s)
  show ?case using Cons [of "r + 1"] by simp
qed simp

lemma at_sign [simp]: "\<not> email_user_char (CHR ''@'')" "\<not> email_domain_char (CHR ''@'')"
  by (simp_all add: email_user_char_def email_domain_char_def)

lemma domain_char_user: "email_domain_char c \<Longrightarrow> email_user_char c"
  by (auto simp: email_domain_char_def email_user_char_def)

lemma domain_ok_user: "redact_domain_ok d \<Longrightarrow> redact_user_ok d"
  by (auto simp: redact_domain_ok_def redact_user_ok_def dotted_badly_def)

text \<open>
  A text with at most one at-sign is redacted without failing.
\<close>
theorem one_address_is_redacted:
  assumes "length (filter ((=) CHR ''@'') s) \<le> 1"
  shows "redact_pii s \<noteq> None"
proof -
  have none: "redact_emails_from s i lst out = Some (lst, out)"
    if "\<And>j. i \<le> j \<Longrightarrow> j < length s \<Longrightarrow> s ! j \<noteq> CHR ''@''" "i \<le> length s" for i lst out
    using redact_emails_skip [of i "length s" s lst out] that by (simp add: redact_emails_from.simps)
  have "redact_emails s \<noteq> None"
  proof (cases "CHR ''@'' \<in> set s")
    case False
    then have "redact_emails_from s 0 0 [] = Some (0, [])" by (intro none) (auto dest: nth_mem)
    then show ?thesis by (simp add: redact_emails_def)
  next
    case True
    then obtain a t where s: "s = a @ CHR ''@'' # t" "CHR ''@'' \<notin> set a" by (meson split_list_first)
    with assms have t: "CHR ''@'' \<notin> set t" by (auto simp: filter_empty_conv)
    define i where "i = length a"
    have i: "i < length s" "s ! i = CHR ''@''" "drop (i + 1) s = t" by (simp_all add: i_def s(1))
    define r where "r = scan_right t (i + 1)"
    have r: "i + 1 \<le> r" "r \<le> length s"
      using scan_right_ge [of "i + 1" t] scan_right_le [of t "i + 1"] i by (auto simp: r_def)
    have after: "s ! j \<noteq> CHR ''@''" if "i + 1 \<le> j" "j < length s" for j
    proof -
      have "drop (i + 1) s ! (j - (i + 1)) = s ! j" "j - (i + 1) < length (drop (i + 1) s)"
        using that by auto
      then have "s ! j \<in> set t" unfolding i(3) by (metis nth_mem)
      then show ?thesis using t by auto
    qed
    have "slice s 0 (scan_left s i) \<noteq> None" using scan_left_le [of s i] i(1) by (simp add: slice_def)
    then obtain t' where sl: "slice s 0 (scan_left s i) = Some t'" by blast
    have "redact_emails_from s 0 0 [] = redact_emails_from s i 0 []"
      by (rule redact_emails_skip) (use s i(1) in \<open>auto simp: i_def nth_append dest: nth_mem\<close>)
    also have "\<dots> = (if redact_user_ok (take (i - scan_left s i) (drop (scan_left s i) s))
        \<and> redact_domain_ok (take (r - (i + 1)) t)
        then redact_emails_from s r r (t' @ ''[email]'') else redact_emails_from s (i + 1) 0 [])"
      using i by (subst redact_emails_from.simps) (simp add: Let_def sl r_def)
    also have "\<dots> = (if redact_user_ok (take (i - scan_left s i) (drop (scan_left s i) s))
        \<and> redact_domain_ok (take (r - (i + 1)) t) then Some (r, t' @ ''[email]'') else Some (0, []))"
      using r i(1) after by (simp add: none)
    finally show ?thesis using r by (auto simp: redact_emails_def slice_def)
  qed
  then show ?thesis by (auto simp: redact_pii_def redact_phones_struck)
qed

theorem one_address_is_redacted_witness: "redact_pii ''mail bob@example.org or 555'' \<noteq> None"
  using one_address_is_redacted [of "''mail bob@example.org or 555''"] by simp

text \<open>
  Two addresses run together, the domain of the first being the user of the second, make the
  redaction slice backwards and panic.
\<close>
theorem chained_address_panics:
  assumes "redact_user_ok u" "list_all email_user_char u"
    and "redact_domain_ok d" "list_all email_domain_char d"
    and "redact_domain_ok e" "list_all email_domain_char e"
  shows "redact_pii (u @ CHR ''@'' # d @ CHR ''@'' # e) = None"
proof -
  define s where "s = u @ CHR ''@'' # d @ CHR ''@'' # e"
  define i where "i = length u"
  define k where "k = i + 1 + length d"
  have d: "0 < length d" using assms(3) by (auto simp: redact_domain_ok_def)
  have cut: "take i s = u" "drop (i + 1) s = d @ CHR ''@'' # e" "drop (k + 1) s = e"
    by (simp_all add: s_def i_def k_def)
  have user: "email_user_char (s ! j)" if "j < i" for j
    using assms(2) that by (simp add: s_def i_def nth_append list_all_length)
  have user2: "email_user_char (s ! j)" if "i + 1 \<le> j" "j < k" for j
  proof -
    have "i + 1 \<le> length s" by (simp add: s_def i_def)
    from nth_drop [OF this, of "j - (i + 1)"] that(1)
    have "drop (i + 1) s ! (j - (i + 1)) = s ! j" by simp
    moreover have j: "j - (i + 1) < length d" using that by (simp add: k_def)
    ultimately have "s ! j = d ! (j - (i + 1))" by (simp only: cut nth_append if_True)
    with j assms(4) show ?thesis by (simp add: list_all_length domain_char_user)
  qed
  have at: "s ! i = CHR ''@''" "s ! k = CHR ''@''" "i < length s" "k < length s"
    by (simp_all add: s_def i_def k_def nth_append)
  have l1: "scan_left s i = 0" using scan_left_user [of 0 i s] user by simp
  have "scan_left s (i + 1 + length d) = scan_left s (i + 1)"
    by (rule scan_left_user) (use user2 in \<open>simp add: k_def\<close>)
  then have l2: "scan_left s k = i + 1" using at(1) by (simp add: k_def)
  have r1: "scan_right (drop (i + 1) s) (i + 1) = k"
    unfolding cut using scan_right_domain [OF assms(4), of "CHR ''@'' # e" "i + 1"] by (simp add: k_def)
  have r2: "scan_right (drop (k + 1) s) (k + 1) = k + 1 + length e"
    unfolding cut using scan_right_domain [OF assms(6), of "[]" "k + 1"] by simp
  have t1: "take (k - (i + 1)) (drop (i + 1) s) = d" unfolding cut by (simp add: k_def)
  have t2: "take (k + 1 + length e - (k + 1)) (drop (k + 1) s) = e" unfolding cut by simp
  have t3: "take (k - (i + 1)) (drop (i + 1) s) = d" by (rule t1)
  have t0: "take (i - 0) (drop 0 s) = u" by (simp add: cut)
  have s0: "slice s 0 0 = Some []" "slice s k (i + 1) = None" using d by (simp_all add: slice_def k_def)
  have "redact_emails_from s 0 0 [] = redact_emails_from s i 0 []"
    using user at(3) by (intro redact_emails_skip) (auto, metis at_sign(1))
  also have "\<dots> = redact_emails_from s k k ''[email]''"
    using assms(1,3) at by (subst redact_emails_from.simps) (simp only: Let_def l1 r1 t0 t1 s0, simp)
  also have "\<dots> = None"
    using assms(3,5) domain_ok_user [OF assms(3)] at
    by (subst redact_emails_from.simps) (simp only: Let_def l2 r2 t2 t3 s0, simp)
  finally show ?thesis by (simp add: redact_pii_def redact_emails_def s_def)
qed

theorem chained_address_panics_witness: "redact_pii ''a@b.co@c.de'' = None"
  using chained_address_panics [of "''a''" "''b.co''" "''c.de''"]
  by (simp add: redact_user_ok_def redact_domain_ok_def dotted_badly_def str_contains_def suffix_to_prefix
      email_user_char_def email_domain_char_def is_ascii_alnum_def is_ascii_upper_def is_ascii_lower_def
      is_ascii_digit_def)

end
