(* ===== verification/BanList.thy ===== *)
theory BanList
  imports Cleaning
begin

text \<open>
  The broker's own list of bans (\<open>crates/slopmud/src/ban.rs\<close>): characters by name and addresses by
  prefix, kept in memory and in one JSON file. The texts of an address and of the file are the
  libraries'; the hypotheses \<open>ip_text_ok\<close> and \<open>ban_json_ok\<close> say that what they write they read.
\<close>

record char_ban =
  cb_name_lc :: string
  cb_created_unix :: nat
  cb_created_by :: string
  cb_reason :: string

record ip_ban =
  ib_cidr :: string
  ib_created_unix :: nat
  ib_created_by :: string
  ib_reason :: string

record ban_list_file =
  bf_version :: nat
  bf_updated_unix :: nat
  bf_character_bans :: "char_ban list"
  bf_ip_bans :: "ip_ban list"

record ban_state =
  bn_chars :: "string \<rightharpoonup> char_ban"
  bn_ips :: "(ip_prefix \<times> ip_ban) list"
  bn_updated_unix :: nat

definition ban_state_empty :: ban_state where
  "ban_state_empty = \<lparr>bn_chars = Map.empty, bn_ips = [], bn_updated_unix = 0\<rparr>"

datatype file_read = FileMissing | FileUnreadable | FileText string

definition ban_snapshot_file :: "((string \<Rightarrow> bool) \<Rightarrow> string list) \<Rightarrow> ban_state \<Rightarrow> ban_list_file" where
  "ban_snapshot_file iter st =
     \<lparr>bf_version = 1, bf_updated_unix = bn_updated_unix st,
      bf_character_bans = sort_key cb_name_lc (map_values iter (bn_chars st)),
      bf_ip_bans = sort_key ib_cidr (map snd (bn_ips st))\<rparr>"

definition ban_parse_ip_prefix :: "(string \<Rightarrow> ip_addr option) \<Rightarrow> string \<Rightarrow> ip_prefix option" where
  "ban_parse_ip_prefix parse_ip s =
     (if CHR ''/'' \<notin> set s then
        (case parse_ip s of
           None \<Rightarrow> None
         | Some ip \<Rightarrow> ipp_new ip (case ip of V4 _ \<Rightarrow> 32 | V6 _ \<Rightarrow> 128))
      else parse_cidr parse_ip s)"

fun load_char_bans :: "char_ban list \<Rightarrow> (string \<rightharpoonup> char_ban) \<Rightarrow> string \<rightharpoonup> char_ban" where
  "load_char_bans [] m = m"
| "load_char_bans (b # bs) m =
     load_char_bans bs (if trim (cb_name_lc b) = [] then m else m(cb_name_lc b \<mapsto> b))"

fun load_ip_bans ::
  "(string \<Rightarrow> ip_addr option) \<Rightarrow> ip_ban list \<Rightarrow> (ip_prefix \<times> ip_ban) list" where
  "load_ip_bans parse_ip [] = []"
| "load_ip_bans parse_ip (b # bs) =
     (let cidr = trim (ib_cidr b) in
      if cidr = [] then load_ip_bans parse_ip bs
      else (case ban_parse_ip_prefix parse_ip cidr of
              None \<Rightarrow> load_ip_bans parse_ip bs
            | Some pfx \<Rightarrow> (pfx, b) # load_ip_bans parse_ip bs))"

text \<open>The first component says whether reloading succeeded; when it fails, the state stays.\<close>

definition ban_reload ::
  "(string \<Rightarrow> ip_addr option) \<Rightarrow> (string \<Rightarrow> ban_list_file option) \<Rightarrow> file_read \<Rightarrow> ban_state \<Rightarrow>
   bool \<times> ban_state" where
  "ban_reload parse_ip from_json f st =
     (case f of
        FileMissing \<Rightarrow> (True, ban_state_empty)
      | FileUnreadable \<Rightarrow> (False, st)
      | FileText s \<Rightarrow>
          (case from_json s of
             None \<Rightarrow> (False, st)
           | Some file \<Rightarrow>
               (True, \<lparr>bn_chars = load_char_bans (bf_character_bans file) Map.empty,
                       bn_ips = load_ip_bans parse_ip (bf_ip_bans file),
                       bn_updated_unix = bf_updated_unix file\<rparr>)))"

definition ban_load ::
  "(string \<Rightarrow> ip_addr option) \<Rightarrow> (string \<Rightarrow> ban_list_file option) \<Rightarrow> file_read \<Rightarrow> ban_state" where
  "ban_load parse_ip from_json f = snd (ban_reload parse_ip from_json f ban_state_empty)"

definition is_char_banned :: "ban_state \<Rightarrow> string \<Rightarrow> char_ban option" where
  "is_char_banned st name =
     (let k = norm_key name in if k = [] then None else bn_chars st k)"

definition is_ip_banned :: "ban_state \<Rightarrow> ip_addr \<Rightarrow> ip_ban option" where
  "is_ip_banned st ip = map_option snd (find (\<lambda>(pfx, b). ipp_contains_ip pfx ip) (bn_ips st))"

text \<open>Saving writes a temporary file and renames it: the old file stays when any call fails.\<close>

definition ban_save ::
  "((string \<Rightarrow> bool) \<Rightarrow> string list) \<Rightarrow> (ban_list_file \<Rightarrow> string) \<Rightarrow> bool \<Rightarrow> ban_state \<Rightarrow>
   file_read \<Rightarrow> bool \<times> file_read" where
  "ban_save iter to_json io_ok st f =
     (if io_ok then (True, FileText (to_json (ban_snapshot_file iter st))) else (False, f))"

definition upsert_char_ban ::
  "((string \<Rightarrow> bool) \<Rightarrow> string list) \<Rightarrow> (ban_list_file \<Rightarrow> string) \<Rightarrow> bool \<Rightarrow>
   string \<Rightarrow> nat \<Rightarrow> string \<Rightarrow> string \<Rightarrow> ban_state \<times> file_read \<Rightarrow> bool option \<times> ban_state \<times> file_read" where
  "upsert_char_ban iter to_json io_ok name created who reason sf =
     (case sf of (st, f) \<Rightarrow>
      (let name_lc = norm_key name in
       if name_lc = [] then (None, st, f)
       else
         (let rec = \<lparr>cb_name_lc = name_lc, cb_created_unix = created, cb_created_by = who, cb_reason = reason\<rparr>;
              changed = (case bn_chars st name_lc of
                           Some prev \<Rightarrow> cb_created_unix prev \<noteq> created \<or> cb_created_by prev \<noteq> who
                             \<or> cb_reason prev \<noteq> reason
                         | None \<Rightarrow> True);
              st = st\<lparr>bn_chars := (bn_chars st)(name_lc \<mapsto> rec),
                      bn_updated_unix := max created (bn_updated_unix st)\<rparr>;
              (ok, f) = ban_save iter to_json io_ok st f
          in (if ok then Some changed else None, st, f))))"

fun replace_ip_ban ::
  "ip_prefix \<Rightarrow> ip_ban \<Rightarrow> (ip_prefix \<times> ip_ban) list \<Rightarrow> bool \<Rightarrow> (ip_prefix \<times> ip_ban) list \<Rightarrow>
   bool \<times> (ip_prefix \<times> ip_ban) list" where
  "replace_ip_ban pfx rec [] changed out = (changed, out @ [(pfx, rec)])"
| "replace_ip_ban pfx rec ((p, b) # ips) changed out =
     (if p = pfx then
        replace_ip_ban pfx rec ips
          (ib_created_unix b \<noteq> ib_created_unix rec \<or> ib_created_by b \<noteq> ib_created_by rec
            \<or> ib_reason b \<noteq> ib_reason rec) out
      else replace_ip_ban pfx rec ips changed (out @ [(p, b)]))"

definition upsert_ip_ban ::
  "((string \<Rightarrow> bool) \<Rightarrow> string list) \<Rightarrow> (ip_addr \<Rightarrow> string) \<Rightarrow> (string \<Rightarrow> ip_addr option) \<Rightarrow>
   (ban_list_file \<Rightarrow> string) \<Rightarrow> bool \<Rightarrow> string \<Rightarrow> nat \<Rightarrow> string \<Rightarrow> string \<Rightarrow>
   ban_state \<times> file_read \<Rightarrow> (bool \<times> ip_prefix) option \<times> ban_state \<times> file_read" where
  "upsert_ip_ban iter show_ip parse_ip to_json io_ok cidr created who reason sf =
     (case sf of (st, f) \<Rightarrow>
      (let cidr = trim cidr in
       if cidr = [] then (None, st, f)
       else (case ban_parse_ip_prefix parse_ip cidr of
               None \<Rightarrow> (None, st, f)
             | Some pfx \<Rightarrow>
                 (let rec = \<lparr>ib_cidr = to_cidr_string show_ip pfx, ib_created_unix = created,
                             ib_created_by = who, ib_reason = reason\<rparr>;
                      (changed, ips) = replace_ip_ban pfx rec (bn_ips st) True [];
                      st = st\<lparr>bn_ips := ips, bn_updated_unix := max created (bn_updated_unix st)\<rparr>;
                      (ok, f) = ban_save iter to_json io_ok st f
                  in (if ok then Some (changed, pfx) else None, st, f)))))"

datatype ban_op =
    BanCharacter string nat string string
  | BanAddress string nat string string

fun ban_step ::
  "((string \<Rightarrow> bool) \<Rightarrow> string list) \<Rightarrow> (ip_addr \<Rightarrow> string) \<Rightarrow> (string \<Rightarrow> ip_addr option) \<Rightarrow>
   (ban_list_file \<Rightarrow> string) \<Rightarrow> ban_state \<times> file_read \<Rightarrow> ban_op \<Rightarrow> ban_state \<times> file_read" where
  "ban_step iter show_ip parse_ip to_json sf (BanCharacter name created who reason) =
     snd (upsert_char_ban iter to_json True name created who reason sf)"
| "ban_step iter show_ip parse_ip to_json sf (BanAddress cidr created who reason) =
     snd (upsert_ip_ban iter show_ip parse_ip to_json True cidr created who reason sf)"

section \<open>What the operations keep\<close>

definition ip_text_ok :: "(ip_addr \<Rightarrow> string) \<Rightarrow> (string \<Rightarrow> ip_addr option) \<Rightarrow> bool" where
  "ip_text_ok show_ip parse_ip \<longleftrightarrow>
     (\<forall>a. parse_ip (show_ip a) = Some a \<and> show_ip a \<noteq> []
        \<and> list_all (\<lambda>c. 33 \<le> (of_char c :: nat) \<and> (of_char c :: nat) < 0x80 \<and> c \<noteq> CHR ''/'') (show_ip a))"

definition ban_json_ok ::
  "(ban_list_file \<Rightarrow> string) \<Rightarrow> (string \<Rightarrow> ban_list_file option) \<Rightarrow> ban_list_file \<Rightarrow> bool" where
  "ban_json_ok to_json from_json f \<longleftrightarrow> from_json (to_json f) = Some f"

definition ban_inv :: "(ip_addr \<Rightarrow> string) \<Rightarrow> ban_state \<Rightarrow> bool" where
  "ban_inv show_ip st \<longleftrightarrow> finite (dom (bn_chars st))
     \<and> (\<forall>k b. bn_chars st k = Some b \<longrightarrow> cb_name_lc b = k \<and> norm_key k = k \<and> k \<noteq> [])
     \<and> (\<forall>(p, b) \<in> set (bn_ips st). ib_cidr b = to_cidr_string show_ip p \<and> ipp_wf p)"

lemma replace_ip_ban:
  "snd (replace_ip_ban pfx rec ips changed out) = out @ filter (\<lambda>(p, b). p \<noteq> pfx) ips @ [(pfx, rec)]"
  by (induction pfx rec ips changed out rule: replace_ip_ban.induct) auto

text \<open>The state after each operation; when it takes effect, the file is the text of the state.\<close>

lemma ban_step_character:
  "ban_step iter show_ip parse_ip to_json (st, f) (BanCharacter name created who reason) =
     (if norm_key name = [] then (st, f)
      else (let st' = st\<lparr>bn_chars := (bn_chars st)(norm_key name \<mapsto>
              \<lparr>cb_name_lc = norm_key name, cb_created_unix = created, cb_created_by = who, cb_reason = reason\<rparr>),
            bn_updated_unix := max created (bn_updated_unix st)\<rparr>
        in (st', FileText (to_json (ban_snapshot_file iter st')))))"
  by (simp add: upsert_char_ban_def ban_save_def Let_def)

lemma ban_step_address:
  "ban_step iter show_ip parse_ip to_json (st, f) (BanAddress cidr created who reason) =
     (case (if trim cidr = [] then None else ban_parse_ip_prefix parse_ip (trim cidr)) of
        None \<Rightarrow> (st, f)
      | Some pfx \<Rightarrow>
          (let st' = st\<lparr>bn_ips := filter (\<lambda>(p, b). p \<noteq> pfx) (bn_ips st) @ [(pfx,
              \<lparr>ib_cidr = to_cidr_string show_ip pfx, ib_created_unix = created, ib_created_by = who,
               ib_reason = reason\<rparr>)], bn_updated_unix := max created (bn_updated_unix st)\<rparr>
           in (st', FileText (to_json (ban_snapshot_file iter st')))))"
  by (simp add: upsert_ip_ban_def ban_save_def Let_def case_prod_beta replace_ip_ban split: option.splits)

lemma ban_parse_wf: "ban_parse_ip_prefix parse_ip s = Some p \<Longrightarrow> ipp_wf p"
  by (auto simp: ban_parse_ip_prefix_def split: if_splits option.splits intro: ipp_new_wf parse_cidr_wf)

lemma ban_step_inv:
  assumes "ban_inv show_ip (fst sf)"
  shows "ban_inv show_ip (fst (ban_step iter show_ip parse_ip to_json sf opn))"
proof -
  obtain st f where sf: "sf = (st, f)" by (cases sf)
  show ?thesis
  proof (cases opn)
    case (BanCharacter name created who reason)
    with assms show ?thesis
      by (auto simp: sf ban_step_character ban_inv_def Let_def simp del: ban_step.simps)
  next
    case (BanAddress cidr created who reason)
    with assms show ?thesis
      by (auto simp: sf ban_step_address ban_inv_def Let_def simp del: ban_step.simps
          dest: ban_parse_wf split: option.splits if_splits)
  qed
qed

section \<open>What the file brings back\<close>

lemma load_char_bans_map:
  "(\<And>b. b \<in> set bs \<Longrightarrow> trim (cb_name_lc b) \<noteq> []) \<Longrightarrow>
   load_char_bans bs m = foldl (\<lambda>m b. m(cb_name_lc b \<mapsto> b)) m bs"
  by (induction bs arbitrary: m) auto

lemma chars_come_back:
  assumes "iter_ok iter" "ban_inv show_ip st"
  shows "load_char_bans (sort_key cb_name_lc (map_values iter (bn_chars st))) Map.empty = bn_chars st"
proof -
  let ?bs = "sort_key cb_name_lc (map_values iter (bn_chars st))"
  have fin: "finite (dom (bn_chars st))"
    and inv: "\<And>k b. bn_chars st k = Some b \<Longrightarrow> cb_name_lc b = k \<and> norm_key k = k \<and> k \<noteq> []"
    using assms(2) by (auto simp: ban_inv_def)
  have bs: "set ?bs = ran (bn_chars st)" using set_map_values [OF assms(1) fin] by simp
  have found: "bn_chars st (cb_name_lc b) = Some b" if "b \<in> set ?bs" for b
  proof -
    have "b \<in> ran (bn_chars st)" using that unfolding bs .
    then obtain k where k: "bn_chars st k = Some b" by (auto simp: ran_def)
    from inv [OF k] k show ?thesis by simp
  qed
  have "trim (cb_name_lc b) \<noteq> []" if "b \<in> set ?bs" for b
  proof -
    from inv [OF found [OF that]] have "norm_key (cb_name_lc b) \<noteq> []" by simp
    then show ?thesis by (auto simp: norm_key_def)
  qed
  then have "load_char_bans ?bs Map.empty = map_by_key cb_name_lc ?bs"
    by (subst load_char_bans_map) (auto simp: map_by_key_def)
  also have "\<dots> = bn_chars st"
  proof
    fix k
    show "map_by_key cb_name_lc ?bs k = bn_chars st k"
    proof (cases "bn_chars st k")
      case None
      have "map_by_key cb_name_lc ?bs k = None"
      proof (rule ccontr)
        assume "map_by_key cb_name_lc ?bs k \<noteq> None"
        then obtain b where "map_by_key cb_name_lc ?bs k = Some b" by blast
        from map_by_key_SomeD [OF this] have b: "b \<in> set ?bs" "cb_name_lc b = k" by simp_all
        from found [OF b(1)] b(2) None show False by simp
      qed
      with None show ?thesis by simp
    next
      case (Some b)
      then have b: "b \<in> set ?bs" "cb_name_lc b = k" using inv [OF Some] ranI [of "bn_chars st", OF Some] unfolding bs by simp_all
      have "u = b" if "u \<in> set ?bs" "cb_name_lc u = cb_name_lc b" for u
      proof -
        have "bn_chars st (cb_name_lc b) = Some u" using found [OF that(1)] by (simp only: that(2))
        then show ?thesis using Some b(2) by simp
      qed
      then have "map_by_key cb_name_lc ?bs (cb_name_lc b) = Some b" by (rule map_by_key_inj [OF b(1)])
      with Some b(2) show ?thesis by simp
    qed
  qed
  finally show ?thesis .
qed

lemma ipp_new_wf_same: "ipp_wf p \<Longrightarrow> ipp_new (ipp_addr p) (ipp_len p) = Some p"
  by (cases p) (auto simp: ipp_wf_def ipp_new_def ipp_width_def Let_def split: ip_addr.splits)

lemma show_nat_visible: "c \<in> set (show_nat n) \<Longrightarrow> 33 \<le> (of_char c :: nat) \<and> (of_char c :: nat) < 0x80 \<and> c \<noteq> CHR ''/''"
  using show_nat_digits [of n] by (auto simp: is_ascii_digit_def)

lemma cidr_comes_back:
  assumes "ip_text_ok show_ip parse_ip" "ipp_wf p"
  shows "trim (to_cidr_string show_ip p) = to_cidr_string show_ip p"
    "to_cidr_string show_ip p \<noteq> []"
    "ban_parse_ip_prefix parse_ip (to_cidr_string show_ip p) = Some p"
proof -
  let ?a = "show_ip (ipp_addr p)" and ?n = "show_nat (ipp_len p)"
  have a: "parse_ip ?a = Some (ipp_addr p)" "?a \<noteq> []"
    "\<And>c. c \<in> set ?a \<Longrightarrow> 33 \<le> (of_char c :: nat) \<and> (of_char c :: nat) < 0x80 \<and> c \<noteq> CHR ''/''"
    using assms(1) by (auto simp: ip_text_ok_def list_all_iff)
  show t: "trim (to_cidr_string show_ip p) = to_cidr_string show_ip p"
    by (rule trim_visible) (use a(3) show_nat_visible in \<open>auto simp: to_cidr_string_def\<close>)
  show "to_cidr_string show_ip p \<noteq> []" by (simp add: to_cidr_string_def)
  have "split_once (CHR ''/'') (to_cidr_string show_ip p) = Some (?a, ?n)"
    using a(3) split_once_append [of "CHR ''/''" ?a ?n] by (auto simp: to_cidr_string_def)
  moreover have "trim ?a = ?a" "trim ?n = ?n" by (rule trim_visible, use a(3) show_nat_visible in blast)+
  moreover have "ipp_len p \<le> 255" using assms(2) by (auto simp: ipp_wf_def ipp_width_def split: ip_addr.splits)
  ultimately have "parse_cidr parse_ip (to_cidr_string show_ip p) = Some p"
    by (simp add: parse_cidr_def t a(1) parse_uint_show_nat ipp_new_wf_same [OF assms(2)])
  then show "ban_parse_ip_prefix parse_ip (to_cidr_string show_ip p) = Some p"
    by (simp add: ban_parse_ip_prefix_def to_cidr_string_def)
qed

lemma cidr_inj:
  assumes "ip_text_ok show_ip parse_ip" "ipp_wf p" "ipp_wf q"
  shows "to_cidr_string show_ip p = to_cidr_string show_ip q \<longleftrightarrow> p = q"
  using cidr_comes_back(3) [OF assms(1,2)] cidr_comes_back(3) [OF assms(1,3)] by (metis option.inject)

definition cidr_of :: "(ip_addr \<Rightarrow> string) \<Rightarrow> ip_ban \<Rightarrow> ip_prefix \<Rightarrow> bool" where
  "cidr_of show_ip b p \<longleftrightarrow> ib_cidr b = to_cidr_string show_ip p \<and> ipp_wf p"

lemma load_ip_bans_back:
  assumes "\<And>b. b \<in> set bs \<Longrightarrow> \<exists>p. cidr_of show_ip b p" "ip_text_ok show_ip parse_ip"
  shows "(q, c) \<in> set (load_ip_bans parse_ip bs) \<longleftrightarrow> c \<in> set bs \<and> cidr_of show_ip c q"
  using assms(1)
proof (induction bs)
  case (Cons b bs)
  obtain p where p: "ib_cidr b = to_cidr_string show_ip p" "ipp_wf p"
    using Cons.prems [of b] by (auto simp: cidr_of_def)
  have q: "cidr_of show_ip b q \<longleftrightarrow> q = p"
    using p cidr_inj [OF assms(2) p(2), of q] by (auto simp: cidr_of_def)
  have "load_ip_bans parse_ip (b # bs) = (p, b) # load_ip_bans parse_ip bs"
    using cidr_comes_back [OF assms(2) p(2)] by (simp add: p(1))
  moreover have "(q, c) \<in> set (load_ip_bans parse_ip bs) \<longleftrightarrow> c \<in> set bs \<and> cidr_of show_ip c q"
    by (rule Cons.IH) (rule Cons.prems, simp)
  ultimately show ?case using q by (cases "c = b") auto
qed simp

lemma ban_save_reload:
  assumes "iter_ok iter" "ban_inv show_ip st" "ip_text_ok show_ip parse_ip"
    and "ban_json_ok to_json from_json (ban_snapshot_file iter st)"
  shows "is_char_banned (ban_load parse_ip from_json (FileText (to_json (ban_snapshot_file iter st)))) = is_char_banned st"
    "is_ip_banned (ban_load parse_ip from_json (FileText (to_json (ban_snapshot_file iter st)))) ip = None
      \<longleftrightarrow> is_ip_banned st ip = None"
proof -
  let ?bs = "sort_key ib_cidr (map snd (bn_ips st))"
  define st' where "st' = ban_load parse_ip from_json (FileText (to_json (ban_snapshot_file iter st)))"
  have st': "st' = \<lparr>bn_chars = bn_chars st, bn_ips = load_ip_bans parse_ip ?bs, bn_updated_unix = bn_updated_unix st\<rparr>"
    using assms(4) chars_come_back [OF assms(1,2)]
    by (simp add: st'_def ban_load_def ban_reload_def ban_json_ok_def ban_snapshot_file_def)
  show "is_char_banned (ban_load parse_ip from_json (FileText (to_json (ban_snapshot_file iter st)))) = is_char_banned st"
    by (simp add: st'_def [symmetric] is_char_banned_def st' fun_eq_iff Let_def)
  have inv: "cidr_of show_ip b p" if "(p, b) \<in> set (bn_ips st)" for p b
    using assms(2) that by (auto simp: ban_inv_def cidr_of_def)
  have "(p, b) \<in> set (load_ip_bans parse_ip ?bs) \<longleftrightarrow> (p, b) \<in> set (bn_ips st)" for p b
  proof -
    have "(p, b) \<in> set (load_ip_bans parse_ip ?bs) \<longleftrightarrow> b \<in> set ?bs \<and> cidr_of show_ip b p"
      by (rule load_ip_bans_back [OF _ assms(3)]) (use inv in fastforce)
    also have "\<dots> \<longleftrightarrow> (p, b) \<in> set (bn_ips st)"
    proof
      assume *: "b \<in> set ?bs \<and> cidr_of show_ip b p"
      then obtain q where q: "(q, b) \<in> set (bn_ips st)" by auto
      have "p = q" using * inv [OF q] cidr_inj [OF assms(3), of p q] by (simp add: cidr_of_def)
      with q show "(p, b) \<in> set (bn_ips st)" by simp
    next
      assume "(p, b) \<in> set (bn_ips st)"
      with inv [OF this] show "b \<in> set ?bs \<and> cidr_of show_ip b p" by force
    qed
    finally show ?thesis .
  qed
  then have "set (bn_ips st') = set (bn_ips st)" by (auto simp: st')
  then show "is_ip_banned (ban_load parse_ip from_json (FileText (to_json (ban_snapshot_file iter st)))) ip = None
      \<longleftrightarrow> is_ip_banned st ip = None"
    by (simp add: st'_def [symmetric] is_ip_banned_def find_None_iff)
qed

definition ban_rel ::
  "((string \<Rightarrow> bool) \<Rightarrow> string list) \<Rightarrow> (ip_addr \<Rightarrow> string) \<Rightarrow> (ban_list_file \<Rightarrow> string) \<Rightarrow>
   ban_state \<times> file_read \<Rightarrow> bool" where
  "ban_rel iter show_ip to_json sf \<longleftrightarrow> ban_inv show_ip (fst sf)
     \<and> (sf = (ban_state_empty, FileMissing) \<or> snd sf = FileText (to_json (ban_snapshot_file iter (fst sf))))"

lemma ban_step_file:
  "snd (ban_step iter show_ip parse_ip to_json (st, f) opn)
     = FileText (to_json (ban_snapshot_file iter (fst (ban_step iter show_ip parse_ip to_json (st, f) opn))))
   \<or> ban_step iter show_ip parse_ip to_json (st, f) opn = (st, f)"
  by (cases opn) (auto simp: ban_step_character ban_step_address Let_def simp del: ban_step.simps
      split: option.splits)

interpretation ban_list: inv_machine "ban_step iter show_ip parse_ip to_json" "\<lambda>_ _. True"
  "ban_rel iter show_ip to_json"
  for iter show_ip parse_ip to_json
proof
  fix sf opn assume rel: "ban_rel iter show_ip to_json sf"
  have "ban_inv show_ip (fst (ban_step iter show_ip parse_ip to_json sf opn))"
    using rel by (intro ban_step_inv) (simp add: ban_rel_def)
  with rel ban_step_file [of iter show_ip parse_ip to_json "fst sf" "snd sf" opn]
  show "ban_rel iter show_ip to_json (ban_step iter show_ip parse_ip to_json sf opn)"
    by (auto simp: ban_rel_def)
qed

lemma ban_rel_empty: "ban_rel iter show_ip to_json (ban_state_empty, FileMissing)"
  by (simp add: ban_rel_def ban_inv_def ban_state_empty_def)


definition demo_ip_text :: "ip_addr \<Rightarrow> string" where
  "demo_ip_text a = (case a of V4 w \<Rightarrow> ''4.'' @ show_nat (unat w) | V6 w \<Rightarrow> ''6.'' @ show_nat (unat w))"

definition demo_ip_read :: "string \<Rightarrow> ip_addr option" where
  "demo_ip_read s =
     (if prefix ''4.'' s then map_option (\<lambda>n. V4 (word_of_nat n)) (parse_digits_from 0 (drop 2 s))
      else map_option (\<lambda>n. V6 (word_of_nat n)) (parse_digits_from 0 (drop 2 s)))"

lemma demo_ip_text_ok: "ip_text_ok demo_ip_text demo_ip_read"
  unfolding ip_text_ok_def
proof
  fix a
  have "list_all (\<lambda>c. 33 \<le> (of_char c :: nat) \<and> (of_char c :: nat) < 0x80 \<and> c \<noteq> CHR ''/'') (show_nat n)" for n
    using show_nat_visible by (auto simp: list_all_iff)
  then show "demo_ip_read (demo_ip_text a) = Some a \<and> demo_ip_text a \<noteq> []
      \<and> list_all (\<lambda>c. 33 \<le> (of_char c :: nat) \<and> (of_char c :: nat) < 0x80 \<and> c \<noteq> CHR ''/'') (demo_ip_text a)"
    by (cases a) (simp_all add: demo_ip_text_def demo_ip_read_def parse_digits_show_nat)
qed


text \<open>
  Banning a prefix bans exactly its addresses, and what was banned stays so.
\<close>
theorem ban_covers_prefix:
  assumes "upsert_ip_ban iter show_ip parse_ip to_json io_ok cidr created who reason (st, f) = (res, st', f')"
    and "ban_parse_ip_prefix parse_ip (trim cidr) = Some pfx" "trim cidr \<noteq> []"
  shows "is_ip_banned st' ip \<noteq> None \<longleftrightarrow> ipp_contains_ip pfx ip \<or> is_ip_banned st ip \<noteq> None"
proof -
  have "bn_ips st' = filter (\<lambda>(p, b). p \<noteq> pfx) (bn_ips st) @ [(pfx,
      \<lparr>ib_cidr = to_cidr_string show_ip pfx, ib_created_unix = created, ib_created_by = who, ib_reason = reason\<rparr>)]"
    using assms by (auto simp: upsert_ip_ban_def Let_def case_prod_beta replace_ip_ban)
  then show ?thesis by (auto simp: is_ip_banned_def find_None_iff)
qed

theorem ban_covers_prefix_witness:
  "is_ip_banned (fst (snd (upsert_ip_ban (\<lambda>P. []) demo_ip_text demo_ip_read (\<lambda>_. []) True ''4.7'' 5 ''admin'' ''spam''
     (ban_state_empty, FileMissing)))) (V4 7) \<noteq> None"
proof -
  have t: "trim ''4.7'' = ''4.7''" by (rule trim_visible) auto
  have p: "ban_parse_ip_prefix demo_ip_read ''4.7'' = ipp_new (V4 7) 32"
    by (simp add: ban_parse_ip_prefix_def demo_ip_read_def is_ascii_digit_def)
  obtain pfx where pfx: "ipp_new (V4 7) 32 = Some pfx" by (simp add: ipp_new_def Let_def)
  have "ipp_contains_ip pfx (V4 7)" using pfx by (auto simp: ipp_new_def ipp_contains_ip_def mask_v4_def Let_def)
  moreover obtain res st' f' where "upsert_ip_ban (\<lambda>P. []) demo_ip_text demo_ip_read (\<lambda>_. []) True ''4.7'' 5
      ''admin'' ''spam'' (ban_state_empty, FileMissing) = (res, st', f')" by (metis prod_cases3)
  ultimately show ?thesis
    using ban_covers_prefix [of "\<lambda>P. []" demo_ip_text demo_ip_read "\<lambda>_. []" True "''4.7''" 5 "''admin''" "''spam''"
        ban_state_empty FileMissing res st' f' pfx "V4 7"] by (simp add: t p pfx)
qed

end
