(* ===== verification/LogText.thy ===== *)
theory LogText
  imports Cleaning
begin

text \<open>
  Text on its way in and out of the broker (\<open>crates/slopmud/src/main.rs\<close>): lines cut off what a
  telnet client sends, the PROXY line of a load balancer, the lines of an output that are kept in
  the scrollback, values of the log. Parsing an address is the standard library's.
\<close>

section \<open>Lines of a client\<close>

definition try_pop_line :: "string \<Rightarrow> (string \<times> string) option" where
  "try_pop_line buf =
     (let i_nl = index_of ((=) CHR 0x0A) buf;
          i_cr = index_of ((=) CHR 0x0D) buf;
          i = (case (i_nl, i_cr) of
                 (Some a, Some b) \<Rightarrow> Some (min a b)
               | (Some a, None) \<Rightarrow> Some a
               | (None, Some b) \<Rightarrow> Some b
               | (None, None) \<Rightarrow> None)
      in (case i of
            None \<Rightarrow> None
          | Some i \<Rightarrow>
              (let line = take i buf;
                   buf = drop i buf;
                   buf = (case buf of
                            [] \<Rightarrow> []
                          | first # buf \<Rightarrow>
                              if first = CHR 0x0D \<and> buf \<noteq> []
                                 \<and> (hd buf = CHR 0x0A \<or> hd buf = CHR 0x00)
                              then tl buf else buf)
               in Some (rev (dropWhile ((=) CHR 0x0D) (rev line)), buf))))"

definition line_ends :: "string list" where
  "line_ends = [[CHR 0x0A], [CHR 0x0D], [CHR 0x0D, CHR 0x0A], [CHR 0x0D, CHR 0x00]]"

lemma index_of_append:
  "c \<notin> set a \<Longrightarrow> index_of ((=) c) (a @ c # b) = Some (length a)"
  by (induction a) auto

lemma first_break:
  assumes "CHR 0x0A \<notin> set a" "CHR 0x0D \<notin> set a" "c = CHR 0x0A \<or> c = CHR 0x0D"
  shows "(case (index_of ((=) CHR 0x0A) (a @ c # b), index_of ((=) CHR 0x0D) (a @ c # b)) of
      (Some x, Some y) \<Rightarrow> Some (min x y) | (Some x, None) \<Rightarrow> Some x
    | (None, Some y) \<Rightarrow> Some y | (None, None) \<Rightarrow> None) = Some (length a)"
proof -
  have "index_of ((=) d) (a @ c # b) = (if c = d then Some (length a)
      else map_option (\<lambda>k. length a + Suc k) (index_of ((=) d) b))" if "d \<notin> set a" for d
    using that by (induction a) (auto simp: map_option.compositionality comp_def)
  from this [OF assms(1)] this [OF assms(2)] assms(3) show ?thesis
    by (auto split: option.splits)
qed

lemma no_break:
  "CHR 0x0A \<notin> set a \<Longrightarrow> CHR 0x0D \<notin> set a \<Longrightarrow> try_pop_line a = None"
proof -
  assume "CHR 0x0A \<notin> set a" "CHR 0x0D \<notin> set a"
  then have "index_of ((=) CHR 0x0A) a = None" "index_of ((=) CHR 0x0D) a = None"
    by (auto simp: index_of_None)
  then show ?thesis by (simp add: try_pop_line_def)
qed

lemma strip_no_cr: "CHR 0x0D \<notin> set a \<Longrightarrow> rev (dropWhile ((=) CHR 0x0D) (rev a)) = a"
  by (cases a rule: rev_cases) auto

lemma try_pop_line_break:
  assumes "CHR 0x0A \<notin> set a" "CHR 0x0D \<notin> set a" "c = CHR 0x0A \<or> c = CHR 0x0D"
  shows "try_pop_line (a @ c # b) =
    Some (a, if c = CHR 0x0D \<and> b \<noteq> [] \<and> (hd b = CHR 0x0A \<or> hd b = CHR 0x00) then tl b else b)"
  unfolding try_pop_line_def Let_def first_break [OF assms, of b]
  using assms(2) by (simp add: strip_no_cr)

lemma split_at_break:
  "(CHR 0x0A \<notin> set buf \<and> CHR 0x0D \<notin> set buf) \<or>
   (\<exists>a c b. buf = a @ c # b \<and> CHR 0x0A \<notin> set a \<and> CHR 0x0D \<notin> set a \<and> (c = CHR 0x0A \<or> c = CHR 0x0D))"
proof (cases "\<exists>x \<in> set buf. x = CHR 0x0A \<or> x = CHR 0x0D")
  case True
  from split_list_first_prop [OF this] obtain a c b where
    abc: "buf = a @ c # b" "c = CHR 0x0A \<or> c = CHR 0x0D"
      "\<forall>x \<in> set a. \<not> (x = CHR 0x0A \<or> x = CHR 0x0D)" by metis
  then have "CHR 0x0A \<notin> set a" "CHR 0x0D \<notin> set a" by metis+
  with abc(1,2) show ?thesis by metis
next
  case False
  then show ?thesis by metis
qed

lemma line_cut_iff:
  "try_pop_line buf = Some (line, rest) \<longleftrightarrow>
     (\<exists>eol. eol \<in> set line_ends \<and> buf = line @ eol @ rest \<and> CHR 0x0A \<notin> set line \<and> CHR 0x0D \<notin> set line
        \<and> \<not> (eol = [CHR 0x0D] \<and> rest \<noteq> [] \<and> hd rest \<in> {CHR 0x0A, CHR 0x00}))"
proof
  assume *: "try_pop_line buf = Some (line, rest)"
  then obtain a c b where abc: "buf = a @ c # b" "CHR 0x0A \<notin> set a" "CHR 0x0D \<notin> set a"
    "c = CHR 0x0A \<or> c = CHR 0x0D" using split_at_break [of buf] no_break by auto
  with * have "line = a" "rest = (if c = CHR 0x0D \<and> b \<noteq> [] \<and> (hd b = CHR 0x0A \<or> hd b = CHR 0x00) then tl b else b)"
    by (auto simp: try_pop_line_break)
  with abc show "\<exists>eol. eol \<in> set line_ends \<and> buf = line @ eol @ rest \<and> CHR 0x0A \<notin> set line \<and> CHR 0x0D \<notin> set line
        \<and> \<not> (eol = [CHR 0x0D] \<and> rest \<noteq> [] \<and> hd rest \<in> {CHR 0x0A, CHR 0x00})"
    by (cases b) (auto simp: line_ends_def split: if_splits)
next
  assume "\<exists>eol. eol \<in> set line_ends \<and> buf = line @ eol @ rest \<and> CHR 0x0A \<notin> set line \<and> CHR 0x0D \<notin> set line
        \<and> \<not> (eol = [CHR 0x0D] \<and> rest \<noteq> [] \<and> hd rest \<in> {CHR 0x0A, CHR 0x00})"
  then show "try_pop_line buf = Some (line, rest)"
    by (auto simp: line_ends_def try_pop_line_break)
qed

text \<open>
  A line is cut off the buffer exactly when the buffer is that line, an end of line and the
  rest: the ends are LF, CR, CR LF and CR NUL, the longest that fits, and the line holds neither
  CR nor LF.
\<close>
theorem line_is_cut:
  "try_pop_line buf = Some (line, rest) \<longleftrightarrow>
     (\<exists>eol. eol \<in> set line_ends \<and> buf = line @ eol @ rest \<and> CHR 0x0A \<notin> set line \<and> CHR 0x0D \<notin> set line
        \<and> \<not> (eol = [CHR 0x0D] \<and> rest \<noteq> [] \<and> hd rest \<in> {CHR 0x0A, CHR 0x00}))"
  by (rule line_cut_iff)

text \<open>All lines of a buffer, as the loop over what was read takes them.\<close>

lemma try_pop_line_shorter: "try_pop_line buf = Some (line, rest) \<Longrightarrow> length rest < length buf"
  by (auto simp: line_cut_iff line_ends_def)

function pop_lines :: "string \<Rightarrow> string list \<times> string" where
  "pop_lines buf =
     (case try_pop_line buf of
        None \<Rightarrow> ([], buf)
      | Some (line, buf) \<Rightarrow> (let (lines, buf) = pop_lines buf in (line # lines, buf)))"
  by pat_completeness auto
termination by (relation "measure length") (auto dest: try_pop_line_shorter)

declare pop_lines.simps [simp del]

definition parse_proxy_line_v1 ::
  "(string \<Rightarrow> ip_addr option) \<Rightarrow> string \<Rightarrow> (ip_addr \<times> nat) option" where
  "parse_proxy_line_v1 parse_ip line =
     (let parts = split_whitespace line in
      if length parts < 6 then None
      else if parts ! 0 \<noteq> ''PROXY'' then None
      else
        (let proto = parts ! 1 in
         if proto \<noteq> ''TCP4'' \<and> proto \<noteq> ''TCP6'' then None
         else
           (case parse_ip (parts ! 2) of
              None \<Rightarrow> None
            | Some src \<Rightarrow>
                if proto = ''TCP4'' \<and> \<not> (case src of V4 _ \<Rightarrow> True | V6 _ \<Rightarrow> False) then None
                else if proto = ''TCP6'' \<and> \<not> (case src of V4 _ \<Rightarrow> False | V6 _ \<Rightarrow> True) then None
                else map_option (Pair src) (parse_uint 65535 (parts ! 4)))))"

fun trim_ascii_ws :: "string \<Rightarrow> string" where
  "trim_ascii_ws s = rev (dropWhile is_ascii_whitespace (rev (dropWhile is_ascii_whitespace s)))"

definition trim_end_char :: "char \<Rightarrow> string \<Rightarrow> string" where
  "trim_end_char c s = rev (dropWhile ((=) c) (rev s))"

section \<open>Lines of the output\<close>

definition escape_log_text :: "string \<Rightarrow> string" where
  "escape_log_text b = trim_end_char (CHR 0x00) (utf8_lossy b)"

fun output_lines :: "string list \<Rightarrow> string list" where
  "output_lines [] = []"
| "output_lines (raw # raws) =
     (let line = trim (trim_end_char (CHR 0x0D) raw) in
      if line = [] then output_lines raws
      else if line = ''>'' then output_lines raws
      else line # output_lines raws)"

definition extract_output_lines :: "string \<Rightarrow> string list" where
  "extract_output_lines b = output_lines (split_char (CHR 0x0A) (escape_log_text b))"

definition clamp_chars :: "string \<Rightarrow> nat \<Rightarrow> string" where
  "clamp_chars s mx =
     (let s = trim s in
      if mx = 0 \<or> s = [] then []
      else if char_count s \<le> mx then s
      else take_chars mx s @ '' [truncated]'')"

definition scrollback_max_line_chars :: nat where
  "scrollback_max_line_chars = 512"

definition extract_scrollback_lines :: "string \<Rightarrow> string list" where
  "extract_scrollback_lines b =
     map (\<lambda>line. clamp_chars line scrollback_max_line_chars) (extract_output_lines b)"

section \<open>Values of the log\<close>

definition hex_digit :: "nat \<Rightarrow> char" where
  "hex_digit n = ''0123456789abcdef'' ! n"

definition hex_byte :: "nat \<Rightarrow> string" where
  "hex_byte n = [hex_digit (n div 16), hex_digit (n mod 16)]"

definition hex_lower :: "nat list \<Rightarrow> string" where
  "hex_lower b = concat (map hex_byte b)"

text \<open>Control characters are those below 32, 127, and the two-byte ones from 128 to 159.\<close>

fun logfmt_body :: "string \<Rightarrow> string" where
  "logfmt_body [] = []"
| "logfmt_body (c # s) =
     (if c = CHR 0x5C then [CHR 0x5C, CHR 0x5C] @ logfmt_body s
      else if c = CHR 0x22 then [CHR 0x5C, CHR 0x22] @ logfmt_body s
      else if c = CHR 0x0A then [CHR 0x5C] @ ''n'' @ logfmt_body s
      else if c = CHR 0x0D then [CHR 0x5C] @ ''r'' @ logfmt_body s
      else if c = CHR 0x09 then [CHR 0x5C] @ ''t'' @ logfmt_body s
      else if is_ascii_control c then [CHR 0x5C] @ ''u00'' @ hex_byte (of_char c) @ logfmt_body s
      else
        (case s of
           [] \<Rightarrow> [c]
         | d # t \<Rightarrow>
             if c = CHR 0xC2 \<and> 0x80 \<le> (of_char d :: nat) \<and> (of_char d :: nat) \<le> 0x9F
             then [CHR 0x5C] @ ''u00'' @ hex_byte (of_char d) @ logfmt_body t
             else c # logfmt_body s))"

definition logfmt_str :: "string \<Rightarrow> string" where
  "logfmt_str s = CHR 0x22 # logfmt_body s @ [CHR 0x22]"

definition redact_input_for_logs :: "string \<Rightarrow> string" where
  "redact_input_for_logs line =
     (case split_whitespace line of
        cmd # sub # action # _ \<Rightarrow>
          if \<not> eq_ignore_ascii_case cmd ''account'' then line
          else if \<not> eq_ignore_ascii_case sub ''email'' then line
          else if eq_ignore_ascii_case action ''set'' then ''account email set <redacted>''
          else line
      | _ \<Rightarrow> line)"

text \<open>A reader of quoted values: it takes one off the front of a line.\<close>

fun unhex_digit :: "char \<Rightarrow> nat option" where
  "unhex_digit c = index_of ((=) c) ''0123456789abcdef''"

definition control_char :: "nat \<Rightarrow> string" where
  "control_char n = (if n < 0x80 then [char_of n] else [CHR 0xC2, char_of n])"

fun logfmt_unquote :: "string \<Rightarrow> (string \<times> string) option" where
  "logfmt_unquote (c # s) =
     (if c = CHR 0x22 then Some ([], s)
      else if c = CHR 0x5C then
        (case s of
           e # t \<Rightarrow>
             if e = CHR 0x5C then map_option (apfst ((@) [CHR 0x5C])) (logfmt_unquote t)
             else if e = CHR 0x22 then map_option (apfst ((@) [CHR 0x22])) (logfmt_unquote t)
             else if e = CHR ''n'' then map_option (apfst ((@) [CHR 0x0A])) (logfmt_unquote t)
             else if e = CHR ''r'' then map_option (apfst ((@) [CHR 0x0D])) (logfmt_unquote t)
             else if e = CHR ''t'' then map_option (apfst ((@) [CHR 0x09])) (logfmt_unquote t)
             else (case t of
                     z1 # z2 # h # l # u \<Rightarrow>
                       (case (unhex_digit h, unhex_digit l) of
                          (Some a, Some b) \<Rightarrow>
                            map_option (apfst ((@) (control_char (16 * a + b)))) (logfmt_unquote u)
                        | _ \<Rightarrow> None)
                   | _ \<Rightarrow> None)
         | [] \<Rightarrow> None)
      else map_option (apfst ((@) [c])) (logfmt_unquote s))"
| "logfmt_unquote [] = None"

lemma hex_digit_back: "n < 16 \<Longrightarrow> unhex_digit (hex_digit n) = Some n"
proof -
  assume "n < 16"
  moreover have "list_all (\<lambda>n. unhex_digit (hex_digit n) = Some n) [0..<16]"
    by (simp add: upt_conv_Cons hex_digit_def)
  ultimately show ?thesis by (simp add: list_all_iff del: unhex_digit.simps)
qed

lemma hex_digit_visible: "n < 16 \<Longrightarrow> \<not> is_ascii_control (hex_digit n)"
proof -
  assume "n < 16"
  moreover have "list_all (\<lambda>n. \<not> is_ascii_control (hex_digit n)) [0..<16]"
    by (simp add: upt_conv_Cons hex_digit_def is_ascii_control_def)
  ultimately show ?thesis by (simp add: list_all_iff)
qed

lemma unquote_hex:
  "n < 256 \<Longrightarrow> logfmt_unquote (CHR 0x5C # CHR ''u'' # CHR ''0'' # CHR ''0'' # hex_byte n @ u) =
     map_option (apfst ((@) (control_char n))) (logfmt_unquote u)"
  using hex_digit_back [of "n div 16"] hex_digit_back [of "n mod 16"]
  by (simp add: hex_byte_def del: unhex_digit.simps)

declare logfmt_body.simps(2) [simp del]

definition plain_escape :: "char \<Rightarrow> char" where
  "plain_escape c = (if c = CHR 0x0A then CHR ''n'' else if c = CHR 0x0D then CHR ''r''
     else if c = CHR 0x09 then CHR ''t'' else c)"

lemma logfmt_body_cases:
  obtains "logfmt_body (c # s) = CHR 0x5C # plain_escape c # logfmt_body s"
      "c \<in> {CHR 0x5C, CHR 0x22, CHR 0x0A, CHR 0x0D, CHR 0x09}"
    | "logfmt_body (c # s) = CHR 0x5C # CHR ''u'' # CHR ''0'' # CHR ''0'' # hex_byte (of_char c) @ logfmt_body s"
      "control_char (of_char c) = [c]"
    | d t where "s = d # t" "control_char (of_char d) = [c, d]"
      "logfmt_body (c # s) = CHR 0x5C # CHR ''u'' # CHR ''0'' # CHR ''0'' # hex_byte (of_char d) @ logfmt_body t"
    | "logfmt_body (c # s) = c # logfmt_body s" "c \<noteq> CHR 0x5C" "c \<noteq> CHR 0x22" "\<not> is_ascii_control c"
proof (cases "c \<in> {CHR 0x5C, CHR 0x22, CHR 0x0A, CHR 0x0D, CHR 0x09}")
  case True
  moreover from this have "logfmt_body (c # s) = CHR 0x5C # plain_escape c # logfmt_body s"
    by (subst logfmt_body.simps(2)) (elim insertE, simp_all add: plain_escape_def)
  ultimately show ?thesis by (intro that(1))
next
  case nospecial: False
  show ?thesis
  proof (cases "is_ascii_control c")
    case True
    then have "control_char (of_char c) = [c]" by (auto simp: control_char_def is_ascii_control_def)
    moreover have "logfmt_body (c # s)
        = CHR 0x5C # CHR ''u'' # CHR ''0'' # CHR ''0'' # hex_byte (of_char c) @ logfmt_body s"
      using nospecial True by (subst logfmt_body.simps(2)) simp
    ultimately show ?thesis by (intro that(2))
  next
    case plain: False
    show ?thesis
    proof (cases "\<exists>d t. s = d # t \<and> c = CHR 0xC2 \<and> 0x80 \<le> (of_char d :: nat) \<and> (of_char d :: nat) \<le> 0x9F")
      case True
      then obtain d t where "s = d # t" "c = CHR 0xC2" "0x80 \<le> (of_char d :: nat)" "(of_char d :: nat) \<le> 0x9F"
        by blast
      moreover from this have "logfmt_body (c # s)
          = CHR 0x5C # CHR ''u'' # CHR ''0'' # CHR ''0'' # hex_byte (of_char d) @ logfmt_body t"
        using nospecial plain by (subst logfmt_body.simps(2)) simp
      ultimately show ?thesis by (intro that(3) [of d t]) (simp_all add: control_char_def)
    next
      case False
      then have "logfmt_body (c # s) = c # logfmt_body s"
        using nospecial plain by (subst logfmt_body.simps(2)) (cases s, simp_all)
      with nospecial plain show ?thesis by (intro that(4)) simp_all
    qed
  qed
qed

lemma of_char_less: "(of_char c :: nat) < 256"
  using nat_of_char_less_256 by simp

lemma unquote_body:
  "logfmt_unquote (logfmt_body s @ CHR 0x22 # rest) = Some (s, rest)"
proof (induction "length s" arbitrary: s rule: less_induct)
  case less
  show ?case
  proof (cases s)
    case (Cons c t)
    have IH: "logfmt_unquote (logfmt_body u @ CHR 0x22 # rest) = Some (u, rest)" if "length u \<le> length t" for u
      using less [of u] that by (simp add: Cons)
    show ?thesis
      unfolding Cons
    proof (cases rule: logfmt_body_cases [of c t])
      case 1
      with IH [of t] show "logfmt_unquote (logfmt_body (c # t) @ CHR 0x22 # rest) = Some (c # t, rest)"
        by (elim insertE) (simp_all add: plain_escape_def)
    next
      case 2
      with IH [of t] show "logfmt_unquote (logfmt_body (c # t) @ CHR 0x22 # rest) = Some (c # t, rest)"
        by (simp add: unquote_hex of_char_less del: logfmt_unquote.simps)
    next
      case (3 d u)
      with IH [of u] show "logfmt_unquote (logfmt_body (c # t) @ CHR 0x22 # rest) = Some (c # t, rest)"
        by (simp add: unquote_hex of_char_less del: logfmt_unquote.simps)
    next
      case 4
      with IH [of t] show "logfmt_unquote (logfmt_body (c # t) @ CHR 0x22 # rest) = Some (c # t, rest)" by simp
    qed
  qed simp
qed

lemma hex_byte_visible: "c \<in> set (hex_byte (of_char d)) \<Longrightarrow> \<not> is_ascii_control c"
proof -
  have "(of_char d :: nat) div 16 < 16" using of_char_less [of d] by (intro less_mult_imp_div_less) simp
  then show "c \<in> set (hex_byte (of_char d)) \<Longrightarrow> \<not> is_ascii_control c"
    using hex_digit_visible [of "of_char d div 16"] hex_digit_visible [of "of_char d mod 16"]
    by (auto simp: hex_byte_def)
qed

lemma logfmt_body_visible: "\<forall>c \<in> set (logfmt_body s). \<not> is_ascii_control c"
proof (induction "length s" arbitrary: s rule: less_induct)
  case less
  show ?case
  proof (cases s)
    case (Cons c t)
    have IH: "\<forall>c \<in> set (logfmt_body u). \<not> is_ascii_control c" if "length u \<le> length t" for u
      using less [of u] that by (simp add: Cons)
    have plain: "\<not> is_ascii_control (CHR 0x5C)" "\<not> is_ascii_control (CHR ''u'')"
      "\<not> is_ascii_control (CHR ''0'')"
      by (simp_all add: is_ascii_control_def)
    show ?thesis
      unfolding Cons
    proof (cases rule: logfmt_body_cases [of c t])
      case 1
      then have "\<not> is_ascii_control (plain_escape c)" by (auto simp: plain_escape_def is_ascii_control_def)
      with 1 IH [of t] plain show "\<forall>x \<in> set (logfmt_body (c # t)). \<not> is_ascii_control x" by simp
    next
      case 2
      with IH [of t] plain hex_byte_visible show "\<forall>x \<in> set (logfmt_body (c # t)). \<not> is_ascii_control x"
        by (auto simp: ball_Un)
    next
      case (3 d u)
      with IH [of u] plain hex_byte_visible show "\<forall>x \<in> set (logfmt_body (c # t)). \<not> is_ascii_control x"
        by (auto simp: ball_Un)
    next
      case 4
      with IH [of t] show "\<forall>x \<in> set (logfmt_body (c # t)). \<not> is_ascii_control x" by simp
    qed
  qed simp
qed

text \<open>
  A value written to the log is one line without control characters, and what follows it
  cannot be mistaken for it: a reader gets back exactly the value and exactly the rest. No player
  can forge a field or a line of the log.
\<close>
theorem log_values_are_unambiguous:
  "logfmt_str s = CHR 0x22 # logfmt_body s @ [CHR 0x22]
   \<and> logfmt_unquote (tl (logfmt_str s @ rest)) = Some (s, rest)
   \<and> list_all (\<lambda>c. \<not> is_ascii_control c) (logfmt_str s)"
  using unquote_body [of s rest] logfmt_body_visible [of s]
  by (auto simp: logfmt_str_def list_all_iff is_ascii_control_def)

end
