(* ===== verification/Nearline.thy ===== *)
theory Nearline
  imports LineId RaftLog
begin

text \<open>
  The ring of scrollback files (\<open>crates/slopmud/src/nearline.rs\<close>). A directory holds \<open>meta.json\<close>
  and the numbered segments; its task appends one line of JSON per record and starts the next
  segment when one is full, and the readers walk the segments from the newest or from the oldest.
  serde's text of a record is a parameter, a partial function each way; which system calls fail
  is an input of every step.
\<close>

record nearline_config =
  nc_enabled :: bool
  nc_max_segments :: nat
  nc_segment_max_bytes :: nat

definition nearline_config_default :: nearline_config where
  "nearline_config_default =
     \<lparr>nc_enabled = True, nc_max_segments = 12, nc_segment_max_bytes = 2000000\<rparr>"

record nearline_record =
  nr_v :: nat
  nr_id :: string
  nr_ts_unix_ms :: nat
  nr_kind :: string
  nr_session :: string
  nr_name :: string
  nr_ip :: string
  nr_text :: string

record nearline_dir =
  nd_meta :: "nat option"
  nd_segs :: "nat \<rightharpoonup> string"

record nearline_writer =
  nw_meta :: nat
  nw_cur :: nat
  nw_file :: nat
  nw_bytes :: nat

record nearline_io =
  io_open :: bool
  io_meta :: bool
  io_written :: "nat option"

definition newest_to_oldest :: "nat \<Rightarrow> nat \<Rightarrow> nat list" where
  "newest_to_oldest cur mx = map (\<lambda>i. (cur + mx - i mod mx) mod mx) [0..<mx]"

definition oldest_to_newest :: "nat \<Rightarrow> nat \<Rightarrow> nat list" where
  "oldest_to_newest cur mx = map (\<lambda>i. (cur + 1 + i) mod mx) [0..<mx]"

definition read_cur_seg :: "nearline_dir \<Rightarrow> nat" where
  "read_cur_seg d = (case nd_meta d of None \<Rightarrow> 0 | Some c \<Rightarrow> c)"

definition write_meta_file :: "bool \<Rightarrow> nat \<Rightarrow> nearline_dir \<Rightarrow> nearline_dir" where
  "write_meta_file ok c d = (if ok then d\<lparr>nd_meta := Some c\<rparr> else d)"

definition nc_segments :: "nearline_config \<Rightarrow> nat" where
  "nc_segments cfg = max (nc_max_segments cfg) 1"

definition nc_seg_max :: "nearline_config \<Rightarrow> nat" where
  "nc_seg_max cfg = max (nc_segment_max_bytes cfg) 256"

section \<open>The writer\<close>

definition writer_start ::
  "nearline_config \<Rightarrow> nearline_io \<Rightarrow> nearline_dir \<Rightarrow> nearline_writer option \<times> nearline_dir" where
  "writer_start cfg io d =
     (let meta = read_cur_seg d;
          meta = (if nc_segments cfg \<le> meta then 0 else meta);
          d = write_meta_file (io_meta io) meta d
      in if io_open io then
           (let content = (case nd_segs d meta of None \<Rightarrow> [] | Some s \<Rightarrow> s);
                d = d\<lparr>nd_segs := (nd_segs d)(meta \<mapsto> content)\<rparr>
            in (Some \<lparr>nw_meta = meta, nw_cur = meta, nw_file = meta, nw_bytes = length content\<rparr>, d))
         else (None, d))"

text \<open>Starting the next segment: the number moves on even when the file cannot be opened.\<close>

definition writer_rotate ::
  "nearline_config \<Rightarrow> nearline_io \<Rightarrow> nearline_writer \<Rightarrow> nearline_dir \<Rightarrow>
   bool \<times> nearline_writer \<times> nearline_dir" where
  "writer_rotate cfg io w d =
     (let cur = (nw_cur w + 1) mod nc_segments cfg;
          w = w\<lparr>nw_cur := cur\<rparr>
      in if io_open io then
           (True, w\<lparr>nw_file := cur, nw_bytes := 0, nw_meta := cur\<rparr>,
            write_meta_file (io_meta io) cur (d\<lparr>nd_segs := (nd_segs d)(cur \<mapsto> [])\<rparr>))
         else (False, w, d))"

definition writer_append ::
  "(nearline_record \<Rightarrow> string option) \<Rightarrow> nearline_config \<Rightarrow> nearline_io \<Rightarrow> nearline_record \<Rightarrow>
   nearline_writer \<times> nearline_dir \<Rightarrow> nearline_writer \<times> nearline_dir" where
  "writer_append to_json cfg io r wd =
     (case wd of (w, d) \<Rightarrow>
      (case to_json r of
         None \<Rightarrow> (w, d)
       | Some s \<Rightarrow>
           (let line = s @ [CHR 0x0A];
                (go, w, d) =
                  (if nc_seg_max cfg < sat_add64 (nw_bytes w) (length line) \<and> 0 < nw_bytes w
                   then writer_rotate cfg io w d else (True, w, d));
                old = (case nd_segs d (nw_file w) of None \<Rightarrow> [] | Some t \<Rightarrow> t)
            in if \<not> go then (w, d)
               else (case io_written io of
                       Some k \<Rightarrow> (w, d\<lparr>nd_segs := (nd_segs d)(nw_file w \<mapsto> old @ take k line)\<rparr>)
                     | None \<Rightarrow>
                         (w\<lparr>nw_bytes := sat_add64 (nw_bytes w) (length line)\<rparr>,
                          d\<lparr>nd_segs := (nd_segs d)(nw_file w \<mapsto> old @ line)\<rparr>)))))"

section \<open>The readers\<close>

text \<open>A loop over lines that returns at the limit (\<open>Inl\<close>) or goes on with what it has.\<close>

fun scan_lines ::
  "(string \<Rightarrow> nearline_record option) \<Rightarrow> (nearline_record \<Rightarrow> bool) \<Rightarrow> nat \<Rightarrow> string list \<Rightarrow>
   nearline_record list \<Rightarrow> nearline_record list + nearline_record list" where
  "scan_lines from_json P limit [] out = Inr out"
| "scan_lines from_json P limit (line # ls) out =
     (case from_json line of
        None \<Rightarrow> scan_lines from_json P limit ls out
      | Some r \<Rightarrow>
          if \<not> P r then scan_lines from_json P limit ls out
          else if limit \<le> length (out @ [r]) then Inl (out @ [r])
          else scan_lines from_json P limit ls (out @ [r]))"

definition segment_lines :: "nearline_dir \<Rightarrow> nat \<Rightarrow> string list" where
  "segment_lines d seg =
     (case nd_segs d seg of None \<Rightarrow> [] | Some bytes \<Rightarrow> str_lines (utf8_lossy bytes))"

fun scan_segments ::
  "(string \<Rightarrow> nearline_record option) \<Rightarrow> (nearline_record \<Rightarrow> bool) \<Rightarrow> nat \<Rightarrow> nearline_dir \<Rightarrow>
   nat list \<Rightarrow> nearline_record list \<Rightarrow> nearline_record list" where
  "scan_segments from_json P limit d [] out = out"
| "scan_segments from_json P limit d (seg # segs) out =
     (case scan_lines from_json P limit (rev (segment_lines d seg)) out of
        Inl out \<Rightarrow> out
      | Inr out \<Rightarrow> scan_segments from_json P limit d segs out)"

definition nl_last_n ::
  "(string \<Rightarrow> nearline_record option) \<Rightarrow> nearline_config \<Rightarrow> nearline_dir \<Rightarrow> string \<Rightarrow> nat \<Rightarrow>
   nearline_record list" where
  "nl_last_n from_json cfg d name n =
     (if n = 0 then []
      else if trim name = [] then []
      else rev (scan_segments from_json (\<lambda>r. nr_name r = trim name) n d
             (newest_to_oldest (read_cur_seg d) (nc_segments cfg)) []))"

definition nl_search ::
  "(string \<Rightarrow> nearline_record option) \<Rightarrow> nearline_config \<Rightarrow> nearline_dir \<Rightarrow> string \<Rightarrow> string \<Rightarrow> nat \<Rightarrow>
   nearline_record list" where
  "nl_search from_json cfg d name q limit =
     (if trim q = [] \<or> limit = 0 then []
      else if trim name = [] then []
      else scan_segments from_json
             (\<lambda>r. nr_name r = trim name
                \<and> str_contains (to_ascii_lowercase (nr_text r)) (to_ascii_lowercase (trim q)))
             limit d (newest_to_oldest (read_cur_seg d) (nc_segments cfg)) [])"

record find_state =
  fs_prev :: "nearline_record list"
  fs_found :: "nearline_record option"
  fs_context :: "nearline_record list"
  fs_after_needed :: nat

fun find_lines ::
  "(string \<Rightarrow> nearline_record option) \<Rightarrow> string \<Rightarrow> string \<Rightarrow> nat \<Rightarrow> string list \<Rightarrow> find_state \<Rightarrow>
   (nearline_record \<times> nearline_record list) + find_state" where
  "find_lines from_json name i ctx [] st = Inr st"
| "find_lines from_json name i ctx (line # ls) st =
     (case from_json line of
        None \<Rightarrow> find_lines from_json name i ctx ls st
      | Some r \<Rightarrow>
          if nr_name r \<noteq> name then find_lines from_json name i ctx ls st
          else (case fs_found st of
              Some target \<Rightarrow>
                if 0 < fs_after_needed st then
                  (let st = st\<lparr>fs_context := fs_context st @ [r],
                               fs_after_needed := fs_after_needed st - 1\<rparr>
                   in if fs_after_needed st = 0 then Inl (target, fs_context st)
                      else find_lines from_json name i ctx ls st)
                else find_lines from_json name i ctx ls st
            | None \<Rightarrow>
                if nr_id r = i then
                  (let st = st\<lparr>fs_found := Some r, fs_prev := [],
                               fs_context := fs_context st @ fs_prev st @ [r],
                               fs_after_needed := ctx\<rparr>
                   in if fs_after_needed st = 0 then Inl (r, fs_context st)
                      else find_lines from_json name i ctx ls st)
                else if 0 < ctx then
                  find_lines from_json name i ctx ls
                    (st\<lparr>fs_prev := pop_front_to ctx (fs_prev st @ [r])\<rparr>)
                else find_lines from_json name i ctx ls st))"

fun find_segments ::
  "(string \<Rightarrow> nearline_record option) \<Rightarrow> string \<Rightarrow> string \<Rightarrow> nat \<Rightarrow> nearline_dir \<Rightarrow> nat list \<Rightarrow>
   find_state \<Rightarrow> (nearline_record \<times> nearline_record list) option" where
  "find_segments from_json name i ctx d [] st = None"
| "find_segments from_json name i ctx d (seg # segs) st =
     (case find_lines from_json name i ctx (segment_lines d seg) st of
        Inl found \<Rightarrow> Some found
      | Inr st \<Rightarrow> find_segments from_json name i ctx d segs st)"

definition nl_find_with_context ::
  "(string \<Rightarrow> nearline_record option) \<Rightarrow> nearline_config \<Rightarrow> nearline_dir \<Rightarrow> string \<Rightarrow> string \<Rightarrow> nat \<Rightarrow>
   (nearline_record \<times> nearline_record list) option" where
  "nl_find_with_context from_json cfg d name i ctx =
     (if trim i = [] then None
      else if trim name = [] then None
      else find_segments from_json (trim name) (trim i) ctx d
             (oldest_to_newest (read_cur_seg d) (nc_segments cfg))
             \<lparr>fs_prev = [], fs_found = None, fs_context = [], fs_after_needed = 0\<rparr>)"

section \<open>What the readers see\<close>

definition segment_records ::
  "(string \<Rightarrow> nearline_record option) \<Rightarrow> nearline_dir \<Rightarrow> nat \<Rightarrow> nearline_record list" where
  "segment_records from_json d seg = List.map_filter from_json (segment_lines d seg)"

definition retained ::
  "(string \<Rightarrow> nearline_record option) \<Rightarrow> nearline_config \<Rightarrow> nearline_dir \<Rightarrow> nearline_record list" where
  "retained from_json cfg d =
     concat (map (segment_records from_json d)
       (oldest_to_newest (read_cur_seg d) (nc_segments cfg)))"

lemma newest_to_oldest_rev:
  assumes "cur < mx"
  shows "newest_to_oldest cur mx = rev (oldest_to_newest cur mx)"
proof (rule nth_equalityI)
  fix i assume "i < length (newest_to_oldest cur mx)"
  then have i: "i < mx" by (simp add: newest_to_oldest_def)
  then have "cur + 1 + (mx - 1 - i) = cur + mx - i" by simp
  with i show "newest_to_oldest cur mx ! i = rev (oldest_to_newest cur mx) ! i"
    by (simp add: newest_to_oldest_def oldest_to_newest_def rev_nth)
qed (simp add: newest_to_oldest_def oldest_to_newest_def)

lemma scan_lines_filter:
  "length out < limit \<Longrightarrow>
   (case scan_lines from_json P limit ls out of
      Inl res \<Rightarrow> res = out @ take (limit - length out) (filter P (List.map_filter from_json ls))
        \<and> limit \<le> length out + length (filter P (List.map_filter from_json ls))
    | Inr res \<Rightarrow> res = out @ filter P (List.map_filter from_json ls) \<and> length res < limit)"
proof (induction ls arbitrary: out)
  case (Cons line ls)
  show ?case
  proof (cases "from_json line")
    case (Some r)
    show ?thesis
    proof (cases "P r")
      case True
      show ?thesis
      proof (cases "limit \<le> length (out @ [r])")
        case False
        then have "length (out @ [r]) < limit" "limit - length out = Suc (limit - Suc (length out))" by auto
        with Cons.IH [of "out @ [r]"] True Some show ?thesis
          by (simp add: map_filter_simps split: sum.splits)
      qed (use Cons.prems True Some in \<open>auto simp: map_filter_simps le_Suc_eq Suc_le_eq\<close>)
    qed (use Cons.IH [OF Cons.prems] Some in \<open>simp add: map_filter_simps split: sum.splits\<close>)
  qed (use Cons.IH [OF Cons.prems] in \<open>simp add: map_filter_simps split: sum.splits\<close>)
qed (simp add: map_filter_simps)

lemma map_filter_rev: "List.map_filter f (rev xs) = rev (List.map_filter f xs)"
  by (simp add: List.map_filter_def rev_map rev_filter)

lemma scan_segments_filter:
  "length out < limit \<Longrightarrow>
   scan_segments from_json P limit d segs out
     = out @ take (limit - length out)
         (filter P (concat (map (\<lambda>s. rev (segment_records from_json d s)) segs)))"
proof (induction segs arbitrary: out)
  case (Cons seg segs)
  have s: "List.map_filter from_json (rev (segment_lines d seg)) = rev (segment_records from_json d seg)"
    by (simp add: segment_records_def map_filter_rev)
  show ?case
    using scan_lines_filter [OF Cons.prems, where from_json = from_json and P = P
        and ls = "rev (segment_lines d seg)"] Cons.IH
    by (auto simp: s split: sum.splits)
qed simp

text \<open>The three readers on the retained records of a name.\<close>

lemma concat_map_rev: "concat (map (\<lambda>s. rev (f s)) (rev segs)) = rev (concat (map f segs))"
  by (induction segs) simp_all

lemma nl_last_n_retained:
  assumes "read_cur_seg d < nc_segments cfg" "trim name \<noteq> []"
  shows "nl_last_n from_json cfg d name n
    = newest n (filter (\<lambda>r. nr_name r = trim name) (retained from_json cfg d))"
  using assms
  by (simp add: nl_last_n_def scan_segments_filter newest_to_oldest_rev concat_map_rev retained_def
      newest_alt rev_filter)

lemma nl_search_retained:
  assumes "read_cur_seg d < nc_segments cfg" "trim name \<noteq> []" "trim q \<noteq> []"
  shows "nl_search from_json cfg d name q limit
    = take limit (filter (\<lambda>r. nr_name r = trim name
        \<and> str_contains (to_ascii_lowercase (nr_text r)) (to_ascii_lowercase (trim q)))
      (rev (retained from_json cfg d)))"
  using assms
  by (simp add: nl_search_def scan_segments_filter newest_to_oldest_rev concat_map_rev retained_def)

text \<open>The search with context, on the records alone.\<close>

fun find_records ::
  "string \<Rightarrow> nat \<Rightarrow> nearline_record list \<Rightarrow> find_state \<Rightarrow>
   (nearline_record \<times> nearline_record list) + find_state" where
  "find_records i ctx [] st = Inr st"
| "find_records i ctx (r # rs) st =
     (case fs_found st of
        Some target \<Rightarrow>
          if fs_after_needed st = 0 then find_records i ctx rs st
          else if fs_after_needed st = 1 then Inl (target, fs_context st @ [r])
          else find_records i ctx rs
                 (st\<lparr>fs_context := fs_context st @ [r], fs_after_needed := fs_after_needed st - 1\<rparr>)
      | None \<Rightarrow>
          if nr_id r = i then
            (if ctx = 0 then Inl (r, fs_context st @ fs_prev st @ [r])
             else find_records i ctx rs
                    (st\<lparr>fs_found := Some r, fs_prev := [],
                        fs_context := fs_context st @ fs_prev st @ [r], fs_after_needed := ctx\<rparr>))
          else if ctx = 0 then find_records i ctx rs st
          else find_records i ctx rs (st\<lparr>fs_prev := pop_front_to ctx (fs_prev st @ [r])\<rparr>))"

lemma find_lines_records:
  "find_lines from_json name i ctx ls st =
     find_records i ctx (filter (\<lambda>r. nr_name r = name) (List.map_filter from_json ls)) st"
  by (induction ls arbitrary: st)
    (auto simp: map_filter_simps Let_def split: option.splits)

lemma find_records_append:
  "find_records i ctx (rs @ qs) st =
     (case find_records i ctx rs st of Inl found \<Rightarrow> Inl found | Inr st \<Rightarrow> find_records i ctx qs st)"
  by (induction rs arbitrary: st) (auto split: option.splits)

definition found_of :: "'f + find_state \<Rightarrow> 'f option" where
  "found_of x = (case x of Inl f \<Rightarrow> Some f | Inr st \<Rightarrow> None)"

lemma find_segments_records:
  "find_segments from_json name i ctx d segs st =
     found_of (find_records i ctx
       (filter (\<lambda>r. nr_name r = name) (concat (map (segment_records from_json d) segs))) st)"
  by (induction segs arbitrary: st)
    (auto simp: find_lines_records find_records_append segment_records_def found_of_def split: sum.splits)

lemma find_records_after:
  assumes "fs_found st = Some t" "0 < fs_after_needed st"
  shows "found_of (find_records i ctx rs st) =
    (if fs_after_needed st \<le> length rs then Some (t, fs_context st @ take (fs_after_needed st) rs) else None)"
  using assms
proof (induction rs arbitrary: st)
  case (Cons r rs)
  let ?st = "st\<lparr>fs_context := fs_context st @ [r], fs_after_needed := fs_after_needed st - 1\<rparr>"
  show ?case
  proof (cases "fs_after_needed st = 1")
    case False
    with Cons.prems have "0 < fs_after_needed ?st" "fs_found ?st = Some t" by simp_all
    from Cons.IH [OF this(2,1)] show ?thesis
      using Cons.prems False by (auto simp: take_Cons' Suc_le_eq)
  qed (use Cons.prems in \<open>simp add: found_of_def\<close>)
qed (simp add: found_of_def)

lemma find_records_index:
  assumes "fs_found st = None" "fs_context st = []" "fs_prev st = newest ctx pre"
  shows "found_of (find_records i ctx rs st) =
    (case index_of (\<lambda>r. nr_id r = i) rs of
       None \<Rightarrow> None
     | Some k \<Rightarrow>
         if ctx \<le> length rs - Suc k
         then Some (rs ! k, newest ctx (pre @ take k rs) @ rs ! k # take ctx (drop (Suc k) rs))
         else None)"
  using assms
proof (induction rs arbitrary: st pre)
  case Nil
  then show ?case by (simp add: found_of_def)
next
  case (Cons r rs)
  show ?case
  proof (cases "nr_id r = i")
    case True
    then show ?thesis
      using Cons.prems find_records_after [of "st\<lparr>fs_found := Some r, fs_prev := [],
          fs_context := fs_context st @ fs_prev st @ [r], fs_after_needed := ctx\<rparr>" r i ctx rs]
      by (auto simp: found_of_def newest_def)
  next
    case False
    let ?st = "if ctx = 0 then st else st\<lparr>fs_prev := pop_front_to ctx (fs_prev st @ [r])\<rparr>"
    have "fs_prev ?st = newest ctx (pre @ [r])"
      using Cons.prems(3) by (auto simp: pop_front_newest) (simp add: newest_def)
    with Cons.IH [of ?st "pre @ [r]"] Cons.prems(1,2) False show ?thesis
      by (auto split: option.splits)
  qed
qed

text \<open>
  Looking a record up with its context succeeds exactly when the retained records of the name
  hold its identifier and at least as many records follow the first of them as were asked for;
  the context is what the definition of the hot scrollback gives.
\<close>
theorem nearline_context:
  assumes "trim i \<noteq> []" "trim name \<noteq> []"
  shows "nl_find_with_context from_json cfg d name i ctx = Some (t, c) \<longleftrightarrow>
    (\<exists>before after. filter (\<lambda>r. nr_name r = trim name) (retained from_json cfg d) = before @ t # after
      \<and> nr_id t = trim i \<and> trim i \<notin> nr_id ` set before \<and> ctx \<le> length after
      \<and> c = newest ctx before @ t # take ctx after)"
proof -
  let ?xs = "filter (\<lambda>r. nr_name r = trim name) (retained from_json cfg d)"
  have "nl_find_with_context from_json cfg d name i ctx =
      (case index_of (\<lambda>r. nr_id r = trim i) ?xs of None \<Rightarrow> None | Some k \<Rightarrow>
         if ctx \<le> length ?xs - Suc k
         then Some (?xs ! k, newest ctx (take k ?xs) @ ?xs ! k # take ctx (drop (Suc k) ?xs)) else None)"
    using assms find_records_index [of "\<lparr>fs_prev = [], fs_found = None, fs_context = [],
        fs_after_needed = 0\<rparr>" ctx "[]" "trim i" ?xs, unfolded append_Nil]
    by (simp add: nl_find_with_context_def find_segments_records flip: retained_def)
  then have "nl_find_with_context from_json cfg d name i ctx = Some (t, c) \<longleftrightarrow>
      (\<exists>k. index_of (\<lambda>r. nr_id r = trim i) ?xs = Some k \<and> t = ?xs ! k \<and> ctx \<le> length (drop (Suc k) ?xs)
        \<and> c = newest ctx (take k ?xs) @ t # take ctx (drop (Suc k) ?xs))"
    by (auto split: option.splits if_splits)
  also have "\<dots> \<longleftrightarrow> (\<exists>before u after. ?xs = before @ u # after \<and> nr_id u = trim i
      \<and> (\<forall>r \<in> set before. nr_id r \<noteq> trim i) \<and> t = u \<and> ctx \<le> length after
      \<and> c = newest ctx before @ t # take ctx after)"
    by (rule index_of_split)
  finally show ?thesis by (simp add: not_image_iff)
qed

section \<open>The writer keeps the newest records\<close>

definition nearline_codec ::
  "(nearline_record \<Rightarrow> string option) \<Rightarrow> (string \<Rightarrow> nearline_record option) \<Rightarrow>
   nearline_record list \<Rightarrow> bool" where
  "nearline_codec to_json from_json rs \<longleftrightarrow>
     list_all (\<lambda>r. case to_json r of
         None \<Rightarrow> False
       | Some s \<Rightarrow> from_json s = Some r \<and> s \<noteq> [] \<and> utf8_valid s
           \<and> CHR 0x0A \<notin> set s \<and> last s \<noteq> CHR 0x0D) rs"

definition record_line :: "(nearline_record \<Rightarrow> string option) \<Rightarrow> nearline_record \<Rightarrow> string" where
  "record_line to_json r = (case to_json r of None \<Rightarrow> [] | Some s \<Rightarrow> s @ [CHR 0x0A])"

definition records_text :: "(nearline_record \<Rightarrow> string option) \<Rightarrow> nearline_record list \<Rightarrow> string" where
  "records_text to_json rs = concat (map (record_line to_json) rs)"

lemma records_text_simps [simp]:
  "records_text to_json [] = []"
  "records_text to_json (r # rs) = record_line to_json r @ records_text to_json rs"
  "records_text to_json (rs @ qs) = records_text to_json rs @ records_text to_json qs"
  by (simp_all add: records_text_def)

lemma nearline_codec_simps [simp]:
  "nearline_codec to_json from_json []"
  "nearline_codec to_json from_json (rs @ qs) \<longleftrightarrow>
     nearline_codec to_json from_json rs \<and> nearline_codec to_json from_json qs"
  by (simp_all add: nearline_codec_def)

lemma utf8_valid_append: "utf8_valid a \<Longrightarrow> utf8_valid b \<Longrightarrow> utf8_valid (a @ b)"
proof (induction a rule: utf8_valid.induct)
  case (2 c s)
  obtain n ok where p: "utf8_piece c s = (n, ok)" by (cases "utf8_piece c s")
  with 2 have ok: "ok" and rest: "utf8_valid (drop n (c # s) @ b)"
    by (auto simp: utf8_valid.simps)
  have "take n (c # s) @ drop n (c # s) @ b = (c # s) @ b"
    by (simp only: append.assoc [symmetric] append_take_drop_id)
  with utf8_valid_piece [OF _ rest, of c s n] p ok show ?case by metis
qed simp

lemma utf8_valid_line: "utf8_valid s \<Longrightarrow> utf8_valid t \<Longrightarrow> utf8_valid (s @ CHR 0x0A # t)"
  by (rule utf8_valid_append) (simp_all add: utf8_valid.simps utf8_piece_def utf8_tails_def)

lemma segment_text:
  assumes "nearline_codec to_json from_json rs"
  shows "utf8_valid (records_text to_json rs)"
    "split_char (CHR 0x0A) (records_text to_json rs) = map (\<lambda>r. the (to_json r)) rs @ [[]]"
    "List.map_filter from_json (str_lines (records_text to_json rs)) = rs"
proof -
  show "utf8_valid (records_text to_json rs)"
    using assms
    by (induction rs) (auto simp: nearline_codec_def record_line_def split: option.splits
        intro!: utf8_valid_line)
  show split: "split_char (CHR 0x0A) (records_text to_json rs) = map (\<lambda>r. the (to_json r)) rs @ [[]]"
    using assms
    by (induction rs) (auto simp: nearline_codec_def record_line_def split_char_append split: option.splits)
  have "map strip_cr (map (\<lambda>r. the (to_json r)) rs) = map (\<lambda>r. the (to_json r)) rs"
    using assms by (auto simp: nearline_codec_def list_all_iff strip_cr_def split: option.splits)
  then have lines: "str_lines (records_text to_json rs) = map (\<lambda>r. the (to_json r)) rs"
    by (simp add: str_lines_def split)
  show "List.map_filter from_json (str_lines (records_text to_json rs)) = rs"
    unfolding lines using assms
    by (induction rs) (auto simp: nearline_codec_def map_filter_simps split: option.splits)
qed

text \<open>
  The state between two records: every segment is the text of a block of records, and the blocks
  from the oldest to the newest are the last records appended. What is missing is no more than
  the full segments do not hold.
\<close>

definition text_bytes :: "(nearline_record \<Rightarrow> string option) \<Rightarrow> nearline_record list \<Rightarrow> nat" where
  "text_bytes to_json rs = length (records_text to_json rs)"

definition ring_rel ::
  "(nearline_record \<Rightarrow> string option) \<Rightarrow> nearline_config \<Rightarrow> (nat \<Rightarrow> nearline_record list) \<Rightarrow>
   nearline_record list \<Rightarrow> nearline_writer \<Rightarrow> nearline_dir \<Rightarrow> bool" where
  "ring_rel to_json cfg block rs w d \<longleftrightarrow>
     nw_file w = nw_cur w \<and> nw_cur w < nc_segments cfg \<and> nd_meta d = Some (nw_cur w)
     \<and> nw_bytes w \<le> text_bytes to_json (block (nw_cur w))
     \<and> (\<forall>s < nc_segments cfg. case nd_segs d s of
          None \<Rightarrow> block s = [] | Some t \<Rightarrow> t = records_text to_json (block s))
     \<and> (\<exists>k. concat (map block (oldest_to_newest (nw_cur w) (nc_segments cfg))) = drop k rs
          \<and> k \<le> length rs
          \<and> (k = 0 \<or> nc_segments cfg = 1 \<or> nc_seg_max cfg < text_bytes to_json (drop k rs)))"

lemma oldest_to_newest_cut:
  assumes "cur < mx"
  shows "oldest_to_newest cur mx = [cur + 1..<mx] @ [0..<cur] @ [cur]"
proof (rule nth_equalityI)
  fix i assume "i < length (oldest_to_newest cur mx)"
  then have i: "i < mx" by (simp add: oldest_to_newest_def)
  show "oldest_to_newest cur mx ! i = ([cur + 1..<mx] @ [0..<cur] @ [cur]) ! i"
  proof (cases "cur + 1 + i < mx")
    case False
    then have "(cur + 1 + i) mod mx = cur + 1 + i - mx" using assms i by (simp add: mod_if)
    with False i assms show ?thesis by (auto simp: oldest_to_newest_def nth_append)
  next
    case True
    then have "i < mx - Suc cur" by simp
    with True show ?thesis by (simp add: oldest_to_newest_def nth_append)
  qed
qed (use assms in \<open>simp add: oldest_to_newest_def\<close>)

lemma oldest_to_newest_next:
  assumes "cur < mx" "mx \<noteq> 1"
  obtains segs where "oldest_to_newest cur mx = (cur + 1) mod mx # segs @ [cur]"
    "oldest_to_newest ((cur + 1) mod mx) mx = segs @ [cur, (cur + 1) mod mx]"
    "(cur + 1) mod mx \<notin> set (cur # segs)"
proof (cases "cur + 1 < mx")
  case True
  then show ?thesis
    by (intro that [of "[cur + 2..<mx] @ [0..<cur]"]) (auto simp: oldest_to_newest_cut upt_conv_Cons)
next
  case False
  then have mx: "mx = cur + 1" "0 < cur" using assms by simp_all
  have "[0..<cur] = 0 # [1..<cur]" "[1..<cur + 1] = [1..<cur] @ [cur]"
    using mx(2) by (simp_all add: upt_conv_Cons)
  with mx show ?thesis by (intro that [of "[1..<cur]"]) (auto simp: oldest_to_newest_cut)
qed

definition io_fine :: nearline_io where
  "io_fine = \<lparr>io_open = True, io_meta = True, io_written = None\<rparr>"

lemma text_bytes_append: "text_bytes to_json (rs @ qs) = text_bytes to_json rs + text_bytes to_json qs"
  by (simp add: text_bytes_def)

lemma concat_map_upd: "s \<notin> set segs \<Longrightarrow> concat (map (f(s := x)) segs) = concat (map f segs)"
  by (induction segs) auto

text \<open>One record appended to the current segment.\<close>

lemma ring_rel_write:
  assumes rel: "ring_rel to_json cfg block rs w d" and s: "to_json r = Some s"
    and old: "old = (case nd_segs d (nw_file w) of None \<Rightarrow> [] | Some t \<Rightarrow> t)"
  shows "ring_rel to_json cfg (block(nw_cur w := block (nw_cur w) @ [r])) (rs @ [r])
    (w\<lparr>nw_bytes := sat_add64 (nw_bytes w) (length (s @ [CHR 0x0A]))\<rparr>)
    (d\<lparr>nd_segs := (nd_segs d)(nw_file w \<mapsto> old @ s @ [CHR 0x0A])\<rparr>)"
proof -
  let ?cur = "nw_cur w" and ?mx = "nc_segments cfg"
  let ?b = "block(?cur := block ?cur @ [r])"
  have cur: "?cur < ?mx" "nw_file w = ?cur" using rel by (simp_all add: ring_rel_def)
  have line: "record_line to_json r = s @ [CHR 0x0A]" by (simp add: record_line_def s)
  have olds: "old = records_text to_json (block ?cur)"
    using rel cur unfolding ring_rel_def old by (auto split: option.splits dest!: spec [of _ ?cur])
  obtain k where k: "concat (map block (oldest_to_newest ?cur ?mx)) = drop k rs" "k \<le> length rs"
    "k = 0 \<or> ?mx = 1 \<or> nc_seg_max cfg < text_bytes to_json (drop k rs)"
    using rel by (auto simp: ring_rel_def)
  have segs: "concat (map ?b (oldest_to_newest ?cur ?mx)) = drop k rs @ [r]"
    using k(1) cur by (simp add: oldest_to_newest_cut concat_map_upd)
  have "nw_bytes w + Suc (length s) \<le> text_bytes to_json (block ?cur @ [r])"
    using rel line by (simp add: ring_rel_def text_bytes_def)
  then have bytes: "sat_add64 (nw_bytes w) (length (s @ [CHR 0x0A])) \<le> text_bytes to_json (?b ?cur)"
    by (simp add: sat_add64_def)
  have "\<exists>k. concat (map ?b (oldest_to_newest ?cur ?mx)) = drop k (rs @ [r]) \<and> k \<le> length (rs @ [r])
      \<and> (k = 0 \<or> ?mx = 1 \<or> nc_seg_max cfg < text_bytes to_json (drop k (rs @ [r])))"
    using k segs by (intro exI [of _ k]) (auto simp: text_bytes_append)
  then show ?thesis
    using rel cur bytes by (auto simp: ring_rel_def olds line split: option.splits)
qed

text \<open>The next segment started: the oldest block goes, which a ring of one segment holds itself.\<close>

lemma ring_rel_rotate:
  assumes rel: "ring_rel to_json cfg block rs w d" and r: "to_json r = Some s"
    and full: "nc_seg_max cfg < sat_add64 (nw_bytes w) (length (s @ [CHR 0x0A]))"
    and rot: "writer_rotate cfg io_fine w d = (go, w1, d1)"
    and app: "w2 = w1\<lparr>nw_bytes := sat_add64 (nw_bytes w1) (length (s @ [CHR 0x0A]))\<rparr>"
      "d2 = d1\<lparr>nd_segs := (nd_segs d1)(nw_file w1 \<mapsto> s @ [CHR 0x0A])\<rparr>"
  shows "go \<and> ring_rel to_json cfg (block((nw_cur w + 1) mod nc_segments cfg := [r])) (rs @ [r]) w2 d2"
proof -
  let ?cur = "nw_cur w" and ?mx = "nc_segments cfg"
  let ?next = "(?cur + 1) mod ?mx"
  have cur: "?cur < ?mx" using rel by (simp add: ring_rel_def)
  have line: "record_line to_json r = s @ [CHR 0x0A]" by (simp add: record_line_def r)
  have go: "go" and w1: "w1 = w\<lparr>nw_cur := ?next, nw_file := ?next, nw_bytes := 0, nw_meta := ?next\<rparr>"
    and d1: "d1 = d\<lparr>nd_segs := (nd_segs d)(?next \<mapsto> []), nd_meta := Some ?next\<rparr>"
    using rot by (auto simp: writer_rotate_def io_fine_def write_meta_file_def Let_def)
  obtain k where k: "concat (map block (oldest_to_newest ?cur ?mx)) = drop k rs" "k \<le> length rs"
    using rel by (auto simp: ring_rel_def)
  have "\<exists>k. concat (map (block(?next := [r])) (oldest_to_newest ?next ?mx)) = drop k (rs @ [r])
      \<and> k \<le> length (rs @ [r])
      \<and> (k = 0 \<or> ?mx = 1 \<or> nc_seg_max cfg < text_bytes to_json (drop k (rs @ [r])))"
  proof (cases "?mx = 1")
    case True
    then show ?thesis by (intro exI [of _ "length rs"]) (simp add: oldest_to_newest_def)
  next
    case False
    obtain segs where segs: "oldest_to_newest ?cur ?mx = ?next # segs @ [?cur]"
      "oldest_to_newest ?next ?mx = segs @ [?cur, ?next]" "?next \<notin> set (?cur # segs)"
      using oldest_to_newest_next [OF cur False] by metis
    let ?k = "k + length (block ?next)"
    have "drop k rs = block ?next @ concat (map block segs) @ block ?cur"
      using k(1) by (simp add: segs(1))
    then have rest: "drop ?k rs = concat (map block segs) @ block ?cur"
      by (metis add.commute append_eq_conv_conj drop_drop)
    have len: "?k \<le> length rs"
      using arg_cong [OF k(1), of length] k(2) by (simp add: segs(1))
    have "nc_seg_max cfg < text_bytes to_json (block ?cur) + length (s @ [CHR 0x0A])"
      using rel full by (simp add: ring_rel_def sat_add64_def)
    moreover have "text_bytes to_json (drop ?k rs @ [r]) = text_bytes to_json (concat (map block segs))
        + text_bytes to_json (block ?cur) + length (s @ [CHR 0x0A])"
      unfolding rest by (simp add: text_bytes_def line)
    ultimately have "nc_seg_max cfg < text_bytes to_json (drop ?k rs @ [r])" by linarith
    moreover have "concat (map (block(?next := [r])) (oldest_to_newest ?next ?mx)) = drop ?k rs @ [r]"
      unfolding segs(2) rest using segs(3) by (simp add: concat_map_upd)
    ultimately show ?thesis using len by (intro exI [of _ ?k]) simp
  qed
  then show ?thesis
    using rel go by (auto simp: ring_rel_def w1 d1 app sat_add64_def text_bytes_def line split: option.splits)
qed

lemma ring_rel_append:
  assumes rel: "ring_rel to_json cfg block rs w d" and r: "to_json r = Some s"
  shows "\<exists>block'. case writer_append to_json cfg io_fine r (w, d) of
      (w, d) \<Rightarrow> ring_rel to_json cfg block' (rs @ [r]) w d"
proof (cases "nc_seg_max cfg < sat_add64 (nw_bytes w) (length (s @ [CHR 0x0A])) \<and> 0 < nw_bytes w")
  case True
  obtain go w1 d1 where rot: "writer_rotate cfg io_fine w d = (go, w1, d1)"
    by (cases "writer_rotate cfg io_fine w d")
  have "nd_segs d1 (nw_file w1) = Some []"
    using rot by (auto simp: writer_rotate_def io_fine_def write_meta_file_def Let_def)
  with ring_rel_rotate [OF rel r _ rot refl refl] True rot r show ?thesis
    by (auto simp: writer_append_def Let_def io_fine_def)
next
  case False
  with ring_rel_write [OF rel r refl] r show ?thesis
    by (auto simp: writer_append_def Let_def io_fine_def)
qed

definition nearline_run ::
  "(nearline_record \<Rightarrow> string option) \<Rightarrow> nearline_config \<Rightarrow> nearline_record list \<Rightarrow>
   nearline_writer \<times> nearline_dir \<Rightarrow> nearline_writer \<times> nearline_dir" where
  "nearline_run to_json cfg rs wd = foldl (\<lambda>wd r. writer_append to_json cfg io_fine r wd) wd rs"

lemma ring_rel_run:
  assumes "ring_rel to_json cfg block rs w d" "nearline_codec to_json from_json qs"
  shows "\<exists>block'. case nearline_run to_json cfg qs (w, d) of
      (w, d) \<Rightarrow> ring_rel to_json cfg block' (rs @ qs) w d"
  using assms(2)
proof (induction qs rule: rev_induct)
  case Nil
  then show ?case using assms(1) by (auto simp: nearline_run_def)
next
  case (snoc r qs)
  obtain w1 d1 where run: "nearline_run to_json cfg qs (w, d) = (w1, d1)" by fastforce
  then obtain b where "ring_rel to_json cfg b (rs @ qs) w1 d1" using snoc by auto
  moreover obtain s where "to_json r = Some s"
    using snoc.prems by (auto simp: nearline_codec_def split: option.splits)
  ultimately show ?case
    using ring_rel_append [of to_json cfg b "rs @ qs" w1 d1 r s] run by (simp add: nearline_run_def)
qed

lemma ring_rel_start:
  "nd_meta d = None \<Longrightarrow> nd_segs d = Map.empty \<Longrightarrow> writer_start cfg io_fine d = (Some w, d') \<Longrightarrow>
   ring_rel to_json cfg (\<lambda>s. []) [] w d'"
  by (auto simp: writer_start_def io_fine_def write_meta_file_def read_cur_seg_def ring_rel_def Let_def
      nc_segments_def text_bytes_def split: if_splits)

lemma ring_rel_retained:
  assumes rel: "ring_rel to_json cfg block rs w d" and codec: "nearline_codec to_json from_json rs"
  obtains k where "retained from_json cfg d = drop k rs" "read_cur_seg d < nc_segments cfg"
    "k = 0 \<or> nc_segments cfg = 1 \<or> nc_seg_max cfg < text_bytes to_json (drop k rs)"
proof -
  let ?segs = "oldest_to_newest (nw_cur w) (nc_segments cfg)"
  obtain k where k: "concat (map block ?segs) = drop k rs"
    "k = 0 \<or> nc_segments cfg = 1 \<or> nc_seg_max cfg < text_bytes to_json (drop k rs)"
    using rel by (auto simp: ring_rel_def)
  have cur: "read_cur_seg d = nw_cur w" "nw_cur w < nc_segments cfg"
    using rel by (simp_all add: ring_rel_def read_cur_seg_def)
  have "segment_records from_json d s = block s" if "s \<in> set ?segs" for s
  proof -
    have s: "s < nc_segments cfg" using that cur(2) by (auto simp: oldest_to_newest_def)
    have "set (block s) \<subseteq> set rs"
      using that arg_cong [OF k(1), of set] set_drop_subset [of k rs] by auto
    then have "nearline_codec to_json from_json (block s)"
      using codec by (auto simp: nearline_codec_def list_all_iff)
    note t = segment_text [OF this]
    show ?thesis
      using rel s t(1,3)
      by (auto simp: ring_rel_def segment_records_def segment_lines_def utf8_lossy_id map_filter_simps
          split: option.splits)
  qed
  then have "retained from_json cfg d = drop k rs"
    by (simp add: retained_def cur(1) k(1) [symmetric] cong: map_cong)
  with cur k(2) that show ?thesis by simp
qed


definition demo_record :: "string \<Rightarrow> nearline_record" where
  "demo_record s = \<lparr>nr_v = 1, nr_id = s, nr_ts_unix_ms = 0, nr_kind = ''output'', nr_session = [],
     nr_name = ''eve'', nr_ip = [], nr_text = s\<rparr>"

definition demo_nearline :: "nearline_writer \<times> nearline_dir" where
  "demo_nearline = nearline_run (\<lambda>r. Some (nr_text r)) nearline_config_default [demo_record ''a'', demo_record ''b'']
     (\<lparr>nw_meta = 0, nw_cur = 0, nw_file = 0, nw_bytes = 0\<rparr>,
      \<lparr>nd_meta = Some 0, nd_segs = [0 \<mapsto> []]\<rparr>)"

lemma demo_codec:
  "nearline_codec (\<lambda>r. Some (nr_text r)) (\<lambda>s. Some (demo_record s)) [demo_record ''a'', demo_record ''b'']"
  by (simp add: nearline_codec_def demo_record_def utf8_valid.simps utf8_piece_def utf8_tails_def)

lemma trim_eve: "trim ''eve'' = ''eve''"
  by (rule trim_id) (simp_all add: ws_head_def ws_tail_def uni_ws_def suffix_to_prefix)


theorem nearline_context_witness:
  "nl_find_with_context (\<lambda>s. Some (demo_record s)) nearline_config_default
     \<lparr>nd_meta = Some 0, nd_segs = [0 \<mapsto> ''eve'']\<rparr> ''eve'' ''eve'' 1 = None"
proof -
  have lines: "segment_lines \<lparr>nd_meta = Some 0, nd_segs = [0 \<mapsto> ''eve'']\<rparr> s = (if s = 0 then [''eve''] else [])" for s
    by (simp add: segment_lines_def str_lines_def utf8_lossy.simps utf8_piece_def utf8_tails_def)
  have "retained (\<lambda>s. Some (demo_record s)) nearline_config_default
      \<lparr>nd_meta = Some 0, nd_segs = [0 \<mapsto> ''eve'']\<rparr> = [demo_record ''eve'']"
    by (simp add: retained_def segment_records_def lines map_filter_simps oldest_to_newest_cut read_cur_seg_def
        nc_segments_def nearline_config_default_def upt_conv_Cons)
  then show ?thesis
    using nearline_context [of "''eve''" "''eve''" "\<lambda>s. Some (demo_record s)" nearline_config_default
        "\<lparr>nd_meta = Some 0, nd_segs = [0 \<mapsto> ''eve'']\<rparr>" 1]
    by (cases "nl_find_with_context (\<lambda>s. Some (demo_record s)) nearline_config_default
        \<lparr>nd_meta = Some 0, nd_segs = [0 \<mapsto> ''eve'']\<rparr> ''eve'' ''eve'' 1")
      (auto simp: trim_eve demo_record_def Cons_eq_append_conv append_eq_Cons_conv)
qed

end
