(* ===== verification/Compliance.thy ===== *)
theory Compliance
  imports Cleaning
begin

text \<open>
  What the compliance portal and the event log share (\<open>crates/compliance/src/lib.rs\<close>): where the
  log of a stream and a day is stored, and which email domains may ask for access. A date is its
  year, month and day; chrono computes them from a time.
\<close>

record utc_date =
  ud_year :: nat
  ud_month :: nat
  ud_day :: nat

datatype log_stream = LsAll | LsLogin | LsCharacter string | LsReports

definition zero_pad :: "nat \<Rightarrow> nat \<Rightarrow> string" where
  "zero_pad w n = replicate (w - length (show_nat n)) (CHR ''0'') @ show_nat n"

definition date_path :: "utc_date \<Rightarrow> string" where
  "date_path ts = zero_pad 4 (ud_year ts) @ ''/'' @ zero_pad 2 (ud_month ts) @ ''/''
     @ zero_pad 2 (ud_day ts) @ ''.log''"

definition trim_matches :: "char \<Rightarrow> string \<Rightarrow> string" where
  "trim_matches c s = rev (dropWhile ((=) c) (rev (dropWhile ((=) c) s)))"

definition object_relpath :: "log_stream \<Rightarrow> utc_date \<Rightarrow> string" where
  "object_relpath stream ts =
     (case stream of
        LsAll \<Rightarrow> ''v1/all/'' @ date_path ts
      | LsLogin \<Rightarrow> ''v1/login/'' @ date_path ts
      | LsCharacter name \<Rightarrow> ''v1/char/'' @ trim_matches (CHR ''/'') name @ ''/'' @ date_path ts
      | LsReports \<Rightarrow> ''v1/reports/'' @ date_path ts)"

definition s3_key :: "string \<Rightarrow> log_stream \<Rightarrow> utc_date \<Rightarrow> string" where
  "s3_key pfx stream ts =
     (let pfx = trim_matches (CHR ''/'') pfx; rel = object_relpath stream ts
      in if pfx = [] then rel else pfx @ ''/'' @ rel)"

record email_domain_rule =
  er_suffix :: string
  er_advertised :: bool
  er_country :: "string option"

definition trim_start_char :: "char \<Rightarrow> string \<Rightarrow> string" where
  "trim_start_char c s = dropWhile ((=) c) s"

definition normalize_suffix :: "string \<Rightarrow> string" where
  "normalize_suffix s = to_ascii_lowercase (trim_matches (CHR ''.'') (trim s))"

definition sorted_dedup :: "string list \<Rightarrow> string list" where
  "sorted_dedup xs = remdups_adj (sort xs)"

definition advertised_domain_suffixes :: "email_domain_rule list \<Rightarrow> string list" where
  "advertised_domain_suffixes rules =
     sorted_dedup (map (\<lambda>r. normalize_suffix (er_suffix r)) (filter er_advertised rules))"

text \<open>The countries in order, as the entries of a \<open>BTreeMap\<close> are.\<close>

definition rule_country :: "email_domain_rule \<Rightarrow> string" where
  "rule_country r =
     (let country = trim (case er_country r of Some c \<Rightarrow> c | None \<Rightarrow> ''Other'')
      in if country = [] then ''Other'' else country)"

definition advertised_domain_suffixes_by_country ::
  "email_domain_rule list \<Rightarrow> (string \<times> string list) list" where
  "advertised_domain_suffixes_by_country rules =
     (let rs = filter er_advertised rules
      in map (\<lambda>c. (c, sorted_dedup (map (\<lambda>r. normalize_suffix (er_suffix r))
           (filter (\<lambda>r. rule_country r = c) rs))))
         (sorted_dedup (map rule_country rs)))"

fun rsplit_once :: "char \<Rightarrow> string \<Rightarrow> (string \<times> string) option" where
  "rsplit_once c [] = None"
| "rsplit_once c (x # s) =
     (case rsplit_once c s of
        Some (a, b) \<Rightarrow> Some (x # a, b)
      | None \<Rightarrow> if x = c then Some ([], s) else None)"

definition rule_admits :: "string \<Rightarrow> email_domain_rule \<Rightarrow> bool" where
  "rule_admits domain r =
     (let suf = normalize_suffix (er_suffix r) in
      if suf = [] then False
      else if domain = suf then True
      else suffix (''.'' @ suf) domain)"

definition email_allowed_by_rules :: "string \<Rightarrow> email_domain_rule list \<Rightarrow> bool" where
  "email_allowed_by_rules email rules =
     (case rsplit_once (CHR ''@'') (trim email) of
        None \<Rightarrow> False
      | Some (_, domain) \<Rightarrow>
          (let domain = to_ascii_lowercase (rev (dropWhile ((=) CHR ''.'') (rev (trim domain))))
           in if domain = [] then False else list_ex (rule_admits domain) rules))"

section \<open>Where a log goes\<close>

lemma zero_pad_digits: "c \<in> set (zero_pad w n) \<Longrightarrow> is_ascii_digit c"
  using show_nat_digits [of n] by (auto simp: zero_pad_def is_ascii_digit_def)

lemma zero_pad_inj: "zero_pad w n = zero_pad w m \<longleftrightarrow> n = m"
proof -
  have z: "parse_digits_from 0 (replicate k (CHR ''0'')) = Some 0" for k
    by (induction k) (simp_all add: is_ascii_digit_def)
  have "parse_digits_from 0 (zero_pad w k) = Some k" for k
    by (simp add: zero_pad_def parse_digits_from_append z parse_digits_show_nat)
  then show ?thesis by (metis option.inject)
qed

lemma no_slash:
  "CHR ''/'' \<notin> set (zero_pad w n)" "CHR ''/'' \<notin> set (sanitize_name a)"
proof -
  show "CHR ''/'' \<notin> set (zero_pad w n)"
    using zero_pad_digits [of "CHR ''/''" w n] by (auto simp: is_ascii_digit_def)
  have "\<not> name_char (CHR ''/'')"
    by (simp add: name_char_def is_ascii_alnum_def is_ascii_upper_def is_ascii_lower_def is_ascii_digit_def)
  then show "CHR ''/'' \<notin> set (sanitize_name a)"
    using set_take_subset [of 20 "filter name_char (trim a)"] by (auto simp: sanitize_name_take)
qed

lemma trim_matches_none: "c \<notin> set s \<Longrightarrow> trim_matches c s = s"
proof -
  assume c: "c \<notin> set s"
  then have "dropWhile ((=) c) s = s" "dropWhile ((=) c) (rev s) = rev s"
    by (cases s, auto) (cases s rule: rev_cases, auto)
  then show ?thesis by (simp add: trim_matches_def)
qed

definition stream_path :: "log_stream \<Rightarrow> string list" where
  "stream_path stream = (case stream of
     LsAll \<Rightarrow> [''all''] | LsLogin \<Rightarrow> [''login''] | LsCharacter name \<Rightarrow> [''char'', name] | LsReports \<Rightarrow> [''reports''])"

definition stream_clean :: "log_stream \<Rightarrow> bool" where
  "stream_clean stream = (case stream of LsCharacter name \<Rightarrow> sanitize_name name = name | _ \<Rightarrow> True)"

lemma object_relpath_split:
  assumes "stream_clean s"
  shows "split_char (CHR ''/'') (object_relpath s d) = ''v1'' # stream_path s
    @ [zero_pad 4 (ud_year d), zero_pad 2 (ud_month d), zero_pad 2 (ud_day d) @ ''.log'']"
proof -
  have "split_char c a = [a]" if "c \<notin> set a" for c a using that by (induction a) auto
  then have d: "split_char (CHR ''/'') (date_path d)
      = [zero_pad 4 (ud_year d), zero_pad 2 (ud_month d), zero_pad 2 (ud_day d) @ ''.log'']"
    by (simp add: date_path_def split_char_append no_slash)
  show ?thesis
  proof (cases s)
    case (LsCharacter name)
    then have "CHR ''/'' \<notin> set name" using assms no_slash(2) [of name] by (simp add: stream_clean_def)
    then show ?thesis
      by (simp add: LsCharacter object_relpath_def stream_path_def trim_matches_none split_char_append d)
  qed (simp_all add: object_relpath_def stream_path_def d)
qed

text \<open>
  Streams and days have files of their own: two log paths are the same only for the same
  stream, the same character where it has one, and the same day.
\<close>
theorem log_paths_distinct:
  assumes "stream_clean s" "stream_clean s'"
  shows "object_relpath s d = object_relpath s' d' \<longleftrightarrow> s = s' \<and> d = d'"
proof
  assume "object_relpath s d = object_relpath s' d'"
  then have *: "stream_path s @ [zero_pad 4 (ud_year d), zero_pad 2 (ud_month d), zero_pad 2 (ud_day d) @ ''.log'']
      = stream_path s' @ [zero_pad 4 (ud_year d'), zero_pad 2 (ud_month d'), zero_pad 2 (ud_day d') @ ''.log'']"
    using object_relpath_split [OF assms(1), of d] object_relpath_split [OF assms(2), of d'] by simp
  then have "stream_path s = stream_path s'" "ud_year d = ud_year d'" "ud_month d = ud_month d'" "ud_day d = ud_day d'"
    using append_eq_append_conv [of "stream_path s" "stream_path s'"] by (auto simp: zero_pad_inj)
  then show "s = s' \<and> d = d'" by (cases s; cases s') (auto simp: stream_path_def)
qed simp

theorem log_paths_distinct_witness:
  "object_relpath (LsCharacter ''bob'') \<lparr>ud_year = 2024, ud_month = 1, ud_day = 12\<rparr>
     \<noteq> object_relpath (LsCharacter ''bob'') \<lparr>ud_year = 2024, ud_month = 11, ud_day = 2\<rparr>"
proof -
  have "list_all name_char ''bob''"
    by (simp add: name_char_def is_ascii_alnum_def is_ascii_upper_def is_ascii_lower_def is_ascii_digit_def)
  moreover have "trim ''bob'' = ''bob''" by (rule trim_visible) auto
  ultimately have "stream_clean (LsCharacter ''bob'')" by (simp add: stream_clean_def sanitize_name_take)
  from log_paths_distinct [OF this this] show ?thesis by simp
qed

section \<open>Who may ask for access\<close>

lemma split_char_append_both: "split_char c (a @ c # b) = split_char c a @ split_char c b"
  by (induction a) (auto split: list.splits)

lemma join_with_append:
  "xs \<noteq> [] \<Longrightarrow> ys \<noteq> [] \<Longrightarrow> join_with sep (xs @ ys) = join_with sep xs @ sep @ join_with sep ys"
proof (induction xs)
  case (Cons x xs)
  then show ?case by (cases xs; cases ys) auto
qed simp

text \<open>
  A rule admits a domain exactly when the labels of its suffix, of which there is one at
  least, are the last labels of the domain: \<open>notexample.org\<close> is not under \<open>example.org\<close>.
\<close>
theorem rules_match_labels:
  "rule_admits domain r \<longleftrightarrow> normalize_suffix (er_suffix r) \<noteq> [] \<and>
     suffix (split_char (CHR ''.'') (normalize_suffix (er_suffix r))) (split_char (CHR ''.'') domain)"
proof -
  let ?n = "normalize_suffix (er_suffix r)" and ?dot = "CHR ''.''"
  have "domain = ?n \<or> suffix (?dot # ?n) domain \<longleftrightarrow> suffix (split_char ?dot ?n) (split_char ?dot domain)"
  proof
    assume "domain = ?n \<or> suffix (?dot # ?n) domain"
    then show "suffix (split_char ?dot ?n) (split_char ?dot domain)"
      by (auto simp: suffix_def split_char_append_both)
  next
    assume "suffix (split_char ?dot ?n) (split_char ?dot domain)"
    then obtain xs where xs: "split_char ?dot domain = xs @ split_char ?dot ?n" by (auto simp: suffix_def)
    have "domain = join_with [?dot] (xs @ split_char ?dot ?n)"
      using join_split_char [of ?dot domain] by (simp add: xs)
    also have "\<dots> = (if xs = [] then ?n else join_with [?dot] xs @ [?dot] @ ?n)"
      by (simp add: join_with_append join_split_char)
    finally show "domain = ?n \<or> suffix (?dot # ?n) domain" by (auto simp: suffix_def split: if_splits)
  qed
  then show ?thesis by (auto simp: rule_admits_def Let_def)
qed

end
