(* ===== verification/Report.thy ===== *)
theory Report
  imports LogText Nearline Compliance HoldCache Rooms
begin

text \<open>
  The report command of a player (\<open>crates/slopmud/src/main.rs\<close>, \<open>handle_report_command\<close>): listing
  and searching the lines that were shown, in memory first and then on disk, and filing a report
  of one of them. Rendering a time, quoting a text for debugging and the places of the event log
  are the libraries', an environment \<open>report_env\<close>; the lines written to the event log are the
  second result. Nothing at all, \<open>None\<close>, is a panic in \<open>redact_pii\<close>.
\<close>

section \<open>Texts and reasons\<close>

definition report_last_default :: nat where "report_last_default = 30"
definition report_last_max :: nat where "report_last_max = 200"
definition report_search_limit :: nat where "report_search_limit = 20"
definition report_context_lines :: nat where "report_context_lines = 3"
definition report_note_max_chars :: nat where "report_note_max_chars = 500"
definition scrollback_max_lines :: nat where "scrollback_max_lines = 1500"

definition report_reasons :: "(string \<times> string) list" where
  "report_reasons =
     [(''bullying'', ''Bullying / harassment''),
      (''threats_violence'', ''Threats / violence''),
      (''self_harm'', ''Self-harm / suicide''),
      (''sexual'', ''Sexual content''),
      (''hate'', ''Hate or harassment''),
      (''impersonation'', ''Impersonation / fraud''),
      (''spam'', ''Spam / scam''),
      (''other'', ''Other'')]"

definition reason_synonyms :: "(string \<times> string) list" where
  "reason_synonyms =
     [(''harassment'', ''bullying''), (''bullying_harassment'', ''bullying''),
      (''threats'', ''threats_violence''), (''violence'', ''threats_violence''),
      (''threats/violence'', ''threats_violence''), (''suicide'', ''self_harm''),
      (''self-harm'', ''self_harm''), (''selfharm'', ''self_harm''), (''sex'', ''sexual''),
      (''nsfw'', ''sexual''), (''racism'', ''hate''), (''hate_speech'', ''hate''),
      (''impersonation/fraud'', ''impersonation''), (''scam'', ''spam'')]"

definition normalize_report_reason :: "string \<Rightarrow> string option" where
  "normalize_report_reason s =
     (let s = norm_key s in
      if s = [] then None
      else (case find (\<lambda>(k, label). s = k) report_reasons of
              Some (k, label) \<Rightarrow> Some k
            | None \<Rightarrow> map_of reason_synonyms s))"

definition prompt_end :: string where
  "prompt_end = crlf @ ''> ''"

definition report_usage_text :: string where
  "report_usage_text =
     ''report:'' @ crlf @ '' - report last [n]'' @ crlf @ '' - report search <text>'' @ crlf @
     '' - report reasons'' @ crlf @ '' - report submit <line_id> <reason> [note...]'' @ crlf @
     '' - report locate <line_id>'' @ crlf @ crlf @
     ''notes:'' @ crlf @ '' - hot scrollback stores your most recent ~'' @ show_nat scrollback_max_lines @
     '' output lines'' @ crlf @
     '' - nearline disk may keep more history (if enabled)'' @ crlf @
     '' - use `report search` or `report last` to find a line_id'' @ crlf @
     '' - reports are logged for review'' @ crlf @ prompt_end"

definition report_reasons_text :: string where
  "report_reasons_text =
     ''report reasons:'' @ crlf @
     concat (map (\<lambda>(k, label). '' - '' @ k @ '': '' @ label @ crlf) report_reasons) @ prompt_end"

section \<open>The environment and the rows shown\<close>

record report_env =
  re_hms :: "nat \<Rightarrow> string"
  re_debug :: "string \<Rightarrow> string"
  re_date :: "nat \<Rightarrow> utc_date"
  re_rfc3339 :: "nat \<Rightarrow> string"
  re_spool_path :: "string \<Rightarrow> string"
  re_s3_key :: "string \<Rightarrow> (string \<times> string) option"
  re_now_text :: string
  re_now_unix :: string

definition i64_or_zero :: "nat \<Rightarrow> nat" where
  "i64_or_zero ts = (if ts \<le> 9223372036854775807 then ts else 0)"

definition fmt_hhmmss :: "report_env \<Rightarrow> nat \<Rightarrow> string" where
  "fmt_hhmmss env ts = re_hms env (i64_or_zero ts)"

type_synonym report_row = "string \<times> nat \<times> string"

definition render_row :: "report_env \<Rightarrow> report_row \<Rightarrow> string" where
  "render_row env row =
     (case row of (i, ts, t) \<Rightarrow> '' ['' @ i @ '' '' @ fmt_hhmmss env ts @ ''] '' @ t @ crlf)"

definition hot_row :: "scroll_line \<Rightarrow> report_row" where
  "hot_row l = (line_id_encode (sl_id l), sl_ts_unix_ms l, sl_text l)"

definition disk_row :: "bool \<Rightarrow> nearline_record \<Rightarrow> report_row option" where
  "disk_row held r =
     map_option (\<lambda>t. (nr_id r, nr_ts_unix_ms r, t))
       (if held then redact_pii (nr_text r) else Some (nr_text r))"

definition report_last_rows ::
  "bool \<Rightarrow> nat \<Rightarrow> scroll_line list \<Rightarrow> nearline_record list \<Rightarrow> report_row list option" where
  "report_last_rows held n hot disk =
     (if n \<le> length hot then Some (map hot_row hot)
      else
        (let need = n - length hot;
             hot_ids = map (\<lambda>l. line_id_encode (sl_id l)) hot
         in (case those (map (disk_row held) (filter (\<lambda>r. nr_id r \<notin> set hot_ids) disk)) of
               None \<Rightarrow> None
             | Some older \<Rightarrow> Some (drop (length older - need) older @ map hot_row hot))))"

definition report_last ::
  "report_env \<Rightarrow> bool \<Rightarrow> nat \<Rightarrow> scroll_line list \<Rightarrow> nearline_record list \<Rightarrow> string option" where
  "report_last env held n hot disk =
     (case report_last_rows held n hot disk of
        None \<Rightarrow> None
      | Some rows \<Rightarrow>
          Some (''report last '' @ show_nat n @ '':'' @ crlf @ concat (map (render_row env) rows) @
            (if rows = [] then '' (scrollback empty)'' @ crlf else []) @ prompt_end))"

fun add_disk_rows ::
  "bool \<Rightarrow> nearline_record list \<Rightarrow> string list \<Rightarrow> report_row list \<Rightarrow> report_row list option" where
  "add_disk_rows held [] seen out = Some out"
| "add_disk_rows held (r # rs) seen out =
     (if nr_id r \<in> set seen then add_disk_rows held rs seen out
      else (case disk_row held r of
              None \<Rightarrow> None
            | Some row \<Rightarrow>
                if report_search_limit \<le> length (out @ [row]) then Some (out @ [row])
                else add_disk_rows held rs (nr_id r # seen) (out @ [row])))"

definition report_search ::
  "report_env \<Rightarrow> bool \<Rightarrow> string \<Rightarrow> scroll_line list \<Rightarrow> nearline_record list \<Rightarrow> string option" where
  "report_search env held q hot disk =
     (let out = take report_search_limit (map hot_row hot) in
      (case (if length out < report_search_limit then add_disk_rows held disk (map fst out) out
             else Some out) of
         None \<Rightarrow> None
       | Some rows \<Rightarrow>
           Some (''report search '' @ re_debug env q @ '' (newest first; up to '' @
             show_nat report_search_limit @ ''):'' @ crlf @ concat (map (render_row env) rows) @
             (if rows = [] then '' (no matches)'' @ crlf else []) @ prompt_end)))"

definition report_locate :: "report_env \<Rightarrow> string \<Rightarrow> line_id \<Rightarrow> string" where
  "report_locate env name i =
     (let ts = (case timestamp_unix_ms i of None \<Rightarrow> 0 | Some ts \<Rightarrow> i64_or_zero ts);
          rel_char = object_relpath (LsCharacter name) (re_date env ts);
          rel_all = object_relpath LsAll (re_date env ts)
      in ''report locate:'' @ crlf @
         '' - line_id: '' @ line_id_encode i @ crlf @
         '' - ts_utc: '' @ re_rfc3339 env ts @ crlf @
         '' - eventlog_char_relpath: '' @ rel_char @ crlf @
         '' - eventlog_char_spool: '' @ re_spool_path env rel_char @ crlf @
         '' - eventlog_all_relpath: '' @ rel_all @ crlf @
         '' - eventlog_all_spool: '' @ re_spool_path env rel_all @ crlf @
         (case re_s3_key env rel_char of
            None \<Rightarrow> []
          | Some (bucket, key) \<Rightarrow> '' - s3_bucket: '' @ bucket @ crlf @ '' - s3_key: '' @ key @ crlf) @
         '' - grep: rg '' @ [CHR 0x27] @ ''line_id='' @ [CHR 0x22] @ ''<id>'' @ [CHR 0x22, CHR 0x27] @ '' <file>'' @ crlf @
         prompt_end)"

section \<open>Filing a report\<close>

record reporter =
  rp_session_hex :: string
  rp_peer_ip :: string
  rp_name :: string

definition redact_if :: "bool \<Rightarrow> string \<Rightarrow> string option" where
  "redact_if held s = (if held then redact_pii s else Some s)"

definition context_text :: "report_env \<Rightarrow> report_row list \<Rightarrow> string" where
  "context_text env rows =
     trim_end (concat (map (\<lambda>(i, ts, t). ''['' @ i @ '' '' @ fmt_hhmmss env ts @ ''] '' @ t @ [CHR 0x0A]) rows))"

definition report_fields ::
  "report_env \<Rightarrow> reporter \<Rightarrow> string \<Rightarrow> string \<Rightarrow> nat \<Rightarrow> string \<Rightarrow> string \<Rightarrow> string \<Rightarrow> string \<Rightarrow> string \<Rightarrow>
   (string \<times> string) list" where
  "report_fields env rp report_id i ts target reason note source context =
     [(''ts'', logfmt_str (re_now_text env)), (''kind'', ''abuse_report''), (''report_id'', logfmt_str report_id),
      (''reporter_session'', logfmt_str (rp_session_hex rp)), (''reporter_ip'', logfmt_str (rp_peer_ip rp)),
      (''reporter_name'', logfmt_str (rp_name rp)), (''reported_line_id'', logfmt_str i),
      (''reported_line_ts_unix_ms'', logfmt_str (show_nat ts)), (''reported_text'', logfmt_str target),
      (''reason'', logfmt_str reason), (''note'', logfmt_str note), (''source'', logfmt_str source),
      (''context'', logfmt_str context)]"

definition log_entry :: "(string \<times> string) list \<Rightarrow> string" where
  "log_entry kvs = join_with '' '' (map (\<lambda>(k, v). k @ ''='' @ v) kvs)"

definition log_to_character :: "string \<Rightarrow> string \<Rightarrow> (log_stream \<times> string) list" where
  "log_to_character name entry = (if trim name = [] then [] else [(LsCharacter name, entry)])"

definition report_file ::
  "report_env \<Rightarrow> reporter \<Rightarrow> bool \<Rightarrow> line_id \<Rightarrow> string \<Rightarrow> string \<Rightarrow> bool \<Rightarrow> nat \<Rightarrow> string \<Rightarrow> report_row list \<Rightarrow>
   (string \<times> (log_stream \<times> string) list) option" where
  "report_file env rp held i reason note is_hot ts target context =
     (case (redact_if held target, redact_if held note,
            those (map (\<lambda>(ci, cts, ct). map_option (\<lambda>ct. (ci, cts, ct)) (redact_if held ct)) context)) of
        (Some target_log, Some note_log, Some context_log) \<Rightarrow>
          (let i_str = line_id_encode i;
               view = (if held \<and> \<not> is_hot then target_log else target);
               report_id = ''rep-'' @ re_now_unix env @ ''-'' @ take 8 (rp_session_hex rp) @ ''-'' @ i_str;
               entry = log_entry (report_fields env rp report_id i_str ts target_log reason note_log
                 (if is_hot then ''hot'' else ''nearline'') (context_text env context_log))
           in Some (''report submitted:'' @ crlf @
                '' - report_id: '' @ report_id @ crlf @
                '' - line: ['' @ i_str @ '' '' @ fmt_hhmmss env ts @ ''] '' @ view @ crlf @
                '' - reason: '' @ reason @ crlf @
                (if note = [] then [] else '' - note: '' @ note @ crlf) @ prompt_end,
                [(LsReports, entry), (LsAll, entry)] @ log_to_character (rp_name rp) entry))
      | _ \<Rightarrow> None)"

definition report_submit ::
  "report_env \<Rightarrow> reporter \<Rightarrow> bool \<Rightarrow> scrollback \<Rightarrow>
   (string \<Rightarrow> nearline_record option) \<Rightarrow> nearline_config \<Rightarrow> nearline_dir \<Rightarrow>
   string list \<Rightarrow> (string \<times> (log_stream \<times> string) list) option" where
  "report_submit env rp held sb from_json cfg d args =
     (case args of
        [] \<Rightarrow> Some (''report submit: missing/bad line_id'' @ crlf @ prompt_end, [])
      | a # args \<Rightarrow>
          (case line_id_decode a of
             None \<Rightarrow> Some (''report submit: missing/bad line_id'' @ crlf @ prompt_end, [])
           | Some i \<Rightarrow>
               (case normalize_report_reason (case args of [] \<Rightarrow> [] | r # _ \<Rightarrow> r) of
                  None \<Rightarrow>
                    Some (''report submit: bad reason'' @ crlf @ ''use: report reasons'' @ crlf @ prompt_end, [])
                | Some reason \<Rightarrow>
                    (let note = clamp_chars (join_with '' '' (tl args)) report_note_max_chars in
                     (case sb_find_with_context i report_context_lines sb of
                        Some (target, context) \<Rightarrow>
                          report_file env rp held i reason note True (sl_ts_unix_ms target)
                            (sl_text target) (map hot_row context)
                      | None \<Rightarrow>
                          (case nl_find_with_context from_json cfg d (rp_name rp) (line_id_encode i)
                                  report_context_lines of
                             Some (target, context) \<Rightarrow>
                               report_file env rp held i reason note False (nr_ts_unix_ms target)
                                 (nr_text target)
                                 (map (\<lambda>r. (nr_id r, nr_ts_unix_ms r, nr_text r)) context)
                           | None \<Rightarrow>
                               Some (''report submit: unknown line_id '' @ line_id_encode i @ crlf @ prompt_end, [])))))))"

definition handle_report_command ::
  "report_env \<Rightarrow> reporter \<Rightarrow> hold_cache \<Rightarrow> scrollback option \<Rightarrow>
   (string \<Rightarrow> nearline_record option) \<Rightarrow> nearline_config \<Rightarrow> nearline_dir \<Rightarrow>
   string \<Rightarrow> (string \<times> (log_stream \<times> string) list) option" where
  "handle_report_command env rp holds session from_json cfg d line =
     (case session of
        None \<Rightarrow> Some (''report: not attached'' @ crlf @ ''> '', [])
      | Some sb \<Rightarrow>
          (let it = drop 1 (split_whitespace line);
               sub = (case it of [] \<Rightarrow> [] | w # _ \<Rightarrow> to_ascii_lowercase w);
               args = drop 1 it;
               held = (is_held holds (rp_name rp) \<noteq> None)
           in
             if sub = [] then Some (report_usage_text, [])
             else if sub = ''reasons'' then Some (report_reasons_text, [])
             else if sub = ''last'' then
               (let n = (case args of [] \<Rightarrow> report_last_default
                         | a # _ \<Rightarrow> (case parse_uint u64_max a of None \<Rightarrow> report_last_default | Some n \<Rightarrow> n));
                    n = max 1 (min n report_last_max);
                    hot = sb_last_n n sb
                in map_option (\<lambda>s. (s, []))
                     (report_last env held n hot (nl_last_n from_json cfg d (rp_name rp) n)))
             else if sub = ''search'' then
               (let q = trim (join_with '' '' args) in
                if q = [] then Some (''report search: missing text'' @ crlf @ prompt_end, [])
                else map_option (\<lambda>s. (s, []))
                       (report_search env held q (sb_search q report_search_limit sb)
                         (nl_search from_json cfg d (rp_name rp) q report_search_limit)))
             else if sub = ''locate'' then
               (case args of
                  [] \<Rightarrow> Some (''report locate: missing/bad line_id'' @ crlf @ prompt_end, [])
                | a # _ \<Rightarrow>
                    (case line_id_decode a of
                       None \<Rightarrow> Some (''report locate: missing/bad line_id'' @ crlf @ prompt_end, [])
                     | Some i \<Rightarrow> Some (report_locate env (rp_name rp) i, [])))
             else if sub = ''submit'' then report_submit env rp held sb from_json cfg d args
             else Some (report_usage_text, [])))"

section \<open>What is written\<close>

definition report_result :: "reporter \<Rightarrow> string \<times> (log_stream \<times> string) list \<Rightarrow> bool" where
  "report_result rp r = (case r of (answer, logs) \<Rightarrow>
     if prefix ''report submitted:'' answer
     then \<exists>entry. logs = [(LsReports, entry), (LsAll, entry)] @ log_to_character (rp_name rp) entry
     else logs = [])"

lemma refused: "\<not> prefix ''report submitted:'' answer \<Longrightarrow> report_result rp (answer, [])"
  by (simp add: report_result_def)

lemma report_file_result:
  assumes "report_file env rp held i reason note is_hot ts target context = Some r"
  shows "report_result rp r"
  using assms by (auto simp: report_file_def report_result_def Let_def split: option.splits)

lemma report_submit_result:
  assumes "report_submit env rp held sb from_json cfg d args = Some r"
  shows "report_result rp r"
  using assms
  by (simp add: report_submit_def Let_def split: list.splits option.splits prod.splits if_splits)
    (auto intro!: refused intro: report_file_result)

lemma report_last_result: "map_option (\<lambda>s. (s, [])) (report_last env held n hot disk) = Some r \<Longrightarrow> report_result rp r"
  by (auto simp: report_last_def report_result_def split: option.splits)

lemma report_search_result: "map_option (\<lambda>s. (s, [])) (report_search env held q hot disk) = Some r \<Longrightarrow> report_result rp r"
  by (auto simp: report_search_def report_result_def Let_def split: option.splits)

lemma report_texts_result:
  "report_result rp (report_usage_text, [])" "report_result rp (report_reasons_text, [])"
  "report_result rp (report_locate env name i, [])"
  by (simp_all add: report_result_def report_usage_text_def report_reasons_text_def report_locate_def Let_def)

lemma report_answers:
  assumes "handle_report_command env rp holds session from_json cfg d line = Some r"
  shows "report_result rp r"
proof (cases session)
  case None
  with assms show ?thesis by (auto simp: handle_report_command_def report_result_def)
next
  case (Some sb)
  show ?thesis
    using assms unfolding handle_report_command_def Some option.case Let_def
    by (simp split: if_splits list.splits option.splits)
      (auto intro: report_texts_result report_submit_result report_last_result report_search_result refused)
qed

section \<open>What is listed\<close>

lemma alphabet_digits:
  assumes "\<And>d. d \<in> set ds \<Longrightarrow> d < 32"
  shows "map (\<lambda>c. the (line_digit (ascii_lower c))) (map ((!) line_id_alphabet) ds) = ds"
  unfolding map_map
proof (rule map_idI)
  fix d assume "d \<in> set ds"
  show "((\<lambda>c. the (line_digit (ascii_lower c))) \<circ> (!) line_id_alphabet) d = d"
    unfolding comp_apply alphabet_digit(1) [OF assms [OF \<open>d \<in> set ds\<close>]] by (rule option.sel)
qed

lemma map_line_digits: "map (\<lambda>c. the (line_digit (ascii_lower c))) (line_id_encode i) = base32 13 (unat (line_id_word i))"
  unfolding line_id_encode_def encode_digits_base32 by (rule alphabet_digits) (rule base32_less)

lemma line_id_encode_inj: "line_id_encode i = line_id_encode j \<longleftrightarrow> i = j"
proof
  assume eq: "line_id_encode i = line_id_encode j"
  have fits: "unat (line_id_word k) < 32 ^ 13" for k
    by (rule less_le_trans [OF unsigned_less]) simp
  have read: "radix 32 (map (\<lambda>c. the (line_digit (ascii_lower c))) (line_id_encode k)) = unat (line_id_word k)" for k
    unfolding map_line_digits by (rule radix_base32 [OF fits])
  have "unat (line_id_word i) = unat (line_id_word j)"
    unfolding read [symmetric] eq ..
  then have "line_id_word i = line_id_word j" unfolding word_unat_eq_iff .
  then show "i = j" by (cases i, cases j) simp
qed (rule arg_cong)

text \<open>What a player was shown, oldest first, and the record the disk keeps of one of its lines.\<close>

definition shown_row :: "line_id \<times> nat \<times> string \<Rightarrow> report_row" where
  "shown_row l = (case l of (i, ts, t) \<Rightarrow> (line_id_encode i, ts, t))"

definition row_of :: "nearline_record \<Rightarrow> report_row" where
  "row_of r = (nr_id r, nr_ts_unix_ms r, nr_text r)"

lemma those_disk_rows: "those (map (disk_row False) rs) = Some (map row_of rs)"
  by (induction rs) (simp_all add: disk_row_def row_of_def)

lemma report_last_rows_older:
  assumes "\<not> n \<le> length hot"
  shows "report_last_rows False n hot disk =
    (let older = map row_of (filter (\<lambda>r. nr_id r \<notin> set (map (\<lambda>l. line_id_encode (sl_id l)) hot)) disk)
     in Some (drop (length older - (n - length hot)) older @ map hot_row hot))"
  unfolding report_last_rows_def those_disk_rows Let_def if_not_P [OF assms] option.case ..

lemma newest_map: "newest n (map f xs) = map f (newest n xs)"
  by (simp add: newest_def drop_map)

lemma sb_last_n_newest: "sb_last_n n sb = newest n (sb_lines sb)"
  by (cases "n \<le> length (sb_lines sb)") (simp_all add: sb_last_n_def newest_alt)

lemma newest_min: "newest (min n (length h)) h = newest n h"
  by (cases "n \<le> length h") (simp_all add: newest_def min_absorb1 min_absorb2)

lemma newest_drop: "newest n (drop k h) = drop (max k (length h - n)) h"
proof (cases "k \<le> length h")
  case True
  then have "length h - k - n + k = max k (length h - n)" by simp
  then show ?thesis by (simp add: newest_def)
qed (simp add: newest_def max_def)

lemma filter_own_drop: "filter (\<lambda>x. fst x \<notin> set (map fst ys)) (drop j ys) = []"
  by (auto simp: filter_empty_conv image_iff dest: in_set_dropD)

lemma newest_split:
  assumes "distinct (map fst h)" "c < n" "c \<le> length h"
  shows "filter (\<lambda>x. fst x \<notin> set (map fst (newest c h))) (newest n (drop k h)) @ newest c h
    = newest n (drop (min k (length h - c)) h)"
proof -
  let ?m = "max k (length h - n)"
  let ?old = "take (length h - c) h" and ?new = "drop (length h - c) h"
  have new: "newest c h = ?new" by (simp add: newest_def)
  have disj: "set (map fst ?old) \<inter> set (map fst ?new) = {}"
    using assms(1) distinct_append [of "map fst ?old" "map fst ?new"]
    by (metis append_take_drop_id map_append)
  have m: "newest n (drop k h) = drop ?m h" by (rule newest_drop)
  have cut: "drop ?m h = drop ?m ?old @ drop (?m - (length h - c)) ?new"
    using drop_append [of ?m ?old ?new] assms(3) by (simp only: append_take_drop_id length_take) simp
  have "filter (\<lambda>x. fst x \<notin> set (map fst ?new)) (drop ?m ?old) = drop ?m ?old"
    using disj by (auto simp: filter_id_conv dest: in_set_dropD)
  moreover have "filter (\<lambda>x. fst x \<notin> set (map fst ?new)) (drop (?m - (length h - c)) ?new) = []"
    by (rule filter_own_drop)
  ultimately have "filter (\<lambda>x. fst x \<notin> set (map fst ?new)) (drop ?m h) = drop ?m ?old" unfolding cut by simp
  moreover have "newest n (drop (min k (length h - c)) h) = drop (min ?m (length h - c)) h"
    unfolding newest_drop using assms(2,3) by (auto simp: min_def max_def)
  moreover have "drop (min ?m (length h - c)) h = drop ?m ?old @ ?new"
  proof (cases "?m \<le> length h - c")
    case True
    have "h = ?old @ ?new" by simp
    then have "drop ?m h = drop ?m (?old @ ?new)" by simp
    also have "\<dots> = drop ?m ?old @ ?new" using True by (simp add: drop_append del: append_take_drop_id)
    finally show ?thesis using True by (simp add: min_absorb1)
  next
    case False
    then have le: "length h - c \<le> ?m" by (metis nat_le_linear)
    then have "drop ?m ?old = []" by (intro drop_all) (simp only: length_take min.coboundedI2)
    moreover have "min ?m (length h - c) = length h - c" using le by (rule min_absorb2)
    ultimately show ?thesis by (simp only: append_Nil)
  qed
  ultimately show ?thesis by (simp add: new m)
qed


text \<open>
  A report is either written or refused: an answer beginning \<open>report submitted:\<close> comes with one
  entry in the stream of reports, in the stream of everything and in the reporter's own, the same
  in all of them; every other answer of the command writes nothing.
\<close>
theorem report_written_or_refused:
  assumes "handle_report_command env rp holds session from_json cfg d line = Some (answer, logs)"
  shows "if prefix ''report submitted:'' answer
    then \<exists>entry. logs = [(LsReports, entry), (LsAll, entry)] @ log_to_character (rp_name rp) entry
    else logs = []"
  using report_answers [OF assms] by (simp add: report_result_def)

section \<open>Witnesses\<close>

definition demo_shown :: "(line_id \<times> nat \<times> string) list" where
  "demo_shown = [(LineId 1, 0, ''a''), (LineId 2, 0, ''b'')]"

definition demo_row_record :: "string \<Rightarrow> nearline_record" where
  "demo_row_record s = (demo_record s)\<lparr>nr_id := line_id_encode (if s = ''a'' then LineId 1 else LineId 2)\<rparr>"

definition demo_dir :: nearline_dir where
  "demo_dir = \<lparr>nd_meta = Some 0, nd_segs = [0 \<mapsto> [CHR ''a'', CHR 0x0A, CHR ''b'']]\<rparr>"

lemma demo_retained:
  "retained (\<lambda>s. Some (demo_row_record s)) nearline_config_default demo_dir
    = [demo_row_record ''a'', demo_row_record ''b'']"
proof -
  have "segment_lines demo_dir s = (if s = 0 then [''a'', ''b''] else [])" for s
    by (simp add: demo_dir_def segment_lines_def str_lines_def strip_cr_def utf8_lossy.simps utf8_piece_def utf8_tails_def)
  then show ?thesis
    by (simp add: retained_def segment_records_def map_filter_simps oldest_to_newest_cut read_cur_seg_def
        nc_segments_def nearline_config_default_def upt_conv_Cons demo_dir_def)
qed


definition demo_env :: report_env where
  "demo_env = \<lparr>re_hms = (\<lambda>_. ''00:00:00''), re_debug = id, re_date = (\<lambda>_. \<lparr>ud_year = 2024, ud_month = 1, ud_day = 1\<rparr>),
     re_rfc3339 = (\<lambda>_. []), re_spool_path = id, re_s3_key = (\<lambda>_. None), re_now_text = ''now'', re_now_unix = ''0''\<rparr>"

definition demo_reporter :: reporter where
  "demo_reporter = \<lparr>rp_session_hex = ''ff'', rp_peer_ip = [], rp_name = ''eve''\<rparr>"

lemma demo_words: "split_whitespace ''report submit 1 spam'' = [''report'', ''submit'', ''1'', ''spam'']"
  by code_simp

lemma demo_id: "line_id_decode ''1'' = Some (LineId 1)"
proof -
  have "trim ''1'' = ''1''" by code_simp
  then show ?thesis by (simp add: line_id_decode_def is_ascii_digit_def parse_uint_def u64_max_def)
qed

lemma demo_reason: "normalize_report_reason ''spam'' = Some ''spam''"
  by code_simp

lemma demo_found:
  "sb_find_with_context (LineId 1) report_context_lines (push_lines demo_shown (scrollback_new 5))
    = Some (\<lparr>sl_id = LineId 1, sl_ts_unix_ms = 0, sl_text = ''a''\<rparr>,
        [\<lparr>sl_id = LineId 1, sl_ts_unix_ms = 0, sl_text = ''a''\<rparr>, \<lparr>sl_id = LineId 2, sl_ts_unix_ms = 0, sl_text = ''b''\<rparr>])"
  by code_simp

theorem report_written_or_refused_witness:
  "\<exists>answer entry. handle_report_command demo_env demo_reporter hold_cache_new
      (Some (push_lines demo_shown (scrollback_new 5))) (\<lambda>_. None) nearline_config_default demo_dir
      ''report submit 1 spam''
    = Some (answer, [(LsReports, entry), (LsAll, entry), (LsCharacter ''eve'', entry)])"
proof -
  have lower: "to_ascii_lowercase ''submit'' = ''submit''" by code_simp
  have free: "is_held hold_cache_new n = None" for n by (simp add: is_held_def hold_cache_new_def Let_def)
  obtain answer logs where r: "handle_report_command demo_env demo_reporter hold_cache_new
      (Some (push_lines demo_shown (scrollback_new 5))) (\<lambda>_. None) nearline_config_default demo_dir
      ''report submit 1 spam'' = Some (answer, logs)" "prefix ''report submitted:'' answer"
    by (simp add: handle_report_command_def demo_words lower free report_submit_def demo_id demo_reason
        demo_found report_file_def redact_if_def Let_def)
  then show ?thesis
    using report_written_or_refused [OF r(1)] by (simp add: log_to_character_def demo_reporter_def trim_eve)
qed

end
