(* ===== verification/Accounts.thy ===== *)
theory Accounts
  imports LogText MudProto Rooms
begin

text \<open>
  The accounts of the broker (\<open>crates/slopmud/src/main.rs\<close>): the records and the file they are
  kept in, what the shard is told of an account, the saved characters it is matched with, and the
  command \<open>account\<close>. serde's texts are parameters, partial functions on the way in; hashing a
  password is argon2's and comes in with the connections.
\<close>

section \<open>Records and their file\<close>

record account_rec =
  ac_name :: string
  ac_pw_hash :: "string option"
  ac_google_sub :: "string option"
  ac_google_email :: "string option"
  ac_oidc_sub :: "string option"
  ac_oidc_email :: "string option"
  ac_caps :: "string list option"
  ac_email :: "string option"
  ac_created_unix :: nat

text \<open>The map in memory, and the text of the file, \<open>None\<close> when it cannot be read.\<close>

record accounts =
  as_by_name :: "string \<rightharpoonup> account_rec"
  as_file :: "string option"

definition accounts_load :: "(string \<Rightarrow> account_rec list option) \<Rightarrow> string option \<Rightarrow> accounts" where
  "accounts_load from_json f =
     \<lparr>as_by_name =
        (case f of
           None \<Rightarrow> Map.empty
         | Some s \<Rightarrow> (case from_json s of None \<Rightarrow> Map.empty | Some v \<Rightarrow> map_by_key ac_name v)),
      as_file = f\<rparr>"

definition accounts_save ::
  "((string \<Rightarrow> bool) \<Rightarrow> string list) \<Rightarrow> (account_rec list \<Rightarrow> string) \<Rightarrow> bool \<Rightarrow> accounts \<Rightarrow>
   bool \<times> accounts" where
  "accounts_save iter to_json io_ok a =
     (if io_ok then
        (True, a\<lparr>as_file := Some (to_json (sort_key ac_name (map_values iter (as_by_name a))))\<rparr>)
      else (False, a))"

definition accounts_insert :: "account_rec \<Rightarrow> accounts \<Rightarrow> accounts" where
  "accounts_insert r a = a\<lparr>as_by_name := (as_by_name a)(ac_name r \<mapsto> r)\<rparr>"

section \<open>What the shard is told\<close>

record shard_auth_blob =
  sb_acct :: string
  sb_method :: string
  sb_google_sub :: "string option"
  sb_google_email :: "string option"
  sb_oidc_sub :: "string option"
  sb_oidc_email :: "string option"
  sb_caps :: "string list option"

definition trimmed_opt :: "string option \<Rightarrow> string option" where
  "trimmed_opt s = (case s of None \<Rightarrow> None | Some s \<Rightarrow> if trim s = [] then None else Some (trim s))"

definition blob_caps :: "string list option \<Rightarrow> string list option" where
  "blob_caps caps =
     (case caps of
        None \<Rightarrow> None
      | Some v \<Rightarrow>
          (let v = take 32 (filter (\<lambda>s. s \<noteq> [] \<and> length s \<le> 64) (map norm_key v))
           in if v = [] then None else Some v))"

definition make_shard_auth_blob ::
  "string \<Rightarrow> string \<Rightarrow> string option \<Rightarrow> string option \<Rightarrow> string option \<Rightarrow> string option \<Rightarrow>
   string list option \<Rightarrow> shard_auth_blob" where
  "make_shard_auth_blob acct method google_sub google_email oidc_sub oidc_email caps =
     \<lparr>sb_acct = trim acct, sb_method = norm_key method,
      sb_google_sub = trimmed_opt google_sub, sb_google_email = trimmed_opt google_email,
      sb_oidc_sub = trimmed_opt oidc_sub, sb_oidc_email = trimmed_opt oidc_email,
      sb_caps = blob_caps caps\<rparr>"

section \<open>Saved characters\<close>

record saved_player =
  sv_name :: string
  sv_is_bot :: bool
  sv_race :: string
  sv_class :: string
  sv_sex :: string
  sv_pronouns :: string

definition load_saved_player ::
  "(string \<Rightarrow> saved_player list option) \<Rightarrow> string option \<Rightarrow> string \<Rightarrow> saved_player option" where
  "load_saved_player from_json f name =
     (let target = sanitize_name name in
      if target = [] then None
      else
        (case f of
           None \<Rightarrow> None
         | Some raw \<Rightarrow>
             (case from_json raw of
                None \<Rightarrow> None
              | Some ps \<Rightarrow> find (\<lambda>p. eq_ignore_ascii_case (sanitize_name (sv_name p)) target) ps)))"

text \<open>The texts found in the file until the time is over; it is looked at once at least.\<close>

fun wait_for_saved_player ::
  "(string \<Rightarrow> saved_player list option) \<Rightarrow> string option \<Rightarrow> string option list \<Rightarrow> string \<Rightarrow>
   saved_player option" where
  "wait_for_saved_player from_json f fs name =
     (case load_saved_player from_json f name of
        Some p \<Rightarrow> Some p
      | None \<Rightarrow> (case fs of [] \<Rightarrow> None | g # gs \<Rightarrow> wait_for_saved_player from_json g gs name))"

section \<open>The account command\<close>

definition prompt_two :: string where
  "prompt_two = crlf @ crlf @ ''> ''"

definition account_usage_text :: string where
  "account_usage_text =
     ''account:'' @ crlf @ ''use:'' @ crlf @ '' - account email'' @ crlf @
     '' - account email set <addr>'' @ crlf @ '' - account email clear'' @ prompt_two"

definition account_email_show :: "string \<Rightarrow> accounts \<Rightarrow> string" where
  "account_email_show name a =
     (let (email, google_email) =
            (case as_by_name a name of
               Some r \<Rightarrow> (ac_email r, ac_google_email r)
             | None \<Rightarrow> (None, None));
          or_none = (\<lambda>s. case s of None \<Rightarrow> ''(none)'' | Some s \<Rightarrow> s)
      in ''account email:'' @ crlf @
         '' - configured: '' @ or_none email @ crlf @
         '' - google: '' @ or_none google_email @ crlf @
         ''use:'' @ crlf @ '' - account email set <addr>'' @ crlf @
         '' - account email clear'' @ prompt_two)"

definition account_email_set ::
  "((string \<Rightarrow> bool) \<Rightarrow> string list) \<Rightarrow> (account_rec list \<Rightarrow> string) \<Rightarrow> bool \<Rightarrow>
   string \<Rightarrow> string \<Rightarrow> accounts \<Rightarrow> string \<times> accounts" where
  "account_email_set iter to_json io_ok name raw a =
     (case normalize_email raw of
        None \<Rightarrow> (''account email set: bad email (example: alice@example.com)'' @ prompt_two, a)
      | Some email \<Rightarrow>
          (case as_by_name a name of
             None \<Rightarrow> (''account: not found'' @ prompt_two, a)
           | Some r \<Rightarrow>
               (let changed = (ac_email r \<noteq> Some email);
                    a = a\<lparr>as_by_name := (as_by_name a)(name \<mapsto> r\<lparr>ac_email := Some email\<rparr>)\<rparr>
                in if changed then
                     (let (ok, a) = accounts_save iter to_json io_ok a in
                      if ok then (''ok: email set to '' @ email @ prompt_two, a)
                      else (''account email: failed to save'' @ prompt_two, a))
                   else (''ok: email already set to '' @ email @ prompt_two, a))))"

definition account_email_clear ::
  "((string \<Rightarrow> bool) \<Rightarrow> string list) \<Rightarrow> (account_rec list \<Rightarrow> string) \<Rightarrow> bool \<Rightarrow>
   string \<Rightarrow> accounts \<Rightarrow> string \<times> accounts" where
  "account_email_clear iter to_json io_ok name a =
     (case as_by_name a name of
        None \<Rightarrow> (''account: not found'' @ prompt_two, a)
      | Some r \<Rightarrow>
          if ac_email r = None then (''ok: email already clear'' @ prompt_two, a)
          else
            (let a = a\<lparr>as_by_name := (as_by_name a)(name \<mapsto> r\<lparr>ac_email := None\<rparr>)\<rparr>;
                 (ok, a) = accounts_save iter to_json io_ok a
             in if ok then (''ok: email cleared'' @ prompt_two, a)
                else (''account email: failed to save'' @ prompt_two, a)))"

definition handle_account_command ::
  "((string \<Rightarrow> bool) \<Rightarrow> string list) \<Rightarrow> (account_rec list \<Rightarrow> string) \<Rightarrow> bool \<Rightarrow>
   string \<Rightarrow> string \<Rightarrow> accounts \<Rightarrow> string \<times> accounts" where
  "handle_account_command iter to_json io_ok name line a =
     (let it = drop 1 (split_whitespace line);
          sub = (case it of [] \<Rightarrow> [] | w # _ \<Rightarrow> to_ascii_lowercase w);
          it = drop 1 it
      in if sub = ''email'' then
           (let action = (case it of [] \<Rightarrow> [] | w # _ \<Rightarrow> to_ascii_lowercase w) in
            if action \<in> {[], ''show''} then (account_email_show name a, a)
            else if action = ''set'' then
              account_email_set iter to_json io_ok name (join_with '' '' (drop 1 it)) a
            else if action \<in> {''clear'', ''unset'', ''remove''} then
              account_email_clear iter to_json io_ok name a
            else (account_usage_text, a))
         else (account_usage_text, a))"

end
