(* ===== verification/ConnState.thy ===== *)
theory ConnState
  imports Accounts Throttle BanList Report Telnet
begin

text \<open>
  A connection of the broker and what the connections share (\<open>crates/slopmud/src/main.rs\<close>):
  the variables of \<open>handle_conn\<close>, the maps behind the locks, and the steps its states have in
  common: saying something, refusing the banned, entering the world.

  What does not change during a run, the configuration and the functions of the libraries, is the
  record \<open>broker_lib\<close>; what differs from line to line, clocks, random bytes, answers of other
  processes and whether writing a file succeeds, is \<open>conn_env\<close>. Bytes for a client go to
  \<open>bk_sent\<close>, messages for the shard to \<open>bk_shard\<close>, lines of the event log to \<open>bk_log\<close>.
\<close>

section \<open>The state\<close>

datatype conn_state =
    NeedName | NeedAuthMethod | NeedPasswordCreate | NeedPasswordLogin | NeedGoogleWait
  | NeedBotDisclosure | NeedPublicAck | NeedCocAck | NeedRace | NeedClass | NeedSex
  | NeedPronouns | InWorld

datatype sso = Google | Oidc

text \<open>\<open>PendingAutoWebAuth\<close>: who signed in, the subject, the mail address, the capabilities.\<close>

record pending_web_auth =
  pw_sso :: sso
  pw_sub :: string
  pw_email :: "string option"
  pw_caps :: "string list option"

record oauth_pending =
  op_code :: string
  op_verifier :: string
  op_status :: string
  op_created_unix :: nat
  op_updated_unix :: "nat option"
  op_google_sub :: "string option"
  op_google_email :: "string option"
  op_error :: "string option"

record web_auth_req =
  wr_action :: string
  wr_method :: string
  wr_name :: string
  wr_password :: "string option"
  wr_google_sub :: "string option"
  wr_google_email :: "string option"
  wr_oidc_sub :: "string option"
  wr_oidc_email :: "string option"
  wr_caps :: "string list option"

record session_info =
  sx_name :: string
  sx_held :: bool
  sx_is_bot :: bool
  sx_auth :: "string option"
  sx_race :: string
  sx_class :: string
  sx_sex :: string
  sx_pronouns :: string
  sx_peer_ip :: ip_addr
  sx_scrollback :: scrollback

record shard_msg =
  sm_t :: u8
  sm_session :: session_id
  sm_body :: "u8 list"

record broker =
  bk_accounts :: accounts
  bk_throttle :: "ip_addr throttle"
  bk_bans :: ban_state
  bk_bans_file :: file_read
  bk_holds :: hold_cache
  bk_sessions :: "session_id \<rightharpoonup> session_info"
  bk_oauth :: "string \<rightharpoonup> string"
  bk_line_ids :: line_id_gen
  bk_sent :: "(session_id \<times> string) list"
  bk_dropped :: "session_id list"
  bk_log :: "(log_stream \<times> string) list"
  bk_shard :: "shard_msg list"
  bk_nearline :: "nearline_record list"

record client_conn =
  cn_session :: session_id
  cn_peer_ip :: ip_addr
  cn_peer_port :: nat
  cn_trusted :: bool
  cn_iac :: iac_parser
  cn_linebuf :: string
  cn_name :: "string option"
  cn_is_bot :: "bool option"
  cn_auth_method :: "string option"
  cn_auth_blob :: "string option"
  cn_google_sub :: "string option"
  cn_google_email :: "string option"
  cn_oidc_sub :: "string option"
  cn_oidc_email :: "string option"
  cn_pending :: "pending_web_auth option"
  cn_oauth_code :: "string option"
  cn_race :: "string option"
  cn_class :: "string option"
  cn_sex :: "string option"
  cn_pronouns :: "string option"
  cn_echo_off :: bool
  cn_state :: conn_state
  cn_proxy_checked :: bool

record broker_lib =
  lb_oidc_token_url :: "string option"
  lb_oidc_client_id :: "string option"
  lb_oidc_client_secret :: "string option"
  lb_google_auth_base_url :: string
  lb_locale :: string
  lb_started_unix :: nat
  lb_bind :: string
  lb_shard_addr :: string
  lb_iter :: "(string \<Rightarrow> bool) \<Rightarrow> string list"
  lb_session_iter :: "(session_id \<Rightarrow> bool) \<Rightarrow> session_id list"
  lb_show_ip :: "ip_addr \<Rightarrow> string"
  lb_parse_ip :: "string \<Rightarrow> ip_addr option"
  lb_verify :: "string \<Rightarrow> string \<Rightarrow> bool"
  lb_accounts_text :: "account_rec list \<Rightarrow> string"
  lb_blob_text :: "shard_auth_blob \<Rightarrow> string"
  lb_web_req :: "string \<Rightarrow> web_auth_req option"
  lb_oauth_read :: "string \<Rightarrow> oauth_pending option"
  lb_oauth_text :: "oauth_pending \<Rightarrow> string"
  lb_players_read :: "string \<Rightarrow> saved_player list option"
  lb_nearline_read :: "string \<Rightarrow> nearline_record option"
  lb_nearline_cfg :: nearline_config
  lb_nearline_on :: bool
  lb_nearline_capacity :: nat
  lb_bans_text :: "ban_list_file \<Rightarrow> string"

record conn_env =
  ce_instant :: nat
  ce_unix :: nat
  ce_unix_ms :: u64
  ce_ts :: string
  ce_hash :: "string \<Rightarrow> string option"
  ce_save_ok :: bool
  ce_players :: "string option"
  ce_players_later :: "string option list"
  ce_code_bytes :: "nat list"
  ce_verifier_bytes :: "nat list"
  ce_oauth_ok :: bool
  ce_up_s :: nat
  ce_sbc :: "admin_req \<Rightarrow> admin_resp option"
  ce_report :: report_env
  ce_nearline_dir :: nearline_dir

text \<open>
  How the handling of a line ends: on to the next line, the line is put back and read again, the
  reading loop is left, or the task ends with an error or a panic, without the cleaning up.
\<close>

datatype conn_flow = ConnGo | ConnReplay | ConnStop | ConnFail

type_synonym conn_result = "conn_flow \<times> client_conn \<times> broker"

section \<open>Saying and logging\<close>

definition tell :: "client_conn \<Rightarrow> string \<Rightarrow> broker \<Rightarrow> broker" where
  "tell c s b = b\<lparr>bk_sent := bk_sent b @ [(cn_session c, s)]\<rparr>"

definition say_go :: "string \<Rightarrow> client_conn \<Rightarrow> broker \<Rightarrow> conn_result" where
  "say_go s c b = (ConnGo, c, tell c s b)"

definition log_line :: "log_stream \<Rightarrow> string \<Rightarrow> broker \<Rightarrow> broker" where
  "log_line stream entry b = b\<lparr>bk_log := bk_log b @ [(stream, entry)]\<rparr>"

definition session_hex :: "session_id \<Rightarrow> string" where
  "session_hex s = hex_lower (map unat (session_to_be_bytes s))"

definition bytes_str :: "u8 list \<Rightarrow> string" where
  "bytes_str bs = map (\<lambda>w. char_of (unat w)) bs"

definition telnet_will :: "u8 \<Rightarrow> string" where
  "telnet_will opt = bytes_str [255, 251, opt]"

definition telnet_wont :: "u8 \<Rightarrow> string" where
  "telnet_wont opt = bytes_str [255, 252, opt]"

definition telnet_opt_echo :: u8 where "telnet_opt_echo = 1"

definition is_loopback :: "ip_addr \<Rightarrow> bool" where
  "is_loopback ip = (case ip of V4 a \<Rightarrow> drop_bit 24 a = 127 | V6 a \<Rightarrow> a = 1)"

definition has_oidc_webauth :: "broker_lib \<Rightarrow> bool" where
  "has_oidc_webauth L \<longleftrightarrow> lb_oidc_token_url L \<noteq> None \<and> lb_oidc_client_id L \<noteq> None
     \<and> lb_oidc_client_secret L \<noteq> None"

definition name_prompt :: string where "name_prompt = crlf @ ''name: ''"

definition auth_choices :: "broker_lib \<Rightarrow> string" where
  "auth_choices L =
     (if has_oidc_webauth L then
        ''auth method:'' @ crlf @ ''- password'' @ crlf @ ''- google'' @ crlf @ ''- slopsso'' @ crlf @
        ''type: password | google | slopsso'' @ crlf @ ''> ''
      else
        ''auth method:'' @ crlf @ ''- password'' @ crlf @ ''- google'' @ crlf @
        ''type: password | google'' @ crlf @ ''> '')"

definition auth_prompt :: "broker_lib \<Rightarrow> string" where
  "auth_prompt L = crlf @ auth_choices L"

definition auth_prompt_cancelled :: "broker_lib \<Rightarrow> string" where
  "auth_prompt_cancelled L = crlf @ ''cancelled'' @ crlf @ auth_choices L"

definition auth_prompt_invalid :: "broker_lib \<Rightarrow> string" where
  "auth_prompt_invalid L =
     (if has_oidc_webauth L then ''please type: password | google | slopsso'' @ crlf @ ''> ''
      else ''please type: password | google'' @ crlf @ ''> '')"

definition automation_prompt :: string where
  "automation_prompt =
     ''character creation (step 2/4)'' @ crlf @ ''are you using automation?'' @ crlf @
     ''type: human | bot'' @ crlf @ ''> ''"

section \<open>The banned\<close>

definition reject_ip_ban :: "broker_lib \<Rightarrow> conn_env \<Rightarrow> ip_ban \<Rightarrow> client_conn \<Rightarrow> broker \<Rightarrow> conn_result" where
  "reject_ip_ban L E ban c b =
     (let entry = log_entry [(''ts'', logfmt_str (ce_ts E)), (''kind'', ''reject_ip_ban''),
            (''session'', logfmt_str (session_hex (cn_session c))),
            (''ip'', logfmt_str (lb_show_ip L (cn_peer_ip c))), (''cidr'', logfmt_str (ib_cidr ban)),
            (''created_by'', logfmt_str (ib_created_by ban)), (''reason'', logfmt_str (ib_reason ban))]
      in (ConnStop, c, tell c (''banned'' @ crlf @ ''bye'' @ crlf) (log_line LsAll entry b)))"

definition reject_char_ban ::
  "broker_lib \<Rightarrow> conn_env \<Rightarrow> char_ban \<Rightarrow> string \<Rightarrow> client_conn \<Rightarrow> broker \<Rightarrow> conn_result" where
  "reject_char_ban L E ban name c b =
     (let entry = log_entry [(''ts'', logfmt_str (ce_ts E)), (''kind'', ''reject_char_ban''),
            (''session'', logfmt_str (session_hex (cn_session c))),
            (''ip'', logfmt_str (lb_show_ip L (cn_peer_ip c))), (''name'', logfmt_str name),
            (''created_by'', logfmt_str (cb_created_by ban)), (''reason'', logfmt_str (cb_reason ban))]
      in (ConnStop, c, tell c (''banned'' @ crlf @ ''bye'' @ crlf) (log_line LsAll entry b)))"

section \<open>Entering the world\<close>

definition session_log ::
  "string \<Rightarrow> string \<Rightarrow> broker \<Rightarrow> broker" where
  "session_log name entry b =
     log_line LsLogin entry (log_line (LsCharacter name) entry (log_line LsAll entry b))"

definition to_shard :: "u8 \<Rightarrow> session_id \<Rightarrow> u8 list \<Rightarrow> broker \<Rightarrow> broker" where
  "to_shard t session body b =
     b\<lparr>bk_shard := bk_shard b @ [\<lparr>sm_t = t, sm_session = session, sm_body = body\<rparr>]\<rparr>"

definition attach_authenticated_session ::
  "broker_lib \<Rightarrow> conn_env \<Rightarrow> client_conn \<Rightarrow> string \<Rightarrow> bool \<Rightarrow> string \<Rightarrow> string \<Rightarrow> string \<Rightarrow> string \<Rightarrow>
   string \<Rightarrow> string \<Rightarrow> broker \<Rightarrow> broker" where
  "attach_authenticated_session L E c name is_bot race class_s sex pronouns shard_auth auth_method b =
     (let session = cn_session c;
          held = (is_held (bk_holds b) name \<noteq> None);
          b = b\<lparr>bk_sessions := (bk_sessions b)(session \<mapsto>
                 \<lparr>sx_name = name, sx_held = held, sx_is_bot = is_bot, sx_auth = Some shard_auth,
                  sx_race = race, sx_class = class_s, sx_sex = sex, sx_pronouns = pronouns,
                  sx_peer_ip = cn_peer_ip c, sx_scrollback = scrollback_new scrollback_max_lines\<rparr>)\<rparr>;
          entry = log_entry [(''ts'', logfmt_str (ce_ts E)), (''kind'', ''login''),
            (''session'', logfmt_str (session_hex session)),
            (''ip'', logfmt_str (lb_show_ip L (cn_peer_ip c))), (''name'', logfmt_str name),
            (''bot'', logfmt_str (if is_bot then ''1'' else ''0'')),
            (''auth_method'', logfmt_str auth_method)];
          b = session_log name entry b;
          body = attach_body is_bot (Some (str_bytes shard_auth)) (str_bytes race) (str_bytes class_s)
            (str_bytes sex) (str_bytes pronouns) (str_bytes name)
      in to_shard REQ_ATTACH session body b)"

text \<open>
  Someone who has proved who they are enters with the character saved under the name, or goes on
  to make one; the prompt has an empty line before it in some of the places.
\<close>

definition opt_else :: "'a \<Rightarrow> 'a option \<Rightarrow> 'a" where
  "opt_else d x = (case x of None \<Rightarrow> d | Some v \<Rightarrow> v)"

definition enter_or_create ::
  "broker_lib \<Rightarrow> conn_env \<Rightarrow> string \<Rightarrow> string \<Rightarrow> client_conn \<Rightarrow> broker \<Rightarrow> conn_result" where
  "enter_or_create L E lead name c b =
     (case wait_for_saved_player (lb_players_read L) (ce_players E) (ce_players_later E) name of
        Some saved \<Rightarrow>
          (case cn_auth_blob c of
             None \<Rightarrow> (ConnFail, c, b)
           | Some shard_auth \<Rightarrow>
               (ConnGo, c\<lparr>cn_state := InWorld\<rparr>,
                attach_authenticated_session L E c name (sv_is_bot saved) (sv_race saved)
                  (sv_class saved) (sv_sex saved) (sv_pronouns saved) shard_auth
                  (opt_else ''unknown'' (cn_auth_method c)) b))
      | None \<Rightarrow>
          say_go (lead @ automation_prompt) (c\<lparr>cn_state := NeedBotDisclosure\<rparr>) b)"

text \<open>Keeping a new account: the map changes first, and failing to write it ends the connection.\<close>

definition add_account :: "broker_lib \<Rightarrow> conn_env \<Rightarrow> account_rec \<Rightarrow> broker \<Rightarrow> bool \<times> broker" where
  "add_account L E r b =
     (let (ok, a) = accounts_save (lb_iter L) (lb_accounts_text L) (ce_save_ok E)
            (accounts_insert r (bk_accounts b))
      in (ok, b\<lparr>bk_accounts := a\<rparr>))"

definition password_account :: "string \<Rightarrow> string \<Rightarrow> nat \<Rightarrow> account_rec" where
  "password_account name hash now =
     \<lparr>ac_name = name, ac_pw_hash = Some hash, ac_google_sub = None, ac_google_email = None,
      ac_oidc_sub = None, ac_oidc_email = None, ac_caps = None, ac_email = None,
      ac_created_unix = now\<rparr>"

definition sso_account :: "sso \<Rightarrow> string \<Rightarrow> string \<Rightarrow> string option \<Rightarrow> nat \<Rightarrow> account_rec" where
  "sso_account p name sub email now =
     (let none = \<lparr>ac_name = name, ac_pw_hash = None, ac_google_sub = None, ac_google_email = None,
            ac_oidc_sub = None, ac_oidc_email = None, ac_caps = None, ac_email = None,
            ac_created_unix = now\<rparr>
      in (case p of
            Google \<Rightarrow> none\<lparr>ac_google_sub := Some sub, ac_google_email := email\<rparr>
          | Oidc \<Rightarrow> none\<lparr>ac_oidc_sub := Some sub, ac_oidc_email := email\<rparr>))"

definition acct_sub :: "sso \<Rightarrow> account_rec \<Rightarrow> string option" where
  "acct_sub p r = (case p of Google \<Rightarrow> ac_google_sub r | Oidc \<Rightarrow> ac_oidc_sub r)"

definition acct_sso_email :: "sso \<Rightarrow> account_rec \<Rightarrow> string option" where
  "acct_sso_email p r = (case p of Google \<Rightarrow> ac_google_email r | Oidc \<Rightarrow> ac_oidc_email r)"

definition sso_text :: "sso \<Rightarrow> string" where
  "sso_text p = (case p of Google \<Rightarrow> ''google'' | Oidc \<Rightarrow> ''oidc'')"

definition sso_blob ::
  "sso \<Rightarrow> string \<Rightarrow> string \<Rightarrow> string option \<Rightarrow> string list option \<Rightarrow> shard_auth_blob" where
  "sso_blob p name sub email caps =
     (case p of
        Google \<Rightarrow> make_shard_auth_blob name ''google'' (Some sub) email None None caps
      | Oidc \<Rightarrow> make_shard_auth_blob name ''oidc'' None None (Some sub) email caps)"

text \<open>The variables a successful sign-in sets.\<close>

definition signed_in_sso ::
  "broker_lib \<Rightarrow> sso \<Rightarrow> string \<Rightarrow> string \<Rightarrow> string option \<Rightarrow> string list option \<Rightarrow> client_conn \<Rightarrow> client_conn" where
  "signed_in_sso L p name sub email caps c =
     (let c = (case p of
                 Google \<Rightarrow> c\<lparr>cn_google_sub := Some sub, cn_google_email := email\<rparr>
               | Oidc \<Rightarrow> c\<lparr>cn_oidc_sub := Some sub, cn_oidc_email := email\<rparr>)
      in c\<lparr>cn_auth_method := Some (sso_text p),
           cn_auth_blob := Some (lb_blob_text L (sso_blob p name sub email caps)),
           cn_name := Some name\<rparr>)"

definition signed_in_password ::
  "broker_lib \<Rightarrow> string \<Rightarrow> string list option \<Rightarrow> client_conn \<Rightarrow> client_conn" where
  "signed_in_password L name caps c =
     c\<lparr>cn_auth_method := Some ''password'',
       cn_auth_blob := Some (lb_blob_text L (make_shard_auth_blob name ''password'' None None None None caps)),
       cn_name := Some name\<rparr>"

end
