(* ===== verification/WebAuth.thy ===== *)
theory WebAuth
  imports ConnState
begin

text \<open>
  The state \<open>NeedName\<close> of a connection (\<open>handle_conn\<close> in \<open>crates/slopmud/src/main.rs\<close>): the
  header of a proxy, the bans, the sign-in that the web site asserts in a \<open>WEB_AUTH\<close> line, and
  the name that a player types, which may finish a sign-in begun on the web.

  The arms for Google and for the other identity provider are the same text over other kvs;
  here they are one definition over the provider, named once for each arm of the code.
\<close>

section \<open>The header of a proxy and the bans\<close>

definition proxy_header ::
  "broker_lib \<Rightarrow> conn_env \<Rightarrow> string \<Rightarrow> client_conn \<Rightarrow> broker \<Rightarrow> conn_result option" where
  "proxy_header L E line c b =
     (if \<not> cn_proxy_checked c \<and> is_loopback (cn_peer_ip c) \<and> prefix ''PROXY '' line then
        (case parse_proxy_line_v1 (lb_parse_ip L) line of
           None \<Rightarrow> None
         | Some (ip, port) \<Rightarrow>
             (let old_ip = cn_peer_ip c;
                  c = c\<lparr>cn_peer_ip := ip, cn_peer_port := port, cn_proxy_checked := True\<rparr>;
                  entry = log_entry [(''ts'', logfmt_str (ce_ts E)), (''kind'', ''proxy''),
                    (''session'', logfmt_str (session_hex (cn_session c))),
                    (''ip_old'', logfmt_str (lb_show_ip L old_ip)),
                    (''ip'', logfmt_str (lb_show_ip L ip)),
                    (''port'', logfmt_str (show_nat port))];
                  b = log_line LsAll entry b
              in Some (case is_ip_banned (bk_bans b) ip of
                         Some ban \<Rightarrow> reject_ip_ban L E ban c b
                       | None \<Rightarrow> (ConnGo, c, b))))
      else None)"

definition direct_ip_ban :: "client_conn \<Rightarrow> broker \<Rightarrow> ip_ban option" where
  "direct_ip_ban c b =
     (if cn_proxy_checked c then None else is_ip_banned (bk_bans b) (cn_peer_ip c))"

section \<open>A sign-in asserted by the web site\<close>

definition opt_text :: "string option \<Rightarrow> string" where
  "opt_text s = (case s of None \<Rightarrow> [] | Some s \<Rightarrow> s)"

definition req_sub :: "sso \<Rightarrow> web_auth_req \<Rightarrow> string" where
  "req_sub p q = trim (opt_text (case p of Google \<Rightarrow> wr_google_sub q | Oidc \<Rightarrow> wr_oidc_sub q))"

definition req_email :: "sso \<Rightarrow> web_auth_req \<Rightarrow> string option" where
  "req_email p q = (case p of Google \<Rightarrow> wr_google_email q | Oidc \<Rightarrow> wr_oidc_email q)"

text \<open>
  The checks of a method answer whether they went well; \<open>None\<close> is an error that ends the task.
\<close>

type_synonym web_check = "bool option \<times> client_conn \<times> broker"

definition web_refuse :: "string \<Rightarrow> client_conn \<Rightarrow> broker \<Rightarrow> web_check" where
  "web_refuse s c b = (Some False, c, tell c (''web_auth: '' @ s @ name_prompt) b)"

definition web_create_password ::
  "broker_lib \<Rightarrow> conn_env \<Rightarrow> web_auth_req \<Rightarrow> string \<Rightarrow> client_conn \<Rightarrow> broker \<Rightarrow> web_check" where
  "web_create_password L E q uname c b =
     (let pw = opt_text (wr_password q) in
      if length pw < 8 then web_refuse ''password too short (min 8)'' c b
      else if as_by_name (bk_accounts b) uname \<noteq> None then web_refuse ''name already taken'' c b
      else
        (case ce_hash E pw of
           None \<Rightarrow> (None, c, b)
         | Some hash \<Rightarrow>
             (let (ok, b) = add_account L E (password_account uname hash (ce_unix E)) b
              in if ok then (Some True, signed_in_password L uname (wr_caps q) c, b)
                 else (None, c, b))))"

definition web_login_password ::
  "broker_lib \<Rightarrow> web_auth_req \<Rightarrow> string \<Rightarrow> client_conn \<Rightarrow> broker \<Rightarrow> web_check" where
  "web_login_password L q uname c b =
     (case as_by_name (bk_accounts b) uname of
        None \<Rightarrow> web_refuse ''account not found'' c b
      | Some r \<Rightarrow>
          (case ac_pw_hash r of
             None \<Rightarrow> web_refuse ''account has no password set'' c b
           | Some hash \<Rightarrow>
               if lb_verify L (opt_text (wr_password q)) hash
               then (Some True, signed_in_password L uname (ac_caps r) c, b)
               else web_refuse ''bad password'' c b))"

definition web_sso ::
  "sso \<Rightarrow> broker_lib \<Rightarrow> conn_env \<Rightarrow> web_auth_req \<Rightarrow> string \<Rightarrow> string \<Rightarrow> client_conn \<Rightarrow> broker \<Rightarrow> web_check" where
  "web_sso p L E q action uname c b =
     (let sub = req_sub p q; email = req_email p q in
      if sub = [] then web_refuse (''missing '' @ sso_text p @ ''_sub'') c b
      else
        (case (action = ''login'' \<or> action = ''auto'', as_by_name (bk_accounts b) uname) of
           (True, None) \<Rightarrow> web_refuse ''account not found'' c b
         | (True, Some r) \<Rightarrow>
             if acct_sub p r \<noteq> Some sub then
               web_refuse (''account not linked to '' @ sso_text p) c b
             else
               (let email = (case acct_sso_email p r of None \<Rightarrow> email | Some e \<Rightarrow> Some e)
                in (Some True, signed_in_sso L p uname sub email (wr_caps q) c, b))
         | (False, Some r) \<Rightarrow> web_refuse ''name already taken'' c b
         | (False, None) \<Rightarrow>
             (let (ok, b) = add_account L E (sso_account p uname sub email (ce_unix E)) b
              in if ok then (Some True, signed_in_sso L p uname sub email (wr_caps q) c, b)
                 else (None, c, b))))"

definition web_google ::
  "broker_lib \<Rightarrow> conn_env \<Rightarrow> web_auth_req \<Rightarrow> string \<Rightarrow> string \<Rightarrow> client_conn \<Rightarrow> broker \<Rightarrow> web_check" where
  "web_google = web_sso Google"

definition web_oidc ::
  "broker_lib \<Rightarrow> conn_env \<Rightarrow> web_auth_req \<Rightarrow> string \<Rightarrow> string \<Rightarrow> client_conn \<Rightarrow> broker \<Rightarrow> web_check" where
  "web_oidc = web_sso Oidc"

definition web_check_method ::
  "broker_lib \<Rightarrow> conn_env \<Rightarrow> web_auth_req \<Rightarrow> string \<Rightarrow> string \<Rightarrow> string \<Rightarrow> client_conn \<Rightarrow> broker \<Rightarrow> web_check" where
  "web_check_method L E q action method uname c b =
     (if action = ''create'' \<and> method = ''password'' then web_create_password L E q uname c b
      else if action = ''login'' \<and> method = ''password'' then web_login_password L q uname c b
      else if action \<in> {''create'', ''login'', ''auto''} \<and> method = ''google'' then
        web_google L E q action uname c b
      else if action \<in> {''create'', ''login'', ''auto''} \<and> method = ''oidc'' then
        web_oidc L E q action uname c b
      else web_refuse ''unsupported action/method'' c b)"

definition web_auth_as ::
  "broker_lib \<Rightarrow> conn_env \<Rightarrow> web_auth_req \<Rightarrow> string \<Rightarrow> string \<Rightarrow> string \<Rightarrow> client_conn \<Rightarrow> broker \<Rightarrow> conn_result" where
  "web_auth_as L E q action method uname c b =
     (if uname = [] then
        say_go (''web_auth: bad name (use letters/numbers/_/-, max 20)'' @ name_prompt) c b
      else
        (case is_char_banned (bk_bans b) uname of
           Some ban \<Rightarrow> reject_char_ban L E ban uname c b
         | None \<Rightarrow>
             (case web_check_method L E q action method uname c b of
                (None, c, b) \<Rightarrow> (ConnFail, c, b)
              | (Some False, c, b) \<Rightarrow> (ConnGo, c, b)
              | (Some True, c, b) \<Rightarrow> enter_or_create L E crlf (opt_text (cn_name c)) c b)))"

definition linked_names :: "broker_lib \<Rightarrow> sso \<Rightarrow> string \<Rightarrow> accounts \<Rightarrow> string list" where
  "linked_names L p sub a =
     map ac_name (filter (\<lambda>r. acct_sub p r = Some sub) (map_values (lb_iter L) (as_by_name a)))"

definition web_auth_auto ::
  "broker_lib \<Rightarrow> conn_env \<Rightarrow> web_auth_req \<Rightarrow> sso \<Rightarrow> string \<Rightarrow> client_conn \<Rightarrow> broker \<Rightarrow> conn_result" where
  "web_auth_auto L E q p method c b =
     (let sub = req_sub p q in
      if sub = [] then say_go (''web_auth: missing '' @ sso_text p @ ''_sub'' @ name_prompt) c b
      else
        (case linked_names L p sub (bk_accounts b) of
           [] \<Rightarrow>
             (let pending = \<lparr>pw_sso = p, pw_sub = sub, pw_email = req_email p q, pw_caps = wr_caps q\<rparr>;
                  chosen = (case cn_name c of None \<Rightarrow> [] | Some n \<Rightarrow> sanitize_name n)
              in if chosen = [] then (ConnGo, c\<lparr>cn_pending := Some pending\<rparr>, b)
                 else
                   (case as_by_name (bk_accounts b) chosen of
                      Some r \<Rightarrow>
                        if acct_sub p r \<noteq> Some sub then
                          say_go (''name already taken'' @ name_prompt)
                            (c\<lparr>cn_pending := Some pending, cn_name := None, cn_state := NeedName\<rparr>) b
                        else web_auth_as L E q ''login'' method chosen c b
                    | None \<Rightarrow> web_auth_as L E q ''create'' method chosen c b))
         | [only] \<Rightarrow> web_auth_as L E q ''auto'' method only c b
         | _ \<Rightarrow> say_go (''web_auth: multiple linked accounts'' @ name_prompt) c b))"

definition web_auth_line ::
  "broker_lib \<Rightarrow> conn_env \<Rightarrow> string \<Rightarrow> client_conn \<Rightarrow> broker \<Rightarrow> conn_result" where
  "web_auth_line L E rest c b =
     (case lb_web_req L rest of
        None \<Rightarrow> say_go (''web_auth: bad json'' @ name_prompt) c b
      | Some q \<Rightarrow>
          (let action = norm_key (wr_action q); method = norm_key (wr_method q) in
           if action = ''auto'' \<and> method = ''google'' then web_auth_auto L E q Google method c b
           else if action = ''auto'' \<and> method = ''oidc'' then web_auth_auto L E q Oidc method c b
           else web_auth_as L E q action method (sanitize_name (wr_name q)) c b))"

section \<open>The name a player types\<close>

definition pending_sso ::
  "broker_lib \<Rightarrow> conn_env \<Rightarrow> sso \<Rightarrow> string \<Rightarrow> string option \<Rightarrow> string list option \<Rightarrow> string \<Rightarrow>
   client_conn \<Rightarrow> broker \<Rightarrow> conn_result" where
  "pending_sso L E p sub email caps n c b =
     (case as_by_name (bk_accounts b) n of
        Some r \<Rightarrow>
          if acct_sub p r \<noteq> Some sub then say_go (''name already taken'' @ name_prompt) c b
          else
            (let email = (case acct_sso_email p r of None \<Rightarrow> email | Some e \<Rightarrow> Some e);
                 c = (signed_in_sso L p n sub email caps c)\<lparr>cn_pending := None\<rparr>
             in enter_or_create L E crlf n c b)
      | None \<Rightarrow>
          (let (ok, b) = add_account L E (sso_account p n sub email (ce_unix E)) b
           in if ok then
                enter_or_create L E crlf n
                  ((signed_in_sso L p n sub email caps c)\<lparr>cn_pending := None\<rparr>) b
              else (ConnFail, c, b)))"

definition pending_google ::
  "broker_lib \<Rightarrow> conn_env \<Rightarrow> string \<Rightarrow> string option \<Rightarrow> string list option \<Rightarrow> string \<Rightarrow> client_conn \<Rightarrow> broker \<Rightarrow>
   conn_result" where
  "pending_google L E = pending_sso L E Google"

definition pending_oidc ::
  "broker_lib \<Rightarrow> conn_env \<Rightarrow> string \<Rightarrow> string option \<Rightarrow> string list option \<Rightarrow> string \<Rightarrow> client_conn \<Rightarrow> broker \<Rightarrow>
   conn_result" where
  "pending_oidc L E = pending_sso L E Oidc"

definition choose_name ::
  "broker_lib \<Rightarrow> conn_env \<Rightarrow> string \<Rightarrow> client_conn \<Rightarrow> broker \<Rightarrow> conn_result" where
  "choose_name L E line c b =
     (let n = sanitize_name line in
      if n = [] then say_go (''bad name (use letters/numbers/_/-, max 20)'' @ name_prompt) c b
      else
        (case is_char_banned (bk_bans b) n of
           Some ban \<Rightarrow> reject_char_ban L E ban n c b
         | None \<Rightarrow>
             (case cn_pending c of
                Some w \<Rightarrow>
                  (case pw_sso w of
                     Google \<Rightarrow> pending_google L E (pw_sub w) (pw_email w) (pw_caps w) n c b
                   | Oidc \<Rightarrow> pending_oidc L E (pw_sub w) (pw_email w) (pw_caps w) n c b)
              | None \<Rightarrow>
                  say_go (auth_prompt L) (c\<lparr>cn_name := Some n, cn_state := NeedAuthMethod\<rparr>) b)))"

definition need_name ::
  "broker_lib \<Rightarrow> conn_env \<Rightarrow> string \<Rightarrow> client_conn \<Rightarrow> broker \<Rightarrow> conn_result" where
  "need_name L E line_bytes c b =
     (let line = trim (utf8_lossy line_bytes) in
      if line = [] then (ConnGo, c, b)
      else
        (case proxy_header L E line c b of
           Some r \<Rightarrow> r
         | None \<Rightarrow>
             (let banned = direct_ip_ban c b; c = c\<lparr>cn_proxy_checked := True\<rparr> in
              case banned of
                Some ban \<Rightarrow> reject_ip_ban L E ban c b
              | None \<Rightarrow>
                  (case (if cn_trusted c then strip_prefix ''WEB_AUTH '' line else None) of
                     Some rest \<Rightarrow> web_auth_line L E rest c b
                   | None \<Rightarrow> choose_name L E line c b))))"

end
