(* ===== verification/Login.thy ===== *)
theory Login
  imports WebAuth
begin

text \<open>
  The states of a connection from the choice of a method to the last question of a new character
  (\<open>handle_conn\<close> in \<open>crates/slopmud/src/main.rs\<close>). A password is handled as the bytes that came
  in; nothing of it is said, logged or kept but the hash.
\<close>

section \<open>The method\<close>

definition starts_web_auth :: "string \<Rightarrow> bool" where
  "starts_web_auth line_bytes \<longleftrightarrow> utf8_valid line_bytes \<and> prefix ''WEB_AUTH '' line_bytes"

definition choose_password ::
  "broker_lib \<Rightarrow> account_rec option \<Rightarrow> client_conn \<Rightarrow> broker \<Rightarrow> conn_result" where
  "choose_password L rec c b =
     (let c = c\<lparr>cn_auth_method := Some ''password''\<rparr> in
      case rec of
        Some r \<Rightarrow>
          if ac_pw_hash r = None then
            say_go (if has_oidc_webauth L then ''account has no password; use google or slopsso'' @ crlf @ ''> ''
                    else ''account has no password; use google'' @ crlf @ ''> '') c b
          else
            say_go (telnet_will telnet_opt_echo @ ''password (never logged/echoed): '')
              (c\<lparr>cn_echo_off := True, cn_state := NeedPasswordLogin\<rparr>) b
      | None \<Rightarrow>
          say_go (telnet_will telnet_opt_echo @ ''set password (never logged/echoed; min 8 chars): '')
            (c\<lparr>cn_echo_off := True, cn_state := NeedPasswordCreate\<rparr>) b)"

definition choose_google ::
  "broker_lib \<Rightarrow> conn_env \<Rightarrow> account_rec option \<Rightarrow> client_conn \<Rightarrow> broker \<Rightarrow> conn_result" where
  "choose_google L E rec c b =
     (let c = c\<lparr>cn_auth_method := Some ''google''\<rparr> in
      if (case rec of None \<Rightarrow> False | Some r \<Rightarrow> ac_google_sub r = None) then
        say_go (''account not linked to google; use password'' @ crlf @ ''> '') c b
      else if \<not> ce_oauth_ok E then (ConnFail, c, b)
      else
        (let code = hex_lower (ce_code_bytes E);
             pending = \<lparr>op_code = code, op_verifier = hex_lower (ce_verifier_bytes E),
               op_status = ''pending'', op_created_unix = ce_unix E, op_updated_unix = None,
               op_google_sub = None, op_google_email = None, op_error = None\<rparr>;
             b = b\<lparr>bk_oauth := (bk_oauth b)(code \<mapsto> lb_oauth_text L pending)\<rparr>;
             url = trim_end_char (CHR ''/'') (lb_google_auth_base_url L) @ ''/auth/google?code='' @ code
         in say_go (''open this url in a browser to sign in:'' @ crlf @ ''  '' @ url @ crlf @
                ''then type: check'' @ crlf @ ''(or type: cancel)'' @ crlf @ ''> '')
              (c\<lparr>cn_oauth_code := Some code, cn_state := NeedGoogleWait\<rparr>) b))"

definition need_auth_method ::
  "broker_lib \<Rightarrow> conn_env \<Rightarrow> string \<Rightarrow> client_conn \<Rightarrow> broker \<Rightarrow> conn_result" where
  "need_auth_method L E line_bytes c b =
     (if cn_trusted c \<and> starts_web_auth line_bytes then (ConnReplay, c\<lparr>cn_state := NeedName\<rparr>, b)
      else
        (let line = norm_key (utf8_lossy line_bytes) in
         if line = [] then (ConnGo, c, b)
         else
           (case cn_name c of
              None \<Rightarrow> (ConnFail, c, b)
            | Some uname \<Rightarrow>
                (let rec = as_by_name (bk_accounts b) uname in
                 if line = ''password'' then choose_password L rec c b
                 else if line = ''google'' then choose_google L E rec c b
                 else if line \<in> {''oidc'', ''slopsso''} then
                   say_go (if has_oidc_webauth L
                           then ''slopsso is web-client-only; open the web auth gate'' @ crlf @ ''> ''
                           else ''please type: password | google'' @ crlf @ ''> '') c b
                 else say_go (auth_prompt_invalid L) c b))))"

section \<open>Waiting for Google\<close>

definition oauth_remove :: "string \<Rightarrow> broker \<Rightarrow> broker" where
  "oauth_remove code b = b\<lparr>bk_oauth := (bk_oauth b)(code := None)\<rparr>"

text \<open>The status file says \<open>ok\<close>: the name is bound to the subject, or was before.\<close>

definition google_checked ::
  "broker_lib \<Rightarrow> conn_env \<Rightarrow> string \<Rightarrow> oauth_pending \<Rightarrow> client_conn \<Rightarrow> broker \<Rightarrow> conn_result" where
  "google_checked L E code p c b =
     (let sub = opt_text (op_google_sub p); email = op_google_email p in
      if sub = [] then say_go (''oauth missing sub'' @ crlf @ ''> '') c b
      else
        (let c = c\<lparr>cn_google_sub := Some sub, cn_google_email := email\<rparr> in
         case cn_name c of
           None \<Rightarrow> (ConnFail, c, b)
         | Some uname \<Rightarrow>
             (let enter = (\<lambda>b. enter_or_create L E crlf uname
                    (c\<lparr>cn_auth_blob := Some (lb_blob_text L (sso_blob Google uname sub email None)),
                       cn_oauth_code := None\<rparr>) (oauth_remove code b))
              in (case as_by_name (bk_accounts b) uname of
                    Some r \<Rightarrow>
                      if ac_google_sub r \<noteq> Some sub then
                        (ConnStop, c, tell c (''name already taken'' @ crlf @ ''bye'' @ crlf) b)
                      else enter b
                  | None \<Rightarrow>
                      (let (ok, b) = add_account L E (sso_account Google uname sub email (ce_unix E)) b
                       in if ok then enter b else (ConnFail, c, b))))))"

definition google_check ::
  "broker_lib \<Rightarrow> conn_env \<Rightarrow> string \<Rightarrow> client_conn \<Rightarrow> broker \<Rightarrow> conn_result" where
  "google_check L E code c b =
     (let again = c\<lparr>cn_oauth_code := None, cn_state := NeedAuthMethod\<rparr> in
      case bk_oauth b code of
        None \<Rightarrow> say_go (''still waiting'' @ crlf @ ''> '') c b
      | Some s \<Rightarrow>
          (case lb_oauth_read L s of
             None \<Rightarrow> say_go (''oauth file corrupted'' @ crlf @ ''> '') c b
           | Some p \<Rightarrow>
               if 15 * 60 < ce_unix E - op_created_unix p then
                 say_go (''oauth expired; try again'' @ crlf @ ''> '') again (oauth_remove code b)
               else if op_status p = ''pending'' then say_go (''still waiting'' @ crlf @ ''> '') c b
               else if op_status p = ''err'' then
                 say_go (opt_else ''oauth failed'' (op_error p) @ crlf @ ''> '') again (oauth_remove code b)
               else if op_status p \<noteq> ''ok'' then say_go (''oauth status unknown'' @ crlf @ ''> '') c b
               else google_checked L E code p c b))"

definition need_google_wait ::
  "broker_lib \<Rightarrow> conn_env \<Rightarrow> string \<Rightarrow> client_conn \<Rightarrow> broker \<Rightarrow> conn_result" where
  "need_google_wait L E line_bytes c b =
     (let line = norm_key (utf8_lossy line_bytes) in
      if line = [] then (ConnGo, c, b)
      else
        (case cn_oauth_code c of
           None \<Rightarrow> say_go (auth_prompt L) (c\<lparr>cn_state := NeedAuthMethod\<rparr>) b
         | Some code \<Rightarrow>
             if line = ''cancel'' then
               say_go (auth_prompt_cancelled L)
                 (c\<lparr>cn_oauth_code := None, cn_state := NeedAuthMethod\<rparr>) (oauth_remove code b)
             else if line = ''check'' then google_check L E code c b
             else say_go (''type: check | cancel'' @ crlf @ ''> '') c b))"

section \<open>Passwords\<close>

definition rate_limited :: "nat \<Rightarrow> string \<Rightarrow> client_conn \<Rightarrow> broker \<Rightarrow> conn_result" where
  "rate_limited wait prompt c b =
     say_go (crlf @ ''rate limit: retry in '' @ show_nat (wait_seconds wait) @ ''s'' @ crlf @
         (if cn_echo_off c then [] else telnet_will telnet_opt_echo) @ prompt)
       (c\<lparr>cn_echo_off := True\<rparr>) b"

definition echo_on :: "client_conn \<Rightarrow> broker \<Rightarrow> client_conn \<times> broker" where
  "echo_on c b =
     (if cn_echo_off c then (c\<lparr>cn_echo_off := False\<rparr>, tell c (telnet_wont telnet_opt_echo) b)
      else (c, b))"

definition refused_password ::
  "conn_env \<Rightarrow> string \<Rightarrow> string \<Rightarrow> string \<Rightarrow> client_conn \<Rightarrow> broker \<Rightarrow> conn_result" where
  "refused_password E why prompt uname c b =
     (let (delay, t) = note_failure (cn_peer_ip c) uname (ce_instant E) (bk_throttle b)
      in say_go (crlf @ why @ ''; retry in '' @ show_nat (wait_seconds delay) @ ''s'' @ crlf @
            telnet_will telnet_opt_echo @ prompt)
          (c\<lparr>cn_echo_off := True\<rparr>) (b\<lparr>bk_throttle := t\<rparr>))"

definition need_password_create ::
  "broker_lib \<Rightarrow> conn_env \<Rightarrow> string \<Rightarrow> client_conn \<Rightarrow> broker \<Rightarrow> conn_result" where
  "need_password_create L E line_bytes c b =
     (case cn_name c of
        None \<Rightarrow> (ConnFail, c, b)
      | Some uname \<Rightarrow>
          (let (wait, t) = throttle_wait (cn_peer_ip c) uname (ce_instant E) (bk_throttle b);
               b = b\<lparr>bk_throttle := t\<rparr>
           in if wait \<noteq> 0 then rate_limited wait ''set password (min 8 chars): '' c b
              else
                (let pw = trim_ascii_ws line_bytes; ok = (8 \<le> length pw); (c, b) = echo_on c b
                 in if \<not> ok then
                      refused_password E ''password too short'' ''set password (min 8 chars): '' uname c b
                    else
                      (let b = tell c crlf b in
                       case ce_hash E pw of
                         None \<Rightarrow> (ConnFail, c, b)
                       | Some hash \<Rightarrow>
                           (let (ok, b) = add_account L E (password_account uname hash (ce_unix E)) b
                            in if \<not> ok then (ConnFail, c, b)
                               else
                                 (let b = b\<lparr>bk_throttle := note_success (cn_peer_ip c) uname (bk_throttle b)\<rparr>;
                                      blob = make_shard_auth_blob uname ''password'' None None None None None;
                                      c = c\<lparr>cn_auth_blob := Some (lb_blob_text L blob)\<rparr>
                                  in enter_or_create L E [] uname c b))))))"

definition need_password_login ::
  "broker_lib \<Rightarrow> conn_env \<Rightarrow> string \<Rightarrow> client_conn \<Rightarrow> broker \<Rightarrow> conn_result" where
  "need_password_login L E line_bytes c b =
     (case cn_name c of
        None \<Rightarrow> (ConnFail, c, b)
      | Some uname \<Rightarrow>
          (let (wait, t) = throttle_wait (cn_peer_ip c) uname (ce_instant E) (bk_throttle b);
               b = b\<lparr>bk_throttle := t\<rparr>
           in if wait \<noteq> 0 then rate_limited wait ''password: '' c b
              else
                (let pw = trim_ascii_ws line_bytes;
                     (hash, caps) = (case as_by_name (bk_accounts b) uname of
                        Some r \<Rightarrow> (ac_pw_hash r, ac_caps r)
                      | None \<Rightarrow> (None, None));
                     (c, b) = echo_on c b
                 in case hash of
                      None \<Rightarrow>
                        (ConnStop, c, tell c (crlf @ ''account has no password set'' @ crlf @ ''bye'' @ crlf) b)
                    | Some hash \<Rightarrow>
                        if \<not> lb_verify L pw hash then
                          refused_password E ''bad password'' ''password: '' uname c b
                        else
                          (let b = tell c crlf b;
                               b = b\<lparr>bk_throttle := note_success (cn_peer_ip c) uname (bk_throttle b)\<rparr>;
                               blob = make_shard_auth_blob uname ''password'' None None None None caps;
                               c = c\<lparr>cn_auth_blob := Some (lb_blob_text L blob)\<rparr>
                           in enter_or_create L E [] uname c b))))"

section \<open>A new character\<close>

definition broker_coc_items :: "string list" where
  "broker_coc_items =
     [''1. nothing illegal'',
      ''2. hard R for violence, hard PG for sex/nudity'',
      ''3. no soliciting'',
      ''4. anything you submit - consider it publicly licensed and publicly published'',
      ''5. don'' @ [CHR 0x27] @ ''t spam'',
      ''6. prioritize great experiences for humans'',
      ''7. don'' @ [CHR 0x27] @ ''t lie about being a bot'',
      ''8. zero privacy (except passwords): we will share logs with various folks and train our models on them'']"

definition race_tokens :: "string list" where
  "race_tokens = [''dragonborn'', ''dwarf'', ''elf'', ''gnome'', ''goliath'', ''halfling'', ''human'',
     ''orc'', ''tiefling'']"

definition class_tokens :: "string list" where
  "class_tokens = [''barbarian'', ''bard'', ''cleric'', ''druid'', ''fighter'', ''monk'', ''paladin'',
     ''ranger'', ''rogue'', ''sorcerer'', ''warlock'', ''wizard'']"

definition is_allowed_token :: "string \<Rightarrow> string list \<Rightarrow> bool" where
  "is_allowed_token s allowed \<longleftrightarrow> s \<in> set allowed"

text \<open>The two arms over the locale are the same.\<close>

definition normalize_pronouns :: "string \<Rightarrow> string \<Rightarrow> string option" where
  "normalize_pronouns locale s =
     (let lc = norm_key s in
      if lc = [] then None
      else if lc \<in> {''he'', ''him''} then Some ''he''
      else if lc \<in> {''she'', ''her''} then Some ''she''
      else if lc \<in> {''they'', ''them''} then Some ''they''
      else None)"

definition need_bot_disclosure :: "string \<Rightarrow> client_conn \<Rightarrow> broker \<Rightarrow> conn_result" where
  "need_bot_disclosure line_bytes c b =
     (let v = norm_key (utf8_lossy line_bytes);
          next = (\<lambda>is_bot. say_go
            (''character creation (step 3/4)'' @ crlf @ ''content + licensing:'' @ crlf @
             ''- anything you submit - consider it publicly licensed and publicly published'' @ crlf @
             ''- zero privacy: logs may be shared and used for training'' @ crlf @
             ''- exception: passwords are never logged/echoed; only password hashes are stored'' @ crlf @
             ''type: agree'' @ crlf @ ''> '')
            (c\<lparr>cn_is_bot := Some is_bot, cn_state := NeedPublicAck\<rparr>) b)
      in if v = [] then (ConnGo, c, b)
         else if v = ''human'' then next False
         else if v = ''bot'' then next True
         else say_go (''please type: human | bot'' @ crlf @ ''> '') c b)"

definition need_public_ack :: "string \<Rightarrow> client_conn \<Rightarrow> broker \<Rightarrow> conn_result" where
  "need_public_ack line_bytes c b =
     (let v = norm_key (utf8_lossy line_bytes) in
      if v = [] then (ConnGo, c, b)
      else if v \<noteq> ''agree'' then say_go (''type: agree'' @ crlf @ ''> '') c b
      else
        say_go (''character creation (step 4/4)'' @ crlf @ ''code of conduct:'' @ crlf @
            concat (map (\<lambda>li. li @ crlf) broker_coc_items) @ ''type: agree'' @ crlf @ ''> '')
          (c\<lparr>cn_state := NeedCocAck\<rparr>) b)"

definition need_coc_ack :: "string \<Rightarrow> client_conn \<Rightarrow> broker \<Rightarrow> conn_result" where
  "need_coc_ack line_bytes c b =
     (let v = norm_key (utf8_lossy line_bytes) in
      if v = [] then (ConnGo, c, b)
      else if v \<noteq> ''agree'' then say_go (''type: agree'' @ crlf @ ''> '') c b
      else
        say_go (''character creation (step 5/7)'' @ crlf @ ''choose race:'' @ crlf @
            ''type: race list | race <name>'' @ crlf @ ''> '')
          (c\<lparr>cn_state := NeedRace\<rparr>) b)"

definition need_race :: "string \<Rightarrow> client_conn \<Rightarrow> broker \<Rightarrow> conn_result" where
  "need_race line_bytes c b =
     (let line = norm_key (utf8_lossy line_bytes);
          token = trim (opt_else line (strip_prefix ''race '' line))
      in if line = [] then (ConnGo, c, b)
         else if line = ''race list'' \<or> line = ''list'' then
           say_go (''races:'' @ crlf @ concat (map (\<lambda>r. '' - '' @ r @ crlf) race_tokens) @ ''> '') c b
         else if \<not> is_allowed_token token race_tokens then
           say_go (''huh? (try: race list | race human)'' @ crlf @ ''> '') c b
         else
           say_go (''character creation (step 6/7)'' @ crlf @ ''choose class:'' @ crlf @
               ''type: class list | class <name>'' @ crlf @ ''> '')
             (c\<lparr>cn_race := Some token, cn_state := NeedClass\<rparr>) b)"

definition need_class :: "string \<Rightarrow> client_conn \<Rightarrow> broker \<Rightarrow> conn_result" where
  "need_class line_bytes c b =
     (let line = norm_key (utf8_lossy line_bytes);
          token = trim (opt_else line (strip_prefix ''class '' line))
      in if line = [] then (ConnGo, c, b)
         else if line = ''class list'' \<or> line = ''list'' then
           say_go (''classes:'' @ crlf @ concat (map (\<lambda>r. '' - '' @ r @ crlf) class_tokens) @ ''> '') c b
         else if \<not> is_allowed_token token class_tokens then
           say_go (''huh? (try: class list | class fighter)'' @ crlf @ ''> '') c b
         else
           say_go (''character creation (step 7/7)'' @ crlf @ ''sex:'' @ crlf @
               ''type: male | female | none | other'' @ crlf @ ''> '')
             (c\<lparr>cn_class := Some token, cn_state := NeedSex\<rparr>) b)"

text \<open>The last answer is given: the connection enters with what was chosen.\<close>

definition created_auth :: "broker_lib \<Rightarrow> string \<Rightarrow> client_conn \<Rightarrow> string" where
  "created_auth L n c =
     (case cn_auth_blob c of
        Some a \<Rightarrow> a
      | None \<Rightarrow> lb_blob_text L (make_shard_auth_blob n (opt_else ''unknown'' (cn_auth_method c))
            (cn_google_sub c) (cn_google_email c) (cn_oidc_sub c) (cn_oidc_email c) None))"

definition finish_creation ::
  "broker_lib \<Rightarrow> conn_env \<Rightarrow> client_conn \<Rightarrow> broker \<Rightarrow> conn_result" where
  "finish_creation L E c b =
     (let c = c\<lparr>cn_state := InWorld\<rparr> in
      case cn_name c of
        None \<Rightarrow> (ConnFail, c, b)
      | Some n \<Rightarrow>
          (ConnGo, c,
           attach_authenticated_session L E c n (opt_else False (cn_is_bot c))
             (opt_else ''human'' (cn_race c)) (opt_else ''fighter'' (cn_class c))
             (opt_else ''none'' (cn_sex c)) (opt_else ''they'' (cn_pronouns c))
             (created_auth L n c) (opt_else ''unknown'' (cn_auth_method c)) b))"

definition need_sex ::
  "broker_lib \<Rightarrow> conn_env \<Rightarrow> string \<Rightarrow> client_conn \<Rightarrow> broker \<Rightarrow> conn_result" where
  "need_sex L E line_bytes c b =
     (let line = norm_key (utf8_lossy line_bytes);
          chosen = (\<lambda>sex pronouns.
            finish_creation L E (c\<lparr>cn_sex := Some sex, cn_pronouns := Some pronouns\<rparr>) b)
      in if line = [] then (ConnGo, c, b)
         else if line = ''male'' then chosen ''male'' ''he''
         else if line = ''female'' then chosen ''female'' ''she''
         else if line = ''none'' then chosen ''none'' ''they''
         else if line = ''other'' then
           say_go (''pronouns (en): he | she | they'' @ crlf @ ''(type: he)'' @ crlf @ ''> '')
             (c\<lparr>cn_sex := Some ''other'', cn_state := NeedPronouns\<rparr>) b
         else say_go (''please type: male | female | none | other'' @ crlf @ ''> '') c b)"

end
