(* ===== verification/InGame.thy ===== *)
theory InGame
  imports Login
begin

text \<open>
  Lines of a connection in the world, and the loop around all its states (\<open>handle_conn\<close> and
  \<open>handle_accounthold_command\<close> in \<open>crates/slopmud/src/main.rs\<close>): the commands that the broker
  answers itself, the lines passed on to the shard, the bytes of a read cut into lines, and what
  is cleaned up at the end.
\<close>

section \<open>Legal holds\<close>

definition accounthold_usage_text :: string where
  "accounthold_usage_text =
     ''accounthold:'' @ crlf @ ''use:'' @ crlf @ '' - accounthold list'' @ crlf @
     '' - accounthold show <name>'' @ crlf @ '' - accounthold add <name> [reason...]'' @ crlf @
     '' - accounthold del <name>'' @ prompt_two"

definition set_held :: "string \<Rightarrow> bool \<Rightarrow> broker \<Rightarrow> broker" where
  "set_held name_lc held b =
     b\<lparr>bk_sessions := (\<lambda>s. map_option
         (\<lambda>si. if norm_key (sx_name si) = name_lc then si\<lparr>sx_held := held\<rparr> else si)
         (bk_sessions b s))\<rparr>"

definition accounthold_log ::
  "broker_lib \<Rightarrow> conn_env \<Rightarrow> client_conn \<Rightarrow> string \<Rightarrow> string \<Rightarrow> (string \<times> string) list \<Rightarrow> broker \<Rightarrow> broker" where
  "accounthold_log L E c actor action kvs b =
     (let entry = log_entry ([(''ts'', logfmt_str (ce_ts E)), (''kind'', ''accounthold''),
            (''action'', action), (''session'', logfmt_str (session_hex (cn_session c))),
            (''ip'', logfmt_str (lb_show_ip L (cn_peer_ip c))), (''actor'', logfmt_str actor)] @ kvs);
          b = log_line LsAll entry b
      in if trim actor = [] then b else log_line (LsCharacter actor) entry b)"

definition accounthold_list :: "broker_lib \<Rightarrow> broker \<Rightarrow> string" where
  "accounthold_list L b =
     (let entries = hold_snapshot (lb_iter L) (bk_holds b) in
      ''accounthold list:'' @ crlf @
      (if entries = [] then '' (none)'' @ crlf
       else concat (map (\<lambda>h. '' - '' @ lh_name_lc h @ '' (created_unix='' @ show_nat (lh_created_at_unix h) @
              '' by='' @ lh_created_by h @ '')'' @ crlf) entries)) @ crlf @ ''> '')"

definition accounthold_show :: "string \<Rightarrow> broker \<Rightarrow> string" where
  "accounthold_show raw b =
     (let nm = sanitize_name raw in
      if nm = [] then ''accounthold show: missing/bad name'' @ prompt_two
      else
        ''accounthold show:'' @ crlf @ '' - name: '' @ to_ascii_lowercase nm @ crlf @
        (case is_held (bk_holds b) nm of
           Some h \<Rightarrow>
             '' - held: 1'' @ crlf @ '' - created_unix: '' @ show_nat (lh_created_at_unix h) @ crlf @
             '' - created_by: '' @ lh_created_by h @ crlf @
             (if trim (lh_reason h) = [] then [] else '' - reason: '' @ lh_reason h @ crlf)
         | None \<Rightarrow> '' - held: 0'' @ crlf) @ crlf @ ''> '')"

definition accounthold_add ::
  "broker_lib \<Rightarrow> conn_env \<Rightarrow> string \<Rightarrow> string \<Rightarrow> string list \<Rightarrow> client_conn \<Rightarrow> broker \<Rightarrow> string \<times> broker" where
  "accounthold_add L E actor raw words c b =
     (let nm = sanitize_name raw in
      if nm = [] then (''accounthold add: missing/bad name'' @ prompt_two, b)
      else
        (let reason = clamp_chars (join_with '' '' words) 200;
             name_lc = to_ascii_lowercase nm;
             accept = (\<lambda>idx entry.
               (let changed = (is_held (bk_holds b) name_lc = None);
                    b = b\<lparr>bk_holds := hold_apply_upsert idx entry (bk_holds b)\<rparr>;
                    b = set_held name_lc True b;
                    b = accounthold_log L E c actor ''add''
                      [(''target'', logfmt_str name_lc), (''reason'', logfmt_str reason)] b
                in if changed then (''ok: account hold added for '' @ name_lc @ prompt_two, b)
                   else (''ok: account hold already present for '' @ name_lc @ prompt_two, b)))
         in (case ce_sbc E (UpsertLegalHold name_lc actor reason) of
               None \<Rightarrow> (''accounthold add: raft unavailable'' @ prompt_two, b)
             | Some (RespOkLegalHold idx entry) \<Rightarrow> accept idx entry
             | Some (RespOk idx) \<Rightarrow>
                 accept idx \<lparr>lh_name_lc = name_lc, lh_created_at_unix = ce_unix E,
                   lh_created_by = actor, lh_reason = reason\<rparr>
             | Some (RespError message) \<Rightarrow> (''accounthold add: rejected ('' @ message @ '')'' @ prompt_two, b)
             | Some _ \<Rightarrow> (''accounthold add: failed'' @ prompt_two, b))))"

definition accounthold_del ::
  "broker_lib \<Rightarrow> conn_env \<Rightarrow> string \<Rightarrow> string \<Rightarrow> client_conn \<Rightarrow> broker \<Rightarrow> string \<times> broker" where
  "accounthold_del L E actor raw c b =
     (let nm = sanitize_name raw in
      if nm = [] then (''accounthold del: missing/bad name'' @ prompt_two, b)
      else
        (let name_lc = to_ascii_lowercase nm in
         case ce_sbc E (DeleteLegalHold name_lc) of
           None \<Rightarrow> (''accounthold del: raft unavailable'' @ prompt_two, b)
         | Some (RespOk idx) \<Rightarrow>
             (let existed = (is_held (bk_holds b) name_lc \<noteq> None);
                  b = b\<lparr>bk_holds := hold_apply_delete idx name_lc (bk_holds b)\<rparr>;
                  b = set_held name_lc False b;
                  b = accounthold_log L E c actor ''del'' [(''target'', logfmt_str name_lc)] b
              in if existed then (''ok: account hold removed for '' @ name_lc @ prompt_two, b)
                 else (''ok: account hold not present for '' @ name_lc @ prompt_two, b))
         | Some (RespError message) \<Rightarrow> (''accounthold del: rejected ('' @ message @ '')'' @ prompt_two, b)
         | Some _ \<Rightarrow> (''accounthold del: failed'' @ prompt_two, b)))"

definition handle_accounthold_command ::
  "broker_lib \<Rightarrow> conn_env \<Rightarrow> string \<Rightarrow> string \<Rightarrow> client_conn \<Rightarrow> broker \<Rightarrow> string \<times> broker" where
  "handle_accounthold_command L E actor line c b =
     (if \<not> is_loopback (cn_peer_ip c) then (''accounthold: permission denied'' @ prompt_two, b)
      else
        (let it = drop 1 (split_whitespace line);
             sub = (case it of [] \<Rightarrow> [] | w # _ \<Rightarrow> to_ascii_lowercase w);
             it = drop 1 it;
             raw = (case it of [] \<Rightarrow> [] | w # _ \<Rightarrow> w)
         in if sub = ''list'' then (accounthold_list L b, b)
            else if sub \<in> {''show'', ''status''} then (accounthold_show raw b, b)
            else if sub \<in> {''add'', ''set'', ''hold''} then
              accounthold_add L E actor raw (drop 1 it) c b
            else if sub \<in> {''del'', ''remove'', ''release'', ''clear''} then
              accounthold_del L E actor raw c b
            else (accounthold_usage_text, b)))"

section \<open>A line in the world\<close>

definition broker_fmt_uptime :: "nat \<Rightarrow> string" where
  "broker_fmt_uptime secs =
     show_nat (secs div 86400) @ ''d '' @ show_nat (secs mod 86400 div 3600) @ ''h '' @
     show_nat (secs mod 3600 div 60) @ ''m '' @ show_nat (secs mod 60) @ ''s''"

definition broker_uptime_text :: "broker_lib \<Rightarrow> conn_env \<Rightarrow> string" where
  "broker_uptime_text L E =
     ''uptime:'' @ crlf @ '' - broker_wall_unix: '' @ show_nat (ce_unix E) @ crlf @
     '' - broker_started_unix: '' @ show_nat (lb_started_unix L) @ crlf @
     '' - broker_uptime: '' @ broker_fmt_uptime (ce_up_s E) @ crlf @
     '' - broker_bind: '' @ lb_bind L @ crlf @ '' - shard_addr: '' @ lb_shard_addr L @ crlf @
     '' - note: shard uptime/time via `uptime` (forwarded to shard)'' @ crlf"

definition conn_reporter :: "broker_lib \<Rightarrow> string \<Rightarrow> client_conn \<Rightarrow> reporter" where
  "conn_reporter L nm c =
     \<lparr>rp_session_hex = session_hex (cn_session c), rp_peer_ip = lb_show_ip L (cn_peer_ip c), rp_name = nm\<rparr>"

definition is_command :: "string \<Rightarrow> string \<Rightarrow> bool" where
  "is_command cmd lc \<longleftrightarrow> lc = cmd \<or> prefix (cmd @ '' '') lc"

definition conn_dispatch ::
  "broker_lib \<Rightarrow> conn_env \<Rightarrow> string \<Rightarrow> string \<Rightarrow> client_conn \<Rightarrow> broker \<Rightarrow> conn_result" where
  "conn_dispatch L E nm line c b =
     (let lc = to_ascii_lowercase line;
          forward = (\<lambda>b. (ConnGo, c, to_shard REQ_INPUT (cn_session c) (str_bytes line) b))
      in if lc \<in> {''exit'', ''quit''} then (ConnStop, c, tell c (''bye'' @ crlf) b)
         else if lc \<in> {''uptime broker'', ''uptime session''} then say_go (broker_uptime_text L E) c b
         else if lc = ''uptime'' then forward (tell c (broker_uptime_text L E) b)
         else if is_command ''report'' lc then
           (case handle_report_command (ce_report E) (conn_reporter L nm c) (bk_holds b)
                   (map_option sx_scrollback (bk_sessions b (cn_session c)))
                   (lb_nearline_read L) (lb_nearline_cfg L) (ce_nearline_dir E) line of
              None \<Rightarrow> (ConnFail, c, b)
            | Some (out, logs) \<Rightarrow> say_go out c (b\<lparr>bk_log := bk_log b @ logs\<rparr>))
         else if is_command ''accounthold'' lc then
           (let (out, b) = handle_accounthold_command L E nm line c b in say_go out c b)
         else if is_command ''account'' lc then
           (let (out, a) = handle_account_command (lb_iter L) (lb_accounts_text L) (ce_save_ok E)
                  nm line (bk_accounts b)
            in say_go out c (b\<lparr>bk_accounts := a\<rparr>))
         else forward b)"

definition conn_command ::
  "broker_lib \<Rightarrow> conn_env \<Rightarrow> string \<Rightarrow> client_conn \<Rightarrow> broker \<Rightarrow> conn_result" where
  "conn_command L E line_bytes c b =
     (let line = trim (utf8_lossy line_bytes) in
      if line = [] then (ConnGo, c, b)
      else
        (case cn_name c of
           None \<Rightarrow> (ConnGo, c, b)
         | Some nm \<Rightarrow>
             (let entry = log_entry [(''ts'', logfmt_str (ce_ts E)), (''kind'', ''input''),
                    (''session'', logfmt_str (session_hex (cn_session c))),
                    (''ip'', logfmt_str (lb_show_ip L (cn_peer_ip c))), (''name'', logfmt_str nm),
                    (''text'', logfmt_str (redact_input_for_logs line))];
                  b = log_line (LsCharacter nm) entry (log_line LsAll entry b)
              in conn_dispatch L E nm line c b)))"

text \<open>
  The last question: with the answer the connection enters, and without a sex, which never
  happens, the line would go on to be handled as one of the world.
\<close>

definition need_pronouns ::
  "broker_lib \<Rightarrow> conn_env \<Rightarrow> string \<Rightarrow> client_conn \<Rightarrow> broker \<Rightarrow> conn_result" where
  "need_pronouns L E line_bytes c b =
     (case normalize_pronouns (lb_locale L) (trim (utf8_lossy line_bytes)) of
        None \<Rightarrow> say_go (''huh? (pronouns: he | she | they)'' @ crlf @ ''> '') c b
      | Some key \<Rightarrow>
          (let c = c\<lparr>cn_pronouns := Some key\<rparr> in
           if cn_sex c = None then conn_command L E line_bytes c b else finish_creation L E c b))"

section \<open>The loop\<close>

definition conn_line ::
  "broker_lib \<Rightarrow> conn_env \<Rightarrow> string \<Rightarrow> client_conn \<Rightarrow> broker \<Rightarrow> conn_result" where
  "conn_line L E line_bytes c b =
     (case cn_state c of
        NeedName \<Rightarrow> need_name L E line_bytes c b
      | NeedAuthMethod \<Rightarrow> need_auth_method L E line_bytes c b
      | NeedPasswordCreate \<Rightarrow> need_password_create L E line_bytes c b
      | NeedPasswordLogin \<Rightarrow> need_password_login L E line_bytes c b
      | NeedGoogleWait \<Rightarrow> need_google_wait L E line_bytes c b
      | NeedBotDisclosure \<Rightarrow> need_bot_disclosure line_bytes c b
      | NeedPublicAck \<Rightarrow> need_public_ack line_bytes c b
      | NeedCocAck \<Rightarrow> need_coc_ack line_bytes c b
      | NeedRace \<Rightarrow> need_race line_bytes c b
      | NeedClass \<Rightarrow> need_class line_bytes c b
      | NeedSex \<Rightarrow> need_sex L E line_bytes c b
      | NeedPronouns \<Rightarrow> need_pronouns L E line_bytes c b
      | InWorld \<Rightarrow> conn_command L E line_bytes c b)"

lemma web_auth_no_replay:
  "fst (web_auth_as L E q action mth uname c b) \<noteq> ConnReplay"
  "fst (web_auth_line L E rest c b) \<noteq> ConnReplay"
proof -
  have *: "fst (web_auth_as L E q action mth uname c b) \<noteq> ConnReplay" for q action mth uname
    by (simp add: web_auth_as_def enter_or_create_def say_go_def reject_char_ban_def Let_def
        split: option.splits prod.splits bool.splits)
  then show "fst (web_auth_as L E q action mth uname c b) \<noteq> ConnReplay" .
  have "fst (web_auth_auto L E q p mth c b) \<noteq> ConnReplay" for q p mth
    using * by (simp add: web_auth_auto_def say_go_def Let_def split: list.splits option.splits)
  with * show "fst (web_auth_line L E rest c b) \<noteq> ConnReplay"
    by (simp add: web_auth_line_def say_go_def Let_def split: option.splits)
qed

definition goes_back :: "client_conn \<Rightarrow> conn_result \<Rightarrow> bool" where
  "goes_back c r \<longleftrightarrow> (fst r = ConnReplay \<longrightarrow> cn_state c = NeedAuthMethod \<and> cn_state (fst (snd r)) = NeedName)"

lemma enter_no_replay: "fst (enter_or_create L E lead name c b) \<noteq> ConnReplay"
  by (simp add: enter_or_create_def say_go_def split: option.splits)

lemma need_name_no_replay: "fst (need_name L E line c b) \<noteq> ConnReplay"
  by (simp add: need_name_def proxy_header_def choose_name_def pending_google_def pending_oidc_def pending_sso_def
      say_go_def reject_ip_ban_def reject_char_ban_def web_auth_no_replay enter_no_replay Let_def
      split: option.splits prod.splits sso.splits)

lemma password_no_replay:
  "fst (need_password_create L E line c b) \<noteq> ConnReplay"
  "fst (need_password_login L E line c b) \<noteq> ConnReplay"
  by (simp_all add: need_password_create_def need_password_login_def rate_limited_def refused_password_def
      say_go_def enter_no_replay Let_def split: option.splits prod.splits)

lemma google_no_replay: "fst (need_google_wait L E line c b) \<noteq> ConnReplay"
  by (simp add: need_google_wait_def google_check_def google_checked_def say_go_def enter_no_replay Let_def
      split: option.splits prod.splits)

lemma command_no_replay: "fst (conn_command L E line c b) \<noteq> ConnReplay"
  by (simp add: conn_command_def conn_dispatch_def say_go_def Let_def split: option.splits prod.splits)

lemma creation_no_replay:
  "fst (need_bot_disclosure line c b) \<noteq> ConnReplay" "fst (need_public_ack line c b) \<noteq> ConnReplay"
  "fst (need_coc_ack line c b) \<noteq> ConnReplay" "fst (need_race line c b) \<noteq> ConnReplay"
  "fst (need_class line c b) \<noteq> ConnReplay" "fst (need_sex L E line c b) \<noteq> ConnReplay"
  "fst (need_pronouns L E line c b) \<noteq> ConnReplay"
  by (simp_all add: need_bot_disclosure_def need_public_ack_def need_coc_ack_def need_race_def need_class_def
      need_sex_def need_pronouns_def finish_creation_def say_go_def command_no_replay Let_def split: option.splits)

lemma conn_line_replays: "goes_back c (conn_line L E line c b)"
  by (simp add: goes_back_def conn_line_def need_name_no_replay password_no_replay google_no_replay
      command_no_replay creation_no_replay split: conn_state.split)
    (simp add: need_auth_method_def choose_password_def choose_google_def say_go_def Let_def split: option.splits)

text \<open>
  All the lines of the buffer. Each gets the next environment; a line that is put back is read
  again in the state \<open>NeedName\<close>, which consumes it.
\<close>

function conn_lines ::
  "broker_lib \<Rightarrow> (nat \<Rightarrow> conn_env) \<Rightarrow> nat \<Rightarrow> client_conn \<Rightarrow> broker \<Rightarrow> string \<Rightarrow>
   conn_flow \<times> client_conn \<times> broker \<times> nat" where
  "conn_lines L envs k c b buf =
     (case try_pop_line buf of
        None \<Rightarrow> (ConnGo, c\<lparr>cn_linebuf := buf\<rparr>, b, k)
      | Some (line, rest) \<Rightarrow>
          if line = [] then conn_lines L envs k c b rest
          else
            (case conn_line L (envs k) line c b of
               (ConnGo, c', b') \<Rightarrow> conn_lines L envs (k + 1) c' b' rest
             | (ConnReplay, c', b') \<Rightarrow> conn_lines L envs (k + 1) c' b' (line @ [CHR 0x0A] @ rest)
             | (flow, c', b') \<Rightarrow> (flow, c'\<lparr>cn_linebuf := rest\<rparr>, b', k + 1)))"
  by pat_completeness auto
termination
proof (relation "measure (\<lambda>(L, envs, k, c, b, buf).
    2 * length buf + (if cn_state c = NeedAuthMethod then 1 else 0))", goal_cases)
  case (3 L envs k c b buf x line rest flow q c' b')
  then have "try_pop_line buf = Some (line, rest)" by simp
  then have "length rest < length buf" by (rule try_pop_line_shorter)
  then show ?case by simp
next
  case (4 L envs k c b buf x line rest flow q c' b')
  then have "try_pop_line buf = Some (line, rest)" by simp
  then have "length line + length rest < length buf" by (auto simp: line_cut_iff line_ends_def)
  moreover have "cn_state c = NeedAuthMethod \<and> cn_state c' = NeedName"
  proof -
    have "conn_line L (envs k) line c b = (ConnReplay, c', b')"
      unfolding 4(4) [symmetric] 4(5) 4(6) ..
    then show ?thesis using conn_line_replays [of c L "envs k" line b] by (simp add: goes_back_def)
  qed
  ultimately show ?case by simp
next
  case (2 L envs k c b buf x line rest)
  then have "try_pop_line buf = Some (line, rest)" by simp
  then have "length rest < length buf" by (rule try_pop_line_shorter)
  then show ?case by simp
qed simp

declare conn_lines.simps [simp del]

text \<open>One read of the socket, the beginning and the end of a connection.\<close>

definition conn_read ::
  "broker_lib \<Rightarrow> (nat \<Rightarrow> conn_env) \<Rightarrow> u8 list \<Rightarrow> client_conn \<Rightarrow> broker \<Rightarrow>
   conn_flow \<times> client_conn \<times> broker \<times> nat" where
  "conn_read L envs chunk c b =
     (let (p, data, replies) = iac_parse (cn_iac c) chunk;
          c = c\<lparr>cn_iac := p\<rparr>;
          b = (if replies = [] then b else tell c (bytes_str replies) b)
      in if data = [] then (ConnGo, c, b, 0)
         else conn_lines L envs 0 c b (cn_linebuf c @ bytes_str data))"

definition conn_open ::
  "broker_lib \<Rightarrow> conn_env \<Rightarrow> session_id \<Rightarrow> ip_addr \<Rightarrow> nat \<Rightarrow> broker \<Rightarrow> client_conn \<times> broker" where
  "conn_open L E session ip port b =
     (let c = \<lparr>cn_session = session, cn_peer_ip = ip, cn_peer_port = port, cn_trusted = is_loopback ip,
            cn_iac = iac_new, cn_linebuf = [], cn_name = None, cn_is_bot = None, cn_auth_method = None,
            cn_auth_blob = None, cn_google_sub = None, cn_google_email = None, cn_oidc_sub = None,
            cn_oidc_email = None, cn_pending = None, cn_oauth_code = None, cn_race = None,
            cn_class = None, cn_sex = None, cn_pronouns = None, cn_echo_off = False,
            cn_state = NeedName, cn_proxy_checked = False\<rparr>;
          entry = log_entry [(''ts'', logfmt_str (ce_ts E)), (''kind'', ''connect''),
            (''session'', logfmt_str (session_hex session)), (''ip'', logfmt_str (lb_show_ip L ip)),
            (''port'', logfmt_str (show_nat port))]
      in (c, tell c (''slopmud (alpha)'' @ crlf @ ''character creation (step 1/4)'' @ name_prompt)
            (log_line LsAll entry b)))"

definition conn_close ::
  "broker_lib \<Rightarrow> conn_env \<Rightarrow> client_conn \<Rightarrow> broker \<Rightarrow> broker" where
  "conn_close L E c b =
     (let b = (if cn_echo_off c then tell c (telnet_wont telnet_opt_echo) b else b);
          session = cn_session c;
          removed = bk_sessions b session;
          b = b\<lparr>bk_sessions := (bk_sessions b)(session := None)\<rparr>
      in (case removed of
            None \<Rightarrow> b
          | Some si \<Rightarrow>
              (let entry = log_entry [(''ts'', logfmt_str (ce_ts E)), (''kind'', ''logout''),
                     (''session'', logfmt_str (session_hex session)),
                     (''ip'', logfmt_str (lb_show_ip L (sx_peer_ip si))), (''name'', logfmt_str (sx_name si))]
               in to_shard REQ_DETACH session [] (session_log (sx_name si) entry b))))"

end
