(* ===== verification/BrokerAdmin.thy ===== *)
theory BrokerAdmin
  imports InGame
begin

text \<open>
  The administration socket of the broker and the sessions it ends (\<open>handle_admin_conn\<close>,
  \<open>kick_by_char\<close>, \<open>kick_by_ip\<close> of \<open>crates/slopmud/src/main.rs\<close>). Reading a request and writing an
  answer is serde's; no answer at all, \<open>None\<close>, is an error that closes the connection.
\<close>

datatype broker_admin_req =
    BanCharacter string string string
  | BanIpPrefix string string string
  | ListBans
  | ListSessions
  | CreateAccountPassword string string "string list option"
  | SetAccountPassword string string
  | GrantAccountCaps string "string list"
  | GetAccount string
  | ListAccounts

datatype broker_admin_resp =
    AdmOk nat
  | AdmBans ban_list_file
  | AdmSessions "string list" "string list"
  | AdmAccount string bool "string list"
  | AdmAccounts "string list"
  | AdmErr string

section \<open>Ending sessions\<close>

definition kick ::
  "broker_lib \<Rightarrow> string \<Rightarrow> (session_info \<Rightarrow> bool) \<Rightarrow> broker \<Rightarrow> nat \<times> broker" where
  "kick L msg P b =
     (let targets = filter (\<lambda>s. case bk_sessions b s of None \<Rightarrow> False | Some si \<Rightarrow> P si)
            (map_keys (lb_session_iter L) (bk_sessions b))
      in (length targets,
          b\<lparr>bk_sent := bk_sent b @ map (\<lambda>s. (s, msg)) targets, bk_dropped := bk_dropped b @ targets\<rparr>))"

definition kick_by_char :: "broker_lib \<Rightarrow> string \<Rightarrow> broker \<Rightarrow> nat \<times> broker" where
  "kick_by_char L name b =
     (let name_lc = norm_key name in
      if name_lc = [] then (0, b)
      else kick L (crlf @ ''# banned (character)'' @ crlf @ ''bye'' @ crlf)
             (\<lambda>si. norm_key (sx_name si) = name_lc) b)"

definition kick_by_ip :: "broker_lib \<Rightarrow> ip_prefix \<Rightarrow> broker \<Rightarrow> nat \<times> broker" where
  "kick_by_ip L pfx b =
     kick L (crlf @ ''# banned (ip)'' @ crlf @ ''bye'' @ crlf) (\<lambda>si. ipp_contains_ip pfx (sx_peer_ip si)) b"

section \<open>The requests\<close>

definition admin_ban_character ::
  "broker_lib \<Rightarrow> conn_env \<Rightarrow> string \<Rightarrow> string \<Rightarrow> string \<Rightarrow> broker \<Rightarrow> broker_admin_resp option \<times> broker" where
  "admin_ban_character L E name who reason b =
     (let nm = sanitize_name name in
      if nm = [] then (Some (AdmErr ''bad name''), b)
      else
        (let (changed, st, f) = upsert_char_ban (lb_iter L) (lb_bans_text L) (ce_save_ok E) nm (ce_unix E)
               who reason (bk_bans b, bk_bans_file b);
             b = b\<lparr>bk_bans := st, bk_bans_file := f\<rparr>
         in if changed = None then (None, b)
            else (let (kicked, b) = kick_by_char L nm b in (Some (AdmOk kicked), b))))"

definition admin_ban_ip ::
  "broker_lib \<Rightarrow> conn_env \<Rightarrow> string \<Rightarrow> string \<Rightarrow> string \<Rightarrow> broker \<Rightarrow> broker_admin_resp option \<times> broker" where
  "admin_ban_ip L E cidr who reason b =
     (let (changed, st, f) = upsert_ip_ban (lb_iter L) (lb_show_ip L) (lb_parse_ip L) (lb_bans_text L)
            (ce_save_ok E) cidr (ce_unix E) who reason (bk_bans b, bk_bans_file b);
          b = b\<lparr>bk_bans := st, bk_bans_file := f\<rparr>
      in (case changed of
            None \<Rightarrow> (None, b)
          | Some (_, pfx) \<Rightarrow> (let (kicked, b) = kick_by_ip L pfx b in (Some (AdmOk kicked), b))))"

text \<open>\<open>dedup_by\<close>: of neighbours that are equal up to case the first one stays.\<close>

fun dedup_ignore_case :: "string list \<Rightarrow> string list" where
  "dedup_ignore_case [] = []"
| "dedup_ignore_case [a] = [a]"
| "dedup_ignore_case (a # c # xs) =
     (if eq_ignore_ascii_case a c then dedup_ignore_case (a # xs) else a # dedup_ignore_case (c # xs))"

definition admin_list_sessions :: "broker_lib \<Rightarrow> broker \<Rightarrow> broker_admin_resp" where
  "admin_list_sessions L b =
     (let snapshot = map_values (lb_session_iter L) (bk_sessions b);
          names = (\<lambda>is_bot. dedup_ignore_case (sort_key to_ascii_lowercase
             (map sx_name (filter (\<lambda>si. sx_is_bot si = is_bot) snapshot))))
      in AdmSessions (names False) (names True))"

definition some_nonempty :: "string option \<Rightarrow> bool" where
  "some_nonempty s = (case s of None \<Rightarrow> False | Some s \<Rightarrow> s \<noteq> [])"

definition admin_create_account ::
  "broker_lib \<Rightarrow> conn_env \<Rightarrow> string \<Rightarrow> string \<Rightarrow> string list option \<Rightarrow> broker \<Rightarrow>
   broker_admin_resp option \<times> broker" where
  "admin_create_account L E name password caps b =
     (let uname = sanitize_name name in
      if uname = [] then (Some (AdmErr ''bad name''), b)
      else if length password < 8 then (Some (AdmErr ''password too short (min 8)''), b)
      else
        (case ce_hash E password of
           None \<Rightarrow> (None, b)
         | Some hash \<Rightarrow>
             (let caps = (case caps of
                            None \<Rightarrow> None
                          | Some v \<Rightarrow> (let v = normalize_caps_list v in if v = [] then None else Some v));
                  caps_vec = (case caps of None \<Rightarrow> [] | Some v \<Rightarrow> v)
              in if as_by_name (bk_accounts b) uname \<noteq> None then
                   (Some (AdmErr ''account already exists''), b)
                 else
                   (let (ok, b) = add_account L E
                          ((password_account uname hash (ce_unix E))\<lparr>ac_caps := caps\<rparr>) b
                    in if ok then (Some (AdmAccount uname True caps_vec), b) else (None, b)))))"

text \<open>A change of the record of a name, saved at once.\<close>

definition change_account ::
  "broker_lib \<Rightarrow> conn_env \<Rightarrow> string \<Rightarrow> account_rec \<Rightarrow> broker \<Rightarrow> bool \<times> broker" where
  "change_account L E uname r b =
     (let (ok, a) = accounts_save (lb_iter L) (lb_accounts_text L) (ce_save_ok E)
            ((bk_accounts b)\<lparr>as_by_name := (as_by_name (bk_accounts b))(uname \<mapsto> r)\<rparr>)
      in (ok, b\<lparr>bk_accounts := a\<rparr>))"

definition account_answer :: "string \<Rightarrow> account_rec \<Rightarrow> broker_admin_resp" where
  "account_answer name r =
     AdmAccount name (some_nonempty (ac_pw_hash r)) (case ac_caps r of None \<Rightarrow> [] | Some v \<Rightarrow> v)"

definition admin_set_password ::
  "broker_lib \<Rightarrow> conn_env \<Rightarrow> string \<Rightarrow> string \<Rightarrow> broker \<Rightarrow> broker_admin_resp option \<times> broker" where
  "admin_set_password L E name password b =
     (let uname = sanitize_name name in
      if uname = [] then (Some (AdmErr ''bad name''), b)
      else if length password < 8 then (Some (AdmErr ''password too short (min 8)''), b)
      else
        (case ce_hash E password of
           None \<Rightarrow> (None, b)
         | Some hash \<Rightarrow>
             (case as_by_name (bk_accounts b) uname of
                None \<Rightarrow> (Some (AdmErr ''account not found''), b)
              | Some r \<Rightarrow>
                  (let r = r\<lparr>ac_pw_hash := Some hash\<rparr>; (ok, b) = change_account L E uname r b
                   in if ok then (Some (account_answer uname r), b) else (None, b)))))"

definition admin_grant_caps ::
  "broker_lib \<Rightarrow> conn_env \<Rightarrow> string \<Rightarrow> string list \<Rightarrow> broker \<Rightarrow> broker_admin_resp option \<times> broker" where
  "admin_grant_caps L E name caps b =
     (let uname = sanitize_name name in
      if uname = [] then (Some (AdmErr ''bad name''), b)
      else
        (let add = normalize_caps_list caps in
         if add = [] then (Some (AdmErr ''no valid caps''), b)
         else
           (case as_by_name (bk_accounts b) uname of
              None \<Rightarrow> (Some (AdmErr ''account not found''), b)
            | Some r \<Rightarrow>
                (let merged = normalize_caps_list ((case ac_caps r of None \<Rightarrow> [] | Some v \<Rightarrow> v) @ add);
                     r = r\<lparr>ac_caps := (if merged = [] then None else Some merged)\<rparr>;
                     (ok, b) = change_account L E uname r b
                 in if ok then (Some (AdmAccount uname (some_nonempty (ac_pw_hash r)) merged), b)
                    else (None, b)))))"

definition admin_get_account :: "string \<Rightarrow> broker \<Rightarrow> broker_admin_resp" where
  "admin_get_account name b =
     (let uname = sanitize_name name in
      if uname = [] then AdmErr ''bad name''
      else
        (case as_by_name (bk_accounts b) uname of
           None \<Rightarrow> AdmErr ''account not found''
         | Some r \<Rightarrow> account_answer (ac_name r) r))"

definition admin_list_accounts :: "broker_lib \<Rightarrow> broker \<Rightarrow> broker_admin_resp" where
  "admin_list_accounts L b =
     AdmAccounts (sort_key to_ascii_lowercase (map_keys (lb_iter L) (as_by_name (bk_accounts b))))"

definition handle_admin_req ::
  "broker_lib \<Rightarrow> conn_env \<Rightarrow> broker_admin_req \<Rightarrow> broker \<Rightarrow> broker_admin_resp option \<times> broker" where
  "handle_admin_req L E q b =
     (case q of
        BanCharacter name who reason \<Rightarrow> admin_ban_character L E name who reason b
      | BanIpPrefix cidr who reason \<Rightarrow> admin_ban_ip L E cidr who reason b
      | ListBans \<Rightarrow> (Some (AdmBans (ban_snapshot_file (lb_iter L) (bk_bans b))), b)
      | ListSessions \<Rightarrow> (Some (admin_list_sessions L b), b)
      | CreateAccountPassword name password caps \<Rightarrow> admin_create_account L E name password caps b
      | SetAccountPassword name password \<Rightarrow> admin_set_password L E name password b
      | GrantAccountCaps name caps \<Rightarrow> admin_grant_caps L E name caps b
      | GetAccount name \<Rightarrow> (Some (admin_get_account name b), b)
      | ListAccounts \<Rightarrow> (Some (admin_list_accounts L b), b))"

text \<open>A connection brings one line; the reader gives the request or the text of serde's error.\<close>

definition broker_admin_conn ::
  "broker_lib \<Rightarrow> (string \<Rightarrow> string + broker_admin_req) \<Rightarrow> (broker_admin_resp \<Rightarrow> string) \<Rightarrow> conn_env \<Rightarrow>
   string \<Rightarrow> broker \<Rightarrow> string \<times> broker" where
  "broker_admin_conn L read write E line b =
     (let line = trim line in
      if line = [] then ([], b)
      else
        (case read line of
           Inl e \<Rightarrow> (write (AdmErr (''bad json: '' @ e)) @ [CHR 0x0A], b)
         | Inr q \<Rightarrow>
             (case handle_admin_req L E q b of
                (None, b) \<Rightarrow> ([], b)
              | (Some r, b) \<Rightarrow> (write r @ [CHR 0x0A], b))))"

end
