(* ===== verification/ShardLink.thy ===== *)
theory ShardLink
  imports BrokerAdmin
begin

text \<open>
  The link between the broker and the shard (\<open>shard_manager_task\<close> and \<open>route_resp\<close> of
  \<open>crates/slopmud/src/main.rs\<close>): the sessions that are attached again when the link comes up, what
  is thrown away while it is down, and the way of the shard's output to the client, by the
  scrollback, the files and the log. No result, \<open>None\<close>, is a panic of the task that is the link.
\<close>

section \<open>Link up and link down\<close>

definition attach_payload :: "session_id \<Rightarrow> session_info \<Rightarrow> u8 list" where
  "attach_payload s si =
     write_req REQ_ATTACH s
       (attach_body (sx_is_bot si) (map_option str_bytes (sx_auth si)) (str_bytes (sx_race si))
         (str_bytes (sx_class si)) (str_bytes (sx_sex si)) (str_bytes (sx_pronouns si))
         (str_bytes (sx_name si)))"

definition reattach :: "broker_lib \<Rightarrow> broker \<Rightarrow> u8 list list" where
  "reattach L b =
     map (\<lambda>s. attach_payload s (the (bk_sessions b s))) (map_keys (lb_session_iter L) (bk_sessions b))"

definition msg_payload :: "shard_msg \<Rightarrow> u8 list" where
  "msg_payload m = write_req (sm_t m) (sm_session m) (sm_body m)"

definition notify_all :: "broker_lib \<Rightarrow> string \<Rightarrow> broker \<Rightarrow> broker" where
  "notify_all L msg b =
     b\<lparr>bk_sent := bk_sent b @ map (\<lambda>s. (s, msg)) (map_keys (lb_session_iter L) (bk_sessions b))\<rparr>"

definition notify_one :: "session_id \<Rightarrow> string \<Rightarrow> broker \<Rightarrow> broker" where
  "notify_one s msg b = (if bk_sessions b s = None then b else b\<lparr>bk_sent := bk_sent b @ [(s, msg)]\<rparr>)"

fun drop_queue :: "shard_msg list \<Rightarrow> broker \<Rightarrow> broker" where
  "drop_queue [] b = b"
| "drop_queue (m # ms) b =
     drop_queue ms (if sm_t m = REQ_INPUT
       then notify_one (sm_session m) (''# shard offline; input dropped'' @ crlf) b else b)"

definition shard_offline :: "broker_lib \<Rightarrow> bool \<Rightarrow> broker \<Rightarrow> bool \<times> broker" where
  "shard_offline L announced b =
     (let b = (if announced then b else notify_all L (''# shard offline; retrying...'' @ crlf) b)
      in (True, (drop_queue (bk_shard b) b)\<lparr>bk_shard := []\<rparr>))"

section \<open>Output to a client\<close>

definition try_append :: "broker_lib \<Rightarrow> nearline_record \<Rightarrow> nearline_record list \<Rightarrow> nearline_record list" where
  "try_append L r q =
     (if lb_nearline_on L \<and> length q < max (lb_nearline_capacity L) 64 then q @ [r] else q)"

record route_state =
  rt_ids :: line_id_gen
  rt_scrollback :: scrollback
  rt_nearline :: "nearline_record list"
  rt_logs :: "(line_id \<times> string) list"

fun route_texts ::
  "broker_lib \<Rightarrow> u64 \<Rightarrow> string \<Rightarrow> session_id \<Rightarrow> session_info \<Rightarrow> string list \<Rightarrow> route_state \<Rightarrow>
   route_state option" where
  "route_texts L now kind s si [] st = Some st"
| "route_texts L now kind s si (text # texts) st =
     (let (i, ids) = next_id now (rt_ids st);
          sb_text = clamp_chars text scrollback_max_line_chars;
          sb = push_line i (unat now) sb_text (rt_scrollback st)
      in (case (redact_if (sx_held si) sb_text, redact_if (sx_held si) text) of
            (Some disk_text, Some event_text) \<Rightarrow>
              route_texts L now kind s si texts
                \<lparr>rt_ids = ids, rt_scrollback = sb,
                 rt_nearline = try_append L
                   \<lparr>nr_v = 1, nr_id = line_id_encode i, nr_ts_unix_ms = unat now, nr_kind = kind,
                    nr_session = session_hex s, nr_name = sx_name si,
                    nr_ip = lb_show_ip L (sx_peer_ip si), nr_text = disk_text\<rparr> (rt_nearline st),
                 rt_logs = rt_logs st @ [(i, event_text)]\<rparr>
          | _ \<Rightarrow> None))"

definition route_log ::
  "broker_lib \<Rightarrow> conn_env \<Rightarrow> string \<Rightarrow> session_id \<Rightarrow> session_info \<Rightarrow> line_id \<times> string \<Rightarrow>
   (log_stream \<times> string) list" where
  "route_log L E kind s si l =
     (let entry = log_entry [(''ts'', logfmt_str (ce_ts E)), (''kind'', kind),
            (''session'', logfmt_str (session_hex s)), (''ip'', logfmt_str (lb_show_ip L (sx_peer_ip si))),
            (''name'', logfmt_str (sx_name si)), (''line_id'', logfmt_str (line_id_encode (fst l))),
            (''text'', logfmt_str (snd l))]
      in [(LsAll, entry), (LsCharacter (sx_name si), entry)])"

definition route_line ::
  "broker_lib \<Rightarrow> conn_env \<Rightarrow> string \<Rightarrow> session_id \<Rightarrow> string \<Rightarrow> broker \<Rightarrow> broker option" where
  "route_line L E kind s line b =
     (case bk_sessions b s of
        None \<Rightarrow> Some b
      | Some si \<Rightarrow>
          (case route_texts L (ce_unix_ms E) kind s si (extract_output_lines line)
                  \<lparr>rt_ids = bk_line_ids b, rt_scrollback = sx_scrollback si,
                   rt_nearline = bk_nearline b, rt_logs = []\<rparr> of
             None \<Rightarrow> None
           | Some st \<Rightarrow>
               Some (b\<lparr>bk_line_ids := rt_ids st,
                       bk_sessions := (bk_sessions b)(s \<mapsto> si\<lparr>sx_scrollback := rt_scrollback st\<rparr>),
                       bk_nearline := rt_nearline st,
                       bk_log := bk_log b @ concat (map (route_log L E kind s si) (rt_logs st)),
                       bk_sent := bk_sent b @ [(s, line)]\<rparr>)))"

definition route_resp :: "broker_lib \<Rightarrow> conn_env \<Rightarrow> shard_resp \<Rightarrow> broker \<Rightarrow> broker option" where
  "route_resp L E resp b =
     (case resp of
        Output s line \<Rightarrow> route_line L E ''output'' s (bytes_str line) b
      | RespErr s msg \<Rightarrow> route_line L E ''err'' s (bytes_str msg) b)"

text \<open>A frame that came in from the shard: a bad one is only logged.\<close>

definition shard_frame :: "broker_lib \<Rightarrow> conn_env \<Rightarrow> u8 list \<Rightarrow> broker \<Rightarrow> broker option" where
  "shard_frame L E frame b =
     (case parse_resp frame of
        None \<Rightarrow> None
      | Some (Inl e) \<Rightarrow> Some b
      | Some (Inr resp) \<Rightarrow> route_resp L E resp b)"

end
