(* ===== verification/LoginSafe.thy ===== *)
theory LoginSafe
  imports ShardLink
begin

text \<open>
  What holds of every connection of the broker: the invariant of its variables, the messages it
  sends to the shard, what signing in takes, and where passwords go.
\<close>

section \<open>The invariant of a connection\<close>

definition signed_in :: "conn_state \<Rightarrow> bool" where
  "signed_in s \<longleftrightarrow> s \<in> {NeedBotDisclosure, NeedPublicAck, NeedCocAck, NeedRace, NeedClass, NeedSex,
     NeedPronouns, InWorld}"

definition conn_ok :: "client_conn \<Rightarrow> broker \<Rightarrow> bool" where
  "conn_ok c b \<longleftrightarrow>
     (cn_echo_off c \<longleftrightarrow> cn_state c \<in> {NeedPasswordCreate, NeedPasswordLogin}) \<and>
     (cn_state c \<noteq> NeedName \<longrightarrow> cn_name c \<noteq> None) \<and>
     (signed_in (cn_state c) \<longrightarrow> cn_auth_blob c \<noteq> None) \<and>
     (cn_state c = NeedPronouns \<longrightarrow> cn_sex c \<noteq> None) \<and>
     (bk_sessions b (cn_session c) \<noteq> None \<longleftrightarrow> cn_state c = InWorld) \<and>
     (cn_pending c \<noteq> None \<longrightarrow> cn_trusted c)"

text \<open>
  What the shard would be told of a session if the link came up again; the rest of the entry, the
  hold and the scrollback, may change.
\<close>

definition same_entry :: "broker \<Rightarrow> broker \<Rightarrow> session_id \<Rightarrow> bool" where
  "same_entry b b' s \<longleftrightarrow>
     map_option (attach_payload s) (bk_sessions b' s) = map_option (attach_payload s) (bk_sessions b s)"

text \<open>
  What a line sends to the shard: nothing, the attachment on entering, which says what the session's
  entry says, or an input after it.
\<close>

definition sends_ok :: "client_conn \<Rightarrow> broker \<Rightarrow> client_conn \<Rightarrow> broker \<Rightarrow> shard_msg list \<Rightarrow> bool" where
  "sends_ok c b c' b' ms \<longleftrightarrow>
     list_all (\<lambda>m. sm_session m = cn_session c) ms \<and>
     (if cn_state c = InWorld then map sm_t ms \<in> {[], [REQ_INPUT]} \<and> same_entry b b' (cn_session c)
      else if cn_state c' = InWorld then
        map sm_t ms = [REQ_ATTACH] \<and>
        map (Some \<circ> msg_payload) ms = [map_option (attach_payload (cn_session c)) (bk_sessions b' (cn_session c))]
      else ms = [] \<and> same_entry b b' (cn_session c))"

definition step_ok :: "client_conn \<Rightarrow> broker \<Rightarrow> conn_result \<Rightarrow> bool" where
  "step_ok c b r \<longleftrightarrow>
     (case r of (flow, c', b') \<Rightarrow>
        cn_session c' = cn_session c \<and> cn_trusted c' = cn_trusted c \<and>
        (cn_state c = InWorld \<longrightarrow> cn_state c' = InWorld) \<and>
        (flow \<in> {ConnGo, ConnReplay} \<longrightarrow> conn_ok c' b') \<and>
        (\<forall>s. s \<noteq> cn_session c \<longrightarrow> same_entry b b' s) \<and>
        (\<exists>ms. bk_shard b' = bk_shard b @ ms \<and> sends_ok c b c' b' ms))"

lemma step_okI:
  assumes "cn_session c' = cn_session c" "cn_trusted c' = cn_trusted c"
    "cn_state c = InWorld \<Longrightarrow> cn_state c' = InWorld"
    "flow = ConnGo \<or> flow = ConnReplay \<Longrightarrow> conn_ok c' b'"
    "\<And>s. s \<noteq> cn_session c \<Longrightarrow> same_entry b b' s"
    "bk_shard b' = bk_shard b @ ms" "sends_ok c b c' b' ms"
  shows "step_ok c b (flow, c', b')"
  using assms by (auto simp: step_ok_def)

lemmas sending_defs = say_go_def tell_def log_line_def session_log_def to_shard_def

lemma same_entry_refl: "bk_sessions b' = bk_sessions b \<Longrightarrow> same_entry b b' s"
  by (simp add: same_entry_def)

lemma quiet_step:
  assumes "conn_ok c' b'" "cn_session c' = cn_session c" "cn_trusted c' = cn_trusted c"
    "cn_state c \<noteq> InWorld" "cn_state c' \<noteq> InWorld" "bk_shard b' = bk_shard b" "bk_sessions b' = bk_sessions b"
  shows "step_ok c b (flow, c', b')"
  by (rule step_okI [where ms = "[]"]) (use assms in \<open>auto simp: sends_ok_def same_entry_refl\<close>)

lemma ended_step:
  assumes "flow = ConnStop \<or> flow = ConnFail" "cn_session c' = cn_session c" "cn_trusted c' = cn_trusted c"
    "cn_state c \<noteq> InWorld" "cn_state c' \<noteq> InWorld" "bk_shard b' = bk_shard b" "bk_sessions b' = bk_sessions b"
  shows "step_ok c b (flow, c', b')"
  by (rule step_okI [where ms = "[]"]) (use assms in \<open>auto simp: sends_ok_def same_entry_refl\<close>)

lemma attach_shard:
  "bk_shard (attach_authenticated_session L E c name bt race cl sex pro auth am b)
    = bk_shard b @ [\<lparr>sm_t = REQ_ATTACH, sm_session = cn_session c, sm_body =
        attach_body bt (Some (str_bytes auth)) (str_bytes race) (str_bytes cl) (str_bytes sex)
          (str_bytes pro) (str_bytes name)\<rparr>]"
  by (simp add: attach_authenticated_session_def sending_defs Let_def)

lemma attach_entry:
  "bk_sessions (attach_authenticated_session L E c name bt race cl sex pro auth am b) (cn_session c) \<noteq> None"
  "s \<noteq> cn_session c \<Longrightarrow>
    same_entry b (attach_authenticated_session L E c name bt race cl sex pro auth am b) s"
  "map_option (attach_payload (cn_session c))
     (bk_sessions (attach_authenticated_session L E c name bt race cl sex pro auth am b) (cn_session c))
    = Some (msg_payload \<lparr>sm_t = REQ_ATTACH, sm_session = cn_session c, sm_body =
        attach_body bt (Some (str_bytes auth)) (str_bytes race) (str_bytes cl) (str_bytes sex)
          (str_bytes pro) (str_bytes name)\<rparr>)"
  by (simp_all add: attach_authenticated_session_def sending_defs Let_def same_entry_def attach_payload_def
      msg_payload_def)

lemma attached_step:
  assumes "cn_state c0 \<noteq> InWorld" "cn_state c = InWorld" "cn_session c = cn_session c0" "cn_trusted c = cn_trusted c0"
    and "bk_shard b = bk_shard b0" "bk_sessions b = bk_sessions b0"
    and "\<And>b'. bk_sessions b' (cn_session c) \<noteq> None \<Longrightarrow> conn_ok c b'"
    and "cn_session d = cn_session c"
  shows "step_ok c0 b0 (ConnGo, c, attach_authenticated_session L E d name bt race cl sex pro auth am b)"
proof (rule step_okI)
  let ?b = "attach_authenticated_session L E d name bt race cl sex pro auth am b"
  let ?m = "\<lparr>sm_t = REQ_ATTACH, sm_session = cn_session d, sm_body =
    attach_body bt (Some (str_bytes auth)) (str_bytes race) (str_bytes cl) (str_bytes sex) (str_bytes pro) (str_bytes name)\<rparr>"
  show "conn_ok c ?b" by (rule assms(7)) (unfold assms(8) [symmetric], rule attach_entry(1))
  show "same_entry b0 ?b s" if "s \<noteq> cn_session c0" for s
    using attach_entry(2) [of s d b] that assms(3,6,8) by (simp add: same_entry_def)
  show "bk_shard ?b = bk_shard b0 @ [?m]" by (simp only: attach_shard assms(5))
  show "sends_ok c0 b0 c ?b [?m]"
    using attach_entry(3) [of d L E name bt race cl sex pro auth am b] assms(1-3,8) by (auto simp: sends_ok_def)
qed (use assms in simp_all)

lemma enter_step:
  assumes "conn_ok c0 b0" "cn_state c0 \<noteq> InWorld"
    and "\<not> cn_echo_off c" "cn_name c \<noteq> None" "cn_auth_blob c \<noteq> None" "cn_pending c \<noteq> None \<longrightarrow> cn_trusted c"
    and "cn_session c = cn_session c0" "cn_trusted c = cn_trusted c0"
    and "bk_shard b = bk_shard b0" "bk_sessions b = bk_sessions b0"
  shows "step_ok c0 b0 (enter_or_create L E lead name c b)"
proof (cases "wait_for_saved_player (lb_players_read L) (ce_players E) (ce_players_later E) name")
  case None
  show ?thesis
    unfolding enter_or_create_def None option.case say_go_def
    by (rule quiet_step) (use assms in \<open>auto simp: conn_ok_def signed_in_def tell_def\<close>)
next
  case (Some saved)
  from assms(5) obtain a where a: "cn_auth_blob c = Some a" by auto
  show ?thesis
    unfolding enter_or_create_def Some a option.case
    by (rule attached_step) (use assms in \<open>auto simp: conn_ok_def signed_in_def\<close>)
qed


text \<open>Each state in turn.\<close>

lemmas refuse_defs = reject_ip_ban_def reject_char_ban_def web_refuse_def

lemma add_account_frame:
  "add_account L E r b = (ok, b') \<Longrightarrow> bk_shard b' = bk_shard b \<and> bk_sessions b' = bk_sessions b
    \<and> bk_log b' = bk_log b \<and> bk_sent b' = bk_sent b \<and> bk_throttle b' = bk_throttle b"
  by (auto simp: add_account_def Let_def split: prod.splits)

definition starting :: "client_conn \<Rightarrow> broker \<Rightarrow> client_conn \<Rightarrow> broker \<Rightarrow> bool" where
  "starting c0 b0 c b \<longleftrightarrow>
     conn_ok c0 b0 \<and> cn_state c0 = NeedName \<and> cn_state c = NeedName \<and>
     \<not> cn_echo_off c \<and> cn_session c = cn_session c0 \<and> cn_trusted c = cn_trusted c0 \<and>
     (cn_pending c \<noteq> None \<longrightarrow> cn_trusted c0) \<and>
     bk_shard b = bk_shard b0 \<and> bk_sessions b = bk_sessions b0"

lemma starting_go: "starting c0 b0 c b \<Longrightarrow> step_ok c0 b0 (ConnGo, c, b)"
  by (rule quiet_step) (auto simp: starting_def conn_ok_def signed_in_def)

lemma starting_say: "starting c0 b0 c b \<Longrightarrow> step_ok c0 b0 (say_go s c b)"
  unfolding say_go_def by (rule starting_go) (auto simp: starting_def tell_def)

lemma starting_stop:
  assumes "starting c0 b0 c b"
  shows "step_ok c0 b0 (reject_ip_ban L E ban c b)" "step_ok c0 b0 (reject_char_ban L E cban n c b)"
    "step_ok c0 b0 (ConnFail, c, b)"
  unfolding refuse_defs Let_def
  by (rule ended_step, use assms in \<open>auto simp: starting_def sending_defs\<close>)+

lemma starting_enter:
  assumes "starting c0 b0 c b" "cn_name c \<noteq> None" "cn_auth_blob c \<noteq> None"
  shows "step_ok c0 b0 (enter_or_create L E lead name c b)"
  by (rule enter_step) (use assms in \<open>auto simp: starting_def\<close>)

lemma signed_in_fields:
  "cn_name (signed_in_sso L p n sub email caps c) = Some n"
  "cn_auth_blob (signed_in_sso L p n sub email caps c) = Some (lb_blob_text L (sso_blob p n sub email caps))"
  "cn_session (signed_in_sso L p n sub email caps c) = cn_session c"
  "cn_trusted (signed_in_sso L p n sub email caps c) = cn_trusted c"
  "cn_state (signed_in_sso L p n sub email caps c) = cn_state c"
  "cn_echo_off (signed_in_sso L p n sub email caps c) = cn_echo_off c"
  "cn_pending (signed_in_sso L p n sub email caps c) = cn_pending c"
  "cn_name (signed_in_password L n caps c) = Some n"
  "cn_auth_blob (signed_in_password L n caps c)
    = Some (lb_blob_text L (make_shard_auth_blob n ''password'' None None None None caps))"
  "cn_session (signed_in_password L n caps c) = cn_session c"
  "cn_trusted (signed_in_password L n caps c) = cn_trusted c"
  "cn_state (signed_in_password L n caps c) = cn_state c"
  "cn_echo_off (signed_in_password L n caps c) = cn_echo_off c"
  "cn_pending (signed_in_password L n caps c) = cn_pending c"
  by (cases p; simp add: signed_in_sso_def signed_in_password_def)+

lemma starting_signed:
  assumes "starting c0 b0 c b"
  shows "starting c0 b0 (signed_in_sso L p n sub email caps c) b"
    "starting c0 b0 ((signed_in_sso L p n sub email caps c)\<lparr>cn_pending := None\<rparr>) b"
    "starting c0 b0 (signed_in_password L n caps c) b"
  using assms by (simp_all add: starting_def signed_in_fields)

lemma starting_account: "starting c0 b0 c b \<Longrightarrow> add_account L E r b = (ok, b') \<Longrightarrow> starting c0 b0 c b'"
  by (auto simp: starting_def dest: add_account_frame)

lemma pending_sso_step:
  assumes "starting c0 b0 c b"
  shows "step_ok c0 b0 (pending_sso L E p sub email caps n c b)"
proof -
  have enter: "step_ok c0 b0 (enter_or_create L E crlf n ((signed_in_sso L p n sub em caps c)\<lparr>cn_pending := None\<rparr>) b')"
    if "starting c0 b0 c b'" for em b'
    by (rule starting_enter [OF starting_signed(2) [OF that]]) (simp_all add: signed_in_fields)
  show ?thesis
    unfolding pending_sso_def Let_def
    by (auto split: option.split prod.split intro: enter [OF assms] enter [OF starting_account [OF assms]]
        starting_say [OF assms] starting_stop(3) [OF starting_account [OF assms]])
qed

lemma choose_name_step:
  assumes "starting c0 b0 c b"
  shows "step_ok c0 b0 (choose_name L E line c b)"
proof -
  have "step_ok c0 b0 (say_go s (c\<lparr>cn_name := Some n, cn_state := NeedAuthMethod\<rparr>) b)" for s n
    unfolding say_go_def by (rule quiet_step) (use assms in \<open>auto simp: starting_def conn_ok_def signed_in_def tell_def\<close>)
  then show ?thesis
    unfolding choose_name_def pending_google_def pending_oidc_def Let_def
    by (auto split: option.split sso.split intro: starting_say [OF assms] starting_stop [OF assms]
        pending_sso_step [OF assms])
qed

definition check_ok :: "client_conn \<Rightarrow> broker \<Rightarrow> web_check \<Rightarrow> bool" where
  "check_ok c0 b0 r \<longleftrightarrow> (case r of (ok, c, b) \<Rightarrow> starting c0 b0 c b \<and>
     (ok = Some True \<longrightarrow> cn_name c \<noteq> None \<and> cn_auth_blob c \<noteq> None))"

lemma check_refuse: "starting c0 b0 c b \<Longrightarrow> check_ok c0 b0 (web_refuse s c b)"
  by (simp add: check_ok_def web_refuse_def starting_def tell_def)

lemma check_error: "starting c0 b0 c b \<Longrightarrow> check_ok c0 b0 (None, c, b)"
  by (simp add: check_ok_def)

lemma check_signed:
  assumes "starting c0 b0 c b"
  shows "check_ok c0 b0 (Some True, signed_in_sso L p n sub email caps c, b)"
    "check_ok c0 b0 (Some True, signed_in_password L n caps c, b)"
  using assms starting_signed [OF assms] by (simp_all add: check_ok_def signed_in_fields)

lemma check_added:
  assumes "starting c0 b0 c b"
    and "\<And>b'. starting c0 b0 c b' \<Longrightarrow> check_ok c0 b0 (Some True, c', b')"
  shows "check_ok c0 b0 (let (ok, b') = add_account L E r b in if ok then (Some True, c', b') else (None, c, b'))"
  using assms starting_account [OF assms(1), of L E r] check_error [of c0 b0 c]
  by (auto split: prod.split)

lemma web_password_checks:
  assumes "starting c0 b0 c b"
  shows "check_ok c0 b0 (web_create_password L E q uname c b)" "check_ok c0 b0 (web_login_password L q uname c b)"
proof -
  have "check_ok c0 b0 (let (ok, b') = add_account L E r b
      in if ok then (Some True, signed_in_password L uname caps c, b') else (None, c, b'))" for r caps
    by (rule check_added [OF assms]) (rule check_signed(2))
  then show "check_ok c0 b0 (web_create_password L E q uname c b)"
    using check_refuse [OF assms] check_error [OF assms]
    by (simp add: web_create_password_def Let_def split: option.split)
  show "check_ok c0 b0 (web_login_password L q uname c b)"
    using check_refuse [OF assms] check_signed(2) [OF assms]
    by (simp add: web_login_password_def split: option.split)
qed

lemma web_sso_check:
  assumes "starting c0 b0 c b"
  shows "check_ok c0 b0 (web_sso p L E q action uname c b)"
proof -
  have "check_ok c0 b0 (let (ok, b') = add_account L E r b
      in if ok then (Some True, signed_in_sso L p uname sub email caps c, b') else (None, c, b'))"
    for r sub email caps
    by (rule check_added [OF assms]) (rule check_signed(1))
  then show ?thesis
    using check_refuse [OF assms] check_signed(1) [OF assms]
    by (cases "as_by_name (bk_accounts b) uname"; cases "action = ''login'' \<or> action = ''auto''")
      (simp_all add: web_sso_def Let_def)
qed

lemma web_checks:
  assumes "starting c0 b0 c b"
  shows "check_ok c0 b0 (web_check_method L E q action method uname c b)"
  unfolding web_check_method_def web_google_def web_oidc_def
  using check_refuse [OF assms] web_password_checks [OF assms] web_sso_check [OF assms] by simp

lemma web_auth_as_step:
  assumes "starting c0 b0 c b"
  shows "step_ok c0 b0 (web_auth_as L E q action method uname c b)"
proof -
  have checked: "step_ok c0 b0 (case r of (None, c, b) \<Rightarrow> (ConnFail, c, b) | (Some False, c, b) \<Rightarrow> (ConnGo, c, b)
      | (Some True, c, b) \<Rightarrow> enter_or_create L E crlf (opt_text (cn_name c)) c b)"
    if "check_ok c0 b0 r" for r
    using that unfolding check_ok_def
    by (cases r; cases "fst r") (simp_all add: starting_stop(3) starting_go starting_enter split: bool.split)
  show ?thesis
  proof (cases "uname = []")
    case True
    then show ?thesis using starting_say [OF assms] by (simp add: web_auth_as_def)
  next
    case False
    then show ?thesis
    proof (cases "is_char_banned (bk_bans b) uname")
      case None
      then show ?thesis
        unfolding web_auth_as_def if_not_P [OF False] None option.case by (intro checked web_checks assms)
    qed (use starting_stop(2) [OF assms] in \<open>simp add: web_auth_as_def\<close>)
  qed
qed

lemma web_auth_line_step:
  assumes "starting c0 b0 c b" "cn_trusted c"
  shows "step_ok c0 b0 (web_auth_line L E rest c b)"
proof -
  have pending: "starting c0 b0 (c\<lparr>cn_pending := Some w\<rparr>) b"
    "starting c0 b0 (c\<lparr>cn_pending := Some w, cn_name := None, cn_state := NeedName\<rparr>) b" for w
    using assms by (simp_all add: starting_def)
  have "step_ok c0 b0 (web_auth_auto L E q p mth c b)" for q p mth
    unfolding web_auth_auto_def Let_def
    by (auto split: option.split list.split
        intro: starting_say [OF assms(1)] starting_say [OF pending(2)] starting_go [OF pending(1)]
          web_auth_as_step [OF assms(1)])
  then show ?thesis
    unfolding web_auth_line_def Let_def
    by (auto split: option.split intro: starting_say [OF assms(1)] web_auth_as_step [OF assms(1)])
qed

lemma need_name_step:
  assumes "conn_ok c b" "cn_state c = NeedName"
  shows "step_ok c b (need_name L E line c b)"
proof -
  have start: "starting c b c b" "starting c b (c\<lparr>cn_proxy_checked := True\<rparr>) b"
    "starting c b (c\<lparr>cn_peer_ip := ip, cn_peer_port := port, cn_proxy_checked := True\<rparr>) (log_line s e b)"
    for ip port s e
    using assms by (auto simp: starting_def conn_ok_def log_line_def)
  have proxy: "step_ok c b r" if "proxy_header L E l c b = Some r" for r l
    using that unfolding proxy_header_def Let_def
    by (auto split: if_splits option.splits intro: starting_stop(1) [OF start(3)] starting_go [OF start(3)])
  show ?thesis
    unfolding need_name_def Let_def
    by (auto split: option.split if_splits intro: proxy starting_go [OF start(1)]
        starting_stop(1) [OF start(2)] choose_name_step [OF start(2)] web_auth_line_step [OF start(2)])
qed

text \<open>The other states before the world: each answer leaves the connection in order.\<close>

definition moved :: "client_conn \<Rightarrow> broker \<Rightarrow> client_conn \<Rightarrow> broker \<Rightarrow> bool" where
  "moved c b c' b' \<longleftrightarrow> conn_ok c' b' \<and> cn_session c' = cn_session c \<and> cn_trusted c' = cn_trusted c \<and>
     cn_state c \<noteq> InWorld \<and> cn_state c' \<noteq> InWorld \<and> bk_shard b' = bk_shard b \<and> bk_sessions b' = bk_sessions b"

lemma moved_go: "moved c b c' b' \<Longrightarrow> step_ok c b (ConnGo, c', b')"
  "moved c b c' b' \<Longrightarrow> step_ok c b (ConnReplay, c', b')"
  by (auto simp: moved_def intro: quiet_step)

lemma moved_tell: "moved c b c' b' \<Longrightarrow> moved c b c' (tell d s b')"
  by (auto simp: moved_def tell_def conn_ok_def)

lemma step_if:
  "(P \<Longrightarrow> step_ok c b x) \<Longrightarrow> (\<not> P \<Longrightarrow> step_ok c b y) \<Longrightarrow> step_ok c b (if P then x else y)"
  by simp

lemma step_option:
  "(x = None \<Longrightarrow> step_ok c b y) \<Longrightarrow> (\<And>v. x = Some v \<Longrightarrow> step_ok c b (f v)) \<Longrightarrow>
    step_ok c b (case x of None \<Rightarrow> y | Some v \<Rightarrow> f v)"
  by (cases x) simp_all

lemma account_frame:
  "bk_shard (snd (add_account L E r b)) = bk_shard b" "bk_sessions (snd (add_account L E r b)) = bk_sessions b"
  using add_account_frame [OF prod.collapse [symmetric, of "add_account L E r b"]] by simp_all

lemma moved_say: "moved c b c' b' \<Longrightarrow> step_ok c b (say_go s c' b')"
  unfolding say_go_def by (intro moved_go moved_tell)

lemma failed_step:
  assumes "cn_session c' = cn_session c" "cn_trusted c' = cn_trusted c" "cn_state c \<noteq> InWorld"
    "cn_state c' \<noteq> InWorld" "bk_shard b' = bk_shard b" "bk_sessions b' = bk_sessions b"
  shows "step_ok c b (ConnStop, c', b')" "step_ok c b (ConnFail, c', b')"
  using assms by (auto intro: ended_step)

lemma need_auth_method_step:
  assumes "conn_ok c b" "cn_state c = NeedAuthMethod"
  shows "step_ok c b (need_auth_method L E line c b)"
proof -
  obtain n where n: "cn_name c = Some n" using assms by (auto simp: conn_ok_def)
  have same: "moved c b (c\<lparr>cn_auth_method := m\<rparr>) b" "moved c b c b" "moved c b (c\<lparr>cn_state := NeedName\<rparr>) b"
    "moved c b (c\<lparr>cn_auth_method := m, cn_echo_off := True, cn_state := NeedPasswordLogin\<rparr>) b"
    "moved c b (c\<lparr>cn_auth_method := m, cn_echo_off := True, cn_state := NeedPasswordCreate\<rparr>) b"
    "moved c b (c\<lparr>cn_auth_method := m, cn_oauth_code := Some code, cn_state := NeedGoogleWait\<rparr>)
       (b\<lparr>bk_oauth := f\<rparr>)" for m code f
    using assms n by (auto simp: moved_def conn_ok_def signed_in_def)
  have "step_ok c b (choose_password L rec c b)" for rec
    by (simp add: choose_password_def Let_def moved_say [OF same(1)] moved_say [OF same(4)] moved_say [OF same(5)]
        split: option.split)
  moreover have "step_ok c b (choose_google L E rec c b)" for rec
    unfolding choose_google_def Let_def
    using moved_say [OF same(1)] moved_say [OF same(6)] failed_step(2) [of "c\<lparr>cn_auth_method := Some ''google''\<rparr>" c b b] assms(2)
    by simp
  ultimately show ?thesis
    using moved_say [OF same(2)] moved_go(1) [OF same(2)] moved_go(2) [OF same(3)]
    by (simp add: need_auth_method_def n Let_def)
qed

lemma need_google_wait_step:
  assumes "conn_ok c b" "cn_state c = NeedGoogleWait"
  shows "step_ok c b (need_google_wait L E line c b)"
proof -
  obtain n where n: "cn_name c = Some n" using assms by (auto simp: conn_ok_def)
  have same: "moved c b c b" "moved c b (c\<lparr>cn_state := NeedAuthMethod\<rparr>) b"
    "moved c b (c\<lparr>cn_oauth_code := None, cn_state := NeedAuthMethod\<rparr>) (oauth_remove code b)" for code
    using assms n by (auto simp: moved_def conn_ok_def signed_in_def oauth_remove_def)
  have checked: "step_ok c b (google_checked L E code p c b)" for code p
  proof -
    let ?c = "c\<lparr>cn_google_sub := Some (opt_text (op_google_sub p)), cn_google_email := op_google_email p\<rparr>"
    have enter: "step_ok c b (enter_or_create L E crlf n
        (?c\<lparr>cn_auth_blob := Some a, cn_oauth_code := None\<rparr>) (oauth_remove code b'))"
      if "bk_shard b' = bk_shard b" "bk_sessions b' = bk_sessions b" for a b'
      by (rule enter_step) (use assms n that in \<open>auto simp: conn_ok_def oauth_remove_def\<close>)
    have fail: "step_ok c b (ConnFail, ?c, b')" "step_ok c b (ConnStop, ?c, tell ?c s b)"
      if "bk_shard b' = bk_shard b" "bk_sessions b' = bk_sessions b" for b' s
      by (rule failed_step; use assms that in \<open>simp add: tell_def\<close>)+
    have added: "step_ok c b (let (ok, b') = add_account L E r b in if ok then enter_or_create L E crlf n
        (?c\<lparr>cn_auth_blob := Some a, cn_oauth_code := None\<rparr>) (oauth_remove code b') else (ConnFail, ?c, b'))" for r a
      using add_account_frame [of L E r b] enter fail by (auto split: prod.split)
    show ?thesis
      using added enter [OF refl refl] fail(2) [OF refl refl] moved_say [OF same(1)] n
      by (simp add: google_checked_def Let_def split: option.split)
  qed
  have "step_ok c b (google_check L E code c b)" for code
    using checked moved_say [OF same(1)] moved_say [OF same(3)]
    by (simp add: google_check_def Let_def split: option.split)
  then show ?thesis
    using moved_say [OF same(1)] moved_say [OF same(2)] moved_say [OF same(3)] moved_go(1) [OF same(1)]
    by (simp add: need_google_wait_def Let_def split: option.split)
qed

lemma password_start:
  assumes "conn_ok c b" "cn_state c \<in> {NeedPasswordCreate, NeedPasswordLogin}" "bk_shard b' = bk_shard b"
    "bk_sessions b' = bk_sessions b"
  shows "step_ok c b (rate_limited wait prompt c b')"
    "step_ok c b (refused_password E why prompt n (fst (echo_on c b')) (snd (echo_on c b')))"
    "step_ok c b (ConnStop, fst (echo_on c b'), tell (fst (echo_on c b')) s (snd (echo_on c b')))"
proof -
  have off: "echo_on c b' = (c\<lparr>cn_echo_off := False\<rparr>, tell c (telnet_wont telnet_opt_echo) b')"
    using assms(1,2) by (auto simp: conn_ok_def echo_on_def)
  have on: "moved c b (c\<lparr>cn_echo_off := True\<rparr>) b2" if "bk_shard b2 = bk_shard b" "bk_sessions b2 = bk_sessions b" for b2
    using assms(1,2) that by (cases "cn_state c") (simp_all add: moved_def conn_ok_def signed_in_def)
  have "moved c b (c\<lparr>cn_echo_off := True\<rparr>) b'" "moved c b ((fst (echo_on c b'))\<lparr>cn_echo_off := True\<rparr>)
      ((snd (echo_on c b'))\<lparr>bk_throttle := t\<rparr>)" for t
    using on [of b'] on [of "(snd (echo_on c b'))\<lparr>bk_throttle := t\<rparr>"] assms(3,4) by (simp_all add: off tell_def)
  from moved_say [OF this(1)] moved_say [OF this(2)]
  show "step_ok c b (rate_limited wait prompt c b')"
    "step_ok c b (refused_password E why prompt n (fst (echo_on c b')) (snd (echo_on c b')))"
    by (simp_all add: rate_limited_def refused_password_def Let_def split: prod.split)
  show "step_ok c b (ConnStop, fst (echo_on c b'), tell (fst (echo_on c b')) s (snd (echo_on c b')))"
    by (rule failed_step(1)) (use assms in \<open>auto simp: echo_on_def tell_def\<close>)
qed

lemma password_enter:
  assumes "conn_ok c b" "cn_state c \<in> {NeedPasswordCreate, NeedPasswordLogin}"
    and "bk_shard b' = bk_shard b" "bk_sessions b' = bk_sessions b"
  shows "step_ok c b (enter_or_create L E lead n ((fst (echo_on c b0))\<lparr>cn_auth_blob := Some a\<rparr>) b')"
    "step_ok c b (ConnFail, fst (echo_on c b0), b')"
proof -
  show "step_ok c b (enter_or_create L E lead n ((fst (echo_on c b0))\<lparr>cn_auth_blob := Some a\<rparr>) b')"
    by (rule enter_step) (use assms in \<open>auto simp: conn_ok_def echo_on_def\<close>)
  show "step_ok c b (ConnFail, fst (echo_on c b0), b')"
    by (rule failed_step(2)) (use assms in \<open>auto simp: echo_on_def\<close>)
qed

lemma need_password_step:
  assumes "conn_ok c b" "cn_state c \<in> {NeedPasswordCreate, NeedPasswordLogin}"
  shows "step_ok c b (need_password_create L E line c b)" "step_ok c b (need_password_login L E line c b)"
proof -
  obtain n where n: "cn_name c = Some n" using assms by (auto simp: conn_ok_def)
  have echo: "bk_shard (snd (echo_on c b')) = bk_shard b'" "bk_sessions (snd (echo_on c b')) = bk_sessions b'" for b'
    by (simp_all add: echo_on_def tell_def)
  note frames = echo account_frame tell_def
  show "step_ok c b (need_password_create L E line c b)"
    unfolding need_password_create_def n option.case Let_def case_prod_beta
    by (intro step_if step_option password_start [OF assms] password_enter [OF assms]; simp add: frames)
  show "step_ok c b (need_password_login L E line c b)"
    unfolding need_password_login_def n option.case Let_def case_prod_beta
    by (intro step_if step_option password_start [OF assms] password_enter [OF assms]; simp add: frames)
qed

text \<open>The questions for a new character.\<close>

lemma asked_step:
  assumes "conn_ok c b" "signed_in (cn_state c)" "cn_state c \<noteq> InWorld"
  shows "step_ok c b (ConnGo, c, b)" "step_ok c b (say_go s c b)"
    and "signed_in st \<Longrightarrow> st \<notin> {InWorld, NeedPronouns} \<Longrightarrow>
      step_ok c b (say_go s (c\<lparr>cn_is_bot := bt, cn_race := r, cn_class := cl, cn_state := st\<rparr>) b)"
    and "step_ok c b (say_go s (c\<lparr>cn_sex := Some x, cn_state := NeedPronouns\<rparr>) b)"
proof -
  have same: "moved c b c b" using assms by (simp add: moved_def)
  from moved_go(1) [OF same] moved_say [OF same]
  show "step_ok c b (ConnGo, c, b)" "step_ok c b (say_go s c b)" .
  have off: "\<not> cn_echo_off c" "cn_name c \<noteq> None" "cn_auth_blob c \<noteq> None" "bk_sessions b (cn_session c) = None"
    "cn_pending c \<noteq> None \<longrightarrow> cn_trusted c"
    using assms by (cases "cn_state c"; simp add: conn_ok_def signed_in_def)+
  have ok: "conn_ok c' b" if "cn_state c' \<notin> {NeedPasswordCreate, NeedPasswordLogin, InWorld}"
      "cn_state c' = NeedPronouns \<longrightarrow> cn_sex c' \<noteq> None" "cn_session c' = cn_session c" "cn_name c' = cn_name c"
      "cn_auth_blob c' = cn_auth_blob c" "cn_echo_off c' = cn_echo_off c" "cn_pending c' = cn_pending c"
      "cn_trusted c' = cn_trusted c" for c'
    using off that by (simp add: conn_ok_def del: not_None_eq)
  show "step_ok c b (say_go s (c\<lparr>cn_is_bot := bt, cn_race := r, cn_class := cl, cn_state := st\<rparr>) b)"
    if "signed_in st" "st \<notin> {InWorld, NeedPronouns}"
  proof (rule moved_say)
    have "st \<notin> {NeedPasswordCreate, NeedPasswordLogin, InWorld}" "st \<noteq> NeedPronouns"
      using that by (cases st; simp add: signed_in_def)+
    then show "moved c b (c\<lparr>cn_is_bot := bt, cn_race := r, cn_class := cl, cn_state := st\<rparr>) b"
      using assms(3) by (simp add: moved_def ok)
  qed
  have "moved c b (c\<lparr>cn_sex := Some x, cn_state := NeedPronouns\<rparr>) b"
    unfolding moved_def by (intro conjI ok) (use assms(3) in simp_all)
  then show "step_ok c b (say_go s (c\<lparr>cn_sex := Some x, cn_state := NeedPronouns\<rparr>) b)"
    by (rule moved_say)
qed

lemma finish_step:
  assumes "conn_ok c0 b" "signed_in (cn_state c0)" "cn_state c0 \<noteq> InWorld"
  shows "step_ok c0 b (finish_creation L E (c0\<lparr>cn_sex := x, cn_pronouns := y\<rparr>) b)"
proof -
  have off: "\<not> cn_echo_off c0" "cn_name c0 \<noteq> None" "cn_auth_blob c0 \<noteq> None"
    "cn_pending c0 \<noteq> None \<longrightarrow> cn_trusted c0"
    using assms by (cases "cn_state c0"; simp add: conn_ok_def signed_in_def)+
  from off(2) obtain n where n: "cn_name c0 = Some n" by auto
  let ?c = "c0\<lparr>cn_sex := x, cn_pronouns := y, cn_state := InWorld\<rparr>"
  have eq: "finish_creation L E (c0\<lparr>cn_sex := x, cn_pronouns := y\<rparr>) b = (ConnGo, ?c,
      attach_authenticated_session L E ?c n (opt_else False (cn_is_bot ?c))
        (opt_else ''human'' (cn_race ?c)) (opt_else ''fighter'' (cn_class ?c))
        (opt_else ''none'' (cn_sex ?c)) (opt_else ''they'' (cn_pronouns ?c))
        (created_auth L n ?c) (opt_else ''unknown'' (cn_auth_method ?c)) b)"
    by (simp add: finish_creation_def n Let_def)
  have ok: "conn_ok ?c b'" if "bk_sessions b' (cn_session ?c) \<noteq> None" for b'
    using off that by (simp add: conn_ok_def del: not_None_eq)
  show ?thesis
    unfolding eq by (rule attached_step) (use assms(3) in \<open>simp_all add: ok del: not_None_eq\<close>)
qed

lemma creation_step:
  assumes "conn_ok c b"
  shows "cn_state c = NeedBotDisclosure \<Longrightarrow> step_ok c b (need_bot_disclosure line c b)"
    "cn_state c = NeedPublicAck \<Longrightarrow> step_ok c b (need_public_ack line c b)"
    "cn_state c = NeedCocAck \<Longrightarrow> step_ok c b (need_coc_ack line c b)"
    "cn_state c = NeedRace \<Longrightarrow> step_ok c b (need_race line c b)"
    "cn_state c = NeedClass \<Longrightarrow> step_ok c b (need_class line c b)"
    "cn_state c = NeedSex \<Longrightarrow> step_ok c b (need_sex L E line c b)"
    "cn_state c = NeedPronouns \<Longrightarrow> step_ok c b (need_pronouns L E line c b)"
proof -
  have changed: "c\<lparr>cn_is_bot := v, cn_state := st\<rparr> = c\<lparr>cn_is_bot := v, cn_race := cn_race c, cn_class := cn_class c, cn_state := st\<rparr>"
    "c\<lparr>cn_race := r, cn_state := st\<rparr> = c\<lparr>cn_is_bot := cn_is_bot c, cn_race := r, cn_class := cn_class c, cn_state := st\<rparr>"
    "c\<lparr>cn_class := r, cn_state := st\<rparr> = c\<lparr>cn_is_bot := cn_is_bot c, cn_race := cn_race c, cn_class := r, cn_state := st\<rparr>"
    "c\<lparr>cn_state := st\<rparr> = c\<lparr>cn_is_bot := cn_is_bot c, cn_race := cn_race c, cn_class := cn_class c, cn_state := st\<rparr>"
    for v r st
    by simp_all
  have asked: "step_ok c b (ConnGo, c, b)" "step_ok c b (say_go s c b)"
    "step_ok c b (say_go s (c\<lparr>cn_is_bot := v, cn_state := NeedPublicAck\<rparr>) b)"
    "step_ok c b (say_go s (c\<lparr>cn_state := NeedCocAck\<rparr>) b)"
    "step_ok c b (say_go s (c\<lparr>cn_state := NeedRace\<rparr>) b)"
    "step_ok c b (say_go s (c\<lparr>cn_race := r, cn_state := NeedClass\<rparr>) b)"
    "step_ok c b (say_go s (c\<lparr>cn_class := r, cn_state := NeedSex\<rparr>) b)"
    "step_ok c b (say_go s (c\<lparr>cn_sex := Some x, cn_state := NeedPronouns\<rparr>) b)"
    if "signed_in (cn_state c)" "cn_state c \<noteq> InWorld" for s v r x
    unfolding changed
    by (rule asked_step [OF assms that]; simp add: signed_in_def)+
  show "step_ok c b (need_bot_disclosure line c b)" if "cn_state c = NeedBotDisclosure"
    unfolding need_bot_disclosure_def Let_def by (intro step_if asked; simp add: that signed_in_def)
  show "step_ok c b (need_public_ack line c b)" if "cn_state c = NeedPublicAck"
    unfolding need_public_ack_def Let_def by (intro step_if asked; simp add: that signed_in_def)
  show "step_ok c b (need_coc_ack line c b)" if "cn_state c = NeedCocAck"
    unfolding need_coc_ack_def Let_def by (intro step_if asked; simp add: that signed_in_def)
  show "step_ok c b (need_race line c b)" if "cn_state c = NeedRace"
    unfolding need_race_def Let_def by (intro step_if asked; simp add: that signed_in_def)
  show "step_ok c b (need_class line c b)" if "cn_state c = NeedClass"
    unfolding need_class_def Let_def by (intro step_if asked; simp add: that signed_in_def)
  show "step_ok c b (need_sex L E line c b)" if "cn_state c = NeedSex"
    unfolding need_sex_def Let_def
    by (intro step_if asked finish_step [OF assms]; simp add: that signed_in_def)
  show "step_ok c b (need_pronouns L E line c b)" if "cn_state c = NeedPronouns"
  proof -
    have c: "c\<lparr>cn_pronouns := y\<rparr> = c\<lparr>cn_sex := cn_sex c, cn_pronouns := y\<rparr>" for y by simp
    have x: "cn_sex c \<noteq> None" using assms that by (simp add: conn_ok_def)
    have finish: "step_ok c b (finish_creation L E (c\<lparr>cn_pronouns := y\<rparr>) b)" for y
      unfolding c by (rule finish_step [OF assms]) (simp_all add: that signed_in_def)
    show ?thesis
      unfolding need_pronouns_def Let_def
      by (intro step_option asked) (simp_all add: that signed_in_def finish x)
  qed
qed

section \<open>In the world\<close>

lemma world_step:
  assumes "conn_ok c b" "cn_state c = InWorld"
    and "\<And>s. same_entry b b' s"
    and "bk_shard b' = bk_shard b @ ms" "ms \<in> {[], [\<lparr>sm_t = REQ_INPUT, sm_session = cn_session c, sm_body = body\<rparr>]}"
  shows "step_ok c b (flow, c, b')"
proof (rule step_okI)
  show "bk_shard b' = bk_shard b @ ms" by (rule assms(4))
  have "(bk_sessions b' (cn_session c) = None) = (bk_sessions b (cn_session c) = None)"
    using assms(3) [of "cn_session c"] by (auto simp: same_entry_def)
  with assms(1) show "conn_ok c b'" by (simp add: conn_ok_def del: not_None_eq)
qed (use assms in \<open>auto simp: sends_ok_def\<close>)

lemma same_entry_cong: "bk_sessions b1 = bk_sessions b \<Longrightarrow> bk_sessions b2 = bk_sessions b' \<Longrightarrow> same_entry b1 b2 s = same_entry b b' s"
  by (simp add: same_entry_def)

lemma held_frame: "same_entry b (set_held n h b) s" "bk_shard (set_held n h b) = bk_shard b"
  by (cases "bk_sessions b s"; simp add: set_held_def same_entry_def attach_payload_def)+

lemma hold_log_frame:
  "bk_sessions (accounthold_log L E c a act kvs b) = bk_sessions b" "bk_shard (accounthold_log L E c a act kvs b) = bk_shard b"
  by (simp_all add: accounthold_log_def log_line_def Let_def)

lemma held_logged:
  "same_entry b (accounthold_log L E c a act kvs (set_held n h b)) s"
  "bk_shard (accounthold_log L E c a act kvs (set_held n h b)) = bk_shard b"
  using held_frame(1) [of b n h s] by (simp_all add: same_entry_def hold_log_frame held_frame(2))

definition hold_quiet :: "broker \<Rightarrow> string \<times> broker \<Rightarrow> bool" where
  "hold_quiet b r \<longleftrightarrow> (\<forall>s. same_entry b (snd r) s) \<and> bk_shard (snd r) = bk_shard b"

lemma hold_quiet_rules:
  "hold_quiet b (t, b)"
  "hold_quiet b (t, accounthold_log L E c a act kvs (set_held n h (b\<lparr>bk_holds := hs\<rparr>)))"
  "(P \<Longrightarrow> hold_quiet b x) \<Longrightarrow> (\<not> P \<Longrightarrow> hold_quiet b y) \<Longrightarrow> hold_quiet b (if P then x else y)"
  using held_logged [where b = "b\<lparr>bk_holds := hs\<rparr>" and L = L and E = E and c = c and a = a
    and act = act and kvs = kvs and n = n and h = h]
  by (simp_all add: hold_quiet_def same_entry_refl same_entry_def)

lemma accounthold_quiet:
  "hold_quiet b (accounthold_add L E a raw ws c b)" "hold_quiet b (accounthold_del L E a raw c b)"
  unfolding accounthold_add_def accounthold_del_def Let_def
  by (auto intro!: hold_quiet_rules split: option.split admin_resp.split simp del: split_paired_All)

lemma accounthold_frame:
  "same_entry b (snd (handle_accounthold_command L E a line c b)) s"
  "bk_shard (snd (handle_accounthold_command L E a line c b)) = bk_shard b"
proof -
  have "hold_quiet b (handle_accounthold_command L E a line c b)"
    unfolding handle_accounthold_command_def Let_def by (intro hold_quiet_rules accounthold_quiet)
  then show "same_entry b (snd (handle_accounthold_command L E a line c b)) s"
    "bk_shard (snd (handle_accounthold_command L E a line c b)) = bk_shard b"
    by (simp_all add: hold_quiet_def)
qed

lemma conn_command_step:
  assumes "conn_ok c b" "cn_state c = InWorld"
  shows "step_ok c b (conn_command L E line c b)"
proof -
  note step = world_step [OF assms]
  have quiet: "step_ok c b (flow, c, b')" if "bk_sessions b' = bk_sessions b" "bk_shard b' = bk_shard b" for b' flow
    by (rule step [where ms = "[]"]) (simp_all add: that same_entry_refl)
  have dispatch: "step_ok c b (conn_dispatch L E nm l c b1)"
    if b1: "bk_sessions b1 = bk_sessions b" "bk_shard b1 = bk_shard b" for nm l b1
  proof -
    have forward: "step_ok c b (ConnGo, c, to_shard REQ_INPUT (cn_session c) (str_bytes l) b2)"
      if "bk_sessions b2 = bk_sessions b" "bk_shard b2 = bk_shard b" for b2
      by (rule step [where ms = "[\<lparr>sm_t = REQ_INPUT, sm_session = cn_session c, sm_body = str_bytes l\<rparr>]"])
        (simp_all add: to_shard_def same_entry_refl that)
    have hold: "step_ok c b (say_go s c (snd (handle_accounthold_command L E nm l c b1)))" for s
      unfolding say_go_def
      by (rule step [where ms = "[]"]) (use accounthold_frame [where b = b1 and L = L and E = E and a = nm and line = l and c = c] b1 in \<open>simp_all add: tell_def same_entry_def\<close>)
    show ?thesis
      unfolding conn_dispatch_def Let_def case_prod_beta
      by (intro step_if step_option forward hold; (simp only: say_go_def)?; (rule quiet)?; simp add: tell_def b1)
  qed
  show ?thesis
    unfolding conn_command_def Let_def
    by (intro step_if step_option dispatch quiet; simp add: log_line_def)
qed

text \<open>Every line keeps the invariant, whatever the other connections did before it.\<close>

lemma conn_line_step:
  assumes "conn_ok c b"
  shows "step_ok c b (conn_line L E line c b)"
  using need_name_step [OF assms] need_auth_method_step [OF assms] need_google_wait_step [OF assms]
    need_password_step [OF assms] creation_step [OF assms] conn_command_step [OF assms]
  by (simp add: conn_line_def split: conn_state.split)

end
