(* ===== verification/BrokerRun.thy ===== *)
theory BrokerRun
  imports LoginSafe "HOL-Library.Countable"
begin

text \<open>
  The broker as a whole: its connections and what they share, step by step. Clients connect, send
  bytes, are read line by line and leave; the administration socket, the shard and the link to it
  act in between, in any order. What every run keeps: the variables of the connections, the order of
  what the shard is told of each session, and the accounts and their file.
\<close>

section \<open>Steps\<close>

text \<open>
  \<open>sy_used\<close> is what \<open>new_session_id\<close> has given out; \<open>sy_hist\<close> is all that was ever sent to the shard's
  queue, which the link takes from the front or throws away.
\<close>

record broker_sys =
  sy_conns :: "session_id \<rightharpoonup> client_conn"
  sy_broker :: broker
  sy_used :: "session_id set"
  sy_hist :: "shard_msg list"

definition new_msgs :: "broker \<Rightarrow> broker \<Rightarrow> shard_msg list" where
  "new_msgs b b' = drop (length (bk_shard b)) (bk_shard b')"

text \<open>A connection at work on a line of its buffer, and after it: a line put back is at the front again.\<close>

definition after_line :: "conn_flow \<Rightarrow> string \<Rightarrow> client_conn \<Rightarrow> client_conn" where
  "after_line flow line c =
     (if flow = ConnReplay then c\<lparr>cn_linebuf := line @ [CHR 0x0A] @ cn_linebuf c\<rparr> else c)"

text \<open>
  \<open>Env\<close> says which environments can occur. A connection that is read keeps the replies to the telnet
  commands apart from the text; one that fails, or whose client resets it, leaves without the
  cleaning up.
\<close>

inductive broker_step :: "broker_lib \<Rightarrow> (conn_env \<Rightarrow> bool) \<Rightarrow> broker_sys \<Rightarrow> broker_sys \<Rightarrow> bool"
  for L Env where
  accepted: "Env E \<Longrightarrow> s \<notin> sy_used y \<Longrightarrow> conn_open L E s ip port (sy_broker y) = (c, b') \<Longrightarrow>
    broker_step L Env y (y\<lparr>sy_conns := (sy_conns y)(s \<mapsto> c), sy_broker := b', sy_used := insert s (sy_used y)\<rparr>)"
| received: "sy_conns y s = Some c \<Longrightarrow> try_pop_line (cn_linebuf c) = None \<Longrightarrow>
    iac_parse (cn_iac c) chunk = (p, data, replies) \<Longrightarrow>
    broker_step L Env y (y\<lparr>sy_conns := (sy_conns y)(s \<mapsto>
        c\<lparr>cn_iac := p, cn_linebuf := cn_linebuf c @ bytes_str data\<rparr>),
      sy_broker := (if replies = [] then sy_broker y else tell c (bytes_str replies) (sy_broker y))\<rparr>)"
| blank: "sy_conns y s = Some c \<Longrightarrow> try_pop_line (cn_linebuf c) = Some ([], rest) \<Longrightarrow>
    broker_step L Env y (y\<lparr>sy_conns := (sy_conns y)(s \<mapsto> c\<lparr>cn_linebuf := rest\<rparr>)\<rparr>)"
| line: "Env E \<Longrightarrow> sy_conns y s = Some c \<Longrightarrow> try_pop_line (cn_linebuf c) = Some (line, rest) \<Longrightarrow> line \<noteq> [] \<Longrightarrow>
    conn_line L E line (c\<lparr>cn_linebuf := rest\<rparr>) (sy_broker y) = (flow, c', b') \<Longrightarrow>
    flow = ConnGo \<or> flow = ConnReplay \<Longrightarrow>
    broker_step L Env y (y\<lparr>sy_conns := (sy_conns y)(s \<mapsto> after_line flow line c'), sy_broker := b',
      sy_hist := sy_hist y @ new_msgs (sy_broker y) b'\<rparr>)"
| stopped: "Env E \<Longrightarrow> sy_conns y s = Some c \<Longrightarrow> try_pop_line (cn_linebuf c) = Some (line, rest) \<Longrightarrow> line \<noteq> [] \<Longrightarrow>
    conn_line L E line (c\<lparr>cn_linebuf := rest\<rparr>) (sy_broker y) = (ConnStop, c', b') \<Longrightarrow>
    b'' = conn_close L E c' b' \<Longrightarrow>
    broker_step L Env y (y\<lparr>sy_conns := (sy_conns y)(s := None), sy_broker := b'',
      sy_hist := sy_hist y @ new_msgs (sy_broker y) b''\<rparr>)"
| failed: "Env E \<Longrightarrow> sy_conns y s = Some c \<Longrightarrow> try_pop_line (cn_linebuf c) = Some (line, rest) \<Longrightarrow> line \<noteq> [] \<Longrightarrow>
    conn_line L E line (c\<lparr>cn_linebuf := rest\<rparr>) (sy_broker y) = (ConnFail, c', b') \<Longrightarrow>
    broker_step L Env y (y\<lparr>sy_conns := (sy_conns y)(s := None), sy_broker := b',
      sy_hist := sy_hist y @ new_msgs (sy_broker y) b'\<rparr>)"
| left: "Env E \<Longrightarrow> sy_conns y s = Some c \<Longrightarrow> b' = conn_close L E c (sy_broker y) \<Longrightarrow>
    broker_step L Env y (y\<lparr>sy_conns := (sy_conns y)(s := None), sy_broker := b',
      sy_hist := sy_hist y @ new_msgs (sy_broker y) b'\<rparr>)"
| reset: "sy_conns y s = Some c \<Longrightarrow>
    broker_step L Env y (y\<lparr>sy_conns := (sy_conns y)(s := None)\<rparr>)"
| admin: "Env E \<Longrightarrow> broker_admin_conn L rd wr E line (sy_broker y) = (out, b') \<Longrightarrow>
    broker_step L Env y (y\<lparr>sy_broker := b'\<rparr>)"
| frame: "Env E \<Longrightarrow> shard_frame L E f (sy_broker y) = Some b' \<Longrightarrow>
    broker_step L Env y (y\<lparr>sy_broker := b'\<rparr>)"
| taken: "bk_shard (sy_broker y) = m # ms \<Longrightarrow>
    broker_step L Env y (y\<lparr>sy_broker := (sy_broker y)\<lparr>bk_shard := ms\<rparr>\<rparr>)"
| offline: "shard_offline L told (sy_broker y) = (told', b') \<Longrightarrow>
    broker_step L Env y (y\<lparr>sy_broker := b'\<rparr>)"

text \<open>The broker starts without connections and with an empty queue.\<close>

definition sys_start :: "broker \<Rightarrow> broker_sys" where
  "sys_start b = \<lparr>sy_conns = Map.empty, sy_broker = b\<lparr>bk_sessions := Map.empty, bk_shard := []\<rparr>,
     sy_used = {}, sy_hist = []\<rparr>"

definition sys_run :: "broker_lib \<Rightarrow> (conn_env \<Rightarrow> bool) \<Rightarrow> broker \<Rightarrow> broker_sys \<Rightarrow> bool" where
  "sys_run L Env b y \<longleftrightarrow> (broker_step L Env)\<^sup>*\<^sup>* (sys_start b) y"

text \<open>What every step of a relation keeps, every run keeps.\<close>

locale kept_by_steps =
  fixes step :: "'a \<Rightarrow> 'a \<Rightarrow> bool" and inv :: "'a \<Rightarrow> bool"
  assumes step_keeps: "step y y' \<Longrightarrow> inv y \<Longrightarrow> inv y'"
begin

lemma run_keeps:
  assumes "step\<^sup>*\<^sup>* y y'" "inv y"
  shows "inv y'"
  using assms by (induction rule: rtranclp_induct) (auto intro: step_keeps)

end

section \<open>What the steps leave alone\<close>

lemma close_facts:
  "bk_sessions (conn_close L E c b) = (bk_sessions b)(cn_session c := None)"
  "bk_shard (conn_close L E c b) = bk_shard b @
     (if bk_sessions b (cn_session c) = None then []
      else [\<lparr>sm_t = REQ_DETACH, sm_session = cn_session c, sm_body = []\<rparr>])"
  "bk_accounts (conn_close L E c b) = bk_accounts b"
  by (simp_all add: conn_close_def tell_def to_shard_def session_log_def log_line_def Let_def split: option.split)

lemma open_facts:
  "conn_open L E s ip port b = (c, b') \<Longrightarrow>
     cn_session c = s \<and> conn_ok c (b\<lparr>bk_sessions := (bk_sessions b)(s := None)\<rparr>) \<and> cn_state c = NeedName \<and>
     bk_sessions b' = bk_sessions b \<and> bk_shard b' = bk_shard b \<and> bk_accounts b' = bk_accounts b"
  by (auto simp: conn_open_def conn_ok_def signed_in_def tell_def log_line_def Let_def)

lemma route_same_entry:
  assumes "route_resp L E r b = Some b'"
  shows "same_entry b b' s" "bk_shard b' = bk_shard b" "bk_accounts b' = bk_accounts b"
  using assms
  by (auto simp: route_resp_def route_line_def same_entry_def attach_payload_def split: shard_resp.splits option.splits)

lemma frame_same_entry:
  assumes "shard_frame L E f b = Some b'"
  shows "same_entry b b' s" "bk_shard b' = bk_shard b" "bk_accounts b' = bk_accounts b"
  using assms route_same_entry
  by (auto simp: shard_frame_def same_entry_refl split: option.splits sum.splits)

lemma drop_queue_facts:
  "bk_sessions (drop_queue ms b) = bk_sessions b" "bk_accounts (drop_queue ms b) = bk_accounts b"
  by (induction ms b rule: drop_queue.induct) (simp_all add: notify_one_def)

lemma offline_facts:
  assumes "shard_offline L told b = (told', b')"
  shows "bk_sessions b' = bk_sessions b" "bk_accounts b' = bk_accounts b"
  using assms by (auto simp: shard_offline_def Let_def drop_queue_facts notify_all_def)

lemma kick_facts:
  "bk_sessions (snd (kick_by_char L n b)) = bk_sessions b" "bk_shard (snd (kick_by_char L n b)) = bk_shard b"
  "bk_accounts (snd (kick_by_char L n b)) = bk_accounts b"
  "bk_sessions (snd (kick_by_ip L p b)) = bk_sessions b" "bk_shard (snd (kick_by_ip L p b)) = bk_shard b"
  "bk_accounts (snd (kick_by_ip L p b)) = bk_accounts b"
  by (simp_all add: kick_by_char_def kick_by_ip_def kick_def Let_def)

text \<open>
  What becomes of the accounts: nothing, or one record, kept under its own name, is put into the map
  and the map is written; when it cannot be written it stays in memory only.
\<close>

definition accounts_named :: "accounts \<Rightarrow> bool" where
  "accounts_named a \<longleftrightarrow> (\<forall>n r. as_by_name a n = Some r \<longrightarrow> ac_name r = n)"

definition accounts_written :: "broker_lib \<Rightarrow> conn_env \<Rightarrow> accounts \<Rightarrow> accounts \<Rightarrow> bool" where
  "accounts_written L E a a' \<longleftrightarrow>
     a' = a \<or> (accounts_named a \<longrightarrow> (\<exists>r. a' = snd (accounts_save (lb_iter L) (lb_accounts_text L) (ce_save_ok E)
       (accounts_insert r a))))"

lemma accounts_written_same: "accounts_written L E a a"
  by (simp add: accounts_written_def)

lemma account_added: "accounts_written L E (bk_accounts b) (bk_accounts (snd (add_account L E r b)))"
  unfolding accounts_written_def add_account_def Let_def case_prod_beta by auto

lemma account_changed:
  assumes "ac_name r = n \<or> \<not> accounts_named a"
  shows "accounts_written L E a (snd (accounts_save (lb_iter L) (lb_accounts_text L) (ce_save_ok E)
     (a\<lparr>as_by_name := (as_by_name a)(n \<mapsto> r)\<rparr>)))"
  using assms by (auto simp: accounts_written_def accounts_insert_def)

lemma named_update:
  "as_by_name a n = Some r \<Longrightarrow> ac_name (f r) = ac_name r \<Longrightarrow> ac_name (f r) = n \<or> \<not> accounts_named a"
  by (auto simp: accounts_named_def)

lemma email_written:
  "accounts_written L E a (snd (account_email_set (lb_iter L) (lb_accounts_text L) (ce_save_ok E) name raw a))"
  "accounts_written L E a (snd (account_email_clear (lb_iter L) (lb_accounts_text L) (ce_save_ok E) name a))"
proof -
  have same: "a\<lparr>as_by_name := (as_by_name a)(name \<mapsto> r\<lparr>ac_email := Some e\<rparr>)\<rparr> = a"
    if "as_by_name a name = Some r" "ac_email r = Some e" for r e
    using that by (cases r) (simp add: fun_upd_idem)
  have changed: "accounts_written L E a (snd (accounts_save (lb_iter L) (lb_accounts_text L) (ce_save_ok E)
      (a\<lparr>as_by_name := (as_by_name a)(name \<mapsto> r\<lparr>ac_email := e\<rparr>)\<rparr>)))"
    if "as_by_name a name = Some r" for r e
    by (rule account_changed, rule named_update [OF that]) simp
  show "accounts_written L E a (snd (account_email_set (lb_iter L) (lb_accounts_text L) (ce_save_ok E) name raw a))"
    using changed by (auto simp: account_email_set_def accounts_written_same same Let_def case_prod_beta split: option.split)
  show "accounts_written L E a (snd (account_email_clear (lb_iter L) (lb_accounts_text L) (ce_save_ok E) name a))"
    using changed by (auto simp: account_email_clear_def accounts_written_same Let_def case_prod_beta split: option.split)
qed

lemma command_written:
  "accounts_written L E a (snd (handle_account_command (lb_iter L) (lb_accounts_text L) (ce_save_ok E) name line a))"
  by (simp add: handle_account_command_def accounts_written_same email_written Let_def)

text \<open>The administration socket.\<close>

lemma change_written:
  assumes "as_by_name (bk_accounts b) n = Some r" "ac_name r' = ac_name r"
  shows "accounts_written L E (bk_accounts b) (bk_accounts (snd (change_account L E n r' b)))"
  using account_changed [OF named_update [of _ _ r "\<lambda>_. r'", OF assms]]
  by (simp add: change_account_def Let_def case_prod_beta)

lemma change_facts:
  "bk_sessions (snd (change_account L E n r b)) = bk_sessions b" "bk_shard (snd (change_account L E n r b)) = bk_shard b"
  by (simp_all add: change_account_def Let_def case_prod_beta)

lemma admin_facts:
  "bk_sessions (snd (handle_admin_req L E q b)) = bk_sessions b"
  "bk_shard (snd (handle_admin_req L E q b)) = bk_shard b"
  "accounts_written L E (bk_accounts b) (bk_accounts (snd (handle_admin_req L E q b)))"
proof -
  note defs = handle_admin_req_def admin_ban_character_def admin_ban_ip_def admin_create_account_def
    admin_set_password_def admin_grant_caps_def Let_def case_prod_beta
  show "bk_sessions (snd (handle_admin_req L E q b)) = bk_sessions b"
    by (cases q; simp add: defs kick_facts account_frame change_facts split: option.split)
  show "bk_shard (snd (handle_admin_req L E q b)) = bk_shard b"
    by (cases q; simp add: defs kick_facts account_frame change_facts split: option.split)
  show "accounts_written L E (bk_accounts b) (bk_accounts (snd (handle_admin_req L E q b)))"
    by (cases q; simp add: defs kick_facts accounts_written_same account_added change_written split: option.split)
qed

lemma admin_conn_facts:
  assumes "broker_admin_conn L rd wr E line b = (out, b')"
  shows "bk_sessions b' = bk_sessions b" "bk_shard b' = bk_shard b"
    "accounts_written L E (bk_accounts b) (bk_accounts b')"
proof -
  consider "b' = b" | q where "b' = snd (handle_admin_req L E q b)"
    using assms by (auto simp: broker_admin_conn_def Let_def split: if_splits sum.splits prod.splits option.splits)
      (metis snd_conv)+
  then show "bk_sessions b' = bk_sessions b" "bk_shard b' = bk_shard b"
    "accounts_written L E (bk_accounts b) (bk_accounts b')"
    by (cases; simp add: admin_facts accounts_written_same)+
qed


text \<open>A line: every path that ends in the world or in a new account writes one record at most.\<close>

definition keeps_book :: "broker_lib \<Rightarrow> conn_env \<Rightarrow> broker \<Rightarrow> conn_result \<Rightarrow> bool" where
  "keeps_book L E b r \<longleftrightarrow> accounts_written L E (bk_accounts b) (bk_accounts (snd (snd r)))"

lemma book_same: "bk_accounts b' = bk_accounts b \<Longrightarrow> keeps_book L E b (flow, c, b')"
  by (simp add: keeps_book_def accounts_written_same)

lemma attach_accounts:
  "bk_accounts (attach_authenticated_session L E c n bt race cl sex pro auth am b) = bk_accounts b"
  by (simp add: attach_authenticated_session_def sending_defs Let_def)

lemma enter_accounts: "bk_accounts (snd (snd (enter_or_create L E lead n c b))) = bk_accounts b"
  by (simp add: enter_or_create_def say_go_def tell_def attach_accounts split: option.split)

lemma book_say: "keeps_book L E b (say_go s c b)"
  by (simp add: say_go_def tell_def book_same)

lemmas quiet_accounts = tell_def log_line_def echo_on_def oauth_remove_def enter_accounts attach_accounts

lemma book_enter:
  assumes "b' = b \<or> b' = snd (add_account L E r b)"
    and "bk_accounts b'' = bk_accounts b'"
  shows "keeps_book L E b (enter_or_create L E lead n c b'')" "keeps_book L E b (flow, c, b'')"
  using assms account_added by (auto simp: keeps_book_def enter_accounts accounts_written_same)

lemma password_books:
  "keeps_book L E b (need_password_create L E line c b)" "keeps_book L E b (need_password_login L E line c b)"
  unfolding need_password_create_def need_password_login_def rate_limited_def refused_password_def Let_def case_prod_beta
    keeps_book_def
  by (simp_all add: say_go_def quiet_accounts accounts_written_same split: option.split)
    (auto simp: add_account_def accounts_written_def Let_def case_prod_beta)


lemma inserted_written:
  "accounts_written L E a (snd (accounts_save (lb_iter L) (lb_accounts_text L) (ce_save_ok E) (accounts_insert r a)))"
  by (auto simp: accounts_written_def)

lemma added_accounts:
  "bk_accounts (snd (add_account L E r b))
    = snd (accounts_save (lb_iter L) (lb_accounts_text L) (ce_save_ok E) (accounts_insert r (bk_accounts b)))"
  by (simp add: add_account_def Let_def case_prod_beta)

lemmas written_simps = quiet_accounts say_go_def accounts_written_same inserted_written added_accounts

lemma google_books: "keeps_book L E b (need_google_wait L E line c b)"
  unfolding need_google_wait_def google_check_def google_checked_def Let_def case_prod_beta keeps_book_def
  by (simp add: written_simps split: option.split)

lemma pending_book: "keeps_book L E b (pending_sso L E p sub email caps n c b)"
  unfolding pending_sso_def Let_def case_prod_beta keeps_book_def
  by (simp add: written_simps split: option.split)

lemma refused_book:
  "keeps_book L E b (reject_ip_ban L E ban c b)" "keeps_book L E b (reject_char_ban L E cban n c b)"
  by (simp_all add: keeps_book_def reject_ip_ban_def reject_char_ban_def written_simps Let_def)

lemma choose_book: "keeps_book L E b (choose_name L E line c b)"
  unfolding choose_name_def pending_google_def pending_oidc_def Let_def
  by (auto simp: book_say pending_book refused_book split: option.split sso.split)

lemma check_books:
  "accounts_written L E (bk_accounts b) (bk_accounts (snd (snd (web_create_password L E q n c b))))"
  "accounts_written L E (bk_accounts b) (bk_accounts (snd (snd (web_login_password L q n c b))))"
  "accounts_written L E (bk_accounts b) (bk_accounts (snd (snd (web_sso p L E q action n c b))))"
proof -
  show "accounts_written L E (bk_accounts b) (bk_accounts (snd (snd (web_create_password L E q n c b))))"
    "accounts_written L E (bk_accounts b) (bk_accounts (snd (snd (web_login_password L q n c b))))"
    unfolding web_create_password_def web_login_password_def web_refuse_def Let_def case_prod_beta
    by (simp_all add: written_simps split: option.split)
  show "accounts_written L E (bk_accounts b) (bk_accounts (snd (snd (web_sso p L E q action n c b))))"
    unfolding web_sso_def web_refuse_def Let_def case_prod_beta
    by (cases "action = ''login'' \<or> action = ''auto''"; cases "as_by_name (bk_accounts b) n")
      (simp_all add: written_simps)
qed

lemma check_book: "accounts_written L E (bk_accounts b) (bk_accounts (snd (snd (web_check_method L E q action mth n c b))))"
  by (simp add: web_check_method_def web_google_def web_oidc_def check_books web_refuse_def tell_def accounts_written_same)

lemma checked_book:
  assumes "accounts_written L E (bk_accounts b) (bk_accounts (snd (snd r)))"
  shows "keeps_book L E b (case r of (None, c, b) \<Rightarrow> (ConnFail, c, b) | (Some False, c, b) \<Rightarrow> (ConnGo, c, b)
      | (Some True, c, b) \<Rightarrow> enter_or_create L E crlf (opt_text (cn_name c)) c b)"
proof -
  obtain ok c' b' where r: "r = (ok, c', b')" by (cases r)
  consider "ok = None" | "ok = Some True" | "ok = Some False" by (cases ok) auto
  then show ?thesis
    using assms unfolding r keeps_book_def by cases (simp_all add: enter_accounts)
qed

lemma auth_as_book: "keeps_book L E b (web_auth_as L E q action mth n c b)"
proof (cases "n = []")
  case False
  then show ?thesis
  proof (cases "is_char_banned (bk_bans b) n")
    case None
    show ?thesis
      unfolding web_auth_as_def if_not_P [OF False] None option.case by (rule checked_book [OF check_book])
  qed (simp add: web_auth_as_def refused_book)
qed (simp add: web_auth_as_def book_say)

lemma need_name_book: "keeps_book L E b (need_name L E line c b)"
proof -
  have auto: "keeps_book L E b (web_auth_auto L E q p mth c b)" for q p mth c
    unfolding web_auth_auto_def Let_def
    by (auto simp: book_say book_same auth_as_book split: option.split list.split)
  have web: "keeps_book L E b (web_auth_line L E rest c b)" for rest c
    using auto auth_as_book unfolding web_auth_line_def Let_def by (auto simp: book_say split: option.split)
  have proxy: "keeps_book L E b r" if "proxy_header L E l c b = Some r" for r l
    using that unfolding proxy_header_def keeps_book_def reject_ip_ban_def Let_def
    by (auto simp: written_simps split: if_splits option.splits)
  show ?thesis
    unfolding need_name_def Let_def
    by (auto simp: book_same refused_book choose_book web split: option.split if_splits intro: proxy)
qed

lemma creation_books:
  "keeps_book L E b (need_bot_disclosure line c b)" "keeps_book L E b (need_public_ack line c b)"
  "keeps_book L E b (need_coc_ack line c b)" "keeps_book L E b (need_race line c b)"
  "keeps_book L E b (need_class line c b)" "keeps_book L E b (need_sex L E line c b)"
  unfolding need_bot_disclosure_def need_public_ack_def need_coc_ack_def need_race_def need_class_def need_sex_def
    finish_creation_def Let_def keeps_book_def
  by (simp_all add: written_simps split: option.split)

lemma hold_accounts: "bk_accounts (snd (handle_accounthold_command L E a line c b)) = bk_accounts b"
proof -
  have "bk_accounts (accounthold_log L E c a act kvs (set_held n h (b\<lparr>bk_holds := hs\<rparr>))) = bk_accounts b"
    for act kvs n h hs
    by (simp add: accounthold_log_def set_held_def log_line_def Let_def)
  then show ?thesis
    unfolding handle_accounthold_command_def accounthold_add_def accounthold_del_def Let_def
    by (simp split: option.split admin_resp.split)
qed

lemma command_book: "keeps_book L E b (conn_command L E line c b)"
proof -
  have "keeps_book L E b (conn_dispatch L E n l c b1)" if "bk_accounts b1 = bk_accounts b" for n l b1
    unfolding conn_dispatch_def Let_def case_prod_beta keeps_book_def
    using that command_written [of L E "bk_accounts b" n l]
    by (simp add: written_simps to_shard_def hold_accounts split: option.split)
  then show ?thesis
    unfolding conn_command_def Let_def by (auto simp: written_simps book_same split: option.split)
qed

lemma conn_line_book: "keeps_book L E b (conn_line L E line c b)"
proof -
  have "keeps_book L E b (need_auth_method L E line c b)"
    unfolding need_auth_method_def choose_password_def choose_google_def Let_def keeps_book_def
    by (simp add: written_simps split: option.split)
  moreover have "keeps_book L E b (need_pronouns L E line c b)"
    using command_book unfolding need_pronouns_def finish_creation_def Let_def
    by (auto simp: book_say book_same written_simps split: option.split)
  ultimately show ?thesis
    by (simp add: conn_line_def need_name_book password_books google_books creation_books command_book
        split: conn_state.split)
qed


section \<open>What the shard is told of a session\<close>

definition session_talk :: "session_id \<Rightarrow> shard_msg list \<Rightarrow> u8 list" where
  "session_talk s ms = map sm_t (filter (\<lambda>m. sm_session m = s) ms)"

definition talking :: "u8 list \<Rightarrow> bool" where
  "talking t \<longleftrightarrow> (\<exists>n. t = REQ_ATTACH # replicate n REQ_INPUT)"

text \<open>Nothing; an attachment and inputs; or these and a detachment at the end.\<close>

definition talk_in_order :: "u8 list \<Rightarrow> bool" where
  "talk_in_order t \<longleftrightarrow> t = [] \<or> talking t \<or> (\<exists>t'. talking t' \<and> t = t' @ [REQ_DETACH])"

definition attached :: "session_id \<Rightarrow> session_info \<Rightarrow> shard_msg list \<Rightarrow> bool" where
  "attached s si ms \<longleftrightarrow>
     (\<exists>m \<in> set ms. sm_session m = s \<and> sm_t m = REQ_ATTACH \<and> msg_payload m = attach_payload s si)"

definition session_ok :: "session_id \<Rightarrow> bool \<Rightarrow> broker \<Rightarrow> shard_msg list \<Rightarrow> bool" where
  "session_ok s alive b ms \<longleftrightarrow>
     (case bk_sessions b s of
        Some si \<Rightarrow> talking (session_talk s ms) \<and> attached s si ms
      | None \<Rightarrow> session_talk s ms = [] \<or>
          (\<not> alive \<and> (\<exists>t. talking t \<and> session_talk s ms = t @ [REQ_DETACH])))"

lemma session_ok_order: "session_ok s alive b ms \<Longrightarrow> talk_in_order (session_talk s ms)"
  by (auto simp: session_ok_def talk_in_order_def split: option.splits)

lemma talking_input: "talking t \<Longrightarrow> talking (t @ [REQ_INPUT])"
  unfolding talking_def by (auto simp flip: replicate_append_same intro: exI [of _ "Suc _"])

lemma talk_append: "session_talk s (ms @ ns) = session_talk s ms @ session_talk s ns"
  by (simp add: session_talk_def)

lemma talk_own: "list_all (\<lambda>m. sm_session m = s) ms \<Longrightarrow> session_talk s ms = map sm_t ms"
  by (induction ms) (simp_all add: session_talk_def)

lemma talk_other: "list_all (\<lambda>m. sm_session m = s) ms \<Longrightarrow> s' \<noteq> s \<Longrightarrow> session_talk s' ms = []"
  by (induction ms) (auto simp: session_talk_def)

text \<open>The steps of others, and the dying of a connection, keep it.\<close>

lemma session_ok_same:
  assumes "session_ok s alive b ms" "same_entry b b' s" "session_talk s ns = []" "alive' \<longrightarrow> alive"
  shows "session_ok s alive' b' (ms @ ns)"
  using assms
  by (auto simp: session_ok_def same_entry_def attached_def talk_append split: option.splits)

lemma session_ok_line:
  assumes "session_ok (cn_session c) True b ms" "conn_ok c b" "step_ok c b (flow, c', b')"
    and "bk_shard b' = bk_shard b @ ns" "alive' \<or> \<not> alive'"
  shows "session_ok (cn_session c) alive' b' (ms @ ns)"
proof -
  let ?s = "cn_session c"
  from assms(3,4) have sends: "sends_ok c b c' b' ns" by (auto simp: step_ok_def)
  then have own: "session_talk ?s ns = map sm_t ns" by (intro talk_own) (simp add: sends_ok_def)
  have entry: "bk_sessions b ?s \<noteq> None \<longleftrightarrow> cn_state c = InWorld" using assms(2) by (simp add: conn_ok_def)
  show ?thesis
  proof (cases "cn_state c = InWorld")
    case True
    then obtain si where si: "bk_sessions b ?s = Some si" using entry by auto
    have same: "same_entry b b' ?s" and ns: "map sm_t ns = [] \<or> map sm_t ns = [REQ_INPUT]"
      using sends True by (auto simp: sends_ok_def)
    have "talking (session_talk ?s ms @ map sm_t ns)"
      using assms(1) si ns by (auto simp: session_ok_def intro: talking_input)
    then show ?thesis
      using assms(1) si same
      by (auto simp: session_ok_def same_entry_def attached_def talk_append own split: option.splits)
  next
    case False
    then have none: "bk_sessions b ?s = None" using entry by auto
    then have quiet: "session_talk ?s ms = []" using assms(1) by (simp add: session_ok_def)
    show ?thesis
    proof (cases "cn_state c' = InWorld")
      case True
      then have "map sm_t ns = [REQ_ATTACH]"
        "map (Some \<circ> msg_payload) ns = [map_option (attach_payload ?s) (bk_sessions b' ?s)]"
        "list_all (\<lambda>m. sm_session m = ?s) ns"
        using sends False by (simp_all add: sends_ok_def)
      then show ?thesis
        using quiet
        by (auto simp: session_ok_def talk_append own attached_def talking_def map_eq_Cons_conv split: option.splits)
    next
      case out: False
      then have "ns = []" "same_entry b b' ?s" using sends False by (simp_all add: sends_ok_def)
      then show ?thesis using none quiet by (auto simp: session_ok_def same_entry_def)
    qed
  qed
qed

lemma session_ok_close:
  assumes "session_ok (cn_session c) alive b ms" "bk_shard (conn_close L E c b) = bk_shard b @ ns"
  shows "session_ok (cn_session c) False (conn_close L E c b) (ms @ ns)"
  using assms
  by (auto simp: session_ok_def close_facts talk_append session_talk_def split: option.splits if_splits)


section \<open>Every run\<close>

definition sys_ok :: "broker_sys \<Rightarrow> bool" where
  "sys_ok y \<longleftrightarrow>
     (\<forall>s c. sy_conns y s = Some c \<longrightarrow> cn_session c = s \<and> s \<in> sy_used y \<and> conn_ok c (sy_broker y)) \<and>
     (\<forall>s. session_ok s (sy_conns y s \<noteq> None) (sy_broker y) (sy_hist y)) \<and>
     (\<forall>s. s \<notin> sy_used y \<longrightarrow> bk_sessions (sy_broker y) s = None \<and> session_talk s (sy_hist y) = [])"

lemma sys_okD:
  assumes "sys_ok y"
  shows "sy_conns y s = Some c \<Longrightarrow> cn_session c = s" "sy_conns y s = Some c \<Longrightarrow> s \<in> sy_used y"
    "sy_conns y s = Some c \<Longrightarrow> conn_ok c (sy_broker y)"
    "session_ok s (sy_conns y s \<noteq> None) (sy_broker y) (sy_hist y)"
    "s \<notin> sy_used y \<Longrightarrow> bk_sessions (sy_broker y) s = None"
    "s \<notin> sy_used y \<Longrightarrow> session_talk s (sy_hist y) = []"
  using assms unfolding sys_ok_def by blast+

lemma conn_ok_same: "conn_ok c b \<Longrightarrow> same_entry b b' (cn_session c) \<Longrightarrow> conn_ok c b'"
  by (auto simp: conn_ok_def same_entry_def)

lemma conn_ok_buffer: "conn_ok (c\<lparr>cn_linebuf := l\<rparr>) b = conn_ok c b" "conn_ok (c\<lparr>cn_iac := p\<rparr>) b = conn_ok c b"
  by (simp_all add: conn_ok_def)

text \<open>One session changes, the others do not.\<close>

lemma sys_ok_one:
  assumes "sys_ok y" "\<And>s'. s' \<noteq> s \<Longrightarrow> same_entry (sy_broker y) b' s'"
    and "\<And>s'. s' \<noteq> s \<Longrightarrow> session_talk s' ns = []"
    and "\<And>s'. s' \<noteq> s \<Longrightarrow> cs s' = sy_conns y s'"
    and "\<And>c. cs s = Some c \<Longrightarrow> cn_session c = s \<and> conn_ok c b'" "session_ok s (cs s \<noteq> None) b' (sy_hist y @ ns)"
    and "used = insert s (sy_used y)"
  shows "sys_ok (y\<lparr>sy_conns := cs, sy_broker := b', sy_used := used, sy_hist := sy_hist y @ ns\<rparr>)"
proof -
  have "cn_session c = s' \<and> s' \<in> used \<and> conn_ok c b'" if "cs s' = Some c" for s' c
  proof (cases "s' = s")
    case False
    then have c: "sy_conns y s' = Some c" using that assms(4) by simp
    then show ?thesis
      using sys_okD(1-3) [OF assms(1) c] assms(2) [OF False] conn_ok_same by (auto simp: assms(7))
  qed (use that assms(5,7) in auto)
  moreover have "session_ok s' (cs s' \<noteq> None) b' (sy_hist y @ ns)" for s'
    using assms(2-4,6) session_ok_same [OF sys_okD(4) [OF assms(1)]] by (cases "s' = s") simp_all
  moreover have "bk_sessions b' s' = None \<and> session_talk s' (sy_hist y @ ns) = []" if "s' \<notin> used" for s'
  proof -
    have other: "s' \<noteq> s" "s' \<notin> sy_used y" using that assms(7) by auto
    then show ?thesis
      using sys_okD(5,6) [OF assms(1) other(2)] assms(2,3) [OF other(1)] by (auto simp: same_entry_def talk_append)
  qed
  ultimately show ?thesis by (simp add: sys_ok_def)
qed

lemma sys_ok_shared:
  assumes "sys_ok y" "\<And>s. same_entry (sy_broker y) b' s"
  shows "sys_ok (y\<lparr>sy_broker := b'\<rparr>)"
proof -
  have "session_ok s (sy_conns y s \<noteq> None) b' (sy_hist y)" for s
    using session_ok_same [OF sys_okD(4) [OF assms(1)] assms(2), where ns = "[]"] by (simp add: session_talk_def)
  moreover have "bk_sessions b' s = None" if "s \<notin> sy_used y" for s
    using sys_okD(5) [OF assms(1) that] assms(2) [of s] by (simp add: same_entry_def)
  ultimately show ?thesis
    using sys_okD(1-3,6) [OF assms(1)] conn_ok_same [OF _ assms(2)] by (simp add: sys_ok_def)
qed

lemma step_others:
  assumes "step_ok c b (flow, c', b')"
  shows "bk_shard b' = bk_shard b @ new_msgs b b'" "s \<noteq> cn_session c \<Longrightarrow> same_entry b b' s"
    "s \<noteq> cn_session c \<Longrightarrow> session_talk s (new_msgs b b') = []"
proof -
  obtain ms where ms: "bk_shard b' = bk_shard b @ ms" "list_all (\<lambda>m. sm_session m = cn_session c) ms"
    using assms by (auto simp: step_ok_def sends_ok_def)
  then show "bk_shard b' = bk_shard b @ new_msgs b b'" by (simp add: new_msgs_def)
  show "s \<noteq> cn_session c \<Longrightarrow> same_entry b b' s" using assms by (simp add: step_ok_def)
  show "s \<noteq> cn_session c \<Longrightarrow> session_talk s (new_msgs b b') = []"
    using ms by (simp add: new_msgs_def talk_other)
qed

lemma close_others:
  "bk_shard (conn_close L E c b) = bk_shard b @ new_msgs b (conn_close L E c b)"
  "s \<noteq> cn_session c \<Longrightarrow> same_entry b (conn_close L E c b) s"
  "s \<noteq> cn_session c \<Longrightarrow> session_talk s (new_msgs b (conn_close L E c b)) = []"
  by (simp_all add: new_msgs_def close_facts same_entry_def session_talk_def)

lemma new_msgs_append:
  "bk_shard b' = bk_shard b @ ms \<Longrightarrow> bk_shard b'' = bk_shard b' @ ns \<Longrightarrow> new_msgs b b'' = ms @ ns"
  by (simp add: new_msgs_def)


lemma line_keeps:
  assumes "sys_ok y" "sy_conns y s = Some c"
    and "conn_line L E line (c\<lparr>cn_linebuf := rest\<rparr>) (sy_broker y) = (flow, c', b')"
  shows "step_ok (c\<lparr>cn_linebuf := rest\<rparr>) (sy_broker y) (flow, c', b')" "cn_session c' = s"
    "flow = ConnGo \<or> flow = ConnReplay \<Longrightarrow> conn_ok c' b'"
    "session_ok s alive b' (sy_hist y @ new_msgs (sy_broker y) b')"
proof -
  have c: "cn_session c = s" "conn_ok (c\<lparr>cn_linebuf := rest\<rparr>) (sy_broker y)"
    using sys_okD(1,3) [OF assms(1,2)] by (simp_all add: conn_ok_buffer)
  show step: "step_ok (c\<lparr>cn_linebuf := rest\<rparr>) (sy_broker y) (flow, c', b')"
    using conn_line_step [OF c(2), of L E line] assms(3) by simp
  then show "cn_session c' = s" "flow = ConnGo \<or> flow = ConnReplay \<Longrightarrow> conn_ok c' b'"
    using c(1) by (auto simp: step_ok_def)
  have "session_ok (cn_session (c\<lparr>cn_linebuf := rest\<rparr>)) True (sy_broker y) (sy_hist y)"
    using sys_okD(4) [OF assms(1), of s] assms(2) c(1) by simp
  from session_ok_line [OF this c(2) step step_others(1) [OF step], of alive]
  show "session_ok s alive b' (sy_hist y @ new_msgs (sy_broker y) b')" using c(1) by simp
qed

text \<open>A step of the connection \<open>s\<close>, which goes on as \<open>x\<close>, or ends.\<close>

lemma sys_ok_own:
  assumes "sys_ok y" "sy_conns y s = Some c0" "\<And>s'. s' \<noteq> s \<Longrightarrow> same_entry (sy_broker y) b' s'"
    and "\<And>s'. s' \<noteq> s \<Longrightarrow> session_talk s' ns = []"
    and "\<And>c. x = Some c \<Longrightarrow> cn_session c = s \<and> conn_ok c b'" "session_ok s (x \<noteq> None) b' (sy_hist y @ ns)"
  shows "sys_ok (y\<lparr>sy_conns := (sy_conns y)(s := x), sy_broker := b', sy_hist := sy_hist y @ ns\<rparr>)"
proof -
  have "sys_ok (y\<lparr>sy_conns := (sy_conns y)(s := x), sy_broker := b', sy_used := sy_used y, sy_hist := sy_hist y @ ns\<rparr>)"
  proof (rule sys_ok_one [OF assms(1), of s])
    show "sy_used y = insert s (sy_used y)" using sys_okD(2) [OF assms(1,2)] by auto
    show "session_ok s (((sy_conns y)(s := x)) s \<noteq> None) b' (sy_hist y @ ns)" using assms(6) by simp
    show "cn_session c = s \<and> conn_ok c b'" if "((sy_conns y)(s := x)) s = Some c" for c
      using assms(5) that by simp
  qed (use assms(3,4) in simp_all)
  then show ?thesis by simp
qed

lemma sys_ok_quiet:
  assumes "sys_ok y" "sy_conns y s = Some c" "bk_sessions b' = bk_sessions (sy_broker y)"
    and "\<And>c'. x = Some c' \<Longrightarrow> cn_session c' = s \<and> (conn_ok c b' \<longrightarrow> conn_ok c' b')"
  shows "sys_ok (y\<lparr>sy_conns := (sy_conns y)(s := x), sy_broker := b'\<rparr>)"
proof -
  have same: "same_entry (sy_broker y) b' s'" for s' by (rule same_entry_refl [OF assms(3)])
  have "conn_ok c b'" by (rule conn_ok_same [OF sys_okD(3) [OF assms(1,2)] same])
  moreover have "session_ok s (x \<noteq> None) b' (sy_hist y @ [])"
    by (rule session_ok_same [OF sys_okD(4) [OF assms(1), of s] same]) (use assms(2) in \<open>simp_all add: session_talk_def\<close>)
  ultimately have "sys_ok (y\<lparr>sy_conns := (sy_conns y)(s := x), sy_broker := b', sy_hist := sy_hist y @ []\<rparr>)"
    by (intro sys_ok_own [OF assms(1,2) same]) (use assms(4) in \<open>auto simp: session_talk_def\<close>)
  then show ?thesis by simp
qed

lemma sys_ok_closed:
  assumes "sys_ok y" "sy_conns y s = Some c" "cn_session c' = s" "session_ok s True b' (sy_hist y @ ms)"
    and "bk_shard b' = bk_shard (sy_broker y) @ ms"
    and "\<And>s'. s' \<noteq> s \<Longrightarrow> same_entry (sy_broker y) b' s'" "\<And>s'. s' \<noteq> s \<Longrightarrow> session_talk s' ms = []"
    and "b'' = conn_close L E c' b'"
  shows "sys_ok (y\<lparr>sy_conns := (sy_conns y)(s := None), sy_broker := b'',
      sy_hist := sy_hist y @ new_msgs (sy_broker y) b''\<rparr>)"
proof -
  let ?ns = "new_msgs b' (conn_close L E c' b')"
  have msgs: "new_msgs (sy_broker y) b'' = ms @ ?ns"
    unfolding assms(8) by (rule new_msgs_append [OF assms(5) close_others(1)])
  have closed: "session_ok s False b'' (sy_hist y @ ms @ ?ns)"
    using session_ok_close [OF _ close_others(1), of c' True b' "sy_hist y @ ms" L E] assms(3,4,8) by simp
  have other: "same_entry (sy_broker y) b'' s'" "session_talk s' (ms @ ?ns) = []" if "s' \<noteq> s" for s'
    using assms(6,7) [OF that] close_others(2,3) [of s' c' b' L E] that assms(3,8) by (simp_all add: same_entry_def talk_append)
  show ?thesis
    unfolding msgs by (rule sys_ok_own [OF assms(1,2)]) (use other closed in simp_all)
qed

lemma sys_ok_accepted:
  assumes "sys_ok y" "s \<notin> sy_used y" "conn_open L E s ip port (sy_broker y) = (c, b')"
  shows "sys_ok (y\<lparr>sy_conns := (sy_conns y)(s \<mapsto> c), sy_broker := b', sy_used := insert s (sy_used y)\<rparr>)"
proof -
  note o = open_facts [OF assms(3)]
  have none: "bk_sessions (sy_broker y) s = None" using sys_okD(5) [OF assms(1,2)] .
  have "sys_ok (y\<lparr>sy_conns := (sy_conns y)(s \<mapsto> c), sy_broker := b', sy_used := insert s (sy_used y),
      sy_hist := sy_hist y @ []\<rparr>)"
  proof (rule sys_ok_one [OF assms(1), of s])
    show "cn_session c2 = s \<and> conn_ok c2 b'" if "((sy_conns y)(s \<mapsto> c)) s = Some c2" for c2
      using that o none by (simp add: conn_ok_def)
    show "session_ok s (((sy_conns y)(s \<mapsto> c)) s \<noteq> None) b' (sy_hist y @ [])"
      using sys_okD(6) [OF assms(1,2)] none o by (simp add: session_ok_def)
  qed (use o in \<open>simp_all add: same_entry_refl session_talk_def\<close>)
  then show ?thesis by simp
qed

lemma broker_step_ok:
  assumes "broker_step L Env y y'" "sys_ok y"
  shows "sys_ok y'"
  using assms(1)
proof cases
  case (accepted E s ip port c b')
  then show ?thesis using sys_ok_accepted [OF assms(2)] by simp
next
  case (received s c chunk p data replies)
  show ?thesis unfolding received(1)
    by (rule sys_ok_quiet [OF assms(2) received(2)])
      (use sys_okD(1) [OF assms(2) received(2)] in \<open>auto simp: tell_def conn_ok_def\<close>)
next
  case (blank s c rest)
  have "sys_ok (y\<lparr>sy_conns := (sy_conns y)(s \<mapsto> c\<lparr>cn_linebuf := rest\<rparr>), sy_broker := sy_broker y\<rparr>)"
    by (rule sys_ok_quiet [OF assms(2) blank(2) refl])
      (use sys_okD(1) [OF assms(2) blank(2)] in \<open>auto simp: conn_ok_buffer\<close>)
  then show ?thesis unfolding blank(1) by simp
next
  case (line E s c ln rest flow c' b')
  note k = line_keeps [OF assms(2) line(3,6)]
  have flow: "cn_session (after_line flow ln c') = s" "conn_ok (after_line flow ln c') b'"
    using k(2,3) line(7) by (auto simp: after_line_def conn_ok_buffer)
  show ?thesis unfolding line(1)
    by (rule sys_ok_own [OF assms(2) line(3)])
      (use flow k(4) [of True] step_others(2,3) [OF k(1)] sys_okD(1) [OF assms(2) line(3)] in auto)
next
  case (stopped E s c ln rest c' b' b'')
  note k = line_keeps [OF assms(2) stopped(3,6)]
  show ?thesis unfolding stopped(1)
    by (rule sys_ok_closed [OF assms(2) stopped(3) k(2,4) step_others(1) [OF k(1)] _ _ stopped(7)])
      (use step_others(2,3) [OF k(1)] sys_okD(1) [OF assms(2) stopped(3)] in simp_all)
next
  case (failed E s c ln rest c' b')
  note k = line_keeps [OF assms(2) failed(3,6)]
  show ?thesis unfolding failed(1)
    by (rule sys_ok_own [OF assms(2) failed(3)])
      (use k(4) [of False] step_others(2,3) [OF k(1)] sys_okD(1) [OF assms(2) failed(3)] in simp_all)
next
  case (left E s c b')
  have "session_ok s True (sy_broker y) (sy_hist y @ [])" using sys_okD(4) [OF assms(2), of s] left(3) by simp
  then show ?thesis unfolding left(1)
    by (rule sys_ok_closed [OF assms(2) left(3) sys_okD(1) [OF assms(2) left(3)] _ _ _ _ left(4)])
      (simp_all add: same_entry_def session_talk_def)
next
  case (reset s c)
  have "sys_ok (y\<lparr>sy_conns := (sy_conns y)(s := None), sy_broker := sy_broker y\<rparr>)"
    by (rule sys_ok_quiet [OF assms(2) reset(2) refl]) simp
  then show ?thesis unfolding reset(1) by simp
next
  case (admin E rd wr line out b')
  show ?thesis unfolding admin(1)
    by (rule sys_ok_shared [OF assms(2)]) (simp add: same_entry_refl admin_conn_facts(1) [OF admin(3)])
next
  case (frame E f b')
  show ?thesis unfolding frame(1) by (rule sys_ok_shared [OF assms(2)]) (rule frame_same_entry(1) [OF frame(3)])
next
  case (taken m ms)
  show ?thesis unfolding taken(1) by (rule sys_ok_shared [OF assms(2)]) (simp add: same_entry_refl)
next
  case (offline told told' b')
  show ?thesis unfolding offline(1)
    by (rule sys_ok_shared [OF assms(2)]) (simp add: same_entry_refl offline_facts(1) [OF offline(2)])
qed

lemma sys_start_ok: "sys_ok (sys_start b)"
  by (simp add: sys_ok_def sys_start_def session_ok_def session_talk_def)

interpretation broker_order: kept_by_steps "broker_step L Env" sys_ok for L Env
  by unfold_locales (rule broker_step_ok)

lemma sys_run_ok:
  assumes "sys_run L Env b y"
  shows "sys_ok y"
  using broker_order.run_keeps [OF _ sys_start_ok] assms unfolding sys_run_def .


lemma step_used: "broker_step L Env y y' \<Longrightarrow> finite (sy_used y) \<Longrightarrow> finite (sy_used y')"
  by (induction rule: broker_step.induct) simp_all

interpretation used_ids: kept_by_steps "broker_step L Env" "\<lambda>y. finite (sy_used y)" for L Env
  by unfold_locales (rule step_used)

lemma run_used: "sys_run L Env b y \<Longrightarrow> finite (dom (bk_sessions (sy_broker y)))"
proof -
  assume run: "sys_run L Env b y"
  then have "finite (sy_used y)"
    using used_ids.run_keeps [of L Env "sys_start b" y] by (simp add: sys_run_def sys_start_def)
  moreover have "dom (bk_sessions (sy_broker y)) \<subseteq> sy_used y"
    using sys_okD(5) [OF sys_run_ok [OF run]] by fastforce
  ultimately show ?thesis by (rule rev_finite_subset)
qed

section \<open>The accounts and their file\<close>

definition accounts_kept :: "(string \<Rightarrow> account_rec list option) \<Rightarrow> accounts \<Rightarrow> bool" where
  "accounts_kept from_json a \<longleftrightarrow>
     accounts_named a \<and> finite (dom (as_by_name a)) \<and>
     as_by_name (accounts_load from_json (as_file a)) = as_by_name a"

lemma load_kept: "accounts_kept from_json (accounts_load from_json f)"
proof -
  have "accounts_named (accounts_load from_json f)"
    by (auto simp: accounts_named_def accounts_load_def dest: map_by_key_SomeD split: option.splits)
  moreover have "finite (dom (as_by_name (accounts_load from_json f)))"
  proof -
    have "dom (map_by_key ac_name v) \<subseteq> ac_name ` set v" for v :: "account_rec list"
      by (auto dest: map_by_key_SomeD)
    then have "finite (dom (map_by_key ac_name v))" for v :: "account_rec list"
      by (rule finite_subset) simp
    then show ?thesis by (simp add: accounts_load_def split: option.split)
  qed
  ultimately show ?thesis by (simp add: accounts_kept_def) (simp add: accounts_load_def)
qed

lemma written_map:
  assumes "iter_ok iter" "finite (dom m)" "\<And>n x. m n = Some x \<Longrightarrow> key x = n"
  shows "map_by_key key (sort_key key (map_values iter m)) = (m :: string \<rightharpoonup> 'a)"
proof (rule ext)
  fix n
  let ?vs = "sort_key key (map_values iter m)"
  have vs: "set ?vs = ran m" using set_map_values [OF assms(1,2)] by simp
  show "map_by_key key ?vs n = m n"
  proof (cases "m n")
    case None
    have "map_by_key key ?vs n \<noteq> Some x" for x
      using map_by_key_SomeD [of key ?vs n x] vs None assms(3) by (auto simp: ran_def)
    then show ?thesis using None by (cases "map_by_key key ?vs n") auto
  next
    case (Some x)
    then have x: "x \<in> set ?vs" "key x = n" using vs assms(3) by (auto intro: ranI)
    have "map_by_key key ?vs (key x) = Some x"
      by (rule map_by_key_inj [OF x(1)]) (use vs assms(3) x(2) Some in \<open>auto simp: ran_def\<close>)
    then show ?thesis using x(2) Some by simp
  qed
qed

lemma written_kept:
  assumes "accounts_written L E a a'" "accounts_kept from_json a" "ce_save_ok E" "iter_ok (lb_iter L)"
    and json: "\<And>rs. from_json (lb_accounts_text L rs) = Some rs"
  shows "accounts_kept from_json a'"
proof (cases "a' = a")
  case False
  have old: "accounts_named a" "finite (dom (as_by_name a))" using assms(2) by (simp_all add: accounts_kept_def)
  with False assms(1) obtain r where
    r: "a' = snd (accounts_save (lb_iter L) (lb_accounts_text L) (ce_save_ok E) (accounts_insert r a))"
    unfolding accounts_written_def by blast
  let ?m = "(as_by_name a)(ac_name r \<mapsto> r)"
  have a': "as_by_name a' = ?m" "as_file a' = Some (lb_accounts_text L (sort_key ac_name (map_values (lb_iter L) ?m)))"
    using assms(3) by (simp_all add: r accounts_save_def accounts_insert_def)
  have fin: "finite (dom ?m)" using old(2) by simp
  have named: "ac_name x = n" if "?m n = Some x" for n x
    using that old(1) by (auto simp: accounts_named_def split: if_splits)
  have "map_by_key ac_name (sort_key ac_name (map_values (lb_iter L) ?m)) = ?m"
    by (rule written_map [OF assms(4) fin named])
  then have "as_by_name (accounts_load from_json (as_file a')) = ?m" by (simp add: accounts_load_def a'(2) json)
  then show ?thesis
    using fin named unfolding accounts_kept_def accounts_named_def a'(1) by blast
qed (use assms(2) in simp)

lemma step_accounts:
  assumes "broker_step L Env y y'"
  shows "bk_accounts (sy_broker y') = bk_accounts (sy_broker y) \<or>
    (\<exists>E. Env E \<and> accounts_written L E (bk_accounts (sy_broker y)) (bk_accounts (sy_broker y')))"
  using assms
proof cases
  case (line E s c ln rest flow c' b')
  then show ?thesis using conn_line_book [of L E "sy_broker y" ln "c\<lparr>cn_linebuf := rest\<rparr>"] by (auto simp: keeps_book_def)
next
  case (stopped E s c ln rest c' b' b'')
  then show ?thesis
    using conn_line_book [of L E "sy_broker y" ln "c\<lparr>cn_linebuf := rest\<rparr>"] by (auto simp: keeps_book_def close_facts)
next
  case (failed E s c ln rest c' b')
  then show ?thesis using conn_line_book [of L E "sy_broker y" ln "c\<lparr>cn_linebuf := rest\<rparr>"] by (auto simp: keeps_book_def)
next
  case (admin E rd wr line out b')
  then show ?thesis using admin_conn_facts(3) by auto
next
  case (accepted E s ip port c b')
  then show ?thesis using open_facts by auto
qed (auto simp: tell_def close_facts frame_same_entry offline_facts)


section \<open>What every run keeps\<close>

text \<open>
  C6. Whatever the clients, the administrators and the shard do, in any order, the variables of every
  connection stay in order: the echo is off exactly while a password is asked for, the session is in
  the table exactly while the player is in the world, from the sign-in on the name and what the shard
  is to be told of the account are there, and only a trusted peer has a pending web sign-in.
\<close>
theorem connections_stay_in_order:
  assumes "sys_run L Env b y" "sy_conns y s = Some c"
  shows "cn_session c = s \<and> conn_ok c (sy_broker y)"
  using sys_okD(1,3) [OF sys_run_ok [OF assms(1)] assms(2)] by simp


text \<open>
  C20. When the link to the shard comes up again, every session in the table is attached, once, by
  exactly the bytes it was first attached with, whatever has happened since.
\<close>
theorem reattach_repeats_attach:
  assumes "sys_run L Env b y" "iter_ok (lb_session_iter L)"
  shows "\<exists>ms. reattach L (sy_broker y) = map msg_payload ms \<and> set ms \<subseteq> set (sy_hist y) \<and>
    map sm_t ms = replicate (length ms) REQ_ATTACH \<and> distinct (map sm_session ms) \<and>
    set (map sm_session ms) = dom (bk_sessions (sy_broker y))"
proof -
  let ?b = "sy_broker y" and ?keys = "map_keys (lb_session_iter L) (bk_sessions (sy_broker y))"
  note keys = set_map_keys [OF assms(2) run_used [OF assms(1)]] distinct_map_keys [OF assms(2) run_used [OF assms(1)]]
  have "\<exists>m \<in> set (sy_hist y). sm_session m = s \<and> sm_t m = REQ_ATTACH
      \<and> msg_payload m = attach_payload s (the (bk_sessions ?b s))" if "bk_sessions ?b s \<noteq> None" for s
    using sys_okD(4) [OF sys_run_ok [OF assms(1)], of s] that by (auto simp: session_ok_def attached_def)
  then obtain f where f: "\<And>s. bk_sessions ?b s \<noteq> None \<Longrightarrow> f s \<in> set (sy_hist y) \<and> sm_session (f s) = s \<and>
      sm_t (f s) = REQ_ATTACH \<and> msg_payload (f s) = attach_payload s (the (bk_sessions ?b s))"
    by metis
  have those: "bk_sessions ?b s \<noteq> None" if "s \<in> set ?keys" for s using that keys(1) by auto
  have "map sm_session (map f ?keys) = ?keys" using f those by (auto intro!: map_idI)
  moreover have "map sm_t (map f ?keys) = replicate (length (map f ?keys)) REQ_ATTACH"
    using f those by (auto simp: list_eq_iff_nth_eq)
  moreover have "reattach L ?b = map msg_payload (map f ?keys)" using f those by (simp add: reattach_def)
  ultimately show ?thesis
    using f those keys by (intro exI [of _ "map f ?keys"]) auto
qed

text \<open>
  C22. A restart finds the accounts as they were: while the file can be written, reading it back gives
  the accounts the running broker has, after any run of log-ins, new accounts, changed addresses,
  passwords and capabilities.
\<close>
theorem accounts_survive_restart:
  assumes "sys_run L Env b y" "bk_accounts b = accounts_load from_json f"
    and "\<And>E. Env E \<Longrightarrow> ce_save_ok E" "iter_ok (lb_iter L)"
    and "\<And>rs. from_json (lb_accounts_text L rs) = Some rs"
  shows "as_by_name (accounts_load from_json (as_file (bk_accounts (sy_broker y))))
    = as_by_name (bk_accounts (sy_broker y))"
proof -
  have "accounts_kept from_json (bk_accounts (sy_broker y))"
    using assms(1) unfolding sys_run_def
  proof (induction rule: rtranclp_induct)
    case base
    show ?case using load_kept [of from_json f] by (simp add: sys_start_def assms(2))
  next
    case (step y y')
    from step_accounts [OF step(2)] step(3) show ?case
      using written_kept [OF _ _ assms(3,4,5)] by metis
  qed
  then show ?thesis by (simp add: accounts_kept_def)
qed


section \<open>A small run\<close>

text \<open>
  For the examples: a broker with one saved player, \<open>eve\<close>, whose web site signs her in with a new
  account; the accounts are written as a number.
\<close>

definition account_row where
  "account_row r = (ac_name r, ac_pw_hash r, ac_google_sub r, ac_google_email r, ac_oidc_sub r, ac_oidc_email r,
     ac_caps r, ac_email r, ac_created_unix r)"

definition row_account where
  "row_account = (\<lambda>(n, h, gs, ge, os, oe, cs, e, t).
     \<lparr>ac_name = n, ac_pw_hash = h, ac_google_sub = gs, ac_google_email = ge, ac_oidc_sub = os, ac_oidc_email = oe,
      ac_caps = cs, ac_email = e, ac_created_unix = t\<rparr>)"

definition demo_accounts_text :: "account_rec list \<Rightarrow> string" where
  "demo_accounts_text rs = show_nat (to_nat (map account_row rs))"

definition demo_accounts_read :: "string \<Rightarrow> account_rec list option" where
  "demo_accounts_read s = map_option (map row_account \<circ> from_nat) (parse_digits_from 0 s)"

lemma demo_accounts_json: "demo_accounts_read (demo_accounts_text rs) = Some rs"
proof -
  have "row_account (account_row r) = r" for r :: account_rec by (cases r) (simp add: row_account_def account_row_def)
  then have "map (row_account \<circ> account_row) rs = rs" by (simp add: map_idI)
  then show ?thesis by (simp add: demo_accounts_read_def demo_accounts_text_def parse_digits_show_nat)
qed

definition demo_web_req :: web_auth_req where
  "demo_web_req = \<lparr>wr_action = ''create'', wr_method = ''google'', wr_name = ''eve'', wr_password = None,
     wr_google_sub = Some ''g1'', wr_google_email = None, wr_oidc_sub = None, wr_oidc_email = None, wr_caps = None\<rparr>"

definition demo_player :: saved_player where
  "demo_player = \<lparr>sv_name = ''eve'', sv_is_bot = False, sv_race = ''human'', sv_class = ''rogue'',
     sv_sex = ''none'', sv_pronouns = ''they''\<rparr>"

definition demo_lib :: broker_lib where
  "demo_lib = \<lparr>lb_oidc_token_url = None, lb_oidc_client_id = None, lb_oidc_client_secret = None,
     lb_google_auth_base_url = [], lb_locale = ''en'', lb_started_unix = 0, lb_bind = [], lb_shard_addr = [],
     lb_iter = (\<lambda>P. sorted_list_of_set {x. P x}), lb_session_iter = (\<lambda>P. sorted_list_of_set {x. P x}),
     lb_show_ip = (\<lambda>_. ''ip''), lb_parse_ip = (\<lambda>_. None), lb_verify = (\<lambda>pw h. pw = h),
     lb_accounts_text = demo_accounts_text, lb_blob_text = (\<lambda>_. ''auth''), lb_web_req = (\<lambda>_. Some demo_web_req),
     lb_oauth_read = (\<lambda>_. None), lb_oauth_text = (\<lambda>_. []), lb_players_read = (\<lambda>_. Some [demo_player]),
     lb_nearline_read = (\<lambda>_. None), lb_nearline_cfg = nearline_config_default, lb_nearline_on = True,
     lb_nearline_capacity = 64, lb_bans_text = (\<lambda>_. [])\<rparr>"

definition demo_conn_env :: conn_env where
  "demo_conn_env = \<lparr>ce_instant = 0, ce_unix = 1700000000, ce_unix_ms = 1704067200005, ce_ts = ''ts'',
     ce_hash = Some, ce_save_ok = True, ce_players = Some [], ce_players_later = [], ce_code_bytes = [],
     ce_verifier_bytes = [], ce_oauth_ok = True, ce_up_s = 0, ce_sbc = (\<lambda>_. None), ce_report = undefined,
     ce_nearline_dir = \<lparr>nd_meta = None, nd_segs = Map.empty\<rparr>\<rparr>"

definition demo_broker :: broker where
  "demo_broker = \<lparr>bk_accounts = accounts_load demo_accounts_read None, bk_throttle = throttle_new,
     bk_bans = ban_state_empty, bk_bans_file = FileMissing, bk_holds = hold_cache_new, bk_sessions = Map.empty,
     bk_oauth = Map.empty, bk_line_ids = line_id_gen_new 7 (\<lambda>_. 7) None, bk_sent = [], bk_dropped = [],
     bk_log = [], bk_shard = [], bk_nearline = []\<rparr>"

definition demo_conn :: client_conn where
  "demo_conn = fst (conn_open demo_lib demo_conn_env 7 (V4 0x7F000001) 4000 (sy_broker (sys_start demo_broker)))"

definition demo_line :: string where "demo_line = ''WEB_AUTH x''"

lemma demo_trim: "trim ''eve'' = ''eve''" "trim ''google'' = ''google''" "trim ''create'' = ''create''"
  "trim ''g1'' = ''g1''" "trim demo_line = demo_line"
  by code_simp+

lemma demo_norms: "norm_key ''google'' = ''google''" "norm_key ''create'' = ''create''"
  "sanitize_name ''eve'' = ''eve''" "utf8_lossy demo_line = demo_line" 
  by code_simp+


lemma demo_saved:
  "wait_for_saved_player (lb_players_read demo_lib) (ce_players demo_conn_env) (ce_players_later demo_conn_env) ''eve''
    = Some demo_player"
  by (simp add: demo_lib_def demo_conn_env_def load_saved_player_def demo_norms demo_player_def eq_ignore_ascii_case_refl Let_def)

lemma demo_header: "prefix ''PROXY '' demo_line = False" "strip_prefix ''WEB_AUTH '' demo_line = Some ''x''" "demo_line \<noteq> []"
  by code_simp+

lemma demo_enters:
  assumes "cn_state c = NeedName" "cn_trusted c" "bk_bans b = ban_state_empty"
    "as_by_name (bk_accounts b) ''eve'' = None"
  shows "\<exists>c' b'. conn_line demo_lib demo_conn_env demo_line c b = (ConnGo, c', b') \<and> cn_state c' = InWorld"
proof -
  have lib: "lb_web_req demo_lib x = Some demo_web_req" for x by (simp add: demo_lib_def)
  have bans: "direct_ip_ban c b = None" "is_char_banned (bk_bans b) n = None" for n
    by (simp_all add: direct_ip_ban_def is_ip_banned_def is_char_banned_def assms(3) ban_state_empty_def Let_def)
  have req: "norm_key (wr_action demo_web_req) = ''create''" "norm_key (wr_method demo_web_req) = ''google''"
    "sanitize_name (wr_name demo_web_req) = ''eve''" "req_sub Google demo_web_req = ''g1''"
    by (simp_all add: demo_web_req_def demo_norms req_sub_def opt_text_def demo_trim)
  have ok: "fst (add_account demo_lib demo_conn_env r b) = True" for r b
    by (simp add: add_account_def accounts_save_def demo_conn_env_def Let_def)
  show ?thesis
    by (simp add: conn_line_def assms(1,2,4) need_name_def demo_norms demo_trim demo_header proxy_header_def bans lib req
        web_auth_line_def web_auth_as_def web_check_method_def web_google_def web_sso_def ok case_prod_beta
        signed_in_fields opt_text_def enter_or_create_def demo_saved Let_def
        del: wait_for_saved_player.simps)
qed

text \<open>Eve has connected, and her line has come in and been read.\<close>

definition demo_bytes :: "u8 list" where "demo_bytes = str_bytes (demo_line @ [CHR 0x0A])"

lemma demo_received:
  "iac_parse iac_new demo_bytes = (iac_new, demo_bytes, [])" "bytes_str demo_bytes = demo_line @ [CHR 0x0A]"
  "try_pop_line (demo_line @ [CHR 0x0A]) = Some (demo_line, [])"
  by code_simp+

lemma demo_run:
  "\<exists>y c. sys_run demo_lib (\<lambda>E. E = demo_conn_env) demo_broker y \<and> sy_conns y 7 = Some c \<and> cn_state c = InWorld"
proof -
  let ?step = "broker_step demo_lib (\<lambda>E. E = demo_conn_env)" and ?y0 = "sys_start demo_broker"
  obtain c1 b1 where opened: "conn_open demo_lib demo_conn_env 7 (V4 0x7F000001) 4000 (sy_broker ?y0) = (c1, b1)"
    by fastforce
  then have c1: "cn_state c1 = NeedName" "cn_trusted c1" "cn_linebuf c1 = []" "cn_iac c1 = iac_new"
    and b1: "bk_bans b1 = ban_state_empty" "as_by_name (bk_accounts b1) ''eve'' = None"
    by (auto simp: conn_open_def is_loopback_def sys_start_def demo_broker_def accounts_load_def tell_def log_line_def Let_def)
  let ?y1 = "?y0\<lparr>sy_conns := (sy_conns ?y0)(7 \<mapsto> c1), sy_broker := b1, sy_used := insert 7 (sy_used ?y0)\<rparr>"
  let ?c2 = "c1\<lparr>cn_iac := iac_new, cn_linebuf := cn_linebuf c1 @ bytes_str demo_bytes\<rparr>"
  let ?y2 = "?y1\<lparr>sy_conns := (sy_conns ?y1)(7 \<mapsto> ?c2), sy_broker := (if ([] :: u8 list) = [] then sy_broker ?y1
      else tell c1 (bytes_str []) (sy_broker ?y1))\<rparr>"
  have s1: "?step ?y0 ?y1" by (rule broker_step.accepted [OF refl _ opened]) (simp add: sys_start_def)
  have "try_pop_line (cn_linebuf c1) = None" by (simp add: c1 try_pop_line_def)
  then have s2: "?step ?y1 ?y2"
    by (intro broker_step.received [of _ _ _ demo_bytes]) (simp_all add: c1 demo_received)
  obtain c3 b3 where line: "conn_line demo_lib demo_conn_env demo_line (?c2\<lparr>cn_linebuf := []\<rparr>) (sy_broker ?y2) = (ConnGo, c3, b3)"
    "cn_state c3 = InWorld"
    using demo_enters [of "?c2\<lparr>cn_linebuf := []\<rparr>" "sy_broker ?y2"] c1 b1 by auto
  let ?y3 = "?y2\<lparr>sy_conns := (sy_conns ?y2)(7 \<mapsto> after_line ConnGo demo_line c3), sy_broker := b3,
    sy_hist := sy_hist ?y2 @ new_msgs (sy_broker ?y2) b3\<rparr>"
  have there: "sy_conns ?y2 7 = Some ?c2" by simp
  have cut: "try_pop_line (cn_linebuf ?c2) = Some (demo_line, [])" by (simp add: c1 demo_received)
  have s3: "?step ?y2 ?y3"
    by (rule broker_step.line [OF refl there cut demo_header(3) line(1)]) (rule disjI1, rule refl)
  have "?step\<^sup>*\<^sup>* ?y0 ?y1" by (rule r_into_rtranclp [of ?step, OF s1])
  from rtranclp.rtrancl_into_rtrancl [of ?step, OF this s2] have "?step\<^sup>*\<^sup>* ?y0 ?y2" .
  from rtranclp.rtrancl_into_rtrancl [of ?step, OF this s3]
  have "sys_run demo_lib (\<lambda>E. E = demo_conn_env) demo_broker ?y3" unfolding sys_run_def .
  then show ?thesis using line(2) by (intro exI [of _ ?y3] exI [of _ c3]) (simp add: after_line_def)
qed


lemma demo_iter: "iter_ok (lb_iter demo_lib)" "iter_ok (lb_session_iter demo_lib)"
  by (simp_all add: demo_lib_def iter_ok_sorted)

theorem connections_stay_in_order_witness:
  "\<exists>(y :: broker_sys) c. sy_conns y 7 = Some c \<and> cn_state c = InWorld \<and> cn_session c = 7 \<and> conn_ok c (sy_broker y)"
proof -
  obtain y c where y: "sys_run demo_lib (\<lambda>E. E = demo_conn_env) demo_broker y" "sy_conns y 7 = Some c"
    "cn_state c = InWorld"
    using demo_run by blast
  then show ?thesis using connections_stay_in_order [OF y(1,2)] by blast
qed


theorem reattach_repeats_attach_witness:
  "\<exists>(y :: broker_sys) ms. reattach demo_lib (sy_broker y) = map msg_payload ms \<and> ms \<noteq> [] \<and> set ms \<subseteq> set (sy_hist y)"
proof -
  obtain y c where y: "sys_run demo_lib (\<lambda>E. E = demo_conn_env) demo_broker y" "sy_conns y 7 = Some c"
    "cn_state c = InWorld"
    using demo_run by blast
  obtain ms where ms: "reattach demo_lib (sy_broker y) = map msg_payload ms" "set ms \<subseteq> set (sy_hist y)"
    "set (map sm_session ms) = dom (bk_sessions (sy_broker y))"
    using reattach_repeats_attach [OF y(1) demo_iter(2)] by blast
  have "bk_sessions (sy_broker y) 7 \<noteq> None"
    using sys_okD(1,3) [OF sys_run_ok [OF y(1)] y(2)] y(3) by (simp add: conn_ok_def)
  then have "7 \<in> set (map sm_session ms)" unfolding ms(3) by auto
  then have "ms \<noteq> []" by auto
  with ms(1,2) show ?thesis by blast
qed

theorem accounts_survive_restart_witness:
  "\<exists>(y :: broker_sys) c. sy_conns y 7 = Some c \<and> cn_state c = InWorld \<and>
    as_by_name (accounts_load demo_accounts_read (as_file (bk_accounts (sy_broker y))))
      = as_by_name (bk_accounts (sy_broker y))"
proof -
  obtain y c where y: "sys_run demo_lib (\<lambda>E. E = demo_conn_env) demo_broker y" "sy_conns y 7 = Some c"
    "cn_state c = InWorld"
    using demo_run by blast
  have "as_by_name (accounts_load demo_accounts_read (as_file (bk_accounts (sy_broker y))))
      = as_by_name (bk_accounts (sy_broker y))"
    by (rule accounts_survive_restart [OF y(1) _ _ demo_iter(1), of _ None])
      (simp_all add: demo_broker_def demo_conn_env_def demo_lib_def demo_accounts_json)
  with y(2,3) show ?thesis by blast
qed

end
