(* ===== verification/LoginProps.thy ===== *)
theory LoginProps
  imports BrokerRun
begin

text \<open>
  What it takes to sign in to the broker, how passwords are treated, and what the wait after a wrong
  one does to the next.
\<close>

section \<open>Who signs in\<close>

text \<open>
  What a line must show to sign in as \<open>n\<close>. The web site is believed about who someone is, but an
  account that exists is entered only with its own password or the subject it is linked to.
\<close>

definition web_proof :: "broker_lib \<Rightarrow> string \<Rightarrow> client_conn \<Rightarrow> account_rec \<Rightarrow> bool" where
  "web_proof L line c r \<longleftrightarrow>
     (\<exists>rest q. strip_prefix ''WEB_AUTH '' (trim (utf8_lossy line)) = Some rest \<and> lb_web_req L rest = Some q \<and>
        ((\<exists>h. ac_pw_hash r = Some h \<and> lb_verify L (opt_text (wr_password q)) h) \<or>
         (\<exists>p. acct_sub p r = Some (req_sub p q)))) \<or>
     (\<exists>w. cn_pending c = Some w \<and> acct_sub (pw_sso w) r = Some (pw_sub w))"

definition google_proof :: "broker_lib \<Rightarrow> client_conn \<Rightarrow> broker \<Rightarrow> account_rec option \<Rightarrow> bool" where
  "google_proof L c b rec \<longleftrightarrow>
     (\<exists>code s p. cn_oauth_code c = Some code \<and> bk_oauth b code = Some s \<and> lb_oauth_read L s = Some p \<and>
        op_status p = ''ok'' \<and> opt_text (op_google_sub p) \<noteq> [] \<and>
        (case rec of None \<Rightarrow> True | Some r \<Rightarrow> ac_google_sub r = Some (opt_text (op_google_sub p))))"

definition login_proof :: "broker_lib \<Rightarrow> conn_env \<Rightarrow> string \<Rightarrow> client_conn \<Rightarrow> broker \<Rightarrow> string \<Rightarrow> bool" where
  "login_proof L E line c b n \<longleftrightarrow>
     (let rec = as_by_name (bk_accounts b) n;
          wait = fst (throttle_wait (cn_peer_ip c) n (ce_instant E) (bk_throttle b))
      in (case cn_state c of
            NeedName \<Rightarrow> cn_trusted c \<and> (case rec of None \<Rightarrow> True | Some r \<Rightarrow> web_proof L line c r)
          | NeedPasswordCreate \<Rightarrow> wait = 0 \<and> 8 \<le> length (trim_ascii_ws line)
          | NeedPasswordLogin \<Rightarrow> wait = 0 \<and> (\<exists>r h. rec = Some r \<and> ac_pw_hash r = Some h \<and>
              lb_verify L (trim_ascii_ws line) h)
          | NeedGoogleWait \<Rightarrow> google_proof L c b rec
          | _ \<Rightarrow> False))"

definition signs_as :: "(string \<Rightarrow> bool) \<Rightarrow> conn_result \<Rightarrow> bool" where
  "signs_as Q r \<longleftrightarrow>
     (signed_in (cn_state (fst (snd r))) \<longrightarrow> (\<exists>n. cn_name (fst (snd r)) = Some n \<and> Q n))"

lemma signs_not:
  "\<not> signed_in (cn_state c) \<Longrightarrow> signs_as Q (flow, c, b)"
  "\<not> signed_in (cn_state c) \<Longrightarrow> signs_as Q (say_go s c b)"
  by (simp_all add: signs_as_def say_go_def)

lemma signs_enter: "cn_name c = Some n \<Longrightarrow> Q n \<Longrightarrow> signs_as Q (enter_or_create L E lead m c b)"
  by (auto simp: signs_as_def enter_or_create_def say_go_def split: option.split)

lemma signs_if:
  "(P \<Longrightarrow> signs_as Q x) \<Longrightarrow> (\<not> P \<Longrightarrow> signs_as Q y) \<Longrightarrow> signs_as Q (if P then x else y)"
  by simp

lemma signs_option:
  "(x = None \<Longrightarrow> signs_as Q y) \<Longrightarrow> (\<And>v. x = Some v \<Longrightarrow> signs_as Q (f v)) \<Longrightarrow>
    signs_as Q (case x of None \<Rightarrow> y | Some v \<Rightarrow> f v)"
  by (cases x) simp_all

lemmas signs_rules = signs_if signs_option signs_not signs_enter

lemma echo_facts:
  "cn_state (fst (echo_on c b)) = cn_state c" "cn_name (fst (echo_on c b)) = cn_name c"
  by (simp_all add: echo_on_def)

lemma not_yet:
  "\<not> signed_in NeedName" "\<not> signed_in NeedAuthMethod" "\<not> signed_in NeedPasswordCreate"
  "\<not> signed_in NeedPasswordLogin" "\<not> signed_in NeedGoogleWait"
  by (simp_all add: signed_in_def)

lemma password_signs:
  assumes "cn_name c = Some n" "\<not> signed_in (cn_state c)"
  shows "cn_state c = NeedPasswordCreate \<Longrightarrow> signs_as (login_proof L E line c b) (need_password_create L E line c b)"
    "cn_state c = NeedPasswordLogin \<Longrightarrow> signs_as (login_proof L E line c b) (need_password_login L E line c b)"
proof -
  show "signs_as (login_proof L E line c b) (need_password_create L E line c b)" if "cn_state c = NeedPasswordCreate"
    unfolding need_password_create_def assms(1) option.case Let_def case_prod_beta rate_limited_def refused_password_def
    by (intro signs_rules; simp add: assms echo_facts login_proof_def that not_yet)
  show "signs_as (login_proof L E line c b) (need_password_login L E line c b)" if "cn_state c = NeedPasswordLogin"
    unfolding need_password_login_def assms(1) option.case Let_def case_prod_beta rate_limited_def refused_password_def
    by (intro signs_rules; auto simp: assms echo_facts login_proof_def that not_yet split: option.splits)
qed

lemma google_signs:
  assumes "cn_name c = Some n" "cn_state c = NeedGoogleWait"
  shows "signs_as (login_proof L E line c b) (need_google_wait L E line c b)"
proof -
  have shown: "login_proof L E line c b n"
    if "cn_oauth_code c = Some code" "bk_oauth b code = Some s" "lb_oauth_read L s = Some p" "op_status p = ''ok''"
      "opt_text (op_google_sub p) \<noteq> []"
      "as_by_name (bk_accounts b) n = None \<or>
        (\<exists>r. as_by_name (bk_accounts b) n = Some r \<and> ac_google_sub r = Some (opt_text (op_google_sub p)))"
    for code s p
    using that assms(2) by (auto simp: login_proof_def google_proof_def)
  have checked: "signs_as (login_proof L E line c b) (google_checked L E code p c b)"
    if "cn_oauth_code c = Some code" "bk_oauth b code = Some s" "lb_oauth_read L s = Some p" "op_status p = ''ok''"
    for code s p
    unfolding google_checked_def Let_def case_prod_beta
    by (intro signs_if signs_option signs_not signs_enter [where n = n] shown [OF that])
      (auto simp: assms not_yet)
  have "signs_as (login_proof L E line c b) (google_check L E code c b)" if "cn_oauth_code c = Some code" for code
    unfolding google_check_def Let_def
    by (intro signs_if signs_option signs_not checked that) (simp_all add: assms not_yet)
  then show ?thesis
    unfolding need_google_wait_def Let_def
    by (intro signs_if signs_option signs_not) (simp_all add: assms not_yet)
qed


text \<open>A sign-in asserted by the web site.\<close>

definition web_checked :: "(account_rec \<Rightarrow> bool) \<Rightarrow> client_conn \<Rightarrow> broker \<Rightarrow> string \<Rightarrow> web_check \<Rightarrow> bool" where
  "web_checked R c b n r \<longleftrightarrow>
     (case r of (ok, c', b') \<Rightarrow> cn_state c' = cn_state c \<and>
        (ok = Some True \<longrightarrow> cn_name c' = Some n \<and> (case as_by_name (bk_accounts b) n of None \<Rightarrow> True | Some r \<Rightarrow> R r)))"

lemma web_checks_prove:
  assumes "\<And>r. (\<exists>h. ac_pw_hash r = Some h \<and> lb_verify L (opt_text (wr_password q)) h) \<or>
      (\<exists>p. acct_sub p r = Some (req_sub p q)) \<Longrightarrow> R r"
  shows "web_checked R c b n (web_check_method L E q action mth n c b)"
proof -
  have refuse: "web_checked R c b n (web_refuse s c b)" for s by (simp add: web_checked_def web_refuse_def)
  have create: "web_checked R c b n (web_create_password L E q n c b)"
    using refuse by (simp add: web_create_password_def Let_def case_prod_beta web_checked_def signed_in_fields split: option.split)
  have login: "web_checked R c b n (web_login_password L q n c b)"
    using refuse assms by (auto simp: web_login_password_def web_checked_def web_refuse_def signed_in_fields split: option.split)
  have linked: "web_checked R c b n (web_sso p L E q a n c b)" for p a
    using refuse assms
    by (cases "a = ''login'' \<or> a = ''auto''"; cases "as_by_name (bk_accounts b) n")
      (auto simp: web_sso_def Let_def case_prod_beta web_checked_def web_refuse_def signed_in_fields)
  show ?thesis
    unfolding web_check_method_def web_google_def web_oidc_def using refuse create login linked by simp
qed

lemma web_signs:
  assumes "cn_state c = NeedName"
    and "\<And>n. (case as_by_name (bk_accounts b) n of None \<Rightarrow> True | Some r \<Rightarrow> R r) \<Longrightarrow> Q n"
    and "\<And>r. (\<exists>h. ac_pw_hash r = Some h \<and> lb_verify L (opt_text (wr_password q)) h) \<or>
      (\<exists>p. acct_sub p r = Some (req_sub p q)) \<Longrightarrow> R r"
  shows "signs_as Q (web_auth_as L E q action mth n c b)"
proof -
  have checked: "signs_as Q (case r of (None, c, b) \<Rightarrow> (ConnFail, c, b) | (Some False, c, b) \<Rightarrow> (ConnGo, c, b)
      | (Some True, c, b) \<Rightarrow> enter_or_create L E crlf (opt_text (cn_name c)) c b)"
    if "web_checked R c b n r" for r
  proof -
    obtain ok c' b' where r: "r = (ok, c', b')" by (cases r)
    consider "ok = None" | "ok = Some False" | "ok = Some True" by (cases ok) auto
    then show ?thesis
      using that assms(1,2) unfolding r web_checked_def
      by cases (auto intro: signs_not(1) signs_enter simp: not_yet)
  qed
  show ?thesis
  proof (cases "n = []")
    case False
    then show ?thesis
    proof (cases "is_char_banned (bk_bans b) n")
      case None
      show ?thesis
        unfolding web_auth_as_def if_not_P [OF False] None option.case
        by (rule checked) (rule web_checks_prove [OF assms(3)])
    qed (simp add: web_auth_as_def reject_char_ban_def signs_not assms(1) not_yet Let_def)
  qed (simp add: web_auth_as_def signs_not assms(1) not_yet)
qed

lemma need_name_signs:
  assumes "conn_ok c b" "cn_state c = NeedName"
  shows "signs_as (login_proof L E line c b) (need_name L E line c b)"
proof -
  let ?Q = "login_proof L E line c b" and ?c = "c\<lparr>cn_proxy_checked := True\<rparr>"
  have shown: "?Q n" if "cn_trusted c" "case as_by_name (bk_accounts b) n of None \<Rightarrow> True | Some r \<Rightarrow> web_proof L line c r" for n
    using that assms(2) by (simp add: login_proof_def)
  have web: "signs_as ?Q (web_auth_line L E rest ?c b)"
    if "cn_trusted c" "strip_prefix ''WEB_AUTH '' (trim (utf8_lossy line)) = Some rest" for rest
  proof (cases "lb_web_req L rest")
    case None
    then show ?thesis by (simp add: web_auth_line_def signs_not assms not_yet)
  next
    case (Some q)
    have as_name: "signs_as ?Q (web_auth_as L E q action mth n ?c b)" for action mth n
      by (rule web_signs [where R = "web_proof L line c"])
        (use shown that Some assms(2) in \<open>auto simp: web_proof_def\<close>)
    have "signs_as ?Q (web_auth_auto L E q p mth ?c b)" for p mth
      unfolding web_auth_auto_def Let_def
      by (auto simp: signs_not assms(2) not_yet as_name split: option.split list.split)
    then show ?thesis using as_name by (simp add: web_auth_line_def Some Let_def)
  qed
  have pending: "signs_as ?Q (pending_sso L E p sub email caps n ?c b)"
    if "cn_trusted c" "cn_pending c = Some w" "pw_sso w = p" "pw_sub w = sub" for p sub email caps n w
  proof (cases "as_by_name (bk_accounts b) n")
    case None
    then have "?Q n" using shown that(1) by simp
    then show ?thesis
      by (simp add: pending_sso_def None Let_def case_prod_beta signs_not assms(2) not_yet signs_enter signed_in_fields)
  next
    case (Some r)
    have "?Q n" if "acct_sub p r = Some sub"
      using shown \<open>cn_trusted c\<close> \<open>cn_pending c = Some w\<close> \<open>pw_sso w = p\<close> \<open>pw_sub w = sub\<close> that Some
      by (auto simp: web_proof_def)
    then show ?thesis
      by (simp add: pending_sso_def Some Let_def signs_not assms(2) not_yet signs_enter signed_in_fields)
  qed
  have trusted: "cn_trusted c" if "cn_pending c = Some w" for w using assms(1) that by (simp add: conn_ok_def)
  have "signs_as ?Q (choose_name L E l ?c b)" for l
    unfolding choose_name_def pending_google_def pending_oidc_def Let_def
    by (auto simp: signs_not assms(2) not_yet reject_char_ban_def Let_def split: option.split sso.split
        intro: pending trusted)
  moreover have "signs_as ?Q r" if "proxy_header L E l c b = Some r" for r l
    using that unfolding proxy_header_def reject_ip_ban_def Let_def
    by (auto simp: signs_not assms(2) not_yet split: if_splits option.splits)
  ultimately show ?thesis
    using web unfolding need_name_def Let_def
    by (auto simp: signs_not assms(2) not_yet reject_ip_ban_def Let_def split: option.split if_splits)
qed


lemma conn_line_signs:
  assumes "conn_ok c b" "\<not> signed_in (cn_state c)"
  shows "signs_as (login_proof L E line c b) (conn_line L E line c b)"
proof -
  have named: "\<exists>n. cn_name c = Some n" if "cn_state c \<noteq> NeedName" using assms(1) that by (simp add: conn_ok_def)
  have "signs_as (login_proof L E line c b) (need_auth_method L E line c b)" if "cn_state c = NeedAuthMethod"
    unfolding need_auth_method_def choose_password_def choose_google_def Let_def
    by (intro signs_if signs_option signs_not) (simp_all add: that not_yet)
  then show ?thesis
    using assms(2) need_name_signs [OF assms(1)] password_signs [OF _ assms(2)] google_signs named
    by (cases "cn_state c") (auto simp: conn_line_def signed_in_def)
qed


section \<open>Passwords\<close>


text \<open>
  C26. A player who is asked for a first password takes over an account that was made under the name
  meanwhile: the record is replaced, its hash, its links, its capabilities and its address are gone,
  and the connection is signed in under the name.
\<close>
theorem first_password_takes_over:
  assumes "cn_state c = NeedPasswordCreate" "cn_name c = Some n" "as_by_name (bk_accounts b) n = Some old"
    and "fst (throttle_wait (cn_peer_ip c) n (ce_instant E) (bk_throttle b)) = 0"
    and "8 \<le> length (trim_ascii_ws line)" "ce_hash E (trim_ascii_ws line) = Some h" "ce_save_ok E"
  shows "case conn_line L E line c b of (flow, c', b') \<Rightarrow>
    flow = ConnGo \<and> signed_in (cn_state c') \<and> cn_name c' = Some n \<and>
    as_by_name (bk_accounts b') n = Some (password_account n h (ce_unix E))"
proof -
  have saved: "fst (add_account L E r b) = True"
    "as_by_name (bk_accounts (snd (add_account L E r b))) (ac_name r) = Some r" for r b
    using assms(7) by (simp_all add: add_account_def accounts_save_def accounts_insert_def Let_def)
  have entered: "case enter_or_create L E lead n c2 b2 of (flow, c', b') \<Rightarrow>
      flow = ConnGo \<and> signed_in (cn_state c') \<and> cn_name c' = cn_name c2 \<and> bk_accounts b' = bk_accounts b2"
    if "cn_auth_blob c2 \<noteq> None" for lead c2 b2
    using that by (auto simp: enter_or_create_def say_go_def tell_def signed_in_def attach_accounts split: option.split)
  have name: "ac_name (password_account n h t) = n" for t by (simp add: password_account_def)
  let ?r = "password_account n h (ce_unix E)"
  let ?b0 = "b\<lparr>bk_throttle := snd (throttle_wait (cn_peer_ip c) n (ce_instant E) (bk_throttle b))\<rparr>"
  let ?c1 = "fst (echo_on c ?b0)" and ?b1 = "tell (fst (echo_on c ?b0)) crlf (snd (echo_on c ?b0))"
  let ?b2 = "snd (add_account L E ?r ?b1)"
  let ?c2 = "?c1\<lparr>cn_auth_blob := Some (lb_blob_text L (make_shard_auth_blob n ''password'' None None None None None))\<rparr>"
  have "conn_line L E line c b = enter_or_create L E [] n ?c2
      (?b2\<lparr>bk_throttle := note_success (cn_peer_ip ?c1) n (bk_throttle ?b2)\<rparr>)"
    using assms(4-6) saved(1)
    by (simp add: conn_line_def assms(1,2) need_password_create_def Let_def case_prod_beta)
  then show ?thesis
    using entered [where lead = "[]" and ?c2.0 = ?c2 and ?b2.0 = "?b2\<lparr>bk_throttle := note_success (cn_peer_ip ?c1) n (bk_throttle ?b2)\<rparr>"] saved(2) [of ?r ?b1]
    unfolding name by (auto simp: echo_facts assms(2))
qed



section \<open>Examples\<close>

definition demo_login :: "conn_state \<Rightarrow> client_conn" where
  "demo_login st = demo_conn\<lparr>cn_name := Some ''eve'', cn_state := st, cn_echo_off := True\<rparr>"

definition eve_account :: account_rec where
  "eve_account = (sso_account Google ''eve'' ''g1'' None 5)\<lparr>ac_caps := Some [''admin.all'']\<rparr>"

definition eve_broker :: broker where
  "eve_broker = demo_broker\<lparr>bk_accounts := accounts_insert eve_account (bk_accounts demo_broker)\<rparr>"

lemma demo_login_vars: "cn_state (demo_login st) = st" "cn_name (demo_login st) = Some ''eve''"
  by (simp_all add: demo_login_def)

lemma no_wait: "fst (throttle_wait ip n t throttle_new) = 0"
  by (simp add: throttle_wait_def throttle_new_def throttle_prune_def retain_recent_def entry_wait_def Let_def)



theorem first_password_takes_over_witness:
  "case conn_line demo_lib demo_conn_env ''mine4ever'' (demo_login NeedPasswordCreate) eve_broker of (flow, c', b') \<Rightarrow>
    flow = ConnGo \<and> signed_in (cn_state c') \<and> cn_name c' = Some ''eve'' \<and>
    as_by_name (bk_accounts b') ''eve'' = Some (password_account ''eve'' ''mine4ever'' 1700000000)"
proof -
  have trimmed: "trim_ascii_ws ''mine4ever'' = ''mine4ever''" by code_simp
  have "ac_name eve_account = ''eve''" by (simp add: eve_account_def sso_account_def)
  then have there: "as_by_name (bk_accounts eve_broker) ''eve'' = Some eve_account"
    by (simp add: eve_broker_def accounts_insert_def)
  have long: "8 \<le> length (trim_ascii_ws ''mine4ever'')" unfolding trimmed by simp
  have hash: "ce_hash demo_conn_env (trim_ascii_ws ''mine4ever'') = Some ''mine4ever''"
    unfolding trimmed by (simp add: demo_conn_env_def)
  have wait: "fst (throttle_wait (cn_peer_ip (demo_login NeedPasswordCreate)) ''eve'' (ce_instant demo_conn_env)
      (bk_throttle eve_broker)) = 0"
    by (simp add: eve_broker_def demo_broker_def no_wait)
  have env: "ce_unix demo_conn_env = 1700000000" by (simp add: demo_conn_env_def)
  show ?thesis
    unfolding env [symmetric]
    by (rule first_password_takes_over [OF demo_login_vars there wait long hash]) (simp add: demo_conn_env_def)
qed


end
