(* ===== verification/OutputProps.thy ===== *)
theory OutputProps
  imports LoginProps
begin

text \<open>
  The shard's output on its way to a client: the scrollback, the queue to disk and the event log keep
  the same lines under the same identifiers, and a line of a held player can stop the link.
\<close>

section \<open>The same lines everywhere\<close>

definition disk_record ::
  "broker_lib \<Rightarrow> u64 \<Rightarrow> string \<Rightarrow> session_id \<Rightarrow> session_info \<Rightarrow> line_id \<times> string \<Rightarrow> nearline_record" where
  "disk_record L now kind s si l =
     \<lparr>nr_v = 1, nr_id = line_id_encode (fst l), nr_ts_unix_ms = unat now, nr_kind = kind,
      nr_session = session_hex s, nr_name = sx_name si, nr_ip = lb_show_ip L (sx_peer_ip si), nr_text = snd l\<rparr>"

definition short_text :: "string \<Rightarrow> string" where
  "short_text t = clamp_chars t scrollback_max_line_chars"

lemma next_ids_more: "length (fst (next_ids nows g)) = length nows"
  by (induction nows arbitrary: g) (simp_all add: case_prod_beta)

lemma route_texts_kept:
  assumes "route_texts L now kind s si ts st = Some st'"
  shows "\<exists>logs disks. map (redact_if (sx_held si)) ts = map Some logs \<and>
    map (\<lambda>t. redact_if (sx_held si) (short_text t)) ts = map Some disks \<and>
    (let r = next_ids (replicate (length ts) now) (rt_ids st) in
       rt_ids st' = snd r \<and> rt_logs st' = rt_logs st @ zip (fst r) logs \<and>
       rt_scrollback st' = push_lines (zip (fst r) (map (\<lambda>t. (unat now, short_text t)) ts)) (rt_scrollback st) \<and>
       rt_nearline st' = foldl (\<lambda>q l. try_append L (disk_record L now kind s si l) q) (rt_nearline st) (zip (fst r) disks))"
  using assms
proof (induction ts arbitrary: st)
  case (Cons t ts)
  obtain i g where i: "next_id now (rt_ids st) = (i, g)" by fastforce
  from Cons.prems obtain disk log where r: "redact_if (sx_held si) (short_text t) = Some disk"
      "redact_if (sx_held si) t = Some log"
    and more: "route_texts L now kind s si ts
      \<lparr>rt_ids = g, rt_scrollback = push_line i (unat now) (short_text t) (rt_scrollback st),
       rt_nearline = try_append L (disk_record L now kind s si (i, disk)) (rt_nearline st),
       rt_logs = rt_logs st @ [(i, log)]\<rparr> = Some st'"
    by (auto simp: i disk_record_def short_text_def Let_def split: option.splits)
  from Cons.IH [OF more] obtain logs disks where
    "map (redact_if (sx_held si)) ts = map Some logs" "map (\<lambda>t. redact_if (sx_held si) (short_text t)) ts = map Some disks"
    "let r = next_ids (replicate (length ts) now) g in
       rt_ids st' = snd r \<and> rt_logs st' = (rt_logs st @ [(i, log)]) @ zip (fst r) logs \<and>
       rt_scrollback st' = push_lines (zip (fst r) (map (\<lambda>t. (unat now, short_text t)) ts))
         (push_line i (unat now) (short_text t) (rt_scrollback st)) \<and>
       rt_nearline st' = foldl (\<lambda>q l. try_append L (disk_record L now kind s si l) q)
         (try_append L (disk_record L now kind s si (i, disk)) (rt_nearline st)) (zip (fst r) disks)"
    by auto
  then show ?case
    using r i by (intro exI [of _ "log # logs"] exI [of _ "disk # disks"]) (simp add: Let_def case_prod_beta push_lines_def)
qed (simp add: push_lines_def)


section \<open>A line that stops the link\<close>

lemma route_texts_stops:
  assumes "t \<in> set ts" "redact_if (sx_held si) t = None"
  shows "route_texts L now kind s si ts st = None"
  using assms(1)
proof (induction ts arbitrary: st)
  case (Cons x xs)
  then show ?case using assms(2) by (cases "t = x") (auto simp: Let_def case_prod_beta split: option.split)
qed simp

text \<open>
  C27. Anything a player under a legal hold is shown goes through the redaction on the task that is the
  broker's only link to the shard; a line in which two mail addresses run together, which anyone in the
  room can say, panics there, and no player hears of the shard again.
\<close>
theorem held_line_stops_link:
  assumes "bk_sessions b s = Some si" "sx_held si"
    and "redact_user_ok u" "list_all email_user_char u"
    and "redact_domain_ok d" "list_all email_domain_char d"
    and "redact_domain_ok e" "list_all email_domain_char e"
    and "u @ CHR ''@'' # d @ CHR ''@'' # e \<in> set (extract_output_lines (bytes_str bytes))"
  shows "route_resp L E (Output s bytes) b = None"
proof -
  have "redact_if (sx_held si) (u @ CHR ''@'' # d @ CHR ''@'' # e) = None"
    using chained_address_panics [OF assms(3-8)] assms(2) by (simp add: redact_if_def)
  from route_texts_stops [OF assms(9) this] show ?thesis
    by (simp add: route_resp_def route_line_def assms(1))
qed

section \<open>Examples\<close>

definition demo_session :: "bool \<Rightarrow> session_info" where
  "demo_session held = \<lparr>sx_name = ''eve'', sx_held = held, sx_is_bot = False, sx_auth = None, sx_race = [],
     sx_class = [], sx_sex = [], sx_pronouns = [], sx_peer_ip = V4 1, sx_scrollback = scrollback_new 5\<rparr>"

definition demo_output :: "u8 list" where "demo_output = str_bytes (''a@b.co@c.de'' @ [CHR 0x0A])"

lemma demo_output_lines: "extract_output_lines (bytes_str demo_output) = [''a@b.co@c.de'']"
  by code_simp


theorem held_line_stops_link_witness:
  "route_resp demo_lib demo_conn_env (Output 7 demo_output)
     (demo_broker\<lparr>bk_sessions := [7 \<mapsto> demo_session True]\<rparr>) = None"
  by (rule held_line_stops_link [of _ 7 "demo_session True" "''a''" "''b.co''" "''c.de''"])
    (simp_all add: demo_session_def demo_output_lines redact_user_ok_def redact_domain_ok_def dotted_badly_def
      str_contains_def suffix_to_prefix email_user_char_def email_domain_char_def is_ascii_alnum_def
      is_ascii_upper_def is_ascii_lower_def is_ascii_digit_def)

end
