(* ===== verification/Oidc.thy ===== *)
theory Oidc
  imports BanList "HOL-Library.Countable"
begin

text \<open>
  The identity provider (\<open>apps/internal_oidc/src/main.rs\<close>): its pages, registration, the reset of
  passwords, the authorization codes it gives to who signed in, and the tokens it gives for codes.
  Signing, hashing, base64, the encoding of URLs and serde's text of the user file are parameters; the
  web server hands every handler its decoded request and sends the answer. Each handler is one step.
\<close>

section \<open>Configuration, requests and state\<close>

record oidc_jwk =
  jk_kty :: string
  jk_crv :: string
  jk_x :: string
  jk_use :: string
  jk_alg :: string
  jk_kid :: string

record oidc_config =
  og_issuer :: string
  og_client_id :: string
  og_client_secret :: string
  og_token_ttl_s :: nat
  og_auth_code_ttl_s :: nat
  og_users_path :: "string option"
  og_allowed_redirect_uris :: "string list"
  og_allow_plaintext_passwords :: bool
  og_allow_registration :: bool
  og_allow_password_reset :: bool
  og_jwk :: oidc_jwk

record oidc_discovery =
  di_issuer :: string
  di_authorization_endpoint :: string
  di_token_endpoint :: string
  di_userinfo_endpoint :: string
  di_jwks_uri :: string
  di_response_types :: "string list"
  di_subject_types :: "string list"
  di_signing_algs :: "string list"
  di_auth_methods :: "string list"
  di_grant_types :: "string list"
  di_challenge_methods :: "string list"

record token_form =
  tf_grant_type :: string
  tf_sub :: "string option"
  tf_sid :: "string option"
  tf_scope :: "string option"
  tf_code :: "string option"
  tf_redirect_uri :: "string option"
  tf_code_verifier :: "string option"

record oidc_claims =
  cl_iss :: string
  cl_sub :: string
  cl_aud :: string
  cl_iat :: nat
  cl_exp :: nat
  cl_sid :: "string option"
  cl_scope :: "string option"
  cl_client_id :: string
  cl_email :: "string option"
  cl_caps :: "string list option"

record token_resp =
  tr_access_token :: string
  tr_token_type :: string
  tr_expires_in :: nat
  tr_scope :: "string option"
  tr_id_token :: "string option"

record user_info_resp =
  ui_sub :: string
  ui_email :: "string option"
  ui_caps :: "string list option"

record auth_code =
  au_created_unix :: nat
  au_redirect_uri :: string
  au_code_challenge :: string
  au_scope :: "string option"
  au_sub :: string
  au_email :: "string option"
  au_caps :: "string list option"

record authorize_query =
  aq_response_type :: "string option"
  aq_client_id :: "string option"
  aq_redirect_uri :: "string option"
  aq_scope :: "string option"
  aq_state :: "string option"
  aq_code_challenge :: "string option"
  aq_code_challenge_method :: "string option"

text \<open>The forms; registration and reset have the password twice.\<close>

record authorize_form =
  fm_username :: string
  fm_password :: string
  fm_response_type :: string
  fm_client_id :: string
  fm_redirect_uri :: string
  fm_scope :: "string option"
  fm_state :: "string option"
  fm_code_challenge :: string
  fm_code_challenge_method :: string

record register_form_data = authorize_form +
  fm_password2 :: string

record user_rec =
  us_username :: string
  us_password_hash :: "string option"
  us_password :: "string option"
  us_sub :: "string option"
  us_email :: "string option"
  us_caps :: "string list option"

record oidc_state =
  os_codes :: "string \<rightharpoonup> auth_code"
  os_users :: file_read

text \<open>
  The libraries: base64 and UTF-8 of the basic credentials, the digest of the code verifier, the
  encoding of a query value, the check of a password against a hash, the user file, and tokens. Signing
  answers the text of an error or the token; checking a token takes issuer and audience.
\<close>

record oidc_lib =
  ol_basic_decode :: "string \<Rightarrow> string option"
  ol_challenge :: "string \<Rightarrow> string"
  ol_urlencode :: "string \<Rightarrow> string"
  ol_verify :: "string \<Rightarrow> string \<Rightarrow> bool"
  ol_users_read :: "string \<Rightarrow> user_rec list option"
  ol_users_text :: "user_rec list \<Rightarrow> string"
  ol_sign :: "oidc_claims \<Rightarrow> string + string"
  ol_check_token :: "string \<Rightarrow> string \<Rightarrow> string \<Rightarrow> (string + oidc_claims)"

record oidc_env =
  oe_now :: nat
  oe_code :: "string option"
  oe_hash :: "string \<Rightarrow> string option"
  oe_save_ok :: bool

datatype oidc_resp =
    RsText nat string
  | RsHtml string
  | RsSeeOther string
  | RsDiscovery oidc_discovery
  | RsJwks "oidc_jwk list"
  | RsToken token_resp
  | RsUserInfo user_info_resp

section \<open>Texts\<close>

definition lf :: string where "lf = [CHR 0x0A]"

definition join_query :: "string \<Rightarrow> string \<Rightarrow> string" where
  "join_query base qs =
     (let out = trim base in
      (if str_contains out ''?'' then
         (if suffix ''?'' out \<or> suffix ''&'' out then out else out @ ''&'')
       else out @ ''?'') @ qs)"

definition replace_char :: "char \<Rightarrow> string \<Rightarrow> string \<Rightarrow> string" where
  "replace_char c by_s s = concat (map (\<lambda>x. if x = c then by_s else [x]) s)"

definition html_escape :: "string \<Rightarrow> string" where
  "html_escape s =
     replace_char (CHR 0x27) ''&#39;''
       (replace_char (CHR 0x22) ''&quot;''
         (replace_char (CHR ''>'') ''&gt;''
           (replace_char (CHR ''<'') ''&lt;''
             (replace_char (CHR ''&'') ''&amp;'' s))))"

definition basic_auth :: "oidc_lib \<Rightarrow> string option option \<Rightarrow> (string \<times> string) option" where
  "basic_auth L h =
     (case h of
        Some (Some s) \<Rightarrow>
          (case strip_prefix ''Basic '' s of
             None \<Rightarrow> None
           | Some s \<Rightarrow>
               (case ol_basic_decode L s of None \<Rightarrow> None | Some raw \<Rightarrow> split_once (CHR '':'') raw))
      | _ \<Rightarrow> None)"

definition discovery :: "oidc_config \<Rightarrow> oidc_resp" where
  "discovery cfg =
     RsDiscovery
       \<lparr>di_issuer = og_issuer cfg, di_authorization_endpoint = og_issuer cfg @ ''/authorize'',
        di_token_endpoint = og_issuer cfg @ ''/token'', di_userinfo_endpoint = og_issuer cfg @ ''/userinfo'',
        di_jwks_uri = og_issuer cfg @ ''/jwks.json'', di_response_types = [''code''],
        di_subject_types = [''public''], di_signing_algs = [''EdDSA''],
        di_auth_methods = [''client_secret_basic''],
        di_grant_types = [''client_credentials'', ''authorization_code''], di_challenge_methods = [''S256'']\<rparr>"

definition jwks :: "oidc_config \<Rightarrow> oidc_resp" where
  "jwks cfg = RsJwks [og_jwk cfg]"

section \<open>Requests to authorize\<close>

definition authorize_enabled :: "oidc_config \<Rightarrow> bool" where
  "authorize_enabled cfg \<longleftrightarrow> og_users_path cfg \<noteq> None"

definition validate_redirect_uri :: "oidc_config \<Rightarrow> string \<Rightarrow> bool" where
  "validate_redirect_uri cfg uri \<longleftrightarrow>
     og_allowed_redirect_uris cfg = [] \<or> uri \<in> set (og_allowed_redirect_uris cfg)"

text \<open>\<open>None\<close> is a request that is well.\<close>

definition validate_authorize_req :: "oidc_config \<Rightarrow> authorize_query \<Rightarrow> string option" where
  "validate_authorize_req cfg q =
     (if \<not> authorize_enabled cfg then Some ''authorize disabled (set OIDC_USERS_PATH)''
      else if aq_response_type q \<noteq> Some ''code'' then Some ''unsupported response_type''
      else if aq_client_id q \<noteq> Some (og_client_id cfg) then Some ''bad client_id''
      else
        (case aq_redirect_uri q of
           None \<Rightarrow> Some ''missing redirect_uri''
         | Some uri \<Rightarrow>
             if \<not> validate_redirect_uri cfg uri then Some ''redirect_uri not allowed''
             else
               (case aq_code_challenge q of
                  None \<Rightarrow> Some ''missing code_challenge''
                | Some chal \<Rightarrow>
                    if trim chal = [] then Some ''missing code_challenge''
                    else if aq_code_challenge_method q \<noteq> Some ''S256'' then
                      Some ''unsupported code_challenge_method''
                    else None)))"

definition query_pairs :: "authorize_query \<Rightarrow> (string \<times> string option) list" where
  "query_pairs q =
     [(''response_type'', aq_response_type q), (''client_id'', aq_client_id q),
      (''redirect_uri'', aq_redirect_uri q), (''scope'', aq_scope q), (''state'', aq_state q),
      (''code_challenge'', aq_code_challenge q), (''code_challenge_method'', aq_code_challenge_method q)]"

definition build_oauth_qs :: "oidc_lib \<Rightarrow> authorize_query \<Rightarrow> string" where
  "build_oauth_qs L q =
     (let qs = concat (map (\<lambda>(k, v). case v of None \<Rightarrow> [] | Some v \<Rightarrow> [(k, v)]) (query_pairs q)) in
      if qs = [] then []
      else ''?'' @ join_with ''&'' (map (\<lambda>(k, v). ol_urlencode L k @ ''='' @ ol_urlencode L v) qs))"

definition query_of_form :: "'a authorize_form_scheme \<Rightarrow> authorize_query" where
  "query_of_form f =
     \<lparr>aq_response_type = Some (fm_response_type f), aq_client_id = Some (fm_client_id f),
      aq_redirect_uri = Some (fm_redirect_uri f), aq_scope = fm_scope f, aq_state = fm_state f,
      aq_code_challenge = Some (fm_code_challenge f),
      aq_code_challenge_method = Some (fm_code_challenge_method f)\<rparr>"

section \<open>Pages\<close>

definition err_html :: "string option \<Rightarrow> string" where
  \<open>err_html err =
     (case err of
        None \<Rightarrow> []
      | Some s \<Rightarrow> if s = [] then [] else ''<p style="color:#b00">'' @ html_escape s @ ''</p>'')\<close>

definition hidden :: "string \<times> string option \<Rightarrow> string" where
  \<open>hidden kv =
     (case snd kv of
        None \<Rightarrow> []
      | Some v \<Rightarrow>
          ''<input type="hidden" name="'' @ html_escape (fst kv) @ ''" value="'' @ html_escape v @ ''"/>'')\<close>

definition page_head :: "string \<Rightarrow> string" where
  \<open>page_head title =
     ''<!doctype html><meta charset="utf-8" />'' @
     ''<meta name="viewport" content="width=device-width, initial-scale=1"/>'' @
     ''<title>'' @ title @ ''</title>'' @
     ''<body style="font:16px/1.4 ui-sans-serif,system-ui,-apple-system,Segoe UI,Roboto,Arial">'' @
     ''<h1>'' @ title @ ''</h1>''\<close>

definition username_input :: string where
  \<open>username_input =
     ''<label>Username<br/><input name="username" autocomplete="username" autofocus/></label><br/><br/>''\<close>

definition password_input :: "string \<Rightarrow> string \<Rightarrow> string \<Rightarrow> string" where
  \<open>password_input caption field complete =
     ''<label>'' @ caption @ ''<br/><input name="'' @ field @ ''" type="password" autocomplete="'' @ complete @
     ''"/></label><br/><br/>''\<close>

definition login_form :: "oidc_lib \<Rightarrow> oidc_config \<Rightarrow> authorize_query \<Rightarrow> string option \<Rightarrow> oidc_resp" where
  \<open>login_form L cfg q err =
     (let reg_link = (if og_allow_registration cfg
            then [''<a href="/register'' @ build_oauth_qs L q @ ''">Create account</a>''] else []);
          reset_link = (if og_allow_password_reset cfg
            then [''<a href="/reset'' @ build_oauth_qs L q @ ''">Forgot password?</a>''] else []);
          links = (if reg_link @ reset_link = [] then []
            else ''<p style="margin-top:16px; display:flex; gap:14px; flex-wrap:wrap">'' @
              join_with '' '' (reg_link @ reset_link) @ ''</p>'')
      in RsHtml (page_head ''Sign in'' @ err_html err @ ''<form method="post" action="/authorize">'' @
           concat (map hidden (query_pairs q)) @ username_input @
           password_input ''Password'' ''password'' ''current-password'' @
           ''<button type="submit">Continue</button></form>'' @ links @ ''</body>''))\<close>

definition back_link :: "oidc_lib \<Rightarrow> authorize_query \<Rightarrow> string" where
  \<open>back_link L q =
     ''<p style="margin-top:16px"><a href="/authorize'' @ build_oauth_qs L q @
     ''">Back to sign in</a></p></body>''\<close>

definition register_form :: "oidc_lib \<Rightarrow> authorize_query \<Rightarrow> string option \<Rightarrow> oidc_resp" where
  \<open>register_form L q err =
     RsHtml (page_head ''Create account'' @ err_html err @ ''<form method="post" action="/register">'' @
       concat (map hidden (query_pairs q)) @ username_input @
       password_input ''Password'' ''password'' ''new-password'' @
       password_input ''Password (again)'' ''password2'' ''new-password'' @
       ''<button type="submit">Create and continue</button></form>'' @ back_link L q)\<close>

definition reset_form :: "oidc_lib \<Rightarrow> authorize_query \<Rightarrow> string option \<Rightarrow> oidc_resp" where
  \<open>reset_form L q err =
     RsHtml (page_head ''Reset password'' @ err_html err @ ''<form method="post" action="/reset">'' @
       concat (map hidden (query_pairs q)) @ username_input @
       password_input ''New password'' ''password'' ''new-password'' @
       password_input ''New password (again)'' ''password2'' ''new-password'' @
       ''<button type="submit">Reset</button></form>'' @ back_link L q)\<close>

definition bad_request :: "string \<Rightarrow> oidc_resp" where
  "bad_request e = RsText 400 (e @ lf)"

definition not_found :: oidc_resp where
  "not_found = RsText 404 (''not found'' @ lf)"

definition server_error :: "string \<Rightarrow> oidc_resp" where
  "server_error e = RsText 500 (e @ lf)"

definition authorize_get :: "oidc_lib \<Rightarrow> oidc_config \<Rightarrow> authorize_query \<Rightarrow> oidc_resp" where
  "authorize_get L cfg q =
     (case validate_authorize_req cfg q of Some e \<Rightarrow> bad_request e | None \<Rightarrow> login_form L cfg q None)"

definition register_get :: "oidc_lib \<Rightarrow> oidc_config \<Rightarrow> authorize_query \<Rightarrow> oidc_resp" where
  "register_get L cfg q =
     (if \<not> og_allow_registration cfg then not_found
      else (case validate_authorize_req cfg q of Some e \<Rightarrow> bad_request e | None \<Rightarrow> register_form L q None))"

definition reset_get :: "oidc_lib \<Rightarrow> oidc_config \<Rightarrow> authorize_query \<Rightarrow> oidc_resp" where
  "reset_get L cfg q =
     (if \<not> og_allow_password_reset cfg then not_found
      else (case validate_authorize_req cfg q of Some e \<Rightarrow> bad_request e | None \<Rightarrow> reset_form L q None))"

section \<open>Users\<close>

definition is_valid_username :: "string \<Rightarrow> bool" where
  "is_valid_username s \<longleftrightarrow>
     (let s = trim s in
      3 \<le> length s \<and> length s \<le> 32 \<and> list_all (\<lambda>c. is_ascii_alnum c \<or> c = CHR ''_'' \<or> c = CHR ''-'') s)"

definition hash_password_phc :: "oidc_env \<Rightarrow> string \<Rightarrow> string option" where
  "hash_password_phc E pw = (if pw = [] then None else oe_hash E pw)"

definition load_userdb :: "oidc_lib \<Rightarrow> file_read \<Rightarrow> user_rec list option" where
  "load_userdb L f =
     (case f of FileMissing \<Rightarrow> Some [] | FileUnreadable \<Rightarrow> None | FileText s \<Rightarrow> ol_users_read L s)"

definition save_userdb_atomic :: "oidc_lib \<Rightarrow> oidc_env \<Rightarrow> user_rec list \<Rightarrow> oidc_state \<Rightarrow> oidc_state option" where
  "save_userdb_atomic L E db st =
     (if oe_save_ok E then Some (st\<lparr>os_users := FileText (ol_users_text L db @ lf)\<rparr>) else None)"

definition sanitize_caps :: "string list option \<Rightarrow> string list option" where
  "sanitize_caps v =
     (case v of
        None \<Rightarrow> None
      | Some xs \<Rightarrow>
          (let xs = take 32 (filter (\<lambda>s. s \<noteq> [] \<and> length s \<le> 64) (map norm_key xs))
           in if xs = [] then None else Some xs))"

definition verify_password :: "oidc_lib \<Rightarrow> oidc_config \<Rightarrow> user_rec \<Rightarrow> string \<Rightarrow> bool" where
  "verify_password L cfg u pw \<longleftrightarrow>
     (case us_password_hash u of
        Some phc \<Rightarrow> ol_verify L pw phc
      | None \<Rightarrow> og_allow_plaintext_passwords cfg \<and> us_password u = Some pw)"

text \<open>The redirection that carries a code; the state comes back if it is not blank.\<close>

definition code_redirect :: "oidc_lib \<Rightarrow> string \<Rightarrow> 'a authorize_form_scheme \<Rightarrow> oidc_resp" where
  "code_redirect L code f =
     RsSeeOther (join_query (fm_redirect_uri f)
       (''code='' @ ol_urlencode L code @
        (case fm_state f of
           None \<Rightarrow> []
         | Some s \<Rightarrow> if trim s = [] then [] else ''&state='' @ ol_urlencode L s)))"

definition insert_code :: "string \<Rightarrow> auth_code \<Rightarrow> oidc_state \<Rightarrow> oidc_state" where
  "insert_code code ac st = st\<lparr>os_codes := (os_codes st)(code \<mapsto> ac)\<rparr>"

definition auth_code_of :: "oidc_env \<Rightarrow> 'a authorize_form_scheme \<Rightarrow> string \<Rightarrow> string option \<Rightarrow> string list option \<Rightarrow> auth_code" where
  "auth_code_of E f sub email caps =
     \<lparr>au_created_unix = oe_now E, au_redirect_uri = fm_redirect_uri f,
      au_code_challenge = fm_code_challenge f, au_scope = fm_scope f, au_sub = sub,
      au_email = email, au_caps = caps\<rparr>"

definition register_post ::
  "oidc_lib \<Rightarrow> oidc_config \<Rightarrow> oidc_env \<Rightarrow> register_form_data \<Rightarrow> oidc_state \<Rightarrow> oidc_resp \<times> oidc_state" where
  "register_post L cfg E f st =
     (let q = query_of_form f; uname = trim (fm_username f) in
      if \<not> og_allow_registration cfg then (not_found, st)
      else if validate_authorize_req cfg q \<noteq> None then (bad_request (the (validate_authorize_req cfg q)), st)
      else if og_users_path cfg = None then (RsText 503 (''authorize disabled'' @ lf), st)
      else if \<not> is_valid_username uname then
        (register_form L q (Some ''bad username (use 3-32 chars: a-z, 0-9, _, -)''), st)
      else if fm_password f \<noteq> fm_password2 f then (register_form L q (Some ''passwords do not match''), st)
      else if length (fm_password f) < 8 then
        (register_form L q (Some ''password too short (min 8 chars)''), st)
      else
        (case load_userdb L (os_users st) of
           None \<Rightarrow> (server_error ''user db load failed'', st)
         | Some db \<Rightarrow>
             if list_ex (\<lambda>u. us_username u = uname) db then
               (register_form L q (Some ''username already taken''), st)
             else
               (case hash_password_phc E (fm_password f) of
                  None \<Rightarrow> (server_error ''password hash failed'', st)
                | Some phc \<Rightarrow>
                    (case save_userdb_atomic L E
                            (db @ [\<lparr>us_username = uname, us_password_hash = Some phc, us_password = None,
                               us_sub = Some uname, us_email = None, us_caps = None\<rparr>]) st of
                       None \<Rightarrow> (server_error ''user db save failed'', st)
                     | Some st \<Rightarrow>
                         (case oe_code E of
                            None \<Rightarrow> (server_error ''code gen failed'', st)
                          | Some code \<Rightarrow>
                              (code_redirect L code f,
                               insert_code code (auth_code_of E f uname None None) st))))))"

text \<open>The first user of the name gets the new password.\<close>

fun set_first_password :: "string \<Rightarrow> string \<Rightarrow> user_rec list \<Rightarrow> user_rec list" where
  "set_first_password n phc [] = []"
| "set_first_password n phc (u # us) =
     (if us_username u = n then u\<lparr>us_password_hash := Some phc, us_password := None\<rparr> # us
      else u # set_first_password n phc us)"

definition reset_post ::
  "oidc_lib \<Rightarrow> oidc_config \<Rightarrow> oidc_env \<Rightarrow> register_form_data \<Rightarrow> oidc_state \<Rightarrow> oidc_resp \<times> oidc_state" where
  "reset_post L cfg E f st =
     (let q = query_of_form f; uname = trim (fm_username f) in
      if \<not> og_allow_password_reset cfg then (not_found, st)
      else if validate_authorize_req cfg q \<noteq> None then (bad_request (the (validate_authorize_req cfg q)), st)
      else if og_users_path cfg = None then (RsText 503 (''authorize disabled'' @ lf), st)
      else if \<not> is_valid_username uname then (reset_form L q (Some ''bad username''), st)
      else if fm_password f \<noteq> fm_password2 f then (reset_form L q (Some ''passwords do not match''), st)
      else if length (fm_password f) < 8 then (reset_form L q (Some ''password too short (min 8 chars)''), st)
      else
        (case load_userdb L (os_users st) of
           None \<Rightarrow> (server_error ''user db load failed'', st)
         | Some db \<Rightarrow>
             if \<not> list_ex (\<lambda>u. us_username u = uname) db then (reset_form L q (Some ''reset failed''), st)
             else
               (case hash_password_phc E (fm_password f) of
                  None \<Rightarrow> (server_error ''password hash failed'', st)
                | Some phc \<Rightarrow>
                    (case save_userdb_atomic L E (set_first_password uname phc db) st of
                       None \<Rightarrow> (server_error ''user db save failed'', st)
                     | Some st \<Rightarrow> (login_form L cfg q (Some ''password reset. please sign in.''), st)))))"

definition authorize_post ::
  "oidc_lib \<Rightarrow> oidc_config \<Rightarrow> oidc_env \<Rightarrow> authorize_form \<Rightarrow> oidc_state \<Rightarrow> oidc_resp \<times> oidc_state" where
  "authorize_post L cfg E f st =
     (let q = query_of_form f; uname = trim (fm_username f);
          again = login_form L cfg q (Some ''invalid username or password'')
      in if validate_authorize_req cfg q \<noteq> None then (bad_request (the (validate_authorize_req cfg q)), st)
         else if og_users_path cfg = None then (RsText 503 (''authorize disabled'' @ lf), st)
         else
           (case load_userdb L (os_users st) of
              None \<Rightarrow> (server_error ''user db load failed'', st)
            | Some db \<Rightarrow>
                (case find (\<lambda>u. us_username u = uname) db of
                   None \<Rightarrow> (again, st)
                 | Some u \<Rightarrow>
                     if \<not> verify_password L cfg u (fm_password f) then (again, st)
                     else
                       (case oe_code E of
                          None \<Rightarrow> (server_error ''code gen failed'', st)
                        | Some code \<Rightarrow>
                            (let sub = (case us_sub u of Some s \<Rightarrow> s | None \<Rightarrow> us_username u);
                                 email = (case us_email u of
                                   Some e \<Rightarrow> if length e \<le> 254 then Some e else None | None \<Rightarrow> None)
                             in (code_redirect L code f,
                                 insert_code code (auth_code_of E f sub email (sanitize_caps (us_caps u))) st))))))"

section \<open>Tokens\<close>

definition unauthorized :: "string \<Rightarrow> oidc_resp" where
  "unauthorized e = RsText 401 (e @ lf)"

definition userinfo :: "oidc_lib \<Rightarrow> oidc_config \<Rightarrow> string option option \<Rightarrow> oidc_resp" where
  "userinfo L cfg h =
     (case h of
        None \<Rightarrow> unauthorized ''missing bearer token''
      | Some None \<Rightarrow> unauthorized ''bad authorization header''
      | Some (Some s) \<Rightarrow>
          (case strip_prefix ''Bearer '' s of
             None \<Rightarrow> unauthorized ''bad authorization header''
           | Some tok \<Rightarrow>
               (let tok = trim tok in
                if tok = [] then unauthorized ''missing bearer token''
                else
                  (case ol_check_token L (og_issuer cfg) ''slopmud'' tok of
                     Inl e \<Rightarrow> if e = ''bad signing key'' then server_error e else unauthorized ''invalid token''
                   | Inr c \<Rightarrow>
                       RsUserInfo \<lparr>ui_sub = cl_sub c, ui_email = cl_email c, ui_caps = sanitize_caps (cl_caps c)\<rparr>))))"

definition token_client :: "oidc_lib \<Rightarrow> oidc_config \<Rightarrow> oidc_env \<Rightarrow> token_form \<Rightarrow> oidc_resp" where
  "token_client L cfg E tf =
     (let claims = \<lparr>cl_iss = og_issuer cfg,
            cl_sub = (case tf_sub tf of Some s \<Rightarrow> s | None \<Rightarrow> ''anonymous''), cl_aud = ''slopmud'',
            cl_iat = oe_now E, cl_exp = sat_add64 (oe_now E) (og_token_ttl_s cfg), cl_sid = tf_sid tf,
            cl_scope = tf_scope tf, cl_client_id = og_client_id cfg, cl_email = None, cl_caps = None\<rparr>
      in (case ol_sign L claims of
            Inl e \<Rightarrow> server_error e
          | Inr jwt \<Rightarrow>
              RsToken \<lparr>tr_access_token = jwt, tr_token_type = ''Bearer'', tr_expires_in = og_token_ttl_s cfg,
                tr_scope = tf_scope tf, tr_id_token = None\<rparr>))"

definition access_claims :: "oidc_config \<Rightarrow> oidc_env \<Rightarrow> auth_code \<Rightarrow> oidc_claims" where
  "access_claims cfg E ac =
     \<lparr>cl_iss = og_issuer cfg, cl_sub = au_sub ac, cl_aud = ''slopmud'', cl_iat = oe_now E,
      cl_exp = sat_add64 (oe_now E) (og_token_ttl_s cfg), cl_sid = None, cl_scope = au_scope ac,
      cl_client_id = og_client_id cfg, cl_email = au_email ac, cl_caps = au_caps ac\<rparr>"

text \<open>The checks of a code that has been taken out of the table.\<close>

definition token_for_code ::
  "oidc_lib \<Rightarrow> oidc_config \<Rightarrow> oidc_env \<Rightarrow> auth_code \<Rightarrow> string \<Rightarrow> string \<Rightarrow> oidc_resp" where
  "token_for_code L cfg E ac redirect_uri verifier =
     (if og_auth_code_ttl_s cfg < oe_now E - au_created_unix ac then bad_request ''code expired''
      else if au_redirect_uri ac \<noteq> redirect_uri then bad_request ''redirect_uri mismatch''
      else if au_code_challenge ac \<noteq> ol_challenge L verifier then bad_request ''pkce verify failed''
      else
        (let claims = access_claims cfg E ac in
         case ol_sign L claims of
           Inl e \<Rightarrow> server_error e
         | Inr access \<Rightarrow>
             (let scope = (case cl_scope claims of None \<Rightarrow> [] | Some s \<Rightarrow> s);
                  id_token = (if ''openid'' \<in> set (split_whitespace scope) then
                      (case ol_sign L (claims\<lparr>cl_aud := og_client_id cfg\<rparr>) of Inl _ \<Rightarrow> None | Inr t \<Rightarrow> Some t)
                    else None)
              in RsToken \<lparr>tr_access_token = access, tr_token_type = ''Bearer'',
                   tr_expires_in = og_token_ttl_s cfg, tr_scope = cl_scope claims, tr_id_token = id_token\<rparr>)))"

definition oidc_token ::
  "oidc_lib \<Rightarrow> oidc_config \<Rightarrow> oidc_env \<Rightarrow> string option option \<Rightarrow> token_form \<Rightarrow> oidc_state \<Rightarrow>
   oidc_resp \<times> oidc_state" where
  "oidc_token L cfg E h tf st =
     (case basic_auth L h of
        None \<Rightarrow> (unauthorized ''missing basic auth'', st)
      | Some (cid, csec) \<Rightarrow>
          if cid \<noteq> og_client_id cfg \<or> csec \<noteq> og_client_secret cfg then
            (unauthorized ''bad client credentials'', st)
          else if tf_grant_type tf = ''client_credentials'' then (token_client L cfg E tf, st)
          else if tf_grant_type tf = ''authorization_code'' then
            (case tf_code tf of
               None \<Rightarrow> (bad_request ''missing code'', st)
             | Some code \<Rightarrow>
                 (case tf_redirect_uri tf of
                    None \<Rightarrow> (bad_request ''missing redirect_uri'', st)
                  | Some uri \<Rightarrow>
                      (case tf_code_verifier tf of
                         None \<Rightarrow> (bad_request ''missing code_verifier'', st)
                       | Some verifier \<Rightarrow>
                           (let st' = st\<lparr>os_codes := (os_codes st)(code := None)\<rparr> in
                            case os_codes st code of
                              None \<Rightarrow> (bad_request ''invalid code'', st')
                            | Some ac \<Rightarrow> (token_for_code L cfg E ac uri verifier, st')))))
          else (bad_request ''unsupported grant_type'', st))"

section \<open>The service\<close>

datatype oidc_req =
    Healthz
  | Discovery
  | JwksGet
  | AuthorizeGet authorize_query
  | AuthorizePost authorize_form
  | RegisterGet authorize_query
  | RegisterPost register_form_data
  | ResetGet authorize_query
  | ResetPost register_form_data
  | UserInfo "string option option"
  | TokenPost "string option option" token_form

definition oidc_step ::
  "oidc_lib \<Rightarrow> oidc_config \<Rightarrow> oidc_env \<times> oidc_req \<Rightarrow> oidc_state \<Rightarrow> oidc_resp \<times> oidc_state" where
  "oidc_step L cfg r st =
     (case snd r of
        Healthz \<Rightarrow> (RsText 200 (''ok'' @ lf), st)
      | Discovery \<Rightarrow> (discovery cfg, st)
      | JwksGet \<Rightarrow> (jwks cfg, st)
      | AuthorizeGet q \<Rightarrow> (authorize_get L cfg q, st)
      | AuthorizePost f \<Rightarrow> authorize_post L cfg (fst r) f st
      | RegisterGet q \<Rightarrow> (register_get L cfg q, st)
      | RegisterPost f \<Rightarrow> register_post L cfg (fst r) f st
      | ResetGet q \<Rightarrow> (reset_get L cfg q, st)
      | ResetPost f \<Rightarrow> reset_post L cfg (fst r) f st
      | UserInfo h \<Rightarrow> (userinfo L cfg h, st)
      | TokenPost h tf \<Rightarrow> oidc_token L cfg (fst r) h tf st)"

definition oidc_after :: "oidc_lib \<Rightarrow> oidc_config \<Rightarrow> (oidc_env \<times> oidc_req) list \<Rightarrow> oidc_state \<Rightarrow> oidc_state" where
  "oidc_after L cfg rs st = foldl (\<lambda>st r. snd (oidc_step L cfg r st)) st rs"


section \<open>Where codes come from\<close>

text \<open>
  \<open>vouched L cfg r st code ac\<close>: the request \<open>r\<close>, made in state \<open>st\<close>, proves who \<open>ac\<close> is about, by the
  password of a stored user or by registering a free name, asks for what \<open>ac\<close> says, and is answered by a
  redirection with the code to an address that is allowed.
\<close>

definition asks_for :: "oidc_lib \<Rightarrow> oidc_config \<Rightarrow> oidc_env \<Rightarrow> 'a authorize_form_scheme \<Rightarrow> oidc_resp \<Rightarrow> string \<Rightarrow> auth_code \<Rightarrow> bool" where
  "asks_for L cfg E f resp code ac \<longleftrightarrow>
     fm_client_id f = og_client_id cfg \<and> validate_redirect_uri cfg (fm_redirect_uri f) \<and>
     fm_code_challenge_method f = ''S256'' \<and> resp = code_redirect L code f \<and>
     au_redirect_uri ac = fm_redirect_uri f \<and> au_code_challenge ac = fm_code_challenge f \<and>
     au_scope ac = fm_scope f \<and> au_created_unix ac = oe_now E"

definition subject_of :: "user_rec \<Rightarrow> string" where
  "subject_of u = (case us_sub u of Some s \<Rightarrow> s | None \<Rightarrow> us_username u)"

definition vouched :: "oidc_lib \<Rightarrow> oidc_config \<Rightarrow> oidc_env \<times> oidc_req \<Rightarrow> oidc_state \<Rightarrow> string \<Rightarrow> auth_code \<Rightarrow> bool" where
  "vouched L cfg r st code ac \<longleftrightarrow>
     oe_code (fst r) = Some code \<and>
     (case snd r of
        AuthorizePost f \<Rightarrow>
          asks_for L cfg (fst r) f (fst (oidc_step L cfg r st)) code ac \<and>
          (\<exists>db u. load_userdb L (os_users st) = Some db \<and> u \<in> set db \<and> us_username u = trim (fm_username f) \<and>
             verify_password L cfg u (fm_password f) \<and> au_sub ac = subject_of u)
      | RegisterPost f \<Rightarrow>
          og_allow_registration cfg \<and> asks_for L cfg (fst r) f (fst (oidc_step L cfg r st)) code ac \<and>
          (\<exists>db. load_userdb L (os_users st) = Some db \<and> trim (fm_username f) \<notin> us_username ` set db \<and>
             au_sub ac = trim (fm_username f))
      | _ \<Rightarrow> False)"

text \<open>A request that takes the code out of the table, whether or not it gets a token for it.\<close>

definition redeems :: "oidc_lib \<Rightarrow> oidc_config \<Rightarrow> string \<Rightarrow> oidc_req \<Rightarrow> bool" where
  "redeems L cfg code r \<longleftrightarrow>
     (case r of
        TokenPost h tf \<Rightarrow>
          basic_auth L h = Some (og_client_id cfg, og_client_secret cfg) \<and>
          tf_grant_type tf = ''authorization_code'' \<and> tf_code tf = Some code \<and>
          tf_redirect_uri tf \<noteq> None \<and> tf_code_verifier tf \<noteq> None
      | _ \<Rightarrow> False)"

lemma validated_form:
  assumes "validate_authorize_req cfg (query_of_form f) = None"
  shows "fm_client_id f = og_client_id cfg" "validate_redirect_uri cfg (fm_redirect_uri f)"
    "fm_code_challenge_method f = ''S256''"
  using assms by (auto simp: validate_authorize_req_def query_of_form_def split: if_splits)

lemma insert_code_users [simp]: "os_users (insert_code c ac st) = os_users st"
  and insert_code_codes [simp]: "os_codes (insert_code c ac st) = (os_codes st)(c \<mapsto> ac)"
  by (simp_all add: insert_code_def)

lemma save_codes:
  assumes "save_userdb_atomic L E db st = Some st'"
  shows "os_codes st' = os_codes st" "os_users st' = FileText (ol_users_text L db @ lf)"
  using assms by (auto simp: save_userdb_atomic_def split: if_splits)

lemma authorize_post_cases:
  obtains (same) "snd (authorize_post L cfg E f st) = st"
  | (issued) db u code ac where
      "validate_authorize_req cfg (query_of_form f) = None" "load_userdb L (os_users st) = Some db"
      "u \<in> set db" "us_username u = trim (fm_username f)" "verify_password L cfg u (fm_password f)"
      "oe_code E = Some code" "ac = auth_code_of E f (subject_of u) (au_email ac) (au_caps ac)"
      "authorize_post L cfg E f st = (code_redirect L code f, insert_code code ac st)"
proof (cases "validate_authorize_req cfg (query_of_form f) = None \<and> og_users_path cfg \<noteq> None")
  case False
  then have "snd (authorize_post L cfg E f st) = st" by (auto simp: authorize_post_def Let_def)
  then show ?thesis by (rule same)
next
  case True
  note ok = this
  show ?thesis
  proof (cases "load_userdb L (os_users st)")
    case None
    then have "snd (authorize_post L cfg E f st) = st" using ok by (simp add: authorize_post_def Let_def)
    then show ?thesis by (rule same)
  next
    case (Some db)
    note db = this
    show ?thesis
    proof (cases "find (\<lambda>u. us_username u = trim (fm_username f)) db")
      case None
      then have "snd (authorize_post L cfg E f st) = st" using ok db by (simp add: authorize_post_def Let_def)
      then show ?thesis by (rule same)
    next
      case (Some u)
      note u = this
      have mem: "u \<in> set db" "us_username u = trim (fm_username f)"
        using u by (auto simp: find_Some_iff)
      show ?thesis
      proof (cases "verify_password L cfg u (fm_password f) \<and> oe_code E \<noteq> None")
        case False
        then have "snd (authorize_post L cfg E f st) = st"
          using ok db u by (auto simp: authorize_post_def Let_def)
        then show ?thesis by (rule same)
      next
        case True
        then obtain code where c: "oe_code E = Some code" by blast
        let ?ac = "auth_code_of E f (subject_of u)
          (case us_email u of Some e \<Rightarrow> if length e \<le> 254 then Some e else None | None \<Rightarrow> None)
          (sanitize_caps (us_caps u))"
        have "authorize_post L cfg E f st = (code_redirect L code f, insert_code code ?ac st)"
          using ok db u c True by (auto simp: authorize_post_def subject_of_def Let_def)
        then show ?thesis
          using issued[of db u code ?ac] ok db mem c True by (simp add: auth_code_of_def)
      qed
    qed
  qed
qed

text \<open>
  Registration and reset: unless the user file is written, nothing changes; a written file has the new
  user at its end, or the new password with the first user of the name.
\<close>

definition new_user :: "string \<Rightarrow> string \<Rightarrow> user_rec" where
  "new_user n phc =
     \<lparr>us_username = n, us_password_hash = Some phc, us_password = None, us_sub = Some n,
      us_email = None, us_caps = None\<rparr>"

lemma register_post_cases:
  obtains (same) "snd (register_post L cfg E f st) = st"
  | (saved) db phc st1 where
      "og_allow_registration cfg" "validate_authorize_req cfg (query_of_form f) = None"
      "is_valid_username (trim (fm_username f))" "fm_password f = fm_password2 f"
      "8 \<le> length (fm_password f)" "load_userdb L (os_users st) = Some db"
      "trim (fm_username f) \<notin> us_username ` set db" "oe_hash E (fm_password f) = Some phc"
      "save_userdb_atomic L E (db @ [new_user (trim (fm_username f)) phc]) st = Some st1"
      "register_post L cfg E f st =
         (case oe_code E of
            None \<Rightarrow> (server_error ''code gen failed'', st1)
          | Some code \<Rightarrow>
              (code_redirect L code f,
               insert_code code (auth_code_of E f (trim (fm_username f)) None None) st1))"
proof -
  let ?n = "trim (fm_username f)"
  let ?ok = "og_allow_registration cfg \<and> validate_authorize_req cfg (query_of_form f) = None \<and>
    og_users_path cfg \<noteq> None \<and> is_valid_username ?n \<and> fm_password f = fm_password2 f \<and>
    8 \<le> length (fm_password f)"
  show ?thesis
  proof (cases ?ok)
    case False
    then have "snd (register_post L cfg E f st) = st"
      by (auto simp: register_post_def Let_def)
    then show ?thesis by (rule same)
  next
    case True
    note ok = this
    then have pw: "hash_password_phc E (fm_password f) = oe_hash E (fm_password f)"
      by (auto simp: hash_password_phc_def)
    have run: "register_post L cfg E f st =
       (case load_userdb L (os_users st) of
           None \<Rightarrow> (server_error ''user db load failed'', st)
         | Some db \<Rightarrow>
             if list_ex (\<lambda>u. us_username u = ?n) db then
               (register_form L (query_of_form f) (Some ''username already taken''), st)
             else
               (case oe_hash E (fm_password f) of
                  None \<Rightarrow> (server_error ''password hash failed'', st)
                | Some phc \<Rightarrow>
                    (case save_userdb_atomic L E (db @ [new_user ?n phc]) st of
                       None \<Rightarrow> (server_error ''user db save failed'', st)
                     | Some st \<Rightarrow>
                         (case oe_code E of
                            None \<Rightarrow> (server_error ''code gen failed'', st)
                          | Some code \<Rightarrow>
                              (code_redirect L code f,
                               insert_code code (auth_code_of E f ?n None None) st)))))"
      using ok pw by (auto simp: register_post_def Let_def new_user_def split: option.split)
    show ?thesis
    proof (cases "snd (register_post L cfg E f st) = st")
      case True
      then show ?thesis by (rule same)
    next
      case False
      then obtain db phc st1 where d: "load_userdb L (os_users st) = Some db"
          "\<not> list_ex (\<lambda>u. us_username u = ?n) db" "oe_hash E (fm_password f) = Some phc"
          "save_userdb_atomic L E (db @ [new_user ?n phc]) st = Some st1"
        unfolding run by (simp split: option.splits if_splits)
      have free: "?n \<notin> us_username ` set db" using d(2) by (auto simp: list_ex_iff)
      show ?thesis
        by (rule saved[of db phc st1]) (use ok in blast | (simp add: free run d; fail) | rule d)+
    qed
  qed
qed

lemma reset_post_cases:
  obtains (same) "snd (reset_post L cfg E f st) = st"
  | (saved) db phc st1 where
      "og_allow_password_reset cfg" "validate_authorize_req cfg (query_of_form f) = None"
      "load_userdb L (os_users st) = Some db" "trim (fm_username f) \<in> us_username ` set db"
      "8 \<le> length (fm_password f)" "oe_hash E (fm_password f) = Some phc"
      "save_userdb_atomic L E (set_first_password (trim (fm_username f)) phc db) st = Some st1"
      "snd (reset_post L cfg E f st) = st1"
proof -
  let ?n = "trim (fm_username f)"
  let ?ok = "og_allow_password_reset cfg \<and> validate_authorize_req cfg (query_of_form f) = None \<and>
    og_users_path cfg \<noteq> None \<and> is_valid_username ?n \<and> fm_password f = fm_password2 f \<and>
    8 \<le> length (fm_password f)"
  show ?thesis
  proof (cases ?ok)
    case False
    then have "snd (reset_post L cfg E f st) = st" by (auto simp: reset_post_def Let_def)
    then show ?thesis by (rule same)
  next
    case True
    note ok = this
    then have pw: "hash_password_phc E (fm_password f) = oe_hash E (fm_password f)"
      by (auto simp: hash_password_phc_def)
    have run: "snd (reset_post L cfg E f st) =
       (case load_userdb L (os_users st) of
           None \<Rightarrow> st
         | Some db \<Rightarrow>
             if \<not> list_ex (\<lambda>u. us_username u = ?n) db then st
             else
               (case oe_hash E (fm_password f) of
                  None \<Rightarrow> st
                | Some phc \<Rightarrow>
                    (case save_userdb_atomic L E (set_first_password ?n phc db) st of
                       None \<Rightarrow> st | Some st \<Rightarrow> st)))"
      using ok pw by (auto simp: reset_post_def Let_def split: option.split)
    show ?thesis
    proof (cases "snd (reset_post L cfg E f st) = st")
      case True
      then show ?thesis by (rule same)
    next
      case False
      then obtain db phc st1 where d: "load_userdb L (os_users st) = Some db"
          "list_ex (\<lambda>u. us_username u = ?n) db" "oe_hash E (fm_password f) = Some phc"
          "save_userdb_atomic L E (set_first_password ?n phc db) st = Some st1"
        unfolding run by (simp split: option.splits if_splits)
      have known: "?n \<in> us_username ` set db" using d(2) by (force simp: list_ex_iff)
      show ?thesis
        by (rule saved[of db phc st1]) (use ok in blast | (simp add: known run d; fail) | rule d)+
    qed
  qed
qed

text \<open>The table of codes after one request.\<close>

lemma token_codes:
  "os_users (snd (oidc_token L cfg E h tf st)) = os_users st"
  "os_codes (snd (oidc_token L cfg E h tf st)) =
     (if redeems L cfg (the (tf_code tf)) (TokenPost h tf) then (os_codes st)(the (tf_code tf) := None)
      else os_codes st)"
  by (auto simp: oidc_token_def redeems_def Let_def split: option.split)

lemma step_codes:
  assumes "os_codes (snd (oidc_step L cfg r st)) code = Some ac"
  shows "vouched L cfg r st code ac \<or> (os_codes st code = Some ac \<and> \<not> redeems L cfg code (snd r))"
proof (cases "snd r")
  case (AuthorizePost f)
  then have step: "oidc_step L cfg r st = authorize_post L cfg (fst r) f st" by (simp add: oidc_step_def)
  show ?thesis
  proof (cases rule: authorize_post_cases[of L cfg "fst r" f st])
    case same
    then show ?thesis using assms AuthorizePost by (simp add: step redeems_def)
  next
    case (issued db u c ac')
    show ?thesis
    proof (cases "code = c")
      case True
      then have "ac = ac'" using assms issued(8) by (simp add: step)
      then have "asks_for L cfg (fst r) f (fst (oidc_step L cfg r st)) code ac \<and> au_sub ac = subject_of u"
        using issued(7,8) validated_form[OF issued(1)] True
        unfolding asks_for_def step by (metis auth_code_of_def auth_code.select_convs fst_conv)
      then show ?thesis using issued AuthorizePost True unfolding vouched_def by auto
    next
      case False
      then show ?thesis using assms AuthorizePost issued(8) by (simp add: step redeems_def)
    qed
  qed
next
  case (RegisterPost f)
  then have step: "oidc_step L cfg r st = register_post L cfg (fst r) f st" by (simp add: oidc_step_def)
  show ?thesis
  proof (cases rule: register_post_cases[of L cfg "fst r" f st])
    case same
    then show ?thesis using assms RegisterPost by (simp add: step redeems_def)
  next
    case (saved db phc st1)
    let ?ac = "auth_code_of (fst r) f (trim (fm_username f)) None None"
    show ?thesis
    proof (cases "oe_code (fst r) = Some code")
      case True
      then have "ac = ?ac" using assms saved(10) by (simp add: step)
      then have "asks_for L cfg (fst r) f (fst (oidc_step L cfg r st)) code ac \<and>
          au_sub ac = trim (fm_username f)"
        using saved(10) validated_form[OF saved(2)] True
        by (simp add: asks_for_def step auth_code_of_def)
      then show ?thesis using saved RegisterPost True unfolding vouched_def by auto
    next
      case False
      then have "os_codes st code = Some ac"
        using assms saved(10) save_codes(1)[OF saved(9)]
        by (cases "oe_code (fst r)") (auto simp: step split: if_splits)
      then show ?thesis using RegisterPost by (simp add: redeems_def)
    qed
  qed
next
  case (ResetPost f)
  then have step: "oidc_step L cfg r st = reset_post L cfg (fst r) f st" by (simp add: oidc_step_def)
  have "os_codes (snd (reset_post L cfg (fst r) f st)) = os_codes st"
    by (cases rule: reset_post_cases[of L cfg "fst r" f st]) (simp_all add: save_codes)
  then show ?thesis using assms ResetPost by (simp add: step redeems_def)
next
  case (TokenPost h tf)
  then have step: "oidc_step L cfg r st = oidc_token L cfg (fst r) h tf st" by (simp add: oidc_step_def)
  have "tf_code tf = Some code" if "redeems L cfg code (TokenPost h tf)"
    using that by (simp add: redeems_def)
  then show ?thesis
    using assms TokenPost by (auto simp: step token_codes split: if_splits)
qed (use assms in \<open>simp_all add: oidc_step_def redeems_def\<close>)

lemma run_codes:
  assumes "os_codes st0 = Map.empty" "os_codes (oidc_after L cfg rs st0) code = Some ac"
  shows "\<exists>pre r post. rs = pre @ r # post \<and> vouched L cfg r (oidc_after L cfg pre st0) code ac \<and>
    (\<forall>x \<in> set post. \<not> redeems L cfg code (snd x))"
  using assms(2)
proof (induction rs rule: rev_induct)
  case Nil
  then show ?case using assms(1) by (simp add: oidc_after_def)
next
  case (snoc x xs)
  then have "os_codes (snd (oidc_step L cfg x (oidc_after L cfg xs st0))) code = Some ac"
    by (simp add: oidc_after_def)
  from step_codes[OF this] show ?case
  proof
    assume "vouched L cfg x (oidc_after L cfg xs st0) code ac"
    then show ?thesis by (intro exI[of _ xs] exI[of _ x] exI[of _ "[]"]) simp
  next
    assume old: "os_codes (oidc_after L cfg xs st0) code = Some ac \<and> \<not> redeems L cfg code (snd x)"
    then obtain pre r post where "xs = pre @ r # post" "vouched L cfg r (oidc_after L cfg pre st0) code ac"
        "\<forall>y \<in> set post. \<not> redeems L cfg code (snd y)"
      using snoc.IH by blast
    then show ?thesis using old
      by (intro exI[of _ pre] exI[of _ r] exI[of _ "post @ [x]"]) auto
  qed
qed

text \<open>
  C8. A token for an authorization code comes from one earlier request that proved who the subject is:
  a sign-in with the password of the stored user, or the registration of a free name. Its answer sent
  the code to an allowed address; no request since has taken the code; and the token request names the
  same address, in time, with the verifier of the challenge that was given then.
\<close>
theorem tokens_come_from_sign_ins:
  assumes "oidc_step L cfg (E, TokenPost h tf) (oidc_after L cfg rs st0) = (RsToken t, st')"
    and "tf_grant_type tf = ''authorization_code''" "os_codes st0 = Map.empty"
  shows "\<exists>code ac pre r post verifier.
    rs = pre @ r # post \<and> vouched L cfg r (oidc_after L cfg pre st0) code ac \<and>
    list_all (\<lambda>x. \<not> redeems L cfg code (snd x)) post \<and>
    tf_code tf = Some code \<and> tf_redirect_uri tf = Some (au_redirect_uri ac) \<and>
    tf_code_verifier tf = Some verifier \<and> ol_challenge L verifier = au_code_challenge ac \<and>
    oe_now E \<le> au_created_unix ac + og_auth_code_ttl_s cfg \<and>
    ol_sign L (access_claims cfg E ac) = Inr (tr_access_token t) \<and> os_codes st' code = None"
proof -
  let ?st = "oidc_after L cfg rs st0"
  from assms(1) have run: "oidc_token L cfg E h tf ?st = (RsToken t, st')" by (simp add: oidc_step_def)
  from run assms(2) obtain code ac uri verifier where
    c: "tf_code tf = Some code" "tf_redirect_uri tf = Some uri" "tf_code_verifier tf = Some verifier"
      "os_codes ?st code = Some ac" "token_for_code L cfg E ac uri verifier = RsToken t" "os_codes st' code = None"
    by (auto simp: oidc_token_def unauthorized_def bad_request_def Let_def split: option.splits if_splits)
  from c(5) have t: "oe_now E \<le> au_created_unix ac + og_auth_code_ttl_s cfg" "au_redirect_uri ac = uri"
      "au_code_challenge ac = ol_challenge L verifier"
      "ol_sign L (access_claims cfg E ac) = Inr (tr_access_token t)"
    by (auto simp: token_for_code_def bad_request_def server_error_def Let_def split: if_splits sum.splits)
  obtain pre r post where "rs = pre @ r # post" "vouched L cfg r (oidc_after L cfg pre st0) code ac"
      "\<forall>x \<in> set post. \<not> redeems L cfg code (snd x)"
    using run_codes[OF assms(3) c(4)] by blast
  then show ?thesis
    using c t by (intro exI[of _ code] exI[of _ ac] exI[of _ pre] exI[of _ r] exI[of _ post] exI[of _ verifier])
      (simp add: list_all_iff)
qed

section \<open>The users\<close>

text \<open>What no request changes of a user.\<close>

definition identity_of :: "user_rec \<Rightarrow> string \<times> string option \<times> string option \<times> string list option" where
  "identity_of u = (us_username u, us_sub u, us_email u, us_caps u)"

lemma identity_set_first_password [simp]:
  "map identity_of (set_first_password n phc us) = map identity_of us"
  by (induction us) (simp_all add: identity_of_def)

lemma identity_new_user [simp]: "identity_of (new_user n phc) = (n, Some n, None, None)"
  by (simp add: identity_of_def new_user_def)

lemma names_of_identities: "map us_username us = map fst (map identity_of us)"
  by (simp add: identity_of_def)

definition users_grow :: "oidc_config \<Rightarrow> user_rec list \<Rightarrow> user_rec list \<Rightarrow> bool" where
  "users_grow cfg us vs \<longleftrightarrow>
     (\<exists>new. map identity_of vs = map identity_of us @ map (\<lambda>n. (n, Some n, None, None)) new \<and>
        list_all is_valid_username new \<and> (new \<noteq> [] \<longrightarrow> og_allow_registration cfg)) \<and>
     distinct (map us_username vs)"

lemma users_grow_trans:
  assumes "users_grow cfg us vs" "users_grow cfg vs ws"
  shows "users_grow cfg us ws"
proof -
  let ?f = "\<lambda>n. (n, Some n, None, None)"
  obtain n where n: "map identity_of vs = map identity_of us @ map ?f n" "list_all is_valid_username n"
      "n \<noteq> [] \<longrightarrow> og_allow_registration cfg"
    using assms(1) unfolding users_grow_def by blast
  obtain m where m: "map identity_of ws = map identity_of vs @ map ?f m" "list_all is_valid_username m"
      "m \<noteq> [] \<longrightarrow> og_allow_registration cfg"
    using assms(2) unfolding users_grow_def by blast
  have "distinct (map us_username ws)" using assms(2) by (simp add: users_grow_def)
  then show ?thesis using n m unfolding users_grow_def by (intro conjI exI[of _ "n @ m"]) auto
qed

lemma users_grow_refl: "distinct (map us_username us) \<Longrightarrow> users_grow cfg us us"
  unfolding users_grow_def by (intro conjI exI[of _ "[]"]) simp_all

lemma step_users:
  assumes "load_userdb L (os_users st) = Some us" "distinct (map us_username us)"
    and json: "\<And>us. ol_users_read L (ol_users_text L us @ lf) = Some us"
  shows "\<exists>vs. load_userdb L (os_users (snd (oidc_step L cfg r st))) = Some vs \<and> users_grow cfg us vs"
proof -
  have unchanged: ?thesis if "os_users (snd (oidc_step L cfg r st)) = os_users st"
    using that assms(1) users_grow_refl[OF assms(2)] by simp
  have written: "load_userdb L (os_users st1) = Some db" if "save_userdb_atomic L E db st = Some st1" for E db st1
    using save_codes(2)[OF that] by (simp add: load_userdb_def json)
  show ?thesis
  proof (cases "snd r")
    case (AuthorizePost f)
    have "os_users (snd (authorize_post L cfg (fst r) f st)) = os_users st"
      by (cases rule: authorize_post_cases[of L cfg "fst r" f st]) simp_all
    then show ?thesis using AuthorizePost by (intro unchanged) (simp add: oidc_step_def)
  next
    case (RegisterPost f)
    show ?thesis
    proof (cases rule: register_post_cases[of L cfg "fst r" f st])
      case same
      then show ?thesis using RegisterPost by (intro unchanged) (simp add: oidc_step_def)
    next
      case (saved db phc st1)
      let ?n = "trim (fm_username f)"
      have db: "db = us" using saved(6) assms(1) by simp
      have "os_users (snd (oidc_step L cfg r st)) = os_users st1"
        using RegisterPost saved(10) by (simp add: oidc_step_def split: option.split)
      moreover have "users_grow cfg us (us @ [new_user ?n phc])"
        unfolding users_grow_def
        by (intro conjI exI[of _ "[?n]"]) (use saved(1,3,7) db assms(2) in \<open>auto simp: new_user_def identity_of_def\<close>)
      ultimately show ?thesis using written[OF saved(9)] db by auto
    qed
  next
    case (ResetPost f)
    show ?thesis
    proof (cases rule: reset_post_cases[of L cfg "fst r" f st])
      case same
      then show ?thesis using ResetPost by (intro unchanged) (simp add: oidc_step_def)
    next
      case (saved db phc st1)
      have db: "db = us" using saved(3) assms(1) by simp
      have "distinct (map us_username (set_first_password (trim (fm_username f)) phc us))"
        using assms(2) by (simp only: names_of_identities identity_set_first_password)
      then have "users_grow cfg us (set_first_password (trim (fm_username f)) phc us)"
        unfolding users_grow_def by (intro conjI exI[of _ "[]"]) simp_all
      then show ?thesis using ResetPost saved(8) written[OF saved(7)] db by (auto simp: oidc_step_def)
    qed
  next
    case (TokenPost h tf)
    then show ?thesis by (intro unchanged) (simp add: oidc_step_def token_codes)
  qed (use unchanged in \<open>simp_all add: oidc_step_def\<close>)
qed

text \<open>
  C23. No request takes a user away or gives another subject, address or capabilities to one: after
  every run the stored users are those of the start, in order, and then the registered ones, each with
  its own name as subject; the names stay distinct, and without registration none is added.
\<close>
theorem users_keep_identity:
  assumes "load_userdb L (os_users st) = Some us" "distinct (map us_username us)"
    and "\<And>us. ol_users_read L (ol_users_text L us @ lf) = Some us"
  shows "\<exists>vs. load_userdb L (os_users (oidc_after L cfg rs st)) = Some vs \<and> users_grow cfg us vs"
proof (induction rs rule: rev_induct)
  case Nil
  show ?case using assms(1) users_grow_refl[OF assms(2)] by (simp add: oidc_after_def)
next
  case (snoc r rs)
  then obtain vs where vs: "load_userdb L (os_users (oidc_after L cfg rs st)) = Some vs" "users_grow cfg us vs"
    by blast
  then have "distinct (map us_username vs)" by (simp add: users_grow_def)
  from step_users[OF vs(1) this assms(3), of cfg r] vs(2)
  show ?case by (auto simp: oidc_after_def intro: users_grow_trans)
qed

section \<open>A small run\<close>

text \<open>
  For the examples: the users are written as a number; the file has \<open>alice\<close>, whose subject is another
  text. Somebody else registers that text as a name.
\<close>

definition user_row where
  "user_row u = (us_username u, us_password_hash u, us_password u, us_sub u, us_email u, us_caps u)"

definition row_user where
  "row_user = (\<lambda>(n, h, p, s, e, cs).
     \<lparr>us_username = n, us_password_hash = h, us_password = p, us_sub = s, us_email = e, us_caps = cs\<rparr>)"

definition oidc_demo_text :: "user_rec list \<Rightarrow> string" where
  "oidc_demo_text us = show_nat (to_nat (map user_row us))"

definition oidc_demo_read :: "string \<Rightarrow> user_rec list option" where
  "oidc_demo_read s = map_option (map row_user \<circ> from_nat) (parse_digits_from 0 (butlast s))"

lemma oidc_demo_json: "oidc_demo_read (oidc_demo_text us @ lf) = Some us"
proof -
  have "row_user (user_row u) = u" for u :: user_rec by (cases u) (simp add: row_user_def user_row_def)
  then have "map (row_user \<circ> user_row) us = us" by (simp add: map_idI)
  then show ?thesis by (simp add: oidc_demo_read_def oidc_demo_text_def lf_def parse_digits_show_nat)
qed

definition oidc_demo_lib :: oidc_lib where
  "oidc_demo_lib = \<lparr>ol_basic_decode = Some, ol_challenge = (\<lambda>v. ''c'' @ v), ol_urlencode = id, ol_verify = (=),
     ol_users_read = oidc_demo_read, ol_users_text = oidc_demo_text, ol_sign = (\<lambda>c. Inr (cl_sub c)),
     ol_check_token = (\<lambda>_ _ _. Inl [])\<rparr>"

definition oidc_demo_config :: oidc_config where
  "oidc_demo_config = \<lparr>og_issuer = ''i'', og_client_id = ''web'', og_client_secret = ''s'', og_token_ttl_s = 3600,
     og_auth_code_ttl_s = 300, og_users_path = Some ''u'', og_allowed_redirect_uris = [''https://w''],
     og_allow_plaintext_passwords = False, og_allow_registration = True, og_allow_password_reset = False,
     og_jwk = \<lparr>jk_kty = [], jk_crv = [], jk_x = [], jk_use = [], jk_alg = [], jk_kid = []\<rparr>\<rparr>"

definition oidc_demo_alice :: user_rec where
  "oidc_demo_alice = \<lparr>us_username = ''alice'', us_password_hash = Some ''secret12'', us_password = None,
     us_sub = Some ''u42'', us_email = None, us_caps = Some [''admin'']\<rparr>"

definition oidc_demo_state :: oidc_state where
  "oidc_demo_state = \<lparr>os_codes = Map.empty, os_users = FileText (oidc_demo_text [oidc_demo_alice] @ lf)\<rparr>"

definition oidc_demo_env :: oidc_env where
  "oidc_demo_env = \<lparr>oe_now = 1000, oe_code = Some ''code1'', oe_hash = Some, oe_save_ok = True\<rparr>"

definition oidc_demo_form :: register_form_data where
  "oidc_demo_form = \<lparr>fm_username = ''u42'', fm_password = ''password'', fm_response_type = ''code'',
     fm_client_id = ''web'', fm_redirect_uri = ''https://w'', fm_scope = None, fm_state = None,
     fm_code_challenge = ''cx'', fm_code_challenge_method = ''S256'', fm_password2 = ''password''\<rparr>"

definition oidc_demo_token :: token_form where
  "oidc_demo_token = \<lparr>tf_grant_type = ''authorization_code'', tf_sub = None, tf_sid = None, tf_scope = None,
     tf_code = Some ''code1'', tf_redirect_uri = Some ''https://w'', tf_code_verifier = Some ''x''\<rparr>"

lemmas oidc_demo_defs =
  oidc_demo_lib_def oidc_demo_config_def oidc_demo_env_def oidc_demo_form_def oidc_demo_token_def

lemma oidc_demo_texts:
  "trim ''u42'' = ''u42''" "trim ''cx'' = ''cx''" "is_valid_username ''u42''"
  "basic_auth oidc_demo_lib (Some (Some ''Basic web:s'')) = Some (''web'', ''s'')"
  by code_simp+

lemma oidc_demo_load:
  "load_userdb oidc_demo_lib (os_users oidc_demo_state) = Some [oidc_demo_alice]"
  by (simp add: load_userdb_def oidc_demo_state_def oidc_demo_lib_def oidc_demo_json)

lemma oidc_demo_valid: "validate_authorize_req oidc_demo_config (query_of_form oidc_demo_form) = None"
  by (simp add: validate_authorize_req_def query_of_form_def authorize_enabled_def validate_redirect_uri_def
      oidc_demo_defs oidc_demo_texts)

definition oidc_demo_request :: oidc_req where "oidc_demo_request = RegisterPost oidc_demo_form"

lemma oidc_demo_fields:
  "ol_sign oidc_demo_lib = (\<lambda>c. Inr (cl_sub c))" "ol_challenge oidc_demo_lib v = ''c'' @ v"
  "og_client_id oidc_demo_config = ''web''" "og_client_secret oidc_demo_config = ''s''"
  "og_token_ttl_s oidc_demo_config = 3600" "og_auth_code_ttl_s oidc_demo_config = 300"
  "og_allow_registration oidc_demo_config" "og_users_path oidc_demo_config = Some ''u''"
  "oe_now oidc_demo_env = 1000" "oe_save_ok oidc_demo_env" "oe_code oidc_demo_env = Some ''code1''"
  "hash_password_phc oidc_demo_env ''password'' = Some ''password''"
  "trim (fm_username oidc_demo_form) = ''u42''" "fm_password oidc_demo_form = ''password''"
  "fm_password2 oidc_demo_form = ''password''" "us_username oidc_demo_alice \<noteq> ''u42''"
  "tf_grant_type oidc_demo_token = ''authorization_code''" "tf_code oidc_demo_token = Some ''code1''"
  "tf_redirect_uri oidc_demo_token = Some ''https://w''" "tf_code_verifier oidc_demo_token = Some ''x''"
  by (simp_all add: oidc_demo_defs oidc_demo_alice_def oidc_demo_texts hash_password_phc_def)

lemma oidc_demo_register:
  "os_codes (oidc_after oidc_demo_lib oidc_demo_config [(oidc_demo_env, oidc_demo_request)] oidc_demo_state) ''code1''
     = Some (auth_code_of oidc_demo_env oidc_demo_form ''u42'' None None)"
  using oidc_demo_valid oidc_demo_load oidc_demo_texts(3)
  by (simp add: oidc_after_def oidc_step_def oidc_demo_request_def register_post_def save_userdb_atomic_def
      oidc_demo_fields Let_def)

lemma oidc_demo_redeem:
  assumes "os_codes st ''code1'' = Some (auth_code_of oidc_demo_env oidc_demo_form ''u42'' None None)"
  shows "oidc_step oidc_demo_lib oidc_demo_config
      (oidc_demo_env, TokenPost (Some (Some ''Basic web:s'')) oidc_demo_token) st =
    (RsToken \<lparr>tr_access_token = ''u42'', tr_token_type = ''Bearer'', tr_expires_in = 3600, tr_scope = None,
       tr_id_token = None\<rparr>,
     st\<lparr>os_codes := (os_codes st)(''code1'' := None)\<rparr>)"
proof -
  have "split_whitespace [] = []" by code_simp
  moreover have "au_created_unix ac = 1000" "au_redirect_uri ac = ''https://w''" "au_code_challenge ac = ''cx''"
      "au_scope ac = None" "au_sub ac = ''u42''"
    if "ac = auth_code_of oidc_demo_env oidc_demo_form ''u42'' None None" for ac
    by (simp_all add: that auth_code_of_def oidc_demo_defs)
  ultimately show ?thesis
    using assms oidc_demo_texts(4)
    by (simp add: oidc_step_def oidc_token_def token_for_code_def access_claims_def Let_def oidc_demo_fields)
qed

lemmas oidc_demo_token_run = oidc_demo_redeem [OF oidc_demo_register]

text \<open>Registering a name that is the subject of another user gives tokens with that user's subject.\<close>

lemma registered_name_is_anothers_subject:
  "subject_of oidc_demo_alice = ''u42'' \<and> us_username oidc_demo_alice \<noteq> fm_username oidc_demo_form \<and>
   au_sub (the (os_codes (oidc_after oidc_demo_lib oidc_demo_config [(oidc_demo_env, oidc_demo_request)]
     oidc_demo_state) ''code1'')) = subject_of oidc_demo_alice"
  by (simp add: oidc_demo_register auth_code_of_def subject_of_def oidc_demo_alice_def oidc_demo_form_def)

lemma tokens_come_from_sign_ins_witness:
  "\<exists>code ac pre r post verifier.
    [(oidc_demo_env, oidc_demo_request)] = pre @ r # post \<and>
    vouched oidc_demo_lib oidc_demo_config r (oidc_after oidc_demo_lib oidc_demo_config pre oidc_demo_state) code ac \<and>
    ol_challenge oidc_demo_lib verifier = au_code_challenge ac \<and> tf_code oidc_demo_token = Some code"
proof -
  have "tf_grant_type oidc_demo_token = ''authorization_code''" "os_codes oidc_demo_state = Map.empty"
    by (simp_all add: oidc_demo_token_def oidc_demo_state_def)
  from tokens_come_from_sign_ins [OF oidc_demo_token_run this] show ?thesis by blast
qed

lemma users_keep_identity_witness:
  "\<exists>vs. load_userdb oidc_demo_lib (os_users (oidc_after oidc_demo_lib oidc_demo_config
      [(oidc_demo_env, oidc_demo_request)] oidc_demo_state)) = Some vs \<and>
    users_grow oidc_demo_config [oidc_demo_alice] vs"
  by (rule users_keep_identity [OF oidc_demo_load]) (simp_all add: oidc_demo_lib_def oidc_demo_json)

section \<open>Pages\<close>

lemma replace_char_mem: "x \<in> set (replace_char c r s) \<longleftrightarrow> (x \<in> set s \<and> x \<noteq> c) \<or> (c \<in> set s \<and> x \<in> set r)"
  by (auto simp: replace_char_def split: if_splits)

text \<open>What is put into a page cannot open a tag or end a quoted attribute.\<close>

lemma html_escape_inert: "set (html_escape s) \<inter> {CHR ''<'', CHR ''>'', CHR 0x22, CHR 0x27} = {}"
  by (auto simp: html_escape_def replace_char_mem)

end
