(* ===== verification/WsGateway.thy ===== *)
theory WsGateway
  imports BrokerRun
begin

text \<open>
  The WebSocket gateway (\<open>apps/ws_gateway/src/main.rs\<close>): the sockets of its clients, which speak JSON in
  text frames or the shard's messages in binary frames, the table of sessions, and the task that talks to
  the shard. JSON and flatbuffers are parameters. A frame of a client and a frame of the shard are one
  step each; between the insertion into the table and the message to the shard only the link may come up,
  and then the shard is told of the session twice.
\<close>

section \<open>State\<close>

datatype ws_mode = ModeJson | ModeFbs

datatype outbound = JsonText string | FbsBin "u8 list"

text \<open>The sending end of a client's channel is the number of the connection.\<close>

record client_info =
  gi_mode :: ws_mode
  gi_tx :: nat
  gi_attach_body :: "u8 list"

datatype json_in =
    JiAttach string bool "string option" "string option" "string option" "string option"
  | JiInput string
  | JiDetach
  | JiPing

datatype json_out = JoHello string | JoAttached string | JoOutput string | JoErr string | JoPong

record ws_lib =
  wl_json_in :: "string \<Rightarrow> json_in option"
  wl_json_out :: "json_out \<Rightarrow> string option"
  wl_frame :: "u8 list \<Rightarrow> u8 \<times> u8 list option \<times> u8 list option"
  wl_frame_buf :: "u8 \<Rightarrow> u8 list \<Rightarrow> u8 list \<Rightarrow> u8 list"
  wl_iter :: "(session_id \<Rightarrow> bool) \<Rightarrow> session_id list"

record ws_conn =
  wc_mode :: ws_mode
  wc_session :: "session_id option"

record gateway =
  gw_clients :: "session_id \<rightharpoonup> client_info"
  gw_conns :: "nat \<rightharpoonup> ws_conn"
  gw_sent :: "(nat \<times> outbound) list"
  gw_hist :: "shard_msg list"

section \<open>Texts and queues\<close>

definition sid_hex :: "session_id \<Rightarrow> string" where
  "sid_hex s = concat (map (\<lambda>x. [hex_digit (unat x div 16), hex_digit (unat x mod 16)]) (session_to_be_bytes s))"

definition json_text :: "ws_lib \<Rightarrow> json_out \<Rightarrow> string" where
  "json_text L o' = (case wl_json_out L o' of Some s \<Rightarrow> s | None \<Rightarrow> [])"

definition ws_queue :: "nat \<Rightarrow> outbound \<Rightarrow> gateway \<Rightarrow> gateway" where
  "ws_queue n m g = g\<lparr>gw_sent := gw_sent g @ [(n, m)]\<rparr>"

definition ws_tell :: "u8 \<Rightarrow> session_id \<Rightarrow> u8 list \<Rightarrow> gateway \<Rightarrow> gateway" where
  "ws_tell t s body g = g\<lparr>gw_hist := gw_hist g @ [\<lparr>sm_t = t, sm_session = s, sm_body = body\<rparr>]\<rparr>"

definition client_insert :: "session_id \<Rightarrow> client_info \<Rightarrow> gateway \<Rightarrow> gateway" where
  "client_insert s ci g = g\<lparr>gw_clients := (gw_clients g)(s \<mapsto> ci)\<rparr>"

definition client_remove :: "session_id \<Rightarrow> gateway \<Rightarrow> gateway" where
  "client_remove s g = g\<lparr>gw_clients := (gw_clients g)(s := None)\<rparr>"

section \<open>Frames of a client\<close>

definition ws_open :: "ws_lib \<Rightarrow> nat \<Rightarrow> gateway \<Rightarrow> ws_conn \<times> gateway" where
  "ws_open L n g =
     (\<lparr>wc_mode = ModeJson, wc_session = None\<rparr>, ws_queue n (JsonText (json_text L (JoHello ''json''))) g)"

text \<open>
  A text frame. \<open>sid\<close> is the identifier drawn if the frame attaches; \<open>None\<close> for the connection says that
  its task has panicked, in \<open>shard_attach_body_with_build\<close>.
\<close>

definition ws_attach ::
  "ws_lib \<Rightarrow> session_id \<Rightarrow> nat \<Rightarrow> u8 list option \<Rightarrow> ws_conn \<Rightarrow> gateway \<Rightarrow> ws_conn option \<times> gateway" where
  "ws_attach L sid n body c g =
     (if wc_session c \<noteq> None then (Some c, g)
      else
        (case body of
           None \<Rightarrow> (None, g)
         | Some body \<Rightarrow>
             (Some (c\<lparr>wc_session := Some sid\<rparr>),
              ws_queue n (JsonText (json_text L (JoAttached (sid_hex sid))))
                (ws_tell REQ_ATTACH sid body
                  (client_insert sid \<lparr>gi_mode = ModeJson, gi_tx = n, gi_attach_body = body\<rparr> g)))))"

definition ws_text :: "ws_lib \<Rightarrow> session_id \<Rightarrow> string \<Rightarrow> nat \<Rightarrow> ws_conn \<Rightarrow> gateway \<Rightarrow> ws_conn option \<times> gateway" where
  "ws_text L sid s n c g =
     (if wc_mode c \<noteq> ModeJson then (Some c, g)
      else
        (case wl_json_in L s of
           None \<Rightarrow> (Some c, ws_queue n (JsonText (json_text L (JoErr ''bad json''))) g)
         | Some (JiAttach name is_bot race cls sex pronouns) \<Rightarrow>
             ws_attach L sid n (gateway_attach_body is_bot (trim name) race cls sex pronouns) c g
         | Some (JiInput line) \<Rightarrow>
             (Some c,
              (case wc_session c of None \<Rightarrow> g | Some s \<Rightarrow> ws_tell REQ_INPUT s (str_bytes line) g))
         | Some JiDetach \<Rightarrow>
             (case wc_session c of
                None \<Rightarrow> (Some c, g)
              | Some s \<Rightarrow> (Some (c\<lparr>wc_session := None\<rparr>), ws_tell REQ_DETACH s [] (client_remove s g)))
         | Some JiPing \<Rightarrow> (Some c, ws_queue n (JsonText (json_text L JoPong)) g)))"

text \<open>A binary frame names its session itself; only the first one of a connection must attach.\<close>

definition ws_binary :: "ws_lib \<Rightarrow> u8 list \<Rightarrow> nat \<Rightarrow> ws_conn \<Rightarrow> gateway \<Rightarrow> ws_conn \<times> gateway" where
  "ws_binary L buf n c g =
     (let c = c\<lparr>wc_mode := ModeFbs\<rparr>; (t, sess_v, body_v) = wl_frame L buf in
      case sess_v of
        None \<Rightarrow> (c, g)
      | Some v \<Rightarrow>
          if length v \<noteq> 16 then (c, g)
          else
            (let sid = session_from_be_bytes v; body = (case body_v of None \<Rightarrow> [] | Some b \<Rightarrow> b) in
             if wc_session c = None then
               (if t \<noteq> REQ_ATTACH then (c, g)
                else (c\<lparr>wc_session := Some sid\<rparr>,
                      ws_tell t sid body
                        (client_insert sid \<lparr>gi_mode = ModeFbs, gi_tx = n, gi_attach_body = body\<rparr> g)))
             else (c, ws_tell t sid body g)))"

definition ws_close :: "ws_conn \<Rightarrow> gateway \<Rightarrow> gateway" where
  "ws_close c g =
     (case wc_session c of None \<Rightarrow> g | Some s \<Rightarrow> ws_tell REQ_DETACH s [] (client_remove s g))"

section \<open>The link to the shard\<close>

definition ws_reattach :: "ws_lib \<Rightarrow> gateway \<Rightarrow> u8 list list" where
  "ws_reattach L g =
     map (\<lambda>s. write_req REQ_ATTACH s (gi_attach_body (the (gw_clients g s)))) (map_keys (wl_iter L) (gw_clients g))"

definition ws_deliver :: "ws_lib \<Rightarrow> u8 \<Rightarrow> (string \<Rightarrow> json_out) \<Rightarrow> session_id \<Rightarrow> u8 list \<Rightarrow> gateway \<Rightarrow> gateway" where
  "ws_deliver L t mk s line g =
     (case gw_clients g s of
        None \<Rightarrow> g
      | Some ci \<Rightarrow>
          (case gi_mode ci of
             ModeJson \<Rightarrow>
               (case wl_json_out L (mk (utf8_lossy (bytes_str line))) of
                  None \<Rightarrow> g
                | Some m \<Rightarrow> ws_queue (gi_tx ci) (JsonText m) g)
           | ModeFbs \<Rightarrow> ws_queue (gi_tx ci) (FbsBin (wl_frame_buf L t (session_to_be_bytes s) line)) g))"

definition ws_route_resp :: "ws_lib \<Rightarrow> shard_resp \<Rightarrow> gateway \<Rightarrow> gateway" where
  "ws_route_resp L resp g =
     (case resp of
        Output s line \<Rightarrow> ws_deliver L RESP_OUTPUT JoOutput s line g
      | RespErr s msg \<Rightarrow> ws_deliver L RESP_ERR JoErr s msg g)"

definition ws_shard_frame :: "ws_lib \<Rightarrow> u8 list \<Rightarrow> gateway \<Rightarrow> gateway option" where
  "ws_shard_frame L frame g =
     (case parse_resp frame of
        None \<Rightarrow> None
      | Some (Inl e) \<Rightarrow> Some g
      | Some (Inr resp) \<Rightarrow> Some (ws_route_resp L resp g))"

section \<open>Runs\<close>

definition gw_start :: gateway where
  "gw_start = \<lparr>gw_clients = Map.empty, gw_conns = Map.empty, gw_sent = [], gw_hist = []\<rparr>"

definition frame_session :: "ws_lib \<Rightarrow> u8 list \<Rightarrow> session_id option" where
  "frame_session L buf =
     (case fst (snd (wl_frame L buf)) of
        None \<Rightarrow> None
      | Some v \<Rightarrow> if length v = 16 then Some (session_from_be_bytes v) else None)"

text \<open>
  \<open>S\<close> has the sessions that binary frames name. The number of a connection is not used again, and the
  identifier drawn for a client that attaches by a text frame is new.
\<close>

inductive gw_step :: "ws_lib \<Rightarrow> session_id set \<Rightarrow> gateway \<Rightarrow> gateway \<Rightarrow> bool"
  for L :: ws_lib and S :: "session_id set" where
  opened: "n \<notin> fst ` set (gw_sent g) \<Longrightarrow> gw_conns g n = None \<Longrightarrow> ws_open L n g = (c, g') \<Longrightarrow>
    gw_step L S g (g'\<lparr>gw_conns := (gw_conns g')(n \<mapsto> c)\<rparr>)"
| text_frame: "gw_conns g n = Some c \<Longrightarrow> sid \<notin> sm_session ` set (gw_hist g) \<Longrightarrow>
    ws_text L sid s n c g = (c', g') \<Longrightarrow> gw_step L S g (g'\<lparr>gw_conns := (gw_conns g')(n := c')\<rparr>)"
| binary_frame: "gw_conns g n = Some c \<Longrightarrow> set_option (frame_session L buf) \<subseteq> S \<Longrightarrow>
    ws_binary L buf n c g = (c', g') \<Longrightarrow> gw_step L S g (g'\<lparr>gw_conns := (gw_conns g')(n \<mapsto> c')\<rparr>)"
| hangup: "gw_conns g n = Some c \<Longrightarrow>
    gw_step L S g ((ws_close c g)\<lparr>gw_conns := (gw_conns (ws_close c g))(n := None)\<rparr>)"
| shard_frame_in: "ws_shard_frame L frame g = Some g' \<Longrightarrow> gw_step L S g g'"

definition gw_run :: "ws_lib \<Rightarrow> session_id set \<Rightarrow> gateway \<Rightarrow> bool" where
  "gw_run L S g \<longleftrightarrow> (gw_step L S)\<^sup>*\<^sup>* gw_start g"


section \<open>What the frames change\<close>

lemma ws_queue_fields [simp]:
  "gw_clients (ws_queue n m g) = gw_clients g" "gw_conns (ws_queue n m g) = gw_conns g"
  "gw_hist (ws_queue n m g) = gw_hist g" "gw_sent (ws_queue n m g) = gw_sent g @ [(n, m)]"
  by (simp_all add: ws_queue_def)

lemma ws_tell_fields [simp]:
  "gw_clients (ws_tell t s body g) = gw_clients g" "gw_conns (ws_tell t s body g) = gw_conns g"
  "gw_hist (ws_tell t s body g) = gw_hist g @ [\<lparr>sm_t = t, sm_session = s, sm_body = body\<rparr>]"
  by (simp_all add: ws_tell_def)

lemma client_change_fields [simp]:
  "gw_clients (client_insert s ci g) = (gw_clients g)(s \<mapsto> ci)" "gw_conns (client_insert s ci g) = gw_conns g"
  "gw_hist (client_insert s ci g) = gw_hist g"
  "gw_clients (client_remove s g) = (gw_clients g)(s := None)" "gw_conns (client_remove s g) = gw_conns g"
  "gw_hist (client_remove s g) = gw_hist g"
  by (simp_all add: client_insert_def client_remove_def)

lemma ws_route_resp_fields [simp]:
  "gw_clients (ws_route_resp L resp g) = gw_clients g" "gw_conns (ws_route_resp L resp g) = gw_conns g"
  "gw_hist (ws_route_resp L resp g) = gw_hist g"
  by (simp_all add: ws_route_resp_def ws_deliver_def split: shard_resp.split option.split ws_mode.split)

definition same_book :: "gateway \<Rightarrow> gateway \<Rightarrow> bool" where
  "same_book g g' \<longleftrightarrow> gw_clients g' = gw_clients g \<and> gw_conns g' = gw_conns g \<and> gw_hist g' = gw_hist g"

lemma ws_attach_cases:
  assumes "ws_attach L sid n body c g = (c', g')"
  obtains (quiet) "same_book g g'" "c' = Some c"
  | (died) "same_book g g'" "c' = None" "wc_session c = None"
  | (attach) body' where "wc_session c = None" "c' = Some (c\<lparr>wc_session := Some sid\<rparr>)" "gw_conns g' = gw_conns g"
      "gw_clients g' = (gw_clients g)(sid \<mapsto> \<lparr>gi_mode = ModeJson, gi_tx = n, gi_attach_body = body'\<rparr>)"
      "gw_hist g' = gw_hist g @ [\<lparr>sm_t = REQ_ATTACH, sm_session = sid, sm_body = body'\<rparr>]"
  using assms by (cases body; cases "wc_session c") (auto simp: ws_attach_def same_book_def)

lemma ws_text_cases:
  assumes "ws_text L sid s n c g = (c', g')"
  obtains (quiet) "same_book g g'" "c' = Some c"
  | (died) "same_book g g'" "c' = None" "wc_session c = None"
  | (attach) body where "wc_session c = None" "c' = Some (c\<lparr>wc_session := Some sid\<rparr>)" "gw_conns g' = gw_conns g"
      "gw_clients g' = (gw_clients g)(sid \<mapsto> \<lparr>gi_mode = ModeJson, gi_tx = n, gi_attach_body = body\<rparr>)"
      "gw_hist g' = gw_hist g @ [\<lparr>sm_t = REQ_ATTACH, sm_session = sid, sm_body = body\<rparr>]"
  | (input) s' body where "wc_session c = Some s'" "c' = Some c" "gw_conns g' = gw_conns g"
      "gw_clients g' = gw_clients g" "gw_hist g' = gw_hist g @ [\<lparr>sm_t = REQ_INPUT, sm_session = s', sm_body = body\<rparr>]"
  | (detach) s' where "wc_session c = Some s'" "c' = Some (c\<lparr>wc_session := None\<rparr>)" "gw_conns g' = gw_conns g"
      "gw_clients g' = (gw_clients g)(s' := None)"
      "gw_hist g' = gw_hist g @ [\<lparr>sm_t = REQ_DETACH, sm_session = s', sm_body = []\<rparr>]"
proof (cases "wc_mode c = ModeJson")
  case False
  then show ?thesis using assms by (intro quiet) (auto simp: ws_text_def same_book_def)
next
  case True
  note json = this
  show ?thesis
  proof (cases "wl_json_in L s")
    case None
    then show ?thesis using assms json by (intro quiet) (auto simp: ws_text_def same_book_def)
  next
    case (Some j)
    show ?thesis
    proof (cases j)
      case (JiAttach name is_bot race cls sex pronouns)
      with Some json assms have
        "ws_attach L sid n (gateway_attach_body is_bot (trim name) race cls sex pronouns) c g = (c', g')"
        by (simp add: ws_text_def)
      then show ?thesis by (cases rule: ws_attach_cases) (fact quiet died attach)+
    next
      case (JiInput line)
      show ?thesis
      proof (cases "wc_session c")
        case None
        then show ?thesis using assms json Some JiInput by (intro quiet) (auto simp: ws_text_def same_book_def)
      next
        case (Some s')
        then show ?thesis
          using assms json \<open>wl_json_in L s = Some j\<close> JiInput by (intro input[of s' "str_bytes line"]) (auto simp: ws_text_def)
      qed
    next
      case JiDetach
      show ?thesis
      proof (cases "wc_session c")
        case None
        then show ?thesis using assms json Some JiDetach by (intro quiet) (auto simp: ws_text_def same_book_def)
      next
        case (Some s')
        then show ?thesis
          using assms json \<open>wl_json_in L s = Some j\<close> JiDetach by (intro detach[of s']) (auto simp: ws_text_def)
      qed
    next
      case JiPing
      then show ?thesis using assms json Some by (intro quiet) (auto simp: ws_text_def same_book_def)
    qed
  qed
qed

text \<open>A binary frame touches nothing of a session it does not name.\<close>

lemma ws_binary_other:
  assumes "ws_binary L buf n c g = (c', g')" "frame_session L buf \<noteq> Some s"
  shows "gw_clients g' s = gw_clients g s" "gw_conns g' = gw_conns g"
    "session_talk s (gw_hist g') = session_talk s (gw_hist g)" "set (gw_hist g) \<subseteq> set (gw_hist g')"
    "wc_session c' = Some s \<longleftrightarrow> wc_session c = Some s"
  using assms
  by (auto simp: ws_binary_def frame_session_def Let_def session_talk_def split: prod.splits option.splits if_splits)

section \<open>A session of a text client\<close>

definition session_holders :: "gateway \<Rightarrow> session_id \<Rightarrow> nat set" where
  "session_holders g s = {n. \<exists>c. gw_conns g n = Some c \<and> wc_session c = Some s}"

definition gw_private :: "session_id \<Rightarrow> gateway \<Rightarrow> bool" where
  "gw_private s g \<longleftrightarrow>
     (case gw_clients g s of
        None \<Rightarrow>
          session_holders g s = {} \<and>
          (session_talk s (gw_hist g) = [] \<or> (\<exists>t. talking t \<and> session_talk s (gw_hist g) = t @ [REQ_DETACH]))
      | Some ci \<Rightarrow>
          session_holders g s = {gi_tx ci} \<and> gi_mode ci = ModeJson \<and> talking (session_talk s (gw_hist g)) \<and>
          \<lparr>sm_t = REQ_ATTACH, sm_session = s, sm_body = gi_attach_body ci\<rparr> \<in> set (gw_hist g))"

lemma holders_update:
  "session_holders (g\<lparr>gw_conns := m(n \<mapsto> c)\<rparr>) s =
     (if wc_session c = Some s then insert n (session_holders (g\<lparr>gw_conns := m\<rparr>) s)
      else session_holders (g\<lparr>gw_conns := m\<rparr>) s - {n})"
  "session_holders (g\<lparr>gw_conns := m(n := None)\<rparr>) s = session_holders (g\<lparr>gw_conns := m\<rparr>) s - {n}"
  by (auto simp: session_holders_def)

lemma holders_cong: "gw_conns g = gw_conns g' \<Longrightarrow> session_holders g s = session_holders g' s"
  by (simp add: session_holders_def)

text \<open>Who does not have the session, and keeps or gets none, disturbs nothing.\<close>

lemma private_other:
  assumes "gw_private s g" "gw_clients g' s = gw_clients g s" "gw_conns g' = gw_conns g"
    "session_talk s (gw_hist g') = session_talk s (gw_hist g)" "set (gw_hist g) \<subseteq> set (gw_hist g')"
    "n \<in> session_holders g s \<longleftrightarrow> map_option wc_session c' = Some (Some s)"
  shows "gw_private s (g'\<lparr>gw_conns := (gw_conns g')(n := c')\<rparr>)"
proof -
  have "session_holders (g'\<lparr>gw_conns := (gw_conns g')(n := c')\<rparr>) s = session_holders g s"
    using assms(3,6) by (cases c') (auto simp: session_holders_def)
  then show ?thesis
    using assms by (auto simp: gw_private_def split: option.splits)
qed

lemma holder_iff: "gw_conns g n = Some c \<Longrightarrow> n \<in> session_holders g s \<longleftrightarrow> wc_session c = Some s"
  by (simp add: session_holders_def)

text \<open>A connection with the session gives it up.\<close>

lemma private_detach:
  assumes "gw_private s g" "gw_conns g n = Some c" "wc_session c = Some s'" "gw_clients g' = (gw_clients g)(s' := None)"
    "gw_conns g' = gw_conns g" "gw_hist g' = gw_hist g @ [\<lparr>sm_t = REQ_DETACH, sm_session = s', sm_body = []\<rparr>]"
    "map_option wc_session c' \<in> {None, Some None}"
  shows "gw_private s (g'\<lparr>gw_conns := (gw_conns g')(n := c')\<rparr>)"
proof (cases "s' = s")
  case True
  then have n: "n \<in> session_holders g s" using assms(2,3) by (simp add: holder_iff)
  then obtain ci where ci: "gw_clients g s = Some ci" "session_holders g s = {n}" "talking (session_talk s (gw_hist g))"
    using assms(1) by (auto simp: gw_private_def split: option.splits)
  have "session_holders (g'\<lparr>gw_conns := (gw_conns g')(n := c')\<rparr>) s = session_holders g s - {n}"
    using assms(5,7) by (cases c') (auto simp: session_holders_def)
  then show ?thesis using ci True assms(4,6) by (simp add: gw_private_def talk_append session_talk_def)
next
  case False
  then show ?thesis
    using assms by (intro private_other[OF assms(1)]) (auto simp: session_talk_def holder_iff)
qed

lemma gw_step_private:
  assumes "gw_step L S g g'" "gw_private s g" "s \<notin> S"
  shows "gw_private s g'"
  using assms(1)
proof cases
  case (opened n c h)
  then have "c = \<lparr>wc_mode = ModeJson, wc_session = None\<rparr>" "same_book g h"
    by (auto simp: ws_open_def same_book_def)
  then show ?thesis
    unfolding opened(1) using opened(3)
    by (intro private_other[OF assms(2)]) (auto simp: same_book_def session_holders_def)
next
  case (binary_frame n c buf c' h)
  then have "frame_session L buf \<noteq> Some s" using assms(3) by (cases "frame_session L buf") auto
  note other = ws_binary_other[OF binary_frame(4) this]
  show ?thesis
    unfolding binary_frame(1)
    by (intro private_other[OF assms(2)]) (use other holder_iff[OF binary_frame(2)] in simp_all)
next
  case (hangup n c)
  show ?thesis
  proof (cases "wc_session c")
    case None
    then show ?thesis
      unfolding hangup(1) using holder_iff[OF hangup(2)]
      by (intro private_other[OF assms(2)]) (auto simp: ws_close_def)
  next
    case (Some s')
    show ?thesis
      unfolding hangup(1)
      by (rule private_detach[OF assms(2) hangup(2) Some]) (simp_all add: ws_close_def Some)
  qed
next
  case (shard_frame_in frame)
  then have "same_book g g'"
    by (auto simp: ws_shard_frame_def same_book_def split: option.splits sum.splits)
  then show ?thesis
    using assms(2) holders_cong[of g' g] by (simp add: same_book_def gw_private_def split: option.splits)
next
  case (text_frame n c sid line c' h)
  note own = holder_iff[OF text_frame(2)]
  from text_frame(4) show ?thesis
  proof (cases rule: ws_text_cases)
    case quiet
    then show ?thesis
      unfolding text_frame(1) using own by (intro private_other[OF assms(2)]) (auto simp: same_book_def)
  next
    case died
    then show ?thesis
      unfolding text_frame(1) using own by (intro private_other[OF assms(2)]) (auto simp: same_book_def)
  next
    case (detach s')
    show ?thesis
      unfolding text_frame(1)
      by (rule private_detach[OF assms(2) text_frame(2) detach(1)]) (simp_all add: detach)
  next
    case (input s' body)
    show ?thesis
    proof (cases "s' = s")
      case False
      then show ?thesis
        unfolding text_frame(1) using own input
        by (intro private_other[OF assms(2)]) (auto simp: session_talk_def)
    next
      case True
      then have "n \<in> session_holders g s" using own input(1) by simp
      moreover have "session_holders (h\<lparr>gw_conns := (gw_conns h)(n := c')\<rparr>) s = session_holders g s"
        using input text_frame(2) by (auto simp: session_holders_def)
      ultimately show ?thesis
        unfolding text_frame(1) using assms(2) input True
        by (auto simp: gw_private_def talk_append session_talk_def[of _ "[_]"] talking_input split: option.splits)
    qed
  next
    case (attach body)
    show ?thesis
    proof (cases "sid = s")
      case False
      then show ?thesis
        unfolding text_frame(1) using own attach
        by (intro private_other[OF assms(2)]) (auto simp: session_talk_def)
    next
      case True
      then have quiet: "session_talk s (gw_hist g) = []"
        using text_frame(3) by (auto simp: session_talk_def filter_empty_conv)
      then have "session_holders g s = {}"
        using assms(2) by (auto simp: gw_private_def talking_def split: option.splits)
      then have "session_holders (h\<lparr>gw_conns := (gw_conns h)(n := c')\<rparr>) s = {n}"
        using attach True by (auto simp: session_holders_def)
      moreover have "talking [REQ_ATTACH]" by (auto simp: talking_def intro: exI[of _ 0])
      ultimately show ?thesis
        unfolding text_frame(1) using attach True quiet
        by (simp add: gw_private_def talk_append session_talk_def[of _ "[_]"])
    qed
  qed
qed

lemma gw_run_private:
  assumes "gw_run L S g" "s \<notin> S"
  shows "gw_private s g"
  using assms(1) unfolding gw_run_def
proof (induction rule: rtranclp_induct)
  case base
  show ?case by (simp add: gw_private_def gw_start_def session_holders_def session_talk_def)
next
  case (step g g')
  then show ?case using gw_step_private assms(2) by blast
qed

definition resp_session :: "shard_resp \<Rightarrow> session_id" where
  "resp_session resp = (case resp of Output s _ \<Rightarrow> s | RespErr s _ \<Rightarrow> s)"

lemma delivered:
  "\<exists>ms. gw_sent (ws_route_resp L resp g) = gw_sent g @ ms \<and> length ms \<le> 1 \<and>
    fst ` set ms \<subseteq> gi_tx ` set_option (gw_clients g (resp_session resp))"
  by (cases "gw_clients g (resp_session resp)")
    (auto simp: ws_route_resp_def ws_deliver_def resp_session_def split: shard_resp.split option.split ws_mode.split)

text \<open>
  C21. The session of a client that attached by a text frame is its own, as long as no binary frame
  names it: the connection in the table is the one connection that has the session; the shard hears of
  it one attachment, then inputs, then at most one detachment; what the shard answers is queued at most
  once and for no other connection; and attaching again repeats the message that attached it.
\<close>
theorem gateway_sessions_are_private:
  assumes "gw_run L S g" "resp_session resp = s" "s \<notin> S"
  shows "session_holders g s = gi_tx ` set_option (gw_clients g s)
    \<and> talk_in_order (session_talk s (gw_hist g))
    \<and> (\<exists>ms. gw_sent (ws_route_resp L resp g) = gw_sent g @ ms \<and> length ms \<le> 1 \<and> fst ` set ms \<subseteq> session_holders g s)
    \<and> (\<forall>ci. gw_clients g s = Some ci \<longrightarrow> write_req REQ_ATTACH s (gi_attach_body ci) \<in> msg_payload ` set (gw_hist g))"
proof -
  have ok: "gw_private s g" using gw_run_private[OF assms(1,3)] .
  then have holders: "session_holders g s = gi_tx ` set_option (gw_clients g s)"
    by (auto simp: gw_private_def split: option.splits)
  have "talk_in_order (session_talk s (gw_hist g))"
    using ok by (auto simp: gw_private_def talk_in_order_def split: option.splits)
  moreover have "write_req REQ_ATTACH s (gi_attach_body ci) \<in> msg_payload ` set (gw_hist g)"
    if "gw_clients g s = Some ci" for ci
    using ok that by (force simp: gw_private_def msg_payload_def)
  ultimately show ?thesis using holders delivered[of L resp g] assms(2) by simp
qed

section \<open>A small run\<close>

text \<open>
  For the examples: in the binary frames the first byte is the kind, then the session, then the body; the
  text \<open>a\<close> attaches. The second connection sends binary frames with the session of the first.
\<close>

definition ws_demo_lib :: ws_lib where
  "ws_demo_lib = \<lparr>wl_json_in = (\<lambda>s. if s = ''a'' then Some (JiAttach ''Ann'' False None None None None) else None),
     wl_json_out = (\<lambda>_. Some ''x''), wl_frame = (\<lambda>b. (hd b, Some (take 16 (tl b)), Some (drop 17 b))),
     wl_frame_buf = (\<lambda>_ _ b. b), wl_iter = (\<lambda>P. sorted_list_of_set {x. P x})\<rparr>"

definition ws_demo_frame :: "u8 \<Rightarrow> u8 list" where
  "ws_demo_frame t = t # session_to_be_bytes 7 @ [1]"

definition ws_demo_one :: gateway where
  "ws_demo_one =
     (let g = snd (ws_open ws_demo_lib 1 gw_start);
          g = g\<lparr>gw_conns := (gw_conns g)(1 \<mapsto> \<lparr>wc_mode = ModeJson, wc_session = None\<rparr>)\<rparr>;
          (c, g) = ws_text ws_demo_lib 7 ''a'' 1 \<lparr>wc_mode = ModeJson, wc_session = None\<rparr> g
      in g\<lparr>gw_conns := (gw_conns g)(1 := c)\<rparr>)"

lemma ws_demo_one_run: "gw_run ws_demo_lib S ws_demo_one"
proof -
  let ?c = "\<lparr>wc_mode = ModeJson, wc_session = None\<rparr>" and ?g = "snd (ws_open ws_demo_lib 1 gw_start)"
  let ?h = "?g\<lparr>gw_conns := (gw_conns ?g)(1 \<mapsto> ?c)\<rparr>"
  have "gw_step ws_demo_lib S gw_start ?h"
    by (rule gw_step.opened) (simp_all add: gw_start_def ws_open_def)
  moreover obtain c g where t: "ws_text ws_demo_lib 7 ''a'' 1 ?c ?h = (c, g)"
    by (cases "ws_text ws_demo_lib 7 ''a'' 1 ?c ?h")
  have "gw_step ws_demo_lib S ?h (g\<lparr>gw_conns := (gw_conns g)(1 := c)\<rparr>)"
    by (rule gw_step.text_frame[OF _ _ t]) (simp_all add: gw_start_def ws_open_def ws_queue_def)
  moreover have "ws_demo_one = g\<lparr>gw_conns := (gw_conns g)(1 := c)\<rparr>"
    using t by (simp add: ws_demo_one_def Let_def)
  ultimately show ?thesis unfolding gw_run_def by (metis converse_rtranclp_into_rtranclp rtranclp.rtrancl_refl)
qed

lemma ws_demo_body: "gateway_attach_body False (trim ''Ann'') None None None None = Some [0, 65, 110, 110]"
proof -
  have "trim ''Ann'' = ''Ann''" by code_simp
  then show ?thesis by (simp add: gateway_attach_body_def str_bytes_def)
qed

lemma ws_demo_one_fields:
  "gw_clients ws_demo_one = [7 \<mapsto> \<lparr>gi_mode = ModeJson, gi_tx = 1, gi_attach_body = [0, 65, 110, 110]\<rparr>]"
  "gw_hist ws_demo_one = [\<lparr>sm_t = REQ_ATTACH, sm_session = 7, sm_body = [0, 65, 110, 110]\<rparr>]"
  by (simp_all add: ws_demo_one_def ws_open_def ws_text_def ws_attach_def ws_demo_body gw_start_def
      ws_demo_lib_def)

lemma gateway_sessions_are_private_witness:
  "session_holders ws_demo_one 7 = {1} \<and> talk_in_order (session_talk 7 (gw_hist ws_demo_one))"
  using gateway_sessions_are_private [OF ws_demo_one_run [of "{}"], of "Output 7 []" 7] ws_demo_one_fields
  by (simp add: resp_session_def)

text \<open>
  Binary frames are not held to the session of their connection: the first of another connection can take
  over the entry of a session in the table, and with it what the shard answers, and later ones speak for it.
\<close>

lemma binary_frames_speak_for_others:
  "gw_clients (snd (ws_binary ws_demo_lib (ws_demo_frame REQ_ATTACH) 2 \<lparr>wc_mode = ModeJson, wc_session = None\<rparr> ws_demo_one)) 7
     = Some \<lparr>gi_mode = ModeFbs, gi_tx = 2, gi_attach_body = [1]\<rparr>"
  "session_talk 7 (gw_hist (snd (ws_binary ws_demo_lib (ws_demo_frame REQ_INPUT) 2
     \<lparr>wc_mode = ModeFbs, wc_session = Some 8\<rparr> ws_demo_one))) = [REQ_ATTACH, REQ_INPUT]"
  by (simp_all add: ws_binary_def ws_demo_lib_def ws_demo_frame_def session_talk_def ws_demo_one_fields Let_def)

end
